(* ===== verification/FM_Prelude.thy ===== *)
theory FM_Prelude
  imports Main "HOL-Library.Multiset" "HOL-Library.List_Lexorder" "HOL-Library.Char_ord"
    "HOL-Library.Code_Target_Numeral"
begin

text \<open>
  Generic material shared by every component: the error monad in which thrown JavaScript
  errors are values, traversals of lists in it, the insertion-ordered set that
  \<open>[...new Set(xs)]\<close> computes, and association lists used as JavaScript objects and maps.
  Strings are lists of code units; the order on them is the lexicographic order of code
  units, which is what the JavaScript operators and the default array sort use.
\<close>

named_theorems js_eval "defining equations that evaluate the model on concrete inputs by simp"

declare Let_def [js_eval]

section \<open>Thrown errors as values\<close>

text \<open>
  Every \<open>fail(code, message, details)\<close> of the source throws an error object; its stable part
  is the code and the location it names. A \<open>TypeError\<close> is what the language itself throws.
\<close>

datatype fm_error = Fail (err_code: string) (err_at: string) | TypeError

type_synonym 'a result = "fm_error + 'a"

definition ebind :: "'e + 'a \<Rightarrow> ('a \<Rightarrow> 'e + 'b) \<Rightarrow> 'e + 'b" where
  "ebind m f = (case m of Inl e \<Rightarrow> Inl e | Inr v \<Rightarrow> f v)"

lemma ebind_simps [simp]:
  "ebind (Inl e) f = Inl e"
  "ebind (Inr v) f = f v"
  by (simp_all add: ebind_def)

lemma ebind_Inr_iff: "ebind m f = Inr y \<longleftrightarrow> (\<exists>v. m = Inr v \<and> f v = Inr y)"
  by (cases m) auto

lemma ebind_Inl_iff: "ebind m f = Inl e \<longleftrightarrow> m = Inl e \<or> (\<exists>v. m = Inr v \<and> f v = Inl e)"
  by (cases m) auto

lemma ebind_InrE:
  assumes "ebind m f = Inr y"
  obtains v where "m = Inr v" "f v = Inr y"
  using assms by (auto simp: ebind_Inr_iff)

definition ensure :: "bool \<Rightarrow> 'e \<Rightarrow> 'e + unit" where
  "ensure b e = (if b then Inr () else Inl e)"

lemma ensure_simps [simp]:
  "ensure True e = Inr ()"
  "ensure False e = Inl e"
  by (simp_all add: ensure_def)

lemma ensure_Inr_iff [simp]: "ensure b e = Inr u \<longleftrightarrow> b"
  by (simp add: ensure_def)

lemma ensure_Inl_iff [simp]: "ensure b e = Inl e' \<longleftrightarrow> \<not> b \<and> e' = e"
  by (auto simp: ensure_def)

primrec emap :: "('a \<Rightarrow> 'e + 'b) \<Rightarrow> 'a list \<Rightarrow> 'e + 'b list" where
  "emap f [] = Inr []"
| "emap f (x # xs) = ebind (f x) (\<lambda>y. ebind (emap f xs) (\<lambda>ys. Inr (y # ys)))"

lemma emap_cong [fundef_cong]:
  "xs = ys \<Longrightarrow> (\<And>x. x \<in> set ys \<Longrightarrow> f x = g x) \<Longrightarrow> emap f xs = emap g ys"
  by (induction ys arbitrary: xs) auto

lemma emap_Inr_iff: "emap f xs = Inr ys \<longleftrightarrow> list_all2 (\<lambda>x y. f x = Inr y) xs ys"
  by (induction xs arbitrary: ys) (auto simp: ebind_Inr_iff list_all2_Cons1)

lemma emap_pure: "(\<And>x. x \<in> set xs \<Longrightarrow> f x = Inr (g x)) \<Longrightarrow> emap f xs = Inr (map g xs)"
  by (induction xs) auto

lemma emap_length: "emap f xs = Inr ys \<Longrightarrow> length ys = length xs"
  by (auto simp: emap_Inr_iff dest: list_all2_lengthD)

lemma emap_Inr_set: "emap f xs = Inr ys \<Longrightarrow> y \<in> set ys \<Longrightarrow> \<exists>x\<in>set xs. f x = Inr y"
  by (fastforce simp: emap_Inr_iff list_all2_conv_all_nth in_set_conv_nth)

lemma emap_Inr_dom: "emap f xs = Inr ys \<Longrightarrow> x \<in> set xs \<Longrightarrow> \<exists>y\<in>set ys. f x = Inr y"
  by (fastforce simp: emap_Inr_iff list_all2_conv_all_nth in_set_conv_nth)

lemma emap_total: "(\<exists>ys. emap f xs = Inr ys) \<longleftrightarrow> (\<forall>x\<in>set xs. \<exists>y. f x = Inr y)"
  by (induction xs) (auto simp: ebind_Inr_iff)

section \<open>Insertion-ordered sets\<close>

text \<open>\<open>[...new Set(xs)]\<close> keeps the first occurrence of every value, in order.\<close>

fun dedupe_onto :: "'a list \<Rightarrow> 'a list \<Rightarrow> 'a list" where
  "dedupe_onto seen [] = []"
| "dedupe_onto seen (x # xs) =
     (if x \<in> set seen then dedupe_onto seen xs else x # dedupe_onto (x # seen) xs)"

definition dedupe :: "'a list \<Rightarrow> 'a list" where
  [js_eval]: "dedupe xs = dedupe_onto [] xs"

lemma set_dedupe_onto: "set (dedupe_onto seen xs) = set xs - set seen"
  by (induction seen xs rule: dedupe_onto.induct) auto

lemma distinct_dedupe_onto: "distinct (dedupe_onto seen xs)"
  by (induction seen xs rule: dedupe_onto.induct) (auto simp: set_dedupe_onto)

lemma set_dedupe [simp]: "set (dedupe xs) = set xs"
  by (simp add: dedupe_def set_dedupe_onto)

lemma distinct_dedupe [simp]: "distinct (dedupe xs)"
  by (simp add: dedupe_def distinct_dedupe_onto)

lemma dedupe_onto_id:
  "distinct xs \<Longrightarrow> set xs \<inter> set seen = {} \<Longrightarrow> dedupe_onto seen xs = xs"
  by (induction seen xs rule: dedupe_onto.induct) auto

lemma dedupe_id: "distinct xs \<Longrightarrow> dedupe xs = xs"
  by (simp add: dedupe_def dedupe_onto_id)

lemma dedupe_eq_Nil [simp]: "dedupe xs = [] \<longleftrightarrow> xs = []"
  by (metis list.set(1) set_dedupe set_empty)

lemma length_dedupe_onto: "length (dedupe_onto seen xs) \<le> length xs"
  by (induction seen xs rule: dedupe_onto.induct) auto

lemma length_dedupe: "length (dedupe xs) \<le> length xs"
  by (simp add: dedupe_def length_dedupe_onto)

text \<open>A sorted duplicate-free list is determined by its set of elements.\<close>

lemma sort_distinct_unique:
  fixes xs ys :: "'a::linorder list"
  assumes "distinct xs" "distinct ys" "set xs = set ys"
  shows "sort xs = sort ys"
  using assms by (intro sorted_distinct_set_unique) auto

lemma sort_dedupe_cong:
  fixes xs ys :: "'a::linorder list"
  shows "set xs = set ys \<Longrightarrow> sort (dedupe xs) = sort (dedupe ys)"
  by (intro sort_distinct_unique) auto

section \<open>Association lists as JavaScript objects and maps\<close>

text \<open>
  \<open>assoc_put\<close> is assignment to a property or \<open>Map.prototype.set\<close>: an existing key keeps its
  place in the insertion order, a new key goes to the end.
\<close>

fun assoc_put :: "'k \<Rightarrow> 'v \<Rightarrow> ('k \<times> 'v) list \<Rightarrow> ('k \<times> 'v) list" where
  "assoc_put k v [] = [(k, v)]"
| "assoc_put k v ((k', v') # ps) =
     (if k = k' then (k, v) # ps else (k', v') # assoc_put k v ps)"

lemma map_of_assoc_put [simp]: "map_of (assoc_put k v ps) = (map_of ps)(k \<mapsto> v)"
  by (induction ps) auto

lemma keys_assoc_put: "fst ` set (assoc_put k v ps) = insert k (fst ` set ps)"
  by (simp flip: dom_map_of_conv_image_fst)

lemma distinct_assoc_put: "distinct (map fst ps) \<Longrightarrow> distinct (map fst (assoc_put k v ps))"
  by (induction ps) (auto simp: keys_assoc_put)

lemma map_of_sort_key:
  assumes "distinct (map fst ps)"
  shows "map_of (sort_key f ps) = map_of ps"
  using assms by (intro map_of_eqI) (auto simp: map_of_eq_Some_iff distinct_map)

section \<open>Grouping in first-seen order\<close>

text \<open>
  Pushing every element onto the queue of its key, as the scheduler of the runner does with a
  \<open>Map\<close>: the keys come in first-seen order and every queue in list order.
\<close>

definition group_push :: "('a \<Rightarrow> 'k) \<Rightarrow> ('k \<times> 'a list) list \<Rightarrow> 'a \<Rightarrow> ('k \<times> 'a list) list" where
  [js_eval]: "group_push key qs x =
     assoc_put (key x) ((case map_of qs (key x) of None \<Rightarrow> [] | Some q \<Rightarrow> q) @ [x]) qs"

definition group_by_key :: "('a \<Rightarrow> 'k) \<Rightarrow> 'a list \<Rightarrow> ('k \<times> 'a list) list" where
  [js_eval]: "group_by_key key xs = foldl (group_push key) [] xs"

lemma group_by_key_snoc:
  "group_by_key key (xs @ [x]) = group_push key (group_by_key key xs) x"
  by (simp add: group_by_key_def)

lemma distinct_group_by_key: "distinct (map fst (group_by_key key xs))"
proof (induction xs rule: rev_induct)
  case Nil
  show ?case by (simp add: group_by_key_def)
next
  case (snoc x xs)
  then show ?case by (simp add: group_by_key_snoc group_push_def distinct_assoc_put)
qed

lemma map_of_group_by_key:
  "map_of (group_by_key key xs) k =
     (if k \<in> key ` set xs then Some (filter (\<lambda>x. key x = k) xs) else None)"
proof (induction xs rule: rev_induct)
  case Nil
  show ?case by (simp add: group_by_key_def)
next
  case (snoc x xs)
  then show ?case by (force simp: group_by_key_snoc group_push_def image_iff intro!: filter_False [symmetric])
qed

lemma group_by_key_mem:
  "(k, q) \<in> set (group_by_key key xs) \<longleftrightarrow> k \<in> key ` set xs \<and> q = filter (\<lambda>x. key x = k) xs"
proof -
  have "(k, q) \<in> set (group_by_key key xs) \<longleftrightarrow> map_of (group_by_key key xs) k = Some q"
    by (simp add: distinct_group_by_key)
  then show ?thesis by (auto simp: map_of_group_by_key)
qed

section \<open>Sorting by a comparator\<close>

text \<open>
  \<open>Array.prototype.sort\<close> with a comparator is a stable sort; \<open>le x y\<close> says that the comparator
  does not put \<open>y\<close> strictly before \<open>x\<close>.
\<close>

fun insert_by :: "('a \<Rightarrow> 'a \<Rightarrow> bool) \<Rightarrow> 'a \<Rightarrow> 'a list \<Rightarrow> 'a list" where
  "insert_by le x [] = [x]"
| "insert_by le x (y # ys) = (if le x y then x # y # ys else y # insert_by le x ys)"

definition sort_by :: "('a \<Rightarrow> 'a \<Rightarrow> bool) \<Rightarrow> 'a list \<Rightarrow> 'a list" where
  [js_eval]: "sort_by le xs = foldr (insert_by le) xs []"

lemma mset_insert_by [simp]: "mset (insert_by le x xs) = add_mset x (mset xs)"
  by (induction xs) auto

lemma mset_sort_by [simp]: "mset (sort_by le xs) = mset xs"
  by (induction xs) (simp_all add: sort_by_def)

lemma set_sort_by [simp]: "set (sort_by le xs) = set xs"
  by (metis mset_sort_by set_mset_mset)

lemma length_sort_by [simp]: "length (sort_by le xs) = length xs"
  by (metis mset_sort_by size_mset)

lemma sort_by_sorted: "sorted_wrt le xs \<Longrightarrow> sort_by le xs = xs"
proof (induction xs)
  case Nil
  show ?case by (simp add: sort_by_def)
next
  case (Cons x xs)
  then have "sort_by le xs = xs" by simp
  then show ?case using Cons.prems by (cases xs) (simp_all add: sort_by_def)
qed

end
