(* ===== verification/Js_Text.thy ===== *)
theory Js_Text
  imports FM_Prelude
begin

text \<open>
  The string operations of JavaScript that the program uses: \<open>trim\<close>, \<open>toUpperCase\<close>,
  \<open>toLowerCase\<close>, \<open>padStart\<close>, \<open>slice\<close> from the front, \<open>replaceAll\<close> of one character,
  \<open>String(n)\<close> and \<open>Number(text)\<close> on decimal digits, and the anchored regular expressions of the
  source as boolean functions. A string is a list of code units below 256; the Latin-1 letters
  beyond ASCII are cased as JavaScript does (the sharp s becomes two letters), except the micro
  sign and y with diaeresis, whose upper-case forms lie outside the range and are left alone.
\<close>

section \<open>Characters\<close>

abbreviation code :: "char \<Rightarrow> nat" where
  "code c \<equiv> of_char c"

definition is_digit :: "char \<Rightarrow> bool" where
  [js_eval]: "is_digit c \<longleftrightarrow> 48 \<le> code c \<and> code c \<le> 57"

definition is_upper :: "char \<Rightarrow> bool" where
  [js_eval]: "is_upper c \<longleftrightarrow> 65 \<le> code c \<and> code c \<le> 90"

definition is_lower :: "char \<Rightarrow> bool" where
  [js_eval]: "is_lower c \<longleftrightarrow> 97 \<le> code c \<and> code c \<le> 122"

definition is_hex :: "char \<Rightarrow> bool" where
  [js_eval]: "is_hex c \<longleftrightarrow> is_digit c \<or> (97 \<le> code c \<and> code c \<le> 102)"

definition is_space :: "char \<Rightarrow> bool" where
  [js_eval]: "is_space c \<longleftrightarrow> (9 \<le> code c \<and> code c \<le> 13) \<or> code c = 32 \<or> code c = 160"

definition js_trim :: "string \<Rightarrow> string" where
  [js_eval]: "js_trim s = rev (dropWhile is_space (rev (dropWhile is_space s)))"

definition upper_char :: "char \<Rightarrow> string" where
  [js_eval]: "upper_char c =
     (if is_lower c then [char_of (code c - 32)]
      else if code c = 223 then ''SS''
      else if 224 \<le> code c \<and> code c \<le> 254 \<and> code c \<noteq> 247 then [char_of (code c - 32)]
      else [c])"

definition lower_char :: "char \<Rightarrow> char" where
  [js_eval]: "lower_char c =
     (if is_upper c then char_of (code c + 32)
      else if 192 \<le> code c \<and> code c \<le> 222 \<and> code c \<noteq> 215 then char_of (code c + 32)
      else c)"

definition js_upper :: "string \<Rightarrow> string" where
  [js_eval]: "js_upper s = concat (map upper_char s)"

definition js_lower :: "string \<Rightarrow> string" where
  [js_eval]: "js_lower s = map lower_char s"

section \<open>Decimal digits\<close>

definition digit_char :: "nat \<Rightarrow> char" where
  "digit_char d = char_of (48 + d)"

definition digit_val :: "char \<Rightarrow> nat" where
  [js_eval]: "digit_val c = code c - 48"

fun show_nat :: "nat \<Rightarrow> string" where
  "show_nat n = (if n < 10 then [digit_char n] else show_nat (n div 10) @ [digit_char (n mod 10)])"

declare show_nat.simps [simp del]

definition read_nat :: "string \<Rightarrow> nat" where
  [js_eval]: "read_nat s = foldl (\<lambda>a c. 10 * a + digit_val c) 0 s"

definition pad_start :: "nat \<Rightarrow> string \<Rightarrow> string" where
  [js_eval]: "pad_start k s = replicate (k - length s) CHR ''0'' @ s"

definition show_pad :: "nat \<Rightarrow> nat \<Rightarrow> string" where
  [js_eval]: "show_pad k n = pad_start k (show_nat n)"

declare show_nat.simps [js_eval]

text \<open>Digits as literals, for evaluation.\<close>

lemma digit_char_table [js_eval]:
  "digit_char 0 = CHR ''0''" "digit_char 1 = CHR ''1''" "digit_char 2 = CHR ''2''"
  "digit_char 3 = CHR ''3''" "digit_char 4 = CHR ''4''" "digit_char 5 = CHR ''5''"
  "digit_char 6 = CHR ''6''" "digit_char 7 = CHR ''7''" "digit_char 8 = CHR ''8''"
  "digit_char 9 = CHR ''9''" "digit_char (Suc 0) = CHR ''1''"
  by (simp_all add: digit_char_def char_of_def bit_Suc_0_iff)

lemma digit_char_simps:
  assumes "d < 10"
  shows "is_digit (digit_char d)" "digit_val (digit_char d) = d"
  using assms by (auto simp: is_digit_def digit_char_def digit_val_def)

lemma digit_val_less: "is_digit c \<Longrightarrow> digit_val c < 10"
  by (auto simp: is_digit_def digit_val_def)

lemma digit_char_val: "is_digit c \<Longrightarrow> digit_char (digit_val c) = c"
  by (auto simp: is_digit_def digit_val_def digit_char_def)

lemma read_nat_Nil [simp]: "read_nat [] = 0"
  by (simp add: read_nat_def)

lemma read_nat_snoc [simp]: "read_nat (s @ [c]) = 10 * read_nat s + digit_val c"
  by (simp add: read_nat_def)

lemma show_nat_digits: "list_all is_digit (show_nat n)"
  by (induction n rule: show_nat.induct)
    (subst show_nat.simps, auto simp: digit_char_simps)

lemma show_nat_nonempty [simp]: "show_nat n \<noteq> []"
  by (subst show_nat.simps) simp

lemma read_show_nat [simp]: "read_nat (show_nat n) = n"
proof (induction n rule: show_nat.induct)
  case (1 n)
  show ?case
  proof (cases "n < 10")
    case True
    then show ?thesis
      using digit_char_simps(2) [of n] read_nat_snoc [of "[]" "digit_char n"]
      by (subst show_nat.simps) (simp del: read_nat_snoc)
  next
    case False
    with 1 show ?thesis by (subst show_nat.simps) (simp add: digit_char_simps)
  qed
qed

lemma show_nat_inj: "show_nat m = show_nat n \<Longrightarrow> m = n"
  by (metis read_show_nat)

lemma read_nat_less: "list_all is_digit s \<Longrightarrow> read_nat s < 10 ^ length s"
proof (induction s rule: rev_induct)
  case Nil
  show ?case by simp
next
  case (snoc c s)
  then have "read_nat s < 10 ^ length s" "digit_val c < 10" by (auto simp: digit_val_less)
  then show ?case by simp
qed

lemma length_show_nat: "n < 10 ^ k \<Longrightarrow> 0 < k \<Longrightarrow> length (show_nat n) \<le> k"
proof (induction k arbitrary: n)
  case 0
  then show ?case by simp
next
  case (Suc k)
  show ?case
  proof (cases "n < 10")
    case True
    then show ?thesis by (subst show_nat.simps) simp
  next
    case False
    with Suc.prems have "n div 10 < 10 ^ k" "0 < k"
      by (auto intro!: gr0I simp: less_mult_imp_div_less)
    then have "length (show_nat (n div 10)) \<le> k" by (rule Suc.IH)
    with False show ?thesis by (subst show_nat.simps) simp
  qed
qed

lemma read_nat_replicate_zero [simp]: "read_nat (replicate n CHR ''0'' @ s) = read_nat s"
proof -
  have "foldl (\<lambda>a c. 10 * a + digit_val c) 0 (replicate n CHR ''0'') = 0"
    by (induction n) (simp_all add: digit_val_def)
  then show ?thesis by (simp add: read_nat_def)
qed

lemma read_show_pad [simp]: "read_nat (show_pad k n) = n"
  by (simp add: show_pad_def pad_start_def)

lemma length_show_pad: "n < 10 ^ k \<Longrightarrow> 0 < k \<Longrightarrow> length (show_pad k n) = k"
  using length_show_nat [of n k] by (simp add: show_pad_def pad_start_def)

lemma is_digit_zero [simp]: "is_digit (CHR ''0'')"
  by (simp add: is_digit_def)

lemma show_pad_digits: "list_all is_digit (show_pad k n)"
  using show_nat_digits [of n] by (auto simp: show_pad_def pad_start_def list_all_iff)

lemma digits_eqI:
  assumes "length s = length t" "list_all is_digit s" "list_all is_digit t"
    and "read_nat s = read_nat t"
  shows "s = t"
  using assms
proof (induction s arbitrary: t rule: rev_induct)
  case Nil
  then show ?case by simp
next
  case (snoc c s)
  then have "t \<noteq> []" by auto
  then obtain t' d where t: "t = t' @ [d]" by (cases t rule: rev_cases) auto
  with snoc.prems have digits: "is_digit c" "is_digit d"
    and eq: "10 * read_nat s + digit_val c = 10 * read_nat t' + digit_val d"
    by simp_all
  from digits have "digit_val c < 10" "digit_val d < 10" by (simp_all add: digit_val_less)
  with eq have "read_nat s = read_nat t'" "digit_val c = digit_val d" by presburger+
  with digits have "c = d" by (metis digit_char_val)
  moreover have "s = t'"
    by (rule snoc.IH) (use snoc.prems t \<open>read_nat s = read_nat t'\<close> in auto)
  ultimately show ?case using t by (simp only:)
qed

text \<open>Fixed-width decimal text is determined by its value, and conversely.\<close>

lemma show_pad_read:
  assumes "list_all is_digit s" "length s = k" "0 < k"
  shows "show_pad k (read_nat s) = s"
  using assms read_nat_less [of s]
  by (intro digits_eqI) (simp_all add: length_show_pad show_pad_digits)

section \<open>Anchored patterns\<close>

text \<open>
  \<open>matches_seq\<close> is a pattern of one character class per position; \<open>matches_span\<close> is one class
  repeated between two bounds.
\<close>

definition matches_seq :: "(char \<Rightarrow> bool) list \<Rightarrow> string \<Rightarrow> bool" where
  [js_eval]: "matches_seq ps s = list_all2 (\<lambda>p c. p c) ps s"

definition matches_span :: "(char \<Rightarrow> bool) \<Rightarrow> nat \<Rightarrow> nat \<Rightarrow> string \<Rightarrow> bool" where
  [js_eval]: "matches_span p lo hi s \<longleftrightarrow> lo \<le> length s \<and> length s \<le> hi \<and> list_all p s"

definition is_dash :: "char \<Rightarrow> bool" where
  [js_eval]: "is_dash c \<longleftrightarrow> c = CHR ''-''"

text \<open>\<open>/^[A-Z]{2}[0-9]{4}$/\<close>\<close>

definition store_code_pattern :: "string \<Rightarrow> bool" where
  [js_eval]: "store_code_pattern s =
     matches_seq [is_upper, is_upper, is_digit, is_digit, is_digit, is_digit] s"

text \<open>\<open>/^\d{4}-\d{2}-\d{2}$/\<close>\<close>

definition business_date_pattern :: "string \<Rightarrow> bool" where
  [js_eval]: "business_date_pattern s =
     matches_seq [is_digit, is_digit, is_digit, is_digit, is_dash,
                  is_digit, is_digit, is_dash, is_digit, is_digit] s"

text \<open>\<open>/^[0-9a-f]{64}$/\<close>\<close>

definition hex64_pattern :: "string \<Rightarrow> bool" where
  [js_eval]: "hex64_pattern s = matches_span is_hex 64 64 s"

text \<open>\<open>/^[A-Z][A-Z0-9_]{2,60}$/\<close>\<close>

definition code_char :: "char \<Rightarrow> bool" where
  [js_eval]: "code_char c \<longleftrightarrow> is_upper c \<or> is_digit c \<or> c = CHR ''_''"

definition sanitized_code_pattern :: "string \<Rightarrow> bool" where
  [js_eval]: "sanitized_code_pattern s =
     (case s of [] \<Rightarrow> False | c # cs \<Rightarrow> is_upper c \<and> matches_span code_char 2 60 cs)"

text \<open>\<open>/^(?:0|[1-9][0-9]*)$/\<close>\<close>

definition canonical_nat_pattern :: "string \<Rightarrow> bool" where
  [js_eval]: "canonical_nat_pattern s =
     (case s of [] \<Rightarrow> False
      | c # cs \<Rightarrow> (c = CHR ''0'' \<and> cs = []) \<or> (is_digit c \<and> c \<noteq> CHR ''0'' \<and> list_all is_digit cs))"

lemma matches_seq_length: "matches_seq ps s \<Longrightarrow> length s = length ps"
  by (simp add: matches_seq_def list_all2_lengthD)

lemma matches_seq_Nil [simp]: "matches_seq [] s \<longleftrightarrow> s = []"
  by (simp add: matches_seq_def)

lemma matches_seq_Cons [simp]: "matches_seq (p # ps) s \<longleftrightarrow> (\<exists>c cs. s = c # cs \<and> p c \<and> matches_seq ps cs)"
  by (simp add: matches_seq_def list_all2_Cons1)

lemma read_nat_pattern_less:
  "list_all is_digit s \<Longrightarrow> length s = k \<Longrightarrow> read_nat s < 10 ^ k"
  using read_nat_less by blast

section \<open>Code-unit order\<close>

text \<open>On texts of equal length the order is decided at the first difference.\<close>

lemma str_append_less_iff:
  fixes s t :: string
  assumes "length s = length t"
  shows "s @ u < t @ v \<longleftrightarrow> s < t \<or> (s = t \<and> u < v)"
  using assms
proof (induction s t rule: list_induct2)
  case Nil
  show ?case by simp
next
  case (Cons x xs y ys)
  then show ?case by auto
qed

lemma digit_less_iff:
  "is_digit c \<Longrightarrow> is_digit d \<Longrightarrow> c < d \<longleftrightarrow> digit_val c < digit_val d"
  by (auto simp: is_digit_def digit_val_def less_char_def)

lemma digits_less_iff:
  assumes "length s = length t" "list_all is_digit s" "list_all is_digit t"
  shows "s < t \<longleftrightarrow> read_nat s < read_nat t"
  using assms
proof (induction s arbitrary: t rule: rev_induct)
  case Nil
  then show ?case by simp
next
  case (snoc c s)
  then have "t \<noteq> []" by auto
  then obtain t' d where t: "t = t' @ [d]" by (cases t rule: rev_cases) auto
  with snoc.prems have digits: "is_digit c" "is_digit d" "list_all is_digit s" "list_all is_digit t'"
    and len: "length s = length t'" by simp_all
  have IH: "s < t' \<longleftrightarrow> read_nat s < read_nat t'"
    using snoc.IH len digits by simp
  have eq: "s = t' \<longleftrightarrow> read_nat s = read_nat t'"
    using digits_eqI [of s t'] len digits by auto
  from digits have "digit_val c < 10" "digit_val d < 10" by (simp_all add: digit_val_less)
  then have "read_nat (s @ [c]) < read_nat (t' @ [d]) \<longleftrightarrow>
      read_nat s < read_nat t' \<or> (read_nat s = read_nat t' \<and> digit_val c < digit_val d)"
    by simp presburger
  then show ?case
    using IH eq digits by (simp add: t str_append_less_iff [OF len] digit_less_iff)
qed

section \<open>Splitting and searching\<close>

text \<open>\<open>text.split(sep)\<close> for a separator of one character.\<close>

fun split_on :: "char \<Rightarrow> string \<Rightarrow> string list" where
  "split_on sep [] = [[]]"
| "split_on sep (c # cs) =
     (if c = sep then [] # split_on sep cs
      else case split_on sep cs of [] \<Rightarrow> [[c]] | t # ts \<Rightarrow> (c # t) # ts)"

text \<open>Whether some suffix of a text satisfies \<open>p\<close>: an unanchored search.\<close>

fun found_in :: "(string \<Rightarrow> bool) \<Rightarrow> string \<Rightarrow> bool" where
  "found_in p [] = p []"
| "found_in p (c # cs) = (p (c # cs) \<or> found_in p cs)"

definition starts_with :: "string \<Rightarrow> string \<Rightarrow> bool" where
  [js_eval]: "starts_with p s \<longleftrightarrow> take (length p) s = p"

declare split_on.simps [js_eval] found_in.simps [js_eval]

end
