(* ===== verification/Js_Date.thy ===== *)
theory Js_Date
  imports Js_Text
begin

text \<open>
  JavaScript dates as the program uses them. A time value is an integer number of milliseconds
  since 1970-01-01T00:00:00Z; an invalid date is \<open>None\<close>. The calendar is the proleptic Gregorian
  one of ECMAScript (\<open>DayFromYear\<close>, \<open>YearFromTime\<close>, \<open>MonthFromTime\<close>, \<open>MakeDay\<close>), with the roll-over
  of out-of-range days and months and the two-digit-year rule of \<open>Date.UTC\<close>.
\<close>

section \<open>The calendar\<close>

definition is_leap :: "int \<Rightarrow> bool" where
  [js_eval]: "is_leap y \<longleftrightarrow> (y mod 4 = 0 \<and> y mod 100 \<noteq> 0) \<or> y mod 400 = 0"

definition day_from_year :: "int \<Rightarrow> int" where
  [js_eval]: "day_from_year y =
     365 * (y - 1970) + (y - 1969) div 4 - (y - 1901) div 100 + (y - 1601) div 400"

definition year_length :: "int \<Rightarrow> int" where
  [js_eval]: "year_length y = (if is_leap y then 366 else 365)"

text \<open>First day (counted from 0) of the month \<open>m\<close> (1 to 12) in its year; 13 is the year's end.\<close>

definition month_start :: "bool \<Rightarrow> int \<Rightarrow> int" where
  [js_eval]: "month_start leap m =
     (if m \<le> 1 then 0 else if m = 2 then 31
      else (if leap then 1 else 0) +
        (if m = 3 then 59 else if m = 4 then 90 else if m = 5 then 120 else if m = 6 then 151
         else if m = 7 then 181 else if m = 8 then 212 else if m = 9 then 243
         else if m = 10 then 273 else if m = 11 then 304 else if m = 12 then 334 else 365))"

definition month_length :: "bool \<Rightarrow> int \<Rightarrow> int" where
  [js_eval]: "month_length leap m = month_start leap (m + 1) - month_start leap m"

definition month_of :: "bool \<Rightarrow> int \<Rightarrow> int" where
  [js_eval]: "month_of leap k =
     (if k < month_start leap 2 then 1 else if k < month_start leap 3 then 2
      else if k < month_start leap 4 then 3 else if k < month_start leap 5 then 4
      else if k < month_start leap 6 then 5 else if k < month_start leap 7 then 6
      else if k < month_start leap 8 then 7 else if k < month_start leap 9 then 8
      else if k < month_start leap 10 then 9 else if k < month_start leap 11 then 10
      else if k < month_start leap 12 then 11 else 12)"

definition year_of_day :: "int \<Rightarrow> int" where
  [js_eval]: "year_of_day n =
     (let y = 1970 + (400 * n) div 146097
      in if n < day_from_year y then y - 1
         else if day_from_year (y + 1) \<le> n then y + 1 else y)"

definition civil_of_day :: "int \<Rightarrow> int \<times> int \<times> int" where
  [js_eval]: "civil_of_day n =
     (let y = year_of_day n; k = n - day_from_year y; m = month_of (is_leap y) k
      in (y, m, k - month_start (is_leap y) m + 1))"

text \<open>\<open>make_day y m d\<close> counts \<open>m\<close> from 1 and lets days and months run over, as \<open>MakeDay\<close> does.\<close>

definition make_day :: "int \<Rightarrow> int \<Rightarrow> int \<Rightarrow> int" where
  [js_eval]: "make_day y m d =
     (let y' = y + (m - 1) div 12; m' = (m - 1) mod 12 + 1
      in day_from_year y' + month_start (is_leap y') m' + (d - 1))"

definition valid_civil :: "int \<Rightarrow> int \<Rightarrow> int \<Rightarrow> bool" where
  [js_eval]: "valid_civil y m d \<longleftrightarrow>
     1 \<le> m \<and> m \<le> 12 \<and> 1 \<le> d \<and> d \<le> month_length (is_leap y) m"

lemma div_bounds:
  fixes x k :: int
  assumes "0 < k"
  shows "k * (x div k) \<le> x" "x < k * (x div k) + k"
  using assms pos_mod_bound [of k x] pos_mod_sign [of k x] mult_div_mod_eq [of k x] by linarith+

lemma div_Suc:
  fixes x k :: int
  assumes "0 < k"
  shows "(x + 1) div k = x div k + (if (x + 1) mod k = 0 then 1 else 0)"
proof (cases "x mod k = k - 1")
  case True
  then have e: "x + 1 = k * (x div k + 1) + 0"
    using mult_div_mod_eq [of k x] by (simp add: distrib_left)
  have "(x + 1) div k = x div k + 1" by (rule int_div_pos_eq [OF e]) (use assms in auto)
  moreover have "(x + 1) mod k = 0" by (subst e) simp
  ultimately show ?thesis by simp
next
  case False
  then have r: "0 \<le> x mod k + 1" "x mod k + 1 < k"
    using assms pos_mod_bound [of k x] pos_mod_sign [of k x] by linarith+
  have e: "x + 1 = k * (x div k) + (x mod k + 1)" using mult_div_mod_eq [of k x] by simp
  have "(x + 1) div k = x div k" by (rule int_div_pos_eq [OF e r])
  moreover have "(x + 1) mod k = x mod k + 1" by (rule int_mod_pos_eq [OF e r])
  moreover have "x mod k + 1 \<noteq> 0" using pos_mod_sign [of k x] assms by linarith
  ultimately show ?thesis by simp
qed

lemma div_shift:
  fixes y k c c' :: int
  assumes "0 < k" "(y - c) mod k = y mod k" "c' = c + 1"
  shows "(y + 1 - c') div k = (y - c') div k + (if y mod k = 0 then 1 else 0)"
proof -
  have "y + 1 - c' = (y - c') + 1" "y - c' + 1 = y - c" using assms(3) by simp_all
  then show ?thesis using div_Suc [OF assms(1), of "y - c'"] assms(2) by (simp only:)
qed

lemma shift_mod:
  "(y - 1968) mod 4 = y mod (4::int)" "(y - 1900) mod 100 = y mod (100::int)"
  "(y - 1600) mod 400 = y mod (400::int)"
  using mod_mult_self1 [of y "-492" 4] mod_mult_self1 [of y "-19" 100]
    mod_mult_self1 [of y "-4" 400] by simp_all

lemma leap_count:
  "(if (y::int) mod 4 = 0 then 1 else 0) - (if y mod 100 = 0 then 1 else 0)
     + (if y mod 400 = 0 then 1 else (0::int)) = (if is_leap y then 1 else 0)"
proof -
  have "y mod 400 = 0 \<Longrightarrow> y mod 100 = 0" "y mod 100 = 0 \<Longrightarrow> y mod 4 = 0"
    using dvd_trans [of 100 400 y] dvd_trans [of 4 100 y] by (auto simp: mod_eq_0_iff_dvd)
  then show ?thesis by (auto simp: is_leap_def)
qed

lemma day_from_year_Suc: "day_from_year (y + 1) = day_from_year y + year_length y"
proof -
  have "(y + 1 - 1969) div 4 = (y - 1969) div 4 + (if y mod 4 = 0 then 1 else 0)"
    "(y + 1 - 1901) div 100 = (y - 1901) div 100 + (if y mod 100 = 0 then 1 else 0)"
    "(y + 1 - 1601) div 400 = (y - 1601) div 400 + (if y mod 400 = 0 then 1 else 0)"
    by (rule div_shift [OF _ shift_mod(1)] div_shift [OF _ shift_mod(2)]
        div_shift [OF _ shift_mod(3)], simp, simp)+
  note shifts = this
  have step: "a' = a + p \<Longrightarrow> b' = b + q \<Longrightarrow> c' = c + r \<Longrightarrow> p - q + r = l \<Longrightarrow>
      365 * (y + 1 - 1970) + a' - b' + c' = 365 * (y - 1970) + a - b + c + (365 + l)"
    for a b c a' b' c' p q r l :: int by simp
  have "year_length y = 365 + (if is_leap y then 1 else 0)" by (simp add: year_length_def)
  then show ?thesis
    using step [OF shifts leap_count [of y]] by (simp only: day_from_year_def)
qed

lemma year_length_bounds: "365 \<le> year_length y" "year_length y \<le> 366"
  by (simp_all add: year_length_def)

lemma day_from_year_mono_nat: "day_from_year y + 365 * int k \<le> day_from_year (y + int k)"
proof (induction k)
  case 0
  show ?case by simp
next
  case (Suc k)
  have "day_from_year (y + int (Suc k)) = day_from_year (y + int k) + year_length (y + int k)"
    using day_from_year_Suc [of "y + int k"] by (simp add: algebra_simps)
  with Suc year_length_bounds(1) [of "y + int k"] show ?case by simp
qed

lemma day_from_year_mono: "y \<le> z \<Longrightarrow> day_from_year y + 365 * (z - y) \<le> day_from_year z"
  using day_from_year_mono_nat [of y "nat (z - y)"] by simp

lemma year_unique:
  assumes "day_from_year y \<le> n" "n < day_from_year (y + 1)"
    and "day_from_year z \<le> n" "n < day_from_year (z + 1)"
  shows "y = z"
proof (rule ccontr)
  assume "y \<noteq> z"
  then have "y + 1 \<le> z \<or> z + 1 \<le> y" by arith
  then show False
    using assms day_from_year_mono [of "y + 1" z] day_from_year_mono [of "z + 1" y] by auto
qed

lemma day_from_year_bounds:
  "146097 * (y - 1970) - 1000 \<le> 400 * day_from_year y"
  "400 * day_from_year y \<le> 146097 * (y - 1970) + 1000"
  unfolding day_from_year_def
  using div_bounds [of 4 "y - 1969"] div_bounds [of 100 "y - 1901"] div_bounds [of 400 "y - 1601"]
  by simp_all

lemma year_of_day_bounds:
  "day_from_year (year_of_day n) \<le> n" "n < day_from_year (year_of_day n + 1)"
proof -
  define y where "y = 1970 + (400 * n) div 146097"
  have g: "146097 * (y - 1970) \<le> 400 * n" "400 * n < 146097 * (y - 1970) + 146097"
    using div_bounds [of 146097 "400 * n"] by (simp_all add: y_def)
  have lo: "day_from_year (y - 1) \<le> n"
    using g day_from_year_bounds(2) [of "y - 1"] by simp
  have hi: "n < day_from_year (y + 2)"
    using g day_from_year_bounds(1) [of "y + 2"] by simp
  have e: "year_of_day n = (if n < day_from_year y then y - 1
      else if day_from_year (y + 1) \<le> n then y + 1 else y)"
    by (simp add: year_of_day_def y_def Let_def)
  show "day_from_year (year_of_day n) \<le> n" using e lo by simp
  show "n < day_from_year (year_of_day n + 1)" using e hi by (auto simp: algebra_simps)
qed

lemma year_of_dayI: "day_from_year y \<le> n \<Longrightarrow> n < day_from_year (y + 1) \<Longrightarrow> year_of_day n = y"
  using year_unique year_of_day_bounds by blast

lemma month_of_bounds: "1 \<le> month_of l k \<and> month_of l k \<le> 12"
  by (simp add: month_of_def)

lemma month_of_start:
  assumes "0 \<le> k" "k < (if l then 366 else 365)"
  shows "month_start l (month_of l k) \<le> k \<and> k < month_start l (month_of l k + 1)"
  using assms unfolding month_of_def by (cases l) (simp_all add: month_start_def)

lemma month_start_cases:
  assumes "1 \<le> m" "m \<le> 12"
  shows "m = 1 \<or> m = 2 \<or> m = 3 \<or> m = 4 \<or> m = 5 \<or> m = 6 \<or> m = 7 \<or> m = 8 \<or> m = 9 \<or> m = 10
    \<or> m = 11 \<or> m = (12::int)"
  using assms by arith

lemma month_of_unique:
  assumes "1 \<le> m" "m \<le> 12" "month_start l m \<le> k" "k < month_start l (m + 1)"
  shows "month_of l k = m"
  using month_start_cases [OF assms(1,2)] assms(3,4)
  by (cases l) (auto simp: month_of_def month_start_def)

lemma month_start_year:
  assumes "1 \<le> m" "m \<le> 12"
  shows "0 \<le> month_start (is_leap y) m" "month_start (is_leap y) (m + 1) \<le> year_length y"
  using month_start_cases [OF assms] by (auto simp: month_start_def year_length_def)

lemma make_day_valid:
  "1 \<le> m \<Longrightarrow> m \<le> 12 \<Longrightarrow> make_day y m d = day_from_year y + month_start (is_leap y) m + (d - 1)"
  by (simp add: make_day_def Let_def div_pos_pos_trivial mod_pos_pos_trivial)

text \<open>The two calendar directions are inverse to each other.\<close>

lemma civil_of_make_day:
  assumes "valid_civil y m d"
  shows "civil_of_day (make_day y m d) = (y, m, d)"
proof -
  define k where "k = month_start (is_leap y) m + (d - 1)"
  have m: "1 \<le> m" "m \<le> 12" and d: "1 \<le> d" "d \<le> month_length (is_leap y) m"
    using assms by (auto simp: valid_civil_def)
  have n: "make_day y m d = day_from_year y + k"
    using m by (simp add: make_day_valid k_def)
  have k1: "month_start (is_leap y) m \<le> k" "k < month_start (is_leap y) (m + 1)"
    using d by (auto simp: k_def month_length_def)
  then have "0 \<le> k" "k < year_length y" using month_start_year [OF m, of y] by linarith+
  then have y: "year_of_day (day_from_year y + k) = y"
    by (intro year_of_dayI) (simp_all add: day_from_year_Suc)
  have "month_of (is_leap y) k = m" using month_of_unique [OF m k1] .
  then show ?thesis by (simp add: n civil_of_day_def Let_def y) (simp add: k_def)
qed

lemma make_day_civil:
  assumes "civil_of_day n = (y, m, d)"
  shows "make_day y m d = n" "valid_civil y m d"
proof -
  define k where "k = n - day_from_year y"
  have y: "y = year_of_day n" and m: "m = month_of (is_leap y) k"
    and d: "d = k - month_start (is_leap y) m + 1"
    using assms by (auto simp: civil_of_day_def Let_def k_def)
  have "0 \<le> k" "k < year_length y"
    using year_of_day_bounds [of n] by (simp_all add: y k_def day_from_year_Suc)
  then have k: "month_start (is_leap y) m \<le> k" "k < month_start (is_leap y) (m + 1)"
    using month_of_start [of k "is_leap y"] by (simp_all add: m year_length_def)
  have m12: "1 \<le> m" "m \<le> 12" using month_of_bounds by (simp_all add: m)
  show "make_day y m d = n" using m12 by (simp add: make_day_valid d k_def)
  show "valid_civil y m d" using m12 k by (simp add: valid_civil_def d month_length_def)
qed

text \<open>Days are ordered as their calendar fields are, most significant field first.\<close>

definition civil_less :: "int \<times> int \<times> int \<Rightarrow> int \<times> int \<times> int \<Rightarrow> bool" where
  [js_eval]: "civil_less a b \<longleftrightarrow>
     (case (a, b) of ((y, m, d), (y', m', d')) \<Rightarrow>
       y < y' \<or> (y = y' \<and> (m < m' \<or> (m = m' \<and> d < d'))))"

lemma month_start_mono:
  "1 \<le> m \<Longrightarrow> m < m' \<Longrightarrow> m' \<le> 12 \<Longrightarrow> month_start l (m + 1) \<le> month_start l m'"
  using month_start_cases [of m] month_start_cases [of m'] by (auto simp: month_start_def)

lemma make_day_bounds:
  assumes "valid_civil y m d"
  shows "day_from_year y + month_start (is_leap y) m \<le> make_day y m d"
    "make_day y m d < day_from_year y + month_start (is_leap y) (m + 1)"
    "make_day y m d < day_from_year (y + 1)"
    "day_from_year y \<le> make_day y m d"
  using assms month_start_year [of m y] day_from_year_Suc [of y]
  by (auto simp: valid_civil_def make_day_valid month_length_def)

lemma make_day_less:
  assumes "valid_civil y m d" "valid_civil y' m' d'" "civil_less (y, m, d) (y', m', d')"
  shows "make_day y m d < make_day y' m' d'"
proof -
  consider "y < y'" | "y = y'" "m < m'" | "y = y'" "m = m'" "d < d'"
    using assms(3) by (auto simp: civil_less_def)
  then show ?thesis
  proof cases
    case 1
    then have "day_from_year (y + 1) \<le> day_from_year y'"
      using day_from_year_mono [of "y + 1" y'] by simp
    then show ?thesis
      using make_day_bounds(3) [OF assms(1)] make_day_bounds(4) [OF assms(2)] by linarith
  next
    case 2
    then have "month_start (is_leap y) (m + 1) \<le> month_start (is_leap y) m'"
      using assms by (intro month_start_mono) (auto simp: valid_civil_def)
    then show ?thesis
      using 2 make_day_bounds [OF assms(1)] make_day_bounds [OF assms(2)] by simp
  next
    case 3
    then show ?thesis using assms by (simp add: valid_civil_def make_day_valid)
  qed
qed

lemma civil_less_total: "civil_less a b \<or> a = b \<or> civil_less b a"
  by (cases a; cases b) (auto simp: civil_less_def)

lemma make_day_less_iff:
  assumes "valid_civil y m d" "valid_civil y' m' d'"
  shows "make_day y m d < make_day y' m' d' \<longleftrightarrow> civil_less (y, m, d) (y', m', d')"
  using make_day_less [OF assms] make_day_less [OF assms(2,1)]
    civil_less_total [of "(y, m, d)" "(y', m', d')"] by fastforce

section \<open>ISO texts\<close>

definition ms_per_day :: int where
  [js_eval]: "ms_per_day = 86400000"

definition show_year :: "int \<Rightarrow> string" where
  [js_eval]: "show_year y =
     (if 0 \<le> y \<and> y \<le> 9999 then show_pad 4 (nat y)
      else (if y < 0 then CHR ''-'' else CHR ''+'') # show_pad 6 (nat \<bar>y\<bar>))"

text \<open>\<open>Date.prototype.toISOString\<close> on a valid time value.\<close>

definition to_iso_string :: "int \<Rightarrow> string" where
  [js_eval]: "to_iso_string t =
     (case civil_of_day (t div ms_per_day) of (y, m, d) \<Rightarrow>
        let r = t mod ms_per_day
        in show_year y @ ''-'' @ show_pad 2 (nat m) @ ''-'' @ show_pad 2 (nat d) @ ''T''
           @ show_pad 2 (nat (r div 3600000)) @ '':''
           @ show_pad 2 (nat (r div 60000 mod 60)) @ '':''
           @ show_pad 2 (nat (r div 1000 mod 60)) @ ''.'' @ show_pad 3 (nat (r mod 1000)) @ ''Z'')"

text \<open>\<open>date.toISOString().slice(0, 10)\<close>\<close>

definition iso_date :: "int \<Rightarrow> string" where
  [js_eval]: "iso_date t = take 10 (to_iso_string t)"

text \<open>
  \<open>new Date(`${text}T00:00:00.000Z`)\<close> for a text of the form \<open>dddd-dd-dd\<close>: months outside 1 to
  12 and days outside 1 to 31 are invalid, other days past the month's end run over.
\<close>

definition parse_midnight :: "string \<Rightarrow> int option" where
  [js_eval]: "parse_midnight s =
     (let y = int (read_nat (take 4 s)); m = int (read_nat (take 2 (drop 5 s)));
          d = int (read_nat (take 2 (drop 8 s)))
      in if 1 \<le> m \<and> m \<le> 12 \<and> 1 \<le> d \<and> d \<le> 31
         then Some (make_day y m d * ms_per_day) else None)"

text \<open>
  The validity check every module repeats: the pattern, a parsed date that is not \<open>NaN\<close>, and a
  round trip through \<open>toISOString\<close> that gives the text back.
\<close>

definition business_date_ms :: "string \<Rightarrow> int option" where
  [js_eval]: "business_date_ms s =
     (if business_date_pattern s
      then (case parse_midnight s of None \<Rightarrow> None
            | Some t \<Rightarrow> if iso_date t = s then Some t else None)
      else None)"

definition show_civil :: "int \<Rightarrow> int \<Rightarrow> int \<Rightarrow> string" where
  [js_eval]: "show_civil y m d =
     show_pad 4 (nat y) @ ''-'' @ show_pad 2 (nat m) @ ''-'' @ show_pad 2 (nat d)"

lemma valid_civil_range:
  "valid_civil y m d \<Longrightarrow> 1 \<le> m \<and> m \<le> 12 \<and> 1 \<le> d \<and> d \<le> 31"
  using month_start_cases [of m] by (auto simp: valid_civil_def month_length_def month_start_def split: if_splits)

lemma length_show_pad_civil:
  assumes "0 \<le> y" "y \<le> 9999" "valid_civil y m d"
  shows "length (show_pad 4 (nat y)) = 4" "length (show_pad 2 (nat m)) = 2"
    "length (show_pad 2 (nat d)) = 2"
  using assms valid_civil_range [OF assms(3)]
  by (auto intro!: length_show_pad simp: nat_less_iff)

lemma iso_date_civil:
  assumes "civil_of_day n = (y, m, d)" "0 \<le> y" "y \<le> 9999"
  shows "iso_date (n * ms_per_day) = show_civil y m d"
proof -
  note len = length_show_pad_civil [OF assms(2,3) make_day_civil(2) [OF assms(1)]]
  have "n * ms_per_day div ms_per_day = n" by (simp add: ms_per_day_def)
  then show ?thesis
    using assms by (simp add: iso_date_def to_iso_string_def show_year_def show_civil_def len Let_def)
qed

lemma show_civil_fields:
  assumes "0 \<le> y" "y \<le> 9999" "valid_civil y m d"
  shows "read_nat (take 4 (show_civil y m d)) = nat y"
    "read_nat (take 2 (drop 5 (show_civil y m d))) = nat m"
    "read_nat (take 2 (drop 8 (show_civil y m d))) = nat d"
  using length_show_pad_civil [OF assms] by (simp_all add: show_civil_def)

lemma pattern_of_digits:
  assumes "list_all is_digit a" "length a = 4" "list_all is_digit b" "length b = 2"
    "list_all is_digit c" "length c = 2"
  shows "business_date_pattern (a @ ''-'' @ b @ ''-'' @ c)"
  using assms
  by (auto simp: business_date_pattern_def is_dash_def length_Suc_conv numeral_eq_Suc)

lemma digits_of_pattern:
  assumes "business_date_pattern s"
  shows "s = take 4 s @ ''-'' @ take 2 (drop 5 s) @ ''-'' @ take 2 (drop 8 s)"
    "list_all is_digit (take 4 s)" "length (take 4 s) = 4"
    "list_all is_digit (take 2 (drop 5 s))" "length (take 2 (drop 5 s)) = 2"
    "list_all is_digit (take 2 (drop 8 s))" "length (take 2 (drop 8 s)) = 2"
  using assms by (auto simp: business_date_pattern_def is_dash_def)

lemma pattern_show_civil:
  "0 \<le> y \<Longrightarrow> y \<le> 9999 \<Longrightarrow> valid_civil y m d \<Longrightarrow> business_date_pattern (show_civil y m d)"
  unfolding show_civil_def
  by (intro pattern_of_digits show_pad_digits length_show_pad_civil)

text \<open>Accepted texts are exactly the calendar dates of the years 0 to 9999.\<close>

lemma business_date_show_civil:
  assumes "0 \<le> y" "y \<le> 9999" "valid_civil y m d"
  shows "business_date_ms (show_civil y m d) = Some (make_day y m d * ms_per_day)"
  using assms valid_civil_range [OF assms(3)]
  by (simp add: business_date_ms_def pattern_show_civil parse_midnight_def show_civil_fields
      iso_date_civil [OF civil_of_make_day])

lemma business_date_ms_cases:
  assumes "business_date_ms s = Some t"
  obtains y m d where "0 \<le> y" "y \<le> 9999" "valid_civil y m d" "s = show_civil y m d"
    "t = make_day y m d * ms_per_day"
proof -
  from assms have pat: "business_date_pattern s" and parse: "parse_midnight s = Some t"
    and iso: "iso_date t = s"
    by (auto simp: business_date_ms_def split: if_splits option.splits)
  define y m d where "y = int (read_nat (take 4 s))" and "m = int (read_nat (take 2 (drop 5 s)))"
    and "d = int (read_nat (take 2 (drop 8 s)))"
  note dig = digits_of_pattern [OF pat]
  have y9: "0 \<le> y" "y \<le> 9999"
    using read_nat_pattern_less [OF dig(2,3)] by (simp_all add: y_def)
  have m: "1 \<le> m" "m \<le> 12" and d: "1 \<le> d" "d \<le> 31" and t: "t = make_day y m d * ms_per_day"
    using parse by (auto simp: parse_midnight_def Let_def y_def m_def d_def split: if_splits)
  obtain y' m' d' where civ: "civil_of_day (make_day y m d) = (y', m', d')"
    by (cases "civil_of_day (make_day y m d)")
  have s: "s = show_civil y m d"
    using dig by (simp add: show_civil_def y_def m_def d_def show_pad_read)
  have mk: "make_day y m d = day_from_year y + month_start (is_leap y) m + (d - 1)"
    using m by (rule make_day_valid)
  have "valid_civil y m d"
  proof (rule ccontr)
    assume bad: "\<not> valid_civil y m d"
    then have "month_length (is_leap y) m < d" using m d by (auto simp: valid_civil_def)
    then have m12: "m \<noteq> 12" using d by (auto simp: month_length_def month_start_def)
    then have m1: "1 \<le> m + 1" "m + 1 \<le> 12" using m by auto
    define e where "e = d - month_length (is_leap y) m"
    have e: "1 \<le> e" "e \<le> month_length (is_leap y) (m + 1)"
      using \<open>month_length (is_leap y) m < d\<close> d month_start_cases [OF m]
      by (auto simp: e_def month_length_def month_start_def)
    then have v: "valid_civil y (m + 1) e" using m1 by (simp add: valid_civil_def)
    have "make_day y (m + 1) e = day_from_year y + month_start (is_leap y) (m + 1) + (e - 1)"
      using m1 by (rule make_day_valid)
    then have "make_day y m d = make_day y (m + 1) e"
      unfolding mk e_def month_length_def by simp
    then have "iso_date t = show_civil y (m + 1) e"
      using iso_date_civil [OF civil_of_make_day [OF v] y9] by (simp add: t)
    then have "show_civil y m d = show_civil y (m + 1) e" using iso s by simp
    then have "int (read_nat (take 2 (drop 5 (show_civil y m d)))) = m + 1"
      using show_civil_fields(2) [OF y9 v] m1 by simp
    then have "int (read_nat (take 2 (drop 5 s))) = m + 1" by (simp only: s [symmetric])
    then show False by (simp flip: m_def)
  qed
  then show ?thesis using y9 s t that by blast
qed

lemma make_day_multiple: "business_date_ms s = Some t \<Longrightarrow> ms_per_day dvd t"
  by (auto elim: business_date_ms_cases)

text \<open>
  Among accepted texts the code-unit order that the program compares dates with is the
  chronological order.
\<close>

lemma show_civil_less_iff:
  assumes "0 \<le> y" "y \<le> 9999" "valid_civil y m d" "0 \<le> y'" "y' \<le> 9999" "valid_civil y' m' d'"
  shows "show_civil y m d < show_civil y' m' d' \<longleftrightarrow> civil_less (y, m, d) (y', m', d')"
proof -
  note len = length_show_pad_civil [OF assms(1-3)] length_show_pad_civil [OF assms(4-6)]
  have less: "show_pad k (nat a) < show_pad k (nat b) \<longleftrightarrow> a < b"
    and eq: "show_pad k (nat a) = show_pad k (nat b) \<longleftrightarrow> a = b"
    if "0 \<le> a" "0 \<le> b" "length (show_pad k (nat a)) = length (show_pad k (nat b))" for a b k
    using digits_less_iff [OF that(3) show_pad_digits show_pad_digits] that
    by (auto dest: arg_cong [where f = read_nat])
  have pos: "0 \<le> m" "0 \<le> d" "0 \<le> m'" "0 \<le> d'"
    using assms(3,6) by (auto simp: valid_civil_def)
  have "show_civil y m d < show_civil y' m' d' \<longleftrightarrow>
      show_pad 4 (nat y) < show_pad 4 (nat y') \<or> (show_pad 4 (nat y) = show_pad 4 (nat y') \<and>
       (show_pad 2 (nat m) < show_pad 2 (nat m') \<or> (show_pad 2 (nat m) = show_pad 2 (nat m') \<and>
         show_pad 2 (nat d) < show_pad 2 (nat d'))))"
    by (simp add: show_civil_def str_append_less_iff len)
  then show ?thesis
    using less [of y y' 4] less [of m m' 2] less [of d d' 2] eq [of y y' 4] eq [of m m' 2]
      pos assms(1,4) by (simp add: civil_less_def len)
qed

lemma business_date_less_iff:
  assumes "business_date_ms s = Some a" "business_date_ms t = Some b"
  shows "s < t \<longleftrightarrow> a < b"
proof -
  from assms(1) obtain y m d where 1: "0 \<le> y" "y \<le> 9999" "valid_civil y m d"
    "s = show_civil y m d" "a = make_day y m d * ms_per_day" by (rule business_date_ms_cases)
  from assms(2) obtain y' m' d' where 2: "0 \<le> y'" "y' \<le> 9999" "valid_civil y' m' d'"
    "t = show_civil y' m' d'" "b = make_day y' m' d' * ms_per_day" by (rule business_date_ms_cases)
  show ?thesis
    using show_civil_less_iff [OF 1(1-3) 2(1-3)] make_day_less_iff [OF 1(3) 2(3)]
    by (simp add: 1(4,5) 2(4,5) ms_per_day_def)
qed

lemma business_date_inj:
  "business_date_ms s = Some a \<Longrightarrow> business_date_ms t = Some a \<Longrightarrow> s = t"
  using business_date_less_iff [of s a t a] business_date_less_iff [of t a s a]
  by (metis linorder_neqE order.irrefl)

lemma business_date_le_iff:
  "business_date_ms s = Some a \<Longrightarrow> business_date_ms t = Some b \<Longrightarrow> s \<le> t \<longleftrightarrow> a \<le> b"
  using business_date_less_iff [of t b s a] by (metis linorder_not_less)

text \<open>
  A midnight whose year has four digits prints as an accepted text that parses back to it; the
  range is from 0000-01-01 to 9999-12-31.
\<close>

definition first_midnight :: int where
  [js_eval]: "first_midnight = make_day 0 1 1 * ms_per_day"

definition last_midnight :: int where
  [js_eval]: "last_midnight = make_day 9999 12 31 * ms_per_day"

lemma civil_year_range:
  assumes "civil_of_day n = (y, m, d)" "make_day 0 1 1 \<le> n" "n \<le> make_day 9999 12 31"
  shows "0 \<le> y" "y \<le> 9999"
proof -
  note v = make_day_civil [OF assms(1)]
  have f: "valid_civil 0 1 1" "valid_civil 9999 12 31"
    by (simp_all add: valid_civil_def month_length_def month_start_def)
  show "0 \<le> y" "y \<le> 9999"
    using make_day_less_iff [OF v(2) f(1)] make_day_less_iff [OF f(2) v(2)] assms v(1)
    by (auto simp: civil_less_def)
qed

lemma business_date_iso_date:
  assumes "ms_per_day dvd t" "first_midnight \<le> t" "t \<le> last_midnight"
  shows "business_date_ms (iso_date t) = Some t"
proof -
  from assms(1) obtain n where t: "t = n * ms_per_day" by (metis dvdE mult.commute)
  obtain y m d where civ: "civil_of_day n = (y, m, d)" by (cases "civil_of_day n")
  have "make_day 0 1 1 \<le> n" "n \<le> make_day 9999 12 31"
    using assms(2,3) by (simp_all add: t first_midnight_def last_midnight_def ms_per_day_def)
  then have y: "0 \<le> y" "y \<le> 9999" using civil_year_range [OF civ] by simp_all
  show ?thesis
    using business_date_show_civil [OF y make_day_civil(2) [OF civ]]
    by (simp add: t iso_date_civil [OF civ y] make_day_civil(1) [OF civ])
qed

lemma business_date_range:
  assumes "business_date_ms s = Some t"
  shows "first_midnight \<le> t" "t \<le> last_midnight" "iso_date t = s" "ms_per_day dvd t"
proof -
  from assms obtain y m d where 1: "0 \<le> y" "y \<le> 9999" "valid_civil y m d"
    "s = show_civil y m d" "t = make_day y m d * ms_per_day" by (rule business_date_ms_cases)
  have f: "valid_civil 0 1 1" "valid_civil 9999 12 31"
    by (simp_all add: valid_civil_def month_length_def month_start_def)
  have "\<not> civil_less (y, m, d) (0, 1, 1)" "\<not> civil_less (9999, 12, 31) (y, m, d)"
    using 1(1-3) valid_civil_range [OF 1(3)] by (auto simp: civil_less_def)
  then show "first_midnight \<le> t" "t \<le> last_midnight"
    using make_day_less_iff [OF 1(3) f(1)] make_day_less_iff [OF f(2) 1(3)]
    by (simp_all add: 1(5) first_midnight_def last_midnight_def ms_per_day_def)
  show "iso_date t = s" "ms_per_day dvd t"
    using assms by (auto simp: business_date_ms_def make_day_multiple [OF assms]
      split: if_splits option.splits)
qed

end
