(* ===== verification/Js_Value.thy ===== *)
theory Js_Value
  imports Js_Text
begin

text \<open>
  Untyped JavaScript values as they reach the program from JSON texts, command lines and
  adapters: \<open>undefined\<close>, \<open>null\<close>, booleans, numbers, strings, arrays and plain objects. An object
  is the list of its own properties with distinct names.

  A finite number is represented by the decimal that \<open>Number.prototype.toString\<close> prints, the
  shortest one that reads back as the same double: \<open>NInt n\<close> when that decimal is integral and
  \<open>NFrac m k\<close> (with \<open>k\<close> positive and \<open>m\<close> not divisible by 10) for \<open>m\<close> divided by the \<open>k\<close>-th power
  of 10. Integers up to \<open>2^53 - 1\<close> in magnitude are their own shortest decimal, so the safe
  integers are exactly the \<open>NInt n\<close> in that range. Negative zero is identified with zero, which no
  operation used here can tell apart.
\<close>

datatype jsnum = NInt int | NFrac int nat | NNaN | NInf bool

datatype jsv =
    JUndef
  | JNull
  | JBool bool
  | JNum jsnum
  | JStr string
  | JArr "jsv list"
  | JObj "(string \<times> jsv) list"

section \<open>Printing numbers\<close>

definition show_int :: "int \<Rightarrow> string" where
  [js_eval]: "show_int n = (if n < 0 then CHR ''-'' # show_nat (nat (- n)) else show_nat (nat n))"

definition strip_zeros :: "string \<Rightarrow> string" where
  [js_eval]: "strip_zeros s = rev (dropWhile (\<lambda>c. c = CHR ''0'') (rev s))"

text \<open>Exponent form: one digit, the other significant digits after a point, and the exponent.\<close>

definition show_exponent :: "string \<Rightarrow> int \<Rightarrow> string" where
  [js_eval]: "show_exponent ds e =
     (let sig = strip_zeros ds
      in take 1 sig @ (if length sig \<le> 1 then [] else CHR ''.'' # drop 1 sig)
         @ ''e'' @ (if 0 \<le> e then CHR ''+'' # show_nat (nat e) else show_int e))"

text \<open>\<open>show_decimal ds p\<close> prints the digits \<open>ds\<close> with the point after the first \<open>p\<close> of them.\<close>

definition show_decimal :: "string \<Rightarrow> int \<Rightarrow> string" where
  [js_eval]: "show_decimal ds p =
     (let n = int (length ds)
      in if n \<le> p \<and> p \<le> 21 then ds @ replicate (nat (p - n)) CHR ''0''
         else if 0 < p \<and> p \<le> 21 then take (nat p) ds @ CHR ''.'' # drop (nat p) ds
         else if - 6 < p \<and> p \<le> 0 then ''0.'' @ replicate (nat (- p)) CHR ''0'' @ ds
         else show_exponent ds (p - 1))"

fun show_num :: "jsnum \<Rightarrow> string" where
  "show_num (NInt n) =
     (if n < 0 then CHR ''-'' # show_decimal (show_nat (nat (- n))) (int (length (show_nat (nat (- n)))))
      else show_decimal (show_nat (nat n)) (int (length (show_nat (nat n)))))"
| "show_num (NFrac m k) =
     (if m < 0 then [CHR ''-''] else []) @
     show_decimal (show_nat (nat \<bar>m\<bar>)) (int (length (show_nat (nat \<bar>m\<bar>))) - int k)"
| "show_num NNaN = ''NaN''"
| "show_num (NInf neg) = (if neg then ''-Infinity'' else ''Infinity'')"

section \<open>Reading values\<close>

definition nullish :: "jsv \<Rightarrow> bool" where
  [js_eval]: "nullish v \<longleftrightarrow> v = JUndef \<or> v = JNull"

text \<open>\<open>v ?? w\<close>\<close>

definition coalesce :: "jsv \<Rightarrow> jsv \<Rightarrow> jsv" where
  [js_eval]: "coalesce v w = (if nullish v then w else v)"

fun truthy :: "jsv \<Rightarrow> bool" where
  "truthy JUndef = False"
| "truthy JNull = False"
| "truthy (JBool b) = b"
| "truthy (JNum (NInt n)) = (n \<noteq> 0)"
| "truthy (JNum (NFrac m k)) = True"
| "truthy (JNum NNaN) = False"
| "truthy (JNum (NInf s)) = True"
| "truthy (JStr s) = (s \<noteq> [])"
| "truthy (JArr vs) = True"
| "truthy (JObj ps) = True"

text \<open>
  Reading a property that is not an own property gives \<open>undefined\<close>: no name the program reads
  lives on a prototype of these values.
\<close>

fun jget :: "jsv \<Rightarrow> string \<Rightarrow> jsv" where
  "jget (JObj ps) k = (case map_of ps k of None \<Rightarrow> JUndef | Some v \<Rightarrow> v)"
| "jget _ k = JUndef"

fun has_own :: "jsv \<Rightarrow> string \<Rightarrow> bool" where
  "has_own (JObj ps) k = (map_of ps k \<noteq> None)"
| "has_own _ k = False"

text \<open>\<open>typeof v === 'object'\<close> and not \<open>null\<close>; the record check also excludes arrays.\<close>

fun is_object :: "jsv \<Rightarrow> bool" where
  "is_object (JArr _) = True"
| "is_object (JObj _) = True"
| "is_object _ = False"

fun is_record :: "jsv \<Rightarrow> bool" where
  "is_record (JObj _) = True"
| "is_record _ = False"

fun is_array :: "jsv \<Rightarrow> bool" where
  "is_array (JArr _) = True"
| "is_array _ = False"

fun as_array :: "jsv \<Rightarrow> jsv list option" where
  "as_array (JArr vs) = Some vs"
| "as_array _ = None"

fun as_string :: "jsv \<Rightarrow> string option" where
  "as_string (JStr s) = Some s"
| "as_string _ = None"

definition max_safe :: int where
  [js_eval]: "max_safe = 9007199254740991"

text \<open>\<open>Number.isSafeInteger(v)\<close>, with the integer.\<close>

fun safe_int :: "jsv \<Rightarrow> int option" where
  "safe_int (JNum (NInt n)) = (if \<bar>n\<bar> \<le> max_safe then Some n else None)"
| "safe_int _ = None"

text \<open>\<open>Number.isSafeInteger(value) && value >= 0 ? value : null\<close>\<close>

definition unit_count :: "jsv \<Rightarrow> int option" where
  [js_eval]: "unit_count v = (case safe_int v of None \<Rightarrow> None | Some n \<Rightarrow> if 0 \<le> n then Some n else None)"

lemma safe_int_Some_iff: "safe_int v = Some n \<longleftrightarrow> v = JNum (NInt n) \<and> \<bar>n\<bar> \<le> max_safe"
  by (cases v rule: safe_int.cases) auto

lemma unit_count_Some_iff:
  "unit_count v = Some n \<longleftrightarrow> v = JNum (NInt n) \<and> 0 \<le> n \<and> n \<le> max_safe"
  by (auto simp: unit_count_def safe_int_Some_iff split: option.splits if_splits)

lemma as_string_Some_iff [simp]: "as_string v = Some s \<longleftrightarrow> v = JStr s"
  by (cases v) auto

lemma as_array_Some_iff [simp]: "as_array v = Some vs \<longleftrightarrow> v = JArr vs"
  by (cases v) auto

lemma is_array_iff: "is_array v \<longleftrightarrow> (\<exists>vs. v = JArr vs)"
  by (cases v) auto

section \<open>Conversion to text\<close>

text \<open>
  \<open>String(v)\<close>. An array joins the texts of its elements with commas, \<open>null\<close> and \<open>undefined\<close>
  elements counting as empty. A plain object prints as \<open>[object Object]\<close>, unless it has an own
  property \<open>toString\<close>: a property that came from JSON is not callable, \<open>valueOf\<close> gives no primitive
  either, and the conversion throws a \<open>TypeError\<close>.
\<close>

fun join_with :: "string \<Rightarrow> string list \<Rightarrow> string" where
  "join_with sep [] = []"
| "join_with sep [s] = s"
| "join_with sep (s # t # ts) = s @ sep @ join_with sep (t # ts)"

fun js_string :: "jsv \<Rightarrow> string result" where
  "js_string JUndef = Inr ''undefined''"
| "js_string JNull = Inr ''null''"
| "js_string (JBool b) = Inr (if b then ''true'' else ''false'')"
| "js_string (JNum n) = Inr (show_num n)"
| "js_string (JStr s) = Inr s"
| "js_string (JArr vs) =
     ebind (emap (\<lambda>v. if nullish v then Inr [] else js_string v) vs) (\<lambda>ts. Inr (join_with '','' ts))"
| "js_string (JObj ps) =
     (if map_of ps ''toString'' \<noteq> None then Inl TypeError else Inr ''[object Object]'')"

text \<open>\<open>String(v ?? '')\<close>\<close>

definition js_string_or_empty :: "jsv \<Rightarrow> string result" where
  [js_eval]: "js_string_or_empty v = js_string (coalesce v (JStr []))"

lemma js_string_scalar:
  "\<not> is_object v \<Longrightarrow> \<exists>s. js_string v = Inr s"
  by (cases v) auto

end
