(* ===== verification/Canonical_Json.thy ===== *)
theory Canonical_Json
  imports Js_Value
begin

text \<open>
  \<open>src/backfill/canonical.mjs\<close>: the canonical JSON text whose SHA-256 digest is the plan hash.
  Object keys are sorted and undefined properties dropped, arrays keep their order, and every
  number that is not an integer is refused. The digest itself is computed by the crypto module of
  the runtime; the development takes it as a function parameter on texts.
\<close>

section \<open>Quoting\<close>

definition hex_digit :: "nat \<Rightarrow> char" where
  "hex_digit n = (if n < 10 then char_of (48 + n) else char_of (87 + n))"

text \<open>The escapes of \<open>JSON.stringify\<close>.\<close>

definition json_escape :: "char \<Rightarrow> string" where
  [js_eval]: "json_escape c =
     (if code c = 34 then [CHR 0x5C, CHR 0x22]
      else if code c = 92 then [CHR 0x5C, CHR 0x5C]
      else if code c = 8 then [CHR 0x5C, CHR ''b'']
      else if code c = 9 then [CHR 0x5C, CHR ''t'']
      else if code c = 10 then [CHR 0x5C, CHR ''n'']
      else if code c = 12 then [CHR 0x5C, CHR ''f'']
      else if code c = 13 then [CHR 0x5C, CHR ''r'']
      else if code c < 32 then
        [CHR 0x5C, CHR ''u'', CHR ''0'', CHR ''0'', hex_digit (code c div 16), hex_digit (code c mod 16)]
      else [c])"

definition json_quote :: "string \<Rightarrow> string" where
  [js_eval]: "json_quote s = CHR 0x22 # concat (map json_escape s) @ [CHR 0x22]"

section \<open>The canonical text\<close>

definition defined_fields :: "(string \<times> jsv) list \<Rightarrow> (string \<times> jsv) list" where
  [js_eval]: "defined_fields ps = sort_key fst (filter (\<lambda>p. snd p \<noteq> JUndef) ps)"

lemma set_defined_fields [simp]: "set (defined_fields ps) = {p \<in> set ps. snd p \<noteq> JUndef}"
  by (simp add: defined_fields_def)

lemma size_field: "(k, v) \<in> set ps \<Longrightarrow> size v \<le> size_list (size_prod (\<lambda>_. 0) size) ps"
  by (rule size_list_estimation' [of "(k, v)"]) simp_all

function (sequential) canonical_json :: "jsv \<Rightarrow> string result" where
  "canonical_json JNull = Inr ''null''"
| "canonical_json (JBool b) = Inr (if b then ''true'' else ''false'')"
| "canonical_json (JNum n) =
     (case n of NNaN \<Rightarrow> Inl TypeError | NInf _ \<Rightarrow> Inl TypeError
      | NFrac _ _ \<Rightarrow> Inl TypeError
      | NInt i \<Rightarrow> Inr (show_num (NInt i)))"
| "canonical_json (JStr s) = Inr (json_quote s)"
| "canonical_json (JArr vs) =
     ebind (emap canonical_json vs) (\<lambda>ts. Inr (''['' @ join_with '','' ts @ '']''))"
| "canonical_json (JObj ps) =
     ebind (emap (\<lambda>p. ebind (canonical_json (snd p)) (\<lambda>t. Inr (json_quote (fst p) @ '':'' @ t)))
       (defined_fields ps)) (\<lambda>ts. Inr (''{'' @ join_with '','' ts @ ''}''))"
| "canonical_json JUndef = Inl TypeError"
  by pat_completeness auto
termination
  by (relation "measure size") (auto simp: size_field less_Suc_eq_le dest: size_list_estimation')

text \<open>\<open>canonicalHash\<close>, over the digest \<open>sha\<close> of a text.\<close>

definition canonical_hash :: "(string \<Rightarrow> string) \<Rightarrow> jsv \<Rightarrow> string result" where
  [js_eval]: "canonical_hash sha v = ebind (canonical_json v) (\<lambda>t. Inr (sha t))"

section \<open>Normal forms\<close>

text \<open>
  \<open>json_norm\<close> sorts the fields and drops the undefined ones at every level; \<open>json_text\<close> prints
  without looking at the order.
\<close>

function (sequential) json_norm :: "jsv \<Rightarrow> jsv" where
  "json_norm (JArr vs) = JArr (map json_norm vs)"
| "json_norm (JObj ps) = JObj (map (\<lambda>p. (fst p, json_norm (snd p))) (defined_fields ps))"
| "json_norm v = v"
  by pat_completeness auto
termination
  by (relation "measure size") (auto simp: size_field less_Suc_eq_le dest: size_list_estimation')

fun json_text :: "jsv \<Rightarrow> string result" where
  "json_text JNull = Inr ''null''"
| "json_text (JBool b) = Inr (if b then ''true'' else ''false'')"
| "json_text (JNum n) =
     (case n of NNaN \<Rightarrow> Inl TypeError | NInf _ \<Rightarrow> Inl TypeError
      | NFrac _ _ \<Rightarrow> Inl TypeError
      | NInt i \<Rightarrow> Inr (show_num (NInt i)))"
| "json_text (JStr s) = Inr (json_quote s)"
| "json_text (JArr vs) =
     ebind (emap json_text vs) (\<lambda>ts. Inr (''['' @ join_with '','' ts @ '']''))"
| "json_text (JObj ps) =
     ebind (emap (\<lambda>p. ebind (json_text (snd p)) (\<lambda>t. Inr (json_quote (fst p) @ '':'' @ t))) ps)
       (\<lambda>ts. Inr (''{'' @ join_with '','' ts @ ''}''))"
| "json_text JUndef = Inl TypeError"

lemma emap_map: "emap f (map g xs) = emap (\<lambda>x. f (g x)) xs"
  by (induction xs) auto

lemma canonical_json_norm: "canonical_json v = json_text (json_norm v)"
proof (induction v rule: canonical_json.induct)
  case (5 vs)
  then have "emap canonical_json vs = emap (\<lambda>v. json_text (json_norm v)) vs"
    by (intro emap_cong) auto
  then show ?case by (simp add: emap_map)
next
  case (6 ps)
  then have "emap (\<lambda>p. ebind (canonical_json (snd p)) (\<lambda>t. Inr (json_quote (fst p) @ '':'' @ t)))
      (defined_fields ps) =
    emap (\<lambda>p. ebind (json_text (json_norm (snd p))) (\<lambda>t. Inr (json_quote (fst p) @ '':'' @ t)))
      (defined_fields ps)"
    by (intro emap_cong) auto
  then show ?case by (simp add: emap_map)
qed simp_all

text \<open>
  Two objects with the same defined fields have the same canonical text, whatever the order of
  their properties and whichever undefined ones they carry.
\<close>

lemma defined_fields_cong:
  assumes "distinct (map fst ps)" "distinct (map fst qs)"
    and "{p \<in> set ps. snd p \<noteq> JUndef} = {p \<in> set qs. snd p \<noteq> JUndef}"
  shows "defined_fields ps = defined_fields qs"
proof -
  let ?D = "\<lambda>rs :: (string \<times> jsv) list. filter (\<lambda>p. snd p \<noteq> JUndef) rs"
  have d: "distinct (map fst (?D ps))" "distinct (map fst (?D qs))"
    using assms(1,2) by (simp_all add: distinct_map_filter)
  then have "mset (?D ps) = mset (?D qs)"
    using assms(3) by (subst set_eq_iff_mset_eq_distinct [symmetric]) (auto simp: distinct_map)
  then have "mset (?D ps) = mset (sort_key fst (?D qs))" by simp
  then have "sort_key fst (?D ps) = sort_key fst (?D qs)"
    using d(1) by (intro sort_key_inj_key_eq) (auto simp: distinct_map)
  then show ?thesis by (simp add: defined_fields_def)
qed

section \<open>Unique readability\<close>

text \<open>
  A canonical text determines the normal form of the value it was printed from. Every part is
  read off the front of the text, with the rest handed on: a rest that follows a value is empty or
  starts with a comma or a closing bracket.
\<close>

definition delim :: "string \<Rightarrow> bool" where
  "delim r \<longleftrightarrow> r = [] \<or> hd r \<in> {CHR '','', CHR '']'', CHR ''}''}"

text \<open>Numbers small enough to be printed without an exponent.\<close>

fun plain_numbers :: "jsv \<Rightarrow> bool" where
  "plain_numbers (JNum (NInt n)) = (\<bar>n\<bar> < 10 ^ 21)"
| "plain_numbers (JArr vs) = list_all plain_numbers vs"
| "plain_numbers (JObj ps) = list_all (\<lambda>p. plain_numbers (snd p)) ps"
| "plain_numbers _ = True"

lemma show_num_plain: "\<bar>n\<bar> < 10 ^ 21 \<Longrightarrow> show_num (NInt n) = show_int n"
proof -
  assume n: "\<bar>n\<bar> < 10 ^ 21"
  have short: "length (show_nat k) \<le> 21" if "k \<le> nat \<bar>n\<bar>" for k
    using that n by (intro length_show_nat) auto
  have "show_decimal ds (int (length ds)) = ds" if "length ds \<le> 21" for ds
    using that by (simp add: show_decimal_def)
  from this [OF short [of "nat n"]] this [OF short [of "nat (- n)"]] show ?thesis
    by (auto simp: show_int_def)
qed

lemma digits_prefix:
  assumes "s @ r = t @ r'" "list_all is_digit s" "list_all is_digit t" "delim r" "delim r'"
  shows "s = t \<and> r = r'"
  using assms
proof (induction s arbitrary: t)
  case Nil
  then show ?case by (cases t) (auto simp: delim_def is_digit_def)
next
  case (Cons c s)
  then show ?case by (cases t) (auto simp: delim_def is_digit_def)
qed

lemma show_nat_hd: "show_nat n = c # cs \<Longrightarrow> is_digit c"
  using show_nat_digits [of n] by simp

lemma show_int_prefix:
  assumes "show_int m @ r = show_int n @ r'" "delim r" "delim r'"
  shows "m = n \<and> r = r'"
proof -
  have neg: "show_nat k \<noteq> CHR ''-'' # cs" for k cs
    using show_nat_hd [of k "CHR ''-''" cs] by (auto simp: is_digit_def)
  have neg': "show_nat k @ u \<noteq> CHR ''-'' # cs" for k u cs
    using neg [of k] show_nat_nonempty [of k] by (cases "show_nat k") auto
  have pos: "a = b \<and> r = r'" if "show_nat a @ r = show_nat b @ r'" for a b
    using digits_prefix [OF that show_nat_digits show_nat_digits assms(2,3)]
    by (auto dest: show_nat_inj)
  show ?thesis
  proof (cases "m < 0"; cases "n < 0")
    assume "m < 0" "n < 0"
    then show ?thesis
      using assms(1) pos [of "nat (- m)" "nat (- n)"] eq_nat_nat_iff [of "- m" "- n"]
      by (simp add: show_int_def)
  next
    assume "m < 0" "\<not> n < 0"
    then show ?thesis using assms(1) neg' [of "nat n" r'] by (simp add: show_int_def) metis
  next
    assume "\<not> m < 0" "n < 0"
    then show ?thesis using assms(1) neg' [of "nat m" r] by (simp add: show_int_def)
  next
    assume "\<not> m < 0" "\<not> n < 0"
    then show ?thesis
      using assms(1) pos [of "nat m" "nat n"] eq_nat_nat_iff [of m n]
      by (simp add: show_int_def)
  qed
qed

text \<open>Reading one escaped character off the front of a text.\<close>

definition hex_val :: "char \<Rightarrow> nat" where
  "hex_val c = (if code c < 65 then code c - 48 else code c - 87)"

definition json_unescape :: "string \<Rightarrow> (char \<times> string) option" where
  "json_unescape t =
     (case t of [] \<Rightarrow> None
      | b # xs \<Rightarrow>
        if b \<noteq> CHR 0x5C then Some (b, xs)
        else (case xs of [] \<Rightarrow> None
          | x # ys \<Rightarrow>
            if x = CHR ''b'' then Some (char_of (8::nat), ys)
            else if x = CHR ''t'' then Some (char_of (9::nat), ys)
            else if x = CHR ''n'' then Some (char_of (10::nat), ys)
            else if x = CHR ''f'' then Some (char_of (12::nat), ys)
            else if x = CHR ''r'' then Some (char_of (13::nat), ys)
            else if x = CHR ''u'' then
              Some (char_of (16 * hex_val (ys ! 2) + hex_val (ys ! 3)), drop 4 ys)
            else Some (x, ys)))"

lemma hex_val_digit: "n < 16 \<Longrightarrow> hex_val (hex_digit n) = n"
  by (auto simp: hex_val_def hex_digit_def)

lemma char_code_eq: "code c = n \<Longrightarrow> c = char_of n"
  by (metis char_of_char)

lemma char_literals: "char_of (34::nat) = CHR 0x22" "char_of (92::nat) = CHR 0x5C"
  by (simp_all add: char_of_def bit_Suc_0_iff)

lemma json_unescape_escape: "json_unescape (json_escape c @ r) = Some (c, r)"
proof -
  consider "code c = 34" | "code c = 92" | "code c = 8" | "code c = 9" | "code c = 10"
    | "code c = 12" | "code c = 13"
    | "code c < 32" "code c \<noteq> 8" "code c \<noteq> 9" "code c \<noteq> 10" "code c \<noteq> 12" "code c \<noteq> 13"
    | "code c \<ge> 32" "code c \<noteq> 34" "code c \<noteq> 92"
    by linarith
  then show ?thesis
  proof cases
    case 8
    then have "hex_val (hex_digit (code c div 16)) = code c div 16"
      "hex_val (hex_digit (code c mod 16)) = code c mod 16" by (simp_all add: hex_val_digit)
    moreover have "16 * (code c div 16) + code c mod 16 = code c" by simp
    ultimately show ?thesis using 8 by (simp add: json_escape_def json_unescape_def)
  next
    case 9
    then have "c \<noteq> CHR 0x5C" by auto
    with 9 show ?thesis by (simp add: json_escape_def json_unescape_def)
  qed (auto simp: json_escape_def json_unescape_def char_literals dest!: char_code_eq)
qed

lemma json_escape_prefix: "json_escape c @ r = json_escape d @ r' \<Longrightarrow> c = d \<and> r = r'"
  by (metis json_unescape_escape option.inject prod.inject)

lemma json_escape_nonempty: "\<exists>x xs. json_escape c = x # xs \<and> x \<noteq> CHR 0x22"
  by (cases "code c = 34") (auto simp: json_escape_def)

lemma json_chars_prefix:
  assumes "concat (map json_escape s) @ CHR 0x22 # r = concat (map json_escape t) @ CHR 0x22 # r'"
  shows "s = t \<and> r = r'"
  using assms
proof (induction s arbitrary: t)
  case Nil
  then show ?case
  proof (cases t)
    case (Cons d t')
    obtain x xs where "json_escape d = x # xs" "x \<noteq> CHR 0x22" using json_escape_nonempty by blast
    with Nil Cons show ?thesis by simp
  qed simp
next
  case (Cons c s)
  show ?case
  proof (cases t)
    case Nil
    obtain x xs where "json_escape c = x # xs" "x \<noteq> CHR 0x22" using json_escape_nonempty by blast
    with Nil Cons.prems show ?thesis by simp
  next
    case (Cons d t')
    from Cons.prems have "json_escape c @ concat (map json_escape s) @ CHR 0x22 # r =
        json_escape d @ concat (map json_escape t') @ CHR 0x22 # r'"
      unfolding Cons by (simp only: list.map concat.simps append_assoc)
    then have "c = d" and eq: "concat (map json_escape s) @ CHR 0x22 # r =
        concat (map json_escape t') @ CHR 0x22 # r'"
      using json_escape_prefix by blast+
    with Cons.IH [OF eq] Cons show ?thesis by blast
  qed
qed

lemma json_quote_prefix: "json_quote s @ r = json_quote t @ r' \<Longrightarrow> s = t \<and> r = r'"
  by (rule json_chars_prefix) (simp add: json_quote_def)

text \<open>The first character of a printed value tells its kind.\<close>

fun json_class :: "jsv \<Rightarrow> nat" where
  "json_class JNull = 0"
| "json_class (JBool b) = (if b then 1 else 2)"
| "json_class (JNum _) = 3"
| "json_class (JStr _) = 4"
| "json_class (JArr _) = 5"
| "json_class (JObj _) = 6"
| "json_class JUndef = 7"

definition char_class :: "char \<Rightarrow> nat" where
  "char_class c =
     (if c = CHR ''n'' then 0 else if c = CHR ''t'' then 1 else if c = CHR ''f'' then 2
      else if is_digit c \<or> c = CHR ''-'' then 3 else if c = CHR 0x22 then 4
      else if c = CHR ''['' then 5 else if c = CHR ''{'' then 6 else 8)"

lemma char_class_digit: "is_digit c \<Longrightarrow> char_class c = 3"
  by (auto simp: char_class_def is_digit_def)

lemma show_int_class: "show_int n \<noteq> [] \<and> char_class (hd (show_int n)) = 3"
proof -
  have "show_nat k \<noteq> [] \<and> char_class (hd (show_nat k)) = 3" for k
    using show_nat_nonempty [of k] show_nat_hd [of k "hd (show_nat k)" "tl (show_nat k)"]
    by (simp add: char_class_digit)
  moreover have "char_class (CHR ''-'') = 3" by (simp add: char_class_def)
  ultimately show ?thesis by (simp add: show_int_def)
qed

lemma json_text_class:
  assumes "json_text v = Inr t" "plain_numbers v"
  shows "t \<noteq> [] \<and> char_class (hd t) = json_class v"
proof (cases v)
  case (JNum n)
  then show ?thesis
    using assms show_int_class by (cases n) (auto simp: show_num_plain simp del: show_num.simps)
next
  case (JBool b)
  then show ?thesis using assms by (cases b) (auto simp: char_class_def is_digit_def)
qed (use assms in \<open>auto simp: json_quote_def ebind_Inr_iff char_class_def is_digit_def\<close>)

lemma class_not_closing: "char_class c < 8 \<Longrightarrow> c \<noteq> CHR '']'' \<and> c \<noteq> CHR ''}''"
  by (auto simp: char_class_def is_digit_def)

lemma json_text_not_closing:
  assumes "json_text v = Inr t" "plain_numbers v"
  shows "t \<noteq> []" "hd t \<noteq> CHR '']''" "hd t \<noteq> CHR ''}''"
proof -
  have "json_class v < 8" by (cases v) auto
  then show "t \<noteq> []" "hd t \<noteq> CHR '']''" "hd t \<noteq> CHR ''}''"
    using json_text_class [OF assms] class_not_closing by auto
qed

text \<open>Joined element texts are read back element by element.\<close>

definition tail_text :: "string list \<Rightarrow> char \<Rightarrow> string \<Rightarrow> string" where
  "tail_text ss z r = (if ss = [] then z # r else CHR '','' # join_with '','' ss @ z # r)"

lemma join_with_tail: "join_with '','' (s # ss) @ z # r = s @ tail_text ss z r"
  by (cases ss) (simp_all add: tail_text_def)

lemma delim_tail: "z \<in> {CHR '']'', CHR ''}''} \<Longrightarrow> delim (tail_text ss z r)"
  by (simp add: tail_text_def delim_def)

lemma tail_text_inj:
  assumes inj: "\<And>x y s t r r'. x \<in> set xs \<Longrightarrow> y \<in> set ys \<Longrightarrow> f x = Inr s \<Longrightarrow> f y = Inr t \<Longrightarrow>
      s @ r = t @ r' \<Longrightarrow> delim r \<Longrightarrow> delim r' \<Longrightarrow> x = y \<and> r = r'"
    and z: "z \<in> {CHR '']'', CHR ''}''}"
    and "emap f xs = Inr ss" "emap f ys = Inr ts"
    and "tail_text ss z r = tail_text ts z r'"
  shows "xs = ys \<and> r = r'"
  using assms
proof (induction xs arbitrary: ys ss ts)
  case Nil
  then show ?case by (cases ys) (auto simp: tail_text_def ebind_Inr_iff)
next
  case (Cons x xs)
  from Cons.prems(3) obtain s ss' where ss: "ss = s # ss'" "f x = Inr s" "emap f xs = Inr ss'"
    by (auto simp: ebind_Inr_iff)
  have "ys \<noteq> []" using Cons.prems(2,4,5) ss by (auto simp: tail_text_def)
  then obtain y ys' where ys: "ys = y # ys'" by (cases ys) auto
  with Cons.prems(4) obtain t ts' where ts: "ts = t # ts'" "f y = Inr t" "emap f ys' = Inr ts'"
    by (auto simp: ebind_Inr_iff)
  have "join_with '','' ss @ z # r = join_with '','' ts @ z # r'"
    using Cons.prems(5) by (simp add: tail_text_def ss(1) ts(1))
  then have "s @ tail_text ss' z r = t @ tail_text ts' z r'"
    by (simp only: ss(1) ts(1) join_with_tail)
  then have xy: "x = y" and tl: "tail_text ss' z r = tail_text ts' z r'"
    using Cons.prems(1) [OF _ _ ss(2) ts(2)] delim_tail [OF Cons.prems(2)] ys by auto
  have "xs = ys' \<and> r = r'"
  proof (rule Cons.IH [OF _ Cons.prems(2) ss(3) ts(3) tl])
    fix a b s t r r'
    assume "a \<in> set xs" "b \<in> set ys'" "f a = Inr s" "f b = Inr t" "s @ r = t @ r'"
      "delim r" "delim r'"
    then show "a = b \<and> r = r'" using Cons.prems(1) [of a b s t r r'] by (simp add: ys)
  qed
  with xy ys show ?case by simp
qed

lemma join_text_inj:
  assumes inj: "\<And>x y s t r r'. x \<in> set xs \<Longrightarrow> y \<in> set ys \<Longrightarrow> f x = Inr s \<Longrightarrow> f y = Inr t \<Longrightarrow>
      s @ r = t @ r' \<Longrightarrow> delim r \<Longrightarrow> delim r' \<Longrightarrow> x = y \<and> r = r'"
    and z: "z \<in> {CHR '']'', CHR ''}''}"
    and start: "\<And>x s. x \<in> set xs \<union> set ys \<Longrightarrow> f x = Inr s \<Longrightarrow> s \<noteq> [] \<and> hd s \<noteq> z"
    and maps: "emap f xs = Inr ss" "emap f ys = Inr ts"
    and eq: "join_with '','' ss @ z # r = join_with '','' ts @ z # r'"
  shows "xs = ys \<and> r = r'"
proof -
  have head: "join_with '','' us @ z # q \<noteq> z # q'"
    if "emap f (u # us') = Inr us" "u \<in> set xs \<union> set ys" for u us' us q q'
  proof -
    from that(1) obtain s ss' where s: "us = s # ss'" "f u = Inr s" by (auto simp: ebind_Inr_iff)
    then have "s \<noteq> [] \<and> hd s \<noteq> z" using start that(2) by blast
    then show ?thesis unfolding s(1) join_with_tail by (cases s) auto
  qed
  have "tail_text ss z r = tail_text ts z r'"
  proof (cases xs; cases ys)
    fix y ys'
    assume "xs = []" "ys = y # ys'"
    then show ?thesis using maps eq head [of y ys' ts r' r] by auto
  next
    fix x xs'
    assume "xs = x # xs'" "ys = []"
    then show ?thesis using maps eq head [of x xs' ss r r'] by auto
  next
    fix x xs' y ys'
    assume "xs = x # xs'" "ys = y # ys'"
    then have "ss \<noteq> []" "ts \<noteq> []" using maps by (auto simp: ebind_Inr_iff)
    then show ?thesis using eq by (simp add: tail_text_def)
  qed (use maps eq in \<open>simp add: tail_text_def\<close>)
  with inj z maps show ?thesis by (rule tail_text_inj)
qed

lemma json_class_eq:
  assumes "json_text v = Inr s" "json_text w = Inr t" "plain_numbers v" "plain_numbers w"
    and "s @ r = t @ r'"
  shows "json_class w = json_class v"
  using json_text_class [OF assms(1,3)] json_text_class [OF assms(2,4)] assms(5)
  by (cases s; cases t) auto

lemma json_text_inj:
  assumes "json_text v = Inr s" "json_text w = Inr t" "plain_numbers v" "plain_numbers w"
    and "s @ r = t @ r'" "delim r" "delim r'"
  shows "v = w \<and> r = r'"
  using assms
proof (induction v arbitrary: w s t r r')
  case (JArr vs)
  note json_class_eq [OF JArr.prems(1-5)]
  then obtain ws where w: "w = JArr ws" by (cases w) (auto split: if_splits)
  from JArr.prems(1,2) w obtain ss ts where
    ss: "emap json_text vs = Inr ss" "s = ''['' @ join_with '','' ss @ '']''"
    and ts: "emap json_text ws = Inr ts" "t = ''['' @ join_with '','' ts @ '']''"
    by (auto simp: ebind_Inr_iff)
  have "vs = ws \<and> r = r'"
  proof (rule join_text_inj [OF _ _ _ ss(1) ts(1)])
    fix x y s t r r'
    assume "x \<in> set vs" "y \<in> set ws" "json_text x = Inr s" "json_text y = Inr t"
      "s @ r = t @ r'" "delim r" "delim r'"
    then show "x = y \<and> r = r'"
      using JArr.IH [of x s y t r r'] JArr.prems(3,4) by (simp add: w list_all_iff)
  next
    fix x s
    assume "x \<in> set vs \<union> set ws" "json_text x = Inr s"
    then show "s \<noteq> [] \<and> hd s \<noteq> CHR '']''"
      using json_text_not_closing [of x s] JArr.prems(3,4) by (auto simp: w list_all_iff)
  qed (use JArr.prems(5) in \<open>simp_all add: ss ts\<close>)
  then show ?case by (simp add: w)
next
  case (JObj ps)
  note json_class_eq [OF JObj.prems(1-5)]
  then obtain qs where w: "w = JObj qs" by (cases w) (auto split: if_splits)
  let ?f = "\<lambda>p. ebind (json_text (snd p)) (\<lambda>t. Inr (json_quote (fst p) @ '':'' @ t))"
  from JObj.prems(1,2) w obtain ss ts where
    ss: "emap ?f ps = Inr ss" "s = ''{'' @ join_with '','' ss @ ''}''"
    and ts: "emap ?f qs = Inr ts" "t = ''{'' @ join_with '','' ts @ ''}''"
    by (auto simp: ebind_Inr_iff)
  have "ps = qs \<and> r = r'"
  proof (rule join_text_inj [OF _ _ _ ss(1) ts(1)])
    fix p q s t r r'
    assume p: "p \<in> set ps" "q \<in> set qs" "?f p = Inr s" "?f q = Inr t"
      "s @ r = t @ r'" "delim r" "delim r'"
    then obtain a b where a: "json_text (snd p) = Inr a" "s = json_quote (fst p) @ '':'' @ a"
      and b: "json_text (snd q) = Inr b" "t = json_quote (fst q) @ '':'' @ b"
      by (auto simp: ebind_Inr_iff)
    have "json_quote (fst p) @ '':'' @ a @ r = json_quote (fst q) @ '':'' @ b @ r'"
      using p(5) a b by simp
    then have "fst p = fst q \<and> '':'' @ a @ r = '':'' @ b @ r'" by (rule json_quote_prefix)
    then have k: "fst p = fst q" and e: "a @ r = b @ r'" by simp_all
    have "snd p \<in> Basic_BNFs.snds p" by (cases p) simp
    then have "snd p = snd q \<and> r = r'"
      using JObj.IH [OF p(1) _ a(1) b(1) _ _ e p(6,7)] JObj.prems(3,4) p(1,2)
      by (simp add: w list_all_iff)
    with k show "p = q \<and> r = r'" by (simp add: prod_eq_iff)
  next
    fix p s
    assume "?f p = Inr s"
    then show "s \<noteq> [] \<and> hd s \<noteq> CHR ''}''" by (auto simp: ebind_Inr_iff json_quote_def)
  qed (use JObj.prems(5) in \<open>simp_all add: ss ts\<close>)
  then show ?case by (simp add: w)
next
  case (JNum n)
  note json_class_eq [OF JNum.prems(1-5)]
  then obtain m where w: "w = JNum m" by (cases w) (auto split: if_splits)
  with JNum.prems(1,2) obtain i j where "n = NInt i" "m = NInt j" by (cases n; cases m) auto
  then show ?case
    using JNum.prems w show_int_prefix [of i r j r'] by (simp add: show_num_plain del: show_num.simps)
next
  case (JStr u)
  note json_class_eq [OF JStr.prems(1-5)]
  then obtain u' where w: "w = JStr u'" by (cases w) (auto split: if_splits)
  then show ?case using JStr.prems json_quote_prefix [of u r u' r'] by simp
next
  case (JBool b)
  note json_class_eq [OF JBool.prems(1-5)]
  then have "w = JBool b" by (cases w) (auto split: if_splits)
  then show ?case using JBool.prems by simp
next
  case JNull
  note json_class_eq [OF JNull.prems(1-5)]
  then have "w = JNull" by (cases w) (auto split: if_splits)
  then show ?case using JNull.prems by simp
qed simp

lemma plain_json_norm: "plain_numbers v \<Longrightarrow> plain_numbers (json_norm v)"
proof (induction v rule: json_norm.induct)
  case (2 ps)
  then show ?case by (fastforce simp: list_all_iff)
qed (auto simp: list_all_iff)

lemma canonical_json_inj:
  assumes "canonical_json v = Inr t" "canonical_json w = Inr t"
    and "plain_numbers v" "plain_numbers w"
  shows "json_norm v = json_norm w"
proof -
  have "json_norm v = json_norm w \<and> [] = ([] :: string)"
    by (rule json_text_inj [of _ t _ t])
      (use assms in \<open>simp_all add: canonical_json_norm plain_json_norm delim_def\<close>)
  then show ?thesis by simp
qed

text \<open>
  The canonical text of a value determines the value up to the order of its properties and
  its undefined properties, at every level: two values with the same canonical text have the same
  normal form. The digest of a plan is therefore as good as the plan scope itself, as far as the
  digest function has no collision. (Integers are taken below ten to the 21, where JavaScript
  prints them in full.)
\<close>

theorem canonical_json_injective:
  assumes "canonical_json v = Inr t" "canonical_json w = Inr t"
    and "plain_numbers v" "plain_numbers w"
  shows "json_norm v = json_norm w"
  by (rule canonical_json_inj [OF assms])

theorem canonical_json_injective_witness:
  "json_norm (JObj [(''b'', JNum (NInt 2)), (''a'', JArr [JNull]), (''c'', JUndef)]) =
   json_norm (JObj [(''a'', JArr [JNull]), (''b'', JNum (NInt 2))])"
  by (rule canonical_json_injective [where t = "''{'' @ [CHR 0x22, CHR ''a'', CHR 0x22] @ '':[null],''
        @ [CHR 0x22, CHR ''b'', CHR 0x22] @ '':2}''"]) (simp_all add: js_eval)

text \<open>
  Property order and undefined properties never reach the canonical text: objects with the
  same defined properties are encoded, or refused, in the same way.
\<close>

theorem canonical_json_field_order:
  assumes "distinct (map fst ps)" "distinct (map fst qs)"
    and "{p \<in> set ps. snd p \<noteq> JUndef} = {p \<in> set qs. snd p \<noteq> JUndef}"
  shows "canonical_json (JObj ps) = canonical_json (JObj qs)"
  by (simp add: defined_fields_cong [OF assms])

theorem canonical_json_field_order_witness:
  "canonical_json (JObj [(''from'', JNull), (''x'', JUndef), (''a'', JStr ''1'')]) =
   canonical_json (JObj [(''a'', JStr ''1''), (''from'', JNull)])"
  by (rule canonical_json_field_order) auto

end
