(* ===== verification/Capability_Catalog.thy ===== *)
theory Capability_Catalog
  imports Js_Text
begin

text \<open>
  \<open>src/backfill/capability-catalog.mjs\<close>: the frozen table of backfill domains, what each may do,
  and the check at module load that exactly one domain is executable.
\<close>

datatype capability_status = VERIFIED | UNVERIFIED | UNSUPPORTED | EXPERIMENT_ONLY

datatype window_grain = DIMENSION | WINDOW_SNAPSHOT | BUSINESS_DATE

fun status_text :: "capability_status \<Rightarrow> string" where
  "status_text VERIFIED = ''VERIFIED''"
| "status_text UNVERIFIED = ''UNVERIFIED''"
| "status_text UNSUPPORTED = ''UNSUPPORTED''"
| "status_text EXPERIMENT_ONLY = ''EXPERIMENT_ONLY''"

lemma status_text_inj: "status_text a = status_text b \<longleftrightarrow> a = b"
  by (cases a; cases b) auto

record capability =
  cap_domain :: string
  cap_adapterKey :: string
  cap_status :: capability_status
  cap_windowGrain :: window_grain
  cap_maxWindowSpanDays :: int
  cap_maxPagesPerWindow :: int
  cap_maxRowsPerWindow :: int
  cap_maxAttempts :: int
  cap_dailyHistoryReconstructable :: bool
  cap_blockedReasonCode :: "string option"
  cap_note :: string

definition domain_entries :: "capability list" where
  [js_eval]: "domain_entries =
    [\<lparr>cap_domain = ''store-identity'', cap_adapterKey = ''openapi.store-identity.v1'',
      cap_status = UNSUPPORTED, cap_windowGrain = DIMENSION, cap_maxWindowSpanDays = 31,
      cap_maxPagesPerWindow = 0, cap_maxRowsPerWindow = 0, cap_maxAttempts = 0,
      cap_dailyHistoryReconstructable = False, cap_blockedReasonCode = Some ''STORE_IDENTITY_NOT_HISTORICAL'',
      cap_note = ''The store dimension is current membership only; it carries no per-business-date history to replay.''\<rparr>,
     \<lparr>cap_domain = ''product-identity'', cap_adapterKey = ''openapi.product-identity.v1'',
      cap_status = UNSUPPORTED, cap_windowGrain = DIMENSION, cap_maxWindowSpanDays = 31,
      cap_maxPagesPerWindow = 0, cap_maxRowsPerWindow = 0, cap_maxAttempts = 0,
      cap_dailyHistoryReconstructable = False, cap_blockedReasonCode = Some ''PRODUCT_IDENTITY_NOT_HISTORICAL'',
      cap_note = ''Product identity is a current-state dimension; the catalog exposes no historical identity grain.''\<rparr>,
     \<lparr>cap_domain = ''sales-window-snapshot'', cap_adapterKey = ''openapi.sales-window-snapshot.v1'',
      cap_status = UNSUPPORTED, cap_windowGrain = WINDOW_SNAPSHOT, cap_maxWindowSpanDays = 1,
      cap_maxPagesPerWindow = 0, cap_maxRowsPerWindow = 0, cap_maxAttempts = 0,
      cap_dailyHistoryReconstructable = False, cap_blockedReasonCode = Some ''SALES_WINDOW_SNAPSHOT_NOT_HISTORICAL'',
      cap_note = ''The four rolling SKU sales windows only exist for the current observation instant.''\<rparr>,
     \<lparr>cap_domain = ''purchase-orders'', cap_adapterKey = ''openapi.purchase-orders.v1'',
      cap_status = VERIFIED, cap_windowGrain = BUSINESS_DATE, cap_maxWindowSpanDays = 1,
      cap_maxPagesPerWindow = 200, cap_maxRowsPerWindow = 200000, cap_maxAttempts = 3,
      cap_dailyHistoryReconstructable = True, cap_blockedReasonCode = None,
      cap_note = ''Reuses the verified supply purchase-order OpenAPI updateTime pagination, mapper and reconciliation gate.''\<rparr>,
     \<lparr>cap_domain = ''deliveries'', cap_adapterKey = ''openapi.deliveries.v1'',
      cap_status = UNVERIFIED, cap_windowGrain = BUSINESS_DATE, cap_maxWindowSpanDays = 1,
      cap_maxPagesPerWindow = 0, cap_maxRowsPerWindow = 0, cap_maxAttempts = 0,
      cap_dailyHistoryReconstructable = False, cap_blockedReasonCode = Some ''DELIVERY_HISTORY_CREATED_AT_ONLY'',
      cap_note = ''The delivery query filters creation time only; a past update cannot be replayed for one business date.''\<rparr>,
     \<lparr>cap_domain = ''financial-settlement'', cap_adapterKey = ''openapi.financial-settlement.v0'',
      cap_status = UNVERIFIED, cap_windowGrain = BUSINESS_DATE, cap_maxWindowSpanDays = 7,
      cap_maxPagesPerWindow = 0, cap_maxRowsPerWindow = 0, cap_maxAttempts = 0,
      cap_dailyHistoryReconstructable = False, cap_blockedReasonCode = Some ''FINANCIAL_SETTLEMENT_UNVERIFIED'',
      cap_note = ''Endpoint, permission package, pagination and money caliber are not verified yet.''\<rparr>,
     \<lparr>cap_domain = ''inventory-history'', cap_adapterKey = ''openapi.inventory-history.v0'',
      cap_status = UNSUPPORTED, cap_windowGrain = BUSINESS_DATE, cap_maxWindowSpanDays = 1,
      cap_maxPagesPerWindow = 0, cap_maxRowsPerWindow = 0, cap_maxAttempts = 0,
      cap_dailyHistoryReconstructable = False, cap_blockedReasonCode = Some ''INVENTORY_HISTORY_UNSUPPORTED'',
      cap_note = ''Inventory history cannot be rebuilt from a current snapshot; it accumulates forward only.''\<rparr>,
     \<lparr>cap_domain = ''webhook-history'', cap_adapterKey = ''webhook.history.v0'',
      cap_status = UNSUPPORTED, cap_windowGrain = BUSINESS_DATE, cap_maxWindowSpanDays = 1,
      cap_maxPagesPerWindow = 0, cap_maxRowsPerWindow = 0, cap_maxAttempts = 0,
      cap_dailyHistoryReconstructable = False, cap_blockedReasonCode = Some ''WEBHOOK_HISTORY_UNSUPPORTED'',
      cap_note = ''Pre-subscription platform events do not exist; only periodic OpenAPI reconciliation applies.''\<rparr>,
     \<lparr>cap_domain = ''webapi-home-snapshot'', cap_adapterKey = ''webapi.home-snapshot.v0'',
      cap_status = EXPERIMENT_ONLY, cap_windowGrain = WINDOW_SNAPSHOT, cap_maxWindowSpanDays = 1,
      cap_maxPagesPerWindow = 0, cap_maxRowsPerWindow = 0, cap_maxAttempts = 0,
      cap_dailyHistoryReconstructable = False, cap_blockedReasonCode = Some ''WEBAPI_EXPERIMENT_ONLY'',
      cap_note = ''Isolated read-only experiment. It never enters a formal fact, mart or dashboard value.''\<rparr>]"

definition BACKFILL_DOMAIN_CATALOG :: "string \<Rightarrow> capability option" where
  [js_eval]: "BACKFILL_DOMAIN_CATALOG = map_of (map (\<lambda>e. (cap_domain e, e)) domain_entries)"

definition BACKFILL_DOMAINS :: "string list" where
  [js_eval]: "BACKFILL_DOMAINS = sort (map cap_domain domain_entries)"

definition EXECUTABLE_BACKFILL_DOMAINS :: "string list" where
  [js_eval]: "EXECUTABLE_BACKFILL_DOMAINS =
     sort (map cap_domain (filter (\<lambda>e. cap_status e = VERIFIED) domain_entries))"

definition EXECUTABLE_BACKFILL_DOMAIN :: string where
  [js_eval]: "EXECUTABLE_BACKFILL_DOMAIN = ''purchase-orders''"

text \<open>The guard at module load; a failing guard throws and nothing else of the module runs.\<close>

definition catalog_module_loads :: bool where
  [js_eval]: "catalog_module_loads \<longleftrightarrow>
     length EXECUTABLE_BACKFILL_DOMAINS = 1 \<and>
     hd EXECUTABLE_BACKFILL_DOMAINS = EXECUTABLE_BACKFILL_DOMAIN"

definition isExecutableCapability :: "capability_status \<Rightarrow> bool" where
  [js_eval]: "isExecutableCapability s \<longleftrightarrow> s = VERIFIED"

text \<open>What the planner and the gate rely on, read off the table once.\<close>

definition capability_ok :: "capability \<Rightarrow> bool" where
  "capability_ok c \<longleftrightarrow>
     1 \<le> cap_maxWindowSpanDays c \<and> cap_maxWindowSpanDays c \<le> 31 \<and>
     0 \<le> cap_maxPagesPerWindow c \<and> 0 \<le> cap_maxRowsPerWindow c \<and>
     cap_maxRowsPerWindow c \<le> 200000 \<and> 0 \<le> cap_maxAttempts c \<and> cap_maxAttempts c \<le> 3 \<and>
     (if isExecutableCapability (cap_status c)
      then cap_domain c = EXECUTABLE_BACKFILL_DOMAIN \<and> cap_windowGrain c = BUSINESS_DATE \<and>
           cap_maxWindowSpanDays c = 1 \<and> cap_blockedReasonCode c = None \<and> 1 \<le> cap_maxAttempts c
      else (\<exists>r. cap_blockedReasonCode c = Some r \<and> sanitized_code_pattern r))"

lemma catalog_domains_distinct: "distinct (map cap_domain domain_entries)"
  by (simp add: domain_entries_def)

lemma catalog_entry:
  "BACKFILL_DOMAIN_CATALOG d = Some c \<longleftrightarrow> c \<in> set domain_entries \<and> cap_domain c = d"
proof -
  have "distinct (map fst (map (\<lambda>e. (cap_domain e, e)) domain_entries))"
    using catalog_domains_distinct by (simp add: o_def)
  then show ?thesis unfolding BACKFILL_DOMAIN_CATALOG_def by (auto simp: map_of_eq_Some_iff)
qed

lemma catalog_ok: "BACKFILL_DOMAIN_CATALOG d = Some c \<Longrightarrow> capability_ok c"
proof -
  have "\<forall>c\<in>set domain_entries. capability_ok c"
    by (simp add: domain_entries_def capability_ok_def isExecutableCapability_def
        EXECUTABLE_BACKFILL_DOMAIN_def sanitized_code_pattern_def matches_span_def code_char_def
        is_upper_def is_digit_def)
  then show "BACKFILL_DOMAIN_CATALOG d = Some c \<Longrightarrow> capability_ok c" by (simp add: catalog_entry)
qed

lemma catalog_loads: "catalog_module_loads"
  by (simp add: js_eval)

text \<open>No text of the table contains the unit separator that joins window and checkpoint keys.\<close>

definition no_sep :: "string \<Rightarrow> bool" where
  [js_eval]: "no_sep s \<longleftrightarrow> CHR 0x1F \<notin> set s"

lemma catalog_no_sep:
  "BACKFILL_DOMAIN_CATALOG d = Some c \<Longrightarrow> no_sep (cap_domain c) \<and> no_sep (cap_adapterKey c)"
proof -
  have "\<forall>c\<in>set domain_entries. no_sep (cap_domain c) \<and> no_sep (cap_adapterKey c)"
    by (simp add: domain_entries_def no_sep_def)
  then show "BACKFILL_DOMAIN_CATALOG d = Some c \<Longrightarrow> no_sep (cap_domain c) \<and> no_sep (cap_adapterKey c)"
    by (auto simp: catalog_entry)
qed

end
