(* ===== verification/Backfill_Plan.thy ===== *)
theory Backfill_Plan
  imports Js_Date Canonical_Json Capability_Catalog
begin

text \<open>
  \<open>src/backfill/plan.mjs\<close>: validation of a backfill request, the windows of every store and
  domain, the plan hash over the reviewed scope, and the authorization of an execute run. Requests
  are untyped values; dates inside the planner are time values in milliseconds. The digest function
  \<open>sha\<close> stands for SHA-256 in lower-case hexadecimal, which the runtime's crypto module computes.
\<close>

section \<open>Limits and errors\<close>

definition BACKFILL_PLAN_VERSION :: string where
  [js_eval]: "BACKFILL_PLAN_VERSION = ''backfill-plan.v1''"

record plan_limits =
  lim_minStoreCodes :: nat
  lim_maxStoreCodes :: nat
  lim_minDomains :: nat
  lim_maxDomains :: nat
  lim_minWindowSpanDays :: int
  lim_maxWindowSpanDays :: int
  lim_maxRangeDays :: int
  lim_maxWindowsPerPlan :: nat
  lim_minConcurrency :: int
  lim_maxConcurrency :: int
  lim_maxAttempts :: int

definition PLAN_LIMITS :: plan_limits where
  [js_eval]: "PLAN_LIMITS =
     \<lparr>lim_minStoreCodes = 1, lim_maxStoreCodes = 24, lim_minDomains = 1, lim_maxDomains = 12,
      lim_minWindowSpanDays = 1, lim_maxWindowSpanDays = 31, lim_maxRangeDays = 400,
      lim_maxWindowsPerPlan = 2000, lim_minConcurrency = 1, lim_maxConcurrency = 4,
      lim_maxAttempts = 5\<rparr>"

definition created_by_pattern :: "string \<Rightarrow> bool" where
  [js_eval]: "created_by_pattern s =
     matches_span (\<lambda>c. is_upper c \<or> is_lower c \<or> is_digit c \<or> c \<in> {CHR ''.'', CHR ''_'', CHR '':'', CHR ''-''})
       3 80 s"

section \<open>Dates\<close>

definition parseBusinessDate :: "jsv \<Rightarrow> string \<Rightarrow> int result" where
  [js_eval]: "parseBusinessDate v field =
     (case as_string v of None \<Rightarrow> Inl (Fail ''INVALID_BUSINESS_DATE'' field)
      | Some s \<Rightarrow>
        if \<not> business_date_pattern s then Inl (Fail ''INVALID_BUSINESS_DATE'' field)
        else (case parse_midnight s of None \<Rightarrow> Inl (Fail ''INVALID_BUSINESS_DATE'' field)
          | Some t \<Rightarrow> if iso_date t = s then Inr t else Inl (Fail ''INVALID_BUSINESS_DATE'' field)))"

abbreviation toIsoDate :: "int \<Rightarrow> string" where
  "toIsoDate \<equiv> iso_date"

definition addDays :: "int \<Rightarrow> int \<Rightarrow> int" where
  [js_eval]: "addDays date days = date + days * ms_per_day"

text \<open>Both dates are midnights, so the division is exact and needs no rounding.\<close>

definition dayDifference :: "int \<Rightarrow> int \<Rightarrow> int" where
  [js_eval]: "dayDifference start until = (until - start) div ms_per_day"

section \<open>Scope\<close>

text \<open>The two scope lists are normalised by the same steps, with their own checks at the end.\<close>

definition scope_texts :: "(string \<Rightarrow> string) \<Rightarrow> jsv list \<Rightarrow> string list result" where
  [js_eval]: "scope_texts case_of items =
     ebind (emap (\<lambda>i. ebind (js_string_or_empty i) (\<lambda>s. Inr (case_of (js_trim s)))) items)
       (\<lambda>ss. Inr (sort (filter (\<lambda>s. s \<noteq> []) (dedupe ss))))"

definition normalizeStoreCodes :: "jsv \<Rightarrow> string list result" where
  [js_eval]: "normalizeStoreCodes v =
     (case as_array v of None \<Rightarrow> Inl (Fail ''EMPTY_STORE_SCOPE'' [])
      | Some items \<Rightarrow>
        if items = [] then Inl (Fail ''EMPTY_STORE_SCOPE'' [])
        else ebind (scope_texts js_upper items) (\<lambda>normalized.
          if normalized = [] then Inl (Fail ''EMPTY_STORE_SCOPE'' [])
          else case find (\<lambda>s. \<not> store_code_pattern s) normalized of
              Some bad \<Rightarrow> Inl (Fail ''INVALID_STORE_CODE'' bad)
            | None \<Rightarrow>
              if lim_maxStoreCodes PLAN_LIMITS < length normalized
              then Inl (Fail ''STORE_SCOPE_TOO_LARGE'' [])
              else Inr normalized))"

definition normalizeDomains :: "jsv \<Rightarrow> string list result" where
  [js_eval]: "normalizeDomains v =
     (case as_array v of None \<Rightarrow> Inl (Fail ''EMPTY_DOMAIN_SCOPE'' [])
      | Some items \<Rightarrow>
        if items = [] then Inl (Fail ''EMPTY_DOMAIN_SCOPE'' [])
        else ebind (scope_texts js_lower items) (\<lambda>normalized.
          if normalized = [] then Inl (Fail ''EMPTY_DOMAIN_SCOPE'' [])
          else case find (\<lambda>d. BACKFILL_DOMAIN_CATALOG d = None) normalized of
              Some bad \<Rightarrow> Inl (Fail ''UNKNOWN_DOMAIN'' bad)
            | None \<Rightarrow>
              if lim_maxDomains PLAN_LIMITS < length normalized
              then Inl (Fail ''DOMAIN_SCOPE_TOO_LARGE'' [])
              else Inr normalized))"

text \<open>
  A text of digits above the safe range reads as an unsafe number or as infinity; both are outside
  every bound used here, as the exact integer is.
\<close>

definition normalizeInteger :: "jsv \<Rightarrow> string \<Rightarrow> int \<Rightarrow> int \<Rightarrow> int result" where
  [js_eval]: "normalizeInteger v field lo hi =
     ebind (case v of JNum n \<Rightarrow> Inr (show_num n)
            | _ \<Rightarrow> ebind (js_string_or_empty v) (\<lambda>s. Inr (js_trim s)))
       (\<lambda>txt.
         if \<not> canonical_nat_pattern txt then Inl (Fail ''INVALID_BOUND'' field)
         else let parsed = int (read_nat txt)
           in if max_safe < parsed \<or> parsed < lo \<or> hi < parsed then Inl (Fail ''INVALID_BOUND'' field)
              else Inr parsed)"

section \<open>Windows\<close>

definition key_sep :: string where
  [js_eval]: "key_sep = [CHR 0x1F]"

definition windowKeyFor ::
    "(string \<Rightarrow> string) \<Rightarrow> string \<Rightarrow> string \<Rightarrow> string \<Rightarrow> string \<Rightarrow> string \<Rightarrow> string" where
  [js_eval]: "windowKeyFor sha store domain adapter wstart wend =
     sha (join_with key_sep [store, domain, adapter, wstart, wend])"

text \<open>
  The loop that cuts the range into windows from its end backwards, as pairs of time values. The
  loop of the source stops because every span is positive, which the guard states.
\<close>

function window_chunks :: "int \<Rightarrow> int \<Rightarrow> int \<Rightarrow> (int \<times> int) list" where
  "window_chunks start span cursorEnd =
     (if start < cursorEnd \<and> 0 < span
      then let candidateStart = addDays cursorEnd (- span);
               windowStart = (if candidateStart < start then start else candidateStart)
           in (windowStart, cursorEnd) # window_chunks start span windowStart
      else [])"
  by pat_completeness auto
termination
proof (relation "measure (\<lambda>(start, span, cursor). nat (cursor - start))")
  fix start span cursor x xa :: int
  assume "start < cursor \<and> 0 < span" "x = addDays cursor (- span)" "xa = (if x < start then start else x)"
  then show "((start, span, xa), start, span, cursor) \<in> measure (\<lambda>(start, span, cursor). nat (cursor - start))"
    by (auto simp: addDays_def ms_per_day_def)
qed auto

declare window_chunks.simps [simp del]
declare window_chunks.simps [js_eval]

definition planWindowRanges ::
    "int \<Rightarrow> int \<Rightarrow> int \<Rightarrow> int \<Rightarrow> window_grain \<Rightarrow> bool \<Rightarrow> (string \<times> string) list" where
  [js_eval]: "planWindowRanges start until windowSpanDays maxSpan grain executable =
     (let iso = map (\<lambda>(a, b). (toIsoDate a, toIsoDate b))
      in if \<not> executable
         then iso (window_chunks start (lim_maxWindowSpanDays PLAN_LIMITS) (addDays until 1))
         else if grain = DIMENSION \<or> grain = WINDOW_SNAPSHOT
         then [(toIsoDate until, toIsoDate (addDays until 1))]
         else iso (window_chunks start (min windowSpanDays maxSpan) (addDays until 1)))"

record bf_window =
  win_storeCode :: string
  win_domain :: string
  win_adapterKey :: string
  win_capabilityStatus :: capability_status
  win_windowGrain :: window_grain
  win_windowStart :: string
  win_windowEnd :: string
  win_windowKey :: string
  win_executable :: bool
  win_blockedReasonCode :: "string option"
  win_dailyHistoryReconstructable :: bool
  win_maxAttempts :: int
  win_maxPagesPerWindow :: int
  win_maxRowsPerWindow :: int

definition make_window ::
    "(string \<Rightarrow> string) \<Rightarrow> int \<Rightarrow> string \<Rightarrow> capability \<Rightarrow> string \<times> string \<Rightarrow> bf_window" where
  [js_eval]: "make_window sha maxAttempts store c rng =
     (let executable = isExecutableCapability (cap_status c)
      in \<lparr>win_storeCode = store, win_domain = cap_domain c, win_adapterKey = cap_adapterKey c,
          win_capabilityStatus = cap_status c, win_windowGrain = cap_windowGrain c,
          win_windowStart = fst rng, win_windowEnd = snd rng,
          win_windowKey = windowKeyFor sha store (cap_domain c) (cap_adapterKey c) (fst rng) (snd rng),
          win_executable = executable,
          win_blockedReasonCode = (if executable then None else cap_blockedReasonCode c),
          win_dailyHistoryReconstructable = cap_dailyHistoryReconstructable c,
          win_maxAttempts = (if executable then min maxAttempts (cap_maxAttempts c) else 0),
          win_maxPagesPerWindow = cap_maxPagesPerWindow c,
          win_maxRowsPerWindow = cap_maxRowsPerWindow c\<rparr>)"

text \<open>The domain of every scope passed \<open>normalizeDomains\<close>, so the lookup finds its capability.\<close>

definition domain_windows ::
    "(string \<Rightarrow> string) \<Rightarrow> int \<Rightarrow> int \<Rightarrow> int \<Rightarrow> int \<Rightarrow> string \<Rightarrow> string \<Rightarrow> bf_window list" where
  [js_eval]: "domain_windows sha start until span maxAttempts store domain =
     (case BACKFILL_DOMAIN_CATALOG domain of None \<Rightarrow> []
      | Some c \<Rightarrow> map (make_window sha maxAttempts store c)
          (planWindowRanges start until span (cap_maxWindowSpanDays c) (cap_windowGrain c)
             (isExecutableCapability (cap_status c))))"

definition all_windows ::
    "(string \<Rightarrow> string) \<Rightarrow> string list \<Rightarrow> string list \<Rightarrow> int \<Rightarrow> int \<Rightarrow> int \<Rightarrow> int \<Rightarrow> bf_window list" where
  [js_eval]: "all_windows sha stores domains start until span maxAttempts =
     concat (map (\<lambda>store. concat (map (domain_windows sha start until span maxAttempts store) domains))
       stores)"

text \<open>
  The comparator of \<open>windows.sort\<close>: store, then domain, then the newest start first. On the store
  codes, catalog domains and ISO dates compared here \<open>localeCompare\<close> agrees with the code units.
\<close>

definition window_le :: "bf_window \<Rightarrow> bf_window \<Rightarrow> bool" where
  [js_eval]: "window_le a b \<longleftrightarrow>
     win_storeCode a < win_storeCode b \<or>
     (win_storeCode a = win_storeCode b \<and>
       (win_domain a < win_domain b \<or>
         (win_domain a = win_domain b \<and> win_windowStart b \<le> win_windowStart a)))"

section \<open>Plans\<close>

record plan_request =
  req_storeCodes :: jsv
  req_domains :: jsv
  req_from :: jsv
  req_to :: jsv
  req_today :: jsv
  req_windowSpanDays :: jsv
  req_concurrency :: jsv
  req_maxAttempts :: jsv
  req_createdBy :: jsv

record plan_summary =
  sum_plannedWindowCount :: nat
  sum_executableWindowCount :: nat
  sum_blockedWindowCount :: nat
  sum_blockedDomains :: "string list"
  sum_blockedWindowChunkDays :: int
  sum_blockedWindowCountPerStoreDomain :: int
  sum_executableDomains :: "string list"
  sum_byCapability :: "(string \<times> nat) list"
  sum_blockedReasonCodes :: "string option list"

record bf_plan =
  plan_planVersion :: string
  plan_planHash :: string
  plan_createdBy :: string
  plan_storeCodes :: "string list"
  plan_domains :: "string list"
  plan_from :: string
  plan_to :: string
  plan_windowSpanDays :: int
  plan_concurrency :: int
  plan_maxAttempts :: int
  plan_windows :: "bf_window list"
  plan_summary :: plan_summary

definition optional_text :: "string option \<Rightarrow> jsv" where
  [js_eval]: "optional_text t = (case t of None \<Rightarrow> JNull | Some s \<Rightarrow> JStr s)"

definition hash_window :: "bf_window \<Rightarrow> jsv" where
  [js_eval]: "hash_window w = JObj
     [(''storeCode'', JStr (win_storeCode w)), (''domain'', JStr (win_domain w)),
      (''adapterKey'', JStr (win_adapterKey w)),
      (''capabilityStatus'', JStr (status_text (win_capabilityStatus w))),
      (''windowStart'', JStr (win_windowStart w)), (''windowEnd'', JStr (win_windowEnd w)),
      (''blockedReasonCode'', optional_text (win_blockedReasonCode w)),
      (''executable'', JBool (win_executable w))]"

definition hash_input ::
    "string list \<Rightarrow> string list \<Rightarrow> int \<Rightarrow> int \<Rightarrow> int \<Rightarrow> int \<Rightarrow> int \<Rightarrow> bf_window list \<Rightarrow> jsv" where
  [js_eval]: "hash_input stores domains start until span concurrency maxAttempts windows = JObj
     [(''planVersion'', JStr BACKFILL_PLAN_VERSION),
      (''storeCodes'', JArr (map JStr stores)), (''domains'', JArr (map JStr domains)),
      (''from'', JStr (toIsoDate start)), (''to'', JStr (toIsoDate until)),
      (''windowSpanDays'', JNum (NInt span)), (''concurrency'', JNum (NInt concurrency)),
      (''maxAttempts'', JNum (NInt maxAttempts)),
      (''windows'', JArr (map hash_window windows))]"

text \<open>The first window whose key an earlier window already has.\<close>

fun first_duplicate :: "string list \<Rightarrow> string list \<Rightarrow> string option" where
  "first_duplicate seen [] = None"
| "first_duplicate seen (k # ks) =
     (if k \<in> set seen then Some k else first_duplicate (k # seen) ks)"

lemma first_duplicate_None:
  "first_duplicate seen ks = None \<longleftrightarrow> distinct ks \<and> set ks \<inter> set seen = {}"
  by (induction seen ks rule: first_duplicate.induct) auto

text \<open>\<open>Object.values(CAPABILITY_STATUSES)\<close> in declaration order.\<close>

definition capability_statuses :: "capability_status list" where
  [js_eval]: "capability_statuses = [VERIFIED, UNVERIFIED, UNSUPPORTED, EXPERIMENT_ONLY]"

definition blocked_domains :: "bf_window list \<Rightarrow> string list" where
  [js_eval]: "blocked_domains ws =
     sort (dedupe (map win_domain (filter (\<lambda>w. \<not> win_executable w) ws)))"

text \<open>\<open>.sort()\<close> on texts and \<open>null\<close>, which sorts as the text \<open>null\<close>.\<close>

definition sort_optional :: "string option list \<Rightarrow> string option list" where
  [js_eval]: "sort_optional = sort_key (\<lambda>t. case t of None \<Rightarrow> ''null'' | Some s \<Rightarrow> s)"

definition plan_summary_of :: "bf_window list \<Rightarrow> int \<Rightarrow> plan_summary" where
  [js_eval]: "plan_summary_of ws rangeDays =
     \<lparr>sum_plannedWindowCount = length ws,
      sum_executableWindowCount = length (filter win_executable ws),
      sum_blockedWindowCount = length (filter (\<lambda>w. \<not> win_executable w) ws),
      sum_blockedDomains = blocked_domains ws,
      sum_blockedWindowChunkDays = lim_maxWindowSpanDays PLAN_LIMITS,
      sum_blockedWindowCountPerStoreDomain =
        (if blocked_domains ws = [] then 0 else (rangeDays + 30) div 31),
      sum_executableDomains = sort (dedupe (map win_domain (filter win_executable ws))),
      sum_byCapability =
        map (\<lambda>s. (status_text s, length (filter (\<lambda>w. win_capabilityStatus w = s) ws)))
          capability_statuses,
      sum_blockedReasonCodes =
        sort_optional (dedupe (map win_blockedReasonCode (filter (\<lambda>w. \<not> win_executable w) ws)))\<rparr>"

text \<open>
  \<open>Math.ceil(rangeDays / 31)\<close> is the integer \<open>(rangeDays + 30) div 31\<close>; the quotient of integers
  this small never rounds across an integer.
\<close>

definition blocker_not_collapsed :: "string list \<Rightarrow> bf_window list \<Rightarrow> int \<Rightarrow> bool" where
  [js_eval]: "blocker_not_collapsed stores ws rangeDays \<longleftrightarrow>
     int (length (filter (\<lambda>w. \<not> win_executable w) ws)) \<noteq>
     int (length stores) * int (length (blocked_domains ws)) * ((rangeDays + 30) div 31)"

definition assemble_plan ::
    "(string \<Rightarrow> string) \<Rightarrow> string list \<Rightarrow> string list \<Rightarrow> int \<Rightarrow> int \<Rightarrow> int \<Rightarrow> int \<Rightarrow> int \<Rightarrow> string \<Rightarrow>
     bf_plan result" where
  [js_eval]: "assemble_plan sha stores domains start until span concurrency maxAttempts createdBy =
     (let rangeDays = dayDifference start until + 1;
          ws = sort_by window_le (all_windows sha stores domains start until span maxAttempts)
      in if lim_maxWindowsPerPlan PLAN_LIMITS < length ws
         then Inl (Fail ''WINDOW_COUNT_TOO_LARGE'' [])
         else case first_duplicate [] (map win_windowKey ws) of
             Some k \<Rightarrow> Inl (Fail ''DUPLICATE_WINDOW'' k)
           | None \<Rightarrow>
             ebind (canonical_hash sha (hash_input stores domains start until span concurrency maxAttempts ws))
               (\<lambda>planHash.
                 if blocker_not_collapsed stores ws rangeDays
                 then Inl (Fail ''BLOCKER_NOT_COLLAPSED'' [])
                 else Inr \<lparr>plan_planVersion = BACKFILL_PLAN_VERSION, plan_planHash = planHash,
                   plan_createdBy = createdBy, plan_storeCodes = stores, plan_domains = domains,
                   plan_from = toIsoDate start, plan_to = toIsoDate until,
                   plan_windowSpanDays = span, plan_concurrency = concurrency,
                   plan_maxAttempts = maxAttempts, plan_windows = ws,
                   plan_summary = plan_summary_of ws rangeDays\<rparr>))"

definition buildBackfillPlan :: "(string \<Rightarrow> string) \<Rightarrow> plan_request \<Rightarrow> bf_plan result" where
  [js_eval]: "buildBackfillPlan sha r =
     ebind (normalizeStoreCodes (req_storeCodes r)) (\<lambda>stores.
     ebind (normalizeDomains (req_domains r)) (\<lambda>domains.
     ebind (parseBusinessDate (req_from r) ''from'') (\<lambda>start.
     ebind (parseBusinessDate (req_to r) ''to'') (\<lambda>until.
     ebind (ensure (start \<le> until) (Fail ''INVALID_DATE_RANGE'' [])) (\<lambda>_.
     ebind (ensure (dayDifference start until + 1 \<le> lim_maxRangeDays PLAN_LIMITS)
       (Fail ''DATE_RANGE_TOO_LARGE'' [])) (\<lambda>_.
     ebind (if req_today r = JUndef then Inr None
            else ebind (parseBusinessDate (req_today r) ''today'') (\<lambda>t. Inr (Some t))) (\<lambda>today.
     ebind (ensure (case today of None \<Rightarrow> True | Some t \<Rightarrow> until \<le> t) (Fail ''FUTURE_DATE_RANGE'' [])) (\<lambda>_.
     ebind (normalizeInteger (coalesce (req_windowSpanDays r) (JNum (NInt 1))) ''windowSpanDays''
       (lim_minWindowSpanDays PLAN_LIMITS) (lim_maxWindowSpanDays PLAN_LIMITS)) (\<lambda>span.
     ebind (normalizeInteger (coalesce (req_concurrency r) (JNum (NInt 1))) ''concurrency''
       (lim_minConcurrency PLAN_LIMITS) (lim_maxConcurrency PLAN_LIMITS)) (\<lambda>concurrency.
     ebind (normalizeInteger (coalesce (req_maxAttempts r) (JNum (NInt 3))) ''maxAttempts''
       1 (lim_maxAttempts PLAN_LIMITS)) (\<lambda>maxAttempts.
     ebind (js_string_or_empty (req_createdBy r)) (\<lambda>createdByText.
     ebind (ensure (created_by_pattern (js_trim createdByText)) (Fail ''INVALID_CREATED_BY'' [])) (\<lambda>_.
     assemble_plan sha stores domains start until span concurrency maxAttempts (js_trim createdByText))))))))))))))"

section \<open>Execute authorization\<close>

record authorization =
  auth_planHash :: string
  auth_allowedStoreCodes :: "string list"
  auth_allowedDomains :: "string list"
  auth_blockedDomains :: "string list"

definition assertExecuteAuthorization ::
    "bf_plan \<Rightarrow> jsv \<Rightarrow> jsv \<Rightarrow> jsv \<Rightarrow> authorization result" where
  [js_eval]: "assertExecuteAuthorization plan approvedPlanHash allowedStoreCodes allowedDomains =
     ebind (js_string_or_empty approvedPlanHash) (\<lambda>h.
     ebind (ensure (hex64_pattern (js_lower (js_trim h))) (Fail ''MISSING_APPROVED_PLAN_HASH'' [])) (\<lambda>_.
     ebind (ensure (js_lower (js_trim h) = plan_planHash plan) (Fail ''PLAN_HASH_MISMATCH'' [])) (\<lambda>_.
     ebind (normalizeStoreCodes allowedStoreCodes) (\<lambda>stores.
     ebind (normalizeDomains allowedDomains) (\<lambda>domains.
     ebind (ensure (stores = plan_storeCodes plan) (Fail ''STORE_NOT_AUTHORIZED'' [])) (\<lambda>_.
     ebind (ensure (domains = plan_domains plan) (Fail ''DOMAIN_NOT_AUTHORIZED'' [])) (\<lambda>_.
     Inr \<lparr>auth_planHash = plan_planHash plan, auth_allowedStoreCodes = stores,
          auth_allowedDomains = domains, auth_blockedDomains = blocked_domains (plan_windows plan)\<rparr>)))))))"

end
