(* ===== verification/Plan_Windows.thy ===== *)
theory Plan_Windows
  imports Backfill_Plan
begin

text \<open>
  Facts about the windows of a plan: the chunks tile the requested range, every chunk is a valid
  row of the ledger, the list is already in the order of the comparator, and the blocked windows
  are as few as the ledger permits.
\<close>

section \<open>Chunks of a range of time values\<close>

lemma ms_per_day_pos [simp]: "0 < ms_per_day" "ms_per_day \<noteq> 0"
  by (simp_all add: ms_per_day_def)

lemma window_chunks_step:
  "start < cursor \<Longrightarrow> 0 < span \<Longrightarrow>
   window_chunks start span cursor =
     (max start (cursor - span * ms_per_day), cursor) #
     window_chunks start span (max start (cursor - span * ms_per_day))"
  by (subst window_chunks.simps) (simp add: Let_def addDays_def max_def)

lemma window_chunks_empty: "cursor \<le> start \<Longrightarrow> window_chunks start span cursor = []"
  by (subst window_chunks.simps) simp

lemma chunk_cursor:
  assumes "start < cursor" "0 < span"
  shows "max start (cursor - span * ms_per_day) < cursor"
  using assms by (simp add: max_def)

text \<open>Induction over the chunks, with the next cursor named.\<close>

lemma window_chunks_induct [consumes 1, case_names past chunk]:
  assumes "0 < span"
    and "\<And>cursor. cursor \<le> start \<Longrightarrow> P cursor"
    and "\<And>cursor. start < cursor \<Longrightarrow> P (max start (cursor - span * ms_per_day)) \<Longrightarrow> P cursor"
  shows "P cursor"
proof (induction "nat (cursor - start)" arbitrary: cursor rule: less_induct)
  case less
  show ?case
  proof (cases "start < cursor")
    case True
    then have "nat (max start (cursor - span * ms_per_day) - start) < nat (cursor - start)"
      using chunk_cursor [OF True assms(1)] by simp
    from assms(3) [OF True less [OF this]] show ?thesis .
  qed (simp add: assms(2))
qed

lemma window_chunks_bounds:
  assumes "0 < span" "(a, b) \<in> set (window_chunks start span cursor)"
  shows "start \<le> a \<and> a < b \<and> b \<le> cursor \<and> b - a \<le> span * ms_per_day"
  using assms
proof (induction cursor rule: window_chunks_induct [where start = start])
  case (past cursor)
  then show ?case by (simp add: window_chunks_empty)
next
  case (chunk cursor)
  note c = chunk_cursor [OF chunk.hyps assms(1)]
  from chunk.prems consider "a = max start (cursor - span * ms_per_day)" "b = cursor"
    | "(a, b) \<in> set (window_chunks start span (max start (cursor - span * ms_per_day)))"
    by (auto simp: window_chunks_step [OF chunk.hyps assms(1)])
  then show ?case
  proof cases
    case 1
    then show ?thesis using c by auto
  next
    case 2
    from chunk.IH [OF this] show ?thesis using c by auto
  qed
qed

lemma window_chunks_multiple:
  assumes "0 < span" "(a, b) \<in> set (window_chunks start span cursor)"
    and "ms_per_day dvd start" "ms_per_day dvd cursor"
  shows "ms_per_day dvd a \<and> ms_per_day dvd b"
  using assms
proof (induction cursor rule: window_chunks_induct [where start = start])
  case (past cursor)
  then show ?case by (simp add: window_chunks_empty)
next
  case (chunk cursor)
  have "ms_per_day dvd max start (cursor - span * ms_per_day)"
    using chunk.prems by (auto simp: max_def intro: dvd_diff)
  with chunk.IH chunk.prems show ?case
    by (auto simp: window_chunks_step [OF chunk.hyps assms(1)])
qed

text \<open>Every instant of the range lies in exactly one chunk.\<close>

lemma window_chunks_tile:
  assumes "0 < span" "start \<le> t" "t < cursor"
  shows "length (filter (\<lambda>(a, b). a \<le> t \<and> t < b) (window_chunks start span cursor)) = 1"
  using assms
proof (induction cursor rule: window_chunks_induct [where start = start])
  case (past cursor)
  then show ?case by simp
next
  case (chunk cursor)
  let ?n = "max start (cursor - span * ms_per_day)"
  show ?case
  proof (cases "?n \<le> t")
    case True
    then have "filter (\<lambda>(a, b). a \<le> t \<and> t < b) (window_chunks start span ?n) = []"
      using window_chunks_bounds [OF assms(1)] by (fastforce simp: filter_empty_conv)
    with True chunk.prems show ?thesis
      by (simp add: window_chunks_step [OF chunk.hyps assms(1)])
  next
    case False
    with chunk.IH chunk.prems show ?thesis
      by (simp add: window_chunks_step [OF chunk.hyps assms(1)])
  qed
qed

text \<open>The newest chunk comes first.\<close>

lemma window_chunks_newest_first:
  assumes "0 < span"
  shows "sorted_wrt (\<lambda>x y. snd y \<le> fst x) (window_chunks start span cursor)"
  using assms
proof (induction cursor rule: window_chunks_induct [where start = start])
  case (past cursor)
  then show ?case by (simp add: window_chunks_empty)
next
  case (chunk cursor)
  then show ?case
    using window_chunks_bounds [OF assms] by (fastforce simp: window_chunks_step [OF chunk.hyps assms])
qed

text \<open>A range of \<open>k\<close> days has as many chunks as \<open>k\<close> divided by the span, rounded up.\<close>

lemma window_chunks_count:
  assumes "0 < span" "0 \<le> k"
  shows "int (length (window_chunks start span (start + k * ms_per_day))) = (k + span - 1) div span"
  using assms(2)
proof (induction "nat k" arbitrary: k rule: less_induct)
  case less
  show ?case
  proof (cases "k = 0")
    case True
    then show ?thesis using assms(1) by (simp add: window_chunks_empty div_pos_pos_trivial)
  next
    case False
    with less.prems have k: "0 < k" by simp
    then have s: "start < start + k * ms_per_day" by simp
    show ?thesis
    proof (cases "k \<le> span")
      case True
      then have "max start (start + k * ms_per_day - span * ms_per_day) = start"
        by (simp add: max_def mult_right_mono)
      moreover have "(k + span - 1) div span = 1"
        using True k by (intro int_div_pos_eq [where r = "k - 1"]) auto
      ultimately show ?thesis
        by (simp add: window_chunks_step [OF s assms(1)] window_chunks_empty)
    next
      case False
      have "start + k * ms_per_day - span * ms_per_day = start + (k - span) * ms_per_day"
        by (simp add: algebra_simps)
      then have "max start (start + k * ms_per_day - span * ms_per_day) = start + (k - span) * ms_per_day"
        using False by simp
      moreover have "(k + span - 1) div span = (k - span + span - 1) div span + 1"
        using div_add_self2 [of span "k - 1"] assms(1) by (simp add: add.commute add_diff_eq)
      moreover have "int (length (window_chunks start span (start + (k - span) * ms_per_day))) =
          (k - span + span - 1) div span"
        using False assms(1) by (intro less.hyps) auto
      ultimately show ?thesis by (simp add: window_chunks_step [OF s assms(1)])
    qed
  qed
qed

section \<open>Dates of windows\<close>

text \<open>
  Between the first and the last midnight the printed dates are ordered as the time values are; the
  day after the last one prints with a sign and six digits for the year.
\<close>

definition scope_days :: "int \<Rightarrow> int \<Rightarrow> bool" where
  "scope_days start until \<longleftrightarrow> ms_per_day dvd start \<and> ms_per_day dvd until \<and>
     first_midnight \<le> start \<and> start \<le> until \<and> until \<le> last_midnight"

lemma iso_date_less_iff:
  assumes "ms_per_day dvd a" "first_midnight \<le> a" "a \<le> last_midnight"
    and "ms_per_day dvd b" "first_midnight \<le> b" "b \<le> last_midnight"
  shows "iso_date a < iso_date b \<longleftrightarrow> a < b"
  using business_date_less_iff [OF business_date_iso_date [OF assms(1-3)] business_date_iso_date [OF assms(4-6)]] .

lemma iso_date_inj:
  assumes "ms_per_day dvd a" "first_midnight \<le> a" "a \<le> last_midnight"
    and "ms_per_day dvd b" "first_midnight \<le> b" "b \<le> last_midnight" "iso_date a = iso_date b"
  shows "a = b"
  using business_date_iso_date [OF assms(1-3)] business_date_iso_date [OF assms(4-6)]
  unfolding assms(7) by (rule option.inject [THEN iffD1, OF trans [OF sym]])

lemma multiple_day_less:
  assumes d: "ms_per_day dvd a" "ms_per_day dvd b" and l: "a < b"
  shows "a + ms_per_day \<le> b"
proof -
  obtain i where i: "a = ms_per_day * i" using d(1) by (rule dvdE)
  obtain j where j: "b = ms_per_day * j" using d(2) by (rule dvdE)
  show ?thesis using l by (simp add: i j ms_per_day_def)
qed

lemma chunk_dates:
  assumes "scope_days start until" "0 < span"
    and "(a, b) \<in> set (window_chunks start span (addDays until 1))"
  shows "ms_per_day dvd a" "ms_per_day dvd b" "first_midnight \<le> a" "a \<le> last_midnight"
    "start \<le> a" "a < b" "b \<le> until + ms_per_day" "b - a \<le> span * ms_per_day"
proof -
  have "ms_per_day dvd addDays until 1" using assms(1) by (simp add: scope_days_def addDays_def)
  then show d: "ms_per_day dvd a" "ms_per_day dvd b"
    using window_chunks_multiple [OF assms(2,3)] assms(1) by (simp_all add: scope_days_def)
  show b: "start \<le> a" "a < b" "b \<le> until + ms_per_day" "b - a \<le> span * ms_per_day"
    using window_chunks_bounds [OF assms(2,3)] by (simp_all add: addDays_def)
  have "a + ms_per_day \<le> b" by (rule multiple_day_less [OF d b(2)])
  then show "first_midnight \<le> a" "a \<le> last_midnight"
    using b assms(1) by (auto simp: scope_days_def)
qed

section \<open>The windows of one store and domain\<close>

text \<open>
  The span of the chunks of a domain. The catalog has no executable domain whose grain is a
  snapshot, so every domain of a plan is cut into chunks.
\<close>

definition chunk_span :: "capability \<Rightarrow> int \<Rightarrow> int" where
  "chunk_span c span =
     (if isExecutableCapability (cap_status c) then min span (cap_maxWindowSpanDays c)
      else lim_maxWindowSpanDays PLAN_LIMITS)"

lemma chunk_span_bounds:
  "BACKFILL_DOMAIN_CATALOG d = Some c \<Longrightarrow> 1 \<le> span \<Longrightarrow> 1 \<le> chunk_span c span \<and> chunk_span c span \<le> 31"
  using catalog_ok [of d c] by (auto simp: chunk_span_def capability_ok_def PLAN_LIMITS_def)

lemma planWindowRanges_chunks:
  assumes "BACKFILL_DOMAIN_CATALOG d = Some c"
  shows "planWindowRanges start until span (cap_maxWindowSpanDays c) (cap_windowGrain c)
      (isExecutableCapability (cap_status c)) =
    map (\<lambda>(a, b). (iso_date a, iso_date b)) (window_chunks start (chunk_span c span) (addDays until 1))"
  using catalog_ok [OF assms]
  by (auto simp: planWindowRanges_def chunk_span_def capability_ok_def Let_def)

lemma domain_windows_chunks:
  assumes "BACKFILL_DOMAIN_CATALOG d = Some c"
  shows "domain_windows sha start until span attempts store d =
    map (\<lambda>(a, b). make_window sha attempts store c (iso_date a, iso_date b))
      (window_chunks start (chunk_span c span) (addDays until 1))"
  unfolding domain_windows_def using planWindowRanges_chunks [OF assms, of start until span]
  by (simp add: assms split_beta)

lemma make_window_fields [simp]:
  "win_storeCode (make_window sha n store c r) = store"
  "win_domain (make_window sha n store c r) = cap_domain c"
  "win_adapterKey (make_window sha n store c r) = cap_adapterKey c"
  "win_windowStart (make_window sha n store c r) = fst r"
  "win_windowEnd (make_window sha n store c r) = snd r"
  "win_capabilityStatus (make_window sha n store c r) = cap_status c"
  "win_executable (make_window sha n store c r) = isExecutableCapability (cap_status c)"
  "win_windowKey (make_window sha n store c r) =
     windowKeyFor sha store (cap_domain c) (cap_adapterKey c) (fst r) (snd r)"
  by (simp_all add: make_window_def Let_def)

text \<open>A window of a scope: its store and domain, and the chunk it prints.\<close>

lemma all_windows_mem:
  "w \<in> set (all_windows sha stores domains start until span attempts) \<longleftrightarrow>
     (\<exists>store\<in>set stores. \<exists>d\<in>set domains. \<exists>c a b. BACKFILL_DOMAIN_CATALOG d = Some c \<and>
        (a, b) \<in> set (window_chunks start (chunk_span c span) (addDays until 1)) \<and>
        w = make_window sha attempts store c (iso_date a, iso_date b))"
proof -
  have "w \<in> set (domain_windows sha start until span attempts store d) \<longleftrightarrow>
      (\<exists>c a b. BACKFILL_DOMAIN_CATALOG d = Some c \<and>
        (a, b) \<in> set (window_chunks start (chunk_span c span) (addDays until 1)) \<and>
        w = make_window sha attempts store c (iso_date a, iso_date b))" for store d
  proof (cases "BACKFILL_DOMAIN_CATALOG d")
    case None
    then show ?thesis by (simp add: domain_windows_def)
  next
    case (Some c)
    then show ?thesis by (auto simp: domain_windows_chunks [OF Some])
  qed
  then show ?thesis by (auto simp: all_windows_def)
qed

lemma catalog_domain: "BACKFILL_DOMAIN_CATALOG d = Some c \<Longrightarrow> cap_domain c = d"
  by (simp add: catalog_entry)

section \<open>The order of the windows\<close>

lemma sorted_wrt_concat_map:
  assumes "sorted_wrt R xs" "\<And>x. x \<in> set xs \<Longrightarrow> sorted_wrt S (f x)"
    and "\<And>x y u v. x \<in> set xs \<Longrightarrow> y \<in> set xs \<Longrightarrow> R x y \<Longrightarrow> u \<in> set (f x) \<Longrightarrow> v \<in> set (f y) \<Longrightarrow> S u v"
  shows "sorted_wrt S (concat (map f xs))"
  using assms
proof (induction xs)
  case (Cons x xs)
  have "sorted_wrt S (concat (map f xs))"
    using Cons.prems by (intro Cons.IH) (simp, simp, meson list.set_intros(2))
  moreover have "\<forall>u\<in>set (f x). \<forall>v\<in>set (concat (map f xs)). S u v"
    using Cons.prems(1,3) by fastforce
  ultimately show ?case using Cons.prems(2) by (simp add: sorted_wrt_append)
qed simp

text \<open>
  The loops already produce the windows in the strict order of store, domain and newest start, so
  the sort of the source changes nothing and no two windows of a plan have the same grain.
\<close>

definition window_less :: "bf_window \<Rightarrow> bf_window \<Rightarrow> bool" where
  "window_less a b \<longleftrightarrow>
     win_storeCode a < win_storeCode b \<or>
     (win_storeCode a = win_storeCode b \<and>
       (win_domain a < win_domain b \<or>
         (win_domain a = win_domain b \<and> win_windowStart b < win_windowStart a)))"

lemma window_less_le: "window_less a b \<Longrightarrow> window_le a b"
  by (auto simp: window_less_def window_le_def)

lemma domain_windows_sorted:
  assumes "BACKFILL_DOMAIN_CATALOG d = Some c" "scope_days start until" "1 \<le> span"
  shows "sorted_wrt window_less (domain_windows sha start until span attempts store d)"
proof -
  let ?cs = "window_chunks start (chunk_span c span) (addDays until 1)"
  have sp: "0 < chunk_span c span" using chunk_span_bounds [OF assms(1,3)] by simp
  have "sorted_wrt (\<lambda>x y. iso_date (fst y) < iso_date (fst x)) ?cs"
  proof (rule sorted_wrt_mono_rel [OF _ window_chunks_newest_first [OF sp]])
    fix x y
    assume x: "x \<in> set ?cs" and y: "y \<in> set ?cs" and xy: "snd y \<le> fst x"
    note cx = chunk_dates [OF assms(2) sp, of "fst x" "snd x"]
    note cy = chunk_dates [OF assms(2) sp, of "fst y" "snd y"]
    have "fst y < fst x" using cy(6) xy y by simp
    with cx cy x y show "iso_date (fst y) < iso_date (fst x)" by (simp add: iso_date_less_iff)
  qed
  then show ?thesis
    by (simp add: domain_windows_chunks [OF assms(1)] sorted_wrt_map window_less_def split_beta)
qed

lemma domain_windows_fields:
  assumes "w \<in> set (domain_windows sha start until span attempts store d)"
  shows "win_storeCode w = store \<and> win_domain w = d"
  using assms by (auto simp: domain_windows_def catalog_domain split: option.splits)

lemma store_windows_sorted:
  assumes "sorted domains" "distinct domains" "scope_days start until" "1 \<le> span"
  shows "sorted_wrt window_less (concat (map (domain_windows sha start until span attempts store) domains))"
proof (rule sorted_wrt_concat_map [where R = "(<)"])
  show "sorted_wrt (<) domains" using assms(1,2) by (simp add: strict_sorted_iff)
  show "sorted_wrt window_less (domain_windows sha start until span attempts store d)" for d
    using domain_windows_sorted [OF _ assms(3,4)]
    by (cases "BACKFILL_DOMAIN_CATALOG d") (simp_all add: domain_windows_def)
next
  fix x y u v
  assume "x < y" "u \<in> set (domain_windows sha start until span attempts store x)"
    "v \<in> set (domain_windows sha start until span attempts store y)"
  then show "window_less u v" by (auto dest!: domain_windows_fields simp: window_less_def)
qed

lemma all_windows_sorted:
  assumes "sorted stores" "distinct stores" "sorted domains" "distinct domains"
    and "scope_days start until" "1 \<le> span"
  shows "sorted_wrt window_less (all_windows sha stores domains start until span attempts)"
  unfolding all_windows_def
proof (rule sorted_wrt_concat_map [where R = "(<)"])
  show "sorted_wrt (<) stores" using assms(1,2) by (simp add: strict_sorted_iff)
  show "sorted_wrt window_less (concat (map (domain_windows sha start until span attempts store) domains))" for store
    using assms by (intro store_windows_sorted)
next
  fix x y u v
  assume "x < y"
    "u \<in> set (concat (map (domain_windows sha start until span attempts x) domains))"
    "v \<in> set (concat (map (domain_windows sha start until span attempts y) domains))"
  then show "window_less u v" by (auto dest!: domain_windows_fields simp: window_less_def)
qed

lemma sort_windows_id:
  assumes "sorted stores" "distinct stores" "sorted domains" "distinct domains"
    and "scope_days start until" "1 \<le> span"
  shows "sort_by window_le (all_windows sha stores domains start until span attempts) =
    all_windows sha stores domains start until span attempts"
  by (intro sort_by_sorted sorted_wrt_mono_rel [OF _ all_windows_sorted [OF assms]] window_less_le)

section \<open>Window keys\<close>

lemma join_sep_inj:
  assumes "length xs = length ys" "\<forall>x\<in>set xs. no_sep x" "\<forall>y\<in>set ys. no_sep y"
    and "join_with key_sep xs = join_with key_sep ys"
  shows "xs = ys"
proof -
  have cut: "s = t \<and> u = v" if "s @ key_sep @ u = t @ key_sep @ v" "no_sep s" "no_sep t" for s t u v
    using that
  proof (induction s arbitrary: t)
    case Nil
    then show ?case by (cases t) (auto simp: key_sep_def no_sep_def)
  next
    case (Cons c s)
    then show ?case by (cases t) (auto simp: key_sep_def no_sep_def)
  qed
  from assms show ?thesis
  proof (induction xs ys rule: list_induct2)
    case (Cons x xs y ys)
    then show ?case
    proof (cases xs)
      case Nil
      with Cons show ?thesis by simp
    next
      case (Cons x' xs')
      then obtain y' ys' where "ys = y' # ys'" using Cons.hyps by (cases ys) auto
      with Cons Cons.prems show ?thesis
        using cut [of x "join_with key_sep xs" y "join_with key_sep ys"] Cons.IH by simp
    qed
  qed simp
qed

text \<open>What the key is the digest of.\<close>

definition key_text :: "bf_window \<Rightarrow> string" where
  [js_eval]: "key_text w = join_with key_sep
     [win_storeCode w, win_domain w, win_adapterKey w, win_windowStart w, win_windowEnd w]"

lemma make_window_key:
  "win_windowKey (make_window sha n store c r) = sha (key_text (make_window sha n store c r))"
  by (simp add: windowKeyFor_def key_text_def)

lemma no_sep_digits: "list_all is_digit s \<Longrightarrow> no_sep s"
  by (auto simp: list_all_iff no_sep_def is_digit_def)

lemma no_sep_append [simp]: "no_sep (s @ t) \<longleftrightarrow> no_sep s \<and> no_sep t"
  by (auto simp: no_sep_def)

lemma no_sep_iso_date: "no_sep (iso_date t)"
proof -
  have pad: "no_sep (show_pad k n)" for k n
    by (rule no_sep_digits) (rule show_pad_digits)
  then have year: "no_sep (show_year y)" for y
    by (auto simp: show_year_def no_sep_def)
  have "no_sep (to_iso_string t)"
    using pad year by (simp add: to_iso_string_def Let_def split_beta) (simp add: no_sep_def)
  then show ?thesis by (auto simp: iso_date_def no_sep_def dest: in_set_takeD)
qed

lemma no_sep_store: "store_code_pattern s \<Longrightarrow> no_sep s"
  by (auto simp: store_code_pattern_def no_sep_def is_upper_def is_digit_def)

lemma key_text_inj:
  assumes "v \<in> set (all_windows sha stores domains start until span attempts)"
    and "w \<in> set (all_windows sha stores domains start until span attempts)"
    and "\<forall>s\<in>set stores. store_code_pattern s" "key_text v = key_text w"
  shows "\<not> window_less v w"
proof -
  have "\<forall>t\<in>set [win_storeCode u, win_domain u, win_adapterKey u, win_windowStart u, win_windowEnd u]. no_sep t"
    if "u \<in> set (all_windows sha stores domains start until span attempts)" for u
    using that assms(3) catalog_no_sep
    by (fastforce simp: all_windows_mem no_sep_iso_date no_sep_store)
  from join_sep_inj [OF _ this [OF assms(1)] this [OF assms(2)]] assms(4)
  have "win_storeCode v = win_storeCode w \<and> win_domain v = win_domain w \<and>
      win_windowStart v = win_windowStart w"
    by (simp add: key_text_def)
  then show ?thesis by (simp add: window_less_def)
qed

lemma distinct_window_keys:
  assumes "sorted stores" "distinct stores" "sorted domains" "distinct domains"
    and "scope_days start until" "1 \<le> span" "\<forall>s\<in>set stores. store_code_pattern s"
    and "inj_on sha (key_text ` set (all_windows sha stores domains start until span attempts))"
  shows "distinct (map win_windowKey (all_windows sha stores domains start until span attempts))"
proof -
  let ?ws = "all_windows sha stores domains start until span attempts"
  have key: "w \<in> set ?ws \<Longrightarrow> win_windowKey w = sha (key_text w)" for w
    using make_window_key by (auto simp: all_windows_mem)
  have "sorted_wrt (\<lambda>v w. win_windowKey v \<noteq> win_windowKey w) ?ws"
  proof (rule sorted_wrt_mono_rel [OF _ all_windows_sorted [OF assms(1-6)]])
    fix v w
    assume v: "v \<in> set ?ws" and w: "w \<in> set ?ws" and l: "window_less v w"
    have "key_text v \<noteq> key_text w" using key_text_inj [OF v w assms(7)] l by blast
    then show "win_windowKey v \<noteq> win_windowKey w"
      using assms(8) v w by (simp add: key inj_on_eq_iff)
  qed
  then show ?thesis unfolding distinct_conv_nth sorted_wrt_iff_nth_less
    by (metis length_map linorder_neqE_nat nth_map)
qed

section \<open>Blocked windows are collapsed\<close>

lemma length_filter_concat_map:
  "length (filter P (concat (map f xs))) = sum_list (map (\<lambda>x. length (filter P (f x))) xs)"
  by (induction xs) simp_all

lemma chunk_count:
  assumes "scope_days start until" "0 < span"
  shows "int (length (window_chunks start span (addDays until 1))) =
    (dayDifference start until + 1 + span - 1) div span"
proof -
  have d: "ms_per_day dvd start" "ms_per_day dvd until" using assms(1) by (simp_all add: scope_days_def)
  obtain i where i: "start = ms_per_day * i" using d(1) by (rule dvdE)
  obtain j where j: "until = ms_per_day * j" using d(2) by (rule dvdE)
  have "start \<le> until" using assms(1) by (simp add: scope_days_def)
  then have ij: "i \<le> j" unfolding i j by (simp add: mult_le_cancel_left_pos)
  have "until - start = ms_per_day * (j - i)" unfolding i j by (rule right_diff_distrib [symmetric])
  then have "dayDifference start until = j - i"
    unfolding dayDifference_def by (simp only:) simp
  moreover have "addDays until 1 = start + (j - i + 1) * ms_per_day"
    unfolding addDays_def i j by (simp add: distrib_left distrib_right right_diff_distrib mult.commute)
  ultimately show ?thesis
    using window_chunks_count [OF assms(2), of "j - i + 1" start] ij by simp
qed

lemma chunks_nonempty:
  assumes "scope_days start until" "0 < span"
  shows "window_chunks start span (addDays until 1) \<noteq> []"
proof -
  have "start < addDays until 1" using assms(1) by (simp add: scope_days_def addDays_def ms_per_day_def)
  then show ?thesis by (simp add: window_chunks_step [OF _ assms(2)])
qed

text \<open>Whether a domain of the catalog is executable.\<close>

definition domain_blocked :: "string \<Rightarrow> bool" where
  "domain_blocked d = (case BACKFILL_DOMAIN_CATALOG d of None \<Rightarrow> False
     | Some c \<Rightarrow> \<not> isExecutableCapability (cap_status c))"

lemma domain_blocked_iff: "domain_blocked d \<longleftrightarrow>
  (\<exists>c. BACKFILL_DOMAIN_CATALOG d = Some c \<and> \<not> isExecutableCapability (cap_status c))"
  by (simp add: domain_blocked_def split: option.split)

lemma blocked_domains_eq:
  assumes "stores \<noteq> []" "sorted domains" "distinct domains" "scope_days start until" "1 \<le> span"
  shows "blocked_domains (all_windows sha stores domains start until span attempts) =
    filter domain_blocked domains"
proof -
  let ?ws = "all_windows sha stores domains start until span attempts"
  have "set (map win_domain (filter (\<lambda>w. \<not> win_executable w) ?ws)) = set (filter domain_blocked domains)"
  proof (intro set_eqI iffI)
    fix d
    assume "d \<in> set (filter domain_blocked domains)"
    then obtain c where c: "d \<in> set domains" "BACKFILL_DOMAIN_CATALOG d = Some c"
      "\<not> isExecutableCapability (cap_status c)" by (auto simp: domain_blocked_iff)
    obtain store where store: "store \<in> set stores" using assms(1) by (cases stores) auto
    have "0 < chunk_span c span" using chunk_span_bounds [OF c(2) assms(5)] by simp
    then obtain a b where "(a, b) \<in> set (window_chunks start (chunk_span c span) (addDays until 1))"
      using chunks_nonempty [OF assms(4)] by (metis list.set_intros(1) neq_Nil_conv surj_pair)
    then have "make_window sha attempts store c (iso_date a, iso_date b) \<in> set ?ws"
      using c store unfolding all_windows_mem by blast
    then show "d \<in> set (map win_domain (filter (\<lambda>w. \<not> win_executable w) ?ws))"
      using c by (force simp: catalog_domain image_iff)
  qed (auto simp: all_windows_mem domain_blocked_iff catalog_domain)
  then have "sort (dedupe (map win_domain (filter (\<lambda>w. \<not> win_executable w) ?ws))) =
      sort (dedupe (filter domain_blocked domains))" by (rule sort_dedupe_cong)
  also have "\<dots> = filter domain_blocked domains"
    using assms(2,3) by (simp add: dedupe_id sorted_sort_id sorted_wrt_filter)
  finally show ?thesis by (simp add: blocked_domains_def)
qed

lemma blocked_in_domain:
  assumes "BACKFILL_DOMAIN_CATALOG d = Some c" "scope_days start until" "1 \<le> span"
  shows "int (length (filter (\<lambda>w. \<not> win_executable w) (domain_windows sha start until span attempts store d))) =
    (if domain_blocked d then (dayDifference start until + 1 + 30) div 31 else 0)"
proof -
  have "length (filter (\<lambda>w. \<not> win_executable w) (domain_windows sha start until span attempts store d)) =
      (if isExecutableCapability (cap_status c) then 0
       else length (window_chunks start (chunk_span c span) (addDays until 1)))"
    by (simp add: domain_windows_chunks [OF assms(1)] filter_map o_def split_beta)
  moreover have "domain_blocked d \<longleftrightarrow> \<not> isExecutableCapability (cap_status c)"
    by (simp add: domain_blocked_def assms(1))
  ultimately show ?thesis
    using chunk_count [OF assms(2), of 31] by (simp add: chunk_span_def PLAN_LIMITS_def)
qed

lemma sum_list_indicator:
  "sum_list (map (\<lambda>x. if P x then k else 0) xs) = int (length (filter P xs)) * k"
  by (induction xs) (simp_all add: algebra_simps)

lemma int_sum_list: "int (sum_list (map f xs)) = sum_list (map (\<lambda>x. int (f x)) xs)"
  by (induction xs) simp_all

lemma blockers_collapsed:
  assumes "stores \<noteq> []" "sorted domains" "distinct domains" "scope_days start until" "1 \<le> span"
    and "\<forall>d\<in>set domains. BACKFILL_DOMAIN_CATALOG d \<noteq> None"
  shows "\<not> blocker_not_collapsed stores (all_windows sha stores domains start until span attempts)
    (dayDifference start until + 1)"
proof -
  let ?k = "(dayDifference start until + 1 + 30) div 31"
  have "int (length (filter (\<lambda>w. \<not> win_executable w)
      (concat (map (domain_windows sha start until span attempts store) domains)))) =
    sum_list (map (\<lambda>d. if domain_blocked d then ?k else 0) domains)" for store
    unfolding length_filter_concat_map int_sum_list
    using blocked_in_domain [OF _ assms(4,5)] assms(6)
    by (intro arg_cong [where f = sum_list] map_cong) blast+
  then have "int (length (filter (\<lambda>w. \<not> win_executable w)
      (concat (map (domain_windows sha start until span attempts store) domains)))) =
    int (length (filter domain_blocked domains)) * ?k" for store
    by (simp add: sum_list_indicator)
  then have "int (length (filter (\<lambda>w. \<not> win_executable w)
      (all_windows sha stores domains start until span attempts))) =
    int (length stores) * (int (length (filter domain_blocked domains)) * ?k)"
    unfolding all_windows_def length_filter_concat_map int_sum_list
    by (simp add: sum_list_triv)
  then show ?thesis by (simp add: blocker_not_collapsed_def blocked_domains_eq [OF assms(1-5)])
qed

end
