(* ===== verification/Plan_Properties.thy ===== *)
theory Plan_Properties
  imports Plan_Windows
begin

text \<open>
  What a backfill plan promises. A request is resolved to a typed scope, and the plan is a function
  of that scope and of the digest; the properties below are about the resolved scope, the windows
  of the plan, its hash and the authorization of an execute run.
\<close>

section \<open>Normalised scope\<close>

lemma scope_texts_sorted:
  assumes "scope_texts f items = Inr ss"
  shows "sorted ss" "distinct ss" "[] \<notin> set ss"
  using assms by (auto simp: scope_texts_def ebind_Inr_iff sorted_wrt_filter)

lemma find_None_all: "find P xs = None \<Longrightarrow> \<forall>x\<in>set xs. \<not> P x"
  by (simp add: find_None_iff)

lemma normalizeStoreCodes_Inr:
  assumes "normalizeStoreCodes v = Inr ss"
  shows "sorted ss" "distinct ss" "ss \<noteq> []" "\<forall>s\<in>set ss. store_code_pattern s" "length ss \<le> 24"
  using assms scope_texts_sorted
  by (auto simp: normalizeStoreCodes_def PLAN_LIMITS_def ebind_Inr_iff find_None_iff
      split: option.splits if_splits)

lemma normalizeDomains_Inr:
  assumes "normalizeDomains v = Inr ds"
  shows "sorted ds" "distinct ds" "ds \<noteq> []" "\<forall>d\<in>set ds. BACKFILL_DOMAIN_CATALOG d \<noteq> None"
    "length ds \<le> 12"
proof -
  obtain items where v: "v = JArr items" "items \<noteq> []"
    using assms by (cases v) (auto simp: normalizeDomains_def split: if_splits)
  then obtain n where n: "scope_texts js_lower items = Inr n" "n \<noteq> []"
    and rest: "(case find (\<lambda>d. BACKFILL_DOMAIN_CATALOG d = None) n of
        Some bad \<Rightarrow> Inl (Fail ''UNKNOWN_DOMAIN'' bad)
      | None \<Rightarrow> if lim_maxDomains PLAN_LIMITS < length n then Inl (Fail ''DOMAIN_SCOPE_TOO_LARGE'' [])
                else Inr n) = Inr ds"
    using assms by (cases "scope_texts js_lower items") (auto simp: normalizeDomains_def split: if_splits)
  have f: "find (\<lambda>d. BACKFILL_DOMAIN_CATALOG d = None) n = None"
    using rest by (cases "find (\<lambda>d. BACKFILL_DOMAIN_CATALOG d = None) n") simp_all
  with rest have "n = ds" "length n \<le> 12"
    by (simp_all add: PLAN_LIMITS_def split: if_splits)
  with f n scope_texts_sorted [OF n(1)]
  show "sorted ds" "distinct ds" "ds \<noteq> []" "\<forall>d\<in>set ds. BACKFILL_DOMAIN_CATALOG d \<noteq> None"
    "length ds \<le> 12"
    by (simp_all add: find_None_iff)
qed

lemma parseBusinessDate_Inr:
  "parseBusinessDate v f = Inr t \<longleftrightarrow> (\<exists>s. v = JStr s \<and> business_date_ms s = Some t)"
proof (cases v)
  case (JStr s)
  show ?thesis
    by (cases "business_date_pattern s"; cases "parse_midnight s")
      (simp_all add: parseBusinessDate_def business_date_ms_def JStr)
qed (simp_all add: parseBusinessDate_def)

lemma normalizeInteger_Inr:
  "normalizeInteger v f lo hi = Inr n \<Longrightarrow> lo \<le> n \<and> n \<le> hi"
  by (auto simp: normalizeInteger_def ebind_Inr_iff Let_def split: if_splits)

text \<open>The typed scope of a request, and when a request has it.\<close>

record plan_scope =
  sc_stores :: "string list"
  sc_domains :: "string list"
  sc_start :: int
  sc_until :: int
  sc_span :: int
  sc_concurrency :: int
  sc_attempts :: int
  sc_operator :: string

definition request_scope :: "plan_request \<Rightarrow> plan_scope \<Rightarrow> bool" where
  "request_scope r sc \<longleftrightarrow>
     normalizeStoreCodes (req_storeCodes r) = Inr (sc_stores sc) \<and>
     normalizeDomains (req_domains r) = Inr (sc_domains sc) \<and>
     parseBusinessDate (req_from r) ''from'' = Inr (sc_start sc) \<and>
     parseBusinessDate (req_to r) ''to'' = Inr (sc_until sc) \<and>
     sc_start sc \<le> sc_until sc \<and> dayDifference (sc_start sc) (sc_until sc) + 1 \<le> 400 \<and>
     (req_today r = JUndef \<or> (\<exists>t. parseBusinessDate (req_today r) ''today'' = Inr t \<and> sc_until sc \<le> t)) \<and>
     normalizeInteger (coalesce (req_windowSpanDays r) (JNum (NInt 1))) ''windowSpanDays'' 1 31 =
       Inr (sc_span sc) \<and>
     normalizeInteger (coalesce (req_concurrency r) (JNum (NInt 1))) ''concurrency'' 1 4 =
       Inr (sc_concurrency sc) \<and>
     normalizeInteger (coalesce (req_maxAttempts r) (JNum (NInt 3))) ''maxAttempts'' 1 5 =
       Inr (sc_attempts sc) \<and>
     (\<exists>t. js_string_or_empty (req_createdBy r) = Inr t \<and> created_by_pattern (js_trim t) \<and>
        sc_operator sc = js_trim t)"

definition scope_windows :: "(string \<Rightarrow> string) \<Rightarrow> plan_scope \<Rightarrow> bf_window list" where
  "scope_windows sha sc =
     all_windows sha (sc_stores sc) (sc_domains sc) (sc_start sc) (sc_until sc) (sc_span sc) (sc_attempts sc)"

definition scope_hash_input :: "(string \<Rightarrow> string) \<Rightarrow> plan_scope \<Rightarrow> jsv" where
  "scope_hash_input sha sc =
     hash_input (sc_stores sc) (sc_domains sc) (sc_start sc) (sc_until sc) (sc_span sc)
       (sc_concurrency sc) (sc_attempts sc) (scope_windows sha sc)"

definition scope_hash_text :: "(string \<Rightarrow> string) \<Rightarrow> plan_scope \<Rightarrow> string" where
  "scope_hash_text sha sc =
     (case canonical_json (scope_hash_input sha sc) of Inr t \<Rightarrow> t | Inl _ \<Rightarrow> [])"

text \<open>The plan of a scope: no sorting, no check that can fail.\<close>

definition plan_of :: "(string \<Rightarrow> string) \<Rightarrow> plan_scope \<Rightarrow> bf_plan" where
  "plan_of sha sc =
     \<lparr>plan_planVersion = BACKFILL_PLAN_VERSION, plan_planHash = sha (scope_hash_text sha sc),
      plan_createdBy = sc_operator sc, plan_storeCodes = sc_stores sc, plan_domains = sc_domains sc,
      plan_from = iso_date (sc_start sc), plan_to = iso_date (sc_until sc),
      plan_windowSpanDays = sc_span sc, plan_concurrency = sc_concurrency sc,
      plan_maxAttempts = sc_attempts sc, plan_windows = scope_windows sha sc,
      plan_summary = plan_summary_of (scope_windows sha sc)
        (dayDifference (sc_start sc) (sc_until sc) + 1)\<rparr>"

lemma request_scope_facts:
  assumes "request_scope r sc"
  shows "sorted (sc_stores sc)" "distinct (sc_stores sc)" "sc_stores sc \<noteq> []"
    "\<forall>s\<in>set (sc_stores sc). store_code_pattern s"
    "sorted (sc_domains sc)" "distinct (sc_domains sc)"
    "\<forall>d\<in>set (sc_domains sc). BACKFILL_DOMAIN_CATALOG d \<noteq> None"
    "scope_days (sc_start sc) (sc_until sc)" "1 \<le> sc_span sc" "sc_span sc \<le> 31"
    "1 \<le> sc_attempts sc" "sc_attempts sc \<le> 5" "1 \<le> sc_concurrency sc" "sc_concurrency sc \<le> 4"
  using assms normalizeStoreCodes_Inr [of "req_storeCodes r" "sc_stores sc"]
    normalizeDomains_Inr [of "req_domains r" "sc_domains sc"]
  by (auto simp: request_scope_def parseBusinessDate_Inr scope_days_def
      dest: business_date_range normalizeInteger_Inr)

lemma request_scope_operator:
  "request_scope r sc \<Longrightarrow> request_scope r sc' \<Longrightarrow> sc = sc'"
  by (cases sc; cases sc') (auto simp: request_scope_def)

section \<open>Encoding never fails\<close>

lemma canonical_obj_total:
  "(\<forall>p\<in>set ps. snd p = JUndef \<or> (\<exists>t. canonical_json (snd p) = Inr t)) \<Longrightarrow>
   \<exists>t. canonical_json (JObj ps) = Inr t"
  using emap_total [of "\<lambda>p. ebind (canonical_json (snd p)) (\<lambda>t. Inr (json_quote (fst p) @ '':'' @ t))"
      "defined_fields ps"]
  by (fastforce simp: ebind_Inr_iff)

lemma canonical_arr_total:
  "(\<forall>v\<in>set vs. \<exists>t. canonical_json v = Inr t) \<Longrightarrow> \<exists>t. canonical_json (JArr vs) = Inr t"
  using emap_total [of canonical_json vs] by (fastforce simp: ebind_Inr_iff)

lemma hash_window_total: "\<exists>t. canonical_json (hash_window w) = Inr t"
  unfolding hash_window_def
  by (rule canonical_obj_total) (auto simp: optional_text_def split: option.split)

lemma hash_input_total:
  "\<exists>t. canonical_json (hash_input stores domains start until span conc attempts ws) = Inr t"
proof -
  have "\<exists>t. canonical_json (JArr (map JStr ss)) = Inr t" for ss
    by (rule canonical_arr_total) auto
  moreover have "\<exists>t. canonical_json (JArr (map hash_window ws)) = Inr t"
    by (rule canonical_arr_total) (auto simp: hash_window_total)
  ultimately show ?thesis unfolding hash_input_def
    by (intro canonical_obj_total) (auto simp del: canonical_json.simps(5))
qed

lemma scope_hash_text: "canonical_json (scope_hash_input sha sc) = Inr (scope_hash_text sha sc)"
  using hash_input_total by (auto simp: scope_hash_text_def scope_hash_input_def split: sum.splits)
    (metis Inr_not_Inl)

section \<open>A plan is a function of the resolved scope\<close>

text \<open>The validation part of the planner, with its result as a typed scope.\<close>

definition resolve_request :: "plan_request \<Rightarrow> plan_scope result" where
  "resolve_request r =
     ebind (normalizeStoreCodes (req_storeCodes r)) (\<lambda>stores.
     ebind (normalizeDomains (req_domains r)) (\<lambda>domains.
     ebind (parseBusinessDate (req_from r) ''from'') (\<lambda>start.
     ebind (parseBusinessDate (req_to r) ''to'') (\<lambda>until.
     ebind (ensure (start \<le> until) (Fail ''INVALID_DATE_RANGE'' [])) (\<lambda>_.
     ebind (ensure (dayDifference start until + 1 \<le> lim_maxRangeDays PLAN_LIMITS)
       (Fail ''DATE_RANGE_TOO_LARGE'' [])) (\<lambda>_.
     ebind (if req_today r = JUndef then Inr None
            else ebind (parseBusinessDate (req_today r) ''today'') (\<lambda>t. Inr (Some t))) (\<lambda>today.
     ebind (ensure (case today of None \<Rightarrow> True | Some t \<Rightarrow> until \<le> t) (Fail ''FUTURE_DATE_RANGE'' [])) (\<lambda>_.
     ebind (normalizeInteger (coalesce (req_windowSpanDays r) (JNum (NInt 1))) ''windowSpanDays''
       (lim_minWindowSpanDays PLAN_LIMITS) (lim_maxWindowSpanDays PLAN_LIMITS)) (\<lambda>span.
     ebind (normalizeInteger (coalesce (req_concurrency r) (JNum (NInt 1))) ''concurrency''
       (lim_minConcurrency PLAN_LIMITS) (lim_maxConcurrency PLAN_LIMITS)) (\<lambda>concurrency.
     ebind (normalizeInteger (coalesce (req_maxAttempts r) (JNum (NInt 3))) ''maxAttempts''
       1 (lim_maxAttempts PLAN_LIMITS)) (\<lambda>maxAttempts.
     ebind (js_string_or_empty (req_createdBy r)) (\<lambda>createdByText.
     ebind (ensure (created_by_pattern (js_trim createdByText)) (Fail ''INVALID_CREATED_BY'' [])) (\<lambda>_.
     Inr \<lparr>sc_stores = stores, sc_domains = domains, sc_start = start, sc_until = until, sc_span = span,
       sc_concurrency = concurrency, sc_attempts = maxAttempts, sc_operator = js_trim createdByText\<rparr>)))))))))))))"

lemma ebind_assoc: "ebind (ebind m f) g = ebind m (\<lambda>x. ebind (f x) g)"
  by (cases m) simp_all

definition assemble_scope :: "(string \<Rightarrow> string) \<Rightarrow> plan_scope \<Rightarrow> bf_plan result" where
  "assemble_scope sha sc = assemble_plan sha (sc_stores sc) (sc_domains sc) (sc_start sc) (sc_until sc)
     (sc_span sc) (sc_concurrency sc) (sc_attempts sc) (sc_operator sc)"

lemma build_resolve: "buildBackfillPlan sha r = ebind (resolve_request r) (assemble_scope sha)"
  by (simp add: buildBackfillPlan_def resolve_request_def ebind_assoc assemble_scope_def)

lemma resolve_request_Inr: "resolve_request r = Inr sc \<longleftrightarrow> request_scope r sc"
proof
  assume "resolve_request r = Inr sc"
  then show "request_scope r sc"
    unfolding resolve_request_def ebind_Inr_iff ensure_Inr_iff
    by (elim exE conjE) (auto simp: request_scope_def PLAN_LIMITS_def ebind_Inr_iff split: if_splits)
next
  assume sc: "request_scope r sc"
  then obtain t where t: "js_string_or_empty (req_createdBy r) = Inr t" "created_by_pattern (js_trim t)"
    "sc_operator sc = js_trim t" by (auto simp: request_scope_def)
  show "resolve_request r = Inr sc"
  proof (cases "req_today r = JUndef")
    case True
    then show ?thesis using sc t(2,3) by (simp add: resolve_request_def request_scope_def PLAN_LIMITS_def t(1))
  next
    case False
    then obtain u where "parseBusinessDate (req_today r) ''today'' = Inr u" "sc_until sc \<le> u"
      using sc by (auto simp: request_scope_def)
    then show ?thesis
      using sc t(2,3) False by (simp add: resolve_request_def request_scope_def PLAN_LIMITS_def t(1))
  qed
qed

lemma assemble_scope_valid:
  assumes "request_scope r sc"
  shows "assemble_scope sha sc =
    (if 2000 < length (scope_windows sha sc) then Inl (Fail ''WINDOW_COUNT_TOO_LARGE'' [])
     else case first_duplicate [] (map win_windowKey (scope_windows sha sc)) of
         Some k \<Rightarrow> Inl (Fail ''DUPLICATE_WINDOW'' k)
       | None \<Rightarrow> Inr (plan_of sha sc))"
proof -
  note f = request_scope_facts [OF assms]
  have s: "sort_by window_le (scope_windows sha sc) = scope_windows sha sc"
    unfolding scope_windows_def by (rule sort_windows_id [OF f(1,2,5,6,8,9)])
  have b: "\<not> blocker_not_collapsed (sc_stores sc) (scope_windows sha sc)
      (dayDifference (sc_start sc) (sc_until sc) + 1)"
    unfolding scope_windows_def by (rule blockers_collapsed [OF f(3,5,6,8,9,7)])
  have h: "canonical_hash sha (hash_input (sc_stores sc) (sc_domains sc) (sc_start sc) (sc_until sc)
      (sc_span sc) (sc_concurrency sc) (sc_attempts sc) (scope_windows sha sc)) =
      Inr (sha (scope_hash_text sha sc))"
    using scope_hash_text [of sha sc] by (simp add: canonical_hash_def scope_hash_input_def)
  show ?thesis
    unfolding assemble_scope_def assemble_plan_def Let_def
      scope_windows_def [symmetric] s h ebind_simps
    by (simp add: b plan_of_def PLAN_LIMITS_def split: option.split)
qed

section \<open>Errors of the planner\<close>

definition scope_error_codes :: "string set" where
  "scope_error_codes = {''EMPTY_STORE_SCOPE'', ''INVALID_STORE_CODE'', ''STORE_SCOPE_TOO_LARGE'',
     ''EMPTY_DOMAIN_SCOPE'', ''UNKNOWN_DOMAIN'', ''DOMAIN_SCOPE_TOO_LARGE''}"

definition request_error_codes :: "string set" where
  "request_error_codes = scope_error_codes \<union> {''INVALID_BUSINESS_DATE'', ''INVALID_DATE_RANGE'',
     ''DATE_RANGE_TOO_LARGE'', ''FUTURE_DATE_RANGE'', ''INVALID_BOUND'', ''INVALID_CREATED_BY''}"

text \<open>An error that the text of a value can throw, or one with a code of the set.\<close>

definition error_in :: "string set \<Rightarrow> fm_error \<Rightarrow> bool" where
  "error_in codes e \<longleftrightarrow> (case e of TypeError \<Rightarrow> True | Fail c _ \<Rightarrow> c \<in> codes)"

lemma error_in_simps [simp]: "error_in cs TypeError" "error_in cs (Fail c a) \<longleftrightarrow> c \<in> cs"
  by (simp_all add: error_in_def)

lemma emap_Inl: "emap f xs = Inl e \<Longrightarrow> \<exists>x\<in>set xs. f x = Inl e"
  by (induction xs) (auto simp: ebind_Inl_iff)

lemma js_string_Inl: "js_string v = Inl e \<Longrightarrow> e = TypeError"
proof (induction v arbitrary: e rule: js_string.induct)
  case (6 vs)
  from 6(2) have "emap (\<lambda>v. if nullish v then Inr [] else js_string v) vs = Inl e"
    by (simp add: ebind_Inl_iff)
  from emap_Inl [OF this] obtain v where "v \<in> set vs" "\<not> nullish v" "js_string v = Inl e"
    by (auto split: if_splits)
  then show ?case using 6(1) by blast
qed (auto split: if_splits)

lemma js_string_or_empty_Inl: "js_string_or_empty v = Inl e \<Longrightarrow> e = TypeError"
  by (simp add: js_string_or_empty_def js_string_Inl)

lemma scope_texts_Inl: "scope_texts f items = Inl e \<Longrightarrow> e = TypeError"
  by (auto simp: scope_texts_def ebind_Inl_iff dest!: emap_Inl js_string_or_empty_Inl)

lemma normalizeStoreCodes_Inl:
  assumes "normalizeStoreCodes v = Inl e"
  shows "error_in scope_error_codes e"
proof (cases "as_array v")
  case (Some items)
  consider "items = []" | e' where "scope_texts js_upper items = Inl e'"
    | n where "items \<noteq> []" "scope_texts js_upper items = Inr n"
    by (cases "scope_texts js_upper items") blast+
  then show ?thesis
  proof cases
    case 3
    with assms Some show ?thesis
      by (cases "find (\<lambda>s. \<not> store_code_pattern s) n")
        (auto simp: normalizeStoreCodes_def scope_error_codes_def split: if_splits)
  qed (use assms Some in \<open>auto simp: normalizeStoreCodes_def scope_error_codes_def
      dest: scope_texts_Inl split: if_splits\<close>)
qed (use assms in \<open>auto simp: normalizeStoreCodes_def scope_error_codes_def\<close>)

lemma normalizeDomains_Inl:
  assumes "normalizeDomains v = Inl e"
  shows "error_in scope_error_codes e"
proof (cases "as_array v")
  case (Some items)
  consider "items = []" | e' where "scope_texts js_lower items = Inl e'"
    | n where "items \<noteq> []" "scope_texts js_lower items = Inr n"
    by (cases "scope_texts js_lower items") blast+
  then show ?thesis
  proof cases
    case 3
    with assms Some show ?thesis
      by (cases "find (\<lambda>d. BACKFILL_DOMAIN_CATALOG d = None) n")
        (simp_all add: normalizeDomains_def scope_error_codes_def split: if_splits, auto)
  qed (use assms Some in \<open>auto simp: normalizeDomains_def scope_error_codes_def
      dest: scope_texts_Inl split: if_splits\<close>)
qed (use assms in \<open>auto simp: normalizeDomains_def scope_error_codes_def\<close>)

lemma parseBusinessDate_Inl:
  "parseBusinessDate v f = Inl e \<Longrightarrow> error_in request_error_codes e"
  by (cases v; cases "business_date_pattern (the (as_string v))"; cases "parse_midnight (the (as_string v))")
    (simp_all add: parseBusinessDate_def request_error_codes_def split: if_splits, auto)

lemma normalizeInteger_Inl:
  "normalizeInteger v f lo hi = Inl e \<Longrightarrow> error_in request_error_codes e"
  by (auto simp: normalizeInteger_def ebind_Inl_iff request_error_codes_def Let_def
      dest: js_string_or_empty_Inl split: jsv.splits if_splits)

lemma error_in_mono: "error_in A e \<Longrightarrow> A \<subseteq> B \<Longrightarrow> error_in B e"
  by (cases e) auto

lemma error_in_ensure: "ensure b (Fail c a) = Inl e \<Longrightarrow> c \<in> codes \<Longrightarrow> error_in codes e"
  by auto

lemma ebind_InlE:
  assumes "ebind m f = Inl e" "m = Inl e \<Longrightarrow> P" "\<And>v. m = Inr v \<Longrightarrow> f v = Inl e \<Longrightarrow> P"
  shows P
  using assms by (auto simp: ebind_Inl_iff)

lemma resolve_request_Inl:
  assumes "resolve_request r = Inl e"
  shows "error_in request_error_codes e"
proof -
  have scope: "error_in scope_error_codes e \<Longrightarrow> error_in request_error_codes e"
    by (rule error_in_mono) (auto simp: request_error_codes_def)
  note leaf = normalizeStoreCodes_Inl [THEN scope] normalizeDomains_Inl [THEN scope]
    parseBusinessDate_Inl normalizeInteger_Inl error_in_ensure
  have conv: "js_string_or_empty v = Inl e \<Longrightarrow> error_in request_error_codes e" for v
    by (auto dest: js_string_or_empty_Inl)
  have today: "(if req_today r = JUndef then Inr None
      else ebind (parseBusinessDate (req_today r) ''today'') (\<lambda>t. Inr (Some t))) = Inl e \<Longrightarrow>
    error_in request_error_codes e"
    by (auto simp: ebind_Inl_iff parseBusinessDate_Inl split: if_splits)
  show ?thesis
    using assms unfolding resolve_request_def
    by (elim ebind_InlE)
      ((erule leaf conv today | simp add: request_error_codes_def)+)
qed

section \<open>Properties\<close>

lemma first_duplicate_Some:
  "first_duplicate seen ks = Some k \<Longrightarrow> k \<in> set ks \<and> \<not> (distinct ks \<and> set ks \<inter> set seen = {})"
proof (induction seen ks rule: first_duplicate.induct)
  case (2 seen k' ks)
  then show ?case by (cases "k' \<in> set seen") auto
qed simp

lemma build_Inr_iff:
  "buildBackfillPlan sha r = Inr p \<longleftrightarrow>
    (\<exists>sc. request_scope r sc \<and> length (scope_windows sha sc) \<le> 2000 \<and>
       distinct (map win_windowKey (scope_windows sha sc)) \<and> p = plan_of sha sc)"
proof -
  have "assemble_scope sha sc = Inr p \<longleftrightarrow> length (scope_windows sha sc) \<le> 2000 \<and>
      distinct (map win_windowKey (scope_windows sha sc)) \<and> p = plan_of sha sc"
    if "request_scope r sc" for sc
    using first_duplicate_None [of "[]" "map win_windowKey (scope_windows sha sc)"]
    by (cases "first_duplicate [] (map win_windowKey (scope_windows sha sc))")
      (auto simp: assemble_scope_valid [OF that])
  then show ?thesis by (auto simp: build_resolve ebind_Inr_iff resolve_request_Inr)
qed

text \<open>A sample request with two stores and two domains over three days, used by the witnesses.\<close>

definition sample_request :: plan_request where
  [js_eval]: "sample_request =
     \<lparr>req_storeCodes = JArr [JStr ''ZS0008'', JStr '' zs0005'', JStr ''ZS0008''],
      req_domains = JArr [JStr ''purchase-orders'', JStr ''Deliveries''],
      req_from = JStr ''2026-02-27'', req_to = JStr ''2026-03-01'', req_today = JUndef,
      req_windowSpanDays = JUndef, req_concurrency = JNum (NInt 2), req_maxAttempts = JStr ''3'',
      req_createdBy = JStr ''ops:wang ''\<rparr>"

definition sample_scope :: plan_scope where
  [js_eval]: "sample_scope =
     \<lparr>sc_stores = [''ZS0005'', ''ZS0008''], sc_domains = [''deliveries'', ''purchase-orders''],
      sc_start = 1772150400000, sc_until = 1772323200000, sc_span = 1, sc_concurrency = 2,
      sc_attempts = 3, sc_operator = ''ops:wang''\<rparr>"

lemma sample_resolves: "request_scope sample_request sample_scope"
  unfolding resolve_request_Inr [symmetric] by code_simp

text \<open>A plan has at most one window per store, domain and day.\<close>

lemma sum_list_le: "(\<And>x. x \<in> set xs \<Longrightarrow> f x \<le> k) \<Longrightarrow> sum_list (map f xs) \<le> length xs * (k :: nat)"
  by (induction xs) (auto simp: add_mono)

lemma ceiling_le:
  fixes k s :: int
  assumes "1 \<le> k" "1 \<le> s"
  shows "(k + s - 1) div s \<le> k"
proof -
  have "0 \<le> (k - 1) * (s - 1)" using assms by (intro mult_nonneg_nonneg) simp_all
  also have "(k - 1) * (s - 1) = k * s - (k + s - 1)" by (simp add: algebra_simps)
  finally have "k + s - 1 \<le> k * s" by simp
  then have "(k + s - 1) div s \<le> k * s div s" by (rule zdiv_mono1) (use assms in simp)
  also have "\<dots> = k" by (rule nonzero_mult_div_cancel_right) (use assms in simp)
  finally show ?thesis .
qed

lemma range_days_pos:
  assumes "scope_days start until"
  shows "1 \<le> dayDifference start until + 1"
proof -
  have "0 \<le> until - start" using assms by (simp add: scope_days_def)
  then have "0 \<le> dayDifference start until"
    unfolding dayDifference_def by (simp only: pos_imp_zdiv_nonneg_iff [OF ms_per_day_pos(1)])
  then show ?thesis by simp
qed

lemma domain_window_count:
  assumes "BACKFILL_DOMAIN_CATALOG d = Some c" "scope_days start until" "1 \<le> span"
  shows "length (domain_windows sha start until span attempts store d) \<le> nat (dayDifference start until + 1)"
proof -
  have s: "1 \<le> chunk_span c span" using chunk_span_bounds [OF assms(1,3)] by simp
  have "int (length (window_chunks start (chunk_span c span) (addDays until 1))) \<le> dayDifference start until + 1"
    using ceiling_le [OF range_days_pos [OF assms(2)] s] chunk_count [OF assms(2), of "chunk_span c span"] s
    by simp
  then show ?thesis unfolding domain_windows_chunks [OF assms(1)] by simp
qed

lemma scope_window_count:
  assumes "request_scope r sc"
  shows "length (scope_windows sha sc) \<le> length (sc_stores sc) *
    (length (sc_domains sc) * nat (dayDifference (sc_start sc) (sc_until sc) + 1))"
proof -
  note f = request_scope_facts [OF assms]
  have "length (domain_windows sha (sc_start sc) (sc_until sc) (sc_span sc) (sc_attempts sc) store d) \<le>
      nat (dayDifference (sc_start sc) (sc_until sc) + 1)"
    if "d \<in> set (sc_domains sc)" for store d
    using domain_window_count [OF _ f(8,9)] f(7) that by blast
  then show ?thesis
    unfolding scope_windows_def all_windows_def length_concat map_map o_def
    by (intro sum_list_le)
qed

lemma plan_exists_on:
  assumes "request_scope r sc" "inj_on sha (key_text ` set (scope_windows sha sc))"
    and "length (sc_stores sc) * (length (sc_domains sc) * nat (dayDifference (sc_start sc) (sc_until sc) + 1)) \<le> 2000"
  shows "buildBackfillPlan sha r = Inr (plan_of sha sc)"
proof -
  note f = request_scope_facts [OF assms(1)]
  have "distinct (map win_windowKey (scope_windows sha sc))"
    unfolding scope_windows_def
    by (rule distinct_window_keys [OF f(1,2,5,6,8,9,4) assms(2) [unfolded scope_windows_def]])
  moreover have "length (scope_windows sha sc) \<le> 2000"
    using scope_window_count [OF assms(1), of sha] assms(3) by linarith
  ultimately show ?thesis using assms(1) unfolding build_Inr_iff by blast
qed

lemma plan_exists:
  assumes "request_scope r sc" "inj sha"
    and "length (sc_stores sc) * (length (sc_domains sc) * nat (dayDifference (sc_start sc) (sc_until sc) + 1)) \<le> 2000"
  shows "buildBackfillPlan sha r = Inr (plan_of sha sc)"
  by (rule plan_exists_on [OF assms(1) _ assms(3)]) (rule inj_on_subset [OF assms(2)], simp)

lemma sample_plan: "buildBackfillPlan id sample_request = Inr (plan_of id sample_scope)"
  by (rule plan_exists [OF sample_resolves])
    (simp_all add: sample_scope_def dayDifference_def ms_per_day_def)

text \<open>
  A plan is built exactly when the request resolves to a scope (every input check passed), the
  scope has at most 2000 windows and no two windows share a key; the plan is then \<open>plan_of\<close> of the
  scope. So the sort of the windows, the encoding for the hash and the self-check on collapsed
  blockers change nothing and never fail.
\<close>

theorem plan_succeeds_iff:
  "buildBackfillPlan sha r = Inr p \<longleftrightarrow>
    (\<exists>sc. request_scope r sc \<and> length (scope_windows sha sc) \<le> 2000 \<and>
       distinct (map win_windowKey (scope_windows sha sc)) \<and> p = plan_of sha sc)"
  by (rule build_Inr_iff)

lemma all_windows_key:
  "w \<in> set (all_windows sha stores domains start until span attempts) \<Longrightarrow> win_windowKey w = sha (key_text w)"
  using make_window_key by (auto simp: all_windows_mem)

lemma not_distinct_collision:
  assumes "request_scope r sc" "\<not> distinct (map win_windowKey (scope_windows sha sc))"
  shows "\<not> inj_on sha (key_text ` set (scope_windows sha sc))"
  using assms distinct_window_keys [of "sc_stores sc" "sc_domains sc" "sc_start sc" "sc_until sc"
      "sc_span sc" sha "sc_attempts sc"] request_scope_facts [OF assms(1)]
  by (auto simp: scope_windows_def)

text \<open>
  Every refusal of the planner is a refusal of the request: an input check with its code, the
  error the language throws for a value without a text, or the bound on the number of windows. The
  self-check \<open>BLOCKER_NOT_COLLAPSED\<close> is never reported, and \<open>DUPLICATE_WINDOW\<close> only when the
  digest has a collision among the window keys of the scope.
\<close>

theorem plan_refusals:
  assumes "buildBackfillPlan sha r = Inl e"
  shows "error_in request_error_codes e \<or> e = Fail ''WINDOW_COUNT_TOO_LARGE'' [] \<or>
    (\<exists>sc k. request_scope r sc \<and> e = Fail ''DUPLICATE_WINDOW'' k \<and>
       \<not> inj_on sha (key_text ` set (scope_windows sha sc)))"
proof -
  consider "resolve_request r = Inl e"
    | sc where "request_scope r sc" "assemble_scope sha sc = Inl e"
    using assms by (auto simp: build_resolve ebind_Inl_iff resolve_request_Inr)
  then show ?thesis
  proof cases
    case 1
    then show ?thesis by (simp add: resolve_request_Inl)
  next
    case (2 sc)
    let ?ks = "map win_windowKey (scope_windows sha sc)"
    show ?thesis
    proof (cases "first_duplicate [] ?ks")
      case None
      with 2 show ?thesis by (auto simp: assemble_scope_valid [OF 2(1)] split: if_splits)
    next
      case (Some k)
      with first_duplicate_Some [OF Some] not_distinct_collision [OF 2(1), of sha] 2 show ?thesis
        by (auto simp: assemble_scope_valid [OF 2(1)] split: if_splits)
    qed
  qed
qed

theorem plan_refusals_witness:
  "error_in request_error_codes (Fail ''EMPTY_STORE_SCOPE'' []) \<or>
   Fail ''EMPTY_STORE_SCOPE'' [] = Fail ''WINDOW_COUNT_TOO_LARGE'' [] \<or>
   (\<exists>sc k. request_scope \<lparr>req_storeCodes = JArr [JStr '' '', JNull], req_domains = JUndef, req_from = JUndef,
        req_to = JUndef, req_today = JUndef, req_windowSpanDays = JUndef, req_concurrency = JUndef,
        req_maxAttempts = JUndef, req_createdBy = JUndef\<rparr> sc \<and>
      Fail ''EMPTY_STORE_SCOPE'' [] = Fail ''DUPLICATE_WINDOW'' k \<and>
      \<not> inj_on id (key_text ` set (scope_windows id sc)))"
  by (rule plan_refusals) code_simp

text \<open>The windows of one store and one domain of a scope.\<close>

lemma filter_concat_map: "filter P (concat (map f xs)) = concat (map (\<lambda>x. filter P (f x)) xs)"
  by (induction xs) simp_all

lemma concat_map_single:
  assumes "distinct xs" "x \<in> set xs" "\<And>y. y \<in> set xs \<Longrightarrow> y \<noteq> x \<Longrightarrow> f y = []"
  shows "concat (map f xs) = f x"
  using assms
proof (induction xs)
  case (Cons a xs)
  show ?case
  proof (cases "a = x")
    case True
    then have "\<forall>y\<in>set xs. f y = []" using Cons.prems by auto
    with True show ?thesis by simp
  next
    case False
    with Cons show ?thesis by simp
  qed
qed simp

lemma windows_of_store_domain:
  assumes "distinct stores" "distinct domains" "store \<in> set stores" "d \<in> set domains"
  shows "filter (\<lambda>w. win_storeCode w = store \<and> win_domain w = d)
      (all_windows sha stores domains start until span attempts) =
    domain_windows sha start until span attempts store d"
proof -
  let ?P = "\<lambda>w. win_storeCode w = store \<and> win_domain w = d"
  let ?dw = "domain_windows sha start until span attempts"
  have none: "filter ?P (?dw s e) = []" if "s \<noteq> store \<or> e \<noteq> d" for s e
    using that domain_windows_fields by (auto simp: filter_empty_conv)
  have all: "filter ?P (?dw store d) = ?dw store d"
    using domain_windows_fields by (simp add: filter_id_conv)
  have "filter ?P (concat (map (?dw s) domains)) = (if s = store then ?dw store d else [])" for s
    using concat_map_single [OF assms(2,4), of "\<lambda>e. filter ?P (?dw s e)"] none all
    by (auto simp: filter_concat_map)
  then show ?thesis
    using concat_map_single [OF assms(1,3), of "\<lambda>s. if s = store then ?dw store d else []"]
    by (simp add: all_windows_def filter_concat_map)
qed

lemma iso_date_le_iff:
  assumes "ms_per_day dvd a" "first_midnight \<le> a" "a \<le> last_midnight"
    and "ms_per_day dvd b" "first_midnight \<le> b" "b \<le> last_midnight"
  shows "iso_date a \<le> iso_date b \<longleftrightarrow> a \<le> b"
  using iso_date_less_iff [OF assms(4-6) assms(1-3)] by (metis linorder_not_less)

text \<open>A chunk that ends inside the four-digit years contains a date as the printed texts say.\<close>

lemma chunk_contains:
  assumes "scope_days start until" "0 < span" "until < last_midnight"
    and "(a, b) \<in> set (window_chunks start span (addDays until 1))"
    and "ms_per_day dvd t" "first_midnight \<le> t" "t \<le> last_midnight"
  shows "iso_date a \<le> iso_date t \<and> iso_date t < iso_date b \<longleftrightarrow> a \<le> t \<and> t < b"
proof -
  note c = chunk_dates [OF assms(1,2,4)]
  have "ms_per_day dvd last_midnight" by (simp add: last_midnight_def)
  then have "until + ms_per_day \<le> last_midnight"
    using multiple_day_less [of until last_midnight] assms(1,3) by (simp add: scope_days_def)
  then have "first_midnight \<le> b" "b \<le> last_midnight" using c by auto
  then show ?thesis
    using c assms(5-7) by (simp add: iso_date_le_iff iso_date_less_iff)
qed

lemma last_date: "iso_date last_midnight = ''9999-12-31''"
  by code_simp

text \<open>
  C1. The windows of a plan tile the requested range: for every store and every domain of the plan,
  each calendar date from the first to the last requested one lies in exactly one window, as the
  half-open intervals of the printed dates say. (The exclusive end of the window of 9999-12-31
  needs a fifth year digit and prints with a sign, so that one date is excepted.)
\<close>

theorem plan_windows_tile:
  assumes "buildBackfillPlan sha r = Inr p"
    and "store \<in> set (plan_storeCodes p)" "d \<in> set (plan_domains p)"
    and "business_date_ms x = Some t" "plan_from p \<le> x" "x \<le> plan_to p"
    and "plan_to p < ''9999-12-31''"
  shows "length (filter (\<lambda>w. win_storeCode w = store \<and> win_domain w = d \<and>
      win_windowStart w \<le> x \<and> x < win_windowEnd w) (plan_windows p)) = 1"
proof -
  obtain sc where sc: "request_scope r sc" "p = plan_of sha sc" using assms(1) by (auto simp: build_Inr_iff)
  note f = request_scope_facts [OF sc(1)] and t = business_date_range [OF assms(4)]
  define start until where su: "start = sc_start sc" "until = sc_until sc"
  have days: "scope_days start until" using f(8) by (simp add: su)
  note days' = days [unfolded scope_days_def]
  have "d \<in> set (sc_domains sc)" using assms(3) sc(2) by (simp add: plan_of_def)
  then obtain c where c: "BACKFILL_DOMAIN_CATALOG d = Some c" using f(7) by blast
  have span: "0 < chunk_span c (sc_span sc)" using chunk_span_bounds [OF c f(9)] by simp
  have range: "start \<le> t" "t \<le> until" "until < last_midnight"
    using assms(5-7) days' t iso_date_le_iff [of start t] iso_date_le_iff [of t until]
      iso_date_less_iff [of until last_midnight] last_date
    by (simp_all add: sc(2) plan_of_def su last_midnight_def)
  let ?chunks = "window_chunks start (chunk_span c (sc_span sc)) (addDays until 1)"
  have "filter (\<lambda>w. win_storeCode w = store \<and> win_domain w = d \<and> win_windowStart w \<le> x \<and>
        x < win_windowEnd w) (plan_windows p) =
      filter (\<lambda>w. win_windowStart w \<le> x \<and> x < win_windowEnd w)
        (domain_windows sha start until (sc_span sc) (sc_attempts sc) store d)"
    using windows_of_store_domain [OF f(2,6), of store d sha start until "sc_span sc" "sc_attempts sc"] assms(2,3)
    by (simp add: sc(2) plan_of_def scope_windows_def su conj_ac flip: filter_filter)
  then have "length (filter (\<lambda>w. win_storeCode w = store \<and> win_domain w = d \<and> win_windowStart w \<le> x \<and>
        x < win_windowEnd w) (plan_windows p)) =
      length (filter (\<lambda>(a, b). iso_date a \<le> x \<and> x < iso_date b) ?chunks)"
    by (simp add: domain_windows_chunks [OF c] filter_map o_def case_prod_unfold)
  also have "filter (\<lambda>(a, b). iso_date a \<le> x \<and> x < iso_date b) ?chunks = filter (\<lambda>(a, b). a \<le> t \<and> t < b) ?chunks"
    using chunk_contains [OF days span range(3) _ t(4,1,2)] t(3) by (intro filter_cong) auto
  also have "length \<dots> = 1"
  proof (rule window_chunks_tile [OF span range(1)])
    show "t < addDays until 1" using range(2) ms_per_day_pos(1) unfolding addDays_def by linarith
  qed
  finally show ?thesis .
qed

lemma sample_plan_fields:
  "plan_storeCodes (plan_of id sample_scope) = [''ZS0005'', ''ZS0008'']"
  "plan_domains (plan_of id sample_scope) = [''deliveries'', ''purchase-orders'']"
  "plan_from (plan_of id sample_scope) = ''2026-02-27''" "plan_to (plan_of id sample_scope) = ''2026-03-01''"
proof -
  have "iso_date 1772150400000 = ''2026-02-27''" "iso_date 1772323200000 = ''2026-03-01''" by code_simp+
  then show "plan_from (plan_of id sample_scope) = ''2026-02-27''" "plan_to (plan_of id sample_scope) = ''2026-03-01''"
    by (simp_all add: plan_of_def sample_scope_def)
qed (simp_all add: plan_of_def sample_scope_def)

theorem plan_windows_tile_witness:
  "length (filter (\<lambda>w. win_storeCode w = ''ZS0008'' \<and> win_domain w = ''deliveries'' \<and>
      win_windowStart w \<le> ''2026-02-28'' \<and> ''2026-02-28'' < win_windowEnd w)
    (plan_windows (plan_of id sample_scope))) = 1"
proof (rule plan_windows_tile [OF sample_plan])
  show "business_date_ms ''2026-02-28'' = Some 1772236800000" by code_simp
qed (unfold sample_plan_fields, code_simp+)

text \<open>A row of the ledger: what its table constrains of one window, and what the planner adds.\<close>

definition ledger_window :: "bf_plan \<Rightarrow> bf_window \<Rightarrow> bool" where
  "ledger_window p w \<longleftrightarrow>
     win_storeCode w \<in> set (plan_storeCodes p) \<and> win_domain w \<in> set (plan_domains p) \<and>
     (\<exists>start until a b. business_date_ms (plan_from p) = Some start \<and>
        business_date_ms (plan_to p) = Some until \<and>
        win_windowStart w = iso_date a \<and> win_windowEnd w = iso_date b \<and>
        start \<le> a \<and> a < b \<and> b \<le> until + ms_per_day \<and> b - a \<le> 31 * ms_per_day \<and>
        (win_executable w \<longrightarrow> b - a = ms_per_day)) \<and>
     (win_executable w \<longleftrightarrow> win_domain w = ''purchase-orders'') \<and>
     (if win_executable w
      then win_blockedReasonCode w = None \<and> 1 \<le> win_maxAttempts w \<and>
           win_maxAttempts w \<le> plan_maxAttempts p \<and> win_maxAttempts w \<le> 3
      else win_maxAttempts w = 0 \<and> (\<exists>c. win_blockedReasonCode w = Some c \<and> sanitized_code_pattern c))"

lemma purchase_orders_entry:
  "\<exists>c. BACKFILL_DOMAIN_CATALOG ''purchase-orders'' = Some c \<and> isExecutableCapability (cap_status c)"
  by (simp add: BACKFILL_DOMAIN_CATALOG_def domain_entries_def isExecutableCapability_def)

lemma executable_domain_iff:
  "BACKFILL_DOMAIN_CATALOG d = Some c \<Longrightarrow> isExecutableCapability (cap_status c) \<longleftrightarrow> d = ''purchase-orders''"
  using catalog_ok [of d c] purchase_orders_entry
  by (auto simp: capability_ok_def EXECUTABLE_BACKFILL_DOMAIN_def catalog_domain)

lemma make_window_limits:
  "win_blockedReasonCode (make_window sha n store c r) =
     (if isExecutableCapability (cap_status c) then None else cap_blockedReasonCode c)"
  "win_maxAttempts (make_window sha n store c r) =
     (if isExecutableCapability (cap_status c) then min n (cap_maxAttempts c) else 0)"
  by (simp_all add: make_window_def Let_def)

lemma one_day_chunk:
  assumes "scope_days start until" "(a, b) \<in> set (window_chunks start 1 (addDays until 1))"
  shows "b - a = ms_per_day"
proof -
  note c = chunk_dates [OF assms(1) _ assms(2), simplified]
  have "a + ms_per_day \<le> b" by (rule multiple_day_less [OF c(1,2,6)])
  with c(8) show ?thesis by simp
qed

lemma plan_window_of:
  assumes "buildBackfillPlan sha r = Inr p" "w \<in> set (plan_windows p)"
  obtains sc store d c a b where "request_scope r sc" "p = plan_of sha sc" "store \<in> set (sc_stores sc)"
    "d \<in> set (sc_domains sc)" "BACKFILL_DOMAIN_CATALOG d = Some c"
    "(a, b) \<in> set (window_chunks (sc_start sc) (chunk_span c (sc_span sc)) (addDays (sc_until sc) 1))"
    "w = make_window sha (sc_attempts sc) store c (iso_date a, iso_date b)"
  using assms by (auto simp: build_Inr_iff plan_of_def scope_windows_def all_windows_mem)

text \<open>
  Every window of a plan is a row the ledger accepts and stays inside the reviewed scope: its
  store and domain are in the plan, it is non-empty, inside the requested range and at most 31 days
  long; it is executable exactly when its domain is \<open>purchase-orders\<close>, and then it spans one day
  and may be tried at least once and at most as often as the request and the catalog allow; a
  blocked window may not be tried and names a sanitized reason.
\<close>

theorem plan_windows_fit_ledger:
  assumes "buildBackfillPlan sha r = Inr p"
  shows "list_all (ledger_window p) (plan_windows p)"
  unfolding list_all_iff
proof
  fix w
  assume "w \<in> set (plan_windows p)"
  with assms obtain sc store d c a b where sc: "request_scope r sc" "p = plan_of sha sc"
    and store: "store \<in> set (sc_stores sc)" "d \<in> set (sc_domains sc)"
    and c: "BACKFILL_DOMAIN_CATALOG d = Some c"
    and ab: "(a, b) \<in> set (window_chunks (sc_start sc) (chunk_span c (sc_span sc)) (addDays (sc_until sc) 1))"
    and w: "w = make_window sha (sc_attempts sc) store c (iso_date a, iso_date b)"
    by (rule plan_window_of)
  note f = request_scope_facts [OF sc(1)] and ok = catalog_ok [OF c, unfolded capability_ok_def]
  note dates = f(8) [unfolded scope_days_def]
  have span: "0 < chunk_span c (sc_span sc)" "chunk_span c (sc_span sc) \<le> 31"
    using chunk_span_bounds [OF c f(9)] by simp_all
  note ch = chunk_dates [OF f(8) span(1) ab]
  have "chunk_span c (sc_span sc) * ms_per_day \<le> 31 * ms_per_day"
    using span(2) by (intro mult_right_mono) (simp_all add: less_imp_le)
  then have len: "b - a \<le> 31 * ms_per_day" using ch(8) by linarith
  have exec: "chunk_span c (sc_span sc) = 1" if "isExecutableCapability (cap_status c)"
    using that ok f(9) by (simp add: chunk_span_def)
  have one: "b - a = ms_per_day" if "isExecutableCapability (cap_status c)"
    using one_day_chunk [OF f(8)] ab exec [OF that] by simp
  have ends: "business_date_ms (iso_date (sc_start sc)) = Some (sc_start sc)"
    "business_date_ms (iso_date (sc_until sc)) = Some (sc_until sc)"
    using dates by (auto intro!: business_date_iso_date)
  show "ledger_window p w"
    unfolding ledger_window_def
    using store ok f(11) ends len one ch(5-7) executable_domain_iff [OF c]
    by (auto simp: w sc(2) plan_of_def make_window_limits catalog_domain [OF c])
qed

theorem plan_windows_fit_ledger_witness:
  "list_all (ledger_window (plan_of id sample_scope)) (plan_windows (plan_of id sample_scope))"
  by (rule plan_windows_fit_ledger [OF sample_plan])

section \<open>Scope and hash\<close>

lemma scope_texts_strings:
  "scope_texts f (map JStr xs) =
    Inr (sort (filter (\<lambda>s. s \<noteq> []) (dedupe (map (\<lambda>s. f (js_trim s)) xs))))"
proof -
  have "emap (\<lambda>i. ebind (js_string_or_empty i) (\<lambda>s. Inr (f (js_trim s)))) (map JStr xs) =
      Inr (map (\<lambda>s. f (js_trim s)) xs)"
    by (induction xs) (simp_all add: js_string_or_empty_def coalesce_def nullish_def)
  then show ?thesis by (simp add: scope_texts_def)
qed

lemma scope_texts_cong:
  assumes "(\<lambda>s. f (js_trim s)) ` set xs = (\<lambda>s. f (js_trim s)) ` set ys"
  shows "scope_texts f (map JStr xs) = scope_texts f (map JStr ys)"
proof -
  have "sort (filter (\<lambda>s. s \<noteq> []) (dedupe (map (\<lambda>s. f (js_trim s)) xs))) =
      sort (filter (\<lambda>s. s \<noteq> []) (dedupe (map (\<lambda>s. f (js_trim s)) ys)))"
    using assms by (intro sort_distinct_unique) auto
  then show ?thesis by (simp only: scope_texts_strings)
qed

text \<open>
  The plan does not depend on how the scope is spelled: order, repetitions, surrounding blanks,
  letter case and empty entries of the store and domain lists change neither the plan nor the
  error.
\<close>

theorem plan_scope_spelling:
  assumes "(\<lambda>s. js_upper (js_trim s)) ` set xs = (\<lambda>s. js_upper (js_trim s)) ` set ys"
    and "(\<lambda>s. js_lower (js_trim s)) ` set us = (\<lambda>s. js_lower (js_trim s)) ` set vs"
  shows "buildBackfillPlan sha (r\<lparr>req_storeCodes := JArr (map JStr xs), req_domains := JArr (map JStr us)\<rparr>) =
    buildBackfillPlan sha (r\<lparr>req_storeCodes := JArr (map JStr ys), req_domains := JArr (map JStr vs)\<rparr>)"
proof -
  have "xs = [] \<longleftrightarrow> ys = []" "us = [] \<longleftrightarrow> vs = []" using assms by auto
  then have "normalizeStoreCodes (JArr (map JStr xs)) = normalizeStoreCodes (JArr (map JStr ys))"
    "normalizeDomains (JArr (map JStr us)) = normalizeDomains (JArr (map JStr vs))"
    using scope_texts_cong [OF assms(1)] scope_texts_cong [OF assms(2)]
    by (simp_all add: normalizeStoreCodes_def normalizeDomains_def)
  then show ?thesis by (simp add: buildBackfillPlan_def)
qed

theorem plan_scope_spelling_witness:
  "buildBackfillPlan id (sample_request\<lparr>req_storeCodes := JArr (map JStr [''zs0008'', ''ZS0005 '']),
     req_domains := JArr (map JStr [''DELIVERIES''])\<rparr>) =
   buildBackfillPlan id (sample_request\<lparr>req_storeCodes := JArr (map JStr [''ZS0005'', ''ZS0005'', ''Zs0008'']),
     req_domains := JArr (map JStr ['' deliveries'', ''Deliveries''])\<rparr>)"
  by (rule plan_scope_spelling) code_simp+

text \<open>The text whose digest is the hash of a plan, from the fields of the plan.\<close>

definition plan_hash_input :: "bf_plan \<Rightarrow> jsv" where
  "plan_hash_input p = JObj
     [(''planVersion'', JStr (plan_planVersion p)),
      (''storeCodes'', JArr (map JStr (plan_storeCodes p))), (''domains'', JArr (map JStr (plan_domains p))),
      (''from'', JStr (plan_from p)), (''to'', JStr (plan_to p)),
      (''windowSpanDays'', JNum (NInt (plan_windowSpanDays p))),
      (''concurrency'', JNum (NInt (plan_concurrency p))),
      (''maxAttempts'', JNum (NInt (plan_maxAttempts p))),
      (''windows'', JArr (map hash_window (plan_windows p)))]"

definition plan_hash_text :: "bf_plan \<Rightarrow> string" where
  "plan_hash_text p = (case canonical_json (plan_hash_input p) of Inr t \<Rightarrow> t | Inl _ \<Rightarrow> [])"

lemma plan_of_hash_input: "plan_hash_input (plan_of sha sc) = scope_hash_input sha sc"
  by (simp add: plan_hash_input_def plan_of_def scope_hash_input_def hash_input_def)

lemma plan_of_hash_text: "plan_hash_text (plan_of sha sc) = scope_hash_text sha sc"
  by (simp add: plan_hash_text_def plan_of_hash_input scope_hash_text_def)

lemma plan_of_hash: "plan_planHash (plan_of sha sc) = sha (scope_hash_text sha sc)"
  by (simp add: plan_of_def)

lemma plan_of_operator:
  "(plan_of sha sc)\<lparr>plan_createdBy := x\<rparr> = plan_of sha (sc\<lparr>sc_operator := x\<rparr>)"
  by (simp add: plan_of_def scope_windows_def scope_hash_text_def scope_hash_input_def)

lemma plan_of_createdBy: "plan_createdBy (plan_of sha sc) = sc_operator sc"
  by (simp add: plan_of_def)

lemma json_norm_field:
  assumes "json_norm (JObj ps) = json_norm (JObj qs)" "distinct (map fst ps)" "distinct (map fst qs)"
    and "map_of ps k = Some v" "v \<noteq> JUndef" "map_of qs k = Some w"
  shows "json_norm v = json_norm w"
proof -
  have "map (\<lambda>p. (fst p, json_norm (snd p))) (defined_fields ps) =
      map (\<lambda>p. (fst p, json_norm (snd p))) (defined_fields qs)"
    using assms(1) by simp
  then have "(\<lambda>p. (fst p, json_norm (snd p))) ` set (defined_fields ps) =
      (\<lambda>p. (fst p, json_norm (snd p))) ` set (defined_fields qs)"
    by (metis list.set_map)
  moreover have "(k, v) \<in> set (defined_fields ps)"
    using assms(4,5) by (simp add: map_of_SomeD)
  ultimately obtain q where "q \<in> set qs" "fst q = k" "json_norm (snd q) = json_norm v"
    by (force simp: image_iff)
  moreover from this have "map_of qs k = Some (snd q)"
    by (intro map_of_is_SomeI [OF assms(3)]) (cases q, simp)
  ultimately show ?thesis using assms(6) by simp
qed

lemma plain_hash_window: "plain_numbers (hash_window w)"
  by (simp add: hash_window_def optional_text_def split: option.split)

lemma plain_scope_hash_input:
  assumes "request_scope r sc"
  shows "plain_numbers (scope_hash_input sha sc)"
  using request_scope_facts [OF assms] by (simp add: scope_hash_input_def hash_input_def list_all_iff plain_hash_window)

lemma map_JStr_inj: "map JStr xs = map JStr ys \<longleftrightarrow> xs = ys"
  by (rule inj_map_eq_map) (auto intro: injI)

lemma hash_text_scope:
  assumes "request_scope r sc" "request_scope r' sc'" "scope_hash_text sha sc = scope_hash_text sha sc'"
  shows "sc\<lparr>sc_operator := sc_operator sc'\<rparr> = sc'"
proof -
  have n: "json_norm (scope_hash_input sha sc) = json_norm (scope_hash_input sha sc')"
    by (rule canonical_json_inj [OF scope_hash_text _ plain_scope_hash_input [OF assms(1)]
          plain_scope_hash_input [OF assms(2)]])
      (simp add: scope_hash_text assms(3))
  note field = json_norm_field [OF n [unfolded scope_hash_input_def hash_input_def]]
  have "sc_stores sc = sc_stores sc'"
    using field [of "''storeCodes''" "JArr (map JStr (sc_stores sc))" "JArr (map JStr (sc_stores sc'))"]
    by (simp add: o_def map_JStr_inj)
  moreover have "sc_domains sc = sc_domains sc'"
    using field [of "''domains''" "JArr (map JStr (sc_domains sc))" "JArr (map JStr (sc_domains sc'))"]
    by (simp add: o_def map_JStr_inj)
  moreover have "iso_date (sc_start sc) = iso_date (sc_start sc')"
    using field [of "''from''" "JStr (iso_date (sc_start sc))" "JStr (iso_date (sc_start sc'))"] by simp
  moreover have "iso_date (sc_until sc) = iso_date (sc_until sc')"
    using field [of "''to''" "JStr (iso_date (sc_until sc))" "JStr (iso_date (sc_until sc'))"] by simp
  moreover have "sc_span sc = sc_span sc'"
    using field [of "''windowSpanDays''" "JNum (NInt (sc_span sc))" "JNum (NInt (sc_span sc'))"] by simp
  moreover have "sc_concurrency sc = sc_concurrency sc'"
    using field [of "''concurrency''" "JNum (NInt (sc_concurrency sc))" "JNum (NInt (sc_concurrency sc'))"] by simp
  moreover have "sc_attempts sc = sc_attempts sc'"
    using field [of "''maxAttempts''" "JNum (NInt (sc_attempts sc))" "JNum (NInt (sc_attempts sc'))"] by simp
  moreover note d = request_scope_facts(8) [OF assms(1), unfolded scope_days_def]
    request_scope_facts(8) [OF assms(2), unfolded scope_days_def]
  ultimately show ?thesis
    using iso_date_inj [of "sc_start sc" "sc_start sc'"] iso_date_inj [of "sc_until sc" "sc_until sc'"]
    by (cases sc; cases sc') simp
qed

text \<open>
  C36. The hash of a plan identifies what was reviewed: as far as the digest does not confuse the
  two encoded scopes, two plans have the same hash exactly when they agree on everything but the
  operator who asked for them. The operator and the value of \<open>today\<close> never reach the hash.
\<close>

theorem plan_hash_identifies_scope:
  assumes "buildBackfillPlan sha r = Inr p" "buildBackfillPlan sha r' = Inr q"
    and "inj_on sha {plan_hash_text p, plan_hash_text q}"
  shows "plan_planHash p = plan_planHash q \<longleftrightarrow> p\<lparr>plan_createdBy := plan_createdBy q\<rparr> = q"
proof -
  obtain sc where sc: "request_scope r sc" "p = plan_of sha sc" using assms(1) by (auto simp: build_Inr_iff)
  obtain sc' where sc': "request_scope r' sc'" "q = plan_of sha sc'" using assms(2) by (auto simp: build_Inr_iff)
  have "plan_planHash p = plan_planHash q \<longleftrightarrow> scope_hash_text sha sc = scope_hash_text sha sc'"
    using inj_on_eq_iff [OF assms(3), of "plan_hash_text p" "plan_hash_text q"]
    unfolding sc(2) sc'(2) plan_of_hash_text by (simp add: plan_of_hash)
  moreover have "p\<lparr>plan_createdBy := plan_createdBy q\<rparr> = q"
    if "scope_hash_text sha sc = scope_hash_text sha sc'"
    unfolding sc(2) sc'(2) plan_of_operator plan_of_createdBy hash_text_scope [OF sc(1) sc'(1) that] ..
  moreover have "plan_planHash p = plan_planHash q" if "p\<lparr>plan_createdBy := plan_createdBy q\<rparr> = q"
    using arg_cong [OF that, of plan_planHash] by simp
  ultimately show ?thesis by blast
qed

lemma sample_resolves_other:
  "request_scope (sample_request\<lparr>req_createdBy := JStr ''night-shift'', req_today := JStr ''2026-03-05''\<rparr>)
    (sample_scope\<lparr>sc_operator := ''night-shift''\<rparr>)"
  unfolding resolve_request_Inr [symmetric] by code_simp

theorem plan_hash_identifies_scope_witness:
  "plan_planHash (plan_of id sample_scope) =
     plan_planHash (plan_of id (sample_scope\<lparr>sc_operator := ''night-shift''\<rparr>))"
proof -
  have q: "buildBackfillPlan id
      (sample_request\<lparr>req_createdBy := JStr ''night-shift'', req_today := JStr ''2026-03-05''\<rparr>) =
    Inr (plan_of id (sample_scope\<lparr>sc_operator := ''night-shift''\<rparr>))"
    by (rule plan_exists [OF sample_resolves_other])
      (simp_all add: sample_scope_def dayDifference_def ms_per_day_def)
  show ?thesis using plan_hash_identifies_scope [OF sample_plan q]
    by (simp add: plan_of_operator plan_of_createdBy)
qed

section \<open>Authorization\<close>

text \<open>
  An execute run is authorized exactly when the caller names the hash of the plan and
  store and domain lists that normalise to those of the plan; nothing is widened or
  narrowed, and the authorization lists the domains of the plan that stay blocked.
\<close>

theorem authorization_exact:
  "assertExecuteAuthorization plan h ss ds = Inr a \<longleftrightarrow>
    (\<exists>t. js_string_or_empty h = Inr t \<and> js_lower (js_trim t) = plan_planHash plan) \<and>
    hex64_pattern (plan_planHash plan) \<and>
    normalizeStoreCodes ss = Inr (plan_storeCodes plan) \<and>
    normalizeDomains ds = Inr (plan_domains plan) \<and>
    a = \<lparr>auth_planHash = plan_planHash plan, auth_allowedStoreCodes = plan_storeCodes plan,
         auth_allowedDomains = plan_domains plan,
         auth_blockedDomains = blocked_domains (plan_windows plan)\<rparr>"
  by (auto simp: assertExecuteAuthorization_def ebind_Inr_iff)

text \<open>
  Once a built plan is authorized, its only executable windows are purchase-order windows of
  authorized stores, and the blocked domains of the authorization are exactly the other domains of
  the plan: no approval makes a domain executable that the catalog does not.
\<close>

theorem authorization_never_widens:
  assumes "buildBackfillPlan sha r = Inr p" "assertExecuteAuthorization p h ss ds = Inr a"
  shows "(\<forall>w\<in>set (plan_windows p). win_storeCode w \<in> set (auth_allowedStoreCodes a) \<and>
      win_domain w \<in> set (auth_allowedDomains a) \<and>
      (win_executable w \<longleftrightarrow> win_domain w \<notin> set (auth_blockedDomains a))) \<and>
    set (auth_blockedDomains a) = set (plan_domains p) - {''purchase-orders''}"
proof -
  obtain sc where sc: "request_scope r sc" "p = plan_of sha sc" using assms(1) by (auto simp: build_Inr_iff)
  note f = request_scope_facts [OF sc(1)]
  have a: "auth_allowedStoreCodes a = plan_storeCodes p" "auth_allowedDomains a = plan_domains p"
    "auth_blockedDomains a = blocked_domains (plan_windows p)"
    using assms(2) by (auto simp: assertExecuteAuthorization_def ebind_Inr_iff)
  have "blocked_domains (plan_windows p) = filter domain_blocked (sc_domains sc)"
    unfolding sc(2) using blocked_domains_eq [OF f(3,5,6,8,9)] by (simp add: plan_of_def scope_windows_def)
  moreover have "domain_blocked d \<longleftrightarrow> d \<noteq> ''purchase-orders''" if "d \<in> set (sc_domains sc)" for d
    using f(7) that executable_domain_iff by (fastforce simp: domain_blocked_iff)
  ultimately have b: "set (auth_blockedDomains a) = set (plan_domains p) - {''purchase-orders''}"
    by (auto simp: a sc(2) plan_of_def)
  moreover have "win_storeCode w \<in> set (plan_storeCodes p) \<and> win_domain w \<in> set (plan_domains p) \<and>
      (win_executable w \<longleftrightarrow> win_domain w = ''purchase-orders'')" if "w \<in> set (plan_windows p)" for w
    using assms(1) that
  proof (rule plan_window_of)
    fix sc store d c a b
    assume "p = plan_of sha sc" "store \<in> set (sc_stores sc)" "d \<in> set (sc_domains sc)"
      "BACKFILL_DOMAIN_CATALOG d = Some c"
      "w = make_window sha (sc_attempts sc) store c (iso_date a, iso_date b)"
    then show ?thesis using executable_domain_iff [of d c] by (simp add: plan_of_def catalog_domain)
  qed
  ultimately show ?thesis unfolding a(1,2) b by blast
qed

text \<open>A digest for a sample authorization: 64 hexadecimal digits for an encoded object.\<close>

definition sample_digest :: "string \<Rightarrow> string" where
  [js_eval]: "sample_digest s = (if take 1 s = ''{'' then replicate 64 CHR ''a'' else s)"

lemma key_text_head:
  assumes "request_scope r sc" "w \<in> set (scope_windows sha sc)"
  shows "take 1 (key_text w) \<noteq> ''{''"
proof -
  obtain store where "store \<in> set (sc_stores sc)" "win_storeCode w = store"
    using assms(2) by (auto simp: scope_windows_def all_windows_mem)
  then have "store_code_pattern (win_storeCode w)" using request_scope_facts(4) [OF assms(1)] by blast
  then show ?thesis by (auto simp: key_text_def store_code_pattern_def is_upper_def)
qed

lemma sample_digest_plan:
  "buildBackfillPlan sample_digest sample_request = Inr (plan_of sample_digest sample_scope)"
proof (rule plan_exists_on [OF sample_resolves])
  have "sample_digest t = t" if "t \<in> key_text ` set (scope_windows sample_digest sample_scope)" for t
    using that key_text_head [OF sample_resolves] by (auto simp: sample_digest_def)
  then show "inj_on sample_digest (key_text ` set (scope_windows sample_digest sample_scope))"
    by (auto intro: inj_onI)
qed (simp add: sample_scope_def dayDifference_def ms_per_day_def)

lemma canonical_obj_head: "canonical_json (JObj ps) = Inr t \<Longrightarrow> take 1 t = ''{''"
  by (auto simp: ebind_Inr_iff)

lemma sample_digest_hash: "plan_planHash (plan_of sample_digest sample_scope) = replicate 64 CHR ''a''"
proof -
  have "take 1 (scope_hash_text sample_digest sample_scope) = ''{''"
    by (rule canonical_obj_head [OF scope_hash_text [unfolded scope_hash_input_def hash_input_def]])
  then show ?thesis by (simp add: plan_of_hash sample_digest_def)
qed

theorem authorization_never_widens_witness:
  "\<exists>a. assertExecuteAuthorization (plan_of sample_digest sample_scope) (JStr (replicate 64 CHR ''A''))
      (JArr [JStr ''zs0008'', JStr ''ZS0005'']) (JArr [JStr ''Purchase-Orders'', JStr ''deliveries'']) = Inr a \<and>
    set (auth_blockedDomains a) = {''deliveries''}"
proof -
  have n: "normalizeStoreCodes (JArr [JStr ''zs0008'', JStr ''ZS0005'']) = Inr [''ZS0005'', ''ZS0008'']"
    "normalizeDomains (JArr [JStr ''Purchase-Orders'', JStr ''deliveries'']) =
      Inr [''deliveries'', ''purchase-orders'']" by code_simp+
  have h: "js_lower (js_trim (replicate 64 CHR ''A'')) = replicate 64 CHR ''a''"
    "hex64_pattern (replicate 64 CHR ''a'')" by code_simp+
  obtain a where a: "assertExecuteAuthorization (plan_of sample_digest sample_scope) (JStr (replicate 64 CHR ''A''))
      (JArr [JStr ''zs0008'', JStr ''ZS0005'']) (JArr [JStr ''Purchase-Orders'', JStr ''deliveries'']) = Inr a"
    by (simp only: assertExecuteAuthorization_def js_string_or_empty_def coalesce_def nullish_def jsv.distinct
        simp_thms if_False js_string.simps ebind_simps h n sample_digest_hash ensure_simps)
      (simp add: plan_of_def sample_scope_def)
  from authorization_never_widens [OF sample_digest_plan a] have
    "set (auth_blockedDomains a) = set (plan_domains (plan_of sample_digest sample_scope)) - {''purchase-orders''}"
    by blast
  then have "set (auth_blockedDomains a) = {''deliveries''}" by (auto simp: plan_of_def sample_scope_def)
  with a show ?thesis by blast
qed

end
