(* ===== verification/Quality_Gate.thy ===== *)
theory Quality_Gate
  imports Backfill_Plan
begin

text \<open>
  \<open>src/backfill/quality-gate.mjs\<close>: the verdict on what an adapter returned for one window, and the
  checkpoint that a passed window leads to. The adapter's result is an untyped value; a checkpoint is
  a row the repository loaded or the state the gate itself produced.
\<close>

section \<open>Statuses\<close>

datatype execution_status = PLANNED | BLOCKED | RUNNING | SUCCEEDED | PARTIAL | FAILED | SKIPPED

datatype quality_status = UNKNOWN | PASSED | MISSING_PAGE | SCHEMA_DRIFT | MIXED_BUSINESS_DATE
  | ILLEGAL_DECIMAL | UNKNOWN_METRIC | REJECTED_ROWS | COVERAGE_GAP | ADAPTER_ERROR

record checkpoint =
  ck_storeCode :: string
  ck_domain :: string
  ck_adapterKey :: string
  ck_lastCompleted :: string
  ck_lastCursor :: string
  ck_lastRunId :: "int option"
  ck_fingerprint :: "string option"

record gate_outcome =
  out_execution :: execution_status
  out_quality :: quality_status
  out_code :: "string option"
  out_advanceable :: bool
  out_accepted :: "int option"
  out_rejected :: "int option"
  out_expectedPages :: "int option"
  out_observedPages :: "int option"
  out_fingerprint :: "string option"
  out_watermark :: "string option"

text \<open>The counts and evidence that an outcome carries along.\<close>

record evidence =
  ev_accepted :: "int option"
  ev_rejected :: "int option"
  ev_expectedPages :: "int option"
  ev_observedPages :: "int option"
  ev_fingerprint :: "string option"
  ev_watermark :: "string option"

definition no_evidence :: evidence where
  [js_eval]: "no_evidence = \<lparr>ev_accepted = None, ev_rejected = None, ev_expectedPages = None,
     ev_observedPages = None, ev_fingerprint = None, ev_watermark = None\<rparr>"

definition outcome :: "execution_status \<Rightarrow> quality_status \<Rightarrow> string option \<Rightarrow> evidence \<Rightarrow> gate_outcome" where
  [js_eval]: "outcome executionStatus qualityStatus errorCode extra =
     \<lparr>out_execution = executionStatus, out_quality = qualityStatus, out_code = errorCode,
      out_advanceable = (executionStatus = SUCCEEDED \<and> qualityStatus = PASSED),
      out_accepted = ev_accepted extra, out_rejected = ev_rejected extra,
      out_expectedPages = ev_expectedPages extra, out_observedPages = ev_observedPages extra,
      out_fingerprint = ev_fingerprint extra, out_watermark = ev_watermark extra\<rparr>"

section \<open>Reading the result\<close>

definition businessDate :: "jsv \<Rightarrow> string option" where
  [js_eval]: "businessDate v =
     (case as_string v of None \<Rightarrow> None
      | Some s \<Rightarrow> if business_date_ms s \<noteq> None then Some s else None)"

definition raw_business_dates :: "jsv \<Rightarrow> jsv list" where
  [js_eval]: "raw_business_dates result =
     (case as_array (jget result ''businessDates'') of None \<Rightarrow> [] | Some vs \<Rightarrow> vs)"

definition business_dates :: "jsv \<Rightarrow> string list" where
  [js_eval]: "business_dates result = dedupe (List.map_filter businessDate (raw_business_dates result))"

definition explicit_watermark :: "jsv \<Rightarrow> string option" where
  [js_eval]: "explicit_watermark result = businessDate (jget result ''sourceBusinessWatermark'')"

definition source_watermark :: "jsv \<Rightarrow> string option" where
  [js_eval]: "source_watermark result =
     (case explicit_watermark result of Some d \<Rightarrow> Some d
      | None \<Rightarrow> (case business_dates result of [d] \<Rightarrow> Some d | _ \<Rightarrow> None))"

definition result_counts :: "jsv \<Rightarrow> evidence" where
  [js_eval]: "result_counts result =
     \<lparr>ev_accepted = unit_count (jget result ''acceptedRowCount''),
      ev_rejected = unit_count (jget result ''rejectedRowCount''),
      ev_expectedPages = unit_count (jget result ''expectedPageCount''),
      ev_observedPages = unit_count (jget result ''observedPageCount''),
      ev_fingerprint = as_string (jget result ''schemaFingerprint''),
      ev_watermark = source_watermark result\<rparr>"

text \<open>The code an adapter reports with a failure, when it is one the ledger accepts.\<close>

definition adapter_code :: "jsv \<Rightarrow> string" where
  [js_eval]: "adapter_code result =
     (case as_string (jget result ''sanitizedErrorCode'') of None \<Rightarrow> ''ADAPTER_ERROR''
      | Some c \<Rightarrow> if sanitized_code_pattern c then c else ''ADAPTER_ERROR'')"

text \<open>A count that is missing or positive.\<close>

definition not_zero_count :: "jsv \<Rightarrow> bool" where
  [js_eval]: "not_zero_count v = (case unit_count v of None \<Rightarrow> True | Some n \<Rightarrow> 0 < n)"

definition fingerprint_drift :: "checkpoint option \<Rightarrow> string option \<Rightarrow> bool" where
  [js_eval]: "fingerprint_drift ck fp =
     (case ck of None \<Rightarrow> False
      | Some c \<Rightarrow> (case ck_fingerprint c of None \<Rightarrow> False
         | Some f \<Rightarrow> f \<noteq> [] \<and> Some f \<noteq> fp))"

section \<open>The gate\<close>

text \<open>
  The sum of the two row counts is exact as long as it is compared with a safe bound: rounding is
  monotone, so a sum above the bound stays above it.
\<close>

definition evaluateWindowOutcome :: "bf_window \<Rightarrow> jsv \<Rightarrow> checkpoint option \<Rightarrow> gate_outcome" where
  [js_eval]: "evaluateWindowOutcome window result checkpoint =
     (if win_capabilityStatus window \<noteq> VERIFIED then
        outcome BLOCKED UNKNOWN
          (Some (case win_blockedReasonCode window of Some c \<Rightarrow> c | None \<Rightarrow> ''CAPABILITY_NOT_VERIFIED''))
          no_evidence
      else if \<not> is_object result then
        outcome FAILED ADAPTER_ERROR (Some ''ADAPTER_RESULT_MISSING'') no_evidence
      else
        let counts = result_counts result;
            persisted = unit_count (jget result ''persistedRowCount'');
            dates = business_dates result;
            undated = counts\<lparr>ev_watermark := None\<rparr>
        in
        if jget result ''ok'' = JBool False \<or> truthy (jget result ''adapterError'') then
          outcome FAILED ADAPTER_ERROR (Some (adapter_code result)) counts
        else if ev_accepted counts = None \<or> ev_rejected counts = None \<or> ev_expectedPages counts = None \<or>
            ev_observedPages counts = None \<or> persisted = None then
          outcome FAILED COVERAGE_GAP (Some ''INCOMPLETE_ADAPTER_COUNTS'') counts
        else if ev_observedPages counts \<noteq> ev_expectedPages counts then
          outcome PARTIAL MISSING_PAGE (Some ''PAGE_COVERAGE_INCOMPLETE'') counts
        else if win_maxPagesPerWindow window < the (ev_expectedPages counts) \<or>
            win_maxRowsPerWindow window < the (ev_accepted counts) + the (ev_rejected counts) then
          outcome FAILED COVERAGE_GAP (Some ''WINDOW_BOUND_EXCEEDED'') counts
        else if \<not> (case ev_fingerprint counts of None \<Rightarrow> False | Some f \<Rightarrow> hex64_pattern f) then
          outcome FAILED SCHEMA_DRIFT (Some ''SCHEMA_FINGERPRINT_MISSING'') counts
        else if fingerprint_drift checkpoint (ev_fingerprint counts) then
          outcome FAILED SCHEMA_DRIFT (Some ''SCHEMA_FINGERPRINT_DRIFT'') counts
        else if \<exists>v\<in>set (raw_business_dates result). businessDate v = None then
          outcome FAILED MIXED_BUSINESS_DATE (Some ''INVALID_BUSINESS_DATE_IN_WINDOW'') undated
        else if 1 < length dates then
          outcome FAILED MIXED_BUSINESS_DATE (Some ''MIXED_BUSINESS_DATE_IN_WINDOW'') undated
        else if explicit_watermark result \<noteq> None \<and> length dates = 1 \<and>
            explicit_watermark result \<noteq> Some (hd dates) then
          outcome FAILED MIXED_BUSINESS_DATE (Some ''BUSINESS_WATERMARK_MISMATCH'') undated
        else if not_zero_count (jget result ''illegalDecimalCount'') then
          outcome FAILED ILLEGAL_DECIMAL (Some ''ILLEGAL_DECIMAL_VALUE'') counts
        else if not_zero_count (jget result ''unknownMetricCount'') then
          outcome FAILED UNKNOWN_METRIC (Some ''UNKNOWN_METRIC_IN_WINDOW'') counts
        else if 0 < the (ev_rejected counts) then
          outcome PARTIAL REJECTED_ROWS (Some ''ROWS_REJECTED_BY_CONTRACT'') counts
        else if persisted \<noteq> ev_accepted counts then
          outcome FAILED COVERAGE_GAP (Some ''PERSISTED_ROW_COUNT_MISMATCH'') counts
        else (case ev_watermark counts of
            None \<Rightarrow> outcome FAILED COVERAGE_GAP (Some ''SOURCE_BUSINESS_WATERMARK_MISSING'') counts
          | Some d \<Rightarrow>
            if d < win_windowStart window \<or> win_windowEnd window \<le> d
            then outcome FAILED MIXED_BUSINESS_DATE (Some ''BUSINESS_DATE_OUTSIDE_WINDOW'') counts
            else outcome SUCCEEDED PASSED None counts))"

definition nextCheckpointState ::
    "bf_window \<Rightarrow> gate_outcome \<Rightarrow> checkpoint option \<Rightarrow> int option \<Rightarrow> checkpoint option" where
  [js_eval]: "nextCheckpointState window windowOutcome checkpoint runId =
     (if \<not> out_advanceable windowOutcome then None
      else if win_capabilityStatus window \<noteq> VERIFIED then None
      else case out_watermark windowOutcome of None \<Rightarrow> None
        | Some watermark \<Rightarrow>
          if \<not> business_date_pattern watermark then None
          else if watermark < win_windowStart window \<or> win_windowEnd window \<le> watermark then None
          else if (case checkpoint of None \<Rightarrow> False | Some c \<Rightarrow> watermark \<le> ck_lastCompleted c) then None
          else Some \<lparr>ck_storeCode = win_storeCode window, ck_domain = win_domain window,
            ck_adapterKey = win_adapterKey window, ck_lastCompleted = watermark,
            ck_lastCursor = win_windowEnd window, ck_lastRunId = runId,
            ck_fingerprint = out_fingerprint windowOutcome\<rparr>)"

section \<open>What the gate promises\<close>

lemma outcome_fields [simp]:
  "out_execution (outcome e q c x) = e" "out_quality (outcome e q c x) = q" "out_code (outcome e q c x) = c"
  "out_advanceable (outcome e q c x) \<longleftrightarrow> e = SUCCEEDED \<and> q = PASSED"
  "out_accepted (outcome e q c x) = ev_accepted x" "out_rejected (outcome e q c x) = ev_rejected x"
  "out_expectedPages (outcome e q c x) = ev_expectedPages x"
  "out_observedPages (outcome e q c x) = ev_observedPages x"
  "out_fingerprint (outcome e q c x) = ev_fingerprint x" "out_watermark (outcome e q c x) = ev_watermark x"
  by (simp_all add: outcome_def)

lemma evidence_fields [simp]:
  "ev_accepted (result_counts r) = unit_count (jget r ''acceptedRowCount'')"
  "ev_rejected (result_counts r) = unit_count (jget r ''rejectedRowCount'')"
  "ev_expectedPages (result_counts r) = unit_count (jget r ''expectedPageCount'')"
  "ev_observedPages (result_counts r) = unit_count (jget r ''observedPageCount'')"
  "ev_fingerprint (result_counts r) = as_string (jget r ''schemaFingerprint'')"
  "ev_watermark (result_counts r) = source_watermark r"
  by (simp_all add: result_counts_def)

text \<open>The full conjunction of conditions under which a window passes.\<close>

definition window_proved :: "bf_window \<Rightarrow> jsv \<Rightarrow> checkpoint option \<Rightarrow> bool" where
  "window_proved w r ck \<longleftrightarrow>
     win_capabilityStatus w = VERIFIED \<and> is_object r \<and>
     jget r ''ok'' \<noteq> JBool False \<and> \<not> truthy (jget r ''adapterError'') \<and>
     (\<exists>rows pages. unit_count (jget r ''acceptedRowCount'') = Some rows \<and>
        unit_count (jget r ''persistedRowCount'') = Some rows \<and>
        unit_count (jget r ''rejectedRowCount'') = Some 0 \<and>
        unit_count (jget r ''expectedPageCount'') = Some pages \<and>
        unit_count (jget r ''observedPageCount'') = Some pages \<and>
        rows \<le> win_maxRowsPerWindow w \<and> pages \<le> win_maxPagesPerWindow w) \<and>
     unit_count (jget r ''illegalDecimalCount'') = Some 0 \<and>
     unit_count (jget r ''unknownMetricCount'') = Some 0 \<and>
     (\<exists>fp. jget r ''schemaFingerprint'' = JStr fp \<and> hex64_pattern fp \<and> \<not> fingerprint_drift ck (Some fp)) \<and>
     (\<exists>d. business_date_ms d \<noteq> None \<and> win_windowStart w \<le> d \<and> d < win_windowEnd w \<and>
        (\<forall>v\<in>set (raw_business_dates r). v = JStr d) \<and>
        (jget r ''sourceBusinessWatermark'' = JStr d \<or>
         businessDate (jget r ''sourceBusinessWatermark'') = None \<and> raw_business_dates r \<noteq> []))"

lemma not_zero_count_iff: "not_zero_count v \<longleftrightarrow> unit_count v \<noteq> Some 0"
proof (cases "unit_count v")
  case (Some n)
  then have "0 \<le> n" by (simp add: unit_count_Some_iff)
  with Some show ?thesis by (auto simp: not_zero_count_def)
qed (simp add: not_zero_count_def)

lemma businessDate_Some_iff: "businessDate v = Some d \<longleftrightarrow> v = JStr d \<and> business_date_ms d \<noteq> None"
  by (cases v) (auto simp: businessDate_def)

lemma set_map_filter_iff: "y \<in> set (List.map_filter f xs) \<longleftrightarrow> (\<exists>x\<in>set xs. f x = Some y)"
  by (induction xs) (auto simp: List.map_filter_simps split: option.split)

lemma set_business_dates: "d \<in> set (business_dates r) \<longleftrightarrow> JStr d \<in> set (raw_business_dates r) \<and> business_date_ms d \<noteq> None"
  unfolding business_dates_def set_dedupe set_map_filter_iff businessDate_Some_iff by blast

lemma source_watermark_date: "source_watermark r = Some d \<Longrightarrow> business_date_ms d \<noteq> None"
proof -
  assume s: "source_watermark r = Some d"
  consider "explicit_watermark r = Some d" | "business_dates r = [d]"
    using s by (auto simp: source_watermark_def split: option.splits list.splits)
  then show "business_date_ms d \<noteq> None"
  proof cases
    case 1
    then show ?thesis unfolding explicit_watermark_def businessDate_Some_iff by blast
  next
    case 2
    then have "d \<in> set (business_dates r)" by simp
    then show ?thesis unfolding set_business_dates by blast
  qed
qed

lemma at_most_one: "set xs \<subseteq> {x} \<Longrightarrow> distinct xs \<Longrightarrow> xs = [] \<or> xs = [x]"
proof -
  assume s: "set xs \<subseteq> {x}" and d: "distinct xs"
  then have "length xs \<le> 1" using distinct_card [OF d] card_mono [OF _ s] by simp
  then show "xs = [] \<or> xs = [x]" using s by (cases xs) auto
qed

text \<open>
  All dates of a window agree, and agree with the watermark, exactly when one date is the whole
  date evidence.
\<close>

lemma date_evidence:
  "(\<forall>v\<in>set (raw_business_dates r). businessDate v \<noteq> None) \<and> length (business_dates r) \<le> 1 \<and>
     (explicit_watermark r = None \<or> length (business_dates r) \<noteq> 1 \<or>
      explicit_watermark r = Some (hd (business_dates r))) \<and> source_watermark r = Some d \<longleftrightarrow>
   business_date_ms d \<noteq> None \<and> (\<forall>v\<in>set (raw_business_dates r). v = JStr d) \<and>
     (jget r ''sourceBusinessWatermark'' = JStr d \<or>
      businessDate (jget r ''sourceBusinessWatermark'') = None \<and> raw_business_dates r \<noteq> [])"
    (is "?A \<longleftrightarrow> ?B")
proof
  assume a: ?A
  then have valid: "\<forall>v\<in>set (raw_business_dates r). businessDate v \<noteq> None"
    and le: "length (business_dates r) \<le> 1"
    and explicit: "explicit_watermark r = None \<or> length (business_dates r) \<noteq> 1 \<or>
      explicit_watermark r = Some (hd (business_dates r))"
    and s: "source_watermark r = Some d" by blast+
  have d: "business_date_ms d \<noteq> None" by (rule source_watermark_date [OF s])
  have all: "v = JStr d" if v: "v \<in> set (raw_business_dates r)" for v
  proof -
    obtain e where e: "v = JStr e" "business_date_ms e \<noteq> None"
      using bspec [OF valid v] unfolding not_None_eq businessDate_Some_iff by blast
    then have "e \<in> set (business_dates r)" using v unfolding set_business_dates by blast
    then have one: "business_dates r = [e]" using le by (cases "business_dates r") simp_all
    then have "source_watermark r = Some e"
      using explicit by (cases "explicit_watermark r") (simp_all add: source_watermark_def)
    then show ?thesis using s e(1) by simp
  qed
  show ?B
  proof (cases "explicit_watermark r")
    case None
    then have "d \<in> set (business_dates r)"
      using s by (simp add: source_watermark_def split: list.splits)
    then have "raw_business_dates r \<noteq> []" unfolding set_business_dates by (metis list.set(1) empty_iff)
    with None d all show ?thesis unfolding explicit_watermark_def by blast
  next
    case (Some e)
    then have "e = d" using s by (simp add: source_watermark_def)
    with Some d all show ?thesis unfolding explicit_watermark_def businessDate_Some_iff by blast
  qed
next
  assume b: ?B
  then have dates: "set (business_dates r) \<subseteq> {d}" unfolding subset_iff set_business_dates by blast
  have "distinct (business_dates r)" by (simp add: business_dates_def)
  with dates have le: "business_dates r = [] \<or> business_dates r = [d]"
    by (rule at_most_one)
  have one: "business_dates r = [d]" if "raw_business_dates r \<noteq> []"
  proof -
    have "JStr d \<in> set (raw_business_dates r)" using b that by (cases "raw_business_dates r") auto
    then have "d \<in> set (business_dates r)" using b unfolding set_business_dates by blast
    with le show ?thesis by auto
  qed
  have "explicit_watermark r = Some d \<or> explicit_watermark r = None \<and> business_dates r = [d]"
    unfolding explicit_watermark_def businessDate_Some_iff using b one by blast
  then have w: "source_watermark r = Some d"
    "explicit_watermark r = None \<or> explicit_watermark r = Some d"
    by (auto simp: source_watermark_def)
  have "businessDate (JStr d) = Some d" unfolding businessDate_Some_iff using b by blast
  then have "\<forall>v\<in>set (raw_business_dates r). businessDate v \<noteq> None" using b by fastforce
  then show ?A using le w by auto
qed

lemma if_advanceable:
  "out_advanceable (if b then x else y) \<longleftrightarrow> (b \<and> out_advanceable x) \<or> (\<not> b \<and> out_advanceable y)"
  by simp

text \<open>Whether the date checks of the gate pass, with the date.\<close>

definition dated :: "bf_window \<Rightarrow> jsv \<Rightarrow> string \<Rightarrow> bool" where
  "dated w r d \<longleftrightarrow>
     business_date_ms d \<noteq> None \<and> win_windowStart w \<le> d \<and> d < win_windowEnd w \<and>
     (\<forall>v\<in>set (raw_business_dates r). v = JStr d) \<and>
     (jget r ''sourceBusinessWatermark'' = JStr d \<or>
      businessDate (jget r ''sourceBusinessWatermark'') = None \<and> raw_business_dates r \<noteq> [])"

lemma dated_iff:
  "(\<exists>d. dated w r d) \<longleftrightarrow>
     (\<forall>v\<in>set (raw_business_dates r). businessDate v \<noteq> None) \<and> length (business_dates r) \<le> 1 \<and>
     (explicit_watermark r = None \<or> length (business_dates r) \<noteq> 1 \<or>
      explicit_watermark r = Some (hd (business_dates r))) \<and>
     (\<exists>d. source_watermark r = Some d \<and> win_windowStart w \<le> d \<and> d < win_windowEnd w)"
    (is "?L \<longleftrightarrow> ?R")
proof
  assume ?L
  then obtain d where d: "dated w r d" ..
  then show ?R using date_evidence [of r d] unfolding dated_def by blast
next
  assume ?R
  then obtain d where d: "source_watermark r = Some d" "win_windowStart w \<le> d" "d < win_windowEnd w" by blast
  with \<open>?R\<close> have "dated w r d" using date_evidence [of r d] unfolding dated_def by blast
  then show ?L ..
qed

lemma advanceable_last:
  "out_advanceable (case m of None \<Rightarrow> outcome FAILED COVERAGE_GAP c x
      | Some d \<Rightarrow> if d < win_windowStart w \<or> win_windowEnd w \<le> d
          then outcome FAILED MIXED_BUSINESS_DATE c' x else outcome SUCCEEDED PASSED None x) \<longleftrightarrow>
   (\<exists>d. m = Some d \<and> win_windowStart w \<le> d \<and> d < win_windowEnd w)"
  by (cases m) (auto simp: linorder_not_less)

lemma advanceable_guards:
  "out_advanceable (evaluateWindowOutcome w r ck) \<longleftrightarrow>
     win_capabilityStatus w = VERIFIED \<and> is_object r \<and>
     \<not> (jget r ''ok'' = JBool False \<or> truthy (jget r ''adapterError'')) \<and>
     \<not> (unit_count (jget r ''acceptedRowCount'') = None \<or> unit_count (jget r ''rejectedRowCount'') = None \<or>
        unit_count (jget r ''expectedPageCount'') = None \<or> unit_count (jget r ''observedPageCount'') = None \<or>
        unit_count (jget r ''persistedRowCount'') = None) \<and>
     unit_count (jget r ''observedPageCount'') = unit_count (jget r ''expectedPageCount'') \<and>
     \<not> (win_maxPagesPerWindow w < the (unit_count (jget r ''expectedPageCount'')) \<or>
        win_maxRowsPerWindow w < the (unit_count (jget r ''acceptedRowCount'')) +
          the (unit_count (jget r ''rejectedRowCount''))) \<and>
     (case as_string (jget r ''schemaFingerprint'') of None \<Rightarrow> False | Some f \<Rightarrow> hex64_pattern f) \<and>
     \<not> fingerprint_drift ck (as_string (jget r ''schemaFingerprint'')) \<and>
     \<not> (\<exists>v\<in>set (raw_business_dates r). businessDate v = None) \<and>
     \<not> 1 < length (business_dates r) \<and>
     \<not> (explicit_watermark r \<noteq> None \<and> length (business_dates r) = 1 \<and>
        explicit_watermark r \<noteq> Some (hd (business_dates r))) \<and>
     \<not> not_zero_count (jget r ''illegalDecimalCount'') \<and>
     \<not> not_zero_count (jget r ''unknownMetricCount'') \<and>
     \<not> 0 < the (unit_count (jget r ''rejectedRowCount'')) \<and>
     unit_count (jget r ''persistedRowCount'') = unit_count (jget r ''acceptedRowCount'') \<and>
     (\<exists>d. source_watermark r = Some d \<and> win_windowStart w \<le> d \<and> d < win_windowEnd w)"
  unfolding evaluateWindowOutcome_def Let_def if_advanceable outcome_fields evidence_fields advanceable_last
  by (simp only: execution_status.distinct quality_status.distinct simp_thms not_not)

lemma gate_passes_iff: "out_advanceable (evaluateWindowOutcome w r ck) \<longleftrightarrow> window_proved w r ck"
proof -
  have fp: "(case as_string v of None \<Rightarrow> False | Some f \<Rightarrow> hex64_pattern f) \<and>
      \<not> fingerprint_drift ck (as_string v) \<longleftrightarrow>
      (\<exists>fp. v = JStr fp \<and> hex64_pattern fp \<and> \<not> fingerprint_drift ck (Some fp))" for v
    by (cases v) simp_all
  have counts: "\<not> (a = None \<or> b = None \<or> c = None \<or> d = None \<or> e = None) \<and> d = c \<and>
      \<not> (mp < the c \<or> mr < the a + the b) \<and> \<not> 0 < the b \<and> e = a \<longleftrightarrow>
      (\<exists>rows pages. a = Some rows \<and> e = Some rows \<and> b = Some 0 \<and> c = Some pages \<and> d = Some pages \<and>
        rows \<le> mr \<and> pages \<le> mp)" (is "?L \<longleftrightarrow> ?R")
    if "\<forall>n. b = Some n \<longrightarrow> 0 \<le> n" for a b c d e :: "int option" and mp mr :: int
    using that by (cases a; cases b; cases c; cases d; cases e) fastforce+
  have nonneg: "\<forall>n. unit_count v = Some n \<longrightarrow> 0 \<le> n" for v by (simp add: unit_count_Some_iff)
  have dates: "\<not> (\<exists>v\<in>set (raw_business_dates r). businessDate v = None) \<and> \<not> 1 < length (business_dates r) \<and>
      \<not> (explicit_watermark r \<noteq> None \<and> length (business_dates r) = 1 \<and>
         explicit_watermark r \<noteq> Some (hd (business_dates r))) \<and>
      (\<exists>d. source_watermark r = Some d \<and> win_windowStart w \<le> d \<and> d < win_windowEnd w) \<longleftrightarrow>
      (\<exists>d. dated w r d)"
    unfolding dated_iff linorder_not_less de_Morgan_conj not_not bex_simps by (simp only:)
  note C = counts [where a = "unit_count (jget r ''acceptedRowCount'')"
      and b = "unit_count (jget r ''rejectedRowCount'')" and c = "unit_count (jget r ''expectedPageCount'')"
      and d = "unit_count (jget r ''observedPageCount'')" and e = "unit_count (jget r ''persistedRowCount'')"
      and mp = "win_maxPagesPerWindow w" and mr = "win_maxRowsPerWindow w", OF nonneg [of "jget r ''rejectedRowCount''"]]
  show ?thesis
    unfolding advanceable_guards window_proved_def not_zero_count_iff not_not dated_def [symmetric]
    using C fp [of "jget r ''schemaFingerprint''"] dates by argo
qed

lemma passed_outcome:
  assumes "window_proved w r ck"
  shows "evaluateWindowOutcome w r ck = outcome SUCCEEDED PASSED None (result_counts r)"
proof -
  define Q where "Q x \<longleftrightarrow> (out_advanceable x \<longrightarrow> x = outcome SUCCEEDED PASSED None (result_counts r))" for x
  have Q_if: "Q x \<Longrightarrow> Q y \<Longrightarrow> Q (if b then x else y)" for x y b by simp
  have "Q (evaluateWindowOutcome w r ck)"
    unfolding evaluateWindowOutcome_def Let_def
    by (intro Q_if) (simp_all add: Q_def split: option.split)
  then show ?thesis using assms by (simp add: Q_def gate_passes_iff)
qed

lemma dated_watermark: "dated w r d \<Longrightarrow> source_watermark r = Some d"
  using date_evidence [of r d] unfolding dated_def by blast

lemma proved_fingerprint:
  "window_proved w r ck \<Longrightarrow> \<exists>fp d. jget r ''schemaFingerprint'' = JStr fp \<and> hex64_pattern fp \<and> dated w r d"
  unfolding window_proved_def dated_def by blast

section \<open>Properties\<close>

text \<open>
  C2. The gate fails closed: it lets a checkpoint move exactly when everything is proved, that is
  a verified capability, a result object without an adapter error, complete counts, all pages seen
  within the bounds of the window, no rejected row, illegal decimal or unknown metric, every
  accepted row persisted, a well-formed schema fingerprint that agrees with the checkpoint, and one
  calendar date inside the window as the only date evidence.
\<close>

theorem gate_fails_closed:
  "out_advanceable (evaluateWindowOutcome w r ck) \<longleftrightarrow> window_proved w r ck"
  by (rule gate_passes_iff)

text \<open>The statuses an outcome may combine.\<close>

definition outcome_shape :: "bf_window \<Rightarrow> gate_outcome \<Rightarrow> bool" where
  "outcome_shape w o' \<longleftrightarrow>
     (out_advanceable o' \<longleftrightarrow> out_execution o' = SUCCEEDED) \<and>
     (out_quality o' = PASSED \<longleftrightarrow> out_execution o' = SUCCEEDED) \<and>
     (out_code o' = None \<longleftrightarrow> out_execution o' = SUCCEEDED) \<and>
     (out_execution o' = BLOCKED \<longleftrightarrow> win_capabilityStatus w \<noteq> VERIFIED) \<and>
     (out_quality o' = UNKNOWN \<longleftrightarrow> out_execution o' = BLOCKED) \<and>
     (out_execution o' = PARTIAL \<longleftrightarrow> out_quality o' = MISSING_PAGE \<or> out_quality o' = REJECTED_ROWS) \<and>
     out_execution o' \<notin> {PLANNED, RUNNING, SKIPPED}"

lemma outcome_shape_if:
  "(b \<Longrightarrow> outcome_shape w x) \<Longrightarrow> (\<not> b \<Longrightarrow> outcome_shape w y) \<Longrightarrow> outcome_shape w (if b then x else y)"
  by simp

lemma gate_shape: "outcome_shape w (evaluateWindowOutcome w r ck)"
  unfolding evaluateWindowOutcome_def Let_def
  by (intro outcome_shape_if) (simp_all add: outcome_shape_def split: option.split)

text \<open>
  Every outcome is one of blocked, failed, partial and succeeded, with matching statuses: it is
  succeeded exactly when its quality is passed, when it carries no error code and when it may move
  the checkpoint; it is blocked exactly when the capability is not verified; it is partial exactly
  for a missing page or rejected rows.
\<close>

theorem gate_outcome_shape:
  "outcome_shape w (evaluateWindowOutcome w r ck)"
  by (rule gate_shape)

text \<open>
  A checkpoint state comes only from an outcome that may move it: its date is the proven
  watermark, inside the window and strictly after the date already completed, its fingerprint is
  the one of the result, and a state exists whenever these conditions hold.
\<close>

theorem checkpoint_moves_forward:
  "nextCheckpointState w (evaluateWindowOutcome w r ck) ck runId = Some st \<longleftrightarrow>
    window_proved w r ck \<and>
    (\<exists>d fp. dated w r d \<and> jget r ''schemaFingerprint'' = JStr fp \<and>
       (case ck of None \<Rightarrow> True | Some c \<Rightarrow> ck_lastCompleted c < d) \<and>
       st = \<lparr>ck_storeCode = win_storeCode w, ck_domain = win_domain w, ck_adapterKey = win_adapterKey w,
             ck_lastCompleted = d, ck_lastCursor = win_windowEnd w, ck_lastRunId = runId,
             ck_fingerprint = Some fp\<rparr>)"
proof (cases "window_proved w r ck")
  case False
  then show ?thesis by (simp add: nextCheckpointState_def gate_passes_iff)
next
  case True
  from True obtain fp d where fp: "jget r ''schemaFingerprint'' = JStr fp" and d: "dated w r d"
    using proved_fingerprint by blast
  have "win_capabilityStatus w = VERIFIED" using True by (simp add: window_proved_def)
  moreover have "business_date_pattern d" "\<not> d < win_windowStart w" "\<not> win_windowEnd w \<le> d"
    using d by (auto simp: dated_def business_date_ms_def split: if_splits)
  ultimately have "nextCheckpointState w (evaluateWindowOutcome w r ck) ck runId =
      (if case ck of None \<Rightarrow> False | Some c \<Rightarrow> d \<le> ck_lastCompleted c then None
       else Some \<lparr>ck_storeCode = win_storeCode w, ck_domain = win_domain w,
         ck_adapterKey = win_adapterKey w, ck_lastCompleted = d, ck_lastCursor = win_windowEnd w,
         ck_lastRunId = runId, ck_fingerprint = Some fp\<rparr>)"
    unfolding passed_outcome [OF True] nextCheckpointState_def outcome_fields evidence_fields fp
      dated_watermark [OF d] by simp
  moreover have "(case ck of None \<Rightarrow> False | Some c \<Rightarrow> d \<le> ck_lastCompleted c) \<longleftrightarrow>
      \<not> (case ck of None \<Rightarrow> True | Some c \<Rightarrow> ck_lastCompleted c < d)"
    by (cases ck) (auto simp: linorder_not_less)
  moreover have "dated w r e \<longleftrightarrow> e = d" for e
    using d dated_watermark [OF d] dated_watermark [of w r e] by auto
  ultimately show ?thesis using True fp by (simp only: jsv.inject) auto
qed

end
