(* ===== verification/Backfill_Ledger.thy ===== *)
theory Backfill_Ledger
  imports Quality_Gate
begin

text \<open>
  \<open>src/backfill/checkpoint-repository.mjs\<close> over the tables of
  \<open>db/migrations/0012_backfill_and_webapi_experiment.sql\<close>: the ledger of runs, windows and
  checkpoints. A statement either yields the next ledger or fails with the error the database
  reports, and a failing transaction leaves the ledger as it was. Dates are the ISO texts that the
  columns of type \<open>date\<close> were given; gaps in the identity sequences and failures of the connection
  are not modelled.
\<close>

section \<open>Rows\<close>

datatype backfill_mode = DRY_RUN | EXECUTE

datatype run_status = RUN_PLANNED | RUN_RUNNING | RUN_PARTIAL | RUN_SUCCEEDED | RUN_FAILED | RUN_CANCELLED

record run_row =
  rr_id :: int
  rr_planHash :: string
  rr_mode :: backfill_mode
  rr_status :: run_status
  rr_domains :: "string list"
  rr_stores :: "string list"
  rr_from :: string
  rr_to :: string
  rr_span :: int
  rr_planned :: int
  rr_createdBy :: string
  rr_startedAt :: int
  rr_completedAt :: "int option"
  rr_code :: "string option"

record window_row =
  wr_id :: int
  wr_runId :: int
  wr_storeCode :: string
  wr_domain :: string
  wr_adapterKey :: string
  wr_start :: string
  wr_end :: string
  wr_windowKey :: string
  wr_capability :: capability_status
  wr_execution :: execution_status
  wr_quality :: quality_status
  wr_attempts :: int
  wr_accepted :: "int option"
  wr_rejected :: "int option"
  wr_expectedPages :: "int option"
  wr_observedPages :: "int option"
  wr_watermark :: "string option"
  wr_fingerprint :: "string option"
  wr_code :: "string option"

record checkpoint_row =
  cr_storeCode :: string
  cr_domain :: string
  cr_adapterKey :: string
  cr_lastCompleted :: string
  cr_lastCursor :: string
  cr_runId :: int
  cr_windowId :: int
  cr_fingerprint :: string

record ledger =
  lg_runs :: "run_row list"
  lg_windows :: "window_row list"
  lg_checkpoints :: "checkpoint_row list"
  lg_nextRunId :: int
  lg_nextWindowId :: int

section \<open>Constraints of the tables\<close>

text \<open>What a column of type \<open>date\<close> accepts of these texts: there is no year zero.\<close>

definition pg_date :: "string \<Rightarrow> bool" where
  [js_eval]: "pg_date s \<longleftrightarrow> business_date_ms s \<noteq> None \<and> take 4 s \<noteq> ''0000''"

definition int4 :: "int \<Rightarrow> bool" where
  [js_eval]: "int4 n \<longleftrightarrow> - 2147483648 \<le> n \<and> n \<le> 2147483647"

definition optional :: "('a \<Rightarrow> bool) \<Rightarrow> 'a option \<Rightarrow> bool" where
  [js_eval]: "optional P v = (case v of None \<Rightarrow> True | Some x \<Rightarrow> P x)"

definition day_number :: "string \<Rightarrow> int" where
  [js_eval]: "day_number s = (case business_date_ms s of None \<Rightarrow> 0 | Some t \<Rightarrow> t div ms_per_day)"

definition domain_pattern :: "string \<Rightarrow> bool" where
  [js_eval]: "domain_pattern s = (case s of [] \<Rightarrow> False
     | c # cs \<Rightarrow> is_lower c \<and> matches_span (\<lambda>d. is_lower d \<or> is_digit d \<or> d = CHR ''-'') 2 40 cs)"

definition adapter_key_pattern :: "string \<Rightarrow> bool" where
  [js_eval]: "adapter_key_pattern s = (case s of [] \<Rightarrow> False
     | c # cs \<Rightarrow> is_lower c \<and> matches_span (\<lambda>d. is_lower d \<or> is_digit d \<or> d \<in> {CHR ''.'', CHR ''-''}) 4 60 cs)"

text \<open>
  A \<open>CHECK\<close> is violated only when its expression is false: it passes when the expression is unknown,
  as a comparison with a null value is, and so is the length of an empty array.
\<close>

definition sql_eq :: "'a option \<Rightarrow> 'a option \<Rightarrow> bool option" where
  [js_eval]: "sql_eq a b = (case (a, b) of (Some x, Some y) \<Rightarrow> Some (x = y) | _ \<Rightarrow> None)"

definition sql_between :: "int option \<Rightarrow> int \<Rightarrow> int \<Rightarrow> bool option" where
  [js_eval]: "sql_between a lo hi = map_option (\<lambda>n. lo \<le> n \<and> n \<le> hi) a"

definition sql_and :: "bool option \<Rightarrow> bool option \<Rightarrow> bool option" where
  [js_eval]: "sql_and a b =
     (if a = Some False \<or> b = Some False then Some False else if a = None \<or> b = None then None else Some True)"

definition sql_or :: "bool option \<Rightarrow> bool option \<Rightarrow> bool option" where
  [js_eval]: "sql_or a b =
     (if a = Some True \<or> b = Some True then Some True else if a = None \<or> b = None then None else Some False)"

definition check_passes :: "bool option \<Rightarrow> bool" where
  [js_eval]: "check_passes v \<longleftrightarrow> v \<noteq> Some False"

definition array_length :: "'a list \<Rightarrow> int option" where
  [js_eval]: "array_length xs = (if xs = [] then None else Some (int (length xs)))"

lemma check_passes_simps [simp]:
  "check_passes (Some b) = b" "check_passes (sql_and u v) = (check_passes u \<and> check_passes v)"
  "check_passes (sql_or u v) = (check_passes u \<or> check_passes v)"
  "check_passes (sql_eq x y) = (x = None \<or> y = None \<or> x = y)"
  by (auto simp: check_passes_def sql_and_def sql_or_def sql_eq_def split: option.splits)

definition run_row_ok :: "run_row \<Rightarrow> bool" where
  [js_eval]: "run_row_ok r \<longleftrightarrow>
     hex64_pattern (rr_planHash r) \<and> created_by_pattern (rr_createdBy r) \<and>
     pg_date (rr_from r) \<and> pg_date (rr_to r) \<and>
     day_number (rr_from r) \<le> day_number (rr_to r) \<and> day_number (rr_to r) - day_number (rr_from r) < 400 \<and>
     1 \<le> rr_span r \<and> rr_span r \<le> 31 \<and> 0 \<le> rr_planned r \<and> rr_planned r \<le> 2000 \<and>
     check_passes (sql_and (sql_between (array_length (rr_domains r)) 1 12)
       (sql_between (array_length (rr_stores r)) 1 24)) \<and>
     optional sanitized_code_pattern (rr_code r) \<and>
     optional (\<lambda>t. rr_startedAt r \<le> t) (rr_completedAt r)"

definition passed_has_proof :: "window_row \<Rightarrow> bool option" where
  [js_eval]: "passed_has_proof w =
     sql_and (Some (wr_execution w = SUCCEEDED \<or> wr_execution w = SKIPPED))
     (sql_and (Some (wr_capability w = VERIFIED))
     (sql_and (Some (wr_fingerprint w \<noteq> None))
       (sql_or (Some (wr_execution w = SKIPPED))
         (sql_and (Some (wr_accepted w \<noteq> None))
         (sql_and (sql_eq (wr_rejected w) (Some 0))
         (sql_and (Some (wr_expectedPages w \<noteq> None))
           (sql_eq (wr_observedPages w) (wr_expectedPages w))))))))"

definition window_row_ok :: "window_row \<Rightarrow> bool" where
  [js_eval]: "window_row_ok w \<longleftrightarrow>
     store_code_pattern (wr_storeCode w) \<and> domain_pattern (wr_domain w) \<and>
     adapter_key_pattern (wr_adapterKey w) \<and> pg_date (wr_start w) \<and> pg_date (wr_end w) \<and>
     day_number (wr_start w) < day_number (wr_end w) \<and> day_number (wr_end w) - day_number (wr_start w) \<le> 31 \<and>
     hex64_pattern (wr_windowKey w) \<and>
     (wr_capability w = VERIFIED \<or> wr_execution w \<in> {PLANNED, BLOCKED, SKIPPED}) \<and>
     check_passes (sql_or (Some (wr_quality w \<noteq> PASSED)) (passed_has_proof w)) \<and>
     int4 (wr_attempts w) \<and> 0 \<le> wr_attempts w \<and>
     optional (\<lambda>n. int4 n \<and> 0 \<le> n) (wr_accepted w) \<and> optional (\<lambda>n. int4 n \<and> 0 \<le> n) (wr_rejected w) \<and>
     optional (\<lambda>n. int4 n \<and> 0 \<le> n) (wr_expectedPages w) \<and>
     optional (\<lambda>n. int4 n \<and> 0 \<le> n) (wr_observedPages w) \<and>
     optional hex64_pattern (wr_fingerprint w) \<and> optional sanitized_code_pattern (wr_code w) \<and>
     optional (\<lambda>d. pg_date d \<and> day_number (wr_start w) \<le> day_number d \<and> day_number d < day_number (wr_end w))
       (wr_watermark w)"

definition run_exists :: "ledger \<Rightarrow> int \<Rightarrow> bool" where
  [js_eval]: "run_exists lg i \<longleftrightarrow> (\<exists>r\<in>set (lg_runs lg). rr_id r = i \<and> rr_mode r = EXECUTE)"

text \<open>
  The foreign key of a checkpoint: run, grain, statuses, date and fingerprint are those of the one
  window row it cites.
\<close>

definition cites :: "checkpoint_row \<Rightarrow> window_row \<Rightarrow> bool" where
  [js_eval]: "cites c w \<longleftrightarrow>
     cr_windowId c = wr_id w \<and> cr_runId c = wr_runId w \<and> cr_storeCode c = wr_storeCode w \<and>
     cr_domain c = wr_domain w \<and> cr_adapterKey c = wr_adapterKey w \<and>
     wr_execution w = SUCCEEDED \<and> wr_quality w = PASSED \<and> wr_capability w = VERIFIED \<and>
     wr_watermark w = Some (cr_lastCompleted c) \<and> wr_fingerprint w = Some (cr_fingerprint c)"

definition checkpoint_row_ok :: "ledger \<Rightarrow> checkpoint_row \<Rightarrow> bool" where
  [js_eval]: "checkpoint_row_ok lg c \<longleftrightarrow>
     store_code_pattern (cr_storeCode c) \<and> hex64_pattern (cr_fingerprint c) \<and>
     pg_date (cr_lastCompleted c) \<and> run_exists lg (cr_runId c) \<and>
     (\<exists>w\<in>set (lg_windows lg). cites c w)"

definition citations_hold :: "ledger \<Rightarrow> bool" where
  [js_eval]: "citations_hold lg \<longleftrightarrow> (\<forall>c\<in>set (lg_checkpoints lg). \<exists>w\<in>set (lg_windows lg). cites c w)"

section \<open>Values of the repository\<close>

text \<open>An instant handed to the repository: a date, an invalid date, or no date at all.\<close>

datatype js_instant = Instant int | InvalidInstant | NoInstant

text \<open>\<open>toISOString\<close> of an invalid date throws; texts that hold an instant are not passed here.\<close>

fun timestamp :: "js_instant \<Rightarrow> int option result" where
  "timestamp (Instant t) = Inr (Some t)"
| "timestamp InvalidInstant = Inl TypeError"
| "timestamp NoInstant = Inr None"

definition sanitized :: "string option \<Rightarrow> string option" where
  [js_eval]: "sanitized v =
     (case v of None \<Rightarrow> None
      | Some s \<Rightarrow> let candidate = js_upper (js_trim s)
          in Some (if sanitized_code_pattern candidate then candidate else ''UNSPECIFIED_ERROR''))"

text \<open>
  The driver turns a \<open>date\<close> into a local midnight, whose year prints without leading zeros.
\<close>

definition dateText :: "string \<Rightarrow> string" where
  [js_eval]: "dateText s = show_nat (read_nat (take 4 s)) @ drop 4 s"

section \<open>Runs\<close>

record run_request =
  rq_planHash :: string
  rq_domains :: "string list"
  rq_stores :: "string list"
  rq_from :: string
  rq_to :: string
  rq_span :: int
  rq_planned :: int
  rq_createdBy :: string

record run_handle =
  rh_id :: "int option"
  rh_resumed :: bool

definition new_run :: "ledger \<Rightarrow> run_request \<Rightarrow> int \<Rightarrow> run_row" where
  [js_eval]: "new_run lg q startedAt =
     \<lparr>rr_id = lg_nextRunId lg, rr_planHash = rq_planHash q, rr_mode = EXECUTE, rr_status = RUN_RUNNING,
      rr_domains = rq_domains q, rr_stores = rq_stores q, rr_from = rq_from q, rr_to = rq_to q,
      rr_span = rq_span q, rr_planned = rq_planned q, rr_createdBy = rq_createdBy q,
      rr_startedAt = startedAt, rr_completedAt = None, rr_code = None\<rparr>"

definition same_scope :: "run_row \<Rightarrow> run_request \<Rightarrow> bool" where
  [js_eval]: "same_scope r q \<longleftrightarrow>
     rr_domains r = rq_domains q \<and> rr_stores r = rq_stores q \<and> dateText (rr_from r) = rq_from q \<and>
     dateText (rr_to r) = rq_to q \<and> rr_span r = rq_span q \<and> rr_planned r = rq_planned q"

definition openRun :: "run_request \<Rightarrow> js_instant \<Rightarrow> ledger \<Rightarrow> (run_handle \<times> ledger) result" where
  [js_eval]: "openRun q startedAt lg =
     ebind (timestamp startedAt) (\<lambda>t. case t of
       None \<Rightarrow> Inl (Fail ''BACKFILL_RUN_START_INSTANT_INVALID'' [])
     | Some t \<Rightarrow>
       ebind (ensure (run_row_ok (new_run lg q t)) (Fail ''23514'' ''backfill_run'')) (\<lambda>_.
         case filter (\<lambda>r. rr_planHash r = rq_planHash q \<and> rr_mode r = EXECUTE) (lg_runs lg) of
           [] \<Rightarrow> Inr (\<lparr>rh_id = Some (lg_nextRunId lg), rh_resumed = False\<rparr>,
                 lg\<lparr>lg_runs := lg_runs lg @ [new_run lg q t], lg_nextRunId := lg_nextRunId lg + 1\<rparr>)
         | [r] \<Rightarrow> if same_scope r q then Inr (\<lparr>rh_id = Some (rr_id r), rh_resumed = True\<rparr>, lg)
                 else Inl (Fail ''BACKFILL_RUN_REPLAY_DRIFT'' [])
         | _ \<Rightarrow> Inl (Fail ''BACKFILL_RUN_READBACK_MISSING'' [])))"

definition closeRun :: "int \<Rightarrow> run_status \<Rightarrow> js_instant \<Rightarrow> string option \<Rightarrow> ledger \<Rightarrow> (int \<times> ledger) result" where
  [js_eval]: "closeRun runId status completedAt errorCode lg =
     ebind (timestamp completedAt) (\<lambda>t. case t of
       None \<Rightarrow> Inl (Fail ''BACKFILL_RUN_COMPLETION_INSTANT_INVALID'' [])
     | Some t \<Rightarrow>
       let hit = (\<lambda>r. rr_id r = runId \<and> rr_mode r = EXECUTE);
           close = (\<lambda>r. r\<lparr>rr_status := status, rr_completedAt := Some t, rr_code := sanitized errorCode\<rparr>)
       in if \<exists>r\<in>set (lg_runs lg). hit r \<and> \<not> run_row_ok (close r)
          then Inl (Fail ''23514'' ''backfill_run'')
          else if length (filter hit (lg_runs lg)) \<noteq> 1 then Inl (Fail ''BACKFILL_RUN_CLOSE_MISSING'' [])
          else Inr (runId, lg\<lparr>lg_runs := map (\<lambda>r. if hit r then close r else r) (lg_runs lg)\<rparr>))"

section \<open>Windows and checkpoints\<close>

definition new_window_row :: "int \<Rightarrow> int \<Rightarrow> bf_window \<Rightarrow> gate_outcome \<Rightarrow> int \<Rightarrow> window_row" where
  [js_eval]: "new_window_row rowId runId w oc attemptCount =
     \<lparr>wr_id = rowId, wr_runId = runId, wr_storeCode = win_storeCode w, wr_domain = win_domain w,
      wr_adapterKey = win_adapterKey w, wr_start = win_windowStart w, wr_end = win_windowEnd w,
      wr_windowKey = win_windowKey w, wr_capability = win_capabilityStatus w,
      wr_execution = out_execution oc, wr_quality = out_quality oc, wr_attempts = attemptCount,
      wr_accepted = out_accepted oc, wr_rejected = out_rejected oc,
      wr_expectedPages = out_expectedPages oc, wr_observedPages = out_observedPages oc,
      wr_watermark = out_watermark oc, wr_fingerprint = out_fingerprint oc,
      wr_code = sanitized (out_code oc)\<rparr>"

text \<open>\<open>DO UPDATE SET\<close>: the outcome of the proposed row, and the sum of the attempts.\<close>

definition merge_window_row :: "window_row \<Rightarrow> window_row \<Rightarrow> window_row" where
  [js_eval]: "merge_window_row old new =
     old\<lparr>wr_execution := wr_execution new, wr_quality := wr_quality new,
         wr_attempts := wr_attempts old + wr_attempts new,
         wr_accepted := wr_accepted new, wr_rejected := wr_rejected new,
         wr_expectedPages := wr_expectedPages new, wr_observedPages := wr_observedPages new,
         wr_watermark := wr_watermark new, wr_fingerprint := wr_fingerprint new, wr_code := wr_code new\<rparr>"

definition row_grain :: "window_row \<Rightarrow> int \<times> string \<times> string \<times> string \<times> string \<times> string" where
  [js_eval]: "row_grain w = (wr_runId w, wr_storeCode w, wr_domain w, wr_adapterKey w, wr_start w, wr_end w)"

definition upsertWindow :: "int \<Rightarrow> bf_window \<Rightarrow> gate_outcome \<Rightarrow> int \<Rightarrow> ledger \<Rightarrow> (int \<times> ledger) result" where
  [js_eval]: "upsertWindow runId w oc attemptCount lg =
     (let new = new_window_row (lg_nextWindowId lg) runId w oc attemptCount
      in if \<not> window_row_ok new then Inl (Fail ''23514'' ''backfill_window'')
         else case find (\<lambda>r. row_grain r = row_grain new) (lg_windows lg) of
             None \<Rightarrow>
               if \<not> run_exists lg runId then Inl (Fail ''23503'' ''backfill_window'')
               else Inr (wr_id new, lg\<lparr>lg_windows := lg_windows lg @ [new],
                                       lg_nextWindowId := lg_nextWindowId lg + 1\<rparr>)
           | Some old \<Rightarrow>
               let row = merge_window_row old new;
                   lg' = lg\<lparr>lg_windows := map (\<lambda>r. if wr_id r = wr_id old then row else r) (lg_windows lg)\<rparr>
               in if \<not> window_row_ok row then Inl (Fail ''23514'' ''backfill_window'')
                  else if \<not> citations_hold lg' then Inl (Fail ''23503'' ''backfill_window'')
                  else Inr (wr_id old, lg'))"

definition same_grain :: "checkpoint_row \<Rightarrow> checkpoint_row \<Rightarrow> bool" where
  [js_eval]: "same_grain a b \<longleftrightarrow> cr_storeCode a = cr_storeCode b \<and> cr_domain a = cr_domain b \<and>
     cr_adapterKey a = cr_adapterKey b"

definition new_checkpoint_row :: "int \<Rightarrow> checkpoint \<Rightarrow> checkpoint_row option" where
  [js_eval]: "new_checkpoint_row windowId st =
     (case (ck_lastRunId st, ck_fingerprint st) of
        (Some r, Some f) \<Rightarrow> Some \<lparr>cr_storeCode = ck_storeCode st, cr_domain = ck_domain st,
          cr_adapterKey = ck_adapterKey st, cr_lastCompleted = ck_lastCompleted st,
          cr_lastCursor = ck_lastCursor st, cr_runId = r, cr_windowId = windowId, cr_fingerprint = f\<rparr>
      | _ \<Rightarrow> None)"

text \<open>
  The guarded upsert of a checkpoint: a row that is not strictly older than the proposed date is
  left alone and reported as not advanced. A missing run or fingerprint violates a not-null
  constraint.
\<close>

definition upsertCheckpoint :: "int \<Rightarrow> checkpoint \<Rightarrow> ledger \<Rightarrow> (bool \<times> ledger) result" where
  [js_eval]: "upsertCheckpoint windowId st lg =
     (case new_checkpoint_row windowId st of
        None \<Rightarrow> Inl (Fail ''23502'' ''backfill_checkpoint'')
      | Some new \<Rightarrow>
        (case find (same_grain new) (lg_checkpoints lg) of
           None \<Rightarrow>
             if checkpoint_row_ok lg new
             then Inr (True, lg\<lparr>lg_checkpoints := lg_checkpoints lg @ [new]\<rparr>)
             else Inl (Fail ''23514'' ''backfill_checkpoint'')
         | Some old \<Rightarrow>
             if \<not> day_number (cr_lastCompleted old) < day_number (cr_lastCompleted new)
             then (if store_code_pattern (cr_storeCode new) \<and> hex64_pattern (cr_fingerprint new) \<and>
                       pg_date (cr_lastCompleted new)
                   then Inr (False, lg) else Inl (Fail ''23514'' ''backfill_checkpoint''))
             else if checkpoint_row_ok lg new
             then Inr (True, lg\<lparr>lg_checkpoints :=
                    map (\<lambda>c. if same_grain new c then new else c) (lg_checkpoints lg)\<rparr>)
             else Inl (Fail ''23514'' ''backfill_checkpoint'')))"

record persistence =
  ps_persisted :: bool
  ps_windowId :: "int option"
  ps_advanced :: bool

definition commitWindowOutcome ::
    "int \<Rightarrow> bf_window \<Rightarrow> gate_outcome \<Rightarrow> int \<Rightarrow> checkpoint option \<Rightarrow> ledger \<Rightarrow> (persistence \<times> ledger) result" where
  [js_eval]: "commitWindowOutcome runId w oc attemptCount checkpointState lg =
     ebind (upsertWindow runId w oc attemptCount lg) (\<lambda>(windowId, lg1).
       case checkpointState of
         None \<Rightarrow> Inr (\<lparr>ps_persisted = True, ps_windowId = Some windowId, ps_advanced = False\<rparr>, lg1)
       | Some st \<Rightarrow>
         ebind (upsertCheckpoint windowId st lg1) (\<lambda>(advanced, lg2).
           Inr (\<lparr>ps_persisted = True, ps_windowId = Some windowId, ps_advanced = advanced\<rparr>, lg2)))"

definition recordWindowOutcome ::
    "int \<Rightarrow> bf_window \<Rightarrow> gate_outcome \<Rightarrow> int \<Rightarrow> ledger \<Rightarrow> (persistence \<times> ledger) result" where
  [js_eval]: "recordWindowOutcome runId w oc attemptCount = commitWindowOutcome runId w oc attemptCount None"

text \<open>
  \<open>withTransaction\<close>: the statements of the callback take effect together, or the error is rethrown
  and none of them does.
\<close>

definition withTransaction :: "('db \<Rightarrow> ('a \<times> 'db) result) \<Rightarrow> 'db \<Rightarrow> 'a result \<times> 'db" where
  [js_eval]: "withTransaction callback db =
     (case callback db of Inl e \<Rightarrow> (Inl e, db) | Inr (x, db') \<Rightarrow> (Inr x, db'))"

section \<open>Loaders\<close>

definition plan_run_ids :: "string \<Rightarrow> ledger \<Rightarrow> int set" where
  [js_eval]: "plan_run_ids h lg = rr_id ` set (filter (\<lambda>r. rr_planHash r = h \<and> rr_mode r = EXECUTE) (lg_runs lg))"

definition loadCompletedWindowKeys :: "string \<Rightarrow> ledger \<Rightarrow> string list" where
  [js_eval]: "loadCompletedWindowKeys h lg =
     map wr_windowKey (filter (\<lambda>w. wr_runId w \<in> plan_run_ids h lg \<and> wr_execution w = SUCCEEDED \<and>
       wr_quality w = PASSED) (lg_windows lg))"

definition loadWindowAttemptCounts :: "string \<Rightarrow> ledger \<Rightarrow> (string \<times> int) list" where
  [js_eval]: "loadWindowAttemptCounts h lg =
     map (\<lambda>w. (wr_windowKey w, wr_attempts w))
       (filter (\<lambda>w. wr_runId w \<in> plan_run_ids h lg) (lg_windows lg))"

definition loadCheckpoints :: "string list \<Rightarrow> string list \<Rightarrow> ledger \<Rightarrow> checkpoint list" where
  [js_eval]: "loadCheckpoints stores domains lg =
     map (\<lambda>c. \<lparr>ck_storeCode = cr_storeCode c, ck_domain = cr_domain c, ck_adapterKey = cr_adapterKey c,
         ck_lastCompleted = dateText (cr_lastCompleted c), ck_lastCursor = cr_lastCursor c,
         ck_lastRunId = None, ck_fingerprint = Some (cr_fingerprint c)\<rparr>)
       (filter (\<lambda>c. cr_storeCode c \<in> set stores \<and> cr_domain c \<in> set domains) (lg_checkpoints lg))"

end
