(* ===== verification/Ledger_Properties.thy ===== *)
theory Ledger_Properties
  imports Backfill_Ledger
begin

text \<open>
  The ledger keeps its integrity under every operation of the repository: unique identities and
  grains, rows that satisfy their constraints, and checkpoints that cite one proven window.
\<close>

section \<open>The invariant\<close>

definition runs_inv :: "ledger \<Rightarrow> bool" where
  "runs_inv lg \<longleftrightarrow>
     distinct (map rr_id (lg_runs lg)) \<and> distinct (map rr_planHash (lg_runs lg)) \<and>
     (\<forall>r\<in>set (lg_runs lg). rr_id r < lg_nextRunId lg \<and> rr_mode r = EXECUTE \<and> run_row_ok r)"

definition windows_inv :: "ledger \<Rightarrow> bool" where
  "windows_inv lg \<longleftrightarrow>
     distinct (map wr_id (lg_windows lg)) \<and> distinct (map row_grain (lg_windows lg)) \<and>
     (\<forall>w\<in>set (lg_windows lg). wr_id w < lg_nextWindowId lg \<and> window_row_ok w \<and> run_exists lg (wr_runId w))"

definition checkpoint_grain :: "checkpoint_row \<Rightarrow> string \<times> string \<times> string" where
  "checkpoint_grain c = (cr_storeCode c, cr_domain c, cr_adapterKey c)"

definition checkpoints_inv :: "ledger \<Rightarrow> bool" where
  "checkpoints_inv lg \<longleftrightarrow>
     distinct (map checkpoint_grain (lg_checkpoints lg)) \<and>
     (\<forall>c\<in>set (lg_checkpoints lg). checkpoint_row_ok lg c)"

definition ledger_inv :: "ledger \<Rightarrow> bool" where
  "ledger_inv lg \<longleftrightarrow> runs_inv lg \<and> windows_inv lg \<and> checkpoints_inv lg"

definition empty_ledger :: ledger where
  [js_eval]: "empty_ledger = \<lparr>lg_runs = [], lg_windows = [], lg_checkpoints = [], lg_nextRunId = 1, lg_nextWindowId = 1\<rparr>"

lemma empty_ledger_inv: "ledger_inv empty_ledger"
  by (simp add: ledger_inv_def runs_inv_def windows_inv_def checkpoints_inv_def empty_ledger_def)

lemma find_SomeD: "find P xs = Some x \<Longrightarrow> x \<in> set xs \<and> P x"
  by (auto simp: find_Some_iff)

lemma find_NoneD: "find P xs = None \<Longrightarrow> x \<in> set xs \<Longrightarrow> \<not> P x"
  by (auto simp: find_None_iff)

text \<open>Replacing the elements with one key by an element with the same keys keeps the keys.\<close>

lemma map_replace_keys:
  assumes "\<And>x. x \<in> set xs \<Longrightarrow> P x \<Longrightarrow> k y = k x"
  shows "map k (map (\<lambda>x. if P x then y else x) xs) = map k xs"
  using assms by (induction xs) auto

lemma distinct_map_unique: "distinct (map k xs) \<Longrightarrow> x \<in> set xs \<Longrightarrow> y \<in> set xs \<Longrightarrow> k x = k y \<Longrightarrow> x = y"
  by (meson distinct_map inj_onD)

section \<open>Opening a run\<close>

lemma openRun_cases:
  assumes "openRun q i lg = Inr (h, lg')"
  obtains
    (fresh) t where "i = Instant t" "run_row_ok (new_run lg q t)"
      "\<forall>r\<in>set (lg_runs lg). \<not> (rr_planHash r = rq_planHash q \<and> rr_mode r = EXECUTE)"
      "h = \<lparr>rh_id = Some (lg_nextRunId lg), rh_resumed = False\<rparr>"
      "lg' = lg\<lparr>lg_runs := lg_runs lg @ [new_run lg q t], lg_nextRunId := lg_nextRunId lg + 1\<rparr>"
  | (replay) r where "r \<in> set (lg_runs lg)" "rr_planHash r = rq_planHash q" "rr_mode r = EXECUTE"
      "same_scope r q" "h = \<lparr>rh_id = Some (rr_id r), rh_resumed = True\<rparr>" "lg' = lg"
proof -
  obtain t where t: "i = Instant t" "run_row_ok (new_run lg q t)"
    using assms by (cases i) (auto simp: openRun_def ebind_Inr_iff)
  let ?hits = "filter (\<lambda>r. rr_planHash r = rq_planHash q \<and> rr_mode r = EXECUTE) (lg_runs lg)"
  show thesis
  proof (cases ?hits)
    case Nil
    then have "\<forall>r\<in>set (lg_runs lg). \<not> (rr_planHash r = rq_planHash q \<and> rr_mode r = EXECUTE)"
      by (simp add: filter_empty_conv)
    then show thesis using assms t Nil by (intro fresh [OF t]) (simp_all add: openRun_def)
  next
    case (Cons r rest)
    then have "r \<in> set ?hits" by simp
    then have "r \<in> set (lg_runs lg)" "rr_planHash r = rq_planHash q" "rr_mode r = EXECUTE" by simp_all
    then show thesis using assms t Cons
      by (intro replay [of r]) (cases rest; simp add: openRun_def split: if_splits)+
  qed
qed

lemma run_exists_append: "run_exists lg i \<Longrightarrow> run_exists (lg\<lparr>lg_runs := lg_runs lg @ rs, lg_nextRunId := n\<rparr>) i"
  by (auto simp: run_exists_def)

lemma checkpoint_row_ok_mono:
  assumes "checkpoint_row_ok lg c" "\<And>i. run_exists lg i \<Longrightarrow> run_exists lg' i"
    and "\<And>w. w \<in> set (lg_windows lg) \<Longrightarrow> cites c w \<Longrightarrow> \<exists>w'\<in>set (lg_windows lg'). cites c w'"
  shows "checkpoint_row_ok lg' c"
  using assms unfolding checkpoint_row_ok_def by blast

lemma openRun_inv:
  assumes "ledger_inv lg" "openRun q i lg = Inr (h, lg')"
  shows "ledger_inv lg'"
  using assms(2)
proof (cases rule: openRun_cases)
  case (fresh t)
  have runs: "runs_inv lg" using assms(1) by (simp add: ledger_inv_def)
  have "rq_planHash q \<notin> rr_planHash ` set (lg_runs lg)"
    using fresh(3) runs by (auto simp: runs_inv_def)
  moreover have "lg_nextRunId lg \<notin> rr_id ` set (lg_runs lg)" using runs by (force simp: runs_inv_def)
  ultimately have "runs_inv lg'"
    using runs fresh(2) by (fastforce simp: runs_inv_def fresh(5) new_run_def)
  moreover have "windows_inv lg'"
    using assms(1) run_exists_append by (auto simp: ledger_inv_def windows_inv_def fresh(5))
  moreover have "checkpoint_row_ok lg' c" if "checkpoint_row_ok lg c" for c
    unfolding fresh(5) by (rule checkpoint_row_ok_mono [OF that run_exists_append]) auto
  then have "checkpoints_inv lg'"
    using assms(1) by (simp add: ledger_inv_def checkpoints_inv_def) (simp add: fresh(5))
  ultimately show ?thesis by (simp add: ledger_inv_def)
next
  case (replay r)
  then show ?thesis using assms(1) by simp
qed

section \<open>Closing a run\<close>

lemma closeRun_cases:
  assumes "closeRun runId st i ec lg = Inr (k, lg')"
  obtains t r where "i = Instant t" "k = runId" "r \<in> set (lg_runs lg)" "rr_id r = runId" "rr_mode r = EXECUTE"
    "\<forall>r\<in>set (lg_runs lg). rr_id r = runId \<and> rr_mode r = EXECUTE \<longrightarrow>
       run_row_ok (r\<lparr>rr_status := st, rr_completedAt := Some t, rr_code := sanitized ec\<rparr>)"
    "lg' = lg\<lparr>lg_runs := map (\<lambda>r. if rr_id r = runId \<and> rr_mode r = EXECUTE
       then r\<lparr>rr_status := st, rr_completedAt := Some t, rr_code := sanitized ec\<rparr> else r) (lg_runs lg)\<rparr>"
proof -
  obtain t where t: "i = Instant t" using assms by (cases i) (auto simp: closeRun_def)
  have len: "length (filter (\<lambda>r. rr_id r = runId \<and> rr_mode r = EXECUTE) (lg_runs lg)) = 1"
    using assms by (auto simp: closeRun_def t Let_def split: if_splits)
  then obtain r where r: "r \<in> set (lg_runs lg)" "rr_id r = runId" "rr_mode r = EXECUTE"
    by (metis (mono_tags, lifting) filter_empty_conv list.size(3) zero_neq_one)
  show thesis
    using that [OF t _ r] assms by (auto simp: closeRun_def t Let_def split: if_splits)
qed

lemma closeRun_inv:
  assumes "ledger_inv lg" "closeRun runId st i ec lg = Inr (k, lg')"
  shows "ledger_inv lg'"
  using assms(2)
proof (cases rule: closeRun_cases)
  case (1 t r)
  let ?f = "\<lambda>r. if rr_id r = runId \<and> rr_mode r = EXECUTE
    then r\<lparr>rr_status := st, rr_completedAt := Some t, rr_code := sanitized ec\<rparr> else r"
  have keys: "rr_id (?f r) = rr_id r" "rr_planHash (?f r) = rr_planHash r" "rr_mode (?f r) = rr_mode r" for r
    by simp_all
  have exists: "run_exists lg' i = run_exists lg i" for i
    by (simp add: run_exists_def 1(7) del: if_image_distrib) (metis (no_types, lifting) keys)
  have "runs_inv lg'"
    using assms(1) 1(6) by (auto simp: ledger_inv_def runs_inv_def 1(7) o_def keys)
  moreover have "windows_inv lg'"
    using assms(1) by (simp add: ledger_inv_def windows_inv_def exists) (simp add: 1(7))
  moreover have "checkpoints_inv lg'"
    using assms(1) by (simp add: ledger_inv_def checkpoints_inv_def checkpoint_row_ok_def exists) (simp add: 1(7))
  ultimately show ?thesis by (simp add: ledger_inv_def)
qed

section \<open>Committing a window\<close>

lemma upsertWindow_cases:
  assumes "upsertWindow runId w oc n lg = Inr (i, lg')"
  obtains
    (insert) "\<forall>r\<in>set (lg_windows lg). row_grain r \<noteq> row_grain (new_window_row (lg_nextWindowId lg) runId w oc n)"
      "window_row_ok (new_window_row (lg_nextWindowId lg) runId w oc n)" "run_exists lg runId"
      "i = lg_nextWindowId lg"
      "lg' = lg\<lparr>lg_windows := lg_windows lg @ [new_window_row (lg_nextWindowId lg) runId w oc n],
                lg_nextWindowId := lg_nextWindowId lg + 1\<rparr>"
  | (update) old where "old \<in> set (lg_windows lg)"
      "row_grain old = row_grain (new_window_row (lg_nextWindowId lg) runId w oc n)"
      "window_row_ok (new_window_row (lg_nextWindowId lg) runId w oc n)"
      "window_row_ok (merge_window_row old (new_window_row (lg_nextWindowId lg) runId w oc n))"
      "i = wr_id old"
      "lg' = lg\<lparr>lg_windows := map (\<lambda>r. if wr_id r = wr_id old
         then merge_window_row old (new_window_row (lg_nextWindowId lg) runId w oc n) else r) (lg_windows lg)\<rparr>"
      "citations_hold lg'"
proof -
  let ?new = "new_window_row (lg_nextWindowId lg) runId w oc n"
  have ok: "window_row_ok ?new" using assms by (auto simp: upsertWindow_def Let_def split: if_splits)
  have id: "wr_id ?new = lg_nextWindowId lg" by (simp add: new_window_row_def)
  show thesis
  proof (cases "find (\<lambda>r. row_grain r = row_grain ?new) (lg_windows lg)")
    case None
    then have "\<forall>r\<in>set (lg_windows lg). row_grain r \<noteq> row_grain ?new" by (auto dest: find_NoneD)
    then show thesis using assms ok None id
      by (intro insert) (auto simp: upsertWindow_def Let_def split: if_splits)
  next
    case (Some old)
    note old = find_SomeD [OF Some]
    show thesis using assms ok Some
      by (intro update [OF old [THEN conjunct1] old [THEN conjunct2] ok])
        (auto simp: upsertWindow_def Let_def split: if_splits)
  qed
qed

lemma merge_keys [simp]:
  "wr_id (merge_window_row old new) = wr_id old" "row_grain (merge_window_row old new) = row_grain old"
  "wr_runId (merge_window_row old new) = wr_runId old"
  by (simp_all add: merge_window_row_def row_grain_def)

lemma new_row_keys [simp]:
  "wr_id (new_window_row i runId w oc n) = i" "wr_runId (new_window_row i runId w oc n) = runId"
  by (simp_all add: new_window_row_def)

lemma upsertWindow_frame:
  assumes "upsertWindow runId w oc n lg = Inr (i, lg')"
  shows "lg_runs lg' = lg_runs lg" "lg_checkpoints lg' = lg_checkpoints lg" "lg_nextRunId lg' = lg_nextRunId lg"
  using assms by (cases rule: upsertWindow_cases; simp)+

lemma run_exists_frame: "lg_runs lg' = lg_runs lg \<Longrightarrow> run_exists lg' i = run_exists lg i"
  by (simp add: run_exists_def)

lemma upsertWindow_inv:
  assumes "ledger_inv lg" "upsertWindow runId w oc n lg = Inr (i, lg')"
  shows "ledger_inv lg'"
proof -
  note frame = upsertWindow_frame [OF assms(2)]
  note exists = run_exists_frame [OF frame(1)]
  have w: "windows_inv lg" and c: "checkpoints_inv lg" using assms(1) by (simp_all add: ledger_inv_def)
  have runs: "runs_inv lg'" using assms(1) by (simp add: ledger_inv_def runs_inv_def frame)
  have "windows_inv lg' \<and> citations_hold lg'"
    using assms(2)
  proof (cases rule: upsertWindow_cases)
    case insert
    have "lg_nextWindowId lg \<notin> wr_id ` set (lg_windows lg)" using w by (force simp: windows_inv_def)
    moreover have "row_grain (new_window_row (lg_nextWindowId lg) runId w oc n) \<notin> row_grain ` set (lg_windows lg)"
      using insert(1) by auto
    ultimately have "windows_inv lg'"
      using w insert(2,3) unfolding windows_inv_def exists
      by (fastforce simp: insert(5))
    moreover have "citations_hold lg'"
      using c by (auto simp: insert(5) citations_hold_def checkpoints_inv_def checkpoint_row_ok_def)
    ultimately show ?thesis ..
  next
    case (update old)
    let ?row = "merge_window_row old (new_window_row (lg_nextWindowId lg) runId w oc n)"
    have one: "r \<in> set (lg_windows lg) \<Longrightarrow> wr_id r = wr_id old \<Longrightarrow> r = old" for r
      using w update(1) distinct_map_unique unfolding windows_inv_def by metis
    have wins: "lg_windows lg' = map (\<lambda>r. if wr_id r = wr_id old then ?row else r) (lg_windows lg)"
      by (simp add: update(6))
    have "map wr_id (lg_windows lg') = map wr_id (lg_windows lg)"
      unfolding wins by (rule map_replace_keys) (simp add: one)
    moreover have "map row_grain (lg_windows lg') = map row_grain (lg_windows lg)"
      unfolding wins by (rule map_replace_keys) (use one in fastforce)
    moreover have "wr_id r < lg_nextWindowId lg \<and> window_row_ok r \<and> run_exists lg (wr_runId r)"
      if "r \<in> set (lg_windows lg')" for r
      using that w update(1,4) unfolding wins windows_inv_def by (auto split: if_splits)
    moreover have "lg_nextWindowId lg' = lg_nextWindowId lg" by (simp add: update(6))
    ultimately have "windows_inv lg'"
      using w unfolding windows_inv_def exists by (simp del: list.map_comp map_map)
    with update(7) show ?thesis by (intro conjI)
  qed
  moreover have "checkpoints_inv lg'" if "citations_hold lg'"
    using c that by (auto simp: checkpoints_inv_def checkpoint_row_ok_def citations_hold_def exists frame)
  ultimately show ?thesis using runs by (simp add: ledger_inv_def)
qed

lemma new_checkpoint_grain:
  "new_checkpoint_row i st = Some new \<Longrightarrow>
     checkpoint_grain new = (ck_storeCode st, ck_domain st, ck_adapterKey st) \<and>
     cr_lastCompleted new = ck_lastCompleted st"
  by (auto simp: new_checkpoint_row_def checkpoint_grain_def split: option.splits)

lemma same_grain_iff: "same_grain a b \<longleftrightarrow> checkpoint_grain a = checkpoint_grain b"
  by (auto simp: same_grain_def checkpoint_grain_def)

lemma upsertCheckpoint_cases:
  assumes "upsertCheckpoint i st lg = Inr (adv, lg')"
  obtains
    (insert) new where "new_checkpoint_row i st = Some new" "checkpoint_row_ok lg new" "adv"
      "\<forall>c\<in>set (lg_checkpoints lg). checkpoint_grain c \<noteq> checkpoint_grain new"
      "lg' = lg\<lparr>lg_checkpoints := lg_checkpoints lg @ [new]\<rparr>"
  | (keep) old new where "new_checkpoint_row i st = Some new" "old \<in> set (lg_checkpoints lg)" "\<not> adv"
      "checkpoint_grain old = checkpoint_grain new"
      "\<not> day_number (cr_lastCompleted old) < day_number (cr_lastCompleted new)" "lg' = lg"
  | (advance) old new where "new_checkpoint_row i st = Some new" "old \<in> set (lg_checkpoints lg)" "adv"
      "checkpoint_grain old = checkpoint_grain new" "checkpoint_row_ok lg new"
      "day_number (cr_lastCompleted old) < day_number (cr_lastCompleted new)"
      "lg' = lg\<lparr>lg_checkpoints := map (\<lambda>c. if same_grain new c then new else c) (lg_checkpoints lg)\<rparr>"
proof -
  obtain new where new: "new_checkpoint_row i st = Some new"
    using assms by (auto simp: upsertCheckpoint_def split: option.splits)
  show thesis
  proof (cases "find (same_grain new) (lg_checkpoints lg)")
    case None
    then have "\<forall>c\<in>set (lg_checkpoints lg). checkpoint_grain c \<noteq> checkpoint_grain new"
      by (auto dest: find_NoneD simp: same_grain_iff)
    then show thesis using assms new None
      by (intro insert [OF new]) (simp_all add: upsertCheckpoint_def split: if_splits)
  next
    case (Some old)
    have old: "old \<in> set (lg_checkpoints lg)" "checkpoint_grain old = checkpoint_grain new"
      using find_SomeD [OF Some] by (simp_all add: same_grain_iff)
    show thesis
    proof (cases "day_number (cr_lastCompleted old) < day_number (cr_lastCompleted new)")
      case True
      then show thesis using assms new Some
        by (intro advance [OF new old(1) _ old(2)]) (simp_all add: upsertCheckpoint_def split: if_splits)
    next
      case False
      then show thesis using assms new Some
        by (intro keep [OF new old(1) _ old(2)]) (simp_all add: upsertCheckpoint_def split: if_splits)
    qed
  qed
qed

lemma upsertCheckpoint_frame:
  assumes "upsertCheckpoint i st lg = Inr (adv, lg')"
  shows "lg_runs lg' = lg_runs lg" "lg_windows lg' = lg_windows lg" "lg_nextRunId lg' = lg_nextRunId lg"
    "lg_nextWindowId lg' = lg_nextWindowId lg"
  using assms by (cases rule: upsertCheckpoint_cases; simp)+

lemma replace_grain_map:
  "map checkpoint_grain (map (\<lambda>c. if same_grain new c then new else c) cs) = map checkpoint_grain cs"
  by (rule map_replace_keys) (simp add: same_grain_iff)

lemma upsertCheckpoint_inv:
  assumes "ledger_inv lg" "upsertCheckpoint i st lg = Inr (adv, lg')"
  shows "ledger_inv lg'"
proof -
  note frame = upsertCheckpoint_frame [OF assms(2)]
  have c: "checkpoints_inv lg" using assms(1) by (simp add: ledger_inv_def)
  have ok: "checkpoint_row_ok lg' c = checkpoint_row_ok lg c" for c
    by (simp add: checkpoint_row_ok_def frame run_exists_frame [OF frame(1)])
  have "checkpoints_inv lg'"
    using assms(2)
  proof (cases rule: upsertCheckpoint_cases)
    case (insert new)
    then have "checkpoint_grain new \<notin> checkpoint_grain ` set (lg_checkpoints lg)" by force
    with c insert(2) show ?thesis unfolding checkpoints_inv_def ok by (simp add: insert(5))
  next
    case (keep old new)
    with c show ?thesis by simp
  next
    case (advance old new)
    have "lg_checkpoints lg' = map (\<lambda>c. if same_grain new c then new else c) (lg_checkpoints lg)"
      by (simp add: advance(7))
    with c advance(5) show ?thesis
      unfolding checkpoints_inv_def ok by (simp only: replace_grain_map) auto
  qed
  then show ?thesis
    using assms(1) by (simp add: ledger_inv_def runs_inv_def windows_inv_def frame run_exists_frame [OF frame(1)])
qed

lemma commit_cases:
  assumes "commitWindowOutcome runId w oc n cs lg = Inr (ps, lg')"
  obtains i lg1 where "upsertWindow runId w oc n lg = Inr (i, lg1)" "ps_persisted ps" "ps_windowId ps = Some i"
    "cs = None \<and> lg' = lg1 \<and> \<not> ps_advanced ps \<or>
     (\<exists>st. cs = Some st \<and> upsertCheckpoint i st lg1 = Inr (ps_advanced ps, lg'))"
  using assms by (fastforce simp: commitWindowOutcome_def ebind_Inr_iff split: option.splits)

lemma commit_inv:
  assumes "ledger_inv lg" "commitWindowOutcome runId w oc n cs lg = Inr (ps, lg')"
  shows "ledger_inv lg'"
proof (rule commit_cases [OF assms(2)])
  fix i lg1
  assume u: "upsertWindow runId w oc n lg = Inr (i, lg1)"
    and c: "cs = None \<and> lg' = lg1 \<and> \<not> ps_advanced ps \<or>
      (\<exists>st. cs = Some st \<and> upsertCheckpoint i st lg1 = Inr (ps_advanced ps, lg'))"
  have "ledger_inv lg1" by (rule upsertWindow_inv [OF assms(1) u])
  with c show ?thesis using upsertCheckpoint_inv by blast
qed

lemma commit_runs: "commitWindowOutcome runId w oc n cs lg = Inr (ps, lg') \<Longrightarrow> lg_runs lg' = lg_runs lg"
  by (erule commit_cases) (metis upsertWindow_frame(1) upsertCheckpoint_frame(1))

section \<open>Checkpoints move forward\<close>

definition checkpoint_at :: "ledger \<Rightarrow> string \<times> string \<times> string \<Rightarrow> checkpoint_row option" where
  [js_eval]: "checkpoint_at lg g = find (\<lambda>c. checkpoint_grain c = g) (lg_checkpoints lg)"

text \<open>The day number of the completed date of a grain.\<close>

definition completed_day :: "ledger \<Rightarrow> string \<times> string \<times> string \<Rightarrow> int option" where
  [js_eval]: "completed_day lg g = map_option (\<lambda>c. day_number (cr_lastCompleted c)) (checkpoint_at lg g)"

fun opt_le :: "int option \<Rightarrow> int option \<Rightarrow> bool" where
  "opt_le None _ = True"
| "opt_le (Some a) None = False"
| "opt_le (Some a) (Some b) = (a \<le> b)"

lemma opt_le_refl [simp]: "opt_le a a"
  by (cases a) simp_all

lemma opt_le_total: "\<not> opt_le a b \<Longrightarrow> opt_le b a"
  by (cases a; cases b) auto

lemma opt_le_trans: "opt_le a b \<Longrightarrow> opt_le b c \<Longrightarrow> opt_le a c"
  by (cases a; cases b; cases c) auto

lemma checkpoint_at_iff:
  assumes "checkpoints_inv lg"
  shows "checkpoint_at lg g = Some c \<longleftrightarrow> c \<in> set (lg_checkpoints lg) \<and> checkpoint_grain c = g"
proof
  assume c: "c \<in> set (lg_checkpoints lg) \<and> checkpoint_grain c = g"
  then obtain d where d: "checkpoint_at lg g = Some d"
    by (cases "checkpoint_at lg g") (auto simp: checkpoint_at_def dest: find_NoneD)
  then have "d \<in> set (lg_checkpoints lg)" "checkpoint_grain d = g"
    by (auto simp: checkpoint_at_def dest: find_SomeD)
  then have "d = c"
    using assms c distinct_map_unique [of checkpoint_grain "lg_checkpoints lg" d c]
    by (simp add: checkpoints_inv_def)
  with d show "checkpoint_at lg g = Some c" by simp
qed (auto simp: checkpoint_at_def dest: find_SomeD)

lemma option_eqI: "(\<And>x. a = Some x \<longleftrightarrow> b = Some x) \<Longrightarrow> a = b"
  by (cases a; cases b) auto

lemma upsertCheckpoint_at:
  assumes "ledger_inv lg" "upsertCheckpoint i st lg = Inr (adv, lg')"
    and "new_checkpoint_row i st = Some new"
  shows "checkpoint_at lg' g = (if adv \<and> g = checkpoint_grain new then Some new else checkpoint_at lg g)"
    and "adv \<longleftrightarrow> (case checkpoint_at lg (checkpoint_grain new) of None \<Rightarrow> True
       | Some c \<Rightarrow> day_number (cr_lastCompleted c) < day_number (cr_lastCompleted new))"
proof -
  have inv: "checkpoints_inv lg" "checkpoints_inv lg'"
    using assms(1) upsertCheckpoint_inv [OF assms(1,2)] by (simp_all add: ledger_inv_def)
  note at = checkpoint_at_iff [OF inv(1)] and at' = checkpoint_at_iff [OF inv(2)]
  have *: "checkpoint_at lg' g = (if adv \<and> g = checkpoint_grain new then Some new else checkpoint_at lg g) \<and>
      (adv \<longleftrightarrow> (case checkpoint_at lg (checkpoint_grain new) of None \<Rightarrow> True
       | Some c \<Rightarrow> day_number (cr_lastCompleted c) < day_number (cr_lastCompleted new)))"
    using assms(2)
  proof (cases rule: upsertCheckpoint_cases)
    case (insert new')
    then have n: "new' = new" using assms(3) by simp
    have "checkpoint_at lg (checkpoint_grain new) = None"
      using insert(4) by (auto simp: checkpoint_at_def find_None_iff n)
    moreover have "checkpoint_at lg' g = (if g = checkpoint_grain new then Some new else checkpoint_at lg g)"
      by (rule option_eqI) (use insert(4) arg_cong [OF insert(5), of lg_checkpoints] in \<open>auto simp: at at' n\<close>)
    ultimately show ?thesis using insert(3) by simp
  next
    case (keep old new')
    then have "checkpoint_at lg (checkpoint_grain new) = Some old" using assms(3) by (simp add: at)
    with keep assms(3) show ?thesis by simp
  next
    case (advance old new')
    then have n: "new' = new" using assms(3) by simp
    have old: "checkpoint_at lg (checkpoint_grain new) = Some old" using advance(2,4) by (simp add: at n)
    have "checkpoint_at lg' g = (if g = checkpoint_grain new then Some new else checkpoint_at lg g)"
      by (rule option_eqI)
        (use advance(2,4) arg_cong [OF advance(7), of lg_checkpoints] in \<open>auto simp: at at' n same_grain_iff\<close>)
    then show ?thesis using advance(3,6) old by (simp add: n)
  qed
  then show "checkpoint_at lg' g = (if adv \<and> g = checkpoint_grain new then Some new else checkpoint_at lg g)"
    by blast
  from * show "adv \<longleftrightarrow> (case checkpoint_at lg (checkpoint_grain new) of None \<Rightarrow> True
       | Some c \<Rightarrow> day_number (cr_lastCompleted c) < day_number (cr_lastCompleted new))" by blast
qed

text \<open>What a commit does to the completed day of every grain.\<close>

lemma commit_completed:
  assumes "ledger_inv lg" "commitWindowOutcome runId w oc n cs lg = Inr (ps, lg')"
  shows "case cs of None \<Rightarrow> \<not> ps_advanced ps \<and> completed_day lg' g = completed_day lg g
    | Some st \<Rightarrow> let h = (ck_storeCode st, ck_domain st, ck_adapterKey st); d = day_number (ck_lastCompleted st) in
        (ps_advanced ps \<longleftrightarrow> \<not> opt_le (Some d) (completed_day lg h)) \<and>
        completed_day lg' g = (if ps_advanced ps \<and> g = h then Some d else completed_day lg g)"
proof (rule commit_cases [OF assms(2)])
  fix i lg1
  assume u: "upsertWindow runId w oc n lg = Inr (i, lg1)"
    and c: "cs = None \<and> lg' = lg1 \<and> \<not> ps_advanced ps \<or>
      (\<exists>st. cs = Some st \<and> upsertCheckpoint i st lg1 = Inr (ps_advanced ps, lg'))"
  have inv: "ledger_inv lg1" by (rule upsertWindow_inv [OF assms(1) u])
  have same: "checkpoint_at lg1 h = checkpoint_at lg h" for h
    by (simp add: checkpoint_at_def upsertWindow_frame [OF u])
  show ?thesis
  proof (cases cs)
    case None
    then show ?thesis using c same by (simp add: completed_day_def)
  next
    case (Some st)
    then have up: "upsertCheckpoint i st lg1 = Inr (ps_advanced ps, lg')" using c by simp
    then obtain new where new: "new_checkpoint_row i st = Some new"
      by (cases rule: upsertCheckpoint_cases) auto
    note at = upsertCheckpoint_at [OF inv up new]
    show ?thesis
      using at(1) [of g] at(2) new_checkpoint_grain [OF new]
      by (auto simp: Some Let_def completed_day_def same split: option.splits)
  qed
qed

section \<open>Steps of the ledger\<close>

inductive ledger_step :: "ledger \<Rightarrow> ledger \<Rightarrow> bool" where
  step_open: "openRun q i lg = Inr (h, lg') \<Longrightarrow> ledger_step lg lg'"
| step_commit: "commitWindowOutcome runId w oc n cs lg = Inr (ps, lg') \<Longrightarrow> ledger_step lg lg'"
| step_close: "closeRun runId st i ec lg = Inr (k, lg') \<Longrightarrow> ledger_step lg lg'"

lemma ledger_step_inv: "ledger_step lg lg' \<Longrightarrow> ledger_inv lg \<Longrightarrow> ledger_inv lg'"
  by (induction rule: ledger_step.induct) (blast intro: openRun_inv commit_inv closeRun_inv)+

lemma ledger_steps_inv: "ledger_step\<^sup>*\<^sup>* lg lg' \<Longrightarrow> ledger_inv lg \<Longrightarrow> ledger_inv lg'"
  by (induction rule: rtranclp_induct) (auto intro: ledger_step_inv)

lemma checkpoint_at_frame: "lg_checkpoints lg' = lg_checkpoints lg \<Longrightarrow> completed_day lg' g = completed_day lg g"
  by (simp add: completed_day_def checkpoint_at_def)

lemma ledger_step_forward:
  assumes "ledger_step lg lg'" "ledger_inv lg"
  shows "opt_le (completed_day lg g) (completed_day lg' g)"
  using assms
proof (cases rule: ledger_step.cases)
  case (step_open q i h)
  then have "lg_checkpoints lg' = lg_checkpoints lg" by (cases rule: openRun_cases) simp_all
  from checkpoint_at_frame [OF this] show ?thesis by simp
next
  case (step_commit runId w oc n cs ps)
  note post = commit_completed [OF assms(2) step_commit(1), of g]
  show ?thesis
  proof (cases cs)
    case None
    then show ?thesis using post by simp
  next
    case (Some st)
    let ?h = "(ck_storeCode st, ck_domain st, ck_adapterKey st)"
    show ?thesis
    proof (cases "ps_advanced ps \<and> g = ?h")
      case True
      then have "completed_day lg' g = Some (day_number (ck_lastCompleted st))"
        "\<not> opt_le (Some (day_number (ck_lastCompleted st))) (completed_day lg g)"
        using post by (simp_all add: Some Let_def)
      then show ?thesis using opt_le_total by metis
    next
      case False
      then have "completed_day lg' g = completed_day lg g" using post by (auto simp: Some Let_def)
      then show ?thesis by simp
    qed
  qed
next
  case (step_close runId st i ec k)
  then have "lg_checkpoints lg' = lg_checkpoints lg" by (cases rule: closeRun_cases) simp_all
  from checkpoint_at_frame [OF this] show ?thesis by simp
qed

lemma ledger_steps_forward:
  "ledger_step\<^sup>*\<^sup>* lg lg' \<Longrightarrow> ledger_inv lg \<Longrightarrow> opt_le (completed_day lg g) (completed_day lg' g)"
proof (induction rule: rtranclp_induct)
  case (step y z)
  then show ?case using ledger_step_forward [OF step(2) ledger_steps_inv [OF step(1,4)]] opt_le_trans by blast
qed simp

section \<open>Replays\<close>

text \<open>A run keeps its identity, its hash and its scope.\<close>

definition same_run :: "run_row \<Rightarrow> run_row \<Rightarrow> bool" where
  "same_run r r' \<longleftrightarrow> rr_id r' = rr_id r \<and> rr_planHash r' = rr_planHash r \<and> rr_mode r' = rr_mode r \<and>
     rr_domains r' = rr_domains r \<and> rr_stores r' = rr_stores r \<and> rr_from r' = rr_from r \<and>
     rr_to r' = rr_to r \<and> rr_span r' = rr_span r \<and> rr_planned r' = rr_planned r"

lemma ledger_step_run:
  assumes "ledger_step lg lg'" "r \<in> set (lg_runs lg)"
  shows "\<exists>r'\<in>set (lg_runs lg'). same_run r r'"
  using assms(1)
proof (cases rule: ledger_step.cases)
  case (step_open q i h)
  then show ?thesis using assms(2) by (cases rule: openRun_cases) (auto simp: same_run_def)
next
  case (step_commit runId w oc n cs ps)
  then have "lg_runs lg' = lg_runs lg" by (rule commit_runs)
  then show ?thesis using assms(2) by (auto simp: same_run_def)
next
  case (step_close runId st i ec k)
  then show ?thesis
  proof (cases rule: closeRun_cases)
    case (1 t s)
    let ?f = "\<lambda>r. if rr_id r = runId \<and> rr_mode r = EXECUTE
      then r\<lparr>rr_status := st, rr_completedAt := Some t, rr_code := sanitized ec\<rparr> else r"
    have "lg_runs lg' = map ?f (lg_runs lg)" by (simp add: 1(7))
    then have "?f r \<in> set (lg_runs lg')" using assms(2) by (simp del: if_image_distrib)
    moreover have "same_run r (?f r)" by (simp add: same_run_def)
    ultimately show ?thesis by blast
  qed
qed

lemma ledger_steps_run:
  "ledger_step\<^sup>*\<^sup>* lg lg' \<Longrightarrow> r \<in> set (lg_runs lg) \<Longrightarrow> \<exists>r'\<in>set (lg_runs lg'). same_run r r'"
proof (induction rule: rtranclp_induct)
  case base
  then show ?case by (auto simp: same_run_def)
next
  case (step y z)
  then obtain r1 where r1: "r1 \<in> set (lg_runs y)" "same_run r r1" by blast
  obtain r2 where "r2 \<in> set (lg_runs z)" "same_run r1 r2" using ledger_step_run [OF step(2) r1(1)] by blast
  then show ?case using r1(2) by (auto simp: same_run_def)
qed

lemma filter_single:
  assumes "distinct (map k xs)" "x \<in> set xs" "P x" "\<And>y. y \<in> set xs \<Longrightarrow> P y \<Longrightarrow> k y = k x"
  shows "filter P xs = [x]"
proof -
  have "y = x" if "y \<in> set xs" "P y" for y
    by (rule distinct_map_unique [OF assms(1) that(1) assms(2)]) (rule assms(4) [OF that])
  then have sub: "set (filter P xs) \<subseteq> {x}" by auto
  have "distinct xs" using assms(1) by (simp add: distinct_map)
  then have "filter P xs = [] \<or> filter P xs = [x]" by (intro at_most_one [OF sub] distinct_filter)
  moreover have "x \<in> set (filter P xs)" using assms(2,3) by simp
  ultimately show ?thesis by (cases "filter P xs") simp_all
qed

lemma openRun_known:
  assumes "ledger_inv lg" "r \<in> set (lg_runs lg)" "rr_planHash r = rq_planHash q" "same_scope r q"
    and "run_row_ok (new_run lg0 q t0)"
  shows "openRun q (Instant t) lg = Inr (\<lparr>rh_id = Some (rr_id r), rh_resumed = True\<rparr>, lg)"
proof -
  have runs: "distinct (map rr_planHash (lg_runs lg))" "\<forall>r\<in>set (lg_runs lg). rr_mode r = EXECUTE"
    using assms(1) by (simp_all add: ledger_inv_def runs_inv_def)
  have "filter (\<lambda>r. rr_planHash r = rq_planHash q \<and> rr_mode r = EXECUTE) (lg_runs lg) = [r]"
    by (rule filter_single [OF runs(1) assms(2)]) (use assms(2,3) runs(2) in auto)
  moreover have "run_row_ok (new_run lg q t) = run_row_ok (new_run lg0 q t0)"
    by (simp add: run_row_ok_def new_run_def optional_def)
  ultimately show ?thesis using assms(4,5) by (simp add: openRun_def)
qed

section \<open>Properties\<close>

definition sample_run :: run_request where
  [js_eval]: "sample_run =
     \<lparr>rq_planHash = replicate 64 CHR ''a'', rq_domains = [''purchase-orders''], rq_stores = [''ZS0005''],
      rq_from = ''2026-02-27'', rq_to = ''2026-03-01'', rq_span = 1, rq_planned = 3,
      rq_createdBy = ''ops:wang''\<rparr>"

definition sample_opened :: ledger where
  [js_eval]: "sample_opened =
     empty_ledger\<lparr>lg_runs := [new_run empty_ledger sample_run 1772500000000], lg_nextRunId := 2\<rparr>"

lemma sample_open:
  "openRun sample_run (Instant 1772500000000) empty_ledger =
    Inr (\<lparr>rh_id = Some 1, rh_resumed = False\<rparr>, sample_opened)"
  by code_simp

lemma sample_opened_step: "ledger_step empty_ledger sample_opened"
  by (rule step_open [OF sample_open])

lemma sample_opened_steps: "ledger_step\<^sup>*\<^sup>* empty_ledger sample_opened"
  by (rule r_into_rtranclp [where r = ledger_step]) (rule sample_opened_step)

text \<open>
  C3. Checkpoints never regress: along any sequence of operations the completed date of every
  store, domain and adapter only grows, and a checkpoint is never removed.
\<close>

theorem checkpoints_never_regress:
  assumes "ledger_step\<^sup>*\<^sup>* lg lg'" "ledger_inv lg"
  shows "opt_le (completed_day lg g) (completed_day lg' g)"
  by (rule ledger_steps_forward [OF assms])

theorem checkpoints_never_regress_witness:
  "opt_le (completed_day empty_ledger (''ZS0005'', ''purchase-orders'', ''openapi.purchase-orders.v1''))
     (completed_day sample_opened (''ZS0005'', ''purchase-orders'', ''openapi.purchase-orders.v1''))"
  by (rule checkpoints_never_regress [OF _ empty_ledger_inv]) (rule sample_opened_steps)

text \<open>
  A commit reports that the checkpoint advanced exactly when a checkpoint state was given and
  its date is after the stored one; then it is stored, and no other grain changes.
\<close>

theorem commit_advances_exactly:
  assumes "ledger_inv lg" "commitWindowOutcome runId w oc n cs lg = Inr (ps, lg')"
  shows "case cs of None \<Rightarrow> \<not> ps_advanced ps \<and> completed_day lg' g = completed_day lg g
    | Some st \<Rightarrow> let h = (ck_storeCode st, ck_domain st, ck_adapterKey st); d = day_number (ck_lastCompleted st) in
        (ps_advanced ps \<longleftrightarrow> \<not> opt_le (Some d) (completed_day lg h)) \<and>
        completed_day lg' g = (if ps_advanced ps \<and> g = h then Some d else completed_day lg g)"
  by (rule commit_completed [OF assms])

text \<open>A purchase-order window, a result that proves it, and the checkpoint state it leads to.\<close>

definition sample_window :: bf_window where
  [js_eval]: "sample_window =
     \<lparr>win_storeCode = ''ZS0005'', win_domain = ''purchase-orders'',
      win_adapterKey = ''openapi.purchase-orders.v1'', win_capabilityStatus = VERIFIED,
      win_windowGrain = BUSINESS_DATE, win_windowStart = ''2026-02-28'', win_windowEnd = ''2026-03-01'',
      win_windowKey = replicate 64 CHR ''b'', win_executable = True, win_blockedReasonCode = None,
      win_dailyHistoryReconstructable = True, win_maxAttempts = 3, win_maxPagesPerWindow = 200,
      win_maxRowsPerWindow = 200000\<rparr>"

definition sample_result :: jsv where
  [js_eval]: "sample_result = JObj
     [(''ok'', JBool True), (''acceptedRowCount'', JNum (NInt 7)), (''persistedRowCount'', JNum (NInt 7)),
      (''rejectedRowCount'', JNum (NInt 0)), (''illegalDecimalCount'', JNum (NInt 0)),
      (''unknownMetricCount'', JNum (NInt 0)), (''expectedPageCount'', JNum (NInt 1)),
      (''observedPageCount'', JNum (NInt 1)), (''schemaFingerprint'', JStr (replicate 64 CHR ''f'')),
      (''sourceBusinessWatermark'', JStr ''2026-02-28''), (''businessDates'', JArr [])]"

definition sample_commit :: "(persistence \<times> ledger) result" where
  [js_eval]: "sample_commit =
     (let oc = evaluateWindowOutcome sample_window sample_result None
      in commitWindowOutcome 1 sample_window oc 1 (nextCheckpointState sample_window oc None (Some 1)) sample_opened)"

lemma sample_commit_result:
  "case sample_commit of Inl _ \<Rightarrow> False
   | Inr (ps, lg') \<Rightarrow> ps_advanced ps \<and> map wr_attempts (lg_windows lg') = [1] \<and>
       map cr_lastCompleted (lg_checkpoints lg') = [''2026-02-28'']"
  by code_simp

theorem commit_advances_exactly_witness:
  "\<exists>ps lg'. sample_commit = Inr (ps, lg') \<and>
    completed_day lg' (''ZS0005'', ''purchase-orders'', ''openapi.purchase-orders.v1'') =
      Some (day_number ''2026-02-28'')"
proof -
  obtain ps lg' where c: "sample_commit = Inr (ps, lg')" "ps_advanced ps"
    using sample_commit_result by (auto split: sum.splits)
  let ?oc = "evaluateWindowOutcome sample_window sample_result None"
  have st: "nextCheckpointState sample_window ?oc None (Some 1) = Some
      \<lparr>ck_storeCode = ''ZS0005'', ck_domain = ''purchase-orders'', ck_adapterKey = ''openapi.purchase-orders.v1'',
       ck_lastCompleted = ''2026-02-28'', ck_lastCursor = ''2026-03-01'', ck_lastRunId = Some 1,
       ck_fingerprint = Some (replicate 64 CHR ''f'')\<rparr>" by code_simp
  have inv: "ledger_inv sample_opened" by (rule ledger_step_inv [OF sample_opened_step empty_ledger_inv])
  show ?thesis
    using commit_advances_exactly [OF inv c(1) [unfolded sample_commit_def Let_def st],
        of "(''ZS0005'', ''purchase-orders'', ''openapi.purchase-orders.v1'')"] c
    by (intro exI [of _ ps] exI [of _ lg']) (simp add: Let_def)
qed

text \<open>
  Opening a run is idempotent: after a run was opened, and whatever the repository did since,
  opening the same request again returns the same run as resumed and changes nothing. (The dates
  are taken from the year 1000 on; the driver prints earlier years with fewer digits.)
\<close>

theorem open_run_replays:
  assumes "ledger_inv lg" "openRun q (Instant t) lg = Inr (h, lg1)" "ledger_step\<^sup>*\<^sup>* lg1 lg2"
    and "dateText (rq_from q) = rq_from q" "dateText (rq_to q) = rq_to q"
  shows "openRun q (Instant u) lg2 = Inr (\<lparr>rh_id = rh_id h, rh_resumed = True\<rparr>, lg2)"
proof -
  have ok: "run_row_ok (new_run lg q t)" using assms(2) by (simp add: openRun_def ebind_Inr_iff)
  obtain r where r: "r \<in> set (lg_runs lg1)" "rr_planHash r = rq_planHash q" "same_scope r q"
    "rh_id h = Some (rr_id r)"
    using assms(2)
  proof (cases rule: openRun_cases)
    case (fresh t')
    show ?thesis
      by (rule that [of "new_run lg q t'"]) (simp_all add: fresh new_run_def same_scope_def assms(4,5))
  next
    case (replay r)
    then show ?thesis by (intro that [of r]) simp_all
  qed
  obtain r2 where r2: "r2 \<in> set (lg_runs lg2)" "same_run r r2"
    using ledger_steps_run [OF assms(3) r(1)] by blast
  have "ledger_inv lg2" using assms(1-3) openRun_inv ledger_steps_inv by blast
  then have "openRun q (Instant u) lg2 = Inr (\<lparr>rh_id = Some (rr_id r2), rh_resumed = True\<rparr>, lg2)"
    using r(2,3) r2(2) by (intro openRun_known [OF _ r2(1) _ _ ok]) (simp_all add: same_run_def same_scope_def)
  then show ?thesis using r(4) r2(2) by (simp add: same_run_def)
qed

theorem open_run_replays_witness:
  "openRun sample_run (Instant 1772600000000) sample_opened =
    Inr (\<lparr>rh_id = Some 1, rh_resumed = True\<rparr>, sample_opened)"
proof -
  have "dateText (rq_from sample_run) = rq_from sample_run" "dateText (rq_to sample_run) = rq_to sample_run"
    by code_simp+
  from open_run_replays [OF empty_ledger_inv sample_open rtranclp.rtrancl_refl this]
  show ?thesis by simp
qed

section \<open>Outcomes the ledger refuses\<close>

lemma day_number_less_iff:
  assumes "pg_date s" "pg_date t"
  shows "day_number s < day_number t \<longleftrightarrow> s < t"
proof -
  obtain a b where a: "business_date_ms s = Some a" and b: "business_date_ms t = Some b"
    using assms by (auto simp: pg_date_def)
  obtain i where i: "a = ms_per_day * i" using business_date_range(4) [OF a] by (rule dvdE)
  obtain j where j: "b = ms_per_day * j" using business_date_range(4) [OF b] by (rule dvdE)
  have "ms_per_day \<noteq> 0" by (simp add: ms_per_day_def)
  then have "day_number s = i" "day_number t = j" by (simp_all add: day_number_def a b i j)
  then show ?thesis using business_date_less_iff [OF a b] by (simp add: i j ms_per_day_def)
qed

lemma mixed_with_watermark:
  assumes "out_quality (evaluateWindowOutcome w r ck) = MIXED_BUSINESS_DATE"
    and "out_watermark (evaluateWindowOutcome w r ck) = Some d"
  shows "d < win_windowStart w \<or> win_windowEnd w \<le> d"
proof -
  define Q where "Q x \<longleftrightarrow> (out_quality x = MIXED_BUSINESS_DATE \<longrightarrow> out_watermark x = Some d \<longrightarrow>
      d < win_windowStart w \<or> win_windowEnd w \<le> d)" for x :: gate_outcome
  have Q_if: "Q x \<Longrightarrow> Q y \<Longrightarrow> Q (if b then x else y)" for x y b by simp
  have "Q (evaluateWindowOutcome w r ck)"
    unfolding evaluateWindowOutcome_def Let_def
    by (intro Q_if) (auto simp: Q_def split: option.split)
  then show ?thesis using assms by (simp add: Q_def)
qed

text \<open>
  The gate can return a verdict that the ledger refuses: when the only date evidence of a result
  lies outside its window, the outcome still carries that date, and the constraint that a watermark
  belongs to its window makes the commit fail with a check violation whatever the ledger holds.
\<close>

theorem mixed_date_outcome_not_recordable:
  assumes "out_quality (evaluateWindowOutcome w r ck) = MIXED_BUSINESS_DATE"
    and "out_watermark (evaluateWindowOutcome w r ck) \<noteq> None"
  shows "commitWindowOutcome runId w (evaluateWindowOutcome w r ck) n cs lg = Inl (Fail ''23514'' ''backfill_window'')"
proof -
  obtain d where d: "out_watermark (evaluateWindowOutcome w r ck) = Some d" using assms(2) by blast
  note out = mixed_with_watermark [OF assms(1) d]
  have "\<not> window_row_ok (new_window_row i runId w (evaluateWindowOutcome w r ck) n)" for i
  proof
    assume "window_row_ok (new_window_row i runId w (evaluateWindowOutcome w r ck) n)"
    then have "pg_date (win_windowStart w)" "pg_date (win_windowEnd w)" "pg_date d"
      "day_number (win_windowStart w) \<le> day_number d" "day_number d < day_number (win_windowEnd w)"
      by (simp_all add: window_row_ok_def new_window_row_def d optional_def)
    then show False using out by (auto simp: day_number_less_iff linorder_not_less [symmetric])
  qed
  then show ?thesis by (simp add: commitWindowOutcome_def upsertWindow_def Let_def)
qed

theorem mixed_date_outcome_not_recordable_witness:
  "commitWindowOutcome 1 (sample_window\<lparr>win_windowStart := ''2026-02-27'', win_windowEnd := ''2026-02-28''\<rparr>)
     (evaluateWindowOutcome (sample_window\<lparr>win_windowStart := ''2026-02-27'', win_windowEnd := ''2026-02-28''\<rparr>)
        sample_result None) 1 None sample_opened = Inl (Fail ''23514'' ''backfill_window'')"
  by (rule mixed_date_outcome_not_recordable) code_simp+

end
