(* ===== verification/Verdict_Properties.thy ===== *)
theory Verdict_Properties
  imports Ledger_Properties Plan_Properties
begin

text \<open>
  What the gate decides and what the tables accept, put together: which verdicts on the windows of a plan
  can be committed. The constraints of the tables are checked by the database on whatever it is given; here
  it is shown of the rows that the code writes that they pass them, and of which they do not.
\<close>

section \<open>Planned windows and the columns of the ledger\<close>

text \<open>The columns that come from the window alone, and its bounds for the counts.\<close>

definition window_columns :: "bf_window \<Rightarrow> bool" where
  "window_columns w \<longleftrightarrow>
     store_code_pattern (win_storeCode w) \<and> domain_pattern (win_domain w) \<and> adapter_key_pattern (win_adapterKey w)
     \<and> hex64_pattern (win_windowKey w) \<and> pg_date (win_windowStart w) \<and> pg_date (win_windowEnd w)
     \<and> ''0001-01-01'' \<le> win_windowStart w \<and> day_number (win_windowStart w) < day_number (win_windowEnd w)
     \<and> day_number (win_windowEnd w) - day_number (win_windowStart w) \<le> 31
     \<and> win_maxPagesPerWindow w \<le> 2147483647 \<and> win_maxRowsPerWindow w \<le> 2147483647"

lemma catalog_columns:
  "BACKFILL_DOMAIN_CATALOG d = Some c \<Longrightarrow>
     domain_pattern (cap_domain c) \<and> adapter_key_pattern (cap_adapterKey c) \<and> cap_maxPagesPerWindow c \<le> 2147483647"
proof -
  have "\<forall>c\<in>set domain_entries. domain_pattern (cap_domain c) \<and> adapter_key_pattern (cap_adapterKey c)
      \<and> cap_maxPagesPerWindow c \<le> 2147483647"
    by (simp add: domain_entries_def domain_pattern_def adapter_key_pattern_def matches_span_def is_lower_def is_digit_def)
  then show "BACKFILL_DOMAIN_CATALOG d = Some c \<Longrightarrow> domain_pattern (cap_domain c)
      \<and> adapter_key_pattern (cap_adapterKey c) \<and> cap_maxPagesPerWindow c \<le> 2147483647"
    by (auto simp: catalog_entry)
qed

lemma year_zero: "take 4 s = ''0000'' \<Longrightarrow> s < ''0001-01-01''"
proof -
  assume "take 4 s = ''0000''"
  then have "s = ''0000'' @ drop 4 s" by (metis append_take_drop_id)
  then show "s < ''0001-01-01''" by (rule ssubst) (simp add: less_char_def)
qed

lemma business_text_pg: "business_date_ms s \<noteq> None \<Longrightarrow> ''0001-01-01'' \<le> s \<Longrightarrow> pg_date s"
  using year_zero [of s] by (auto simp: pg_date_def)

lemma planned_columns:
  assumes "buildBackfillPlan sha r = Inr p" "w \<in> set (plan_windows p)"
    and "\<forall>t. hex64_pattern (sha t)" "''0001-01-01'' \<le> plan_from p" "plan_to p < ''9999-12-31''"
  shows "window_columns w"
proof -
  from assms(1,2) obtain sc store d c a b where sc: "request_scope r sc" "p = plan_of sha sc"
    and store: "store \<in> set (sc_stores sc)" and c: "BACKFILL_DOMAIN_CATALOG d = Some c"
    and ab: "(a, b) \<in> set (window_chunks (sc_start sc) (chunk_span c (sc_span sc)) (addDays (sc_until sc) 1))"
    and w: "w = make_window sha (sc_attempts sc) store c (iso_date a, iso_date b)"
    by (rule plan_window_of)
  note f = request_scope_facts [OF sc(1)]
  note days = f(8) [unfolded scope_days_def]
  have span: "0 < chunk_span c (sc_span sc)" "chunk_span c (sc_span sc) \<le> 31"
    using chunk_span_bounds [OF c f(9)] by simp_all
  note ch = chunk_dates [OF f(8) span(1) ab]
  have "chunk_span c (sc_span sc) * ms_per_day \<le> 31 * ms_per_day"
    using span(2) by (intro mult_right_mono) (simp_all add: less_imp_le)
  then have len: "b - a \<le> 31 * ms_per_day" using ch(8) by linarith
  have "iso_date (sc_until sc) < iso_date last_midnight" using assms(5) by (simp add: sc(2) plan_of_def last_date)
  moreover have "ms_per_day dvd last_midnight" by (simp add: last_midnight_def)
  moreover have "first_midnight \<le> last_midnight" using days by linarith
  ultimately have "sc_until sc < last_midnight"
    using iso_date_less_iff [of "sc_until sc" last_midnight] days by simp
  then have "sc_until sc + ms_per_day \<le> last_midnight"
    using multiple_day_less [of "sc_until sc" last_midnight] \<open>ms_per_day dvd last_midnight\<close> days by simp
  then have in_range: "first_midnight \<le> b" "b \<le> last_midnight" using ch by auto
  have dates: "business_date_ms (iso_date a) = Some a" "business_date_ms (iso_date b) = Some b"
    using ch in_range by (auto intro!: business_date_iso_date)
  have "iso_date (sc_start sc) \<le> iso_date a" "iso_date a \<le> iso_date b"
    using iso_date_le_iff [of "sc_start sc" a] iso_date_le_iff [of a b] ch in_range days by auto
  then have early: "''0001-01-01'' \<le> iso_date a" "''0001-01-01'' \<le> iso_date b"
    using assms(4) by (auto simp: sc(2) plan_of_def)
  obtain i where i: "a = ms_per_day * i" using ch(1) by (rule dvdE)
  obtain j where j: "b = ms_per_day * j" using ch(2) by (rule dvdE)
  have days_ab: "day_number (iso_date a) = i" "day_number (iso_date b) = j"
    unfolding day_number_def dates by (simp_all add: i j)
  have "i < j" "j - i \<le> 31" using ch(6) len by (simp_all add: i j ms_per_day_def)
  moreover have "store_code_pattern store" using f(4) store by simp
  moreover have "pg_date (iso_date a)" "pg_date (iso_date b)" using business_text_pg dates early by simp_all
  moreover have "win_maxPagesPerWindow w = cap_maxPagesPerWindow c" "win_maxRowsPerWindow w = cap_maxRowsPerWindow c"
    by (simp_all add: w make_window_def Let_def)
  ultimately show ?thesis
    using catalog_columns [OF c] catalog_ok [OF c, unfolded capability_ok_def] assms(3) early days_ab
    by (simp add: window_columns_def w windowKeyFor_def)
qed

section \<open>The row of a verdict\<close>

text \<open>Evidence that fits its columns: dates inside the window, a digest as fingerprint, counts of four bytes.\<close>

definition evidence_fits :: "bf_window \<Rightarrow> gate_outcome \<Rightarrow> bool" where
  "evidence_fits w oc \<longleftrightarrow>
     optional (\<lambda>d. win_windowStart w \<le> d \<and> d < win_windowEnd w) (out_watermark oc)
     \<and> optional hex64_pattern (out_fingerprint oc)
     \<and> optional (\<lambda>n. n \<le> 2147483647) (out_accepted oc) \<and> optional (\<lambda>n. n \<le> 2147483647) (out_rejected oc)
     \<and> optional (\<lambda>n. n \<le> 2147483647) (out_expectedPages oc) \<and> optional (\<lambda>n. n \<le> 2147483647) (out_observedPages oc)"

text \<open>What every verdict of the gate has: counts that are not negative, a calendar date, a capability for its status.\<close>

definition evidence_shape :: "gate_outcome \<Rightarrow> bool" where
  "evidence_shape oc \<longleftrightarrow>
     optional (\<lambda>d. business_date_ms d \<noteq> None) (out_watermark oc)
     \<and> optional (\<lambda>n. 0 \<le> n) (out_accepted oc) \<and> optional (\<lambda>n. 0 \<le> n) (out_rejected oc)
     \<and> optional (\<lambda>n. 0 \<le> n) (out_expectedPages oc) \<and> optional (\<lambda>n. 0 \<le> n) (out_observedPages oc)"

lemma optional_nonneg: "optional (\<lambda>n. 0 \<le> n) (unit_count v)"
  by (simp add: optional_def unit_count_Some_iff split: option.split)

lemma shape_of_counts:
  "evidence_shape (outcome e q c (result_counts r))" "evidence_shape (outcome e q c ((result_counts r)\<lparr>ev_watermark := None\<rparr>))"
  "evidence_shape (outcome e q c no_evidence)"
  using source_watermark_date [of r]
  by (cases "source_watermark r"; auto simp: evidence_shape_def optional_nonneg no_evidence_def optional_def [of _ None]
      optional_def [of _ "Some _"])+

lemma gate_evidence: "evidence_shape (evaluateWindowOutcome w r ck)"
proof -
  have if': "evidence_shape x \<Longrightarrow> evidence_shape y \<Longrightarrow> evidence_shape (if b then x else y)" for x y b by simp
  show ?thesis
    unfolding evaluateWindowOutcome_def Let_def
    by (intro if') (auto intro: shape_of_counts split: option.split)
qed

lemma gate_passed:
  assumes "out_quality (evaluateWindowOutcome w r ck) = PASSED \<or> out_execution (evaluateWindowOutcome w r ck) = SUCCEEDED"
  shows "window_proved w r ck" "evaluateWindowOutcome w r ck = outcome SUCCEEDED PASSED None (result_counts r)"
proof -
  show p: "window_proved w r ck"
    using assms gate_shape [of w r ck] by (auto simp: outcome_shape_def gate_passes_iff)
  show "evaluateWindowOutcome w r ck = outcome SUCCEEDED PASSED None (result_counts r)" by (rule passed_outcome [OF p])
qed

lemma sanitized_ok: "optional sanitized_code_pattern (sanitized c)"
proof -
  have "sanitized_code_pattern ''UNSPECIFIED_ERROR''" by code_simp
  then show ?thesis by (simp add: sanitized_def optional_def Let_def split: option.split)
qed

text \<open>The columns of a row that a verdict fills.\<close>

definition row_has :: "window_row \<Rightarrow> gate_outcome \<Rightarrow> bool" where
  "row_has row oc \<longleftrightarrow>
     wr_execution row = out_execution oc \<and> wr_quality row = out_quality oc \<and> wr_accepted row = out_accepted oc
     \<and> wr_rejected row = out_rejected oc \<and> wr_expectedPages row = out_expectedPages oc
     \<and> wr_observedPages row = out_observedPages oc \<and> wr_watermark row = out_watermark oc
     \<and> wr_fingerprint row = out_fingerprint oc \<and> wr_code row = sanitized (out_code oc)"

text \<open>The columns that identify a row of a window.\<close>

definition row_of :: "window_row \<Rightarrow> bf_window \<Rightarrow> bool" where
  "row_of row w \<longleftrightarrow>
     wr_storeCode row = win_storeCode w \<and> wr_domain row = win_domain w \<and> wr_adapterKey row = win_adapterKey w
     \<and> wr_start row = win_windowStart w \<and> wr_end row = win_windowEnd w \<and> wr_capability row = win_capabilityStatus w"

text \<open>A row of a planned window with a verdict of the gate passes the constraints exactly when the evidence fits.\<close>

lemma verdict_row_ok:
  assumes "window_columns w" "row_of row w" "hex64_pattern (wr_windowKey row)" "0 \<le> wr_attempts row" "wr_attempts row \<le> 2147483647"
    and oc: "oc = evaluateWindowOutcome w r ck" "row_has row oc"
  shows "window_row_ok row \<longleftrightarrow> evidence_fits w oc"
proof -
  have shape: "evidence_shape oc" "outcome_shape w oc" using gate_evidence gate_shape by (simp_all add: oc(1))
  have cap: "wr_capability row = VERIFIED \<or> wr_execution row \<in> {PLANNED, BLOCKED, SKIPPED}"
    using shape(2) assms(2) oc(2) by (auto simp: outcome_shape_def row_of_def row_has_def)
  have proof': "check_passes (sql_or (Some (wr_quality row \<noteq> PASSED)) (passed_has_proof row))"
  proof (cases "out_quality oc = PASSED")
    case True
    note passed = gate_passed [of w r ck, folded oc(1)]
    have p: "window_proved w r ck" "oc = outcome SUCCEEDED PASSED None (result_counts r)" using passed True by blast+
    then show ?thesis using oc(2) assms(2)
      by (auto simp: row_has_def row_of_def passed_has_proof_def window_proved_def)
  next
    case False
    then show ?thesis using oc(2) by (simp add: row_has_def)
  qed
  have count: "optional (\<lambda>n. int4 n \<and> 0 \<le> n) v \<longleftrightarrow> optional (\<lambda>n. n \<le> 2147483647) v" if "optional (\<lambda>n. 0 \<le> n) v" for v
    using that by (auto simp: optional_def int4_def split: option.splits)
  have watermark: "optional (\<lambda>d. pg_date d \<and> day_number (wr_start row) \<le> day_number d \<and> day_number d < day_number (wr_end row)) (out_watermark oc)
      \<longleftrightarrow> optional (\<lambda>d. win_windowStart w \<le> d \<and> d < win_windowEnd w) (out_watermark oc)"
  proof (cases "out_watermark oc")
    case (Some d)
    have d: "business_date_ms d \<noteq> None" using shape(1) Some by (simp add: evidence_shape_def optional_def)
    have *: "pg_date d" if "win_windowStart w \<le> d"
      using business_text_pg [OF d] order_trans [OF _ that, of "''0001-01-01''"] assms(1) by (simp add: window_columns_def)
    have "pg_date d \<Longrightarrow> day_number (win_windowStart w) \<le> day_number d \<longleftrightarrow> win_windowStart w \<le> d"
      "pg_date d \<Longrightarrow> day_number d < day_number (win_windowEnd w) \<longleftrightarrow> d < win_windowEnd w"
      using assms(1) day_number_less_iff [of d "win_windowStart w"] day_number_less_iff [of d "win_windowEnd w"]
      by (auto simp: window_columns_def linorder_not_less [symmetric])
    then show ?thesis using Some * assms(2) by (auto simp: optional_def row_of_def)
  qed (simp add: optional_def)
  note counts = shape(1) [unfolded evidence_shape_def, THEN conjunct2]
  have counts': "optional (\<lambda>n. int4 n \<and> 0 \<le> n) (out_accepted oc) \<longleftrightarrow> optional (\<lambda>n. n \<le> 2147483647) (out_accepted oc)"
    "optional (\<lambda>n. int4 n \<and> 0 \<le> n) (out_rejected oc) \<longleftrightarrow> optional (\<lambda>n. n \<le> 2147483647) (out_rejected oc)"
    "optional (\<lambda>n. int4 n \<and> 0 \<le> n) (out_expectedPages oc) \<longleftrightarrow> optional (\<lambda>n. n \<le> 2147483647) (out_expectedPages oc)"
    "optional (\<lambda>n. int4 n \<and> 0 \<le> n) (out_observedPages oc) \<longleftrightarrow> optional (\<lambda>n. n \<le> 2147483647) (out_observedPages oc)"
    using counts by (intro count; simp)+
  have attempts: "int4 (wr_attempts row)" using assms(4,5) by (simp add: int4_def)
  note fields = oc(2) [unfolded row_has_def] assms(2) [unfolded row_of_def] assms(1) [unfolded window_columns_def]
  have "window_row_ok row \<longleftrightarrow>
      optional hex64_pattern (out_fingerprint oc)
      \<and> optional (\<lambda>n. int4 n \<and> 0 \<le> n) (out_accepted oc) \<and> optional (\<lambda>n. int4 n \<and> 0 \<le> n) (out_rejected oc)
      \<and> optional (\<lambda>n. int4 n \<and> 0 \<le> n) (out_expectedPages oc) \<and> optional (\<lambda>n. int4 n \<and> 0 \<le> n) (out_observedPages oc)
      \<and> optional (\<lambda>d. pg_date d \<and> day_number (wr_start row) \<le> day_number d \<and> day_number d < day_number (wr_end row)) (out_watermark oc)"
    using fields cap proof' sanitized_ok [of "out_code oc"] assms(3,4) attempts
    by (simp add: window_row_ok_def del: check_passes_simps) blast
  then show ?thesis unfolding counts' watermark evidence_fits_def by blast
qed

section \<open>Committing a verdict\<close>

text \<open>
  A window may be recorded by a run of the ledger when no earlier row of it is completed; a row of an earlier
  attempt is of the same plan, so it has the same capability, and its attempts add up to four bytes.
\<close>

definition recordable :: "ledger \<Rightarrow> int \<Rightarrow> bf_window \<Rightarrow> int \<Rightarrow> bool" where
  "recordable lg runId w n \<longleftrightarrow> run_exists lg runId \<and> 0 \<le> n \<and> n \<le> 2147483647
     \<and> (\<forall>old\<in>set (lg_windows lg).
          row_grain old = (runId, win_storeCode w, win_domain w, win_adapterKey w, win_windowStart w, win_windowEnd w) \<longrightarrow>
          wr_capability old = win_capabilityStatus w \<and> wr_execution old \<noteq> SUCCEEDED \<and> wr_attempts old + n \<le> 2147483647)"

text \<open>The row that is left, and the checkpoint that cites it when the verdict allows one.\<close>

definition recorded :: "ledger \<Rightarrow> int \<Rightarrow> bf_window \<Rightarrow> gate_outcome \<Rightarrow> int option \<Rightarrow> bool" where
  "recorded lg runId w oc rowId \<longleftrightarrow>
     (\<exists>row\<in>set (lg_windows lg). rowId = Some (wr_id row) \<and> wr_runId row = runId \<and> row_of row w \<and> row_has row oc)"

lemma new_row_of [simp]:
  "row_of (new_window_row i runId w oc n) w" "row_has (new_window_row i runId w oc n) oc"
  "wr_windowKey (new_window_row i runId w oc n) = win_windowKey w" "wr_attempts (new_window_row i runId w oc n) = n"
  "row_grain (new_window_row i runId w oc n) =
     (runId, win_storeCode w, win_domain w, win_adapterKey w, win_windowStart w, win_windowEnd w)"
  by (simp_all add: new_window_row_def row_of_def row_has_def row_grain_def)

lemma merged_row_of:
  assumes "row_grain old = row_grain (new_window_row i runId w oc n)" "wr_capability old = win_capabilityStatus w"
  shows "row_of (merge_window_row old (new_window_row i runId w oc n)) w"
    "row_has (merge_window_row old (new_window_row i runId w oc n)) oc"
    "wr_runId (merge_window_row old (new_window_row i runId w oc n)) = runId"
    "wr_windowKey (merge_window_row old (new_window_row i runId w oc n)) = wr_windowKey old"
    "wr_attempts (merge_window_row old (new_window_row i runId w oc n)) = wr_attempts old + n"
  using assms by (auto simp: new_window_row_def merge_window_row_def row_of_def row_has_def row_grain_def)

lemma upsert_verdict:
  assumes "window_columns w" "ledger_inv lg" "recordable lg runId w n" and oc: "oc = evaluateWindowOutcome w r ck"
  shows "if evidence_fits w oc
    then \<exists>i lg1. upsertWindow runId w oc n lg = Inr (i, lg1) \<and> recorded lg1 runId w oc (Some i)
    else upsertWindow runId w oc n lg = Inl (Fail ''23514'' ''backfill_window'')"
proof -
  let ?new = "new_window_row (lg_nextWindowId lg) runId w oc n"
  have key: "hex64_pattern (win_windowKey w)" using assms(1) by (simp add: window_columns_def)
  have new: "window_row_ok ?new \<longleftrightarrow> evidence_fits w oc"
    by (rule verdict_row_ok [OF assms(1) _ _ _ _ oc]) (use assms(3) key in \<open>simp_all add: recordable_def\<close>)
  show ?thesis
  proof (cases "evidence_fits w oc")
    case fits: True
    show ?thesis
    proof (cases "find (\<lambda>r. row_grain r = row_grain ?new) (lg_windows lg)")
      case None
      then show ?thesis using new fits assms(3)
        by (auto simp: upsertWindow_def Let_def recordable_def recorded_def)
    next
      case (Some old)
      have old: "old \<in> set (lg_windows lg)" "row_grain old = row_grain ?new" using find_SomeD [OF Some] by simp_all
      have open': "wr_capability old = win_capabilityStatus w" "wr_execution old \<noteq> SUCCEEDED" "wr_attempts old + n \<le> 2147483647"
        using assms(3) old by (simp_all add: recordable_def)
      have inv: "window_row_ok old" "distinct (map wr_id (lg_windows lg))"
        using assms(2) old(1) by (auto simp: ledger_inv_def windows_inv_def)
      note m = merged_row_of [OF old(2) open'(1)]
      let ?row = "merge_window_row old ?new"
      let ?lg = "lg\<lparr>lg_windows := map (\<lambda>r. if wr_id r = wr_id old then ?row else r) (lg_windows lg)\<rparr>"
      have row: "window_row_ok ?row"
        using verdict_row_ok [OF assms(1) m(1) _ _ _ oc m(2)] fits inv(1) open'(3) assms(3)
        by (simp add: m(4,5) window_row_ok_def recordable_def)
      have cited: "citations_hold ?lg"
        unfolding citations_hold_def
      proof
        fix c assume "c \<in> set (lg_checkpoints ?lg)"
        then obtain x where x: "x \<in> set (lg_windows lg)" "cites c x"
          using assms(2) by (auto simp: ledger_inv_def checkpoints_inv_def checkpoint_row_ok_def)
        have "wr_id x \<noteq> wr_id old"
          using distinct_map_unique [OF inv(2) x(1) old(1)] open'(2) x(2) by (auto simp: cites_def)
        then have "x \<in> set (lg_windows ?lg)" using x(1) by (auto intro: rev_image_eqI)
        with x(2) show "\<exists>x\<in>set (lg_windows ?lg). cites c x" by blast
      qed
      have "?row \<in> set (lg_windows ?lg)" using old(1) by (auto intro: rev_image_eqI)
      then have "recorded ?lg runId w oc (Some (wr_id old))"
        unfolding recorded_def using m by (intro bexI [of _ ?row]) simp_all
      then show ?thesis using new fits Some row cited by (simp add: upsertWindow_def Let_def)
    qed
  qed (simp add: new upsertWindow_def Let_def)
qed

text \<open>The checkpoint that follows a verdict cites the row that the same commit has just written.\<close>

lemma proposed_is_proved:
  assumes "window_columns w" "oc = evaluateWindowOutcome w r ck" "nextCheckpointState w oc ck (Some runId) = Some st"
    and "recorded lg runId w oc (Some i)" "run_exists lg runId"
  shows "\<exists>new. new_checkpoint_row i st = Some new \<and> checkpoint_row_ok lg new"
proof -
  obtain d fp where p: "window_proved w r ck" "dated w r d" "jget r ''schemaFingerprint'' = JStr fp"
    "st = \<lparr>ck_storeCode = win_storeCode w, ck_domain = win_domain w, ck_adapterKey = win_adapterKey w, ck_lastCompleted = d,
       ck_lastCursor = win_windowEnd w, ck_lastRunId = Some runId, ck_fingerprint = Some fp\<rparr>"
    using checkpoint_moves_forward [of w r ck "Some runId" st] assms(2,3) by auto
  have oc: "oc = outcome SUCCEEDED PASSED None (result_counts r)" unfolding assms(2) by (rule passed_outcome [OF p(1)])
  have fp: "hex64_pattern fp" using proved_fingerprint [OF p(1)] p(3) by auto
  have d: "pg_date d" using p(2) assms(1) business_text_pg [of d] order_trans [of "''0001-01-01''" "win_windowStart w" d]
    by (auto simp: dated_def window_columns_def)
  have cap: "win_capabilityStatus w = VERIFIED" using p(1) by (simp add: window_proved_def)
  obtain row where row: "row \<in> set (lg_windows lg)" "wr_id row = i" "wr_runId row = runId" "row_of row w" "row_has row oc"
    using assms(4) by (auto simp: recorded_def)
  let ?new = "\<lparr>cr_storeCode = win_storeCode w, cr_domain = win_domain w, cr_adapterKey = win_adapterKey w,
    cr_lastCompleted = d, cr_lastCursor = win_windowEnd w, cr_runId = runId, cr_windowId = i, cr_fingerprint = fp\<rparr>"
  have "cites ?new row"
    using row(2-5) dated_watermark [OF p(2)] cap p(3) by (simp add: cites_def row_of_def row_has_def oc)
  then have "checkpoint_row_ok lg ?new"
    using row(1) fp d assms(1,5) by (auto simp: checkpoint_row_ok_def window_columns_def)
  moreover have "new_checkpoint_row i st = Some ?new" by (simp add: new_checkpoint_row_def p(4))
  ultimately show ?thesis by blast
qed

lemma upsert_proved:
  assumes "new_checkpoint_row i st = Some new" "checkpoint_row_ok lg new"
  shows "\<exists>adv lg'. upsertCheckpoint i st lg = Inr (adv, lg')"
  using assms by (auto simp: upsertCheckpoint_def checkpoint_row_ok_def split: option.split)

lemma recorded_frame: "lg_windows lg' = lg_windows lg \<Longrightarrow> recorded lg' runId w oc i = recorded lg runId w oc i"
  by (simp add: recorded_def)

lemma passed_evidence_fits:
  assumes "window_columns w" "oc = evaluateWindowOutcome w r ck" "out_execution oc = SUCCEEDED"
  shows "evidence_fits w oc"
proof -
  note p = gate_passed [of w r ck]
  have proved: "window_proved w r ck" and oc: "oc = outcome SUCCEEDED PASSED None (result_counts r)"
    using p assms(2,3) by simp_all
  obtain fp d where fp: "jget r ''schemaFingerprint'' = JStr fp" "hex64_pattern fp" "dated w r d"
    using proved_fingerprint [OF proved] by blast
  have "0 \<le> unit" if "unit_count v = Some unit" for v unit using that by (simp add: unit_count_Some_iff)
  then show ?thesis
    using proved fp dated_watermark [OF fp(3)] assms(1)
    by (auto simp: evidence_fits_def oc optional_def window_proved_def window_columns_def dated_def)
qed

text \<open>
  C34. Which verdicts reach the ledger. A verdict of the gate on a window of a plan, with the checkpoint it
  leads to, is committed exactly when its evidence fits the columns: the date it names is inside the window,
  the fingerprint it carries is a digest and its counts have four bytes. It is then the row of the window, in
  full; otherwise the constraints of the window table refuse it and nothing is written. A verdict that lets
  a window succeed always fits, so no completed window is lost to a constraint. (The digest gives 64
  hexadecimal digits, the plan is within the years that four digits print, and no row of the window is completed.)
\<close>

theorem verdicts_are_recorded:
  assumes "buildBackfillPlan sha q = Inr p" "w \<in> set (plan_windows p)" "\<forall>t. hex64_pattern (sha t)"
    and "''0001-01-01'' \<le> plan_from p" "plan_to p < ''9999-12-31''"
    and "ledger_inv lg" "recordable lg runId w n"
  shows "let oc = evaluateWindowOutcome w r ck in
    (case commitWindowOutcome runId w oc n (nextCheckpointState w oc ck (Some runId)) lg of
       Inl e \<Rightarrow> \<not> evidence_fits w oc \<and> e = Fail ''23514'' ''backfill_window''
     | Inr (ps, lg') \<Rightarrow> evidence_fits w oc \<and> recorded lg' runId w oc (ps_windowId ps))
    \<and> (out_execution oc = SUCCEEDED \<longrightarrow> evidence_fits w oc)"
proof -
  define oc where "oc = evaluateWindowOutcome w r ck"
  have w: "window_columns w" by (rule planned_columns [OF assms(1-5)])
  note up = upsert_verdict [OF w assms(6,7) oc_def]
  let ?cs = "nextCheckpointState w oc ck (Some runId)"
  have "case commitWindowOutcome runId w oc n ?cs lg of
      Inl e \<Rightarrow> \<not> evidence_fits w oc \<and> e = Fail ''23514'' ''backfill_window''
    | Inr (ps, lg') \<Rightarrow> evidence_fits w oc \<and> recorded lg' runId w oc (ps_windowId ps)"
  proof (cases "evidence_fits w oc")
    case False
    then show ?thesis using up by (simp add: commitWindowOutcome_def)
  next
    case True
    then obtain i lg1 where lg1: "upsertWindow runId w oc n lg = Inr (i, lg1)" "recorded lg1 runId w oc (Some i)"
      using up by auto
    show ?thesis
    proof (cases ?cs)
      case None
      then show ?thesis using lg1 True by (simp add: commitWindowOutcome_def)
    next
      case (Some st)
      have "run_exists lg1 runId"
        using run_exists_frame [OF upsertWindow_frame(1) [OF lg1(1)]] assms(7) by (simp add: recordable_def)
      then obtain adv lg2 where lg2: "upsertCheckpoint i st lg1 = Inr (adv, lg2)"
        using proposed_is_proved [OF w oc_def Some lg1(2)] upsert_proved by blast
      then show ?thesis
        using lg1 True Some recorded_frame [OF upsertCheckpoint_frame(2) [OF lg2]] by (simp add: commitWindowOutcome_def)
    qed
  qed
  then show ?thesis using passed_evidence_fits [OF w oc_def] unfolding Let_def oc_def [symmetric] by blast
qed

text \<open>A plan of one window, and a result that proves it.\<close>

definition one_request :: plan_request where
  [js_eval]: "one_request = sample_request\<lparr>req_storeCodes := JArr [JStr ''ZS0005''],
     req_domains := JArr [JStr ''purchase-orders''], req_from := JStr ''2026-02-28'', req_to := JStr ''2026-02-28''\<rparr>"

definition one_digest :: "string \<Rightarrow> string" where
  [js_eval]: "one_digest t = replicate 64 CHR ''b''"

definition one_scope :: plan_scope where
  [js_eval]: "one_scope = sample_scope\<lparr>sc_stores := [''ZS0005''], sc_domains := [''purchase-orders''],
     sc_start := 1772236800000, sc_until := 1772236800000\<rparr>"

lemma one_plan:
  "buildBackfillPlan one_digest one_request = Inr (plan_of one_digest one_scope)"
  "plan_windows (plan_of one_digest one_scope) = [sample_window]"
  "plan_from (plan_of one_digest one_scope) = ''2026-02-28''" "plan_to (plan_of one_digest one_scope) = ''2026-02-28''"
proof -
  have scope: "request_scope one_request one_scope" unfolding resolve_request_Inr [symmetric] by code_simp
  obtain c where c: "BACKFILL_DOMAIN_CATALOG ''purchase-orders'' = Some c" "make_window one_digest 3 ''ZS0005'' c (''2026-02-28'', ''2026-03-01'') = sample_window"
    "chunk_span c 1 = 1"
    by (simp add: BACKFILL_DOMAIN_CATALOG_def domain_entries_def make_window_def Let_def isExecutableCapability_def
        windowKeyFor_def one_digest_def sample_window_def chunk_span_def)
  have chunks: "window_chunks 1772236800000 1 (addDays 1772236800000 1) = [(1772236800000, 1772323200000)]"
    by (simp add: window_chunks_step window_chunks_empty addDays_def ms_per_day_def)
  have "iso_date 1772236800000 = ''2026-02-28''" "iso_date 1772323200000 = ''2026-03-01''" by code_simp+
  then have windows: "scope_windows one_digest one_scope = [sample_window]"
    by (simp add: scope_windows_def all_windows_def one_scope_def sample_scope_def domain_windows_chunks [OF c(1)] c(2,3) chunks)
  show "buildBackfillPlan one_digest one_request = Inr (plan_of one_digest one_scope)"
  proof (rule plan_exists_on [OF scope])
    show "inj_on one_digest (key_text ` set (scope_windows one_digest one_scope))" unfolding windows by simp
  qed (simp add: one_scope_def sample_scope_def dayDifference_def)
  show "plan_windows (plan_of one_digest one_scope) = [sample_window]" by (simp add: plan_of_def windows)
  have "iso_date 1772236800000 = ''2026-02-28''" by code_simp
  then show "plan_from (plan_of one_digest one_scope) = ''2026-02-28''" "plan_to (plan_of one_digest one_scope) = ''2026-02-28''"
    by (simp_all add: plan_of_def one_scope_def)
qed

lemma sample_recordable: "recordable sample_opened 1 sample_window 1"
proof -
  have "run_exists sample_opened 1" by code_simp
  moreover have "lg_windows sample_opened = []" by (simp add: sample_opened_def empty_ledger_def)
  ultimately show ?thesis by (simp add: recordable_def)
qed

theorem verdicts_are_recorded_witness:
  "\<exists>ps lg'. sample_commit = Inr (ps, lg')
     \<and> recorded lg' 1 sample_window (evaluateWindowOutcome sample_window sample_result None) (ps_windowId ps)"
proof -
  let ?p = "plan_of one_digest one_scope"
  have digest: "\<forall>t. hex64_pattern (one_digest t)" by (simp add: one_digest_def hex64_pattern_def matches_span_def is_hex_def list_all_iff)
  have "''0001-01-01'' \<le> plan_from ?p" "plan_to ?p < ''9999-12-31''" unfolding one_plan by code_simp+
  note v = verdicts_are_recorded [OF one_plan(1) _ digest this ledger_step_inv [OF sample_opened_step empty_ledger_inv] sample_recordable,
      of sample_result None]
  have "out_execution (evaluateWindowOutcome sample_window sample_result None) = SUCCEEDED" by code_simp
  then show ?thesis using v by (auto simp: one_plan(2) sample_commit_def Let_def split: sum.splits)
qed

text \<open>
  The constraint of the table alone asks for less: a row that claims to have passed although no rejected count
  is known passes it, as a comparison with a null value is not false. The gate never writes such a row.
\<close>

theorem passed_row_without_counts:
  "window_row_ok ((new_window_row 1 1 sample_window (evaluateWindowOutcome sample_window sample_result None) 1)
     \<lparr>wr_rejected := None, wr_observedPages := None\<rparr>)"
  by code_simp

end
