(* ===== verification/Backfill_Runner.thy ===== *)
theory Backfill_Runner
  imports Backfill_Ledger
begin

text \<open>
  \<open>src/backfill/runner.mjs\<close>: rehearsal and execution of a plan. The repository and the adapters are
  the parameters that the caller passes; an adapter call may change an environment that is not
  observed otherwise. The calls of one window form one block: the calls of different grains that
  overlap inside a lane's awaits are taken in the order in which the windows finish.
\<close>

section \<open>Interfaces\<close>

record 'db repository =
  repo_openRun :: "run_request \<Rightarrow> js_instant \<Rightarrow> 'db \<Rightarrow> run_handle result \<times> 'db"
  repo_loadCompleted :: "string \<Rightarrow> 'db \<Rightarrow> string list"
  repo_loadAttempts :: "string \<Rightarrow> 'db \<Rightarrow> (string \<times> int) list"
  repo_loadCheckpoints :: "string list \<Rightarrow> string list \<Rightarrow> 'db \<Rightarrow> checkpoint list"
  repo_commit :: "int option \<Rightarrow> bf_window \<Rightarrow> gate_outcome \<Rightarrow> int \<Rightarrow> checkpoint option \<Rightarrow> 'db \<Rightarrow>
    persistence result \<times> 'db"
  repo_record :: "int option \<Rightarrow> bf_window \<Rightarrow> gate_outcome \<Rightarrow> int \<Rightarrow> 'db \<Rightarrow> persistence result \<times> 'db"
  repo_close :: "int option \<Rightarrow> run_status \<Rightarrow> js_instant \<Rightarrow> string option \<Rightarrow> 'db \<Rightarrow> bool result \<times> 'db"

definition NULL_REPOSITORY :: "'db repository" where
  [js_eval]: "NULL_REPOSITORY =
     \<lparr>repo_openRun = (\<lambda>_ _ db. (Inr \<lparr>rh_id = None, rh_resumed = False\<rparr>, db)),
      repo_loadCompleted = (\<lambda>_ _. []), repo_loadAttempts = (\<lambda>_ _. []), repo_loadCheckpoints = (\<lambda>_ _ _. []),
      repo_commit = (\<lambda>_ _ _ _ _ db. (Inr \<lparr>ps_persisted = False, ps_windowId = None, ps_advanced = False\<rparr>, db)),
      repo_record = (\<lambda>_ _ _ _ db. (Inr \<lparr>ps_persisted = False, ps_windowId = None, ps_advanced = False\<rparr>, db)),
      repo_close = (\<lambda>_ _ _ _ db. (Inr False, db))\<rparr>"

text \<open>
  The repository over the ledger. A run without an identity violates the not-null constraint of its
  column, and closes no row.
\<close>

definition ledger_repository :: "ledger repository" where
  [js_eval]: "ledger_repository =
     \<lparr>repo_openRun = (\<lambda>q i. withTransaction (openRun q i)),
      repo_loadCompleted = loadCompletedWindowKeys, repo_loadAttempts = loadWindowAttemptCounts,
      repo_loadCheckpoints = loadCheckpoints,
      repo_commit = (\<lambda>r w oc n cs. case r of None \<Rightarrow> (\<lambda>db. (Inl (Fail ''23502'' ''backfill_window''), db))
         | Some i \<Rightarrow> withTransaction (commitWindowOutcome i w oc n cs)),
      repo_record = (\<lambda>r w oc n. case r of None \<Rightarrow> (\<lambda>db. (Inl (Fail ''23502'' ''backfill_window''), db))
         | Some i \<Rightarrow> withTransaction (recordWindowOutcome i w oc n)),
      repo_close = (\<lambda>r st i ec. case r of None \<Rightarrow> (\<lambda>db. (Inl (Fail ''BACKFILL_RUN_CLOSE_MISSING'' []), db))
         | Some k \<Rightarrow> withTransaction (\<lambda>lg. ebind (closeRun k st i ec lg) (\<lambda>(_, lg'). Inr (True, lg'))))\<rparr>"

record fetch_request =
  fr_planHash :: string
  fr_storeCode :: string
  fr_domain :: string
  fr_windowStart :: string
  fr_windowEnd :: string
  fr_windowKey :: string
  fr_maxPages :: int
  fr_maxRows :: int
  fr_attempt :: int
  fr_checkpoint :: "checkpoint option"

text \<open>An adapter returns a value or throws an error, of which the runner reads the code.\<close>

datatype fetch_reply = Returned jsv | Threw jsv

type_synonym 'env adapter = "fetch_request \<Rightarrow> 'env \<Rightarrow> fetch_reply \<times> 'env"

section \<open>Setting up a run\<close>

definition sanitizedCode :: "jsv \<Rightarrow> string \<Rightarrow> string result" where
  [js_eval]: "sanitizedCode v fallback =
     ebind (js_string_or_empty v) (\<lambda>s.
       let candidate = map (\<lambda>c. if code_char c then c else CHR ''_'') (js_upper (js_trim s))
       in Inr (if sanitized_code_pattern candidate then candidate else fallback))"

definition grain_key :: "string \<Rightarrow> string \<Rightarrow> string \<Rightarrow> string" where
  [js_eval]: "grain_key store domain adapter = join_with key_sep [store, domain, adapter]"

definition window_grain_key :: "bf_window \<Rightarrow> string" where
  [js_eval]: "window_grain_key w = grain_key (win_storeCode w) (win_domain w) (win_adapterKey w)"

text \<open>
  The attempts recorded before: rows with a count from 0 to 99, a later row for a key replacing an
  earlier one.
\<close>

definition prior_attempts :: "(string \<times> int) list \<Rightarrow> string \<Rightarrow> int" where
  [js_eval]: "prior_attempts rows key =
     (case map_of (rev (filter (\<lambda>(k, n). 0 \<le> n \<and> n \<le> 99) rows)) key of None \<Rightarrow> 0 | Some n \<Rightarrow> n)"

definition checkpoint_index :: "checkpoint list \<Rightarrow> string \<Rightarrow> checkpoint option" where
  [js_eval]: "checkpoint_index rows =
     map_of (rev (map (\<lambda>c. (grain_key (ck_storeCode c) (ck_domain c) (ck_adapterKey c), c)) rows))"

record ('db, 'env) run_config =
  rc_planHash :: string
  rc_execute :: bool
  rc_repository :: "'db repository"
  rc_adapters :: "string \<Rightarrow> 'env adapter option"
  rc_runId :: "int option"
  rc_completed :: "string list"
  rc_prior :: "string \<Rightarrow> int"

record ('db, 'env) run_state =
  rs_db :: 'db
  rs_env :: 'env
  rs_checkpoints :: "string \<Rightarrow> checkpoint option"
  rs_invocations :: nat

record window_result =
  wres_window :: bf_window
  wres_execution :: execution_status
  wres_quality :: quality_status
  wres_code :: "string option"
  wres_accepted :: "int option"
  wres_rejected :: "int option"
  wres_advanced :: bool
  wres_invoked :: bool
  wres_attempts :: int

section \<open>One window\<close>

definition passive_result :: "bf_window \<Rightarrow> execution_status \<Rightarrow> quality_status \<Rightarrow> string option \<Rightarrow> window_result" where
  [js_eval]: "passive_result w ex q c =
     \<lparr>wres_window = w, wres_execution = ex, wres_quality = q, wres_code = c, wres_accepted = None,
      wres_rejected = None, wres_advanced = False, wres_invoked = False, wres_attempts = 0\<rparr>"

definition failed_result :: "string \<Rightarrow> jsv" where
  [js_eval]: "failed_result c = JObj [(''ok'', JBool False), (''adapterError'', JBool True), (''sanitizedErrorCode'', JStr c)]"

definition fetch_request_of :: "string \<Rightarrow> bf_window \<Rightarrow> int \<Rightarrow> checkpoint option \<Rightarrow> fetch_request" where
  [js_eval]: "fetch_request_of planHash w ordinal ck =
     \<lparr>fr_planHash = planHash, fr_storeCode = win_storeCode w, fr_domain = win_domain w,
      fr_windowStart = win_windowStart w, fr_windowEnd = win_windowEnd w, fr_windowKey = win_windowKey w,
      fr_maxPages = win_maxPagesPerWindow w, fr_maxRows = win_maxRowsPerWindow w, fr_attempt = ordinal,
      fr_checkpoint = ck\<rparr>"

definition retryable :: "gate_outcome \<Rightarrow> bool" where
  [js_eval]: "retryable oc \<longleftrightarrow> \<not> out_advanceable oc \<and> out_execution oc = FAILED \<and> out_quality oc = ADAPTER_ERROR"

text \<open>
  The attempts of a window: \<open>more\<close> further attempts are allowed after the current one, which is
  number \<open>k + 1\<close> of this run. The last component counts the adapter calls.
\<close>

fun attempt_window ::
    "string \<Rightarrow> 'env adapter \<Rightarrow> bf_window \<Rightarrow> checkpoint option \<Rightarrow> int \<Rightarrow> nat \<Rightarrow> nat \<Rightarrow> 'env \<Rightarrow>
     (gate_outcome \<times> nat) result \<times> 'env \<times> nat" where
  "attempt_window planHash fetch w ck prior left k env =
     (if 99 < prior + int (Suc k)
      then (Inr (evaluateWindowOutcome w (failed_result ''BACKFILL_ATTEMPT_LIMIT_REACHED'') ck, Suc k), env, 0)
      else case fetch (fetch_request_of planHash w (prior + int (Suc k)) ck) env of
        (reply, env') \<Rightarrow>
          (case (case reply of Returned v \<Rightarrow> Inr v
                 | Threw c \<Rightarrow> ebind (sanitizedCode c ''ADAPTER_THREW'') (\<lambda>s. Inr (failed_result s))) of
             Inl e \<Rightarrow> (Inl e, env', 1)
           | Inr v \<Rightarrow>
               let oc = evaluateWindowOutcome w v ck
               in if \<not> retryable oc then (Inr (oc, Suc k), env', 1)
                  else (case left of
                      0 \<Rightarrow> (Inr (oc, Suc k), env', 1)
                    | Suc left' \<Rightarrow>
                        (case attempt_window planHash fetch w ck prior left' (Suc k) env' of
                           (r, env'', n) \<Rightarrow> (r, env'', Suc n)))))"

declare attempt_window.simps [simp del]
declare attempt_window.simps [js_eval]

definition max_attempts :: "bf_window \<Rightarrow> nat" where
  [js_eval]: "max_attempts w = nat (max 1 (if win_maxAttempts w = 0 then 1 else win_maxAttempts w))"

definition blocked_outcome :: "string \<Rightarrow> gate_outcome" where
  [js_eval]: "blocked_outcome c = outcome BLOCKED UNKNOWN (Some c) no_evidence"

definition record_blocked ::
    "('db, 'env) run_config \<Rightarrow> bf_window \<Rightarrow> string \<Rightarrow> ('db, 'env) run_state \<Rightarrow>
     window_result result \<times> ('db, 'env) run_state" where
  [js_eval]: "record_blocked cf w c st =
     (if rc_execute cf
      then (case repo_record (rc_repository cf) (rc_runId cf) w (blocked_outcome c) 0 (rs_db st) of
          (Inl e, db) \<Rightarrow> (Inl e, st\<lparr>rs_db := db\<rparr>)
        | (Inr _, db) \<Rightarrow> (Inr (passive_result w BLOCKED UNKNOWN (Some c)), st\<lparr>rs_db := db\<rparr>))
      else (Inr (passive_result w BLOCKED UNKNOWN (Some c)), st))"

definition attempted_result :: "bf_window \<Rightarrow> gate_outcome \<Rightarrow> bool \<Rightarrow> nat \<Rightarrow> window_result" where
  [js_eval]: "attempted_result w oc advanced k =
     \<lparr>wres_window = w, wres_execution = out_execution oc, wres_quality = out_quality oc,
      wres_code = out_code oc, wres_accepted = out_accepted oc, wres_rejected = out_rejected oc,
      wres_advanced = advanced, wres_invoked = True, wres_attempts = int k\<rparr>"

definition commit_attempted ::
    "('db, 'env) run_config \<Rightarrow> bf_window \<Rightarrow> gate_outcome \<Rightarrow> nat \<Rightarrow> ('db, 'env) run_state \<Rightarrow>
     window_result result \<times> ('db, 'env) run_state" where
  [js_eval]: "commit_attempted cf w oc k st =
     (let ck = rs_checkpoints st (window_grain_key w);
          nextState = (if out_advanceable oc then nextCheckpointState w oc ck (rc_runId cf) else None)
      in case repo_commit (rc_repository cf) (rc_runId cf) w oc (int k) nextState (rs_db st) of
           (Inl e, db) \<Rightarrow> (Inl e, st\<lparr>rs_db := db\<rparr>)
         | (Inr p, db) \<Rightarrow>
             if \<not> ps_persisted p then (Inl (Fail ''WINDOW_OUTCOME_NOT_PERSISTED'' []), st\<lparr>rs_db := db\<rparr>)
             else (Inr (attempted_result w oc (ps_advanced p) k),
               st\<lparr>rs_db := db, rs_checkpoints :=
                 (if ps_advanced p \<and> nextState \<noteq> None
                  then (rs_checkpoints st)(window_grain_key w := nextState) else rs_checkpoints st)\<rparr>))"

definition processWindow ::
    "('db, 'env) run_config \<Rightarrow> bf_window \<Rightarrow> ('db, 'env) run_state \<Rightarrow>
     window_result result \<times> ('db, 'env) run_state" where
  [js_eval]: "processWindow cf w st =
     (if win_capabilityStatus w \<noteq> VERIFIED then
        record_blocked cf w (case win_blockedReasonCode w of Some c \<Rightarrow> c | None \<Rightarrow> ''CAPABILITY_NOT_VERIFIED'') st
      else if \<not> rc_execute cf then (Inr (passive_result w PLANNED UNKNOWN None), st)
      else if win_windowKey w \<in> set (rc_completed cf) then (Inr (passive_result w SKIPPED PASSED None), st)
      else case rc_adapters cf (win_adapterKey w) of
          None \<Rightarrow> record_blocked cf w ''ADAPTER_NOT_REGISTERED'' st
        | Some fetch \<Rightarrow>
            (case attempt_window (rc_planHash cf) fetch w (rs_checkpoints st (window_grain_key w))
                (rc_prior cf (win_windowKey w)) (max_attempts w - 1) 0 (rs_env st) of
               (Inl e, env, n) \<Rightarrow> (Inl e, st\<lparr>rs_env := env, rs_invocations := rs_invocations st + n\<rparr>)
             | (Inr (oc, k), env, n) \<Rightarrow>
                 commit_attempted cf w oc k (st\<lparr>rs_env := env, rs_invocations := rs_invocations st + n\<rparr>)))"

section \<open>Scheduling\<close>

text \<open>
  Every grain has one queue in plan order; a lane that is idle claims the next queue and works it
  off one window at a time. The entries of a queue carry the index of the window in the plan.
\<close>

type_synonym entry = "nat \<times> bf_window"

definition grain_queues :: "bf_window list \<Rightarrow> entry list list" where
  [js_eval]: "grain_queues ws = map snd (group_by_key (\<lambda>e. window_grain_key (snd e)) (enumerate 0 ws))"

definition lane_count :: "int \<Rightarrow> entry list list \<Rightarrow> nat" where
  [js_eval]: "lane_count concurrency grains =
     min (nat (max 1 (if concurrency = 0 then 1 else concurrency))) (max 1 (length grains))"

record 'a lanes =
  ln_pending :: "'a list list"
  ln_lanes :: "'a list list"
  ln_done :: "'a list"

inductive lane_step :: "'a lanes \<Rightarrow> 'a lanes \<Rightarrow> bool" where
  claim: "i < length (ln_lanes s) \<Longrightarrow> ln_lanes s ! i = [] \<Longrightarrow> ln_pending s = q # qs \<Longrightarrow>
    lane_step s (s\<lparr>ln_pending := qs, ln_lanes := (ln_lanes s)[i := q]\<rparr>)"
| finish: "i < length (ln_lanes s) \<Longrightarrow> ln_lanes s ! i = e # q \<Longrightarrow>
    lane_step s (s\<lparr>ln_lanes := (ln_lanes s)[i := q], ln_done := ln_done s @ [e]\<rparr>)"

definition lanes_start :: "nat \<Rightarrow> 'a list list \<Rightarrow> 'a lanes" where
  [js_eval]: "lanes_start n grains = \<lparr>ln_pending = grains, ln_lanes = replicate n [], ln_done = []\<rparr>"

text \<open>Every lane has returned from its loop.\<close>

definition lanes_finished :: "'a lanes \<Rightarrow> bool" where
  [js_eval]: "lanes_finished s \<longleftrightarrow> ln_pending s = [] \<and> list_all (\<lambda>q. q = []) (ln_lanes s)"

text \<open>The orders in which the windows of a plan can finish.\<close>

definition finish_order :: "bf_plan \<Rightarrow> entry list \<Rightarrow> bool" where
  "finish_order plan order \<longleftrightarrow>
     (let grains = grain_queues (plan_windows plan)
      in \<exists>s. lane_step\<^sup>*\<^sup>* (lanes_start (lane_count (plan_concurrency plan) grains) grains) s \<and>
           lanes_finished s \<and> ln_done s = order)"

section \<open>A run\<close>

text \<open>An error of one window rejects the run; the windows after it do not count.\<close>

fun run_entries ::
    "('db, 'env) run_config \<Rightarrow> entry list \<Rightarrow> ('db, 'env) run_state \<Rightarrow>
     (nat \<times> window_result) list result \<times> ('db, 'env) run_state" where
  "run_entries cf [] st = (Inr [], st)"
| "run_entries cf ((i, w) # es) st =
     (case processWindow cf w st of
        (Inl e, st') \<Rightarrow> (Inl e, st')
      | (Inr r, st') \<Rightarrow>
          (case run_entries cf es st' of
             (Inl e, st'') \<Rightarrow> (Inl e, st'')
           | (Inr rs, st'') \<Rightarrow> (Inr ((i, r) # rs), st'')))"

record run_counts =
  cnt_planned :: nat
  cnt_blocked :: nat
  cnt_skipped :: nat
  cnt_succeeded :: nat
  cnt_partial :: nat
  cnt_failed :: nat

definition count_results :: "window_result list \<Rightarrow> run_counts" where
  [js_eval]: "count_results rs =
     (let n = (\<lambda>s. length (filter (\<lambda>r. wres_execution r = s) rs))
      in \<lparr>cnt_planned = n PLANNED, cnt_blocked = n BLOCKED, cnt_skipped = n SKIPPED,
          cnt_succeeded = n SUCCEEDED, cnt_partial = n PARTIAL,
          cnt_failed = length (filter (\<lambda>r. wres_execution r \<notin>
            {PLANNED, BLOCKED, SKIPPED, SUCCEEDED, PARTIAL}) rs)\<rparr>)"

definition run_status_of :: "bool \<Rightarrow> run_counts \<Rightarrow> run_status" where
  [js_eval]: "run_status_of execute c =
     (if \<not> execute then RUN_PLANNED
      else if 0 < cnt_failed c \<and> cnt_succeeded c = 0 \<and> cnt_skipped c = 0 then RUN_FAILED
      else if 0 < cnt_failed c \<or> 0 < cnt_partial c \<or> 0 < cnt_blocked c then RUN_PARTIAL
      else RUN_SUCCEEDED)"

definition first_code :: "window_result list \<Rightarrow> string option" where
  [js_eval]: "first_code rs =
     (case find (\<lambda>r. case wres_code r of None \<Rightarrow> False | Some c \<Rightarrow> c \<noteq> []) rs of
        None \<Rightarrow> None | Some r \<Rightarrow> wres_code r)"

record run_report =
  rep_execute :: bool
  rep_planHash :: string
  rep_runId :: "int option"
  rep_status :: run_status
  rep_authorization :: "authorization option"
  rep_invocations :: nat
  rep_counts :: run_counts
  rep_advanced :: nat
  rep_blockedReasons :: "string option list"
  rep_windows :: "window_result list"

record ('db, 'env) run_options =
  ro_plan :: bf_plan
  ro_mode :: string
  ro_adapters :: "string \<Rightarrow> 'env adapter option"
  ro_repository :: "'db repository"
  ro_approvedPlanHash :: jsv
  ro_allowedStoreCodes :: jsv
  ro_allowedDomains :: jsv
  ro_startedAt :: js_instant
  ro_completedAt :: js_instant
  ro_createdBy :: "string option"

definition run_request_of :: "('db, 'env) run_options \<Rightarrow> run_request" where
  [js_eval]: "run_request_of o' =
     (let plan = ro_plan o'
      in \<lparr>rq_planHash = plan_planHash plan, rq_domains = plan_domains plan, rq_stores = plan_storeCodes plan,
          rq_from = plan_from plan, rq_to = plan_to plan, rq_span = plan_windowSpanDays plan,
          rq_planned = int (sum_plannedWindowCount (plan_summary plan)),
          rq_createdBy = (case ro_createdBy o' of None \<Rightarrow> plan_createdBy plan | Some c \<Rightarrow> c)\<rparr>)"

definition report_of ::
    "bool \<Rightarrow> string \<Rightarrow> int option \<Rightarrow> authorization option \<Rightarrow> nat \<Rightarrow> window_result list \<Rightarrow> run_report" where
  [js_eval]: "report_of execute planHash runId authorization invocations rs =
     \<lparr>rep_execute = execute, rep_planHash = planHash, rep_runId = runId,
      rep_status = run_status_of execute (count_results rs), rep_authorization = authorization,
      rep_invocations = invocations, rep_counts = count_results rs,
      rep_advanced = length (filter wres_advanced rs),
      rep_blockedReasons = sort_optional (dedupe (map wres_code
        (filter (\<lambda>r. wres_execution r = BLOCKED) rs))),
      rep_windows = rs\<rparr>"

text \<open>What a run reads before its first window.\<close>

definition run_config_of :: "('db, 'env) run_options \<Rightarrow> bool \<Rightarrow> int option \<Rightarrow> 'db \<Rightarrow> ('db, 'env) run_config" where
  [js_eval]: "run_config_of o' execute runId db =
     (let plan = ro_plan o'; repo = ro_repository o'
      in \<lparr>rc_planHash = plan_planHash plan, rc_execute = execute, rc_repository = repo,
          rc_adapters = ro_adapters o', rc_runId = runId,
          rc_completed = (if execute then repo_loadCompleted repo (plan_planHash plan) db else []),
          rc_prior = prior_attempts (if execute then repo_loadAttempts repo (plan_planHash plan) db else [])\<rparr>)"

definition run_state_of :: "('db, 'env) run_options \<Rightarrow> bool \<Rightarrow> 'db \<Rightarrow> 'env \<Rightarrow> ('db, 'env) run_state" where
  [js_eval]: "run_state_of o' execute db env =
     (let plan = ro_plan o'
      in \<lparr>rs_db = db, rs_env = env,
          rs_checkpoints = checkpoint_index (if execute
            then repo_loadCheckpoints (ro_repository o') (plan_storeCodes plan) (plan_domains plan) db else []),
          rs_invocations = 0\<rparr>)"

text \<open>The windows of a run in some order, the closing of the run, and the report.\<close>

definition finish_run ::
    "('db, 'env) run_options \<Rightarrow> bool \<Rightarrow> authorization option \<Rightarrow> int option \<Rightarrow> entry list \<Rightarrow>
     'db \<Rightarrow> 'env \<Rightarrow> run_report result \<times> 'db \<times> 'env" where
  [js_eval]: "finish_run o' execute auth runId order db env =
     (case run_entries (run_config_of o' execute runId db) order (run_state_of o' execute db env) of
        (Inl e, st) \<Rightarrow> (Inl e, rs_db st, rs_env st)
      | (Inr irs, st) \<Rightarrow>
          (let rs = map snd (sort_key fst irs);
               report = report_of execute (plan_planHash (ro_plan o')) runId auth (rs_invocations st) rs
           in if \<not> execute then (Inr report, rs_db st, rs_env st)
              else case repo_close (ro_repository o') runId (rep_status report) (ro_completedAt o')
                    (if rep_status report = RUN_SUCCEEDED then None else first_code rs) (rs_db st) of
                  (Inl e, db') \<Rightarrow> (Inl e, db', rs_env st)
                | (Inr _, db') \<Rightarrow> (Inr report, db', rs_env st)))"

definition runBackfillPlan ::
    "('db, 'env) run_options \<Rightarrow> entry list \<Rightarrow> 'db \<Rightarrow> 'env \<Rightarrow> run_report result \<times> 'db \<times> 'env" where
  [js_eval]: "runBackfillPlan o' order db env =
     (if ro_mode o' \<noteq> ''DRY_RUN'' \<and> ro_mode o' \<noteq> ''EXECUTE'' then (Inl (Fail ''INVALID_MODE'' []), db, env)
      else if ro_mode o' = ''DRY_RUN'' then finish_run o' False None None order db env
      else case assertExecuteAuthorization (ro_plan o') (ro_approvedPlanHash o') (ro_allowedStoreCodes o')
          (ro_allowedDomains o') of
          Inl e \<Rightarrow> (Inl e, db, env)
        | Inr auth \<Rightarrow>
            (case repo_openRun (ro_repository o') (run_request_of o') (ro_startedAt o') db of
               (Inl e, db') \<Rightarrow> (Inl e, db', env)
             | (Inr h, db') \<Rightarrow> finish_run o' True (Some auth) (rh_id h) order db' env))"

end
