(* ===== verification/Runner_Schedule.thy ===== *)
theory Runner_Schedule
  imports Backfill_Runner Ledger_Properties
begin

text \<open>
  The scheduler of \<open>src/backfill/runner.mjs\<close>: whatever the interleaving of the lanes, the windows
  that share a checkpoint are processed one after the other in plan order, no window is lost or
  repeated, and the lanes always finish.
\<close>

section \<open>Queues\<close>

lemma group_filter:
  assumes "distinct (map fst ps)" "\<And>k' q. (k', q) \<in> set ps \<Longrightarrow> \<forall>x\<in>set q. key x = k'"
  shows "filter (\<lambda>x. key x = k) (concat (map snd ps)) = (case map_of ps k of None \<Rightarrow> [] | Some q \<Rightarrow> q)"
  using assms
proof (induction ps)
  case Nil
  show ?case by simp
next
  case (Cons p ps)
  obtain k' q where p: "p = (k', q)" by (cases p)
  have q: "\<forall>x\<in>set q. key x = k'" using Cons.prems(2) [of k' q] by (simp add: p)
  have IH: "filter (\<lambda>x. key x = k) (concat (map snd ps)) = (case map_of ps k of None \<Rightarrow> [] | Some q \<Rightarrow> q)"
    using Cons.prems by (intro Cons.IH) auto
  show ?case
  proof (cases "k = k'")
    case True
    then have "map_of ps k = None" using Cons.prems(1) by (simp add: p map_of_eq_None_iff)
    moreover have "filter (\<lambda>x. key x = k) q = q" using q True by (intro filter_True) simp
    ultimately show ?thesis using IH True by (simp add: p)
  next
    case False
    then have "filter (\<lambda>x. key x = k) q = []" using q by (intro filter_False) simp
    then show ?thesis using IH False by (simp add: p)
  qed
qed

text \<open>The number of queues that hold an entry of a key.\<close>

definition holders :: "('a \<Rightarrow> bool) \<Rightarrow> 'a list list \<Rightarrow> nat" where
  "holders P qs = length (filter (\<lambda>q. filter P q \<noteq> []) qs)"

lemma holders_simps [simp]:
  "holders P [] = 0" "holders P (q # qs) = (if filter P q = [] then 0 else 1) + holders P qs"
  "holders P (qs @ qs') = holders P qs + holders P qs'"
  by (simp_all add: holders_def)

lemma holders_zero: "holders P qs = 0 \<Longrightarrow> filter P (concat qs) = []"
  by (induction qs) (auto split: if_splits)

lemma holders_replicate [simp]: "holders P (replicate n []) = 0"
  by (induction n) simp_all

lemma group_holders:
  assumes "distinct (map fst ps)" "\<And>k' q. (k', q) \<in> set ps \<Longrightarrow> \<forall>x\<in>set q. key x = k'"
  shows "holders (\<lambda>x. key x = k) (map snd ps) \<le> 1"
  using assms
proof (induction ps)
  case Nil
  show ?case by simp
next
  case (Cons p ps)
  obtain k' q where p: "p = (k', q)" by (cases p)
  have q: "\<forall>x\<in>set q. key x = k'" using Cons.prems(2) [of k' q] by (simp add: p)
  have IH: "holders (\<lambda>x. key x = k) (map snd ps) \<le> 1" using Cons.prems by (intro Cons.IH) auto
  show ?case
  proof (cases "k = k'")
    case True
    have "filter (\<lambda>x. key x = k) q' = []" if mem: "q' \<in> set (map snd ps)" for q'
    proof -
      obtain k'' where k'': "(k'', q') \<in> set ps" using mem by auto
      then have "k'' \<noteq> k" using Cons.prems(1) True by (force simp: p)
      then show ?thesis using Cons.prems(2) [of k'' q'] k'' by (intro filter_False) auto
    qed
    then have "holders (\<lambda>x. key x = k) (map snd ps) = 0"
      unfolding holders_def by (simp add: filter_empty_conv del: set_map)
    then show ?thesis by (simp add: p)
  next
    case False
    then have "filter (\<lambda>x. key x = k) q = []" using q by (intro filter_False) simp
    then show ?thesis using IH by (simp add: p)
  qed
qed

section \<open>Lanes\<close>

text \<open>
  The entries of one key: those that are done, then those of the one queue that holds the rest.
\<close>

definition lanes_inv :: "('a \<Rightarrow> bool) \<Rightarrow> 'a list \<Rightarrow> 'a lanes \<Rightarrow> bool" where
  "lanes_inv P xs s \<longleftrightarrow>
     holders P (ln_lanes s @ ln_pending s) \<le> 1 \<and>
     filter P (ln_done s) @ filter P (concat (ln_lanes s @ ln_pending s)) = xs"

lemma split_lane:
  assumes "i < length ls" "ls ! i = x"
  obtains A B where "ls = A @ x # B" "\<And>y. (A @ x # B)[i := y] = A @ y # B"
  by (rule that [of "take i ls" "drop (Suc i) ls"])
    (use assms in \<open>auto simp: list_update_append min_def intro: id_take_nth_drop\<close>)

lemma lane_step_inv:
  assumes "lane_step s s'" "lanes_inv P xs s"
  shows "lanes_inv P xs s'"
  using assms(1)
proof (cases rule: lane_step.cases)
  case (claim i q qs)
  obtain A B where ls: "ln_lanes s = A @ [] # B" "\<And>y. (A @ [] # B)[i := y] = A @ y # B"
    by (rule split_lane [OF claim(2,3)]) blast
  show ?thesis
  proof (cases "filter P q = []")
    case True
    then show ?thesis using assms(2) by (simp add: lanes_inv_def claim(1,4) ls)
  next
    case False
    then have zero: "holders P A = 0" "holders P B = 0" "holders P qs = 0"
      using assms(2) by (simp_all add: lanes_inv_def claim(4) ls)
    from zero [THEN holders_zero] show ?thesis
      using assms(2) zero by (simp add: lanes_inv_def claim(1,4) ls)
  qed
next
  case (finish i e q)
  obtain A B where ls: "ln_lanes s = A @ (e # q) # B" "\<And>y. (A @ (e # q) # B)[i := y] = A @ y # B"
    by (rule split_lane [OF finish(2,3)]) blast
  show ?thesis
  proof (cases "P e")
    case False
    then show ?thesis using assms(2) by (simp add: lanes_inv_def finish(1) ls)
  next
    case True
    then have zero: "holders P A = 0" "holders P B = 0" "holders P (ln_pending s) = 0"
      using assms(2) by (simp_all add: lanes_inv_def ls)
    from zero [THEN holders_zero] show ?thesis
      using assms(2) zero True by (simp add: lanes_inv_def finish(1) ls)
  qed
qed

lemma lane_steps_inv: "lane_step\<^sup>*\<^sup>* s s' \<Longrightarrow> lanes_inv P xs s \<Longrightarrow> lanes_inv P xs s'"
  by (induction rule: rtranclp_induct) (blast intro: lane_step_inv)+

lemma lanes_start_inv: "holders P grains \<le> 1 \<Longrightarrow> lanes_inv P (filter P (concat grains)) (lanes_start n grains)"
  by (simp add: lanes_inv_def lanes_start_def holders_zero)

lemma lanes_finished_done:
  assumes "lanes_inv P xs s" "lanes_finished s"
  shows "filter P (ln_done s) = xs"
proof -
  have "filter P (concat (ln_lanes s @ ln_pending s)) = []"
    using assms(2) by (auto simp: lanes_finished_def list_all_iff filter_empty_conv)
  then show ?thesis using assms(1) unfolding lanes_inv_def by (metis append_Nil2)
qed

section \<open>Finishing\<close>

definition lane_measure :: "'a lanes \<Rightarrow> nat" where
  "lane_measure s = length (concat (ln_lanes s)) + length (concat (ln_pending s)) + length (ln_pending s)"

lemma lane_step_measure:
  assumes "lane_step s s'"
  shows "Suc (lane_measure s') = lane_measure s \<and> length (ln_lanes s') = length (ln_lanes s)"
  using assms
proof (cases rule: lane_step.cases)
  case (claim i q qs)
  obtain A B where ls: "ln_lanes s = A @ [] # B" "\<And>y. (A @ [] # B)[i := y] = A @ y # B"
    by (rule split_lane [OF claim(2,3)]) blast
  show ?thesis by (simp add: lane_measure_def claim(1,4) ls)
next
  case (finish i e q)
  obtain A B where ls: "ln_lanes s = A @ (e # q) # B" "\<And>y. (A @ (e # q) # B)[i := y] = A @ y # B"
    by (rule split_lane [OF finish(2,3)]) blast
  show ?thesis by (simp add: lane_measure_def finish(1) ls)
qed

lemma lane_progress:
  assumes "ln_lanes s \<noteq> []" "\<not> lanes_finished s"
  shows "\<exists>s'. lane_step s s'"
proof (cases "list_all (\<lambda>q. q = []) (ln_lanes s)")
  case True
  then obtain q qs where "ln_pending s = q # qs" using assms(2) by (cases "ln_pending s") (simp_all add: lanes_finished_def)
  moreover have "ln_lanes s ! 0 = []" using True assms(1) by (cases "ln_lanes s") simp_all
  ultimately show ?thesis using assms(1) by (blast intro: lane_step.claim [of 0])
next
  case False
  then obtain q where "q \<in> set (ln_lanes s)" "q \<noteq> []" by (auto simp: list_all_iff)
  then obtain i e q' where "i < length (ln_lanes s)" "ln_lanes s ! i = e # q'"
    by (metis in_set_conv_nth neq_Nil_conv)
  then show ?thesis by (blast intro: lane_step.finish)
qed

lemma lane_steps_measure:
  "(lane_step ^^ n) s s' \<Longrightarrow> lane_measure s' + n = lane_measure s \<and> length (ln_lanes s') = length (ln_lanes s)"
proof (induction n arbitrary: s')
  case (Suc n)
  then obtain t where t: "(lane_step ^^ n) s t" "lane_step t s'" by auto
  show ?case using Suc.IH [OF t(1)] lane_step_measure [OF t(2)] by simp
qed simp

lemma lanes_can_finish:
  "ln_lanes s \<noteq> [] \<Longrightarrow> \<exists>s'. lane_step\<^sup>*\<^sup>* s s' \<and> lanes_finished s'"
proof (induction "lane_measure s" arbitrary: s rule: less_induct)
  case less
  show ?case
  proof (cases "lanes_finished s")
    case False
    then obtain t where t: "lane_step s t" using lane_progress less.prems by blast
    then have "ln_lanes t \<noteq> []" "lane_measure t < lane_measure s"
      using lane_step_measure [OF t] less.prems by auto
    then obtain s' where "lane_step\<^sup>*\<^sup>* t s'" "lanes_finished s'" using less.hyps by blast
    with t show ?thesis by (meson converse_rtranclp_into_rtranclp)
  qed blast
qed

section \<open>The queues of a plan\<close>

definition entry_of :: "string \<Rightarrow> entry \<Rightarrow> bool" where
  "entry_of k e \<longleftrightarrow> window_grain_key (snd e) = k"

lemma grain_queues_filter: "filter (entry_of k) (concat (grain_queues ws)) = filter (entry_of k) (enumerate 0 ws)"
  and grain_queues_holders: "holders (entry_of k) (grain_queues ws) \<le> 1"
proof -
  let ?key = "\<lambda>e :: entry. window_grain_key (snd e)"
  let ?ps = "group_by_key ?key (enumerate 0 ws)"
  have d: "distinct (map fst ?ps)" by (rule distinct_group_by_key)
  have q: "\<And>k' q. (k', q) \<in> set ?ps \<Longrightarrow> \<forall>x\<in>set q. ?key x = k'" by (auto simp: group_by_key_mem)
  have "filter (\<lambda>e. ?key e = k) (concat (map snd ?ps)) = filter (\<lambda>e. ?key e = k) (enumerate 0 ws)"
  proof -
    have "filter (\<lambda>e. ?key e = k) (concat (map snd ?ps)) = (case map_of ?ps k of None \<Rightarrow> [] | Some q \<Rightarrow> q)"
      by (rule group_filter [OF d q])
    moreover have "filter (\<lambda>e. ?key e = k) (enumerate 0 ws) = []" if "k \<notin> ?key ` set (enumerate 0 ws)"
      using that by (intro filter_False) auto
    ultimately show ?thesis
      by (cases "k \<in> ?key ` set (enumerate 0 ws)") (simp_all only: map_of_group_by_key if_True if_False option.case not_False_eq_True)
  qed
  then show "filter (entry_of k) (concat (grain_queues ws)) = filter (entry_of k) (enumerate 0 ws)"
    by (simp add: grain_queues_def entry_of_def [abs_def])
  show "holders (entry_of k) (grain_queues ws) \<le> 1"
    using group_holders [OF d q] by (simp add: grain_queues_def entry_of_def [abs_def])
qed

lemma lane_count_pos: "0 < lane_count c grains"
  unfolding lane_count_def by (rule min_less_iff_conj [THEN iffD2]) (simp add: less_max_iff_disj)

lemma finish_order_filter:
  assumes "finish_order plan order"
  shows "filter (entry_of k) order = filter (entry_of k) (enumerate 0 (plan_windows plan))"
proof -
  let ?grains = "grain_queues (plan_windows plan)"
  obtain s where s: "lane_step\<^sup>*\<^sup>* (lanes_start (lane_count (plan_concurrency plan) ?grains) ?grains) s"
    "lanes_finished s" "ln_done s = order"
    using assms by (auto simp: finish_order_def Let_def)
  have "lanes_inv (entry_of k) (filter (entry_of k) (concat ?grains)) s"
    by (rule lane_steps_inv [OF s(1)]) (rule lanes_start_inv [OF grain_queues_holders])
  then show ?thesis using lanes_finished_done [OF _ s(2)] by (simp add: s(3) grain_queues_filter)
qed

lemma count_by_key: "count (mset xs) x = count (mset (filter (entry_of (window_grain_key (snd x))) xs)) x"
  by (simp add: entry_of_def)

lemma finish_order_mset:
  assumes "finish_order plan order"
  shows "mset order = mset (enumerate 0 (plan_windows plan))"
  by (rule multiset_eqI) (metis count_by_key finish_order_filter [OF assms])

lemma finish_order_exists: "\<exists>order. finish_order plan order"
proof -
  let ?grains = "grain_queues (plan_windows plan)"
  have "ln_lanes (lanes_start (lane_count (plan_concurrency plan) ?grains) ?grains) \<noteq> []"
    using lane_count_pos [of "plan_concurrency plan" ?grains] by (simp add: lanes_start_def)
  from lanes_can_finish [OF this] show ?thesis by (auto simp: finish_order_def Let_def)
qed

lemma finish_order_windows:
  assumes "finish_order plan order"
  shows "set (map snd order) = set (plan_windows plan)"
proof -
  have "set order = set (enumerate 0 (plan_windows plan))"
    by (metis finish_order_mset [OF assms] set_mset_mset)
  then show ?thesis by (metis list.set_map map_snd_enumerate)
qed

lemma filter_one: "distinct (map k xs) \<Longrightarrow> e \<in> set xs \<Longrightarrow> filter (\<lambda>x. k e = k x) xs = [e]"
proof (induction xs)
  case (Cons x xs)
  show ?case
  proof (cases "e = x")
    case True
    then have "filter (\<lambda>x. k e = k x) xs = []" using Cons.prems(1) by (intro filter_False) (force simp: image_iff)
    then show ?thesis by (simp add: True)
  next
    case False
    then have "e \<in> set xs" using Cons.prems by simp
    moreover from this have "k e \<noteq> k x" using Cons.prems(1) by (metis distinct.simps(2) imageI list.map(2) list.set_map)
    ultimately have "e \<in> set xs" "k e \<noteq> k x" by blast+
    then show ?thesis using Cons.IH Cons.prems(1) by simp
  qed
qed simp

text \<open>Sorting any finish order by the index gives the plan order back.\<close>

lemma finish_order_sorted:
  assumes "finish_order plan order"
  shows "sort_key fst order = enumerate 0 (plan_windows plan)"
proof (rule properties_for_sort_key)
  note m = finish_order_mset [OF assms]
  have d: "distinct (map fst (enumerate 0 (plan_windows plan)))" by simp
  have d': "distinct (map fst order)"
    using d m by (metis mset_eq_imp_distinct_iff mset_map)
  show "mset (enumerate 0 (plan_windows plan)) = mset order" using m by simp
  show "sorted (map fst (enumerate 0 (plan_windows plan)))" by simp
  fix e
  assume "e \<in> set (enumerate 0 (plan_windows plan))"
  then have e: "e \<in> set order" by (metis m set_mset_mset)
  have one: "filter (\<lambda>x. fst e = fst x) xs = [e]" if "distinct (map fst xs)" "e \<in> set xs" for xs :: "entry list"
    by (rule filter_one [OF that])
  show "filter (\<lambda>x. fst e = fst x) (enumerate 0 (plan_windows plan)) = filter (\<lambda>x. fst e = fst x) order"
    using one [OF d] one [OF d' e] \<open>e \<in> set (enumerate 0 (plan_windows plan))\<close> by simp
qed

section \<open>A sample plan\<close>

text \<open>Two days of purchase orders of one store, the newest first, and the order of its windows.\<close>

definition sample_backfill :: bf_plan where
  [js_eval]: "sample_backfill =
     (let ws = [sample_window,
        sample_window\<lparr>win_windowStart := ''2026-02-27'', win_windowEnd := ''2026-02-28'',
          win_windowKey := replicate 64 CHR ''c''\<rparr>]
      in \<lparr>plan_planVersion = BACKFILL_PLAN_VERSION, plan_planHash = replicate 64 CHR ''a'',
          plan_createdBy = ''ops:wang'', plan_storeCodes = [''ZS0005''], plan_domains = [''purchase-orders''],
          plan_from = ''2026-02-27'', plan_to = ''2026-02-28'', plan_windowSpanDays = 1, plan_concurrency = 2,
          plan_maxAttempts = 3, plan_windows = ws, plan_summary = plan_summary_of ws 2\<rparr>)"

definition sample_order :: "entry list" where
  [js_eval]: "sample_order = enumerate 0 (plan_windows sample_backfill)"

lemma sample_order_finish: "finish_order sample_backfill sample_order"
proof -
  obtain a b where o': "sample_order = [a, b]" by (simp add: sample_order_def sample_backfill_def Let_def)
  have g: "grain_queues (plan_windows sample_backfill) = [[a, b]]"
  proof -
    have "grain_queues (plan_windows sample_backfill) = [sample_order]" by code_simp
    then show ?thesis by (simp only: o')
  qed
  let ?s0 = "lanes_start (lane_count (plan_concurrency sample_backfill) [[a, b]]) [[a, b]]"
  have s0: "?s0 = \<lparr>ln_pending = [[a, b]], ln_lanes = [[]], ln_done = []\<rparr>"
    by (simp add: lanes_start_def lane_count_def sample_backfill_def Let_def)
  have "lane_step ?s0 \<lparr>ln_pending = [], ln_lanes = [[a, b]], ln_done = []\<rparr>"
    using lane_step.claim [of 0 ?s0 "[a, b]" "[]"] by (simp add: s0)
  moreover have "lane_step \<lparr>ln_pending = [], ln_lanes = [[a, b]], ln_done = []\<rparr>
      \<lparr>ln_pending = [], ln_lanes = [[b]], ln_done = [a]\<rparr>"
    using lane_step.finish [of 0 "\<lparr>ln_pending = [], ln_lanes = [[a, b]], ln_done = []\<rparr>" a "[b]"] by simp
  moreover have "lane_step \<lparr>ln_pending = [], ln_lanes = [[b]], ln_done = [a]\<rparr>
      \<lparr>ln_pending = [], ln_lanes = [[]], ln_done = [a, b]\<rparr>"
    using lane_step.finish [of 0 "\<lparr>ln_pending = [], ln_lanes = [[b]], ln_done = [a]\<rparr>" b "[]"] by simp
  ultimately have "lane_step\<^sup>*\<^sup>* ?s0 \<lparr>ln_pending = [], ln_lanes = [[]], ln_done = [a, b]\<rparr>"
    by (meson converse_rtranclp_into_rtranclp r_into_rtranclp)
  then show ?thesis
    unfolding finish_order_def Let_def g o' by (intro exI conjI) (assumption, simp_all add: lanes_finished_def)
qed

section \<open>Properties\<close>

text \<open>
  C32. The windows that share a store, domain and adapter, and so one checkpoint, finish in plan
  order under every interleaving of the lanes; the order as a whole processes every window of the
  plan exactly once.
\<close>

theorem grains_run_in_plan_order:
  assumes "finish_order plan order"
  shows "filter (\<lambda>(i, w). window_grain_key w = k) order =
           filter (\<lambda>(i, w). window_grain_key w = k) (enumerate 0 (plan_windows plan)) \<and>
         mset (map snd order) = mset (plan_windows plan)"
proof -
  have "entry_of k = (\<lambda>(i, w). window_grain_key w = k)" by (auto simp: entry_of_def)
  moreover have "mset (map snd order) = mset (plan_windows plan)"
    using arg_cong [OF finish_order_mset [OF assms], of "image_mset snd"]
    by (simp only: mset_map [symmetric] map_snd_enumerate)
  ultimately show ?thesis using finish_order_filter [OF assms, of k] by simp
qed

theorem grains_run_in_plan_order_witness:
  "filter (\<lambda>(i, w). window_grain_key w = window_grain_key sample_window) sample_order = sample_order \<and>
   mset (map snd sample_order) = mset (plan_windows sample_backfill)"
proof -
  have "filter (\<lambda>(i, w). window_grain_key w = window_grain_key sample_window)
      (enumerate 0 (plan_windows sample_backfill)) = sample_order" by code_simp
  then show ?thesis using grains_run_in_plan_order [OF sample_order_finish] by simp
qed

text \<open>
  C33. The lanes terminate and never deadlock: a schedule makes at most one step per window and one
  per queue, and as long as a lane is working or a queue is waiting some lane can take a step.
\<close>

theorem lanes_terminate:
  assumes "(lane_step ^^ n) (lanes_start (lane_count c (grain_queues ws)) (grain_queues ws)) s"
  shows "n \<le> length (concat (grain_queues ws)) + length (grain_queues ws) \<and>
         (lanes_finished s \<or> (\<exists>s'. lane_step s s'))"
proof -
  let ?s0 = "lanes_start (lane_count c (grain_queues ws)) (grain_queues ws)"
  note m = lane_steps_measure [OF assms]
  have zero: "concat (replicate k ([] :: entry list)) = []" for k by (induction k) simp_all
  have "lane_measure ?s0 = length (concat (grain_queues ws)) + length (grain_queues ws)"
    by (simp add: lane_measure_def lanes_start_def zero)
  moreover have "ln_lanes s \<noteq> []"
    using m lane_count_pos [of c "grain_queues ws"] by (auto simp: lanes_start_def)
  ultimately show ?thesis using m lane_progress by auto
qed

theorem lanes_terminate_witness:
  "\<exists>s'. lane_step (lanes_start (lane_count 2 (grain_queues (plan_windows sample_backfill)))
     (grain_queues (plan_windows sample_backfill))) s'"
proof -
  have "(lane_step ^^ 0) s s" for s :: "entry lanes" by simp
  note L = lanes_terminate [OF this, where c = 2 and ws = "plan_windows sample_backfill"]
  have "\<not> lanes_finished (lanes_start (lane_count 2 (grain_queues (plan_windows sample_backfill)))
     (grain_queues (plan_windows sample_backfill)))" by code_simp
  with L show ?thesis by blast
qed

end
