(* ===== verification/Runner_Properties.thy ===== *)
theory Runner_Properties
  imports Runner_Schedule
begin

text \<open>
  What a run of \<open>src/backfill/runner.mjs\<close> may do: which windows reach an adapter and how often, what
  it records, and how it reports. The laws that the runner needs of a repository are a locale, with
  the ledger and the null repository as its instances.
\<close>

section \<open>Attempts\<close>

text \<open>A request the runner may hand to the adapter of a window.\<close>

definition request_for :: "string \<Rightarrow> bf_window \<Rightarrow> fetch_request \<Rightarrow> bool" where
  "request_for planHash w req \<longleftrightarrow>
     (\<exists>n ck. 1 \<le> n \<and> n \<le> 99 \<and> req = fetch_request_of planHash w n ck)"

text \<open>The four ways in which an attempt ends.\<close>

lemma attempt_cases:
  obtains
    (limit) "99 < prior + int (Suc k)"
      "attempt_window planHash fetch w ck prior left k env =
        (Inr (evaluateWindowOutcome w (failed_result ''BACKFILL_ATTEMPT_LIMIT_REACHED'') ck, Suc k), env, 0)"
  | (fault) e env' where "prior + int (Suc k) \<le> 99"
      "env' = snd (fetch (fetch_request_of planHash w (prior + int (Suc k)) ck) env)"
      "attempt_window planHash fetch w ck prior left k env = (Inl e, env', 1)"
  | (ended) v env' where "prior + int (Suc k) \<le> 99"
      "env' = snd (fetch (fetch_request_of planHash w (prior + int (Suc k)) ck) env)"
      "left = 0 \<or> \<not> retryable (evaluateWindowOutcome w v ck)"
      "attempt_window planHash fetch w ck prior left k env = (Inr (evaluateWindowOutcome w v ck, Suc k), env', 1)"
  | (again) v env' left' r env'' n where "prior + int (Suc k) \<le> 99"
      "env' = snd (fetch (fetch_request_of planHash w (prior + int (Suc k)) ck) env)"
      "left = Suc left'" "retryable (evaluateWindowOutcome w v ck)"
      "attempt_window planHash fetch w ck prior left' (Suc k) env' = (r, env'', n)"
      "attempt_window planHash fetch w ck prior left k env = (r, env'', Suc n)"
proof (cases "99 < prior + int (Suc k)")
  case True
  show thesis by (rule limit [OF True]) (subst attempt_window.simps, simp add: True [simplified])
next
  case False
  note under = False
  let ?req = "fetch_request_of planHash w (prior + int (Suc k)) ck"
  obtain reply env' where f: "fetch ?req env = (reply, env')" by (cases "fetch ?req env")
  define read where "read = (case reply of Returned v \<Rightarrow> Inr v
    | Threw c \<Rightarrow> ebind (sanitizedCode c ''ADAPTER_THREW'') (\<lambda>s. Inr (failed_result s)))"
  have env': "env' = snd (fetch ?req env)" by (simp only: f snd_conv)
  have le: "prior + int (Suc k) \<le> 99" using under by simp
  have eq: "attempt_window planHash fetch w ck prior left k env =
      (case read of Inl e \<Rightarrow> (Inl e, env', 1)
       | Inr v \<Rightarrow> if \<not> retryable (evaluateWindowOutcome w v ck) then (Inr (evaluateWindowOutcome w v ck, Suc k), env', 1)
           else (case left of 0 \<Rightarrow> (Inr (evaluateWindowOutcome w v ck, Suc k), env', 1)
             | Suc left' \<Rightarrow> (case attempt_window planHash fetch w ck prior left' (Suc k) env' of
                 (r, env'', n) \<Rightarrow> (r, env'', Suc n))))"
    by (subst attempt_window.simps) (simp only: under if_False f prod.case read_def Let_def)
  show thesis
  proof (cases read)
    case (Inl e)
    then show thesis using eq by (intro fault [OF le env']) simp
  next
    case (Inr v)
    show thesis
    proof (cases "left = 0 \<or> \<not> retryable (evaluateWindowOutcome w v ck)")
      case True
      then show thesis using eq Inr by (intro ended [OF le env' True]) auto
    next
      case False
      then obtain left' where l: "left = Suc left'" by (cases left) auto
      obtain r env'' n where rec: "attempt_window planHash fetch w ck prior left' (Suc k) env' = (r, env'', n)"
        by (cases "attempt_window planHash fetch w ck prior left' (Suc k) env'")
      show thesis using eq Inr False
        by (intro again [OF le env' l _ rec]) (simp_all add: l rec)
    qed
  qed
qed

lemma attempt_window_env:
  assumes "\<And>req e. request_for planHash w req \<Longrightarrow> I e \<Longrightarrow> I (snd (fetch req e))" "0 \<le> prior" "I env"
  shows "I (fst (snd (attempt_window planHash fetch w ck prior left k env)))"
  using assms(3)
proof (induction left arbitrary: k env rule: less_induct)
  case (less left)
  have call: "I (snd (fetch (fetch_request_of planHash w (prior + int (Suc k)) ck) env))"
    if "prior + int (Suc k) \<le> 99"
    by (rule assms(1) [OF _ less.prems]) (unfold request_for_def, intro exI conjI refl, use assms(2) that in auto)
  show ?case
  proof (cases rule: attempt_cases [of prior k planHash fetch w ck left env])
    case (again v env' left' r env'' n)
    then show ?thesis using less.IH [of left' env' "Suc k"] call by simp
  qed (use less.prems call in simp_all)
qed

text \<open>The result of a window is the verdict on a value, and counts the attempts.\<close>

lemma attempt_window_result:
  assumes "attempt_window planHash fetch w ck prior left k env = (r, env', n)" "prior + int k \<le> 99"
  shows "n \<le> Suc left \<and> (r = Inr (oc, k') \<longrightarrow>
       k < k' \<and> k' \<le> k + Suc left \<and> (\<exists>v. oc = evaluateWindowOutcome w v ck) \<and>
       (k' = k + n \<and> prior + int k' \<le> 99 \<or>
        k' = Suc (k + n) \<and> prior + int k' = 100 \<and>
          oc = evaluateWindowOutcome w (failed_result ''BACKFILL_ATTEMPT_LIMIT_REACHED'') ck))"
  using assms
proof (induction left arbitrary: k env n rule: less_induct)
  case (less left)
  show ?case
  proof (cases rule: attempt_cases [of prior k planHash fetch w ck left env])
    case (again v e1 left' r1 e2 n1)
    then have "r1 = r" "e2 = env'" "n = Suc n1" using less.prems(1) by simp_all
    then show ?thesis
      using less.IH [of left' "Suc k" e1 n1] again(1,3,5) by auto
  qed (use less.prems in auto)
qed

section \<open>One window\<close>

text \<open>Whether a window is handed to an adapter.\<close>

definition due :: "('db, 'env) run_config \<Rightarrow> bf_window \<Rightarrow> bool" where
  "due cf w \<longleftrightarrow> rc_execute cf \<and> win_capabilityStatus w = VERIFIED \<and> win_windowKey w \<notin> set (rc_completed cf)"

lemma process_cases:
  obtains
    (blocked) c where "win_capabilityStatus w \<noteq> VERIFIED \<or> due cf w \<and> rc_adapters cf (win_adapterKey w) = None"
      "c = (if win_capabilityStatus w \<noteq> VERIFIED
            then (case win_blockedReasonCode w of Some c \<Rightarrow> c | None \<Rightarrow> ''CAPABILITY_NOT_VERIFIED'')
            else ''ADAPTER_NOT_REGISTERED'')"
      "processWindow cf w st = record_blocked cf w c st"
  | (planned) "win_capabilityStatus w = VERIFIED" "\<not> rc_execute cf"
      "processWindow cf w st = (Inr (passive_result w PLANNED UNKNOWN None), st)"
  | (skipped) "win_capabilityStatus w = VERIFIED" "rc_execute cf" "win_windowKey w \<in> set (rc_completed cf)"
      "processWindow cf w st = (Inr (passive_result w SKIPPED PASSED None), st)"
  | (fault) fetch e env n where "due cf w" "rc_adapters cf (win_adapterKey w) = Some fetch"
      "attempt_window (rc_planHash cf) fetch w (rs_checkpoints st (window_grain_key w))
         (rc_prior cf (win_windowKey w)) (max_attempts w - 1) 0 (rs_env st) = (Inl e, env, n)"
      "processWindow cf w st = (Inl e, st\<lparr>rs_env := env, rs_invocations := rs_invocations st + n\<rparr>)"
  | (attempted) fetch oc k env n where "due cf w" "rc_adapters cf (win_adapterKey w) = Some fetch"
      "attempt_window (rc_planHash cf) fetch w (rs_checkpoints st (window_grain_key w))
         (rc_prior cf (win_windowKey w)) (max_attempts w - 1) 0 (rs_env st) = (Inr (oc, k), env, n)"
      "processWindow cf w st =
         commit_attempted cf w oc k (st\<lparr>rs_env := env, rs_invocations := rs_invocations st + n\<rparr>)"
proof (cases "win_capabilityStatus w = VERIFIED \<and> rc_execute cf \<and> win_windowKey w \<notin> set (rc_completed cf)")
  case False
  then show thesis
    using blocked planned skipped by (cases "win_capabilityStatus w = VERIFIED") (auto simp: processWindow_def)
next
  case True
  then have d: "due cf w" by (simp add: due_def)
  show thesis
  proof (cases "rc_adapters cf (win_adapterKey w)")
    case None
    then show thesis using True d by (intro blocked [of "''ADAPTER_NOT_REGISTERED''"]) (simp_all add: processWindow_def)
  next
    case (Some fetch)
    obtain r env n where a: "attempt_window (rc_planHash cf) fetch w (rs_checkpoints st (window_grain_key w))
         (rc_prior cf (win_windowKey w)) (max_attempts w - 1) 0 (rs_env st) = (r, env, n)"
      by (cases "attempt_window (rc_planHash cf) fetch w (rs_checkpoints st (window_grain_key w))
         (rc_prior cf (win_windowKey w)) (max_attempts w - 1) 0 (rs_env st)")
    show thesis
    proof (cases r)
      case (Inl e)
      then show thesis using True a Some by (intro fault [OF d Some a [unfolded Inl]]) (simp add: processWindow_def)
    next
      case (Inr p)
      obtain oc k where p: "p = (oc, k)" by (cases p)
      show thesis using True a Some Inr
        by (intro attempted [OF d Some a [unfolded Inr p]]) (simp add: processWindow_def p)
    qed
  qed
qed

lemma record_blocked_cases:
  obtains
    (rehearsed) "\<not> rc_execute cf" "record_blocked cf w c st = (Inr (passive_result w BLOCKED UNKNOWN (Some c)), st)"
  | (failed) e db where "rc_execute cf"
      "repo_record (rc_repository cf) (rc_runId cf) w (blocked_outcome c) 0 (rs_db st) = (Inl e, db)"
      "record_blocked cf w c st = (Inl e, st\<lparr>rs_db := db\<rparr>)"
  | (recorded) p db where "rc_execute cf"
      "repo_record (rc_repository cf) (rc_runId cf) w (blocked_outcome c) 0 (rs_db st) = (Inr p, db)"
      "record_blocked cf w c st = (Inr (passive_result w BLOCKED UNKNOWN (Some c)), st\<lparr>rs_db := db\<rparr>)"
proof (cases "rc_execute cf")
  case False
  then show thesis by (intro rehearsed) (simp_all add: record_blocked_def)
next
  case True
  obtain r db where r: "repo_record (rc_repository cf) (rc_runId cf) w (blocked_outcome c) 0 (rs_db st) = (r, db)"
    by (cases "repo_record (rc_repository cf) (rc_runId cf) w (blocked_outcome c) 0 (rs_db st)")
  show thesis
  proof (cases r)
    case (Inl e)
    then show thesis using True r by (intro failed [OF True r [unfolded Inl]]) (simp add: record_blocked_def)
  next
    case (Inr p)
    then show thesis using True r by (intro recorded [OF True r [unfolded Inr]]) (simp add: record_blocked_def)
  qed
qed

text \<open>The checkpoint state that a window proposes.\<close>

definition proposed :: "('db, 'env) run_config \<Rightarrow> bf_window \<Rightarrow> gate_outcome \<Rightarrow> ('db, 'env) run_state \<Rightarrow> checkpoint option" where
  "proposed cf w oc st =
     (if out_advanceable oc then nextCheckpointState w oc (rs_checkpoints st (window_grain_key w)) (rc_runId cf) else None)"

lemma proposed_iff: "proposed cf w oc st = nextCheckpointState w oc (rs_checkpoints st (window_grain_key w)) (rc_runId cf)"
  by (simp add: proposed_def nextCheckpointState_def)

lemma commit_attempted_cases:
  obtains
    (failed) e db where
      "repo_commit (rc_repository cf) (rc_runId cf) w oc (int k) (proposed cf w oc st) (rs_db st) = (Inl e, db)"
      "commit_attempted cf w oc k st = (Inl e, st\<lparr>rs_db := db\<rparr>)"
  | (unpersisted) p db where
      "repo_commit (rc_repository cf) (rc_runId cf) w oc (int k) (proposed cf w oc st) (rs_db st) = (Inr p, db)"
      "\<not> ps_persisted p"
      "commit_attempted cf w oc k st = (Inl (Fail ''WINDOW_OUTCOME_NOT_PERSISTED'' []), st\<lparr>rs_db := db\<rparr>)"
  | (committed) p db where
      "repo_commit (rc_repository cf) (rc_runId cf) w oc (int k) (proposed cf w oc st) (rs_db st) = (Inr p, db)"
      "ps_persisted p"
      "commit_attempted cf w oc k st = (Inr (attempted_result w oc (ps_advanced p) k),
         st\<lparr>rs_db := db, rs_checkpoints := (if ps_advanced p \<and> proposed cf w oc st \<noteq> None
            then (rs_checkpoints st)(window_grain_key w := proposed cf w oc st) else rs_checkpoints st)\<rparr>)"
proof -
  obtain r db where r: "repo_commit (rc_repository cf) (rc_runId cf) w oc (int k) (proposed cf w oc st) (rs_db st) = (r, db)"
    by (cases "repo_commit (rc_repository cf) (rc_runId cf) w oc (int k) (proposed cf w oc st) (rs_db st)")
  have eq: "commit_attempted cf w oc k st = (case (r, db) of
       (Inl e, db) \<Rightarrow> (Inl e, st\<lparr>rs_db := db\<rparr>)
     | (Inr p, db) \<Rightarrow>
         if \<not> ps_persisted p then (Inl (Fail ''WINDOW_OUTCOME_NOT_PERSISTED'' []), st\<lparr>rs_db := db\<rparr>)
         else (Inr (attempted_result w oc (ps_advanced p) k),
               st\<lparr>rs_db := db, rs_checkpoints := (if ps_advanced p \<and> proposed cf w oc st \<noteq> None
                  then (rs_checkpoints st)(window_grain_key w := proposed cf w oc st) else rs_checkpoints st)\<rparr>))"
    unfolding commit_attempted_def Let_def proposed_def [symmetric] r ..
  show thesis
  proof (cases r)
    case (Inl e)
    then show thesis using eq r by (intro failed [of e db]) simp_all
  next
    case (Inr p)
    show thesis
    proof (cases "ps_persisted p")
      case True
      then show thesis using eq Inr r by (intro committed [OF _ True]) simp_all
    next
      case False
      then show thesis using eq Inr r by (intro unpersisted [OF _ False]) simp_all
    qed
  qed
qed

section \<open>The frame of a run\<close>

lemma run_config_fields [simp]:
  "rc_execute (run_config_of o' execute runId db) = execute"
  "rc_repository (run_config_of o' execute runId db) = ro_repository o'"
  "rc_adapters (run_config_of o' execute runId db) = ro_adapters o'"
  "rc_planHash (run_config_of o' execute runId db) = plan_planHash (ro_plan o')"
  "rc_runId (run_config_of o' execute runId db) = runId"
  by (simp_all add: run_config_of_def Let_def)

lemma run_state_fields [simp]:
  "rs_db (run_state_of o' execute db env) = db" "rs_env (run_state_of o' execute db env) = env"
  "rs_invocations (run_state_of o' execute db env) = 0"
  by (simp_all add: run_state_of_def Let_def)

lemma finish_cases:
  obtains
    (rejected) e st where
      "run_entries (run_config_of o' execute runId db) order (run_state_of o' execute db env) = (Inl e, st)"
      "finish_run o' execute auth runId order db env = (Inl e, rs_db st, rs_env st)"
  | (rehearsed) irs st where "\<not> execute"
      "run_entries (run_config_of o' execute runId db) order (run_state_of o' execute db env) = (Inr irs, st)"
      "finish_run o' execute auth runId order db env =
        (Inr (report_of False (plan_planHash (ro_plan o')) runId auth (rs_invocations st) (map snd (sort_key fst irs))),
         rs_db st, rs_env st)"
  | (closed) irs st rs report c db' where "execute"
      "run_entries (run_config_of o' execute runId db) order (run_state_of o' execute db env) = (Inr irs, st)"
      "rs = map snd (sort_key fst irs)"
      "report = report_of True (plan_planHash (ro_plan o')) runId auth (rs_invocations st) rs"
      "repo_close (ro_repository o') runId (rep_status report) (ro_completedAt o')
         (if rep_status report = RUN_SUCCEEDED then None else first_code rs) (rs_db st) = (c, db')"
      "finish_run o' execute auth runId order db env =
        ((case c of Inl e \<Rightarrow> Inl e | Inr _ \<Rightarrow> Inr report), db', rs_env st)"
proof -
  obtain m st where m: "run_entries (run_config_of o' execute runId db) order (run_state_of o' execute db env) = (m, st)"
    by (cases "run_entries (run_config_of o' execute runId db) order (run_state_of o' execute db env)")
  show thesis
  proof (cases m)
    case (Inl e)
    then show thesis using m by (intro rejected [OF m [unfolded Inl]]) (simp add: finish_run_def)
  next
    case (Inr irs)
    let ?rs = "map snd (sort_key fst irs)"
    let ?report = "report_of True (plan_planHash (ro_plan o')) runId auth (rs_invocations st) ?rs"
    obtain c db' where c: "repo_close (ro_repository o') runId (rep_status ?report) (ro_completedAt o')
         (if rep_status ?report = RUN_SUCCEEDED then None else first_code ?rs) (rs_db st) = (c, db')"
      by (cases "repo_close (ro_repository o') runId (rep_status ?report) (ro_completedAt o')
         (if rep_status ?report = RUN_SUCCEEDED then None else first_code ?rs) (rs_db st)")
    show thesis
    proof (cases execute)
      case True
      show thesis
        by (rule closed [OF True m [unfolded Inr] refl refl c]) (unfold finish_run_def m Inr, simp add: True Let_def c split: sum.split)
    next
      case False
      show thesis
        by (rule rehearsed [OF False m [unfolded Inr]]) (unfold finish_run_def m Inr, simp add: False Let_def)
    qed
  qed
qed

section \<open>What a run does to its repository\<close>

text \<open>
  A repository whose operations all respect a preorder, and that reports an advanced checkpoint only
  when it was given one.
\<close>

locale backfill_store =
  fixes repo :: "'db repository" and rel :: "'db \<Rightarrow> 'db \<Rightarrow> bool"
  assumes rel_refl: "rel db db"
    and rel_trans: "rel a b \<Longrightarrow> rel b c \<Longrightarrow> rel a c"
    and open_rel: "rel db (snd (repo_openRun repo q i db))"
    and commit_rel: "rel db (snd (repo_commit repo r w oc n cs db))"
    and record_rel: "rel db (snd (repo_record repo r w oc n db))"
    and close_rel: "rel db (snd (repo_close repo r st i ec db))"
    and commit_honest: "repo_commit repo r w oc n cs db = (Inr p, db') \<Longrightarrow> ps_advanced p \<Longrightarrow> cs \<noteq> None"
begin

lemma process_rel:
  assumes "rc_repository cf = repo"
  shows "rel (rs_db st) (rs_db (snd (processWindow cf w st)))"
proof (cases rule: process_cases [of w cf st])
  case (blocked c)
  show ?thesis unfolding blocked(3)
    by (cases rule: record_blocked_cases [of cf w c st])
      (use record_rel [of "rs_db st" "rc_runId cf" w "blocked_outcome c" 0] in \<open>simp_all add: rel_refl assms\<close>)
next
  case (attempted fetch oc k env n)
  let ?st = "st\<lparr>rs_env := env, rs_invocations := rs_invocations st + n\<rparr>"
  show ?thesis unfolding attempted(4)
    by (cases rule: commit_attempted_cases [of cf w oc k ?st])
      (use commit_rel [of "rs_db ?st" "rc_runId cf" w oc "int k" "proposed cf w oc ?st"] in \<open>simp_all add: assms\<close>)
qed (simp_all add: rel_refl)

lemma entries_rel:
  assumes "rc_repository cf = repo"
  shows "rel (rs_db st) (rs_db (snd (run_entries cf es st)))"
proof (induction es arbitrary: st)
  case Nil
  show ?case by (simp add: rel_refl)
next
  case (Cons e es)
  obtain i w where e: "e = (i, w)" by (cases e)
  obtain r st' where p: "processWindow cf w st = (r, st')" by (cases "processWindow cf w st")
  have "rel (rs_db st) (rs_db st')" using process_rel [OF assms, of st w] by (simp add: p)
  moreover have "rel (rs_db st') (rs_db (snd (run_entries cf es st')))" by (rule Cons.IH)
  ultimately show ?case
    by (auto simp: e p intro: rel_trans split: sum.split prod.split)
qed

lemma finish_rel:
  assumes "ro_repository o' = repo"
  shows "rel db (fst (snd (finish_run o' execute auth runId order db env)))"
proof (cases rule: finish_cases [of o' execute runId db order env auth])
  case (rejected e st)
  then show ?thesis
    using entries_rel [of "run_config_of o' execute runId db" "run_state_of o' execute db env" order] assms by simp
next
  case (rehearsed irs st)
  then show ?thesis
    using entries_rel [of "run_config_of o' execute runId db" "run_state_of o' execute db env" order] assms by simp
next
  case (closed irs st rs report c db')
  have "rel db (rs_db st)"
    using entries_rel [of "run_config_of o' execute runId db" "run_state_of o' execute db env" order] closed(2) assms
    by simp
  moreover have "rel (rs_db st) db'"
    using close_rel [of "rs_db st"] closed(5) by (metis assms snd_conv)
  ultimately show ?thesis using closed(6) rel_trans by simp
qed

lemma run_rel:
  assumes "ro_repository o' = repo"
  shows "rel db (fst (snd (runBackfillPlan o' order db env)))"
proof -
  obtain m db1 where m: "repo_openRun repo (run_request_of o') (ro_startedAt o') db = (m, db1)"
    by (cases "repo_openRun repo (run_request_of o') (ro_startedAt o') db")
  have "rel db db1" using open_rel [of db "run_request_of o'" "ro_startedAt o'"] by (simp add: m)
  then show ?thesis
    using finish_rel [OF assms] rel_trans
    by (auto simp: runBackfillPlan_def assms m rel_refl split: sum.split)
qed

end

lemma withTransaction_snd: "snd (withTransaction f db) = (case f db of Inl e \<Rightarrow> db | Inr (x, db') \<Rightarrow> db')"
  by (simp add: withTransaction_def split: sum.split)

lemma commit_advanced_state:
  "commitWindowOutcome runId w oc n cs lg = Inr (ps, lg') \<Longrightarrow> ps_advanced ps \<Longrightarrow> cs \<noteq> None"
  by (auto simp: commitWindowOutcome_def ebind_Inr_iff split: option.splits)

interpretation ledger_store: backfill_store ledger_repository "ledger_step\<^sup>*\<^sup>*"
proof
  fix db :: ledger
  show "ledger_step\<^sup>*\<^sup>* db db" by simp
  show "ledger_step\<^sup>*\<^sup>* db (snd (repo_openRun ledger_repository q i db))" for q i
    by (auto simp: ledger_repository_def withTransaction_snd split: sum.split intro: step_open)
  show "ledger_step\<^sup>*\<^sup>* db (snd (repo_commit ledger_repository r w oc n cs db))" for r w oc n cs
    by (auto simp: ledger_repository_def withTransaction_snd split: sum.split option.split intro: step_commit)
  show "ledger_step\<^sup>*\<^sup>* db (snd (repo_record ledger_repository r w oc n db))" for r w oc n
    by (auto simp: ledger_repository_def withTransaction_snd recordWindowOutcome_def
        split: sum.split option.split intro: step_commit)
  show "ledger_step\<^sup>*\<^sup>* db (snd (repo_close ledger_repository r st i ec db))" for r st i ec
    by (auto simp: ledger_repository_def withTransaction_snd ebind_def split: sum.split option.split intro: step_close)
next
  fix a b c :: ledger
  assume "ledger_step\<^sup>*\<^sup>* a b" "ledger_step\<^sup>*\<^sup>* b c"
  then show "ledger_step\<^sup>*\<^sup>* a c" by (rule rtranclp_trans)
next
  fix r w oc n cs p and db db' :: ledger
  assume "repo_commit ledger_repository r w oc n cs db = (Inr p, db')" "ps_advanced p"
  then show "cs \<noteq> None"
    by (auto simp: ledger_repository_def withTransaction_def dest: commit_advanced_state split: option.splits sum.splits)
qed

interpretation null_store: backfill_store NULL_REPOSITORY "(=)"
  by unfold_locales (auto simp: NULL_REPOSITORY_def)

section \<open>What a run reports\<close>

text \<open>The reports a window can get, before the repository is considered.\<close>

definition result_shape :: "('db, 'env) run_config \<Rightarrow> window_result \<Rightarrow> bool" where
  "result_shape cf r \<longleftrightarrow>
     (let w = wres_window r; ex = wres_execution r in
       (ex = BLOCKED \<longleftrightarrow> win_capabilityStatus w \<noteq> VERIFIED \<or> due cf w \<and> rc_adapters cf (win_adapterKey w) = None) \<and>
       (ex = PLANNED \<longleftrightarrow> win_capabilityStatus w = VERIFIED \<and> \<not> rc_execute cf) \<and>
       (ex = SKIPPED \<longleftrightarrow> win_capabilityStatus w = VERIFIED \<and> rc_execute cf \<and> win_windowKey w \<in> set (rc_completed cf)) \<and>
       (ex \<in> {SUCCEEDED, PARTIAL, FAILED} \<longleftrightarrow> due cf w \<and> rc_adapters cf (win_adapterKey w) \<noteq> None) \<and>
       (wres_invoked r \<longleftrightarrow> ex \<in> {SUCCEEDED, PARTIAL, FAILED}) \<and>
       (wres_quality r = PASSED \<longleftrightarrow> ex \<in> {SUCCEEDED, SKIPPED}) \<and>
       (wres_code r = None \<longleftrightarrow> ex \<in> {PLANNED, SUCCEEDED, SKIPPED}) \<and>
       (if wres_invoked r then 1 \<le> wres_attempts r \<and> wres_attempts r \<le> int (max_attempts w)
        else wres_attempts r = 0 \<and> \<not> wres_advanced r))"

lemma max_attempts_pos: "0 < max_attempts w"
  by (simp add: max_attempts_def)

lemma prior_attempts_range: "0 \<le> prior_attempts rows key \<and> prior_attempts rows key \<le> 99"
proof (cases "map_of (rev (filter (\<lambda>(k, n). 0 \<le> n \<and> n \<le> 99) rows)) key")
  case (Some n)
  then have "(key, n) \<in> set (rev (filter (\<lambda>(k, n). 0 \<le> n \<and> n \<le> 99) rows))" by (rule map_of_SomeD)
  then show ?thesis using Some by (simp add: prior_attempts_def)
qed (simp add: prior_attempts_def)

definition prior_ok :: "('db, 'env) run_config \<Rightarrow> bool" where
  "prior_ok cf \<longleftrightarrow> (\<forall>k. 0 \<le> rc_prior cf k \<and> rc_prior cf k \<le> 99)"

lemma run_config_prior_ok [simp]: "prior_ok (run_config_of o' execute runId db)"
  unfolding prior_ok_def run_config_of_def Let_def by (simp only: run_config.simps prior_attempts_range) simp

lemma passive_shape [simp]:
  "wres_window (passive_result w e q c) = w" "wres_execution (passive_result w e q c) = e"
  "wres_quality (passive_result w e q c) = q" "wres_code (passive_result w e q c) = c"
  "\<not> wres_invoked (passive_result w e q c)" "\<not> wres_advanced (passive_result w e q c)"
  "wres_attempts (passive_result w e q c) = 0"
  by (simp_all add: passive_result_def)

lemma attempted_shape [simp]:
  "wres_window (attempted_result w oc a k) = w" "wres_execution (attempted_result w oc a k) = out_execution oc"
  "wres_quality (attempted_result w oc a k) = out_quality oc" "wres_code (attempted_result w oc a k) = out_code oc"
  "wres_invoked (attempted_result w oc a k)" "wres_advanced (attempted_result w oc a k) = a"
  "wres_attempts (attempted_result w oc a k) = int k"
  by (simp_all add: attempted_result_def)

lemma attempted_facts:
  assumes "prior_ok cf" "attempt_window ph fetch w ck (rc_prior cf key) (max_attempts w - 1) 0 env = (Inr (oc, k), env', n)"
  shows "1 \<le> k \<and> k \<le> max_attempts w \<and> n \<le> k \<and> outcome_shape w oc"
  using attempt_window_result [OF assms(2), of oc k] assms(1) max_attempts_pos [of w] gate_shape
  by (fastforce simp: prior_ok_def)

lemma execution_status_cases: "e \<notin> {PLANNED, RUNNING, SKIPPED} \<Longrightarrow> e \<noteq> BLOCKED \<Longrightarrow> e \<in> {SUCCEEDED, PARTIAL, FAILED}"
  by (cases e) simp_all

lemma process_shape:
  assumes "processWindow cf w st = (Inr r, st')" "prior_ok cf"
  shows "wres_window r = w \<and> result_shape cf r"
proof (cases rule: process_cases [of w cf st])
  case (blocked c)
  then have "r = passive_result w BLOCKED UNKNOWN (Some c)"
    using assms(1) by (cases rule: record_blocked_cases [of cf w c st]) simp_all
  then show ?thesis using blocked(1) by (auto simp: result_shape_def Let_def due_def)
next
  case planned
  then have "r = passive_result w PLANNED UNKNOWN None" using assms(1) by simp
  then show ?thesis using planned by (auto simp: result_shape_def Let_def due_def)
next
  case skipped
  then have "r = passive_result w SKIPPED PASSED None" using assms(1) by simp
  then show ?thesis using skipped by (auto simp: result_shape_def Let_def due_def)
next
  case (attempted fetch oc k env n)
  obtain a where r: "r = attempted_result w oc a k"
    using assms(1) unfolding attempted(4)
    by (cases rule: commit_attempted_cases [of cf w oc k "st\<lparr>rs_env := env, rs_invocations := rs_invocations st + n\<rparr>"]) auto
  note k = attempted_facts [OF assms(2) attempted(3)]
  have v: "win_capabilityStatus w = VERIFIED" using attempted(1) by (simp add: due_def)
  have "out_execution oc \<in> {SUCCEEDED, PARTIAL, FAILED}"
    using k v by (intro execution_status_cases) (auto simp: outcome_shape_def)
  then show ?thesis using k v attempted(1,2)
    by (auto simp: result_shape_def Let_def r outcome_shape_def due_def)
qed (use assms(1) in simp)

lemma run_entries_ConsE:
  assumes "run_entries cf ((i, w) # es) st = (Inr irs, st')"
  obtains r st1 irs' where "processWindow cf w st = (Inr r, st1)" "run_entries cf es st1 = (Inr irs', st')"
    "irs = (i, r) # irs'"
  using assms by (auto split: prod.splits sum.splits)

lemma run_entries_shape:
  assumes "run_entries cf es st = (Inr irs, st')" "prior_ok cf"
  shows "map (\<lambda>(i, r). (i, wres_window r)) irs = es \<and> list_all (\<lambda>(i, r). result_shape cf r) irs"
  using assms(1)
proof (induction es arbitrary: st irs)
  case (Cons e es)
  obtain i w where e: "e = (i, w)" by (cases e)
  have p: "run_entries cf ((i, w) # es) st = (Inr irs, st')" using Cons.prems by (simp only: e)
  show ?case
  proof (rule run_entries_ConsE [OF p])
    fix r st1 irs'
    assume "processWindow cf w st = (Inr r, st1)" "run_entries cf es st1 = (Inr irs', st')" "irs = (i, r) # irs'"
    then show ?thesis using process_shape [OF _ assms(2)] Cons.IH by (fastforce simp: e)
  qed
qed simp

lemma sort_key_map: "(\<And>x. g (f x) = k x) \<Longrightarrow> map f (sort_key k xs) = sort_key g (map f xs)"
proof (induction xs)
  case (Cons x xs)
  have "map f (insort_key k x ys) = insort_key g (f x) (map f ys)" for ys
    by (induction ys) (simp_all add: Cons.prems)
  then show ?case using Cons by simp
qed simp

text \<open>The report lists the windows of the plan in plan order.\<close>

lemma sorted_results:
  assumes "map (\<lambda>(i, r). (i, wres_window r)) irs = order" "finish_order plan order"
  shows "map wres_window (map snd (sort_key fst irs)) = plan_windows plan"
proof -
  let ?f = "\<lambda>(i, r). (i, wres_window r)"
  have "map ?f (sort_key fst irs) = sort_key fst order"
    unfolding assms(1) [symmetric] by (rule sort_key_map) (simp split: prod.split)
  also have "\<dots> = enumerate 0 (plan_windows plan)" by (rule finish_order_sorted [OF assms(2)])
  finally have p: "map snd (map ?f (sort_key fst irs)) = plan_windows plan" by simp
  have "map wres_window (map snd xs) = map snd (map ?f xs)" for xs by (induction xs) auto
  then show ?thesis using p by (rule trans)
qed

section \<open>Properties\<close>

text \<open>
  A sample run over the ledger: the adapter of purchase orders writes down its requests and proves
  the day of the window it is asked for.
\<close>

definition sample_proof :: "string \<Rightarrow> jsv" where
  [js_eval]: "sample_proof day = JObj
     [(''ok'', JBool True), (''acceptedRowCount'', JNum (NInt 7)), (''persistedRowCount'', JNum (NInt 7)),
      (''rejectedRowCount'', JNum (NInt 0)), (''illegalDecimalCount'', JNum (NInt 0)),
      (''unknownMetricCount'', JNum (NInt 0)), (''expectedPageCount'', JNum (NInt 1)),
      (''observedPageCount'', JNum (NInt 1)), (''schemaFingerprint'', JStr (replicate 64 CHR ''f'')),
      (''sourceBusinessWatermark'', JStr day), (''businessDates'', JArr [])]"

definition sample_adapters :: "string \<Rightarrow> fetch_request list adapter option" where
  [js_eval]: "sample_adapters key =
     (if key = ''openapi.purchase-orders.v1''
      then Some (\<lambda>req log. (Returned (sample_proof (fr_windowStart req)), log @ [req])) else None)"

definition sample_options :: "string \<Rightarrow> (ledger, fetch_request list) run_options" where
  [js_eval]: "sample_options mode =
     \<lparr>ro_plan = sample_backfill, ro_mode = mode, ro_adapters = sample_adapters, ro_repository = ledger_repository,
      ro_approvedPlanHash = JStr (replicate 64 CHR ''A''), ro_allowedStoreCodes = JArr [JStr ''zs0005''],
      ro_allowedDomains = JArr [JStr ''purchase-orders''], ro_startedAt = Instant 1772500000000,
      ro_completedAt = Instant 1772500600000, ro_createdBy = None\<rparr>"

text \<open>How a rehearsal reports a window.\<close>

definition rehearsed :: "bf_window \<Rightarrow> window_result" where
  "rehearsed w =
     (if win_capabilityStatus w = VERIFIED then passive_result w PLANNED UNKNOWN None
      else passive_result w BLOCKED UNKNOWN
        (Some (case win_blockedReasonCode w of Some c \<Rightarrow> c | None \<Rightarrow> ''CAPABILITY_NOT_VERIFIED'')))"

lemma rehearse_window: "\<not> rc_execute cf \<Longrightarrow> processWindow cf w st = (Inr (rehearsed w), st)"
  by (simp add: processWindow_def record_blocked_def rehearsed_def)

lemma rehearse_entries:
  "\<not> rc_execute cf \<Longrightarrow> run_entries cf es st = (Inr (map (\<lambda>(i, w). (i, rehearsed w)) es), st)"
  by (induction es) (auto simp: rehearse_window)

lemma rehearse_sorted:
  assumes "finish_order plan order"
  shows "map snd (sort_key fst (map (\<lambda>(i, w). (i, rehearsed w)) order)) = map rehearsed (plan_windows plan)"
proof -
  let ?f = "\<lambda>(i, w). (i, rehearsed w)"
  have "sort_key fst (map ?f order) = map ?f (sort_key fst order)"
    by (rule sort_key_map [symmetric]) (simp split: prod.split)
  also have "\<dots> = map ?f (enumerate 0 (plan_windows plan))" by (simp only: finish_order_sorted [OF assms])
  also have "map snd \<dots> = map rehearsed (map snd (enumerate 0 (plan_windows plan)))"
    by (simp only: map_map o_def) (simp add: split_beta)
  finally show ?thesis by simp
qed

text \<open>
  A rehearsal touches nothing: it changes neither the repository nor anything an adapter could
  reach, it calls no adapter, and it reports every window of the plan, in plan order, as planned or
  as blocked with the reason of its capability.
\<close>

theorem dry_run_touches_nothing:
  assumes "ro_mode o' = ''DRY_RUN''" "finish_order (ro_plan o') order"
  shows "runBackfillPlan o' order db env =
    (Inr (report_of False (plan_planHash (ro_plan o')) None None 0 (map rehearsed (plan_windows (ro_plan o')))), db, env)"
proof -
  have "run_entries (run_config_of o' False None db) order (run_state_of o' False db env) =
      (Inr (map (\<lambda>(i, w). (i, rehearsed w)) order), run_state_of o' False db env)"
    by (rule rehearse_entries) simp
  then show ?thesis
    by (simp add: runBackfillPlan_def assms(1) finish_run_def Let_def rehearse_sorted [OF assms(2)])
qed

theorem dry_run_touches_nothing_witness:
  "runBackfillPlan (sample_options ''DRY_RUN'') sample_order empty_ledger [] =
    (Inr (report_of False (replicate 64 CHR ''a'') None None 0 (map rehearsed (plan_windows sample_backfill))),
     empty_ledger, [])"
proof -
  have "ro_plan (sample_options ''DRY_RUN'') = sample_backfill" by (simp add: sample_options_def)
  moreover have "plan_planHash sample_backfill = replicate 64 CHR ''a''" by (simp add: sample_backfill_def Let_def)
  ultimately show ?thesis
    using dry_run_touches_nothing [of "sample_options ''DRY_RUN''" sample_order empty_ledger "[]"] sample_order_finish
    by (simp add: sample_options_def)
qed

text \<open>
  A run that is not authorized for exactly the reviewed plan fails with the refusal of the
  authorization before it opens a run or calls an adapter.
\<close>

theorem unauthorized_run_touches_nothing:
  assumes "ro_mode o' = ''EXECUTE''"
    and "assertExecuteAuthorization (ro_plan o') (ro_approvedPlanHash o') (ro_allowedStoreCodes o')
      (ro_allowedDomains o') = Inl e"
  shows "runBackfillPlan o' order db env = (Inl e, db, env)"
  using assms by (simp add: runBackfillPlan_def)

theorem unauthorized_run_touches_nothing_witness:
  "runBackfillPlan ((sample_options ''EXECUTE'')\<lparr>ro_allowedStoreCodes := JArr [JStr ''ZS0005'', JStr ''ZS0008'']\<rparr>)
     sample_order empty_ledger [] = (Inl (Fail ''STORE_NOT_AUTHORIZED'' []), empty_ledger, [])"
  by (rule unauthorized_run_touches_nothing) code_simp+

text \<open>
  The requests that a run may hand to an adapter: the run is an authorized execution, the window is
  one of the plan with a verified capability, and the attempt has an ordinal from 1 to 99.
\<close>

definition admissible :: "('db, 'env) run_options \<Rightarrow> string \<Rightarrow> fetch_request \<Rightarrow> bool" where
  "admissible o' key req \<longleftrightarrow>
     ro_mode o' = ''EXECUTE'' \<and>
     (\<exists>auth. assertExecuteAuthorization (ro_plan o') (ro_approvedPlanHash o') (ro_allowedStoreCodes o')
        (ro_allowedDomains o') = Inr auth) \<and>
     (\<exists>w\<in>set (plan_windows (ro_plan o')). win_capabilityStatus w = VERIFIED \<and> win_adapterKey w = key \<and>
        request_for (plan_planHash (ro_plan o')) w req)"

lemma process_env:
  assumes "\<And>fetch req e. due cf w \<Longrightarrow> rc_adapters cf (win_adapterKey w) = Some fetch \<Longrightarrow>
      request_for (rc_planHash cf) w req \<Longrightarrow> I e \<Longrightarrow> I (snd (fetch req e))"
    and "prior_ok cf" "I (rs_env st)"
  shows "I (rs_env (snd (processWindow cf w st)))"
proof -
  have prior: "0 \<le> rc_prior cf k" for k using assms(2) by (simp add: prior_ok_def)
  show ?thesis
  proof (cases rule: process_cases [of w cf st])
    case (blocked c)
    then show ?thesis using assms(3) by (cases rule: record_blocked_cases [of cf w c st]) simp_all
  next
    case (fault fetch e env n)
    have "I (fst (snd (attempt_window (rc_planHash cf) fetch w (rs_checkpoints st (window_grain_key w))
        (rc_prior cf (win_windowKey w)) (max_attempts w - 1) 0 (rs_env st))))"
      by (rule attempt_window_env [where I = I, OF _ prior assms(3)]) (rule assms(1) [OF fault(1,2)])
    then have "I env" by (simp only: fault(3) fst_conv snd_conv)
    then show ?thesis using fault(4) by simp
  next
    case (attempted fetch oc k env n)
    have "I (fst (snd (attempt_window (rc_planHash cf) fetch w (rs_checkpoints st (window_grain_key w))
        (rc_prior cf (win_windowKey w)) (max_attempts w - 1) 0 (rs_env st))))"
      by (rule attempt_window_env [where I = I, OF _ prior assms(3)]) (rule assms(1) [OF attempted(1,2)])
    then have "I env" by (simp only: attempted(3) fst_conv snd_conv)
    then show ?thesis unfolding attempted(4)
      by (cases rule: commit_attempted_cases [of cf w oc k "st\<lparr>rs_env := env, rs_invocations := rs_invocations st + n\<rparr>"])
        simp_all
  qed (use assms(3) in simp_all)
qed

lemma entries_env:
  assumes "\<And>w fetch req e. w \<in> snd ` set es \<Longrightarrow> due cf w \<Longrightarrow> rc_adapters cf (win_adapterKey w) = Some fetch \<Longrightarrow>
      request_for (rc_planHash cf) w req \<Longrightarrow> I e \<Longrightarrow> I (snd (fetch req e))"
    and "prior_ok cf" "I (rs_env st)"
  shows "I (rs_env (snd (run_entries cf es st)))"
  using assms(1,3)
proof (induction es arbitrary: st)
  case (Cons e es)
  obtain i w where e: "e = (i, w)" by (cases e)
  obtain r st1 where p: "processWindow cf w st = (r, st1)" by (cases "processWindow cf w st")
  have "I (rs_env (snd (processWindow cf w st)))"
    by (rule process_env [where I = I, OF _ assms(2) Cons.prems(2)]) (rule Cons.prems(1) [of w], simp_all add: e)
  then have st1: "I (rs_env st1)" by (simp add: p)
  have "I (rs_env (snd (run_entries cf es st1)))"
    by (rule Cons.IH [OF _ st1]) (rule Cons.prems(1), simp_all)
  then show ?case using st1 by (auto simp: e p split: sum.split prod.split)
qed simp

text \<open>
  C5. Adapters are reached only as authorized: every property of the outside world that the
  admissible requests preserve is preserved by a run, whatever the repository does and however the
  lanes interleave.
\<close>

theorem run_calls_only_admissible:
  assumes "\<And>key fetch req e. ro_adapters o' key = Some fetch \<Longrightarrow> admissible o' key req \<Longrightarrow> I e \<Longrightarrow> I (snd (fetch req e))"
    and "finish_order (ro_plan o') order" "I env"
  shows "I (snd (snd (runBackfillPlan o' order db env)))"
proof -
  have fin: "I (snd (snd (finish_run o' execute auth runId order db1 env)))"
    if ok: "execute \<longrightarrow> ro_mode o' = ''EXECUTE'' \<and> (\<exists>auth. assertExecuteAuthorization (ro_plan o')
      (ro_approvedPlanHash o') (ro_allowedStoreCodes o') (ro_allowedDomains o') = Inr auth)"
    for execute auth runId db1
  proof -
    let ?cf = "run_config_of o' execute runId db1"
    have ws: "snd ` set order = set (plan_windows (ro_plan o'))"
      using finish_order_windows [OF assms(2)] by simp
    have call: "I (snd (fetch req e))"
      if "w \<in> snd ` set order" "due ?cf w" "rc_adapters ?cf (win_adapterKey w) = Some fetch"
        "request_for (rc_planHash ?cf) w req" "I e" for w fetch req e
      by (rule assms(1) [OF _ _ that(5)])
        (use that ok ws in \<open>auto simp: admissible_def due_def\<close>)
    have "I (rs_env (snd (run_entries ?cf order (run_state_of o' execute db1 env))))"
      by (rule entries_env [where I = I]) (rule call, simp_all add: assms(3))
    then show ?thesis by (cases rule: finish_cases [of o' execute runId db1 order env auth]) simp_all
  qed
  show ?thesis
    using assms(3) fin by (auto simp: runBackfillPlan_def split: sum.split prod.split)
qed

theorem run_calls_only_admissible_witness:
  "list_all (\<lambda>req. fr_domain req = ''purchase-orders'' \<and> fr_storeCode req = ''ZS0005'')
     (snd (snd (runBackfillPlan (sample_options ''EXECUTE'') sample_order empty_ledger [])))"
proof (rule run_calls_only_admissible
    [where I = "list_all (\<lambda>req. fr_domain req = ''purchase-orders'' \<and> fr_storeCode req = ''ZS0005'')"])
  fix key fetch req and log :: "fetch_request list"
  assume a: "ro_adapters (sample_options ''EXECUTE'') key = Some fetch" "admissible (sample_options ''EXECUTE'') key req"
    and log: "list_all (\<lambda>req. fr_domain req = ''purchase-orders'' \<and> fr_storeCode req = ''ZS0005'') log"
  have "fr_domain req = ''purchase-orders'' \<and> fr_storeCode req = ''ZS0005''"
    using a(2) by (auto simp: admissible_def request_for_def fetch_request_of_def sample_options_def sample_backfill_def
        sample_window_def Let_def)
  moreover have "snd (fetch req log) = log @ [req]"
    using a(1) by (auto simp: sample_options_def sample_adapters_def split: if_splits)
  ultimately show "list_all (\<lambda>req. fr_domain req = ''purchase-orders'' \<and> fr_storeCode req = ''ZS0005'') (snd (fetch req log))"
    using log by simp
next
  show "finish_order (ro_plan (sample_options ''EXECUTE'')) sample_order"
    using sample_order_finish by (simp add: sample_options_def)
qed simp

end
