(* ===== verification/Runner_Ledger.thy ===== *)
theory Runner_Ledger
  imports Runner_Properties
begin

text \<open>
  Executing runs over the ledger: how a run is classified and closed, what it leaves in the ledger,
  what the next run of the same plan skips, and where the limit on attempts loses count.
\<close>

section \<open>Classification\<close>

lemma filter_length_pos: "0 < length (filter P xs) \<longleftrightarrow> (\<exists>x\<in>set xs. P x)"
  by (induction xs) auto

lemma run_status_execute:
  assumes "\<And>r. r \<in> set rs \<Longrightarrow> wres_execution r \<in> {BLOCKED, SKIPPED, SUCCEEDED, PARTIAL, FAILED}"
  shows "run_status_of True (count_results rs) =
    (if (\<exists>r\<in>set rs. wres_execution r = FAILED) \<and> (\<forall>r\<in>set rs. wres_execution r \<notin> {SUCCEEDED, SKIPPED}) then RUN_FAILED
     else if \<forall>r\<in>set rs. wres_execution r \<in> {SUCCEEDED, SKIPPED} then RUN_SUCCEEDED else RUN_PARTIAL)"
proof -
  define n where "n s = length (filter (\<lambda>r. wres_execution r = s) rs)" for s
  have pos: "0 < n s \<longleftrightarrow> (\<exists>r\<in>set rs. wres_execution r = s)" for s by (simp only: n_def filter_length_pos)
  have failed: "cnt_failed (count_results rs) = n FAILED"
    unfolding count_results_def n_def Let_def using assms by (auto intro!: arg_cong [of _ _ length] filter_cong)
  have rest: "cnt_succeeded (count_results rs) = n SUCCEEDED" "cnt_skipped (count_results rs) = n SKIPPED"
    "cnt_partial (count_results rs) = n PARTIAL" "cnt_blocked (count_results rs) = n BLOCKED"
    by (simp_all add: count_results_def n_def Let_def)
  have zero: "n s = 0 \<longleftrightarrow> (\<forall>r\<in>set rs. wres_execution r \<noteq> s)" for s using pos [of s] by auto
  have all: "(\<forall>r\<in>set rs. wres_execution r \<in> {SUCCEEDED, SKIPPED}) \<longleftrightarrow>
      \<not> (0 < n FAILED \<or> 0 < n PARTIAL \<or> 0 < n BLOCKED)"
    unfolding pos using assms by fastforce
  have none: "(\<forall>r\<in>set rs. wres_execution r \<notin> {SUCCEEDED, SKIPPED}) \<longleftrightarrow> n SUCCEEDED = 0 \<and> n SKIPPED = 0"
    unfolding zero by auto
  show ?thesis
    unfolding run_status_of_def failed rest all none pos [symmetric] by auto
qed

lemma report_fields [simp]:
  "rep_windows (report_of execute h runId auth n rs) = rs"
  "rep_runId (report_of execute h runId auth n rs) = runId"
  "rep_status (report_of execute h runId auth n rs) = run_status_of execute (count_results rs)"
  by (simp_all add: report_of_def)

text \<open>An execution that returns a report, with the run it opened and the windows it processed.\<close>

lemma execute_cases:
  assumes "runBackfillPlan o' order db env = (Inr rep, db', env')" "ro_mode o' = ''EXECUTE''"
  obtains auth h db1 irs st c where
    "assertExecuteAuthorization (ro_plan o') (ro_approvedPlanHash o') (ro_allowedStoreCodes o') (ro_allowedDomains o') = Inr auth"
    "repo_openRun (ro_repository o') (run_request_of o') (ro_startedAt o') db = (Inr h, db1)"
    "run_entries (run_config_of o' True (rh_id h) db1) order (run_state_of o' True db1 env) = (Inr irs, st)"
    "rep = report_of True (plan_planHash (ro_plan o')) (rh_id h) (Some auth) (rs_invocations st) (map snd (sort_key fst irs))"
    "repo_close (ro_repository o') (rh_id h) (rep_status rep) (ro_completedAt o')
       (if rep_status rep = RUN_SUCCEEDED then None else first_code (rep_windows rep)) (rs_db st) = (Inr c, db')"
    "env' = rs_env st"
proof -
  obtain auth where a: "assertExecuteAuthorization (ro_plan o') (ro_approvedPlanHash o') (ro_allowedStoreCodes o')
      (ro_allowedDomains o') = Inr auth"
    using assms by (auto simp: runBackfillPlan_def split: sum.splits)
  obtain h db1 where o1: "repo_openRun (ro_repository o') (run_request_of o') (ro_startedAt o') db = (Inr h, db1)"
    using assms a by (auto simp: runBackfillPlan_def split: sum.splits prod.splits)
  have f: "finish_run o' True (Some auth) (rh_id h) order db1 env = (Inr rep, db', env')"
    using assms a o1 by (simp add: runBackfillPlan_def)
  show thesis
    using f
  proof (cases rule: finish_cases [of o' True "rh_id h" db1 order env "Some auth"])
    case (closed irs st rs report c db2)
    then obtain x where x: "c = Inr x" "rep = report" "db2 = db'" "env' = rs_env st" using f by (cases c) auto
    have ws: "rep_windows rep = rs" by (simp only: x closed(4) report_fields)
    have cl: "repo_close (ro_repository o') (rh_id h) (rep_status rep) (ro_completedAt o')
        (if rep_status rep = RUN_SUCCEEDED then None else first_code (rep_windows rep)) (rs_db st) = (Inr x, db')"
      using closed(5) unfolding ws unfolding x .
    have "rep = report_of True (plan_planHash (ro_plan o')) (rh_id h) (Some auth) (rs_invocations st)
        (map snd (sort_key fst irs))" by (simp only: x(2) closed(3,4))
    from that [OF a o1 closed(2) this cl x(4)] show thesis .
  qed simp_all
qed

text \<open>The results of an execution, in whatever order the windows finished.\<close>

lemma execute_results:
  assumes "runBackfillPlan o' order db env = (Inr rep, db', env')" "ro_mode o' = ''EXECUTE''"
    and "finish_order (ro_plan o') order"
  obtains h db1 irs st where
    "repo_openRun (ro_repository o') (run_request_of o') (ro_startedAt o') db = (Inr h, db1)"
    "run_entries (run_config_of o' True (rh_id h) db1) order (run_state_of o' True db1 env) = (Inr irs, st)"
    "set (rep_windows rep) = snd ` set irs" "map wres_window (rep_windows rep) = plan_windows (ro_plan o')"
    "\<forall>r\<in>set (rep_windows rep). result_shape (run_config_of o' True (rh_id h) db1) r"
proof (rule execute_cases [OF assms(1,2)])
  fix auth h db1 irs st c
  assume o1: "repo_openRun (ro_repository o') (run_request_of o') (ro_startedAt o') db = (Inr h, db1)"
    and es: "run_entries (run_config_of o' True (rh_id h) db1) order (run_state_of o' True db1 env) = (Inr irs, st)"
    and rep: "rep = report_of True (plan_planHash (ro_plan o')) (rh_id h) (Some auth) (rs_invocations st)
       (map snd (sort_key fst irs))"
  note shape = run_entries_shape [OF es run_config_prior_ok]
  have ws: "rep_windows rep = map snd (sort_key fst irs)" by (simp only: rep report_fields)
  then have s: "set (rep_windows rep) = snd ` set irs" by simp
  then have all: "\<forall>r\<in>set (rep_windows rep). result_shape (run_config_of o' True (rh_id h) db1) r"
    using shape by (fastforce simp: list_all_iff)
  show thesis
    by (rule that [OF o1 es s _ all]) (unfold ws, rule sorted_results [OF conjunct1 [OF shape] assms(3)])
qed

lemma execute_executions:
  "result_shape (run_config_of o' True runId db) r \<Longrightarrow> wres_execution r \<in> {BLOCKED, SKIPPED, SUCCEEDED, PARTIAL, FAILED}"
  by (cases "wres_execution r")
    (auto simp: result_shape_def Let_def due_def)

section \<open>Windows that a run completes\<close>

text \<open>The grain of a window within a run, and the windows a run has completed.\<close>

definition window_grain_in :: "int \<Rightarrow> bf_window \<Rightarrow> int \<times> string \<times> string \<times> string \<times> string \<times> string" where
  "window_grain_in h w =
     (h, win_storeCode w, win_domain w, win_adapterKey w, win_windowStart w, win_windowEnd w)"

definition completed_in :: "ledger \<Rightarrow> int \<Rightarrow> string \<Rightarrow> bool" where
  "completed_in lg h key \<longleftrightarrow>
     (\<exists>r\<in>set (lg_windows lg). wr_runId r = h \<and> wr_windowKey r = key \<and> wr_execution r = SUCCEEDED \<and> wr_quality r = PASSED)"

text \<open>The rows of a run carry the keys of the windows of the plan.\<close>

definition keyed :: "bf_window list \<Rightarrow> int \<Rightarrow> ledger \<Rightarrow> bool" where
  "keyed ws h lg \<longleftrightarrow>
     (\<forall>r\<in>set (lg_windows lg). wr_runId r = h \<longrightarrow>
        (\<forall>w\<in>set ws. row_grain r = window_grain_in h w \<longleftrightarrow> wr_windowKey r = win_windowKey w))"

definition plan_keyed :: "bf_window list \<Rightarrow> bool" where
  "plan_keyed ws \<longleftrightarrow>
     (\<forall>w\<in>set ws. \<forall>w'\<in>set ws. window_grain_in 0 w = window_grain_in 0 w' \<longleftrightarrow> win_windowKey w = win_windowKey w')"

lemma loaded_iff:
  "key \<in> set (loadCompletedWindowKeys planHash lg) \<longleftrightarrow> (\<exists>h\<in>plan_run_ids planHash lg. completed_in lg h key)"
  by (auto simp: loadCompletedWindowKeys_def completed_in_def)

lemma new_row_grain [simp]: "row_grain (new_window_row i h w oc n) = window_grain_in h w"
  by (simp add: row_grain_def window_grain_in_def new_window_row_def)

lemma merge_row_fields [simp]:
  "wr_windowKey (merge_window_row old new) = wr_windowKey old"
  "wr_execution (merge_window_row old new) = wr_execution new" "wr_quality (merge_window_row old new) = wr_quality new"
  by (simp_all add: merge_window_row_def)

lemma new_row_fields [simp]:
  "wr_windowKey (new_window_row i h w oc n) = win_windowKey w"
  "wr_execution (new_window_row i h w oc n) = out_execution oc" "wr_quality (new_window_row i h w oc n) = out_quality oc"
  by (simp_all add: new_window_row_def)

lemma grain_in_shift: "window_grain_in h w = window_grain_in h w' \<longleftrightarrow> window_grain_in 0 w = window_grain_in 0 w'"
  by (auto simp: window_grain_in_def)

text \<open>What recording a window of the plan does to the completed windows.\<close>

lemma upsert_completed:
  assumes "ledger_inv lg" "upsertWindow h w oc n lg = Inr (i, lg')" "w \<in> set ws" "plan_keyed ws" "keyed ws h lg"
  shows "keyed ws h lg'"
    and "key \<noteq> win_windowKey w \<Longrightarrow> completed_in lg h key \<Longrightarrow> completed_in lg' h key"
    and "out_execution oc = SUCCEEDED \<Longrightarrow> out_quality oc = PASSED \<Longrightarrow> completed_in lg' h (win_windowKey w)"
proof -
  have "keyed ws h lg' \<and> (key \<noteq> win_windowKey w \<longrightarrow> completed_in lg h key \<longrightarrow> completed_in lg' h key) \<and>
      (out_execution oc = SUCCEEDED \<longrightarrow> out_quality oc = PASSED \<longrightarrow> completed_in lg' h (win_windowKey w))"
    using assms(2)
  proof (cases rule: upsertWindow_cases)
    case insert
    have "window_grain_in h w = window_grain_in h w' \<longleftrightarrow> win_windowKey w = win_windowKey w'" if "w' \<in> set ws" for w'
      using assms(3,4) that unfolding grain_in_shift [of h] plan_keyed_def by blast
    then show ?thesis
      using assms(5) by (auto simp: insert(5) keyed_def completed_in_def)
  next
    case (update old)
    let ?row = "merge_window_row old (new_window_row (lg_nextWindowId lg) h w oc n)"
    have old: "wr_runId old = h" "row_grain old = window_grain_in h w"
      using update(2) unfolding new_row_grain by (simp_all add: row_grain_def window_grain_in_def)
    then have key: "wr_windowKey old = win_windowKey w" using assms(3,5) update(1) by (auto simp: keyed_def)
    have one: "r \<in> set (lg_windows lg) \<Longrightarrow> wr_id r = wr_id old \<Longrightarrow> r = old" for r
      using assms(1) update(1) distinct_map_unique unfolding ledger_inv_def windows_inv_def by metis
    have mem: "r \<in> set (lg_windows lg') \<longleftrightarrow> r = ?row \<or> r \<in> set (lg_windows lg) \<and> r \<noteq> old" for r
      using update(1) one by (auto simp: update(6))
    have "keyed ws h lg'"
      using assms(5) update(1) unfolding keyed_def Ball_def mem by (metis merge_keys(2,3) merge_row_fields(1))
    moreover have "completed_in lg' h key" if "key \<noteq> win_windowKey w" "completed_in lg h key"
      using that key unfolding completed_in_def Bex_def mem by metis
    moreover have "completed_in lg' h (win_windowKey w)" if "out_execution oc = SUCCEEDED" "out_quality oc = PASSED"
      unfolding completed_in_def by (rule bexI [of _ ?row]) (simp_all add: that old key mem)
    ultimately show ?thesis by blast
  qed
  then show "keyed ws h lg'"
    and "key \<noteq> win_windowKey w \<Longrightarrow> completed_in lg h key \<Longrightarrow> completed_in lg' h key"
    and "out_execution oc = SUCCEEDED \<Longrightarrow> out_quality oc = PASSED \<Longrightarrow> completed_in lg' h (win_windowKey w)"
    by blast+
qed

lemma completed_frame: "lg_windows lg' = lg_windows lg \<Longrightarrow> completed_in lg' h key = completed_in lg h key"
  by (simp add: completed_in_def)

lemma keyed_frame: "lg_windows lg' = lg_windows lg \<Longrightarrow> keyed ws h lg' = keyed ws h lg"
  by (simp add: keyed_def)

lemma commit_windows:
  assumes "commitWindowOutcome h w oc n cs lg = Inr (ps, lg')"
  obtains i lg1 where "upsertWindow h w oc n lg = Inr (i, lg1)" "lg_windows lg' = lg_windows lg1"
  using assms by (rule commit_cases) (metis upsertCheckpoint_frame(2))

lemma commit_completed_in:
  assumes "ledger_inv lg" "commitWindowOutcome h w oc n cs lg = Inr (ps, lg')" "w \<in> set ws" "plan_keyed ws" "keyed ws h lg"
  shows "keyed ws h lg'"
    and "key \<noteq> win_windowKey w \<Longrightarrow> completed_in lg h key \<Longrightarrow> completed_in lg' h key"
    and "out_execution oc = SUCCEEDED \<Longrightarrow> out_quality oc = PASSED \<Longrightarrow> completed_in lg' h (win_windowKey w)"
proof -
  obtain i lg1 where u: "upsertWindow h w oc n lg = Inr (i, lg1)" and f: "lg_windows lg' = lg_windows lg1"
    using assms(2) by (rule commit_windows)
  note U = upsert_completed [OF assms(1) u assms(3-5)]
  show "keyed ws h lg'" using U(1) keyed_frame [OF f] by simp
  show "key \<noteq> win_windowKey w \<Longrightarrow> completed_in lg h key \<Longrightarrow> completed_in lg' h key"
    using U(2) completed_frame [OF f] by simp
  show "out_execution oc = SUCCEEDED \<Longrightarrow> out_quality oc = PASSED \<Longrightarrow> completed_in lg' h (win_windowKey w)"
    using U(3) completed_frame [OF f] by simp
qed

text \<open>No window is listed twice, by key or by grain.\<close>

definition well_keyed :: "bf_window list \<Rightarrow> bool" where
  "well_keyed ws \<longleftrightarrow> distinct (map win_windowKey ws) \<and> distinct (map (window_grain_in 0) ws)"

lemma well_keyed_plan: "well_keyed ws \<Longrightarrow> plan_keyed ws"
  unfolding well_keyed_def plan_keyed_def using distinct_map_unique by metis

definition run_inv :: "bf_window list \<Rightarrow> int \<Rightarrow> ledger \<Rightarrow> bool" where
  "run_inv ws h lg \<longleftrightarrow> ledger_inv lg \<and> keyed ws h lg"

lemma withTransaction_Inr: "withTransaction f db = (Inr x, db') \<longleftrightarrow> f db = Inr (x, db')"
  by (auto simp: withTransaction_def split: sum.splits)

lemma ledger_commit_iff [simp]:
  "repo_commit ledger_repository (Some h) w oc n cs lg = (Inr p, lg') \<longleftrightarrow> commitWindowOutcome h w oc n cs lg = Inr (p, lg')"
  "repo_record ledger_repository (Some h) w oc n lg = (Inr p, lg') \<longleftrightarrow> commitWindowOutcome h w oc n None lg = Inr (p, lg')"
  by (simp_all add: ledger_repository_def withTransaction_Inr recordWindowOutcome_def)

definition run_on_ledger :: "(ledger, 'env) run_config \<Rightarrow> int \<Rightarrow> bool" where
  "run_on_ledger cf h \<longleftrightarrow> rc_execute cf \<and> rc_repository cf = ledger_repository \<and> rc_runId cf = Some h \<and> prior_ok cf"

lemma process_completed:
  assumes "processWindow cf w st = (Inr r, st')" "run_on_ledger cf h" "run_inv ws h (rs_db st)"
    and "w \<in> set ws" "plan_keyed ws"
  shows "run_inv ws h (rs_db st')"
    and "key \<noteq> win_windowKey w \<Longrightarrow> completed_in (rs_db st) h key \<Longrightarrow> completed_in (rs_db st') h key"
    and "wres_execution r = SUCCEEDED \<Longrightarrow> completed_in (rs_db st') h (win_windowKey w)"
    and "wres_execution r = SKIPPED \<Longrightarrow> rs_db st' = rs_db st"
proof -
  have cf: "rc_execute cf" "rc_repository cf = ledger_repository" "rc_runId cf = Some h" "prior_ok cf"
    using assms(2) by (simp_all add: run_on_ledger_def)
  have inv: "ledger_inv (rs_db st)" "keyed ws h (rs_db st)" using assms(3) by (simp_all add: run_inv_def)
  have "run_inv ws h (rs_db st') \<and>
      (key \<noteq> win_windowKey w \<longrightarrow> completed_in (rs_db st) h key \<longrightarrow> completed_in (rs_db st') h key) \<and>
      (wres_execution r = SUCCEEDED \<longrightarrow> completed_in (rs_db st') h (win_windowKey w)) \<and>
      (wres_execution r = SKIPPED \<longrightarrow> rs_db st' = rs_db st)"
  proof (cases rule: process_cases [of w cf st])
    case (blocked c)
    obtain p where c: "commitWindowOutcome h w (blocked_outcome c) 0 None (rs_db st) = Inr (p, rs_db st')"
      and r: "r = passive_result w BLOCKED UNKNOWN (Some c)"
      using assms(1) unfolding blocked(3)
      by (cases rule: record_blocked_cases [of cf w c st]) (auto simp: cf)
    show ?thesis
      using commit_completed_in(1,2) [OF inv(1) c assms(4,5) inv(2)] commit_inv [OF inv(1) c]
      by (simp add: r run_inv_def)
  next
    case planned
    then show ?thesis using cf by simp
  next
    case skipped
    then show ?thesis using assms(1,3) by auto
  next
    case (attempted fetch oc k env n)
    let ?st = "st\<lparr>rs_env := env, rs_invocations := rs_invocations st + n\<rparr>"
    obtain p where c: "commitWindowOutcome h w oc (int k) (proposed cf w oc ?st) (rs_db st) = Inr (p, rs_db st')"
      and r: "r = attempted_result w oc (ps_advanced p) k"
      using assms(1) unfolding attempted(4)
      by (cases rule: commit_attempted_cases [of cf w oc k ?st]) (auto simp: cf)
    have shape: "outcome_shape w oc" using attempted_facts [OF cf(4) attempted(3)] by blast
    note C = commit_completed_in [OF inv(1) c assms(4,5) inv(2)]
    show ?thesis
      using C(1,2) C(3) commit_inv [OF inv(1) c] shape by (auto simp: r run_inv_def outcome_shape_def)
  qed (use assms(1) in simp)
  then show "run_inv ws h (rs_db st')"
    and "key \<noteq> win_windowKey w \<Longrightarrow> completed_in (rs_db st) h key \<Longrightarrow> completed_in (rs_db st') h key"
    and "wres_execution r = SUCCEEDED \<Longrightarrow> completed_in (rs_db st') h (win_windowKey w)"
    and "wres_execution r = SKIPPED \<Longrightarrow> rs_db st' = rs_db st"
    by blast+
qed

lemma entries_completed:
  assumes "run_entries cf es st = (Inr irs, st')" "run_on_ledger cf h" "run_inv ws h (rs_db st)"
    and "snd ` set es \<subseteq> set ws" "plan_keyed ws" "distinct (map (\<lambda>e. win_windowKey (snd e)) es)"
  shows "run_inv ws h (rs_db st') \<and>
    (\<forall>key. key \<notin> (\<lambda>e. win_windowKey (snd e)) ` set es \<longrightarrow> completed_in (rs_db st) h key \<longrightarrow> completed_in (rs_db st') h key) \<and>
    (\<forall>r\<in>snd ` set irs. let key = win_windowKey (wres_window r) in
       wres_execution r = SUCCEEDED \<or> wres_execution r = SKIPPED \<and> completed_in (rs_db st) h key \<longrightarrow>
       completed_in (rs_db st') h key)"
  using assms(1,3,4,6)
proof (induction es arbitrary: st irs)
  case (Cons e es)
  obtain i w where e: "e = (i, w)" by (cases e)
  have p: "run_entries cf ((i, w) # es) st = (Inr irs, st')" using Cons.prems(1) by (simp only: e)
  show ?case
  proof (rule run_entries_ConsE [OF p])
    fix r st1 irs'
    assume p1: "processWindow cf w st = (Inr r, st1)" and p2: "run_entries cf es st1 = (Inr irs', st')"
      and irs: "irs = (i, r) # irs'"
    have w: "w \<in> set ws" using Cons.prems(3) by (simp add: e)
    note P = process_completed [OF p1 assms(2) Cons.prems(2) w assms(5)]
    have wr: "wres_window r = w" using process_shape [OF p1] assms(2) by (simp add: run_on_ledger_def)
    have IH: "run_inv ws h (rs_db st')"
      "\<And>key. key \<notin> (\<lambda>e. win_windowKey (snd e)) ` set es \<Longrightarrow> completed_in (rs_db st1) h key \<Longrightarrow> completed_in (rs_db st') h key"
      "\<And>r. r \<in> snd ` set irs' \<Longrightarrow> wres_execution r = SUCCEEDED \<or> wres_execution r = SKIPPED \<and>
          completed_in (rs_db st1) h (win_windowKey (wres_window r)) \<Longrightarrow> completed_in (rs_db st') h (win_windowKey (wres_window r))"
      using Cons.IH [OF p2 P(1)] Cons.prems(3,4) by (auto simp: Let_def)
    have new: "win_windowKey w \<notin> (\<lambda>e. win_windowKey (snd e)) ` set es" using Cons.prems(4) by (simp add: e)
    have keys: "wres_window r' \<in> snd ` set es" if "r' \<in> snd ` set irs'" for r'
    proof -
      have "map (\<lambda>(i, r). (i, wres_window r)) irs' = es"
        using run_entries_shape [OF p2] assms(2) by (simp add: run_on_ledger_def)
      then show ?thesis using that by force
    qed
    have head: "completed_in (rs_db st') h (win_windowKey w)"
      if "wres_execution r = SUCCEEDED \<or> wres_execution r = SKIPPED \<and> completed_in (rs_db st) h (win_windowKey w)"
      using IH(2) [OF new] P(3,4) that by auto
    have tail: "completed_in (rs_db st') h (win_windowKey (wres_window r'))"
      if r': "r' \<in> snd ` set irs'" "wres_execution r' = SUCCEEDED \<or>
        wres_execution r' = SKIPPED \<and> completed_in (rs_db st) h (win_windowKey (wres_window r'))" for r'
    proof -
      have "win_windowKey (wres_window r') \<noteq> win_windowKey w" using keys [OF r'(1)] new by (auto simp: image_iff)
      then show ?thesis using IH(3) [OF r'(1)] P(2) r'(2) by blast
    qed
    have keep: "completed_in (rs_db st') h key"
      if "key \<notin> (\<lambda>e. win_windowKey (snd e)) ` set (e # es)" "completed_in (rs_db st) h key" for key
      using IH(2) P(2) that by (auto simp: e)
    show ?thesis using IH(1) head tail keep by (auto simp: irs wr Let_def)
  qed
qed simp

section \<open>Opening and closing\<close>

lemma ledger_open_iff:
  "repo_openRun ledger_repository q i lg = (Inr h, lg') \<longleftrightarrow> openRun q i lg = Inr (h, lg')"
  by (simp add: ledger_repository_def withTransaction_Inr)

lemma ledger_close_iff:
  "repo_close ledger_repository (Some h) st i ec lg = (Inr c, lg') \<longleftrightarrow> c \<and> (\<exists>k. closeRun h st i ec lg = Inr (k, lg'))"
  by (auto simp: ledger_repository_def withTransaction_Inr ebind_Inr_iff)

lemma plan_run_ids_iff:
  "h \<in> plan_run_ids planHash lg \<longleftrightarrow> (\<exists>r\<in>set (lg_runs lg). rr_id r = h \<and> rr_planHash r = planHash \<and> rr_mode r = EXECUTE)"
  by (auto simp: plan_run_ids_def)

lemma plan_run_unique:
  assumes "ledger_inv lg" "h \<in> plan_run_ids planHash lg" "h' \<in> plan_run_ids planHash lg"
  shows "h' = h"
proof -
  have "distinct (map rr_planHash (lg_runs lg))" using assms(1) by (simp add: ledger_inv_def runs_inv_def)
  then show ?thesis using assms(2,3) distinct_map_unique unfolding plan_run_ids_iff by metis
qed

lemma ledger_steps_run_ids:
  assumes "ledger_step\<^sup>*\<^sup>* lg lg'" "h \<in> plan_run_ids planHash lg"
  shows "h \<in> plan_run_ids planHash lg'"
  using ledger_steps_run [OF assms(1)] assms(2) unfolding plan_run_ids_iff same_run_def by metis

lemma openRun_facts:
  assumes "openRun q i lg = Inr (hd', lg')" "ledger_inv lg" "\<forall>h\<in>plan_run_ids (rq_planHash q) lg. keyed ws h lg"
  obtains h where "rh_id hd' = Some h" "h \<in> plan_run_ids (rq_planHash q) lg'" "run_inv ws h lg'"
    "lg_windows lg' = lg_windows lg"
  using assms(1)
proof (cases rule: openRun_cases)
  case (fresh t)
  have "wr_runId r \<noteq> lg_nextRunId lg" if "r \<in> set (lg_windows lg)" for r
    using assms(2) that by (force simp: ledger_inv_def windows_inv_def runs_inv_def run_exists_def)
  then have "keyed ws (lg_nextRunId lg) lg'" by (auto simp: keyed_def fresh(5))
  then show thesis
    using openRun_inv [OF assms(2,1)]
    by (intro that [of "lg_nextRunId lg"]) (simp_all add: fresh(4,5) plan_run_ids_def new_run_def run_inv_def)
next
  case (replay r)
  then have "rr_id r \<in> plan_run_ids (rq_planHash q) lg" by (auto simp: plan_run_ids_iff)
  then show thesis using replay assms(2,3) by (intro that [of "rr_id r"]) (simp_all add: run_inv_def)
qed

lemma closeRun_frame:
  assumes "closeRun h st i ec lg = Inr (k, lg')"
  shows "lg_windows lg' = lg_windows lg"
  using assms by (cases rule: closeRun_cases) simp

lemma closeRun_row:
  assumes "closeRun h st i ec lg = Inr (k, lg')" "row \<in> set (lg_runs lg')" "rr_id row = h" "rr_mode row = EXECUTE"
  shows "rr_status row = st \<and> rr_completedAt row \<noteq> None"
  using assms(1)
proof (cases rule: closeRun_cases)
  case (1 t r)
  let ?f = "\<lambda>r. if rr_id r = h \<and> rr_mode r = EXECUTE
    then r\<lparr>rr_status := st, rr_completedAt := Some t, rr_code := sanitized ec\<rparr> else r"
  have "lg_runs lg' = map ?f (lg_runs lg)" by (simp add: 1(7))
  then have "row \<in> ?f ` set (lg_runs lg)" using assms(2) by (simp only: list.set_map)
  then obtain r0 where r0: "row = ?f r0" by (rule imageE)
  then have "rr_id r0 = h \<and> rr_mode r0 = EXECUTE" using assms(3,4) by (cases "rr_id r0 = h \<and> rr_mode r0 = EXECUTE") simp_all
  then show ?thesis using r0 by simp
qed

lemma run_request_hash [simp]: "rq_planHash (run_request_of o') = plan_planHash (ro_plan o')"
  by (simp add: run_request_of_def Let_def)

text \<open>What an execution leaves in the ledger.\<close>

lemma execute_records:
  assumes "runBackfillPlan o' order db env = (Inr rep, db', env')" "ro_mode o' = ''EXECUTE''"
    and "ro_repository o' = ledger_repository" "finish_order (ro_plan o') order" "ledger_inv db"
    and "well_keyed (plan_windows (ro_plan o'))"
    and "\<forall>h\<in>plan_run_ids (plan_planHash (ro_plan o')) db. keyed (plan_windows (ro_plan o')) h db"
  shows "(\<forall>r\<in>set (rep_windows rep). wres_execution r \<in> {SUCCEEDED, SKIPPED} \<longrightarrow>
      win_windowKey (wres_window r) \<in> set (loadCompletedWindowKeys (plan_planHash (ro_plan o')) db')) \<and>
    (\<exists>row\<in>set (lg_runs db'). rep_runId rep = Some (rr_id row) \<and> rr_planHash row = plan_planHash (ro_plan o') \<and>
      rr_mode row = EXECUTE \<and> rr_status row = rep_status rep \<and> rr_completedAt row \<noteq> None)"
proof (rule execute_cases [OF assms(1,2)])
  let ?p = "plan_planHash (ro_plan o')" and ?ws = "plan_windows (ro_plan o')"
  fix auth hd' db1 irs st c
  assume o1: "repo_openRun (ro_repository o') (run_request_of o') (ro_startedAt o') db = (Inr hd', db1)"
    and es: "run_entries (run_config_of o' True (rh_id hd') db1) order (run_state_of o' True db1 env) = (Inr irs, st)"
    and rep: "rep = report_of True ?p (rh_id hd') (Some auth) (rs_invocations st) (map snd (sort_key fst irs))"
    and cl: "repo_close (ro_repository o') (rh_id hd') (rep_status rep) (ro_completedAt o')
       (if rep_status rep = RUN_SUCCEEDED then None else first_code (rep_windows rep)) (rs_db st) = (Inr c, db')"
  have op: "openRun (run_request_of o') (ro_startedAt o') db = Inr (hd', db1)"
    using o1 by (simp add: assms(3) ledger_open_iff)
  obtain h where h: "rh_id hd' = Some h" "h \<in> plan_run_ids ?p db1" "run_inv ?ws h db1" "lg_windows db1 = lg_windows db"
    using openRun_facts [OF op assms(5), of ?ws] assms(7) by (metis run_request_hash)
  let ?cf = "run_config_of o' True (Some h) db1"
  have cf: "run_on_ledger ?cf h" by (simp add: run_on_ledger_def assms(3))
  note es' = es [unfolded h(1)]
  have ws: "snd ` set order \<subseteq> set ?ws" using finish_order_windows [OF assms(4)] by simp
  have "mset (map (\<lambda>e. win_windowKey (snd e)) order) = mset (map (\<lambda>e. win_windowKey (snd e)) (enumerate 0 ?ws))"
    using finish_order_mset [OF assms(4)] by (metis mset_map)
  moreover have "map (\<lambda>e. win_windowKey (snd e)) (enumerate 0 ?ws) = map win_windowKey ?ws"
    by (metis (no_types, lifting) comp_def map_eq_conv map_map map_snd_enumerate)
  ultimately have dist: "distinct (map (\<lambda>e. win_windowKey (snd e)) order)"
    using assms(6) by (metis mset_eq_imp_distinct_iff well_keyed_def)
  note E = entries_completed [OF es' cf _ ws well_keyed_plan [OF assms(6)] dist, simplified, OF h(3)]
  have inv: "ledger_inv db1" "ledger_inv (rs_db st)" using E h(3) by (simp_all add: run_inv_def)
  have steps: "ledger_step\<^sup>*\<^sup>* db1 (rs_db st)"
    using ledger_store.entries_rel [of ?cf "run_state_of o' True db1 env" order] by (simp add: assms(3) es')
  obtain k where close: "closeRun h (rep_status rep) (ro_completedAt o')
      (if rep_status rep = RUN_SUCCEEDED then None else first_code (rep_windows rep)) (rs_db st) = Inr (k, db')"
    using cl by (auto simp: assms(3) h(1) ledger_close_iff)
  have "ledger_step (rs_db st) db'" by (rule step_close [OF close])
  then have ids: "h' \<in> plan_run_ids ?p db1 \<Longrightarrow> h' \<in> plan_run_ids ?p db'" for h'
    using ledger_steps_run_ids [OF rtranclp.rtrancl_into_rtrancl [OF steps]] by blast
  have done': "completed_in db' h key = completed_in (rs_db st) h key" for key
    by (rule completed_frame [OF closeRun_frame [OF close]])
  have loaded: "completed_in db1 h key" if "key \<in> set (rc_completed ?cf)" for key
  proof -
    have "key \<in> set (loadCompletedWindowKeys ?p db1)"
      using that by (simp add: run_config_of_def Let_def assms(3) ledger_repository_def)
    then show ?thesis using plan_run_unique [OF inv(1) h(2)] unfolding loaded_iff by blast
  qed
  have shape: "\<forall>r\<in>snd ` set irs. result_shape ?cf r"
    using run_entries_shape [OF es' run_config_prior_ok] by (fastforce simp: list_all_iff)
  have "win_windowKey (wres_window r) \<in> set (loadCompletedWindowKeys ?p db')"
    if r: "r \<in> set (rep_windows rep)" "wres_execution r \<in> {SUCCEEDED, SKIPPED}" for r
  proof -
    have mem: "r \<in> snd ` set irs" using r(1) by (simp add: rep)
    then have "result_shape ?cf r" using shape by blast
    then have "wres_execution r = SKIPPED \<Longrightarrow> win_windowKey (wres_window r) \<in> set (rc_completed ?cf)"
      by (simp add: result_shape_def Let_def)
    then have "completed_in (rs_db st) h (win_windowKey (wres_window r))"
      using E mem r(2) loaded by (auto simp: Let_def)
    then show ?thesis using ids [OF h(2)] unfolding loaded_iff done' [symmetric] by blast
  qed
  moreover have "\<exists>row\<in>set (lg_runs db'). rep_runId rep = Some (rr_id row) \<and> rr_planHash row = ?p \<and>
      rr_mode row = EXECUTE \<and> rr_status row = rep_status rep \<and> rr_completedAt row \<noteq> None"
  proof -
    obtain row where row: "row \<in> set (lg_runs db')" "rr_id row = h" "rr_planHash row = ?p" "rr_mode row = EXECUTE"
      using ids [OF h(2)] by (auto simp: plan_run_ids_iff)
    note closed = closeRun_row [OF close row(1,2,4)]
    show ?thesis using row closed by (intro bexI [of _ row]) (simp_all add: rep h(1))
  qed
  ultimately show ?thesis by blast
qed

section \<open>A sample execution\<close>

text \<open>The ledger after both days of the sample plan were executed.\<close>

definition sample_row :: "int \<Rightarrow> bf_window \<Rightarrow> window_row" where
  [js_eval]: "sample_row i w =
     new_window_row i 1 w (outcome SUCCEEDED PASSED None (result_counts (sample_proof (win_windowStart w)))) 1"

definition sample_after :: ledger where
  [js_eval]: "sample_after =
     \<lparr>lg_runs = [(new_run empty_ledger (run_request_of (sample_options ''EXECUTE'')) 1772500000000)
        \<lparr>rr_status := RUN_SUCCEEDED, rr_completedAt := Some 1772500600000\<rparr>],
      lg_windows = [sample_row 1 (plan_windows sample_backfill ! 0), sample_row 2 (plan_windows sample_backfill ! 1)],
      lg_checkpoints = [\<lparr>cr_storeCode = ''ZS0005'', cr_domain = ''purchase-orders'',
        cr_adapterKey = ''openapi.purchase-orders.v1'', cr_lastCompleted = ''2026-02-28'',
        cr_lastCursor = ''2026-03-01'', cr_runId = 1, cr_windowId = 1, cr_fingerprint = replicate 64 CHR ''f''\<rparr>],
      lg_nextRunId = 2, lg_nextWindowId = 3\<rparr>"

lemma sample_execution:
  "case runBackfillPlan (sample_options ''EXECUTE'') sample_order empty_ledger [] of
     (Inr rep, lg, log) \<Rightarrow> lg = sample_after \<and> rep_status rep = RUN_SUCCEEDED \<and> rep_runId rep = Some 1 \<and>
       map fr_attempt log = [1, 1] \<and> map wres_execution (rep_windows rep) = [SUCCEEDED, SUCCEEDED]
   | _ \<Rightarrow> False"
  by code_simp

lemma sample_rerun:
  "case runBackfillPlan (sample_options ''EXECUTE'') sample_order sample_after [] of
     (Inr rep, lg, log) \<Rightarrow> log = [] | _ \<Rightarrow> False"
  by code_simp

lemma sample_runs:
  obtains rep log rep2 lg2 where
    "runBackfillPlan (sample_options ''EXECUTE'') sample_order empty_ledger [] = (Inr rep, sample_after, log)"
    "rep_status rep = RUN_SUCCEEDED" "rep_runId rep = Some 1"
    "map wres_execution (rep_windows rep) = [SUCCEEDED, SUCCEEDED]"
    "runBackfillPlan (sample_options ''EXECUTE'') sample_order sample_after [] = (Inr rep2, lg2, [])"
  using sample_execution sample_rerun by (auto split: prod.splits sum.splits)

lemma sample_options_fields [simp]:
  "ro_plan (sample_options m) = sample_backfill" "ro_mode (sample_options m) = m"
  "ro_repository (sample_options m) = ledger_repository"
  by (simp_all add: sample_options_def)

lemma sample_well_keyed: "well_keyed (plan_windows sample_backfill)"
  by (simp add: well_keyed_def sample_backfill_def Let_def window_grain_in_def sample_window_def)

section \<open>Properties\<close>

text \<open>
  The report of an execution is exact: it lists the windows of the plan in plan order, whatever
  the interleaving; the run succeeded exactly when every window succeeded or was skipped as already
  completed, failed exactly when some window failed and none succeeded or was skipped, and is partial
  otherwise; and a window was handed to an adapter exactly when it ended as succeeded, partial or
  failed, with an attempt count from one to the bound of the window.
\<close>

theorem run_report_exact:
  assumes "runBackfillPlan o' order db env = (Inr rep, db', env')" "ro_mode o' = ''EXECUTE''"
    and "finish_order (ro_plan o') order"
  shows "map wres_window (rep_windows rep) = plan_windows (ro_plan o') \<and>
    (rep_status rep = RUN_SUCCEEDED \<longleftrightarrow> list_all (\<lambda>r. wres_execution r \<in> {SUCCEEDED, SKIPPED}) (rep_windows rep)) \<and>
    (rep_status rep = RUN_FAILED \<longleftrightarrow> list_ex (\<lambda>r. wres_execution r = FAILED) (rep_windows rep) \<and>
       list_all (\<lambda>r. wres_execution r \<notin> {SUCCEEDED, SKIPPED}) (rep_windows rep)) \<and>
    rep_status rep \<in> {RUN_SUCCEEDED, RUN_FAILED, RUN_PARTIAL} \<and>
    list_all (\<lambda>r. if wres_execution r \<in> {SUCCEEDED, PARTIAL, FAILED}
       then wres_invoked r \<and> 1 \<le> wres_attempts r \<and> wres_attempts r \<le> int (max_attempts (wres_window r))
       else \<not> wres_invoked r \<and> wres_attempts r = 0) (rep_windows rep)"
proof (rule execute_results [OF assms])
  fix h db1 irs st
  assume ws: "map wres_window (rep_windows rep) = plan_windows (ro_plan o')"
    and shape: "\<forall>r\<in>set (rep_windows rep). result_shape (run_config_of o' True (rh_id h) db1) r"
  have ex: "wres_execution r \<in> {BLOCKED, SKIPPED, SUCCEEDED, PARTIAL, FAILED}" if "r \<in> set (rep_windows rep)" for r
    by (rule execute_executions [OF bspec [OF shape that]])
  have "rep_status rep = run_status_of True (count_results (rep_windows rep))"
    by (rule execute_cases [OF assms(1,2)]) (simp only: report_fields)
  then have st: "rep_status rep =
      (if (\<exists>r\<in>set (rep_windows rep). wres_execution r = FAILED) \<and>
          (\<forall>r\<in>set (rep_windows rep). wres_execution r \<notin> {SUCCEEDED, SKIPPED}) then RUN_FAILED
       else if \<forall>r\<in>set (rep_windows rep). wres_execution r \<in> {SUCCEEDED, SKIPPED} then RUN_SUCCEEDED else RUN_PARTIAL)"
    using run_status_execute [OF ex] by simp
  have "list_all (\<lambda>r. if wres_execution r \<in> {SUCCEEDED, PARTIAL, FAILED}
       then wres_invoked r \<and> 1 \<le> wres_attempts r \<and> wres_attempts r \<le> int (max_attempts (wres_window r))
       else \<not> wres_invoked r \<and> wres_attempts r = 0) (rep_windows rep)"
    using shape unfolding list_all_iff result_shape_def Let_def by (metis (no_types, lifting))
  then show ?thesis
    unfolding st list_all_iff list_ex_iff using ws by auto
qed

theorem run_report_exact_witness:
  "\<exists>rep lg log. runBackfillPlan (sample_options ''EXECUTE'') sample_order empty_ledger [] = (Inr rep, lg, log) \<and>
     map wres_window (rep_windows rep) = plan_windows sample_backfill"
proof (rule sample_runs)
  fix rep log
  assume run: "runBackfillPlan (sample_options ''EXECUTE'') sample_order empty_ledger [] = (Inr rep, sample_after, log)"
  show ?thesis using run run_report_exact [OF run] sample_order_finish by simp
qed

text \<open>
  C11. Resuming is safe: a window that one execution of a plan reported as succeeded or skipped is
  skipped by the next execution of that plan and never fetched again, in whatever order the lanes of
  either execution worked.
\<close>

theorem completed_windows_never_fetched_again:
  assumes "runBackfillPlan o1 order1 db env = (Inr rep1, db1, env1)"
    and "runBackfillPlan o2 order2 db1 env2 = (Inr rep2, db2, env3)"
    and "ro_mode o1 = ''EXECUTE''" "ro_mode o2 = ''EXECUTE''" "ro_plan o2 = ro_plan o1"
    and "ro_repository o1 = ledger_repository" "ro_repository o2 = ledger_repository"
    and "finish_order (ro_plan o1) order1" "finish_order (ro_plan o1) order2"
    and "ledger_inv db" "well_keyed (plan_windows (ro_plan o1))"
    and "\<forall>h\<in>plan_run_ids (plan_planHash (ro_plan o1)) db. keyed (plan_windows (ro_plan o1)) h db"
    and "r1 \<in> set (rep_windows rep1)" "wres_execution r1 \<in> {SUCCEEDED, SKIPPED}"
    and "r2 \<in> set (rep_windows rep2)" "wres_window r2 = wres_window r1"
  shows "wres_execution r2 = SKIPPED \<and> \<not> wres_invoked r2"
proof -
  let ?p = "plan_planHash (ro_plan o1)"
  have rec: "win_windowKey (wres_window r1) \<in> set (loadCompletedWindowKeys ?p db1)"
    using execute_records [OF assms(1,3,6,8,10,11,12)] assms(13,14) by blast
  obtain h db1' where s1: "result_shape (run_config_of o1 True h db1') r1"
    using execute_results [OF assms(1,3,8)] assms(13) by metis
  then have v: "win_capabilityStatus (wres_window r1) = VERIFIED"
    using assms(14) by (auto simp: result_shape_def Let_def due_def)
  obtain h2 db2' where o2: "repo_openRun (ro_repository o2) (run_request_of o2) (ro_startedAt o2) db1 = (Inr h2, db2')"
    and s2: "result_shape (run_config_of o2 True (rh_id h2) db2') r2"
    using execute_results [OF assms(2,4)] assms(5,9,15) by metis
  have op: "openRun (run_request_of o2) (ro_startedAt o2) db1 = Inr (h2, db2')"
    using o2 by (simp add: assms(7) ledger_open_iff)
  then have "lg_windows db2' = lg_windows db1" "\<And>h. h \<in> plan_run_ids ?p db1 \<Longrightarrow> h \<in> plan_run_ids ?p db2'"
    by (cases rule: openRun_cases; auto simp: plan_run_ids_def)+
  then have "win_windowKey (wres_window r1) \<in> set (loadCompletedWindowKeys ?p db2')"
    using rec unfolding loaded_iff by (metis completed_frame)
  then have "win_windowKey (wres_window r2) \<in> set (rc_completed (run_config_of o2 True (rh_id h2) db2'))"
    by (simp add: run_config_of_def Let_def assms(5,7,16) ledger_repository_def)
  then show ?thesis using s2 v by (simp add: result_shape_def Let_def assms(16))
qed

theorem completed_windows_never_fetched_again_witness:
  "\<exists>rep lg. runBackfillPlan (sample_options ''EXECUTE'') sample_order sample_after [] = (Inr rep, lg, []) \<and>
     list_all (\<lambda>r. wres_execution r = SKIPPED \<and> \<not> wres_invoked r) (rep_windows rep)"
proof (rule sample_runs)
  fix rep log rep2 lg2
  assume r: "runBackfillPlan (sample_options ''EXECUTE'') sample_order empty_ledger [] = (Inr rep, sample_after, log)"
    and ex: "map wres_execution (rep_windows rep) = [SUCCEEDED, SUCCEEDED]"
    and r2: "runBackfillPlan (sample_options ''EXECUTE'') sample_order sample_after [] = (Inr rep2, lg2, [])"
  have order: "finish_order (ro_plan (sample_options ''EXECUTE'')) sample_order"
    using sample_order_finish by simp
  have same: "map wres_window (rep_windows rep) = map wres_window (rep_windows rep2)"
    by (rule execute_results [OF r _ order], simp, rule execute_results [OF r2 _ order]) simp_all
  have "wres_execution q2 = SKIPPED \<and> \<not> wres_invoked q2" if q2: "q2 \<in> set (rep_windows rep2)" for q2
  proof -
    have "wres_window q2 \<in> wres_window ` set (rep_windows rep)" using q2 same by (metis image_eqI list.set_map)
    then obtain q where q: "q \<in> set (rep_windows rep)" "wres_window q2 = wres_window q" by blast
    have "wres_execution q \<in> set (map wres_execution (rep_windows rep))" using q(1) by simp
    then have ok: "wres_execution q \<in> {SUCCEEDED, SKIPPED}" unfolding ex by simp
    show ?thesis
      by (rule completed_windows_never_fetched_again [OF r r2 _ _ _ _ _ order order empty_ledger_inv _ _ q(1) ok q2 q(2)])
        (simp_all add: sample_well_keyed plan_run_ids_def empty_ledger_def)
  qed
  then show ?thesis using r2 by (auto simp: list_all_iff)
qed

text \<open>
  An execution over the ledger that returns a report has closed the run it reports: the row of
  that run, the one of this plan, holds the reported status and a completion instant.
\<close>

theorem execution_closes_its_run:
  assumes "runBackfillPlan o' order db env = (Inr rep, db', env')" "ro_mode o' = ''EXECUTE''"
    and "ro_repository o' = ledger_repository" "finish_order (ro_plan o') order" "ledger_inv db"
    and "well_keyed (plan_windows (ro_plan o'))"
    and "\<forall>h\<in>plan_run_ids (plan_planHash (ro_plan o')) db. keyed (plan_windows (ro_plan o')) h db"
  shows "\<exists>row\<in>set (lg_runs db'). rep_runId rep = Some (rr_id row) \<and> rr_planHash row = plan_planHash (ro_plan o') \<and>
      rr_mode row = EXECUTE \<and> rr_status row = rep_status rep \<and> rr_completedAt row \<noteq> None"
  using execute_records [OF assms] by blast

theorem execution_closes_its_run_witness:
  "list_ex (\<lambda>row. rr_id row = 1 \<and> rr_status row = RUN_SUCCEEDED \<and> rr_completedAt row \<noteq> None) (lg_runs sample_after)"
proof (rule sample_runs)
  fix rep log
  assume r: "runBackfillPlan (sample_options ''EXECUTE'') sample_order empty_ledger [] = (Inr rep, sample_after, log)"
    and rep: "rep_status rep = RUN_SUCCEEDED" "rep_runId rep = Some 1"
  have "\<exists>row\<in>set (lg_runs sample_after). rep_runId rep = Some (rr_id row) \<and>
      rr_planHash row = plan_planHash (ro_plan (sample_options ''EXECUTE'')) \<and>
      rr_mode row = EXECUTE \<and> rr_status row = rep_status rep \<and> rr_completedAt row \<noteq> None"
    by (rule execution_closes_its_run [OF r _ _ _ empty_ledger_inv])
      (simp_all add: sample_order_finish sample_well_keyed plan_run_ids_def empty_ledger_def)
  then show ?thesis unfolding rep list_ex_iff by auto
qed

section \<open>The limit on attempts\<close>

lemma attempt_limit:
  "attempt_window planHash fetch w ck 99 left 0 env =
    (Inr (evaluateWindowOutcome w (failed_result ''BACKFILL_ATTEMPT_LIMIT_REACHED'') ck, 1), env, 0)"
  by (subst attempt_window.simps) simp

lemma limit_outcome:
  assumes "win_capabilityStatus w = VERIFIED"
  shows "evaluateWindowOutcome w (failed_result ''BACKFILL_ATTEMPT_LIMIT_REACHED'') ck =
    outcome FAILED ADAPTER_ERROR (Some ''BACKFILL_ATTEMPT_LIMIT_REACHED'') no_evidence"
proof -
  have "sanitized_code_pattern ''BACKFILL_ATTEMPT_LIMIT_REACHED''" by code_simp
  then show ?thesis
    by (simp add: evaluateWindowOutcome_def failed_result_def assms Let_def adapter_code_def result_counts_def
        no_evidence_def unit_count_def source_watermark_def explicit_watermark_def businessDate_def business_dates_def
        raw_business_dates_def dedupe_def List.map_filter_def)
qed

text \<open>
  C38. The limit of 99 attempts is not durable: at a window whose 99 attempts are recorded the next
  run calls no adapter, yet it reports an adapter call and adds one more attempt to the row; the
  count of 100 is then outside the range the run after it reads, which starts again with no prior
  attempt.
\<close>

theorem attempt_limit_restarts_ordinals:
  assumes "run_on_ledger cf h" "due cf w" "rc_adapters cf (win_adapterKey w) = Some fetch"
    and "rc_prior cf (win_windowKey w) = 99" "processWindow cf w st = (Inr r, st')"
    and "row \<in> set (lg_windows (rs_db st))" "row_grain row = window_grain_in h w" "wr_attempts row = 99"
    and "ledger_inv (rs_db st)"
    and "\<forall>r\<in>set (lg_windows (rs_db st)). wr_windowKey r = win_windowKey w \<longrightarrow> r = row"
  shows "rs_env st' = rs_env st \<and> wres_invoked r \<and> wres_code r = Some ''BACKFILL_ATTEMPT_LIMIT_REACHED'' \<and>
    (\<exists>row'\<in>set (lg_windows (rs_db st')). row_grain row' = window_grain_in h w \<and> wr_attempts row' = 100) \<and>
    prior_attempts (loadWindowAttemptCounts planHash (rs_db st')) (win_windowKey w) = 0"
proof -
  let ?oc = "evaluateWindowOutcome w (failed_result ''BACKFILL_ATTEMPT_LIMIT_REACHED'') (rs_checkpoints st (window_grain_key w))"
  have v: "rc_execute cf" "win_capabilityStatus w = VERIFIED" "win_windowKey w \<notin> set (rc_completed cf)"
    using assms(2) by (simp_all add: due_def)
  have cf: "rc_repository cf = ledger_repository" "rc_runId cf = Some h" using assms(1) by (simp_all add: run_on_ledger_def)
  have oc: "?oc = outcome FAILED ADAPTER_ERROR (Some ''BACKFILL_ATTEMPT_LIMIT_REACHED'') no_evidence"
    by (rule limit_outcome [OF v(2)])
  have p: "processWindow cf w st = commit_attempted cf w ?oc 1 st"
    unfolding processWindow_def by (simp add: v assms(3,4) attempt_limit)
  obtain ps where c: "commitWindowOutcome h w ?oc 1 (proposed cf w ?oc st) (rs_db st) = Inr (ps, rs_db st')"
    and r: "r = attempted_result w ?oc (ps_advanced ps) 1" and env: "rs_env st' = rs_env st"
    using assms(5) unfolding p
    by (cases rule: commit_attempted_cases [of cf w ?oc 1 st]) (auto simp: cf)
  obtain i lg1 where u: "upsertWindow h w ?oc 1 (rs_db st) = Inr (i, lg1)" and f: "lg_windows (rs_db st') = lg_windows lg1"
    using c by (rule commit_windows)
  have "(\<exists>row'\<in>set (lg_windows lg1). row_grain row' = window_grain_in h w \<and> wr_attempts row' = 100) \<and>
      (\<forall>r\<in>set (lg_windows lg1). wr_windowKey r = win_windowKey w \<longrightarrow> wr_attempts r = 100)"
    using u
  proof (cases rule: upsertWindow_cases)
    case insert
    then show ?thesis using assms(6,7) by auto
  next
    case (update old)
    let ?row = "merge_window_row old (new_window_row (lg_nextWindowId (rs_db st)) h w ?oc 1)"
    have "row_grain old = row_grain row" using update(2) assms(7) by simp
    then have "old = row"
      using assms(6,9) update(1) distinct_map_unique unfolding ledger_inv_def windows_inv_def by metis
    then have row: "wr_attempts ?row = 100" "row_grain ?row = window_grain_in h w"
      using assms(7,8) by (simp_all add: merge_window_row_def new_window_row_def row_grain_def)
    have mem: "?row \<in> set (lg_windows lg1)" using update(1) by (auto simp: update(6))
    have "wr_attempts r = 100" if "r \<in> set (lg_windows lg1)" "wr_windowKey r = win_windowKey w" for r
    proof -
      have "r = ?row \<or> r \<in> set (lg_windows (rs_db st)) \<and> wr_id r \<noteq> wr_id old"
        using that(1) by (auto simp: update(6) split: if_splits)
      then show ?thesis using assms(10) that(2) row(1) \<open>old = row\<close> by auto
    qed
    then show ?thesis using mem row by blast
  qed
  note rows = this [folded f]
  have "map_of (rev (filter (\<lambda>(k, n). 0 \<le> n \<and> n \<le> 99) (loadWindowAttemptCounts planHash (rs_db st')))) (win_windowKey w) = None"
    using rows by (auto simp: map_of_eq_None_iff loadWindowAttemptCounts_def)
  then have "prior_attempts (loadWindowAttemptCounts planHash (rs_db st')) (win_windowKey w) = 0"
    by (simp add: prior_attempts_def)
  then show ?thesis using rows env by (simp add: r oc)
qed

text \<open>A ledger in which 99 attempts of the first sample window have failed.\<close>

definition worn_row :: window_row where
  [js_eval]: "worn_row = (new_window_row 1 1 sample_window
     (outcome FAILED ADAPTER_ERROR (Some ''ADAPTER_THREW'') no_evidence) 99)"

definition worn_ledger :: ledger where
  [js_eval]: "worn_ledger = sample_opened\<lparr>lg_windows := [worn_row], lg_nextWindowId := 2\<rparr>"

lemma worn_ledger_inv: "ledger_inv worn_ledger"
proof -
  have s: "ledger_inv sample_opened" by (rule ledger_step_inv [OF sample_opened_step empty_ledger_inv])
  have "window_row_ok worn_row" "wr_id worn_row = 1" "run_exists worn_ledger (wr_runId worn_row)" by code_simp+
  moreover have "lg_checkpoints worn_ledger = []" "lg_windows worn_ledger = [worn_row]" "lg_nextWindowId worn_ledger = 2"
    "lg_runs worn_ledger = lg_runs sample_opened" "lg_nextRunId worn_ledger = lg_nextRunId sample_opened"
    by (simp_all add: worn_ledger_def sample_opened_def empty_ledger_def)
  ultimately show ?thesis
    using s by (simp add: ledger_inv_def runs_inv_def windows_inv_def checkpoints_inv_def)
qed

definition worn_config :: "(ledger, fetch_request list) run_config" where
  [js_eval]: "worn_config = run_config_of (sample_options ''EXECUTE'') True (Some 1) worn_ledger"

lemma worn_process:
  "case processWindow worn_config sample_window (run_state_of (sample_options ''EXECUTE'') True worn_ledger []) of
     (Inr r, st') \<Rightarrow> True | _ \<Rightarrow> False"
  by code_simp

theorem attempt_limit_restarts_ordinals_witness:
  "\<exists>r st'. processWindow worn_config sample_window (run_state_of (sample_options ''EXECUTE'') True worn_ledger []) = (Inr r, st') \<and>
     wres_invoked r \<and> rs_env st' = [] \<and>
     prior_attempts (loadWindowAttemptCounts (replicate 64 CHR ''a'') (rs_db st')) (replicate 64 CHR ''b'') = 0"
proof -
  obtain r st' where p: "processWindow worn_config sample_window (run_state_of (sample_options ''EXECUTE'') True worn_ledger []) = (Inr r, st')"
    using worn_process by (auto split: prod.splits sum.splits)
  have cf: "run_on_ledger worn_config 1" by (simp add: run_on_ledger_def worn_config_def)
  have prior: "rc_prior worn_config (win_windowKey sample_window) = 99" by code_simp
  have "due worn_config sample_window" unfolding due_def by code_simp
  note L = attempt_limit_restarts_ordinals [OF cf this _ prior p, of _ worn_row "replicate 64 CHR ''a''"]
  have ad: "rc_adapters worn_config (win_adapterKey sample_window) =
      Some (\<lambda>req log. (Returned (sample_proof (fr_windowStart req)), log @ [req]))"
    by (simp add: worn_config_def sample_options_def sample_adapters_def sample_window_def)
  have st: "rs_db (run_state_of (sample_options ''EXECUTE'') True worn_ledger ([] :: fetch_request list)) = worn_ledger"
    "rs_env (run_state_of (sample_options ''EXECUTE'') True worn_ledger ([] :: fetch_request list)) = []" by simp_all
  have row: "row_grain worn_row = window_grain_in 1 sample_window" "wr_attempts worn_row = 99"
    "lg_windows worn_ledger = [worn_row]" "win_windowKey sample_window = replicate 64 CHR ''b''"
    by (simp_all add: worn_row_def new_window_row_def worn_ledger_def sample_window_def row_grain_def window_grain_in_def)
  show ?thesis using L [OF ad] p by (simp add: st row worn_ledger_inv)
qed

end
