(* ===== verification/Js_Number.thy ===== *)
theory Js_Number
  imports Js_Value
begin

text \<open>
  \<open>Number(v)\<close>: the double that a text or a value reads as, given by its shortest decimal. A finite
  positive double is a pair of a significand below the 53rd power of two and a binary exponent; a
  decimal is rounded to the nearest double, ties to the even significand.
\<close>

section \<open>Doubles\<close>

fun bit_len :: "nat \<Rightarrow> nat" where
  "bit_len n = (if n = 0 then 0 else Suc (bit_len (n div 2)))"

declare bit_len.simps [simp del]
declare bit_len.simps [js_eval]

definition div_half_even :: "nat \<Rightarrow> nat \<Rightarrow> nat" where
  [js_eval]: "div_half_even n d =
     (let q = n div d; r = n mod d
      in if 2 * r < d \<or> 2 * r = d \<and> even q then q else q + 1)"

text \<open>The quotient \<open>n / d\<close> in units of the \<open>e\<close>-th power of two, as a fraction.\<close>

definition in_units :: "nat \<Rightarrow> nat \<Rightarrow> int \<Rightarrow> nat \<times> nat" where
  [js_eval]: "in_units n d e = (if 0 \<le> e then (n, d * 2 ^ nat e) else (n * 2 ^ nat (- e), d))"

definition unit_exponent :: "nat \<Rightarrow> nat \<Rightarrow> int" where
  [js_eval]: "unit_exponent n d =
     (let e = int (bit_len n) - int (bit_len d) - 53
      in case in_units n d e of (a, b) \<Rightarrow> max (- 1074) (if b * 2 ^ 53 \<le> a then e + 1 else e))"

definition to_double :: "nat \<Rightarrow> nat \<Rightarrow> nat \<times> int" where
  [js_eval]: "to_double n d =
     (let e = unit_exponent n d
      in case in_units n d e of (a, b) \<Rightarrow>
           let m = div_half_even a b in if m = 2 ^ 53 then (2 ^ 52, e + 1) else (m, e))"

text \<open>The fraction that a pair stands for.\<close>

definition double_fraction :: "nat \<times> int \<Rightarrow> nat \<times> nat" where
  [js_eval]: "double_fraction v =
     (case v of (m, e) \<Rightarrow> if 0 \<le> e then (m * 2 ^ nat e, 1) else (m, 2 ^ nat (- e)))"

section \<open>The shortest decimal\<close>

fun lead_zeros :: "nat \<Rightarrow> nat \<Rightarrow> nat \<Rightarrow> nat" where
  "lead_zeros 0 n d = 0"
| "lead_zeros (Suc fuel) n d = (if n * 10 < d then Suc (lead_zeros fuel (n * 10) d) else 0)"

text \<open>
  The number of digits before the point, zero or negative for fractions below a tenth; no double has
  400 zeros after its point.
\<close>

definition point_place :: "nat \<Rightarrow> nat \<Rightarrow> int" where
  [js_eval]: "point_place n d =
     (if d \<le> n then int (length (show_nat (n div d)))
      else - int (lead_zeros 400 n d))"

definition decimal_fraction :: "nat \<Rightarrow> int \<Rightarrow> nat \<times> nat" where
  [js_eval]: "decimal_fraction s x = (if 0 \<le> x then (s * 10 ^ nat x, 1) else (s, 10 ^ nat (- x)))"

text \<open>
  The digits and the exponent with \<open>k\<close> digits that read as the given double, the nearer of the two
  neighbours where both do.
\<close>

definition decimal_with :: "nat \<times> int \<Rightarrow> nat \<Rightarrow> (nat \<times> int) option" where
  [js_eval]: "decimal_with v k =
     (case double_fraction v of (n, d) \<Rightarrow>
        let x = point_place n d - int k;
            q = (case decimal_fraction 1 x of (a, b) \<Rightarrow> (n * b, d * a));
            low = fst q div snd q; high = low + 1;
            reads = (\<lambda>s. case decimal_fraction s x of (a, b) \<Rightarrow> 0 < a \<and> to_double a b = v)
        in if reads low \<and> (\<not> reads high \<or> 2 * (fst q mod snd q) \<le> snd q) then Some (low, x)
           else if reads high then Some (high, x) else None)"

text \<open>Seventeen digits always suffice.\<close>

fun first_decimal :: "nat \<times> int \<Rightarrow> nat \<Rightarrow> nat \<Rightarrow> nat \<times> int" where
  "first_decimal v k 0 = (0, 0)"
| "first_decimal v k (Suc fuel) =
     (case decimal_with v k of None \<Rightarrow> first_decimal v (Suc k) fuel | Some r \<Rightarrow> r)"

definition shortest_decimal :: "nat \<times> int \<Rightarrow> nat \<times> int" where
  [js_eval]: "shortest_decimal v = first_decimal v 1 17"

fun trim_tens :: "nat \<Rightarrow> nat \<Rightarrow> int \<times> nat" where
  "trim_tens 0 s = (int s, 0)"
| "trim_tens (Suc k) s = (if s mod 10 = 0 then trim_tens k (s div 10) else (int s, Suc k))"

definition decimal_number :: "bool \<Rightarrow> nat \<Rightarrow> int \<Rightarrow> jsnum" where
  [js_eval]: "decimal_number neg s x =
     (let sg = (\<lambda>n. if neg then - n else n)
      in if 0 \<le> x then NInt (sg (int s * 10 ^ nat x))
         else case trim_tens (nat (- x)) s of (m, k) \<Rightarrow> if k = 0 then NInt (sg m) else NFrac (sg m) k)"

text \<open>
  The number a decimal literal reads as. The guards keep the powers of ten small: literals beyond
  them are above the largest double or below half of the smallest one.
\<close>

definition round_decimal :: "bool \<Rightarrow> nat \<Rightarrow> int \<Rightarrow> jsnum" where
  [js_eval]: "round_decimal neg s x =
     (let len = int (length (show_nat s))
      in if s = 0 \<or> len + x < - 330 then NInt 0
         else if 310 < len + x then NInf neg
         else case decimal_fraction s x of (n, d) \<Rightarrow>
           (case to_double n d of (m, e) \<Rightarrow>
              if m = 0 then NInt 0
              else if 971 < e then NInf neg
              else case shortest_decimal (m, e) of (r, y) \<Rightarrow> decimal_number neg r y))"

section \<open>Texts\<close>

definition is_hex_digit :: "char \<Rightarrow> bool" where
  [js_eval]: "is_hex_digit c \<longleftrightarrow> is_hex c \<or> 65 \<le> code c \<and> code c \<le> 70"

definition hex_val :: "char \<Rightarrow> nat" where
  [js_eval]: "hex_val c = (if is_digit c then digit_val c else if 97 \<le> code c then code c - 87 else code c - 55)"

definition read_base :: "nat \<Rightarrow> string \<Rightarrow> nat" where
  [js_eval]: "read_base b s = foldl (\<lambda>a c. b * a + hex_val c) 0 s"

definition read_exponent :: "string \<Rightarrow> int option" where
  [js_eval]: "read_exponent s =
     (case s of [] \<Rightarrow> Some 0
      | c # cs \<Rightarrow>
        if c \<noteq> CHR ''e'' \<and> c \<noteq> CHR ''E'' then None
        else let (neg, ds) = (case cs of d # ds \<Rightarrow> if d = CHR ''-'' then (True, ds)
                              else if d = CHR ''+'' then (False, ds) else (False, cs) | [] \<Rightarrow> (False, []))
             in if ds \<noteq> [] \<and> list_all is_digit ds
                then Some (if neg then - int (read_nat ds) else int (read_nat ds)) else None)"

definition read_unsigned :: "bool \<Rightarrow> string \<Rightarrow> jsnum" where
  [js_eval]: "read_unsigned neg s =
     (if s = ''Infinity'' then NInf neg
      else let whole = takeWhile is_digit s; rest = dropWhile is_digit s;
               (frac, tail) = (case rest of c # cs \<Rightarrow> if c = CHR ''.''
                 then (takeWhile is_digit cs, dropWhile is_digit cs) else ([], rest) | [] \<Rightarrow> ([], []))
           in if whole = [] \<and> frac = [] then NNaN
              else case read_exponent tail of None \<Rightarrow> NNaN
                | Some x \<Rightarrow> round_decimal neg (read_nat (whole @ frac)) (x - int (length frac)))"

definition number_of_text :: "string \<Rightarrow> jsnum" where
  [js_eval]: "number_of_text text =
     (let s = js_trim text;
          based = (\<lambda>b P. let ds = drop 2 s in
            if ds \<noteq> [] \<and> list_all P ds then round_decimal False (read_base b ds) 0 else NNaN)
      in case s of [] \<Rightarrow> NInt 0
         | c # cs \<Rightarrow>
           if take 2 s = ''0x'' \<or> take 2 s = ''0X'' then based 16 is_hex_digit
           else if take 2 s = ''0o'' \<or> take 2 s = ''0O'' then based 8 (\<lambda>c. 48 \<le> code c \<and> code c \<le> 55)
           else if take 2 s = ''0b'' \<or> take 2 s = ''0B'' then based 2 (\<lambda>c. code c = 48 \<or> code c = 49)
           else if c = CHR ''-'' then read_unsigned True cs
           else if c = CHR ''+'' then read_unsigned False cs
           else read_unsigned False s)"

text \<open>\<open>Number(v)\<close>: an object is converted by way of its text.\<close>

fun js_number :: "jsv \<Rightarrow> jsnum result" where
  "js_number JUndef = Inr NNaN"
| "js_number JNull = Inr (NInt 0)"
| "js_number (JBool b) = Inr (NInt (if b then 1 else 0))"
| "js_number (JNum n) = Inr n"
| "js_number (JStr s) = Inr (number_of_text s)"
| "js_number (JArr vs) = ebind (js_string (JArr vs)) (\<lambda>s. Inr (number_of_text s))"
| "js_number (JObj ps) = ebind (js_string (JObj ps)) (\<lambda>s. Inr (number_of_text s))"

fun num_finite :: "jsnum \<Rightarrow> bool" where
  "num_finite (NInt n) = True"
| "num_finite (NFrac m k) = True"
| "num_finite NNaN = False"
| "num_finite (NInf neg) = False"

fun num_negative :: "jsnum \<Rightarrow> bool" where
  "num_negative (NInt n) = (n < 0)"
| "num_negative (NFrac m k) = (m < 0)"
| "num_negative NNaN = False"
| "num_negative (NInf neg) = neg"

text \<open>Readings of literals: blanks, an exponent without digits and other rejected forms.\<close>

lemma number_examples:
  "map number_of_text [[], '' 12 '', ''1e'', ''1_0'', ''abc''] = [NInt 0, NInt 12, NNaN, NNaN, NNaN]"
  by code_simp

end
