(* ===== verification/Openapi_Fields.thy ===== *)
theory Openapi_Fields
  imports Js_Date Js_Number
begin

text \<open>
  The field readers that the mappers of \<open>src/domain\<close> share: records, scalar texts, quantities and
  platform date-times. The mappers repeat them with the same body; where a mapper reads a field in
  another way, its own theory has its own reader.
\<close>

section \<open>Scalars\<close>

definition record_field :: "jsv \<Rightarrow> string \<Rightarrow> jsv result" where
  [js_eval]: "record_field v location =
     (if is_record v then Inr v else Inl (Fail ''INVALID_FIELD'' location))"

definition absent :: "jsv \<Rightarrow> bool" where
  [js_eval]: "absent v \<longleftrightarrow> v = JUndef \<or> v = JNull \<or> v = JStr []"

fun scalar :: "jsv \<Rightarrow> bool" where
  "scalar (JStr s) = True"
| "scalar (JNum n) = True"
| "scalar (JBool b) = True"
| "scalar _ = False"

definition nonempty :: "string \<Rightarrow> string option" where
  [js_eval]: "nonempty s = (if s = [] then None else Some s)"

definition optionalText :: "jsv \<Rightarrow> string \<Rightarrow> string option result" where
  [js_eval]: "optionalText v location =
     (if absent v then Inr None
      else if \<not> scalar v then Inl (Fail ''INVALID_FIELD'' location)
      else ebind (js_string v) (\<lambda>s. Inr (nonempty (js_trim s))))"

definition requiredText :: "jsv \<Rightarrow> string \<Rightarrow> string result" where
  [js_eval]: "requiredText v location =
     ebind (optionalText v location) (\<lambda>t. case t of
       None \<Rightarrow> Inl (Fail ''MISSING_FIELD'' location) | Some s \<Rightarrow> Inr s)"

text \<open>
  The safe integer that a value normalizes to: a text of digits is converted, and a text of digits
  that denotes more than the largest safe integer rounds to a double above it.
\<close>

fun count_of :: "jsv \<Rightarrow> int option" where
  "count_of (JStr s) = (let t = js_trim s in
     if t \<noteq> [] \<and> list_all is_digit t \<and> int (read_nat t) \<le> max_safe then Some (int (read_nat t)) else None)"
| "count_of v = (case safe_int v of None \<Rightarrow> None | Some n \<Rightarrow> if 0 \<le> n then Some n else None)"

definition quantity :: "jsv \<Rightarrow> string \<Rightarrow> int result" where
  [js_eval]: "quantity v location =
     (if absent v then Inl (Fail ''MISSING_FIELD'' location)
      else case count_of v of None \<Rightarrow> Inl (Fail ''INVALID_QUANTITY'' location) | Some n \<Rightarrow> Inr n)"

definition optional_quantity :: "jsv \<Rightarrow> string \<Rightarrow> int option result" where
  [js_eval]: "optional_quantity v location =
     (if absent v then Inr None else ebind (quantity v location) (\<lambda>n. Inr (Some n)))"

section \<open>Date-times\<close>

definition is_char :: "char \<Rightarrow> char \<Rightarrow> bool" where
  [js_eval]: "is_char c d \<longleftrightarrow> d = c"

definition date_shape :: "(char \<Rightarrow> bool) list" where
  [js_eval]: "date_shape = [is_digit, is_digit, is_digit, is_digit, is_dash, is_digit, is_digit, is_dash, is_digit, is_digit]"

definition clock_shape :: "(char \<Rightarrow> bool) list" where
  [js_eval]: "clock_shape = [is_digit, is_digit, is_char CHR '':'', is_digit, is_digit]"

definition second_shape :: "(char \<Rightarrow> bool) list" where
  [js_eval]: "second_shape = [is_char CHR '':'', is_digit, is_digit]"

text \<open>A local date-time, without its seconds where the source allows it.\<close>

definition local_pattern :: "bool \<Rightarrow> string \<Rightarrow> bool" where
  [js_eval]: "local_pattern optional_seconds s \<longleftrightarrow>
     matches_seq (date_shape @ [is_char CHR '' ''] @ clock_shape @ second_shape) s \<or>
     optional_seconds \<and> matches_seq (date_shape @ [is_char CHR '' ''] @ clock_shape) s"

text \<open>The fraction digits and the zone of \<open>(?:\.\d{1,9})?(?:Z|[+-]\d{2}:\d{2})\<close>.\<close>

definition zone_parts :: "string \<Rightarrow> (string \<times> string) option" where
  [js_eval]: "zone_parts t =
     (let (frac, zone) = (case t of c # cs \<Rightarrow> if c = CHR ''.''
            then (takeWhile is_digit cs, dropWhile is_digit cs) else ([], t) | [] \<Rightarrow> ([], []));
          dotted = (case t of c # cs \<Rightarrow> c = CHR ''.'' | [] \<Rightarrow> False)
      in if (dotted \<longrightarrow> 1 \<le> length frac \<and> length frac \<le> 9) \<and>
            (zone = ''Z'' \<or> matches_seq ([\<lambda>c. c = CHR ''+'' \<or> c = CHR ''-''] @ clock_shape) zone)
         then Some (frac, zone) else None)"

definition zoned_pattern :: "string \<Rightarrow> bool" where
  [js_eval]: "zoned_pattern s \<longleftrightarrow>
     matches_seq (date_shape @ [is_char CHR ''T''] @ clock_shape @ second_shape) (take 19 s) \<and>
     zone_parts (drop 19 s) \<noteq> None"

record civil_time =
  ct_year :: int
  ct_month :: int
  ct_day :: int
  ct_hour :: int
  ct_minute :: int
  ct_second :: int

definition civil_fields :: "string \<Rightarrow> civil_time" where
  [js_eval]: "civil_fields s =
     (let num = (\<lambda>i n. int (read_nat (take n (drop i s))))
      in \<lparr>ct_year = num 0 4, ct_month = num 5 2, ct_day = num 8 2, ct_hour = num 11 2, ct_minute = num 14 2,
          ct_second = num 17 2\<rparr>)"

text \<open>\<open>Date.UTC\<close>: two-digit years count from 1900, every field may run over.\<close>

definition date_utc :: "civil_time \<Rightarrow> int" where
  [js_eval]: "date_utc c =
     make_day (if 0 \<le> ct_year c \<and> ct_year c \<le> 99 then 1900 + ct_year c else ct_year c) (ct_month c) (ct_day c) * ms_per_day
       + ct_hour c * 3600000 + ct_minute c * 60000 + ct_second c * 1000"

definition utc_fields :: "int \<Rightarrow> civil_time" where
  [js_eval]: "utc_fields t =
     (case civil_of_day (t div ms_per_day) of (y, m, d) \<Rightarrow>
        let r = t mod ms_per_day
        in \<lparr>ct_year = y, ct_month = m, ct_day = d, ct_hour = r div 3600000, ct_minute = r div 60000 mod 60,
            ct_second = r div 1000 mod 60\<rparr>)"

text \<open>The calendar check: the fields survive the round trip through \<open>Date.UTC\<close>.\<close>

definition calendar_exact :: "civil_time \<Rightarrow> bool" where
  [js_eval]: "calendar_exact c \<longleftrightarrow> utc_fields (date_utc c) = c"

text \<open>
  \<open>new Date(text)\<close> on a zoned text. The interchange format of the language has a fraction of three
  digits and an offset up to 23:59; what other fractions and offsets read as is up to the engine,
  which is a parameter.
\<close>

definition zone_offset :: "string \<Rightarrow> int option" where
  [js_eval]: "zone_offset z =
     (if z = ''Z'' then Some 0
      else let h = int (read_nat (take 2 (drop 1 z))); m = int (read_nat (take 2 (drop 4 z)))
           in if h \<le> 23 \<and> m \<le> 59
              then Some ((if take 1 z = ''-'' then - 1 else 1) * (h * 3600000 + m * 60000)) else None)"

definition zoned_instant :: "(string \<Rightarrow> int option) \<Rightarrow> string \<Rightarrow> int option" where
  [js_eval]: "zoned_instant engine s =
     (case zone_parts (drop 19 s) of None \<Rightarrow> engine s
      | Some (frac, zone) \<Rightarrow>
        if frac = [] \<or> length frac = 3
        then (case zone_offset zone of None \<Rightarrow> engine s
              | Some off \<Rightarrow> Some (date_utc (civil_fields s) + int (read_nat frac) - off))
        else engine s)"

definition epoch_sentinel :: "string \<Rightarrow> bool" where
  [js_eval]: "epoch_sentinel s \<longleftrightarrow> take 10 s = ''1970-01-01'' \<and>
     (case drop 10 s of [] \<Rightarrow> False | c # _ \<Rightarrow> is_space c \<or> c = CHR ''T'')"

definition sourceDate :: "bool \<Rightarrow> (string \<Rightarrow> int option) \<Rightarrow> jsv \<Rightarrow> string \<Rightarrow> string option result" where
  [js_eval]: "sourceDate optional_seconds engine v location =
     (if absent v then Inr None
      else case as_string v of None \<Rightarrow> Inl (Fail ''INVALID_DATE'' location)
      | Some s \<Rightarrow>
        if epoch_sentinel s then Inr None
        else if \<not> local_pattern optional_seconds s \<and> \<not> zoned_pattern s then Inl (Fail ''INVALID_DATE'' location)
        else if \<not> calendar_exact (civil_fields s) then Inl (Fail ''INVALID_DATE'' location)
        else if local_pattern optional_seconds s
             then Inr (Some (to_iso_string (date_utc (civil_fields s) - 8 * 3600000)))
        else case zoned_instant engine s of
          None \<Rightarrow> Inl (Fail ''INVALID_DATE'' location)
        | Some t \<Rightarrow> Inr (Some (to_iso_string t)))"

text \<open>
  The instant a caller passes as \<open>fetchedAt\<close>: a date or a text counts as the instant it reads as.
\<close>

datatype instant_input = At int | Unreadable

definition normalizeFetchedAt :: "instant_input \<Rightarrow> string result" where
  [js_eval]: "normalizeFetchedAt v =
     (case v of At t \<Rightarrow> Inr (to_iso_string t) | Unreadable \<Rightarrow> Inl (Fail ''INVALID_FETCHED_AT'' ''fetchedAt''))"

section \<open>Elements of arrays\<close>

definition indexed :: "string \<Rightarrow> nat \<Rightarrow> string" where
  [js_eval]: "indexed location i = location @ ''['' @ show_nat i @ '']''"

definition array_field :: "jsv \<Rightarrow> string \<Rightarrow> jsv list result" where
  [js_eval]: "array_field v location =
     (case as_array v of None \<Rightarrow> Inl (Fail ''INVALID_FIELD'' location) | Some vs \<Rightarrow> Inr vs)"

text \<open>\<open>rows.map((row, index) => f(row, `location[index]`))\<close>\<close>

definition emap_indexed :: "(jsv \<Rightarrow> string \<Rightarrow> 'a result) \<Rightarrow> string \<Rightarrow> jsv list \<Rightarrow> 'a list result" where
  [js_eval]: "emap_indexed f location rows = emap (\<lambda>(i, row). f row (indexed location i)) (enumerate 0 rows)"

section \<open>The response envelope\<close>

text \<open>
  A code other than 0 is reported with the platform's message and trace, whose reading may itself
  fail first. The reader of optional texts is the one of the mapper.
\<close>

type_synonym text_reader = "jsv \<Rightarrow> string \<Rightarrow> string option result"

definition platform_ok :: "text_reader \<Rightarrow> jsv \<Rightarrow> unit result" where
  [js_eval]: "platform_ok read body =
     ebind (js_string (jget body ''code'')) (\<lambda>c.
       if c = ''0'' then Inr ()
       else ebind (read (jget body ''msg'') ''response.msg'') (\<lambda>_.
            ebind (read (jget body ''traceId'') ''response.traceId'') (\<lambda>_.
            Inl (Fail ''OPENAPI_RESPONSE_ERROR'' c))))"

definition trace_of :: "text_reader \<Rightarrow> jsv \<Rightarrow> string option result" where
  [js_eval]: "trace_of read body =
     ebind (read (jget body ''traceId'') ''response.traceId'') (\<lambda>t. Inr (map_option (take 128) t))"

definition response_count :: "jsv \<Rightarrow> int result" where
  [js_eval]: "response_count info =
     ebind (js_number (coalesce (jget info ''count'') (JNum (NInt 0)))) (\<lambda>n.
       case unit_count (JNum n) of None \<Rightarrow> Inl (Fail ''INVALID_FIELD'' ''response.info.count'') | Some c \<Rightarrow> Inr c)"

end
