(* ===== verification/Purchase_Order.thy ===== *)
theory Purchase_Order
  imports Openapi_Fields
begin

text \<open>
  \<open>src/domain/purchase-order.mjs\<close>: the mapper from the platform's purchase orders to orders, lines
  and JIT relations. The fields are read in the order of the source, so the first bad one is the one
  reported.
\<close>

section \<open>Lines\<close>

record order_line =
  ol_skuCode :: "string option"
  ol_skc :: "string option"
  ol_supplierCode :: "string option"
  ol_supplierSku :: "string option"
  ol_variantName :: "string option"
  ol_need :: "int option"
  ol_order :: "int option"
  ol_delivery :: "int option"
  ol_receipt :: "int option"
  ol_storage :: "int option"
  ol_defective :: "int option"
  ol_requestDelivery :: "int option"
  ol_noRequestDelivery :: "int option"
  ol_alreadyDelivery :: "int option"

definition line_text :: "jsv \<Rightarrow> string \<Rightarrow> string \<Rightarrow> string option result" where
  [js_eval]: "line_text row location k = optionalText (jget row k) (location @ ''.'' @ k)"

definition line_quantity :: "jsv \<Rightarrow> string \<Rightarrow> string \<Rightarrow> int option result" where
  [js_eval]: "line_quantity row location k = optional_quantity (jget row k) (location @ ''.'' @ k)"

definition mapLine :: "jsv \<Rightarrow> string \<Rightarrow> order_line result" where
  [js_eval]: "mapLine v location =
     ebind (record_field v location) (\<lambda>row.
     ebind (line_text row location ''skuCode'') (\<lambda>skuCode.
     ebind (line_text row location ''skc'') (\<lambda>skc.
     ebind (line_text row location ''supplierCode'') (\<lambda>supplierCode.
     ebind (ensure (skuCode \<noteq> None \<or> skc \<noteq> None \<or> supplierCode \<noteq> None) (Fail ''MISSING_LINE_IDENTITY'' location)) (\<lambda>_.
     ebind (line_text row location ''supplierSku'') (\<lambda>supplierSku.
     ebind (line_text row location ''suffixZh'') (\<lambda>variantName.
     ebind (line_quantity row location ''needQuantity'') (\<lambda>need.
     ebind (line_quantity row location ''orderQuantity'') (\<lambda>ordered.
     ebind (line_quantity row location ''deliveryQuantity'') (\<lambda>delivery.
     ebind (line_quantity row location ''receiptQuantity'') (\<lambda>receipt.
     ebind (line_quantity row location ''storageQuantity'') (\<lambda>storage.
     ebind (line_quantity row location ''defectiveQuantity'') (\<lambda>defective.
     ebind (line_quantity row location ''requestDeliveryQuantity'') (\<lambda>requested.
     ebind (line_quantity row location ''noRequestDeliveryQuantity'') (\<lambda>unrequested.
     ebind (line_quantity row location ''alreadyDeliveryQuantity'') (\<lambda>already.
     Inr \<lparr>ol_skuCode = skuCode, ol_skc = skc, ol_supplierCode = supplierCode, ol_supplierSku = supplierSku,
          ol_variantName = variantName, ol_need = need, ol_order = ordered, ol_delivery = delivery,
          ol_receipt = receipt, ol_storage = storage, ol_defective = defective, ol_requestDelivery = requested,
          ol_noRequestDelivery = unrequested, ol_alreadyDelivery = already\<rparr>))))))))))))))))"

section \<open>Relations of JIT orders\<close>

record jit_relation =
  jr_mother :: string
  jr_child :: string

text \<open>\<open>a ?? b ?? c\<close> over fields of a row\<close>

definition first_field :: "jsv \<Rightarrow> string list \<Rightarrow> jsv" where
  [js_eval]: "first_field row ks = foldr (\<lambda>k v. coalesce (jget row k) v) (butlast ks) (jget row (last ks))"

definition relationRows :: "jsv \<Rightarrow> string \<Rightarrow> jit_relation list result" where
  [js_eval]: "relationRows row orderNo =
     ebind (optionalText (first_field row [''jitMotherOrderNo'', ''motherOrderNo'', ''parentOrderNo''])
       ''purchaseOrder.jitMotherOrderNo'') (\<lambda>mother.
     ebind (array_field (coalesce (first_field row [''jitChildOrderNos'', ''childOrderNos'']) (JArr []))
       ''purchaseOrder.jitChildOrderNos'') (\<lambda>children.
     ebind (emap (\<lambda>c. requiredText c ''purchaseOrder.jitChildOrderNos[]'') children) (\<lambda>childNos.
     Inr ((case mother of None \<Rightarrow> []
           | Some m \<Rightarrow> if m \<noteq> orderNo then [\<lparr>jr_mother = m, jr_child = orderNo\<rparr>] else []) @
          map (\<lambda>c. \<lparr>jr_mother = orderNo, jr_child = c\<rparr>) (filter (\<lambda>c. c \<noteq> orderNo) childNos)))))"

datatype relation_scope = AS_CHILD | AS_MOTHER

definition relationScopes :: "jsv \<Rightarrow> relation_scope list" where
  [js_eval]: "relationScopes row =
     (if list_ex (has_own row) [''jitMotherOrderNo'', ''motherOrderNo'', ''parentOrderNo''] then [AS_CHILD] else []) @
     (if list_ex (has_own row) [''jitChildOrderNos'', ''childOrderNos''] then [AS_MOTHER] else [])"

section \<open>Orders\<close>

record purchase_order =
  po_orderNo :: string
  po_orderTypeCode :: "string option"
  po_orderTypeName :: "string option"
  po_statusCode :: "string option"
  po_statusName :: "string option"
  po_prepareTypeCode :: "string option"
  po_prepareTypeName :: "string option"
  po_categoryCode :: "string option"
  po_categoryName :: "string option"
  po_currencyCode :: "string option"
  po_warehouseCode :: "string option"
  po_warehouseName :: "string option"
  po_jitRoleCode :: "string option"
  po_createdAt :: "string option"
  po_allocatedAt :: "string option"
  po_requestedDeliveryAt :: "string option"
  po_requestedReceiptAt :: "string option"
  po_deliveredAt :: "string option"
  po_receivedAt :: "string option"
  po_storedAt :: "string option"
  po_sourceUpdatedAt :: "string option"
  po_fetchedAt :: string
  po_lines :: "order_line list"
  po_linesComplete :: bool
  po_jitRelations :: "jit_relation list"
  po_jitRelationScopes :: "relation_scope list"
  po_jitRelationsComplete :: bool

definition order_text :: "jsv \<Rightarrow> string list \<Rightarrow> string \<Rightarrow> string option result" where
  [js_eval]: "order_text row ks label = optionalText (first_field row ks) (''purchaseOrder.'' @ label)"

definition order_date :: "(string \<Rightarrow> int option) \<Rightarrow> jsv \<Rightarrow> string \<Rightarrow> string option result" where
  [js_eval]: "order_date engine row k = sourceDate False engine (jget row k) (''purchaseOrder.'' @ k)"

definition mapPurchaseOrder :: "(string \<Rightarrow> int option) \<Rightarrow> instant_input \<Rightarrow> jsv \<Rightarrow> purchase_order result" where
  [js_eval]: "mapPurchaseOrder engine fetchedAt v =
     ebind (record_field v ''purchaseOrder'') (\<lambda>row.
     ebind (requiredText (jget row ''orderNo'') ''purchaseOrder.orderNo'') (\<lambda>orderNo.
     ebind (array_field (coalesce (jget row ''orderExtends'') (JArr [])) ''purchaseOrder.orderExtends'') (\<lambda>lineRows.
     ebind (relationRows row orderNo) (\<lambda>jitRelations.
     ebind (order_text row [''type''] ''type'') (\<lambda>typeCode.
     ebind (order_text row [''typeName''] ''typeName'') (\<lambda>typeName.
     ebind (order_text row [''status''] ''status'') (\<lambda>status.
     ebind (order_text row [''statusName''] ''statusName'') (\<lambda>statusName.
     ebind (order_text row [''prepareTypeId''] ''prepareTypeId'') (\<lambda>prepareType.
     ebind (order_text row [''prepareTypeName''] ''prepareTypeName'') (\<lambda>prepareTypeName.
     ebind (order_text row [''category''] ''category'') (\<lambda>category.
     ebind (order_text row [''categoryName''] ''categoryName'') (\<lambda>categoryName.
     ebind (order_text row [''currency''] ''currency'') (\<lambda>currency.
     ebind (order_text row [''storageId'', ''recommendedSubWarehouseId''] ''storageId'') (\<lambda>warehouse.
     ebind (order_text row [''warehouseName''] ''warehouseName'') (\<lambda>warehouseName.
     ebind (order_text row [''isJitMother'', ''isJitMotherName''] ''isJitMotherName'') (\<lambda>jitRole.
     ebind (order_date engine row ''addTime'') (\<lambda>createdAt.
     ebind (order_date engine row ''allocateTime'') (\<lambda>allocatedAt.
     ebind (order_date engine row ''requestDeliveryTime'') (\<lambda>requestedDeliveryAt.
     ebind (order_date engine row ''requestReceiptTime'') (\<lambda>requestedReceiptAt.
     ebind (order_date engine row ''deliveryTime'') (\<lambda>deliveredAt.
     ebind (order_date engine row ''receiptTime'') (\<lambda>receivedAt.
     ebind (order_date engine row ''storageTime'') (\<lambda>storedAt.
     ebind (order_date engine row ''updateTime'') (\<lambda>sourceUpdatedAt.
     ebind (normalizeFetchedAt fetchedAt) (\<lambda>fetched.
     ebind (emap_indexed mapLine ''purchaseOrder.orderExtends'' lineRows) (\<lambda>orderLines.
     Inr \<lparr>po_orderNo = orderNo, po_orderTypeCode = typeCode, po_orderTypeName = typeName,
          po_statusCode = status, po_statusName = statusName, po_prepareTypeCode = prepareType,
          po_prepareTypeName = prepareTypeName, po_categoryCode = category, po_categoryName = categoryName,
          po_currencyCode = currency, po_warehouseCode = warehouse, po_warehouseName = warehouseName,
          po_jitRoleCode = jitRole, po_createdAt = createdAt, po_allocatedAt = allocatedAt,
          po_requestedDeliveryAt = requestedDeliveryAt, po_requestedReceiptAt = requestedReceiptAt,
          po_deliveredAt = deliveredAt, po_receivedAt = receivedAt, po_storedAt = storedAt,
          po_sourceUpdatedAt = sourceUpdatedAt, po_fetchedAt = fetched, po_lines = orderLines,
          po_linesComplete = True, po_jitRelations = jitRelations, po_jitRelationScopes = relationScopes row,
          po_jitRelationsComplete = (relationScopes row \<noteq> [])\<rparr>))))))))))))))))))))))))))"

section \<open>Responses\<close>

record order_page =
  op_count :: int
  op_page :: jsnum
  op_pageSize :: jsnum
  op_orders :: "purchase_order list"
  op_traceId :: "string option"

definition mapPurchaseOrderResponse :: "(string \<Rightarrow> int option) \<Rightarrow> instant_input \<Rightarrow> jsv \<Rightarrow> order_page result" where
  [js_eval]: "mapPurchaseOrderResponse engine fetchedAt response =
     ebind (record_field response ''response'') (\<lambda>body.
     ebind (platform_ok optionalText body) (\<lambda>_.
     ebind (record_field (jget body ''info'') ''response.info'') (\<lambda>info.
     ebind (array_field (jget info ''list'') ''response.info.list'') (\<lambda>rows.
     ebind (response_count info) (\<lambda>count.
     ebind (js_number (coalesce (jget info ''pageNo'') (JNum (NInt 1)))) (\<lambda>page.
     ebind (js_number (coalesce (jget info ''pageSize'') (JNum (NInt (int (length rows)))))) (\<lambda>pageSize.
     ebind (emap (mapPurchaseOrder engine fetchedAt) rows) (\<lambda>orders.
     ebind (trace_of optionalText body) (\<lambda>traceId.
     Inr \<lparr>op_count = count, op_page = page, op_pageSize = pageSize, op_orders = orders, op_traceId = traceId\<rparr>)))))))))"

end
