(* ===== verification/Delivery.thy ===== *)
theory Delivery
  imports Openapi_Fields
begin

text \<open>
  \<open>src/domain/delivery.mjs\<close>: the mapper from the platform's delivery notes. Addresses, persons and
  telephone numbers of a consolidation are never read.
\<close>

definition optionalNonNegativeNumber :: "jsv \<Rightarrow> string \<Rightarrow> jsnum option result" where
  [js_eval]: "optionalNonNegativeNumber v location =
     (if absent v then Inr None
      else ebind (js_number v) (\<lambda>n.
        if \<not> num_finite n \<or> num_negative n then Inl (Fail ''INVALID_NUMBER'' location) else Inr (Some n)))"

record delivery_line =
  dl_orderNo :: "string option"
  dl_skc :: string
  dl_skuCode :: "string option"
  dl_quantity :: "int option"

definition mapDeliveryLine :: "jsv \<Rightarrow> string \<Rightarrow> delivery_line result" where
  [js_eval]: "mapDeliveryLine v location =
     ebind (record_field v location) (\<lambda>row.
     ebind (optionalText (jget row ''orderNo'') (location @ ''.orderNo'')) (\<lambda>orderNo.
     ebind (requiredText (jget row ''skc'') (location @ ''.skc'')) (\<lambda>skc.
     ebind (optionalText (jget row ''skuCode'') (location @ ''.skuCode'')) (\<lambda>skuCode.
     ebind (optional_quantity (jget row ''deliveryQuantity'') (location @ ''.deliveryQuantity'')) (\<lambda>qty.
     Inr \<lparr>dl_orderNo = orderNo, dl_skc = skc, dl_skuCode = skuCode, dl_quantity = qty\<rparr>)))))"

record consolidation =
  cs_carrierName :: "string option"
  cs_deliveryTypeCode :: "string option"
  cs_expressCode :: "string option"
  cs_expressId :: "string option"
  cs_thirdPartyChannelCode :: "string option"
  cs_thirdPartyOrderMethodCode :: "string option"
  cs_warehouseCode :: "string option"
  cs_warehouseName :: "string option"

definition consolidation_text :: "jsv \<Rightarrow> string \<Rightarrow> string option result" where
  [js_eval]: "consolidation_text row k = optionalText (jget row k) (''delivery.consolidationInfo.'' @ k)"

definition safeConsolidation :: "jsv \<Rightarrow> consolidation option result" where
  [js_eval]: "safeConsolidation v =
     (if nullish v then Inr None else
      ebind (record_field v ''delivery.consolidationInfo'') (\<lambda>row.
      ebind (consolidation_text row ''carrierName'') (\<lambda>carrier.
      ebind (consolidation_text row ''deliveryType'') (\<lambda>deliveryType.
      ebind (consolidation_text row ''expressCode'') (\<lambda>expressCode.
      ebind (consolidation_text row ''expressId'') (\<lambda>expressId.
      ebind (consolidation_text row ''thirdPartyChannel'') (\<lambda>channel.
      ebind (consolidation_text row ''thirdPartyOrderMethod'') (\<lambda>ordering.
      ebind (consolidation_text row ''warehouseId'') (\<lambda>warehouse.
      ebind (consolidation_text row ''warehouseName'') (\<lambda>warehouseName.
      Inr (Some \<lparr>cs_carrierName = carrier, cs_deliveryTypeCode = deliveryType, cs_expressCode = expressCode,
        cs_expressId = expressId, cs_thirdPartyChannelCode = channel, cs_thirdPartyOrderMethodCode = ordering,
        cs_warehouseCode = warehouse, cs_warehouseName = warehouseName\<rparr>)))))))))))"

record delivery =
  dv_deliveryCode :: string
  dv_deliveryTypeCode :: "string option"
  dv_deliveryTypeName :: "string option"
  dv_labelPrintFlagCode :: "string option"
  dv_expressCode :: "string option"
  dv_expressCompanyCode :: "string option"
  dv_expressCompanyName :: "string option"
  dv_packageCount :: "int option"
  dv_packageWeight :: "jsnum option"
  dv_warehouseCode :: "string option"
  dv_warehouseName :: "string option"
  dv_createdAt :: "string option"
  dv_reservedParcelAt :: "string option"
  dv_takenAt :: "string option"
  dv_expectedReceiptAt :: "string option"
  dv_receivedAt :: "string option"
  dv_fetchedAt :: string
  dv_consolidation :: "consolidation option"
  dv_lines :: "delivery_line list"
  dv_linesComplete :: bool

definition delivery_text :: "jsv \<Rightarrow> string \<Rightarrow> string option result" where
  [js_eval]: "delivery_text row k = optionalText (jget row k) (''delivery.'' @ k)"

definition delivery_date :: "(string \<Rightarrow> int option) \<Rightarrow> jsv \<Rightarrow> string \<Rightarrow> string option result" where
  [js_eval]: "delivery_date engine row k = sourceDate True engine (jget row k) (''delivery.'' @ k)"

text \<open>A package count is optional when it is null, and required when it is an empty text.\<close>

definition package_count :: "jsv \<Rightarrow> int option result" where
  [js_eval]: "package_count v =
     (if nullish v then Inr None else ebind (quantity v ''delivery.sendPackage'') (\<lambda>n. Inr (Some n)))"

definition mapDelivery :: "(string \<Rightarrow> int option) \<Rightarrow> instant_input \<Rightarrow> jsv \<Rightarrow> delivery result" where
  [js_eval]: "mapDelivery engine fetchedAt v =
     ebind (record_field v ''delivery'') (\<lambda>row.
     ebind (array_field (coalesce (jget row ''deliveryOrderDataList'') (JArr [])) ''delivery.deliveryOrderDataList'') (\<lambda>lineRows.
     ebind (requiredText (jget row ''deliveryCode'') ''delivery.deliveryCode'') (\<lambda>deliveryCode.
     ebind (delivery_text row ''deliveryType'') (\<lambda>deliveryType.
     ebind (delivery_text row ''deliveryTypeName'') (\<lambda>deliveryTypeName.
     ebind (delivery_text row ''logisticsLabelPrintFlag'') (\<lambda>printFlag.
     ebind (delivery_text row ''expressCode'') (\<lambda>expressCode.
     ebind (delivery_text row ''expressId'') (\<lambda>expressId.
     ebind (delivery_text row ''expressCompanyName'') (\<lambda>expressCompany.
     ebind (package_count (jget row ''sendPackage'')) (\<lambda>packages.
     ebind (optionalNonNegativeNumber (jget row ''packageWeight'') ''delivery.packageWeight'') (\<lambda>weight.
     ebind (delivery_text row ''supplierWarehouseId'') (\<lambda>warehouse.
     ebind (delivery_text row ''supplierWarehouseName'') (\<lambda>warehouseName.
     ebind (delivery_date engine row ''addTime'') (\<lambda>createdAt.
     ebind (delivery_date engine row ''reserveParcelTime'') (\<lambda>reservedAt.
     ebind (delivery_date engine row ''takeParcelTime'') (\<lambda>takenAt.
     ebind (delivery_date engine row ''preReceiptTime'') (\<lambda>expectedAt.
     ebind (delivery_date engine row ''receiptTime'') (\<lambda>receivedAt.
     ebind (normalizeFetchedAt fetchedAt) (\<lambda>fetched.
     ebind (safeConsolidation (jget row ''consolidationInfo'')) (\<lambda>consol.
     ebind (emap_indexed mapDeliveryLine ''delivery.deliveryOrderDataList'' lineRows) (\<lambda>deliveryLines.
     Inr \<lparr>dv_deliveryCode = deliveryCode, dv_deliveryTypeCode = deliveryType, dv_deliveryTypeName = deliveryTypeName,
          dv_labelPrintFlagCode = printFlag, dv_expressCode = expressCode, dv_expressCompanyCode = expressId,
          dv_expressCompanyName = expressCompany, dv_packageCount = packages, dv_packageWeight = weight,
          dv_warehouseCode = warehouse, dv_warehouseName = warehouseName, dv_createdAt = createdAt,
          dv_reservedParcelAt = reservedAt, dv_takenAt = takenAt, dv_expectedReceiptAt = expectedAt,
          dv_receivedAt = receivedAt, dv_fetchedAt = fetched, dv_consolidation = consol,
          dv_lines = deliveryLines, dv_linesComplete = True\<rparr>)))))))))))))))))))))"

record delivery_page =
  dp_count :: int
  dp_deliveries :: "delivery list"
  dp_traceId :: "string option"

definition mapDeliveryResponse :: "(string \<Rightarrow> int option) \<Rightarrow> instant_input \<Rightarrow> jsv \<Rightarrow> delivery_page result" where
  [js_eval]: "mapDeliveryResponse engine fetchedAt response =
     ebind (record_field response ''response'') (\<lambda>body.
     ebind (platform_ok optionalText body) (\<lambda>_.
     ebind (record_field (jget body ''info'') ''response.info'') (\<lambda>info.
     ebind (array_field (jget info ''list'') ''response.info.list'') (\<lambda>rows.
     ebind (response_count info) (\<lambda>count.
     ebind (emap (mapDelivery engine fetchedAt) rows) (\<lambda>ds.
     ebind (trace_of optionalText body) (\<lambda>traceId.
     Inr \<lparr>dp_count = count, dp_deliveries = ds, dp_traceId = traceId\<rparr>)))))))"

end
