(* ===== verification/Domain_Properties.thy ===== *)
theory Domain_Properties
  imports Purchase_Order Delivery
begin

text \<open>
  Platform times are read as Shanghai time, and the mappers of purchase orders and delivery notes
  never read personal data.
\<close>

section \<open>Platform times\<close>

lemma month_start_nonneg: "0 \<le> month_start l m"
  by (simp add: month_start_def)

lemma clock_split:
  fixes h mi s :: int
  assumes "0 \<le> h" "h < 24" "0 \<le> mi" "mi < 60" "0 \<le> s" "s < 60"
  defines "r \<equiv> h * 3600000 + mi * 60000 + s * 1000"
  shows "0 \<le> r" "r < ms_per_day" "r div 3600000 = h" "r div 60000 mod 60 = mi" "r div 1000 mod 60 = s"
proof -
  show "0 \<le> r" "r < ms_per_day" using assms by (auto simp: ms_per_day_def)
  show "r div 3600000 = h" "r div 60000 mod 60 = mi" "r div 1000 mod 60 = s"
  proof -
    show "r div 3600000 = h"
      by (rule int_div_pos_eq [of _ _ _ "mi * 60000 + s * 1000"]) (use assms in \<open>auto simp: r_def\<close>)
    have "r div 60000 = h * 60 + mi"
      by (rule int_div_pos_eq [of _ _ _ "s * 1000"]) (use assms in \<open>auto simp: r_def\<close>)
    then show "r div 60000 mod 60 = mi" using assms by simp
    have "r div 1000 = (h * 60 + mi) * 60 + s" by (simp add: r_def)
    also have "\<dots> mod 60 = s" unfolding mod_mult_self3 using assms(5,6) by simp
    finally show "r div 1000 mod 60 = s" .
  qed
qed

lemma date_utc_year:
  assumes "civil_of_day (date_utc c div ms_per_day) = (ct_year c, ct_month c, ct_day c)"
    and "0 \<le> ct_hour c" "0 \<le> ct_minute c" "0 \<le> ct_second c" "0 \<le> ct_year c"
  shows "100 \<le> ct_year c"
proof (rule ccontr)
  assume "\<not> 100 \<le> ct_year c"
  then have y: "0 \<le> ct_year c" "ct_year c \<le> 99" using assms(5) by simp_all
  let ?Y = "1900 + ct_year c"
  let ?n = "date_utc c div ms_per_day"
  have valid: "valid_civil (ct_year c) (ct_month c) (ct_day c)"
    and n: "make_day (ct_year c) (ct_month c) (ct_day c) = ?n"
    using make_day_civil [OF assms(1)] by blast+
  have m: "1 \<le> ct_month c" "ct_month c \<le> 12" "1 \<le> ct_day c" using valid by (simp_all add: valid_civil_def)
  have "make_day ?Y (ct_month c) (ct_day c) * ms_per_day \<le> date_utc c"
    using y assms(2-4) by (simp add: date_utc_def)
  then have "make_day ?Y (ct_month c) (ct_day c) \<le> ?n"
    using zdiv_mono1 [of _ _ ms_per_day] by (fastforce simp: ms_per_day_def)
  moreover have "day_from_year ?Y \<le> make_day ?Y (ct_month c) (ct_day c)"
    using m month_start_nonneg [of "is_leap ?Y" "ct_month c"] by (simp add: make_day_valid)
  moreover have "?n < day_from_year (ct_year c + 1)" using make_day_bounds(3) [OF valid] n by simp
  moreover have "day_from_year (ct_year c + 1) \<le> day_from_year ?Y"
    using day_from_year_mono [of "ct_year c + 1" ?Y] by simp
  ultimately show False by simp
qed

lemma calendar_exact_iff:
  assumes "0 \<le> ct_year c" "0 \<le> ct_hour c" "0 \<le> ct_minute c" "0 \<le> ct_second c"
  shows "calendar_exact c \<longleftrightarrow> 100 \<le> ct_year c \<and> valid_civil (ct_year c) (ct_month c) (ct_day c) \<and>
    ct_hour c < 24 \<and> ct_minute c < 60 \<and> ct_second c < 60"
proof
  assume c: "calendar_exact c"
  obtain y m d where ymd: "civil_of_day (date_utc c div ms_per_day) = (y, m, d)"
    by (cases "civil_of_day (date_utc c div ms_per_day)")
  let ?r = "date_utc c mod ms_per_day"
  have r: "0 \<le> ?r" "?r < 86400000" by (simp_all add: ms_per_day_def)
  have eq: "c = \<lparr>ct_year = y, ct_month = m, ct_day = d, ct_hour = ?r div 3600000, ct_minute = ?r div 60000 mod 60,
      ct_second = ?r div 1000 mod 60\<rparr>"
    using c ymd by (simp add: calendar_exact_def utc_fields_def Let_def)
  have f: "ct_year c = y" "ct_month c = m" "ct_day c = d" "ct_hour c = ?r div 3600000"
    "ct_minute c = ?r div 60000 mod 60" "ct_second c = ?r div 1000 mod 60"
    by (rule arg_cong [OF eq, of ct_year, unfolded civil_time.select_convs],
        rule arg_cong [OF eq, of ct_month, unfolded civil_time.select_convs],
        rule arg_cong [OF eq, of ct_day, unfolded civil_time.select_convs],
        rule arg_cong [OF eq, of ct_hour, unfolded civil_time.select_convs],
        rule arg_cong [OF eq, of ct_minute, unfolded civil_time.select_convs],
        rule arg_cong [OF eq, of ct_second, unfolded civil_time.select_convs])
  have ymd': "civil_of_day (date_utc c div ms_per_day) = (ct_year c, ct_month c, ct_day c)"
    unfolding ymd f(1-3) ..
  have "100 \<le> ct_year c" by (rule date_utc_year [OF ymd' assms(2-4,1)])
  moreover have "valid_civil (ct_year c) (ct_month c) (ct_day c)" by (rule make_day_civil [OF ymd'])
  moreover have "?r div 3600000 < 24" using r by linarith
  then have "ct_hour c < 24" unfolding f(4) .
  moreover have "ct_minute c < 60" "ct_second c < 60" unfolding f(5,6) by (rule pos_mod_bound, simp)+
  ultimately show "100 \<le> ct_year c \<and> valid_civil (ct_year c) (ct_month c) (ct_day c) \<and>
      ct_hour c < 24 \<and> ct_minute c < 60 \<and> ct_second c < 60" by blast
next
  assume v: "100 \<le> ct_year c \<and> valid_civil (ct_year c) (ct_month c) (ct_day c) \<and>
    ct_hour c < 24 \<and> ct_minute c < 60 \<and> ct_second c < 60"
  let ?r = "ct_hour c * 3600000 + ct_minute c * 60000 + ct_second c * 1000"
  let ?D = "make_day (ct_year c) (ct_month c) (ct_day c)"
  note r = clock_split [of "ct_hour c" "ct_minute c" "ct_second c"]
  have t: "date_utc c = ?D * ms_per_day + ?r" using v by (simp add: date_utc_def)
  have "0 \<le> ?r" "?r < ms_per_day" using r(1,2) v assms by blast+
  then have "date_utc c div ms_per_day = ?D" "date_utc c mod ms_per_day = ?r"
    unfolding t by (simp_all add: ms_per_day_def)
  moreover have "civil_of_day ?D = (ct_year c, ct_month c, ct_day c)" using v by (intro civil_of_make_day) simp
  ultimately have "utc_fields (date_utc c) = \<lparr>ct_year = ct_year c, ct_month = ct_month c, ct_day = ct_day c,
      ct_hour = ct_hour c, ct_minute = ct_minute c, ct_second = ct_second c\<rparr>"
    using r(3-5) v assms by (simp add: utc_fields_def Let_def)
  then show "calendar_exact c" by (simp add: calendar_exact_def)
qed

text \<open>The text of a local date-time.\<close>

definition show_local :: "civil_time \<Rightarrow> string" where
  [js_eval]: "show_local c = show_civil (ct_year c) (ct_month c) (ct_day c) @ '' '' @ show_pad 2 (nat (ct_hour c)) @ '':'' @
     show_pad 2 (nat (ct_minute c)) @ '':'' @ show_pad 2 (nat (ct_second c))"

definition two_digits :: "int \<Rightarrow> bool" where
  "two_digits n \<longleftrightarrow> 0 \<le> n \<and> n \<le> 99"

definition fields_in_range :: "civil_time \<Rightarrow> bool" where
  "fields_in_range c \<longleftrightarrow> 0 \<le> ct_year c \<and> ct_year c \<le> 9999 \<and> two_digits (ct_month c) \<and> two_digits (ct_day c) \<and>
     two_digits (ct_hour c) \<and> two_digits (ct_minute c) \<and> two_digits (ct_second c)"

lemma length_two_digits: "two_digits n \<Longrightarrow> length (show_pad 2 (nat n)) = 2"
  unfolding two_digits_def by (intro length_show_pad) (simp_all add: nat_less_iff)

lemma length_year: "0 \<le> y \<Longrightarrow> y \<le> 9999 \<Longrightarrow> length (show_pad 4 (nat y)) = 4"
  by (intro length_show_pad) simp_all

lemma matches_seq_append:
  "length ps = length s \<Longrightarrow> matches_seq (ps @ qs) (s @ t) \<longleftrightarrow> matches_seq ps s \<and> matches_seq qs t"
  by (simp add: matches_seq_def list_all2_append)

lemma matches_digits: "matches_seq (replicate n is_digit) s \<longleftrightarrow> length s = n \<and> list_all is_digit s"
proof (induction n arbitrary: s)
  case (Suc n)
  then show ?case by (cases s) auto
qed auto

lemma shapes:
  "date_shape = replicate 4 is_digit @ [is_dash] @ replicate 2 is_digit @ [is_dash] @ replicate 2 is_digit"
  "clock_shape = replicate 2 is_digit @ [is_char CHR '':''] @ replicate 2 is_digit"
  "second_shape = [is_char CHR '':''] @ replicate 2 is_digit"
  by (simp_all add: date_shape_def clock_shape_def second_shape_def numeral_eq_Suc)

lemma show_local_fields:
  assumes "fields_in_range c"
  shows "civil_fields (show_local c) = c" "local_pattern opt (show_local c)"
    "take 10 (show_local c) = show_civil (ct_year c) (ct_month c) (ct_day c)" "drop 10 (show_local c) \<noteq> []"
    "hd (drop 10 (show_local c)) = CHR '' ''"
proof -
  have r: "0 \<le> ct_year c" "0 \<le> ct_month c" "0 \<le> ct_day c" "0 \<le> ct_hour c" "0 \<le> ct_minute c" "0 \<le> ct_second c"
    using assms by (simp_all add: fields_in_range_def two_digits_def)
  have y: "length (show_pad 4 (nat (ct_year c))) = 4"
    using assms by (intro length_year) (simp_all add: fields_in_range_def)
  have two: "length (show_pad 2 (nat (ct_month c))) = 2" "length (show_pad 2 (nat (ct_day c))) = 2"
    "length (show_pad 2 (nat (ct_hour c))) = 2" "length (show_pad 2 (nat (ct_minute c))) = 2"
    "length (show_pad 2 (nat (ct_second c))) = 2"
    using assms by (simp_all add: fields_in_range_def length_two_digits)
  note S = show_local_def show_civil_def
  show "civil_fields (show_local c) = c"
    by (simp add: S civil_fields_def Let_def y two r)
  show "local_pattern opt (show_local c)"
    unfolding local_pattern_def S shapes append_assoc
    by (simp add: matches_seq_append matches_digits y two show_pad_digits is_dash_def is_char_def)
  show "take 10 (show_local c) = show_civil (ct_year c) (ct_month c) (ct_day c)" "drop 10 (show_local c) \<noteq> []"
    "hd (drop 10 (show_local c)) = CHR '' ''"
    by (simp_all add: S y two)
qed

lemma show_civil_epoch:
  assumes "fields_in_range c"
  shows "show_civil (ct_year c) (ct_month c) (ct_day c) = ''1970-01-01'' \<longleftrightarrow>
    ct_year c = 1970 \<and> ct_month c = 1 \<and> ct_day c = 1"
proof
  assume e: "show_civil (ct_year c) (ct_month c) (ct_day c) = ''1970-01-01''"
  let ?d = "\<lparr>ct_year = 1970, ct_month = 1, ct_day = 1, ct_hour = ct_hour c, ct_minute = ct_minute c, ct_second = ct_second c\<rparr>"
  have s: "show_civil 1970 1 1 = ''1970-01-01''" by code_simp
  have "show_local c = show_local ?d" by (simp add: show_local_def e s)
  moreover have "fields_in_range ?d" using assms by (simp add: fields_in_range_def two_digits_def)
  ultimately have "civil_fields (show_local c) = ?d" using show_local_fields(1) [of ?d] by (simp only:)
  then have eq: "c = ?d" unfolding show_local_fields(1) [OF assms] .
  have "ct_year c = 1970" "ct_month c = 1" "ct_day c = 1"
    by (rule arg_cong [OF eq, of ct_year, unfolded civil_time.select_convs],
        rule arg_cong [OF eq, of ct_month, unfolded civil_time.select_convs],
        rule arg_cong [OF eq, of ct_day, unfolded civil_time.select_convs])
  then show "ct_year c = 1970 \<and> ct_month c = 1 \<and> ct_day c = 1" by simp
next
  have s: "show_civil 1970 1 1 = ''1970-01-01''" by code_simp
  assume "ct_year c = 1970 \<and> ct_month c = 1 \<and> ct_day c = 1"
  then show "show_civil (ct_year c) (ct_month c) (ct_day c) = ''1970-01-01''" by (simp add: s)
qed

lemma local_not_absent: "fields_in_range c \<Longrightarrow> \<not> absent (JStr (show_local c))"
  using show_local_fields(4) [of c] by (auto simp: absent_def)

text \<open>
  A platform date-time is Shanghai time: a text \<open>YYYY-MM-DD hh:mm:ss\<close> is accepted exactly when it
  denotes a calendar date from the year 100 on and a time of day, and then stands for the instant
  eight hours earlier in universal time; the day of the epoch marks an event that has not happened,
  and everything else is refused.
\<close>

theorem platform_time_is_shanghai_time:
  assumes "fields_in_range c"
  shows "sourceDate opt engine (JStr (show_local c)) location =
    (if ct_year c = 1970 \<and> ct_month c = 1 \<and> ct_day c = 1 then Inr None
     else if 100 \<le> ct_year c \<and> valid_civil (ct_year c) (ct_month c) (ct_day c) \<and>
       ct_hour c < 24 \<and> ct_minute c < 60 \<and> ct_second c < 60
     then Inr (Some (to_iso_string (make_day (ct_year c) (ct_month c) (ct_day c) * ms_per_day +
       ct_hour c * 3600000 + ct_minute c * 60000 + ct_second c * 1000 - 28800000)))
     else Inl (Fail ''INVALID_DATE'' location))"
proof -
  note f = show_local_fields [OF assms]
  have pos: "0 \<le> ct_year c" "0 \<le> ct_hour c" "0 \<le> ct_minute c" "0 \<le> ct_second c"
    using assms by (simp_all add: fields_in_range_def two_digits_def)
  have epoch: "epoch_sentinel (show_local c) \<longleftrightarrow> ct_year c = 1970 \<and> ct_month c = 1 \<and> ct_day c = 1"
    using f(3-5) show_civil_epoch [OF assms]
    by (cases "drop 10 (show_local c)") (simp_all add: epoch_sentinel_def is_space_def)
  show ?thesis
    using f(1,2) calendar_exact_iff [OF pos]
    by (simp add: sourceDate_def local_not_absent [OF assms] epoch date_utc_def)
qed

theorem platform_time_is_shanghai_time_witness:
  "sourceDate False (\<lambda>_. None) (JStr ''2026-03-01 07:30:00'') ''purchaseOrder.addTime'' =
    Inr (Some ''2026-02-28T23:30:00.000Z'')"
proof -
  let ?c = "\<lparr>ct_year = 2026, ct_month = 3, ct_day = 1, ct_hour = 7, ct_minute = 30, ct_second = 0\<rparr>"
  have "show_local ?c = ''2026-03-01 07:30:00''" by code_simp
  moreover have "to_iso_string (make_day 2026 3 1 * ms_per_day + 7 * 3600000 + 30 * 60000 + 0 * 1000 - 28800000) =
      ''2026-02-28T23:30:00.000Z''" by code_simp
  moreover have "valid_civil 2026 3 1" by code_simp
  ultimately show ?thesis
    using platform_time_is_shanghai_time [of ?c False "\<lambda>_. None" "''purchaseOrder.addTime''"]
    by (simp add: fields_in_range_def two_digits_def)
qed

section \<open>Personal data\<close>

definition restrict_fields :: "string list \<Rightarrow> jsv \<Rightarrow> jsv" where
  [js_eval]: "restrict_fields ks v = (case v of JObj ps \<Rightarrow> JObj (filter (\<lambda>(k, _). k \<in> set ks) ps) | _ \<Rightarrow> v)"

lemma map_of_restrict: "map_of (filter (\<lambda>(k, _). k \<in> set ks) ps) k = (if k \<in> set ks then map_of ps k else None)"
  by (induction ps) auto

lemma jget_restrict: "k \<in> set ks \<Longrightarrow> jget (restrict_fields ks v) k = jget v k"
  by (cases v) (simp_all add: restrict_fields_def map_of_restrict)

lemma has_own_restrict: "k \<in> set ks \<Longrightarrow> has_own (restrict_fields ks v) k = has_own v k"
  by (cases v) (simp_all add: restrict_fields_def map_of_restrict)

lemma record_restrict: "record_field (restrict_fields ks v) location =
    ebind (record_field v location) (\<lambda>r. Inr (restrict_fields ks r))"
  by (cases v) (simp_all add: restrict_fields_def record_field_def)

text \<open>The fields of an order, of its lines, of a delivery note and of its consolidation that are read.\<close>

definition order_fields :: "string list" where
  "order_fields = [''orderNo'', ''orderExtends'', ''jitMotherOrderNo'', ''motherOrderNo'', ''parentOrderNo'',
     ''jitChildOrderNos'', ''childOrderNos'', ''type'', ''typeName'', ''status'', ''statusName'', ''prepareTypeId'',
     ''prepareTypeName'', ''category'', ''categoryName'', ''currency'', ''storageId'', ''recommendedSubWarehouseId'',
     ''warehouseName'', ''isJitMother'', ''isJitMotherName'', ''addTime'', ''allocateTime'', ''requestDeliveryTime'',
     ''requestReceiptTime'', ''deliveryTime'', ''receiptTime'', ''storageTime'', ''updateTime'']"

definition delivery_fields :: "string list" where
  "delivery_fields = [''deliveryOrderDataList'', ''deliveryCode'', ''deliveryType'', ''deliveryTypeName'',
     ''logisticsLabelPrintFlag'', ''expressCode'', ''expressId'', ''expressCompanyName'', ''sendPackage'', ''packageWeight'',
     ''supplierWarehouseId'', ''supplierWarehouseName'', ''addTime'', ''reserveParcelTime'', ''takeParcelTime'',
     ''preReceiptTime'', ''receiptTime'', ''consolidationInfo'']"

definition consolidation_fields :: "string list" where
  "consolidation_fields = [''carrierName'', ''deliveryType'', ''expressCode'', ''expressId'', ''thirdPartyChannel'',
     ''thirdPartyOrderMethod'', ''warehouseId'', ''warehouseName'']"

lemma nullish_restrict: "nullish (restrict_fields ks v) = nullish v"
  by (cases v) (simp_all add: restrict_fields_def nullish_def)

lemma ebind_ebind_Inr: "ebind (ebind m (\<lambda>r. Inr (f r))) g = ebind m (\<lambda>r. g (f r))"
  by (cases m) simp_all

text \<open>
  Personal data never reaches the warehouse: the mapped purchase order, delivery note and
  consolidation are functions of the listed business fields alone, so that removing every other field
  (operators, contacts, addresses, telephone numbers) from the platform's object changes neither the
  result nor the error.
\<close>

theorem mappers_read_business_fields_only:
  "mapPurchaseOrder engine t (restrict_fields order_fields v) = mapPurchaseOrder engine t v \<and>
   mapDelivery engine t (restrict_fields delivery_fields v) = mapDelivery engine t v \<and>
   safeConsolidation (restrict_fields consolidation_fields v) = safeConsolidation v"
proof (intro conjI)
  have "relationRows (restrict_fields order_fields r) n = relationRows r n"
    "relationScopes (restrict_fields order_fields r) = relationScopes r" for r n
    by (simp_all add: relationRows_def relationScopes_def first_field_def jget_restrict has_own_restrict order_fields_def)
  then show "mapPurchaseOrder engine t (restrict_fields order_fields v) = mapPurchaseOrder engine t v"
    unfolding mapPurchaseOrder_def record_restrict ebind_ebind_Inr
    by (simp add: order_text_def order_date_def first_field_def jget_restrict order_fields_def)
  show "mapDelivery engine t (restrict_fields delivery_fields v) = mapDelivery engine t v"
    unfolding mapDelivery_def record_restrict ebind_ebind_Inr
    by (simp add: delivery_text_def delivery_date_def jget_restrict delivery_fields_def)
  show "safeConsolidation (restrict_fields consolidation_fields v) = safeConsolidation v"
    unfolding safeConsolidation_def record_restrict ebind_ebind_Inr nullish_restrict
    by (simp add: consolidation_text_def jget_restrict consolidation_fields_def)
qed

end
