(* ===== verification/Inventory.thy ===== *)
theory Inventory
  imports Openapi_Fields
begin

text \<open>
  \<open>src/domain/inventory.mjs\<close>: the mapper of stock queries. Aggregate totals are reconciled with the
  warehouse details, and the identifiers of the request with those of the response; what is missing
  stays unknown and never becomes zero.
\<close>

section \<open>Readers\<close>

text \<open>Unlike the other mappers this one takes no booleans as text.\<close>

definition stockText :: "jsv \<Rightarrow> string \<Rightarrow> string option result" where
  [js_eval]: "stockText v location =
     (case v of JBool b \<Rightarrow> Inl (Fail ''INVALID_FIELD'' location) | _ \<Rightarrow> optionalText v location)"

definition requiredStockText :: "jsv \<Rightarrow> string \<Rightarrow> string result" where
  [js_eval]: "requiredStockText v location =
     ebind (stockText v location) (\<lambda>t. case t of
       None \<Rightarrow> Inl (Fail ''MISSING_FIELD'' location) | Some s \<Rightarrow> Inr s)"

definition required_total :: "jsv \<Rightarrow> string \<Rightarrow> string \<Rightarrow> int option result" where
  [js_eval]: "required_total row location k = ebind (quantity (jget row k) (location @ ''.'' @ k)) (\<lambda>n. Inr (Some n))"

definition optional_total :: "jsv \<Rightarrow> string \<Rightarrow> string \<Rightarrow> int option result" where
  [js_eval]: "optional_total row location k = optional_quantity (jget row k) (location @ ''.'' @ k)"

section \<open>Items\<close>

text \<open>
  The six metrics in the order of \<open>METRICS\<close>: inventory, locked, temporarily locked, usable, out of
  stock, in transit. Details and totals are lists in this order.
\<close>

definition detail_fields :: "string list" where
  [js_eval]: "detail_fields = [''inventoryQuantity'', ''lockedQuantity'', ''tempLockQuantity'', ''usableInventory'',
     ''outOfStockQty'', ''transitQuantity'']"

definition total_fields :: "string list" where
  [js_eval]: "total_fields = [''totalInventoryQuantity'', ''totalLockedQuantity'', ''totalTempLockQuantity'',
     ''totalUsableInventory'', ''totalOutOfStockQty'', ''totalTransitQuantity'']"

text \<open>The first four metrics are required, the last two optional.\<close>

definition metric_values :: "string list \<Rightarrow> jsv \<Rightarrow> string \<Rightarrow> int option list result" where
  [js_eval]: "metric_values ks row location =
     ebind (emap (required_total row location) (take 4 ks)) (\<lambda>required.
     ebind (emap (optional_total row location) (drop 4 ks)) (\<lambda>optionals. Inr (required @ optionals)))"

record warehouse_stock =
  ws_code :: string
  ws_typeCode :: string
  ws_metrics :: "int option list"

definition mapWarehouse :: "jsv \<Rightarrow> string \<Rightarrow> warehouse_stock result" where
  [js_eval]: "mapWarehouse v location =
     ebind (record_field v location) (\<lambda>row.
     ebind (requiredStockText (jget row ''warehouseCode'') (location @ ''.warehouseCode'')) (\<lambda>wcode.
     ebind (requiredStockText (jget row ''warehouseType'') (location @ ''.warehouseType'')) (\<lambda>wtype.
     ebind (metric_values detail_fields row location) (\<lambda>ms.
     Inr \<lparr>ws_code = wcode, ws_typeCode = wtype, ws_metrics = ms\<rparr>))))"

datatype check_status = NOT_EXPOSED | PARTIAL_DETAIL | MATCH | MISMATCH

record total_check =
  tc_metric :: string
  tc_status :: check_status
  tc_aggregate :: "int option"
  tc_warehouseSum :: "int option"

datatype reconciliation_status = TOTAL_ONLY | TOTALS_MISMATCH | TOTALS_PARTIAL_DETAIL | RECONCILED

record reconciliation =
  rcn_status :: reconciliation_status
  rcn_checks :: "total_check list"

text \<open>
  One metric. The sum of the details is exact: it is compared with a safe total, and a sum of safe
  numbers that passes the safe range stays above it under rounding.
\<close>

definition check_total :: "warehouse_stock list \<Rightarrow> nat \<Rightarrow> string \<Rightarrow> int option \<Rightarrow> total_check" where
  [js_eval]: "check_total warehouses i metric aggregate =
     (let details = map (\<lambda>w. ws_metrics w ! i) warehouses
      in case aggregate of
        None \<Rightarrow> \<lparr>tc_metric = metric, tc_status = NOT_EXPOSED, tc_aggregate = None, tc_warehouseSum = None\<rparr>
      | Some t \<Rightarrow>
        if None \<in> set details
        then \<lparr>tc_metric = metric, tc_status = PARTIAL_DETAIL, tc_aggregate = Some t, tc_warehouseSum = None\<rparr>
        else let s = sum_list (map the details)
             in \<lparr>tc_metric = metric, tc_status = (if s = t then MATCH else MISMATCH), tc_aggregate = Some t,
                 tc_warehouseSum = Some s\<rparr>)"

definition reconcileTotals :: "int option list \<Rightarrow> warehouse_stock list \<Rightarrow> reconciliation" where
  [js_eval]: "reconcileTotals totals warehouses =
     (if warehouses = [] then \<lparr>rcn_status = TOTAL_ONLY, rcn_checks = []\<rparr>
      else let checks = map (\<lambda>(i, metric). check_total warehouses i metric (totals ! i)) (enumerate 0 total_fields)
           in \<lparr>rcn_status =
                (if list_ex (\<lambda>c. tc_status c = MISMATCH) checks then TOTALS_MISMATCH
                 else if list_ex (\<lambda>c. tc_status c = PARTIAL_DETAIL) checks then TOTALS_PARTIAL_DETAIL
                 else RECONCILED),
               rcn_checks = checks\<rparr>)"

record stock_item =
  si_spuName :: "string option"
  si_skcName :: "string option"
  si_skuCode :: string
  si_totals :: "int option list"
  si_warehouses :: "warehouse_stock list"
  si_reconciliation :: reconciliation

definition mapSku :: "jsv \<Rightarrow> string option \<Rightarrow> string option \<Rightarrow> string \<Rightarrow> stock_item result" where
  [js_eval]: "mapSku v spuName skcName location =
     ebind (record_field v location) (\<lambda>row.
     ebind (array_field (coalesce (jget row ''warehouseInventoryList'') (JArr [])) (location @ ''.warehouseInventoryList'')) (\<lambda>wrows.
     ebind (requiredStockText (jget row ''skuCode'') (location @ ''.skuCode'')) (\<lambda>skuCode.
     ebind (metric_values total_fields row location) (\<lambda>totals.
     ebind (emap_indexed mapWarehouse (location @ ''.warehouseInventoryList'') wrows) (\<lambda>warehouses.
     Inr \<lparr>si_spuName = spuName, si_skcName = skcName, si_skuCode = skuCode, si_totals = totals,
          si_warehouses = warehouses, si_reconciliation = reconcileTotals totals warehouses\<rparr>)))))"

section \<open>Responses\<close>

definition goodsGroups :: "jsv \<Rightarrow> jsv list result" where
  [js_eval]: "goodsGroups info =
     ebind (case as_array info of Some vs \<Rightarrow> Inr vs
            | None \<Rightarrow> ebind (record_field info ''response.info'') (\<lambda>r. Inr [r])) (\<lambda>containers.
     ebind (emap_indexed (\<lambda>c loc. ebind (record_field c loc) (\<lambda>container.
         array_field (jget container ''goodsInventory'') (loc @ ''.goodsInventory''))) ''response.info'' containers) (\<lambda>gs.
     Inr (concat gs)))"

datatype query_dimension = SKU | SKC | SPU

text \<open>The items of one group and the identifiers it shows in the dimension of the query.\<close>

definition map_group :: "query_dimension \<Rightarrow> jsv \<Rightarrow> nat \<Rightarrow> (string list \<times> stock_item list) result" where
  [js_eval]: "map_group dim v i =
     (let loc = indexed ''goodsInventory'' i
      in ebind (record_field v (indexed ''response.info.goodsInventory'' i)) (\<lambda>group.
         ebind (stockText (jget group ''spuName'') (loc @ ''.spuName'')) (\<lambda>spuName.
         ebind (stockText (jget group ''skcName'') (loc @ ''.skcName'')) (\<lambda>skcName.
         ebind (array_field (jget group ''skuList'') (loc @ ''.skuList'')) (\<lambda>skus.
         ebind (emap_indexed (\<lambda>sku l. mapSku sku spuName skcName l) (loc @ ''.skuList'') skus) (\<lambda>items.
         Inr ((case dim of SPU \<Rightarrow> (case spuName of None \<Rightarrow> [] | Some s \<Rightarrow> [s])
               | SKC \<Rightarrow> (case skcName of None \<Rightarrow> [] | Some s \<Rightarrow> [s])
               | SKU \<Rightarrow> map si_skuCode items), items)))))))"

record stock_coverage =
  cov_complete :: bool
  cov_requestedCount :: nat
  cov_observedCount :: nat
  cov_missingCodes :: "string list"

record stock_response =
  sr_dimension :: query_dimension
  sr_requestedCodes :: "string list"
  sr_inventoryType :: jsv
  sr_fetchedAt :: string
  sr_items :: "stock_item list"
  sr_shortages :: "(string \<times> int) list"
  sr_coverage :: stock_coverage
  sr_traceId :: "string option"

text \<open>The text of \<open>totalOutOfStockQty\<close> in the list of totals.\<close>

definition out_of_stock :: "stock_item \<Rightarrow> int option" where
  [js_eval]: "out_of_stock item = si_totals item ! 4"

definition query_dimension_of :: "jsv \<Rightarrow> query_dimension result" where
  [js_eval]: "query_dimension_of v =
     (if v = JStr ''SKU'' then Inr SKU else if v = JStr ''SKC'' then Inr SKC else if v = JStr ''SPU'' then Inr SPU
      else Inl (Fail ''INVALID_QUERY_DIMENSION'' []))"

definition request_codes :: "jsv \<Rightarrow> jsv list result" where
  [js_eval]: "request_codes v =
     (case as_array v of Some (c # cs) \<Rightarrow> Inr (c # cs) | _ \<Rightarrow> Inl (Fail ''INVALID_REQUEST_CODES'' []))"

definition mapStockQueryResponse ::
    "jsv \<Rightarrow> jsv \<Rightarrow> jsv \<Rightarrow> jsv \<Rightarrow> instant_input \<Rightarrow> stock_response result" where
  [js_eval]: "mapStockQueryResponse response queryDimension requestedCodes inventoryType fetchedAt =
     ebind (record_field response ''response'') (\<lambda>body.
     ebind (platform_ok stockText body) (\<lambda>_.
     ebind (query_dimension_of queryDimension) (\<lambda>dim.
     ebind (request_codes requestedCodes) (\<lambda>codeValues.
     ebind (goodsGroups (jget body ''info'')) (\<lambda>groups.
     ebind (emap (\<lambda>(i, g). map_group dim g i) (enumerate 0 groups)) (\<lambda>mapped.
     let observed = dedupe (concat (map fst mapped)); items = concat (map snd mapped) in
     ebind (emap (\<lambda>v. requiredStockText v ''requestedCodes'') codeValues) (\<lambda>requestedTexts.
     let requested = dedupe requestedTexts;
         unexpected = filter (\<lambda>c. c \<notin> set requested) observed;
         missing = filter (\<lambda>c. c \<notin> set observed) requested in
     ebind (ensure (unexpected = []) (Fail ''UNEXPECTED_RESPONSE_IDENTIFIER'' [])) (\<lambda>_.
     ebind (ensure (distinct (map si_skuCode items)) (Fail ''DUPLICATE_RESPONSE_SKU'' [])) (\<lambda>_.
     ebind (normalizeFetchedAt fetchedAt) (\<lambda>fetched.
     ebind (trace_of stockText body) (\<lambda>traceId.
     Inr \<lparr>sr_dimension = dim, sr_requestedCodes = requested, sr_inventoryType = inventoryType,
          sr_fetchedAt = fetched, sr_items = items,
          sr_shortages = List.map_filter (\<lambda>it. case out_of_stock it of None \<Rightarrow> None
            | Some n \<Rightarrow> if 0 < n then Some (si_skuCode it, n) else None) items,
          sr_coverage = \<lparr>cov_complete = (missing = []), cov_requestedCount = length requested,
            cov_observedCount = length observed, cov_missingCodes = missing\<rparr>,
          sr_traceId = traceId\<rparr>)))))))))))"

end
