(* ===== verification/Inventory_Properties.thy ===== *)
theory Inventory_Properties
  imports Inventory
begin

text \<open>
  Stock queries: totals are reconciled exactly, and the coverage of a response partitions the
  request.
\<close>

section \<open>Inventory totals\<close>

text \<open>A metric whose total is exposed: its details are complete, and add up to the total or not.\<close>

definition details_complete :: "warehouse_stock list \<Rightarrow> nat \<Rightarrow> bool" where
  "details_complete ws i \<longleftrightarrow> list_all (\<lambda>w. ws_metrics w ! i \<noteq> None) ws"

definition detail_sum :: "warehouse_stock list \<Rightarrow> nat \<Rightarrow> int" where
  "detail_sum ws i = sum_list (map (\<lambda>w. the (ws_metrics w ! i)) ws)"

lemma None_in_details: "None \<in> set (map (\<lambda>w. ws_metrics w ! i) ws) \<longleftrightarrow> \<not> details_complete ws i"
  unfolding details_complete_def list_all_iff set_map image_iff by (metis (full_types))

lemma check_total_status:
  "tc_status (check_total ws i m None) = NOT_EXPOSED"
  "tc_status (check_total ws i m (Some t)) =
     (if \<not> details_complete ws i then PARTIAL_DETAIL else if detail_sum ws i = t then MATCH else MISMATCH)"
  using None_in_details [of i ws] by (auto simp: check_total_def Let_def detail_sum_def o_def)

definition metric_contradicted :: "int option list \<Rightarrow> warehouse_stock list \<Rightarrow> nat \<Rightarrow> bool" where
  "metric_contradicted totals ws i \<longleftrightarrow>
     (\<exists>t. totals ! i = Some t \<and> details_complete ws i \<and> detail_sum ws i \<noteq> t)"

definition metric_confirmed :: "int option list \<Rightarrow> warehouse_stock list \<Rightarrow> nat \<Rightarrow> bool" where
  "metric_confirmed totals ws i \<longleftrightarrow>
     totals ! i = None \<or> (\<exists>t. totals ! i = Some t \<and> details_complete ws i \<and> detail_sum ws i = t)"

lemma check_mismatch: "tc_status (check_total ws i m (totals ! i)) = MISMATCH \<longleftrightarrow> metric_contradicted totals ws i"
  by (cases "totals ! i") (auto simp: check_total_status metric_contradicted_def)

lemma check_partial:
  "tc_status (check_total ws i m (totals ! i)) = PARTIAL_DETAIL \<longleftrightarrow>
     \<not> metric_contradicted totals ws i \<and> \<not> metric_confirmed totals ws i"
  by (cases "totals ! i") (auto simp: check_total_status metric_contradicted_def metric_confirmed_def)

lemma list_ex_checks:
  "list_ex (\<lambda>c. P c) (map (\<lambda>(i, m). check_total ws i m (totals ! i)) (enumerate 0 total_fields)) \<longleftrightarrow>
     list_ex (\<lambda>i. P (check_total ws i (total_fields ! i) (totals ! i))) [0..<6]"
  unfolding total_fields_def by (simp add: upt_rec)

text \<open>
  Inventory totals are reconciled exactly: without warehouse details nothing is claimed; the
  totals are contradicted when some exposed total differs from the sum of complete details, and
  reconciled when every exposed total equals the sum of complete details; otherwise a detail is
  missing and the status says so.
\<close>

theorem totals_reconciled_exactly:
  "rcn_status (reconcileTotals totals ws) =
    (if ws = [] then TOTAL_ONLY
     else if list_ex (metric_contradicted totals ws) [0..<6] then TOTALS_MISMATCH
     else if list_all (metric_confirmed totals ws) [0..<6] then RECONCILED
     else TOTALS_PARTIAL_DETAIL)"
proof (cases "ws = []")
  case False
  let ?I = "[0..<6 :: nat]"
  have "list_all (metric_confirmed totals ws) ?I \<longleftrightarrow>
      \<not> list_ex (\<lambda>i. \<not> metric_contradicted totals ws i \<and> \<not> metric_confirmed totals ws i) ?I"
    if "\<not> list_ex (metric_contradicted totals ws) ?I"
    using that by (auto simp: list_all_iff list_ex_iff)
  then show ?thesis
    using False unfolding reconcileTotals_def Let_def
    by (simp only: if_False reconciliation.select_convs list_ex_checks check_mismatch check_partial) simp
qed (simp add: reconcileTotals_def)

section \<open>Coverage of a stock query\<close>

lemma map_group_skus:
  "map_group SKU g i = Inr (codes, items) \<Longrightarrow> codes = map si_skuCode items"
  by (auto simp: map_group_def Let_def ebind_Inr_iff)

lemma emap_groups:
  assumes "emap (\<lambda>(i, g). map_group SKU g i) igs = Inr mapped"
  shows "concat (map fst mapped) = map si_skuCode (concat (map snd mapped))"
proof -
  have "\<forall>m\<in>set mapped. fst m = map si_skuCode (snd m)"
    using emap_Inr_set [OF assms] map_group_skus by fastforce
  then show ?thesis by (induction mapped) auto
qed

lemma filter_split_length:
  assumes "distinct xs" "distinct ys" "set ys \<subseteq> set xs"
  shows "length ys + length (filter (\<lambda>x. x \<notin> set ys) xs) = length xs"
proof -
  have "set (filter (\<lambda>x. x \<in> set ys) xs) = set ys" using assms(3) by auto
  moreover have "distinct (filter (\<lambda>x. x \<in> set ys) xs)" using assms(1) by simp
  ultimately have "length (filter (\<lambda>x. x \<in> set ys) xs) = length ys"
    using assms(2) distinct_card by metis
  then show ?thesis using sum_length_filter_compl [of "\<lambda>x. x \<in> set ys" xs] by simp
qed

text \<open>
  A stock query that is mapped covers what was asked and nothing else: the requested identifiers
  are distinct, those without an observation are listed as missing and the rest were observed, no
  stock keeping unit is listed twice, and the shortages are exactly the items with a positive
  out-of-stock quantity; in a query by stock keeping unit the items are exactly the requested
  identifiers that are not missing.
\<close>

theorem stock_query_covers_request:
  assumes "mapStockQueryResponse response dimension codes inventoryType t = Inr r"
  shows "distinct (sr_requestedCodes r) \<and> distinct (map si_skuCode (sr_items r)) \<and>
    set (cov_missingCodes (sr_coverage r)) \<subseteq> set (sr_requestedCodes r) \<and>
    cov_observedCount (sr_coverage r) + length (cov_missingCodes (sr_coverage r)) = length (sr_requestedCodes r) \<and>
    (cov_complete (sr_coverage r) \<longleftrightarrow> cov_missingCodes (sr_coverage r) = []) \<and>
    set (sr_shortages r) = {(si_skuCode i, n) | i n. i \<in> set (sr_items r) \<and> out_of_stock i = Some n \<and> 0 < n} \<and>
    (dimension = JStr ''SKU'' \<longrightarrow> set (map si_skuCode (sr_items r)) =
       set (sr_requestedCodes r) - set (cov_missingCodes (sr_coverage r)))"
proof -
  obtain body dim groups mapped texts fetched trace where
    dim: "query_dimension_of dimension = Inr dim"
    and m: "emap (\<lambda>(i, g). map_group dim g i) (enumerate 0 groups) = Inr mapped"
    and un: "filter (\<lambda>c. c \<notin> set (dedupe texts)) (dedupe (concat (map fst mapped))) = []"
    and d: "distinct (map si_skuCode (concat (map snd mapped)))"
    and r: "r = \<lparr>sr_dimension = dim, sr_requestedCodes = dedupe texts, sr_inventoryType = inventoryType,
          sr_fetchedAt = fetched, sr_items = concat (map snd mapped),
          sr_shortages = List.map_filter (\<lambda>it. case out_of_stock it of None \<Rightarrow> None
            | Some n \<Rightarrow> if 0 < n then Some (si_skuCode it, n) else None) (concat (map snd mapped)),
          sr_coverage = \<lparr>cov_complete = (filter (\<lambda>c. c \<notin> set (dedupe (concat (map fst mapped)))) (dedupe texts) = []),
            cov_requestedCount = length (dedupe texts), cov_observedCount = length (dedupe (concat (map fst mapped))),
            cov_missingCodes = filter (\<lambda>c. c \<notin> set (dedupe (concat (map fst mapped)))) (dedupe texts)\<rparr>,
          sr_traceId = trace\<rparr>"
    using assms unfolding mapStockQueryResponse_def Let_def 
    by (elim ebind_InrE, unfold ensure_Inr_iff sum.inject) (rule that; (assumption | rule sym, assumption))
  let ?obs = "concat (map fst mapped)"
  have sub: "set ?obs \<subseteq> set texts" using un by (auto simp: filter_empty_conv)
  have len: "length (dedupe ?obs) + length (filter (\<lambda>c. c \<notin> set (dedupe ?obs)) (dedupe texts)) = length (dedupe texts)"
    by (rule filter_split_length) (use sub in auto)
  have sku: "set (map si_skuCode (concat (map snd mapped))) = set texts - {c \<in> set texts. c \<notin> set ?obs}"
    if "dimension = JStr ''SKU''"
  proof -
    have "dim = SKU" using dim that by (simp add: query_dimension_of_def)
    then have "map si_skuCode (concat (map snd mapped)) = ?obs" using emap_groups m by metis
    then show ?thesis using sub by auto
  qed
  have short: "set (List.map_filter (\<lambda>it. case out_of_stock it of None \<Rightarrow> None
      | Some n \<Rightarrow> if 0 < n then Some (si_skuCode it, n) else None) items) =
      {(si_skuCode i, n) | i n. i \<in> set items \<and> out_of_stock i = Some n \<and> 0 < n}" for items
    by (induction items) (auto simp: List.map_filter_simps split: option.split)
  show ?thesis
    using d len sku unfolding r by (simp only: stock_response.select_convs stock_coverage.select_convs short) auto
qed

text \<open>A response for two codes, of which the platform omits one, with one warehouse short of stock.\<close>

definition sample_stock :: jsv where
  [js_eval]: "sample_stock =
     (let num = (\<lambda>n. JNum (NInt n));
          sku = JObj [(''skuCode'', JStr ''A1''), (''totalInventoryQuantity'', num 12), (''totalLockedQuantity'', num 2),
            (''totalTempLockQuantity'', num 0), (''totalUsableInventory'', JStr ''10''), (''totalOutOfStockQty'', num 3),
            (''warehouseInventoryList'', JArr [JObj [(''warehouseCode'', JStr ''W1''), (''warehouseType'', num 1),
              (''inventoryQuantity'', num 12), (''lockedQuantity'', num 2), (''tempLockQuantity'', num 0),
              (''usableInventory'', num 10), (''outOfStockQty'', num 3)]])]
      in JObj [(''code'', num 0), (''info'', JObj [(''goodsInventory'', JArr [JObj [(''spuName'', JStr ''P''),
           (''skcName'', JStr ''S''), (''skuList'', JArr [sku])]])])])"

lemma sample_stock_mapped:
  "case mapStockQueryResponse sample_stock (JStr ''SKU'') (JArr [JStr ''A1'', JStr ''B2'']) (JStr ''1'') (At 1772500000000) of
     Inl _ \<Rightarrow> False | Inr r \<Rightarrow> sr_shortages r = [(''A1'', 3)] \<and> cov_missingCodes (sr_coverage r) = [''B2''] \<and>
       map (\<lambda>i. rcn_status (si_reconciliation i)) (sr_items r) = [RECONCILED]"
  by code_simp

theorem stock_query_covers_request_witness:
  "case mapStockQueryResponse sample_stock (JStr ''SKU'') (JArr [JStr ''A1'', JStr ''B2'']) (JStr ''1'') (At 1772500000000) of
     Inl _ \<Rightarrow> False | Inr r \<Rightarrow> cov_observedCount (sr_coverage r) + length (cov_missingCodes (sr_coverage r)) =
       length (sr_requestedCodes r)"
proof -
  obtain r where r: "mapStockQueryResponse sample_stock (JStr ''SKU'') (JArr [JStr ''A1'', JStr ''B2'']) (JStr ''1'') (At 1772500000000) = Inr r"
    using sample_stock_mapped by (auto split: sum.splits)
  show ?thesis using stock_query_covers_request [OF r] by (simp add: r)
qed

end
