(* ===== verification/Sku_Sales.thy ===== *)
theory Sku_Sales
  imports Openapi_Fields
begin

text \<open>
  \<open>src/domain/sku-sales-snapshot.mjs\<close>: the sales of stock keeping units. A response is complete for
  the request or an error; a sales row without a date is dated by nobody, and only rows of zero sales
  may go without one.
\<close>

definition MAX_SKUS_PER_SALES_QUERY :: nat where
  [js_eval]: "MAX_SKUS_PER_SALES_QUERY = 100"

section \<open>Readers\<close>

definition requireNonEmptyString :: "jsv \<Rightarrow> string \<Rightarrow> string result" where
  [js_eval]: "requireNonEmptyString v path =
     (case as_string v of None \<Rightarrow> Inl (Fail ''INVALID_FIELD'' path)
      | Some s \<Rightarrow> if js_trim s = [] then Inl (Fail ''INVALID_FIELD'' path) else Inr (js_trim s))"

definition requireField :: "jsv \<Rightarrow> string \<Rightarrow> string \<Rightarrow> jsv result" where
  [js_eval]: "requireField row field path =
     (if nullish (jget row field) then Inl (Fail ''MISSING_FIELD'' (path @ ''.'' @ field)) else Inr (jget row field))"

definition requireNonNegativeInteger :: "jsv \<Rightarrow> string \<Rightarrow> string \<Rightarrow> int result" where
  [js_eval]: "requireNonNegativeInteger row field path =
     ebind (requireField row field path) (\<lambda>v.
       case safe_int v of None \<Rightarrow> Inl (Fail ''INVALID_SALES_COUNT'' (path @ ''.'' @ field))
       | Some n \<Rightarrow> if n < 0 then Inl (Fail ''NEGATIVE_SALES_COUNT'' (path @ ''.'' @ field)) else Inr n)"

definition compact_date_pattern :: "string \<Rightarrow> bool" where
  [js_eval]: "compact_date_pattern s \<longleftrightarrow> matches_span is_digit 8 8 s"

definition dashed :: "string \<Rightarrow> string" where
  [js_eval]: "dashed s = take 4 s @ ''-'' @ take 2 (drop 4 s) @ ''-'' @ take 2 (drop 6 s)"

definition blank_text :: "jsv \<Rightarrow> bool" where
  [js_eval]: "blank_text v \<longleftrightarrow> (case as_string v of None \<Rightarrow> False | Some s \<Rightarrow> js_trim s = [])"

definition normalizeStatisticsDate :: "jsv \<Rightarrow> string \<Rightarrow> string result" where
  [js_eval]: "normalizeStatisticsDate v path =
     (if blank_text v then Inl (Fail ''STATISTICS_DATE_UNAVAILABLE'' path)
      else ebind (requireNonEmptyString v path) (\<lambda>compact.
        if \<not> compact_date_pattern compact then Inl (Fail ''INVALID_STATISTICS_DATE'' path)
        else if business_date_ms (dashed compact) = None then Inl (Fail ''INVALID_STATISTICS_DATE'' path)
        else Inr (dashed compact)))"

definition normalizeStatisticsDateForMode :: "bool \<Rightarrow> jsv \<Rightarrow> string \<Rightarrow> string option result" where
  [js_eval]: "normalizeStatisticsDateForMode allowEmpty v path =
     (if allowEmpty \<and> blank_text v then Inr None
      else ebind (normalizeStatisticsDate v path) (\<lambda>d. Inr (Some d)))"

section \<open>Date quality\<close>

definition SALES_COUNT_FIELDS :: "string list" where
  [js_eval]: "SALES_COUNT_FIELDS = [''salesToday'', ''salesYesterday'', ''sales7Days'', ''sales30Days'']"

datatype date_quality = DATED | UNANCHORED_NONZERO | LEGAL_ZERO_UNANCHORED

text \<open>\<open>fields.some(...)\<close>: the fields after the first positive one are not looked at.\<close>

fun some_positive :: "jsv \<Rightarrow> string list \<Rightarrow> bool result" where
  "some_positive row [] = Inr False"
| "some_positive row (f # fs) =
     (case unit_count (jget row f) of None \<Rightarrow> Inl (Fail ''INVALID_SALES_COUNT'' (''snapshot.'' @ f))
      | Some n \<Rightarrow> if 0 < n then Inr True else some_positive row fs)"

definition classifySkuSalesDateQuality :: "jsv \<Rightarrow> date_quality result" where
  [js_eval]: "classifySkuSalesDateQuality snapshot =
     ebind (record_field snapshot ''snapshot'') (\<lambda>row.
       let d = jget row ''statisticsDate'' in
       if d \<noteq> JNull then
         (case as_string d of None \<Rightarrow> Inl (Fail ''INVALID_STATISTICS_DATE'' ''snapshot.statisticsDate'')
          | Some s \<Rightarrow>
            if \<not> business_date_pattern s then Inl (Fail ''INVALID_STATISTICS_DATE'' ''snapshot.statisticsDate'')
            else ebind (normalizeStatisticsDate (JStr (filter (\<lambda>c. c \<noteq> CHR ''-'') s)) ''snapshot.statisticsDate'')
              (\<lambda>_. Inr DATED))
       else ebind (some_positive row SALES_COUNT_FIELDS) (\<lambda>nonzero.
         Inr (if nonzero then UNANCHORED_NONZERO else LEGAL_ZERO_UNANCHORED)))"

section \<open>Requests\<close>

definition deduplicateSkuCodes :: "jsv \<Rightarrow> string list result" where
  [js_eval]: "deduplicateSkuCodes v =
     (case as_array v of None \<Rightarrow> Inl (Fail ''INVALID_SKU_LIST'' [])
      | Some vs \<Rightarrow>
        ebind (emap (\<lambda>(i, c). if as_string c = None \<or> blank_text c then Inl (Fail ''INVALID_SKU_CODE'' (show_nat i))
                 else requireNonEmptyString c []) (enumerate 0 vs)) (\<lambda>ss. Inr (dedupe ss)))"

function batches_of :: "nat \<Rightarrow> 'a list \<Rightarrow> 'a list list" where
  "batches_of n xs = (if xs = [] \<or> n = 0 then [] else take n xs # batches_of n (drop n xs))"
  by auto
termination by (relation "measure (\<lambda>(n, xs). length xs)") auto

declare batches_of.simps [simp del]
declare batches_of.simps [js_eval]

definition createSkuSalesQueryBatches :: "jsv \<Rightarrow> string list list result" where
  [js_eval]: "createSkuSalesQueryBatches v =
     ebind (deduplicateSkuCodes v) (\<lambda>codes. Inr (batches_of MAX_SKUS_PER_SALES_QUERY codes))"

section \<open>Responses\<close>

record sales_row =
  sal_skuCode :: string
  sal_today :: int
  sal_yesterday :: int
  sal_7days :: int
  sal_30days :: int
  sal_date :: "string option"

definition sales_row_of :: "bool \<Rightarrow> string \<Rightarrow> jsv \<Rightarrow> string \<Rightarrow> sales_row result" where
  [js_eval]: "sales_row_of allowEmpty skuCode item path =
     ebind (requireNonNegativeInteger item ''realTimeSaleCnt'' path) (\<lambda>today.
     ebind (requireNonNegativeInteger item ''cydSaleCnt'' path) (\<lambda>yesterday.
     ebind (requireNonNegativeInteger item ''c7dSaleCnt'' path) (\<lambda>week.
     ebind (requireNonNegativeInteger item ''c30dSaleCnt'' path) (\<lambda>month.
     ebind (requireField item ''dt'' path) (\<lambda>dt.
     ebind (normalizeStatisticsDateForMode allowEmpty dt (path @ ''.dt'')) (\<lambda>d.
     Inr \<lparr>sal_skuCode = skuCode, sal_today = today, sal_yesterday = yesterday, sal_7days = week,
          sal_30days = month, sal_date = d\<rparr>))))))"

text \<open>The rows of the response by SKU, in the order of the response.\<close>

fun rows_by_sku ::
    "string list \<Rightarrow> bool \<Rightarrow> (nat \<times> jsv) list \<Rightarrow> (string \<times> sales_row) list \<Rightarrow> (string \<times> sales_row) list result" where
  "rows_by_sku requested allowEmpty [] acc = Inr acc"
| "rows_by_sku requested allowEmpty ((i, raw) # rest) acc =
     (let path = indexed ''response.info.dataList'' i in
      ebind (record_field raw path) (\<lambda>item.
      ebind (ebind (requireField item ''skuCode'' path) (\<lambda>v. requireNonEmptyString v (path @ ''.skuCode''))) (\<lambda>skuCode.
      ebind (ensure (skuCode \<in> set requested) (Fail ''UNEXPECTED_RESPONSE_SKU'' (path @ ''.skuCode''))) (\<lambda>_.
      ebind (ensure (skuCode \<notin> fst ` set acc) (Fail ''DUPLICATE_RESPONSE_SKU'' (path @ ''.skuCode''))) (\<lambda>_.
      ebind (sales_row_of allowEmpty skuCode item path) (\<lambda>row.
      rows_by_sku requested allowEmpty rest (acc @ [(skuCode, row)])))))))"

definition normalizeSkuSalesResponseRows :: "jsv \<Rightarrow> jsv \<Rightarrow> bool \<Rightarrow> sales_row list result" where
  [js_eval]: "normalizeSkuSalesResponseRows requestedSkuCodes response allowEmpty =
     ebind (deduplicateSkuCodes requestedSkuCodes) (\<lambda>requested.
     ebind (ensure (requested \<noteq> []) (Fail ''EMPTY_REQUESTED_SKU_LIST'' [])) (\<lambda>_.
     ebind (ensure (length requested \<le> MAX_SKUS_PER_SALES_QUERY) (Fail ''TOO_MANY_REQUESTED_SKUS'' [])) (\<lambda>_.
     ebind (record_field response ''response'') (\<lambda>body.
     ebind (requireField body ''code'' ''response'') (\<lambda>codeValue.
     ebind (if codeValue = JStr ''0'' then Inr ()
            else ebind (js_string codeValue) (\<lambda>c. Inl (Fail ''OPENAPI_RESPONSE_ERROR'' c))) (\<lambda>_.
     ebind (ebind (requireField body ''info'' ''response'') (\<lambda>v. record_field v ''response.info'')) (\<lambda>info.
     ebind (ebind (requireField info ''dataList'' ''response.info'') (\<lambda>v. array_field v ''response.info.dataList'')) (\<lambda>rows.
     ebind (rows_by_sku requested allowEmpty (enumerate 0 rows) []) (\<lambda>bySku.
     ebind (ensure (set requested \<subseteq> fst ` set bySku) (Fail ''MISSING_REQUESTED_SKU'' [])) (\<lambda>_.
     Inr (map (\<lambda>sku. the (map_of bySku sku)) requested)))))))))))"

text \<open>A row as the value that the classification reads.\<close>

definition row_value :: "sales_row \<Rightarrow> jsv" where
  [js_eval]: "row_value r = JObj
     [(''skuCode'', JStr (sal_skuCode r)), (''salesToday'', JNum (NInt (sal_today r))),
      (''salesYesterday'', JNum (NInt (sal_yesterday r))), (''sales7Days'', JNum (NInt (sal_7days r))),
      (''sales30Days'', JNum (NInt (sal_30days r))),
      (''statisticsDate'', case sal_date r of None \<Rightarrow> JNull | Some d \<Rightarrow> JStr d)]"

record permission_probe =
  pp_recordCount :: nat
  pp_dateAvailable :: bool
  pp_missingDateCount :: nat
  pp_legalZeroCount :: nat
  pp_unanchoredNonzeroCount :: nat
  pp_dataLoadable :: bool

definition inspectSkuSalesResponseForPermissionProbe :: "jsv \<Rightarrow> jsv \<Rightarrow> permission_probe result" where
  [js_eval]: "inspectSkuSalesResponseForPermissionProbe requestedSkuCodes response =
     ebind (normalizeSkuSalesResponseRows requestedSkuCodes response True) (\<lambda>rows.
     ebind (emap (\<lambda>r. classifySkuSalesDateQuality (row_value r)) rows) (\<lambda>qs.
     let missing = length (filter (\<lambda>r. sal_date r = None) rows);
         nonzero = length (filter (\<lambda>q. q = UNANCHORED_NONZERO) qs)
     in Inr \<lparr>pp_recordCount = length rows, pp_dateAvailable = (missing = 0), pp_missingDateCount = missing,
          pp_legalZeroCount = length (filter (\<lambda>q. q = LEGAL_ZERO_UNANCHORED) qs),
          pp_unanchoredNonzeroCount = nonzero, pp_dataLoadable = (nonzero = 0)\<rparr>))"

record sales_snapshot = sales_row +
  snap_storeCode :: string
  snap_fetchedAt :: string

definition mapSkuSalesResponseToSnapshots :: "jsv \<Rightarrow> jsv \<Rightarrow> instant_input \<Rightarrow> jsv \<Rightarrow> sales_snapshot list result" where
  [js_eval]: "mapSkuSalesResponseToSnapshots storeCode requestedSkuCodes fetchedAt response =
     ebind (requireNonEmptyString storeCode ''storeCode'') (\<lambda>store.
     ebind (normalizeFetchedAt fetchedAt) (\<lambda>fetched.
     ebind (normalizeSkuSalesResponseRows requestedSkuCodes response True) (\<lambda>rows.
     Inr (map (\<lambda>r. sales_row.extend r (\<lparr>snap_storeCode = store, snap_fetchedAt = fetched\<rparr>)) rows))))"

end
