(* ===== verification/Sales_Properties.thy ===== *)
theory Sales_Properties
  imports Sku_Sales
begin

text \<open>
  Sales of stock keeping units: the queries cover the codes within the platform's maximum, a response
  is complete for its request, and only zero sales may go undated.
\<close>

section \<open>Sales\<close>

lemma batches_of_props:
  "0 < n \<Longrightarrow> concat (batches_of n xs) = xs \<and> list_all (\<lambda>b. b \<noteq> [] \<and> length b \<le> n) (batches_of n xs) \<and>
     length (batches_of n xs) = (length xs + n - 1) div n"
proof (induction n xs rule: batches_of.induct)
  case (1 n xs)
  show ?case
  proof (cases "xs = []")
    case True
    then show ?thesis using 1(2) by (simp add: batches_of.simps [of n])
  next
    case False
    have IH: "concat (batches_of n (drop n xs)) = drop n xs" "list_all (\<lambda>b. b \<noteq> [] \<and> length b \<le> n) (batches_of n (drop n xs))"
      "length (batches_of n (drop n xs)) = (length (drop n xs) + n - 1) div n"
      using 1 False by auto
    have "0 < length xs" using False by simp
    have "Suc ((length xs - n + n - 1) div n) = (length xs + n - 1) div n"
    proof (cases "length xs \<le> n")
      case True
      have "(length xs + n - 1) div n = 1"
        by (rule div_nat_eqI) (use True \<open>0 < length xs\<close> 1(2) in presburger)+
      then show ?thesis using True 1(2) by simp
    next
      case False
      then show ?thesis using 1(2) by (simp add: le_div_geq)
    qed
    then show ?thesis
      using False 1(2) IH by (subst (1 2 3) batches_of.simps) (simp add: batches_of.simps [of n xs])
  qed
qed

lemma dedupe_codes: "deduplicateSkuCodes v = Inr codes \<Longrightarrow> distinct codes"
  by (auto simp: deduplicateSkuCodes_def ebind_Inr_iff split: option.splits)

text \<open>
  Every sales query obeys the platform's maximum and together the queries ask for each code
  once: the batches are not empty, have at most 100 codes and are as few as possible, and their
  concatenation is the duplicate-free list of codes.
\<close>

theorem sales_batches_cover_codes:
  "case createSkuSalesQueryBatches v of
     Inl e \<Rightarrow> deduplicateSkuCodes v = Inl e
   | Inr bs \<Rightarrow> deduplicateSkuCodes v = Inr (concat bs) \<and> distinct (concat bs) \<and>
       list_all (\<lambda>b. b \<noteq> [] \<and> length b \<le> 100) bs \<and> length bs = (length (concat bs) + 99) div 100"
proof (cases "deduplicateSkuCodes v")
  case (Inr codes)
  have "concat (batches_of 100 codes) = codes \<and> list_all (\<lambda>b. b \<noteq> [] \<and> length b \<le> 100) (batches_of 100 codes) \<and>
      length (batches_of 100 codes) = (length codes + 100 - 1) div 100"
    by (rule batches_of_props) simp
  then show ?thesis
    using dedupe_codes [OF Inr] Inr by (simp add: createSkuSalesQueryBatches_def MAX_SKUS_PER_SALES_QUERY_def)
qed (simp add: createSkuSalesQueryBatches_def)

section \<open>Complete responses\<close>

text \<open>The sales that a row of the platform shows, read back without change.\<close>

definition row_shows :: "jsv \<Rightarrow> sales_row \<Rightarrow> bool" where
  "row_shows item r \<longleftrightarrow>
     (\<exists>s. jget item ''skuCode'' = JStr s \<and> js_trim s = sal_skuCode r) \<and>
     jget item ''realTimeSaleCnt'' = JNum (NInt (sal_today r)) \<and> jget item ''cydSaleCnt'' = JNum (NInt (sal_yesterday r)) \<and>
     jget item ''c7dSaleCnt'' = JNum (NInt (sal_7days r)) \<and> jget item ''c30dSaleCnt'' = JNum (NInt (sal_30days r)) \<and>
     (case sal_date r of None \<Rightarrow> blank_text (jget item ''dt'')
      | Some d \<Rightarrow> (\<exists>s. jget item ''dt'' = JStr s \<and> dashed (js_trim s) = d))"

definition sales_in_range :: "sales_row \<Rightarrow> bool" where
  "sales_in_range r \<longleftrightarrow>
     (\<forall>n\<in>{sal_today r, sal_yesterday r, sal_7days r, sal_30days r}. 0 \<le> n \<and> n \<le> max_safe) \<and>
     (case sal_date r of None \<Rightarrow> True | Some d \<Rightarrow> business_date_ms d \<noteq> None)"

lemma requireField_Inr: "requireField row f p = Inr v \<Longrightarrow> v = jget row f"
  by (simp add: requireField_def split: if_splits)

lemma requireNonEmptyString_Inr: "requireNonEmptyString v p = Inr s \<longleftrightarrow> (\<exists>t. v = JStr t \<and> s = js_trim t \<and> s \<noteq> [])"
  by (cases v) (auto simp: requireNonEmptyString_def)

lemma requireNonNegativeInteger_Inr:
  "requireNonNegativeInteger row f p = Inr n \<Longrightarrow> jget row f = JNum (NInt n) \<and> 0 \<le> n \<and> n \<le> max_safe"
  by (auto simp: requireNonNegativeInteger_def safe_int_Some_iff dest!: requireField_Inr
      elim!: ebind_InrE split: option.splits if_splits)

lemma normalizeStatisticsDate_Inr:
  "normalizeStatisticsDate v p = Inr d \<Longrightarrow> \<exists>s. v = JStr s \<and> dashed (js_trim s) = d \<and> business_date_ms d \<noteq> None"
  by (auto simp: normalizeStatisticsDate_def requireNonEmptyString_Inr elim!: ebind_InrE split: if_splits)

lemma sales_row_of_Inr:
  assumes "sales_row_of allowEmpty sku item path = Inr r" "jget item ''skuCode'' = JStr s" "js_trim s = sku"
  shows "row_shows item r \<and> sales_in_range r \<and> sal_skuCode r = sku"
  using assms(1) unfolding sales_row_of_def
proof (elim ebind_InrE)
  fix a b c d dt sd
  assume n: "requireNonNegativeInteger item ''realTimeSaleCnt'' path = Inr a"
    "requireNonNegativeInteger item ''cydSaleCnt'' path = Inr b"
    "requireNonNegativeInteger item ''c7dSaleCnt'' path = Inr c"
    "requireNonNegativeInteger item ''c30dSaleCnt'' path = Inr d"
    and dt: "requireField item ''dt'' path = Inr dt"
    and sd: "normalizeStatisticsDateForMode allowEmpty dt (path @ ''.dt'') = Inr sd"
    and r: "Inr \<lparr>sal_skuCode = sku, sal_today = a, sal_yesterday = b, sal_7days = c, sal_30days = d, sal_date = sd\<rparr> = Inr r"
  have "case sd of None \<Rightarrow> blank_text (jget item ''dt'')
      | Some x \<Rightarrow> (\<exists>s. jget item ''dt'' = JStr s \<and> dashed (js_trim s) = x) \<and> business_date_ms x \<noteq> None"
    using sd requireField_Inr [OF dt] normalizeStatisticsDate_Inr
    by (fastforce simp: normalizeStatisticsDateForMode_def ebind_Inr_iff split: if_splits)
  then show ?thesis
    using n [THEN requireNonNegativeInteger_Inr] r assms(2,3)
    by (auto simp: row_shows_def sales_in_range_def split: option.splits)
qed

lemma rows_by_sku_Inr:
  assumes "rows_by_sku requested allowEmpty rows acc = Inr out" "distinct (map fst acc)" "set (map fst acc) \<subseteq> set requested"
    and "\<forall>(k, r)\<in>set acc. P k r"
    and "\<And>item s r path. jget item ''skuCode'' = JStr s \<Longrightarrow> item \<in> snd ` set rows \<Longrightarrow>
      sales_row_of allowEmpty (js_trim s) item path = Inr r \<Longrightarrow> P (js_trim s) r"
  shows "distinct (map fst out) \<and> set (map fst out) \<subseteq> set requested \<and> (\<forall>(k, r)\<in>set out. P k r) \<and>
    length out = length acc + length rows"
  using assms
proof (induction rows arbitrary: acc)
  case (Cons row rest)
  obtain i raw where row: "row = (i, raw)" by (cases row)
  let ?path = "indexed ''response.info.dataList'' i"
  obtain item v sku r where
    item: "record_field raw ?path = Inr item" and v: "requireField item ''skuCode'' ?path = Inr v"
    and sku: "requireNonEmptyString v (?path @ ''.skuCode'') = Inr sku"
    and new: "sku \<in> set requested" "sku \<notin> fst ` set acc"
    and r: "sales_row_of allowEmpty sku item ?path = Inr r"
    and rest: "rows_by_sku requested allowEmpty rest (acc @ [(sku, r)]) = Inr out"
    using Cons.prems(1) by (auto simp: row Let_def elim!: ebind_InrE)
  have raw: "item = raw" using item by (simp add: record_field_def split: if_splits)
  obtain s where s: "jget item ''skuCode'' = JStr s" "sku = js_trim s"
    using requireField_Inr [OF v] sku by (auto simp: requireNonEmptyString_Inr)
  have "P sku r" using Cons.prems(5) [OF s(1) _ r [unfolded s(2)]] raw s(2) by (simp add: row)
  then show ?case
    using Cons.IH [OF rest] Cons.prems(2-5) new by (auto simp: image_iff)
qed simp

lemma normalize_rows_cases:
  assumes "normalizeSkuSalesResponseRows req response allowEmpty = Inr rows"
  obtains requested items bySku where "deduplicateSkuCodes req = Inr requested"
    "jget (jget response ''info'') ''dataList'' = JArr items"
    "rows_by_sku requested allowEmpty (enumerate 0 items) [] = Inr bySku"
    "set requested \<subseteq> fst ` set bySku" "rows = map (\<lambda>sku. the (map_of bySku sku)) requested"
    "requested \<noteq> []" "length requested \<le> 100"
proof -
  have rec: "record_field v l = Inr w \<Longrightarrow> w = v" for v l w by (simp add: record_field_def split: if_splits)
  have arr: "array_field v l = Inr w \<Longrightarrow> v = JArr w" for v l w by (auto simp: array_field_def split: option.splits)
  show thesis
    using assms unfolding normalizeSkuSalesResponseRows_def MAX_SKUS_PER_SALES_QUERY_def
    by (elim ebind_InrE) (rule that; (auto dest!: rec arr requireField_Inr)?)
qed

text \<open>What a normalized response contains: one row of the platform for every requested code.\<close>

lemma normalized_rows:
  assumes "normalizeSkuSalesResponseRows req response allowEmpty = Inr rows"
  shows "\<exists>requested items. deduplicateSkuCodes req = Inr requested \<and>
    jget (jget response ''info'') ''dataList'' = JArr items \<and> map sal_skuCode rows = requested \<and>
    length items = length requested \<and>
    list_all (\<lambda>r. sales_in_range r \<and> list_ex (\<lambda>item. row_shows item r) items) rows"
  using assms
proof (cases rule: normalize_rows_cases)
  case (1 requested items bySku)
  let ?P = "\<lambda>k r. sal_skuCode r = k \<and> sales_in_range r \<and> list_ex (\<lambda>item. row_shows item r) items"
  have P: "distinct (map fst bySku) \<and> set (map fst bySku) \<subseteq> set requested \<and> (\<forall>(k, r)\<in>set bySku. ?P k r) \<and>
      length bySku = length ([] :: (string \<times> sales_row) list) + length (enumerate 0 items)"
  proof (rule rows_by_sku_Inr [OF 1(3)])
    fix item s r path
    assume "jget item ''skuCode'' = JStr s" "item \<in> snd ` set (enumerate 0 items)"
      "sales_row_of allowEmpty (js_trim s) item path = Inr r"
    then show "?P (js_trim s) r"
      using sales_row_of_Inr [of allowEmpty "js_trim s" item path r s]
      by (auto simp: list_ex_iff enumerate_eq_zip dest: set_zip_rightD)
  qed simp_all
  have d: "distinct requested" by (rule dedupe_codes [OF 1(1)])
  have found: "\<exists>r. map_of bySku k = Some r \<and> ?P k r" if "k \<in> set requested" for k
  proof -
    have "map_of bySku k \<noteq> None" using 1(4) that by (auto simp: map_of_eq_None_iff)
    then obtain r where r: "map_of bySku k = Some r" by blast
    then show ?thesis using P map_of_SomeD [OF r] by fastforce
  qed
  have "length bySku = card (set (map fst bySku))" using P distinct_card [of "map fst bySku"] by simp
  also have "set (map fst bySku) = set requested" using P 1(4) by auto
  finally have len: "length items = length requested" using P d by (simp add: distinct_card)
  have "map sal_skuCode rows = requested" unfolding 1(5) map_map by (rule map_idI) (use found in fastforce)
  moreover have "list_all (\<lambda>r. sales_in_range r \<and> list_ex (\<lambda>item. row_shows item r) items) rows"
    unfolding 1(5) list_all_iff using found by fastforce
  ultimately show ?thesis using 1(1,2) len by blast
qed

text \<open>
  A sales response is taken only when it is complete: the snapshots list the requested codes
  once each, in the order of the request, the platform sent exactly one row per code, and every
  number and date of a snapshot is read from that row; no missing code becomes a row of zeros.
\<close>

theorem sales_response_is_complete:
  assumes "mapSkuSalesResponseToSnapshots store req t response = Inr snaps"
  shows "\<exists>requested items. deduplicateSkuCodes req = Inr requested \<and>
    jget (jget response ''info'') ''dataList'' = JArr items \<and> length items = length requested \<and>
    map sal_skuCode snaps = requested \<and>
    list_all (\<lambda>r. sales_in_range (sales_row.truncate r) \<and>
      list_ex (\<lambda>item. row_shows item (sales_row.truncate r)) items) snaps"
proof -
  obtain s fetched rows where rows: "normalizeSkuSalesResponseRows req response True = Inr rows"
    and snaps: "snaps = map (\<lambda>r. sales_row.extend r (sales_snapshot.fields s fetched)) rows"
    using assms unfolding mapSkuSalesResponseToSnapshots_def by (auto elim!: ebind_InrE simp: sales_snapshot.defs)
  have f: "sal_skuCode (sales_row.extend r m) = sal_skuCode r" "sales_row.truncate (sales_row.extend r m) = r"
    for r :: sales_row and m :: "'a"
    by (simp_all add: sales_row.defs)
  show ?thesis using normalized_rows [OF rows] unfolding snaps list_all_iff by (auto simp: o_def f)
qed

text \<open>A response for two codes, the second without a date.\<close>

definition sample_sales :: jsv where
  [js_eval]: "sample_sales =
     (let row = (\<lambda>sku n d. JObj [(''skuCode'', JStr sku), (''realTimeSaleCnt'', JNum (NInt n)), (''cydSaleCnt'', JNum (NInt n)),
            (''c7dSaleCnt'', JNum (NInt (3 * n))), (''c30dSaleCnt'', JNum (NInt (9 * n))), (''dt'', JStr d)])
      in JObj [(''code'', JStr ''0''), (''info'', JObj [(''dataList'', JArr [row ''B2'' 0 [], row ''A1'' 4 ''20260228''])])])"

definition sample_codes :: jsv where
  [js_eval]: "sample_codes = JArr [JStr '' A1'', JStr ''B2'', JStr ''A1'']"

lemma sample_snapshots:
  "case mapSkuSalesResponseToSnapshots (JStr ''ZS0005'') sample_codes (At 1772500000000) sample_sales of
     Inl _ \<Rightarrow> False | Inr snaps \<Rightarrow> map sal_today snaps = [4, 0] \<and> map sal_date snaps = [Some ''2026-02-28'', None]"
  by code_simp

theorem sales_response_is_complete_witness:
  "case mapSkuSalesResponseToSnapshots (JStr ''ZS0005'') sample_codes (At 1772500000000) sample_sales of
     Inl _ \<Rightarrow> False | Inr snaps \<Rightarrow> deduplicateSkuCodes sample_codes = Inr (map sal_skuCode snaps)"
proof -
  obtain snaps where s: "mapSkuSalesResponseToSnapshots (JStr ''ZS0005'') sample_codes (At 1772500000000) sample_sales = Inr snaps"
    using sample_snapshots by (auto split: sum.splits)
  show ?thesis using sales_response_is_complete [OF s] by (auto simp: s)
qed

section \<open>Undated sales\<close>

definition nonzero_sales :: "sales_row \<Rightarrow> bool" where
  "nonzero_sales r \<longleftrightarrow> 0 < sal_today r \<or> 0 < sal_yesterday r \<or> 0 < sal_7days r \<or> 0 < sal_30days r"

definition quality_of :: "sales_row \<Rightarrow> date_quality" where
  "quality_of r = (if sal_date r \<noteq> None then DATED else if nonzero_sales r then UNANCHORED_NONZERO else LEGAL_ZERO_UNANCHORED)"

lemma undashed_date:
  assumes "business_date_ms d \<noteq> None"
  shows "business_date_pattern d" "compact_date_pattern (filter (\<lambda>c. c \<noteq> CHR ''-'') d)"
    "dashed (filter (\<lambda>c. c \<noteq> CHR ''-'') d) = d"
proof -
  show p: "business_date_pattern d" using assms by (simp add: business_date_ms_def split: if_splits)
  note g = digits_of_pattern [OF p]
  have keep: "filter (\<lambda>c. c \<noteq> CHR ''-'') s = s" if "list_all is_digit s" for s
    using that by (intro filter_True) (auto simp: list_all_iff is_digit_def)
  obtain a b c where d: "d = a @ ''-'' @ b @ ''-'' @ c" "list_all is_digit a" "length a = 4"
    "list_all is_digit b" "length b = 2" "list_all is_digit c" "length c = 2"
    using g by metis
  have e: "filter (\<lambda>c. c \<noteq> CHR ''-'') d = a @ b @ c"
    by (simp add: d(1) keep [OF d(2)] keep [OF d(4)] keep [OF d(6)])
  show "compact_date_pattern (filter (\<lambda>c. c \<noteq> CHR ''-'') d)"
    unfolding e using d by (simp add: compact_date_pattern_def matches_span_def)
  show "dashed (filter (\<lambda>c. c \<noteq> CHR ''-'') d) = d" unfolding e using d by (simp add: dashed_def)
qed

lemma digit_not_space: "is_digit c \<Longrightarrow> \<not> is_space c"
  by (auto simp: is_digit_def is_space_def)

lemma trim_digits: "list_all is_digit s \<Longrightarrow> js_trim s = s"
proof -
  assume s: "list_all is_digit s"
  have "dropWhile is_space t = t" if "list_all is_digit t" for t
    using that digit_not_space by (cases t) auto
  then show ?thesis using s by (simp add: js_trim_def list_all_rev)
qed

lemma classify_row:
  assumes "sales_in_range r"
  shows "classifySkuSalesDateQuality (row_value r) = Inr (quality_of r)"
proof (cases "sal_date r")
  case None
  have count: "unit_count (JNum (NInt n)) = Some n" if "0 \<le> n \<and> n \<le> max_safe" for n
    using that by (simp add: unit_count_Some_iff)
  have r: "0 \<le> sal_today r \<and> sal_today r \<le> max_safe" "0 \<le> sal_yesterday r \<and> sal_yesterday r \<le> max_safe"
    "0 \<le> sal_7days r \<and> sal_7days r \<le> max_safe" "0 \<le> sal_30days r \<and> sal_30days r \<le> max_safe"
    using assms by (simp_all add: sales_in_range_def)
  show ?thesis
    by (auto simp: classifySkuSalesDateQuality_def record_field_def row_value_def None SALES_COUNT_FIELDS_def
        count [OF r(1)] count [OF r(2)] count [OF r(3)] count [OF r(4)] quality_of_def nonzero_sales_def)
next
  case (Some d)
  then have d: "business_date_ms d \<noteq> None" using assms by (auto simp: sales_in_range_def)
  note u = undashed_date [OF d]
  let ?c = "filter (\<lambda>c. c \<noteq> CHR ''-'') d"
  have digits: "list_all is_digit ?c" "length ?c = 8" using u(2) by (simp_all add: compact_date_pattern_def matches_span_def)
  have "?c \<noteq> []" using digits(2) by (cases ?c) simp_all
  then have "normalizeStatisticsDate (JStr ?c) ''snapshot.statisticsDate'' = Inr d"
    using d u by (auto simp: normalizeStatisticsDate_def blank_text_def requireNonEmptyString_def trim_digits [OF digits(1)])
  then show ?thesis
    by (simp add: classifySkuSalesDateQuality_def record_field_def row_value_def Some u(1) quality_of_def)
qed

text \<open>
  The permission probe is exact: it fails only where the response itself is refused; otherwise it
  counts the undated rows, and the data may be loaded exactly when every undated row shows zero sales
  in all four periods.
\<close>

theorem probe_is_exact:
  "inspectSkuSalesResponseForPermissionProbe req response =
    ebind (normalizeSkuSalesResponseRows req response True) (\<lambda>rows.
      let undated = filter (\<lambda>r. sal_date r = None) rows; nonzero = filter nonzero_sales undated
      in Inr \<lparr>pp_recordCount = length rows, pp_dateAvailable = (undated = []), pp_missingDateCount = length undated,
           pp_legalZeroCount = length undated - length nonzero, pp_unanchoredNonzeroCount = length nonzero,
           pp_dataLoadable = (nonzero = [])\<rparr>)"
proof (cases "normalizeSkuSalesResponseRows req response True")
  case (Inr rows)
  have ok: "sales_in_range r" if "r \<in> set rows" for r
    using normalized_rows [OF Inr] that by (auto simp: list_all_iff)
  have q: "emap (\<lambda>r. classifySkuSalesDateQuality (row_value r)) rows = Inr (map quality_of rows)"
    by (rule emap_pure) (simp add: classify_row ok)
  let ?undated = "filter (\<lambda>r. sal_date r = None) rows"
  have nz: "length (filter (\<lambda>x. x = UNANCHORED_NONZERO) (map quality_of rows)) = length (filter nonzero_sales ?undated)"
    by (induction rows) (auto simp: quality_of_def)
  have zero: "length (filter (\<lambda>x. x = LEGAL_ZERO_UNANCHORED) (map quality_of rows)) =
      length ?undated - length (filter nonzero_sales ?undated)"
  proof -
    have "length (filter (\<lambda>x. x = LEGAL_ZERO_UNANCHORED) (map quality_of rows)) =
        length (filter (\<lambda>r. \<not> nonzero_sales r) ?undated)"
      by (induction rows) (auto simp: quality_of_def)
    then show ?thesis using sum_length_filter_compl [of nonzero_sales ?undated] by simp
  qed
  show ?thesis
    unfolding inspectSkuSalesResponseForPermissionProbe_def Inr ebind_simps q Let_def nz zero by simp
qed (simp add: inspectSkuSalesResponseForPermissionProbe_def)

end
