(* ===== verification/Purchase_Order_Adapter.thy ===== *)
theory Purchase_Order_Adapter
  imports Backfill_Runner
begin

text \<open>
  \<open>src/backfill/purchase-order-adapter.mjs\<close>: the only executable adapter of the backfill. One fetch
  makes at most one call of the supply synchronisation, for one store and one day, and reads the
  evidence of its summary. The synchronisation and the clock are the functions that the caller
  passes; every other value of the summary is untyped.
\<close>

section \<open>The contract\<close>

definition PURCHASE_ORDER_BACKFILL_ADAPTER_KEY :: string where
  [js_eval]: "PURCHASE_ORDER_BACKFILL_ADAPTER_KEY = ''openapi.purchase-orders.v1''"

definition PURCHASE_ORDER_TERMINAL_REASON :: string where
  [js_eval]: "PURCHASE_ORDER_TERMINAL_REASON = ''ALL_WINDOWS_REACHED_TERMINAL_PAGE''"

definition PURCHASE_ORDER_ADAPTER_CONTRACT :: jsv where
  [js_eval]: "PURCHASE_ORDER_ADAPTER_CONTRACT = JObj
     [(''contract'', JStr ''backfill.purchase-order-adapter.v1''),
      (''domain'', JStr EXECUTABLE_BACKFILL_DOMAIN),
      (''adapterKey'', JStr PURCHASE_ORDER_BACKFILL_ADAPTER_KEY),
      (''delegate'', JStr ''scripts/sync_full_managed_supply.mjs#runSupplySync''),
      (''mode'', JStr ''BACKFILL''),
      (''sourceField'', JStr ''updateTime''),
      (''sourceTimezone'', JStr ''Asia/Shanghai''),
      (''windowGrain'', JStr ''BUSINESS_DATE''),
      (''windowSpanDays'', JNum (NInt 1)),
      (''storeCountPerCall'', JNum (NInt 1)),
      (''domainScopePerCall'', JArr [JStr EXECUTABLE_BACKFILL_DOMAIN]),
      (''provenFacts'', JArr (map JStr
        [''exactly-one-store-result'', ''purchase-domain-loaded'', ''terminal-page-reached-for-every-window'',
         ''plan-covers-the-exact-requested-one-day-range'', ''exactly-one-planned-window'',
         ''requested-range-complete'', ''historical-coverage-not-claimed'',
         ''observation-instant-is-the-real-clock'', ''persisted-purchase-order-count-equals-record-count'',
         ''requested-range-loaded'']))]"

definition PURCHASE_ORDER_ADAPTER_SCHEMA_FINGERPRINT :: "(string \<Rightarrow> string) \<Rightarrow> string result" where
  [js_eval]: "PURCHASE_ORDER_ADAPTER_SCHEMA_FINGERPRINT sha = canonical_hash sha PURCHASE_ORDER_ADAPTER_CONTRACT"

text \<open>
  An early return is the left value of a sum; \<open>String(v)\<close> may throw in it, and the error it throws
  has no code.
\<close>

definition reject :: "string \<Rightarrow> (string \<times> jsv) list \<Rightarrow> fetch_reply" where
  [js_eval]: "reject c details = Returned (JObj
     [(''ok'', JBool False), (''adapterError'', JBool True), (''sanitizedErrorCode'', JStr c),
      (''details'', JObj details)])"

definition text_of :: "jsv \<Rightarrow> fetch_reply + string" where
  [js_eval]: "text_of v = (case js_string v of Inl _ \<Rightarrow> Inl (Threw JUndef) | Inr s \<Rightarrow> Inr s)"

definition upper_code :: "jsv \<Rightarrow> fetch_reply + string" where
  [js_eval]: "upper_code v = ebind (text_of (coalesce v (JStr []))) (\<lambda>s. Inr (js_upper (js_trim s)))"

section \<open>Before the call\<close>

definition shanghaiMidnight :: "string \<Rightarrow> string" where
  [js_eval]: "shanghaiMidnight isoDate = isoDate @ ''T00:00:00+08:00''"

definition shanghaiPlanText :: "string \<Rightarrow> string" where
  [js_eval]: "shanghaiPlanText isoDate = isoDate @ '' 00:00:00''"

definition purchaseOrderBackfillRunId :: "(string \<Rightarrow> string) \<Rightarrow> string \<Rightarrow> string \<Rightarrow> int \<Rightarrow> string result" where
  [js_eval]: "purchaseOrderBackfillRunId sha planHash windowKey attempt =
     ebind (ensure (hex64_pattern planHash) TypeError) (\<lambda>_.
     ebind (ensure (hex64_pattern windowKey) TypeError) (\<lambda>_.
     ebind (ensure (1 \<le> attempt \<and> attempt \<le> 99) TypeError) (\<lambda>_.
     ebind (canonical_hash sha (JObj [(''planHash'', JStr planHash), (''windowKey'', JStr windowKey)])) (\<lambda>h.
     Inr (''bfpo-'' @ take 32 h @ ''-a'' @ show_pad 2 (nat attempt))))))"

record supply_call =
  cal_stores :: string
  cal_domains :: string
  cal_mode :: string
  cal_backfillStart :: string
  cal_backfillEnd :: string
  cal_now :: int
  cal_runId :: string

type_synonym 'env supply_sync = "supply_call \<Rightarrow> 'env \<Rightarrow> fetch_reply \<times> 'env"

text \<open>
  The guards of \<open>fetchWindow\<close>, in their order, and the call they lead to. The clock gives no time
  when it returns an invalid date.
\<close>

definition supply_call_of ::
    "(string \<Rightarrow> string) \<Rightarrow> string list \<Rightarrow> int option \<Rightarrow> fetch_request \<Rightarrow> fetch_reply + supply_call" where
  [js_eval]: "supply_call_of sha authorizedStores now req =
     ebind (ensure (fr_domain req = EXECUTABLE_BACKFILL_DOMAIN)
       (reject ''BACKFILL_DOMAIN_NOT_EXECUTABLE'' [(''domain'', JStr (fr_domain req))])) (\<lambda>_.
     let store = js_upper (js_trim (fr_storeCode req)) in
     ebind (ensure (store \<in> set authorizedStores) (reject ''BACKFILL_STORE_NOT_AUTHORIZED'' [])) (\<lambda>_.
     case (business_date_ms (fr_windowStart req), business_date_ms (fr_windowEnd req)) of
       (Some start, Some until) \<Rightarrow>
         ebind (ensure (until - start = ms_per_day) (reject ''BACKFILL_WINDOW_NOT_ONE_DAY''
           [(''windowStart'', JStr (fr_windowStart req)), (''windowEnd'', JStr (fr_windowEnd req))])) (\<lambda>_.
         case purchaseOrderBackfillRunId sha (fr_planHash req) (fr_windowKey req) (fr_attempt req) of
           Inl _ \<Rightarrow> Inl (reject ''BACKFILL_ATTEMPT_INVALID'' [])
         | Inr runId \<Rightarrow>
           (case now of None \<Rightarrow> Inl (reject ''BACKFILL_WINDOW_INVALID'' [])
            | Some t \<Rightarrow>
              ebind (ensure (until - 28800000 \<le> t) (reject ''BACKFILL_WINDOW_END_AFTER_NOW''
                [(''windowEnd'', JStr (fr_windowEnd req))])) (\<lambda>_.
              Inr \<lparr>cal_stores = store, cal_domains = EXECUTABLE_BACKFILL_DOMAIN, cal_mode = ''BACKFILL'',
                   cal_backfillStart = shanghaiMidnight (fr_windowStart req),
                   cal_backfillEnd = shanghaiMidnight (fr_windowEnd req), cal_now = t, cal_runId = runId\<rparr>)))
     | _ \<Rightarrow> Inl (reject ''BACKFILL_WINDOW_INVALID'' [])))"

section \<open>Reading the evidence\<close>

text \<open>The code of the first fact a window plan fails to show, if any.\<close>

definition verifyPurchasePlan :: "jsv \<Rightarrow> string \<Rightarrow> string \<Rightarrow> string option" where
  [js_eval]: "verifyPurchasePlan plan expectedStart expectedEnd =
     (if \<not> is_object plan then Some ''PURCHASE_WINDOW_PLAN_MISMATCH''
      else if jget plan ''mode'' \<noteq> JStr ''BACKFILL'' \<or> jget plan ''field'' \<noteq> JStr ''updateTime'' \<or>
        jget plan ''timezone'' \<noteq> JStr ''Asia/Shanghai'' \<or> jget plan ''start'' \<noteq> JStr expectedStart \<or>
        jget plan ''end'' \<noteq> JStr expectedEnd
      then Some ''PURCHASE_WINDOW_PLAN_MISMATCH''
      else case as_array (jget plan ''windows'') of
        Some [window] \<Rightarrow>
          if jget window ''start'' \<noteq> JStr expectedStart \<or> jget window ''end'' \<noteq> JStr expectedEnd
          then Some ''PURCHASE_WINDOW_PLAN_MISMATCH''
          else if jget plan ''completeRequestedRange'' \<noteq> JBool True then Some ''PURCHASE_REQUESTED_RANGE_INCOMPLETE''
          else if jget plan ''completeHistoricalCoverage'' \<noteq> JBool False then Some ''PURCHASE_HISTORICAL_COVERAGE_CLAIMED''
          else None
      | _ \<Rightarrow> Some ''PURCHASE_WINDOW_COUNT_NOT_ONE'')"

definition plan_verified :: "jsv \<Rightarrow> fetch_request \<Rightarrow> fetch_reply + unit" where
  [js_eval]: "plan_verified plan req =
     (case verifyPurchasePlan plan (shanghaiPlanText (fr_windowStart req)) (shanghaiPlanText (fr_windowEnd req)) of
        None \<Rightarrow> Inr ()
      | Some c \<Rightarrow> Inl (reject c [(''windowStart'', JStr (fr_windowStart req)), (''windowEnd'', JStr (fr_windowEnd req))]))"

definition count_json :: "nat \<Rightarrow> jsv" where
  [js_eval]: "count_json n = JNum (NInt (int n))"

text \<open>The envelope of the summary: shape, mode, scope, store and observation instant.\<close>

definition store_result_of :: "supply_call \<Rightarrow> jsv \<Rightarrow> fetch_reply + jsv" where
  [js_eval]: "store_result_of call summary =
     (case (if is_object summary then as_array (jget summary ''results'') else None) of
        None \<Rightarrow> Inl (reject ''SUPPLY_SYNC_RESULT_SHAPE_INVALID'' [])
      | Some results \<Rightarrow>
        ebind (ensure (jget summary ''mode'' = JStr ''BACKFILL'') (reject ''SUPPLY_SYNC_MODE_NOT_BACKFILL'' [])) (\<lambda>_.
        ebind (ensure (jget summary ''domains'' = JArr [JStr EXECUTABLE_BACKFILL_DOMAIN])
          (reject ''SUPPLY_SYNC_DOMAIN_SCOPE_WIDER''
            [(''domainCount'', case as_array (jget summary ''domains'') of None \<Rightarrow> JNull | Some ds \<Rightarrow> count_json (length ds))])) (\<lambda>_.
        case results of
          [storeResult] \<Rightarrow>
            ebind (ensure (jget storeResult ''storeCode'' = JStr (cal_stores call)) (reject ''SUPPLY_SYNC_STORE_MISMATCH'' [])) (\<lambda>_.
            ebind (ensure (jget summary ''sourceFetchedAt'' = JStr (to_iso_string (cal_now call)))
              (reject ''SUPPLY_OBSERVATION_INSTANT_MISMATCH'' [])) (\<lambda>_.
            Inr storeResult))
        | _ \<Rightarrow> Inl (reject ''SUPPLY_SYNC_STORE_COUNT_NOT_ONE'' [(''storeResultCount'', count_json (length results))]))))"

definition domain_result_of :: "jsv \<Rightarrow> fetch_reply + jsv" where
  [js_eval]: "domain_result_of storeResult =
     (case as_array (jget storeResult ''domains'') of
        None \<Rightarrow> Inl (reject ''SUPPLY_SYNC_RESULT_SHAPE_INVALID'' [])
      | Some entries \<Rightarrow>
        (case filter (\<lambda>e. jget e ''domain'' = JStr EXECUTABLE_BACKFILL_DOMAIN) entries of
           [domainResult] \<Rightarrow>
             ebind (if jget domainResult ''status'' = JStr ''loaded'' then Inr ()
                else ebind (text_of (coalesce (jget domainResult ''status'') (JStr ''unknown''))) (\<lambda>s.
                  Inl (reject ''PURCHASE_DOMAIN_NOT_LOADED'' [(''status'', JStr s)]))) (\<lambda>_.
             ebind (ensure (jget domainResult ''mode'' = JStr ''BACKFILL'') (reject ''SUPPLY_SYNC_MODE_NOT_BACKFILL'' [])) (\<lambda>_.
             ebind (if jget domainResult ''terminalReason'' = JStr PURCHASE_ORDER_TERMINAL_REASON then Inr ()
                else ebind (text_of (coalesce (jget domainResult ''terminalReason'') (JStr ''none''))) (\<lambda>s.
                  Inl (reject ''PURCHASE_TERMINAL_PAGE_NOT_PROVEN'' [(''terminalReason'', JStr s)]))) (\<lambda>_.
             Inr domainResult)))
         | found \<Rightarrow> ebind (upper_code (jget storeResult ''errorCode'')) (\<lambda>c.
             Inl (reject (if sanitized_code_pattern c then c else ''PURCHASE_DOMAIN_RESULT_MISSING'')
               [(''domainResultCount'', count_json (length found))]))))"

definition persisted_counts :: "jsv \<Rightarrow> jsv list" where
  [js_eval]: "persisted_counts storeResult =
     filter (\<lambda>v. v \<noteq> JUndef) (map (\<lambda>entry. jget (jget entry ''counts'') ''purchaseOrderCount'')
       (case as_array (jget storeResult ''warehouseLoads'') of None \<Rightarrow> [] | Some es \<Rightarrow> es))"

definition persisted_of :: "jsv \<Rightarrow> int \<Rightarrow> fetch_reply + int" where
  [js_eval]: "persisted_of storeResult recordCount =
     (let counts = persisted_counts storeResult;
          missing = reject ''PURCHASE_PERSISTED_COUNT_EVIDENCE_MISSING'' [(''persistedCountEntries'', count_json (length counts))]
      in case counts of
           [v] \<Rightarrow> (case unit_count v of None \<Rightarrow> Inl missing
             | Some persisted \<Rightarrow> ebind (ensure (persisted = recordCount) (reject ''PURCHASE_PERSISTED_COUNT_MISMATCH''
                 [(''recordCount'', JNum (NInt recordCount)), (''persistedRowCount'', JNum (NInt persisted))])) (\<lambda>_.
                 Inr persisted))
         | _ \<Rightarrow> Inl missing)"

definition count_of_field :: "jsv \<Rightarrow> string \<Rightarrow> string \<Rightarrow> fetch_reply + int" where
  [js_eval]: "count_of_field v k c =
     (case unit_count (jget v k) of None \<Rightarrow> Inl (reject c []) | Some n \<Rightarrow> Inr n)"

text \<open>The evidence as a whole: the number of records, of pages and of persisted rows.\<close>

definition supply_evidence :: "fetch_request \<Rightarrow> supply_call \<Rightarrow> jsv \<Rightarrow> fetch_reply + int \<times> int \<times> int" where
  [js_eval]: "supply_evidence req call summary =
     ebind (store_result_of call summary) (\<lambda>storeResult.
     ebind (plan_verified (jget (jget summary ''windows'') ''purchaseOrders'') req) (\<lambda>_.
     ebind (domain_result_of storeResult) (\<lambda>domainResult.
     ebind (plan_verified (jget domainResult ''window'') req) (\<lambda>_.
     ebind (count_of_field domainResult ''recordCount'' ''PURCHASE_RECORD_COUNT_INVALID'') (\<lambda>records.
     ebind (count_of_field domainResult ''pageCount'' ''PURCHASE_PAGE_COUNT_INVALID'') (\<lambda>pages.
     ebind (ensure (jget (jget summary ''coverageGate'') ''requestedRangeLoaded'' = JBool True)
       (reject ''PURCHASE_REQUESTED_RANGE_NOT_LOADED'' [])) (\<lambda>_.
     ebind (ensure (jget (jget summary ''coverageGate'') ''historicalCompletenessClaimed'' = JBool False)
       (reject ''PURCHASE_HISTORICAL_COVERAGE_CLAIMED'' [])) (\<lambda>_.
     ebind (persisted_of storeResult records) (\<lambda>persisted.
     Inr (records, pages, persisted))))))))))"

section \<open>The adapter\<close>

definition passing_result :: "string \<Rightarrow> string \<Rightarrow> string \<Rightarrow> int \<times> int \<times> int \<Rightarrow> nat \<Rightarrow> jsv" where
  [js_eval]: "passing_result fingerprint windowStart runId counts delegations =
     (case counts of (records, pages, persisted) \<Rightarrow> JObj
       [(''ok'', JBool True), (''acceptedRowCount'', JNum (NInt records)), (''persistedRowCount'', JNum (NInt persisted)),
        (''rejectedRowCount'', JNum (NInt 0)), (''illegalDecimalCount'', JNum (NInt 0)),
        (''unknownMetricCount'', JNum (NInt 0)), (''expectedPageCount'', JNum (NInt pages)),
        (''observedPageCount'', JNum (NInt pages)), (''schemaFingerprint'', JStr fingerprint),
        (''sourceBusinessWatermark'', JStr windowStart), (''businessDates'', JArr []), (''supplyRunId'', JStr runId),
        (''delegationCount'', count_json delegations)])"

text \<open>The adapter's own state is the number of its calls; beside it stands what the calls act on.\<close>

record 'env adapter_state =
  as_delegationCount :: nat
  as_env :: 'env

record 'env po_adapter =
  pa_sync :: "'env supply_sync"
  pa_clock :: "'env \<Rightarrow> int option"
  pa_digest :: "string \<Rightarrow> string"
  pa_stores :: "string list"
  pa_schemaFingerprint :: string

definition fetchWindow :: "'env po_adapter \<Rightarrow> 'env adapter_state adapter" where
  [js_eval]: "fetchWindow A req st =
     (case supply_call_of (pa_digest A) (pa_stores A) (pa_clock A (as_env st)) req of
        Inl reply \<Rightarrow> (reply, st)
      | Inr call \<Rightarrow>
        (case pa_sync A call (as_env st) of (reply, env') \<Rightarrow>
          (let n = Suc (as_delegationCount st) in
           ((case reply of
               Threw c \<Rightarrow> (case upper_code c of Inl r \<Rightarrow> r
                 | Inr s \<Rightarrow> reject (if sanitized_code_pattern s then s else ''SUPPLY_SYNC_DELEGATE_THREW'') [])
             | Returned summary \<Rightarrow> (case supply_evidence req call summary of Inl r \<Rightarrow> r
                 | Inr counts \<Rightarrow> Returned (passing_result (pa_schemaFingerprint A) (fr_windowStart req) (cal_runId call) counts n))),
            \<lparr>as_delegationCount = n, as_env = env'\<rparr>))))"

definition authorized_stores :: "jsv \<Rightarrow> string list result" where
  [js_eval]: "authorized_stores v =
     ebind (emap (\<lambda>i. ebind (js_string_or_empty i) (\<lambda>s. Inr (js_upper (js_trim s))))
       (case as_array v of None \<Rightarrow> [] | Some items \<Rightarrow> items)) (\<lambda>ss. Inr (filter (\<lambda>s. s \<noteq> []) (dedupe ss)))"

text \<open>The fingerprint is computed when the module loads, before any adapter is made.\<close>

definition createPurchaseOrderBackfillAdapter ::
    "(string \<Rightarrow> string) \<Rightarrow> 'env supply_sync \<Rightarrow> ('env \<Rightarrow> int option) \<Rightarrow> jsv \<Rightarrow> jsv \<Rightarrow> jsv \<Rightarrow>
     'env po_adapter result" where
  [js_eval]: "createPurchaseOrderBackfillAdapter sha runSupplySync clock config databaseUrl allowedStoreCodes =
     ebind (PURCHASE_ORDER_ADAPTER_SCHEMA_FINGERPRINT sha) (\<lambda>fingerprint.
     ebind (ensure (is_object config) TypeError) (\<lambda>_.
     ebind (ensure (case as_string databaseUrl of None \<Rightarrow> False | Some u \<Rightarrow> js_trim u \<noteq> []) TypeError) (\<lambda>_.
     ebind (authorized_stores allowedStoreCodes) (\<lambda>stores.
     ebind (ensure (stores \<noteq> [] \<and> list_all store_code_pattern stores) TypeError) (\<lambda>_.
     ebind (ensure (case BACKFILL_DOMAIN_CATALOG EXECUTABLE_BACKFILL_DOMAIN of None \<Rightarrow> False
        | Some c \<Rightarrow> cap_status c = VERIFIED \<and> cap_adapterKey c = PURCHASE_ORDER_BACKFILL_ADAPTER_KEY \<and>
            cap_maxWindowSpanDays c = 1) TypeError) (\<lambda>_.
     Inr \<lparr>pa_sync = runSupplySync, pa_clock = clock, pa_digest = sha, pa_stores = stores,
          pa_schemaFingerprint = fingerprint\<rparr>))))))"

end
