(* ===== verification/Adapter_Properties.thy ===== *)
theory Adapter_Properties
  imports Purchase_Order_Adapter
begin

text \<open>
  What the purchase-order adapter promises: the call it makes is bounded, and the gate accepts its
  result only on the full evidence. The evidence is stated here as one conjunction of facts of the
  summary, without the order of the checks and without their codes.
\<close>

section \<open>The call\<close>

text \<open>The call that a request leads to: one day, over in Shanghai, of one authorized store.\<close>

definition call_admitted :: "'env po_adapter \<Rightarrow> fetch_request \<Rightarrow> 'env \<Rightarrow> supply_call \<Rightarrow> bool" where
  "call_admitted A req env call \<longleftrightarrow>
     fr_domain req = ''purchase-orders'' \<and> 1 \<le> fr_attempt req \<and> fr_attempt req \<le> 99 \<and>
     cal_stores call = js_upper (js_trim (fr_storeCode req)) \<and> cal_stores call \<in> set (pa_stores A) \<and>
     cal_domains call = ''purchase-orders'' \<and> cal_mode call = ''BACKFILL'' \<and>
     cal_backfillStart call = fr_windowStart req @ ''T00:00:00+08:00'' \<and>
     cal_backfillEnd call = fr_windowEnd req @ ''T00:00:00+08:00'' \<and>
     (\<exists>day. business_date_ms (fr_windowStart req) = Some day \<and>
        business_date_ms (fr_windowEnd req) = Some (day + ms_per_day) \<and>
        day + ms_per_day - 28800000 \<le> cal_now call) \<and>
     pa_clock A env = Some (cal_now call) \<and>
     purchaseOrderBackfillRunId (pa_digest A) (fr_planHash req) (fr_windowKey req) (fr_attempt req) = Inr (cal_runId call)"

lemma run_id_attempt:
  "purchaseOrderBackfillRunId sha h k n = Inr r \<Longrightarrow> 1 \<le> n \<and> n \<le> 99"
  unfolding purchaseOrderBackfillRunId_def by (elim ebind_InrE) simp

text \<open>The run id: a prefix, half a digest of the plan and the window, and the attempt.\<close>

lemma run_id_Inr:
  assumes "hex64_pattern h" "hex64_pattern k" "1 \<le> n" "n \<le> 99"
  shows "\<exists>t. purchaseOrderBackfillRunId sha h k n = Inr (''bfpo-'' @ take 32 (sha t) @ ''-a'' @ show_pad 2 (nat n))"
  using assms by (simp add: purchaseOrderBackfillRunId_def canonical_hash_def defined_fields_def) blast

lemma supply_call_iff:
  "supply_call_of (pa_digest A) (pa_stores A) (pa_clock A env) req = Inr call \<longleftrightarrow> call_admitted A req env call"
proof
  assume "supply_call_of (pa_digest A) (pa_stores A) (pa_clock A env) req = Inr call"
  then show "call_admitted A req env call"
    unfolding supply_call_of_def Let_def call_admitted_def
    by (auto elim!: ebind_InrE dest: run_id_attempt split: option.splits sum.splits
        simp: EXECUTABLE_BACKFILL_DOMAIN_def shanghaiMidnight_def algebra_simps)
next
  assume "call_admitted A req env call"
  then show "supply_call_of (pa_digest A) (pa_stores A) (pa_clock A env) req = Inr call"
    unfolding supply_call_of_def Let_def call_admitted_def
    by (auto simp: EXECUTABLE_BACKFILL_DOMAIN_def shanghaiMidnight_def)
qed

lemma reject_of_verdict:
  "supply_call_of sha ss now req = Inl reply \<Longrightarrow> \<exists>c details. reply = reject c details"
  unfolding supply_call_of_def Let_def
  by (auto simp: ebind_Inl_iff split: option.splits sum.splits)

lemma fetch_cases:
  assumes "fetchWindow A req st = (reply, st')"
  obtains (Refused) c details where "st' = st" "reply = reject c details" "\<And>call. \<not> call_admitted A req (as_env st) call"
  | (Called) call r where "call_admitted A req (as_env st) call" "pa_sync A call (as_env st) = (r, as_env st')"
      "as_delegationCount st' = Suc (as_delegationCount st)"
proof (cases "supply_call_of (pa_digest A) (pa_stores A) (pa_clock A (as_env st)) req")
  case (Inl r)
  then have "st' = st" "reply = r" using assms by (auto simp: fetchWindow_def)
  then show ?thesis using Refused reject_of_verdict [OF Inl] supply_call_iff [of A "as_env st" req] Inl
    by (metis Inl_Inr_False)
next
  case (Inr call)
  obtain r env' where s: "pa_sync A call (as_env st) = (r, env')" by fastforce
  have "call_admitted A req (as_env st) call" using Inr unfolding supply_call_iff .
  moreover have "st' = \<lparr>as_delegationCount = Suc (as_delegationCount st), as_env = env'\<rparr>"
    using assms Inr s by (auto simp: fetchWindow_def Let_def)
  ultimately show ?thesis using Called [of call r] s by simp
qed

section \<open>The evidence\<close>

definition plan_exact :: "jsv \<Rightarrow> fetch_request \<Rightarrow> bool" where
  "plan_exact plan req \<longleftrightarrow>
     jget plan ''mode'' = JStr ''BACKFILL'' \<and> jget plan ''field'' = JStr ''updateTime'' \<and>
     jget plan ''timezone'' = JStr ''Asia/Shanghai'' \<and>
     jget plan ''start'' = JStr (fr_windowStart req @ '' 00:00:00'') \<and>
     jget plan ''end'' = JStr (fr_windowEnd req @ '' 00:00:00'') \<and>
     (\<exists>w. jget plan ''windows'' = JArr [w] \<and> jget w ''start'' = jget plan ''start'' \<and> jget w ''end'' = jget plan ''end'') \<and>
     jget plan ''completeRequestedRange'' = JBool True \<and> jget plan ''completeHistoricalCoverage'' = JBool False"

definition day_proved :: "fetch_request \<Rightarrow> supply_call \<Rightarrow> jsv \<Rightarrow> int \<Rightarrow> int \<Rightarrow> bool" where
  "day_proved req call summary records pages \<longleftrightarrow>
     jget summary ''mode'' = JStr ''BACKFILL'' \<and> jget summary ''domains'' = JArr [JStr ''purchase-orders''] \<and>
     jget summary ''sourceFetchedAt'' = JStr (to_iso_string (cal_now call)) \<and>
     plan_exact (jget (jget summary ''windows'') ''purchaseOrders'') req \<and>
     jget (jget summary ''coverageGate'') ''requestedRangeLoaded'' = JBool True \<and>
     jget (jget summary ''coverageGate'') ''historicalCompletenessClaimed'' = JBool False \<and>
     (\<exists>store entries entry. jget summary ''results'' = JArr [store] \<and> jget store ''storeCode'' = JStr (cal_stores call) \<and>
        jget store ''domains'' = JArr entries \<and>
        filter (\<lambda>e. jget e ''domain'' = JStr ''purchase-orders'') entries = [entry] \<and>
        jget entry ''status'' = JStr ''loaded'' \<and> jget entry ''mode'' = JStr ''BACKFILL'' \<and>
        jget entry ''terminalReason'' = JStr ''ALL_WINDOWS_REACHED_TERMINAL_PAGE'' \<and>
        plan_exact (jget entry ''window'') req \<and>
        unit_count (jget entry ''recordCount'') = Some records \<and> unit_count (jget entry ''pageCount'') = Some pages \<and>
        persisted_counts store = [JNum (NInt records)])"

lemma get_no_object [simp]: "\<not> is_object v \<Longrightarrow> jget v k = JUndef"
  by (cases v) auto

lemma only_element_None:
  "(case m of Some [w] \<Rightarrow> f w | _ \<Rightarrow> Some c) = None \<longleftrightarrow> (\<exists>w. m = Some [w] \<and> f w = None)"
  by (auto split: option.split list.split)

lemma if_Some_None: "(if b then Some c else m) = None \<longleftrightarrow> \<not> b \<and> m = None"
  by simp

lemma verify_None_iff:
  "verifyPurchasePlan plan s e = None \<longleftrightarrow>
     is_object plan \<and> jget plan ''mode'' = JStr ''BACKFILL'' \<and> jget plan ''field'' = JStr ''updateTime'' \<and>
     jget plan ''timezone'' = JStr ''Asia/Shanghai'' \<and> jget plan ''start'' = JStr s \<and> jget plan ''end'' = JStr e \<and>
     (\<exists>w. jget plan ''windows'' = JArr [w] \<and> jget w ''start'' = JStr s \<and> jget w ''end'' = JStr e) \<and>
     jget plan ''completeRequestedRange'' = JBool True \<and> jget plan ''completeHistoricalCoverage'' = JBool False"
  unfolding verifyPurchasePlan_def only_element_None if_Some_None as_array_Some_iff by blast

lemma plan_verified_iff: "plan_verified plan req = Inr u \<longleftrightarrow> plan_exact plan req"
proof -
  have "plan_verified plan req = Inr u \<longleftrightarrow>
      verifyPurchasePlan plan (shanghaiPlanText (fr_windowStart req)) (shanghaiPlanText (fr_windowEnd req)) = None"
    by (simp add: plan_verified_def split: option.split)
  also have "\<dots> \<longleftrightarrow> plan_exact plan req"
    unfolding verify_None_iff plan_exact_def shanghaiPlanText_def
    using get_no_object [of plan "''mode''"] by (metis jsv.distinct(7))
  finally show ?thesis .
qed

lemma store_result_iff:
  "store_result_of call summary = Inr store \<longleftrightarrow>
     jget summary ''mode'' = JStr ''BACKFILL'' \<and> jget summary ''domains'' = JArr [JStr ''purchase-orders''] \<and>
     jget summary ''results'' = JArr [store] \<and> jget store ''storeCode'' = JStr (cal_stores call) \<and>
     jget summary ''sourceFetchedAt'' = JStr (to_iso_string (cal_now call))"
proof (cases "is_object summary")
  case True
  then show ?thesis
    by (auto simp: store_result_of_def ebind_Inr_iff EXECUTABLE_BACKFILL_DOMAIN_def split: option.splits list.splits)
qed (simp add: store_result_of_def)

lemma domain_result_iff:
  "domain_result_of store = Inr entry \<longleftrightarrow>
     (\<exists>entries. jget store ''domains'' = JArr entries \<and>
        filter (\<lambda>e. jget e ''domain'' = JStr ''purchase-orders'') entries = [entry]) \<and>
     jget entry ''status'' = JStr ''loaded'' \<and> jget entry ''mode'' = JStr ''BACKFILL'' \<and>
     jget entry ''terminalReason'' = JStr ''ALL_WINDOWS_REACHED_TERMINAL_PAGE''"
  unfolding domain_result_of_def
  by (auto simp: ebind_Inr_iff EXECUTABLE_BACKFILL_DOMAIN_def PURCHASE_ORDER_TERMINAL_REASON_def
      split: option.splits list.splits if_splits)

lemma persisted_iff:
  "persisted_of store records = Inr n \<longleftrightarrow>
     n = records \<and> persisted_counts store = [JNum (NInt records)] \<and> 0 \<le> records \<and> records \<le> max_safe"
proof -
  have u: "unit_count (JNum (NInt k)) = (if 0 \<le> k \<and> k \<le> max_safe then Some k else None)" for k
    by (simp add: unit_count_def)
  show ?thesis unfolding persisted_of_def Let_def
    by (auto simp: ebind_Inr_iff unit_count_Some_iff u split: option.splits list.splits)
qed

lemma count_of_field_iff: "count_of_field v k c = Inr n \<longleftrightarrow> unit_count (jget v k) = Some n"
  by (auto simp: count_of_field_def split: option.splits)

lemma evidence_iff:
  "supply_evidence req call summary = Inr (records, pages, persisted) \<longleftrightarrow>
     persisted = records \<and> day_proved req call summary records pages"
proof -
  have "supply_evidence req call summary = Inr (records, pages, persisted) \<longleftrightarrow>
    (\<exists>store entry. store_result_of call summary = Inr store \<and>
       plan_exact (jget (jget summary ''windows'') ''purchaseOrders'') req \<and>
       domain_result_of store = Inr entry \<and> plan_exact (jget entry ''window'') req \<and>
       unit_count (jget entry ''recordCount'') = Some records \<and> unit_count (jget entry ''pageCount'') = Some pages \<and>
       jget (jget summary ''coverageGate'') ''requestedRangeLoaded'' = JBool True \<and>
       jget (jget summary ''coverageGate'') ''historicalCompletenessClaimed'' = JBool False \<and>
       persisted_of store records = Inr persisted)"
    unfolding supply_evidence_def ebind_Inr_iff plan_verified_iff count_of_field_iff ensure_Inr_iff by blast
  also have "\<dots> \<longleftrightarrow> persisted = records \<and> day_proved req call summary records pages"
    unfolding store_result_iff domain_result_iff persisted_iff day_proved_def unit_count_Some_iff by blast
  finally show ?thesis .
qed

section \<open>The gate on what the adapter returns\<close>

text \<open>Every early return is a rejection, or the error of a conversion to text.\<close>

definition refused :: "fetch_reply \<Rightarrow> bool" where
  "refused r \<longleftrightarrow> r = Threw JUndef \<or> (\<exists>c details. r = reject c details)"

definition refusing :: "fetch_reply + 'a \<Rightarrow> bool" where
  "refusing m \<longleftrightarrow> (\<forall>r. m = Inl r \<longrightarrow> refused r)"

named_theorems refusal "early returns are rejections"

lemma refusing_intros [refusal]:
  "refusing (Inr v)"
  "refusing (Inl (reject c details))"
  "refusing (ensure b (reject c details))"
  "refusing m \<Longrightarrow> (\<And>v. refusing (f v)) \<Longrightarrow> refusing (ebind m f)"
  by (auto simp: refusing_def refused_def ensure_def ebind_Inl_iff)

lemma refusing_text [refusal]: "refusing (text_of v)"
  by (simp add: refusing_def refused_def text_of_def split: sum.split)

lemma refusing_store [refusal]: "refusing (store_result_of call summary)"
  unfolding store_result_of_def by (auto intro!: refusal split: option.split list.split)

lemma refusing_domain [refusal]: "refusing (domain_result_of store)"
  unfolding domain_result_of_def upper_code_def by (auto intro!: refusal split: option.split list.split)

lemma refusing_evidence: "refusing (supply_evidence req call summary)"
  unfolding supply_evidence_def plan_verified_def count_of_field_def persisted_of_def Let_def
  by (auto intro!: refusal split: option.split list.split)

lemma refused_not_passed: "refused (Returned v) \<Longrightarrow> \<not> out_advanceable (evaluateWindowOutcome w v ck)"
  by (auto simp: refused_def reject_def gate_passes_iff window_proved_def)

lemma gate_on_passing:
  assumes "business_date_ms start = Some day" and "start < win_windowEnd w" and "win_windowStart w = start"
    and "0 \<le> records" "records \<le> max_safe" "0 \<le> pages" "pages \<le> max_safe"
  shows "out_advanceable (evaluateWindowOutcome w (passing_result fp start runId (records, pages, records) k) ck) \<longleftrightarrow>
    win_capabilityStatus w = VERIFIED \<and> records \<le> win_maxRowsPerWindow w \<and> pages \<le> win_maxPagesPerWindow w \<and>
    hex64_pattern fp \<and> \<not> fingerprint_drift ck (Some fp)"
proof -
  have u: "unit_count (JNum (NInt k)) = (if 0 \<le> k \<and> k \<le> max_safe then Some k else None)" for k
    by (simp add: unit_count_def)
  have "0 \<le> max_safe" by (simp add: max_safe_def)
  then show ?thesis
    unfolding gate_passes_iff window_proved_def passing_result_def
    using assms by (auto simp: u raw_business_dates_def)
qed

lemma fetch_reply:
  assumes "fetchWindow A req st = (reply, st')" and "\<not> refused reply"
  obtains call summary records pages where "call_admitted A req (as_env st) call"
    "pa_sync A call (as_env st) = (Returned summary, as_env st')" "day_proved req call summary records pages"
    "reply = Returned (passing_result (pa_schemaFingerprint A) (fr_windowStart req) (cal_runId call)
       (records, pages, records) (as_delegationCount st'))"
proof -
  have "refused reply" if "supply_call_of (pa_digest A) (pa_stores A) (pa_clock A (as_env st)) req = Inl reply"
    using reject_of_verdict [OF that] by (auto simp: refused_def)
  then obtain call where call: "supply_call_of (pa_digest A) (pa_stores A) (pa_clock A (as_env st)) req = Inr call"
    using assms by (auto simp: fetchWindow_def split: sum.splits)
  obtain r env' where s: "pa_sync A call (as_env st) = (r, env')" by fastforce
  have refused_code: "refused (case upper_code c of Inl r \<Rightarrow> r | Inr s \<Rightarrow> reject (f s) [])" for c and f :: "string \<Rightarrow> string"
    using refusing_text [of "coalesce c (JStr [])"]
    by (auto simp: upper_code_def refusing_def refused_def ebind_Inl_iff split: sum.split)
  obtain summary where r: "r = Returned summary"
    using assms call s refused_code by (cases r) (auto simp: fetchWindow_def Let_def)
  obtain records pages persisted where e: "supply_evidence req call summary = Inr (records, pages, persisted)"
    using assms call s r refusing_evidence [of req call summary]
    by (cases "supply_evidence req call summary") (auto simp: fetchWindow_def Let_def refusing_def)
  show ?thesis
    by (rule that [of call summary records pages])
      (use assms(1) call s r e in \<open>auto simp: fetchWindow_def Let_def supply_call_iff evidence_iff\<close>)
qed

section \<open>Properties\<close>

text \<open>
  C12. The gate accepts what the adapter returns for a window exactly when the request was admitted
  (the purchase-order domain, an authorized store, one day that is over in Shanghai, an attempt from
  1 to 99), the one call of the supply synchronisation returned a summary that proves the day, and
  the counts, the capability and the fingerprint pass the bounds of the window. Nothing else the
  synchronisation returns or throws moves a checkpoint.
\<close>

theorem adapter_passes_proven_days_only:
  "(case fetchWindow A (fetch_request_of planHash w ordinal cited) st of
      (Returned v, _) \<Rightarrow> out_advanceable (evaluateWindowOutcome w v ck) | (Threw _, _) \<Rightarrow> False) \<longleftrightarrow>
   (\<exists>call summary env' records pages.
      call_admitted A (fetch_request_of planHash w ordinal cited) (as_env st) call \<and>
      pa_sync A call (as_env st) = (Returned summary, env') \<and>
      day_proved (fetch_request_of planHash w ordinal cited) call summary records pages \<and>
      win_capabilityStatus w = VERIFIED \<and> records \<le> win_maxRowsPerWindow w \<and> pages \<le> win_maxPagesPerWindow w \<and>
      hex64_pattern (pa_schemaFingerprint A) \<and> \<not> fingerprint_drift ck (Some (pa_schemaFingerprint A)))"
proof -
  let ?req = "fetch_request_of planHash w ordinal cited"
  obtain reply st' where f: "fetchWindow A ?req st = (reply, st')" by fastforce
  have gate: "out_advanceable (evaluateWindowOutcome w (passing_result (pa_schemaFingerprint A) (fr_windowStart ?req)
        (cal_runId call) (records, pages, records) k) ck) \<longleftrightarrow>
      win_capabilityStatus w = VERIFIED \<and> records \<le> win_maxRowsPerWindow w \<and> pages \<le> win_maxPagesPerWindow w \<and>
      hex64_pattern (pa_schemaFingerprint A) \<and> \<not> fingerprint_drift ck (Some (pa_schemaFingerprint A))"
    if c: "call_admitted A ?req (as_env st) call" and d: "day_proved ?req call summary records pages"
    for call summary records pages k
  proof -
    obtain day where day: "business_date_ms (win_windowStart w) = Some day"
        "business_date_ms (win_windowEnd w) = Some (day + ms_per_day)"
      using c by (auto simp: call_admitted_def fetch_request_of_def)
    have "win_windowStart w < win_windowEnd w" using business_date_less_iff [OF day] by (simp add: ms_per_day_def)
    then show ?thesis using d day
      by (intro gate_on_passing) (auto simp: day_proved_def fetch_request_of_def unit_count_Some_iff)
  qed
  show ?thesis (is "?L \<longleftrightarrow> ?R")
  proof
    assume ?L
    then have "\<not> refused reply" using f refused_not_passed by (auto split: fetch_reply.splits)
    then obtain call summary records pages where *: "call_admitted A ?req (as_env st) call"
      "pa_sync A call (as_env st) = (Returned summary, as_env st')" "day_proved ?req call summary records pages"
      "reply = Returned (passing_result (pa_schemaFingerprint A) (fr_windowStart ?req) (cal_runId call)
         (records, pages, records) (as_delegationCount st'))"
      using fetch_reply [OF f] by blast
    then show ?R using \<open>?L\<close> f gate [OF *(1,3)] by auto
  next
    assume ?R
    then obtain call summary env' records pages where *: "call_admitted A ?req (as_env st) call"
      "pa_sync A call (as_env st) = (Returned summary, env')" "day_proved ?req call summary records pages"
      and g: "win_capabilityStatus w = VERIFIED" "records \<le> win_maxRowsPerWindow w" "pages \<le> win_maxPagesPerWindow w"
        "hex64_pattern (pa_schemaFingerprint A)" "\<not> fingerprint_drift ck (Some (pa_schemaFingerprint A))"
      by blast
    have "supply_call_of (pa_digest A) (pa_stores A) (pa_clock A (as_env st)) ?req = Inr call"
      "supply_evidence ?req call summary = Inr (records, pages, records)"
      using * by (simp_all add: supply_call_iff evidence_iff)
    then show ?L using gate [OF *(1,3)] g *(2) by (simp add: fetchWindow_def Let_def)
  qed
qed

text \<open>
  A fetch calls the supply synchronisation at most once, and only as admitted: for the trimmed,
  upper-case code of an authorized store, the purchase-order domain in backfill mode, and the two
  Shanghai midnights of one calendar day that is over by the clock. A request that is not admitted
  is answered by a rejection and changes nothing.
\<close>

theorem adapter_calls_past_days_only:
  assumes "fetchWindow A req st = (reply, st')"
  shows "if \<exists>call. call_admitted A req (as_env st) call
    then \<exists>call. call_admitted A req (as_env st) call \<and> as_env st' = snd (pa_sync A call (as_env st)) \<and>
      as_delegationCount st' = as_delegationCount st + 1
    else st' = st \<and> (\<exists>c details. reply = reject c details)"
  using assms by (cases rule: fetch_cases) (metis snd_conv Suc_eq_plus1)+

definition sample_plan_evidence :: "supply_call \<Rightarrow> jsv" where
  [js_eval]: "sample_plan_evidence call =
     (let day = (\<lambda>s. JStr (take 10 s @ '' 00:00:00''));
          span = [(''start'', day (cal_backfillStart call)), (''end'', day (cal_backfillEnd call))]
      in JObj ([(''mode'', JStr ''BACKFILL''), (''field'', JStr ''updateTime''), (''timezone'', JStr ''Asia/Shanghai''),
        (''windows'', JArr [JObj span]), (''completeRequestedRange'', JBool True),
        (''completeHistoricalCoverage'', JBool False)] @ span))"

definition sample_summary :: "supply_call \<Rightarrow> jsv" where
  [js_eval]: "sample_summary call =
     JObj [(''mode'', JStr ''BACKFILL''), (''domains'', JArr [JStr ''purchase-orders'']),
       (''sourceFetchedAt'', JStr (to_iso_string (cal_now call))),
       (''windows'', JObj [(''purchaseOrders'', sample_plan_evidence call)]),
       (''coverageGate'', JObj [(''requestedRangeLoaded'', JBool True), (''historicalCompletenessClaimed'', JBool False)]),
       (''results'', JArr [JObj [(''storeCode'', JStr (cal_stores call)),
         (''domains'', JArr [JObj [(''domain'', JStr ''purchase-orders''), (''status'', JStr ''loaded''),
           (''mode'', JStr ''BACKFILL''), (''terminalReason'', JStr ''ALL_WINDOWS_REACHED_TERMINAL_PAGE''),
           (''window'', sample_plan_evidence call), (''recordCount'', JNum (NInt 3)), (''pageCount'', JNum (NInt 1))]]),
         (''warehouseLoads'', JArr [JObj [(''counts'', JObj [(''purchaseOrderCount'', JNum (NInt 3))])]])]])]"

definition sample_adapter :: "supply_call list po_adapter" where
  [js_eval]: "sample_adapter =
     \<lparr>pa_sync = (\<lambda>call log. (Returned (sample_summary call), log @ [call])), pa_clock = (\<lambda>_. Some 1772500000000),
      pa_digest = (\<lambda>_. replicate 64 CHR ''f''), pa_stores = [''ZS0005''], pa_schemaFingerprint = replicate 64 CHR ''f''\<rparr>"

definition sample_fetch :: fetch_request where
  [js_eval]: "sample_fetch =
     \<lparr>fr_planHash = replicate 64 CHR ''a'', fr_storeCode = '' zs0005'', fr_domain = ''purchase-orders'',
      fr_windowStart = ''2026-02-28'', fr_windowEnd = ''2026-03-01'', fr_windowKey = replicate 64 CHR ''b'',
      fr_maxPages = 200, fr_maxRows = 200000, fr_attempt = 2, fr_checkpoint = None\<rparr>"

definition sample_call :: supply_call where
  [js_eval]: "sample_call =
     \<lparr>cal_stores = ''ZS0005'', cal_domains = ''purchase-orders'', cal_mode = ''BACKFILL'',
      cal_backfillStart = ''2026-02-28T00:00:00+08:00'', cal_backfillEnd = ''2026-03-01T00:00:00+08:00'',
      cal_now = 1772500000000, cal_runId = ''bfpo-'' @ replicate 32 CHR ''f'' @ ''-a02''\<rparr>"

lemma sample_call_admitted: "call_admitted sample_adapter sample_fetch [] sample_call"
proof -
  let ?f = "replicate 64 CHR ''f''"
  have hex: "hex64_pattern (replicate 64 CHR ''a'')" "hex64_pattern (replicate 64 CHR ''b'')" by code_simp+
  have pad: "show_pad 2 2 = ''02''" by code_simp
  have "purchaseOrderBackfillRunId (\<lambda>_. ?f) (replicate 64 CHR ''a'') (replicate 64 CHR ''b'') 2 = Inr (cal_runId sample_call)"
    using run_id_Inr [OF hex, of 2 "\<lambda>_. ?f"] by (simp add: sample_call_def pad)
  moreover have "business_date_ms ''2026-02-28'' = Some 1772236800000" "business_date_ms ''2026-03-01'' = Some 1772323200000"
    "js_upper (js_trim '' zs0005'') = ''ZS0005''" by code_simp+
  ultimately show ?thesis
    by (simp add: call_admitted_def sample_fetch_def sample_adapter_def sample_call_def ms_per_day_def)
qed

lemma sample_day_proved: "day_proved sample_fetch sample_call (sample_summary sample_call) 3 1"
  by (simp add: day_proved_def plan_exact_def sample_fetch_def sample_summary_def sample_plan_evidence_def
      sample_call_def Let_def unit_count_def max_safe_def persisted_counts_def)

theorem adapter_calls_past_days_only_witness:
  "case fetchWindow sample_adapter sample_fetch \<lparr>as_delegationCount = 4, as_env = []\<rparr> of
     (reply, st') \<Rightarrow> as_delegationCount st' = 5"
proof -
  obtain reply st' where f: "fetchWindow sample_adapter sample_fetch \<lparr>as_delegationCount = 4, as_env = []\<rparr> = (reply, st')"
    by fastforce
  have "\<exists>call. call_admitted sample_adapter sample_fetch (as_env \<lparr>as_delegationCount = 4, as_env = []\<rparr>) call"
    using sample_call_admitted by auto
  then show ?thesis using adapter_calls_past_days_only [OF f] by (auto simp: f)
qed

end
