(* ===== verification/Paginated_Fetch.thy ===== *)
theory Paginated_Fetch
  imports Canonical_Json
begin

text \<open>
  \<open>src/openapi/paginated-fetch.mjs\<close>: the fetch of a sequence of pages, which trusts no advertised
  total. The source of the pages and the readers of a page are the functions that the caller passes;
  page numbers are exact as long as they stay safe integers.
\<close>

section \<open>Stable texts\<close>

text \<open>
  An object built from sorted entries lists its array-index keys first, in numeric order, and then
  the others in the order of the entries.
\<close>

definition index_key :: "string \<Rightarrow> bool" where
  [js_eval]: "index_key k \<longleftrightarrow> canonical_nat_pattern k \<and> read_nat k < 4294967295"

definition stable_fields :: "(string \<times> jsv) list \<Rightarrow> (string \<times> jsv) list" where
  [js_eval]: "stable_fields ps =
     sort_key (\<lambda>p. read_nat (fst p)) (filter (\<lambda>p. index_key (fst p)) ps) @
     sort_key fst (filter (\<lambda>p. \<not> index_key (fst p)) ps)"

fun stableValue :: "jsv \<Rightarrow> jsv" where
  "stableValue (JArr vs) = JArr (map stableValue vs)"
| "stableValue (JObj ps) = JObj (stable_fields (map (\<lambda>(k, v). (k, stableValue v)) ps))"
| "stableValue v = v"

text \<open>
  \<open>JSON.stringify\<close> on data: an undefined value has no text, which leaves out a field and makes
  \<open>null\<close> of an element.
\<close>

fun json_stringify :: "jsv \<Rightarrow> string option" where
  "json_stringify JUndef = None"
| "json_stringify JNull = Some ''null''"
| "json_stringify (JBool b) = Some (if b then ''true'' else ''false'')"
| "json_stringify (JNum n) = Some (case n of NNaN \<Rightarrow> ''null'' | NInf _ \<Rightarrow> ''null'' | _ \<Rightarrow> show_num n)"
| "json_stringify (JStr s) = Some (json_quote s)"
| "json_stringify (JArr vs) = Some (''['' @ join_with '',''
     (map (\<lambda>v. case json_stringify v of None \<Rightarrow> ''null'' | Some t \<Rightarrow> t) vs) @ '']'')"
| "json_stringify (JObj ps) = Some (''{'' @ join_with '',''
     (concat (map (\<lambda>(k, v). case json_stringify v of None \<Rightarrow> [] | Some t \<Rightarrow> [json_quote k @ '':'' @ t]) ps)) @ ''}'')"

definition stableJson :: "jsv \<Rightarrow> string option" where
  [js_eval]: "stableJson v = json_stringify (stableValue v)"

definition payloadFingerprint :: "(string \<Rightarrow> string) \<Rightarrow> jsv \<Rightarrow> string result" where
  [js_eval]: "payloadFingerprint sha v = (case stableJson v of None \<Rightarrow> Inl TypeError | Some t \<Rightarrow> Inr (sha t))"

definition requirePositiveInteger :: "jsv \<Rightarrow> int \<Rightarrow> int result" where
  [js_eval]: "requirePositiveInteger v maximum =
     (case safe_int v of None \<Rightarrow> Inl TypeError
      | Some n \<Rightarrow> if n < 1 \<or> maximum < n then Inl TypeError else Inr n)"

section \<open>Sources\<close>

record ('r, 'i, 'env) page_source =
  src_fetchPage :: "int \<Rightarrow> 'env \<Rightarrow> 'r result \<times> 'env"
  src_getItems :: "'r \<Rightarrow> 'i list option"
  src_getAdvertisedCount :: "'r \<Rightarrow> jsv"
  src_fingerprintItem :: "'i \<Rightarrow> jsv"

record page_limits =
  lim_pageSize :: int
  lim_startPage :: int
  lim_maxPages :: int
  lim_maxItems :: int

record page_info =
  pg_page :: int
  pg_pageSize :: int
  pg_recordCount :: nat
  pg_fingerprint :: string

record 'i page_state =
  sq_items :: "'i list"
  sq_pages :: "page_info list"
  sq_seen :: "(string \<times> int) list"
  sq_advertised :: "int option"

datatype terminal_reason = EMPTY_PAGE | SHORT_PAGE

record 'i page_sequence =
  seq_items :: "'i list"
  seq_pages :: "page_info list"
  seq_advertisedCount :: "int option"
  seq_terminalPage :: int
  seq_terminalReason :: terminal_reason

section \<open>One page\<close>

definition requireItems :: "'i list option \<Rightarrow> int \<Rightarrow> 'i list result" where
  [js_eval]: "requireItems v page =
     (case v of None \<Rightarrow> Inl (Fail ''INVALID_RESPONSE_SHAPE'' (show_int page)) | Some xs \<Rightarrow> Inr xs)"

definition observe_count :: "jsv \<Rightarrow> int \<Rightarrow> int option \<Rightarrow> int option result" where
  [js_eval]: "observe_count v page advertised =
     (if nullish v then Inr advertised
      else case unit_count v of
        None \<Rightarrow> Inl (Fail ''INVALID_RESPONSE_SHAPE'' (show_int page))
      | Some n \<Rightarrow>
        if advertised \<noteq> None \<and> advertised \<noteq> Some n
        then Inl (Fail ''PAGINATION_COUNT_DRIFT'' (show_int page)) else Inr (Some n))"

text \<open>What the loop does with the answer to one page; it also gives the items of the page.\<close>

definition take_page ::
    "(string \<Rightarrow> string) \<Rightarrow> ('r, 'i, 'env) page_source \<Rightarrow> page_limits \<Rightarrow> int \<Rightarrow> 'r \<Rightarrow> 'i page_state \<Rightarrow>
     ('i list \<times> 'i page_state) result" where
  [js_eval]: "take_page sha src lim page response st =
     ebind (requireItems (src_getItems src response) page) (\<lambda>pageItems.
     ebind (ensure (int (length pageItems) \<le> lim_pageSize lim) (Fail ''PAGINATION_PAGE_OVERFLOW'' (show_int page))) (\<lambda>_.
     ebind (observe_count (src_getAdvertisedCount src response) page (sq_advertised st)) (\<lambda>advertised.
     ebind (payloadFingerprint sha (JArr (map (src_fingerprintItem src) pageItems))) (\<lambda>fp.
     ebind (ensure (pageItems = [] \<or> map_of (sq_seen st) fp = None) (Fail ''PAGINATION_REPEATED_PAGE'' (show_int page))) (\<lambda>_.
     ebind (ensure (int (length (sq_items st @ pageItems)) \<le> lim_maxItems lim) (Fail ''PAGINATION_ITEM_LIMIT'' (show_int page))) (\<lambda>_.
     Inr (pageItems,
       \<lparr>sq_items = sq_items st @ pageItems,
        sq_pages = sq_pages st @ [\<lparr>pg_page = page, pg_pageSize = lim_pageSize lim,
          pg_recordCount = length pageItems, pg_fingerprint = fp\<rparr>],
        sq_seen = (if pageItems = [] then sq_seen st else assoc_put fp page (sq_seen st)),
        sq_advertised = advertised\<rparr>)))))))"

text \<open>The end of the loop, at a page that is not full.\<close>

definition finish_pages :: "'i list \<Rightarrow> int \<Rightarrow> 'i page_state \<Rightarrow> 'i page_sequence result" where
  [js_eval]: "finish_pages pageItems page st =
     ebind (ensure (case sq_advertised st of None \<Rightarrow> True | Some n \<Rightarrow> n \<le> int (length (sq_items st)))
       (Fail ''PAGINATION_COUNT_MISMATCH'' (show_int page))) (\<lambda>_.
     Inr \<lparr>seq_items = sq_items st, seq_pages = sq_pages st, seq_advertisedCount = sq_advertised st,
          seq_terminalPage = page, seq_terminalReason = (if pageItems = [] then EMPTY_PAGE else SHORT_PAGE)\<rparr>)"

section \<open>The sequence\<close>

text \<open>\<open>fetch_pages\<close> makes at most as many requests as its first argument says.\<close>

fun fetch_pages ::
    "nat \<Rightarrow> (string \<Rightarrow> string) \<Rightarrow> ('r, 'i, 'env) page_source \<Rightarrow> page_limits \<Rightarrow> int \<Rightarrow> 'i page_state \<Rightarrow> 'env \<Rightarrow>
     'i page_sequence result \<times> 'env" where
  "fetch_pages 0 sha src lim page st env = (Inl (Fail ''PAGINATION_LIMIT'' []), env)"
| "fetch_pages (Suc n) sha src lim page st env =
     (case src_fetchPage src page env of
        (Inl e, env') \<Rightarrow> (Inl e, env')
      | (Inr response, env') \<Rightarrow>
        (case take_page sha src lim page response st of
           Inl e \<Rightarrow> (Inl e, env')
         | Inr (pageItems, st') \<Rightarrow>
           if int (length pageItems) < lim_pageSize lim
           then (finish_pages pageItems page st', env')
           else fetch_pages n sha src lim (page + 1) st' env'))"

definition no_pages :: "'i page_state" where
  [js_eval]: "no_pages = \<lparr>sq_items = [], sq_pages = [], sq_seen = [], sq_advertised = None\<rparr>"

definition limits_of :: "jsv \<Rightarrow> jsv \<Rightarrow> jsv \<Rightarrow> jsv \<Rightarrow> page_limits result" where
  [js_eval]: "limits_of pageSize startPage maxPages maxItems =
     ebind (requirePositiveInteger pageSize max_safe) (\<lambda>size.
     ebind (requirePositiveInteger startPage max_safe) (\<lambda>start.
     ebind (requirePositiveInteger maxPages max_safe) (\<lambda>pages.
     ebind (requirePositiveInteger maxItems max_safe) (\<lambda>items.
     Inr \<lparr>lim_pageSize = size, lim_startPage = start, lim_maxPages = pages, lim_maxItems = items\<rparr>))))"

definition fetchPageSequence ::
    "(string \<Rightarrow> string) \<Rightarrow> ('r, 'i, 'env) page_source \<Rightarrow> jsv \<Rightarrow> jsv \<Rightarrow> jsv \<Rightarrow> jsv \<Rightarrow> 'env \<Rightarrow>
     'i page_sequence result \<times> 'env" where
  [js_eval]: "fetchPageSequence sha src pageSize startPage maxPages maxItems env =
     (case limits_of pageSize startPage maxPages maxItems of
        Inl e \<Rightarrow> (Inl e, env)
      | Inr lim \<Rightarrow> fetch_pages (nat (lim_maxPages lim)) sha src lim (lim_startPage lim) no_pages env)"

end
