(* ===== verification/Openapi_Queries.thy ===== *)
theory Openapi_Queries
  imports Paginated_Fetch Purchase_Order Delivery
begin

text \<open>
  \<open>src/openapi/purchase-orders.mjs\<close> and \<open>src/openapi/deliveries.mjs\<close>: the bounded queries for orders
  and delivery notes, page by page through the mappers of the domain. The client that sends a
  request is the object that the caller passes; it gives the data of a response or throws.
\<close>

type_synonym 'env api_client = "string \<Rightarrow> (string \<times> jsv) list \<Rightarrow> 'env \<Rightarrow> jsv result \<times> 'env"

text \<open>A parameter with a default value.\<close>

definition or_default :: "jsv \<Rightarrow> jsv \<Rightarrow> jsv" where
  [js_eval]: "or_default v d = (if v = JUndef then d else v)"

definition default_max_pages :: "jsv \<Rightarrow> jsv" where
  [js_eval]: "default_max_pages v = or_default v (JNum (NInt 10000))"

section \<open>Filters\<close>

definition list_input :: "jsv \<Rightarrow> jsv list result" where
  [js_eval]: "list_input v =
     (case as_array v of Some vs \<Rightarrow> Inr vs
      | None \<Rightarrow> ebind (js_string v) (\<lambda>s. Inr (map JStr (split_on CHR '','' s))))"

definition list_item :: "jsv \<Rightarrow> string result" where
  [js_eval]: "list_item v =
     (case as_string v of None \<Rightarrow> Inl TypeError
      | Some s \<Rightarrow> if js_trim s = [] then Inl TypeError else Inr (js_trim s))"

definition normalizeList :: "jsv \<Rightarrow> nat option \<Rightarrow> string list result" where
  [js_eval]: "normalizeList v maximum =
     (if absent v then Inr []
      else ebind (list_input v) (\<lambda>items.
           ebind (emap list_item items) (\<lambda>texts.
           ebind (ensure (case maximum of None \<Rightarrow> True | Some m \<Rightarrow> length (dedupe texts) \<le> m) TypeError) (\<lambda>_.
           Inr (dedupe texts)))))"

definition parseShanghaiDateTime :: "jsv \<Rightarrow> int result" where
  [js_eval]: "parseShanghaiDateTime v =
     (case as_string v of None \<Rightarrow> Inl TypeError
      | Some s \<Rightarrow>
        if \<not> local_pattern False s \<or> \<not> calendar_exact (civil_fields s) then Inl TypeError
        else Inr (date_utc (civil_fields s) - 28800000))"

definition MAX_PURCHASE_ORDER_WINDOW_DAYS :: int where
  [js_eval]: "MAX_PURCHASE_ORDER_WINDOW_DAYS = 60"

definition validateWindow :: "jsv \<Rightarrow> jsv \<Rightarrow> (jsv \<times> jsv) option result" where
  [js_eval]: "validateWindow startValue endValue =
     (if absent startValue \<noteq> absent endValue then Inl TypeError
      else if absent startValue then Inr None
      else ebind (parseShanghaiDateTime startValue) (\<lambda>start.
           ebind (parseShanghaiDateTime endValue) (\<lambda>until.
           ebind (ensure (start \<le> until) TypeError) (\<lambda>_.
           ebind (ensure (until - start \<le> MAX_PURCHASE_ORDER_WINDOW_DAYS * ms_per_day) TypeError) (\<lambda>_.
           Inr (Some (startValue, endValue)))))))"

section \<open>Purchase orders\<close>

definition PURCHASE_ORDER_INFOS_PATH :: string where
  [js_eval]: "PURCHASE_ORDER_INFOS_PATH = ''/open-api/order/purchase-order-infos''"

definition MAX_PURCHASE_ORDER_PAGE_SIZE :: int where
  [js_eval]: "MAX_PURCHASE_ORDER_PAGE_SIZE = 200"

record order_query =
  oq_orderNos :: jsv
  oq_skcs :: jsv
  oq_supplierCodes :: jsv
  oq_type :: jsv
  oq_combineStart :: jsv
  oq_combineEnd :: jsv
  oq_updateStart :: jsv
  oq_updateEnd :: jsv
  oq_selectJitMother :: jsv
  oq_pageSize :: jsv
  oq_maxPages :: jsv
  oq_maxItems :: jsv
  oq_fetchedAt :: instant_input

definition one_or_two :: "jsv \<Rightarrow> jsnum result" where
  [js_eval]: "one_or_two v =
     ebind (js_number v) (\<lambda>n. if n = NInt 1 \<or> n = NInt 2 then Inr n else Inl TypeError)"

definition joined_field :: "string \<Rightarrow> string list \<Rightarrow> (string \<times> jsv) list" where
  [js_eval]: "joined_field k xs = (if xs = [] then [] else [(k, JStr (join_with '','' xs))])"

definition window_fields :: "string \<Rightarrow> string \<Rightarrow> (jsv \<times> jsv) option \<Rightarrow> (string \<times> jsv) list" where
  [js_eval]: "window_fields startKey endKey w =
     (case w of None \<Rightarrow> [] | Some (s, e) \<Rightarrow> [(startKey, s), (endKey, e)])"

text \<open>The validated query without its page, and whether it is an update-time query.\<close>

definition order_base_query :: "order_query \<Rightarrow> ((string \<times> jsv) list \<times> bool) result" where
  [js_eval]: "order_base_query q =
     ebind (normalizeList (oq_orderNos q) (Some 200)) (\<lambda>orderNos.
     ebind (normalizeList (oq_skcs q) None) (\<lambda>skcs.
     ebind (normalizeList (oq_supplierCodes q) None) (\<lambda>supplierCodes.
     ebind (validateWindow (oq_combineStart q) (oq_combineEnd q)) (\<lambda>combineWindow.
     ebind (validateWindow (oq_updateStart q) (oq_updateEnd q)) (\<lambda>updateWindow.
     ebind (ensure (orderNos \<noteq> [] \<or> skcs \<noteq> [] \<or> supplierCodes \<noteq> [] \<or> combineWindow \<noteq> None \<or> updateWindow \<noteq> None)
       TypeError) (\<lambda>_.
     ebind (if nullish (oq_type q) then Inr [] else ebind (one_or_two (oq_type q)) (\<lambda>n. Inr [(''type'', JNum n)])) (\<lambda>types.
     ebind (one_or_two (or_default (oq_selectJitMother q) (JNum (NInt 1)))) (\<lambda>jitMother.
     ebind (normalizeFetchedAt (oq_fetchedAt q)) (\<lambda>_.
     Inr (joined_field ''orderNos'' orderNos @ joined_field ''skcs'' skcs @ joined_field ''supplierCodes'' supplierCodes @
       types @ window_fields ''combineTimeStart'' ''combineTimeEnd'' combineWindow @
       window_fields ''updateTimeStart'' ''updateTimeEnd'' updateWindow @ [(''selectJitMother'', JNum jitMother)],
       updateWindow \<noteq> None))))))))))"

definition text_json :: "string option \<Rightarrow> jsv" where
  [js_eval]: "text_json t = (case t of None \<Rightarrow> JNull | Some s \<Rightarrow> JStr s)"

definition int_json :: "int option \<Rightarrow> jsv" where
  [js_eval]: "int_json n = (case n of None \<Rightarrow> JNull | Some i \<Rightarrow> JNum (NInt i))"

definition order_fingerprint_item :: "purchase_order \<Rightarrow> jsv" where
  [js_eval]: "order_fingerprint_item po = JObj
     [(''orderNo'', JStr (po_orderNo po)), (''sourceUpdatedAt'', text_json (po_sourceUpdatedAt po)),
      (''statusCode'', text_json (po_statusCode po)),
      (''lines'', JArr (map (\<lambda>l. JObj
        [(''skuCode'', text_json (ol_skuCode l)), (''skc'', text_json (ol_skc l)),
         (''orderQuantity'', int_json (ol_order l)), (''storageQuantity'', int_json (ol_storage l))]) (po_lines po)))]"

text \<open>
  One page: the response must carry the page that was asked for, and the count of the empty page
  that closes an exact multiple is ignored.
\<close>

definition order_page_of :: "(string \<Rightarrow> int option) \<Rightarrow> instant_input \<Rightarrow> int \<Rightarrow> jsv \<Rightarrow> (order_page \<times> jsv) result" where
  [js_eval]: "order_page_of engine fetchedAt page data =
     ebind (mapPurchaseOrderResponse engine fetchedAt data) (\<lambda>mapped.
     ebind (ensure (safe_int (JNum (op_page mapped)) = Some page) (Fail ''PAGINATION_MISMATCH'' (show_int page))) (\<lambda>_.
     Inr (mapped, if op_orders mapped = [] \<and> op_count mapped = 0 then JNull else JNum (NInt (op_count mapped)))))"

definition order_source ::
    "(string \<Rightarrow> int option) \<Rightarrow> instant_input \<Rightarrow> 'env api_client \<Rightarrow> (string \<times> jsv) list \<Rightarrow> jsv \<Rightarrow>
     (order_page \<times> jsv, purchase_order, 'env) page_source" where
  [js_eval]: "order_source engine fetchedAt client baseQuery pageSize =
     \<lparr>src_fetchPage = (\<lambda>page env.
        case client PURCHASE_ORDER_INFOS_PATH
          (baseQuery @ [(''pageNumber'', JNum (NInt page)), (''pageSize'', pageSize)]) env of
          (response, env') \<Rightarrow> (ebind response (order_page_of engine fetchedAt page), env')),
      src_getItems = (\<lambda>(mapped, _). Some (op_orders mapped)), src_getAdvertisedCount = snd,
      src_fingerprintItem = order_fingerprint_item\<rparr>"

record 'i query_result =
  qr_items :: "'i list"
  qr_pages :: "page_info list"
  qr_terminalReason :: terminal_reason
  qr_requestFingerprint :: string

record order_query_result = "purchase_order query_result" +
  qr_callerSuppliedOverlap :: bool

definition fetchFullManagedPurchaseOrders ::
    "(string \<Rightarrow> string) \<Rightarrow> (string \<Rightarrow> int option) \<Rightarrow> 'env api_client \<Rightarrow> order_query \<Rightarrow> 'env \<Rightarrow>
     order_query_result result \<times> 'env" where
  [js_eval]: "fetchFullManagedPurchaseOrders sha engine client q env =
     (let pageSize = or_default (oq_pageSize q) (JNum (NInt 200)) in
      case ebind (requirePositiveInteger pageSize MAX_PURCHASE_ORDER_PAGE_SIZE) (\<lambda>_. order_base_query q) of
        Inl e \<Rightarrow> (Inl e, env)
      | Inr (baseQuery, byUpdate) \<Rightarrow>
        (case fetchPageSequence sha (order_source engine (oq_fetchedAt q) client baseQuery pageSize) pageSize
            (JNum (NInt 1)) (default_max_pages (oq_maxPages q)) (or_default (oq_maxItems q) (JNum (NInt 1000000))) env of
           (Inl e, env') \<Rightarrow> (Inl e, env')
         | (Inr seq, env') \<Rightarrow>
           (ebind (payloadFingerprint sha (JObj baseQuery)) (\<lambda>fp.
            Inr \<lparr>qr_items = seq_items seq, qr_pages = seq_pages seq, qr_terminalReason = seq_terminalReason seq,
                 qr_requestFingerprint = fp, qr_callerSuppliedOverlap = byUpdate\<rparr>), env')))"

section \<open>Delivery notes\<close>

definition DELIVERY_QUERY_PATH :: string where
  [js_eval]: "DELIVERY_QUERY_PATH = ''/open-api/shipping/delivery''"

definition MAX_DELIVERY_PAGE_SIZE :: int where
  [js_eval]: "MAX_DELIVERY_PAGE_SIZE = 200"

record delivery_query =
  dq_deliveryCode :: jsv
  dq_startTime :: jsv
  dq_endTime :: jsv
  dq_pageSize :: jsv
  dq_maxPages :: jsv
  dq_maxItems :: jsv
  dq_fetchedAt :: instant_input

definition delivery_code_of :: "jsv \<Rightarrow> string option result" where
  [js_eval]: "delivery_code_of v =
     (if absent v then Inr None else ebind (js_string v) (\<lambda>s. Inr (Some (js_trim s))))"

text \<open>A blank code filters nothing, but it is not \<open>null\<close>.\<close>

definition given_code :: "string option \<Rightarrow> string option" where
  [js_eval]: "given_code deliveryCode = (case deliveryCode of None \<Rightarrow> None | Some c \<Rightarrow> nonempty c)"

definition creation_window :: "jsv \<Rightarrow> jsv \<Rightarrow> (jsv \<times> jsv) option result" where
  [js_eval]: "creation_window startTime endTime =
     (if absent startTime then Inr None
      else ebind (parseShanghaiDateTime startTime) (\<lambda>start.
           ebind (parseShanghaiDateTime endTime) (\<lambda>until.
           ebind (ensure (start \<le> until) TypeError) (\<lambda>_. Inr (Some (startTime, endTime))))))"

definition delivery_base_query :: "delivery_query \<Rightarrow> ((string \<times> jsv) list \<times> string option) result" where
  [js_eval]: "delivery_base_query q =
     ebind (delivery_code_of (dq_deliveryCode q)) (\<lambda>deliveryCode.
     ebind (ensure (absent (dq_startTime q) = absent (dq_endTime q)) TypeError) (\<lambda>_.
     ebind (ensure (given_code deliveryCode \<noteq> None \<or> \<not> absent (dq_startTime q)) TypeError) (\<lambda>_.
     ebind (creation_window (dq_startTime q) (dq_endTime q)) (\<lambda>window.
     ebind (normalizeFetchedAt (dq_fetchedAt q)) (\<lambda>_.
     Inr ((case given_code deliveryCode of None \<Rightarrow> [] | Some c \<Rightarrow> [(''deliveryCode'', JStr c)]) @
       window_fields ''startTime'' ''endTime'' window, deliveryCode))))))"

definition delivery_fingerprint_item :: "delivery \<Rightarrow> jsv" where
  [js_eval]: "delivery_fingerprint_item d = JObj
     [(''deliveryCode'', JStr (dv_deliveryCode d)), (''createdAt'', text_json (dv_createdAt d)),
      (''receivedAt'', text_json (dv_receivedAt d)),
      (''lines'', JArr (map (\<lambda>l. JObj
        [(''orderNo'', text_json (dl_orderNo l)), (''skuCode'', text_json (dl_skuCode l)),
         (''skc'', JStr (dl_skc l)), (''deliveryQuantity'', int_json (dl_quantity l))]) (dv_lines d)))]"

definition delivery_source ::
    "(string \<Rightarrow> int option) \<Rightarrow> instant_input \<Rightarrow> 'env api_client \<Rightarrow> (string \<times> jsv) list \<Rightarrow> jsv \<Rightarrow>
     (delivery_page, delivery, 'env) page_source" where
  [js_eval]: "delivery_source engine fetchedAt client baseQuery pageSize =
     \<lparr>src_fetchPage = (\<lambda>page env.
        case client DELIVERY_QUERY_PATH (baseQuery @ [(''page'', JNum (NInt page)), (''perPage'', pageSize)]) env of
          (response, env') \<Rightarrow> (ebind response (mapDeliveryResponse engine fetchedAt), env')),
      src_getItems = (\<lambda>p. Some (dp_deliveries p)), src_getAdvertisedCount = (\<lambda>p. JNum (NInt (dp_count p))),
      src_fingerprintItem = delivery_fingerprint_item\<rparr>"

datatype delivery_strategy = POINT_LOOKUP | ROLLING_CREATION_TIME_LOOKBACK_REQUIRED

record delivery_query_result = "delivery query_result" +
  qr_mode :: delivery_strategy
  qr_callerMustOverlap :: bool

definition fetchFullManagedDeliveries ::
    "(string \<Rightarrow> string) \<Rightarrow> (string \<Rightarrow> int option) \<Rightarrow> 'env api_client \<Rightarrow> delivery_query \<Rightarrow> 'env \<Rightarrow>
     delivery_query_result result \<times> 'env" where
  [js_eval]: "fetchFullManagedDeliveries sha engine client q env =
     (let pageSize = or_default (dq_pageSize q) (JNum (NInt 200)) in
      case ebind (requirePositiveInteger pageSize MAX_DELIVERY_PAGE_SIZE) (\<lambda>_. delivery_base_query q) of
        Inl e \<Rightarrow> (Inl e, env)
      | Inr (baseQuery, deliveryCode) \<Rightarrow>
        (case fetchPageSequence sha (delivery_source engine (dq_fetchedAt q) client baseQuery pageSize) pageSize
            (JNum (NInt 1)) (default_max_pages (dq_maxPages q)) (or_default (dq_maxItems q) (JNum (NInt 1000000))) env of
           (Inl e, env') \<Rightarrow> (Inl e, env')
         | (Inr seq, env') \<Rightarrow>
           (ebind (payloadFingerprint sha (JObj baseQuery)) (\<lambda>fp.
            Inr \<lparr>qr_items = seq_items seq, qr_pages = seq_pages seq, qr_terminalReason = seq_terminalReason seq,
                 qr_requestFingerprint = fp,
                 qr_mode = (if given_code deliveryCode = None then ROLLING_CREATION_TIME_LOOKBACK_REQUIRED else POINT_LOOKUP),
                 qr_callerMustOverlap = (deliveryCode = None)\<rparr>), env')))"

end
