(* ===== verification/Pagination_Properties.thy ===== *)
theory Pagination_Properties
  imports Paginated_Fetch
begin

text \<open>
  What the fetch of a page sequence promises: a result is exactly what the source served, page by
  page up to the first page that is not full, and a source that serves a fixed catalog is fetched
  completely within a known number of requests.
\<close>

section \<open>Runs of a source\<close>

text \<open>The source serves these lists of items for consecutive pages.\<close>

inductive page_run :: "('r, 'i, 'env) page_source \<Rightarrow> int \<Rightarrow> 'env \<Rightarrow> 'i list list \<Rightarrow> 'env \<Rightarrow> bool"
  for src :: "('r, 'i, 'env) page_source" where
  stop: "page_run src page env [] env"
| serve: "src_fetchPage src page env = (Inr r, env1) \<Longrightarrow> src_getItems src r = Some xs \<Longrightarrow>
    page_run src (page + 1) env1 xss env2 \<Longrightarrow> page_run src page env (xs # xss) env2"

inductive_simps page_run_simps:
  "page_run src page env [] env'"
  "page_run src page env (xs # xss) env'"

definition page_fingerprint :: "(string \<Rightarrow> string) \<Rightarrow> ('r, 'i, 'env) page_source \<Rightarrow> 'i list \<Rightarrow> string" where
  "page_fingerprint sha src xs =
     (case payloadFingerprint sha (JArr (map (src_fingerprintItem src) xs)) of Inl _ \<Rightarrow> [] | Inr h \<Rightarrow> h)"

lemma fingerprint_Inr:
  "payloadFingerprint sha (JArr (map (src_fingerprintItem src) xs)) = Inr (page_fingerprint sha src xs)"
  by (simp add: page_fingerprint_def payloadFingerprint_def stableJson_def)

lemma take_page_Inr:
  assumes "take_page sha src lim page r st = Inr (xs, st')"
  shows "src_getItems src r = Some xs \<and> int (length xs) \<le> lim_pageSize lim \<and> sq_items st' = sq_items st @ xs \<and>
    sq_pages st' = sq_pages st @ [\<lparr>pg_page = page, pg_pageSize = lim_pageSize lim, pg_recordCount = length xs,
      pg_fingerprint = page_fingerprint sha src xs\<rparr>] \<and>
    int (length (sq_items st')) \<le> lim_maxItems lim \<and>
    (xs = [] \<and> sq_seen st' = sq_seen st \<or>
     xs \<noteq> [] \<and> map_of (sq_seen st) (page_fingerprint sha src xs) = None \<and>
     sq_seen st' = assoc_put (page_fingerprint sha src xs) page (sq_seen st)) \<and>
    observe_count (src_getAdvertisedCount src r) page (sq_advertised st) = Inr (sq_advertised st')"
  using assms unfolding take_page_def requireItems_def fingerprint_Inr
  by (auto elim!: ebind_InrE split: option.splits)

definition advertised_met :: "int option \<Rightarrow> 'i list \<Rightarrow> bool" where
  "advertised_met advertised items \<longleftrightarrow> (case advertised of None \<Rightarrow> True | Some n \<Rightarrow> n \<le> int (length items))"

lemma finish_pages_Inr:
  "finish_pages xs page st = Inr seq \<longleftrightarrow> advertised_met (sq_advertised st) (sq_items st) \<and>
     seq = \<lparr>seq_items = sq_items st, seq_pages = sq_pages st, seq_advertisedCount = sq_advertised st,
       seq_terminalPage = page, seq_terminalReason = (if xs = [] then EMPTY_PAGE else SHORT_PAGE)\<rparr>"
  by (auto simp: finish_pages_def advertised_met_def ebind_Inr_iff)

text \<open>The fingerprints of the pages with items are new.\<close>

definition fresh_pages :: "(string \<Rightarrow> string) \<Rightarrow> ('r, 'i, 'env) page_source \<Rightarrow> (string \<times> int) list \<Rightarrow> 'i list list \<Rightarrow> bool" where
  "fresh_pages sha src seen xss \<longleftrightarrow>
     (let fps = map (page_fingerprint sha src) (filter (\<lambda>xs. xs \<noteq> []) xss)
      in distinct fps \<and> set fps \<inter> fst ` set seen = {})"

lemma fresh_pages_step:
  assumes "xs = [] \<and> seen' = seen \<or> xs \<noteq> [] \<and> map_of seen (page_fingerprint sha src xs) = None \<and>
      seen' = assoc_put (page_fingerprint sha src xs) page seen"
    and "fresh_pages sha src seen' xss"
  shows "fresh_pages sha src seen (xs # xss)"
proof -
  let ?fp = "page_fingerprint sha src"
  have "distinct (map ?fp (filter (\<lambda>xs. xs \<noteq> []) xss)) \<and> ?fp ` {x \<in> set xss. x \<noteq> []} \<inter> fst ` set seen' = {}"
    using assms(2) by (simp add: fresh_pages_def Let_def)
  then show ?thesis
    using assms(1) unfolding fresh_pages_def Let_def map_of_eq_None_iff
    by (elim disjE conjE) (simp_all add: keys_assoc_put)
qed

lemma fetch_pages_Inr:
  assumes "fetch_pages n sha src lim page st env = (Inr seq, env')" and "int (length (sq_items st)) \<le> lim_maxItems lim"
  shows "\<exists>xss. page_run src page env xss env' \<and> xss \<noteq> [] \<and> length xss \<le> n \<and>
    list_all (\<lambda>xs. int (length xs) = lim_pageSize lim) (butlast xss) \<and> int (length (last xss)) < lim_pageSize lim \<and>
    seq_items seq = sq_items st @ concat xss \<and>
    map pg_recordCount (seq_pages seq) = map pg_recordCount (sq_pages st) @ map length xss \<and>
    fresh_pages sha src (sq_seen st) xss \<and> int (length (seq_items seq)) \<le> lim_maxItems lim \<and>
    advertised_met (seq_advertisedCount seq) (seq_items seq) \<and>
    seq_terminalPage seq = page + int (length xss) - 1 \<and>
    (seq_terminalReason seq = EMPTY_PAGE \<longleftrightarrow> last xss = [])"
  using assms
proof (induction n sha src lim page st env rule: fetch_pages.induct)
  case (2 n sha src lim page st env)
  obtain r env1 where f: "src_fetchPage src page env = (Inr r, env1)"
    using 2(2) by (auto split: prod.splits sum.splits)
  obtain xs st' where t: "take_page sha src lim page r st = Inr (xs, st')"
    using 2(2) f by (auto split: sum.splits)
  note T = take_page_Inr [OF t]
  show ?case
  proof (cases "int (length xs) < lim_pageSize lim")
    case True
    then have fin: "finish_pages xs page st' = Inr seq" "env' = env1" using 2(2) f t by auto
    have fresh: "fresh_pages sha src (sq_seen st) [xs]"
      using T by (intro fresh_pages_step [of xs "sq_seen st'"]) (auto simp: fresh_pages_def Let_def)
    have "page_run src page env [xs] env1" using f T by (auto simp: page_run_simps)
    then show ?thesis
      using True fin fresh T by (intro exI [of _ "[xs]"]) (auto simp: finish_pages_Inr)
  next
    case False
    then have "fetch_pages n sha src lim (page + 1) st' env1 = (Inr seq, env')" using 2(2) f t by simp
    moreover have "int (length (sq_items st')) \<le> lim_maxItems lim" using T by (elim conjE)
    ultimately obtain xss where I: "page_run src (page + 1) env1 xss env'" "xss \<noteq> []" "length xss \<le> n"
      "list_all (\<lambda>xs. int (length xs) = lim_pageSize lim) (butlast xss)" "int (length (last xss)) < lim_pageSize lim"
      "seq_items seq = sq_items st' @ concat xss"
      "map pg_recordCount (seq_pages seq) = map pg_recordCount (sq_pages st') @ map length xss"
      "fresh_pages sha src (sq_seen st') xss" "int (length (seq_items seq)) \<le> lim_maxItems lim"
      "advertised_met (seq_advertisedCount seq) (seq_items seq)"
      "seq_terminalPage seq = page + 1 + int (length xss) - 1"
      "seq_terminalReason seq = EMPTY_PAGE \<longleftrightarrow> last xss = []"
      using 2(1) [OF f [symmetric] refl t refl False] by auto
    have "fresh_pages sha src (sq_seen st) (xs # xss)"
      using T I(8) by (intro fresh_pages_step [of xs "sq_seen st'"]) auto
    moreover have "page_run src page env (xs # xss) env'" using f T I(1) by (auto simp: page_run_simps)
    ultimately show ?thesis
      using False T I by (intro exI [of _ "xs # xss"]) auto
  qed
qed simp

section \<open>A fixed catalog\<close>

definition catalog_page :: "nat \<Rightarrow> 'i list \<Rightarrow> nat \<Rightarrow> 'i list" where
  "catalog_page psize catalog i = take psize (drop (i * psize) catalog)"

text \<open>The source serves the pages of the catalog, and advertises its size or nothing.\<close>

definition serves_catalog :: "('r, 'i, 'env) page_source \<Rightarrow> nat \<Rightarrow> int \<Rightarrow> 'i list \<Rightarrow> bool" where
  "serves_catalog src psize start catalog \<longleftrightarrow>
     (\<forall>i env. \<exists>r env'. src_fetchPage src (start + int i) env = (Inr r, env') \<and>
        src_getItems src r = Some (catalog_page psize catalog i) \<and>
        src_getAdvertisedCount src r \<in> {JUndef, JNull, JNum (NInt (int (length catalog)))})"

lemma take_catalog_page: "take (i * psize) xs @ catalog_page psize xs i = take (Suc i * psize) xs"
  by (simp add: catalog_page_def take_add [symmetric] add.commute)

lemma length_catalog_page: "length (catalog_page psize xs i) = min psize (length xs - i * psize)"
  by (simp add: catalog_page_def)

lemma full_page: "i < length xs div psize \<Longrightarrow> length (catalog_page psize xs i) = psize"
proof -
  assume i: "i < length xs div psize"
  then have "Suc i * psize \<le> length xs" by (metis Suc_leI div_times_less_eq_dividend dual_order.trans mult_le_mono1)
  then show ?thesis by (simp add: length_catalog_page)
qed

lemma last_page:
  assumes "0 < psize"
  shows "length (catalog_page psize xs (length xs div psize)) < psize"
    and "take (length xs div psize * psize) xs @ catalog_page psize xs (length xs div psize) = xs"
proof -
  have len: "length xs - length xs div psize * psize = length xs mod psize" by (simp add: minus_div_mult_eq_mod)
  show "length (catalog_page psize xs (length xs div psize)) < psize"
    using assms by (simp add: length_catalog_page len not_le)
  have "length xs < Suc (length xs div psize) * psize"
    using assms by (metis dividend_less_div_times mult_Suc)
  then show "take (length xs div psize * psize) xs @ catalog_page psize xs (length xs div psize) = xs"
    by (simp only: take_catalog_page) simp
qed

definition catalog_state ::
    "(string \<Rightarrow> string) \<Rightarrow> ('r, 'i, 'env) page_source \<Rightarrow> nat \<Rightarrow> 'i list \<Rightarrow> nat \<Rightarrow> 'i page_state \<Rightarrow> bool" where
  "catalog_state sha src psize catalog i st \<longleftrightarrow>
     sq_items st = take (i * psize) catalog \<and>
     fst ` set (sq_seen st) \<subseteq> (\<lambda>j. page_fingerprint sha src (catalog_page psize catalog j)) ` {..<i} \<and>
     sq_advertised st \<in> {None, Some (int (length catalog))}"

lemma observe_catalog:
  assumes "v \<in> {JUndef, JNull, JNum (NInt (int n))}" "int n \<le> max_safe" "adv \<in> {None, Some (int n)}"
  shows "\<exists>adv'. observe_count v page adv = Inr adv' \<and> adv' \<in> {None, Some (int n)}"
  using assms by (auto simp: observe_count_def nullish_def unit_count_def)

lemma take_catalog:
  assumes "catalog_state sha src (nat (lim_pageSize lim)) catalog i st" and "0 < lim_pageSize lim"
    and "src_getItems src r = Some (catalog_page (nat (lim_pageSize lim)) catalog i)"
    and "src_getAdvertisedCount src r \<in> {JUndef, JNull, JNum (NInt (int (length catalog)))}"
    and "int (length catalog) \<le> lim_maxItems lim" "lim_maxItems lim \<le> max_safe"
    and "catalog_page (nat (lim_pageSize lim)) catalog i \<noteq> [] \<Longrightarrow>
      \<forall>j<i. page_fingerprint sha src (catalog_page (nat (lim_pageSize lim)) catalog j) \<noteq>
      page_fingerprint sha src (catalog_page (nat (lim_pageSize lim)) catalog i)"
  obtains st' where "take_page sha src lim page r st = Inr (catalog_page (nat (lim_pageSize lim)) catalog i, st')"
    "catalog_state sha src (nat (lim_pageSize lim)) catalog (Suc i) st'"
    "length (sq_pages st') = Suc (length (sq_pages st))"
proof -
  let ?xs = "catalog_page (nat (lim_pageSize lim)) catalog i"
  obtain adv' where adv: "observe_count (src_getAdvertisedCount src r) page (sq_advertised st) = Inr adv'"
      "adv' \<in> {None, Some (int (length catalog))}"
    using observe_catalog [OF assms(4), of "sq_advertised st" page] assms(1,5,6) by (auto simp: catalog_state_def)
  have items: "sq_items st @ ?xs = take (Suc i * nat (lim_pageSize lim)) catalog"
    using assms(1) by (simp only: catalog_state_def take_catalog_page)
  have new: "?xs = [] \<or> map_of (sq_seen st) (page_fingerprint sha src ?xs) = None"
    using assms(1,7) by (auto simp: catalog_state_def map_of_eq_None_iff)
  have fits: "int (length (sq_items st @ ?xs)) \<le> lim_maxItems lim" using assms(5) unfolding items by simp
  let ?st = "\<lparr>sq_items = sq_items st @ ?xs, sq_pages = sq_pages st @ [\<lparr>pg_page = page, pg_pageSize = lim_pageSize lim,
      pg_recordCount = length ?xs, pg_fingerprint = page_fingerprint sha src ?xs\<rparr>],
    sq_seen = (if ?xs = [] then sq_seen st else assoc_put (page_fingerprint sha src ?xs) page (sq_seen st)),
    sq_advertised = adv'\<rparr>"
  have "int (length ?xs) \<le> lim_pageSize lim" using assms(2) by (simp add: length_catalog_page)
  then have "take_page sha src lim page r st = Inr (?xs, ?st)"
    unfolding take_page_def fingerprint_Inr using fits new adv(1) assms(3) by (simp add: requireItems_def)
  moreover have "catalog_state sha src (nat (lim_pageSize lim)) catalog (Suc i) ?st"
    using assms(1) adv(2) items by (auto simp: catalog_state_def keys_assoc_put lessThan_Suc)
  ultimately show ?thesis by (rule that) simp
qed

definition distinct_pages :: "(string \<Rightarrow> string) \<Rightarrow> ('r, 'i, 'env) page_source \<Rightarrow> nat \<Rightarrow> 'i list \<Rightarrow> bool" where
  "distinct_pages sha src psize catalog \<longleftrightarrow>
     distinct (map (\<lambda>i. page_fingerprint sha src (catalog_page psize catalog i)) [0..<(length catalog + psize - 1) div psize])"

lemma distinct_pagesD:
  assumes "distinct_pages sha src psize catalog" "catalog_page psize catalog i \<noteq> []" "j < i" "0 < psize"
  shows "page_fingerprint sha src (catalog_page psize catalog j) \<noteq> page_fingerprint sha src (catalog_page psize catalog i)"
proof -
  let ?n = "(length catalog + psize - 1) div psize"
  have "i * psize < length catalog" using assms(2) by (auto simp: catalog_page_def)
  then have "Suc i * psize \<le> length catalog + psize - 1" using assms(4) by simp
  then have "Suc i \<le> ?n" using assms(4) by (metis div_le_mono nonzero_mult_div_cancel_right not_gr_zero)
  then have "i < ?n" "j < ?n" using assms(3) by simp_all
  moreover have "inj_on (\<lambda>i. page_fingerprint sha src (catalog_page psize catalog i)) {0..<?n}"
    using assms(1) by (simp add: distinct_pages_def distinct_map)
  ultimately show ?thesis using assms(3) unfolding inj_on_def by fastforce
qed

lemma fetch_catalog:
  assumes src: "serves_catalog src (nat (lim_pageSize lim)) start catalog" and size: "0 < lim_pageSize lim"
    and fits: "int (length catalog) \<le> lim_maxItems lim" "lim_maxItems lim \<le> max_safe"
    and new: "distinct_pages sha src (nat (lim_pageSize lim)) catalog"
  shows "i \<le> length catalog div nat (lim_pageSize lim) \<Longrightarrow> length catalog div nat (lim_pageSize lim) - i < n \<Longrightarrow>
    catalog_state sha src (nat (lim_pageSize lim)) catalog i st \<Longrightarrow>
    \<exists>seq env'. fetch_pages n sha src lim (start + int i) st env = (Inr seq, env') \<and> seq_items seq = catalog \<and>
      length (seq_pages seq) = length (sq_pages st) + (length catalog div nat (lim_pageSize lim) - i) + 1"
proof (induction n arbitrary: i st env)
  case (Suc n)
  let ?m = "length catalog div nat (lim_pageSize lim)"
  let ?xs = "catalog_page (nat (lim_pageSize lim)) catalog i"
  obtain r env1 where r: "src_fetchPage src (start + int i) env = (Inr r, env1)" "src_getItems src r = Some ?xs"
    "src_getAdvertisedCount src r \<in> {JUndef, JNull, JNum (NInt (int (length catalog)))}"
    using src unfolding serves_catalog_def by blast
  obtain st' where t: "take_page sha src lim (start + int i) r st = Inr (?xs, st')"
    "catalog_state sha src (nat (lim_pageSize lim)) catalog (Suc i) st'"
    "length (sq_pages st') = Suc (length (sq_pages st))"
    by (rule take_catalog [OF Suc.prems(3) size r(2,3) fits]) (use distinct_pagesD [OF new] size in auto)
  show ?case
  proof (cases "i = ?m")
    case True
    have "int (length ?xs) < lim_pageSize lim" "sq_items st' = catalog"
      using last_page [of "nat (lim_pageSize lim)" catalog] size t(2) True
      by (simp_all add: catalog_state_def take_catalog_page)
    moreover have "advertised_met (sq_advertised st') (sq_items st')"
      using t(2) \<open>sq_items st' = catalog\<close> by (auto simp: catalog_state_def advertised_met_def)
    moreover from this obtain seq where "finish_pages ?xs (start + int i) st' = Inr seq"
      by (auto simp: finish_pages_Inr)
    ultimately show ?thesis using r(1) t(1,3) True by (auto simp: finish_pages_Inr)
  next
    case False
    then have "i < ?m" using Suc.prems(1) by simp
    then have full: "\<not> int (length ?xs) < lim_pageSize lim" using full_page [OF \<open>i < ?m\<close>] size by simp
    have next_page: "Suc i \<le> ?m" "?m - Suc i < n" using \<open>i < ?m\<close> Suc.prems(2) by simp_all
    obtain seq env' where "fetch_pages n sha src lim (start + int (Suc i)) st' env1 = (Inr seq, env')"
      "seq_items seq = catalog" "length (seq_pages seq) = length (sq_pages st') + (?m - Suc i) + 1"
      using Suc.IH [OF next_page t(2)] by blast
    then show ?thesis using r(1) t(1,3) full \<open>i < ?m\<close> by (auto simp: ac_simps)
  qed
qed simp

lemma page_sequence_facts:
  assumes "fetchPageSequence sha src pageSize startPage maxPages maxItems env = (Inr seq, env')"
  shows "\<exists>lim xss. limits_of pageSize startPage maxPages maxItems = Inr lim \<and>
    page_run src (lim_startPage lim) env xss env' \<and> xss \<noteq> [] \<and> int (length xss) \<le> lim_maxPages lim \<and>
    list_all (\<lambda>xs. int (length xs) = lim_pageSize lim) (butlast xss) \<and> int (length (last xss)) < lim_pageSize lim \<and>
    seq_items seq = concat xss \<and> map pg_recordCount (seq_pages seq) = map length xss \<and>
    int (length (concat xss)) \<le> lim_maxItems lim \<and> advertised_met (seq_advertisedCount seq) (concat xss) \<and>
    distinct (map (page_fingerprint sha src) (filter (\<lambda>xs. xs \<noteq> []) xss)) \<and>
    seq_terminalPage seq = lim_startPage lim + int (length xss) - 1 \<and>
    (seq_terminalReason seq = EMPTY_PAGE \<longleftrightarrow> last xss = [])"
proof -
  obtain lim where lim: "limits_of pageSize startPage maxPages maxItems = Inr lim"
    using assms by (auto simp: fetchPageSequence_def split: sum.splits)
  then have pos: "0 < lim_maxPages lim" "0 < lim_maxItems lim"
    unfolding limits_of_def requirePositiveInteger_def by (auto elim!: ebind_InrE split: option.splits if_splits)
  have "fetch_pages (nat (lim_maxPages lim)) sha src lim (lim_startPage lim) no_pages env = (Inr seq, env')"
    using assms lim by (simp add: fetchPageSequence_def)
  from fetch_pages_Inr [OF this] obtain xss where
    "page_run src (lim_startPage lim) env xss env'" "xss \<noteq> []" "length xss \<le> nat (lim_maxPages lim)"
    "list_all (\<lambda>xs. int (length xs) = lim_pageSize lim) (butlast xss)" "int (length (last xss)) < lim_pageSize lim"
    "seq_items seq = concat xss" "map pg_recordCount (seq_pages seq) = map length xss"
    "fresh_pages sha src [] xss" "int (length (seq_items seq)) \<le> lim_maxItems lim"
    "advertised_met (seq_advertisedCount seq) (seq_items seq)"
    "seq_terminalPage seq = lim_startPage lim + int (length xss) - 1"
    "seq_terminalReason seq = EMPTY_PAGE \<longleftrightarrow> last xss = []"
    using pos by (auto simp: no_pages_def)
  with lim pos show ?thesis by (intro exI [of _ lim] exI [of _ xss]) (auto simp: fresh_pages_def Let_def)
qed

section \<open>Properties\<close>

text \<open>
  A fetched sequence is what the source served: consecutive pages from the start page on, every
  one full but the last, at most as many as allowed; its items are theirs in order, within the item
  bound and no fewer than advertised, no two pages with items have the same fingerprint, and the
  terminal page and reason are those of the last page.
\<close>

theorem page_sequence_is_exact:
  assumes "fetchPageSequence sha src pageSize startPage maxPages maxItems env = (Inr seq, env')"
  shows "\<exists>lim xss. limits_of pageSize startPage maxPages maxItems = Inr lim \<and>
    page_run src (lim_startPage lim) env xss env' \<and> xss \<noteq> [] \<and> int (length xss) \<le> lim_maxPages lim \<and>
    list_all (\<lambda>xs. int (length xs) = lim_pageSize lim) (butlast xss) \<and> int (length (last xss)) < lim_pageSize lim \<and>
    seq_items seq = concat xss \<and> map pg_recordCount (seq_pages seq) = map length xss \<and>
    int (length (concat xss)) \<le> lim_maxItems lim \<and> advertised_met (seq_advertisedCount seq) (concat xss) \<and>
    distinct (map (page_fingerprint sha src) (filter (\<lambda>xs. xs \<noteq> []) xss)) \<and>
    seq_terminalPage seq = lim_startPage lim + int (length xss) - 1 \<and>
    (seq_terminalReason seq = EMPTY_PAGE \<longleftrightarrow> last xss = [])"
  using assms by (rule page_sequence_facts)

definition sample_catalog :: "jsv list" where
  [js_eval]: "sample_catalog = map (\<lambda>n. JNum (NInt n)) [11, 12, 13, 14, 15]"

definition sample_source :: "(int, jsv, int list) page_source" where
  [js_eval]: "sample_source =
     \<lparr>src_fetchPage = (\<lambda>p log. (Inr p, log @ [p])),
      src_getItems = (\<lambda>p. Some (take 2 (drop (nat (p - 1) * 2) sample_catalog))),
      src_getAdvertisedCount = (\<lambda>p. JNum (NInt 5)), src_fingerprintItem = (\<lambda>v. v)\<rparr>"

definition sample_sequence :: "jsv page_sequence result \<times> int list" where
  [js_eval]: "sample_sequence = fetchPageSequence id sample_source (JNum (NInt 2)) (JNum (NInt 1)) (JNum (NInt 3)) (JNum (NInt 9)) []"

lemma sample_sequence_fetched: "case sample_sequence of (Inl _, _) \<Rightarrow> False | (Inr seq, log) \<Rightarrow> True"
  by code_simp

theorem page_sequence_is_exact_witness:
  "case sample_sequence of (Inl _, _) \<Rightarrow> False
   | (Inr seq, log) \<Rightarrow> int (length (seq_items seq)) \<le> 9"
proof -
  obtain seq log where s: "sample_sequence = (Inr seq, log)"
    using sample_sequence_fetched by (auto split: prod.splits sum.splits)
  have "limits_of (JNum (NInt 2)) (JNum (NInt 1)) (JNum (NInt 3)) (JNum (NInt 9)) =
      Inr \<lparr>lim_pageSize = 2, lim_startPage = 1, lim_maxPages = 3, lim_maxItems = 9\<rparr>" by code_simp
  then show ?thesis
    unfolding s using page_sequence_is_exact [OF s [unfolded sample_sequence_def]] by auto
qed

text \<open>
  C25. A source that serves a fixed catalog, and advertises its size or nothing, is fetched
  completely: the result is the catalog, after one request for every page and, when the last page is
  full, one for the empty page behind it. The catalog must fit the bounds and its pages must have
  distinct fingerprints.
\<close>

theorem catalog_fetched_completely:
  assumes "1 \<le> psize" "psize \<le> max_safe" "1 \<le> start" "start \<le> max_safe"
    and "serves_catalog src (nat psize) start catalog" and "distinct_pages sha src (nat psize) catalog"
    and "1 \<le> maxItems" "maxItems \<le> max_safe" "int (length catalog) \<le> maxItems"
    and "maxPages \<le> max_safe" "int (length catalog div nat psize) < maxPages"
  shows "\<exists>seq env'. fetchPageSequence sha src (JNum (NInt psize)) (JNum (NInt start)) (JNum (NInt maxPages))
      (JNum (NInt maxItems)) env = (Inr seq, env') \<and>
    seq_items seq = catalog \<and> length (seq_pages seq) = length catalog div nat psize + 1"
proof -
  let ?lim = "\<lparr>lim_pageSize = psize, lim_startPage = start, lim_maxPages = maxPages, lim_maxItems = maxItems\<rparr>"
  have lim: "limits_of (JNum (NInt psize)) (JNum (NInt start)) (JNum (NInt maxPages)) (JNum (NInt maxItems)) = Inr ?lim"
    using assms by (simp add: limits_of_def requirePositiveInteger_def)
  have st: "catalog_state sha src (nat (lim_pageSize ?lim)) catalog 0 no_pages"
    by (simp add: catalog_state_def no_pages_def)
  have "\<exists>seq env'. fetch_pages (nat maxPages) sha src ?lim (start + int 0) no_pages env = (Inr seq, env') \<and>
      seq_items seq = catalog \<and>
      length (seq_pages seq) = length (sq_pages (no_pages :: 'b page_state)) + (length catalog div nat (lim_pageSize ?lim) - 0) + 1"
    by (rule fetch_catalog [OF _ _ _ _ _ _ _ st]) (use assms in auto)
  then show ?thesis unfolding fetchPageSequence_def lim by (simp add: no_pages_def)
qed

theorem catalog_fetched_completely_witness:
  "case fetchPageSequence id sample_source (JNum (NInt 2)) (JNum (NInt 1)) (JNum (NInt 3)) (JNum (NInt 9)) [] of
     (Inl _, _) \<Rightarrow> False | (Inr seq, _) \<Rightarrow> seq_items seq = sample_catalog \<and> length (seq_pages seq) = 3"
proof -
  have "serves_catalog sample_source (nat 2) 1 sample_catalog"
    by (simp add: serves_catalog_def sample_source_def catalog_page_def sample_catalog_def)
  moreover have "distinct_pages id sample_source (nat 2) sample_catalog"
    unfolding distinct_pages_def by code_simp
  moreover have "length sample_catalog = 5" by (simp add: sample_catalog_def)
  ultimately show ?thesis
    using catalog_fetched_completely [of 2 1 sample_source sample_catalog id 9 3 "[]"]
    by (auto simp: max_safe_def)
qed

end
