(* ===== verification/Query_Properties.thy ===== *)
theory Query_Properties
  imports Openapi_Queries Pagination_Properties
begin

text \<open>
  What the bounded queries promise, from the requests that the client sees to the orders that come
  out: the composition of the query, the page sequence and the mapper.
\<close>

section \<open>What the client served\<close>

text \<open>The client answers the requests for consecutive pages with responses that map to these pages.\<close>

fun served_orders ::
    "(string \<Rightarrow> int option) \<Rightarrow> instant_input \<Rightarrow> 'env api_client \<Rightarrow> (string \<times> jsv) list \<Rightarrow> jsv \<Rightarrow>
     int \<Rightarrow> order_page list \<Rightarrow> 'env \<Rightarrow> 'env \<Rightarrow> bool" where
  "served_orders engine t client query pageSize i [] env env' \<longleftrightarrow> env' = env"
| "served_orders engine t client query pageSize i (m # ms) env env' \<longleftrightarrow>
     (\<exists>data env1.
        client ''/open-api/order/purchase-order-infos'' (query @ [(''pageNumber'', JNum (NInt i)), (''pageSize'', pageSize)]) env
          = (Inr data, env1) \<and>
        mapPurchaseOrderResponse engine t data = Inr m \<and> op_page m = NInt i \<and>
        served_orders engine t client query pageSize (i + 1) ms env1 env')"

lemma order_source_step:
  assumes "src_fetchPage (order_source engine t client query pageSize) i env = (Inr r, env1)"
    and "src_getItems (order_source engine t client query pageSize) r = Some xs"
  shows "\<exists>data. client ''/open-api/order/purchase-order-infos''
      (query @ [(''pageNumber'', JNum (NInt i)), (''pageSize'', pageSize)]) env = (Inr data, env1) \<and>
    mapPurchaseOrderResponse engine t data = Inr (fst r) \<and> op_page (fst r) = NInt i \<and> op_orders (fst r) = xs"
  using assms
  by (auto simp: order_source_def order_page_of_def PURCHASE_ORDER_INFOS_PATH_def safe_int_Some_iff
      elim!: ebind_InrE split: prod.splits)

lemma order_run:
  assumes "page_run (order_source engine t client query pageSize) i env xss env'"
  shows "\<exists>ms. served_orders engine t client query pageSize i ms env env' \<and> map op_orders ms = xss"
  using assms
proof (induction rule: page_run.induct)
  case (serve page env r env1 xs xss env2)
  then obtain ms where ms: "served_orders engine t client query pageSize (page + 1) ms env1 env2" "map op_orders ms = xss"
    by blast
  with order_source_step [OF serve(1,2)] show ?case by (intro exI [of _ "fst r # ms"]) auto
qed (auto intro: exI [of _ "[]"])

section \<open>Bounded filters\<close>

text \<open>A filter that bounds the query: an identifier, or a time window.\<close>

definition bounding_filters :: "string list" where
  [js_eval]: "bounding_filters = [''orderNos'', ''skcs'', ''supplierCodes'', ''combineTimeStart'', ''updateTimeStart'']"

lemma base_query_bounded:
  assumes "order_base_query q = Inr (query, byUpdate)"
  shows "list_ex (\<lambda>k. k \<in> fst ` set query) bounding_filters \<and>
    (byUpdate \<longleftrightarrow> ''updateTimeStart'' \<in> fst ` set query)"
  using assms unfolding order_base_query_def
proof (elim ebind_InrE, goal_cases)
  case (1 a b c v w u ts n t)
  have e: "a \<noteq> [] \<or> b \<noteq> [] \<or> c \<noteq> [] \<or> v \<noteq> None \<or> w \<noteq> None" using 1(6) by simp
  have ts: "fst ` set ts \<subseteq> {''type''}" using 1(7) by (auto elim!: ebind_InrE split: if_splits)
  have q: "query = joined_field ''orderNos'' a @ joined_field ''skcs'' b @ joined_field ''supplierCodes'' c @ ts @
      window_fields ''combineTimeStart'' ''combineTimeEnd'' v @ window_fields ''updateTimeStart'' ''updateTimeEnd'' w @
      [(''selectJitMother'', JNum n)]" and u: "byUpdate \<longleftrightarrow> w \<noteq> None"
    using 1(10) by simp_all
  have j: "fst ` set (joined_field k xs) = (if xs = [] then {} else {k})" for k and xs :: "string list"
    by (simp add: joined_field_def)
  have f: "fst ` set (window_fields k l o') = (if o' = None then {} else {k, l})" for k l and o' :: "(jsv \<times> jsv) option"
    by (cases o') (auto simp: window_fields_def image_iff)
  have "fst ` set query = (if a = [] then {} else {''orderNos''}) \<union> (if b = [] then {} else {''skcs''}) \<union>
      (if c = [] then {} else {''supplierCodes''}) \<union> fst ` set ts \<union>
      (if v = None then {} else {''combineTimeStart'', ''combineTimeEnd''}) \<union>
      (if w = None then {} else {''updateTimeStart'', ''updateTimeEnd''}) \<union> {''selectJitMother''}"
    unfolding q by (simp add: image_Un j f Un_assoc)
  then show ?case using e u ts by (auto simp: bounding_filters_def split: if_splits)
qed

section \<open>Properties\<close>

text \<open>
  C28. A purchase-order query that returns has sent its one validated query for the pages from 1 on,
  each with an identifier filter or a time window; every response was mapped, carried the page that
  was asked for, and was full except the last one; the result is all their orders in order.
\<close>

theorem order_query_is_complete:
  assumes "fetchFullManagedPurchaseOrders sha engine client q env = (Inr r, env')"
  shows "\<exists>query psize pages. order_base_query q = Inr (query, qr_callerSuppliedOverlap r) \<and>
    list_ex (\<lambda>k. k \<in> fst ` set query) bounding_filters \<and> 1 \<le> psize \<and> psize \<le> 200 \<and>
    served_orders engine (oq_fetchedAt q) client query (JNum (NInt psize)) 1 pages env env' \<and>
    pages \<noteq> [] \<and> list_all (\<lambda>m. int (length (op_orders m)) = psize) (butlast pages) \<and>
    int (length (op_orders (last pages))) < psize \<and> qr_items r = concat (map op_orders pages)"
proof -
  define ps where "ps = or_default (oq_pageSize q) (JNum (NInt 200))"
  obtain psize query byUpdate where size: "requirePositiveInteger ps 200 = Inr psize"
    and query: "order_base_query q = Inr (query, byUpdate)"
    using assms unfolding fetchFullManagedPurchaseOrders_def Let_def ps_def [symmetric]
    by (auto elim!: ebind_InrE simp: MAX_PURCHASE_ORDER_PAGE_SIZE_def split: sum.splits)
  obtain seq where seq: "fetchPageSequence sha (order_source engine (oq_fetchedAt q) client query ps) ps (JNum (NInt 1))
      (default_max_pages (oq_maxPages q)) (or_default (oq_maxItems q) (JNum (NInt 1000000))) env = (Inr seq, env')"
    and r: "qr_items r = seq_items seq" "qr_callerSuppliedOverlap r = byUpdate"
    using assms size query unfolding fetchFullManagedPurchaseOrders_def Let_def ps_def [symmetric]
    by (auto elim!: ebind_InrE simp: MAX_PURCHASE_ORDER_PAGE_SIZE_def split: sum.splits prod.splits)
  have ps: "ps = JNum (NInt psize)" "1 \<le> psize" "psize \<le> 200"
    using size by (auto simp: requirePositiveInteger_def safe_int_Some_iff split: option.splits if_splits)
  obtain lim xss where lim: "limits_of ps (JNum (NInt 1)) (default_max_pages (oq_maxPages q))
        (or_default (oq_maxItems q) (JNum (NInt 1000000))) = Inr lim"
    and run: "page_run (order_source engine (oq_fetchedAt q) client query ps) (lim_startPage lim) env xss env'"
    and xss: "xss \<noteq> []" "list_all (\<lambda>xs. int (length xs) = lim_pageSize lim) (butlast xss)"
      "int (length (last xss)) < lim_pageSize lim" "seq_items seq = concat xss"
    using page_sequence_facts [OF seq] by blast
  have start: "lim_startPage lim = 1" "lim_pageSize lim = psize"
    using lim unfolding limits_of_def requirePositiveInteger_def ps(1)
    by (auto elim!: ebind_InrE split: option.splits if_splits)
  obtain ms where ms: "served_orders engine (oq_fetchedAt q) client query ps 1 ms env env'" "map op_orders ms = xss"
    using order_run [OF run] start by auto
  have "list_all (\<lambda>m. int (length (op_orders m)) = psize) (butlast ms)" "int (length (op_orders (last ms))) < psize"
    "ms \<noteq> []"
    using xss start unfolding ms(2) [symmetric] by (auto simp: list_all_iff last_map map_butlast [symmetric])
  then show ?thesis
    using query base_query_bounded [OF query] r ps ms xss(4)
    by (intro exI [of _ query] exI [of _ psize] exI [of _ ms]) simp
qed

definition sample_client :: "int list api_client" where
  [js_eval]: "sample_client path query log =
     (case map_of query ''pageNumber'' of
        Some (JNum (NInt p)) \<Rightarrow>
          (Inr (JObj [(''code'', JStr ''0''), (''info'', JObj
             [(''pageNo'', JNum (NInt p)), (''count'', JNum (NInt 3)),
              (''list'', JArr (map (\<lambda>n. JObj [(''orderNo'', JStr n)])
                (if p = 1 then [''PO1'', ''PO2''] else [''PO3''])))])]), log @ [p])
      | _ \<Rightarrow> (Inl TypeError, log))"

definition sample_order_query :: order_query where
  [js_eval]: "sample_order_query =
     \<lparr>oq_orderNos = JUndef, oq_skcs = JUndef, oq_supplierCodes = JUndef, oq_type = JUndef,
      oq_combineStart = JUndef, oq_combineEnd = JUndef, oq_updateStart = JStr ''2026-03-01 00:00:00'',
      oq_updateEnd = JStr ''2026-03-02 00:00:00'', oq_selectJitMother = JUndef, oq_pageSize = JNum (NInt 2),
      oq_maxPages = JNum (NInt 5), oq_maxItems = JUndef, oq_fetchedAt = At 1772500000000\<rparr>"

lemma sample_orders_fetched:
  "case fetchFullManagedPurchaseOrders id (\<lambda>_. None) sample_client sample_order_query [] of
     (Inl _, _) \<Rightarrow> False | (Inr r, log) \<Rightarrow> log = [1, 2] \<and> map po_orderNo (qr_items r) = [''PO1'', ''PO2'', ''PO3'']"
  by code_simp

theorem order_query_is_complete_witness:
  "case fetchFullManagedPurchaseOrders id (\<lambda>_. None) sample_client sample_order_query [] of
     (Inl _, _) \<Rightarrow> False
   | (Inr r, _) \<Rightarrow> \<exists>pages :: order_page list. qr_items r = concat (map op_orders pages) \<and> pages \<noteq> []"
proof -
  obtain r log where f: "fetchFullManagedPurchaseOrders id (\<lambda>_. None) sample_client sample_order_query [] = (Inr r, log)"
    using sample_orders_fetched by (auto split: prod.splits sum.splits)
  have "\<exists>pages :: order_page list. qr_items r = concat (map op_orders pages) \<and> pages \<noteq> []" using order_query_is_complete [OF f] by blast
  then show ?thesis by (simp add: f)
qed

section \<open>A blank delivery code\<close>

text \<open>
  A delivery query with a blank code filters by creation time alone and says so in its mode, but
  tells the caller that it need not overlap its windows.
\<close>

lemma blank_code_hides_overlap:
  "case fetchFullManagedDeliveries id (\<lambda>_. None) (\<lambda>path query log. (Inr (JObj
       [(''code'', JStr ''0''), (''info'', JObj [(''list'', JArr [])])]), log @ [map fst query]))
     \<lparr>dq_deliveryCode = JStr '' '', dq_startTime = JStr ''2026-03-01 00:00:00'', dq_endTime = JStr ''2026-03-02 00:00:00'',
      dq_pageSize = JUndef, dq_maxPages = JUndef, dq_maxItems = JUndef, dq_fetchedAt = At 1772500000000\<rparr> [] of
     (Inl _, _) \<Rightarrow> False
   | (Inr r, log) \<Rightarrow> log = [[''startTime'', ''endTime'', ''page'', ''perPage'']] \<and>
       qr_mode r = ROLLING_CREATION_TIME_LOOKBACK_REQUIRED \<and> \<not> qr_callerMustOverlap r"
  by code_simp

end
