(* ===== verification/Backfill_Cli.thy ===== *)
theory Backfill_Cli
  imports Purchase_Order_Adapter Paginated_Fetch
begin

text \<open>
  \<open>src/backfill/cli-support.mjs\<close> and \<open>scripts/run_full_managed_backfill.mjs\<close>: the command line of the
  backfill, from its arguments to the report it prints and its exit code. The execution runtime
  composes the ledger repository with the purchase-order adapter; loading modules, opening and
  closing pools is left out, and the environment variables, the loader of the configuration, the
  supply synchronisation and the clock are parameters.
\<close>

section \<open>Arguments\<close>

definition flag_name_char :: "char \<Rightarrow> bool" where
  [js_eval]: "flag_name_char c \<longleftrightarrow> is_lower c \<or> is_digit c \<or> c = CHR ''-''"

text \<open>\<open>.\<close> matches no line terminator.\<close>

definition line_break :: "char \<Rightarrow> bool" where
  [js_eval]: "line_break c \<longleftrightarrow> of_char c = (10 :: nat) \<or> of_char c = (13 :: nat)"

definition flag_match :: "string \<Rightarrow> (string \<times> string option) option" where
  [js_eval]: "flag_match token =
     (if \<not> starts_with ''--'' token then None
      else let name = takeWhile flag_name_char (drop 2 token); rest = dropWhile flag_name_char (drop 2 token)
           in case (name, rest) of
             ([], _) \<Rightarrow> None
           | (c # _, []) \<Rightarrow> if is_lower c then Some (name, None) else None
           | (c # _, d # v) \<Rightarrow>
               if is_lower c \<and> d = CHR ''='' \<and> \<not> list_ex line_break v then Some (name, Some v) else None)"

type_synonym flags = "(string \<times> string) list"

fun parse_tokens :: "string list option \<Rightarrow> string list \<Rightarrow> flags \<Rightarrow> flags result" where
  "parse_tokens permitted [] flags = Inr flags"
| "parse_tokens permitted (token # rest) flags =
     (case flag_match token of
        None \<Rightarrow> Inl (Fail ''CLI_ARGUMENT_INVALID'' [])
      | Some (name, v) \<Rightarrow>
        if name \<in> fst ` set flags then Inl (Fail ''CLI_FLAG_DUPLICATED'' name)
        else if (case permitted of None \<Rightarrow> False | Some ks \<Rightarrow> name \<notin> set ks) then Inl (Fail ''CLI_FLAG_UNKNOWN'' name)
        else parse_tokens permitted rest (flags @ [(name, case v of None \<Rightarrow> ''true'' | Some s \<Rightarrow> s)]))"

definition parseCliArguments :: "string list \<Rightarrow> string list option \<Rightarrow> flags result" where
  [js_eval]: "parseCliArguments argv allowedFlags = parse_tokens allowedFlags argv []"

definition flag_text :: "flags \<Rightarrow> string \<Rightarrow> string option" where
  [js_eval]: "flag_text flags name =
     (case map_of flags name of None \<Rightarrow> None | Some v \<Rightarrow> if js_trim v = [] then None else Some (js_trim v))"

definition requireFlag :: "flags \<Rightarrow> string \<Rightarrow> string result" where
  [js_eval]: "requireFlag flags name =
     (case flag_text flags name of None \<Rightarrow> Inl (Fail ''CLI_FLAG_REQUIRED'' name) | Some v \<Rightarrow> Inr v)"

definition optionalFlag :: "flags \<Rightarrow> string \<Rightarrow> jsv \<Rightarrow> jsv" where
  [js_eval]: "optionalFlag flags name fallback =
     (case flag_text flags name of None \<Rightarrow> fallback | Some v \<Rightarrow> JStr v)"

definition listFlag :: "flags \<Rightarrow> string \<Rightarrow> string list result" where
  [js_eval]: "listFlag flags name =
     ebind (requireFlag flags name) (\<lambda>v. Inr (filter (\<lambda>s. s \<noteq> []) (map js_trim (split_on CHR '','' v))))"

definition booleanFlag :: "flags \<Rightarrow> string \<Rightarrow> bool result" where
  [js_eval]: "booleanFlag flags name =
     (case map_of flags name of
        None \<Rightarrow> Inr False
      | Some v \<Rightarrow>
        if v = ''true'' \<or> v = ''1'' then Inr True
        else if v = ''false'' \<or> v = ''0'' then Inr False
        else Inl (Fail ''CLI_FLAG_NOT_BOOLEAN'' name))"

definition PLAN_FLAGS :: "string list" where
  [js_eval]: "PLAN_FLAGS = [''stores'', ''domains'', ''from'', ''to'', ''window-span-days'', ''concurrency'',
     ''max-attempts'', ''created-by'', ''today'']"

definition EXECUTE_FLAGS :: "string list" where
  [js_eval]: "EXECUTE_FLAGS = [''execute'', ''approved-plan-hash'', ''allow-stores'', ''allow-domains'']"

definition RUN_FLAGS :: "string list" where
  [js_eval]: "RUN_FLAGS = PLAN_FLAGS @ EXECUTE_FLAGS"

definition text_list :: "string list \<Rightarrow> jsv" where
  [js_eval]: "text_list ss = JArr (map JStr ss)"

definition planRequestFromFlags :: "flags \<Rightarrow> plan_request result" where
  [js_eval]: "planRequestFromFlags flags =
     ebind (listFlag flags ''stores'') (\<lambda>stores.
     ebind (listFlag flags ''domains'') (\<lambda>domains.
     ebind (requireFlag flags ''from'') (\<lambda>start.
     ebind (requireFlag flags ''to'') (\<lambda>until.
     ebind (requireFlag flags ''created-by'') (\<lambda>operator.
     Inr \<lparr>req_storeCodes = text_list stores, req_domains = text_list domains, req_from = JStr start, req_to = JStr until,
          req_today = optionalFlag flags ''today'' JUndef,
          req_windowSpanDays = optionalFlag flags ''window-span-days'' (JStr ''1''),
          req_concurrency = optionalFlag flags ''concurrency'' (JStr ''1''),
          req_maxAttempts = optionalFlag flags ''max-attempts'' (JStr ''3''),
          req_createdBy = JStr operator\<rparr>)))))"

section \<open>Output\<close>

definition secret_words :: "string list" where
  [js_eval]: "secret_words =
     [''cookie'', ''set-cookie'', ''authorization'', ''bearer '', ''token'', ''password'', ''passwd'', ''secret'',
      ''credential'', ''sessionid'', ''session-id'', ''csrf'', ''x-api-key'', ''/srv/shein-fm/webapi/profiles'',
      ''/srv/shein-fm/secrets'']"

definition profile_name :: "string \<Rightarrow> bool" where
  [js_eval]: "profile_name s \<longleftrightarrow> starts_with ''persistent-'' s \<and>
     (let r = drop 11 s; word = (\<lambda>c. is_lower c \<or> is_digit c)
      in takeWhile word r \<noteq> [] \<and> starts_with ''-profile'' (dropWhile word r))"

text \<open>The search ignores case, so it looks at the lower-case text.\<close>

definition secret_shaped :: "string \<Rightarrow> bool" where
  [js_eval]: "secret_shaped text' \<longleftrightarrow>
     found_in (\<lambda>s. list_ex (\<lambda>w. starts_with w s) secret_words \<or> profile_name s) (js_lower text')"

definition assertSafeCliOutput :: "jsv \<Rightarrow> string result" where
  [js_eval]: "assertSafeCliOutput payload =
     (case json_stringify payload of None \<Rightarrow> Inr ''undefined''
      | Some t \<Rightarrow> if secret_shaped t then Inl (Fail ''CLI_OUTPUT_REDACTION_VIOLATION'' []) else Inr t)"

text \<open>The line that is written.\<close>

definition printSafeJson :: "jsv \<Rightarrow> string result" where
  [js_eval]: "printSafeJson payload = ebind (assertSafeCliOutput payload) (\<lambda>t. Inr (t @ [CHR 0x0A]))"

definition error_code :: "fm_error \<Rightarrow> string" where
  [js_eval]: "error_code e = (case e of Fail c _ \<Rightarrow> c | TypeError \<Rightarrow> ''UNEXPECTED_ERROR'')"

definition sanitizedFailure :: "fm_error \<Rightarrow> jsv" where
  [js_eval]: "sanitizedFailure e =
     (let c = take 60 (map (\<lambda>c. if code_char c then c else CHR ''_'') (js_upper (error_code e)))
      in JObj [(''ok'', JBool False), (''errorCode'', JStr (if c = [] then ''UNEXPECTED_ERROR'' else c))])"

section \<open>The request\<close>

datatype cli_request =
    Rehearsal bf_plan
  | Execution bf_plan string "string list" "string list" authorization

definition parseRunRequest :: "(string \<Rightarrow> string) \<Rightarrow> string list \<Rightarrow> cli_request result" where
  [js_eval]: "parseRunRequest sha argv =
     ebind (parseCliArguments argv (Some RUN_FLAGS)) (\<lambda>flags.
     ebind (booleanFlag flags ''execute'') (\<lambda>execute.
     ebind (planRequestFromFlags flags) (\<lambda>request.
     ebind (buildBackfillPlan sha request) (\<lambda>plan.
     if \<not> execute then
       ebind (ensure (list_all (\<lambda>name. map_of flags name = None) [''approved-plan-hash'', ''allow-stores'', ''allow-domains''])
         (Fail ''CLI_EXECUTE_FLAG_WITHOUT_EXECUTE'' [])) (\<lambda>_. Inr (Rehearsal plan))
     else
       ebind (requireFlag flags ''approved-plan-hash'') (\<lambda>h.
       ebind (listFlag flags ''allow-stores'') (\<lambda>stores.
       ebind (listFlag flags ''allow-domains'') (\<lambda>domains.
       ebind (assertExecuteAuthorization plan (JStr h) (text_list stores) (text_list domains)) (\<lambda>auth.
       Inr (Execution plan h stores domains auth)))))))))"

section \<open>The runtime\<close>

record ('db, 'env) cli_runtime =
  rt_adapters :: "string \<Rightarrow> 'env adapter option"
  rt_repository :: "'db repository"
  rt_adapterKeys :: "string list"
  rt_executableStoreCodes :: "string list"

definition SUPPLY_DATABASE_URL_VARIABLE :: string where
  [js_eval]: "SUPPLY_DATABASE_URL_VARIABLE = ''FULL_BI_DATABASE_URL''"

definition OPENAPI_CONFIG_VARIABLES :: "string list" where
  [js_eval]: "OPENAPI_CONFIG_VARIABLES = [''FULL_BI_OPENAPI_CONFIG'', ''FULL_BI_OPENAPI_CONFIG_FILE'']"

definition given_variable :: "(string \<Rightarrow> string option) \<Rightarrow> string \<Rightarrow> string option" where
  [js_eval]: "given_variable vars name =
     (case vars name of None \<Rightarrow> None | Some v \<Rightarrow> if js_trim v = [] then None else Some v)"

text \<open>\<open>repositoryFor url\<close> is the ledger repository over a pool for the database.\<close>

definition createBackfillExecuteRuntime ::
    "(string \<Rightarrow> string) \<Rightarrow> (string \<Rightarrow> string option) \<Rightarrow> (string \<Rightarrow> jsv result) \<Rightarrow> 'env supply_sync \<Rightarrow>
     ('env \<Rightarrow> int option) \<Rightarrow> (string \<Rightarrow> 'db repository) \<Rightarrow> bf_plan \<Rightarrow>
     ('db, 'env adapter_state) cli_runtime result" where
  [js_eval]: "createBackfillExecuteRuntime sha vars loadConfig runSupplySync clock repositoryFor plan =
     (let windows = filter win_executable (plan_windows plan);
          stores = sort (dedupe (map win_storeCode windows));
          configPath = List.map_filter (given_variable vars) OPENAPI_CONFIG_VARIABLES in
      ebind (ensure (list_all (\<lambda>w. win_domain w = EXECUTABLE_BACKFILL_DOMAIN) windows)
        (Fail ''BACKFILL_EXECUTABLE_DOMAIN_UNEXPECTED'' [])) (\<lambda>_.
      case given_variable vars SUPPLY_DATABASE_URL_VARIABLE of
        None \<Rightarrow> Inl (Fail ''BACKFILL_SUPPLY_DATABASE_URL_MISSING'' [])
      | Some databaseUrl \<Rightarrow>
        ebind (ensure (stores = [] \<or> configPath \<noteq> []) (Fail ''BACKFILL_OPENAPI_CONFIG_MISSING'' [])) (\<lambda>_.
        ebind (if stores = [] then Inr []
               else ebind (loadConfig (hd configPath)) (\<lambda>config.
                    ebind (createPurchaseOrderBackfillAdapter sha runSupplySync clock config (JStr databaseUrl)
                      (text_list stores)) (\<lambda>A.
                    Inr [(PURCHASE_ORDER_BACKFILL_ADAPTER_KEY, fetchWindow A)]))) (\<lambda>adapters.
        Inr \<lparr>rt_adapters = map_of adapters, rt_repository = repositoryFor databaseUrl,
             rt_adapterKeys = sort (map fst adapters), rt_executableStoreCodes = stores\<rparr>))))"

section \<open>The report\<close>

fun execution_text :: "execution_status \<Rightarrow> string" where
  "execution_text PLANNED = ''PLANNED''"
| "execution_text BLOCKED = ''BLOCKED''"
| "execution_text RUNNING = ''RUNNING''"
| "execution_text SUCCEEDED = ''SUCCEEDED''"
| "execution_text PARTIAL = ''PARTIAL''"
| "execution_text FAILED = ''FAILED''"
| "execution_text SKIPPED = ''SKIPPED''"

fun quality_text :: "quality_status \<Rightarrow> string" where
  "quality_text UNKNOWN = ''UNKNOWN''"
| "quality_text PASSED = ''PASSED''"
| "quality_text MISSING_PAGE = ''MISSING_PAGE''"
| "quality_text SCHEMA_DRIFT = ''SCHEMA_DRIFT''"
| "quality_text MIXED_BUSINESS_DATE = ''MIXED_BUSINESS_DATE''"
| "quality_text ILLEGAL_DECIMAL = ''ILLEGAL_DECIMAL''"
| "quality_text UNKNOWN_METRIC = ''UNKNOWN_METRIC''"
| "quality_text REJECTED_ROWS = ''REJECTED_ROWS''"
| "quality_text COVERAGE_GAP = ''COVERAGE_GAP''"
| "quality_text ADAPTER_ERROR = ''ADAPTER_ERROR''"

fun run_status_text :: "run_status \<Rightarrow> string" where
  "run_status_text RUN_PLANNED = ''PLANNED''"
| "run_status_text RUN_RUNNING = ''RUNNING''"
| "run_status_text RUN_PARTIAL = ''PARTIAL''"
| "run_status_text RUN_SUCCEEDED = ''SUCCEEDED''"
| "run_status_text RUN_FAILED = ''FAILED''"
| "run_status_text RUN_CANCELLED = ''CANCELLED''"

definition window_report :: "window_result \<Rightarrow> jsv" where
  [js_eval]: "window_report r =
     (let w = wres_window r in JObj
      [(''storeCode'', JStr (win_storeCode w)), (''domain'', JStr (win_domain w)), (''adapterKey'', JStr (win_adapterKey w)),
       (''capabilityStatus'', JStr (status_text (win_capabilityStatus w))), (''windowStart'', JStr (win_windowStart w)),
       (''windowEnd'', JStr (win_windowEnd w)), (''windowKey'', JStr (win_windowKey w)),
       (''executionStatus'', JStr (execution_text (wres_execution r))),
       (''qualityStatus'', JStr (quality_text (wres_quality r))),
       (''sanitizedErrorCode'', optional_text (wres_code r)), (''attemptCount'', JNum (NInt (wres_attempts r))),
       (''checkpointAdvanced'', JBool (wres_advanced r))])"

definition toSafeRunReport :: "run_report \<Rightarrow> jsv" where
  [js_eval]: "toSafeRunReport rep =
     (let n = (\<lambda>k. JNum (NInt (int k))); c = rep_counts rep in JObj
      [(''ok'', JBool (rep_status rep \<noteq> RUN_FAILED)),
       (''mode'', JStr (if rep_execute rep then ''EXECUTE'' else ''DRY_RUN'')),
       (''planHash'', JStr (rep_planHash rep)), (''runStatus'', JStr (run_status_text (rep_status rep))),
       (''adapterInvocationCount'', n (rep_invocations rep)),
       (''counts'', JObj [(''planned'', n (cnt_planned c)), (''blocked'', n (cnt_blocked c)), (''skipped'', n (cnt_skipped c)),
          (''succeeded'', n (cnt_succeeded c)), (''partial'', n (cnt_partial c)), (''failed'', n (cnt_failed c))]),
       (''checkpointAdvancedCount'', n (rep_advanced rep)),
       (''blockedReasonCodes'', JArr (map optional_text (rep_blockedReasons rep))),
       (''windows'', JArr (map window_report (rep_windows rep))),
       (''note'', JStr (if rep_execute rep
          then ''Execute run. Only verified, incomplete purchase-order windows were attempted.''
          else ''Dry-run only. No adapter, connection or external request was created.''))])"

section \<open>The entry point\<close>

record cli_result =
  cr_exitCode :: int
  cr_out :: "string list"
  cr_err :: "string list"

text \<open>The codes of the three error classes that the entry point tells apart from all other errors.\<close>

definition own_codes :: "string list" where
  [js_eval]: "own_codes =
     [''INVALID_BUSINESS_DATE'', ''EMPTY_STORE_SCOPE'', ''INVALID_STORE_CODE'', ''STORE_SCOPE_TOO_LARGE'',
      ''EMPTY_DOMAIN_SCOPE'', ''UNKNOWN_DOMAIN'', ''DOMAIN_SCOPE_TOO_LARGE'', ''INVALID_BOUND'', ''INVALID_DATE_RANGE'',
      ''DATE_RANGE_TOO_LARGE'', ''FUTURE_DATE_RANGE'', ''INVALID_CREATED_BY'', ''WINDOW_COUNT_TOO_LARGE'',
      ''DUPLICATE_WINDOW'', ''BLOCKER_NOT_COLLAPSED'', ''MISSING_PLAN'', ''MISSING_APPROVED_PLAN_HASH'',
      ''PLAN_HASH_MISMATCH'', ''STORE_NOT_AUTHORIZED'', ''DOMAIN_NOT_AUTHORIZED'',
      ''CLI_ARGUMENT_INVALID'', ''CLI_FLAG_DUPLICATED'', ''CLI_FLAG_UNKNOWN'', ''CLI_FLAG_REQUIRED'',
      ''CLI_FLAG_NOT_BOOLEAN'', ''CLI_OUTPUT_REDACTION_VIOLATION'', ''CLI_EXECUTE_FLAG_WITHOUT_EXECUTE'',
      ''CLI_EXECUTE_PLAN_MISSING'', ''BACKFILL_EXECUTABLE_DOMAIN_UNEXPECTED'', ''BACKFILL_SUPPLY_DATABASE_URL_MISSING'',
      ''BACKFILL_OPENAPI_CONFIG_MISSING'', ''INVALID_MODE'', ''WINDOW_OUTCOME_NOT_PERSISTED'']"

definition own_error :: "fm_error \<Rightarrow> bool" where
  [js_eval]: "own_error e \<longleftrightarrow> (case e of Fail c _ \<Rightarrow> c \<in> set own_codes | TypeError \<Rightarrow> False)"

text \<open>
  The handler of errors prints the sanitized code; when even that is refused the entry point itself
  throws.
\<close>

definition report_failure :: "fm_error \<Rightarrow> cli_result result" where
  [js_eval]: "report_failure e =
     ebind (printSafeJson (sanitizedFailure e)) (\<lambda>line.
     Inr \<lparr>cr_exitCode = (if own_error e then 2 else 1), cr_out = [], cr_err = [line]\<rparr>)"

definition caught :: "cli_result result \<Rightarrow> cli_result result" where
  [js_eval]: "caught r = (case r of Inl e \<Rightarrow> report_failure e | Inr c \<Rightarrow> Inr c)"

definition rehearsal_report :: "run_report \<Rightarrow> cli_result result" where
  [js_eval]: "rehearsal_report rep =
     ebind (printSafeJson (toSafeRunReport rep)) (\<lambda>line. Inr \<lparr>cr_exitCode = 0, cr_out = [line], cr_err = []\<rparr>)"

definition execution_report :: "run_report \<Rightarrow> cli_result result" where
  [js_eval]: "execution_report rep =
     ebind (printSafeJson (toSafeRunReport rep)) (\<lambda>line.
     Inr \<lparr>cr_exitCode = (if rep_status rep \<noteq> RUN_FAILED \<and> rep_status rep = RUN_SUCCEEDED then 0 else 5),
          cr_out = (if rep_status rep \<noteq> RUN_FAILED then [line] else []),
          cr_err = (if rep_status rep \<noteq> RUN_FAILED then [] else [line])\<rparr>)"

definition rehearsal_options :: "bf_plan \<Rightarrow> js_instant \<Rightarrow> js_instant \<Rightarrow> ('db, 'env) run_options" where
  [js_eval]: "rehearsal_options plan startedAt completedAt =
     \<lparr>ro_plan = plan, ro_mode = ''DRY_RUN'', ro_adapters = (\<lambda>_. None), ro_repository = NULL_REPOSITORY,
      ro_approvedPlanHash = JUndef, ro_allowedStoreCodes = JUndef, ro_allowedDomains = JUndef,
      ro_startedAt = startedAt, ro_completedAt = completedAt, ro_createdBy = None\<rparr>"

definition execution_options ::
    "bf_plan \<Rightarrow> string \<Rightarrow> string list \<Rightarrow> string list \<Rightarrow> ('db, 'env) cli_runtime \<Rightarrow> js_instant \<Rightarrow> js_instant \<Rightarrow>
     ('db, 'env) run_options" where
  [js_eval]: "execution_options plan h stores domains rt startedAt completedAt =
     \<lparr>ro_plan = plan, ro_mode = ''EXECUTE'', ro_adapters = rt_adapters rt, ro_repository = rt_repository rt,
      ro_approvedPlanHash = JStr h, ro_allowedStoreCodes = text_list stores, ro_allowedDomains = text_list domains,
      ro_startedAt = startedAt, ro_completedAt = completedAt, ro_createdBy = Some (plan_createdBy plan)\<rparr>"

text \<open>\<open>order\<close> is the order in which the windows of the run finish.\<close>

definition cli_main ::
    "(string \<Rightarrow> string) \<Rightarrow> (bf_plan \<Rightarrow> ('db, 'env) cli_runtime result) \<Rightarrow> js_instant \<Rightarrow> js_instant \<Rightarrow> entry list \<Rightarrow>
     string list \<Rightarrow> 'db \<Rightarrow> 'env \<Rightarrow> cli_result result \<times> 'db \<times> 'env" where
  [js_eval]: "cli_main sha createRuntime startedAt completedAt order argv db env =
     (case parseRunRequest sha argv of
        Inl e \<Rightarrow> (report_failure e, db, env)
      | Inr (Rehearsal plan) \<Rightarrow>
        (case runBackfillPlan (rehearsal_options plan startedAt completedAt) order db env of
           (r, db', env') \<Rightarrow> (caught (ebind r rehearsal_report), db', env'))
      | Inr (Execution plan h stores domains auth) \<Rightarrow>
        (case createRuntime plan of
           Inl e \<Rightarrow> (report_failure e, db, env)
         | Inr rt \<Rightarrow>
           (case runBackfillPlan (execution_options plan h stores domains rt startedAt completedAt) order db env of
              (r, db', env') \<Rightarrow> (caught (ebind r execution_report), db', env'))))"

end
