(* ===== verification/Cli_Properties.thy ===== *)
theory Cli_Properties
  imports Backfill_Cli Runner_Ledger
begin

text \<open>
  What the command line of the backfill promises, end to end: which invocations can change anything,
  what exit code 0 means, and when the report of a run is withheld.
\<close>

section \<open>Requests\<close>

lemma approved_scope:
  assumes "assertExecuteAuthorization plan h ss ds = Inr a"
  shows "\<exists>t. js_string_or_empty h = Inr t \<and> js_lower (js_trim t) = plan_planHash plan \<and>
    normalizeStoreCodes ss = Inr (plan_storeCodes plan) \<and> normalizeDomains ds = Inr (plan_domains plan)"
  using assms by (auto simp: assertExecuteAuthorization_def ebind_Inr_iff)

text \<open>What the arguments say when they ask for an execution.\<close>

definition approved_invocation ::
    "(string \<Rightarrow> string) \<Rightarrow> string list \<Rightarrow> bf_plan \<Rightarrow> string \<Rightarrow> string list \<Rightarrow> string list \<Rightarrow> bool" where
  "approved_invocation sha argv plan h stores domains \<longleftrightarrow>
     (\<exists>flags request. parseCliArguments argv (Some RUN_FLAGS) = Inr flags \<and> booleanFlag flags ''execute'' = Inr True \<and>
        planRequestFromFlags flags = Inr request \<and> buildBackfillPlan sha request = Inr plan \<and>
        requireFlag flags ''approved-plan-hash'' = Inr h \<and> js_lower (js_trim h) = plan_planHash plan \<and>
        listFlag flags ''allow-stores'' = Inr stores \<and> normalizeStoreCodes (text_list stores) = Inr (plan_storeCodes plan) \<and>
        listFlag flags ''allow-domains'' = Inr domains \<and> normalizeDomains (text_list domains) = Inr (plan_domains plan))"

lemma execution_approved:
  assumes "parseRunRequest sha argv = Inr (Execution plan h stores domains auth)"
  shows "approved_invocation sha argv plan h stores domains"
proof -
  obtain flags execute request plan' where p: "parseCliArguments argv (Some RUN_FLAGS) = Inr flags"
      "booleanFlag flags ''execute'' = Inr execute" "planRequestFromFlags flags = Inr request"
      "buildBackfillPlan sha request = Inr plan'"
    and rest: "(if \<not> execute then
       ebind (ensure (list_all (\<lambda>name. map_of flags name = None) [''approved-plan-hash'', ''allow-stores'', ''allow-domains''])
         (Fail ''CLI_EXECUTE_FLAG_WITHOUT_EXECUTE'' [])) (\<lambda>_. Inr (Rehearsal plan'))
     else
       ebind (requireFlag flags ''approved-plan-hash'') (\<lambda>h.
       ebind (listFlag flags ''allow-stores'') (\<lambda>stores.
       ebind (listFlag flags ''allow-domains'') (\<lambda>domains.
       ebind (assertExecuteAuthorization plan' (JStr h) (text_list stores) (text_list domains)) (\<lambda>auth.
       Inr (Execution plan' h stores domains auth)))))) = Inr (Execution plan h stores domains auth)"
    using assms unfolding parseRunRequest_def by (elim ebind_InrE) blast
  have execute using rest by (cases execute) (auto elim!: ebind_InrE)
  then have "requireFlag flags ''approved-plan-hash'' = Inr h" "listFlag flags ''allow-stores'' = Inr stores"
    "listFlag flags ''allow-domains'' = Inr domains" "plan' = plan"
    "assertExecuteAuthorization plan (JStr h) (text_list stores) (text_list domains) = Inr auth"
    using rest by (auto elim!: ebind_InrE)
  moreover from this(5) have "js_lower (js_trim h) = plan_planHash plan"
    "normalizeStoreCodes (text_list stores) = Inr (plan_storeCodes plan)"
    "normalizeDomains (text_list domains) = Inr (plan_domains plan)"
    using approved_scope by (fastforce simp: js_string_or_empty_def coalesce_def nullish_def)+
  ultimately show ?thesis using p \<open>execute\<close> unfolding approved_invocation_def by auto
qed

section \<open>Runs\<close>

lemma rehearsal_run:
  "\<exists>rep. runBackfillPlan (rehearsal_options plan s c) order db env = (Inr rep, db, env)"
proof -
  have "run_entries (run_config_of (rehearsal_options plan s c) False None db) order
      (run_state_of (rehearsal_options plan s c) False db env) =
    (Inr (map (\<lambda>(i, w). (i, rehearsed w)) order), run_state_of (rehearsal_options plan s c) False db env)"
    by (rule rehearse_entries) simp
  then show ?thesis by (simp add: runBackfillPlan_def finish_run_def rehearsal_options_def Let_def)
qed

lemma execution_succeeded:
  assumes "runBackfillPlan o' order db env = (Inr rep, db', env')" "ro_mode o' = ''EXECUTE''"
  shows "rep_status rep = RUN_SUCCEEDED \<longleftrightarrow> list_all (\<lambda>r. wres_execution r \<in> {SUCCEEDED, SKIPPED}) (rep_windows rep)"
proof (rule execute_cases [OF assms])
  fix auth h db1 irs st c
  assume es: "run_entries (run_config_of o' True (rh_id h) db1) order (run_state_of o' True db1 env) = (Inr irs, st)"
    and rep: "rep = report_of True (plan_planHash (ro_plan o')) (rh_id h) (Some auth) (rs_invocations st)
       (map snd (sort_key fst irs))"
  have ws: "rep_windows rep = map snd (sort_key fst irs)" by (simp only: rep report_fields)
  have "wres_execution r \<in> {BLOCKED, SKIPPED, SUCCEEDED, PARTIAL, FAILED}" if "r \<in> set (rep_windows rep)" for r
    using run_entries_shape [OF es run_config_prior_ok] that unfolding ws
    by (intro execute_executions [of o' "rh_id h" db1]) (auto simp: list_all_iff)
  then have "run_status_of True (count_results (rep_windows rep)) = RUN_SUCCEEDED \<longleftrightarrow>
      (\<forall>r\<in>set (rep_windows rep). wres_execution r \<in> {SUCCEEDED, SKIPPED})"
    by (subst run_status_execute) auto
  moreover have "rep_status rep = run_status_of True (count_results (rep_windows rep))" by (simp only: rep report_fields)
  ultimately show ?thesis by (simp add: list_all_iff)
qed

section \<open>Withheld reports\<close>

lemma found_in_here: "p s \<Longrightarrow> found_in p s"
  by (cases s) auto

lemma found_in_append: "(\<And>s t. p s \<Longrightarrow> p (s @ t)) \<Longrightarrow> found_in p s \<Longrightarrow> found_in p (a @ s @ b)"
proof (induction a)
  case Nil
  show ?case using Nil.prems(2)
  proof (induction s)
    case Nil
    then show ?case using \<open>\<And>s t. p s \<Longrightarrow> p (s @ t)\<close> [of "[]" b] by (auto intro: found_in_here)
  next
    case (Cons c s)
    then show ?case using \<open>\<And>s t. p s \<Longrightarrow> p (s @ t)\<close> [of "c # s" b] by auto
  qed
qed simp

definition secret_part :: "string \<Rightarrow> bool" where
  "secret_part s \<longleftrightarrow> list_ex (\<lambda>w. starts_with w s) secret_words"

lemma secret_part_append: "secret_part s \<Longrightarrow> secret_part (s @ t)"
proof -
  have "starts_with w (s @ t)" if "starts_with w s" "w \<noteq> []" for w
    using that by (metis append_take_drop_id starts_with_def append_assoc append_eq_conv_conj)
  moreover have "[] \<notin> set secret_words" by (simp add: secret_words_def)
  ultimately show "secret_part s \<Longrightarrow> secret_part (s @ t)" by (auto simp: secret_part_def list_ex_iff)
qed

lemma found_in_mono: "(\<And>s. p s \<Longrightarrow> q s) \<Longrightarrow> found_in p s \<Longrightarrow> found_in q s"
  by (induction s) auto

lemma secret_shaped_part:
  assumes "found_in secret_part (js_lower w)"
  shows "secret_shaped (a @ w @ b)"
proof -
  have "found_in secret_part (js_lower a @ js_lower w @ js_lower b)"
    by (rule found_in_append [OF secret_part_append assms])
  then show ?thesis
    unfolding secret_shaped_def js_lower_def map_append
    by (rule found_in_mono [rotated]) (simp add: secret_part_def)
qed

lemma join_with_element: "s \<in> set ss \<Longrightarrow> \<exists>a b. join_with sep ss = a @ s @ b"
proof (induction ss)
  case (Cons u us)
  have j: "join_with sep (u # us) = u @ (if us = [] then [] else sep @ join_with sep us)" by (cases us) simp_all
  show ?case
  proof (cases "s = u")
    case False
    then have "s \<in> set us" using Cons.prems by simp
    then obtain a b where "join_with sep us = a @ s @ b" using Cons.IH by blast
    moreover have "us \<noteq> []" using \<open>s \<in> set us\<close> by auto
    ultimately have "join_with sep (u # us) = (u @ sep @ a) @ s @ b" using j by simp
    then show ?thesis by blast
  qed (metis j append_Nil)
qed simp

text \<open>A text \<open>w\<close> occurs in the printed form of a value.\<close>

definition shown_in :: "string \<Rightarrow> jsv \<Rightarrow> bool" where
  "shown_in w v \<longleftrightarrow> (\<exists>t a b. json_stringify v = Some t \<and> t = a @ w @ b)"

lemma shown_in_array:
  assumes "v \<in> set vs" "shown_in w v"
  shows "shown_in w (JArr vs)"
proof -
  obtain t a b where t: "json_stringify v = Some t" "t = a @ w @ b" using assms(2) by (auto simp: shown_in_def)
  let ?ts = "map (\<lambda>v. case json_stringify v of None \<Rightarrow> ''null'' | Some t \<Rightarrow> t) vs"
  have "t \<in> set ?ts" using assms(1) t(1) by force
  then obtain c d where "join_with '','' ?ts = c @ t @ d" using join_with_element by blast
  then have "json_stringify (JArr vs) = Some ((''['' @ c @ a) @ w @ (b @ d @ '']''))" by (simp add: t(2))
  then show ?thesis unfolding shown_in_def by blast
qed

lemma shown_in_field:
  assumes "(k, v) \<in> set ps" "shown_in w v"
  shows "shown_in w (JObj ps)"
proof -
  obtain t a b where t: "json_stringify v = Some t" "t = a @ w @ b" using assms(2) by (auto simp: shown_in_def)
  let ?ts = "concat (map (\<lambda>(k, v). case json_stringify v of None \<Rightarrow> [] | Some t \<Rightarrow> [json_quote k @ '':'' @ t]) ps)"
  have "json_quote k @ '':'' @ t \<in> set ?ts" using assms(1) t(1) by force
  then obtain c d where "join_with '','' ?ts = c @ (json_quote k @ '':'' @ t) @ d" using join_with_element by blast
  then have "json_stringify (JObj ps) = Some ((''{'' @ c @ json_quote k @ '':'' @ a) @ w @ (b @ d @ ''}''))"
    by (simp add: t(2))
  then show ?thesis unfolding shown_in_def by blast
qed

lemma code_shown:
  assumes "r \<in> set (rep_windows rep)" "wres_code r = Some c" "\<exists>a b. json_quote c = a @ w @ b"
  shows "shown_in w (toSafeRunReport rep)"
proof -
  have "shown_in w (JStr c)" using assms(3) by (auto simp: shown_in_def)
  then have "shown_in w (window_report r)"
    unfolding window_report_def Let_def
    by (rule shown_in_field [of "''sanitizedErrorCode''", rotated]) (simp add: optional_text_def assms(2))
  then have "shown_in w (JArr (map window_report (rep_windows rep)))" by (rule shown_in_array [rotated]) (simp add: assms(1))
  then show ?thesis
    unfolding toSafeRunReport_def Let_def by (rule shown_in_field [of "''windows''", rotated]) simp
qed

section \<open>Properties\<close>

text \<open>
  C29. An invocation changes the database or the environment only when its arguments ask for an
  execution and restate the approval: the explicit hash is the hash of the plan that the same
  arguments build, and the explicit store and domain lists are exactly those of the plan. What it
  then does is one run of this plan over the runtime. Every other invocation leaves everything as it
  was, whatever it prints.
\<close>

theorem cli_changes_need_approval:
  "case cli_main sha createRuntime startedAt completedAt order argv db env of (r, db', env') \<Rightarrow>
     db' = db \<and> env' = env \<or>
     (\<exists>plan h stores domains rt run. approved_invocation sha argv plan h stores domains \<and> createRuntime plan = Inr rt \<and>
        runBackfillPlan (execution_options plan h stores domains rt startedAt completedAt) order db env = (run, db', env') \<and>
        r = caught (ebind run execution_report))"
proof (cases "parseRunRequest sha argv")
  case (Inr request)
  show ?thesis
  proof (cases request)
    case (Rehearsal plan)
    obtain rep where "runBackfillPlan (rehearsal_options plan startedAt completedAt) order db env = (Inr rep, db, env)"
      using rehearsal_run [of plan startedAt completedAt order db env] by (elim exE)
    then show ?thesis using Inr Rehearsal by (simp add: cli_main_def)
  next
    case (Execution plan h stores domains auth)
    have a: "approved_invocation sha argv plan h stores domains" using Inr Execution by (intro execution_approved) simp
    show ?thesis
    proof (cases "createRuntime plan")
      case rt: (Inr rt)
      obtain run db' env' where "runBackfillPlan (execution_options plan h stores domains rt startedAt completedAt) order db env =
          (run, db', env')" by (metis prod_cases3)
      then show ?thesis using Inr Execution a rt by (simp add: cli_main_def) blast
    qed (use Inr Execution in \<open>simp add: cli_main_def\<close>)
  qed
qed (simp add: cli_main_def)

lemma failure_exit: "report_failure e = Inr c \<Longrightarrow> cr_exitCode c \<in> {1, 2}"
  by (auto simp: report_failure_def elim!: ebind_InrE split: if_splits)

lemma execution_exit:
  "caught (ebind run execution_report) = Inr c \<Longrightarrow>
    cr_exitCode c = 0 \<longleftrightarrow> (\<exists>rep line. run = Inr rep \<and> rep_status rep = RUN_SUCCEEDED \<and>
      printSafeJson (toSafeRunReport rep) = Inr line \<and> cr_out c = [line] \<and> cr_err c = [])"
  by (cases run; cases "printSafeJson (toSafeRunReport (projr run))")
    (auto simp: caught_def execution_report_def dest!: failure_exit split: if_splits)

lemma rehearsal_exit:
  "caught (rehearsal_report rep) = Inr c \<Longrightarrow>
    cr_exitCode c = 0 \<longleftrightarrow> (\<exists>line. printSafeJson (toSafeRunReport rep) = Inr line \<and> cr_out c = [line] \<and> cr_err c = [])"
  by (cases "printSafeJson (toSafeRunReport rep)") (auto simp: caught_def rehearsal_report_def dest!: failure_exit)

text \<open>
  C30. The exit code is 0 exactly for a printed rehearsal, and for a printed execution in which every
  window succeeded or had been completed before. A blocked, partial or failed window, a refused
  request, an error of the run and a withheld report always show in the exit code.
\<close>

theorem cli_success_means_done:
  "case cli_main sha createRuntime startedAt completedAt order argv db env of
     (Inl _, _, _) \<Rightarrow> True
   | (Inr c, db', env') \<Rightarrow> cr_exitCode c = 0 \<longleftrightarrow>
       (\<exists>plan rep line. parseRunRequest sha argv = Inr (Rehearsal plan) \<and>
          runBackfillPlan (rehearsal_options plan startedAt completedAt) order db env = (Inr rep, db', env') \<and>
          printSafeJson (toSafeRunReport rep) = Inr line \<and> cr_out c = [line] \<and> cr_err c = []) \<or>
       (\<exists>plan h stores domains auth rt rep line. parseRunRequest sha argv = Inr (Execution plan h stores domains auth) \<and>
          createRuntime plan = Inr rt \<and>
          runBackfillPlan (execution_options plan h stores domains rt startedAt completedAt) order db env = (Inr rep, db', env') \<and>
          list_all (\<lambda>r. wres_execution r \<in> {SUCCEEDED, SKIPPED}) (rep_windows rep) \<and>
          printSafeJson (toSafeRunReport rep) = Inr line \<and> cr_out c = [line] \<and> cr_err c = [])"
proof -
  obtain r db' env' where m: "cli_main sha createRuntime startedAt completedAt order argv db env = (r, db', env')"
    by (metis prod_cases3)
  have zero: "report_failure e = Inr c \<Longrightarrow> cr_exitCode c \<noteq> 0" for e c using failure_exit [of e c] by auto
  show ?thesis
  proof (cases r)
    case (Inr c)
    consider (error) e where "parseRunRequest sha argv = Inl e"
      | (rehearsal) plan where "parseRunRequest sha argv = Inr (Rehearsal plan)"
      | (execution) plan h stores domains auth where "parseRunRequest sha argv = Inr (Execution plan h stores domains auth)"
      by (metis cli_request.exhaust sum.exhaust)
    then show ?thesis
    proof cases
      case error
      then show ?thesis using m Inr zero by (auto simp: cli_main_def)
    next
      case rehearsal
      obtain rep where rep: "runBackfillPlan (rehearsal_options plan startedAt completedAt) order db env = (Inr rep, db, env)"
        using rehearsal_run [of plan startedAt completedAt order db env] by (elim exE)
      then have "caught (rehearsal_report rep) = Inr c" using m Inr rehearsal by (simp add: cli_main_def)
      from rehearsal_exit [OF this] show ?thesis using m Inr rehearsal rep by (simp add: cli_main_def)
    next
      case execution
      show ?thesis
      proof (cases "createRuntime plan")
        case (Inl e)
        then show ?thesis using m Inr execution zero by (auto simp: cli_main_def)
      next
        case rt: (Inr rt)
        let ?o = "execution_options plan h stores domains rt startedAt completedAt"
        obtain run where run: "runBackfillPlan ?o order db env = (run, db', env')" "caught (ebind run execution_report) = Inr c"
          using m Inr rt execution by (auto simp: cli_main_def split: prod.splits)
        have mode: "ro_mode ?o = ''EXECUTE''" by (simp add: execution_options_def)
        have "rep_status rep = RUN_SUCCEEDED \<longleftrightarrow> list_all (\<lambda>r. wres_execution r \<in> {SUCCEEDED, SKIPPED}) (rep_windows rep)"
          if "run = Inr rep" for rep by (rule execution_succeeded [OF run(1) [unfolded that] mode])
        then show ?thesis using execution_exit [OF run(2)] run(1) m Inr rt execution by auto
      qed
    qed
  qed (simp add: m)
qed

text \<open>The watched words as a code of a window can spell them, and a code that contains one of them.\<close>

definition code_words :: "string list" where
  "code_words = [''COOKIE'', ''AUTHORIZATION'', ''TOKEN'', ''PASSWORD'', ''PASSWD'', ''SECRET'', ''CREDENTIAL'', ''SESSIONID'', ''CSRF'']"

definition names_secret :: "string \<Rightarrow> bool" where
  "names_secret c \<longleftrightarrow> (\<exists>w\<in>set code_words. \<exists>a b. c = a @ w @ b)"

lemma code_word_quoted: "w \<in> set code_words \<Longrightarrow> concat (map json_escape w) = w \<and> found_in secret_part (js_lower w)"
proof -
  have "\<forall>w\<in>set code_words. concat (map json_escape w) = w" unfolding code_words_def by (simp add: json_escape_def)
  moreover have "\<forall>w\<in>set code_words. found_in secret_part (js_lower w)"
    unfolding code_words_def list.set ball_simps secret_part_def by (intro conjI TrueI; code_simp)
  ultimately show "w \<in> set code_words \<Longrightarrow> concat (map json_escape w) = w \<and> found_in secret_part (js_lower w)" by blast
qed

text \<open>
  C39. When a window ends with a code that contains one of the words that the output guard watches for, as the
  code of a missing credential does, the report of the whole run is withheld: for an execution as for a
  rehearsal the entry point prints nothing but the refusal and exits with 2, the exit code of a rejected
  request.
\<close>

theorem watched_codes_withhold_reports:
  assumes "r \<in> set (rep_windows rep)" "wres_code r = Some c" "names_secret c"
  shows "caught (execution_report rep) = Inr \<lparr>cr_exitCode = 2, cr_out = [],
      cr_err = [''{\"ok\":false,\"errorCode\":\"CLI_OUTPUT_REDACTION_VIOLATION\"}'' @ [CHR 0x0A]]\<rparr>
    \<and> caught (rehearsal_report rep) = caught (execution_report rep)"
proof -
  obtain w a b where w: "w \<in> set code_words" "c = a @ w @ b" using assms(3) by (auto simp: names_secret_def)
  have "json_quote c = (CHR 0x22 # concat (map json_escape a)) @ w @ (concat (map json_escape b) @ [CHR 0x22])"
    using code_word_quoted [OF w(1)] by (simp add: json_quote_def w(2))
  then obtain t u v where t: "json_stringify (toSafeRunReport rep) = Some t" "t = u @ w @ v"
    using code_shown [OF assms(1,2)] unfolding shown_in_def by blast
  have "secret_shaped t" unfolding t(2) using code_word_quoted [OF w(1)] by (intro secret_shaped_part) simp
  then have "printSafeJson (toSafeRunReport rep) = Inl (Fail ''CLI_OUTPUT_REDACTION_VIOLATION'' [])"
    by (simp add: printSafeJson_def assertSafeCliOutput_def t(1))
  moreover have "report_failure (Fail ''CLI_OUTPUT_REDACTION_VIOLATION'' []) = Inr \<lparr>cr_exitCode = 2, cr_out = [],
      cr_err = [''{\"ok\":false,\"errorCode\":\"CLI_OUTPUT_REDACTION_VIOLATION\"}'' @ [CHR 0x0A]]\<rparr>" by code_simp
  ultimately show ?thesis by (simp add: caught_def execution_report_def rehearsal_report_def)
qed

theorem watched_codes_withhold_reports_witness:
  "case caught (execution_report (report_of True (replicate 64 CHR ''a'') (Some 1) None 1
      [passive_result sample_window FAILED ADAPTER_ERROR (Some ''MISSING_CREDENTIAL'')])) of
     Inl _ \<Rightarrow> False | Inr c \<Rightarrow> cr_exitCode c = 2 \<and> cr_out c = []"
proof -
  have "names_secret ''MISSING_CREDENTIAL''"
    unfolding names_secret_def by (intro bexI [of _ "''CREDENTIAL''"] exI [of _ "''MISSING_''"] exI [of _ "[]"]) (simp_all add: code_words_def)
  then show ?thesis
    using watched_codes_withhold_reports [of "passive_result sample_window FAILED ADAPTER_ERROR (Some ''MISSING_CREDENTIAL'')"
        "report_of True (replicate 64 CHR ''a'') (Some 1) None 1 [passive_result sample_window FAILED ADAPTER_ERROR (Some ''MISSING_CREDENTIAL'')]"
        "''MISSING_CREDENTIAL''"]
    by (simp add: passive_result_def)
qed

end
