(* ===== verification/Authorization_Store.thy ===== *)
theory Authorization_Store
  imports Js_Text Js_Date
begin

text \<open>
  \<open>src/authorization/file-store.mjs\<close>: the state file of the store authorization. The file is the
  record \<open>auth_file\<close> (\<open>None\<close> while it does not exist); every operation is one critical section
  that reads and validates it, runs its body on the state in memory, and writes the state back
  when the body returns, or when it fails with an error that asks for the state to be persisted.
  Instants are kept as the milliseconds of their ISO texts; a \<open>Date\<close> argument is \<open>None\<close> when its time
  value is not a number. The lock file, file modes and the failures of the disk are not modelled.
\<close>

section \<open>The state file\<close>

datatype batch_status = ACTIVE | COMPLETED | REVOKED

datatype store_status = NOT_STARTED | AUTHORIZING | REVIEW_REQUIRED | APPROVED | REJECTED | ERROR

datatype state_status = PENDING | PROCESSING | SUCCEEDED | FAILED | EXPIRED

record auth_store =
  as_storeCode :: string
  as_applicationStoreCode :: "string option"
  as_applicationReady :: "bool option"
  as_status :: store_status
  as_attemptCount :: int
  as_authorizedAt :: "int option"
  as_reviewedAt :: "int option"
  as_platformStoreName :: "string option"
  as_supplierId :: "string option"
  as_accountNo :: "string option"
  as_receiptFile :: "string option"
  as_fingerprint :: "string option"
  as_lastErrorCode :: "string option"

record auth_batch =
  ab_batchId :: string
  ab_label :: string
  ab_tokenHash :: string
  ab_status :: batch_status
  ab_createdAt :: int
  ab_expiresAt :: int
  ab_completedAt :: "int option"
  ab_stores :: "auth_store list"

record auth_state =
  at_stateHash :: string
  at_batchId :: string
  at_storeCode :: string
  at_applicationStoreCode :: "string option"
  at_status :: state_status
  at_createdAt :: int
  at_expiresAt :: int
  at_processingAt :: "int option"
  at_completedAt :: "int option"
  at_failureCode :: "string option"

record auth_file =
  af_batches :: "auth_batch list"
  af_states :: "auth_state list"

text \<open>
  \<open>AuthorizationStoreError\<close> carries its code and \<open>persistState\<close>; the other two are what the
  language throws.
\<close>

datatype auth_error = StoreError string bool | BadArgument | InvalidDate

type_synonym 'a auth_result = "auth_error + 'a"

definition blankState :: auth_file where
  [js_eval]: "blankState = \<lparr>af_batches = [], af_states = []\<rparr>"

text \<open>\<open>/^[A-Z0-9_-]{1,24}$/\<close> and \<open>/^[0-9a-f]{64}$/\<close>\<close>

definition STORE_CODES :: "string \<Rightarrow> bool" where
  [js_eval]: "STORE_CODES s =
     matches_span (\<lambda>c. is_upper c \<or> is_digit c \<or> c = CHR ''_'' \<or> c = CHR ''-'') 1 24 s"

abbreviation SHA256 :: "string \<Rightarrow> bool" where
  "SHA256 \<equiv> hex64_pattern"

section \<open>Dates\<close>

text \<open>Time values reach 8.64e15 milliseconds on both sides of the epoch.\<close>

definition valid_time :: "int \<Rightarrow> bool" where
  [js_eval]: "valid_time t \<longleftrightarrow> \<bar>t\<bar> \<le> 8640000000000000"

definition new_date :: "int option \<Rightarrow> int option" where
  [js_eval]: "new_date d = (case d of Some t \<Rightarrow> if valid_time t then Some t else None | None \<Rightarrow> None)"

text \<open>\<open>Date.parse(text) <= now.getTime()\<close>; no number is below \<open>NaN\<close>.\<close>

definition at_or_before :: "int \<Rightarrow> int option \<Rightarrow> bool" where
  [js_eval]: "at_or_before t d = (case d of None \<Rightarrow> False | Some n \<Rightarrow> t \<le> n)"

section \<open>Validation\<close>

definition valid_store :: "auth_store \<Rightarrow> bool" where
  [js_eval]: "valid_store s \<longleftrightarrow>
     STORE_CODES (as_storeCode s)
     \<and> (case as_applicationStoreCode s of None \<Rightarrow> True | Some a \<Rightarrow> STORE_CODES a)
     \<and> as_attemptCount s \<le> 9007199254740991 \<and> 0 \<le> as_attemptCount s"

definition valid_batch :: "auth_batch \<Rightarrow> bool" where
  [js_eval]: "valid_batch b \<longleftrightarrow>
     SHA256 (ab_tokenHash b) \<and> valid_time (ab_createdAt b) \<and> valid_time (ab_expiresAt b)
     \<and> list_all valid_store (ab_stores b)"

definition valid_state :: "auth_state \<Rightarrow> bool" where
  [js_eval]: "valid_state i \<longleftrightarrow>
     SHA256 (at_stateHash i) \<and> STORE_CODES (at_storeCode i)
     \<and> valid_time (at_createdAt i) \<and> valid_time (at_expiresAt i)"

definition validateStateFile :: "auth_file \<Rightarrow> auth_file auth_result" where
  [js_eval]: "validateStateFile f =
     (if list_all valid_batch (af_batches f) \<and> list_all valid_state (af_states f) then Inr f
      else Inl (StoreError ''INVALID_STATE_FILE'' False))"

definition read_file :: "auth_file option \<Rightarrow> auth_file auth_result" where
  [js_eval]: "read_file f = (case f of None \<Rightarrow> Inr blankState | Some s \<Rightarrow> validateStateFile s)"

section \<open>Finding and changing entries in place\<close>

text \<open>
  The source looks up the first matching entry of an array and assigns to its fields; here the
  first match is replaced.
\<close>

fun upd_first :: "('a \<Rightarrow> bool) \<Rightarrow> ('a \<Rightarrow> 'a) \<Rightarrow> 'a list \<Rightarrow> 'a list" where
  "upd_first p f [] = []"
| "upd_first p f (x # xs) = (if p x then f x # xs else x # upd_first p f xs)"

declare upd_first.simps [js_eval]

definition safeEqualHex :: "string \<Rightarrow> string \<Rightarrow> bool" where
  [js_eval]: "safeEqualHex l r \<longleftrightarrow> SHA256 l \<and> SHA256 r \<and> l = r"

definition findBatchByHash :: "auth_file \<Rightarrow> string \<Rightarrow> auth_batch option" where
  [js_eval]: "findBatchByHash f h = find (\<lambda>b. safeEqualHex (ab_tokenHash b) h) (af_batches f)"

definition findStore :: "auth_batch option \<Rightarrow> string \<Rightarrow> auth_store option" where
  [js_eval]: "findStore b c =
     (case b of None \<Rightarrow> None | Some b' \<Rightarrow> find (\<lambda>s. as_storeCode s = c) (ab_stores b'))"

definition find_batch :: "auth_file \<Rightarrow> string \<Rightarrow> auth_batch option" where
  [js_eval]: "find_batch f bid = find (\<lambda>b. ab_batchId b = bid) (af_batches f)"

definition find_state :: "auth_file \<Rightarrow> string \<Rightarrow> auth_state option" where
  [js_eval]: "find_state f h = find (\<lambda>i. safeEqualHex (at_stateHash i) h) (af_states f)"

definition set_store :: "(auth_batch \<Rightarrow> bool) \<Rightarrow> string \<Rightarrow> (auth_store \<Rightarrow> auth_store) \<Rightarrow> auth_file \<Rightarrow> auth_file" where
  [js_eval]: "set_store p c g f =
     f\<lparr>af_batches := upd_first p
         (\<lambda>b. b\<lparr>ab_stores := upd_first (\<lambda>s. as_storeCode s = c) g (ab_stores b)\<rparr>) (af_batches f)\<rparr>"

definition set_state :: "string \<Rightarrow> (auth_state \<Rightarrow> auth_state) \<Rightarrow> auth_file \<Rightarrow> auth_file" where
  [js_eval]: "set_state h g f =
     f\<lparr>af_states := upd_first (\<lambda>i. safeEqualHex (at_stateHash i) h) g (af_states f)\<rparr>"

definition received :: "store_status \<Rightarrow> bool" where
  [js_eval]: "received s \<longleftrightarrow> s = REVIEW_REQUIRED \<or> s = APPROVED"

text \<open>\<open>value || null\<close> on a text or null, and \<open>String(value)\<close>\<close>

definition or_null :: "string option \<Rightarrow> string option" where
  [js_eval]: "or_null v = (case v of Some s \<Rightarrow> if s = [] then None else Some s | None \<Rightarrow> None)"

definition null_text :: "string option \<Rightarrow> string" where
  [js_eval]: "null_text v = (case v of None \<Rightarrow> ''null'' | Some s \<Rightarrow> s)"

section \<open>Public views\<close>

record public_store =
  ps_storeCode :: string
  ps_applicationStoreCode :: "string option"
  ps_applicationReady :: bool
  ps_status :: store_status
  ps_attemptCount :: int
  ps_authorizedAt :: "int option"
  ps_reviewedAt :: "int option"
  ps_lastErrorCode :: "string option"
  ps_supplierId :: "string option"

text \<open>The status of a batch as it is shown: \<open>EXPIRED\<close> (\<open>None\<close> here) hides the stored one.\<close>

record public_batch =
  pb_batchId :: string
  pb_label :: string
  pb_status :: "batch_status option"
  pb_createdAt :: int
  pb_expiresAt :: int
  pb_stores :: "public_store list"

definition public_store_of :: "bool \<Rightarrow> auth_store \<Rightarrow> public_store" where
  [js_eval]: "public_store_of expired s =
     \<lparr>ps_storeCode = as_storeCode s, ps_applicationStoreCode = or_null (as_applicationStoreCode s),
      ps_applicationReady = (as_applicationReady s \<noteq> Some False),
      ps_status = (if expired \<and> as_status s = AUTHORIZING then ERROR else as_status s),
      ps_attemptCount = as_attemptCount s, ps_authorizedAt = as_authorizedAt s,
      ps_reviewedAt = as_reviewedAt s, ps_lastErrorCode = or_null (as_lastErrorCode s),
      ps_supplierId = None\<rparr>"

definition publicBatch :: "auth_batch \<Rightarrow> int option \<Rightarrow> public_batch" where
  [js_eval]: "publicBatch b now =
     (let expired = at_or_before (ab_expiresAt b) now
      in \<lparr>pb_batchId = ab_batchId b, pb_label = ab_label b,
          pb_status = (if expired then None else Some (ab_status b)),
          pb_createdAt = ab_createdAt b, pb_expiresAt = ab_expiresAt b,
          pb_stores = map (public_store_of expired) (ab_stores b)\<rparr>)"

definition reviewBatch :: "auth_batch \<Rightarrow> int option \<Rightarrow> public_batch" where
  [js_eval]: "reviewBatch b now =
     (let safe = publicBatch b now
      in safe\<lparr>pb_stores := map (\<lambda>(p, s). p\<lparr>ps_supplierId := or_null (as_supplierId s)\<rparr>)
                             (zip (pb_stores safe) (ab_stores b))\<rparr>)"

definition pruneStates :: "int \<Rightarrow> auth_file \<Rightarrow> auth_file" where
  [js_eval]: "pruneStates now f =
     f\<lparr>af_states := filter (\<lambda>i. at_status i = PENDING \<or> at_status i = PROCESSING
                               \<or> now - 30 * 24 * 60 * 60 * 1000 \<le> at_createdAt i) (af_states f)\<rparr>"

section \<open>Critical sections\<close>

text \<open>
  The body of an operation yields its result or error and the state in memory; where an error
  does not ask for the state to be persisted, the state is dropped and the bodies below leave it
  unchanged.
\<close>

type_synonym 'a body = "auth_file \<Rightarrow> 'a auth_result \<times> auth_file"

definition mutate :: "'a body \<Rightarrow> auth_file option \<Rightarrow> 'a auth_result \<times> auth_file option" where
  [js_eval]: "mutate op f =
     (case read_file f of
        Inl e \<Rightarrow> (Inl e, f)
      | Inr s \<Rightarrow>
          (case op s of
             (Inr r, s') \<Rightarrow> (Inr r, Some s')
           | (Inl (StoreError c True), s') \<Rightarrow> (Inl (StoreError c True), Some s')
           | (Inl e, s') \<Rightarrow> (Inl e, f)))"

definition snapshot :: "(auth_file \<Rightarrow> 'a auth_result) \<Rightarrow> auth_file option \<Rightarrow> 'a auth_result" where
  [js_eval]: "snapshot op f = ebind (read_file f) op"

definition refuse :: "string \<Rightarrow> 'a body" where
  [js_eval]: "refuse c s = (Inl (StoreError c False), s)"

section \<open>Creating a batch\<close>

record batch_request =
  br_batchId :: string
  br_label :: string
  br_tokenHash :: string
  br_storeCodes :: "string list"
  br_routes :: "(string \<times> string) list option"
  br_available :: "string list option"
  br_createdAt :: "int option"
  br_expiresAt :: "int option"

text \<open>\<open>Object.fromEntries\<close> on the upper-cased routes: a later entry replaces an earlier one.\<close>

definition upper_routes :: "(string \<times> string) list \<Rightarrow> (string \<times> string) list" where
  [js_eval]: "upper_routes rs = foldl (\<lambda>acc (k, v). assoc_put (js_upper k) (js_upper v) acc) [] rs"

definition route_of :: "(string \<times> string) list option \<Rightarrow> string \<Rightarrow> string option" where
  [js_eval]: "route_of rs c = (case rs of None \<Rightarrow> None | Some m \<Rightarrow> or_null (map_of m c))"

definition routes_cover :: "(string \<times> string) list option \<Rightarrow> string list \<Rightarrow> bool" where
  [js_eval]: "routes_cover rs codes \<longleftrightarrow>
     (case rs of None \<Rightarrow> True
      | Some m \<Rightarrow> length m = length codes
          \<and> list_all (\<lambda>c. case map_of m c of None \<Rightarrow> STORE_CODES [] | Some a \<Rightarrow> STORE_CODES a) codes
          \<and> list_all (\<lambda>(k, _). k \<in> set codes) m)"

definition new_store :: "(string \<times> string) list option \<Rightarrow> string list option \<Rightarrow> string \<Rightarrow> auth_store" where
  [js_eval]: "new_store rs avail c =
     \<lparr>as_storeCode = c, as_applicationStoreCode = route_of rs c,
      as_applicationReady = Some (case avail of None \<Rightarrow> True
        | Some os \<Rightarrow> (case route_of rs c of None \<Rightarrow> [] | Some a \<Rightarrow> a) \<in> set os),
      as_status = NOT_STARTED, as_attemptCount = 0, as_authorizedAt = None, as_reviewedAt = None,
      as_platformStoreName = None, as_supplierId = None, as_accountNo = None, as_receiptFile = None,
      as_fingerprint = None, as_lastErrorCode = None\<rparr>"

definition revoke_active :: "auth_batch \<Rightarrow> auth_batch" where
  [js_eval]: "revoke_active b = (if ab_status b = ACTIVE then b\<lparr>ab_status := REVOKED\<rparr> else b)"

definition push_batch :: "int \<Rightarrow> auth_batch \<Rightarrow> public_batch body" where
  [js_eval]: "push_batch now b f =
     (Inr (publicBatch b (Some now)),
      pruneStates now (f\<lparr>af_batches := map revoke_active (af_batches f) @ [b]\<rparr>))"

text \<open>
  \<open>fallback_label\<close> is the constant label of the source (a Chinese text), used for an empty one.
\<close>

definition createBatch ::
  "string \<Rightarrow> batch_request \<Rightarrow> auth_file option \<Rightarrow> public_batch auth_result \<times> auth_file option" where
  [js_eval]: "createBatch fallback_label r f =
     (let codes = dedupe (map js_upper (br_storeCodes r));
          rs = map_option upper_routes (br_routes r);
          avail = map_option (\<lambda>os. dedupe (map js_upper os)) (br_available r)
      in if br_batchId r = [] \<or> \<not> SHA256 (br_tokenHash r) \<or> br_storeCodes r = []
            \<or> length codes \<noteq> length (br_storeCodes r) \<or> \<not> list_all STORE_CODES codes
            \<or> \<not> routes_cover rs codes
            \<or> (case (avail, br_available r) of
                 (Some os, Some given) \<Rightarrow> length os \<noteq> length given \<or> \<not> list_all STORE_CODES os
               | _ \<Rightarrow> False)
         then (Inl BadArgument, f)
         else (case (new_date (br_createdAt r), new_date (br_expiresAt r)) of
             (Some now, Some expiry) \<Rightarrow>
               if expiry \<le> now then (Inl BadArgument, f)
               else mutate (push_batch now
                 \<lparr>ab_batchId = br_batchId r,
                  ab_label = take 80 (if br_label r = [] then fallback_label else br_label r),
                  ab_tokenHash = br_tokenHash r, ab_status = ACTIVE, ab_createdAt = now,
                  ab_expiresAt = expiry, ab_completedAt = None,
                  ab_stores = map (new_store rs avail) codes\<rparr>) f
           | _ \<Rightarrow> (Inl BadArgument, f)))"

section \<open>Reading batches\<close>

definition getBatchByTokenHash :: "string \<Rightarrow> int option \<Rightarrow> auth_file option \<Rightarrow> public_batch auth_result" where
  [js_eval]: "getBatchByTokenHash h now =
     snapshot (\<lambda>s. case findBatchByHash s h of
                      None \<Rightarrow> Inl (StoreError ''INVALID_BATCH_TOKEN'' False)
                    | Some b \<Rightarrow> Inr (publicBatch b now))"

text \<open>Newest first; the ISO texts of years 0 to 9999 compare like their instants.\<close>

definition newest_first :: "public_batch list \<Rightarrow> public_batch list" where
  [js_eval]: "newest_first = sort_by (\<lambda>l r. pb_createdAt r \<le> pb_createdAt l)"

definition listBatches :: "int option \<Rightarrow> auth_file option \<Rightarrow> public_batch list auth_result" where
  [js_eval]: "listBatches now =
     snapshot (\<lambda>s. Inr (newest_first (map (\<lambda>b. publicBatch b now) (af_batches s))))"

definition listReviewBatches :: "int option \<Rightarrow> auth_file option \<Rightarrow> public_batch list auth_result" where
  [js_eval]: "listReviewBatches now =
     snapshot (\<lambda>s. Inr (newest_first (map (\<lambda>b. reviewBatch b now) (af_batches s))))"

section \<open>Beginning an attempt\<close>

record begin_request =
  bg_tokenHash :: string
  bg_storeCode :: string
  bg_stateHash :: string
  bg_createdAt :: "int option"
  bg_expiresAt :: "int option"
  bg_maxAttempts :: int

record begun =
  bn_batchId :: string
  bn_storeCode :: string
  bn_applicationStoreCode :: "string option"
  bn_expiresAt :: int

definition supersede :: "string \<Rightarrow> string \<Rightarrow> int \<Rightarrow> auth_state \<Rightarrow> auth_state" where
  [js_eval]: "supersede bid c now i =
     (if at_batchId i = bid \<and> at_storeCode i = c \<and> (at_status i = PENDING \<or> at_status i = PROCESSING)
      then i\<lparr>at_status := EXPIRED, at_completedAt := Some now, at_failureCode := Some ''SUPERSEDED''\<rparr>
      else i)"

definition start_attempt :: "auth_store \<Rightarrow> auth_store" where
  [js_eval]: "start_attempt s =
     s\<lparr>as_status := AUTHORIZING, as_attemptCount := as_attemptCount s + 1, as_lastErrorCode := None\<rparr>"

definition push_state ::
  "begin_request \<Rightarrow> string \<Rightarrow> auth_batch \<Rightarrow> auth_store \<Rightarrow> int \<Rightarrow> int \<Rightarrow> begun body" where
  [js_eval]: "push_state r c b st now expiry f =
     (Inr \<lparr>bn_batchId = ab_batchId b, bn_storeCode = c,
           bn_applicationStoreCode = or_null (as_applicationStoreCode st), bn_expiresAt = expiry\<rparr>,
      pruneStates now (set_store (\<lambda>x. safeEqualHex (ab_tokenHash x) (bg_tokenHash r)) c start_attempt
        (f\<lparr>af_states := map (supersede (ab_batchId b) c now) (af_states f) @
             [\<lparr>at_stateHash = bg_stateHash r, at_batchId = ab_batchId b, at_storeCode = c,
               at_applicationStoreCode = or_null (as_applicationStoreCode st), at_status = PENDING,
               at_createdAt = now, at_expiresAt = expiry, at_processingAt = None,
               at_completedAt = None, at_failureCode = None\<rparr>]\<rparr>)))"

definition begin_body :: "begin_request \<Rightarrow> string \<Rightarrow> begun body" where
  [js_eval]: "begin_body r c f =
     (let now = new_date (bg_createdAt r)
      in case findBatchByHash f (bg_tokenHash r) of
           None \<Rightarrow> refuse ''INVALID_BATCH_TOKEN'' f
         | Some b \<Rightarrow>
             if ab_status b \<noteq> ACTIVE then refuse ''INVALID_BATCH_TOKEN'' f
             else if at_or_before (ab_expiresAt b) now then refuse ''BATCH_EXPIRED'' f
             else (case findStore (Some b) c of
                 None \<Rightarrow> refuse ''STORE_NOT_IN_BATCH'' f
               | Some st \<Rightarrow>
                   if as_applicationReady st = Some False then refuse ''APPLICATION_NOT_READY'' f
                   else if received (as_status st) then refuse ''STORE_ALREADY_RECEIVED'' f
                   else if bg_maxAttempts r \<le> as_attemptCount st then refuse ''STORE_ATTEMPT_LIMIT'' f
                   else (case (now, new_date (bg_expiresAt r)) of
                       (Some t, Some e) \<Rightarrow> push_state r c b st t e f
                     | _ \<Rightarrow> (Inl InvalidDate, f))))"

definition beginState :: "begin_request \<Rightarrow> auth_file option \<Rightarrow> begun auth_result \<times> auth_file option" where
  [js_eval]: "beginState r f =
     (let c = js_upper (bg_storeCode r)
      in if \<not> SHA256 (bg_tokenHash r) \<or> \<not> SHA256 (bg_stateHash r) \<or> \<not> STORE_CODES c
         then (Inl BadArgument, f) else mutate (begin_body r c) f)"

section \<open>Claiming, completing and failing an attempt\<close>

record claim =
  cl_batchId :: string
  cl_storeCode :: string
  cl_applicationStoreCode :: "string option"
  cl_stateCreatedAt :: int

definition close_state :: "state_status \<Rightarrow> int \<Rightarrow> string \<Rightarrow> auth_state \<Rightarrow> auth_state" where
  [js_eval]: "close_state st now c i =
     i\<lparr>at_status := st, at_completedAt := Some now, at_failureCode := Some c\<rparr>"

definition mark_error :: "string \<Rightarrow> auth_store \<Rightarrow> auth_store" where
  [js_eval]: "mark_error c s =
     (if as_status s = AUTHORIZING then s\<lparr>as_status := ERROR, as_lastErrorCode := Some c\<rparr> else s)"

definition error_store :: "auth_state \<Rightarrow> string \<Rightarrow> auth_file \<Rightarrow> auth_file" where
  [js_eval]: "error_store i c = set_store (\<lambda>b. ab_batchId b = at_batchId i) (at_storeCode i) (mark_error c)"

definition batch_open :: "auth_batch \<Rightarrow> int option \<Rightarrow> bool" where
  [js_eval]: "batch_open b now \<longleftrightarrow> ab_status b = ACTIVE \<and> \<not> at_or_before (ab_expiresAt b) now"

definition claim_body :: "string \<Rightarrow> int option \<Rightarrow> claim body" where
  [js_eval]: "claim_body h claimedAt f =
     (let now = new_date claimedAt
      in case find_state f h of
           None \<Rightarrow> refuse ''INVALID_AUTHORIZATION_STATE'' f
         | Some i \<Rightarrow>
             if at_status i \<noteq> PENDING then
               refuse (if at_status i = SUCCEEDED then ''AUTHORIZATION_STATE_REPLAYED''
                       else ''AUTHORIZATION_STATE_UNAVAILABLE'') f
             else (case now of
                 None \<Rightarrow>
                   (case find_batch f (at_batchId i) of
                      None \<Rightarrow> refuse ''BATCH_EXPIRED'' f
                    | Some b \<Rightarrow> if batch_open b now then (Inl InvalidDate, f) else refuse ''BATCH_EXPIRED'' f)
               | Some t \<Rightarrow>
                   if at_expiresAt i \<le> t then
                     (Inl (StoreError ''AUTHORIZATION_STATE_EXPIRED'' True),
                      error_store i ''STATE_EXPIRED'' (set_state h (close_state EXPIRED t ''STATE_EXPIRED'') f))
                   else (case find_batch f (at_batchId i) of
                       None \<Rightarrow> refuse ''BATCH_EXPIRED'' f
                     | Some b \<Rightarrow>
                         if batch_open b now then
                           (Inr \<lparr>cl_batchId = at_batchId i, cl_storeCode = at_storeCode i,
                                 cl_applicationStoreCode = or_null (at_applicationStoreCode i),
                                 cl_stateCreatedAt = at_createdAt i\<rparr>,
                            set_state h (\<lambda>x. x\<lparr>at_status := PROCESSING, at_processingAt := Some t\<rparr>) f)
                         else refuse ''BATCH_EXPIRED'' f)))"

definition claimState :: "string \<Rightarrow> int option \<Rightarrow> auth_file option \<Rightarrow> claim auth_result \<times> auth_file option" where
  [js_eval]: "claimState h claimedAt f =
     (if \<not> SHA256 h then (Inl BadArgument, f) else mutate (claim_body h claimedAt) f)"

record store_identity =
  si_supplierId :: string
  si_platformStoreName :: "string option"
  si_accountNo :: "string option"

record complete_request =
  cq_stateHash :: string
  cq_completedAt :: "int option"
  cq_identity :: store_identity
  cq_receiptFile :: string
  cq_fingerprint :: string

record completion =
  cp_batchId :: string
  cp_storeCode :: string
  cp_status :: store_status
  cp_authorizedAt :: int
  cp_platformStoreName :: "string option"
  cp_supplierId :: string
  cp_accountNo :: "string option"

text \<open>The two nested loops over every store of every batch: the first conflict decides.\<close>

fun binding_conflict :: "string \<Rightarrow> string \<Rightarrow> string \<Rightarrow> auth_store list \<Rightarrow> string option" where
  "binding_conflict c supplier fp [] = None"
| "binding_conflict c supplier fp (s # ss) =
     (if as_storeCode s = c \<or> \<not> received (as_status s) then binding_conflict c supplier fp ss
      else if null_text (as_supplierId s) = supplier then Some ''SUPPLIER_ID_ALREADY_BOUND''
      else if as_fingerprint s = Some fp then Some ''CREDENTIAL_ALREADY_BOUND''
      else binding_conflict c supplier fp ss)"

declare binding_conflict.simps [js_eval]

text \<open>\<open>path.basename\<close>: trailing separators are dropped, then everything up to the last one.\<close>

definition basename :: "string \<Rightarrow> string" where
  [js_eval]: "basename p =
     rev (takeWhile (\<lambda>c. c \<noteq> CHR ''/'') (dropWhile (\<lambda>c. c = CHR ''/'') (rev p)))"

definition receive_store :: "complete_request \<Rightarrow> int \<Rightarrow> auth_store \<Rightarrow> auth_store" where
  [js_eval]: "receive_store r now s =
     s\<lparr>as_status := REVIEW_REQUIRED, as_authorizedAt := Some now, as_reviewedAt := None,
       as_platformStoreName := or_null (si_platformStoreName (cq_identity r)),
       as_supplierId := Some (si_supplierId (cq_identity r)),
       as_accountNo := or_null (si_accountNo (cq_identity r)),
       as_receiptFile := Some (basename (cq_receiptFile r)),
       as_fingerprint := Some (cq_fingerprint r), as_lastErrorCode := None\<rparr>"

definition complete_batch :: "int \<Rightarrow> auth_batch \<Rightarrow> auth_batch" where
  [js_eval]: "complete_batch now b =
     (if list_all (\<lambda>s. received (as_status s)) (ab_stores b)
      then b\<lparr>ab_status := COMPLETED, ab_completedAt := Some now\<rparr> else b)"

definition accept_completion :: "complete_request \<Rightarrow> auth_state \<Rightarrow> int \<Rightarrow> completion body" where
  [js_eval]: "accept_completion r i now f =
     (let f1 = set_state (cq_stateHash r) (\<lambda>x. x\<lparr>at_status := SUCCEEDED, at_completedAt := Some now\<rparr>) f;
          f2 = set_store (\<lambda>b. ab_batchId b = at_batchId i) (at_storeCode i) (receive_store r now) f1;
          f3 = f2\<lparr>af_batches := upd_first (\<lambda>b. ab_batchId b = at_batchId i) (complete_batch now) (af_batches f2)\<rparr>
      in (Inr \<lparr>cp_batchId = at_batchId i, cp_storeCode = at_storeCode i, cp_status = REVIEW_REQUIRED,
               cp_authorizedAt = now,
               cp_platformStoreName = or_null (si_platformStoreName (cq_identity r)),
               cp_supplierId = si_supplierId (cq_identity r),
               cp_accountNo = or_null (si_accountNo (cq_identity r))\<rparr>, f3))"

definition complete_body :: "complete_request \<Rightarrow> completion body" where
  [js_eval]: "complete_body r f =
     (let now = new_date (cq_completedAt r)
      in case find_state f (cq_stateHash r) of
           None \<Rightarrow> refuse ''AUTHORIZATION_STATE_UNAVAILABLE'' f
         | Some i \<Rightarrow>
             if at_status i \<noteq> PROCESSING then refuse ''AUTHORIZATION_STATE_UNAVAILABLE'' f
             else (case find_batch f (at_batchId i) of
                 None \<Rightarrow> refuse ''INVALID_STATE_FILE'' f
               | Some b \<Rightarrow>
                   (case findStore (Some b) (at_storeCode i) of
                      None \<Rightarrow> refuse ''INVALID_STATE_FILE'' f
                    | Some st \<Rightarrow>
                        if \<not> batch_open b now then
                          (case now of
                             None \<Rightarrow> (Inl InvalidDate, f)
                           | Some t \<Rightarrow> (Inl (StoreError ''BATCH_EXPIRED'' True),
                               set_state (cq_stateHash r) (close_state FAILED t ''BATCH_EXPIRED'') f))
                        else (case binding_conflict (as_storeCode st) (si_supplierId (cq_identity r))
                                     (cq_fingerprint r) (concat (map ab_stores (af_batches f))) of
                            Some c \<Rightarrow> refuse c f
                          | None \<Rightarrow>
                              (case now of
                                 None \<Rightarrow> (Inl InvalidDate, f)
                               | Some t \<Rightarrow> accept_completion r i t f)))))"

definition completeState ::
  "complete_request \<Rightarrow> auth_file option \<Rightarrow> completion auth_result \<times> auth_file option" where
  [js_eval]: "completeState r f = mutate (complete_body r) f"

datatype fail_outcome = Ignored | FailedStore string

definition safe_failure_code :: "string \<Rightarrow> string" where
  [js_eval]: "safe_failure_code c =
     take 80 (map (\<lambda>x. if code_char x then x else CHR ''_'')
                  (if c = [] then ''AUTHORIZATION_FAILED'' else c))"

definition fail_body :: "string \<Rightarrow> int option \<Rightarrow> string \<Rightarrow> fail_outcome body" where
  [js_eval]: "fail_body h failedAt c f =
     (case find_state f h of
        None \<Rightarrow> (Inr Ignored, f)
      | Some i \<Rightarrow>
          if at_status i = SUCCEEDED then (Inr Ignored, f)
          else (case new_date failedAt of
              None \<Rightarrow> (Inl InvalidDate, f)
            | Some t \<Rightarrow> (Inr (FailedStore (at_storeCode i)),
                error_store i (safe_failure_code c)
                  (set_state h (close_state FAILED t (safe_failure_code c)) f))))"

definition failState ::
  "string \<Rightarrow> int option \<Rightarrow> string \<Rightarrow> auth_file option \<Rightarrow> fail_outcome auth_result \<times> auth_file option" where
  [js_eval]: "failState h failedAt c f = mutate (fail_body h failedAt c) f"

section \<open>Reviewing a received authorization\<close>

record review_request =
  rv_batchId :: string
  rv_storeCode :: string
  rv_supplierId :: string
  rv_reviewedAt :: "int option"

definition batch_view :: "string \<Rightarrow> int option \<Rightarrow> auth_file \<Rightarrow> public_batch auth_result \<times> auth_file" where
  [js_eval]: "batch_view bid now f =
     (case find_batch f bid of None \<Rightarrow> (Inl BadArgument, f) | Some b \<Rightarrow> (Inr (publicBatch b now), f))"

definition approve_store :: "int \<Rightarrow> auth_store \<Rightarrow> auth_store" where
  [js_eval]: "approve_store now s = s\<lparr>as_status := APPROVED, as_reviewedAt := Some now, as_receiptFile := None\<rparr>"

definition approve_body :: "review_request \<Rightarrow> public_batch body" where
  [js_eval]: "approve_body r f =
     (let c = js_upper (rv_storeCode r); now = new_date (rv_reviewedAt r)
      in case findStore (find_batch f (rv_batchId r)) c of
           None \<Rightarrow> refuse ''STORE_NOT_REVIEWABLE'' f
         | Some st \<Rightarrow>
             if as_status st \<noteq> REVIEW_REQUIRED then refuse ''STORE_NOT_REVIEWABLE'' f
             else if null_text (as_supplierId st) \<noteq> rv_supplierId r then refuse ''SUPPLIER_ID_MISMATCH'' f
             else (case now of
                 None \<Rightarrow> (Inl InvalidDate, f)
               | Some t \<Rightarrow> batch_view (rv_batchId r) now
                   (set_store (\<lambda>b. ab_batchId b = rv_batchId r) c (approve_store t) f)))"

definition approveStore :: "review_request \<Rightarrow> auth_file option \<Rightarrow> public_batch auth_result \<times> auth_file option" where
  [js_eval]: "approveStore r f = mutate (approve_body r) f"

record rollback_request =
  rb_review :: review_request
  rb_receiptFile :: string
  rb_fingerprint :: string

definition reopen_store :: "string \<Rightarrow> auth_store \<Rightarrow> auth_store" where
  [js_eval]: "reopen_store file s =
     s\<lparr>as_status := REVIEW_REQUIRED, as_reviewedAt := None, as_receiptFile := Some file\<rparr>"

definition rollback_body :: "rollback_request \<Rightarrow> int \<Rightarrow> public_batch body" where
  [js_eval]: "rollback_body q t f =
     (let r = rb_review q; c = js_upper (rv_storeCode r)
      in case findStore (find_batch f (rv_batchId r)) c of
           None \<Rightarrow> refuse ''APPROVAL_ROLLBACK_CONFLICT'' f
         | Some st \<Rightarrow>
             if as_status st \<noteq> APPROVED \<or> null_text (as_supplierId st) \<noteq> rv_supplierId r
                \<or> as_reviewedAt st \<noteq> Some t \<or> as_receiptFile st \<noteq> None
                \<or> as_fingerprint st \<noteq> Some (rb_fingerprint q)
                \<or> basename (rb_receiptFile q) = [] \<or> basename (rb_receiptFile q) \<noteq> rb_receiptFile q
             then refuse ''APPROVAL_ROLLBACK_CONFLICT'' f
             else batch_view (rv_batchId r) (Some t)
               (set_store (\<lambda>b. ab_batchId b = rv_batchId r) c (reopen_store (basename (rb_receiptFile q))) f))"

definition rollbackStoreApproval ::
  "rollback_request \<Rightarrow> auth_file option \<Rightarrow> public_batch auth_result \<times> auth_file option" where
  [js_eval]: "rollbackStoreApproval q f =
     (case new_date (rv_reviewedAt (rb_review q)) of
        None \<Rightarrow> (Inl InvalidDate, f)
      | Some t \<Rightarrow> mutate (rollback_body q t) f)"

definition reject_store :: "int \<Rightarrow> auth_store \<Rightarrow> auth_store" where
  [js_eval]: "reject_store now s =
     s\<lparr>as_status := REJECTED, as_reviewedAt := Some now, as_lastErrorCode := Some ''MANUAL_REVIEW_REJECTED''\<rparr>"

text \<open>A completed batch becomes active again when no other batch is active and it has not expired.\<close>

definition reactivate :: "auth_file \<Rightarrow> string \<Rightarrow> int \<Rightarrow> auth_batch \<Rightarrow> auth_batch" where
  [js_eval]: "reactivate f bid now b =
     (if ab_status b = COMPLETED
         \<and> \<not> list_ex (\<lambda>x. ab_batchId x \<noteq> bid \<and> ab_status x = ACTIVE) (af_batches f)
         \<and> now < ab_expiresAt b
      then b\<lparr>ab_status := ACTIVE, ab_completedAt := None\<rparr> else b)"

definition reject_body :: "review_request \<Rightarrow> string \<Rightarrow> int \<Rightarrow> public_batch body" where
  [js_eval]: "reject_body r c now f =
     (case filter (\<lambda>b. ab_batchId b = rv_batchId r) (af_batches f) of
        [b] \<Rightarrow>
          (case filter (\<lambda>s. as_storeCode s = c) (ab_stores b) of
             [st] \<Rightarrow>
               if as_status st \<noteq> REVIEW_REQUIRED then refuse ''STORE_NOT_REVIEWABLE'' f
               else if null_text (as_supplierId st) \<noteq> rv_supplierId r then refuse ''SUPPLIER_ID_MISMATCH'' f
               else (let f1 = set_store (\<lambda>x. ab_batchId x = rv_batchId r) c (reject_store now) f
                     in batch_view (rv_batchId r) (Some now)
                          (f1\<lparr>af_batches := upd_first (\<lambda>x. ab_batchId x = rv_batchId r)
                                (reactivate f (rv_batchId r) now) (af_batches f1)\<rparr>))
           | _ \<Rightarrow> refuse ''STORE_NOT_REVIEWABLE'' f)
      | _ \<Rightarrow> refuse ''STORE_NOT_REVIEWABLE'' f)"

definition rejectStore :: "review_request \<Rightarrow> auth_file option \<Rightarrow> public_batch auth_result \<times> auth_file option" where
  [js_eval]: "rejectStore r f =
     (let c = js_upper (rv_storeCode r)
      in case new_date (rv_reviewedAt r) of
           None \<Rightarrow> (Inl BadArgument, f)
         | Some t \<Rightarrow> if rv_batchId r = [] \<or> \<not> STORE_CODES c then (Inl BadArgument, f)
                     else mutate (reject_body r c t) f)"

section \<open>Runs of the store\<close>

text \<open>
  The calls that change the file, each a critical section of its own, in the order in which the
  file lock admits them. The attempt bound of a begin call is the one its caller passes.
\<close>

datatype auth_call =
    CreateBatch string batch_request
  | BeginState begin_request
  | ClaimState string "int option"
  | CompleteState complete_request
  | FailState string "int option" string
  | ApproveStore review_request
  | RollbackApproval rollback_request
  | RejectStore review_request

definition void_result :: "'a auth_result \<times> auth_file option \<Rightarrow> auth_error option \<times> auth_file option" where
  [js_eval]: "void_result p = (case p of (Inl e, f) \<Rightarrow> (Some e, f) | (Inr _, f) \<Rightarrow> (None, f))"

fun do_call :: "auth_call \<Rightarrow> auth_file option \<Rightarrow> auth_error option \<times> auth_file option" where
  "do_call (CreateBatch l r) f = void_result (createBatch l r f)"
| "do_call (BeginState r) f = void_result (beginState r f)"
| "do_call (ClaimState h t) f = void_result (claimState h t f)"
| "do_call (CompleteState r) f = void_result (completeState r f)"
| "do_call (FailState h t c) f = void_result (failState h t c f)"
| "do_call (ApproveStore r) f = void_result (approveStore r f)"
| "do_call (RollbackApproval q) f = void_result (rollbackStoreApproval q f)"
| "do_call (RejectStore r) f = void_result (rejectStore r f)"

declare do_call.simps [js_eval]

text \<open>The file after a list of calls, and the calls with what they answered.\<close>

fun after_calls :: "auth_call list \<Rightarrow> auth_file option \<Rightarrow> auth_file option" where
  "after_calls [] f = f"
| "after_calls (c # cs) f = after_calls cs (snd (do_call c f))"

fun call_trace :: "auth_call list \<Rightarrow> auth_file option \<Rightarrow> (auth_call \<times> auth_error option) list" where
  "call_trace [] f = []"
| "call_trace (c # cs) f = (c, fst (do_call c f)) # call_trace cs (snd (do_call c f))"

declare after_calls.simps [js_eval] call_trace.simps [js_eval]

text \<open>One call as a step between files.\<close>

inductive auth_step :: "auth_file option \<Rightarrow> auth_call \<Rightarrow> auth_error option \<Rightarrow> auth_file option \<Rightarrow> bool" where
  call: "do_call c f = (e, f') \<Longrightarrow> auth_step f c e f'"

inductive_simps auth_step_iff: "auth_step f c e f'"

end
