(* ===== verification/Authorization_Service.thy ===== *)
theory Authorization_Service
  imports Authorization_Store Js_Value
begin

text \<open>
  \<open>src/authorization/service.mjs\<close> and the URL of \<open>buildAuthorizationUrl\<close> in
  \<open>src/openapi/shein-client.mjs\<close>: the sessions, the beginning of an authorization and its callback over
  the state file and the directory of secret receipts. The digest, the random source, the clock, the
  parsed application file and the answers of the platform client are parameters; the calls that other
  requests make while a callback waits are arguments too. The display name of the application and the
  file modes are left out.
\<close>

section \<open>Errors\<close>

text \<open>
  An \<open>AuthorizationServiceError\<close>, an error of the store, or any other error with its code (empty when
  it has none).
\<close>

datatype service_error = ServiceError string | FromStore auth_error | OtherError string

type_synonym 'a service_result = "service_error + 'a"

definition error_code :: "service_error \<Rightarrow> string" where
  [js_eval]: "error_code e =
     (case e of ServiceError c \<Rightarrow> c
      | FromStore (StoreError c p) \<Rightarrow> c | FromStore _ \<Rightarrow> []
      | OtherError c \<Rightarrow> c)"

section \<open>Patterns\<close>

definition alnum :: "char \<Rightarrow> bool" where
  [js_eval]: "alnum c \<longleftrightarrow> is_upper c \<or> is_lower c \<or> is_digit c"

definition TOKEN_PATTERN :: "string \<Rightarrow> bool" where
  [js_eval]: "TOKEN_PATTERN s = matches_span (\<lambda>c. alnum c \<or> c = CHR ''_'' \<or> c = CHR ''-'') 43 43 s"

definition TEMP_TOKEN_PATTERN :: "string \<Rightarrow> bool" where
  [js_eval]: "TEMP_TOKEN_PATTERN s =
     matches_span (\<lambda>c. alnum c \<or> c \<in> set ''._~-'') 8 1024 s"

section \<open>The application file\<close>

record application =
  ap_ownerStoreCode :: string
  ap_appId :: string
  ap_appSecretKey :: string

definition lift_js :: "'a result \<Rightarrow> 'a service_result" where
  [js_eval]: "lift_js r = (case r of Inr v \<Rightarrow> Inr v | Inl _ \<Rightarrow> Inl (OtherError []))"

text \<open>\<open>String(value || '')\<close>\<close>

definition text_or_empty :: "jsv \<Rightarrow> string service_result" where
  [js_eval]: "text_or_empty v = (if truthy v then lift_js (js_string v) else Inr [])"

fun find_application :: "string \<Rightarrow> jsv list \<Rightarrow> jsv option service_result" where
  "find_application owner [] = Inr None"
| "find_application owner (v # vs) =
     ebind (text_or_empty (jget v ''storeCode'')) (\<lambda>c.
       if js_upper c = owner then Inr (Some v) else find_application owner vs)"

declare find_application.simps [js_eval]

text \<open>\<open>config\<close> is the parsed file, \<open>None\<close> when it is missing, not private or not JSON.\<close>

definition loadApplication :: "jsv option \<Rightarrow> string \<Rightarrow> application service_result" where
  [js_eval]: "loadApplication config owner =
     (case config of
        None \<Rightarrow> Inl (ServiceError ''AUTHORIZATION_CONFIGURATION_ERROR'')
      | Some cf \<Rightarrow>
          if jget cf ''schemaVersion'' \<noteq> JNum (NInt 1) \<or> jget cf ''cooperationMode'' \<noteq> JStr ''FULL_MANAGED''
          then Inl (ServiceError ''AUTHORIZATION_CONFIGURATION_ERROR'')
          else (case as_array (jget cf ''applications'') of
              None \<Rightarrow> Inl (ServiceError ''AUTHORIZATION_CONFIGURATION_ERROR'')
            | Some vs \<Rightarrow>
                ebind (find_application owner vs) (\<lambda>found.
                let app = (case found of None \<Rightarrow> JUndef | Some v \<Rightarrow> v) in
                ebind (text_or_empty (jget app ''appId'')) (\<lambda>i.
                ebind (text_or_empty (jget app ''appSecretKey'')) (\<lambda>s.
                  if js_trim i = [] \<or> js_trim s = []
                  then Inl (ServiceError ''AUTHORIZATION_CONFIGURATION_ERROR'')
                  else Inr \<lparr>ap_ownerStoreCode = owner, ap_appId = js_trim i, ap_appSecretKey = js_trim s\<rparr>)))))"

section \<open>The identity of the store\<close>

fun squeeze :: "bool \<Rightarrow> string \<Rightarrow> string" where
  "squeeze prev [] = []"
| "squeeze prev (c # cs) =
     (if is_space c then (if prev then squeeze True cs else CHR '' '' # squeeze True cs)
      else c # squeeze False cs)"

declare squeeze.simps [js_eval]

text \<open>\<open>String(value ?? '').replace(/\s+/g, ' ').trim().slice(0, 200)\<close>, on values that are not objects\<close>

definition cleanIdentityValue :: "jsv \<Rightarrow> string" where
  [js_eval]: "cleanIdentityValue v =
     take 200 (js_trim (squeeze False (case js_string_or_empty v of Inr s \<Rightarrow> s | Inl _ \<Rightarrow> [])))"

datatype identity_field = SupplierId | StoreName | BusinessMode

definition key_has :: "string list \<Rightarrow> string \<Rightarrow> bool" where
  [js_eval]: "key_has ws k = found_in (\<lambda>s. list_ex (\<lambda>w. starts_with w s) ws) k"

definition identity_keys :: "identity_field \<Rightarrow> string list" where
  [js_eval]: "identity_keys f =
     (case f of
        SupplierId \<Rightarrow> [''supplierid'', ''supplier_id'', ''merchantid'', ''merchant_id'']
      | StoreName \<Rightarrow> [''storename'', ''store_name'', ''shopname'', ''shop_name'', ''suppliername'', ''supplier_name'']
      | BusinessMode \<Rightarrow> [''supplierbusinessmode'', ''supplier_business_mode'', ''businessmode'', ''business_mode''])"

text \<open>
  The recursive visit; \<open>n\<close> is the number of levels that may still be entered, 9 at the start (depths 0
  to 8).
\<close>

fun identity_texts :: "identity_field \<Rightarrow> nat \<Rightarrow> jsv \<Rightarrow> string list" where
  "identity_texts f 0 v = []"
| "identity_texts f (Suc n) (JArr vs) = concat (map (identity_texts f n) vs)"
| "identity_texts f (Suc n) (JObj ps) =
     concat (map (\<lambda>(k, v).
       if is_object v then identity_texts f n v
       else if cleanIdentityValue v \<noteq> [] \<and> key_has (identity_keys f) (js_lower k)
       then [cleanIdentityValue v] else []) ps)"
| "identity_texts f (Suc n) v = []"

declare identity_texts.simps [js_eval]

definition collectStoreIdentity :: "jsv \<Rightarrow> string list \<times> string list \<times> string list" where
  [js_eval]: "collectStoreIdentity v =
     (dedupe (identity_texts SupplierId 9 v), dedupe (identity_texts StoreName 9 v),
      dedupe (identity_texts BusinessMode 9 v))"

text \<open>What \<open>getByToken\<close> of the client answers.\<close>

record exchange =
  ex_appId :: string
  ex_state :: string
  ex_openKeyId :: string
  ex_secretKey :: string
  ex_encryptedSecretKey :: string
  ex_supplierId :: string
  ex_supplierBusinessMode :: "string option"

record verified =
  vi_supplierId :: string
  vi_platformStoreName :: "string option"
  vi_supplierBusinessMode :: "string option"

definition first_text :: "string list \<Rightarrow> string option" where
  [js_eval]: "first_text ts = (case ts of [] \<Rightarrow> None | t # _ \<Rightarrow> or_null (Some t))"

definition verifiedIdentity :: "exchange \<Rightarrow> jsv \<Rightarrow> verified service_result" where
  [js_eval]: "verifiedIdentity ex info =
     (case collectStoreIdentity info of (suppliers, names, modes) \<Rightarrow>
        if suppliers = [] then Inl (ServiceError ''STORE_IDENTITY_MISSING'')
        else if suppliers \<noteq> [ex_supplierId ex] then Inl (ServiceError ''STORE_IDENTITY_MISMATCH'')
        else Inr \<lparr>vi_supplierId = ex_supplierId ex, vi_platformStoreName = first_text names,
                  vi_supplierBusinessMode =
                    (case or_null (ex_supplierBusinessMode ex) of Some m \<Rightarrow> Some m | None \<Rightarrow> first_text modes)\<rparr>)"

section \<open>Sessions\<close>

fun cookie_find :: "string \<Rightarrow> string list \<Rightarrow> string" where
  "cookie_find name [] = []"
| "cookie_find name (part # parts) =
     (let key = takeWhile (\<lambda>c. c \<noteq> CHR ''='') part
      in if key = [] \<or> key = part \<or> js_trim key \<noteq> name then cookie_find name parts
         else js_trim (drop (length key + 1) part))"

declare cookie_find.simps [js_eval]

definition cookieValue :: "string \<Rightarrow> string \<Rightarrow> string" where
  [js_eval]: "cookieValue header name = cookie_find name (split_on (CHR '';'') header)"

definition cookieName :: string where
  [js_eval]: "cookieName = ''fm_full_authz''"

definition tokenFromCookie :: "string \<Rightarrow> string service_result" where
  [js_eval]: "tokenFromCookie header =
     (let token = cookieValue header cookieName
      in if TOKEN_PATTERN token then Inr token else Inl (ServiceError ''AUTHORIZATION_SESSION_REQUIRED''))"

definition from_store :: "'a auth_result \<Rightarrow> 'a service_result" where
  [js_eval]: "from_store r = (case r of Inl e \<Rightarrow> Inl (FromStore e) | Inr v \<Rightarrow> Inr v)"

definition batchForToken ::
  "(string \<Rightarrow> string) \<Rightarrow> string \<Rightarrow> int \<Rightarrow> auth_file option \<Rightarrow> public_batch service_result" where
  [js_eval]: "batchForToken sha token now f =
     (if \<not> TOKEN_PATTERN token then Inl (ServiceError ''INVALID_BATCH_TOKEN'')
      else from_store (getBatchByTokenHash (sha token) (Some now) f))"

definition cookie_text :: "bool \<Rightarrow> string \<Rightarrow> string \<Rightarrow> string" where
  [js_eval]: "cookie_text secure token age =
     join_with ''; '' (filter (\<lambda>s. s \<noteq> []) [cookieName @ ''='' @ token, ''Path=/authorize'', ''HttpOnly'',
       ''SameSite=Lax'', if secure then ''Secure'' else [], ''Max-Age='' @ age])"

definition createSession ::
  "(string \<Rightarrow> string) \<Rightarrow> bool \<Rightarrow> string \<Rightarrow> int \<Rightarrow> auth_file option \<Rightarrow> (public_batch \<times> string) service_result" where
  [js_eval]: "createSession sha secure token now f =
     ebind (batchForToken sha token now f) (\<lambda>b.
       if pb_status b \<noteq> Some ACTIVE then Inl (ServiceError ''BATCH_EXPIRED'')
       else Inr (b, cookie_text secure token
         (show_int (max 1 (min (24 * 60 * 60) ((pb_expiresAt b - now) div 1000))))))"

definition clearCookie :: "bool \<Rightarrow> string" where
  [js_eval]: "clearCookie secure = cookie_text secure [] ''0''"

definition getBatch ::
  "(string \<Rightarrow> string) \<Rightarrow> string \<Rightarrow> int \<Rightarrow> auth_file option \<Rightarrow> public_batch service_result" where
  [js_eval]: "getBatch sha header now f =
     ebind (tokenFromCookie header) (\<lambda>token. batchForToken sha token now f)"

section \<open>Beginning an authorization\<close>

text \<open>
  The service is configured with the owner of the default application, the lifetime of a state in
  seconds (60 to 600), the attempt bound and the scheme of its public origin: \<open>https\<close>, or \<open>http\<close> on a
  local host.
\<close>

record service_config =
  sc_ownerStoreCode :: string
  sc_stateTtlSeconds :: int
  sc_maximumStoreAttempts :: int
  sc_https :: bool
  sc_callbackUrl :: string

text \<open>The query of the authorization page: application, redirect target (base64 in the URL) and state.\<close>

record authorization_link =
  ln_appid :: string
  ln_redirectUrl :: string
  ln_state :: string

definition buildAuthorizationUrl :: "string \<Rightarrow> bool \<Rightarrow> string \<Rightarrow> string \<Rightarrow> authorization_link service_result" where
  [js_eval]: "buildAuthorizationUrl appId https redirectUrl st =
     (if js_trim appId = [] then Inl (OtherError ''MISSING_CREDENTIAL'')
      else if \<not> https then Inl (OtherError ''INVALID_REDIRECT_URL'')
      else if \<not> TOKEN_PATTERN st then Inl (OtherError ''INVALID_AUTHORIZATION_STATE'')
      else Inr \<lparr>ln_appid = js_trim appId, ln_redirectUrl = redirectUrl, ln_state = st\<rparr>)"

record begin_answer =
  ba_storeCode :: string
  ba_expiresAt :: int
  ba_link :: authorization_link

text \<open>The target of the batch, the application and the store's own checks, before anything is written.\<close>

definition begin_target ::
  "(string \<Rightarrow> string) \<Rightarrow> service_config \<Rightarrow> jsv option \<Rightarrow> string \<Rightarrow> string \<Rightarrow> string \<Rightarrow> int \<Rightarrow> auth_file option
     \<Rightarrow> application service_result" where
  [js_eval]: "begin_target sha sc config token c st now f =
     (if \<not> STORE_CODES c then Inl (ServiceError ''INVALID_STORE_CODE'')
      else if \<not> TOKEN_PATTERN st then Inl (ServiceError ''RANDOM_SOURCE_FAILURE'')
      else ebind (batchForToken sha token now f) (\<lambda>b.
        case find (\<lambda>s. ps_storeCode s = c) (pb_stores b) of
          None \<Rightarrow> Inl (ServiceError ''STORE_NOT_IN_BATCH'')
        | Some target \<Rightarrow>
            loadApplication config
              (case or_null (ps_applicationStoreCode target) of Some a \<Rightarrow> a | None \<Rightarrow> sc_ownerStoreCode sc)))"

definition begin_request_of ::
  "(string \<Rightarrow> string) \<Rightarrow> service_config \<Rightarrow> string \<Rightarrow> string \<Rightarrow> string \<Rightarrow> int \<Rightarrow> begin_request" where
  [js_eval]: "begin_request_of sha sc token c st now =
     \<lparr>bg_tokenHash = sha token, bg_storeCode = c, bg_stateHash = sha st, bg_createdAt = Some now,
      bg_expiresAt = Some (now + sc_stateTtlSeconds sc * 1000), bg_maxAttempts = sc_maximumStoreAttempts sc\<rparr>"

definition begin_authorization ::
  "(string \<Rightarrow> string) \<Rightarrow> service_config \<Rightarrow> jsv option \<Rightarrow> string \<Rightarrow> string \<Rightarrow> string \<Rightarrow> int \<Rightarrow> auth_file option
     \<Rightarrow> begin_answer service_result \<times> auth_file option" where
  [js_eval]: "begin_authorization sha sc config header storeCode st now f =
     (let c = js_upper storeCode
      in case ebind (tokenFromCookie header) (\<lambda>token.
           ebind (begin_target sha sc config token c st now f) (\<lambda>app. Inr (token, app))) of
           Inl e \<Rightarrow> (Inl e, f)
         | Inr (token, app) \<Rightarrow>
             (case beginState (begin_request_of sha sc token c st now) f of
                (Inl e, f') \<Rightarrow> (Inl (FromStore e), f')
              | (Inr b, f') \<Rightarrow>
                  (ebind (buildAuthorizationUrl (ap_appId app) (sc_https sc) (sc_callbackUrl sc) st) (\<lambda>l.
                     Inr \<lparr>ba_storeCode = c, ba_expiresAt = now + sc_stateTtlSeconds sc * 1000, ba_link = l\<rparr>), f')))"

section \<open>The callback\<close>

text \<open>A secret receipt, the contents of one file of the receipt directory.\<close>

record secret_receipt =
  rc_batchId :: string
  rc_storeCode :: string
  rc_applicationStoreCode :: string
  rc_appId :: string
  rc_openKeyId :: string
  rc_secretKey :: string
  rc_encryptedSecretKey :: string
  rc_identity :: verified
  rc_authorizedAt :: int

record auth_world =
  aw_file :: "auth_file option"
  aw_receipts :: "(string \<times> secret_receipt) list"

text \<open>
  What a callback meets outside: three readings of the clock, the application file, the answers of
  the platform (an error with its code, or the exchange and the store information), the time stamp and
  random part of the receipt's name, whether the receipt could be written and removed, and the calls
  of other requests before the completion and before the failure is recorded.
\<close>

record callback_env =
  ce_claimedAt :: int
  ce_completedAt :: int
  ce_failedAt :: int
  ce_config :: "jsv option"
  ce_exchange :: "string + exchange"
  ce_storeInfo :: "string + jsv"
  ce_stamp :: string
  ce_random :: string
  ce_writeFails :: bool
  ce_unlinkFails :: bool
  ce_before :: "auth_call list"
  ce_after :: "auth_call list"

definition mapFailure :: "service_error \<Rightarrow> string" where
  [js_eval]: "mapFailure e =
     (let c = error_code e
      in if c \<in> set [''AUTHORIZATION_CONFIGURATION_ERROR'', ''AUTHORIZATION_STATE_EXPIRED'',
                      ''AUTHORIZATION_STATE_REPLAYED'', ''AUTHORIZATION_STATE_UNAVAILABLE'', ''BATCH_EXPIRED'',
                      ''INVALID_AUTHORIZATION_STATE'', ''STORE_IDENTITY_MISSING'', ''STORE_IDENTITY_MISMATCH'',
                      ''SUPPLIER_ID_ALREADY_BOUND'', ''CREDENTIAL_ALREADY_BOUND''] then c
         else if c \<in> set [''HTTP_ERROR'', ''PLATFORM_ERROR'', ''NETWORK_ERROR'', ''REQUEST_TIMEOUT'',
                      ''INVALID_AUTHORIZATION_RESPONSE'', ''SECRET_DECRYPTION_FAILED'']
         then ''SHEIN_EXCHANGE_FAILED''
         else ''AUTHORIZATION_FAILED'')"

definition receipt_name :: "string \<Rightarrow> string \<Rightarrow> string \<Rightarrow> string \<Rightarrow> string" where
  [js_eval]: "receipt_name bid c stamp rnd =
     take 80 (map (\<lambda>x. if alnum x \<or> x = CHR ''_'' \<or> x = CHR ''-'' then x else CHR ''_'') bid)
     @ ''-'' @ c @ ''-'' @ stamp @ ''-'' @ rnd @ ''.secret.json''"

definition from_client :: "string + 'a \<Rightarrow> 'a service_result" where
  [js_eval]: "from_client r = (case r of Inl c \<Rightarrow> Inl (OtherError c) | Inr v \<Rightarrow> Inr v)"

text \<open>From the claim to the checked receipt; nothing is written on the way.\<close>

definition receipt_of ::
  "service_config \<Rightarrow> callback_env \<Rightarrow> string \<Rightarrow> claim \<Rightarrow> secret_receipt service_result" where
  [js_eval]: "receipt_of sc env st cl =
     ebind (loadApplication (ce_config env)
              (case or_null (cl_applicationStoreCode cl) of Some a \<Rightarrow> a | None \<Rightarrow> sc_ownerStoreCode sc)) (\<lambda>app.
     ebind (from_client (ce_exchange env)) (\<lambda>ex.
     ebind (ensure (ex_appId ex = ap_appId app) (ServiceError ''APPLICATION_ID_MISMATCH'')) (\<lambda>_.
     ebind (ensure (ex_state ex = st) (ServiceError ''RETURNED_STATE_MISMATCH'')) (\<lambda>_.
     ebind (from_client (ce_storeInfo env)) (\<lambda>info.
     ebind (verifiedIdentity ex info) (\<lambda>identity.
       Inr \<lparr>rc_batchId = cl_batchId cl, rc_storeCode = cl_storeCode cl,
            rc_applicationStoreCode = ap_ownerStoreCode app, rc_appId = ap_appId app,
            rc_openKeyId = ex_openKeyId ex, rc_secretKey = ex_secretKey ex,
            rc_encryptedSecretKey = ex_encryptedSecretKey ex, rc_identity = identity,
            rc_authorizedAt = ce_completedAt env\<rparr>))))))"

definition completion_of ::
  "(string \<Rightarrow> string) \<Rightarrow> callback_env \<Rightarrow> string \<Rightarrow> string \<Rightarrow> secret_receipt \<Rightarrow> complete_request" where
  [js_eval]: "completion_of sha env st name rc =
     \<lparr>cq_stateHash = sha st, cq_completedAt = Some (ce_completedAt env),
      cq_identity = \<lparr>si_supplierId = vi_supplierId (rc_identity rc),
                    si_platformStoreName = vi_platformStoreName (rc_identity rc), si_accountNo = None\<rparr>,
      cq_receiptFile = name, cq_fingerprint = sha (rc_appId rc @ '':'' @ rc_openKeyId rc)\<rparr>"

text \<open>
  After the claim: the receipt is written, the state completed, and the receipt removed again when
  the completion fails.
\<close>

definition finish_claim ::
  "(string \<Rightarrow> string) \<Rightarrow> service_config \<Rightarrow> callback_env \<Rightarrow> string \<Rightarrow> claim \<Rightarrow> auth_world
     \<Rightarrow> completion service_result \<times> auth_world" where
  [js_eval]: "finish_claim sha sc env st cl w =
     (case receipt_of sc env st cl of
        Inl e \<Rightarrow> (Inl e, w)
      | Inr rc \<Rightarrow>
          if ce_writeFails env then (Inl (OtherError []), w)
          else (let name = receipt_name (cl_batchId cl) (cl_storeCode cl) (ce_stamp env) (ce_random env)
                in case completeState (completion_of sha env st name rc) (aw_file w) of
                     (Inr v, f') \<Rightarrow> (Inr v, \<lparr>aw_file = f', aw_receipts = aw_receipts w @ [(name, rc)]\<rparr>)
                   | (Inl e, f') \<Rightarrow> (Inl (FromStore e),
                       \<lparr>aw_file = f',
                        aw_receipts = (if ce_unlinkFails env then aw_receipts w @ [(name, rc)] else aw_receipts w)\<rparr>)))"

definition outer_error :: "service_error \<Rightarrow> service_error" where
  [js_eval]: "outer_error e =
     (case e of ServiceError c \<Rightarrow> ServiceError c
      | FromStore (StoreError c p) \<Rightarrow> ServiceError c
      | _ \<Rightarrow> ServiceError (mapFailure e))"

definition run_others :: "auth_call list \<Rightarrow> auth_world \<Rightarrow> auth_world" where
  [js_eval]: "run_others cs w = w\<lparr>aw_file := after_calls cs (aw_file w)\<rparr>"

definition complete_callback ::
  "(string \<Rightarrow> string) \<Rightarrow> service_config \<Rightarrow> callback_env \<Rightarrow> string \<Rightarrow> string \<Rightarrow> auth_world
     \<Rightarrow> completion service_result \<times> auth_world" where
  [js_eval]: "complete_callback sha sc env st tempToken w =
     (if \<not> TOKEN_PATTERN st then (Inl (ServiceError ''INVALID_AUTHORIZATION_STATE''), w)
      else if \<not> TEMP_TOKEN_PATTERN tempToken then (Inl (ServiceError ''INVALID_TEMP_TOKEN''), w)
      else (case claimState (sha st) (Some (ce_claimedAt env)) (aw_file w) of
          (Inl e, f1) \<Rightarrow> (Inl (FromStore e), w\<lparr>aw_file := f1\<rparr>)
        | (Inr cl, f1) \<Rightarrow>
            (case finish_claim sha sc env st cl (run_others (ce_before env) (w\<lparr>aw_file := f1\<rparr>)) of
               (Inr v, w') \<Rightarrow> (Inr v, w')
             | (Inl e, w') \<Rightarrow>
                 (let w2 = run_others (ce_after env) w'
                  in (Inl (outer_error e),
                      w2\<lparr>aw_file := snd (failState (sha st) (Some (ce_failedAt env)) (mapFailure e) (aw_file w2))\<rparr>)))))"

end
