(* ===== verification/Authorization_Properties.thy ===== *)
theory Authorization_Properties
  imports Authorization_Store
begin

text \<open>
  What the authorization store keeps over every run of calls: at most one active batch, an identity
  bound to one store code only, one open attempt per store, bounded attempts, states that are
  claimed once, a file that the next read accepts, and an approval that can be rolled back exactly.
\<close>

section \<open>Replacing the first match\<close>

lemma upd_first_None: "find p xs = None \<Longrightarrow> upd_first p f xs = xs"
  by (induction xs) (auto split: if_splits)

lemma find_split:
  "find p xs = Some x \<Longrightarrow> \<exists>ys zs. xs = ys @ x # zs \<and> p x \<and> (\<forall>y\<in>set ys. \<not> p y)"
proof (induction xs)
  case (Cons a xs)
  show ?case
  proof (cases "p a")
    case True
    then show ?thesis using Cons.prems by (intro exI[of _ "[]"] exI[of _ xs]) auto
  next
    case False
    then obtain ys zs where "xs = ys @ x # zs" "p x" "\<forall>y\<in>set ys. \<not> p y"
      using Cons by auto
    then show ?thesis using False by (intro exI[of _ "a # ys"] exI[of _ zs]) auto
  qed
qed simp

lemma upd_first_split: "\<forall>y\<in>set ys. \<not> p y \<Longrightarrow> p x \<Longrightarrow> upd_first p f (ys @ x # zs) = ys @ f x # zs"
  by (induction ys) auto

lemma find_Some_set: "find p xs = Some x \<Longrightarrow> x \<in> set xs \<and> p x"
  by (auto dest: find_split)

lemma set_upd_first: "y \<in> set (upd_first p f xs) \<Longrightarrow> y \<in> set xs \<or> (\<exists>x\<in>set xs. p x \<and> y = f x)"
  by (induction xs) (auto split: if_splits)

lemma list_all_upd_first:
  "list_all P xs \<Longrightarrow> (\<And>x. x \<in> set xs \<Longrightarrow> p x \<Longrightarrow> P x \<Longrightarrow> P (f x)) \<Longrightarrow> list_all P (upd_first p f xs)"
  by (induction xs) auto

lemma map_upd_first: "(\<And>x. p x \<Longrightarrow> g (f x) = g x) \<Longrightarrow> map g (upd_first p f xs) = map g xs"
  by (induction xs) auto

lemma filter_upd_first_le:
  "(\<And>x. p x \<Longrightarrow> Q (f x) \<Longrightarrow> Q x) \<Longrightarrow> length (filter Q (upd_first p f xs)) \<le> length (filter Q xs)"
  by (induction xs) auto

lemma filter_upd_first_same:
  "(\<And>x. p x \<Longrightarrow> Q (f x) = Q x) \<Longrightarrow> length (filter Q (upd_first p f xs)) = length (filter Q xs)"
  by (induction xs) auto

lemma list_ex_upd_first:
  "(\<And>x. p x \<Longrightarrow> Q (f x) = Q x) \<Longrightarrow> list_ex Q (upd_first p f xs) = list_ex Q xs"
  by (induction xs) auto

lemma find_upd_first:
  "(\<And>x. p x \<Longrightarrow> p (f x)) \<Longrightarrow> find p (upd_first p f xs) = map_option f (find p xs)"
  by (induction xs) auto

lemma upd_first_comp:
  "(\<And>x. p x \<Longrightarrow> p (f x)) \<Longrightarrow> upd_first p g (upd_first p f xs) = upd_first p (g \<circ> f) xs"
  by (induction xs) auto

lemma upd_first_id: "find p xs = Some x \<Longrightarrow> f x = x \<Longrightarrow> upd_first p f xs = xs"
  by (induction xs) (auto split: if_splits)

section \<open>Critical sections\<close>

definition on_file :: "(auth_file \<Rightarrow> bool) \<Rightarrow> auth_file option \<Rightarrow> bool" where
  [js_eval]: "on_file I f \<longleftrightarrow> (case f of None \<Rightarrow> True | Some s \<Rightarrow> I s)"

lemma read_file_cases:
  "read_file f = Inr s \<Longrightarrow> f = Some s \<or> f = None \<and> s = blankState"
  by (auto simp: read_file_def validateStateFile_def split: option.splits if_splits)

lemma read_file_error: "read_file f = Inl e \<Longrightarrow> e = StoreError ''INVALID_STATE_FILE'' False"
  by (auto simp: read_file_def validateStateFile_def split: option.splits if_splits)

lemma mutate_cases:
  assumes "mutate op f = (r, f')"
  obtains (same) e where "r = Inl e" "f' = f"
    | (written) s where "read_file f = Inr s" "fst (op s) = r" "f' = Some (snd (op s))"
proof (cases "read_file f")
  case (Inl e)
  then show ?thesis using assms same by (auto simp: mutate_def)
next
  case (Inr s)
  then show ?thesis
    using assms same written
    by (cases "op s") (auto simp: mutate_def split: sum.splits auth_error.splits bool.splits)
qed

lemma mutate_keeps:
  assumes "on_file I f" "I blankState" "\<And>s. I s \<Longrightarrow> I (snd (op s))"
  shows "on_file I (snd (mutate op f))"
proof -
  obtain r f' where f': "mutate op f = (r, f')" by fastforce
  then have "on_file I f'"
    using assms by (cases rule: mutate_cases) (auto simp: on_file_def dest!: read_file_cases)
  then show ?thesis by (simp add: f')
qed

lemma snd_void_result: "snd (void_result p) = snd p"
  by (auto simp: void_result_def split: prod.splits sum.splits)

lemma fst_void_result: "fst (void_result p) = None \<longleftrightarrow> (\<exists>v. fst p = Inr v)"
  by (auto simp: void_result_def split: prod.splits sum.splits)

lemma refuse_state [simp]: "snd (refuse c s) = s" "fst (refuse c s) = Inl (StoreError c False)"
  by (simp_all add: refuse_def)

lemma batch_view_state [simp]: "snd (batch_view bid now f) = f"
  by (simp add: batch_view_def split: option.splits)

section \<open>The state machine of the store\<close>

text \<open>
  Every write of the file is one of the following steps. The bound \<open>m\<close> is the largest number of
  attempts that a begin call admits; the label names the hash that an attempt is begun, claimed or
  completed under.
\<close>

datatype auth_event = Quiet | Begun string | Claimed string | Completed string

definition fresh_batch :: "auth_batch \<Rightarrow> bool" where
  [js_eval]: "fresh_batch b \<longleftrightarrow> valid_batch b \<and> ab_status b = ACTIVE
     \<and> list_all (\<lambda>s. as_status s = NOT_STARTED \<and> as_attemptCount s = 0) (ab_stores b)"

inductive file_step :: "int \<Rightarrow> auth_file \<Rightarrow> auth_event \<Rightarrow> auth_file \<Rightarrow> bool" for m where
  keep: "file_step m s Quiet s"
| create: "fresh_batch b \<Longrightarrow> file_step m s Quiet (snd (push_batch now b s))"
| start: "findBatchByHash s (bg_tokenHash r) = Some b \<Longrightarrow> ab_status b = ACTIVE
    \<Longrightarrow> findStore (Some b) c = Some st \<Longrightarrow> \<not> received (as_status st) \<Longrightarrow> as_attemptCount st < m
    \<Longrightarrow> SHA256 (bg_stateHash r) \<Longrightarrow> STORE_CODES c \<Longrightarrow> valid_time t \<Longrightarrow> valid_time e
    \<Longrightarrow> file_step m s (Begun (bg_stateHash r)) (snd (push_state r c b st t e s))"
| take: "find_state s h = Some i \<Longrightarrow> at_status i = PENDING
    \<Longrightarrow> file_step m s (Claimed h) (set_state h (\<lambda>x. x\<lparr>at_status := PROCESSING, at_processingAt := Some t\<rparr>) s)"
| expire: "find_state s h = Some i \<Longrightarrow> at_status i = PENDING
    \<Longrightarrow> file_step m s Quiet (error_store i cd (set_state h (close_state EXPIRED t cd) s))"
| complete: "find_state s (cq_stateHash r) = Some i \<Longrightarrow> at_status i = PROCESSING
    \<Longrightarrow> find_batch s (at_batchId i) = Some b \<Longrightarrow> findStore (Some b) (at_storeCode i) = Some st
    \<Longrightarrow> ab_status b = ACTIVE
    \<Longrightarrow> binding_conflict (at_storeCode i) (si_supplierId (cq_identity r)) (cq_fingerprint r)
          (concat (map ab_stores (af_batches s))) = None
    \<Longrightarrow> file_step m s (Completed (cq_stateHash r)) (snd (accept_completion r i t s))"
| late: "find_state s h = Some i \<Longrightarrow> at_status i = PROCESSING
    \<Longrightarrow> file_step m s Quiet (set_state h (close_state FAILED t cd) s)"
| fail: "find_state s h = Some i \<Longrightarrow> at_status i \<noteq> SUCCEEDED
    \<Longrightarrow> file_step m s Quiet (error_store i cd (set_state h (close_state FAILED t cd) s))"
| approve: "findStore (find_batch s bid) c = Some st \<Longrightarrow> as_status st = REVIEW_REQUIRED
    \<Longrightarrow> file_step m s Quiet (set_store (\<lambda>b. ab_batchId b = bid) c (approve_store t) s)"
| reopen: "findStore (find_batch s bid) c = Some st \<Longrightarrow> as_status st = APPROVED
    \<Longrightarrow> file_step m s Quiet (set_store (\<lambda>b. ab_batchId b = bid) c (reopen_store rf) s)"
| reject: "filter (\<lambda>b. ab_batchId b = bid) (af_batches s) = [b] \<Longrightarrow>
    file_step m s Quiet
      ((\<lambda>f. f\<lparr>af_batches := upd_first (\<lambda>x. ab_batchId x = bid) (reactivate s bid t) (af_batches f)\<rparr>)
        (set_store (\<lambda>x. ab_batchId x = bid) c (reject_store t) s))"

inductive_cases file_step_quietE: "file_step m s Quiet s'"

section \<open>Every call is a step\<close>

definition within :: "int \<Rightarrow> auth_call \<Rightarrow> bool" where
  [js_eval]: "within m c = (case c of BeginState r \<Rightarrow> bg_maxAttempts r \<le> m | _ \<Rightarrow> True)"

definition call_event :: "auth_call \<Rightarrow> auth_error option \<Rightarrow> auth_event" where
  [js_eval]: "call_event c e =
     (if e \<noteq> None then Quiet
      else case c of BeginState r \<Rightarrow> Begun (bg_stateHash r) | ClaimState h _ \<Rightarrow> Claimed h
           | CompleteState r \<Rightarrow> Completed (cq_stateHash r) | _ \<Rightarrow> Quiet)"

definition is_step :: "int \<Rightarrow> auth_event \<Rightarrow> auth_file option \<Rightarrow> auth_file option \<Rightarrow> bool" where
  "is_step m a f f' \<longleftrightarrow> (a = Quiet \<and> f' = f) \<or>
     (\<exists>s s'. read_file f = Inr s \<and> f' = Some s' \<and> file_step m s a s')"

lemma is_step_same: "is_step m Quiet f f"
  by (simp add: is_step_def)

lemma mutate_is_step:
  assumes "mutate op f = (r, f')"
    and "\<And>s e. fst (op s) = Inl e \<Longrightarrow> file_step m s Quiet (snd (op s))"
    and "\<And>s v. fst (op s) = Inr v \<Longrightarrow> file_step m s a (snd (op s))"
  shows "is_step m (case r of Inl _ \<Rightarrow> Quiet | Inr _ \<Rightarrow> a) f f'"
  using assms(1)
proof (cases rule: mutate_cases)
  case (same e)
  then show ?thesis by (simp add: is_step_def)
next
  case (written s)
  then show ?thesis
    using assms(2,3) by (cases r) (auto simp: is_step_def)
qed

lemma push_is_step:
  "mutate (push_batch now b) f = (r, f') \<Longrightarrow> fresh_batch b \<Longrightarrow> is_step m Quiet f f'"
  by (drule mutate_is_step[where m = m and a = Quiet])
     (auto intro: file_step.create split: sum.splits)

lemma new_date_valid: "new_date d = Some t \<Longrightarrow> valid_time t"
  by (auto simp: new_date_def split: option.splits if_splits)

lemma route_of_codes:
  assumes "routes_cover rs codes" "c \<in> set codes" "route_of rs c = Some a"
  shows "STORE_CODES a"
  using assms by (auto simp: route_of_def routes_cover_def or_null_def list_all_iff split: option.splits if_splits)

lemma fresh_new_batch:
  assumes "list_all STORE_CODES codes" "routes_cover rs codes" "SHA256 h" "valid_time t" "valid_time e"
  shows "fresh_batch \<lparr>ab_batchId = bid, ab_label = l, ab_tokenHash = h, ab_status = ACTIVE,
    ab_createdAt = t, ab_expiresAt = e, ab_completedAt = None, ab_stores = map (new_store rs avail) codes\<rparr>"
  using assms
  by (auto simp: fresh_batch_def valid_batch_def valid_store_def new_store_def list_all_iff
      dest: route_of_codes split: option.splits)

lemma createBatch_is_step:
  assumes "createBatch l r f = (x, f')"
  shows "is_step m Quiet f f'"
proof -
  have "f' = f \<or> (\<exists>now expiry bid lb avail. SHA256 (br_tokenHash r) \<and> valid_time now \<and> valid_time expiry
          \<and> list_all STORE_CODES (dedupe (map js_upper (br_storeCodes r)))
          \<and> routes_cover (map_option upper_routes (br_routes r)) (dedupe (map js_upper (br_storeCodes r)))
          \<and> mutate (push_batch now \<lparr>ab_batchId = bid, ab_label = lb, ab_tokenHash = br_tokenHash r,
               ab_status = ACTIVE, ab_createdAt = now, ab_expiresAt = expiry, ab_completedAt = None,
               ab_stores = map (new_store (map_option upper_routes (br_routes r)) avail)
                 (dedupe (map js_upper (br_storeCodes r)))\<rparr>) f = (x, f'))"
    using assms unfolding createBatch_def Let_def
    by (simp split: if_split_asm option.split_asm) (blast dest: new_date_valid)+
  then show ?thesis
  proof (elim disjE exE conjE)
    assume "f' = f"
    then show ?thesis by (simp add: is_step_def file_step.keep)
  qed (rule push_is_step, assumption, rule fresh_new_batch, assumption+)
qed

lemma begin_body_is_step:
  assumes "SHA256 (bg_stateHash r)" "STORE_CODES c" "bg_maxAttempts r \<le> m"
  shows "fst (begin_body r c s) = Inl e \<Longrightarrow> file_step m s Quiet (snd (begin_body r c s))"
    and "fst (begin_body r c s) = Inr v \<Longrightarrow> file_step m s (Begun (bg_stateHash r)) (snd (begin_body r c s))"
proof -
  show "fst (begin_body r c s) = Inl e \<Longrightarrow> file_step m s Quiet (snd (begin_body r c s))"
    by (auto simp: begin_body_def Let_def file_step.keep push_state_def split: option.splits if_splits)
  show "fst (begin_body r c s) = Inr v \<Longrightarrow> file_step m s (Begun (bg_stateHash r)) (snd (begin_body r c s))"
    using assms
    by (auto simp: begin_body_def Let_def split: option.splits if_splits
        intro!: file_step.start dest: new_date_valid)
qed

lemma claim_body_is_step:
  "fst (claim_body h d s) = Inl e \<Longrightarrow> file_step m s Quiet (snd (claim_body h d s))"
  "fst (claim_body h d s) = Inr v \<Longrightarrow> file_step m s (Claimed h) (snd (claim_body h d s))"
  by (auto simp: claim_body_def Let_def split: option.splits if_splits
      intro: file_step.keep file_step.expire file_step.take)

lemma find_state_hash: "find_state s h = Some i \<Longrightarrow> at_stateHash i = h \<and> SHA256 h \<and> i \<in> set (af_states s)"
  by (auto simp: find_state_def safeEqualHex_def dest: find_Some_set)

lemma findStore_code: "findStore b c = Some st \<Longrightarrow> as_storeCode st = c"
  by (auto simp: findStore_def dest: find_Some_set split: option.splits)

lemma complete_body_is_step:
  "fst (complete_body r s) = Inl e \<Longrightarrow> file_step m s Quiet (snd (complete_body r s))"
  "fst (complete_body r s) = Inr v \<Longrightarrow> file_step m s (Completed (cq_stateHash r)) (snd (complete_body r s))"
  by (auto simp: complete_body_def Let_def batch_open_def accept_completion_def[of r _ _ s, THEN arg_cong[of _ _ fst]]
      split: option.splits if_splits dest: findStore_code
      intro: file_step.keep file_step.late intro!: file_step.complete)

lemma fail_body_is_step: "file_step m s Quiet (snd (fail_body h d c s))"
  by (auto simp: fail_body_def split: option.splits intro: file_step.keep file_step.fail)

lemma approve_body_is_step: "file_step m s Quiet (snd (approve_body r s))"
  by (auto simp: approve_body_def Let_def split: option.splits intro: file_step.keep file_step.approve)

lemma rollback_body_is_step: "file_step m s Quiet (snd (rollback_body q t s))"
  by (auto simp: rollback_body_def Let_def split: option.splits intro: file_step.keep file_step.reopen)

lemma reject_body_is_step: "file_step m s Quiet (snd (reject_body r c t s))"
  by (auto simp: reject_body_def Let_def split: list.splits intro: file_step.keep file_step.reject)

lemma mutate_quiet_step:
  assumes "\<And>s. file_step m s Quiet (snd (op s))" "mutate op f = (r, f')"
  shows "is_step m Quiet f f'"
  using mutate_is_step[OF assms(2), of m Quiet] assms(1) by (auto split: sum.splits)

lemma beginState_is_step:
  assumes "beginState r f = (x, f')" "bg_maxAttempts r \<le> m"
  shows "is_step m (case x of Inl _ \<Rightarrow> Quiet | Inr _ \<Rightarrow> Begun (bg_stateHash r)) f f'"
proof (cases "SHA256 (bg_tokenHash r) \<and> SHA256 (bg_stateHash r) \<and> STORE_CODES (js_upper (bg_storeCode r))")
  case True
  then have "mutate (begin_body r (js_upper (bg_storeCode r))) f = (x, f')"
    using assms(1) by (simp add: beginState_def Let_def)
  then show ?thesis
    by (rule mutate_is_step) (use True assms(2) in \<open>auto intro: begin_body_is_step\<close>)
next
  case False
  then show ?thesis using assms(1) by (auto simp: beginState_def Let_def is_step_same)
qed

lemma claimState_is_step:
  assumes "claimState h d f = (x, f')"
  shows "is_step m (case x of Inl _ \<Rightarrow> Quiet | Inr _ \<Rightarrow> Claimed h) f f'"
proof (cases "SHA256 h")
  case True
  then have "mutate (claim_body h d) f = (x, f')" using assms by (simp add: claimState_def)
  then show ?thesis by (rule mutate_is_step) (auto intro: claim_body_is_step)
next
  case False
  then show ?thesis using assms by (auto simp: claimState_def is_step_same)
qed

lemma completeState_is_step:
  assumes "completeState r f = (x, f')"
  shows "is_step m (case x of Inl _ \<Rightarrow> Quiet | Inr _ \<Rightarrow> Completed (cq_stateHash r)) f f'"
  using assms unfolding completeState_def by (rule mutate_is_step) (auto intro: complete_body_is_step)

lemma failState_is_step: "failState h d c f = (x, f') \<Longrightarrow> is_step m Quiet f f'"
  unfolding failState_def by (rule mutate_quiet_step[OF fail_body_is_step])

lemma approveStore_is_step: "approveStore r f = (x, f') \<Longrightarrow> is_step m Quiet f f'"
  unfolding approveStore_def by (rule mutate_quiet_step[OF approve_body_is_step])

lemma rollback_is_step: "rollbackStoreApproval q f = (x, f') \<Longrightarrow> is_step m Quiet f f'"
  unfolding rollbackStoreApproval_def
  by (auto simp: is_step_same split: option.splits intro: mutate_quiet_step[OF rollback_body_is_step])

lemma rejectStore_is_step: "rejectStore r f = (x, f') \<Longrightarrow> is_step m Quiet f f'"
  unfolding rejectStore_def Let_def
  by (auto simp: is_step_same split: option.splits if_splits intro: mutate_quiet_step[OF reject_body_is_step])

lemma void_step:
  assumes "void_result p = (e, f')"
    and "\<And>x. p = (x, f') \<Longrightarrow> is_step m (case x of Inl _ \<Rightarrow> Quiet | Inr _ \<Rightarrow> a) f f'"
  shows "is_step m (if e = None then a else Quiet) f f'"
  using assms by (cases p; cases "fst p") (auto simp: void_result_def)

text \<open>Every call is a step of the state machine, labelled with what it answered.\<close>

lemma do_call_is_step:
  assumes "do_call c f = (e, f')" "within m c"
  shows "is_step m (call_event c e) f f'"
proof -
  let ?a = "call_event c None"
  have "is_step m (if e = None then ?a else Quiet) f f'"
  proof (cases c)
    case (CreateBatch l r)
    with assms(1) have "void_result (createBatch l r f) = (e, f')" by simp
    then show ?thesis
      by (rule void_step) (auto simp: CreateBatch call_event_def intro: createBatch_is_step split: sum.splits)
  next
    case (BeginState r)
    with assms have b: "void_result (beginState r f) = (e, f')" "bg_maxAttempts r \<le> m"
      by (simp_all add: within_def)
    show ?thesis
      by (rule void_step[OF b(1)], drule beginState_is_step, rule b(2))
         (auto simp: BeginState call_event_def split: sum.splits)
  next
    case (ClaimState h d)
    with assms(1) have v: "void_result (claimState h d f) = (e, f')" by simp
    show ?thesis
      by (rule void_step[OF v], drule claimState_is_step) (auto simp: ClaimState call_event_def split: sum.splits)
  next
    case (CompleteState r)
    with assms(1) have v: "void_result (completeState r f) = (e, f')" by simp
    show ?thesis
      by (rule void_step[OF v], drule completeState_is_step) (auto simp: CompleteState call_event_def split: sum.splits)
  next
    case (FailState h d cd)
    with assms(1) have "void_result (failState h d cd f) = (e, f')" by simp
    then show ?thesis
      by (rule void_step) (auto simp: FailState call_event_def intro: failState_is_step split: sum.splits)
  next
    case (ApproveStore r)
    with assms(1) have "void_result (approveStore r f) = (e, f')" by simp
    then show ?thesis
      by (rule void_step) (auto simp: ApproveStore call_event_def intro: approveStore_is_step split: sum.splits)
  next
    case (RollbackApproval q)
    with assms(1) have "void_result (rollbackStoreApproval q f) = (e, f')" by simp
    then show ?thesis
      by (rule void_step) (auto simp: RollbackApproval call_event_def intro: rollback_is_step split: sum.splits)
  next
    case (RejectStore r)
    with assms(1) have "void_result (rejectStore r f) = (e, f')" by simp
    then show ?thesis
      by (rule void_step) (auto simp: RejectStore call_event_def intro: rejectStore_is_step split: sum.splits)
  qed
  then show ?thesis by (cases e) (simp_all add: call_event_def)
qed

section \<open>Invariants of the store\<close>

text \<open>
  An invariant of the file is a predicate that the empty file satisfies and that every step of the
  state machine keeps; every run of calls from no file then ends in it.
\<close>

definition attempt_bound :: "auth_call list \<Rightarrow> int" where
  [js_eval]: "attempt_bound cs =
     foldr (\<lambda>c m. case c of BeginState r \<Rightarrow> max (bg_maxAttempts r) m | _ \<Rightarrow> m) cs 0"

lemma attempt_bound_Cons: "attempt_bound cs \<le> attempt_bound (c # cs)" "within (attempt_bound (c # cs)) c"
  by (auto simp: attempt_bound_def within_def split: auth_call.splits)

lemma attempt_bound_nonneg: "0 \<le> attempt_bound cs"
proof (induction cs)
  case Nil
  show ?case by (simp add: attempt_bound_def)
next
  case (Cons c cs)
  then show ?case using attempt_bound_Cons(1)[where cs = cs and c = c] by linarith
qed

lemma within_mono: "within m c \<Longrightarrow> m \<le> n \<Longrightarrow> within n c"
  by (auto simp: within_def split: auth_call.splits)

locale store_invariant =
  fixes I :: "auth_file \<Rightarrow> bool" and m :: int
  assumes blank: "I blankState"
    and step: "I s \<Longrightarrow> file_step m s a s' \<Longrightarrow> I s'"
begin

lemma call_keeps: "on_file I f \<Longrightarrow> within m c \<Longrightarrow> on_file I (snd (do_call c f))"
  using do_call_is_step[of c f "fst (do_call c f)" "snd (do_call c f)" m] blank
  by (auto simp: is_step_def on_file_def intro: step dest!: read_file_cases split: option.splits)

lemma run_keeps: "on_file I f \<Longrightarrow> attempt_bound cs \<le> m \<Longrightarrow> on_file I (after_calls cs f)"
proof (induction cs arbitrary: f)
  case (Cons c cs)
  have "within m c" "attempt_bound cs \<le> m"
    using Cons.prems(2) attempt_bound_Cons(1)[where cs = cs and c = c] attempt_bound_Cons(2)[where cs = cs and c = c] within_mono by fastforce+
  then show ?case using Cons.IH[OF call_keeps] Cons.prems(1) by simp
qed simp

lemma run_from_nothing: "attempt_bound cs \<le> m \<Longrightarrow> on_file I (after_calls cs None)"
  by (rule run_keeps) (simp_all add: on_file_def)

end

section \<open>At most one active batch\<close>

definition active_count :: "auth_file \<Rightarrow> nat" where
  [js_eval]: "active_count f = length (filter (\<lambda>b. ab_status b = ACTIVE) (af_batches f))"

lemma set_store_simps [simp]:
  "af_states (set_store p c g f) = af_states f"
  "active_count (set_store p c g f) = active_count f"
  by (simp_all add: set_store_def active_count_def filter_upd_first_same)

lemma set_state_simps [simp]:
  "af_batches (set_state h g f) = af_batches f"
  "active_count (set_state h g f) = active_count f"
  by (simp_all add: set_state_def active_count_def)

lemma error_store_simps [simp]:
  "af_states (error_store i c f) = af_states f"
  "active_count (error_store i c f) = active_count f"
  by (simp_all add: error_store_def)

lemma prune_simps [simp]:
  "af_batches (pruneStates t f) = af_batches f"
  "active_count (pruneStates t f) = active_count f"
  by (simp_all add: pruneStates_def active_count_def)

lemma push_state_batches:
  "af_batches (snd (push_state r c b st t e s)) =
     af_batches (set_store (\<lambda>x. safeEqualHex (ab_tokenHash x) (bg_tokenHash r)) c start_attempt s)"
  by (simp add: push_state_def set_store_def)

lemma active_count_cong: "af_batches f = af_batches g \<Longrightarrow> active_count f = active_count g"
  by (simp add: active_count_def)

lemma accept_completion_batches:
  "af_batches (snd (accept_completion r i t s)) =
     upd_first (\<lambda>b. ab_batchId b = at_batchId i)
       (\<lambda>b. complete_batch t (b\<lparr>ab_stores := upd_first (\<lambda>s. as_storeCode s = at_storeCode i) (receive_store r t) (ab_stores b)\<rparr>))
       (af_batches s)"
  by (simp add: accept_completion_def Let_def set_store_def upd_first_comp comp_def)

lemma reactivate_one:
  assumes one: "length (filter (\<lambda>b. ab_batchId b = bid) xs) = 1"
    and act: "length (filter (\<lambda>b. ab_status b = ACTIVE) xs) \<le> 1"
    and same: "list_ex (\<lambda>x. ab_batchId x \<noteq> bid \<and> ab_status x = ACTIVE) xs =
               list_ex (\<lambda>x. ab_batchId x \<noteq> bid \<and> ab_status x = ACTIVE) (af_batches s)"
  shows "length (filter (\<lambda>b. ab_status b = ACTIVE) (upd_first (\<lambda>x. ab_batchId x = bid) (reactivate s bid t) xs)) \<le> 1"
    (is "length (filter ?A ?u) \<le> 1")
proof (cases "list_ex (\<lambda>x. ab_batchId x \<noteq> bid \<and> ab_status x = ACTIVE) (af_batches s)")
  case True
  then have "reactivate s bid t b = b" for b by (auto simp: reactivate_def)
  then have "length (filter ?A ?u) = length (filter ?A xs)" by (intro filter_upd_first_same) simp
  then show ?thesis using act by simp
next
  case False
  have id: "ab_batchId (reactivate s bid t b) = ab_batchId b" for b by (simp add: reactivate_def)
  have "ab_batchId b = bid" if "b \<in> set ?u" "?A b" for b
    using set_upd_first[OF that(1)] that(2) False same id by (auto simp: list_ex_iff)
  then have "filter ?A ?u = filter ?A (filter (\<lambda>b. ab_batchId b = bid) ?u)"
    by (auto intro!: filter_cong simp: filter_filter)
  then have "length (filter ?A ?u) \<le> length (filter (\<lambda>b. ab_batchId b = bid) ?u)"
    by (metis length_filter_le)
  also have "\<dots> = 1" using one id by (simp add: filter_upd_first_same)
  finally show ?thesis .
qed

interpretation one_active: store_invariant "\<lambda>f. active_count f \<le> 1" m
proof
  show "active_count blankState \<le> 1" by (simp add: active_count_def blankState_def)
next
  fix s a s'
  assume I: "active_count s \<le> 1" and st: "file_step m s a s'"
  from st show "active_count s' \<le> 1"
  proof cases
    case (create b now)
    have "filter (\<lambda>b. ab_status b = ACTIVE) (map revoke_active xs) = []" for xs
      by (induction xs) (auto simp: revoke_active_def)
    then show ?thesis by (simp add: create push_batch_def active_count_def pruneStates_def)
  next
    case (start r b c st t e)
    then show ?thesis
      using I by (simp add: active_count_cong[OF push_state_batches])
  next
    case (complete r i b st t)
    have "length (filter (\<lambda>b. ab_status b = ACTIVE) (af_batches s')) \<le> active_count s"
      unfolding complete accept_completion_batches active_count_def
      by (rule filter_upd_first_le) (simp add: complete_batch_def split: if_splits)
    then show ?thesis using I by (simp add: active_count_def)
  next
    case (reject bid b t c)
    let ?f = "set_store (\<lambda>x. ab_batchId x = bid) c (reject_store t) s"
    have "length (filter (\<lambda>b. ab_batchId b = bid) (af_batches ?f)) = 1"
      using reject(3) by (simp add: set_store_def filter_upd_first_same)
    moreover have "list_ex (\<lambda>x. ab_batchId x \<noteq> bid \<and> ab_status x = ACTIVE) (af_batches ?f) =
        list_ex (\<lambda>x. ab_batchId x \<noteq> bid \<and> ab_status x = ACTIVE) (af_batches s)"
      by (simp add: set_store_def list_ex_upd_first)
    moreover have "length (filter (\<lambda>b. ab_status b = ACTIVE) (af_batches ?f)) \<le> 1"
      using I set_store_simps(2)[of "\<lambda>x. ab_batchId x = bid" c "reject_store t" s]
      unfolding active_count_def by simp
    ultimately have "length (filter (\<lambda>b. ab_status b = ACTIVE)
        (upd_first (\<lambda>x. ab_batchId x = bid) (reactivate s bid t) (af_batches ?f))) \<le> 1"
      using reactivate_one by blast
    then show ?thesis by (simp add: reject active_count_def)
  qed (use I in simp_all)
qed

text \<open>
  From an empty state file, after any calls in any order and with any arguments, at most one
  authorization batch is active: a new batch revokes the earlier ones, and the rejection that makes
  a completed batch active again does so only when no other is.
\<close>

theorem one_active_batch:
  "case after_calls cs None of None \<Rightarrow> True | Some f \<Rightarrow> active_count f \<le> 1"
  using one_active.run_from_nothing[of cs "attempt_bound cs"] by (simp add: on_file_def split: option.splits)

section \<open>Stores and states under a step\<close>

definition stores_of :: "auth_file \<Rightarrow> auth_store list" where
  [js_eval]: "stores_of f = concat (map ab_stores (af_batches f))"

lemma stores_of_cong: "af_batches f = af_batches g \<Longrightarrow> stores_of f = stores_of g"
  by (simp add: stores_of_def)

lemma stores_of_keeps:
  "(\<And>b. ab_stores (g b) = ab_stores b) \<Longrightarrow>
   stores_of (f\<lparr>af_batches := upd_first p g (af_batches f)\<rparr>) = stores_of f"
  by (simp add: stores_of_def map_upd_first)

lemma stores_of_simps [simp]:
  "stores_of (set_state h g f) = stores_of f"
  "stores_of (pruneStates t f) = stores_of f"
  by (simp_all add: stores_of_def)

lemma set_upd_first_found:
  "y \<in> set (upd_first p f xs) \<Longrightarrow> y \<in> set xs \<or> (\<exists>x. find p xs = Some x \<and> x \<in> set xs \<and> y = f x)"
  by (induction xs) (auto split: if_splits)

text \<open>The only store that an update can change is the one that the lookup found.\<close>

lemma stores_of_set_store:
  assumes "x \<in> set (stores_of (set_store p c g f))"
  shows "x \<in> set (stores_of f) \<or>
    (\<exists>b st. find p (af_batches f) = Some b \<and> findStore (Some b) c = Some st
        \<and> st \<in> set (stores_of f) \<and> as_storeCode st = c \<and> x = g st)"
proof -
  obtain b' where b': "b' \<in> set (af_batches (set_store p c g f))" "x \<in> set (ab_stores b')"
    using assms by (auto simp: stores_of_def)
  then consider "b' \<in> set (af_batches f)" | b where "find p (af_batches f) = Some b" "b \<in> set (af_batches f)"
      "b' = b\<lparr>ab_stores := upd_first (\<lambda>s. as_storeCode s = c) g (ab_stores b)\<rparr>"
    by (auto simp: set_store_def dest!: set_upd_first_found)
  then show ?thesis
  proof cases
    case 1
    then show ?thesis using b' by (auto simp: stores_of_def)
  next
    case (2 b)
    then show ?thesis
      using b'(2) by (auto simp: stores_of_def findStore_def dest!: set_upd_first_found dest: find_Some_set)
  qed
qed

lemma found_store_in:
  "find p (af_batches f) = Some b \<Longrightarrow> findStore (Some b) c = Some st \<Longrightarrow> st \<in> set (stores_of f)"
  by (auto simp: stores_of_def findStore_def dest!: find_Some_set)

lemma push_state_stores:
  assumes "findBatchByHash s (bg_tokenHash r) = Some b" "findStore (Some b) c = Some st"
    "x \<in> set (stores_of (snd (push_state r c b st t e s)))"
  shows "x \<in> set (stores_of s) \<or> x = start_attempt st"
  using assms stores_of_set_store[of x "\<lambda>x. safeEqualHex (ab_tokenHash x) (bg_tokenHash r)" c start_attempt s]
  by (auto simp: stores_of_cong[OF push_state_batches] findBatchByHash_def)

lemma stores_upd_first_cong:
  "(\<And>b. ab_stores (g b) = ab_stores (h b)) \<Longrightarrow> map ab_stores (upd_first p g xs) = map ab_stores (upd_first p h xs)"
  by (induction xs) auto

lemma accept_completion_stores:
  assumes "find_batch s (at_batchId i) = Some b" "findStore (Some b) (at_storeCode i) = Some st"
    "x \<in> set (stores_of (snd (accept_completion r i t s)))"
  shows "x \<in> set (stores_of s) \<or> x = receive_store r t st"
proof -
  have "stores_of (snd (accept_completion r i t s)) =
      stores_of (set_store (\<lambda>b. ab_batchId b = at_batchId i) (at_storeCode i) (receive_store r t) s)"
    unfolding stores_of_def accept_completion_batches set_store_def
    by (auto intro!: arg_cong[where f = concat] stores_upd_first_cong simp: complete_batch_def)
  then show ?thesis
    using assms stores_of_set_store[of x "\<lambda>b. ab_batchId b = at_batchId i" "at_storeCode i" "receive_store r t" s]
    by (auto simp: find_batch_def)
qed

lemma push_batch_stores:
  "stores_of (snd (push_batch t b s)) = stores_of s @ ab_stores b"
proof -
  have "ab_stores (revoke_active x) = ab_stores x" for x by (simp add: revoke_active_def)
  then show ?thesis by (simp add: push_batch_def stores_of_def comp_def)
qed

lemma reject_stores:
  "stores_of ((\<lambda>f. f\<lparr>af_batches := upd_first (\<lambda>x. ab_batchId x = bid) (reactivate s bid t) (af_batches f)\<rparr>) f) = stores_of f"
  by (simp add: stores_of_keeps reactivate_def)

lemma error_store_stores:
  "x \<in> set (stores_of (error_store i c f)) \<Longrightarrow> x \<in> set (stores_of f) \<or>
     (\<exists>st\<in>set (stores_of f). x = mark_error c st)"
  using stores_of_set_store[of x _ "at_storeCode i" "mark_error c" f] by (auto simp: error_store_def)

text \<open>
  What a step does to one store: it is an old one, a store of a new batch, or the found store with
  the change of the operation.
\<close>

lemma step_stores:
  assumes "file_step m s a s'" "x \<in> set (stores_of s')"
  obtains (old) "x \<in> set (stores_of s)"
    | (new) "as_status x = NOT_STARTED" "as_attemptCount x = 0" "valid_store x"
    | (started) st where "st \<in> set (stores_of s)" "as_attemptCount st < m" "x = start_attempt st"
    | (errored) st c where "st \<in> set (stores_of s)" "x = mark_error c st"
    | (accepted) st and r :: complete_request and i :: auth_state and t where "a = Completed (cq_stateHash r)" "st \<in> set (stores_of s)" "x = receive_store r t st" "as_storeCode st = at_storeCode i"
        "binding_conflict (at_storeCode i) (si_supplierId (cq_identity r)) (cq_fingerprint r) (stores_of s) = None"
    | (approved) st t where "st \<in> set (stores_of s)" "as_status st = REVIEW_REQUIRED" "x = approve_store t st"
    | (reopened) st rf where "st \<in> set (stores_of s)" "as_status st = APPROVED" "x = reopen_store rf st"
    | (rejected) st t where "st \<in> set (stores_of s)" "x = reject_store t st"
  using assms(1)
proof cases
  case (create b now)
  then consider "x \<in> set (stores_of s)" | "x \<in> set (ab_stores b)"
    using assms(2) by (auto simp: push_batch_stores)
  then show ?thesis
    using create(3) old new by cases (auto simp: fresh_batch_def valid_batch_def list_all_iff)
next
  case (start r b c st t e)
  have "st \<in> set (stores_of s)"
    using start(3,5) found_store_in unfolding findBatchByHash_def by blast
  then show ?thesis
    using old started start(7) push_state_stores[OF start(3,5)] assms(2) start(2) by blast
next
  case (complete r i b st t)
  have "st \<in> set (stores_of s)" "as_storeCode st = at_storeCode i"
    using complete(5,6) found_store_in findStore_code unfolding find_batch_def by blast+
  moreover have "x \<in> set (stores_of s) \<or> x = receive_store r t st"
    using accept_completion_stores[OF complete(5,6)] assms(2) complete(2) by blast
  ultimately show ?thesis
    using old accepted[of r st t i] complete(1,8) by (auto simp: stores_of_def)
next
  case (approve bid c st t)
  then show ?thesis
    using assms(2) old approved stores_of_set_store[of x "\<lambda>b. ab_batchId b = bid" c "approve_store t" s]
    by (auto simp: find_batch_def)
next
  case (reopen bid c st rf)
  then show ?thesis
    using assms(2) old reopened stores_of_set_store[of x "\<lambda>b. ab_batchId b = bid" c "reopen_store rf" s]
    by (auto simp: find_batch_def)
next
  case (reject bid b t c)
  then have "x \<in> set (stores_of (set_store (\<lambda>x. ab_batchId x = bid) c (reject_store t) s))"
    using assms(2) reject_stores by simp
  then show ?thesis using old rejected by (blast dest: stores_of_set_store)
next
  case (expire h i cd t)
  then show ?thesis using assms(2) old errored by (auto dest!: error_store_stores)
next
  case (fail h i cd t)
  then show ?thesis using assms(2) old errored by (auto dest!: error_store_stores)
qed (use assms(2) old in auto)

section \<open>One identity, one store code\<close>

definition bindings_unique :: "auth_file \<Rightarrow> bool" where
  [js_eval]: "bindings_unique f =
     list_all (\<lambda>x. list_all (\<lambda>y. as_storeCode x = as_storeCode y
         \<or> \<not> received (as_status x) \<or> \<not> received (as_status y)
         \<or> (null_text (as_supplierId x) \<noteq> null_text (as_supplierId y) \<and> as_fingerprint x \<noteq> as_fingerprint y))
       (stores_of f)) (stores_of f)"

lemma bindings_unique_iff:
  "bindings_unique f \<longleftrightarrow> (\<forall>x\<in>set (stores_of f). \<forall>y\<in>set (stores_of f).
     received (as_status x) \<longrightarrow> received (as_status y) \<longrightarrow> as_storeCode x \<noteq> as_storeCode y
     \<longrightarrow> null_text (as_supplierId x) \<noteq> null_text (as_supplierId y) \<and> as_fingerprint x \<noteq> as_fingerprint y)"
  by (auto simp: bindings_unique_def list_all_iff)

lemma binding_conflict_None:
  "binding_conflict c supplier fp ss = None \<Longrightarrow> y \<in> set ss \<Longrightarrow> received (as_status y) \<Longrightarrow> as_storeCode y \<noteq> c
     \<Longrightarrow> null_text (as_supplierId y) \<noteq> supplier \<and> as_fingerprint y \<noteq> Some fp"
  by (induction ss) (auto split: if_splits)

definition same_binding :: "auth_store \<Rightarrow> auth_store \<Rightarrow> bool" where
  "same_binding x y \<longleftrightarrow> received (as_status y) \<and> as_storeCode x = as_storeCode y
     \<and> as_supplierId x = as_supplierId y \<and> as_fingerprint x = as_fingerprint y"

text \<open>
  Away from a completion, a received store after a step was received before with the same binding.
\<close>

lemma step_bindings:
  assumes "file_step m s a s'" "x \<in> set (stores_of s')" "received (as_status x)" "\<And>h. a \<noteq> Completed h"
  shows "\<exists>y\<in>set (stores_of s). same_binding x y"
  using assms(1,2)
proof (cases rule: step_stores)
  case old
  then show ?thesis using assms(3) by (auto simp: same_binding_def)
next
  case (errored st c)
  then show ?thesis using assms(3) by (auto simp: same_binding_def mark_error_def received_def split: if_splits)
next
  case (approved st t)
  then show ?thesis by (intro bexI[of _ st]) (auto simp: same_binding_def approve_store_def received_def)
next
  case (reopened st rf)
  then show ?thesis by (intro bexI[of _ st]) (auto simp: same_binding_def reopen_store_def received_def)
qed (use assms(3,4) in \<open>auto simp: received_def start_attempt_def reject_store_def\<close>)

interpretation unique_bindings: store_invariant bindings_unique m
proof
  show "bindings_unique blankState" by (simp add: bindings_unique_def stores_of_def blankState_def)
next
  fix s a s'
  assume I: "bindings_unique s" and st: "file_step m s a s'"
  show "bindings_unique s'"
  proof (cases "\<exists>h. a = Completed h")
    case False
    then show ?thesis
      using I step_bindings[OF st] unfolding bindings_unique_iff same_binding_def by metis
  next
    case True
    from st True obtain r i b w t where c: "s' = snd (accept_completion r i t s)"
      "find_batch s (at_batchId i) = Some b" "findStore (Some b) (at_storeCode i) = Some w"
      "binding_conflict (at_storeCode i) (si_supplierId (cq_identity r)) (cq_fingerprint r) (stores_of s) = None"
      by cases (auto simp: stores_of_def)
    let ?n = "receive_store r t w"
    have n: "as_storeCode ?n = at_storeCode i" "null_text (as_supplierId ?n) = si_supplierId (cq_identity r)"
      "as_fingerprint ?n = Some (cq_fingerprint r)"
      using findStore_code[OF c(3)] by (simp_all add: receive_store_def null_text_def)
    have "x \<in> set (stores_of s) \<or> x = ?n" if "x \<in> set (stores_of s')" for x
      using accept_completion_stores[OF c(2,3)] that c(1) by blast
    then show ?thesis
      using I n binding_conflict_None[OF c(4)] unfolding bindings_unique_iff by metis
  qed
qed

text \<open>
  C14. From an empty state file, after any calls, two received authorizations of different store
  codes have different supplier ids and different credential fingerprints, across all batches.
\<close>

theorem identity_bound_to_one_store:
  "case after_calls cs None of None \<Rightarrow> True | Some f \<Rightarrow> bindings_unique f"
  using unique_bindings.run_from_nothing[of cs "attempt_bound cs"] by (simp add: on_file_def split: option.splits)

section \<open>Bounded attempts and a file that can be read\<close>

definition attempts_within :: "int \<Rightarrow> auth_file \<Rightarrow> bool" where
  [js_eval]: "attempts_within m f \<longleftrightarrow> list_all (\<lambda>s. 0 \<le> as_attemptCount s \<and> as_attemptCount s \<le> max 0 m) (stores_of f)"

lemma step_attempts:
  assumes "file_step m s a s'" "attempts_within m s"
  shows "attempts_within m s'"
proof -
  have "0 \<le> as_attemptCount x \<and> as_attemptCount x \<le> max 0 m" if "x \<in> set (stores_of s')" for x
    using assms(1) that
  proof (cases rule: step_stores)
    case (errored st c)
    then show ?thesis using assms(2) by (auto simp: attempts_within_def list_all_iff mark_error_def)
  qed (use assms(2) in \<open>auto simp: attempts_within_def list_all_iff start_attempt_def receive_store_def
        approve_store_def reopen_store_def reject_store_def\<close>)
  then show ?thesis by (simp add: attempts_within_def list_all_iff)
qed

interpretation bounded_attempts: store_invariant "attempts_within m" m
  using step_attempts by unfold_locales (auto simp: attempts_within_def stores_of_def blankState_def)

text \<open>
  From an empty state file, after any calls, no store has been attempted more often than the
  largest bound that a begin call passed.
\<close>

theorem attempts_are_bounded:
  "case after_calls cs None of None \<Rightarrow> True | Some f \<Rightarrow> attempts_within (attempt_bound cs) f"
  using bounded_attempts.run_from_nothing[of cs "attempt_bound cs"] by (simp add: on_file_def split: option.splits)

definition valid_head :: "auth_batch \<Rightarrow> bool" where
  "valid_head b \<longleftrightarrow> SHA256 (ab_tokenHash b) \<and> valid_time (ab_createdAt b) \<and> valid_time (ab_expiresAt b)"

definition file_valid :: "auth_file \<Rightarrow> bool" where
  "file_valid f \<longleftrightarrow> list_all valid_head (af_batches f) \<and> list_all valid_store (stores_of f) \<and> list_all valid_state (af_states f)"

lemma file_valid_iff: "file_valid f \<longleftrightarrow> validateStateFile f = Inr f"
  by (auto simp: file_valid_def validateStateFile_def valid_batch_def valid_head_def stores_of_def list_all_iff)

lemma valid_head_stores [simp]: "valid_head (b\<lparr>ab_stores := ss\<rparr>) = valid_head b"
  by (simp add: valid_head_def)

lemma valid_state_updates [simp]:
  "valid_state (x\<lparr>at_status := st\<rparr>) = valid_state x"
  "valid_state (x\<lparr>at_completedAt := t\<rparr>) = valid_state x"
  "valid_state (x\<lparr>at_processingAt := t\<rparr>) = valid_state x"
  by (simp_all add: valid_state_def)

lemma heads_upd_first:
  "(\<And>b. valid_head b \<Longrightarrow> valid_head (g b)) \<Longrightarrow> list_all valid_head xs \<Longrightarrow> list_all valid_head (upd_first p g xs)"
  by (rule list_all_upd_first)

lemma heads_set_store: "list_all valid_head (af_batches f) \<Longrightarrow> list_all valid_head (af_batches (set_store p c g f))"
  by (simp add: set_store_def heads_upd_first)

lemma heads_error_store: "list_all valid_head (af_batches f) \<Longrightarrow> list_all valid_head (af_batches (error_store i c f))"
  by (simp add: error_store_def heads_set_store)

lemma step_heads:
  assumes "file_step m s a s'" "list_all valid_head (af_batches s)"
  shows "list_all valid_head (af_batches s')"
  using assms(1)
proof cases
  case (create b now)
  then show ?thesis
    using assms(2) by (auto simp: push_batch_def fresh_batch_def valid_batch_def valid_head_def list_all_iff revoke_active_def)
next
  case (start r b c st t e)
  then show ?thesis using assms(2) by (simp add: push_state_batches heads_set_store)
next
  case (complete r i b st t)
  then show ?thesis
    using assms(2) by (auto simp: accept_completion_batches complete_batch_def valid_head_def intro!: heads_upd_first)
next
  case (reject bid b t c)
  then show ?thesis
    using assms(2) by (auto simp: reactivate_def valid_head_def intro!: heads_upd_first heads_set_store)
qed (use assms(2) in \<open>simp_all add: heads_set_store heads_error_store\<close>)

lemma valid_set_state:
  "(\<And>x. valid_state x \<Longrightarrow> valid_state (g x)) \<Longrightarrow> list_all valid_state (af_states f)
     \<Longrightarrow> list_all valid_state (af_states (set_state h g f))"
  by (simp add: set_state_def list_all_upd_first)

lemma valid_close: "valid_state (close_state st t c x) = valid_state x"
  by (simp add: close_state_def valid_state_def)

lemma push_state_states:
  "af_states (snd (push_state r c b st t e s)) =
     filter (\<lambda>i. at_status i = PENDING \<or> at_status i = PROCESSING \<or> t - 30 * 24 * 60 * 60 * 1000 \<le> at_createdAt i)
       (map (supersede (ab_batchId b) c t) (af_states s) @
        [\<lparr>at_stateHash = bg_stateHash r, at_batchId = ab_batchId b, at_storeCode = c,
          at_applicationStoreCode = or_null (as_applicationStoreCode st), at_status = PENDING,
          at_createdAt = t, at_expiresAt = e, at_processingAt = None, at_completedAt = None, at_failureCode = None\<rparr>])"
  by (simp add: push_state_def pruneStates_def)

lemma accept_completion_states:
  "af_states (snd (accept_completion r i t s)) =
     af_states (set_state (cq_stateHash r) (\<lambda>x. x\<lparr>at_status := SUCCEEDED, at_completedAt := Some t\<rparr>) s)"
  by (simp add: accept_completion_def Let_def)

lemma step_states:
  assumes "file_step m s a s'" "list_all valid_state (af_states s)"
  shows "list_all valid_state (af_states s')"
  using assms(1)
proof cases
  case (create b now)
  then show ?thesis using assms(2) by (simp add: push_batch_def pruneStates_def list_all_iff)
next
  case (start r b c st t e)
  then show ?thesis
    using assms(2) by (auto simp: push_state_states list_all_iff supersede_def valid_state_def)
next
  case (complete r i b st t)
  then show ?thesis using assms(2) by (simp add: accept_completion_states valid_set_state)
next
  case (take h i t)
  then show ?thesis using assms(2) by (simp add: valid_set_state)
qed (use assms(2) in \<open>simp_all add: valid_set_state valid_close\<close>)

lemma step_valid:
  assumes "file_step m s a s'" "file_valid s" "m \<le> 9007199254740991"
  shows "file_valid s'"
proof -
  have "valid_store x" if "x \<in> set (stores_of s')" for x
    using assms(1) that
  proof (cases rule: step_stores)
    case (started st)
    then show ?thesis
      using assms(2,3) by (auto simp: file_valid_def list_all_iff valid_store_def start_attempt_def)
  next
    case (errored st c)
    then show ?thesis using assms(2) by (auto simp: file_valid_def list_all_iff valid_store_def mark_error_def)
  qed (use assms(2) in \<open>auto simp: file_valid_def list_all_iff valid_store_def receive_store_def
        approve_store_def reopen_store_def reject_store_def\<close>)
  then show ?thesis
    using step_heads[OF assms(1)] step_states[OF assms(1)] assms(2) by (auto simp: file_valid_def list_all_iff)
qed

interpretation valid_file: store_invariant file_valid "min 9007199254740991 m"
  using step_valid by unfold_locales (auto simp: file_valid_def stores_of_def blankState_def)

text \<open>
  C19. From an empty state file, after any calls whose attempt bounds are safe integers, the file
  that was written passes the validation with which every later call begins.
\<close>

theorem written_file_is_valid:
  "9007199254740991 < attempt_bound cs \<or>
   (case after_calls cs None of None \<Rightarrow> True | Some f \<Rightarrow> validateStateFile f = Inr f)"
proof (cases "attempt_bound cs \<le> 9007199254740991")
  case True
  then show ?thesis
    using valid_file.run_from_nothing[of cs "attempt_bound cs"]
    by (simp add: on_file_def file_valid_iff split: option.splits)
qed simp

section \<open>Every attempt is claimed once and completed once\<close>

definition states_with :: "string \<Rightarrow> state_status \<Rightarrow> auth_file \<Rightarrow> nat" where
  [js_eval]: "states_with h st f = length (filter (\<lambda>i. at_stateHash i = h \<and> at_status i = st) (af_states f))"

lemma length_filter_upd_found:
  "find p xs = Some x \<Longrightarrow> length (filter Q (upd_first p f xs)) + (if Q x then 1 else 0) =
     length (filter Q xs) + (if Q (f x) then 1 else (0::nat))"
  by (induction xs) (auto split: if_splits)

lemma states_with_set_state:
  assumes "find_state f k = Some i"
  shows "states_with h st (set_state k g f) + (if at_stateHash i = h \<and> at_status i = st then 1 else 0)
    = states_with h st f + (if at_stateHash (g i) = h \<and> at_status (g i) = st then 1 else 0)"
  using length_filter_upd_found[OF assms[unfolded find_state_def], of "\<lambda>i. at_stateHash i = h \<and> at_status i = st" g]
  by (simp add: states_with_def set_state_def)

lemma states_with_simps [simp]:
  "states_with h st (set_store p c g f) = states_with h st f"
  "states_with h st (error_store i c f) = states_with h st f"
  "states_with h st (f\<lparr>af_batches := bs\<rparr>) = states_with h st f"
  by (simp_all add: states_with_def)

lemma filter_filter_le: "length (filter P (filter Q xs)) \<le> length (filter P xs)"
  by (induction xs) auto

lemma states_with_prune: "states_with h st (pruneStates t f) \<le> states_with h st f"
  by (simp add: states_with_def pruneStates_def filter_filter_le del: filter_filter)

lemma states_with_push_batch: "states_with h st (snd (push_batch now b s)) \<le> states_with h st s"
  by (simp add: push_batch_def order_trans[OF states_with_prune])

lemma states_with_accept:
  "states_with h st (snd (accept_completion r i t s)) =
     states_with h st (set_state (cq_stateHash r) (\<lambda>x. x\<lparr>at_status := SUCCEEDED, at_completedAt := Some t\<rparr>) s)"
  by (simp add: states_with_def accept_completion_states)

lemma supersede_count:
  "length (filter (\<lambda>i. at_stateHash i = h \<and> at_status i = w) (map (supersede bid c t) xs))
     \<le> length (filter (\<lambda>i. at_stateHash i = h \<and> at_status i = w) xs)" if "w \<noteq> EXPIRED"
  using that by (induction xs) (auto simp: supersede_def)

lemma states_with_push:
  assumes "w = PENDING \<or> w = PROCESSING"
  shows "states_with h w (snd (push_state r c b st t e s))
    \<le> states_with h w s + (if w = PENDING \<and> bg_stateHash r = h then 1 else 0)"
proof -
  let ?P = "\<lambda>i. at_stateHash i = h \<and> at_status i = w"
  have "states_with h w (snd (push_state r c b st t e s)) \<le> length (filter ?P (map (supersede (ab_batchId b) c t) (af_states s)))
      + (if w = PENDING \<and> bg_stateHash r = h then 1 else 0)"
    unfolding states_with_def push_state_states by (rule order_trans[OF filter_filter_le]) (use assms in auto)
  also have "\<dots> \<le> states_with h w s + (if w = PENDING \<and> bg_stateHash r = h then 1 else 0)"
    unfolding states_with_def using supersede_count[of w] assms by auto
  finally show ?thesis .
qed

lemma close_state_fields [simp]:
  "at_stateHash (close_state st t c i) = at_stateHash i" "at_status (close_state st t c i) = st"
  by (simp_all add: close_state_def)

lemma step_counts:
  assumes "file_step m s a s'"
  shows "(if a = Claimed h then 1 else 0) + states_with h PENDING s'
      \<le> (if a = Begun h then 1 else 0) + states_with h PENDING s" (is "?claims")
    and "(if a = Completed h then 1 else 0) + states_with h PROCESSING s'
      \<le> (if a = Claimed h then 1 else 0) + states_with h PROCESSING s" (is "?completes")
proof -
  have "?claims \<and> ?completes"
    using assms
  proof cases
    case (start r b c st t e)
    show ?thesis
      using states_with_push[of PENDING h r c b st t e s] states_with_push[of PROCESSING h r c b st t e s]
      unfolding start by (auto split: if_splits)
  next
    case (take k i t)
    then show ?thesis
      using states_with_set_state[OF take(3), of h PENDING "\<lambda>x. x\<lparr>at_status := PROCESSING, at_processingAt := Some t\<rparr>"]
        states_with_set_state[OF take(3), of h PROCESSING "\<lambda>x. x\<lparr>at_status := PROCESSING, at_processingAt := Some t\<rparr>"]
        find_state_hash[OF take(3)] by (auto split: if_splits)
  next
    case (expire k i cd t)
    then show ?thesis
      using states_with_set_state[OF expire(3), of h PENDING "close_state EXPIRED t cd"]
        states_with_set_state[OF expire(3), of h PROCESSING "close_state EXPIRED t cd"]
        find_state_hash[OF expire(3)] by (auto split: if_splits)
  next
    case (complete r i b st t)
    then show ?thesis
      using states_with_set_state[OF complete(3), of h PENDING "\<lambda>x. x\<lparr>at_status := SUCCEEDED, at_completedAt := Some t\<rparr>"]
        states_with_set_state[OF complete(3), of h PROCESSING "\<lambda>x. x\<lparr>at_status := SUCCEEDED, at_completedAt := Some t\<rparr>"]
        find_state_hash[OF complete(3)] by (auto simp: states_with_accept split: if_splits)
  next
    case (late k i t cd)
    then show ?thesis
      using states_with_set_state[OF late(3), of h PENDING "close_state FAILED t cd"]
        states_with_set_state[OF late(3), of h PROCESSING "close_state FAILED t cd"]
        find_state_hash[OF late(3)] by (auto split: if_splits)
  next
    case (fail k i cd t)
    then show ?thesis
      using states_with_set_state[OF fail(3), of h PENDING "close_state FAILED t cd"]
        states_with_set_state[OF fail(3), of h PROCESSING "close_state FAILED t cd"]
        find_state_hash[OF fail(3)] by (auto split: if_splits)
  next
    case (create b now)
    then show ?thesis using states_with_push_batch by simp
  qed auto
  then show ?claims ?completes by blast+
qed

text \<open>How often a run of calls answers an event.\<close>

definition times :: "auth_event \<Rightarrow> auth_call list \<Rightarrow> auth_file option \<Rightarrow> nat" where
  [js_eval]: "times a cs f = length (filter (\<lambda>(c, e). call_event c e = a) (call_trace cs f))"

definition file_states :: "string \<Rightarrow> state_status \<Rightarrow> auth_file option \<Rightarrow> nat" where
  "file_states h st f = (case f of None \<Rightarrow> 0 | Some s \<Rightarrow> states_with h st s)"

lemma file_states_read: "read_file f = Inr s \<Longrightarrow> file_states h st f = states_with h st s"
  by (auto simp: file_states_def states_with_def blankState_def dest!: read_file_cases)

lemma file_states_Some: "file_states h st (Some s) = states_with h st s"
  by (simp add: file_states_def)

lemma call_counts:
  fixes c f defines "a \<equiv> call_event c (fst (do_call c f))" and "f' \<equiv> snd (do_call c f)"
  shows "(if a = Claimed h then 1 else 0) + file_states h PENDING f'
      \<le> (if a = Begun h then 1 else 0) + file_states h PENDING f"
    and "(if a = Completed h then 1 else 0) + file_states h PROCESSING f'
      \<le> (if a = Claimed h then 1 else 0) + file_states h PROCESSING f"
proof -
  obtain m where "within m c" by (cases c) (auto simp: within_def)
  then consider "a = Quiet" "f' = f" | s s' where "read_file f = Inr s" "f' = Some s'" "file_step m s a s'"
    using do_call_is_step[of c f "fst (do_call c f)" "snd (do_call c f)" m]
    by (auto simp: is_step_def a_def f'_def)
  note cases = this
  from cases show "(if a = Claimed h then 1 else 0) + file_states h PENDING f'
      \<le> (if a = Begun h then 1 else 0) + file_states h PENDING f"
  proof cases
    case (2 s s')
    then show ?thesis
      using step_counts(1)[OF 2(3), of h] by (simp only: file_states_read[OF 2(1)] 2(2) file_states_Some)
  qed simp
  from cases show "(if a = Completed h then 1 else 0) + file_states h PROCESSING f'
      \<le> (if a = Claimed h then 1 else 0) + file_states h PROCESSING f"
  proof cases
    case (2 s s')
    then show ?thesis
      using step_counts(2)[OF 2(3), of h] by (simp only: file_states_read[OF 2(1)] 2(2) file_states_Some)
  qed simp
qed

lemma run_counts:
  "times (Claimed h) cs f + file_states h PENDING (after_calls cs f) \<le> times (Begun h) cs f + file_states h PENDING f
   \<and> times (Completed h) cs f + file_states h PROCESSING (after_calls cs f)
     \<le> times (Claimed h) cs f + file_states h PROCESSING f"
proof (induction cs arbitrary: f)
  case (Cons c cs)
  show ?case
    using Cons.IH[of "snd (do_call c f)"] call_counts[of c f h] by (auto simp: times_def split: if_splits)
qed (simp add: times_def)

text \<open>
  C17. In every run of calls from an empty file, under any state hash, at most as many
  authorizations are completed as were claimed, and at most as many are claimed as were begun: a
  callback state that was begun once is claimed at most once and received at most once.
\<close>

theorem callback_state_used_once:
  "times (Completed h) cs None \<le> times (Claimed h) cs None \<and> times (Claimed h) cs None \<le> times (Begun h) cs None"
  using run_counts[of h cs None] by (simp add: file_states_def)

section \<open>One open attempt per store\<close>

definition open_attempts :: "string \<Rightarrow> string \<Rightarrow> auth_file \<Rightarrow> nat" where
  [js_eval]: "open_attempts bid c f =
     length (filter (\<lambda>i. at_batchId i = bid \<and> at_storeCode i = c \<and> (at_status i = PENDING \<or> at_status i = PROCESSING))
       (af_states f))"

lemma open_attempts_simps [simp]:
  "open_attempts bid c (set_store p k g f) = open_attempts bid c f"
  "open_attempts bid c (error_store i k f) = open_attempts bid c f"
  "open_attempts bid c (f\<lparr>af_batches := bs\<rparr>) = open_attempts bid c f"
  by (simp_all add: open_attempts_def)

lemma open_attempts_set_state:
  assumes "find_state f h = Some i"
    and "at_status (g i) = PENDING \<or> at_status (g i) = PROCESSING \<Longrightarrow> at_status i = PENDING \<or> at_status i = PROCESSING"
    and "at_batchId (g i) = at_batchId i" "at_storeCode (g i) = at_storeCode i"
  shows "open_attempts bid c (set_state h g f) \<le> open_attempts bid c f"
  using length_filter_upd_found[OF assms(1)[unfolded find_state_def],
      of "\<lambda>i. at_batchId i = bid \<and> at_storeCode i = c \<and> (at_status i = PENDING \<or> at_status i = PROCESSING)" g] assms(2-4)
  by (auto simp: open_attempts_def set_state_def split: if_splits)

lemma open_attempts_push:
  assumes "open_attempts bid k s \<le> 1"
  shows "open_attempts bid k (snd (push_state r c b st t e s)) \<le> 1"
proof -
  let ?P = "\<lambda>i. at_batchId i = bid \<and> at_storeCode i = k \<and> (at_status i = PENDING \<or> at_status i = PROCESSING)"
  have none: "filter ?P (map (supersede bid k t) xs) = []" for xs
    by (induction xs) (auto simp: supersede_def)
  have le: "length (filter ?P (map (supersede (ab_batchId b) c t) xs)) \<le> length (filter ?P xs)" for xs
    by (induction xs) (auto simp: supersede_def)
  have "length (filter ?P (map (supersede (ab_batchId b) c t) (af_states s)))
      + (if bid = ab_batchId b \<and> k = c then 1 else 0) \<le> 1"
  proof (cases "bid = ab_batchId b \<and> k = c")
    case True
    then have "filter ?P (map (supersede (ab_batchId b) c t) (af_states s)) = []" using none by blast
    then show ?thesis by simp
  next
    case False
    then show ?thesis using le[of "af_states s"] assms by (simp only: open_attempts_def if_False)
  qed
  then show ?thesis
    unfolding open_attempts_def push_state_states
    by (intro order_trans[OF filter_filter_le]) (auto split: if_splits)
qed

interpretation one_attempt: store_invariant "\<lambda>f. open_attempts bid c f \<le> 1" m
proof
  show "open_attempts bid c blankState \<le> 1" by (simp add: open_attempts_def blankState_def)
next
  fix s a s'
  assume I: "open_attempts bid c s \<le> 1" and st: "file_step m s a s'"
  from st show "open_attempts bid c s' \<le> 1"
  proof cases
    case (create b now)
    have "open_attempts bid c s' \<le> open_attempts bid c s"
      unfolding create push_batch_def open_attempts_def pruneStates_def by (simp add: filter_filter_le del: filter_filter)
    then show ?thesis using I by simp
  next
    case (start r b k w t e)
    then show ?thesis using I open_attempts_push by simp
  next
    case (complete r i b w t)
    have "open_attempts bid c s' = open_attempts bid c
        (set_state (cq_stateHash r) (\<lambda>x. x\<lparr>at_status := SUCCEEDED, at_completedAt := Some t\<rparr>) s)"
      by (simp add: complete open_attempts_def accept_completion_states)
    also have "\<dots> \<le> open_attempts bid c s"
      using complete(3) by (rule open_attempts_set_state) simp_all
    finally show ?thesis using I by simp
  qed (use I in \<open>auto intro!: order_trans[OF open_attempts_set_state] simp: close_state_def\<close>)
qed

text \<open>
  From an empty state file, after any calls, a store of a batch has at most one attempt that is
  pending or being processed: beginning again expires the one before.
\<close>

theorem one_open_attempt_per_store:
  "case after_calls cs None of None \<Rightarrow> True | Some f \<Rightarrow> open_attempts bid c f \<le> 1"
  using one_attempt.run_from_nothing[where cs = cs and m = "attempt_bound cs" and bid = bid and c = c] by (simp add: on_file_def split: option.splits)

section \<open>Rolling an approval back\<close>

lemma set_store_comp:
  assumes "\<And>b ss. p (b\<lparr>ab_stores := ss\<rparr>) = p b" "\<And>s. as_storeCode (g s) = as_storeCode s"
  shows "set_store p c h (set_store p c g f) = set_store p c (h \<circ> g) f"
  using assms by (simp add: set_store_def upd_first_comp comp_def)

lemma set_store_same:
  assumes "find p (af_batches f) = Some b" "findStore (Some b) c = Some st" "g st = st"
  shows "set_store p c g f = f"
proof -
  have "upd_first (\<lambda>s. as_storeCode s = c) g (ab_stores b) = ab_stores b"
    using assms(2,3) by (intro upd_first_id) (auto simp: findStore_def)
  then have "upd_first p (\<lambda>b. b\<lparr>ab_stores := upd_first (\<lambda>s. as_storeCode s = c) g (ab_stores b)\<rparr>) (af_batches f)
      = af_batches f"
    using assms(1) by (intro upd_first_id) auto
  then show ?thesis by (simp add: set_store_def)
qed

lemma find_batch_set_store:
  "find_batch (set_store (\<lambda>b. ab_batchId b = bid) c g f) bid =
     map_option (\<lambda>b. b\<lparr>ab_stores := upd_first (\<lambda>s. as_storeCode s = c) g (ab_stores b)\<rparr>) (find_batch f bid)"
  by (simp add: find_batch_def set_store_def find_upd_first)

lemma findStore_set_store:
  assumes "\<And>s. as_storeCode (g s) = as_storeCode s"
  shows "findStore (find_batch (set_store (\<lambda>b. ab_batchId b = bid) c g f) bid) c =
    map_option g (findStore (find_batch f bid) c)"
  using assms by (auto simp: find_batch_set_store findStore_def find_upd_first split: option.splits)

lemma mutate_valid: "validateStateFile s = Inr s \<Longrightarrow> op s = (Inr v, s') \<Longrightarrow> mutate op (Some s) = (Inr v, Some s')"
  by (simp add: mutate_def read_file_def)

lemma mutate_InrE:
  assumes "mutate op (Some s) = (Inr v, f')"
  obtains s' where "validateStateFile s = Inr s" "op s = (Inr v, s')" "f' = Some s'"
proof -
  have "read_file (Some s) = Inr s"
    using assms by (auto simp: mutate_def read_file_def validateStateFile_def split: sum.splits if_splits)
  then show ?thesis
    using assms that
    by (cases "op s") (auto simp: mutate_def read_file_def validateStateFile_def split: sum.splits if_splits auth_error.splits bool.splits)
qed

text \<open>
  C40. When the approval of a store that is under review succeeds, rolling it back with the review
  time, the receipt file and the fingerprint that the store had restores the state file exactly.
\<close>

theorem rollback_undoes_approval:
  assumes "approveStore r (Some f) = (Inr v, f')"
    and "findStore (find_batch f (rv_batchId r)) (js_upper (rv_storeCode r)) = Some st"
    and "as_reviewedAt st = None" "as_receiptFile st = Some rf" "basename rf = rf" "rf \<noteq> []"
    and "as_fingerprint st = Some fp"
  shows "snd (rollbackStoreApproval \<lparr>rb_review = r, rb_receiptFile = rf, rb_fingerprint = fp\<rparr> f') = Some f"
proof -
  let ?c = "js_upper (rv_storeCode r)" and ?p = "\<lambda>b. ab_batchId b = rv_batchId r"
  obtain s' where s': "validateStateFile f = Inr f" "approve_body r f = (Inr v, s')" "f' = Some s'"
    using assms(1) unfolding approveStore_def by (rule mutate_InrE)
  obtain t where t: "as_status st = REVIEW_REQUIRED" "null_text (as_supplierId st) = rv_supplierId r"
      "new_date (rv_reviewedAt r) = Some t" "s' = set_store ?p ?c (approve_store t) f"
    using s'(2) assms(2)
    by (auto simp: approve_body_def Let_def refuse_def batch_view_def split: option.splits if_splits)
  have "file_step 0 f Quiet s'"
    unfolding t(4) using assms(2) t(1) by (rule file_step.approve)
  then have ok: "validateStateFile s' = Inr s'"
    using s'(1) step_valid unfolding file_valid_iff[symmetric] by fastforce
  have found: "findStore (find_batch s' (rv_batchId r)) ?c = Some (approve_store t st)"
    unfolding t(4) using assms(2) by (simp add: findStore_set_store approve_store_def)
  obtain b where b: "find_batch f (rv_batchId r) = Some b" "findStore (Some b) ?c = Some st"
    using assms(2) by (cases "find_batch f (rv_batchId r)") (auto simp: findStore_def)
  have "set_store ?p ?c (reopen_store rf) s' = set_store ?p ?c (reopen_store rf \<circ> approve_store t) f"
    unfolding t(4) by (rule set_store_comp) (simp_all add: approve_store_def)
  also have "\<dots> = f"
    using b assms(3,4) t(1) by (intro set_store_same) (auto simp: find_batch_def reopen_store_def approve_store_def)
  finally have "rollback_body \<lparr>rb_review = r, rb_receiptFile = rf, rb_fingerprint = fp\<rparr> t s' = batch_view (rv_batchId r) (Some t) f"
    using found assms(5-7) t(2)
    by (simp add: rollback_body_def Let_def approve_store_def)
  then show ?thesis
    using b(1) ok t(3) s'(3)
    by (simp add: rollbackStoreApproval_def mutate_valid batch_view_def)
qed

text \<open>A file with one store under review, for the witness.\<close>

definition reviewed_store :: auth_store where
  "reviewed_store =
     \<lparr>as_storeCode = ''DL0001'', as_applicationStoreCode = None, as_applicationReady = Some True,
      as_status = REVIEW_REQUIRED, as_attemptCount = 1, as_authorizedAt = Some 1500, as_reviewedAt = None,
      as_platformStoreName = None, as_supplierId = Some ''77'', as_accountNo = None,
      as_receiptFile = Some ''r.json'', as_fingerprint = Some ''fp'', as_lastErrorCode = None\<rparr>"

definition reviewed_file :: auth_file where
  "reviewed_file =
     \<lparr>af_batches = [\<lparr>ab_batchId = ''b1'', ab_label = ''x'', ab_tokenHash = replicate 64 CHR ''0'',
        ab_status = COMPLETED, ab_createdAt = 1000, ab_expiresAt = 9000, ab_completedAt = Some 1500,
        ab_stores = [reviewed_store]\<rparr>],
      af_states = []\<rparr>"

definition reviewed_request :: review_request where
  "reviewed_request = \<lparr>rv_batchId = ''b1'', rv_storeCode = ''dl0001'', rv_supplierId = ''77'', rv_reviewedAt = Some 2000\<rparr>"

lemma reviewed_code: "js_upper ''dl0001'' = ''DL0001''"
  by code_simp

lemma reviewed_found:
  "findStore (find_batch reviewed_file (rv_batchId reviewed_request)) (js_upper (rv_storeCode reviewed_request))
     = Some reviewed_store"
  by (simp add: reviewed_file_def reviewed_request_def reviewed_code find_batch_def findStore_def reviewed_store_def)

lemma reviewed_valid: "validateStateFile reviewed_file = Inr reviewed_file"
  by (simp add: reviewed_file_def reviewed_store_def validateStateFile_def valid_batch_def valid_store_def valid_time_def
      hex64_pattern_def STORE_CODES_def matches_span_def list_all_iff is_hex_def is_digit_def is_upper_def)

lemma reviewed_approval:
  "\<exists>v. approveStore reviewed_request (Some reviewed_file) = (Inr v, snd (approveStore reviewed_request (Some reviewed_file)))"
proof -
  have "\<exists>v s'. approve_body reviewed_request reviewed_file = (Inr v, s')"
    using reviewed_found
    by (auto simp: approve_body_def Let_def batch_view_def find_batch_set_store reviewed_store_def null_text_def
        new_date_def valid_time_def findStore_def reviewed_request_def split: option.splits)
  then show ?thesis by (auto simp: approveStore_def mutate_valid[OF reviewed_valid])
qed

theorem rollback_undoes_approval_witness:
  "snd (rollbackStoreApproval \<lparr>rb_review = reviewed_request, rb_receiptFile = ''r.json'', rb_fingerprint = ''fp''\<rparr>
     (snd (approveStore reviewed_request (Some reviewed_file)))) = Some reviewed_file"
proof -
  obtain v where v: "approveStore reviewed_request (Some reviewed_file) = (Inr v, snd (approveStore reviewed_request (Some reviewed_file)))"
    using reviewed_approval by blast
  have "as_reviewedAt reviewed_store = None" "as_receiptFile reviewed_store = Some ''r.json''"
    "as_fingerprint reviewed_store = Some ''fp''" "basename ''r.json'' = ''r.json''"
    by (simp_all add: reviewed_store_def basename_def)
  then show ?thesis using rollback_undoes_approval[OF v reviewed_found] by simp
qed

end
