(* ===== verification/Authorization_Service_Properties.thy ===== *)
theory Authorization_Service_Properties
  imports Authorization_Service Authorization_Properties
begin

text \<open>
  What a callback of the authorization guarantees, whatever the platform answers and whatever other
  requests do in between: the claimed state is closed, only a verified identity is received, and a
  secret receipt exists exactly for what was received.
\<close>

section \<open>The state is closed\<close>

definition settled :: "string \<Rightarrow> auth_file option \<Rightarrow> bool" where
  [js_eval]: "settled h f \<longleftrightarrow>
     (case f of None \<Rightarrow> True
      | Some s \<Rightarrow> (case find_state s h of None \<Rightarrow> True | Some i \<Rightarrow> at_status i = SUCCEEDED \<or> at_status i = FAILED))"

lemma find_state_set_state:
  "(\<And>x. at_stateHash (g x) = at_stateHash x) \<Longrightarrow> find_state (set_state h g f) h = map_option g (find_state f h)"
  by (simp add: find_state_def set_state_def find_upd_first)

lemma find_state_cong: "af_states f = af_states g \<Longrightarrow> find_state f h = find_state g h"
  by (simp add: find_state_def)

lemma fail_settles:
  assumes "on_file file_valid f" "valid_time t"
  shows "settled h (snd (failState h (Some t) c f))"
proof -
  obtain s where s: "read_file f = Inr s"
    using assms(1) by (auto simp: on_file_def read_file_def file_valid_iff split: option.splits)
  have "\<exists>r s'. fail_body h (Some t) c s = (Inr r, s') \<and> settled h (Some s')"
    using assms(2)
    by (auto simp: fail_body_def new_date_def settled_def find_state_set_state close_state_def
        find_state_cong[OF error_store_simps(1)] split: option.splits)
  then show ?thesis using s by (auto simp: failState_def mutate_def)
qed

inductive_cases completed_stepE: "file_step m s (Completed h) s'"

lemma completeState_InrE:
  assumes "completeState r f = (Inr v, f')"
  obtains s s' where "read_file f = Inr s" "f' = Some s'" "complete_body r s = (Inr v, s')"
    "file_step 0 s (Completed (cq_stateHash r)) s'"
  using assms unfolding completeState_def
proof (cases rule: mutate_cases)
  case (written s)
  then show ?thesis
    using that[of s "snd (complete_body r s)"] complete_body_is_step(2)[of r s v 0] by (metis prod.collapse)
qed simp

lemma completion_settles:
  assumes "completeState r f = (Inr v, f')"
  shows "settled (cq_stateHash r) f'"
  using assms
proof (rule completeState_InrE)
  fix s s' assume f': "f' = Some s'" and "file_step 0 s (Completed (cq_stateHash r)) s'"
  from this(2) show ?thesis
  proof (rule completed_stepE)
    fix q i b st t
    assume "cq_stateHash r = cq_stateHash q" "s' = snd (accept_completion q i t s)"
      "find_state s (cq_stateHash q) = Some i"
    then show ?thesis
      by (simp add: f' settled_def find_state_cong[OF accept_completion_states] find_state_set_state)
  qed
qed

lemma do_calls_valid:
  assumes "on_file file_valid f" "attempt_bound cs \<le> 9007199254740991"
  shows "on_file file_valid (after_calls cs f)"
  using valid_file.run_keeps[OF assms(1), of cs "attempt_bound cs"] assms(2) by simp

lemma claim_valid: "on_file file_valid f \<Longrightarrow> on_file file_valid (snd (claimState h t f))"
  using valid_file.call_keeps[where c = "ClaimState h t" and m = 0] by (simp add: within_def snd_void_result)

lemma complete_valid: "on_file file_valid f \<Longrightarrow> on_file file_valid (snd (completeState r f))"
  using valid_file.call_keeps[where c = "CompleteState r" and m = 0] by (simp add: within_def snd_void_result)

lemma finish_claim_file:
  "aw_file (snd (finish_claim sha sc env st cl w)) = aw_file w
   \<or> (\<exists>r. cq_stateHash r = sha st \<and> aw_file (snd (finish_claim sha sc env st cl w)) = snd (completeState r (aw_file w)))"
proof (cases "receipt_of sc env st cl")
  case (Inl e)
  then show ?thesis by (simp add: finish_claim_def)
next
  case (Inr rc)
  let ?name = "receipt_name (cl_batchId cl) (cl_storeCode cl) (ce_stamp env) (ce_random env)"
  let ?r = "completion_of sha env st ?name rc"
  obtain x f' where "completeState ?r (aw_file w) = (x, f')" by fastforce
  then have "aw_file (snd (finish_claim sha sc env st cl w)) = aw_file w \<or>
      aw_file (snd (finish_claim sha sc env st cl w)) = snd (completeState ?r (aw_file w))"
    using Inr by (cases x) (simp_all add: finish_claim_def Let_def)
  moreover have "cq_stateHash ?r = sha st" by (simp add: completion_of_def)
  ultimately show ?thesis by blast
qed

text \<open>
  C13. Once a callback has claimed its state, it closes it: whatever the platform answers and whatever
  other requests do while it waits, the state is succeeded or failed when the callback is over,
  provided the file can be read and the clock gives a date.
\<close>

theorem callback_closes_its_state:
  assumes "on_file (\<lambda>f. validateStateFile f = Inr f) (aw_file w)"
    and "attempt_bound (ce_before env) \<le> 9007199254740991" "attempt_bound (ce_after env) \<le> 9007199254740991"
    and "valid_time (ce_failedAt env)"
    and "TOKEN_PATTERN st" "TEMP_TOKEN_PATTERN tempToken"
    and "fst (claimState (sha st) (Some (ce_claimedAt env)) (aw_file w)) = Inr cl"
  shows "settled (sha st) (aw_file (snd (complete_callback sha sc env st tempToken w)))"
proof -
  have valid: "on_file file_valid (aw_file w)"
    using assms(1) by (auto simp: on_file_def file_valid_iff split: option.splits)
  obtain f1 where f1: "claimState (sha st) (Some (ce_claimedAt env)) (aw_file w) = (Inr cl, f1)"
    using assms(7) by (metis prod.collapse)
  let ?w1 = "run_others (ce_before env) (w\<lparr>aw_file := f1\<rparr>)"
  have v1: "on_file file_valid (aw_file ?w1)"
    using claim_valid[OF valid, of "sha st" "Some (ce_claimedAt env)"] f1 assms(2)
    by (simp add: run_others_def do_calls_valid)
  obtain r w' where fin: "finish_claim sha sc env st cl ?w1 = (r, w')" by fastforce
  have v2: "on_file file_valid (aw_file w')"
    using finish_claim_file[of sha sc env st cl ?w1] v1 complete_valid[OF v1] fin by auto
  show ?thesis
  proof (cases r)
    case (Inl e)
    have "on_file file_valid (aw_file (run_others (ce_after env) w'))"
      using v2 assms(3) by (simp add: run_others_def do_calls_valid)
    then show ?thesis
      using Inl fin f1 assms(4-6) by (simp add: complete_callback_def Let_def fail_settles)
  next
    case (Inr v)
    then obtain rc name where "completeState (completion_of sha env st name rc) (aw_file ?w1) = (Inr v, aw_file w')"
      using fin by (auto simp: finish_claim_def Let_def split: sum.splits prod.splits if_splits)
    then have "settled (sha st) (aw_file w')"
      by (auto dest: completion_settles simp: completion_of_def)
    then show ?thesis
      using Inr fin f1 assms(5,6) by (simp add: complete_callback_def)
  qed
qed

text \<open>A file with one attempt waiting for its callback, and a callback without an application file.\<close>

definition zero_hash :: "string \<Rightarrow> string" where
  "zero_hash s = replicate 64 CHR ''0''"

definition waiting_file :: auth_file where
  "waiting_file =
     \<lparr>af_batches = [\<lparr>ab_batchId = ''b1'', ab_label = ''x'', ab_tokenHash = replicate 64 CHR ''0'',
        ab_status = ACTIVE, ab_createdAt = 1000, ab_expiresAt = 900000, ab_completedAt = None,
        ab_stores = [reviewed_store\<lparr>as_status := AUTHORIZING\<rparr>]\<rparr>],
      af_states = [\<lparr>at_stateHash = replicate 64 CHR ''0'', at_batchId = ''b1'', at_storeCode = ''DL0001'',
        at_applicationStoreCode = None, at_status = PENDING, at_createdAt = 2000, at_expiresAt = 602000,
        at_processingAt = None, at_completedAt = None, at_failureCode = None\<rparr>]\<rparr>"

definition waiting_env :: callback_env where
  "waiting_env =
     \<lparr>ce_claimedAt = 3000, ce_completedAt = 4000, ce_failedAt = 4000, ce_config = None,
      ce_exchange = Inl ''NETWORK_ERROR'', ce_storeInfo = Inl ''NETWORK_ERROR'', ce_stamp = ''1'', ce_random = ''a'',
      ce_writeFails = False, ce_unlinkFails = False, ce_before = [], ce_after = []\<rparr>"

lemma zeros_hash: "hex64_pattern (replicate 64 CHR ''0'')"
  by (simp add: hex64_pattern_def matches_span_def list_all_iff is_hex_def is_digit_def)

lemma waiting_valid: "validateStateFile waiting_file = Inr waiting_file"
  by (simp add: waiting_file_def reviewed_store_def validateStateFile_def valid_batch_def valid_store_def valid_state_def
      valid_time_def zeros_hash STORE_CODES_def matches_span_def is_digit_def is_upper_def)

lemma waiting_claim:
  "fst (claimState (zero_hash st) (Some 3000) (Some waiting_file)) =
     Inr \<lparr>cl_batchId = ''b1'', cl_storeCode = ''DL0001'', cl_applicationStoreCode = None, cl_stateCreatedAt = 2000\<rparr>"
proof -
  have "fst (claim_body (zero_hash st) (Some 3000) waiting_file) =
      Inr \<lparr>cl_batchId = ''b1'', cl_storeCode = ''DL0001'', cl_applicationStoreCode = None, cl_stateCreatedAt = 2000\<rparr>"
    by (simp add: claim_body_def Let_def find_state_def find_batch_def safeEqualHex_def zero_hash_def waiting_file_def
        zeros_hash new_date_def valid_time_def batch_open_def at_or_before_def or_null_def)
  then show ?thesis
    using waiting_valid zeros_hash
    by (cases "claim_body (zero_hash st) (Some 3000) waiting_file")
       (simp add: claimState_def zero_hash_def mutate_def read_file_def)
qed

theorem callback_closes_its_state_witness:
  "settled (zero_hash (replicate 43 CHR ''a''))
     (aw_file (snd (complete_callback zero_hash \<lparr>sc_ownerStoreCode = ''DL'', sc_stateTtlSeconds = 600,
        sc_maximumStoreAttempts = 6, sc_https = True, sc_callbackUrl = ''u''\<rparr> waiting_env
        (replicate 43 CHR ''a'') (replicate 8 CHR ''t'') \<lparr>aw_file = Some waiting_file, aw_receipts = []\<rparr>)))"
  by (rule callback_closes_its_state)
     (simp_all add: on_file_def waiting_valid waiting_env_def attempt_bound_def valid_time_def TOKEN_PATTERN_def
        TEMP_TOKEN_PATTERN_def matches_span_def list_all_iff alnum_def is_lower_def waiting_claim)

section \<open>What was received was verified\<close>

lemma receipt_of_InrE:
  assumes "receipt_of sc env st cl = Inr rc"
  obtains app ex info identity where "ce_exchange env = Inr ex" "ce_storeInfo env = Inr info"
    "loadApplication (ce_config env)
       (case or_null (cl_applicationStoreCode cl) of Some a \<Rightarrow> a | None \<Rightarrow> sc_ownerStoreCode sc) = Inr app"
    "ex_appId ex = ap_appId app" "ex_state ex = st" "verifiedIdentity ex info = Inr identity"
    "rc_identity rc = identity" "rc_appId rc = ap_appId app" "rc_openKeyId rc = ex_openKeyId ex"
  using assms unfolding receipt_of_def
  by (elim ebind_InrE) (auto simp: from_client_def split: sum.splits)

lemma verifiedIdentity_InrD:
  "verifiedIdentity ex info = Inr identity \<Longrightarrow>
     fst (collectStoreIdentity info) = [ex_supplierId ex] \<and> vi_supplierId identity = ex_supplierId ex"
  by (auto simp: verifiedIdentity_def split: prod.splits if_splits)

lemma finish_claim_InrE:
  assumes "finish_claim sha sc env st cl w = (Inr v, w')"
  obtains rc name where "receipt_of sc env st cl = Inr rc"
    "completeState (completion_of sha env st name rc) (aw_file w) = (Inr v, aw_file w')"
    "aw_receipts w' = aw_receipts w @ [(name, rc)]"
  using assms by (auto simp: finish_claim_def Let_def split: sum.splits prod.splits if_splits)

lemma finish_claim_Inl:
  assumes "finish_claim sha sc env st cl w = (Inl e, w')"
  shows "ce_unlinkFails env \<or> aw_receipts w' = aw_receipts w"
proof (cases "receipt_of sc env st cl")
  case (Inr rc)
  let ?name = "receipt_name (cl_batchId cl) (cl_storeCode cl) (ce_stamp env) (ce_random env)"
  obtain x f' where "completeState (completion_of sha env st ?name rc) (aw_file w) = (x, f')" by fastforce
  then show ?thesis
    using Inr assms by (cases x) (auto simp: finish_claim_def Let_def split: if_splits)
qed (use assms in \<open>simp add: finish_claim_def\<close>)

lemma complete_callback_cases:
  assumes "complete_callback sha sc env st tempToken w = (r, w')"
  obtains (early) e where "r = Inl e" "aw_receipts w' = aw_receipts w"
    | (failed) e cl f1 w1 where "r = Inl (outer_error e)" "aw_receipts w' = aw_receipts w1"
        "finish_claim sha sc env st cl (run_others (ce_before env) (w\<lparr>aw_file := f1\<rparr>)) = (Inl e, w1)"
    | (received) v cl f1 where "r = Inr v"
        "claimState (sha st) (Some (ce_claimedAt env)) (aw_file w) = (Inr cl, f1)"
        "finish_claim sha sc env st cl (run_others (ce_before env) (w\<lparr>aw_file := f1\<rparr>)) = (Inr v, w')"
proof (cases "TOKEN_PATTERN st \<and> TEMP_TOKEN_PATTERN tempToken")
  case False
  then have "(\<exists>e. r = Inl e) \<and> aw_receipts w' = aw_receipts w"
    using assms by (cases "TOKEN_PATTERN st") (auto simp: complete_callback_def)
  then show ?thesis using early by blast
next
  case True
  obtain x f1 where c: "claimState (sha st) (Some (ce_claimedAt env)) (aw_file w) = (x, f1)" by fastforce
  show ?thesis
  proof (cases x)
    case (Inl e)
    then have "r = Inl (FromStore e)" "w' = w\<lparr>aw_file := f1\<rparr>"
      using assms True c by (auto simp: complete_callback_def)
    then show ?thesis using early by simp
  next
    case (Inr cl)
    obtain y w1 where f: "finish_claim sha sc env st cl (run_others (ce_before env) (w\<lparr>aw_file := f1\<rparr>)) = (y, w1)"
      by fastforce
    show ?thesis
    proof (cases y)
      case (Inl e)
      have r: "r = Inl (outer_error e)" "aw_receipts w' = aw_receipts w1"
        using assms True c Inr f Inl by (auto simp: complete_callback_def Let_def run_others_def)
      show ?thesis using failed[OF r f[unfolded Inl]] .
    next
      case (Inr v)
      then show ?thesis
        using assms True c \<open>x = Inr cl\<close> f received[of v cl f1] by (simp add: complete_callback_def)
    qed
  qed
qed

lemma run_others_receipts [simp]: "aw_receipts (run_others cs w) = aw_receipts w"
  by (simp add: run_others_def)

lemma completed_store:
  assumes "completeState r f = (Inr v, f')"
  obtains s' st t where "f' = Some s'"
    "findStore (find_batch s' (cp_batchId v)) (cp_storeCode v) = Some (receive_store r t st)"
    "cp_supplierId v = si_supplierId (cq_identity r)"
proof -
  from assms obtain s s' where s: "f' = Some s'" "complete_body r s = (Inr v, s')"
    by (rule completeState_InrE)
  from s(2) obtain i b st t where i: "find_batch s (at_batchId i) = Some b"
      "findStore (Some b) (at_storeCode i) = Some st" "accept_completion r i t s = (Inr v, s')"
    by (auto simp: complete_body_def Let_def refuse_def split: option.splits if_splits)
  then have v: "cp_batchId v = at_batchId i" "cp_storeCode v = at_storeCode i"
      "cp_supplierId v = si_supplierId (cq_identity r)"
    by (auto simp: accept_completion_def Let_def)
  let ?g = "\<lambda>b. complete_batch t (b\<lparr>ab_stores := upd_first (\<lambda>s. as_storeCode s = at_storeCode i) (receive_store r t) (ab_stores b)\<rparr>)"
  have "af_batches s' = upd_first (\<lambda>b. ab_batchId b = at_batchId i) ?g (af_batches s)"
    using accept_completion_batches[of r i t s] i(3) by simp
  moreover have "ab_batchId (?g b) = ab_batchId b" "ab_stores (?g b) = upd_first (\<lambda>s. as_storeCode s = at_storeCode i) (receive_store r t) (ab_stores b)" for b
    by (simp_all add: complete_batch_def)
  ultimately have "findStore (find_batch s' (at_batchId i)) (at_storeCode i) = Some (receive_store r t st)"
    using i(1,2) by (simp add: find_batch_def find_upd_first findStore_def receive_store_def)
  then show ?thesis using that s(1) v by metis
qed

text \<open>
  C35. A callback is answered with success only when the platform returned the same state and the
  store information names exactly one supplier, the one of the exchange, which is the supplier that
  the answer reports; the application of the exchange is the configured one of the claimed store.
\<close>

theorem received_identity_was_verified:
  "case fst (complete_callback sha sc env st tempToken w) of
     Inl _ \<Rightarrow> True
   | Inr v \<Rightarrow> \<exists>ex info app cl. ce_exchange env = Inr ex \<and> ce_storeInfo env = Inr info
       \<and> fst (claimState (sha st) (Some (ce_claimedAt env)) (aw_file w)) = Inr cl
       \<and> loadApplication (ce_config env)
           (case or_null (cl_applicationStoreCode cl) of Some a \<Rightarrow> a | None \<Rightarrow> sc_ownerStoreCode sc) = Inr app
       \<and> ex_appId ex = ap_appId app \<and> ex_state ex = st
       \<and> fst (collectStoreIdentity info) = [ex_supplierId ex] \<and> cp_supplierId v = ex_supplierId ex"
proof -
  obtain r w' where cb: "complete_callback sha sc env st tempToken w = (r, w')" by fastforce
  then show ?thesis
  proof (cases rule: complete_callback_cases)
    case (received v cl f1)
    from received(3) obtain rc name where rc: "receipt_of sc env st cl = Inr rc"
        "completeState (completion_of sha env st name rc) (after_calls (ce_before env) f1) = (Inr v, aw_file w')"
      by (rule finish_claim_InrE) (simp add: run_others_def)
    from rc(2) have "cp_supplierId v = vi_supplierId (rc_identity rc)"
      by (rule completed_store) (simp add: completion_of_def)
    then show ?thesis
      using rc(1) received(1,2) cb by (elim receipt_of_InrE) (auto dest!: verifiedIdentity_InrD)
  qed (simp_all add: cb)
qed

text \<open>
  A callback that fails leaves the directory of secret receipts as it was, unless the removal of
  its own receipt fails; one that succeeds adds exactly one receipt, and the store that is now under
  review names its file and carries its supplier and the fingerprint of its credential.
\<close>

theorem receipts_match_the_store:
  "case complete_callback sha sc env st tempToken w of
     (Inl _, w') \<Rightarrow> ce_unlinkFails env \<or> aw_receipts w' = aw_receipts w
   | (Inr v, w') \<Rightarrow> \<exists>name rc f s. aw_receipts w' = aw_receipts w @ [(name, rc)] \<and> aw_file w' = Some f
       \<and> findStore (find_batch f (cp_batchId v)) (cp_storeCode v) = Some s \<and> as_status s = REVIEW_REQUIRED
       \<and> as_receiptFile s = Some (basename name) \<and> as_supplierId s = Some (vi_supplierId (rc_identity rc))
       \<and> as_fingerprint s = Some (sha (rc_appId rc @ '':'' @ rc_openKeyId rc))"
proof -
  obtain r w' where cb: "complete_callback sha sc env st tempToken w = (r, w')" by fastforce
  then show ?thesis
  proof (cases rule: complete_callback_cases)
    case (failed e cl f1 w1)
    then show ?thesis using finish_claim_Inl[OF failed(3)] cb by simp
  next
    case (received v cl f1)
    from received(3) obtain rc name where rc: "receipt_of sc env st cl = Inr rc"
        "completeState (completion_of sha env st name rc) (after_calls (ce_before env) f1) = (Inr v, aw_file w')"
        "aw_receipts w' = aw_receipts w @ [(name, rc)]"
      by (rule finish_claim_InrE) (simp add: run_others_def)
    from rc(2) obtain f s t where "aw_file w' = Some f" "findStore (find_batch f (cp_batchId v)) (cp_storeCode v) =
        Some (receive_store (completion_of sha env st name rc) t s)"
      by (rule completed_store)
    then show ?thesis
      using rc(3) received(1) cb by (auto simp: receive_store_def completion_of_def)
  qed (simp add: cb)
qed

text \<open>
  A service with an \<open>http\<close> origin, which the constructor admits for local development, cannot begin an
  authorization: the address of the authorization page is refused after the attempt was recorded.
\<close>

theorem local_origin_cannot_begin:
  "sc_https sc \<or> (\<exists>e. fst (begin_authorization sha sc config header storeCode st now f) = Inl e)"
proof (cases "sc_https sc")
  case False
  have "\<exists>e. ebind (buildAuthorizationUrl i False u st) g = Inl e" for i u and g :: "authorization_link \<Rightarrow> begin_answer service_result"
    by (auto simp: buildAuthorizationUrl_def)
  then show ?thesis
    using False by (auto simp: begin_authorization_def Let_def split: sum.splits prod.splits)
qed simp

end
