(* ===== verification/Authorization_Server.thy ===== *)
theory Authorization_Server
  imports Authorization_Service
begin

text \<open>
  \<open>src/authorization/server.mjs\<close>: the request handler in front of the authorization service. A request
  is given by its method, its parsed path and query, the headers the handler reads and its body; an
  answer by its status, its error code, its location and its cookie. The parsing of URLs, the static
  files, the message texts and the log are left out.
\<close>

record http_request =
  hq_urlLength :: nat
  hq_path :: "string option"
  hq_method :: string
  hq_query :: "(string \<times> string) list"
  hq_origin :: string
  hq_contentType :: string
  hq_cookie :: string
  hq_bodyBytes :: nat
  hq_body :: "jsv option"

record http_answer =
  ha_status :: int
  ha_code :: string
  ha_location :: "string option"
  ha_cookie :: "string option"

definition sendJson :: "int \<Rightarrow> string \<Rightarrow> http_answer" where
  [js_eval]: "sendJson status c = \<lparr>ha_status = status, ha_code = c, ha_location = None, ha_cookie = None\<rparr>"

definition redirect_to :: "string \<Rightarrow> http_answer" where
  [js_eval]: "redirect_to l = \<lparr>ha_status = 303, ha_code = [], ha_location = Some l, ha_cookie = None\<rparr>"

definition errorCode :: "service_error \<Rightarrow> string" where
  [js_eval]: "errorCode e =
     (case e of ServiceError c \<Rightarrow> c
      | FromStore (StoreError c p) \<Rightarrow> c
      | OtherError c \<Rightarrow> if c = ''INVALID_CALLBACK_PARAMETERS'' then c else ''AUTHORIZATION_UNAVAILABLE''
      | _ \<Rightarrow> ''AUTHORIZATION_UNAVAILABLE'')"

definition statusCodeFor :: "string \<Rightarrow> int" where
  [js_eval]: "statusCodeFor c =
     (if c \<in> set [''AUTHORIZATION_SESSION_REQUIRED'', ''INVALID_BATCH_TOKEN''] then 401
      else if c \<in> set [''BATCH_EXPIRED'', ''STORE_ALREADY_RECEIVED'', ''STORE_ATTEMPT_LIMIT''] then 409
      else if c \<in> set [''STORE_NOT_IN_BATCH'', ''INVALID_STORE_CODE''] then 404
      else 503)"

definition callbackResult :: "service_error \<Rightarrow> string" where
  [js_eval]: "callbackResult e =
     (let c = errorCode e
      in if c = ''AUTHORIZATION_STATE_EXPIRED'' \<or> c = ''BATCH_EXPIRED'' then ''expired''
         else if c = ''AUTHORIZATION_STATE_REPLAYED'' then ''already_received''
         else if c \<in> set [''APPLICATION_ID_MISMATCH'', ''RETURNED_STATE_MISMATCH'', ''STORE_IDENTITY_MISSING'',
                          ''STORE_IDENTITY_MISMATCH'', ''SUPPLIER_ID_ALREADY_BOUND'', ''CREDENTIAL_ALREADY_BOUND'']
         then ''identity_check_failed''
         else if c \<in> set [''INVALID_AUTHORIZATION_STATE'', ''INVALID_TEMP_TOKEN'', ''INVALID_CALLBACK_PARAMETERS'',
                          ''AUTHORIZATION_STATE_UNAVAILABLE'']
         then ''invalid''
         else ''retry'')"

text \<open>\<open>origin_of\<close> is \<open>new URL(text).origin\<close>, \<open>None\<close> where that throws.\<close>

definition sameOrigin :: "(string \<Rightarrow> string option) \<Rightarrow> string \<Rightarrow> http_request \<Rightarrow> bool" where
  [js_eval]: "sameOrigin origin_of publicOrigin q \<longleftrightarrow>
     (let o' = js_trim (hq_origin q)
      in o' \<noteq> [] \<and> o' \<noteq> ''null'' \<and> origin_of o' = Some publicOrigin)"

definition MAX_BODY_BYTES :: nat where
  [js_eval]: "MAX_BODY_BYTES = 4096"

definition parseJsonBody :: "http_request \<Rightarrow> string + jsv" where
  [js_eval]: "parseJsonBody q =
     (if \<not> starts_with ''application/json'' (js_lower (hq_contentType q)) then Inl ''UNSUPPORTED_MEDIA_TYPE''
      else if MAX_BODY_BYTES < hq_bodyBytes q then Inl ''BODY_TOO_LARGE''
      else case hq_body q of None \<Rightarrow> Inl ''INVALID_JSON'' | Some v \<Rightarrow> Inr v)"

definition all_values :: "string \<Rightarrow> (string \<times> string) list \<Rightarrow> string list" where
  [js_eval]: "all_values k ps = map snd (filter (\<lambda>(k', _). k' = k) ps)"

definition callbackParameters :: "http_request \<Rightarrow> (string \<times> string) service_result" where
  [js_eval]: "callbackParameters q =
     (case (all_values ''state'' (hq_query q), all_values ''tempToken'' (hq_query q)) of
        ([s], [t]) \<Rightarrow> Inr (s, t)
      | _ \<Rightarrow> Inl (OtherError ''INVALID_CALLBACK_PARAMETERS''))"

definition callback_answer :: "completion service_result \<Rightarrow> http_answer" where
  [js_eval]: "callback_answer r =
     (case r of
        Inr v \<Rightarrow> redirect_to (''/authorize/result?status=received&store='' @ cp_storeCode v)
      | Inl e \<Rightarrow> redirect_to (''/authorize/result?status='' @ callbackResult e))"

definition error_answer :: "service_error \<Rightarrow> http_answer" where
  [js_eval]: "error_answer e = sendJson (statusCodeFor (errorCode e)) (errorCode e)"

definition STATIC_ROUTES :: "string list" where
  [js_eval]: "STATIC_ROUTES = [''/authorize'', ''/authorize/'', ''/authorize/app.js'', ''/authorize/styles.css'',
     ''/authorize/opening'', ''/authorize/result'']"

text \<open>\<open>/^\/authorize\/start\/([A-Z0-9_-]{1,24})$/\<close>\<close>

definition start_code :: "string \<Rightarrow> string option" where
  [js_eval]: "start_code p =
     (let rest = drop 17 p
      in if starts_with ''/authorize/start/'' p \<and> STORE_CODES rest then Some rest else None)"

text \<open>
  What the handler is configured with and draws on for one request: digest, service, cookie flag,
  public origin, the bound on concurrent callbacks, the clock, the application file, the random state
  and what a callback meets.
\<close>

record server_env =
  sv_sha :: "string \<Rightarrow> string"
  sv_service :: service_config
  sv_secure :: bool
  sv_publicOrigin :: string
  sv_originOf :: "string \<Rightarrow> string option"
  sv_maximumCallbacks :: nat
  sv_now :: int
  sv_config :: "jsv option"
  sv_state :: string
  sv_callback :: callback_env

definition handle_session :: "server_env \<Rightarrow> http_request \<Rightarrow> auth_file option \<Rightarrow> http_answer" where
  [js_eval]: "handle_session sv q f =
     (if hq_method q \<noteq> ''POST'' then sendJson 405 ''METHOD_NOT_ALLOWED''
      else if \<not> sameOrigin (sv_originOf sv) (sv_publicOrigin sv) q then sendJson 403 ''CROSS_ORIGIN_REJECTED''
      else (case parseJsonBody q of
          Inl c \<Rightarrow> sendJson (if c = ''UNSUPPORTED_MEDIA_TYPE'' then 415 else 400) c
        | Inr body \<Rightarrow>
            (case ebind (text_or_empty (jget body ''token'')) (\<lambda>t. createSession (sv_sha sv) (sv_secure sv) t (sv_now sv) f) of
               Inr (b, cookie) \<Rightarrow> (sendJson 200 [])\<lparr>ha_cookie := Some cookie\<rparr>
             | Inl e \<Rightarrow> sendJson (statusCodeFor (errorCode e))
                 (if error_code e = [] then errorCode e else error_code e))))"

definition handle_start ::
  "server_env \<Rightarrow> http_request \<Rightarrow> string \<Rightarrow> auth_file option \<Rightarrow> http_answer \<times> auth_file option" where
  [js_eval]: "handle_start sv q c f =
     (if hq_method q \<noteq> ''POST'' then (sendJson 405 ''METHOD_NOT_ALLOWED'', f)
      else if \<not> sameOrigin (sv_originOf sv) (sv_publicOrigin sv) q then (sendJson 403 ''CROSS_ORIGIN_REJECTED'', f)
      else (case begin_authorization (sv_sha sv) (sv_service sv) (sv_config sv) (hq_cookie q) c (sv_state sv) (sv_now sv) f of
          (Inr b, f') \<Rightarrow> (sendJson 200 [], f')
        | (Inl e, f') \<Rightarrow> (error_answer e, f')))"

definition handle_callback ::
  "server_env \<Rightarrow> http_request \<Rightarrow> nat \<Rightarrow> auth_world \<Rightarrow> http_answer \<times> auth_world" where
  [js_eval]: "handle_callback sv q active w =
     (if hq_method q \<noteq> ''GET'' then (redirect_to ''/authorize/result?status=invalid'', w)
      else if sv_maximumCallbacks sv \<le> active then (redirect_to ''/authorize/result?status=busy'', w)
      else (case callbackParameters q of
          Inl e \<Rightarrow> (callback_answer (Inl e), w)
        | Inr (st, token) \<Rightarrow>
            (case complete_callback (sv_sha sv) (sv_service sv) (sv_callback sv) st token w of
               (r, w') \<Rightarrow> (callback_answer r, w'))))"

definition read_only :: "http_request \<Rightarrow> http_answer \<Rightarrow> http_answer" where
  [js_eval]: "read_only q a =
     (if hq_method q \<in> set [''GET'', ''HEAD''] then a else sendJson 405 ''METHOD_NOT_ALLOWED'')"

text \<open>The path decides the branch of the handler, in the order of the source.\<close>

datatype route = Health | Callback | Page | Session | Batch | Start string | Logout | NoRoute

definition route_for :: "string \<Rightarrow> route" where
  [js_eval]: "route_for p =
     (if p = ''/health'' then Health
      else if p = ''/openapi/authorize/callback'' then Callback
      else if p \<in> set STATIC_ROUTES then Page
      else if p = ''/authorize/session'' then Session
      else if p = ''/authorize/batch'' then Batch
      else case start_code p of
             Some c \<Rightarrow> Start c
           | None \<Rightarrow> if p = ''/authorize/logout'' then Logout else NoRoute)"

text \<open>\<open>active\<close> is the number of callbacks under way when the request arrives.\<close>

definition authorizationRequestHandler ::
  "server_env \<Rightarrow> http_request \<Rightarrow> nat \<Rightarrow> auth_world \<Rightarrow> http_answer \<times> auth_world" where
  [js_eval]: "authorizationRequestHandler sv q active w =
     (if 4096 < hq_urlLength q then (sendJson 414 ''URI_TOO_LONG'', w)
      else case hq_path q of
        None \<Rightarrow> (sendJson 400 ''INVALID_URL'', w)
      | Some p \<Rightarrow>
          (case route_for p of
             Health \<Rightarrow> (read_only q (sendJson 200 []), w)
           | Callback \<Rightarrow> handle_callback sv q active w
           | Page \<Rightarrow> (read_only q (sendJson 200 []), w)
           | Session \<Rightarrow> (handle_session sv q (aw_file w), w)
           | Batch \<Rightarrow>
               (read_only q (case getBatch (sv_sha sv) (hq_cookie q) (sv_now sv) (aw_file w) of
                  Inr b \<Rightarrow> sendJson 200 [] | Inl e \<Rightarrow> error_answer e), w)
           | Start c \<Rightarrow> (case handle_start sv q c (aw_file w) of (a, f') \<Rightarrow> (a, w\<lparr>aw_file := f'\<rparr>))
           | Logout \<Rightarrow>
               ((if hq_method q \<noteq> ''POST'' then sendJson 405 ''METHOD_NOT_ALLOWED''
                 else if \<not> sameOrigin (sv_originOf sv) (sv_publicOrigin sv) q then sendJson 403 ''CROSS_ORIGIN_REJECTED''
                 else (sendJson 200 [])\<lparr>ha_cookie := Some (clearCookie (sv_secure sv))\<rparr>), w)
           | NoRoute \<Rightarrow> (sendJson 404 ''NOT_FOUND'', w)))"

section \<open>Which requests change anything\<close>

lemma begin_needs_session:
  "tokenFromCookie header = Inl e \<Longrightarrow> begin_authorization sha sc config header c st now f = (Inl e, f)"
  by (simp add: begin_authorization_def Let_def)

lemma handle_start_changes:
  "snd (handle_start sv q c f) \<noteq> f \<Longrightarrow> hq_method q = ''POST''
     \<and> sameOrigin (sv_originOf sv) (sv_publicOrigin sv) q \<and> TOKEN_PATTERN (cookieValue (hq_cookie q) cookieName)"
  by (cases "tokenFromCookie (hq_cookie q)")
     (auto simp: handle_start_def begin_needs_session tokenFromCookie_def Let_def split: if_splits)

lemma callback_needs_patterns:
  "\<not> (TOKEN_PATTERN st \<and> TEMP_TOKEN_PATTERN t) \<Longrightarrow> snd (complete_callback sha sc env st t w) = w"
  by (cases "TOKEN_PATTERN st") (simp_all add: complete_callback_def)

lemma handle_callback_changes:
  assumes "snd (handle_callback sv q active w) \<noteq> w"
  shows "hq_method q = ''GET'' \<and> active < sv_maximumCallbacks sv
     \<and> (\<exists>st t. callbackParameters q = Inr (st, t) \<and> TOKEN_PATTERN st \<and> TEMP_TOKEN_PATTERN t)"
proof -
  have m: "hq_method q = ''GET''"
    by (rule ccontr) (use assms in \<open>simp add: handle_callback_def\<close>)
  have a: "active < sv_maximumCallbacks sv"
    by (rule ccontr) (use assms m in \<open>simp add: handle_callback_def\<close>)
  obtain st t where p: "callbackParameters q = Inr (st, t)"
    using assms m a by (cases "callbackParameters q") (auto simp: handle_callback_def)
  have "snd (handle_callback sv q active w) =
      snd (complete_callback (sv_sha sv) (sv_service sv) (sv_callback sv) st t w)"
    using m a p by (simp add: handle_callback_def split: prod.splits)
  then have "TOKEN_PATTERN st \<and> TEMP_TOKEN_PATTERN t"
    using assms callback_needs_patterns by metis
  then show ?thesis using m a p by blast
qed

text \<open>
  A request changes the state file or the receipts only as a callback, by GET, with a free slot
  and one well-formed state and token, or as a start, by POST, from the public origin and with a
  well-formed session cookie.
\<close>

theorem requests_that_change_state:
  "let w' = snd (authorizationRequestHandler sv q active w)
   in w' = w
      \<or> (map_option route_for (hq_path q) = Some Callback \<and> hq_method q = ''GET'' \<and> active < sv_maximumCallbacks sv
         \<and> (\<exists>st t. callbackParameters q = Inr (st, t) \<and> TOKEN_PATTERN st \<and> TEMP_TOKEN_PATTERN t))
      \<or> (\<exists>c. map_option route_for (hq_path q) = Some (Start c) \<and> hq_method q = ''POST''
         \<and> sameOrigin (sv_originOf sv) (sv_publicOrigin sv) q
         \<and> TOKEN_PATTERN (cookieValue (hq_cookie q) cookieName) \<and> aw_receipts w' = aw_receipts w)"
proof (cases "hq_path q")
  case (Some p)
  have keep: "w\<lparr>aw_file := aw_file w\<rparr> = w" by simp
  show ?thesis
  proof (cases "4096 < hq_urlLength q")
    case False
    show ?thesis
    proof (cases "route_for p")
      case Callback
      with False Some have "authorizationRequestHandler sv q active w = handle_callback sv q active w"
        by (simp add: authorizationRequestHandler_def)
      then show ?thesis
        using handle_callback_changes[of sv q active w] Some Callback by (simp add: Let_def) blast
    next
      case (Start c)
      with False Some have "snd (authorizationRequestHandler sv q active w) = w\<lparr>aw_file := snd (handle_start sv q c (aw_file w))\<rparr>"
        by (simp add: authorizationRequestHandler_def split: prod.splits)
      then show ?thesis
        using handle_start_changes[of sv q c "aw_file w"] Some Start keep
        by (cases "snd (handle_start sv q c (aw_file w)) = aw_file w") (simp_all add: Let_def)
    qed (use False Some in \<open>simp_all add: authorizationRequestHandler_def Let_def\<close>)
  qed (simp add: authorizationRequestHandler_def Let_def)
qed (simp add: authorizationRequestHandler_def Let_def)

end
