(* ===== verification/Webhook_Crypto.thy ===== *)
theory Webhook_Crypto
  imports Js_Value "HOL-Library.Word"
begin

text \<open>
  \<open>src/webhook/crypto.mjs\<close>: the signature contract of the platform, canonical base64, the decryption of
  an event and the idempotency key of a delivery. The primitives of \<open>node:crypto\<close> and \<open>JSON.parse\<close> are a
  record of parameters; base64 and UTF-8 are modelled, on bytes as words of eight bits.
\<close>

type_synonym byte = "8 word"

text \<open>
  SHA-256 and HMAC-SHA-256 in lower-case hexadecimal, AES-128-CBC decryption with padding up to the
  decoded text (\<open>None\<close> when it throws), \<open>JSON.parse\<close> (\<open>None\<close> when it throws) and the decoding of UTF-8.
\<close>

record node_lib =
  nl_sha256 :: "string \<Rightarrow> string"
  nl_hmac :: "string \<Rightarrow> string \<Rightarrow> string"
  nl_aes :: "byte list \<Rightarrow> byte list \<Rightarrow> byte list \<Rightarrow> string option"
  nl_json :: "string \<Rightarrow> jsv option"
  nl_utf8 :: "byte list \<Rightarrow> string"

section \<open>Bytes and base64\<close>

text \<open>\<open>Buffer.from(s, 'utf8')\<close> for code units below 256\<close>

definition utf8_char :: "char \<Rightarrow> byte list" where
  [js_eval]: "utf8_char c =
     (if code c < 128 then [of_nat (code c)]
      else [of_nat (192 + code c div 64), of_nat (128 + code c mod 64)])"

definition utf8 :: "string \<Rightarrow> byte list" where
  [js_eval]: "utf8 s = concat (map utf8_char s)"

definition b64_char :: "nat \<Rightarrow> char" where
  [js_eval]: "b64_char n =
     (if n < 26 then char_of (n + 65) else if n < 52 then char_of (n + 71)
      else if n < 62 then char_of (n - 4) else if n = 62 then CHR ''+'' else CHR ''/'')"

definition b64_val :: "char \<Rightarrow> nat" where
  [js_eval]: "b64_val c =
     (if is_upper c then code c - 65 else if is_lower c then code c - 71
      else if is_digit c then code c + 4 else if c = CHR ''+'' then 62 else 63)"

definition b64_alphabet :: "char \<Rightarrow> bool" where
  [js_eval]: "b64_alphabet c \<longleftrightarrow> is_upper c \<or> is_lower c \<or> is_digit c \<or> c = CHR ''+'' \<or> c = CHR ''/''"

text \<open>\<open>buffer.toString('base64')\<close>\<close>

fun b64_encode :: "byte list \<Rightarrow> string" where
  "b64_encode [] = []"
| "b64_encode [a] =
     [b64_char (unat a div 4), b64_char (unat a mod 4 * 16), CHR ''='', CHR ''='']"
| "b64_encode [a, b] =
     [b64_char (unat a div 4), b64_char (unat a mod 4 * 16 + unat b div 16),
      b64_char (unat b mod 16 * 4), CHR ''='']"
| "b64_encode (a # b # c # bs) =
     b64_char (unat a div 4) # b64_char (unat a mod 4 * 16 + unat b div 16)
       # b64_char (unat b mod 16 * 4 + unat c div 64) # b64_char (unat c mod 64) # b64_encode bs"

text \<open>
  \<open>Buffer.from(s, 'base64')\<close> on the texts that pass the pattern of \<open>strictBase64\<close>: groups of four
  symbols, of which the last may end in one or two padding signs.
\<close>

definition group_first :: "char \<Rightarrow> char \<Rightarrow> byte" where
  [js_eval]: "group_first w x = of_nat (b64_val w * 4 + b64_val x div 16)"

definition group_second :: "char \<Rightarrow> char \<Rightarrow> byte" where
  [js_eval]: "group_second x y = of_nat (b64_val x mod 16 * 16 + b64_val y div 4)"

definition group_third :: "char \<Rightarrow> char \<Rightarrow> byte" where
  [js_eval]: "group_third y z = of_nat (b64_val y mod 4 * 64 + b64_val z)"

fun b64_decode :: "string \<Rightarrow> byte list" where
  "b64_decode (w # x # y # z # s) =
     (if y = CHR ''='' then [group_first w x]
      else if z = CHR ''='' then [group_first w x, group_second x y]
      else group_first w x # group_second x y # group_third y z # b64_decode s)"
| "b64_decode _ = []"

declare b64_encode.simps [js_eval] b64_decode.simps [js_eval]

text \<open>\<open>/^[A-Za-z0-9+/]+={0,2}$/\<close>: the symbols are followed by at most two padding signs.\<close>

definition base64_pattern :: "string \<Rightarrow> bool" where
  [js_eval]: "base64_pattern s =
     (let rest = dropWhile b64_alphabet s
      in takeWhile b64_alphabet s \<noteq> [] \<and> rest \<in> {[], ''='', ''==''})"

datatype webhook_error = WebhookError (we_code: string)

type_synonym 'a webhook_result = "webhook_error + 'a"

definition strictBase64 :: "string \<Rightarrow> byte list webhook_result" where
  [js_eval]: "strictBase64 v =
     (let source = js_trim v
      in if source = [] \<or> length source mod 4 \<noteq> 0 \<or> \<not> base64_pattern source
         then Inl (WebhookError ''WEBHOOK_CIPHERTEXT_INVALID'')
         else let decoded = b64_decode source
              in if decoded = [] \<or> b64_encode decoded \<noteq> source
                 then Inl (WebhookError ''WEBHOOK_CIPHERTEXT_INVALID'')
                 else Inr decoded)"

section \<open>The signature\<close>

definition WEBHOOK_CALLBACK_PATH :: string where
  [js_eval]: "WEBHOOK_CALLBACK_PATH = ''/api/shein/webhook/v1/events''"

definition WEBHOOK_MAX_SKEW_MS :: int where
  [js_eval]: "WEBHOOK_MAX_SKEW_MS = 300000"

definition pad_bytes :: "nat \<Rightarrow> byte list \<Rightarrow> byte list" where
  [js_eval]: "pad_bytes n bs = take n bs @ replicate (n - length bs) 0"

text \<open>Both sides are copied into buffers of one length, which \<open>timingSafeEqual\<close> compares.\<close>

definition constantTimeEqual :: "string \<Rightarrow> string \<Rightarrow> bool" where
  [js_eval]: "constantTimeEqual l r =
     (let lb = utf8 l; rb = utf8 r; n = max (max (length lb) (length rb)) 1
      in pad_bytes n lb = pad_bytes n rb \<and> length lb = length rb)"

definition officialCanonical :: "string \<Rightarrow> string \<Rightarrow> string \<Rightarrow> string \<Rightarrow> string option" where
  [js_eval]: "officialCanonical appId openKeyId timestamp path =
     (let apiKey = (if js_trim appId \<noteq> [] then js_trim appId else js_trim openKeyId)
      in if apiKey = [] then None
         else if \<not> starts_with ''/'' path \<or> list_ex (\<lambda>c. c \<in> {CHR ''?'', CHR ''#'', CHR 0x0D, CHR 0x0A}) path
         then None
         else Some (apiKey @ ''&'' @ timestamp @ ''&'' @ path))"

definition expected_signature :: "node_lib \<Rightarrow> string \<Rightarrow> string \<Rightarrow> string \<Rightarrow> string" where
  [js_eval]: "expected_signature L secret randomKey canonical =
     randomKey @ b64_encode (utf8 (nl_hmac L (secret @ randomKey) canonical))"

record verification =
  vf_ok :: bool
  vf_reason :: string
  vf_platformTimestampMs :: "int option"
  vf_ageMs :: "int option"

definition rejected :: "string \<Rightarrow> verification" where
  [js_eval]: "rejected r = \<lparr>vf_ok = False, vf_reason = r, vf_platformTimestampMs = None, vf_ageMs = None\<rparr>"

text \<open>
  The clock and the allowed skew are whole numbers of milliseconds, as the receiver passes them. A
  timestamp of sixteen digits may lie beyond the safe integers.
\<close>

definition verifyFullManagedWebhookSignature ::
    "node_lib \<Rightarrow> string \<Rightarrow> string \<Rightarrow> string \<Rightarrow> string \<Rightarrow> string \<Rightarrow> string \<Rightarrow> int \<Rightarrow> int \<Rightarrow> verification" where
  [js_eval]: "verifyFullManagedWebhookSignature L appId openKeyId timestamp signature appSecretKey callbackPath
       nowMs maxSkewMs =
     (let timestampText = js_trim timestamp; supplied = js_trim signature in
      if \<not> matches_span is_digit 11 16 timestampText then rejected ''timestamp_invalid''
      else if js_trim appSecretKey = [] then rejected ''credential_unavailable''
      else if length supplied < 6 \<or> 512 < length supplied then rejected ''signature_invalid''
      else let platform = int (read_nat timestampText); age = nowMs - platform in
      if max_safe < platform \<or> max_safe < \<bar>maxSkewMs\<bar> \<or> maxSkewMs < 0
      then rejected ''time_configuration_invalid''
      else if maxSkewMs < \<bar>age\<bar>
      then (rejected ''timestamp_outside_allowed_skew'')\<lparr>vf_platformTimestampMs := Some platform, vf_ageMs := Some age\<rparr>
      else case officialCanonical appId openKeyId timestampText callbackPath of
        None \<Rightarrow> rejected ''canonicalization_failed''
      | Some canonical \<Rightarrow>
          let ok = constantTimeEqual supplied
                (expected_signature L appSecretKey (take 5 supplied) canonical)
          in \<lparr>vf_ok = ok, vf_reason = (if ok then ''verified'' else ''signature_mismatch''),
              vf_platformTimestampMs = Some platform, vf_ageMs = Some age\<rparr>)"

section \<open>Decryption\<close>

definition WEBHOOK_AES_IV_SEED :: string where
  [js_eval]: "WEBHOOK_AES_IV_SEED = ''space-station-default-iv''"

definition aesKey :: "string \<Rightarrow> byte list" where
  [js_eval]: "aesKey secret = pad_bytes 16 (utf8 secret)"

definition decryptFullManagedWebhookEvent :: "node_lib \<Rightarrow> string \<Rightarrow> string \<Rightarrow> jsv webhook_result" where
  [js_eval]: "decryptFullManagedWebhookEvent L ciphertext appSecretKey =
     (if js_trim appSecretKey = [] then Inl (WebhookError ''WEBHOOK_CREDENTIAL_UNAVAILABLE'')
      else ebind (strictBase64 ciphertext) (\<lambda>encrypted.
        case nl_aes L (aesKey appSecretKey) (take 16 (utf8 WEBHOOK_AES_IV_SEED)) encrypted of
          None \<Rightarrow> Inl (WebhookError ''WEBHOOK_DECRYPT_FAILED'')
        | Some plaintext \<Rightarrow> (case nl_json L plaintext of
              None \<Rightarrow> Inl (WebhookError ''WEBHOOK_PAYLOAD_INVALID'')
            | Some payload \<Rightarrow>
                if is_object payload \<or> as_string payload \<noteq> None then Inr payload
                else Inl (WebhookError ''WEBHOOK_PAYLOAD_INVALID''))))"

section \<open>The idempotency key\<close>

definition key_material :: "string \<Rightarrow> string \<Rightarrow> string \<Rightarrow> string \<Rightarrow> string \<Rightarrow> string \<Rightarrow> string" where
  [js_eval]: "key_material appKeyHash openKeyHash eventCode eventPath occurrence cipherSha256 =
     join_with [CHR 0x00] [js_trim appKeyHash, js_trim openKeyHash, js_trim eventCode, js_trim eventPath,
                           occurrence, js_trim cipherSha256]"

definition computeWebhookIdempotencyKey ::
    "node_lib \<Rightarrow> string \<Rightarrow> string \<Rightarrow> string \<Rightarrow> string \<Rightarrow> string \<Rightarrow> string \<Rightarrow> string webhook_result" where
  [js_eval]: "computeWebhookIdempotencyKey L appKeyHash openKeyHash eventCode eventPath deliveryOccurrence cipherSha256 =
     (let occurrence = js_trim deliveryOccurrence
      in if \<not> matches_span is_digit 1 16 occurrence then Inl (WebhookError [])
         else Inr (nl_sha256 L (key_material appKeyHash openKeyHash eventCode eventPath occurrence cipherSha256)))"

section \<open>Base64 is canonical\<close>

lemma b64_val_char: "n < 64 \<Longrightarrow> b64_val (b64_char n) = n"
  by (auto simp: b64_val_def b64_char_def is_upper_def is_lower_def is_digit_def split: if_splits)

lemma b64_alphabet_char: "n < 64 \<Longrightarrow> b64_alphabet (b64_char n)"
  by (auto simp: b64_alphabet_def b64_char_def is_upper_def is_lower_def is_digit_def)

lemma b64_char_not_pad: "n < 64 \<Longrightarrow> b64_char n \<noteq> CHR ''=''"
  using b64_alphabet_char[of n] by (auto simp: b64_alphabet_def is_upper_def is_lower_def is_digit_def)

lemma byte_lt: "unat (b :: byte) < 256"
  using unsigned_less[of b] by simp

lemma radix: "(q::nat) < k \<Longrightarrow> (p * k + q) div k = p" "(q::nat) < k \<Longrightarrow> (p * k + q) mod k = q"
  by (simp_all add: div_mult_self3)

lemma byte_div: "unat (b :: byte) div 4 < 64" "unat b div 16 < 16" "unat b div 64 < 4"
  using byte_lt[of b] by (simp_all add: less_mult_imp_div_less)

lemma digit_sum: "p < a \<Longrightarrow> q < k \<Longrightarrow> p * k + q < a * (k::nat)"
proof -
  assume "p < a" "q < k"
  then have "p * k + q < Suc p * k" by simp
  also have "\<dots> \<le> a * k" using \<open>p < a\<close> by (intro mult_le_mono1) simp
  finally show ?thesis .
qed

lemma sextets:
  "unat (a :: byte) div 4 < 64" "unat a mod 4 * 16 + unat (b :: byte) div 16 < 64"
  "unat b mod 16 * 4 + unat (c :: byte) div 64 < 64" "unat a mod 4 * 16 < 64" "unat b mod 16 * 4 < 64"
  "unat c mod 64 < 64"
  using byte_div[of a] byte_div[of b] byte_div[of c]
    digit_sum[of "unat a mod 4" 4 "unat b div 16" 16] digit_sum[of "unat b mod 16" 16 "unat c div 64" 4]
    digit_sum[of "unat a mod 4" 4 0 16] digit_sum[of "unat b mod 16" 16 0 4]
  by simp_all

lemma group_first_encoded:
  "group_first (b64_char (unat (a :: byte) div 4)) (b64_char (unat a mod 4 * 16 + unat (b :: byte) div 16)) = a"
  "group_first (b64_char (unat a div 4)) (b64_char (unat a mod 4 * 16)) = a"
proof -
  have "unat a div 4 * 4 + unat a mod 4 = unat a" by simp
  moreover have "(unat a mod 4 * 16 + unat b div 16) div 16 = unat a mod 4" by (rule radix) (rule byte_div)
  moreover have "unat a mod 4 * 16 div 16 = unat a mod 4" by simp
  ultimately show "group_first (b64_char (unat a div 4)) (b64_char (unat a mod 4 * 16 + unat b div 16)) = a"
    "group_first (b64_char (unat a div 4)) (b64_char (unat a mod 4 * 16)) = a"
    by (simp_all only: group_first_def b64_val_char sextets of_nat_unat ucast_id)
qed

lemma group_second_encoded:
  "group_second (b64_char (unat (a :: byte) mod 4 * 16 + unat (b :: byte) div 16))
     (b64_char (unat b mod 16 * 4 + unat (c :: byte) div 64)) = b"
  "group_second (b64_char (unat a mod 4 * 16 + unat b div 16)) (b64_char (unat b mod 16 * 4)) = b"
proof -
  have "unat b div 16 * 16 + unat b mod 16 = unat b" by simp
  moreover have "(unat a mod 4 * 16 + unat b div 16) mod 16 = unat b div 16" by (rule radix) (rule byte_div)
  moreover have "(unat b mod 16 * 4 + unat c div 64) div 4 = unat b mod 16" by (rule radix) (rule byte_div)
  moreover have "unat b mod 16 * 4 div 4 = unat b mod 16" by simp
  ultimately show "group_second (b64_char (unat a mod 4 * 16 + unat b div 16))
     (b64_char (unat b mod 16 * 4 + unat c div 64)) = b"
    "group_second (b64_char (unat a mod 4 * 16 + unat b div 16)) (b64_char (unat b mod 16 * 4)) = b"
    by (simp_all only: group_second_def b64_val_char sextets of_nat_unat ucast_id)
qed

lemma group_third_encoded:
  "group_third (b64_char (unat (b :: byte) mod 16 * 4 + unat (c :: byte) div 64)) (b64_char (unat c mod 64)) = c"
proof -
  have "unat c div 64 * 64 + unat c mod 64 = unat c" by simp
  moreover have "(unat b mod 16 * 4 + unat c div 64) mod 4 = unat c div 64" by (rule radix) (rule byte_div)
  ultimately show ?thesis by (simp only: group_third_def b64_val_char sextets of_nat_unat ucast_id)
qed

lemma decode_encode: "b64_decode (b64_encode bs) = bs"
  by (induction bs rule: b64_encode.induct)
    (simp_all add: b64_char_not_pad sextets group_first_encoded group_second_encoded group_third_encoded)

text \<open>The encoding of any bytes passes the pattern.\<close>

lemma b64_encode_length: "length (b64_encode bs) mod 4 = 0"
  by (induction bs rule: b64_encode.induct) auto

lemma b64_encode_form:
  "\<exists>body pad. b64_encode bs = body @ pad \<and> list_all b64_alphabet body \<and> pad \<in> {[], ''='', ''==''}
     \<and> (bs \<noteq> [] \<longrightarrow> body \<noteq> [])"
proof (induction bs rule: b64_encode.induct)
  case (4 a b c bs)
  then obtain body pad where "b64_encode bs = body @ pad" "list_all b64_alphabet body" "pad \<in> {[], ''='', ''==''}"
    by blast
  then show ?case
    by (intro exI[of _ "b64_char (unat a div 4) # b64_char (unat a mod 4 * 16 + unat b div 16)
       # b64_char (unat b mod 16 * 4 + unat c div 64) # b64_char (unat c mod 64) # body"] exI[of _ pad])
      (simp add: b64_alphabet_char sextets)
next
  case (2 a)
  show ?case
    by (intro exI[of _ "[b64_char (unat a div 4), b64_char (unat a mod 4 * 16)]"] exI[of _ "''==''"])
      (simp add: b64_alphabet_char sextets)
next
  case (3 a b)
  show ?case
    by (intro exI[of _ "[b64_char (unat a div 4), b64_char (unat a mod 4 * 16 + unat b div 16),
        b64_char (unat b mod 16 * 4)]"] exI[of _ "''=''"])
      (simp add: b64_alphabet_char sextets)
qed simp

lemma b64_encode_pattern: "bs \<noteq> [] \<Longrightarrow> base64_pattern (b64_encode bs)"
proof -
  assume "bs \<noteq> []"
  then obtain body pad where f: "b64_encode bs = body @ pad" "list_all b64_alphabet body"
    "pad \<in> {[], ''='', ''==''}" "body \<noteq> []"
    using b64_encode_form[of bs] by blast
  moreover have "\<not> b64_alphabet CHR ''=''" by (simp add: b64_alphabet_def is_upper_def is_lower_def is_digit_def)
  ultimately have "takeWhile b64_alphabet (b64_encode bs) = body" "dropWhile b64_alphabet (b64_encode bs) = pad"
    by (auto simp: list_all_iff)
  then show ?thesis using f by (simp add: base64_pattern_def)
qed

lemma b64_encode_eq_Nil [simp]: "b64_encode bs = [] \<longleftrightarrow> bs = []"
  by (cases bs rule: b64_encode.cases) auto

lemma Nil_eq_b64_encode [simp]: "[] = b64_encode bs \<longleftrightarrow> bs = []"
  by (cases bs rule: b64_encode.cases) auto

lemma strictBase64_Inr_iff: "strictBase64 v = Inr bs \<longleftrightarrow> bs \<noteq> [] \<and> js_trim v = b64_encode bs"
  by (auto simp: strictBase64_def Let_def decode_encode b64_encode_pattern b64_encode_length)

text \<open>Comparing the padded buffers and the lengths is comparing the texts.\<close>

lemma unat_byte: "n < 256 \<Longrightarrow> unat (of_nat n :: byte) = n"
  by (simp add: unsigned_of_nat take_bit_eq_mod)

lemma utf8_char_head: "unat (hd (utf8_char c)) = (if code c < 128 then code c else 192 + code c div 64)"
proof -
  have "code c div 64 < 4" by (simp add: less_mult_imp_div_less)
  then have "unat (of_nat (192 + code c div 64) :: byte) = 192 + code c div 64" by (intro unat_byte) simp
  moreover have "unat (of_nat (code c) :: byte) = code c" by (intro unat_byte) simp
  ultimately show ?thesis by (simp only: utf8_char_def list.sel if_distrib split: if_splits) simp
qed

lemma utf8_char_next:
  "128 \<le> code c \<Longrightarrow> unat (hd (tl (utf8_char c))) = 128 + code c mod 64"
proof -
  assume "128 \<le> code c"
  moreover have "code c mod 64 < 64" by simp
  then have "unat (of_nat (128 + code c mod 64) :: byte) = 128 + code c mod 64" by (intro unat_byte) simp
  ultimately show ?thesis by (simp only: utf8_char_def list.sel not_less split: if_splits) simp
qed

lemma utf8_char_length: "length (utf8_char c) = (if code c < 128 then 1 else 2)"
  by (simp add: utf8_char_def)

lemma hd_append_utf8: "hd (utf8_char c @ xs) = hd (utf8_char c)"
  by (simp add: utf8_char_def)

lemma utf8_char_prefix:
  assumes "utf8_char c @ xs = utf8_char d @ ys"
  shows "c = d \<and> xs = ys"
proof -
  have h: "unat (hd (utf8_char c)) = unat (hd (utf8_char d))" using assms hd_append_utf8 by metis
  then have k: "code c < 128 \<longleftrightarrow> code d < 128" unfolding utf8_char_head by (auto split: if_splits)
  then have e: "utf8_char c = utf8_char d" "xs = ys"
    using assms utf8_char_length[of c] utf8_char_length[of d] by (auto simp: append_eq_append_conv)
  have "code c = code d"
  proof (cases "code c < 128")
    case True
    then show ?thesis using h k unfolding utf8_char_head by simp
  next
    case False
    then have "code c div 64 = code d div 64" using h k unfolding utf8_char_head by simp
    moreover have "code c mod 64 = code d mod 64"
      using False k e utf8_char_next[of c] utf8_char_next[of d] by simp
    ultimately show ?thesis by (metis div_mult_mod_eq)
  qed
  then have "c = d" by (metis char_of_char)
  with e show ?thesis by blast
qed

lemma utf8_inj: "utf8 l = utf8 r \<longleftrightarrow> l = r"
proof
  show "utf8 l = utf8 r \<Longrightarrow> l = r"
  proof (induction l arbitrary: r)
    case Nil
    then show ?case by (cases r) (auto simp: utf8_def utf8_char_def split: if_splits)
  next
    case (Cons c l)
    then obtain d r' where r: "r = d # r'" by (cases r) (auto simp: utf8_def utf8_char_def split: if_splits)
    with Cons.prems have "utf8_char c @ utf8 l = utf8_char d @ utf8 r'" by (simp add: utf8_def)
    from utf8_char_prefix[OF this] Cons.IH[of r'] show ?case by (simp add: r)
  qed
qed simp

lemma constantTimeEqual_iff [simp]: "constantTimeEqual l r \<longleftrightarrow> l = r"
proof
  assume "constantTimeEqual l r"
  then have "utf8 l = utf8 r" by (auto simp: constantTimeEqual_def Let_def pad_bytes_def max_def split: if_splits)
  then show "l = r" by (simp add: utf8_inj)
qed (simp add: constantTimeEqual_def Let_def)

end
