(* ===== verification/Webhook_Payload.thy ===== *)
theory Webhook_Payload
  imports Webhook_Crypto
begin

text \<open>
  \<open>src/webhook/payload.mjs\<close>: the headers of a delivery, the body read within its limit and the encrypted
  event data in a multipart, JSON or form body. Bodies are bytes; an error without a code is
  \<open>WebhookError []\<close>.
\<close>

definition WEBHOOK_MAX_BODY_BYTES :: int where
  [js_eval]: "WEBHOOK_MAX_BODY_BYTES = 1048576"

abbreviation bad_request :: webhook_error where
  "bad_request \<equiv> WebhookError []"

section \<open>Parameters of a header value\<close>

definition unquote :: "string \<Rightarrow> string" where
  [js_eval]: "unquote item =
     (if item \<noteq> [] \<and> hd item = CHR 0x22 \<and> last item = CHR 0x22 then butlast (tl item) else item)"

text \<open>The index of the first equals sign, when it is positive, splits a parameter.\<close>

definition header_parameter :: "string \<Rightarrow> (string \<times> string) option" where
  [js_eval]: "header_parameter p =
     (let key = takeWhile (\<lambda>c. c \<noteq> CHR ''='') p; rest = dropWhile (\<lambda>c. c \<noteq> CHR ''='') p
      in if key = [] \<or> rest = [] then None
         else Some (js_lower (js_trim key), unquote (js_trim (tl rest))))"

fun header_parameters :: "(string \<times> string) list \<Rightarrow> string list \<Rightarrow> (string \<times> string) list" where
  "header_parameters vs [] = vs"
| "header_parameters vs (p # ps) =
     header_parameters (case header_parameter p of None \<Rightarrow> vs | Some (k, v) \<Rightarrow> assoc_put k v vs) ps"

definition parseContentType :: "string \<Rightarrow> string \<times> (string \<times> string) list" where
  [js_eval]: "parseContentType v =
     (case split_on CHR '';'' (js_trim v) of
        [] \<Rightarrow> ([], [])
      | mediaType # ps \<Rightarrow> (js_lower mediaType, header_parameters [] ps))"

definition parseDisposition :: "string \<Rightarrow> (string \<times> string) list option" where
  [js_eval]: "parseDisposition v =
     (case split_on CHR '';'' v of
        [] \<Rightarrow> None
      | kind # ps \<Rightarrow> if js_lower (js_trim kind) \<noteq> ''form-data'' then None else Some (header_parameters [] ps))"

section \<open>Multipart bodies\<close>

text \<open>\<open>buffer.indexOf(pattern)\<close>\<close>

fun index_of :: "'a list \<Rightarrow> 'a list \<Rightarrow> nat option" where
  "index_of p [] = (if p = [] then Some 0 else None)"
| "index_of p (x # xs) = (if take (length p) (x # xs) = p then Some 0 else map_option Suc (index_of p xs))"

text \<open>\<open>text.split('\r\n')\<close>\<close>

fun split_crlf :: "string \<Rightarrow> string list" where
  "split_crlf [] = [[]]"
| "split_crlf [c] = [[c]]"
| "split_crlf (c # d # cs) =
     (if c = CHR 0x0D \<and> d = CHR 0x0A then [] # split_crlf cs
      else case split_crlf (d # cs) of [] \<Rightarrow> [[c]] | t # ts \<Rightarrow> (c # t) # ts)"

definition crlf :: "byte list" where
  [js_eval]: "crlf = [13, 10]"

definition dashes :: "byte list" where
  [js_eval]: "dashes = [45, 45]"

fun part_headers :: "(string \<times> string) list \<Rightarrow> string list \<Rightarrow> (string \<times> string) list webhook_result" where
  "part_headers hs [] = Inr hs"
| "part_headers hs (line # lines) =
     (let name = takeWhile (\<lambda>c. c \<noteq> CHR '':'') line; rest = dropWhile (\<lambda>c. c \<noteq> CHR '':'') line;
          key = js_lower (js_trim name)
      in if name = [] \<or> rest = [] then Inl bad_request
         else if map_of hs key \<noteq> None then Inl bad_request
         else part_headers (assoc_put key (js_trim (tl rest)) hs) lines)"

declare header_parameters.simps [js_eval] index_of.simps [js_eval] split_crlf.simps [js_eval] part_headers.simps [js_eval]

text \<open>\<open>String(headers.get(name) ?? '')\<close>\<close>

definition header_text :: "(string \<times> string) list \<Rightarrow> string \<Rightarrow> string" where
  [js_eval]: "header_text hs k = (case map_of hs k of None \<Rightarrow> [] | Some v \<Rightarrow> v)"

text \<open>What a part adds: the event data once, as a scalar; other named parts are passed over.\<close>

definition part_data ::
    "node_lib \<Rightarrow> (string \<times> string) list \<Rightarrow> string option \<Rightarrow> byte list \<Rightarrow> string option webhook_result" where
  [js_eval]: "part_data L headers eventData content =
     (case parseDisposition (header_text headers ''content-disposition'') of
        None \<Rightarrow> Inl bad_request
      | Some disposition \<Rightarrow>
          if header_text disposition ''name'' = [] then Inl bad_request
          else if header_text disposition ''name'' \<noteq> ''eventData'' then Inr eventData
          else if map_of disposition ''filename'' \<noteq> None \<or> eventData \<noteq> None then Inl bad_request
          else Inr (Some (nl_utf8 L content)))"

text \<open>
  One part: \<open>rest\<close> is the body after the line break that follows a boundary, and the answer is the
  event data after the part with the body from the end of the next boundary on. \<open>partCount\<close> counts the
  parts before this one.
\<close>

definition multipart_part ::
    "node_lib \<Rightarrow> byte list \<Rightarrow> nat \<Rightarrow> string option \<Rightarrow> byte list \<Rightarrow> (string option \<times> byte list) webhook_result" where
  [js_eval]: "multipart_part L nextBoundary partCount eventData rest =
     (case index_of (crlf @ crlf) rest of
        None \<Rightarrow> Inl bad_request
      | Some headerEnd \<Rightarrow>
          ebind (part_headers [] (split_crlf (nl_utf8 L (take headerEnd rest)))) (\<lambda>headers.
          let content = drop (headerEnd + 4) rest in
          case index_of nextBoundary content of
            None \<Rightarrow> Inl bad_request
          | Some contentEnd \<Rightarrow>
              if 32 < Suc partCount then Inl bad_request
              else ebind (part_data L headers eventData (take contentEnd content)) (\<lambda>eventData'.
                Inr (eventData', drop (contentEnd + length nextBoundary) content))))"

lemma index_of_le: "index_of p xs = Some k \<Longrightarrow> k + length p \<le> length xs \<and> take (length p) (drop k xs) = p"
proof (induction xs arbitrary: k)
  case (Cons x xs)
  show ?case
  proof (cases "take (length p) (x # xs) = p")
    case True
    then have "k = 0" using Cons.prems by (simp split: if_splits)
    moreover have "length p \<le> length (x # xs)" using True by (metis length_take min.cobounded1)
    ultimately show ?thesis using True by simp
  next
    case False
    then obtain j where "index_of p xs = Some j" "k = Suc j" using Cons.prems by auto
    with Cons.IH[of j] show ?thesis by auto
  qed
qed (auto split: if_splits)

lemma multipart_part_shorter:
  "multipart_part L nb n ev rest = Inr (ev', after) \<Longrightarrow> length after + 4 \<le> length rest"
  by (auto simp: multipart_part_def ebind_Inr_iff Let_def crlf_def split: option.splits if_splits dest!: index_of_le)

text \<open>The loop over the parts; \<open>rest\<close> is the body behind a boundary.\<close>

function multipart_loop ::
    "node_lib \<Rightarrow> byte list \<Rightarrow> nat \<Rightarrow> string option \<Rightarrow> byte list \<Rightarrow> string option webhook_result" where
  "multipart_loop L nextBoundary partCount eventData rest =
     (if take 2 rest = dashes
      then (if drop 2 rest = [] \<or> drop 2 rest = crlf then Inr eventData else Inl bad_request)
      else if take 2 rest \<noteq> crlf then Inl bad_request
      else case multipart_part L nextBoundary partCount eventData (drop 2 rest) of
          Inl e \<Rightarrow> Inl e
        | Inr (eventData', rest') \<Rightarrow> multipart_loop L nextBoundary (Suc partCount) eventData' rest')"
  by pat_completeness auto
termination
  by (relation "measure (\<lambda>(L, nb, n, ev, rest). length rest)") (auto dest!: multipart_part_shorter)

declare multipart_loop.simps [simp del, js_eval]

definition multipartEventData :: "node_lib \<Rightarrow> byte list \<Rightarrow> string \<Rightarrow> string webhook_result" where
  [js_eval]: "multipartEventData L body boundaryValue =
     (let boundary = js_trim boundaryValue; delimiter = utf8 (''--'' @ boundary) in
      if boundary = [] \<or> 200 < length boundary \<or> list_ex (\<lambda>c. c = CHR 0x0D \<or> c = CHR 0x0A) boundary
      then Inl bad_request
      else if take (length delimiter) body \<noteq> delimiter then Inl bad_request
      else ebind (multipart_loop L (crlf @ delimiter) 0 None (drop (length delimiter) body)) (\<lambda>eventData.
        case eventData of
          None \<Rightarrow> Inl bad_request
        | Some e \<Rightarrow> if js_trim e = [] then Inl bad_request else Inr e))"

section \<open>Form bodies\<close>

text \<open>\<open>new URLSearchParams(s)\<close>: percent escapes are bytes, a plus sign is a space.\<close>

definition percent_hex :: "byte \<Rightarrow> nat option" where
  [js_eval]: "percent_hex b =
     (let n = unat b in
      if 48 \<le> n \<and> n \<le> 57 then Some (n - 48)
      else if 65 \<le> n \<and> n \<le> 70 then Some (n - 55)
      else if 97 \<le> n \<and> n \<le> 102 then Some (n - 87) else None)"

fun percent_decode :: "byte list \<Rightarrow> byte list" where
  "percent_decode (b # h # l # bs) =
     (case (b = 37, percent_hex h, percent_hex l) of
        (True, Some m, Some n) \<Rightarrow> of_nat (16 * m + n) # percent_decode bs
      | _ \<Rightarrow> b # percent_decode (h # l # bs))"
| "percent_decode bs = bs"

declare percent_decode.simps [js_eval]

definition form_text :: "node_lib \<Rightarrow> string \<Rightarrow> string" where
  [js_eval]: "form_text L s = nl_utf8 L (percent_decode (utf8 (map (\<lambda>c. if c = CHR ''+'' then CHR '' '' else c) s)))"

definition form_pairs :: "node_lib \<Rightarrow> string \<Rightarrow> (string \<times> string) list" where
  [js_eval]: "form_pairs L s =
     (let query = (if s \<noteq> [] \<and> hd s = CHR ''?'' then tl s else s)
      in map (\<lambda>p. (form_text L (takeWhile (\<lambda>c. c \<noteq> CHR ''='') p),
                   form_text L (tl (dropWhile (\<lambda>c. c \<noteq> CHR ''='') p))))
           (filter (\<lambda>p. p \<noteq> []) (split_on CHR ''&'' query)))"

section \<open>Headers\<close>

text \<open>A header value is one text or an array of texts. Assignment to \<open>__proto__\<close> sets no property.\<close>

datatype header_value = One string | Many "string list"

definition header_item :: "header_value \<Rightarrow> string" where
  [js_eval]: "header_item v = (case v of One s \<Rightarrow> s | Many ss \<Rightarrow> join_with '', '' ss)"

fun add_headers :: "(string \<times> string) list \<Rightarrow> (string \<times> header_value) list \<Rightarrow> (string \<times> string) list" where
  "add_headers out [] = out"
| "add_headers out ((k, v) # hs) =
     (let name = js_lower (js_trim k) in
      if name = [] \<or> name = ''__proto__'' then add_headers out hs
      else case map_of out name of
          None \<Rightarrow> add_headers (assoc_put name (header_item v) out) hs
        | Some old \<Rightarrow> add_headers (assoc_put name (old @ '', '' @ header_item v) out) hs)"

declare add_headers.simps [js_eval]

definition normalizeWebhookHeaders :: "(string \<times> header_value) list \<Rightarrow> (string \<times> string) list" where
  [js_eval]: "normalizeWebhookHeaders hs = add_headers [] hs"

definition has_comma :: "string \<Rightarrow> bool" where
  [js_eval]: "has_comma s \<longleftrightarrow> CHR '','' \<in> set s"

definition required_headers :: "string list" where
  [js_eval]: "required_headers = [''x-lt-eventcode'', ''x-lt-timestamp'', ''x-lt-signature'']"

definition identity_headers :: "string list" where
  [js_eval]: "identity_headers = [''x-lt-appid'', ''x-lt-openkeyid'']"

definition assertSingletonSecurityHeaders :: "(string \<times> string) list \<Rightarrow> unit webhook_result" where
  [js_eval]: "assertSingletonSecurityHeaders hs =
     (if list_ex (\<lambda>n. js_trim (header_text hs n) = [] \<or> has_comma (header_text hs n)) required_headers
      then Inl bad_request
      else if list_ex (\<lambda>n. has_comma (header_text hs n)) identity_headers then Inl bad_request
      else if list_all (\<lambda>n. js_trim (header_text hs n) = []) identity_headers then Inl bad_request
      else Inr ())"

section \<open>The event data\<close>

definition extractEncryptedEventData ::
    "node_lib \<Rightarrow> string \<Rightarrow> byte list \<Rightarrow> int \<Rightarrow> string webhook_result" where
  [js_eval]: "extractEncryptedEventData L contentType body maxBodyBytes =
     (if maxBodyBytes < 1 \<or> max_safe < maxBodyBytes then Inl bad_request
      else if body = [] then Inl bad_request
      else if maxBodyBytes < int (length body) then Inl (WebhookError ''WEBHOOK_BODY_TOO_LARGE'')
      else let (mediaType, parameters) = parseContentType contentType in
      ebind
        (if mediaType = ''multipart/form-data''
         then multipartEventData L body (header_text parameters ''boundary'')
         else if mediaType = ''application/json''
         then (case nl_json L (nl_utf8 L body) of
             None \<Rightarrow> Inl bad_request
           | Some v \<Rightarrow> if \<not> is_record v then Inl bad_request
               else (case as_string (jget v ''eventData'') of None \<Rightarrow> Inl bad_request | Some s \<Rightarrow> Inr s))
         else if mediaType = ''application/x-www-form-urlencoded''
         then (case filter (\<lambda>p. fst p = ''eventData'') (form_pairs L (nl_utf8 L body)) of
             [p] \<Rightarrow> Inr (snd p)
           | _ \<Rightarrow> Inl bad_request)
         else Inl bad_request)
        (\<lambda>eventData. if js_trim eventData = [] then Inl bad_request else Inr eventData))"

section \<open>Reading the body\<close>

datatype stream_event = Data "byte list" | StreamEnd | Aborted | StreamError

text \<open>The promise settles once, on the events in their order; \<open>None\<close> while it is pending.\<close>

fun read_body :: "byte list \<Rightarrow> stream_event list \<Rightarrow> int \<Rightarrow> byte list webhook_result option" where
  "read_body chunks [] maxBodyBytes = None"
| "read_body chunks (Data c # es) maxBodyBytes =
     (if maxBodyBytes < int (length (chunks @ c)) then Some (Inl (WebhookError ''WEBHOOK_BODY_TOO_LARGE''))
      else read_body (chunks @ c) es maxBodyBytes)"
| "read_body chunks (StreamEnd # es) maxBodyBytes = Some (Inr chunks)"
| "read_body chunks (Aborted # es) maxBodyBytes = Some (Inl bad_request)"
| "read_body chunks (StreamError # es) maxBodyBytes = Some (Inl bad_request)"

declare read_body.simps [js_eval]

definition readWebhookBody :: "stream_event list \<Rightarrow> int \<Rightarrow> byte list webhook_result option" where
  [js_eval]: "readWebhookBody es maxBodyBytes = read_body [] es maxBodyBytes"

end
