(* ===== verification/Webhook_Registry.thy ===== *)
theory Webhook_Registry
  imports Js_Text
begin

text \<open>
  \<open>src/webhook/event-registry.mjs\<close>: the fifteen full-managed webhook events and the resolution of the
  event header, which carries either the numeric document code or the route name. The display labels
  are left out.
\<close>

record webhook_event =
  we_eventCode :: string
  we_eventPath :: string
  we_family :: string
  we_businessType :: string
  we_hydrationType :: "string option"

definition known_event :: "string \<Rightarrow> string \<Rightarrow> string \<Rightarrow> string \<Rightarrow> string \<Rightarrow> webhook_event" where
  [js_eval]: "known_event c p f b h =
     \<lparr>we_eventCode = c, we_eventPath = p, we_family = f, we_businessType = b, we_hydrationType = Some h\<rparr>"

definition FULL_MANAGED_WEBHOOK_EVENTS :: "webhook_event list" where
  [js_eval]: "FULL_MANAGED_WEBHOOK_EVENTS =
     [known_event ''3000910'' ''/product_document_receive_status_notice'' ''product_receive'' ''PRODUCT'' ''PRODUCT_READBACK'',
      known_event ''3001449'' ''/product_document_audit_status_notice_all_channels'' ''product_audit_all_channels'' ''PRODUCT'' ''PRODUCT_READBACK'',
      known_event ''3001450'' ''/product_document_audit_status_notice'' ''product_audit'' ''PRODUCT'' ''PRODUCT_READBACK'',
      known_event ''3001903'' ''/product_delete_audit'' ''product_delete_audit'' ''PRODUCT'' ''PRODUCT_READBACK'',
      known_event ''3001061'' ''/product_quota_change_notice'' ''product_quota'' ''STORE'' ''QUOTA_READBACK'',
      known_event ''3001792'' ''/product_rrp_review_status_changed'' ''rrp_review'' ''PRODUCT'' ''RRP_READBACK'',
      known_event ''3001793'' ''/product_rrp_validity_changed'' ''rrp_validity'' ''PRODUCT'' ''RRP_READBACK'',
      known_event ''3001104'' ''/product_compliance_change_notice'' ''product_compliance'' ''PRODUCT'' ''COMPLIANCE_READBACK'',
      known_event ''3001435'' ''/purchase_order_notice'' ''purchase_order'' ''PURCHASE_ORDER'' ''PURCHASE_ORDER_READBACK'',
      known_event ''3001441'' ''/delivery_modify_notice'' ''delivery'' ''DELIVERY'' ''DELIVERY_READBACK'',
      known_event ''3001765'' ''/logistics_forecast_result_notice'' ''logistics_forecast'' ''LOGISTICS_FORECAST'' ''LOGISTICS_FORECAST_READBACK'',
      known_event ''3001744'' ''/purchase_order_return_application_notice'' ''purchase_return_application'' ''PURCHASE_RETURN_APPLICATION'' ''PURCHASE_RETURN_APPLICATION_READBACK'',
      known_event ''3001801'' ''/purchase_order_return_notice'' ''purchase_return'' ''PURCHASE_RETURN'' ''PURCHASE_RETURN_READBACK'',
      known_event ''3001048'' ''/out_of_stock_notice'' ''shortage'' ''SHORTAGE'' ''SHORTAGE_READBACK'',
      known_event ''3001503'' ''/authorization_change_notice'' ''authorization_change'' ''STORE'' ''AUTHORIZATION_PROBE'']"

definition control_char :: "char \<Rightarrow> bool" where
  [js_eval]: "control_char c \<longleftrightarrow> code c \<le> 31 \<or> code c = 127"

definition route_char :: "char \<Rightarrow> bool" where
  [js_eval]: "route_char c \<longleftrightarrow> is_upper c \<or> is_lower c \<or> is_digit c \<or> c \<in> set ''_./-''"

definition safeUnknownValue :: "string \<Rightarrow> string" where
  [js_eval]: "safeUnknownValue v =
     (let r = js_trim v
      in if r = [] \<or> 160 < length r \<or> list_ex control_char r then []
         else if list_all route_char r then r else [])"

text \<open>\<open>/^\d+$/\<close>\<close>

definition all_digits :: "string \<Rightarrow> bool" where
  [js_eval]: "all_digits s \<longleftrightarrow> s \<noteq> [] \<and> list_all is_digit s"

definition route_path :: "string \<Rightarrow> string" where
  [js_eval]: "route_path raw =
     (if raw \<noteq> [] \<and> \<not> all_digits raw then CHR ''/'' # dropWhile (\<lambda>c. c = CHR ''/'') raw else [])"

definition by_code :: "string \<Rightarrow> webhook_event option" where
  [js_eval]: "by_code c = find (\<lambda>e. we_eventCode e = c) FULL_MANAGED_WEBHOOK_EVENTS"

definition by_path :: "string \<Rightarrow> webhook_event option" where
  [js_eval]: "by_path p = find (\<lambda>e. we_eventPath e = p) FULL_MANAGED_WEBHOOK_EVENTS"

definition unknown_event :: "string \<Rightarrow> webhook_event" where
  [js_eval]: "unknown_event raw =
     \<lparr>we_eventCode = (if all_digits raw \<and> length raw \<le> 20 then raw else []),
      we_eventPath = (if route_path raw = [] then ''/unknown'' else route_path raw),
      we_family = ''unknown'', we_businessType = ''UNKNOWN'', we_hydrationType = None\<rparr>"

definition resolveFullManagedWebhookEvent :: "string \<Rightarrow> webhook_event" where
  [js_eval]: "resolveFullManagedWebhookEvent v =
     (let raw = safeUnknownValue v
      in case by_code raw of
           Some e \<Rightarrow> e
         | None \<Rightarrow> (case by_path (route_path raw) of Some e \<Rightarrow> e | None \<Rightarrow> unknown_event raw))"

section \<open>The table\<close>

text \<open>The maps by code and by path lose no entry, because no code and no path occurs twice.\<close>

lemma registry_distinct:
  "distinct (map we_eventCode FULL_MANAGED_WEBHOOK_EVENTS)" "distinct (map we_eventPath FULL_MANAGED_WEBHOOK_EVENTS)"
  by code_simp+

lemma registry_families:
  "list_all (\<lambda>e. we_family e \<noteq> ''unknown'' \<and> we_family e \<noteq> [] \<and> we_businessType e \<noteq> []
     \<and> length (we_family e) \<le> 80 \<and> length (we_businessType e) \<le> 80
     \<and> all_digits (we_eventCode e) \<and> length (we_eventCode e) \<le> 20 \<and> we_hydrationType e \<noteq> None
     \<and> safeUnknownValue (we_eventCode e) = we_eventCode e \<and> safeUnknownValue (we_eventPath e) = we_eventPath e
     \<and> route_path (we_eventPath e) = we_eventPath e) FULL_MANAGED_WEBHOOK_EVENTS"
  by code_simp

lemma registry_codes_not_paths:
  "list_all (\<lambda>e. by_code (we_eventPath e) = None) FULL_MANAGED_WEBHOOK_EVENTS"
  by code_simp

lemma find_distinct: "distinct (map f xs) \<Longrightarrow> x \<in> set xs \<Longrightarrow> find (\<lambda>y. f y = f x) xs = Some x"
  by (induction xs) auto

lemma find_None_iff': "find p xs = None \<longleftrightarrow> \<not> (\<exists>x\<in>set xs. p x)"
  by (auto simp: find_None_iff)

text \<open>
  Every registered event is resolved by its code and by its path, and nothing else is: whatever the
  header, the answer is a registered event or is of the family \<open>unknown\<close>.
\<close>

lemma resolve_known:
  assumes "e \<in> set FULL_MANAGED_WEBHOOK_EVENTS"
  shows "resolveFullManagedWebhookEvent (we_eventCode e) = e" "resolveFullManagedWebhookEvent (we_eventPath e) = e"
proof -
  have s: "safeUnknownValue (we_eventCode e) = we_eventCode e" "safeUnknownValue (we_eventPath e) = we_eventPath e"
    "route_path (we_eventPath e) = we_eventPath e" "by_code (we_eventPath e) = None"
    using assms registry_families registry_codes_not_paths by (auto simp: list_all_iff)
  show "resolveFullManagedWebhookEvent (we_eventCode e) = e"
    using find_distinct[OF registry_distinct(1) assms] s
    by (simp add: resolveFullManagedWebhookEvent_def by_code_def)
  show "resolveFullManagedWebhookEvent (we_eventPath e) = e"
    using find_distinct[OF registry_distinct(2) assms] s
    by (simp add: resolveFullManagedWebhookEvent_def by_path_def)
qed

lemma resolve_cases:
  "resolveFullManagedWebhookEvent v \<in> set FULL_MANAGED_WEBHOOK_EVENTS
   \<or> resolveFullManagedWebhookEvent v = unknown_event (safeUnknownValue v)"
  by (auto simp: resolveFullManagedWebhookEvent_def by_code_def by_path_def Let_def find_Some_iff
      split: option.splits)

text \<open>The codes and paths that come out are texts of harmless characters, bounded in length.\<close>

lemma js_trim_id: "list_all (\<lambda>c. \<not> is_space c) s \<Longrightarrow> js_trim s = s"
proof -
  have a: "list_all (\<lambda>c. \<not> is_space c) t \<Longrightarrow> dropWhile is_space t = t" for t by (cases t) auto
  assume "list_all (\<lambda>c. \<not> is_space c) s"
  then show ?thesis using a[of s] a[of "rev s"] by (simp add: js_trim_def)
qed

lemma route_char_not_space: "route_char c \<Longrightarrow> \<not> is_space c"
  by (auto simp: route_char_def is_upper_def is_lower_def is_digit_def is_space_def)

lemma route_char_not_control: "route_char c \<Longrightarrow> \<not> control_char c"
  by (auto simp: route_char_def is_upper_def is_lower_def is_digit_def control_char_def)

lemma route_text_trimmed: "list_all route_char s \<Longrightarrow> js_trim s = s"
  by (rule js_trim_id) (auto simp: list_all_iff route_char_not_space)

lemma safeUnknownValue_facts:
  "list_all route_char (safeUnknownValue v)" "length (safeUnknownValue v) \<le> 160"
  by (auto simp: safeUnknownValue_def Let_def)

lemma route_path_facts:
  assumes "list_all route_char raw" "length raw \<le> n"
  shows "list_all route_char (route_path raw)" "length (route_path raw) \<le> Suc n"
proof -
  have "route_char CHR ''/''" by (simp add: route_char_def)
  moreover have "set (dropWhile (\<lambda>c. c = CHR ''/'') raw) \<subseteq> set raw" by (auto dest: set_dropWhileD)
  ultimately show "list_all route_char (route_path raw)" using assms by (auto simp: route_path_def list_all_iff)
  show "length (route_path raw) \<le> Suc n"
    using assms length_dropWhile_le[of "\<lambda>c. c = CHR ''/''" raw] by (auto simp: route_path_def)
qed

definition event_texts :: "webhook_event \<Rightarrow> bool" where
  "event_texts e \<longleftrightarrow> list_all is_digit (we_eventCode e) \<and> length (we_eventCode e) \<le> 20
     \<and> list_all route_char (we_eventPath e) \<and> length (we_eventPath e) \<le> 161 \<and> we_eventPath e \<noteq> []"

lemma registry_texts: "list_all event_texts FULL_MANAGED_WEBHOOK_EVENTS"
  unfolding event_texts_def by code_simp

lemma resolve_texts: "event_texts (resolveFullManagedWebhookEvent v)"
proof -
  have "list_all route_char ''/unknown''" by code_simp
  then have "event_texts (unknown_event (safeUnknownValue v))"
    using route_path_facts[OF safeUnknownValue_facts[of v]]
    by (simp add: event_texts_def unknown_event_def all_digits_def)
  then show ?thesis
    using resolve_cases[of v] registry_texts by (auto simp: list_all_iff)
qed

end
