(* ===== verification/Webhook_Credentials.thy ===== *)
theory Webhook_Credentials
  imports Webhook_Payload Webhook_Registry
begin

text \<open>
  \<open>src/webhook/credentials.mjs\<close>: the registry of applications and stores, built from the two parsed
  configuration files, and the identities that it gives to a delivery and to a stored receipt. The maps
  of the source are lists searched by their key. Reading the files is left out.
\<close>

record web_app =
  wa_appId :: string
  wa_appSecretKey :: string
  wa_appKeyHash :: string
  wa_storeCodes :: "string list"

record web_store =
  ws_storeCode :: string
  ws_appId :: string
  ws_appKeyHash :: string
  ws_openKeyId :: string
  ws_openKeyHash :: string

record registry =
  rg_apps :: "web_app list"
  rg_stores :: "web_store list"

section \<open>Texts\<close>

definition clean_text :: "nat \<Rightarrow> string \<Rightarrow> string webhook_result" where
  [js_eval]: "clean_text maximum v =
     (let result = js_trim v
      in if result = [] \<or> maximum < length result \<or> list_ex control_char result then Inl (WebhookError [])
         else Inr result)"

definition requiredCredentialText :: "nat \<Rightarrow> jsv \<Rightarrow> string webhook_result" where
  [js_eval]: "requiredCredentialText maximum v =
     (case js_string_or_empty v of Inl _ \<Rightarrow> Inl (WebhookError []) | Inr s \<Rightarrow> clean_text maximum s)"

text \<open>\<open>/^[A-Z0-9_-]{1,32}$/\<close>\<close>

definition webhook_store_code :: "string \<Rightarrow> bool" where
  [js_eval]: "webhook_store_code s =
     matches_span (\<lambda>c. is_upper c \<or> is_digit c \<or> c = CHR ''_'' \<or> c = CHR ''-'') 1 32 s"

definition normalizedStoreCode :: "jsv \<Rightarrow> string webhook_result" where
  [js_eval]: "normalizedStoreCode v =
     ebind (requiredCredentialText 2048 v) (\<lambda>t.
       if webhook_store_code (js_upper t) then Inr (js_upper t) else Inl (WebhookError []))"

section \<open>Building the registry\<close>

definition app_by_id :: "registry \<Rightarrow> string \<Rightarrow> web_app option" where
  [js_eval]: "app_by_id R k = find (\<lambda>a. wa_appId a = k) (rg_apps R)"

definition app_by_hash :: "registry \<Rightarrow> string \<Rightarrow> web_app option" where
  [js_eval]: "app_by_hash R k = find (\<lambda>a. wa_appKeyHash a = k) (rg_apps R)"

definition store_by_code :: "registry \<Rightarrow> string \<Rightarrow> web_store option" where
  [js_eval]: "store_by_code R k = find (\<lambda>s. ws_storeCode s = k) (rg_stores R)"

definition store_by_open_key :: "registry \<Rightarrow> string \<Rightarrow> web_store option" where
  [js_eval]: "store_by_open_key R k = find (\<lambda>s. ws_openKeyId s = k) (rg_stores R)"

definition store_by_open_hash :: "registry \<Rightarrow> string \<Rightarrow> web_store option" where
  [js_eval]: "store_by_open_hash R k = find (\<lambda>s. ws_openKeyHash s = k) (rg_stores R)"

definition add_application :: "node_lib \<Rightarrow> jsv \<Rightarrow> registry \<Rightarrow> registry webhook_result" where
  [js_eval]: "add_application L row R =
     ebind (requiredCredentialText 256 (jget row ''appId'')) (\<lambda>appId.
     ebind (requiredCredentialText 2048 (jget row ''appSecretKey'')) (\<lambda>secret.
       if app_by_id R appId \<noteq> None \<or> app_by_hash R (nl_sha256 L appId) \<noteq> None then Inl (WebhookError [])
       else Inr (R\<lparr>rg_apps := rg_apps R @
         [\<lparr>wa_appId = appId, wa_appSecretKey = secret, wa_appKeyHash = nl_sha256 L appId, wa_storeCodes = []\<rparr>]\<rparr>)))"

definition status_allows :: "jsv \<Rightarrow> string \<Rightarrow> bool" where
  [js_eval]: "status_allows v expected \<longleftrightarrow> v = JUndef \<or> v = JStr expected"

definition note_store :: "string \<Rightarrow> string \<Rightarrow> web_app \<Rightarrow> web_app" where
  [js_eval]: "note_store appId storeCode a =
     (if wa_appId a = appId then a\<lparr>wa_storeCodes := wa_storeCodes a @ [storeCode]\<rparr> else a)"

definition add_store :: "node_lib \<Rightarrow> jsv \<Rightarrow> registry \<Rightarrow> registry webhook_result" where
  [js_eval]: "add_store L row R =
     (if jget row ''enabled'' = JBool False then Inr R
      else ebind (normalizedStoreCode (jget row ''storeCode'')) (\<lambda>storeCode.
        if \<not> status_allows (jget row ''applicationStatus'') ''approved''
           \<or> \<not> status_allows (jget row ''authorizationStatus'') ''authorized''
        then Inl (WebhookError [])
        else ebind (requiredCredentialText 256 (jget row ''appId'')) (\<lambda>appId.
        ebind (requiredCredentialText 512 (jget row ''openKeyId'')) (\<lambda>openKeyId.
        case app_by_id R appId of
          None \<Rightarrow> Inl (WebhookError [])
        | Some a \<Rightarrow>
            if store_by_code R storeCode \<noteq> None \<or> store_by_open_key R openKeyId \<noteq> None
               \<or> store_by_open_hash R (nl_sha256 L openKeyId) \<noteq> None
            then Inl (WebhookError [])
            else Inr \<lparr>rg_apps = map (note_store appId storeCode) (rg_apps R),
                      rg_stores = rg_stores R @
                        [\<lparr>ws_storeCode = storeCode, ws_appId = appId, ws_appKeyHash = wa_appKeyHash a,
                          ws_openKeyId = openKeyId, ws_openKeyHash = nl_sha256 L openKeyId\<rparr>]\<rparr>))))"

fun add_rows :: "(jsv \<Rightarrow> registry \<Rightarrow> registry webhook_result) \<Rightarrow> jsv list \<Rightarrow> registry \<Rightarrow> registry webhook_result" where
  "add_rows f [] R = Inr R"
| "add_rows f (v # vs) R = ebind (f v R) (add_rows f vs)"

declare add_rows.simps [js_eval]

definition full_managed_rows :: "jsv \<Rightarrow> string \<Rightarrow> jsv list option" where
  [js_eval]: "full_managed_rows config field =
     (if jget config ''cooperationMode'' \<noteq> JStr ''FULL_MANAGED'' then None else as_array (jget config field))"

definition createFullManagedWebhookCredentialRegistry ::
    "node_lib \<Rightarrow> jsv \<Rightarrow> jsv \<Rightarrow> registry webhook_result" where
  [js_eval]: "createFullManagedWebhookCredentialRegistry L storeConfig applicationConfig =
     (case full_managed_rows storeConfig ''stores'' of
        None \<Rightarrow> Inl (WebhookError [])
      | Some stores \<Rightarrow> (case full_managed_rows applicationConfig ''applications'' of
            None \<Rightarrow> Inl (WebhookError [])
          | Some applications \<Rightarrow>
              if applications = [] then Inl (WebhookError [])
              else ebind (add_rows (add_application L) applications \<lparr>rg_apps = [], rg_stores = []\<rparr>) (\<lambda>R.
                ebind (add_rows (add_store L) stores R) (\<lambda>R.
                  if rg_stores R = [] \<or> list_ex (\<lambda>a. wa_storeCodes a = []) (rg_apps R)
                  then Inl (WebhookError []) else Inr R))))"

section \<open>The identity of a delivery\<close>

record identity =
  id_appId :: string
  id_appSecretKey :: string
  id_appKeyHash :: string
  id_openKeyId :: string
  id_openKeyHash :: string
  id_storeCode :: "string option"
  id_deliveryScope :: string
  id_appScopedOnly :: bool

definition resolveIngress :: "node_lib \<Rightarrow> registry \<Rightarrow> (string \<times> string) list \<Rightarrow> identity webhook_result" where
  [js_eval]: "resolveIngress L R headers =
     (let appId = js_trim (header_text headers ''x-lt-appid'');
          openKeyId = js_trim (header_text headers ''x-lt-openkeyid'');
          app = (if appId = [] then None else app_by_id R appId);
          store = (if openKeyId = [] then None else store_by_open_key R openKeyId)
      in if appId \<noteq> [] \<and> app = None then Inl (WebhookError ''WEBHOOK_IDENTITY_UNKNOWN'')
         else if appId = [] \<and> store = None then Inl (WebhookError ''WEBHOOK_IDENTITY_UNKNOWN'')
         else case (case app of Some a \<Rightarrow> Some a
                    | None \<Rightarrow> (case store of Some s \<Rightarrow> app_by_id R (ws_appId s) | None \<Rightarrow> None)) of
             None \<Rightarrow> Inl (WebhookError ''WEBHOOK_IDENTITY_UNKNOWN'')
           | Some a \<Rightarrow>
               if (case store of Some s \<Rightarrow> ws_appId s \<noteq> wa_appId a | None \<Rightarrow> False)
               then Inl (WebhookError ''WEBHOOK_IDENTITY_MISMATCH'')
               else Inr \<lparr>id_appId = wa_appId a, id_appSecretKey = wa_appSecretKey a,
                         id_appKeyHash = wa_appKeyHash a, id_openKeyId = openKeyId,
                         id_openKeyHash = (if openKeyId = [] then [] else nl_sha256 L openKeyId),
                         id_storeCode = map_option ws_storeCode store,
                         id_deliveryScope = (if store = None then ''APP_ONLY'' else ''STORE''),
                         id_appScopedOnly = (store = None)\<rparr>)"

record stored_identity =
  si_appSecretKey :: string
  si_appKeyHash :: string
  si_storeCode :: "string option"
  si_appScopedOnly :: bool

definition resolveStored ::
    "registry \<Rightarrow> string \<Rightarrow> string \<Rightarrow> string \<Rightarrow> string option \<Rightarrow> stored_identity webhook_result" where
  [js_eval]: "resolveStored R appKeyHash openKeyHash deliveryScope storeCode =
     ebind (clean_text 2048 appKeyHash) (\<lambda>ah.
     case app_by_hash R ah of
       None \<Rightarrow> Inl (WebhookError ''WEBHOOK_IDENTITY_DRIFT'')
     | Some a \<Rightarrow>
         if deliveryScope = ''APP_ONLY''
         then Inr \<lparr>si_appSecretKey = wa_appSecretKey a, si_appKeyHash = wa_appKeyHash a,
                   si_storeCode = None, si_appScopedOnly = True\<rparr>
         else ebind (clean_text 2048 openKeyHash) (\<lambda>oh.
           case store_by_open_hash R oh of
             None \<Rightarrow> Inl (WebhookError ''WEBHOOK_IDENTITY_DRIFT'')
           | Some s \<Rightarrow>
               if ws_appId s \<noteq> wa_appId a \<or> Some (ws_storeCode s) \<noteq> storeCode
               then Inl (WebhookError ''WEBHOOK_IDENTITY_DRIFT'')
               else Inr \<lparr>si_appSecretKey = wa_appSecretKey a, si_appKeyHash = wa_appKeyHash a,
                         si_storeCode = Some (ws_storeCode s), si_appScopedOnly = False\<rparr>))"

section \<open>The registry is well formed\<close>

definition registry_ok :: "node_lib \<Rightarrow> registry \<Rightarrow> bool" where
  "registry_ok L R \<longleftrightarrow>
     distinct (map wa_appId (rg_apps R)) \<and> distinct (map wa_appKeyHash (rg_apps R))
     \<and> (\<forall>a\<in>set (rg_apps R). wa_appKeyHash a = nl_sha256 L (wa_appId a) \<and> wa_appId a \<noteq> []
          \<and> js_trim (wa_appSecretKey a) \<noteq> [])
     \<and> distinct (map ws_storeCode (rg_stores R)) \<and> distinct (map ws_openKeyId (rg_stores R))
     \<and> distinct (map ws_openKeyHash (rg_stores R))
     \<and> (\<forall>s\<in>set (rg_stores R). ws_openKeyHash s = nl_sha256 L (ws_openKeyId s) \<and> ws_openKeyId s \<noteq> []
          \<and> webhook_store_code (ws_storeCode s)
          \<and> (\<exists>a\<in>set (rg_apps R). wa_appId a = ws_appId s \<and> wa_appKeyHash a = ws_appKeyHash s))"

lemma find_key_Some: "distinct (map f xs) \<Longrightarrow> find (\<lambda>x. f x = k) xs = Some x \<longleftrightarrow> x \<in> set xs \<and> f x = k"
  by (induction xs) auto

lemma find_key_None: "find (\<lambda>x. f x = k) xs = None \<longleftrightarrow> k \<notin> f ` set xs"
  by (auto simp: find_None_iff)

lemma clean_text_Inr: "clean_text n v = Inr s \<longleftrightarrow>
    s = js_trim v \<and> s \<noteq> [] \<and> length s \<le> n \<and> list_all (\<lambda>c. \<not> control_char c) s"
  by (auto simp: clean_text_def Let_def list_all_iff list_ex_iff)

lemma js_trim_idem [simp]: "js_trim (js_trim s) = js_trim s"
proof -
  let ?d = "dropWhile is_space"
  have head: "?d x = x" if "x = [] \<or> \<not> is_space (hd x)" for x :: string
    using that by (cases x) auto
  let ?t = "rev (?d (rev (?d s)))"
  have "?t = [] \<or> \<not> is_space (hd ?t)"
  proof (cases "?d s")
    case Nil
    have "?t = []" unfolding Nil by simp
    then show ?thesis by (rule disjI1)
  next
    case (Cons c cs)
    then have c: "\<not> is_space c" by (metis hd_dropWhile list.distinct(1) list.sel(1))
    have "?d (rev cs @ [c]) \<noteq> []" using c by simp
    moreover have "last (?d (rev cs @ [c])) = c" using c by (induction "rev cs" arbitrary: cs) (auto simp: dropWhile_append)
    ultimately show ?thesis using Cons c by (simp add: hd_rev)
  qed
  moreover have "?d (rev ?t) = rev ?t"
    by (intro head) (cases "?d (rev (?d s)) = []"; simp add: hd_dropWhile)
  ultimately show ?thesis by (simp add: js_trim_def head)
qed

lemma requiredCredentialText_facts: "requiredCredentialText n v = Inr s \<Longrightarrow> s \<noteq> [] \<and> js_trim s = s \<and> length s \<le> n"
  by (auto simp: requiredCredentialText_def clean_text_Inr split: sum.splits)

lemma add_application_ok:
  assumes "add_application L row R = Inr R'" "registry_ok L R"
  shows "registry_ok L R'"
proof -
  obtain i k where f: "requiredCredentialText 256 (jget row ''appId'') = Inr i"
    "requiredCredentialText 2048 (jget row ''appSecretKey'') = Inr k"
    "app_by_id R i = None" "app_by_hash R (nl_sha256 L i) = None"
    "R' = R\<lparr>rg_apps := rg_apps R @
       [\<lparr>wa_appId = i, wa_appSecretKey = k, wa_appKeyHash = nl_sha256 L i, wa_storeCodes = []\<rparr>]\<rparr>"
    using assms(1) by (auto simp: add_application_def ebind_Inr_iff split: if_splits)
  have "i \<noteq> []" "js_trim k \<noteq> []" using requiredCredentialText_facts f(1,2) by auto
  then show ?thesis using assms(2) f(3-5)
    by (auto simp: registry_ok_def app_by_id_def app_by_hash_def find_key_None)
qed

lemma note_store_simps [simp]:
  "wa_appId (note_store i c a) = wa_appId a" "wa_appKeyHash (note_store i c a) = wa_appKeyHash a"
  "wa_appSecretKey (note_store i c a) = wa_appSecretKey a"
  by (simp_all add: note_store_def)

lemma note_store_comp [simp]:
  "wa_appId \<circ> note_store i c = wa_appId" "wa_appKeyHash \<circ> note_store i c = wa_appKeyHash"
  by (simp_all add: fun_eq_iff)

lemma add_store_ok:
  assumes "add_store L row R = Inr R'" "registry_ok L R"
  shows "registry_ok L R'"
proof (cases "jget row ''enabled'' = JBool False")
  case True
  then show ?thesis using assms by (simp add: add_store_def)
next
  case False
  then obtain c i k a where f: "normalizedStoreCode (jget row ''storeCode'') = Inr c"
    "requiredCredentialText 512 (jget row ''openKeyId'') = Inr k" "app_by_id R i = Some a"
    "store_by_code R c = None" "store_by_open_key R k = None" "store_by_open_hash R (nl_sha256 L k) = None"
    "R' = \<lparr>rg_apps = map (note_store i c) (rg_apps R), rg_stores = rg_stores R @
       [\<lparr>ws_storeCode = c, ws_appId = i, ws_appKeyHash = wa_appKeyHash a, ws_openKeyId = k,
         ws_openKeyHash = nl_sha256 L k\<rparr>]\<rparr>"
    using assms(1) by (auto simp: add_store_def ebind_Inr_iff split: if_splits option.splits)
  have "k \<noteq> []" "webhook_store_code c"
    using requiredCredentialText_facts f(1,2) by (auto simp: normalizedStoreCode_def ebind_Inr_iff split: if_splits)
  moreover have "a \<in> set (rg_apps R)" "wa_appId a = i"
    using f(3) by (auto simp: app_by_id_def find_Some_iff)
  ultimately show ?thesis using assms(2) f(4-7)
    by (auto simp: registry_ok_def store_by_code_def store_by_open_key_def store_by_open_hash_def find_key_None)
qed

lemma add_rows_ok:
  "add_rows f vs R = Inr R' \<Longrightarrow> (\<And>v R R'. f v R = Inr R' \<Longrightarrow> registry_ok L R \<Longrightarrow> registry_ok L R')
     \<Longrightarrow> registry_ok L R \<Longrightarrow> registry_ok L R'"
  by (induction vs arbitrary: R) (auto simp: ebind_Inr_iff)

lemma created_registry_ok:
  assumes "createFullManagedWebhookCredentialRegistry L sc ac = Inr R"
  shows "registry_ok L R"
proof -
  obtain stores apps R1 where "add_rows (add_application L) apps \<lparr>rg_apps = [], rg_stores = []\<rparr> = Inr R1"
    "add_rows (add_store L) stores R1 = Inr R"
    using assms
    by (auto simp: createFullManagedWebhookCredentialRegistry_def ebind_Inr_iff split: option.splits if_splits)
  moreover have "registry_ok L \<lparr>rg_apps = [], rg_stores = []\<rparr>" by (simp add: registry_ok_def)
  ultimately show ?thesis using add_rows_ok add_application_ok add_store_ok by metis
qed

end
