(* ===== verification/Webhook_Repository.thy ===== *)
theory Webhook_Repository
  imports Webhook_Credentials Paginated_Fetch Js_Date
begin

text \<open>
  \<open>src/warehouse/webhook-repository.mjs\<close>: the receipts, jobs, operational events, hydration directives and
  store gates of the webhook runtime, with the constraints that the migration
  \<open>db/migrations/0005_webhook_runtime.sql\<close> puts on them. A row is a record, a table is a list of rows in
  the order of their identities, and the statements of one transaction read one clock. An error rolls the
  transaction back. The checks on the size of a printed \<open>jsonb\<close> value repeat the code's and are left out.
\<close>

section \<open>Tables\<close>

record store_row =
  dim_storeId :: nat
  dim_storeCode :: string
  dim_isActive :: bool

record receipt =
  rc_id :: nat
  rc_idempotencyKey :: string
  rc_appKeyHash :: string
  rc_openKeyHash :: "string option"
  rc_eventCode :: "string option"
  rc_eventPath :: "string option"
  rc_storeId :: "nat option"
  rc_deliveryScope :: string
  rc_platformTimestamp :: int
  rc_cipherSha256 :: string
  rc_ciphertext :: string
  rc_safeProjection :: jsv
  rc_duplicateCount :: nat
  rc_lastDuplicateAt :: "int option"
  rc_receivedAt :: int

datatype job_status = QUEUED | RUNNING | RETRY | SUCCEEDED | QUARANTINED | DEAD_LETTER

record job =
  jb_id :: nat
  jb_receiptId :: nat
  jb_status :: job_status
  jb_attemptCount :: nat
  jb_maxAttempts :: nat
  jb_availableAt :: int
  jb_leaseOwner :: string
  jb_leaseExpiresAt :: "int option"
  jb_lastErrorCode :: string
  jb_lastErrorMessage :: string
  jb_completedAt :: "int option"

record op_event =
  oe_id :: nat
  oe_receiptId :: nat
  oe_storeId :: "nat option"
  oe_eventCode :: "string option"
  oe_eventPath :: "string option"
  oe_eventFamily :: string
  oe_businessType :: string
  oe_businessKey :: "string option"
  oe_occurredAt :: "int option"
  oe_action :: string
  oe_platformStatus :: "string option"
  oe_severity :: string
  oe_deliveryScope :: string
  oe_safeProjection :: jsv

datatype directive_state = DPending | DRunning | DSucceeded | DRetry | DFailed

record directive =
  hd_id :: nat
  hd_eventId :: nat
  hd_storeId :: nat
  hd_type :: string
  hd_capability :: string
  hd_lookup :: jsv
  hd_state :: directive_state
  hd_attemptCount :: nat
  hd_availableAt :: int
  hd_leaseOwner :: string
  hd_leaseExpiresAt :: "int option"
  hd_completedAt :: "int option"
  hd_lastErrorCode :: string

text \<open>The only gate key is \<open>AUTHORIZATION\<close>, so a gate is found by its store.\<close>

record gate =
  gt_storeId :: nat
  gt_blocked :: bool
  gt_reasonCode :: string
  gt_sourceEventId :: nat
  gt_blockedAt :: int
  gt_reopenedAt :: "int option"
  gt_lastProbeId :: "nat option"
  gt_recoveryRequiresProbe :: bool

record probe =
  pb_id :: nat
  pb_storeId :: nat
  pb_capability :: string
  pb_outcome :: string
  pb_probedAt :: int

record webhook_db =
  db_stores :: "store_row list"
  db_receipts :: "receipt list"
  db_jobs :: "job list"
  db_events :: "op_event list"
  db_directives :: "directive list"
  db_gates :: "gate list"
  db_probes :: "probe list"
  db_nextReceipt :: nat
  db_nextJob :: nat
  db_nextEvent :: nat
  db_nextDirective :: nat

text \<open>A transaction commits its last state or nothing.\<close>

type_synonym 'a db_result = "('a \<times> webhook_db) webhook_result"

definition transaction :: "'a db_result \<Rightarrow> webhook_db \<Rightarrow> 'a webhook_result \<times> webhook_db" where
  [js_eval]: "transaction r db = (case r of Inl e \<Rightarrow> (Inl e, db) | Inr (x, db') \<Rightarrow> (Inr x, db'))"

section \<open>Validation\<close>

abbreviation validation_error :: webhook_error where
  "validation_error \<equiv> WebhookError ''WEBHOOK_VALIDATION''"

definition required :: "nat \<Rightarrow> string \<Rightarrow> string webhook_result" where
  [js_eval]: "required maximum v = (case clean_text maximum v of Inl _ \<Rightarrow> Inl validation_error | Inr s \<Rightarrow> Inr s)"

definition optionalRepositoryText :: "nat \<Rightarrow> string \<Rightarrow> string webhook_result" where
  [js_eval]: "optionalRepositoryText maximum v = (if js_trim v = [] then Inr [] else required maximum v)"

definition hash_text :: "string \<Rightarrow> string webhook_result" where
  [js_eval]: "hash_text v =
     ebind (required 64 v) (\<lambda>t. if hex64_pattern (js_lower t) then Inr (js_lower t) else Inl validation_error)"

definition bounded :: "int \<Rightarrow> int \<Rightarrow> int \<Rightarrow> int webhook_result" where
  [js_eval]: "bounded lo hi n = (if n < lo \<or> hi < n then Inl validation_error else Inr n)"

definition sensitive_words :: "string list" where
  [js_eval]: "sensitive_words = [''secret'', ''token'', ''password'', ''authorization'', ''cookie'', ''eventdata'',
     ''ciphertext'', ''openkey'', ''appid'']"

definition SENSITIVE_KEY :: "string \<Rightarrow> bool" where
  [js_eval]: "SENSITIVE_KEY k = found_in (\<lambda>s. list_ex (\<lambda>w. starts_with w s) sensitive_words) (js_lower k)"

definition object_children :: "jsv \<Rightarrow> jsv list" where
  [js_eval]: "object_children v =
     (case v of JArr vs \<Rightarrow> filter is_object vs | JObj ps \<Rightarrow> filter is_object (map snd ps) | _ \<Rightarrow> [])"

definition object_keys :: "jsv \<Rightarrow> string list" where
  [js_eval]: "object_keys v = (case v of JObj ps \<Rightarrow> map fst ps | _ \<Rightarrow> [])"

lemma object_children_size: "sum_list (map (\<lambda>v. Suc (size v)) (object_children v)) \<le> size v"
proof -
  have "sum_list (map (\<lambda>v. Suc (size v)) (filter p vs)) \<le> size_list size vs" for p :: "jsv \<Rightarrow> bool" and vs
    by (induction vs) auto
  moreover have "sum_list (map (\<lambda>v. Suc (size v)) (filter p (map snd ps))) \<le> size_list (size_prod (\<lambda>_. 0) size) ps"
    for p :: "jsv \<Rightarrow> bool" and ps :: "(string \<times> jsv) list"
    by (induction ps) auto
  ultimately show ?thesis by (cases v) (auto simp: object_children_def le_SucI)
qed

text \<open>The queue of objects still to be looked at, with the number of objects seen.\<close>

function safe_walk :: "nat \<Rightarrow> jsv list \<Rightarrow> bool" where
  "safe_walk seen [] = True"
| "safe_walk seen (v # queue) =
     (if 512 < Suc seen then False
      else if list_ex SENSITIVE_KEY (object_keys v) then False
      else safe_walk (Suc seen) (queue @ object_children v))"
  by pat_completeness auto
termination
  by (relation "measure (\<lambda>(seen, queue). sum_list (map (\<lambda>v. Suc (size v)) queue))")
    (use object_children_size in \<open>auto simp: less_Suc_eq_le\<close>)

declare safe_walk.simps [js_eval]

definition safeJson :: "nat \<Rightarrow> jsv \<Rightarrow> jsv webhook_result" where
  [js_eval]: "safeJson maximumBytes v =
     (if \<not> is_record v \<or> \<not> safe_walk 0 [v] then Inl validation_error
      else case json_stringify v of
          None \<Rightarrow> Inl validation_error
        | Some t \<Rightarrow> if maximumBytes < length (utf8 t) then Inl validation_error else Inr v)"

definition null_if_empty :: "string \<Rightarrow> string option" where
  [js_eval]: "null_if_empty t = (if t = [] then None else Some t)"

section \<open>Storing a delivery\<close>

record receipt_input =
  ri_idempotencyKey :: string
  ri_appKeyHash :: string
  ri_openKeyHash :: string
  ri_eventCode :: string
  ri_eventPath :: string
  ri_storeCode :: "string option"
  ri_deliveryScope :: string
  ri_platformTimestamp :: int
  ri_cipherSha256 :: string
  ri_ciphertext :: string
  ri_safeProjection :: jsv
  ri_statementTimeoutMs :: int

text \<open>The input after its validation: every text trimmed, every hash in lower case.\<close>

definition validate_input :: "receipt_input \<Rightarrow> receipt_input webhook_result" where
  [js_eval]: "validate_input i =
     ebind (hash_text (ri_idempotencyKey i)) (\<lambda>key.
     ebind (hash_text (ri_appKeyHash i)) (\<lambda>ah.
     ebind (if ri_openKeyHash i = [] then Inr [] else hash_text (ri_openKeyHash i)) (\<lambda>oh.
     ebind (hash_text (ri_cipherSha256 i)) (\<lambda>cs.
     ebind (optionalRepositoryText 40 (ri_eventCode i)) (\<lambda>ec.
     ebind (optionalRepositoryText 180 (ri_eventPath i)) (\<lambda>ep.
     if ec = [] \<and> ep = [] then Inl validation_error else
     ebind (case ri_storeCode i of None \<Rightarrow> Inr None
            | Some c \<Rightarrow> if c = [] then Inr None else ebind (required 32 c) (\<lambda>c'. Inr (Some c'))) (\<lambda>sc.
     ebind (required 16 (ri_deliveryScope i)) (\<lambda>scope0.
     let scope = js_upper scope0 in
     if scope \<notin> {''STORE'', ''APP_ONLY''} then Inl validation_error
     else if (scope = ''STORE'') \<noteq> (sc \<noteq> None) then Inl validation_error else
     ebind (required 2097152 (ri_ciphertext i)) (\<lambda>ct.
     ebind (safeJson 4096 (ri_safeProjection i)) (\<lambda>pj.
     ebind (bounded 50 4000 (ri_statementTimeoutMs i)) (\<lambda>tm.
     Inr \<lparr>ri_idempotencyKey = key, ri_appKeyHash = ah, ri_openKeyHash = oh, ri_eventCode = ec,
          ri_eventPath = ep, ri_storeCode = sc, ri_deliveryScope = scope,
          ri_platformTimestamp = ri_platformTimestamp i, ri_cipherSha256 = cs, ri_ciphertext = ct,
          ri_safeProjection = pj, ri_statementTimeoutMs = tm\<rparr>)))))))))))"

text \<open>The checks of the table that the code does not make itself.\<close>

definition ck_event_path :: "string option \<Rightarrow> bool" where
  [js_eval]: "ck_event_path p =
     (case p of None \<Rightarrow> True
      | Some s \<Rightarrow> length s \<le> 180 \<and> 2 \<le> length s \<and> hd s = CHR ''/'' \<and> list_all route_char s)"

definition ck_ciphertext :: "string \<Rightarrow> bool" where
  [js_eval]: "ck_ciphertext s \<longleftrightarrow> 4 \<le> length s \<and> length s \<le> 2097152 \<and> base64_pattern s"

abbreviation check_violation :: webhook_error where
  "check_violation \<equiv> WebhookError ''23514''"

definition lookup_store :: "webhook_db \<Rightarrow> string option \<Rightarrow> nat option webhook_result" where
  [js_eval]: "lookup_store db sc =
     (case sc of None \<Rightarrow> Inr None
      | Some c \<Rightarrow> (case filter (\<lambda>s. dim_storeCode s = c \<and> dim_isActive s) (db_stores db) of
            [s] \<Rightarrow> Inr (Some (dim_storeId s))
          | _ \<Rightarrow> Inl (WebhookError ''WEBHOOK_STORE_UNAVAILABLE'')))"

definition receipt_by_key :: "webhook_db \<Rightarrow> string \<Rightarrow> receipt option" where
  [js_eval]: "receipt_by_key db k = find (\<lambda>r. rc_idempotencyKey r = k) (db_receipts db)"

definition same_delivery :: "receipt_input \<Rightarrow> nat option \<Rightarrow> receipt \<Rightarrow> bool" where
  [js_eval]: "same_delivery i storeId r \<longleftrightarrow>
     rc_appKeyHash r = ri_appKeyHash i \<and> rc_openKeyHash r = null_if_empty (ri_openKeyHash i)
     \<and> rc_eventCode r = null_if_empty (ri_eventCode i) \<and> rc_eventPath r = null_if_empty (ri_eventPath i)
     \<and> rc_storeId r = storeId \<and> rc_deliveryScope r = ri_deliveryScope i
     \<and> rc_cipherSha256 r = ri_cipherSha256 i"

definition note_duplicate :: "int \<Rightarrow> nat \<Rightarrow> receipt \<Rightarrow> receipt" where
  [js_eval]: "note_duplicate now k r =
     (if rc_id r = k then r\<lparr>rc_duplicateCount := Suc (rc_duplicateCount r), rc_lastDuplicateAt := Some now\<rparr> else r)"

definition new_receipt :: "webhook_db \<Rightarrow> int \<Rightarrow> receipt_input \<Rightarrow> nat option \<Rightarrow> receipt" where
  [js_eval]: "new_receipt db now i storeId =
     \<lparr>rc_id = db_nextReceipt db, rc_idempotencyKey = ri_idempotencyKey i, rc_appKeyHash = ri_appKeyHash i,
      rc_openKeyHash = null_if_empty (ri_openKeyHash i), rc_eventCode = null_if_empty (ri_eventCode i),
      rc_eventPath = null_if_empty (ri_eventPath i), rc_storeId = storeId, rc_deliveryScope = ri_deliveryScope i,
      rc_platformTimestamp = ri_platformTimestamp i, rc_cipherSha256 = ri_cipherSha256 i,
      rc_ciphertext = ri_ciphertext i, rc_safeProjection = ri_safeProjection i, rc_duplicateCount = 0,
      rc_lastDuplicateAt = None, rc_receivedAt = now\<rparr>"

definition new_job :: "webhook_db \<Rightarrow> int \<Rightarrow> job" where
  [js_eval]: "new_job db now =
     \<lparr>jb_id = db_nextJob db, jb_receiptId = db_nextReceipt db, jb_status = QUEUED, jb_attemptCount = 0,
      jb_maxAttempts = 8, jb_availableAt = now, jb_leaseOwner = [], jb_leaseExpiresAt = None,
      jb_lastErrorCode = [], jb_lastErrorMessage = [], jb_completedAt = None\<rparr>"

record stored =
  sd_receiptId :: nat
  sd_duplicate :: bool

definition insert_receipt_and_job :: "int \<Rightarrow> receipt_input \<Rightarrow> nat option \<Rightarrow> webhook_db \<Rightarrow> stored db_result" where
  [js_eval]: "insert_receipt_and_job now i storeId db =
     (if \<not> ck_event_path (null_if_empty (ri_eventPath i)) \<or> \<not> ck_ciphertext (ri_ciphertext i)
      then Inl check_violation
      else case receipt_by_key db (ri_idempotencyKey i) of
          Some r \<Rightarrow>
            if \<not> same_delivery i storeId r then Inl (WebhookError ''WEBHOOK_IDEMPOTENCY_COLLISION'')
            else Inr (\<lparr>sd_receiptId = rc_id r, sd_duplicate = True\<rparr>,
                      db\<lparr>db_receipts := map (note_duplicate now (rc_id r)) (db_receipts db)\<rparr>)
        | None \<Rightarrow>
            Inr (\<lparr>sd_receiptId = db_nextReceipt db, sd_duplicate = False\<rparr>,
                 db\<lparr>db_receipts := db_receipts db @ [new_receipt db now i storeId],
                    db_jobs := db_jobs db @ [new_job db now],
                    db_nextReceipt := Suc (db_nextReceipt db), db_nextJob := Suc (db_nextJob db)\<rparr>))"

definition storeReceiptAndJob :: "int \<Rightarrow> receipt_input \<Rightarrow> webhook_db \<Rightarrow> stored webhook_result \<times> webhook_db" where
  [js_eval]: "storeReceiptAndJob now input db =
     transaction
       (ebind (validate_input input) (\<lambda>i.
        ebind (lookup_store db (ri_storeCode i)) (\<lambda>storeId.
        insert_receipt_and_job now i storeId db))) db"


section \<open>Claiming a job\<close>

definition lease_expired :: "int \<Rightarrow> job \<Rightarrow> bool" where
  [js_eval]: "lease_expired now j \<longleftrightarrow> (case jb_leaseExpiresAt j of None \<Rightarrow> False | Some t \<Rightarrow> t \<le> now)"

definition exhaust_job :: "int \<Rightarrow> job \<Rightarrow> job" where
  [js_eval]: "exhaust_job now j =
     (if jb_status j = RUNNING \<and> lease_expired now j \<and> jb_maxAttempts j \<le> jb_attemptCount j
      then j\<lparr>jb_status := DEAD_LETTER, jb_leaseOwner := [], jb_leaseExpiresAt := None,
             jb_completedAt := Some now, jb_lastErrorCode := ''WEBHOOK_LEASE_EXHAUSTED'',
             jb_lastErrorMessage := ''Worker lease expired after the final processing attempt.''\<rparr>
      else j)"

definition claimable :: "int \<Rightarrow> job \<Rightarrow> bool" where
  [js_eval]: "claimable now j \<longleftrightarrow>
     jb_attemptCount j < jb_maxAttempts j
     \<and> ((jb_status j = QUEUED \<or> jb_status j = RETRY) \<and> jb_availableAt j \<le> now
        \<or> jb_status j = RUNNING \<and> lease_expired now j)"

text \<open>\<open>ORDER BY available_at, job_id LIMIT 1\<close>\<close>

fun first_job :: "job list \<Rightarrow> job option" where
  "first_job [] = None"
| "first_job (j # js) =
     (case first_job js of None \<Rightarrow> Some j
      | Some k \<Rightarrow> if jb_availableAt k < jb_availableAt j
                   \<or> jb_availableAt k = jb_availableAt j \<and> jb_id k < jb_id j then Some k else Some j)"

declare first_job.simps [js_eval]

definition take_lease :: "int \<Rightarrow> string \<Rightarrow> int \<Rightarrow> nat \<Rightarrow> job \<Rightarrow> job" where
  [js_eval]: "take_lease now owner lease k j =
     (if jb_id j = k
      then j\<lparr>jb_status := RUNNING, jb_leaseOwner := owner, jb_leaseExpiresAt := Some (now + lease),
             jb_attemptCount := Suc (jb_attemptCount j)\<rparr>
      else j)"

record claimed_job =
  cj_jobId :: nat
  cj_attemptCount :: nat
  cj_receipt :: receipt
  cj_storeCode :: "string option"

definition claim_row :: "webhook_db \<Rightarrow> job \<Rightarrow> claimed_job option" where
  [js_eval]: "claim_row db j =
     (case find (\<lambda>r. rc_id r = jb_receiptId j) (db_receipts db) of
        None \<Rightarrow> None
      | Some r \<Rightarrow> Some \<lparr>cj_jobId = jb_id j, cj_attemptCount = jb_attemptCount j, cj_receipt = r,
          cj_storeCode = (case rc_storeId r of None \<Rightarrow> None
             | Some k \<Rightarrow> map_option dim_storeCode (find (\<lambda>s. dim_storeId s = k) (db_stores db)))\<rparr>)"

text \<open>
  Every part of the statement reads the jobs as they were before it. \<open>locked\<close> names the jobs that
  another transaction holds: \<open>SKIP LOCKED\<close> passes over them.
\<close>

definition claim_candidate :: "int \<Rightarrow> nat list \<Rightarrow> webhook_db \<Rightarrow> job option" where
  [js_eval]: "claim_candidate now locked db =
     first_job (filter (\<lambda>j. claimable now j \<and> jb_id j \<notin> set locked) (db_jobs db))"

definition claimed_state :: "int \<Rightarrow> string \<Rightarrow> int \<Rightarrow> nat list \<Rightarrow> webhook_db \<Rightarrow> webhook_db" where
  [js_eval]: "claimed_state now owner lease locked db =
     db\<lparr>db_jobs := map (\<lambda>j. case claim_candidate now locked db of
           None \<Rightarrow> exhaust_job now j
         | Some c \<Rightarrow> take_lease now owner lease (jb_id c) (exhaust_job now j)) (db_jobs db)\<rparr>"

definition claimNextJob ::
    "int \<Rightarrow> nat list \<Rightarrow> string \<Rightarrow> int \<Rightarrow> webhook_db \<Rightarrow> claimed_job option webhook_result \<times> webhook_db" where
  [js_eval]: "claimNextJob now locked workerId leaseMs db =
     transaction
       (ebind (required 200 workerId) (\<lambda>owner.
        ebind (bounded 5000 900000 leaseMs) (\<lambda>lease.
        Inr (case claim_candidate now locked db of
               None \<Rightarrow> None
             | Some c \<Rightarrow> claim_row db (take_lease now owner lease (jb_id c) c),
             claimed_state now owner lease locked db)))) db"

definition renew_lease :: "int \<Rightarrow> string \<Rightarrow> int \<Rightarrow> nat \<Rightarrow> job \<Rightarrow> job" where
  [js_eval]: "renew_lease now owner lease k j =
     (if jb_id j = k \<and> jb_status j = RUNNING \<and> jb_leaseOwner j = owner
      then j\<lparr>jb_leaseExpiresAt := Some (now + lease)\<rparr> else j)"

definition owned_by :: "nat \<Rightarrow> string \<Rightarrow> job \<Rightarrow> bool" where
  [js_eval]: "owned_by k owner j \<longleftrightarrow> jb_id j = k \<and> jb_status j = RUNNING \<and> jb_leaseOwner j = owner"

definition renewJobLease :: "int \<Rightarrow> nat \<Rightarrow> string \<Rightarrow> int \<Rightarrow> webhook_db \<Rightarrow> unit webhook_result \<times> webhook_db" where
  [js_eval]: "renewJobLease now jobId workerId leaseMs db =
     transaction
       (ebind (bounded 1 max_safe (int jobId)) (\<lambda>_.
        ebind (required 200 workerId) (\<lambda>owner.
        ebind (bounded 5000 900000 leaseMs) (\<lambda>lease.
        if list_ex (owned_by jobId owner) (db_jobs db)
        then Inr ((), db\<lparr>db_jobs := map (renew_lease now owner lease jobId) (db_jobs db)\<rparr>)
        else Inl (WebhookError ''WEBHOOK_LEASE_LOST'')))))  db"

section \<open>Completing a job\<close>

text \<open>The normalized event; the display label is left out.\<close>

record normalized_event =
  nm_eventCode :: "string option"
  nm_eventPath :: "string option"
  nm_eventFamily :: string
  nm_businessType :: string
  nm_businessKey :: "string option"
  nm_storeCode :: "string option"
  nm_deliveryScope :: string
  nm_appScopedOnly :: bool
  nm_occurredAt :: "int option"
  nm_receivedAt :: int
  nm_action :: string
  nm_status :: "string option"
  nm_identifiers :: "(string \<times> string) list"
  nm_availableQuota :: "jsnum option"
  nm_severity :: string
  nm_eventCount :: "nat option"

definition json_option :: "string option \<Rightarrow> jsv" where
  [js_eval]: "json_option v = (case v of None \<Rightarrow> JNull | Some s \<Rightarrow> JStr s)"

definition normalized_json :: "normalized_event \<Rightarrow> jsv" where
  [js_eval]: "normalized_json n = JObj
     ([(''schemaVersion'', JNum (NInt 1)), (''eventCode'', json_option (nm_eventCode n)),
       (''eventPath'', json_option (nm_eventPath n)), (''eventFamily'', JStr (nm_eventFamily n)),
       (''businessType'', JStr (nm_businessType n)), (''businessKey'', json_option (nm_businessKey n)),
       (''storeCode'', json_option (nm_storeCode n)), (''deliveryScope'', JStr (nm_deliveryScope n)),
       (''appScopedOnly'', JBool (nm_appScopedOnly n)),
       (''occurredAt'', json_option (map_option to_iso_string (nm_occurredAt n))),
       (''receivedAt'', JStr (to_iso_string (nm_receivedAt n))), (''action'', JStr (nm_action n)),
       (''status'', json_option (nm_status n)),
       (''identifiers'', JObj (map (\<lambda>(k, v). (k, JStr v)) (nm_identifiers n))),
       (''metrics'', JObj (case nm_availableQuota n of None \<Rightarrow> [] | Some q \<Rightarrow> [(''availableQuota'', JNum q)])),
       (''severity'', JStr (nm_severity n))]
      @ (case nm_eventCount n of None \<Rightarrow> [] | Some k \<Rightarrow> [(''eventCount'', JNum (NInt (int k)))]))"

record hydration_directive =
  dv_directiveType :: string
  dv_capabilityCode :: string
  dv_lookup :: "(string \<times> jsv) list"

definition directive_json :: "hydration_directive \<Rightarrow> jsv" where
  [js_eval]: "directive_json d = JObj
     [(''directiveType'', JStr (dv_directiveType d)), (''capabilityCode'', JStr (dv_capabilityCode d)),
      (''lookup'', JObj (dv_lookup d))]"

definition option_text :: "string option \<Rightarrow> string" where
  [js_eval]: "option_text v = (case v of None \<Rightarrow> [] | Some s \<Rightarrow> s)"

text \<open>The event row of a receipt, and the checks that its table makes.\<close>

definition event_of_normalized :: "webhook_db \<Rightarrow> receipt \<Rightarrow> normalized_event \<Rightarrow> op_event webhook_result" where
  [js_eval]: "event_of_normalized db r n =
     ebind (optionalRepositoryText 40 (option_text (nm_eventCode n))) (\<lambda>ec.
     ebind (optionalRepositoryText 180 (option_text (nm_eventPath n))) (\<lambda>ep.
     ebind (required 80 (nm_eventFamily n)) (\<lambda>fam.
     ebind (required 80 (nm_businessType n)) (\<lambda>bt.
     ebind (optionalRepositoryText 240 (option_text (nm_businessKey n))) (\<lambda>bk.
     ebind (required 80 (nm_action n)) (\<lambda>ac.
     ebind (optionalRepositoryText 80 (option_text (nm_status n))) (\<lambda>st.
     ebind (required 8 (nm_severity n)) (\<lambda>sv.
     if sv \<notin> {''P0'', ''P1'', ''P2'', ''P3''} then Inl check_violation
     else Inr \<lparr>oe_id = db_nextEvent db, oe_receiptId = rc_id r, oe_storeId = rc_storeId r,
        oe_eventCode = null_if_empty ec, oe_eventPath = null_if_empty ep, oe_eventFamily = fam,
        oe_businessType = bt, oe_businessKey = null_if_empty bk, oe_occurredAt = nm_occurredAt n,
        oe_action = ac, oe_platformStatus = null_if_empty st, oe_severity = sv,
        oe_deliveryScope = rc_deliveryScope r, oe_safeProjection = normalized_json n\<rparr>))))))))"

definition upsert_event :: "op_event \<Rightarrow> webhook_db \<Rightarrow> nat \<times> webhook_db" where
  [js_eval]: "upsert_event e db =
     (case find (\<lambda>o'. oe_receiptId o' = oe_receiptId e) (db_events db) of
        Some o' \<Rightarrow> (oe_id o', db\<lparr>db_events := map (\<lambda>x. if oe_receiptId x = oe_receiptId e
            then x\<lparr>oe_safeProjection := oe_safeProjection e\<rparr> else x) (db_events db)\<rparr>)
      | None \<Rightarrow> (oe_id e, db\<lparr>db_events := db_events db @ [e], db_nextEvent := Suc (db_nextEvent db)\<rparr>))"

definition insert_directive ::
    "int \<Rightarrow> nat \<Rightarrow> nat option \<Rightarrow> hydration_directive option \<Rightarrow> webhook_db \<Rightarrow> webhook_db webhook_result" where
  [js_eval]: "insert_directive now eventId storeId d db =
     (case d of None \<Rightarrow> Inr db
      | Some v \<Rightarrow>
          ebind (required 100 (dv_directiveType v)) (\<lambda>ty.
          ebind (required 100 (dv_capabilityCode v)) (\<lambda>cp.
          ebind (safeJson 4096 (JObj (dv_lookup v))) (\<lambda>lk.
          case storeId of None \<Rightarrow> Inl (WebhookError ''23502'')
          | Some s \<Rightarrow>
              if list_ex (\<lambda>x. hd_eventId x = eventId) (db_directives db) then Inl (WebhookError ''23505'')
              else Inr (db\<lparr>db_directives := db_directives db @
                  [\<lparr>hd_id = db_nextDirective db, hd_eventId = eventId, hd_storeId = s, hd_type = ty,
                    hd_capability = cp, hd_lookup = lk, hd_state = DPending, hd_attemptCount = 0,
                    hd_availableAt = now, hd_leaseOwner = [], hd_leaseExpiresAt = None,
                    hd_completedAt = None, hd_lastErrorCode = []\<rparr>],
                  db_nextDirective := Suc (db_nextDirective db)\<rparr>)))))"

definition blocked_gate :: "int \<Rightarrow> nat \<Rightarrow> nat \<Rightarrow> gate" where
  [js_eval]: "blocked_gate now storeId eventId =
     \<lparr>gt_storeId = storeId, gt_blocked = True, gt_reasonCode = ''AUTHORIZATION_CHANGE_EVENT'',
      gt_sourceEventId = eventId, gt_blockedAt = now, gt_reopenedAt = None, gt_lastProbeId = None,
      gt_recoveryRequiresProbe = True\<rparr>"

definition close_gate :: "int \<Rightarrow> nat \<Rightarrow> nat \<Rightarrow> webhook_db \<Rightarrow> webhook_db" where
  [js_eval]: "close_gate now storeId eventId db =
     db\<lparr>db_gates := (if list_ex (\<lambda>g. gt_storeId g = storeId) (db_gates db)
        then map (\<lambda>g. if gt_storeId g = storeId then blocked_gate now storeId eventId else g) (db_gates db)
        else db_gates db @ [blocked_gate now storeId eventId])\<rparr>"

definition finish_job :: "int \<Rightarrow> nat \<Rightarrow> string \<Rightarrow> job_status \<Rightarrow> job \<Rightarrow> job" where
  [js_eval]: "finish_job now k owner final j =
     (if owned_by k owner j
      then j\<lparr>jb_status := final, jb_leaseOwner := [], jb_leaseExpiresAt := None, jb_completedAt := Some now,
             jb_lastErrorCode := [], jb_lastErrorMessage := []\<rparr>
      else j)"

record job_completion =
  cp_eventId :: nat
  cp_status :: job_status
  cp_gateClosed :: bool
  cp_hydrationQueued :: bool

definition leased_receipt :: "int \<Rightarrow> nat \<Rightarrow> string \<Rightarrow> webhook_db \<Rightarrow> receipt option" where
  [js_eval]: "leased_receipt now k owner db =
     (case find (\<lambda>j. owned_by k owner j \<and> \<not> lease_expired now j \<and> jb_leaseExpiresAt j \<noteq> None) (db_jobs db) of
        None \<Rightarrow> None
      | Some j \<Rightarrow> find (\<lambda>r. rc_id r = jb_receiptId j) (db_receipts db))"

definition complete_under_lease ::
    "int \<Rightarrow> nat \<Rightarrow> string \<Rightarrow> receipt \<Rightarrow> normalized_event \<Rightarrow> hydration_directive option \<Rightarrow> bool \<Rightarrow> bool
     \<Rightarrow> webhook_db \<Rightarrow> job_completion db_result" where
  [js_eval]: "complete_under_lease now k owner r n d closeGate quarantined db =
     (if closeGate \<and> rc_storeId r = None then Inl (WebhookError ''WEBHOOK_GATE_SCOPE_INVALID'')
      else ebind (event_of_normalized db r n) (\<lambda>e.
        let (eventId, db1) = upsert_event e db in
        ebind (insert_directive now eventId (rc_storeId r) d db1) (\<lambda>db2.
        let db3 = (case rc_storeId r of Some s \<Rightarrow> if closeGate then close_gate now s eventId db2 else db2
                   | None \<Rightarrow> db2);
            final = (if quarantined then QUARANTINED else SUCCEEDED)
        in if list_ex (owned_by k owner) (db_jobs db3)
           then Inr (\<lparr>cp_eventId = eventId, cp_status = final, cp_gateClosed = closeGate,
                      cp_hydrationQueued = (d \<noteq> None)\<rparr>,
                     db3\<lparr>db_jobs := map (finish_job now k owner final) (db_jobs db3)\<rparr>)
           else Inl (WebhookError ''WEBHOOK_LEASE_LOST''))))"

definition completeJob ::
    "int \<Rightarrow> nat \<Rightarrow> string \<Rightarrow> normalized_event \<Rightarrow> hydration_directive option \<Rightarrow> bool \<Rightarrow> bool \<Rightarrow> webhook_db
     \<Rightarrow> job_completion webhook_result \<times> webhook_db" where
  [js_eval]: "completeJob now jobId workerId n d closeGate quarantined db =
     transaction
       (ebind (bounded 1 max_safe (int jobId)) (\<lambda>_.
        ebind (required 200 workerId) (\<lambda>owner.
        ebind (safeJson 32768 (normalized_json n)) (\<lambda>_.
        ebind (case d of None \<Rightarrow> Inr JNull | Some v \<Rightarrow> safeJson 8192 (directive_json v)) (\<lambda>_.
        case leased_receipt now jobId owner db of
          None \<Rightarrow> Inl (WebhookError ''WEBHOOK_LEASE_LOST'')
        | Some r \<Rightarrow> complete_under_lease now jobId owner r n d closeGate quarantined db))))) db"

section \<open>Failing a job\<close>

definition release_job :: "int \<Rightarrow> nat \<Rightarrow> string \<Rightarrow> int \<Rightarrow> string \<Rightarrow> string \<Rightarrow> job \<Rightarrow> job" where
  [js_eval]: "release_job now k owner delay errorCode errorMessage j =
     (if owned_by k owner j
      then let dead = (jb_maxAttempts j \<le> jb_attemptCount j)
           in j\<lparr>jb_status := (if dead then DEAD_LETTER else RETRY),
                jb_availableAt := (if dead then jb_availableAt j else now + delay),
                jb_leaseOwner := [], jb_leaseExpiresAt := None,
                jb_completedAt := (if dead then Some now else None),
                jb_lastErrorCode := errorCode, jb_lastErrorMessage := errorMessage\<rparr>
      else j)"

definition failJob ::
    "int \<Rightarrow> nat \<Rightarrow> string \<Rightarrow> string \<Rightarrow> string \<Rightarrow> int \<Rightarrow> webhook_db \<Rightarrow> job_status webhook_result \<times> webhook_db" where
  [js_eval]: "failJob now jobId workerId errorCode errorMessage retryDelayMs db =
     transaction
       (ebind (bounded 1000 3600000 retryDelayMs) (\<lambda>delay.
        ebind (bounded 1 max_safe (int jobId)) (\<lambda>_.
        ebind (required 200 workerId) (\<lambda>owner.
        ebind (required 80 errorCode) (\<lambda>ec.
        ebind (required 300 errorMessage) (\<lambda>em.
        case find (owned_by jobId owner) (db_jobs db) of
          None \<Rightarrow> Inl (WebhookError ''WEBHOOK_LEASE_LOST'')
        | Some j \<Rightarrow> Inr (jb_status (release_job now jobId owner delay ec em j),
            db\<lparr>db_jobs := map (release_job now jobId owner delay ec em) (db_jobs db)\<rparr>))))))) db"

section \<open>Reopening a gate\<close>

text \<open>
  \<open>ops.reopen_webhook_authorization_gate_after_probe\<close> of the migration, which
  \<open>reopenAuthorizationGateFromProbe\<close> calls: \<open>Inr False\<close> when no gate is blocked.
\<close>

definition granting_probe :: "nat \<Rightarrow> nat \<Rightarrow> int \<Rightarrow> probe \<Rightarrow> bool" where
  [js_eval]: "granting_probe probeId storeId blockedAt p \<longleftrightarrow>
     pb_id p = probeId \<and> pb_storeId p = storeId \<and> pb_outcome p = ''GRANTED''
     \<and> pb_capability p = ''FULL_MANAGED_SKU_SALES'' \<and> blockedAt < pb_probedAt p"

definition reopen_gate :: "probe \<Rightarrow> nat \<Rightarrow> gate \<Rightarrow> gate" where
  [js_eval]: "reopen_gate p storeId g =
     (if gt_storeId g = storeId \<and> gt_blocked g
      then g\<lparr>gt_blocked := False, gt_reasonCode := ''READ_ONLY_PROBE_CONFIRMED'', gt_lastProbeId := Some (pb_id p),
             gt_reopenedAt := Some (pb_probedAt p), gt_recoveryRequiresProbe := False\<rparr>
      else g)"

definition reopenAuthorizationGateFromProbe ::
    "string \<Rightarrow> nat \<Rightarrow> webhook_db \<Rightarrow> bool webhook_result \<times> webhook_db" where
  [js_eval]: "reopenAuthorizationGateFromProbe storeCode probeId db =
     transaction
       (ebind (required 32 storeCode) (\<lambda>sc.
        ebind (bounded 1 max_safe (int probeId)) (\<lambda>_.
        case find (\<lambda>s. dim_storeCode s = js_upper sc \<and> dim_isActive s) (db_stores db) of
          None \<Rightarrow> Inl (WebhookError ''P0001'')
        | Some s \<Rightarrow> (case find (\<lambda>g. gt_storeId g = dim_storeId s \<and> gt_blocked g) (db_gates db) of
              None \<Rightarrow> Inr (False, db)
            | Some g \<Rightarrow> (case find (granting_probe probeId (dim_storeId s) (gt_blockedAt g)) (db_probes db) of
                  None \<Rightarrow> Inl (WebhookError ''P0001'')
                | Some p \<Rightarrow> Inr (True, db\<lparr>db_gates := map (reopen_gate p (dim_storeId s)) (db_gates db)\<rparr>)))))) db"

section \<open>Requeueing dead letters\<close>

text \<open>\<open>scripts/requeue_full_managed_webhook_dead_letters.mjs\<close>, with its count and its update\<close>

definition REPLAYABLE_EVENT_CODES :: "string list" where
  [js_eval]: "REPLAYABLE_EVENT_CODES = [''3001435'', ''3001441'']"

definition REPLAYABLE_ERROR_CODES :: "string list" where
  [js_eval]: "REPLAYABLE_ERROR_CODES = [''WEBHOOK_PAYLOAD_INVALID'', ''WEBHOOK_PROCESSING_FAILED'']"

definition replayable :: "webhook_db \<Rightarrow> job \<Rightarrow> bool" where
  [js_eval]: "replayable db j \<longleftrightarrow>
     (jb_status j = DEAD_LETTER \<or> jb_status j = RETRY) \<and> jb_lastErrorCode j \<in> set REPLAYABLE_ERROR_CODES
     \<and> list_ex (\<lambda>r. rc_id r = jb_receiptId j \<and> (case rc_eventCode r of None \<Rightarrow> False
          | Some c \<Rightarrow> c \<in> set REPLAYABLE_EVENT_CODES)) (db_receipts db)
     \<and> \<not> list_ex (\<lambda>e. oe_receiptId e = jb_receiptId j) (db_events db)"

definition requeue_job :: "int \<Rightarrow> job \<Rightarrow> job" where
  [js_eval]: "requeue_job now j =
     j\<lparr>jb_status := RETRY, jb_attemptCount := 0, jb_availableAt := now, jb_leaseOwner := [],
       jb_leaseExpiresAt := None, jb_lastErrorCode := [], jb_lastErrorMessage := [], jb_completedAt := None\<rparr>"

text \<open>The counts of candidates and of requeued jobs.\<close>

definition requeueWebhookDeadLetters :: "int \<Rightarrow> bool \<Rightarrow> webhook_db \<Rightarrow> (nat \<times> nat) \<times> webhook_db" where
  [js_eval]: "requeueWebhookDeadLetters now execute db =
     (let n = length (filter (replayable db) (db_jobs db)) in
      if \<not> execute \<or> n = 0 then ((n, 0), db)
      else ((n, n), db\<lparr>db_jobs := map (\<lambda>j. if replayable db j then requeue_job now j else j) (db_jobs db)\<rparr>))"

end
