(* ===== verification/Webhook_Receiver.thy ===== *)
theory Webhook_Receiver
  imports Webhook_Repository Js_Number
begin

text \<open>
  \<open>src/webhook/receiver.mjs\<close>: a delivery from its headers and body to its receipt, and the HTTP handler
  around it. The readings of the clock, the stream of the body and what happens to the transaction under
  the ingress deadline are arguments. The log keeps the code of an error and its category; the code of a
  cause is left out, and so are the listening socket and its timeouts.
\<close>

section \<open>Limits\<close>

definition boundedInteger :: "jsv \<Rightarrow> int \<Rightarrow> int \<Rightarrow> int \<Rightarrow> int webhook_result" where
  [js_eval]: "boundedInteger v fallback minimum maximum =
     (case js_number v of
        Inl _ \<Rightarrow> Inl (WebhookError [])
      | Inr (NInt n) \<Rightarrow> Inr (if \<bar>n\<bar> \<le> max_safe \<and> minimum \<le> n \<and> n \<le> maximum then n else fallback)
      | Inr _ \<Rightarrow> Inr fallback)"

definition WEBHOOK_RETRY_DEDUP_WINDOW_MS :: int where
  [js_eval]: "WEBHOOK_RETRY_DEDUP_WINDOW_MS = 600000"

record receiver_limits =
  rl_callbackPath :: string
  rl_budget :: int
  rl_databaseTimeout :: int
  rl_bodyLimit :: int
  rl_skewLimit :: int

definition receiver_limits_of :: "string \<Rightarrow> jsv \<Rightarrow> jsv \<Rightarrow> jsv \<Rightarrow> jsv \<Rightarrow> receiver_limits webhook_result" where
  [js_eval]: "receiver_limits_of path maxBodyBytes maxSkewMs ingressBudgetMs statementTimeoutMs =
     ebind (boundedInteger ingressBudgetMs 8000 250 8000) (\<lambda>budget.
     ebind (boundedInteger statementTimeoutMs 4000 50 4000) (\<lambda>databaseTimeout.
     ebind (boundedInteger maxBodyBytes WEBHOOK_MAX_BODY_BYTES 1 WEBHOOK_MAX_BODY_BYTES) (\<lambda>bodyLimit.
     ebind (boundedInteger maxSkewMs WEBHOOK_MAX_SKEW_MS 0 WEBHOOK_MAX_SKEW_MS) (\<lambda>skewLimit.
     Inr \<lparr>rl_callbackPath = path, rl_budget = budget, rl_databaseTimeout = databaseTimeout,
          rl_bodyLimit = bodyLimit, rl_skewLimit = skewLimit\<rparr>))))"

section \<open>Errors and answers\<close>

definition publicErrorStatus :: "webhook_error \<Rightarrow> nat" where
  [js_eval]: "publicErrorStatus e =
     (if we_code e = ''WEBHOOK_BODY_TOO_LARGE'' then 413
      else if we_code e \<in> {''WEBHOOK_IDENTITY_UNKNOWN'', ''WEBHOOK_IDENTITY_MISMATCH'', ''WEBHOOK_SIGNATURE_REJECTED''}
      then 401
      else if we_code e \<in> {''WEBHOOK_INGRESS_DEADLINE'', ''WEBHOOK_STORAGE_UNAVAILABLE''} then 503
      else 400)"

definition log_code :: "string \<Rightarrow> bool" where
  [js_eval]: "log_code s = matches_span (\<lambda>c. is_upper c \<or> is_digit c \<or> c = CHR ''_'') 1 80 s"

definition safeLogError :: "webhook_error \<Rightarrow> string \<times> string" where
  [js_eval]: "safeLogError e =
     (let c = js_upper (if we_code e = [] then ''WEBHOOK_INVALID'' else we_code e)
      in (if log_code c then c else ''WEBHOOK_INVALID'',
          if 500 \<le> publicErrorStatus e then ''availability'' else ''rejected''))"

record response =
  rs_status :: nat
  rs_body :: jsv

definition responseBody :: "nat \<Rightarrow> (string \<times> jsv) list \<Rightarrow> jsv" where
  [js_eval]: "responseBody status extra =
     (if status = 200 then JObj ((''ok'', JBool True) # extra)
      else JObj [(''ok'', JBool False), (''error'', JStr
        (if status = 401 then ''Webhook authentication failed''
         else if status = 413 then ''Webhook body is too large''
         else if status = 503 then ''Webhook receiver temporarily unavailable''
         else ''Invalid webhook request''))])"

section \<open>Taking a delivery in\<close>

record counters =
  ct_accepted :: nat
  ct_duplicates :: nat
  ct_appScopedOnly :: nat
  ct_quarantined :: nat
  ct_rejected :: nat

definition no_counts :: counters where
  [js_eval]: "no_counts = \<lparr>ct_accepted = 0, ct_duplicates = 0, ct_appScopedOnly = 0, ct_quarantined = 0, ct_rejected = 0\<rparr>"

text \<open>
  The transaction answers in time, or the deadline passes first, and then it may have committed or not, or
  the database fails and rolls it back.
\<close>

datatype storage = InTime | Late bool | Unavailable

record acknowledgement =
  ak_duplicate :: bool
  ak_appScopedOnly :: bool
  ak_quarantined :: bool

record posted_delivery =
  dl_headers :: "(string \<times> header_value) list"
  dl_contentType :: "string option"
  dl_rawBody :: "byte list"
  dl_startedAt :: int

text \<open>\<open>now()\<close> for the signature, and \<open>Date.now()\<close> before the store call and inside the transaction.\<close>

record readings =
  rd_now :: int
  rd_beforeStore :: int
  rd_transaction :: int

record verified_delivery =
  vd_identity :: identity
  vd_ciphertext :: string
  vd_event :: webhook_event
  vd_platformTimestamp :: int

definition verify_delivery ::
    "node_lib \<Rightarrow> registry \<Rightarrow> receiver_limits \<Rightarrow> int \<Rightarrow> posted_delivery \<Rightarrow> verified_delivery webhook_result" where
  [js_eval]: "verify_delivery L R lim nowMs d =
     (let headers = normalizeWebhookHeaders (dl_headers d) in
      ebind (assertSingletonSecurityHeaders headers) (\<lambda>_.
      ebind (resolveIngress L R headers) (\<lambda>identity.
      ebind (extractEncryptedEventData L
          (case dl_contentType d of Some c \<Rightarrow> c | None \<Rightarrow> header_text headers ''content-type'')
          (dl_rawBody d) (rl_bodyLimit lim)) (\<lambda>ciphertext.
      ebind (strictBase64 ciphertext) (\<lambda>_.
      let v = verifyFullManagedWebhookSignature L (header_text headers ''x-lt-appid'')
            (header_text headers ''x-lt-openkeyid'') (header_text headers ''x-lt-timestamp'')
            (header_text headers ''x-lt-signature'') (id_appSecretKey identity) (rl_callbackPath lim)
            nowMs (rl_skewLimit lim)
      in case (vf_ok v, vf_platformTimestampMs v) of
          (True, Some ts) \<Rightarrow> Inr \<lparr>vd_identity = identity, vd_ciphertext = ciphertext,
            vd_event = resolveFullManagedWebhookEvent (header_text headers ''x-lt-eventcode''),
            vd_platformTimestamp = ts\<rparr>
        | _ \<Rightarrow> Inl (WebhookError ''WEBHOOK_SIGNATURE_REJECTED''))))))"

definition safe_projection :: "verified_delivery \<Rightarrow> jsv" where
  [js_eval]: "safe_projection v =
     JObj [(''schemaVersion'', JNum (NInt 1)), (''knownEvent'', JBool (we_family (vd_event v) \<noteq> ''unknown'')),
           (''eventFamily'', JStr (we_family (vd_event v))),
           (''deliveryScope'', JStr (id_deliveryScope (vd_identity v))),
           (''appScopedOnly'', JBool (id_appScopedOnly (vd_identity v)))]"

definition delivery_window :: "int \<Rightarrow> string" where
  [js_eval]: "delivery_window ts = show_int (ts div WEBHOOK_RETRY_DEDUP_WINDOW_MS)"

definition delivery_key :: "node_lib \<Rightarrow> verified_delivery \<Rightarrow> string webhook_result" where
  [js_eval]: "delivery_key L v =
     computeWebhookIdempotencyKey L (id_appKeyHash (vd_identity v)) (id_openKeyHash (vd_identity v))
       (we_eventCode (vd_event v)) (we_eventPath (vd_event v)) (delivery_window (vd_platformTimestamp v))
       (nl_sha256 L (vd_ciphertext v))"

definition receipt_of_delivery :: "node_lib \<Rightarrow> verified_delivery \<Rightarrow> string \<Rightarrow> int \<Rightarrow> receipt_input" where
  [js_eval]: "receipt_of_delivery L v key timeoutMs =
     \<lparr>ri_idempotencyKey = key, ri_appKeyHash = id_appKeyHash (vd_identity v),
      ri_openKeyHash = id_openKeyHash (vd_identity v), ri_eventCode = we_eventCode (vd_event v),
      ri_eventPath = we_eventPath (vd_event v), ri_storeCode = id_storeCode (vd_identity v),
      ri_deliveryScope = id_deliveryScope (vd_identity v), ri_platformTimestamp = vd_platformTimestamp v,
      ri_cipherSha256 = nl_sha256 L (vd_ciphertext v), ri_ciphertext = vd_ciphertext v,
      ri_safeProjection = safe_projection v, ri_statementTimeoutMs = timeoutMs\<rparr>"

text \<open>\<open>new Date(ts).toISOString()\<close> throws beyond the range of dates.\<close>

definition last_instant :: int where
  [js_eval]: "last_instant = 8640000000000000"

definition store_delivery ::
    "int \<Rightarrow> storage \<Rightarrow> receipt_input \<Rightarrow> webhook_db \<Rightarrow> stored webhook_result \<times> webhook_db" where
  [js_eval]: "store_delivery now s i db =
     (case s of
        InTime \<Rightarrow> (case storeReceiptAndJob now i db of
            (Inl _, db') \<Rightarrow> (Inl (WebhookError ''WEBHOOK_STORAGE_UNAVAILABLE''), db')
          | (Inr x, db') \<Rightarrow> (Inr x, db'))
      | Late committed \<Rightarrow> (Inl (WebhookError ''WEBHOOK_INGRESS_DEADLINE''),
          if committed then snd (storeReceiptAndJob now i db) else db)
      | Unavailable \<Rightarrow> (Inl (WebhookError ''WEBHOOK_STORAGE_UNAVAILABLE''), db))"

definition count_accepted :: "verified_delivery \<Rightarrow> stored \<Rightarrow> counters \<Rightarrow> counters" where
  [js_eval]: "count_accepted v s ct =
     ct\<lparr>ct_accepted := Suc (ct_accepted ct),
        ct_duplicates := ct_duplicates ct + (if sd_duplicate s then 1 else 0),
        ct_appScopedOnly := ct_appScopedOnly ct + (if id_appScopedOnly (vd_identity v) then 1 else 0),
        ct_quarantined := ct_quarantined ct + (if we_family (vd_event v) = ''unknown'' then 1 else 0)\<rparr>"

definition ingest_verified ::
    "node_lib \<Rightarrow> receiver_limits \<Rightarrow> readings \<Rightarrow> storage \<Rightarrow> int \<Rightarrow> verified_delivery \<Rightarrow> counters \<Rightarrow> webhook_db
     \<Rightarrow> acknowledgement webhook_result \<times> counters \<times> webhook_db" where
  [js_eval]: "ingest_verified L lim rd s startedAt v ct db =
     (if last_instant < vd_platformTimestamp v then (Inl (WebhookError []), ct, db)
      else case delivery_key L v of
        Inl e \<Rightarrow> (Inl e, ct, db)
      | Inr key \<Rightarrow>
          let remaining = startedAt + rl_budget lim - rd_beforeStore rd - 50 in
          if remaining < 50 then (Inl (WebhookError ''WEBHOOK_INGRESS_DEADLINE''), ct, db)
          else (case store_delivery (rd_transaction rd) s
              (receipt_of_delivery L v key (min (rl_databaseTimeout lim) remaining)) db of
              (Inl e, db') \<Rightarrow> (Inl e, ct, db')
            | (Inr st, db') \<Rightarrow>
                (Inr \<lparr>ak_duplicate = sd_duplicate st, ak_appScopedOnly = id_appScopedOnly (vd_identity v),
                      ak_quarantined = (we_family (vd_event v) = ''unknown'')\<rparr>,
                 count_accepted v st ct, db')))"

definition ingest ::
    "node_lib \<Rightarrow> registry \<Rightarrow> receiver_limits \<Rightarrow> readings \<Rightarrow> storage \<Rightarrow> posted_delivery \<Rightarrow> counters \<Rightarrow> webhook_db
     \<Rightarrow> acknowledgement webhook_result \<times> counters \<times> webhook_db" where
  [js_eval]: "ingest L R lim rd s d ct db =
     (case verify_delivery L R lim (rd_now rd) d of
        Inl e \<Rightarrow> (Inl e, ct, db)
      | Inr v \<Rightarrow> ingest_verified L lim rd s (dl_startedAt d) v ct db)"

section \<open>The handler\<close>

record request =
  rq_method :: string
  rq_pathname :: string
  rq_search :: string
  rq_headers :: "(string \<times> header_value) list"
  rq_contentType :: "string option"
  rq_body :: "stream_event list"
  rq_bodyInTime :: bool
  rq_startedAt :: int

definition answer_json :: "nat \<Rightarrow> (string \<times> jsv) list \<Rightarrow> response" where
  [js_eval]: "answer_json status fs = \<lparr>rs_status = status, rs_body = JObj fs\<rparr>"

text \<open>
  \<open>healthy\<close> is the answer of \<open>repository.health\<close>, \<open>False\<close> when it fails. A body that is not complete by
  the deadline is given up.
\<close>

definition read_in_time :: "receiver_limits \<Rightarrow> request \<Rightarrow> byte list webhook_result" where
  [js_eval]: "read_in_time lim rq =
     (case readWebhookBody (rq_body rq) (rl_bodyLimit lim) of
        None \<Rightarrow> Inl (WebhookError ''WEBHOOK_INGRESS_DEADLINE'')
      | Some r \<Rightarrow> if rq_bodyInTime rq then r else Inl (WebhookError ''WEBHOOK_INGRESS_DEADLINE''))"

definition post_callback ::
    "node_lib \<Rightarrow> registry \<Rightarrow> receiver_limits \<Rightarrow> readings \<Rightarrow> storage \<Rightarrow> request \<Rightarrow> counters \<Rightarrow> webhook_db
     \<Rightarrow> response \<times> counters \<times> webhook_db" where
  [js_eval]: "post_callback L R lim rd s rq ct db =
     (let (result, ct', db') =
        (case read_in_time lim rq of
           Inl e \<Rightarrow> (Inl e, ct, db)
         | Inr body \<Rightarrow> ingest L R lim rd s
             \<lparr>dl_headers = rq_headers rq, dl_contentType = rq_contentType rq, dl_rawBody = body,
              dl_startedAt = rq_startedAt rq\<rparr> ct db)
      in case result of
           Inr a \<Rightarrow> (\<lparr>rs_status = 200, rs_body = responseBody 200
               [(''duplicate'', JBool (ak_duplicate a)), (''quarantined'', JBool (ak_quarantined a))]\<rparr>, ct', db')
         | Inl e \<Rightarrow> (\<lparr>rs_status = publicErrorStatus e, rs_body = responseBody (publicErrorStatus e) []\<rparr>,
             ct'\<lparr>ct_rejected := Suc (ct_rejected ct')\<rparr>, db'))"

datatype receiver_route = HealthRoute | ProbeRoute | DeliveryRoute | NoRoute

definition receiver_route_of :: "receiver_limits \<Rightarrow> request \<Rightarrow> receiver_route" where
  [js_eval]: "receiver_route_of lim rq =
     (if rq_pathname rq = ''/healthz'' \<and> rq_search rq = [] then HealthRoute
      else if rq_method rq = ''GET'' \<and> rq_pathname rq = rl_callbackPath lim \<and> rq_search rq = [] then ProbeRoute
      else if rq_method rq \<noteq> ''POST'' \<or> rq_pathname rq \<noteq> rl_callbackPath lim \<or> rq_search rq \<noteq> [] then NoRoute
      else DeliveryRoute)"

definition counters_json :: "counters \<Rightarrow> jsv" where
  [js_eval]: "counters_json ct = JObj
     [(''accepted'', JNum (NInt (int (ct_accepted ct)))), (''duplicates'', JNum (NInt (int (ct_duplicates ct)))),
      (''appScopedOnly'', JNum (NInt (int (ct_appScopedOnly ct)))),
      (''quarantined'', JNum (NInt (int (ct_quarantined ct)))), (''rejected'', JNum (NInt (int (ct_rejected ct))))]"

definition handle_request ::
    "node_lib \<Rightarrow> registry \<Rightarrow> receiver_limits \<Rightarrow> readings \<Rightarrow> storage \<Rightarrow> bool \<Rightarrow> request \<Rightarrow> counters \<Rightarrow> webhook_db
     \<Rightarrow> response \<times> counters \<times> webhook_db" where
  [js_eval]: "handle_request L R lim rd s healthy rq ct db =
     (case receiver_route_of lim rq of
        HealthRoute \<Rightarrow>
          (if rq_method rq \<noteq> ''GET''
           then answer_json 405 [(''ok'', JBool False), (''error'', JStr ''Method not allowed'')]
           else answer_json (if healthy then 200 else 503)
             [(''ok'', JBool healthy), (''service'', JStr ''shein-fm-webhook-receiver''), (''counters'', counters_json ct)],
           ct, db)
      | ProbeRoute \<Rightarrow>
          (answer_json 200 [(''ok'', JBool True), (''service'', JStr ''shein-fm-webhook-receiver''), (''callback'', JBool True)],
           ct, db)
      | NoRoute \<Rightarrow> (answer_json 404 [(''ok'', JBool False), (''error'', JStr ''Not found'')], ct, db)
      | DeliveryRoute \<Rightarrow> post_callback L R lim rd s rq ct db)"

section \<open>Facts\<close>

lemma verify_delivery_Inr:
  assumes "verify_delivery L R lim nowMs d = Inr v"
  shows "let headers = normalizeWebhookHeaders (dl_headers d) in
     assertSingletonSecurityHeaders headers = Inr ()
     \<and> resolveIngress L R headers = Inr (vd_identity v)
     \<and> (\<exists>bs. strictBase64 (vd_ciphertext v) = Inr bs)
     \<and> vf_ok (verifyFullManagedWebhookSignature L (header_text headers ''x-lt-appid'')
            (header_text headers ''x-lt-openkeyid'') (header_text headers ''x-lt-timestamp'')
            (header_text headers ''x-lt-signature'') (id_appSecretKey (vd_identity v)) (rl_callbackPath lim)
            nowMs (rl_skewLimit lim))
     \<and> vd_event v = resolveFullManagedWebhookEvent (header_text headers ''x-lt-eventcode'')"
  using assms unfolding verify_delivery_def Let_def
  by (auto simp: ebind_Inr_iff split: option.splits if_splits bool.splits)

end
