(* ===== verification/Webhook_Normalizer.thy ===== *)
theory Webhook_Normalizer
  imports Webhook_Repository Js_Number "HOL-Library.Monad_Syntax"
begin

text \<open>
  \<open>src/webhook/normalizer.mjs\<close>: from a decrypted payload to the whitelisted event, the hydration directive and
  the decision to close the gate of the store. \<open>JSON.parse\<close> on embedded texts comes from the record of the
  runtime and \<open>Date.parse\<close> is a parameter; because embedded texts are parsed again and again, unpacking is
  a partial function whose value \<open>None\<close> would be divergence. Letters and digits beyond ASCII are those of
  the code units below 256. The display label is left out.
\<close>

definition MAX_EMBEDDED_JSON_BYTES :: nat where
  [js_eval]: "MAX_EMBEDDED_JSON_BYTES = 262144"

definition MAX_VISITED_OBJECTS :: nat where
  [js_eval]: "MAX_VISITED_OBJECTS = 256"

definition MAX_DEPTH :: nat where
  [js_eval]: "MAX_DEPTH = 5"

abbreviation payload_invalid :: webhook_error where
  "payload_invalid \<equiv> WebhookError ''WEBHOOK_PAYLOAD_INVALID''"

abbreviation payload_limit :: webhook_error where
  "payload_limit \<equiv> WebhookError ''WEBHOOK_PAYLOAD_LIMIT''"

section \<open>Sanitizers\<close>

definition value_text :: "jsv \<Rightarrow> string webhook_result" where
  [js_eval]: "value_text v =
     (case js_string_or_empty v of Inl _ \<Rightarrow> Inl (WebhookError []) | Inr s \<Rightarrow> Inr (js_trim s))"

text \<open>\<open>\p{L}\<close> and \<open>\p{N}\<close> among the code units below 256\<close>

definition unicode_letter :: "char \<Rightarrow> bool" where
  [js_eval]: "unicode_letter c \<longleftrightarrow> is_upper c \<or> is_lower c \<or> code c \<in> {170, 181, 186}
     \<or> 192 \<le> code c \<and> code c \<noteq> 215 \<and> code c \<noteq> 247"

definition unicode_number :: "char \<Rightarrow> bool" where
  [js_eval]: "unicode_number c \<longleftrightarrow> is_digit c \<or> code c \<in> {178, 179, 185, 188, 189, 190}"

definition identifier_char :: "char \<Rightarrow> bool" where
  [js_eval]: "identifier_char c \<longleftrightarrow> unicode_letter c \<or> unicode_number c \<or> c \<in> set ''._:/@+-# ''"

definition token_char :: "char \<Rightarrow> bool" where
  [js_eval]: "token_char c \<longleftrightarrow> unicode_letter c \<or> unicode_number c \<or> c \<in> set ''._:/+- ''"

definition sanitized_text :: "(char \<Rightarrow> bool) \<Rightarrow> nat \<Rightarrow> jsv \<Rightarrow> string webhook_result" where
  [js_eval]: "sanitized_text ok maximum v =
     ebind (value_text v) (\<lambda>t.
       let result = take maximum t
       in Inr (if result = [] \<or> list_ex control_char result then [] else if list_all ok result then result else []))"

definition safeIdentifier :: "jsv \<Rightarrow> string webhook_result" where
  [js_eval]: "safeIdentifier v = sanitized_text identifier_char 160 v"

definition safeToken :: "jsv \<Rightarrow> string webhook_result" where
  [js_eval]: "safeToken v = sanitized_text token_char 80 v"

section \<open>Unpacking embedded JSON\<close>

definition parse_embedded :: "node_lib \<Rightarrow> jsv \<Rightarrow> jsv webhook_result" where
  [js_eval]: "parse_embedded L v =
     (case v of
        JStr s \<Rightarrow>
          if MAX_EMBEDDED_JSON_BYTES < length (utf8 s) then Inl payload_limit
          else (case nl_json L s of None \<Rightarrow> Inl payload_invalid | Some w \<Rightarrow> Inr w)
      | _ \<Rightarrow> Inr v)"

definition put_field :: "string \<Rightarrow> jsv \<Rightarrow> jsv \<Rightarrow> jsv" where
  [js_eval]: "put_field k v w = (case w of JObj ps \<Rightarrow> JObj (assoc_put k v ps) | _ \<Rightarrow> w)"

partial_function (option) unpack :: "node_lib \<Rightarrow> nat \<Rightarrow> jsv \<Rightarrow> jsv webhook_result option" where
  "unpack L depth v =
     (case parse_embedded L v of
        Inl e \<Rightarrow> Some (Inl e)
      | Inr current \<Rightarrow>
          (case as_array current of
             Some vs \<Rightarrow> (if length vs \<noteq> 1 then Some (Inl payload_invalid) else unpack L (Suc depth) (hd vs))
           | None \<Rightarrow>
               if \<not> is_record current then Some (Inl payload_invalid)
               else if as_string (jget current ''data'') \<noteq> None \<and> depth < MAX_DEPTH
               then Option.bind (unpack L (Suc depth) (jget current ''data''))
                 (\<lambda>r. Some (ebind r (\<lambda>d. Inr (put_field ''data'' d current))))
               else Some (Inr current)))"

text \<open>A sequence of unpackings stops at the first error.\<close>

fun unpack_all :: "node_lib \<Rightarrow> nat \<Rightarrow> jsv list \<Rightarrow> jsv list webhook_result option" where
  "unpack_all L depth [] = Some (Inr [])"
| "unpack_all L depth (v # vs) =
     Option.bind (unpack L depth v) (\<lambda>r.
       case r of Inl e \<Rightarrow> Some (Inl e)
       | Inr w \<Rightarrow> Option.bind (unpack_all L depth vs) (\<lambda>rs. Some (ebind rs (\<lambda>ws. Inr (w # ws)))))"

definition payloadItems :: "node_lib \<Rightarrow> jsv \<Rightarrow> jsv list webhook_result option" where
  [js_eval]: "payloadItems L v =
     (case parse_embedded L v of
        Inl e \<Rightarrow> Some (Inl e)
      | Inr current \<Rightarrow>
          (case as_array current of
             None \<Rightarrow> unpack_all L 0 [current]
           | Some vs \<Rightarrow>
               if vs = [] then Some (Inl payload_invalid)
               else if 64 < length vs then Some (Inl payload_limit)
               else unpack_all L 1 vs))"

section \<open>The objects of an item\<close>

text \<open>The values of an object in order, with the first 64 elements of every array among them.\<close>

definition object_values :: "jsv \<Rightarrow> jsv list" where
  [js_eval]: "object_values v =
     (case v of
        JObj ps \<Rightarrow> concat (map (\<lambda>p. case snd p of
            JArr vs \<Rightarrow> filter is_record (take 64 vs)
          | w \<Rightarrow> if is_record w then [w] else []) ps)
      | _ \<Rightarrow> [])"

abbreviation queue_size :: "(jsv \<times> nat) list \<Rightarrow> nat" where
  "queue_size q \<equiv> sum_list (map (\<lambda>x. Suc (size (fst x))) q)"

lemma filter_size: "sum_list (map (\<lambda>v. Suc (size v)) (filter p (take n vs))) \<le> size_list size vs"
proof (induction vs arbitrary: n)
  case (Cons v vs)
  then show ?case by (cases n) (auto simp: le_SucI trans_le_add2)
qed simp

lemma object_values_size: "sum_list (map (\<lambda>v. Suc (size v)) (object_values v)) \<le> size v"
proof (cases v)
  case (JObj ps)
  have "sum_list (map (\<lambda>v. Suc (size v)) (concat (map (\<lambda>p. case snd p of
            JArr vs \<Rightarrow> filter is_record (take 64 vs) | w \<Rightarrow> if is_record w then [w] else []) ps)))
      \<le> size_list (size_prod (\<lambda>_. 0) size) ps"
  proof (induction ps)
    case (Cons p ps)
    have "sum_list (map (\<lambda>v. Suc (size v)) (case snd p of
            JArr vs \<Rightarrow> filter is_record (take 64 vs) | w \<Rightarrow> if is_record w then [w] else [])) \<le> Suc (size (snd p))"
      using filter_size[of is_record 64] by (cases "snd p") (auto intro: le_SucI)
    then show ?case using Cons.IH by (cases p) auto
  qed simp
  then show ?thesis by (simp add: object_values_def JObj)
qed (simp_all add: object_values_def)

function walk_nodes :: "jsv list \<Rightarrow> (jsv \<times> nat) list \<Rightarrow> jsv list webhook_result" where
  "walk_nodes result [] = Inr result"
| "walk_nodes result ((v, depth) # queue) =
     (if \<not> is_record v then walk_nodes result queue
      else if MAX_VISITED_OBJECTS < Suc (length result) then Inl payload_limit
      else walk_nodes (result @ [v])
        (queue @ (if MAX_DEPTH \<le> depth then [] else map (\<lambda>w. (w, Suc depth)) (object_values v))))"
  by pat_completeness auto
termination
proof (relation "measure (\<lambda>(result, queue). queue_size queue)")
  fix result v depth queue
  show "((result @ [v], queue @ (if MAX_DEPTH \<le> depth then [] else map (\<lambda>w. (w, Suc depth)) (object_values v))),
      result, (v, depth) # queue) \<in> measure (\<lambda>(result, queue). queue_size queue)"
    using object_values_size[of v] by (simp add: o_def)
qed simp_all

definition nodes :: "node_lib \<Rightarrow> jsv \<Rightarrow> jsv list webhook_result option" where
  [js_eval]: "nodes L payload = Option.bind (unpack L 0 payload) (\<lambda>r. Some (ebind r (\<lambda>v. walk_nodes [] [(v, 0)])))"

fun nodes_all :: "node_lib \<Rightarrow> jsv list \<Rightarrow> jsv list list webhook_result option" where
  "nodes_all L [] = Some (Inr [])"
| "nodes_all L (v # vs) =
     Option.bind (nodes L v) (\<lambda>r.
       case r of Inl e \<Rightarrow> Some (Inl e)
       | Inr ns \<Rightarrow> Option.bind (nodes_all L vs) (\<lambda>rs. Some (ebind rs (\<lambda>nss. Inr (ns # nss)))))"

declare walk_nodes.simps [js_eval] unpack_all.simps [js_eval] nodes_all.simps [js_eval]

section \<open>Fields\<close>

fun first_name :: "(jsv \<Rightarrow> string webhook_result) \<Rightarrow> jsv \<Rightarrow> string list \<Rightarrow> string webhook_result" where
  "first_name f source [] = Inr []"
| "first_name f source (n # ns) =
     (if \<not> has_own source n then first_name f source ns
      else ebind (f (jget source n)) (\<lambda>r. if r \<noteq> [] then Inr r else first_name f source ns))"

fun firstField :: "(jsv \<Rightarrow> string webhook_result) \<Rightarrow> jsv list \<Rightarrow> string list \<Rightarrow> string webhook_result" where
  "firstField f [] names = Inr []"
| "firstField f (s # ss) names =
     ebind (first_name f s names) (\<lambda>r. if r \<noteq> [] then Inr r else firstField f ss names)"

declare first_name.simps [js_eval] firstField.simps [js_eval]

text \<open>\<open>/^-?\d+(?:\.\d+)?$/\<close>\<close>

definition decimal_pattern :: "string \<Rightarrow> bool" where
  [js_eval]: "decimal_pattern s =
     (let t = (if s \<noteq> [] \<and> hd s = CHR ''-'' then tl s else s)
      in takeWhile is_digit t \<noteq> []
         \<and> (case dropWhile is_digit t of [] \<Rightarrow> True | c # cs \<Rightarrow> c = CHR ''.'' \<and> cs \<noteq> [] \<and> list_all is_digit cs))"

definition numericField :: "jsv list \<Rightarrow> string list \<Rightarrow> jsnum option webhook_result" where
  [js_eval]: "numericField sources names =
     ebind (firstField (\<lambda>v. ebind (value_text v) (\<lambda>t. Inr (take 40 t))) sources names) (\<lambda>raw.
       Inr (if decimal_pattern raw \<and> num_finite (number_of_text raw) then Some (number_of_text raw) else None))"

section \<open>Instants\<close>

text \<open>The double nearest to a whole number of at most sixteen digits.\<close>

definition nearest_double :: "nat \<Rightarrow> nat" where
  [js_eval]: "nearest_double n =
     (if int n \<le> max_safe \<or> even n then n else if even (n div 2) then n - 1 else n + 1)"

definition numeric_instant :: "string \<Rightarrow> int" where
  [js_eval]: "numeric_instant raw =
     (let n = nearest_double (read_nat raw)
      in int (if length raw \<le> 10 then n * 1000
              else if length raw \<le> 13 then n
              else n div 10 ^ (length raw - 13)))"

definition is_colon :: "char \<Rightarrow> bool" where
  [js_eval]: "is_colon c \<longleftrightarrow> c = CHR '':''"

definition date_gap :: "char \<Rightarrow> bool" where
  [js_eval]: "date_gap c \<longleftrightarrow> c = CHR '' '' \<or> c = CHR ''T''"

text \<open>\<open>/^\d{4}-\d{2}-\d{2}[ T]\d{2}:\d{2}(?::\d{2})?$/\<close>\<close>

definition local_time_pattern :: "string \<Rightarrow> bool" where
  [js_eval]: "local_time_pattern s =
     (let minutes = [is_digit, is_digit, is_digit, is_digit, is_dash, is_digit, is_digit, is_dash, is_digit, is_digit,
                     date_gap, is_digit, is_digit, is_colon, is_digit, is_digit]
      in matches_seq minutes s \<or> matches_seq (minutes @ [is_colon, is_digit, is_digit]) s)"

fun replace_first :: "char \<Rightarrow> char \<Rightarrow> string \<Rightarrow> string" where
  "replace_first a b [] = []"
| "replace_first a b (c # cs) = (if c = a then b # cs else c # replace_first a b cs)"

declare replace_first.simps [js_eval]

text \<open>A time without a zone is the time of Shanghai.\<close>

definition normalizedInstant :: "(string \<Rightarrow> int option) \<Rightarrow> string \<Rightarrow> int option" where
  [js_eval]: "normalizedInstant parseDate v =
     (let raw = js_trim v in
      if raw = [] then None
      else if matches_span is_digit 10 16 raw then Some (numeric_instant raw)
      else parseDate (if local_time_pattern raw then replace_first CHR '' '' CHR ''T'' raw @ ''+08:00'' else raw))"

section \<open>Identity and key\<close>

record product_identity =
  pi_spu :: string
  pi_skc :: string
  pi_sku :: string
  pi_document :: string

definition productIdentity :: "jsv list \<Rightarrow> product_identity webhook_result" where
  [js_eval]: "productIdentity sources =
     ebind (firstField safeIdentifier sources
       [''spuName'', ''spu_name'', ''spuCode'', ''spu_code'', ''spuId'', ''spu_id'']) (\<lambda>spu.
     ebind (firstField safeIdentifier sources
       [''skcName'', ''skc_name'', ''skcCode'', ''skc_code'', ''skcId'', ''skc_id'']) (\<lambda>skc.
     ebind (firstField safeIdentifier sources
       [''skuCode'', ''sku_code'', ''skuName'', ''sku_name'', ''skuId'', ''sku_id'', ''sku'']) (\<lambda>sku.
     ebind (firstField safeIdentifier sources
       [''documentSn'', ''document_sn'', ''documentNo'', ''document_no'', ''documentId'', ''document_id'']) (\<lambda>doc.
     Inr \<lparr>pi_spu = spu, pi_skc = skc, pi_sku = sku, pi_document = doc\<rparr>))))"

text \<open>\<open>a || b\<close> on texts\<close>

definition text_or :: "string \<Rightarrow> string \<Rightarrow> string" where
  [js_eval]: "text_or a b = (if a \<noteq> [] then a else b)"

definition firstIdentity :: "product_identity \<Rightarrow> string" where
  [js_eval]: "firstIdentity i = text_or (pi_document i) (text_or (pi_skc i) (text_or (pi_spu i) (pi_sku i)))"

definition key_names :: "string \<Rightarrow> string list option" where
  [js_eval]: "key_names family =
     (if family = ''purchase_order'' then Some [''purchaseOrderNo'', ''purchase_order_no'', ''purchaseOrderSn'',
        ''purchase_order_sn'', ''poNo'', ''po_no'', ''orderNo'', ''order_no'']
      else if family = ''delivery'' then Some [''deliveryNo'', ''delivery_no'', ''deliveryOrderNo'',
        ''delivery_order_no'', ''deliveryCode'', ''delivery_code'']
      else if family = ''logistics_forecast'' then Some [''forecastNo'', ''forecast_no'', ''logisticsNo'',
        ''logistics_no'', ''deliveryNo'', ''delivery_no'']
      else if family = ''purchase_return_application'' then Some [''returnApplicationNo'', ''return_application_no'',
        ''returnApplyNo'', ''return_apply_no'', ''applicationNo'', ''application_no'']
      else if family = ''purchase_return'' then Some [''purchaseReturnNo'', ''purchase_return_no'', ''returnOrderNo'',
        ''return_order_no'', ''returnNo'', ''return_no'']
      else if family = ''shortage'' then Some [''shortageDemandNo'', ''shortage_demand_no'', ''demandNo'', ''demand_no'']
      else None)"

definition baseBusinessKey :: "webhook_event \<Rightarrow> jsv list \<Rightarrow> product_identity \<Rightarrow> string webhook_result" where
  [js_eval]: "baseBusinessKey event sources identifiers =
     (case key_names (we_family event) of
        Some names \<Rightarrow> ebind (firstField safeIdentifier sources names) (\<lambda>k.
          Inr (if we_family event = ''shortage'' then text_or k (firstIdentity identifiers) else k))
      | None \<Rightarrow> Inr (if we_family event = ''authorization_change'' then [] else firstIdentity identifiers))"

section \<open>Severity\<close>

text \<open>\<open>/(?:fail|reject|denied|invalid|delete|remove|^3$|^5$)/i\<close>\<close>

definition failing_status :: "string \<Rightarrow> bool" where
  [js_eval]: "failing_status s \<longleftrightarrow>
     found_in (\<lambda>t. list_ex (\<lambda>w. starts_with w t) [''fail'', ''reject'', ''denied'', ''invalid'', ''delete'', ''remove''])
       (js_lower s) \<or> s = ''3'' \<or> s = ''5''"

definition num_le_zero :: "jsnum \<Rightarrow> bool" where
  [js_eval]: "num_le_zero q \<longleftrightarrow> (case q of NInt n \<Rightarrow> n \<le> 0 | NFrac m k \<Rightarrow> m \<le> 0 | NNaN \<Rightarrow> False | NInf neg \<Rightarrow> neg)"

definition severityFor :: "webhook_event \<Rightarrow> string \<Rightarrow> jsnum option \<Rightarrow> string" where
  [js_eval]: "severityFor event status quota =
     (if we_family event = ''authorization_change'' then ''P0''
      else if we_family event = ''product_quota'' \<and> (case quota of None \<Rightarrow> False | Some q \<Rightarrow> num_le_zero q) then ''P0''
      else if we_family event \<in> {''shortage'', ''product_compliance'', ''purchase_return_application'', ''purchase_return''}
      then ''P1''
      else if we_family event \<in> {''product_audit'', ''product_audit_all_channels'', ''product_delete_audit'', ''rrp_review''}
              \<and> failing_status status then ''P1''
      else if we_family event \<in> {''purchase_order'', ''delivery'', ''logistics_forecast''} then ''P2''
      else ''P3'')"

section \<open>The normalized event\<close>

definition identifier_fields :: "product_identity \<Rightarrow> (string \<times> string) list" where
  [js_eval]: "identifier_fields i = filter (\<lambda>p. snd p \<noteq> [])
     [(''spu'', pi_spu i), (''skc'', pi_skc i), (''sku'', pi_sku i), (''document'', pi_document i)]"

definition lookupFor :: "webhook_event \<Rightarrow> string \<Rightarrow> product_identity \<Rightarrow> (string \<times> jsv) list" where
  [js_eval]: "lookupFor event businessKey identifiers =
     (if we_businessType event = ''STORE'' then []
      else (if businessKey \<noteq> [] then [(''businessKey'', JStr businessKey)] else [])
        @ map (\<lambda>(k, v). (k, JStr v)) (identifier_fields identifiers))"

record normalized_delivery =
  nd_normalized :: normalized_event
  nd_hydrationDirective :: "hydration_directive option"
  nd_closeAuthorizationGate :: bool

record event_fields =
  ef_identifiers :: product_identity
  ef_status :: string
  ef_action :: string
  ef_eventTime :: string
  ef_quota :: "jsnum option"

definition read_fields :: "webhook_event \<Rightarrow> jsv list \<Rightarrow> event_fields webhook_result" where
  [js_eval]: "read_fields event sources =
     ebind (productIdentity sources) (\<lambda>identifiers.
     ebind (firstField safeToken sources
       [''status'', ''state'', ''auditState'', ''audit_state'', ''auditStatus'', ''audit_status'',
        ''resultStatus'', ''result_status'', ''type'', ''authType'', ''auth_type'']) (\<lambda>status.
     ebind (firstField safeToken sources
       [''action'', ''operationType'', ''operation_type'', ''operateType'', ''operate_type'',
        ''changeType'', ''change_type'']) (\<lambda>action.
     ebind (firstField (\<lambda>v. ebind (value_text v) (\<lambda>t. Inr (take 80 t))) sources
       [''eventTime'', ''event_time'', ''changeTime'', ''change_time'', ''updateTime'',
        ''update_time'', ''auditTime'', ''audit_time'', ''sendTimeStamp'', ''time'']) (\<lambda>eventTime.
     ebind (if we_family event = ''product_quota'' then numericField sources
        [''availableLimit'', ''available_limit'', ''availableQuota'', ''available_quota'',
         ''remainingQuota'', ''remaining_quota'', ''quota''] else Inr None) (\<lambda>quota.
     Inr \<lparr>ef_identifiers = identifiers, ef_status = status, ef_action = text_or action (we_family event),
          ef_eventTime = eventTime, ef_quota = quota\<rparr>)))))"

definition item_key :: "webhook_event \<Rightarrow> jsv list \<Rightarrow> string webhook_result" where
  [js_eval]: "item_key event sources = ebind (productIdentity sources) (baseBusinessKey event sources)"

definition business_keys :: "webhook_event \<Rightarrow> jsv list list \<Rightarrow> string list webhook_result" where
  [js_eval]: "business_keys event itemNodes =
     ebind (emap (item_key event) itemNodes) (\<lambda>ks. Inr (dedupe (filter (\<lambda>k. k \<noteq> []) ks)))"

definition business_key :: "webhook_event \<Rightarrow> bool \<Rightarrow> jsv list \<Rightarrow> product_identity \<Rightarrow> string list \<Rightarrow> string webhook_result" where
  [js_eval]: "business_key event appScopedOnly sources identifiers keys =
     (case keys of k # _ \<Rightarrow> Inr k
      | [] \<Rightarrow> if appScopedOnly then Inr [] else baseBusinessKey event sources identifiers)"

definition normalized_of ::
    "(string \<Rightarrow> int option) \<Rightarrow> webhook_event \<Rightarrow> string option \<Rightarrow> string \<Rightarrow> int \<Rightarrow> nat \<Rightarrow> event_fields \<Rightarrow> string
     \<Rightarrow> normalized_event" where
  [js_eval]: "normalized_of parseDate event storeCode deliveryScope receivedAt itemCount f key =
     (let appOnly = (deliveryScope = ''APP_ONLY'') in
      \<lparr>nm_eventCode = Some (we_eventCode event), nm_eventPath = Some (we_eventPath event),
       nm_eventFamily = we_family event, nm_businessType = we_businessType event,
       nm_businessKey = null_if_empty key, nm_storeCode = storeCode, nm_deliveryScope = deliveryScope,
       nm_appScopedOnly = appOnly, nm_occurredAt = normalizedInstant parseDate (ef_eventTime f),
       nm_receivedAt = receivedAt, nm_action = ef_action f, nm_status = null_if_empty (ef_status f),
       nm_identifiers = (if appOnly then [] else identifier_fields (ef_identifiers f)),
       nm_availableQuota = (if appOnly then None else ef_quota f),
       nm_severity = (if appOnly then ''P3'' else severityFor event (ef_status f) (ef_quota f)),
       nm_eventCount = Some itemCount\<rparr>)"

definition directive_of :: "webhook_event \<Rightarrow> bool \<Rightarrow> product_identity \<Rightarrow> string \<Rightarrow> string list \<Rightarrow> hydration_directive option" where
  [js_eval]: "directive_of event appOnly identifiers key keys =
     (if appOnly then None
      else case we_hydrationType event of
          None \<Rightarrow> None
        | Some t \<Rightarrow> Some \<lparr>dv_directiveType = t, dv_capabilityCode = t,
            dv_lookup = lookupFor event key identifiers
              @ (if 1 < length keys then [(''businessKeys'', JArr (map JStr keys))] else [])\<rparr>)"

definition normalize_nodes ::
    "(string \<Rightarrow> int option) \<Rightarrow> webhook_event \<Rightarrow> string option \<Rightarrow> string \<Rightarrow> int \<Rightarrow> jsv list list
     \<Rightarrow> normalized_delivery webhook_result" where
  [js_eval]: "normalize_nodes parseDate event storeCode deliveryScope receivedAt itemNodes =
     (let sources = concat itemNodes; appOnly = (deliveryScope = ''APP_ONLY'') in
      ebind (read_fields event sources) (\<lambda>f.
      ebind (if appOnly then Inr [] else business_keys event itemNodes) (\<lambda>keys.
      ebind (business_key event appOnly sources (ef_identifiers f) keys) (\<lambda>key.
      Inr \<lparr>nd_normalized = normalized_of parseDate event storeCode deliveryScope receivedAt (length itemNodes) f key,
           nd_hydrationDirective = directive_of event appOnly (ef_identifiers f) key keys,
           nd_closeAuthorizationGate = (\<not> appOnly \<and> we_family event = ''authorization_change'')\<rparr>))))"

definition normalizeFullManagedWebhookEvent ::
    "node_lib \<Rightarrow> (string \<Rightarrow> int option) \<Rightarrow> webhook_event \<Rightarrow> jsv \<Rightarrow> string option \<Rightarrow> string \<Rightarrow> int
     \<Rightarrow> normalized_delivery webhook_result option" where
  [js_eval]: "normalizeFullManagedWebhookEvent L parseDate event payload storeCode deliveryScope receivedAt =
     (if we_family event = ''unknown'' then Some (Inl (WebhookError []))
      else Option.bind (payloadItems L payload) (\<lambda>r. case r of
          Inl e \<Rightarrow> Some (Inl e)
        | Inr items \<Rightarrow> Option.bind (nodes_all L items) (\<lambda>ns.
            Some (ebind ns (normalize_nodes parseDate event storeCode deliveryScope receivedAt)))))"

definition createUnknownWebhookAuditEvent :: "webhook_event \<Rightarrow> string option \<Rightarrow> string \<Rightarrow> int \<Rightarrow> normalized_event" where
  [js_eval]: "createUnknownWebhookAuditEvent event storeCode deliveryScope receivedAt =
     \<lparr>nm_eventCode = null_if_empty (we_eventCode event), nm_eventPath = null_if_empty (we_eventPath event),
      nm_eventFamily = ''unknown'', nm_businessType = ''UNKNOWN'', nm_businessKey = None, nm_storeCode = storeCode,
      nm_deliveryScope = deliveryScope, nm_appScopedOnly = (deliveryScope = ''APP_ONLY''), nm_occurredAt = None,
      nm_receivedAt = receivedAt, nm_action = ''quarantined'', nm_status = None, nm_identifiers = [],
      nm_availableQuota = None, nm_severity = ''P3'', nm_eventCount = None\<rparr>"

section \<open>Unpacking ends\<close>

text \<open>
  The weight of a value counts its nodes and the characters of its texts. A JSON text is at least as long
  as the weight of the value it denotes, so parsing an embedded text loses weight.
\<close>

fun weight :: "jsv \<Rightarrow> nat" where
  "weight (JStr s) = Suc (length s)"
| "weight (JArr vs) = Suc (sum_list (map weight vs))"
| "weight (JObj ps) = Suc (sum_list (map (\<lambda>p. weight (snd p)) ps))"
| "weight v = 1"

definition compact_json :: "node_lib \<Rightarrow> bool" where
  "compact_json L \<longleftrightarrow> (\<forall>t v. nl_json L t = Some v \<longrightarrow> weight v \<le> length t)"

lemma parse_embedded_weight:
  assumes "compact_json L" "parse_embedded L v = Inr w"
  shows "weight w \<le> weight v"
proof (cases v)
  case (JStr s)
  then have "nl_json L s = Some w" using assms(2) by (auto simp: parse_embedded_def split: if_splits option.splits)
  then show ?thesis using assms(1) JStr by (auto simp: compact_json_def intro: le_SucI)
qed (use assms(2) in \<open>simp_all add: parse_embedded_def\<close>)

lemma jget_weight: "is_record w \<Longrightarrow> has_own w k \<Longrightarrow> weight (jget w k) < weight w"
proof -
  assume "is_record w" "has_own w k"
  then obtain ps v where ps: "w = JObj ps" "map_of ps k = Some v" by (cases w) auto
  then have "(k, v) \<in> set ps" by (simp add: map_of_SomeD)
  then have "weight v \<le> sum_list (map (\<lambda>p. weight (snd p)) ps)"
    by (intro member_le_sum_list) (force, simp)
  then show ?thesis using ps by simp
qed

lemma as_string_jget: "as_string (jget w k) \<noteq> None \<Longrightarrow> has_own w k"
  by (cases w) (auto split: option.splits)

lemma unpack_ends: "compact_json L \<Longrightarrow> \<exists>r. unpack L depth v = Some r"
proof (induction "weight v" arbitrary: depth v rule: less_induct)
  case less
  show ?case
  proof (cases "parse_embedded L v")
    case (Inl e)
    then show ?thesis by (subst unpack.simps) simp
  next
    case (Inr w)
    have le: "weight w \<le> weight v" using parse_embedded_weight[OF less.prems Inr] .
    show ?thesis
    proof (cases "as_array w")
      case (Some vs)
      then have w: "w = JArr vs" by simp
      show ?thesis
      proof (cases "length vs = 1")
        case True
        then obtain x where x: "vs = [x]" by (auto simp: length_Suc_conv)
        then have "weight x < weight v" using le w by simp
        then obtain r where "unpack L (Suc depth) x = Some r" using less by blast
        then show ?thesis by (subst unpack.simps) (simp add: Inr w x)
      next
        case False
        then show ?thesis by (subst unpack.simps) (simp add: Inr w)
      qed
    next
      case None
      show ?thesis
      proof (cases "is_record w \<and> as_string (jget w ''data'') \<noteq> None \<and> depth < MAX_DEPTH")
        case True
        then have "weight (jget w ''data'') < weight v"
          using jget_weight[of w "''data''"] as_string_jget[of w "''data''"] le by simp
        then obtain r where "unpack L (Suc depth) (jget w ''data'') = Some r" using less by blast
        then show ?thesis using True None by (subst unpack.simps) (simp add: Inr)
      next
        case False
        then show ?thesis using None by (subst unpack.simps) (auto simp: Inr)
      qed
    qed
  qed
qed

lemma unpack_all_ends: "compact_json L \<Longrightarrow> \<exists>r. unpack_all L depth vs = Some r"
proof (induction vs)
  case (Cons v vs)
  obtain r where "unpack L depth v = Some r" using unpack_ends[OF Cons.prems] by blast
  moreover obtain rs where "unpack_all L depth vs = Some rs" using Cons by blast
  ultimately show ?case by (cases r) auto
qed simp

lemma payloadItems_ends: "compact_json L \<Longrightarrow> \<exists>r. payloadItems L v = Some r"
proof (cases "parse_embedded L v")
  case (Inr w)
  assume c: "compact_json L"
  obtain r where r: "unpack L 0 w = Some r" using unpack_ends[OF c] by blast
  show ?thesis
  proof (cases "as_array w")
    case None
    then show ?thesis using Inr r by (cases r) (simp_all add: payloadItems_def)
  next
    case (Some vs)
    then show ?thesis using Inr unpack_all_ends[OF c] by (simp add: payloadItems_def)
  qed
qed (simp add: payloadItems_def)

lemma nodes_ends: "compact_json L \<Longrightarrow> \<exists>r. nodes L v = Some r"
  using unpack_ends[of L 0 v] by (auto simp: nodes_def)

lemma nodes_all_ends: "compact_json L \<Longrightarrow> \<exists>r. nodes_all L vs = Some r"
proof (induction vs)
  case (Cons v vs)
  obtain r where "nodes L v = Some r" using nodes_ends[OF Cons.prems] by blast
  moreover obtain rs where "nodes_all L vs = Some rs" using Cons by blast
  ultimately show ?case by (cases r) auto
qed simp

lemma normalize_ends:
  assumes "compact_json L"
  shows "\<exists>r. normalizeFullManagedWebhookEvent L parseDate event payload storeCode deliveryScope receivedAt = Some r"
proof (cases "we_family event = ''unknown''")
  case False
  obtain r where r: "payloadItems L payload = Some r" using payloadItems_ends[OF assms] by blast
  show ?thesis
  proof (cases r)
    case (Inr items)
    obtain ns where "nodes_all L items = Some ns" using nodes_all_ends[OF assms] by blast
    then show ?thesis using False r Inr by (simp add: normalizeFullManagedWebhookEvent_def)
  qed (use False r in \<open>simp add: normalizeFullManagedWebhookEvent_def\<close>)
qed (simp add: normalizeFullManagedWebhookEvent_def)

end
