(* ===== verification/Webhook_Queue.thy ===== *)
theory Webhook_Queue
  imports Webhook_Repository
begin

text \<open>
  The webhook database as a state machine: every call of the repository, with the clock it reads, and the
  changes that other programs make to the stores and the permission probes. A run is a list of calls;
  each call is one transaction, so their interleaving is their order. The first part is the state machine
  of one job and the proof that every call moves every job along it; the invariants of the tables follow.
\<close>

section \<open>Calls and runs\<close>

datatype db_call =
    CallStore receipt_input
  | CallClaim "nat list" string int
  | CallRenew nat string int
  | CallComplete nat string normalized_event "hydration_directive option" bool bool
  | CallFail nat string string string int
  | CallReopen string nat
  | CallRequeue bool
  | Elsewhere "store_row list" "probe list"

fun perform :: "int \<Rightarrow> db_call \<Rightarrow> webhook_db \<Rightarrow> webhook_db" where
  "perform now (CallStore i) db = snd (storeReceiptAndJob now i db)"
| "perform now (CallClaim locked w lease) db = snd (claimNextJob now locked w lease db)"
| "perform now (CallRenew k w lease) db = snd (renewJobLease now k w lease db)"
| "perform now (CallComplete k w n d g q) db = snd (completeJob now k w n d g q db)"
| "perform now (CallFail k w ec em delay) db = snd (failJob now k w ec em delay db)"
| "perform now (CallReopen sc p) db = snd (reopenAuthorizationGateFromProbe sc p db)"
| "perform now (CallRequeue x) db = snd (requeueWebhookDeadLetters now x db)"
| "perform now (Elsewhere stores probes) db = db\<lparr>db_stores := stores, db_probes := db_probes db @ probes\<rparr>"

definition run_calls :: "(int \<times> db_call) list \<Rightarrow> webhook_db \<Rightarrow> webhook_db" where
  [js_eval]: "run_calls cs db = fold (\<lambda>(now, c). perform now c) cs db"

lemma run_calls_simps [simp]:
  "run_calls [] db = db" "run_calls ((now, c) # cs) db = run_calls cs (perform now c db)"
  by (simp_all add: run_calls_def)

lemma run_calls_append: "run_calls (cs @ ds) db = run_calls ds (run_calls cs db)"
  by (simp add: run_calls_def)

text \<open>The tables right after the migration: only the stores and the probes have rows.\<close>

definition empty_db :: "store_row list \<Rightarrow> probe list \<Rightarrow> webhook_db" where
  [js_eval]: "empty_db stores probes =
     \<lparr>db_stores = stores, db_receipts = [], db_jobs = [], db_events = [], db_directives = [], db_gates = [],
      db_probes = probes, db_nextReceipt = 1, db_nextJob = 1, db_nextEvent = 1, db_nextDirective = 1\<rparr>"

section \<open>One job\<close>

definition terminal :: "job_status \<Rightarrow> bool" where
  [js_eval]: "terminal s \<longleftrightarrow> s = SUCCEEDED \<or> s = QUARANTINED \<or> s = DEAD_LETTER"

definition lease_text :: "string \<Rightarrow> bool" where
  [js_eval]: "lease_text w \<longleftrightarrow> js_trim w = w \<and> w \<noteq> []"

text \<open>
  The moves of a job. \<open>Held w\<close> and \<open>Finished w\<close> mark the moves that need the lease of \<open>w\<close>,
  \<open>Taken w\<close> the claim by \<open>w\<close>.
\<close>

datatype job_mark = Free | Taken string | Held string | Finished string | Requeued

inductive job_move :: "job \<Rightarrow> job_mark \<Rightarrow> job \<Rightarrow> bool" where
  stay: "job_move j Free j"
| exhaust: "jb_status j = RUNNING \<Longrightarrow> jb_maxAttempts j \<le> jb_attemptCount j \<Longrightarrow>
    job_move j Free (j\<lparr>jb_status := DEAD_LETTER, jb_leaseOwner := [], jb_leaseExpiresAt := None,
      jb_completedAt := Some now, jb_lastErrorCode := ''WEBHOOK_LEASE_EXHAUSTED'',
      jb_lastErrorMessage := ''Worker lease expired after the final processing attempt.''\<rparr>)"
| claim: "\<not> terminal (jb_status j) \<Longrightarrow> jb_attemptCount j < jb_maxAttempts j \<Longrightarrow> lease_text w \<Longrightarrow>
    job_move j (Taken w) (j\<lparr>jb_status := RUNNING, jb_leaseOwner := w, jb_leaseExpiresAt := Some t,
      jb_attemptCount := Suc (jb_attemptCount j)\<rparr>)"
| renew: "jb_status j = RUNNING \<Longrightarrow> jb_leaseOwner j = w \<Longrightarrow>
    job_move j (Held w) (j\<lparr>jb_leaseExpiresAt := Some t\<rparr>)"
| finish: "jb_status j = RUNNING \<Longrightarrow> jb_leaseOwner j = w \<Longrightarrow> final = SUCCEEDED \<or> final = QUARANTINED \<Longrightarrow>
    job_move j (Finished w) (j\<lparr>jb_status := final, jb_leaseOwner := [], jb_leaseExpiresAt := None,
      jb_completedAt := Some now, jb_lastErrorCode := [], jb_lastErrorMessage := []\<rparr>)"
| retry: "jb_status j = RUNNING \<Longrightarrow> jb_leaseOwner j = w \<Longrightarrow> jb_attemptCount j < jb_maxAttempts j \<Longrightarrow>
    length ec \<le> 80 \<Longrightarrow> length em \<le> 300 \<Longrightarrow>
    job_move j (Held w) (j\<lparr>jb_status := RETRY, jb_availableAt := t, jb_leaseOwner := [], jb_leaseExpiresAt := None,
      jb_completedAt := None, jb_lastErrorCode := ec, jb_lastErrorMessage := em\<rparr>)"
| dead: "jb_status j = RUNNING \<Longrightarrow> jb_leaseOwner j = w \<Longrightarrow> jb_maxAttempts j \<le> jb_attemptCount j \<Longrightarrow>
    length ec \<le> 80 \<Longrightarrow> length em \<le> 300 \<Longrightarrow>
    job_move j (Held w) (j\<lparr>jb_status := DEAD_LETTER, jb_leaseOwner := [], jb_leaseExpiresAt := None,
      jb_completedAt := Some now, jb_lastErrorCode := ec, jb_lastErrorMessage := em\<rparr>)"
| requeue: "jb_status j = DEAD_LETTER \<or> jb_status j = RETRY \<Longrightarrow>
    job_move j Requeued (j\<lparr>jb_status := RETRY, jb_attemptCount := 0, jb_availableAt := t, jb_leaseOwner := [],
      jb_leaseExpiresAt := None, jb_lastErrorCode := [], jb_lastErrorMessage := [], jb_completedAt := None\<rparr>)"

inductive_cases job_move_FreeE: "job_move j Free j'"
inductive_cases job_move_HeldE: "job_move j (Held w) j'"
inductive_cases job_move_TakenE: "job_move j (Taken w) j'"

text \<open>The constraints of the table.\<close>

definition job_ok :: "job \<Rightarrow> bool" where
  [js_eval]: "job_ok j \<longleftrightarrow>
     jb_maxAttempts j = 8 \<and> jb_attemptCount j \<le> jb_maxAttempts j
     \<and> (jb_status j = RUNNING \<and> lease_text (jb_leaseOwner j) \<and> jb_leaseExpiresAt j \<noteq> None
        \<or> jb_status j \<noteq> RUNNING \<and> jb_leaseOwner j = [] \<and> jb_leaseExpiresAt j = None)
     \<and> (if jb_status j = QUEUED \<or> jb_status j = RETRY then jb_attemptCount j < jb_maxAttempts j else True)
     \<and> length (jb_lastErrorCode j) \<le> 80 \<and> length (jb_lastErrorMessage j) \<le> 300
     \<and> (terminal (jb_status j) \<longleftrightarrow> jb_completedAt j \<noteq> None)"

lemma job_move_ok: "job_move j m j' \<Longrightarrow> job_ok j \<Longrightarrow> job_ok j'"
  by (induction rule: job_move.induct) (auto simp: job_ok_def terminal_def)

definition effective :: "job \<Rightarrow> bool" where
  [js_eval]: "effective j \<longleftrightarrow> jb_status j = SUCCEEDED \<or> jb_status j = QUARANTINED"

lemma job_move_effective: "job_move j m j' \<Longrightarrow> (\<And>w. m \<noteq> Finished w) \<Longrightarrow> effective j' \<longleftrightarrow> effective j"
  by (induction rule: job_move.induct) (auto simp: effective_def terminal_def)

lemma job_move_ids: "job_move j m j' \<Longrightarrow> jb_id j' = jb_id j \<and> jb_receiptId j' = jb_receiptId j \<and> jb_maxAttempts j' = jb_maxAttempts j"
  by (induction rule: job_move.induct) auto

section \<open>Every call moves the jobs\<close>

text \<open>
  \<open>moved marks db db'\<close>: every job of \<open>db\<close> makes one move, with a mark from \<open>marks\<close>, and stays in its place.
\<close>

definition moved :: "(job \<Rightarrow> job_mark \<Rightarrow> bool) \<Rightarrow> job list \<Rightarrow> job list \<Rightarrow> bool" where
  "moved ok js js' \<longleftrightarrow> list_all2 (\<lambda>j j'. \<exists>m. ok j m \<and> job_move j m j') js js'"

definition no_mark :: "job \<Rightarrow> job_mark \<Rightarrow> bool" where
  "no_mark j m \<longleftrightarrow> m = Free"

lemma moved_refl: "moved no_mark js js"
  by (auto simp: moved_def no_mark_def list_all2_conv_all_nth intro: job_move.stay)

lemma moved_map: "(\<And>j. j \<in> set js \<Longrightarrow> \<exists>m. ok j m \<and> job_move j m (f j)) \<Longrightarrow> moved ok js (map f js)"
  by (simp add: moved_def list.rel_map list_all2_same)

lemma moved_weaken: "moved ok js js' \<Longrightarrow> (\<And>j m. ok j m \<Longrightarrow> ok' j m) \<Longrightarrow> moved ok' js js'"
  by (auto simp: moved_def elim!: list_all2_mono)

definition the_worker :: "string \<Rightarrow> string" where
  "the_worker w = js_trim w"

text \<open>The marks that a call may put on a job.\<close>

fun call_mark :: "db_call \<Rightarrow> job \<Rightarrow> job_mark \<Rightarrow> bool" where
  "call_mark (CallClaim locked w lease) j m = (m = Free \<or> m = Taken (js_trim w) \<and> jb_id j \<notin> set locked)"
| "call_mark (CallRenew k w lease) j m = (m = Free \<or> m = Held (js_trim w) \<and> jb_id j = k)"
| "call_mark (CallComplete k w n d g q) j m = (m = Free \<or> m = Finished (js_trim w) \<and> jb_id j = k)"
| "call_mark (CallFail k w ec em delay) j m = (m = Free \<or> m = Held (js_trim w) \<and> jb_id j = k)"
| "call_mark (CallRequeue x) j m = (m = Free \<or> m = Requeued \<and> x)"
| "call_mark _ j m = (m = Free)"

lemma required_Inr: "required n v = Inr s \<longleftrightarrow> clean_text n v = Inr s"
  by (auto simp: required_def split: sum.splits)

lemma required_facts: "required n v = Inr s \<Longrightarrow> s = js_trim v \<and> lease_text s \<and> length s \<le> n"
  by (auto simp: required_Inr clean_text_Inr lease_text_def)

lemma bounded_Inr: "bounded lo hi n = Inr m \<longleftrightarrow> m = n \<and> lo \<le> n \<and> n \<le> hi"
  by (auto simp: bounded_def)

lemma transaction_snd: "snd (transaction r db) = (case r of Inl _ \<Rightarrow> db | Inr (x, db') \<Rightarrow> db')"
  by (simp add: transaction_def split: sum.splits prod.splits)

lemma transaction_fst: "fst (transaction r db) = (case r of Inl e \<Rightarrow> Inl e | Inr (x, db') \<Rightarrow> Inr x)"
  by (simp add: transaction_def split: sum.splits prod.splits)

lemma transaction_Inr: "transaction r db = (Inr x, db') \<longleftrightarrow> r = Inr (x, db')"
  by (auto simp: transaction_def split: sum.splits prod.splits)

lemma transaction_Inl: "transaction r db = (Inl e, db') \<longleftrightarrow> r = Inl e \<and> db' = db"
  by (auto simp: transaction_def split: sum.splits prod.splits)

lemma transaction_keeps:
  "P db \<Longrightarrow> (\<And>x db'. r = Inr (x, db') \<Longrightarrow> P db') \<Longrightarrow> P (snd (transaction r db))"
  by (auto simp: transaction_snd split: sum.splits)

lemma rolled_back:
  "storeReceiptAndJob now i db = (Inl e, db') \<Longrightarrow> db' = db"
  "claimNextJob now locked w lease db = (Inl e, db') \<Longrightarrow> db' = db"
  "renewJobLease now k w lease db = (Inl e, db') \<Longrightarrow> db' = db"
  "completeJob now k w n d g q db = (Inl e, db') \<Longrightarrow> db' = db"
  "failJob now k w ec em delay db = (Inl e, db') \<Longrightarrow> db' = db"
  "reopenAuthorizationGateFromProbe sc p db = (Inl e, db') \<Longrightarrow> db' = db"
  by (simp_all add: storeReceiptAndJob_def claimNextJob_def renewJobLease_def completeJob_def failJob_def
      reopenAuthorizationGateFromProbe_def transaction_Inl)

lemma first_job_None [simp]: "first_job js = None \<longleftrightarrow> js = []"
  by (cases js) (auto split: option.splits)

lemma first_job_facts:
  "first_job js = Some j \<Longrightarrow> j \<in> set js \<and> (\<forall>k\<in>set js. jb_availableAt j \<le> jb_availableAt k)"
proof (induction js arbitrary: j)
  case (Cons a js)
  show ?case
  proof (cases "first_job js")
    case (Some k)
    with Cons show ?thesis by (auto split: if_splits)
  next
    case None
    then have "js = []" by simp
    then show ?thesis using Cons.prems by simp
  qed
qed simp

lemma claim_candidate_facts:
  "claim_candidate now locked db = Some c \<Longrightarrow> c \<in> set (db_jobs db) \<and> claimable now c \<and> jb_id c \<notin> set locked"
  by (auto simp: claim_candidate_def dest: first_job_facts)

lemma exhaust_move: "\<exists>m. m = Free \<and> job_move j m (exhaust_job now j)"
  by (auto simp: exhaust_job_def intro: job_move.stay job_move.exhaust)

lemma exhaust_claimable: "claimable now j \<Longrightarrow> exhaust_job now j = j"
  by (auto simp: claimable_def exhaust_job_def)

lemma claimable_not_terminal: "claimable now j \<Longrightarrow> \<not> terminal (jb_status j) \<and> jb_attemptCount j < jb_maxAttempts j"
  by (auto simp: claimable_def terminal_def)

lemma claim_moves:
  assumes "distinct (map jb_id (db_jobs db))" "lease_text owner"
  shows "moved (\<lambda>j m. m = Free \<or> m = Taken owner \<and> jb_id j \<notin> set locked)
    (db_jobs db) (db_jobs (claimed_state now owner lease locked db))"
proof (cases "claim_candidate now locked db")
  case None
  then show ?thesis using exhaust_move by (auto simp: claimed_state_def intro!: moved_map)
next
  case (Some c)
  note c = claim_candidate_facts[OF Some]
  have "\<exists>m. (m = Free \<or> m = Taken owner \<and> jb_id j \<notin> set locked)
      \<and> job_move j m (take_lease now owner lease (jb_id c) (exhaust_job now j))" if j: "j \<in> set (db_jobs db)" for j
  proof (cases "jb_id j = jb_id c")
    case True
    then have "j = c" using assms(1) c j by (meson distinct_map inj_onD)
    then show ?thesis
      using c assms(2) claimable_not_terminal[of now c] exhaust_claimable[of now c]
        job_move.claim[of c owner "now + lease"] by (auto simp: take_lease_def)
  next
    case False
    then have "take_lease now owner lease (jb_id c) (exhaust_job now j) = exhaust_job now j"
      by (simp add: take_lease_def exhaust_job_def)
    then show ?thesis using exhaust_move[of j now] by auto
  qed
  then show ?thesis by (auto simp: claimed_state_def Some intro!: moved_map)
qed

lemma renew_moves:
  "moved (\<lambda>j m. m = Free \<or> m = Held w \<and> jb_id j = k) js (map (renew_lease now w lease k) js)"
  by (rule moved_map) (auto simp: renew_lease_def intro: job_move.stay job_move.renew)

lemma finish_moves:
  "final = SUCCEEDED \<or> final = QUARANTINED \<Longrightarrow>
   moved (\<lambda>j m. m = Free \<or> m = Finished w \<and> jb_id j = k) js (map (finish_job now k w final) js)"
proof (rule moved_map)
  fix j assume "final = SUCCEEDED \<or> final = QUARANTINED"
  then show "\<exists>m. (m = Free \<or> m = Finished w \<and> jb_id j = k) \<and> job_move j m (finish_job now k w final j)"
    using job_move.stay[of j] job_move.finish[of j w final now] by (auto simp: finish_job_def owned_by_def)
qed

lemma release_moves:
  assumes "length ec \<le> 80" "length em \<le> 300"
  shows "moved (\<lambda>j m. m = Free \<or> m = Held w \<and> jb_id j = k) js (map (release_job now k w delay ec em) js)"
proof (rule moved_map)
  fix j
  show "\<exists>m. (m = Free \<or> m = Held w \<and> jb_id j = k) \<and> job_move j m (release_job now k w delay ec em j)"
  proof (cases "owned_by k w j")
    case False
    then show ?thesis using job_move.stay[of j] by (auto simp: release_job_def)
  next
    case True
    then show ?thesis
      using assms job_move.retry[of j w ec em "now + delay"] job_move.dead[of j w ec em now]
      by (auto simp: release_job_def owned_by_def Let_def not_le)
  qed
qed

lemma requeue_moves:
  "moved (\<lambda>j m. m = Free \<or> m = Requeued) js (map (\<lambda>j. if replayable db j then requeue_job now j else j) js)"
proof (rule moved_map)
  fix j
  show "\<exists>m. (m = Free \<or> m = Requeued) \<and> job_move j m (if replayable db j then requeue_job now j else j)"
    using job_move.stay[of j] job_move.requeue[of j now] by (auto simp: requeue_job_def replayable_def)
qed

text \<open>The parts of a completion that touch no job.\<close>

lemma upsert_event_jobs [simp]:
  "db_jobs (snd (upsert_event e db)) = db_jobs db" "db_receipts (snd (upsert_event e db)) = db_receipts db"
  "db_gates (snd (upsert_event e db)) = db_gates db" "db_probes (snd (upsert_event e db)) = db_probes db"
  "db_nextJob (snd (upsert_event e db)) = db_nextJob db" "db_nextReceipt (snd (upsert_event e db)) = db_nextReceipt db"
  "db_directives (snd (upsert_event e db)) = db_directives db" "db_stores (snd (upsert_event e db)) = db_stores db"
  by (simp_all add: upsert_event_def split: option.splits)

lemma insert_directive_keeps:
  "insert_directive now ev s d db = Inr db' \<Longrightarrow>
     db_jobs db' = db_jobs db \<and> db_receipts db' = db_receipts db \<and> db_gates db' = db_gates db
     \<and> db_events db' = db_events db \<and> db_probes db' = db_probes db \<and> db_nextJob db' = db_nextJob db
     \<and> db_nextReceipt db' = db_nextReceipt db \<and> db_nextEvent db' = db_nextEvent db \<and> db_stores db' = db_stores db"
  by (auto simp: insert_directive_def ebind_Inr_iff split: option.splits if_splits)

lemma close_gate_keeps [simp]:
  "db_jobs (close_gate now s e db) = db_jobs db" "db_receipts (close_gate now s e db) = db_receipts db"
  "db_events (close_gate now s e db) = db_events db" "db_probes (close_gate now s e db) = db_probes db"
  "db_nextJob (close_gate now s e db) = db_nextJob db" "db_nextReceipt (close_gate now s e db) = db_nextReceipt db"
  "db_nextEvent (close_gate now s e db) = db_nextEvent db" "db_directives (close_gate now s e db) = db_directives db"
  "db_stores (close_gate now s e db) = db_stores db"
  by (simp_all add: close_gate_def)

text \<open>What a completion that commits has done.\<close>

definition gate_after :: "int \<Rightarrow> bool \<Rightarrow> nat option \<Rightarrow> nat \<Rightarrow> webhook_db \<Rightarrow> webhook_db" where
  "gate_after now closeGate s ev db =
     (case s of Some k \<Rightarrow> if closeGate then close_gate now k ev db else db | None \<Rightarrow> db)"

lemma gate_after_keeps [simp]:
  "db_jobs (gate_after now c s ev db) = db_jobs db" "db_receipts (gate_after now c s ev db) = db_receipts db"
  "db_events (gate_after now c s ev db) = db_events db" "db_probes (gate_after now c s ev db) = db_probes db"
  "db_nextJob (gate_after now c s ev db) = db_nextJob db" "db_nextReceipt (gate_after now c s ev db) = db_nextReceipt db"
  "db_nextEvent (gate_after now c s ev db) = db_nextEvent db" "db_directives (gate_after now c s ev db) = db_directives db"
  "db_stores (gate_after now c s ev db) = db_stores db"
  by (simp_all add: gate_after_def split: option.splits)

lemma completeJob_Inr:
  assumes "completeJob now k w n d closeGate quarantined db = (Inr cp, db')"
  obtains owner r e db2 where
    "required 200 w = Inr owner" "leased_receipt now k owner db = Some r"
    "closeGate \<longrightarrow> rc_storeId r \<noteq> None"
    "event_of_normalized db r n = Inr e"
    "insert_directive now (fst (upsert_event e db)) (rc_storeId r) d (snd (upsert_event e db)) = Inr db2"
    "list_ex (owned_by k owner) (db_jobs db)"
    "cp = \<lparr>cp_eventId = fst (upsert_event e db), cp_status = (if quarantined then QUARANTINED else SUCCEEDED),
           cp_gateClosed = closeGate, cp_hydrationQueued = (d \<noteq> None)\<rparr>"
    "db' = (gate_after now closeGate (rc_storeId r) (fst (upsert_event e db)) db2)
       \<lparr>db_jobs := map (finish_job now k owner (if quarantined then QUARANTINED else SUCCEEDED)) (db_jobs db)\<rparr>"
proof -
  obtain owner r where o: "required 200 w = Inr owner" "leased_receipt now k owner db = Some r"
    "complete_under_lease now k owner r n d closeGate quarantined db = Inr (cp, db')"
    using assms by (auto simp: completeJob_def transaction_Inr ebind_Inr_iff split: option.splits)
  have g: "closeGate \<longrightarrow> rc_storeId r \<noteq> None"
  proof (rule ccontr)
    assume "\<not> (closeGate \<longrightarrow> rc_storeId r \<noteq> None)"
    then have "closeGate \<and> rc_storeId r = None" by blast
    then show False using o(3) by (simp add: complete_under_lease_def)
  qed
  obtain e where e: "event_of_normalized db r n = Inr e"
    using o(3) by (auto simp: complete_under_lease_def ebind_Inr_iff split: if_splits)
  obtain ev db1 where u: "upsert_event e db = (ev, db1)" by fastforce
  obtain db2 where d: "insert_directive now ev (rc_storeId r) d db1 = Inr db2"
    using o(3) e u by (auto simp: complete_under_lease_def ebind_Inr_iff split: if_splits)
  have j: "db_jobs db2 = db_jobs db"
    using insert_directive_keeps[OF d] upsert_event_jobs(1)[of e db] u by simp
  have x: "(case rc_storeId r of None \<Rightarrow> db2 | Some s \<Rightarrow> if closeGate then close_gate now s ev db2 else db2)
      = gate_after now closeGate (rc_storeId r) ev db2"
    by (simp add: gate_after_def)
  have y: "\<not> (closeGate \<and> rc_storeId r = None)" using g by blast
  have "(if list_ex (owned_by k owner) (db_jobs db)
       then Inr (\<lparr>cp_eventId = ev, cp_status = (if quarantined then QUARANTINED else SUCCEEDED),
           cp_gateClosed = closeGate, cp_hydrationQueued = (d \<noteq> None)\<rparr>,
         (gate_after now closeGate (rc_storeId r) ev db2)
           \<lparr>db_jobs := map (finish_job now k owner (if quarantined then QUARANTINED else SUCCEEDED)) (db_jobs db)\<rparr>)
       else Inl (WebhookError ''WEBHOOK_LEASE_LOST'')) = (Inr (cp, db') :: job_completion db_result)"
    using o(3) unfolding complete_under_lease_def if_not_P[OF y] e u d ebind_simps Let_def prod.case x
    by (simp only: gate_after_keeps j)
  then show ?thesis
    using that[OF o(1,2) g e] u d by (auto split: if_splits)
qed

lemma reopen_Inr:
  assumes "reopenAuthorizationGateFromProbe sc probeId db = (Inr b, db')"
  obtains (quiet) "\<not> b" "db' = db"
  | (opened) s :: store_row and g p where "find (\<lambda>g. gt_storeId g = dim_storeId s \<and> gt_blocked g) (db_gates db) = Some g"
      "find (granting_probe probeId (dim_storeId s) (gt_blockedAt g)) (db_probes db) = Some p" "b"
      "db' = db\<lparr>db_gates := map (reopen_gate p (dim_storeId s)) (db_gates db)\<rparr>"
proof -
  obtain t where "(case find (\<lambda>s. dim_storeCode s = js_upper t \<and> dim_isActive s) (db_stores db) of
          None \<Rightarrow> Inl (WebhookError ''P0001'')
        | Some s \<Rightarrow> (case find (\<lambda>g. gt_storeId g = dim_storeId s \<and> gt_blocked g) (db_gates db) of
              None \<Rightarrow> Inr (False, db)
            | Some g \<Rightarrow> (case find (granting_probe probeId (dim_storeId s) (gt_blockedAt g)) (db_probes db) of
                  None \<Rightarrow> Inl (WebhookError ''P0001'')
                | Some p \<Rightarrow> Inr (True, db\<lparr>db_gates := map (reopen_gate p (dim_storeId s)) (db_gates db)\<rparr>))))
      = Inr (b, db')"
    using assms unfolding reopenAuthorizationGateFromProbe_def transaction_Inr ebind_Inr_iff by blast
  moreover obtain s where s: "find (\<lambda>s. dim_storeCode s = js_upper t \<and> dim_isActive s) (db_stores db) = Some s"
    using calculation by (cases "find (\<lambda>s. dim_storeCode s = js_upper t \<and> dim_isActive s) (db_stores db)") auto
  ultimately have g: "(case find (\<lambda>g. gt_storeId g = dim_storeId s \<and> gt_blocked g) (db_gates db) of
              None \<Rightarrow> Inr (False, db)
            | Some g \<Rightarrow> (case find (granting_probe probeId (dim_storeId s) (gt_blockedAt g)) (db_probes db) of
                  None \<Rightarrow> Inl (WebhookError ''P0001'')
                | Some p \<Rightarrow> Inr (True, db\<lparr>db_gates := map (reopen_gate p (dim_storeId s)) (db_gates db)\<rparr>)))
      = Inr (b, db')" by simp
  show thesis
  proof (cases "find (\<lambda>g. gt_storeId g = dim_storeId s \<and> gt_blocked g) (db_gates db)")
    case None
    then show thesis using g quiet by simp
  next
    case (Some x)
    then show thesis
      using g opened[OF Some] by (cases "find (granting_probe probeId (dim_storeId s) (gt_blockedAt x)) (db_probes db)") auto
  qed
qed

lemma storeReceiptAndJob_Inr:
  assumes "storeReceiptAndJob now input db = (Inr s, db')"
  obtains i sid where "validate_input input = Inr i" "lookup_store db (ri_storeCode i) = Inr sid"
    "insert_receipt_and_job now i sid db = Inr (s, db')"
  using assms by (auto simp: storeReceiptAndJob_def transaction_Inr ebind_Inr_iff)

lemma insert_cases:
  assumes "insert_receipt_and_job now i sid db = Inr (s, db')"
  obtains
    (duplicate) r where "receipt_by_key db (ri_idempotencyKey i) = Some r" "same_delivery i sid r"
      "s = \<lparr>sd_receiptId = rc_id r, sd_duplicate = True\<rparr>"
      "db' = db\<lparr>db_receipts := map (note_duplicate now (rc_id r)) (db_receipts db)\<rparr>"
  | (inserted) "receipt_by_key db (ri_idempotencyKey i) = None"
      "s = \<lparr>sd_receiptId = db_nextReceipt db, sd_duplicate = False\<rparr>"
      "db' = db\<lparr>db_receipts := db_receipts db @ [new_receipt db now i sid], db_jobs := db_jobs db @ [new_job db now],
         db_nextReceipt := Suc (db_nextReceipt db), db_nextJob := Suc (db_nextJob db)\<rparr>"
  using assms by (auto simp: insert_receipt_and_job_def split: if_splits option.splits)

lemma completeJob_final:
  "(if quarantined then QUARANTINED else SUCCEEDED) = SUCCEEDED \<or> (if quarantined then QUARANTINED else SUCCEEDED) = QUARANTINED"
  by simp

lemma moved_same: "(\<And>j. ok j Free) \<Longrightarrow> moved ok js js"
  by (rule moved_weaken[OF moved_refl]) (simp add: no_mark_def)

lemma call_mark_free: "call_mark c j Free"
  by (cases c) simp_all

lemma call_marks:
  "call_mark (CallClaim locked w lease) = (\<lambda>j m. m = Free \<or> m = Taken (js_trim w) \<and> jb_id j \<notin> set locked)"
  "call_mark (CallRenew k w lease) = (\<lambda>j m. m = Free \<or> m = Held (js_trim w) \<and> jb_id j = k)"
  "call_mark (CallComplete k w n d g q) = (\<lambda>j m. m = Free \<or> m = Finished (js_trim w) \<and> jb_id j = k)"
  "call_mark (CallFail k w ec em delay) = (\<lambda>j m. m = Free \<or> m = Held (js_trim w) \<and> jb_id j = k)"
  by (intro ext, simp)+

text \<open>\<open>moves_by c db db'\<close>: the call \<open>c\<close> keeps every job in its place and moves it under its marks.\<close>

definition moves_by :: "db_call \<Rightarrow> webhook_db \<Rightarrow> webhook_db \<Rightarrow> bool" where
  "moves_by c db db' \<longleftrightarrow> moved (call_mark c) (db_jobs db) (db_jobs db')"

lemma moves_by_refl: "moves_by c db db"
  by (simp add: moves_by_def moved_same call_mark_free)

lemma moves_by_jobs: "db_jobs db' = db_jobs db \<Longrightarrow> moves_by c db db'"
  by (simp add: moves_by_def moved_same call_mark_free)

lemma claim_by:
  assumes "distinct (map jb_id (db_jobs db))"
  shows "moves_by (CallClaim locked w lease) db (perform now (CallClaim locked w lease) db)"
  unfolding perform.simps claimNextJob_def
proof (rule transaction_keeps)
  fix x db'
  assume "ebind (required 200 w) (\<lambda>owner. ebind (bounded 5000 900000 lease) (\<lambda>lease.
      Inr (case claim_candidate now locked db of None \<Rightarrow> None
           | Some c \<Rightarrow> claim_row db (take_lease now owner lease (jb_id c) c),
           claimed_state now owner lease locked db))) = Inr (x, db')"
  then obtain owner l where o: "required 200 w = Inr owner" "db' = claimed_state now owner l locked db"
    by (auto simp: ebind_Inr_iff)
  then have "owner = js_trim w" "lease_text owner" using required_facts by auto
  then show "moves_by (CallClaim locked w lease) db db'"
    using claim_moves[OF assms] o(2) by (simp add: moves_by_def call_marks)
qed (rule moves_by_refl)

lemma renew_by: "moves_by (CallRenew k w lease) db (perform now (CallRenew k w lease) db)"
proof (cases "renewJobLease now k w lease db")
  case (Pair r db')
  show ?thesis
  proof (cases r)
    case (Inl e)
    then have "db' = db" using Pair rolled_back(3) by blast
    then show ?thesis using Pair by (simp add: moves_by_refl)
  next
    case (Inr s)
    then obtain owner l where o: "required 200 w = Inr owner"
      "db' = db\<lparr>db_jobs := map (renew_lease now owner l k) (db_jobs db)\<rparr>"
      using Pair by (auto simp: renewJobLease_def transaction_Inr ebind_Inr_iff split: if_splits)
    then have "owner = js_trim w" using required_facts by auto
    then show ?thesis using Pair o(2) renew_moves by (simp add: moves_by_def call_marks)
  qed
qed

lemma complete_by: "moves_by (CallComplete k w n d g q) db (perform now (CallComplete k w n d g q) db)"
proof (cases "completeJob now k w n d g q db")
  case (Pair r db')
  show ?thesis
  proof (cases r)
    case (Inl e)
    then have "db' = db" using Pair rolled_back(4) by blast
    then show ?thesis using Pair by (simp add: moves_by_refl)
  next
    case (Inr cp)
    from Pair[unfolded Inr] obtain owner where o: "required 200 w = Inr owner"
      "db_jobs db' = map (finish_job now k owner (if q then QUARANTINED else SUCCEEDED)) (db_jobs db)"
      by (rule completeJob_Inr) simp
    then have "owner = js_trim w" using required_facts by auto
    then show ?thesis using Pair o(2) finish_moves[OF completeJob_final] by (simp add: moves_by_def call_marks)
  qed
qed

lemma fail_by: "moves_by (CallFail k w ec em delay) db (perform now (CallFail k w ec em delay) db)"
proof (cases "failJob now k w ec em delay db")
  case (Pair r db')
  show ?thesis
  proof (cases r)
    case (Inl e)
    then have "db' = db" using Pair rolled_back(5) by blast
    then show ?thesis using Pair by (simp add: moves_by_refl)
  next
    case (Inr s)
    then obtain owner ec' em' l where o: "required 200 w = Inr owner" "required 80 ec = Inr ec'" "required 300 em = Inr em'"
      "db' = db\<lparr>db_jobs := map (release_job now k owner l ec' em') (db_jobs db)\<rparr>"
      using Pair by (auto simp: failJob_def transaction_Inr ebind_Inr_iff split: option.splits)
    then have "owner = js_trim w" "length ec' \<le> 80" "length em' \<le> 300" using required_facts by auto
    then show ?thesis using Pair o(4) release_moves[of ec' em'] by (simp add: moves_by_def call_marks)
  qed
qed

lemma reopen_by: "moves_by (CallReopen sc p) db (perform now (CallReopen sc p) db)"
proof (cases "reopenAuthorizationGateFromProbe sc p db")
  case (Pair x db')
  show ?thesis
  proof (cases x)
    case (Inl e)
    then have "db' = db" using Pair rolled_back(6) by blast
    then show ?thesis using Pair by (simp add: moves_by_refl)
  next
    case (Inr b)
    from Pair[unfolded Inr] show ?thesis
    proof (cases rule: reopen_Inr)
      case quiet
      then show ?thesis using Pair by (simp add: moves_by_refl)
    next
      case (opened s g q)
      show ?thesis using Pair unfolding opened(4) by (simp add: moves_by_jobs)
    qed
  qed
qed

lemma requeue_by: "moves_by (CallRequeue x) db (perform now (CallRequeue x) db)"
proof (cases "x \<and> length (filter (replayable db) (db_jobs db)) \<noteq> 0")
  case True
  then have "db_jobs (perform now (CallRequeue x) db) = map (\<lambda>j. if replayable db j then requeue_job now j else j) (db_jobs db)"
    by (simp add: requeueWebhookDeadLetters_def Let_def)
  moreover have "call_mark (CallRequeue x) = (\<lambda>j m. m = Free \<or> m = Requeued)" using True by (intro ext) simp
  ultimately show ?thesis using requeue_moves[where db = db and js = "db_jobs db" and now = now] by (simp add: moves_by_def)
next
  case False
  then have "perform now (CallRequeue x) db = db" by (auto simp: requeueWebhookDeadLetters_def Let_def)
  then show ?thesis by (simp add: moves_by_refl)
qed

lemma store_jobs:
  "db_jobs (perform now (CallStore i) db) = db_jobs db
   \<or> db_jobs (perform now (CallStore i) db) = db_jobs db @ [new_job db now]"
proof (cases "storeReceiptAndJob now i db")
  case (Pair r db')
  show ?thesis
  proof (cases r)
    case (Inl e)
    then have "db' = db" using Pair rolled_back(1) by blast
    then show ?thesis using Pair by simp
  next
    case (Inr s)
    obtain v sid where "insert_receipt_and_job now v sid db = Inr (s, db')"
      using storeReceiptAndJob_Inr Pair Inr by blast
    then show ?thesis using Pair by (cases rule: insert_cases) auto
  qed
qed

lemma call_moves:
  assumes "distinct (map jb_id (db_jobs db))"
  shows "\<exists>js' new. db_jobs (perform now c db) = js' @ new \<and> moved (call_mark c) (db_jobs db) js'
    \<and> (new = [] \<or> new = [new_job db now])"
proof (cases "\<exists>i. c = CallStore i")
  case True
  then obtain i where c: "c = CallStore i" by blast
  show ?thesis
    using store_jobs[of now i db] moved_same[of "call_mark c"] call_mark_free[of c]
    unfolding c by (metis append_Nil2)
next
  case False
  then have "moves_by c db (perform now c db)"
  proof (cases c)
    case (Elsewhere stores probes)
    then show ?thesis by (simp add: moves_by_jobs)
  qed (simp_all only: claim_by[OF assms] renew_by complete_by fail_by reopen_by requeue_by, blast)
  then show ?thesis unfolding moves_by_def by (intro exI[of _ "db_jobs (perform now c db)"] exI[of _ "[]"]) simp
qed

section \<open>Receipts\<close>

text \<open>
  A receipt is never changed but for its count of duplicates, and only a stored delivery adds one.
\<close>

definition same_receipt :: "receipt \<Rightarrow> receipt \<Rightarrow> bool" where
  "same_receipt r r' \<longleftrightarrow> rc_duplicateCount r \<le> rc_duplicateCount r'
     \<and> r' = r\<lparr>rc_duplicateCount := rc_duplicateCount r', rc_lastDuplicateAt := rc_lastDuplicateAt r'\<rparr>"

lemma same_receipt_refl [simp]: "same_receipt r r"
  by (simp add: same_receipt_def)

lemma same_receipt_trans: "same_receipt r s \<Longrightarrow> same_receipt s t \<Longrightarrow> same_receipt r t"
  by (cases r; cases s; cases t) (auto simp: same_receipt_def)

lemma same_receipt_note: "same_receipt r (note_duplicate now k r)"
  by (cases r) (simp add: note_duplicate_def same_receipt_def)

lemma same_receipt_fields:
  "same_receipt r r' \<Longrightarrow> rc_id r' = rc_id r \<and> rc_idempotencyKey r' = rc_idempotencyKey r \<and> rc_storeId r' = rc_storeId r
     \<and> rc_deliveryScope r' = rc_deliveryScope r \<and> rc_ciphertext r' = rc_ciphertext r \<and> rc_cipherSha256 r' = rc_cipherSha256 r
     \<and> rc_appKeyHash r' = rc_appKeyHash r \<and> rc_openKeyHash r' = rc_openKeyHash r \<and> rc_eventCode r' = rc_eventCode r
     \<and> rc_eventPath r' = rc_eventPath r"
  by (cases r; cases r') (auto simp: same_receipt_def)

text \<open>Only a stored delivery touches the receipts, and their identities and those of the jobs.\<close>

definition same_core :: "webhook_db \<Rightarrow> webhook_db \<Rightarrow> bool" where
  "same_core db db' \<longleftrightarrow> db_receipts db' = db_receipts db \<and> db_nextReceipt db' = db_nextReceipt db
     \<and> db_nextJob db' = db_nextJob db \<and> length (db_jobs db') = length (db_jobs db)"

lemma same_core_refl: "same_core db db"
  by (simp add: same_core_def)

lemma claim_core: "same_core db (perform now (CallClaim locked w lease) db)"
  unfolding perform.simps claimNextJob_def
  by (rule transaction_keeps) (auto simp: same_core_def claimed_state_def ebind_Inr_iff)

lemma renew_core: "same_core db (perform now (CallRenew k w lease) db)"
  unfolding perform.simps renewJobLease_def
  by (rule transaction_keeps) (auto simp: same_core_def ebind_Inr_iff split: if_splits)

lemma fail_core: "same_core db (perform now (CallFail k w ec em delay) db)"
  unfolding perform.simps failJob_def
  by (rule transaction_keeps) (auto simp: same_core_def ebind_Inr_iff split: option.splits)

lemma reopen_core: "same_core db (perform now (CallReopen sc p) db)"
proof (cases "reopenAuthorizationGateFromProbe sc p db")
  case (Pair x db')
  show ?thesis
  proof (cases x)
    case (Inl e)
    then have "db' = db" using Pair rolled_back(6) by blast
    then show ?thesis using Pair by (simp add: same_core_refl)
  next
    case (Inr b)
    from Pair[unfolded Inr] show ?thesis
    proof (cases rule: reopen_Inr)
      case quiet
      then show ?thesis using Pair by (simp add: same_core_refl)
    next
      case (opened s g q)
      show ?thesis using Pair unfolding opened(4) by (simp add: same_core_def)
    qed
  qed
qed

lemma complete_core: "same_core db (perform now (CallComplete k w n d g q) db)"
proof (cases "completeJob now k w n d g q db")
  case (Pair x db')
  show ?thesis
  proof (cases x)
    case (Inl e)
    then have "db' = db" using Pair rolled_back(4) by blast
    then show ?thesis using Pair by (simp add: same_core_refl)
  next
    case (Inr cp)
    from Pair[unfolded Inr] obtain owner and r :: receipt and e db2 where f:
      "insert_directive now (fst (upsert_event e db)) (rc_storeId r) d (snd (upsert_event e db)) = Inr db2"
      "db' = (gate_after now g (rc_storeId r) (fst (upsert_event e db)) db2)
        \<lparr>db_jobs := map (finish_job now k owner (if q then QUARANTINED else SUCCEEDED)) (db_jobs db)\<rparr>"
      by (rule completeJob_Inr) (rule that, assumption+)
    then show ?thesis using Pair insert_directive_keeps[OF f(1)] by (simp add: same_core_def)
  qed
qed

lemma requeue_core: "same_core db (perform now (CallRequeue x) db)"
  by (simp add: requeueWebhookDeadLetters_def Let_def same_core_def)

lemma elsewhere_core: "same_core db (perform now (Elsewhere stores probes) db)"
  by (simp add: same_core_def)

lemma call_core: "(\<nexists>i. c = CallStore i) \<Longrightarrow> same_core db (perform now c db)"
  using requeue_core elsewhere_core
  by (cases c) (simp_all only: claim_core renew_core fail_core reopen_core complete_core, blast)

text \<open>What a call does to the receipts, with the job that comes with a new one.\<close>

lemma call_receipts:
  obtains
    (kept) "list_all2 same_receipt (db_receipts db) (db_receipts (perform now c db))"
      "db_nextReceipt (perform now c db) = db_nextReceipt db" "db_nextJob (perform now c db) = db_nextJob db"
      "length (db_jobs (perform now c db)) = length (db_jobs db)"
  | (added) r where "db_receipts (perform now c db) = db_receipts db @ [r]" "rc_id r = db_nextReceipt db"
      "rc_idempotencyKey r \<notin> rc_idempotencyKey ` set (db_receipts db)"
      "db_nextReceipt (perform now c db) = Suc (db_nextReceipt db)" "db_nextJob (perform now c db) = Suc (db_nextJob db)"
      "db_jobs (perform now c db) = db_jobs db @ [new_job db now]"
proof -
  have same: thesis if "same_core db (perform now c db)"
    using that kept by (simp add: same_core_def list_all2_same)
  show thesis
  proof (cases "\<exists>i. c = CallStore i")
    case False
    then show thesis using call_core same by blast
  next
    case True
    then obtain i where c: "c = CallStore i" by blast
    show thesis
    proof (cases "storeReceiptAndJob now i db")
      case (Pair x db')
      show thesis
      proof (cases x)
        case (Inl e)
        then have "db' = db" using Pair rolled_back(1) by blast
        then show thesis using Pair c by (intro same) (simp add: same_core_refl)
      next
        case (Inr s)
        obtain v sid where ins: "insert_receipt_and_job now v sid db = Inr (s, db')"
          using storeReceiptAndJob_Inr Pair Inr by blast
        then show thesis
        proof (cases rule: insert_cases)
          case (duplicate r)
          then show thesis using Pair c
            by (intro kept) (simp_all add: list.rel_map list_all2_same same_receipt_note)
        next
          case inserted
          then show thesis using Pair c
            by (intro added[of "new_receipt db now v sid"])
              (auto simp: new_receipt_def receipt_by_key_def find_None_iff)
        qed
      qed
    qed
  qed
qed

section \<open>Invariants of the tables\<close>

text \<open>
  An invariant of the database is a predicate that the empty tables satisfy and that every call keeps;
  every run from the empty tables then ends in it.
\<close>

locale db_invariant =
  fixes I :: "webhook_db \<Rightarrow> bool"
  assumes empty: "I (empty_db stores probes)"
    and step: "I db \<Longrightarrow> I (perform now c db)"
begin

lemma run_keeps: "I db \<Longrightarrow> I (run_calls cs db)"
proof (induction cs arbitrary: db)
  case (Cons x cs)
  then show ?case by (cases x) (simp add: step)
qed simp

lemma reached: "I (run_calls cs (empty_db stores probes))"
  by (rule run_keeps) (rule empty)

end

definition tables_ok :: "webhook_db \<Rightarrow> bool" where
  "tables_ok db \<longleftrightarrow>
     (\<forall>j\<in>set (db_jobs db). job_ok j \<and> 0 < jb_id j \<and> jb_id j < db_nextJob db)
     \<and> 0 < db_nextJob db \<and> distinct (map jb_id (db_jobs db))
     \<and> map jb_receiptId (db_jobs db) = map rc_id (db_receipts db)
     \<and> (\<forall>r\<in>set (db_receipts db). rc_id r < db_nextReceipt db) \<and> distinct (map rc_id (db_receipts db))
     \<and> distinct (map rc_idempotencyKey (db_receipts db))"

lemma moved_fields:
  assumes "moved ok js js'"
  shows "length js' = length js" "map jb_id js' = map jb_id js" "map jb_receiptId js' = map jb_receiptId js"
  using assms unfolding moved_def by (induction rule: list_all2_induct) (auto dest: job_move_ids)

lemma moved_ok: "moved ok js js' \<Longrightarrow> (\<forall>j\<in>set js. job_ok j) \<Longrightarrow> (\<forall>j\<in>set js'. job_ok j)"
  unfolding moved_def
proof (induction rule: list_all2_induct)
  case (Cons x xs y ys)
  then obtain m where "job_move x m y" by blast
  then have "job_ok y" by (rule job_move_ok) (use Cons.prems in simp)
  then show ?case using Cons by simp
qed simp

lemma same_receipts_fields:
  "list_all2 same_receipt rs rs' \<Longrightarrow> map rc_id rs' = map rc_id rs \<and> map rc_idempotencyKey rs' = map rc_idempotencyKey rs"
  by (induction rule: list_all2_induct) (auto dest: same_receipt_fields)

lemma new_job_ok: "job_ok (new_job db now)"
  by (simp add: job_ok_def new_job_def terminal_def)

lemma set_map_eq: "map f xs = map g ys \<Longrightarrow> (\<forall>x\<in>set xs. P (f x)) \<Longrightarrow> (\<forall>y\<in>set ys. P (g y))"
  by (metis list.set_map image_iff)

lemma bounded_ids: "map f xs = map g ys \<Longrightarrow> (\<forall>y\<in>set ys. g y < n) \<Longrightarrow> (\<forall>x\<in>set xs. f x < (n::nat))"
  using set_map_eq[of g ys f xs "\<lambda>k. k < n"] by simp

lemma tables_ok_kept:
  assumes ok: "tables_ok db" and jobs: "\<forall>j\<in>set (db_jobs db'). job_ok j"
    and ids: "map jb_id (db_jobs db') = map jb_id (db_jobs db)"
      "map jb_receiptId (db_jobs db') = map jb_receiptId (db_jobs db)"
    and rids: "map rc_id (db_receipts db') = map rc_id (db_receipts db)"
      "map rc_idempotencyKey (db_receipts db') = map rc_idempotencyKey (db_receipts db)"
    and nxt: "db_nextReceipt db' = db_nextReceipt db" "db_nextJob db' = db_nextJob db"
  shows "tables_ok db'"
proof -
  have "\<forall>j\<in>set (db_jobs db'). jb_id j < db_nextJob db'"
    using bounded_ids[OF ids(1)] ok nxt(2) by (simp add: tables_ok_def)
  moreover have "\<forall>j\<in>set (db_jobs db'). 0 < jb_id j"
    using set_map_eq[of jb_id "db_jobs db" jb_id "db_jobs db'" "\<lambda>k. 0 < k"] ids(1) ok by (simp add: tables_ok_def)
  moreover have "\<forall>r\<in>set (db_receipts db'). rc_id r < db_nextReceipt db'"
    using bounded_ids[OF rids(1)] ok nxt(1) by (simp add: tables_ok_def)
  ultimately show ?thesis using ok jobs ids rids nxt by (simp add: tables_ok_def)
qed

lemma tables_ok_added:
  assumes ok: "tables_ok db"
    and r: "db_receipts db' = db_receipts db @ [r]" "rc_id r = db_nextReceipt db"
      "rc_idempotencyKey r \<notin> rc_idempotencyKey ` set (db_receipts db)"
    and nxt: "db_nextReceipt db' = Suc (db_nextReceipt db)" "db_nextJob db' = Suc (db_nextJob db)"
    and j: "db_jobs db' = db_jobs db @ [new_job db now]"
  shows "tables_ok db'"
proof -
  have "jb_id (new_job db now) = db_nextJob db" "jb_receiptId (new_job db now) = db_nextReceipt db"
    by (simp_all add: new_job_def)
  moreover have "db_nextJob db \<notin> jb_id ` set (db_jobs db)" "db_nextReceipt db \<notin> rc_id ` set (db_receipts db)"
    using ok by (auto simp: tables_ok_def)
  ultimately show ?thesis
    using ok new_job_ok[of db now] unfolding tables_ok_def r(1) nxt j
    by (simp add: r(2,3) less_Suc_eq ball_Un)
qed

lemma tables_ok_step:
  assumes ok: "tables_ok db"
  shows "tables_ok (perform now c db)"
proof -
  have d: "distinct (map jb_id (db_jobs db))" using ok by (simp add: tables_ok_def)
  obtain js' new where m: "db_jobs (perform now c db) = js' @ new" "moved (call_mark c) (db_jobs db) js'"
    "new = [] \<or> new = [new_job db now]"
    using call_moves[OF d, of now c] by blast
  show ?thesis
  proof (cases rule: call_receipts[where now = now and c = c and db = db])
    case kept
    have "new = []" using kept(4) m(1) moved_fields(1)[OF m(2)] by auto
    then have js: "db_jobs (perform now c db) = js'" using m(1) by simp
    moreover have "\<forall>j\<in>set (db_jobs db). job_ok j" using ok by (simp add: tables_ok_def)
    ultimately show ?thesis
      using tables_ok_kept[OF ok, of "perform now c db"] moved_ok[OF m(2)] moved_fields[OF m(2)]
        same_receipts_fields[OF kept(1)] kept(2,3) by simp
  next
    case (added r)
    then show ?thesis by (rule tables_ok_added[OF ok])
  qed
qed

interpretation tables: db_invariant tables_ok
proof
  show "tables_ok (empty_db stores probes)" for stores probes by (simp add: tables_ok_def empty_db_def)
  show "tables_ok db \<Longrightarrow> tables_ok (perform now c db)" for db now c by (rule tables_ok_step)
qed

end
