(* ===== verification/Webhook_Worker.thy ===== *)
theory Webhook_Worker
  imports Webhook_Normalizer Webhook_Queue
begin

text \<open>
  \<open>src/webhook/worker.mjs\<close>: one job from its claim to its completion or release. The clock at the claim and
  at the end, and whether each transaction reaches the database, are arguments. The log is left out.
\<close>

section \<open>Failures\<close>

definition SAFE_ERROR_MESSAGES :: "(string \<times> string) list" where
  [js_eval]: "SAFE_ERROR_MESSAGES =
     [(''WEBHOOK_CREDENTIAL_UNAVAILABLE'', ''Webhook decryption credential is unavailable.''),
      (''WEBHOOK_CIPHERTEXT_INVALID'', ''Stored webhook ciphertext is invalid.''),
      (''WEBHOOK_CIPHERTEXT_CORRUPT'', ''Stored webhook ciphertext failed its integrity check.''),
      (''WEBHOOK_DECRYPT_FAILED'', ''Stored webhook ciphertext could not be decrypted.''),
      (''WEBHOOK_PAYLOAD_INVALID'', ''Decrypted webhook data has an invalid shape.''),
      (''WEBHOOK_PAYLOAD_LIMIT'', ''Decrypted webhook data exceeded normalization limits.''),
      (''WEBHOOK_IDENTITY_DRIFT'', ''Stored webhook identity no longer matches configuration.''),
      (''WEBHOOK_LEASE_LOST'', ''Webhook worker lost its job lease.''),
      (''WEBHOOK_PROCESSING_FAILED'', ''Webhook processing failed.'')]"

text \<open>The stable code and its message. The pattern of the source holds for every code of the table.\<close>

definition safeFailure :: "webhook_error \<Rightarrow> string \<times> string" where
  [js_eval]: "safeFailure e =
     (case map_of SAFE_ERROR_MESSAGES (js_upper (we_code e)) of
        Some m \<Rightarrow> (js_upper (we_code e), m)
      | None \<Rightarrow> (''WEBHOOK_PROCESSING_FAILED'', ''Webhook processing failed.''))"

definition webhookRetryDelayMs :: "nat \<Rightarrow> int" where
  [js_eval]: "webhookRetryDelayMs attempt =
     (let exponent = (if 0 < attempt \<and> int attempt \<le> max_safe then attempt - 1 else 0)
      in min 3600000 (5000 * 2 ^ min exponent 10))"

section \<open>Processing one job\<close>

text \<open>
  A transaction reaches the database and answers, or the connection is lost, and then it may have
  committed.
\<close>

datatype reach = Reached | Lost bool

definition through :: "reach \<Rightarrow> 'a webhook_result \<times> webhook_db \<Rightarrow> webhook_db \<Rightarrow> 'a webhook_result \<times> webhook_db" where
  [js_eval]: "through c r db =
     (case c of Reached \<Rightarrow> r | Lost committed \<Rightarrow> (Inl (WebhookError []), if committed then snd r else db))"

record worker_env =
  wv_claimAt :: int
  wv_endAt :: int
  wv_locked :: "nat list"
  wv_claimReach :: reach
  wv_completeReach :: reach
  wv_failReach :: reach

datatype job_outcome =
    NotClaimed
  | ClaimFailed string
  | Completed job_completion
  | JobFailed "job_status option" string

record work =
  wk_normalized :: normalized_event
  wk_directive :: "hydration_directive option"
  wk_closeGate :: bool
  wk_quarantined :: bool

definition option_or_empty :: "string option \<Rightarrow> string" where
  [js_eval]: "option_or_empty v = option_text v"

text \<open>From a claimed job to the arguments of its completion. Unknown events are not decrypted.\<close>

definition prepare_job ::
    "node_lib \<Rightarrow> (string \<Rightarrow> int option) \<Rightarrow> registry \<Rightarrow> claimed_job \<Rightarrow> work webhook_result option" where
  [js_eval]: "prepare_job L parseDate R job =
     (let r = cj_receipt job;
          event = resolveFullManagedWebhookEvent
            (text_or (option_text (rc_eventCode r)) (option_text (rc_eventPath r)))
      in if we_family event = ''unknown''
         then Some (Inr \<lparr>wk_normalized = createUnknownWebhookAuditEvent event (cj_storeCode job) (rc_deliveryScope r)
                           (rc_receivedAt r),
                         wk_directive = None, wk_closeGate = False, wk_quarantined = True\<rparr>)
         else case resolveStored R (rc_appKeyHash r) (option_text (rc_openKeyHash r)) (rc_deliveryScope r) (cj_storeCode job) of
             Inl e \<Rightarrow> Some (Inl e)
           | Inr identity \<Rightarrow>
               if nl_sha256 L (rc_ciphertext r) \<noteq> rc_cipherSha256 r
               then Some (Inl (WebhookError ''WEBHOOK_CIPHERTEXT_CORRUPT''))
               else (case decryptFullManagedWebhookEvent L (rc_ciphertext r) (si_appSecretKey identity) of
                   Inl e \<Rightarrow> Some (Inl e)
                 | Inr payload \<Rightarrow>
                     Option.bind (normalizeFullManagedWebhookEvent L parseDate event payload (si_storeCode identity)
                         (rc_deliveryScope r) (rc_receivedAt r)) (\<lambda>n.
                       Some (ebind n (\<lambda>d. Inr \<lparr>wk_normalized = nd_normalized d, wk_directive = nd_hydrationDirective d,
                         wk_closeGate = nd_closeAuthorizationGate d, wk_quarantined = False\<rparr>)))))"

definition complete_work ::
    "worker_env \<Rightarrow> string \<Rightarrow> claimed_job \<Rightarrow> work \<Rightarrow> webhook_db \<Rightarrow> job_completion webhook_result \<times> webhook_db" where
  [js_eval]: "complete_work env workerId job k db =
     through (wv_completeReach env)
       (completeJob (wv_endAt env) (cj_jobId job) workerId (wk_normalized k) (wk_directive k) (wk_closeGate k)
          (wk_quarantined k) db) db"

definition release_failed ::
    "worker_env \<Rightarrow> string \<Rightarrow> claimed_job \<Rightarrow> webhook_error \<Rightarrow> webhook_db \<Rightarrow> job_outcome \<times> webhook_db" where
  [js_eval]: "release_failed env workerId job e db =
     (let (ec, em) = safeFailure e;
          (released, db') = through (wv_failReach env)
            (failJob (wv_endAt env) (cj_jobId job) workerId ec em (webhookRetryDelayMs (cj_attemptCount job)) db) db
      in (JobFailed (case released of Inl _ \<Rightarrow> None | Inr st \<Rightarrow> Some st) ec, db'))"

definition process_claimed ::
    "node_lib \<Rightarrow> (string \<Rightarrow> int option) \<Rightarrow> registry \<Rightarrow> worker_env \<Rightarrow> string \<Rightarrow> claimed_job \<Rightarrow> webhook_db
     \<Rightarrow> (job_outcome \<times> webhook_db) option" where
  [js_eval]: "process_claimed L parseDate R env workerId job db =
     Option.bind (prepare_job L parseDate R job) (\<lambda>p. Some (case p of
         Inl e \<Rightarrow> release_failed env workerId job e db
       | Inr k \<Rightarrow> (case complete_work env workerId job k db of
             (Inr cp, db') \<Rightarrow> (Completed cp, db')
           | (Inl e, db') \<Rightarrow> release_failed env workerId job e db')))"

text \<open>\<open>busy\<close>: the worker is processing already or stopping.\<close>

definition processOne ::
    "node_lib \<Rightarrow> (string \<Rightarrow> int option) \<Rightarrow> registry \<Rightarrow> worker_env \<Rightarrow> bool \<Rightarrow> string \<Rightarrow> int \<Rightarrow> webhook_db
     \<Rightarrow> (job_outcome \<times> webhook_db) option" where
  [js_eval]: "processOne L parseDate R env busy workerId leaseMs db =
     (if busy then Some (NotClaimed, db)
      else case through (wv_claimReach env) (claimNextJob (wv_claimAt env) (wv_locked env) workerId leaseMs db) db of
          (Inl e, db') \<Rightarrow> Some (ClaimFailed (fst (safeFailure e)), db')
        | (Inr None, db') \<Rightarrow> Some (NotClaimed, db')
        | (Inr (Some job), db') \<Rightarrow> process_claimed L parseDate R env workerId job db')"

section \<open>The worker returns\<close>

lemma prepare_ends: "compact_json L \<Longrightarrow> \<exists>r. prepare_job L parseDate R job = Some r"
proof -
  assume c: "compact_json L"
  let ?r = "cj_receipt job"
  let ?event = "resolveFullManagedWebhookEvent (text_or (option_text (rc_eventCode ?r)) (option_text (rc_eventPath ?r)))"
  show ?thesis
  proof (cases "we_family ?event = ''unknown''")
    case False
    show ?thesis
    proof (cases "resolveStored R (rc_appKeyHash ?r) (option_text (rc_openKeyHash ?r)) (rc_deliveryScope ?r) (cj_storeCode job)")
      case st: (Inr identity)
      show ?thesis
      proof (cases "decryptFullManagedWebhookEvent L (rc_ciphertext ?r) (si_appSecretKey identity)")
        case (Inl e)
        then show ?thesis using False st by (simp add: prepare_job_def Let_def)
      next
        case d: (Inr payload)
        obtain n where "normalizeFullManagedWebhookEvent L parseDate ?event payload (si_storeCode identity)
            (rc_deliveryScope ?r) (rc_receivedAt ?r) = Some n"
          using normalize_ends[OF c] by blast
        then show ?thesis using False st d by (simp add: prepare_job_def Let_def)
      qed
    qed (use False in \<open>simp add: prepare_job_def Let_def\<close>)
  qed (simp add: prepare_job_def Let_def)
qed

lemma process_claimed_ends: "compact_json L \<Longrightarrow> \<exists>r. process_claimed L parseDate R env w job db = Some r"
  using prepare_ends[of L parseDate R job] by (auto simp: process_claimed_def)

lemma processOne_ends:
  assumes "compact_json L"
  shows "\<exists>r. processOne L parseDate R env busy w lease db = Some r"
proof (cases busy)
  case False
  obtain x db' where x: "through (wv_claimReach env) (claimNextJob (wv_claimAt env) (wv_locked env) w lease db) db = (x, db')"
    by fastforce
  show ?thesis
  proof (cases x)
    case (Inr y)
    then show ?thesis using False x process_claimed_ends[OF assms] by (cases y) (simp_all add: processOne_def)
  qed (use False x in \<open>simp add: processOne_def\<close>)
qed (simp add: processOne_def)

lemma safeFailure_texts:
  "required 80 (fst (safeFailure e)) = Inr (fst (safeFailure e))"
  "required 300 (snd (safeFailure e)) = Inr (snd (safeFailure e))"
proof -
  have table: "list_all (\<lambda>p. required 80 (fst p) = Inr (fst p) \<and> required 300 (snd p) = Inr (snd p)) SAFE_ERROR_MESSAGES"
    by code_simp
  have "safeFailure e \<in> set SAFE_ERROR_MESSAGES"
    by (auto simp: safeFailure_def split: option.splits dest: map_of_SomeD) (simp add: SAFE_ERROR_MESSAGES_def)
  then show "required 80 (fst (safeFailure e)) = Inr (fst (safeFailure e))"
    "required 300 (snd (safeFailure e)) = Inr (snd (safeFailure e))"
    using table by (auto simp: list_all_iff)
qed

lemma retry_delay_bounds: "5000 \<le> webhookRetryDelayMs n" "webhookRetryDelayMs n \<le> 3600000"
proof -
  have "(1::int) \<le> 2 ^ k" for k by simp
  then show "5000 \<le> webhookRetryDelayMs n" by (simp add: webhookRetryDelayMs_def Let_def)
  show "webhookRetryDelayMs n \<le> 3600000" by (simp add: webhookRetryDelayMs_def Let_def)
qed

end
