(* ===== verification/Webhook_Queue_Properties.thy ===== *)
theory Webhook_Queue_Properties
  imports Webhook_Queue
begin

text \<open>
  What the webhook database promises over every run of calls: the constraints of its rows, one job for
  every receipt, one operational event for every finished job, leases that expire with their last writer,
  bounded claims, gates that only a newer probe reopens, and redeliveries that change nothing.
\<close>

section \<open>Rows\<close>

text \<open>
  Whatever calls are made, in whatever order and at whatever times, every row of the job table keeps the
  constraints of the migration: a job is running exactly while it has an owner and a lease, it is completed
  exactly when it has succeeded, is quarantined or is dead, and it is never attempted more than eight times
  between two requeues.
\<close>

theorem job_rows_keep_their_constraints:
  "list_all job_ok (db_jobs (run_calls cs (empty_db stores probes)))"
  using tables.reached[of cs stores probes] by (simp add: tables_ok_def list_all_iff)

text \<open>
  C20. No accepted delivery is lost and none is queued twice: after any run the receipts and the jobs
  correspond one to one, in their order, and no two receipts share an idempotency key.
\<close>

theorem every_receipt_has_one_job:
  "let db = run_calls cs (empty_db stores probes)
   in map jb_receiptId (db_jobs db) = map rc_id (db_receipts db) \<and> distinct (map rc_id (db_receipts db))
      \<and> distinct (map rc_idempotencyKey (db_receipts db)) \<and> distinct (map jb_id (db_jobs db))"
  using tables.reached[of cs stores probes] by (simp add: tables_ok_def Let_def)

section \<open>One event for every finished job\<close>

definition event_count :: "nat \<Rightarrow> webhook_db \<Rightarrow> nat" where
  [js_eval]: "event_count k db = length (filter (\<lambda>e. oe_receiptId e = k) (db_events db))"

definition effects_ok :: "webhook_db \<Rightarrow> bool" where
  "effects_ok db \<longleftrightarrow> tables_ok db
     \<and> list_all (\<lambda>j. event_count (jb_receiptId j) db = (if effective j then 1 else 0)) (db_jobs db)
     \<and> list_all (\<lambda>e. oe_receiptId e < db_nextReceipt db) (db_events db)"

lemma events_kept:
  assumes "\<nexists>k w n d g q. c = CallComplete k w n d g q"
  shows "db_events (perform now c db) = db_events db"
proof (cases c)
  case (CallStore i)
  show ?thesis
  proof (cases "storeReceiptAndJob now i db")
    case (Pair x db')
    show ?thesis
    proof (cases x)
      case (Inl e)
      then have "db' = db" using Pair rolled_back(1) by blast
      then show ?thesis using Pair CallStore by simp
    next
      case (Inr s)
      obtain v sid where "insert_receipt_and_job now v sid db = Inr (s, db')"
        using storeReceiptAndJob_Inr Pair Inr by blast
      then show ?thesis using Pair CallStore by (cases rule: insert_cases) auto
    qed
  qed
next
  case (CallClaim locked w lease)
  show ?thesis unfolding CallClaim perform.simps claimNextJob_def
    by (rule transaction_keeps) (auto simp: claimed_state_def ebind_Inr_iff)
next
  case (CallRenew k w lease)
  show ?thesis unfolding CallRenew perform.simps renewJobLease_def
    by (rule transaction_keeps) (auto simp: ebind_Inr_iff split: if_splits)
next
  case (CallFail k w ec em delay)
  show ?thesis unfolding CallFail perform.simps failJob_def
    by (rule transaction_keeps) (auto simp: ebind_Inr_iff split: option.splits)
next
  case (CallReopen sc p)
  show ?thesis
  proof (cases "reopenAuthorizationGateFromProbe sc p db")
    case (Pair x db')
    show ?thesis
    proof (cases x)
      case (Inl e)
      then have "db' = db" using Pair rolled_back(6) by blast
      then show ?thesis using Pair CallReopen by simp
    next
      case (Inr b)
      from Pair[unfolded Inr] show ?thesis
      proof (cases rule: reopen_Inr)
        case quiet
        then show ?thesis using Pair CallReopen by simp
      next
        case (opened s g q)
        show ?thesis using Pair CallReopen unfolding opened(4) by simp
      qed
    qed
  qed
next
  case (CallRequeue x)
  then show ?thesis by (simp add: requeueWebhookDeadLetters_def Let_def)
qed (use assms in auto)

text \<open>A move that is no completion leaves the finished jobs as they were.\<close>

lemma moved_effects:
  assumes "moved ok js js'" "\<And>j w. \<not> ok j (Finished w)"
    "list_all (\<lambda>j. f (jb_receiptId j) = (if effective j then 1 else (0::nat))) js"
  shows "list_all (\<lambda>j. f (jb_receiptId j) = (if effective j then 1 else 0)) js'"
  using assms unfolding moved_def
proof (induction rule: list_all2_induct)
  case (Cons x xs y ys)
  then obtain m where m: "ok x m" "job_move x m y" by blast
  then have "effective y = effective x" "jb_receiptId y = jb_receiptId x"
    using job_move_effective[OF m(2)] job_move_ids[OF m(2)] Cons.prems(1) by auto
  then show ?case using Cons by auto
qed simp

lemma event_count_append:
  "event_count k (db\<lparr>db_events := db_events db @ [e], db_nextEvent := n\<rparr>) = event_count k db + (if oe_receiptId e = k then 1 else 0)"
  by (simp add: event_count_def)

lemma find_id: "distinct (map f xs) \<Longrightarrow> x \<in> set xs \<Longrightarrow> f x = k \<Longrightarrow> find (\<lambda>y. f y = k) xs = Some x"
  by (induction xs) auto

lemma find_in: "find p xs = Some x \<Longrightarrow> x \<in> set xs \<and> p x"
  by (auto simp: find_Some_iff)

lemma leased_receipt_facts:
  assumes "leased_receipt now k owner db = Some r"
  obtains j where "j \<in> set (db_jobs db)" "owned_by k owner j" "r \<in> set (db_receipts db)" "rc_id r = jb_receiptId j"
    "\<not> lease_expired now j"
proof -
  obtain j where j: "find (\<lambda>j. owned_by k owner j \<and> \<not> lease_expired now j \<and> jb_leaseExpiresAt j \<noteq> None) (db_jobs db) = Some j"
    "find (\<lambda>r. rc_id r = jb_receiptId j) (db_receipts db) = Some r"
    using assms by (auto simp: leased_receipt_def split: option.splits)
  then show thesis using that[of j] by (auto simp: find_Some_iff)
qed

lemma event_of_normalized_receipt:
  "event_of_normalized db r n = Inr e \<Longrightarrow> oe_receiptId e = rc_id r \<and> oe_id e = db_nextEvent db \<and> oe_storeId e = rc_storeId r"
  by (auto simp: event_of_normalized_def ebind_Inr_iff split: if_splits)

lemma complete_effects:
  assumes ok: "effects_ok db" and c: "completeJob now k w n d g q db = (Inr cp, db')"
  shows "list_all (\<lambda>j. event_count (jb_receiptId j) db' = (if effective j then 1 else 0)) (db_jobs db')
    \<and> list_all (\<lambda>e. oe_receiptId e < db_nextReceipt db') (db_events db')"
proof -
  from c obtain owner and r :: receipt and e db2 where f:
    "leased_receipt now k owner db = Some r" "event_of_normalized db r n = Inr e"
    "insert_directive now (fst (upsert_event e db)) (rc_storeId r) d (snd (upsert_event e db)) = Inr db2"
    "db' = (gate_after now g (rc_storeId r) (fst (upsert_event e db)) db2)
       \<lparr>db_jobs := map (finish_job now k owner (if q then QUARANTINED else SUCCEEDED)) (db_jobs db)\<rparr>"
    by (rule completeJob_Inr) (rule that, assumption+)
  have t: "tables_ok db" using ok by (simp add: effects_ok_def)
  obtain j where j: "j \<in> set (db_jobs db)" "owned_by k owner j" "r \<in> set (db_receipts db)" "rc_id r = jb_receiptId j"
    using leased_receipt_facts[OF f(1)] by blast
  have e: "oe_receiptId e = jb_receiptId j" using event_of_normalized_receipt[OF f(2)] j(4) by simp
  have "\<not> effective j" using j(2) by (auto simp: owned_by_def effective_def)
  then have "event_count (jb_receiptId j) db = 0" using ok j(1) by (auto simp: effects_ok_def list_all_iff)
  then have "find (\<lambda>o'. oe_receiptId o' = oe_receiptId e) (db_events db) = None"
    using e by (auto simp: event_count_def find_None_iff filter_empty_conv)
  then have u: "snd (upsert_event e db) = db\<lparr>db_events := db_events db @ [e], db_nextEvent := Suc (db_nextEvent db)\<rparr>"
    by (simp add: upsert_event_def)
  have ev: "db_events db' = db_events db @ [e]" and nx: "db_nextReceipt db' = db_nextReceipt db"
    using insert_directive_keeps[OF f(3)] u by (simp_all add: f(4))
  have ids: "distinct (map jb_id (db_jobs db))" and rs: "distinct (map jb_receiptId (db_jobs db))"
    using t by (auto simp: tables_ok_def)
  have "event_count (jb_receiptId i') db' = (if effective i' then 1 else 0)" if m: "i' \<in> set (db_jobs db')" for i'
  proof -
    obtain i where i: "i \<in> set (db_jobs db)" "i' = finish_job now k owner (if q then QUARANTINED else SUCCEEDED) i"
      using m by (auto simp: f(4))
    have cnt: "event_count (jb_receiptId i) db' = event_count (jb_receiptId i) db + (if jb_receiptId j = jb_receiptId i then 1 else 0)"
      using e by (simp add: event_count_def ev)
    have old: "event_count (jb_receiptId i) db = (if effective i then 1 else 0)"
      using ok i(1) by (auto simp: effects_ok_def list_all_iff)
    show ?thesis
    proof (cases "i = j")
      case True
      then show ?thesis using cnt old j(2) \<open>\<not> effective j\<close> i(2) by (simp add: finish_job_def effective_def)
    next
      case False
      then have "jb_id i \<noteq> jb_id j" "jb_receiptId i \<noteq> jb_receiptId j"
        using ids rs i(1) j(1) by (auto simp: distinct_map inj_on_def)
      then have "i' = i" using i(2) j(2) by (auto simp: finish_job_def owned_by_def)
      then show ?thesis using cnt old \<open>jb_receiptId i \<noteq> jb_receiptId j\<close> by simp
    qed
  qed
  moreover have "rc_id r < db_nextReceipt db" using t j(3) by (simp add: tables_ok_def)
  ultimately show ?thesis
    using ok e j(4) by (auto simp: list_all_iff ev nx effects_ok_def)
qed

lemma effects_ok_step:
  assumes ok: "effects_ok db"
  shows "effects_ok (perform now c db)"
proof -
  have t: "tables_ok db" and d: "distinct (map jb_id (db_jobs db))" using ok by (simp_all add: effects_ok_def tables_ok_def)
  have t': "tables_ok (perform now c db)" by (rule tables_ok_step[OF t])
  show ?thesis
  proof (cases "\<exists>k w n d g q cp db'. c = CallComplete k w n d g q \<and> completeJob now k w n d g q db = (Inr cp, db')")
    case True
    then obtain k w n d' g q cp db' where c: "c = CallComplete k w n d' g q" "completeJob now k w n d' g q db = (Inr cp, db')"
      by blast
    then show ?thesis using complete_effects[OF ok c(2)] t' by (simp add: effects_ok_def)
  next
    case False
    have ev: "db_events (perform now c db) = db_events db"
    proof (cases "\<exists>k w n d g q. c = CallComplete k w n d g q")
      case True
      then obtain k w n d' g q where c: "c = CallComplete k w n d' g q" by blast
      obtain x db' where x: "completeJob now k w n d' g q db = (x, db')" by fastforce
      with False c obtain e where "x = Inl e" by (cases x) auto
      then have "db' = db" using x rolled_back(4) by blast
      then show ?thesis using x c by simp
    qed (simp add: events_kept)
    have jobs: "list_all (\<lambda>j. event_count (jb_receiptId j) db = (if effective j then 1 else 0)) (db_jobs (perform now c db))"
    proof (cases "\<exists>k w n d g q. c = CallComplete k w n d g q")
      case True
      then obtain k w n d' g q where c: "c = CallComplete k w n d' g q" by blast
      obtain x db' where x: "completeJob now k w n d' g q db = (x, db')" by fastforce
      with False c obtain e where "x = Inl e" by (cases x) auto
      then have "db' = db" using x rolled_back(4) by blast
      then show ?thesis using x c ok by (simp add: effects_ok_def)
    next
      case no: False
      then have fin: "\<not> call_mark c j (Finished w)" for j w by (cases c) auto
      obtain js' new where m: "db_jobs (perform now c db) = js' @ new" "moved (call_mark c) (db_jobs db) js'"
        "new = [] \<or> new = [new_job db now]"
        using call_moves[OF d, of now c] by blast
      have "list_all (\<lambda>j. event_count (jb_receiptId j) db = (if effective j then 1 else 0)) js'"
        using moved_effects[OF m(2) fin, of "\<lambda>k. event_count k db"] ok by (simp add: effects_ok_def)
      moreover have "event_count (db_nextReceipt db) db = 0"
        using ok by (auto simp: effects_ok_def event_count_def list_all_iff filter_empty_conv)
      ultimately show ?thesis using m(1,3) by (auto simp: new_job_def effective_def)
    qed
    have nx: "db_nextReceipt db \<le> db_nextReceipt (perform now c db)"
      by (cases rule: call_receipts[where now = now and c = c and db = db]) auto
    have "event_count k (perform now c db) = event_count k db" for k by (simp add: event_count_def ev)
    then show ?thesis
      using t' jobs ok nx by (auto simp: effects_ok_def ev list_all_iff intro: less_le_trans)
  qed
qed

interpretation effects: db_invariant effects_ok
proof
  show "effects_ok (empty_db stores probes)" for stores probes
    using tables.empty[of stores probes] by (simp add: effects_ok_def empty_db_def)
  show "effects_ok db \<Longrightarrow> effects_ok (perform now c db)" for db now c by (rule effects_ok_step)
qed

text \<open>
  C21. Delivery is at least once, its effect is exactly once: after any run, redeliveries, lost leases and
  requeues included, a job that has succeeded or is quarantined has exactly one operational event for its
  receipt, and every other job has none.
\<close>

theorem one_event_for_every_finished_job:
  "let db = run_calls cs (empty_db stores probes)
   in list_all (\<lambda>j. event_count (jb_receiptId j) db = (if effective j then 1 else 0)) (db_jobs db)"
  using effects.reached[of cs stores probes] by (simp add: effects_ok_def Let_def)

section \<open>Redeliveries\<close>

lemma same_receipt_later:
  assumes "r \<in> set (db_receipts db)"
  shows "\<exists>r'\<in>set (db_receipts (run_calls cs db)). same_receipt r r'"
  using assms
proof (induction cs arbitrary: db r)
  case (Cons x cs)
  obtain now c where x: "x = (now, c)" by fastforce
  have "\<exists>s\<in>set (db_receipts (perform now c db)). same_receipt r s"
  proof (cases rule: call_receipts[where now = now and c = c and db = db])
    case kept
    then show ?thesis using Cons.prems by (metis in_set_conv_nth list_all2_conv_all_nth)
  next
    case (added q)
    then show ?thesis using Cons.prems by (intro bexI[of _ r]) simp_all
  qed
  then obtain s where s: "s \<in> set (db_receipts (perform now c db))" "same_receipt r s" by blast
  then show ?case using Cons.IH[OF s(1)] same_receipt_trans[OF s(2)] x by auto
qed (simp, use same_receipt_refl in blast)

lemma stored_receipt:
  assumes "storeReceiptAndJob now input db = (Inr s, db')"
  obtains i sid r where "validate_input input = Inr i" "lookup_store db (ri_storeCode i) = Inr sid"
    "r \<in> set (db_receipts db')" "rc_id r = sd_receiptId s" "rc_idempotencyKey r = ri_idempotencyKey i"
    "same_delivery i sid r" "ck_event_path (null_if_empty (ri_eventPath i))" "ck_ciphertext (ri_ciphertext i)"
proof -
  obtain i sid where f: "validate_input input = Inr i" "lookup_store db (ri_storeCode i) = Inr sid"
    "insert_receipt_and_job now i sid db = Inr (s, db')"
    using assms storeReceiptAndJob_Inr by blast
  have ck: "ck_event_path (null_if_empty (ri_eventPath i))" "ck_ciphertext (ri_ciphertext i)"
    using f(3) by (auto simp: insert_receipt_and_job_def split: if_splits)
  from f(3) show thesis
  proof (cases rule: insert_cases)
    case (duplicate r)
    have "r \<in> set (db_receipts db)" "rc_idempotencyKey r = ri_idempotencyKey i"
      using duplicate(1) by (auto simp: receipt_by_key_def find_Some_iff)
    then show thesis
      using that[OF f(1,2), of "note_duplicate now (rc_id r) r"] duplicate ck
      by (auto simp: note_duplicate_def same_delivery_def)
  next
    case inserted
    then show thesis using that[OF f(1,2), of "new_receipt db now i sid"] ck
      by (auto simp: new_receipt_def same_delivery_def)
  qed
qed

lemma same_delivery_later: "same_delivery i sid r \<Longrightarrow> same_receipt r r' \<Longrightarrow> same_delivery i sid r'"
  by (auto simp: same_delivery_def dest!: same_receipt_fields)

text \<open>
  C7. A redelivery changes no job. Once a delivery is stored, the same delivery stored again, after any other
  calls and as long as its store is still found, is answered as a duplicate of the same receipt: it adds no
  receipt, no job and no event, and only counts.
\<close>

theorem redelivery_is_a_duplicate:
  assumes "storeReceiptAndJob now input (run_calls before (empty_db stores probes)) = (Inr s, db)"
    and "validate_input input = Inr i"
    and "lookup_store (run_calls between db) (ri_storeCode i)
           = lookup_store (run_calls before (empty_db stores probes)) (ri_storeCode i)"
  shows "let db1 = run_calls between db; (answer, db2) = storeReceiptAndJob later input db1
    in answer = Inr \<lparr>sd_receiptId = sd_receiptId s, sd_duplicate = True\<rparr>
       \<and> db_jobs db2 = db_jobs db1 \<and> db_events db2 = db_events db1
       \<and> map rc_id (db_receipts db2) = map rc_id (db_receipts db1)"
proof -
  let ?db0 = "run_calls before (empty_db stores probes)" and ?db1 = "run_calls between db"
  obtain i' sid r where f: "validate_input input = Inr i'" "lookup_store ?db0 (ri_storeCode i') = Inr sid"
    "r \<in> set (db_receipts db)" "rc_id r = sd_receiptId s" "rc_idempotencyKey r = ri_idempotencyKey i'"
    "same_delivery i' sid r" "ck_event_path (null_if_empty (ri_eventPath i'))" "ck_ciphertext (ri_ciphertext i')"
    by (rule stored_receipt[OF assms(1)])
  have i: "i' = i" using f(1) assms(2) by simp
  obtain r' where r': "r' \<in> set (db_receipts ?db1)" "same_receipt r r'" using same_receipt_later[OF f(3)] by blast
  have "db = perform now (CallStore input) ?db0" using assms(1) by simp
  then have "tables_ok db" using tables.reached[of before stores probes] tables_ok_step by metis
  then have t: "tables_ok ?db1" by (rule tables.run_keeps)
  then have key: "receipt_by_key ?db1 (ri_idempotencyKey i) = Some r'"
    using find_id[of rc_idempotencyKey "db_receipts ?db1" r'] r' f(5) same_receipt_fields[OF r'(2)] i
    by (simp add: receipt_by_key_def tables_ok_def)
  have "insert_receipt_and_job later i sid ?db1 =
      Inr (\<lparr>sd_receiptId = rc_id r', sd_duplicate = True\<rparr>,
           ?db1\<lparr>db_receipts := map (note_duplicate later (rc_id r')) (db_receipts ?db1)\<rparr>)"
    using f(6-8) same_delivery_later[OF _ r'(2)] key by (simp add: insert_receipt_and_job_def i)
  moreover have "lookup_store ?db1 (ri_storeCode i) = Inr sid" using assms(3) f(2) i by simp
  ultimately have "storeReceiptAndJob later input ?db1 =
      (Inr \<lparr>sd_receiptId = rc_id r', sd_duplicate = True\<rparr>,
       ?db1\<lparr>db_receipts := map (note_duplicate later (rc_id r')) (db_receipts ?db1)\<rparr>)"
    by (simp add: storeReceiptAndJob_def assms(2) transaction_def)
  moreover have "rc_id r' = sd_receiptId s" using same_receipt_fields[OF r'(2)] f(4) by simp
  moreover have "rc_id (note_duplicate later k x) = rc_id x" for k x by (simp add: note_duplicate_def)
  ultimately show ?thesis by (simp add: Let_def o_def)
qed

section \<open>Leases\<close>

definition not_held_by :: "nat \<Rightarrow> string \<Rightarrow> webhook_db \<Rightarrow> bool" where
  "not_held_by k w db \<longleftrightarrow> list_all (\<lambda>j. \<not> owned_by k w j) (db_jobs db)"

lemma job_move_owner:
  "job_move j m j' \<Longrightarrow> m \<noteq> Taken w \<Longrightarrow> owned_by k w j' \<Longrightarrow> owned_by k w j"
  by (induction rule: job_move.induct) (auto simp: owned_by_def terminal_def split: if_splits)

lemma moved_owner:
  assumes "moved ok js js'" "\<And>j. \<not> ok j (Taken w)" "list_all (\<lambda>j. \<not> owned_by k w j) js"
  shows "list_all (\<lambda>j. \<not> owned_by k w j) js'"
  using assms unfolding moved_def
proof (induction rule: list_all2_induct)
  case (Cons x xs y ys)
  then obtain m where m: "ok x m" "job_move x m y" by blast
  then have "m \<noteq> Taken w" using Cons.prems(1) by auto
  then show ?case using Cons job_move_owner[OF m(2)] by auto
qed simp

definition claims_by :: "string \<Rightarrow> db_call \<Rightarrow> bool" where
  [js_eval]: "claims_by w c \<longleftrightarrow> (case c of CallClaim locked v lease \<Rightarrow> js_trim v = js_trim w | _ \<Rightarrow> False)"

lemma not_held_step:
  assumes "tables_ok db" "not_held_by k (js_trim w) db" "\<not> claims_by w c"
  shows "not_held_by k (js_trim w) (perform now c db)"
proof -
  have d: "distinct (map jb_id (db_jobs db))" using assms(1) by (simp add: tables_ok_def)
  obtain js' new where m: "db_jobs (perform now c db) = js' @ new" "moved (call_mark c) (db_jobs db) js'"
    "new = [] \<or> new = [new_job db now]"
    using call_moves[OF d, of now c] by blast
  have "\<not> call_mark c j (Taken (js_trim w))" for j using assms(3) by (cases c) (auto simp: claims_by_def)
  then have "list_all (\<lambda>j. \<not> owned_by k (js_trim w) j) js'"
    using moved_owner[OF m(2)] assms(2) by (simp add: not_held_by_def)
  then show ?thesis using m(1,3) by (auto simp: not_held_by_def owned_by_def new_job_def)
qed

lemma not_held_run:
  "tables_ok db \<Longrightarrow> not_held_by k (js_trim w) db \<Longrightarrow> list_all (\<lambda>x. \<not> claims_by w (snd x)) cs
     \<Longrightarrow> not_held_by k (js_trim w) (run_calls cs db)"
proof (induction cs arbitrary: db)
  case (Cons x cs)
  then show ?case using tables_ok_step not_held_step by (cases x) auto
qed simp

lemma not_held_refused:
  assumes "not_held_by k (js_trim w) db"
  shows "\<exists>e. completeJob now k w n d g q db = (Inl e, db)" "\<exists>e. failJob now k w ec em delay db = (Inl e, db)"
    "\<exists>e. renewJobLease now k w lease db = (Inl e, db)"
proof -
  have none: "find (owned_by k owner) (db_jobs db) = None" "\<not> list_ex (owned_by k owner) (db_jobs db)"
    if "required 200 w = Inr owner" for owner
    using assms required_facts[OF that] by (auto simp: not_held_by_def list_all_iff list_ex_iff find_None_iff)
  have "fst (completeJob now k w n d g q db) \<noteq> Inr cp" for cp
  proof
    assume "fst (completeJob now k w n d g q db) = Inr cp"
    then obtain db' where "completeJob now k w n d g q db = (Inr cp, db')" by (metis prod.collapse)
    then show False by (rule completeJob_Inr) (use none in blast)
  qed
  then obtain e where "fst (completeJob now k w n d g q db) = Inl e" by (metis sum.exhaust)
  then show "\<exists>e. completeJob now k w n d g q db = (Inl e, db)"
    using rolled_back(4)[of now k w n d g q db e "snd (completeJob now k w n d g q db)"] by (metis prod.collapse)
  have "fst (failJob now k w ec em delay db) \<noteq> Inr st" for st
    using none by (auto simp: failJob_def transaction_fst ebind_Inr_iff split: sum.splits prod.splits)
  then obtain e where "fst (failJob now k w ec em delay db) = Inl e" by (metis sum.exhaust)
  then show "\<exists>e. failJob now k w ec em delay db = (Inl e, db)"
    using rolled_back(5)[of now k w ec em delay db e "snd (failJob now k w ec em delay db)"] by (metis prod.collapse)
  have "fst (renewJobLease now k w lease db) \<noteq> Inr st" for st
    using none by (auto simp: renewJobLease_def transaction_fst ebind_Inr_iff split: sum.splits prod.splits if_splits)
  then obtain e where "fst (renewJobLease now k w lease db) = Inl e" by (metis sum.exhaust)
  then show "\<exists>e. renewJobLease now k w lease db = (Inl e, db)"
    using rolled_back(3)[of now k w lease db e "snd (renewJobLease now k w lease db)"] by (metis prod.collapse)
qed

text \<open>What a claim returns and does.\<close>

lemma claim_result:
  assumes "claimNextJob now locked w lease db = (Inr (Some cj), db')"
  obtains c where "claim_candidate now locked db = Some c" "cj_jobId cj = jb_id c"
    "cj_attemptCount cj = Suc (jb_attemptCount c)" "5000 \<le> lease" "lease_text (js_trim w)"
    "db' = claimed_state now (js_trim w) lease locked db"
proof -
  obtain owner l where o: "required 200 w = Inr owner" "bounded 5000 900000 lease = Inr l"
    "db' = claimed_state now owner l locked db"
    "(case claim_candidate now locked db of None \<Rightarrow> None
      | Some c \<Rightarrow> claim_row db (take_lease now owner l (jb_id c) c)) = Some cj"
    using assms by (auto simp: claimNextJob_def transaction_Inr ebind_Inr_iff)
  then obtain c where c: "claim_candidate now locked db = Some c" "claim_row db (take_lease now owner l (jb_id c) c) = Some cj"
    by (auto split: option.splits)
  have "cj_jobId cj = jb_id c" "cj_attemptCount cj = Suc (jb_attemptCount c)"
    using c(2) by (auto simp: claim_row_def take_lease_def split: option.splits)
  then show thesis using that[OF c(1)] o required_facts[OF o(1)] by (auto simp: bounded_Inr)
qed

lemma claimed_owner:
  assumes "distinct (map jb_id (db_jobs db))" "claim_candidate now locked db = Some c" "w \<noteq> owner"
  shows "not_held_by (jb_id c) w (claimed_state now owner lease locked db)"
proof -
  note c = claim_candidate_facts[OF assms(2)]
  have "\<not> owned_by (jb_id c) w (take_lease now owner lease (jb_id c) (exhaust_job now j))" if "j \<in> set (db_jobs db)" for j
    using assms(3) by (auto simp: owned_by_def take_lease_def exhaust_job_def)
  then show ?thesis by (simp add: not_held_by_def list_all_iff claimed_state_def assms(2))
qed

text \<open>
  C8. A lease that was taken over cannot write. Once another worker has claimed a job, whatever a worker that
  held it before still tries, completing, failing or renewing it, is refused and leaves the database as it
  is, for as long as that worker makes no claim of its own; what others do meanwhile does not matter.
\<close>

theorem lost_lease_cannot_write:
  assumes "claimNextJob now locked w' lease (run_calls before (empty_db stores probes)) = (Inr (Some cj), db)"
    and "js_trim w \<noteq> js_trim w'" and "list_all (\<lambda>x. \<not> claims_by w (snd x)) between"
  shows "let db1 = run_calls between db in
     (\<exists>e. completeJob later (cj_jobId cj) w n d g q db1 = (Inl e, db1))
     \<and> (\<exists>e. failJob later (cj_jobId cj) w ec em delay db1 = (Inl e, db1))
     \<and> (\<exists>e. renewJobLease later (cj_jobId cj) w again db1 = (Inl e, db1))"
proof -
  let ?db0 = "run_calls before (empty_db stores probes)"
  have t: "tables_ok ?db0" by (rule tables.reached)
  obtain c where c: "claim_candidate now locked ?db0 = Some c" "cj_jobId cj = jb_id c"
    "db = claimed_state now (js_trim w') lease locked ?db0"
    by (rule claim_result[OF assms(1)])
  have "distinct (map jb_id (db_jobs ?db0))" using t by (simp add: tables_ok_def)
  then have "not_held_by (cj_jobId cj) (js_trim w) db" using claimed_owner[OF _ c(1) assms(2)] c(2,3) by simp
  moreover have "db = perform now (CallClaim locked w' lease) ?db0" using assms(1) by simp
  then have "tables_ok db" using tables_ok_step[OF t] by metis
  ultimately have "not_held_by (cj_jobId cj) (js_trim w) (run_calls between db)"
    using assms(3) by (intro not_held_run)
  then show ?thesis using not_held_refused by (simp add: Let_def)
qed

section \<open>Claims are bounded\<close>

definition claimed :: "nat \<Rightarrow> int \<Rightarrow> db_call \<Rightarrow> webhook_db \<Rightarrow> nat" where
  [js_eval]: "claimed k now c db =
     (case c of CallClaim locked w lease \<Rightarrow>
        (case fst (claimNextJob now locked w lease db) of
           Inr (Some cj) \<Rightarrow> if cj_jobId cj = k then 1 else 0
         | _ \<Rightarrow> 0)
      | _ \<Rightarrow> 0)"

fun claim_count :: "nat \<Rightarrow> (int \<times> db_call) list \<Rightarrow> webhook_db \<Rightarrow> nat" where
  "claim_count k [] db = 0"
| "claim_count k ((now, c) # cs) db = claimed k now c db + claim_count k cs (perform now c db)"

definition requeue_count :: "(int \<times> db_call) list \<Rightarrow> nat" where
  [js_eval]: "requeue_count cs = length (filter (\<lambda>x. snd x = CallRequeue True) cs)"

definition attempts_of :: "nat \<Rightarrow> webhook_db \<Rightarrow> nat" where
  [js_eval]: "attempts_of k db = sum_list (map (\<lambda>j. if jb_id j = k then jb_attemptCount j else 0) (db_jobs db))"

lemma sum_one:
  "distinct (map f xs) \<Longrightarrow> sum_list (map (\<lambda>x. if f x = k then g x else 0) xs)
     = (case find (\<lambda>x. f x = k) xs of None \<Rightarrow> (0::nat) | Some x \<Rightarrow> g x)"
proof (induction xs)
  case (Cons x xs)
  show ?case
  proof (cases "f x = k")
    case True
    then have "\<forall>y\<in>set xs. f y \<noteq> k" using Cons.prems by (metis distinct.simps(2) image_eqI list.set_map list.simps(9))
    then have "sum_list (map (\<lambda>x. if f x = k then g x else 0) xs) = 0" by (induction xs) auto
    then show ?thesis using True by simp
  qed (use Cons in simp)
qed simp

lemma attempts_le:
  assumes "tables_ok db"
  shows "attempts_of k db \<le> 8"
proof -
  have "attempts_of k db = (case find (\<lambda>j. jb_id j = k) (db_jobs db) of None \<Rightarrow> 0 | Some j \<Rightarrow> jb_attemptCount j)"
    using sum_one[of jb_id "db_jobs db" k jb_attemptCount] assms by (simp add: attempts_of_def tables_ok_def)
  moreover have "jb_attemptCount j \<le> 8" if "find (\<lambda>j. jb_id j = k) (db_jobs db) = Some j" for j
    using find_in[OF that] assms by (auto simp: tables_ok_def job_ok_def)
  ultimately show ?thesis by (simp split: option.splits)
qed

lemma job_move_attempts: "job_move j m j' \<Longrightarrow> m \<noteq> Requeued \<Longrightarrow> jb_attemptCount j \<le> jb_attemptCount j'"
  by (induction rule: job_move.induct) auto

lemma moved_attempts:
  "moved ok js js' \<Longrightarrow> (\<And>j. \<not> ok j Requeued) \<Longrightarrow>
    sum_list (map (\<lambda>j. if jb_id j = k then jb_attemptCount j else 0) js)
      \<le> sum_list (map (\<lambda>j. if jb_id j = k then jb_attemptCount j else 0) js')"
  unfolding moved_def
proof (induction rule: list_all2_induct)
  case (Cons x xs y ys)
  then obtain m where m: "ok x m" "job_move x m y" by blast
  then have "jb_attemptCount x \<le> jb_attemptCount y" "jb_id y = jb_id x"
    using job_move_attempts[OF m(2)] job_move_ids[OF m(2)] Cons.prems by auto
  then show ?case using Cons by auto
qed simp

lemma claim_adds_attempt:
  assumes "tables_ok db" "claim_candidate now locked db = Some c"
  shows "attempts_of (jb_id c) (claimed_state now owner lease locked db) = Suc (attempts_of (jb_id c) db)"
proof -
  note c = claim_candidate_facts[OF assms(2)]
  let ?f = "\<lambda>j. take_lease now owner lease (jb_id c) (exhaust_job now j)"
  have d: "distinct (map jb_id (db_jobs db))" using assms(1) by (simp add: tables_ok_def)
  have ids: "jb_id (?f j) = jb_id j" for j by (simp add: take_lease_def exhaust_job_def)
  then have d': "distinct (map jb_id (map ?f (db_jobs db)))" using d by (simp add: o_def)
  have "find (\<lambda>j. jb_id j = jb_id c) (db_jobs db) = Some c" using find_id[OF d] c by simp
  moreover have "find (\<lambda>j. jb_id j = jb_id c) (map ?f (db_jobs db)) = Some (?f c)"
    by (rule find_id[OF d']) (use c ids in auto)
  moreover have "jb_attemptCount (?f c) = Suc (jb_attemptCount c)"
    using c by (simp add: take_lease_def exhaust_claimable)
  moreover have "db_jobs (claimed_state now owner lease locked db) = map ?f (db_jobs db)"
    by (simp add: claimed_state_def assms(2))
  ultimately show ?thesis
    using sum_one[OF d, of "jb_id c" jb_attemptCount] sum_one[OF d', of "jb_id c" jb_attemptCount]
    by (simp only: attempts_of_def option.case)
qed

lemma attempts_step:
  assumes t: "tables_ok db"
  shows "claimed k now c db + attempts_of k db
    \<le> attempts_of k (perform now c db) + (if c = CallRequeue True then 8 else 0)"
proof (cases "claimed k now c db = 0")
  case True
  have d: "distinct (map jb_id (db_jobs db))" using t by (simp add: tables_ok_def)
  obtain js' new where m: "db_jobs (perform now c db) = js' @ new" "moved (call_mark c) (db_jobs db) js'"
    using call_moves[OF d, of now c] by blast
  show ?thesis
  proof (cases "c = CallRequeue True")
    case False
    then have "\<not> call_mark c j Requeued" for j by (cases c) auto
    then show ?thesis using moved_attempts[OF m(2), of k] m(1) True by (simp add: attempts_of_def)
  qed (use True attempts_le[OF t, of k] in simp)
next
  case False
  then obtain locked w lease cj where c: "c = CallClaim locked w lease"
    "fst (claimNextJob now locked w lease db) = Inr (Some cj)" "cj_jobId cj = k"
    by (auto simp: claimed_def split: db_call.splits sum.splits option.splits if_splits)
  then obtain db' where r: "claimNextJob now locked w lease db = (Inr (Some cj), db')" by (metis prod.collapse)
  obtain j where j: "claim_candidate now locked db = Some j" "cj_jobId cj = jb_id j"
    "db' = claimed_state now (js_trim w) lease locked db"
    by (rule claim_result[OF r])
  then show ?thesis using c r claim_adds_attempt[OF t j(1)] by (simp add: claimed_def)
qed

lemma claim_count_le:
  "tables_ok db \<Longrightarrow> claim_count k cs db + attempts_of k db \<le> 8 + 8 * requeue_count cs"
proof (induction cs arbitrary: db)
  case Nil
  then show ?case using attempts_le[of db k] by simp
next
  case (Cons x cs)
  obtain now c where x: "x = (now, c)" by fastforce
  have "claim_count k cs (perform now c db) + attempts_of k (perform now c db) \<le> 8 + 8 * requeue_count cs"
    using Cons.IH tables_ok_step[OF Cons.prems] by blast
  then show ?case using attempts_step[OF Cons.prems, of k now c] by (auto simp: x requeue_count_def split: if_splits)
qed

text \<open>
  C31. No job is processed forever: in any run, a job is handed to a worker at most eight times, and eight times
  more for every requeue by the operator, however often workers crash and leases expire.
\<close>

theorem claims_of_a_job_are_bounded:
  "claim_count k cs (empty_db stores probes) \<le> 8 * (1 + requeue_count cs)"
  using claim_count_le[OF tables.empty, of k cs stores probes] by simp

section \<open>Gates\<close>

text \<open>
  A blocked gate names its event and awaits a probe; an open one was opened by a recorded probe of its store
  that was granted after the gate had been blocked.
\<close>

definition gate_ok :: "webhook_db \<Rightarrow> gate \<Rightarrow> bool" where
  [js_eval]: "gate_ok db g \<longleftrightarrow>
     (if gt_blocked g then gt_reopenedAt g = None \<and> gt_recoveryRequiresProbe g
      else list_ex (\<lambda>p. gt_lastProbeId g = Some (pb_id p) \<and> gt_reopenedAt g = Some (pb_probedAt p)
             \<and> granting_probe (pb_id p) (gt_storeId g) (gt_blockedAt g) p) (db_probes db))"

definition gates_ok :: "webhook_db \<Rightarrow> bool" where
  "gates_ok db \<longleftrightarrow> list_all (gate_ok db) (db_gates db) \<and> distinct (map gt_storeId (db_gates db))"

lemma gates_same: "db_gates db' = db_gates db \<Longrightarrow> set (db_probes db) \<subseteq> set (db_probes db') \<Longrightarrow> gates_ok db \<Longrightarrow> gates_ok db'"
  unfolding gates_ok_def gate_ok_def list_all_iff list_ex_iff by (auto split: if_splits) (meson subsetD)

lemma gates_closed:
  assumes "gates_ok db"
  shows "gates_ok (close_gate now s ev db)"
proof -
  have b: "gate_ok x (blocked_gate now s ev)" "gt_storeId (blocked_gate now s ev) = s" for x s
    by (simp_all add: gate_ok_def blocked_gate_def)
  have m: "gt_storeId \<circ> (\<lambda>g. if gt_storeId g = s then blocked_gate now s ev else g) = gt_storeId"
    by (simp add: fun_eq_iff b)
  have p: "gate_ok (close_gate now s ev db) g = gate_ok db g" for g by (simp add: gate_ok_def)
  show ?thesis
  proof (cases "list_ex (\<lambda>g. gt_storeId g = s) (db_gates db)")
    case True
    then have "db_gates (close_gate now s ev db) = map (\<lambda>g. if gt_storeId g = s then blocked_gate now s ev else g) (db_gates db)"
      by (simp add: close_gate_def)
    then show ?thesis using assms m by (auto simp: gates_ok_def p b list_all_iff)
  next
    case False
    then have "db_gates (close_gate now s ev db) = db_gates db @ [blocked_gate now s ev]" by (simp add: close_gate_def)
    then show ?thesis using assms False by (auto simp: gates_ok_def p b list_ex_iff list_all_iff)
  qed
qed

lemma gates_reopened:
  assumes ok: "gates_ok db" and g: "find (\<lambda>g. gt_storeId g = s \<and> gt_blocked g) (db_gates db) = Some g"
    and p: "find (granting_probe probeId s (gt_blockedAt g)) (db_probes db) = Some p"
  shows "gates_ok (db\<lparr>db_gates := map (reopen_gate p s) (db_gates db)\<rparr>)"
proof -
  have pr: "p \<in> set (db_probes db)" "granting_probe probeId s (gt_blockedAt g) p" "pb_id p = probeId"
    using p by (auto simp: find_Some_iff granting_probe_def)
  have one: "h = g" if "h \<in> set (db_gates db)" "gt_storeId h = s" for h
    using that ok g by (auto simp: gates_ok_def find_Some_iff distinct_map inj_on_def)
  have gg: "gt_storeId g = s" using g by (auto simp: find_Some_iff)
  have "gate_ok (db\<lparr>db_gates := map (reopen_gate p s) (db_gates db)\<rparr>) (reopen_gate p s h)" if h: "h \<in> set (db_gates db)" for h
  proof (cases "gt_storeId h = s \<and> gt_blocked h")
    case True
    then have "h = g" using one h by blast
    then show ?thesis using True pr gg by (auto simp: gate_ok_def reopen_gate_def list_ex_iff)
  next
    case False
    then have "reopen_gate p s h = h" by (simp only: reopen_gate_def if_not_P not_False_eq_True if_False)
    then show ?thesis using ok h by (auto simp: gates_ok_def gate_ok_def list_all_iff)
  qed
  moreover have "gt_storeId \<circ> reopen_gate p s = gt_storeId" by (simp add: fun_eq_iff reopen_gate_def)
  ultimately show ?thesis using ok by (simp add: gates_ok_def list_all_iff)
qed

lemma gates_kept:
  assumes "\<nexists>k w n d g q. c = CallComplete k w n d g q" "\<nexists>sc p. c = CallReopen sc p"
  shows "db_gates (perform now c db) = db_gates db \<and> set (db_probes db) \<subseteq> set (db_probes (perform now c db))"
proof (cases c)
  case (CallStore i)
  show ?thesis
  proof (cases "storeReceiptAndJob now i db")
    case (Pair x db')
    show ?thesis
    proof (cases x)
      case (Inl e)
      then have "db' = db" using Pair rolled_back(1) by blast
      then show ?thesis using Pair CallStore by simp
    next
      case (Inr s)
      obtain v sid where "insert_receipt_and_job now v sid db = Inr (s, db')"
        using storeReceiptAndJob_Inr Pair Inr by blast
      then show ?thesis using Pair CallStore by (cases rule: insert_cases) auto
    qed
  qed
next
  case (CallClaim locked w lease)
  show ?thesis unfolding CallClaim perform.simps claimNextJob_def
    by (rule transaction_keeps) (auto simp: claimed_state_def ebind_Inr_iff)
next
  case (CallRenew k w lease)
  show ?thesis unfolding CallRenew perform.simps renewJobLease_def
    by (rule transaction_keeps) (auto simp: ebind_Inr_iff split: if_splits)
next
  case (CallFail k w ec em delay)
  show ?thesis unfolding CallFail perform.simps failJob_def
    by (rule transaction_keeps) (auto simp: ebind_Inr_iff split: option.splits)
next
  case (CallRequeue x)
  then show ?thesis by (simp add: requeueWebhookDeadLetters_def Let_def)
qed (use assms in auto)

lemma gates_ok_step:
  assumes ok: "gates_ok db"
  shows "gates_ok (perform now c db)"
proof -
  consider (complete) k w n d g q where "c = CallComplete k w n d g q" | (reopen) sc p where "c = CallReopen sc p"
    | (other) "\<nexists>k w n d g q. c = CallComplete k w n d g q" "\<nexists>sc p. c = CallReopen sc p"
    by blast
  then show ?thesis
  proof cases
    case complete
    show ?thesis
    proof (cases "completeJob now k w n d g q db")
      case (Pair x db')
      show ?thesis
      proof (cases x)
        case (Inl e)
        then have "db' = db" using Pair rolled_back(4) by blast
        then show ?thesis using Pair complete ok by simp
      next
        case (Inr cp)
        from Pair[unfolded Inr] obtain owner and r :: receipt and e db2 where f:
          "insert_directive now (fst (upsert_event e db)) (rc_storeId r) d (snd (upsert_event e db)) = Inr db2"
          "db' = (gate_after now g (rc_storeId r) (fst (upsert_event e db)) db2)
            \<lparr>db_jobs := map (finish_job now k owner (if q then QUARANTINED else SUCCEEDED)) (db_jobs db)\<rparr>"
          by (rule completeJob_Inr) (rule that, assumption+)
        have "gates_ok db2" by (rule gates_same[OF _ _ ok]) (use insert_directive_keeps[OF f(1)] in simp_all)
        then have "gates_ok (gate_after now g (rc_storeId r) (fst (upsert_event e db)) db2)"
          by (auto simp: gate_after_def intro: gates_closed split: option.splits)
        then have "gates_ok db'" by (rule gates_same[rotated 2]) (simp_all add: f(2))
        then show ?thesis using Pair complete by simp
      qed
    qed
  next
    case reopen
    show ?thesis
    proof (cases "reopenAuthorizationGateFromProbe sc p db")
      case (Pair x db')
      show ?thesis
      proof (cases x)
        case (Inl e)
        then have "db' = db" using Pair rolled_back(6) by blast
        then show ?thesis using Pair reopen ok by simp
      next
        case (Inr b)
        from Pair[unfolded Inr] show ?thesis
        proof (cases rule: reopen_Inr)
          case quiet
          then show ?thesis using Pair reopen ok by simp
        next
          case (opened s g q)
          show ?thesis using Pair reopen gates_reopened[OF ok opened(1,2)] unfolding opened(4) by simp
        qed
      qed
    qed
  next
    case other
    then show ?thesis using gates_kept[OF other, of now db] gates_same[OF _ _ ok] by blast
  qed
qed

interpretation gates: db_invariant gates_ok
proof
  show "gates_ok (empty_db stores probes)" for stores probes by (simp add: gates_ok_def empty_db_def)
  show "gates_ok db \<Longrightarrow> gates_ok (perform now c db)" for db now c by (rule gates_ok_step)
qed

text \<open>
  C22. A store gate fails closed: after any run there is at most one gate for a store, a blocked gate still waits
  for its probe, and an open one was opened by a recorded read-only probe of that very store which was granted
  strictly after the gate had been blocked.
\<close>

theorem gates_open_only_after_a_newer_probe:
  "let db = run_calls cs (empty_db stores probes)
   in list_all (gate_ok db) (db_gates db) \<and> distinct (map gt_storeId (db_gates db))"
  using gates.reached[of cs stores probes] by (simp add: gates_ok_def Let_def)

section \<open>A concrete delivery\<close>

text \<open>A delivery that the tables take, for the concrete instances.\<close>

definition sample_hash :: string where
  [js_eval]: "sample_hash = replicate 64 (CHR ''0'')"

definition sample_input :: receipt_input where
  [js_eval]: "sample_input =
     \<lparr>ri_idempotencyKey = sample_hash, ri_appKeyHash = sample_hash, ri_openKeyHash = [], ri_eventCode = ''3001435'',
      ri_eventPath = ''/purchase_order_notice'', ri_storeCode = Some ''S1'', ri_deliveryScope = ''STORE'',
      ri_platformTimestamp = 0, ri_cipherSha256 = sample_hash, ri_ciphertext = ''AAAA'',
      ri_safeProjection = JObj [], ri_statementTimeoutMs = 4000\<rparr>"

definition sample_stores :: "store_row list" where
  [js_eval]: "sample_stores = [\<lparr>dim_storeId = 1, dim_storeCode = ''S1'', dim_isActive = True\<rparr>]"

definition sample_db :: webhook_db where
  [js_eval]: "sample_db = (empty_db sample_stores [])
     \<lparr>db_receipts := [new_receipt (empty_db sample_stores []) 5 sample_input (Some 1)],
      db_jobs := [new_job (empty_db sample_stores []) 5],
      db_nextReceipt := Suc (db_nextReceipt (empty_db sample_stores [])),
      db_nextJob := Suc (db_nextJob (empty_db sample_stores []))\<rparr>"

lemma sample_hash_text: "hash_text sample_hash = Inr sample_hash"
  by code_simp

lemma sample_valid: "validate_input sample_input = Inr sample_input"
proof -
  have t: "required 32 ''S1'' = Inr ''S1''" "required 16 ''STORE'' = Inr ''STORE''" "js_upper ''STORE'' = ''STORE''"
    "optionalRepositoryText 40 ''3001435'' = Inr ''3001435''"
    "optionalRepositoryText 180 ''/purchase_order_notice'' = Inr ''/purchase_order_notice''"
    "required 2097152 ''AAAA'' = Inr ''AAAA''" "safeJson 4096 (JObj []) = Inr (JObj [])"
    by code_simp+
  show ?thesis by (simp add: validate_input_def sample_input_def sample_hash_text t bounded_def)
qed

lemma sample_fields:
  "ri_storeCode sample_input = Some ''S1''" "ri_idempotencyKey sample_input = sample_hash"
  "ri_eventPath sample_input = ''/purchase_order_notice''" "ri_ciphertext sample_input = ''AAAA''"
  by (simp_all add: sample_input_def)

lemma sample_stored:
  "storeReceiptAndJob 5 sample_input (empty_db sample_stores []) =
     (Inr \<lparr>sd_receiptId = 1, sd_duplicate = False\<rparr>, sample_db)"
proof -
  have "lookup_store (empty_db sample_stores []) (ri_storeCode sample_input) = Inr (Some 1)"
    unfolding sample_fields by code_simp
  moreover have "ck_event_path (Some ''/purchase_order_notice'')" "ck_ciphertext ''AAAA''" by code_simp+
  ultimately show ?thesis
    by (simp add: storeReceiptAndJob_def sample_valid transaction_def insert_receipt_and_job_def sample_db_def
        receipt_by_key_def null_if_empty_def sample_fields) (simp add: empty_db_def)
qed

theorem redelivery_is_a_duplicate_witness:
  "let (answer, db2) = storeReceiptAndJob 9 sample_input sample_db
    in answer = Inr \<lparr>sd_receiptId = 1, sd_duplicate = True\<rparr>
       \<and> db_jobs db2 = db_jobs sample_db \<and> db_events db2 = db_events sample_db
       \<and> map rc_id (db_receipts db2) = map rc_id (db_receipts sample_db)"
proof -
  have "lookup_store sample_db (ri_storeCode sample_input) = lookup_store (empty_db sample_stores []) (ri_storeCode sample_input)"
    by (simp add: lookup_store_def sample_db_def sample_fields)
  then show ?thesis
    using redelivery_is_a_duplicate[where before = "[]" and between = "[]" and later = 9,
        unfolded run_calls_simps, OF sample_stored sample_valid] by simp
qed

definition sample_calls :: "(int \<times> db_call) list" where
  [js_eval]: "sample_calls = [(5, CallStore sample_input)]"

lemma sample_run: "run_calls sample_calls (empty_db sample_stores []) = sample_db"
  by (simp add: sample_calls_def sample_stored)

lemma sample_claim: "\<exists>cj. fst (claimNextJob 10 [] ''b'' 5000 sample_db) = Inr (Some cj) \<and> cj_jobId cj = 1"
proof -
  have "required 200 ''b'' = Inr ''b''" by code_simp
  then show ?thesis
    by (simp add: claimNextJob_def bounded_def transaction_def claim_candidate_def sample_db_def empty_db_def new_job_def
        claimable_def claim_row_def new_receipt_def take_lease_def)
qed

theorem lost_lease_cannot_write_witness:
  "(\<exists>e. failJob 11 1 ''a'' ''E'' ''m'' 1000 (snd (claimNextJob 10 [] ''b'' 5000 sample_db))
      = (Inl e, snd (claimNextJob 10 [] ''b'' 5000 sample_db)))
   \<and> (\<exists>e. renewJobLease 11 1 ''a'' 5000 (snd (claimNextJob 10 [] ''b'' 5000 sample_db))
      = (Inl e, snd (claimNextJob 10 [] ''b'' 5000 sample_db)))"
proof -
  obtain cj where c: "claimNextJob 10 [] ''b'' 5000 (run_calls sample_calls (empty_db sample_stores []))
      = (Inr (Some cj), snd (claimNextJob 10 [] ''b'' 5000 sample_db))" "cj_jobId cj = 1"
    using sample_claim by (metis prod.collapse sample_run)
  have "js_trim ''a'' \<noteq> js_trim ''b''" by code_simp
  from lost_lease_cannot_write[OF c(1) this, of "[]"] show ?thesis
    by (simp add: Let_def c(2))
qed

end
