(* ===== verification/Webhook_Worker_Properties.thy ===== *)
theory Webhook_Worker_Properties
  imports Webhook_Worker Webhook_Queue_Properties
begin

text \<open>
  The worker against the queue: a worker that keeps running drains the queue, and only an authorization
  change of a store closes a gate.
\<close>

section \<open>The queue drains\<close>

definition steady_env :: "int \<Rightarrow> int \<Rightarrow> worker_env" where
  [js_eval]: "steady_env t u =
     \<lparr>wv_claimAt = t, wv_endAt = u, wv_locked = [], wv_claimReach = Reached, wv_completeReach = Reached,
      wv_failReach = Reached\<rparr>"

text \<open>
  One worker alone: it claims at \<open>t\<close>, ends the job \<open>d\<close> milliseconds later and comes back an hour after
  that, when every retry delay has passed.
\<close>

primrec rounds ::
    "node_lib \<Rightarrow> (string \<Rightarrow> int option) \<Rightarrow> registry \<Rightarrow> string \<Rightarrow> int \<Rightarrow> int \<Rightarrow> nat \<Rightarrow> int \<Rightarrow> webhook_db
     \<Rightarrow> webhook_db option" where
  "rounds L parseDate R w lease d 0 t db = Some db"
| "rounds L parseDate R w lease d (Suc n) t db =
     Option.bind (processOne L parseDate R (steady_env t (t + d)) False w lease db)
       (\<lambda>x. rounds L parseDate R w lease d n (t + d + 3600000) (snd x))"

definition due :: "int \<Rightarrow> job \<Rightarrow> bool" where
  [js_eval]: "due t j \<longleftrightarrow> terminal (jb_status j)
     \<or> (jb_status j = QUEUED \<or> jb_status j = RETRY) \<and> jb_availableAt j \<le> t
     \<or> jb_status j = RUNNING \<and> lease_expired t j"

definition job_work :: "job \<Rightarrow> nat" where
  [js_eval]: "job_work j = (if terminal (jb_status j) then 0 else 9 - jb_attemptCount j)"

definition work_left :: "webhook_db \<Rightarrow> nat" where
  [js_eval]: "work_left db = sum_list (map job_work (db_jobs db))"

lemma sum_le: "(\<And>x. x \<in> set xs \<Longrightarrow> g (f x) \<le> g x) \<Longrightarrow> sum_list (map g (map f xs)) \<le> (sum_list (map g xs) :: nat)"
  by (induction xs) (auto intro: add_mono)

lemma sum_less:
  "(\<And>x. x \<in> set xs \<Longrightarrow> g (f x) \<le> g x) \<Longrightarrow> c \<in> set xs \<Longrightarrow> g (f c) < (g c :: nat)
    \<Longrightarrow> sum_list (map g (map f xs)) < sum_list (map g xs)"
proof (induction xs)
  case (Cons x xs)
  have rest: "sum_list (map g (map f xs)) \<le> sum_list (map g xs)" using Cons.prems(1) by (intro sum_le) simp
  show ?case
  proof (cases "x = c")
    case True
    then show ?thesis using rest Cons.prems(3) by simp
  next
    case False
    then have "sum_list (map g (map f xs)) < sum_list (map g xs)" using Cons by simp
    moreover have "g (f x) \<le> g x" using Cons.prems(1) by simp
    ultimately show ?thesis by simp
  qed
qed simp

lemma exhaust_work: "job_work (exhaust_job now j) \<le> job_work j"
  by (simp add: job_work_def exhaust_job_def terminal_def)

lemma exhaust_due: "due t j \<Longrightarrow> due t (exhaust_job t j)"
  by (simp add: due_def exhaust_job_def terminal_def)

lemma due_later: "due t j \<Longrightarrow> t \<le> u \<Longrightarrow> due u j"
  by (auto simp: due_def lease_expired_def split: option.splits)

lemma due_cases:
  assumes "due t j" "job_ok j"
  obtains "terminal (jb_status j)" | "claimable t j" | "jb_status j = RUNNING" "terminal (jb_status (exhaust_job t j))"
proof (cases "jb_status j = RUNNING \<and> lease_expired t j \<and> jb_maxAttempts j \<le> jb_attemptCount j")
  case True
  then have "terminal (jb_status (exhaust_job t j))" by (simp add: exhaust_job_def terminal_def)
  then show thesis using True that(3) by blast
next
  case False
  then show thesis
    using assms that(1,2) by (auto simp: due_def claimable_def job_ok_def split: if_splits)
qed

text \<open>The jobs after a claim that found something, and after the claimed one has ended.\<close>

definition after_claim :: "int \<Rightarrow> string \<Rightarrow> int \<Rightarrow> job \<Rightarrow> job \<Rightarrow> job" where
  "after_claim t owner lease c j = take_lease t owner lease (jb_id c) (exhaust_job t j)"

lemma after_claim_other: "jb_id j \<noteq> jb_id c \<Longrightarrow> after_claim t owner lease c j = exhaust_job t j"
  by (simp add: after_claim_def take_lease_def exhaust_job_def)

lemma after_claim_same:
  "claimable t c \<Longrightarrow> after_claim t owner lease c c =
     c\<lparr>jb_status := RUNNING, jb_leaseOwner := owner, jb_leaseExpiresAt := Some (t + lease),
       jb_attemptCount := Suc (jb_attemptCount c)\<rparr>"
  by (simp add: after_claim_def take_lease_def exhaust_claimable)

lemma ended_round:
  assumes t: "tables_ok db" and due: "\<forall>j\<in>set (db_jobs db). due t j"
    and c: "c \<in> set (db_jobs db)" "claimable t c"
    and g: "\<And>j. jb_id j \<noteq> jb_id c \<Longrightarrow> g j = j"
      "due u (g (after_claim t owner lease c c))" "job_work (g (after_claim t owner lease c c)) < job_work c"
    and tu: "t \<le> u" and js: "db_jobs db' = map g (map (after_claim t owner lease c) (db_jobs db))"
  shows "(\<forall>j\<in>set (db_jobs db'). due u j) \<and> work_left db' < work_left db"
proof -
  have d: "distinct (map jb_id (db_jobs db))" using t by (simp add: tables_ok_def)
  have same: "j = c" if "j \<in> set (db_jobs db)" "jb_id j = jb_id c" for j
    using that d c(1) by (meson distinct_map inj_onD)
  have other: "g (after_claim t owner lease c j) = exhaust_job t j" if "jb_id j \<noteq> jb_id c" for j
    using that g(1)[of "exhaust_job t j"] by (simp add: after_claim_other exhaust_job_def)
  have "due u (g (after_claim t owner lease c j))" if j: "j \<in> set (db_jobs db)" for j
  proof (cases "jb_id j = jb_id c")
    case True
    then show ?thesis using same[OF j] g(2) by simp
  next
    case False
    then show ?thesis using other[OF False] due j tu exhaust_due due_later by fastforce
  qed
  moreover have "job_work (g (after_claim t owner lease c j)) \<le> job_work j" if j: "j \<in> set (db_jobs db)" for j
  proof (cases "jb_id j = jb_id c")
    case True
    then show ?thesis using same[OF j] g(3) by simp
  next
    case False
    then show ?thesis using other[OF False] exhaust_work by simp
  qed
  then have "work_left db' < work_left db"
    using sum_less[of "db_jobs db" job_work "\<lambda>j. g (after_claim t owner lease c j)" c] c(1) g(3)
    by (simp add: work_left_def js o_def)
  ultimately show ?thesis by (simp add: js)
qed

lemma claim_finds_receipt:
  assumes t: "tables_ok db" and c: "c \<in> set (db_jobs db)"
  shows "\<exists>r. claim_row db (take_lease now owner lease (jb_id c) c)
     = Some \<lparr>cj_jobId = jb_id c, cj_attemptCount = Suc (jb_attemptCount c), cj_receipt = r,
         cj_storeCode = (case rc_storeId r of None \<Rightarrow> None
             | Some k \<Rightarrow> map_option dim_storeCode (find (\<lambda>s. dim_storeId s = k) (db_stores db)))\<rparr>"
proof -
  have "jb_receiptId c \<in> set (map rc_id (db_receipts db))" using t c by (metis image_eqI list.set_map tables_ok_def)
  then obtain r where "find (\<lambda>r. rc_id r = jb_receiptId c) (db_receipts db) = Some r"
    by (cases "find (\<lambda>r. rc_id r = jb_receiptId c) (db_receipts db)") (auto simp: find_None_iff)
  then show ?thesis by (simp add: claim_row_def take_lease_def)
qed

definition worker_ok :: "string \<Rightarrow> int \<Rightarrow> int \<Rightarrow> bool" where
  [js_eval]: "worker_ok w lease d \<longleftrightarrow>
     required 200 w = Inr (js_trim w) \<and> 5000 \<le> lease \<and> lease \<le> 900000 \<and> 0 \<le> d \<and> d < lease"

lemma fail_released:
  assumes t: "tables_ok db" and n: "int (db_nextJob db) \<le> max_safe" and w: "required 200 w = Inr owner"
    and c: "c \<in> set (db_jobs db)" "owned_by (jb_id c) owner c"
    and ec: "required 80 ec = Inr ec" "required 300 em = Inr em" and dl: "1000 \<le> delay" "delay \<le> 3600000"
  shows "failJob u (jb_id c) w ec em delay db =
     (Inr (jb_status (release_job u (jb_id c) owner delay ec em c)),
      db\<lparr>db_jobs := map (release_job u (jb_id c) owner delay ec em) (db_jobs db)\<rparr>)"
proof -
  have d: "distinct (map jb_id (db_jobs db))" using t by (simp add: tables_ok_def)
  have "find (owned_by (jb_id c) owner) (db_jobs db) = Some c"
  proof (cases "find (owned_by (jb_id c) owner) (db_jobs db)")
    case None
    then show ?thesis using c by (auto simp: find_None_iff)
  next
    case (Some x)
    then have "x \<in> set (db_jobs db)" "jb_id x = jb_id c" using find_in[OF Some] by (auto simp: owned_by_def)
    then show ?thesis using Some d c(1) by (metis distinct_map inj_onD)
  qed
  moreover have "0 < jb_id c" "jb_id c < db_nextJob db" using t c(1) by (auto simp: tables_ok_def)
  then have "bounded 1 max_safe (int (jb_id c)) = Inr (int (jb_id c))" using n by (simp add: bounded_def)
  moreover have "bounded 1000 3600000 delay = Inr delay" using dl by (simp add: bounded_def)
  ultimately show ?thesis using w ec by (simp add: failJob_def transaction_def)
qed

lemma release_round:
  assumes "due t c" "claimable t c" "job_ok c" "5000 \<le> lease" "t \<le> u" "lease_text owner"
    and "delay \<le> 3600000" and c: "c' = after_claim t owner lease c c"
  shows "due (u + 3600000) (release_job u (jb_id c) owner delay ec em c')"
    "job_work (release_job u (jb_id c) owner delay ec em c') < job_work c"
proof -
  have c': "owned_by (jb_id c) owner c'" "jb_attemptCount c' = Suc (jb_attemptCount c)" "jb_maxAttempts c' = 8"
    using assms(2,3) by (auto simp: c after_claim_same owned_by_def job_ok_def)
  have a: "jb_attemptCount c < 8" "\<not> terminal (jb_status c)"
    using claimable_not_terminal[OF assms(2)] assms(3) by (auto simp: job_ok_def)
  show "due (u + 3600000) (release_job u (jb_id c) owner delay ec em c')"
    using assms(7) by (simp add: release_job_def c'(1) Let_def due_def terminal_def)
  show "job_work (release_job u (jb_id c) owner delay ec em c') < job_work c"
    using a diff_less_mono2[of "8" "9"] by (auto simp: release_job_def c' Let_def job_work_def terminal_def)
qed

lemma finish_round:
  assumes "claimable t c" "job_ok c" "final = SUCCEEDED \<or> final = QUARANTINED"
    and c: "c' = after_claim t owner lease c c"
  shows "due u (finish_job n (jb_id c) owner final c')" "job_work (finish_job n (jb_id c) owner final c') < job_work c"
proof -
  have c': "owned_by (jb_id c) owner c'"
    using assms(1) by (auto simp: c after_claim_same owned_by_def)
  have a: "jb_attemptCount c < 8" "\<not> terminal (jb_status c)"
    using claimable_not_terminal[OF assms(1)] assms(2) by (auto simp: job_ok_def)
  show "due u (finish_job n (jb_id c) owner final c')"
    using assms(3) by (auto simp: finish_job_def c' due_def terminal_def)
  show "job_work (finish_job n (jb_id c) owner final c') < job_work c"
    using a assms(3) by (auto simp: finish_job_def c' job_work_def terminal_def)
qed

lemma no_work: "tables_ok db \<Longrightarrow> work_left db = 0 \<longleftrightarrow> (\<forall>j\<in>set (db_jobs db). terminal (jb_status j))"
proof -
  assume t: "tables_ok db"
  have "job_work j = 0 \<longleftrightarrow> terminal (jb_status j)" if "j \<in> set (db_jobs db)" for j
  proof -
    have "job_ok j" using t that by (simp add: tables_ok_def)
    then have "jb_attemptCount j \<le> 8" by (simp add: job_ok_def)
    then show ?thesis by (simp add: job_work_def)
  qed
  then show ?thesis by (auto simp: work_left_def)
qed

text \<open>The state between two rounds, and one round.\<close>

definition round_ok :: "int \<Rightarrow> webhook_db \<Rightarrow> bool" where
  "round_ok t db \<longleftrightarrow> tables_ok db \<and> int (db_nextJob db) \<le> max_safe \<and> (\<forall>j\<in>set (db_jobs db). due t j)"

lemma claimed_tables:
  assumes t: "tables_ok db" and nx: "int (db_nextJob db) \<le> max_safe"
    and wf: "required 200 w = Inr (js_trim w)" "bounded 5000 900000 lease = Inr lease"
    and c: "claim_candidate t [] db = Some c"
  shows "tables_ok (claimed_state t (js_trim w) lease [] db)"
    "int (db_nextJob (claimed_state t (js_trim w) lease [] db)) \<le> max_safe"
    "db_jobs (claimed_state t (js_trim w) lease [] db) = map (after_claim t (js_trim w) lease c) (db_jobs db)"
    "after_claim t (js_trim w) lease c c \<in> set (db_jobs (claimed_state t (js_trim w) lease [] db))"
proof -
  show "tables_ok (claimed_state t (js_trim w) lease [] db)"
    using tables_ok_step[OF t, of t "CallClaim [] w lease"] wf(1,2) by (simp add: claimNextJob_def transaction_def)
  show "int (db_nextJob (claimed_state t (js_trim w) lease [] db)) \<le> max_safe" using nx by (simp add: claimed_state_def)
  show js: "db_jobs (claimed_state t (js_trim w) lease [] db) = map (after_claim t (js_trim w) lease c) (db_jobs db)"
    by (simp add: claimed_state_def c after_claim_def)
  show "after_claim t (js_trim w) lease c c \<in> set (db_jobs (claimed_state t (js_trim w) lease [] db))"
    using claim_candidate_facts[OF c] by (simp add: js)
qed

lemma released_round:
  assumes ok: "round_ok t db" and w: "worker_ok w lease d" and c: "claim_candidate t [] db = Some c"
    and job: "cj_jobId job = jb_id c" "cj_attemptCount job = Suc (jb_attemptCount c)"
    and p: "release_failed (steady_env t (t + d)) w job e (claimed_state t (js_trim w) lease [] db) = (o', db')"
  shows "round_ok (t + d + 3600000) db' \<and> work_left db' < work_left db"
proof -
  let ?ow = "js_trim w" and ?db1 = "claimed_state t (js_trim w) lease [] db" and ?c' = "after_claim t (js_trim w) lease c c"
  let ?ec = "fst (safeFailure e)" and ?em = "snd (safeFailure e)" and ?dl = "webhookRetryDelayMs (Suc (jb_attemptCount c))"
  have t: "tables_ok db" and nx: "int (db_nextJob db) \<le> max_safe" and due: "\<forall>j\<in>set (db_jobs db). due t j"
    using ok by (simp_all add: round_ok_def)
  have wf: "required 200 w = Inr ?ow" "bounded 5000 900000 lease = Inr lease" "0 \<le> d" "5000 \<le> lease" "lease_text ?ow"
    using w required_facts[of 200 w ?ow] by (auto simp: worker_ok_def bounded_def)
  note cf = claim_candidate_facts[OF c] and db1 = claimed_tables[OF t nx wf(1,2) c]
  have cok: "job_ok c" "due t c" "claimable t c" using t due cf by (auto simp: tables_ok_def)
  have o1: "owned_by (jb_id c) ?ow ?c'" "jb_id ?c' = jb_id c"
    by (simp_all add: after_claim_same[OF cok(3)] owned_by_def)
  have dl: "1000 \<le> ?dl" "?dl \<le> 3600000" using retry_delay_bounds[of "Suc (jb_attemptCount c)"] by auto
  have f: "failJob (t + d) (jb_id c) w ?ec ?em ?dl ?db1 =
     (Inr (jb_status (release_job (t + d) (jb_id c) ?ow ?dl ?ec ?em ?c')),
      ?db1\<lparr>db_jobs := map (release_job (t + d) (jb_id c) ?ow ?dl ?ec ?em) (db_jobs ?db1)\<rparr>)"
    using fail_released[OF db1(1,2) wf(1) db1(4)] o1 safeFailure_texts[of e] dl by simp
  obtain ec em where se: "safeFailure e = (ec, em)" by fastforce
  have db': "db' = ?db1\<lparr>db_jobs := map (release_job (t + d) (jb_id c) ?ow ?dl ?ec ?em) (db_jobs ?db1)\<rparr>"
    using p f by (simp add: release_failed_def steady_env_def through_def job se)
  have "perform (t + d) (CallFail (jb_id c) w ?ec ?em ?dl) ?db1 = db'" using f by (simp add: db')
  then have "tables_ok db'" using tables_ok_step[OF db1(1)] by metis
  moreover have "(\<forall>j\<in>set (db_jobs db'). due (t + d + 3600000) j) \<and> work_left db' < work_left db"
  proof (rule ended_round[OF t due _ cok(3), where owner = ?ow and lease = lease
        and g = "release_job (t + d) (jb_id c) ?ow ?dl ?ec ?em"])
    show "db_jobs db' = map (release_job (t + d) (jb_id c) ?ow ?dl ?ec ?em) (map (after_claim t ?ow lease c) (db_jobs db))"
      by (simp add: db' db1(3) del: map_map)
    show "due (t + d + 3600000) (release_job (t + d) (jb_id c) ?ow ?dl ?ec ?em ?c')"
      "job_work (release_job (t + d) (jb_id c) ?ow ?dl ?ec ?em ?c') < job_work c"
      by (rule release_round[OF cok(2,3,1) wf(4) _ wf(5) dl(2) refl]; use wf(3) in simp)+
    show "c \<in> set (db_jobs db)" using cf by blast
    show "t \<le> t + d + 3600000" using wf(3) by simp
    show "jb_id j \<noteq> jb_id c \<Longrightarrow> release_job (t + d) (jb_id c) ?ow ?dl ?ec ?em j = j" for j
      by (simp add: release_job_def owned_by_def)
  qed
  moreover have "db_nextJob db' = db_nextJob ?db1" by (simp add: db')
  ultimately show ?thesis using db1(2) by (simp add: round_ok_def)
qed

lemma completed_round:
  assumes ok: "round_ok t db" and w: "worker_ok w lease d" and c: "claim_candidate t [] db = Some c"
    and p: "completeJob (t + d) (jb_id c) w n v g q (claimed_state t (js_trim w) lease [] db) = (Inr cp, db')"
  shows "round_ok (t + d + 3600000) db' \<and> work_left db' < work_left db"
proof -
  let ?ow = "js_trim w" and ?db1 = "claimed_state t (js_trim w) lease [] db" and ?c' = "after_claim t (js_trim w) lease c c"
  let ?final = "if q then QUARANTINED else SUCCEEDED"
  have t: "tables_ok db" and nx: "int (db_nextJob db) \<le> max_safe" and due: "\<forall>j\<in>set (db_jobs db). due t j"
    using ok by (simp_all add: round_ok_def)
  have wf: "required 200 w = Inr ?ow" "bounded 5000 900000 lease = Inr lease" "0 \<le> d"
    using w by (auto simp: worker_ok_def bounded_def)
  note cf = claim_candidate_facts[OF c] and db1 = claimed_tables[OF t nx wf(1,2) c]
  have cok: "job_ok c" "claimable t c" using t cf by (auto simp: tables_ok_def)
  from p obtain owner and r' :: receipt and e d2 where f: "required 200 w = Inr owner"
    "insert_directive (t + d) (fst (upsert_event e ?db1)) (rc_storeId r') v (snd (upsert_event e ?db1)) = Inr d2"
    "db' = (gate_after (t + d) g (rc_storeId r') (fst (upsert_event e ?db1)) d2)
      \<lparr>db_jobs := map (finish_job (t + d) (jb_id c) owner ?final) (db_jobs ?db1)\<rparr>"
    by (rule completeJob_Inr) (rule that, assumption+)
  have js: "db_jobs db' = map (finish_job (t + d) (jb_id c) ?ow ?final) (db_jobs ?db1)"
    and nx': "db_nextJob db' = db_nextJob ?db1"
    using f(1,3) wf(1) insert_directive_keeps[OF f(2)] by simp_all
  have "perform (t + d) (CallComplete (jb_id c) w n v g q) ?db1 = db'" using p by simp
  then have "tables_ok db'" using tables_ok_step[OF db1(1)] by metis
  moreover have "(\<forall>j\<in>set (db_jobs db'). due (t + d + 3600000) j) \<and> work_left db' < work_left db"
  proof (rule ended_round[OF t due _ cok(2), where owner = ?ow and lease = lease
        and g = "finish_job (t + d) (jb_id c) ?ow ?final"])
    show "db_jobs db' = map (finish_job (t + d) (jb_id c) ?ow ?final) (map (after_claim t ?ow lease c) (db_jobs db))"
      by (simp only: js db1(3))
    show "due (t + d + 3600000) (finish_job (t + d) (jb_id c) ?ow ?final ?c')"
      "job_work (finish_job (t + d) (jb_id c) ?ow ?final ?c') < job_work c"
      by (rule finish_round[OF cok(2,1) completeJob_final refl])+
    show "c \<in> set (db_jobs db)" using cf by blast
    show "t \<le> t + d + 3600000" using wf(3) by simp
    show "jb_id j \<noteq> jb_id c \<Longrightarrow> finish_job (t + d) (jb_id c) ?ow ?final j = j" for j
      by (simp add: finish_job_def owned_by_def)
  qed
  ultimately show ?thesis using db1(2) nx' by (simp add: round_ok_def)
qed

lemma idle_round:
  assumes ok: "round_ok t db" and w: "worker_ok w lease d" and c: "claim_candidate t [] db = None"
  shows "round_ok u (claimed_state t (js_trim w) lease [] db) \<and> work_left (claimed_state t (js_trim w) lease [] db) = 0"
proof -
  let ?db1 = "claimed_state t (js_trim w) lease [] db"
  have t: "tables_ok db" and due: "\<forall>j\<in>set (db_jobs db). due t j" using ok by (simp_all add: round_ok_def)
  have wf: "required 200 w = Inr (js_trim w)" "bounded 5000 900000 lease = Inr lease"
    using w by (auto simp: worker_ok_def bounded_def)
  have t1: "tables_ok ?db1"
    using tables_ok_step[OF t, of t "CallClaim [] w lease"] wf(1,2) by (simp add: claimNextJob_def transaction_def)
  have none: "\<not> claimable t j" if "j \<in> set (db_jobs db)" for j
    using c that by (auto simp: claim_candidate_def filter_empty_conv)
  have "terminal (jb_status (exhaust_job t j))" if j: "j \<in> set (db_jobs db)" for j
  proof -
    have "due t j" "job_ok j" using due t j by (auto simp: tables_ok_def)
    then show ?thesis
      by (cases rule: due_cases) (use none[OF j] in \<open>auto simp: exhaust_job_def terminal_def\<close>)
  qed
  then have all: "\<forall>j\<in>set (db_jobs ?db1). terminal (jb_status j)" by (auto simp: claimed_state_def c)
  then have "work_left ?db1 = 0" using no_work[OF t1] by blast
  moreover have "round_ok u ?db1" using t1 ok all by (auto simp: round_ok_def due_def claimed_state_def)
  ultimately show ?thesis by blast
qed

lemma round_step:
  assumes ok: "round_ok t db" and w: "worker_ok w lease d"
    and p: "processOne L parseDate R (steady_env t (t + d)) False w lease db = Some (o', db')"
  shows "round_ok (t + d + 3600000) db' \<and> (work_left db' < work_left db \<or> work_left db' = 0)"
proof -
  have t: "tables_ok db" using ok by (simp add: round_ok_def)
  have wf: "required 200 w = Inr (js_trim w)" "bounded 5000 900000 lease = Inr lease"
    using w by (auto simp: worker_ok_def bounded_def)
  let ?db1 = "claimed_state t (js_trim w) lease [] db"
  show ?thesis
  proof (cases "claim_candidate t [] db")
    case None
    have "claimNextJob t [] w lease db = (Inr None, ?db1)"
      using wf(1,2) None by (simp add: claimNextJob_def transaction_def)
    then have "db' = ?db1" using p by (simp add: processOne_def steady_env_def through_def)
    then show ?thesis using idle_round[OF ok w None] by simp
  next
    case (Some c)
    obtain job where cj: "claim_row db (take_lease t (js_trim w) lease (jb_id c) c) = Some job"
      "cj_jobId job = jb_id c" "cj_attemptCount job = Suc (jb_attemptCount c)"
      using claim_finds_receipt[OF t] claim_candidate_facts[OF Some] by fastforce
    have "claimNextJob t [] w lease db = (Inr (Some job), ?db1)"
      using wf(1,2) Some cj(1) by (simp add: claimNextJob_def transaction_def)
    then have "process_claimed L parseDate R (steady_env t (t + d)) w job ?db1 = Some (o', db')"
      using p by (simp add: processOne_def steady_env_def through_def)
    then obtain pr where pr: "(case pr of
         Inl e \<Rightarrow> release_failed (steady_env t (t + d)) w job e ?db1
       | Inr k \<Rightarrow> (case complete_work (steady_env t (t + d)) w job k ?db1 of
             (Inr cp, db'') \<Rightarrow> (Completed cp, db'')
           | (Inl e, db'') \<Rightarrow> release_failed (steady_env t (t + d)) w job e db'')) = (o', db')"
      by (auto simp: process_claimed_def bind_eq_Some_conv)
    show ?thesis
    proof (cases pr)
      case (Inl e)
      then show ?thesis using pr released_round[OF ok w Some cj(2,3)] by simp
    next
      case (Inr k)
      obtain x db2 where x: "completeJob (t + d) (jb_id c) w (wk_normalized k) (wk_directive k) (wk_closeGate k)
          (wk_quarantined k) ?db1 = (x, db2)" by fastforce
      then have cw: "complete_work (steady_env t (t + d)) w job k ?db1 = (x, db2)"
        by (simp add: complete_work_def steady_env_def through_def cj(2))
      show ?thesis
      proof (cases x)
        case (Inl e)
        then have "db2 = ?db1" using x rolled_back(4) by blast
        then show ?thesis using pr \<open>pr = Inr k\<close> cw Inl released_round[OF ok w Some cj(2,3)] by simp
      next
        case (Inr cp)
        then show ?thesis using pr \<open>pr = Inr k\<close> cw x completed_round[OF ok w Some, of _ _ _ _ cp db2] by simp
      qed
    qed
  qed
qed

lemma rounds_drain:
  assumes "compact_json L" "worker_ok w lease d"
  shows "round_ok t db \<Longrightarrow> work_left db \<le> n \<Longrightarrow>
    \<exists>db'. rounds L parseDate R w lease d n t db = Some db' \<and> tables_ok db' \<and> work_left db' = 0"
proof (induction n arbitrary: t db)
  case 0
  then show ?case by (simp add: round_ok_def)
next
  case (Suc n)
  obtain o' db1 where p: "processOne L parseDate R (steady_env t (t + d)) False w lease db = Some (o', db1)"
    using processOne_ends[OF assms(1)] by fastforce
  have "round_ok (t + d + 3600000) db1" "work_left db1 \<le> n"
    using round_step[OF Suc.prems(1) assms(2) p] Suc.prems(2) by auto
  then show ?case using Suc.IH p by simp
qed

lemma work_left_bound: "work_left db \<le> 9 * length (db_jobs db)"
proof -
  have "job_work j \<le> 9" for j by (simp add: job_work_def)
  then have "sum_list (map job_work js) \<le> 9 * length js" for js by (induction js) (auto intro: add_mono)
  then show ?thesis by (simp add: work_left_def)
qed

text \<open>
  C6. Every accepted delivery is settled. From any state that the calls can reach, one worker that keeps
  coming back, and meets the database each time, settles every job within nine rounds a job: each ends
  succeeded, quarantined or dead, whatever the payloads are and whatever fails in processing them.
\<close>

theorem worker_settles_every_job:
  assumes "compact_json L" and "worker_ok w lease d"
    and "list_all (due t) (db_jobs (run_calls cs (empty_db stores probes)))"
    and "int (db_nextJob (run_calls cs (empty_db stores probes))) \<le> max_safe"
  shows "\<exists>db'. rounds L parseDate R w lease d (9 * length (db_jobs (run_calls cs (empty_db stores probes)))) t
      (run_calls cs (empty_db stores probes)) = Some db' \<and> list_all (\<lambda>j. terminal (jb_status j)) (db_jobs db')"
proof -
  let ?db = "run_calls cs (empty_db stores probes)"
  have "round_ok t ?db" using tables.reached[of cs stores probes] assms(3,4) by (simp add: round_ok_def list_all_iff)
  from rounds_drain[OF assms(1,2) this work_left_bound] obtain db' where
    "rounds L parseDate R w lease d (9 * length (db_jobs ?db)) t ?db = Some db'" "tables_ok db'" "work_left db' = 0"
    by blast
  then show ?thesis using no_work by (auto simp: list_all_iff)
qed

text \<open>A library without any JSON text, and the delivery of the queue's instances.\<close>

definition silent_lib :: node_lib where
  [js_eval]: "silent_lib = \<lparr>nl_sha256 = (\<lambda>_. sample_hash), nl_hmac = (\<lambda>_ _. []), nl_aes = (\<lambda>_ _ _. None),
     nl_json = (\<lambda>_. None), nl_utf8 = (\<lambda>_. [])\<rparr>"

theorem worker_settles_every_job_witness:
  "\<exists>db'. rounds silent_lib (\<lambda>_. None) \<lparr>rg_apps = [], rg_stores = []\<rparr> ''w'' 5000 100
      (9 * length (db_jobs (run_calls sample_calls (empty_db sample_stores [])))) 10
      (run_calls sample_calls (empty_db sample_stores [])) = Some db'
    \<and> list_all (\<lambda>j. terminal (jb_status j)) (db_jobs db')"
proof (rule worker_settles_every_job)
  show "compact_json silent_lib" by (simp add: compact_json_def silent_lib_def)
  show "worker_ok ''w'' 5000 100" by code_simp
  show "list_all (due 10) (db_jobs (run_calls sample_calls (empty_db sample_stores [])))"
    unfolding sample_run by (simp add: sample_db_def new_job_def due_def)
  show "int (db_nextJob (run_calls sample_calls (empty_db sample_stores []))) \<le> max_safe"
    unfolding sample_run by (simp add: sample_db_def empty_db_def max_safe_def)
qed

end
