(* ===== verification/Webhook_Receiver_Properties.thy ===== *)
theory Webhook_Receiver_Properties
  imports Webhook_Receiver Webhook_Worker_Properties
begin

text \<open>
  What the receiver promises: the exact signature contract, canonical ciphertexts, identities that stay the
  same from the delivery to the worker, no change of the database without a verified signature, and a
  receipt with its job for every delivery that is acknowledged.
\<close>

section \<open>Ciphertexts and signatures\<close>

text \<open>
  The receiver and the worker accept exactly the canonical base64 texts: a ciphertext passes when, trimmed,
  it is the encoding of some bytes, and then it is decoded to these bytes.
\<close>

theorem ciphertexts_are_canonical_base64:
  "strictBase64 v = Inr bs \<longleftrightarrow> bs \<noteq> [] \<and> js_trim v = b64_encode bs"
  by (rule strictBase64_Inr_iff)

definition signed_text :: "string \<Rightarrow> string \<Rightarrow> string \<Rightarrow> string \<Rightarrow> string" where
  [js_eval]: "signed_text appId openKeyId timestamp path =
     text_or (js_trim appId) (js_trim openKeyId) @ ''&'' @ timestamp @ ''&'' @ path"

definition valid_path :: "string \<Rightarrow> bool" where
  [js_eval]: "valid_path p \<longleftrightarrow> starts_with ''/'' p
     \<and> \<not> list_ex (\<lambda>c. c \<in> {CHR ''?'', CHR ''#'', CHR 0x0D, CHR 0x0A}) p"

lemma officialCanonical_Some:
  "officialCanonical a k t p = Some c \<longleftrightarrow>
     text_or (js_trim a) (js_trim k) \<noteq> [] \<and> valid_path p \<and> c = signed_text a k t p"
  by (auto simp: officialCanonical_def Let_def valid_path_def signed_text_def text_or_def)

text \<open>
  The signature contract, in one equation: a delivery is accepted exactly when its timestamp is a safe
  whole number of eleven to sixteen digits within the allowed skew, a secret and an identity are known, the
  path is proper, and the signature is its own first five characters followed by the base64 of the
  hexadecimal HMAC, under the secret extended by them, of identity, timestamp and path.
\<close>

theorem signature_is_accepted_exactly:
  "vf_ok (verifyFullManagedWebhookSignature L appId openKeyId timestamp signature secret path now skew) \<longleftrightarrow>
     (let t = js_trim timestamp; s = js_trim signature; ts = int (read_nat t) in
      matches_span is_digit 11 16 t \<and> js_trim secret \<noteq> [] \<and> 6 \<le> length s \<and> length s \<le> 512
      \<and> ts \<le> max_safe \<and> 0 \<le> skew \<and> skew \<le> max_safe \<and> \<bar>now - ts\<bar> \<le> skew
      \<and> text_or (js_trim appId) (js_trim openKeyId) \<noteq> [] \<and> valid_path path
      \<and> s = take 5 s @ b64_encode (utf8 (nl_hmac L (secret @ take 5 s) (signed_text appId openKeyId t path))))"
proof -
  have r: "vf_ok (rejected x) = False" "vf_ok ((rejected x)\<lparr>vf_platformTimestampMs := a, vf_ageMs := b\<rparr>) = False" for x a b
    by (simp_all add: rejected_def)
  show ?thesis
  proof (cases "officialCanonical appId openKeyId (js_trim timestamp) path")
    case None
    then have "\<not> (text_or (js_trim appId) (js_trim openKeyId) \<noteq> [] \<and> valid_path path)"
      using officialCanonical_Some[of appId openKeyId "js_trim timestamp" path] by auto
    then show ?thesis by (auto simp: verifyFullManagedWebhookSignature_def Let_def None r split: if_splits)
  next
    case (Some c)
    then have c: "text_or (js_trim appId) (js_trim openKeyId) \<noteq> [] \<and> valid_path path"
      "c = signed_text appId openKeyId (js_trim timestamp) path"
      using officialCanonical_Some by blast+
    show ?thesis
      using c(1) unfolding verifyFullManagedWebhookSignature_def Let_def Some expected_signature_def c(2)
      by (auto simp: r max_safe_def split: if_splits)
  qed
qed

section \<open>Identities\<close>

definition sha_hex :: "node_lib \<Rightarrow> bool" where
  "sha_hex L \<longleftrightarrow> (\<forall>s. hex64_pattern (nl_sha256 L s))"

lemma hex_char_plain: "is_hex c \<Longrightarrow> \<not> is_space c \<and> \<not> control_char c \<and> lower_char c = c"
  by (auto simp: is_hex_def is_digit_def is_space_def control_char_def lower_char_def is_upper_def)

lemma hex_text:
  assumes "hex64_pattern s"
  shows "js_trim s = s" "length s = 64" "list_all (\<lambda>c. \<not> control_char c) s" "js_lower s = s" "s \<noteq> []"
proof -
  have h: "list_all is_hex s" "length s = 64" using assms by (auto simp: hex64_pattern_def matches_span_def)
  then have p: "\<forall>c\<in>set s. \<not> is_space c \<and> \<not> control_char c \<and> lower_char c = c"
    using hex_char_plain by (auto simp: list_all_iff)
  show "js_trim s = s" using p by (intro js_trim_id) (auto simp: list_all_iff)
  show "length s = 64" by (rule h)
  show "list_all (\<lambda>c. \<not> control_char c) s" using p by (auto simp: list_all_iff)
  show "js_lower s = s" using p by (auto simp: js_lower_def intro: map_idI)
  show "s \<noteq> []" using h by auto
qed

lemma hex_clean: "hex64_pattern s \<Longrightarrow> 64 \<le> n \<Longrightarrow> clean_text n s = Inr s"
  using hex_text[of s] by (simp add: clean_text_Inr)

lemma hex_hash: "hex64_pattern s \<Longrightarrow> hash_text s = Inr s"
  using hex_clean[of s 64] hex_text[of s] by (simp add: hash_text_def required_def)

lemma resolveIngress_Inr:
  assumes "resolveIngress L R h = Inr i"
  obtains a st where "a \<in> set (rg_apps R)" "id_appSecretKey i = wa_appSecretKey a"
    "id_appKeyHash i = wa_appKeyHash a" "id_storeCode i = map_option ws_storeCode st"
    "id_deliveryScope i = (if st = None then ''APP_ONLY'' else ''STORE'')" "id_appScopedOnly i = (st = None)"
    "id_openKeyHash i = (if id_openKeyId i = [] then [] else nl_sha256 L (id_openKeyId i))"
    "st = (if id_openKeyId i = [] then None else store_by_open_key R (id_openKeyId i))"
    "\<forall>s. st = Some s \<longrightarrow> ws_appId s = wa_appId a"
proof -
  define appId where "appId = js_trim (header_text h ''x-lt-appid'')"
  define key where "key = js_trim (header_text h ''x-lt-openkeyid'')"
  define app where "app = (if appId = [] then None else app_by_id R appId)"
  define st where "st = (if key = [] then None else store_by_open_key R key)"
  let ?eff = "case app of Some a \<Rightarrow> Some a
     | None \<Rightarrow> (case st of Some s \<Rightarrow> app_by_id R (ws_appId s) | None \<Rightarrow> None)"
  obtain a where a: "?eff = Some a" "\<not> (case st of Some s \<Rightarrow> ws_appId s \<noteq> wa_appId a | None \<Rightarrow> False)"
    "i = \<lparr>id_appId = wa_appId a, id_appSecretKey = wa_appSecretKey a, id_appKeyHash = wa_appKeyHash a,
       id_openKeyId = key, id_openKeyHash = (if key = [] then [] else nl_sha256 L key),
       id_storeCode = map_option ws_storeCode st, id_deliveryScope = (if st = None then ''APP_ONLY'' else ''STORE''),
       id_appScopedOnly = (st = None)\<rparr>"
    using assms unfolding resolveIngress_def Let_def appId_def[symmetric] key_def[symmetric] app_def[symmetric] st_def[symmetric]
    by (cases ?eff) (auto split: if_splits)
  have "a \<in> set (rg_apps R)"
    using a(1) by (auto simp: app_def app_by_id_def find_Some_iff split: option.splits if_splits)
  moreover have "id_openKeyId i = key" by (simp add: a(3))
  moreover have "\<forall>s. st = Some s \<longrightarrow> ws_appId s = wa_appId a" using a(2) by auto
  ultimately show thesis by (intro that[of a st]) (simp_all add: a(3) st_def)
qed

text \<open>
  The worker sees the identity that the receiver saw: whatever identity the registry gives to a delivery, the
  hashes and the scope that are stored for it resolve, in the same registry, to the same application secret and
  the same store.
\<close>

theorem stored_identity_is_the_received_one:
  assumes "createFullManagedWebhookCredentialRegistry L storeConfig applicationConfig = Inr R"
    and "sha_hex L" and "resolveIngress L R headers = Inr i"
  shows "resolveStored R (id_appKeyHash i) (id_openKeyHash i) (id_deliveryScope i) (id_storeCode i) =
     Inr \<lparr>si_appSecretKey = id_appSecretKey i, si_appKeyHash = id_appKeyHash i, si_storeCode = id_storeCode i,
          si_appScopedOnly = id_appScopedOnly i\<rparr>"
proof -
  have ok: "registry_ok L R" by (rule created_registry_ok[OF assms(1)])
  obtain a st where f: "a \<in> set (rg_apps R)" "id_appSecretKey i = wa_appSecretKey a"
    "id_appKeyHash i = wa_appKeyHash a" "id_storeCode i = map_option ws_storeCode st"
    "id_deliveryScope i = (if st = None then ''APP_ONLY'' else ''STORE'')" "id_appScopedOnly i = (st = None)"
    "id_openKeyHash i = (if id_openKeyId i = [] then [] else nl_sha256 L (id_openKeyId i))"
    "st = (if id_openKeyId i = [] then None else store_by_open_key R (id_openKeyId i))"
    "\<forall>s. st = Some s \<longrightarrow> ws_appId s = wa_appId a"
    by (rule resolveIngress_Inr[OF assms(3)])
  have app: "app_by_hash R (wa_appKeyHash a) = Some a"
    using find_id[of wa_appKeyHash "rg_apps R" a] f(1) ok by (simp add: app_by_hash_def registry_ok_def)
  have "hex64_pattern (wa_appKeyHash a)" using ok f(1) assms(2) by (simp add: registry_ok_def sha_hex_def)
  then have ah: "clean_text 2048 (wa_appKeyHash a) = Inr (wa_appKeyHash a)" by (simp add: hex_clean)
  show ?thesis
  proof (cases st)
    case None
    then show ?thesis using ah app by (simp add: resolveStored_def f)
  next
    case (Some s)
    then have s: "s \<in> set (rg_stores R)" "ws_openKeyId s = id_openKeyId i" "id_openKeyId i \<noteq> []"
      using f(8) by (auto simp: store_by_open_key_def dest!: find_in split: if_splits)
    then have oh: "id_openKeyHash i = ws_openKeyHash s" using ok f(7) by (simp add: registry_ok_def)
    have "store_by_open_hash R (ws_openKeyHash s) = Some s"
      using find_id[of ws_openKeyHash "rg_stores R" s] s(1) ok by (simp add: store_by_open_hash_def registry_ok_def)
    moreover have "hex64_pattern (ws_openKeyHash s)" using ok s(1) assms(2) by (simp add: registry_ok_def sha_hex_def)
    then have "clean_text 2048 (ws_openKeyHash s) = Inr (ws_openKeyHash s)" by (simp add: hex_clean)
    ultimately show ?thesis using ah app f(9) by (simp add: resolveStored_def f(2-6) oh Some)
  qed
qed

section \<open>Nothing without a signature\<close>

text \<open>What an ingest that changes anything or is accepted has verified.\<close>

lemma store_delivery_Inr:
  "store_delivery now s i db = (Inr st, db') \<Longrightarrow> s = InTime \<and> storeReceiptAndJob now i db = (Inr st, db')"
  by (auto simp: store_delivery_def split: storage.splits prod.splits sum.splits)

lemma ingest_verified_Inr:
  assumes "ingest_verified L lim rd s t v ct db = (Inr a, ct', db')"
  obtains key st where "delivery_key L v = Inr key" "s = InTime"
    "storeReceiptAndJob (rd_transaction rd)
       (receipt_of_delivery L v key (min (rl_databaseTimeout lim) (t + rl_budget lim - rd_beforeStore rd - 50))) db = (Inr st, db')"
    "ak_duplicate a = sd_duplicate st" "ct' = count_accepted v st ct"
proof -
  let ?rem = "t + rl_budget lim - rd_beforeStore rd - 50"
  have l: "\<not> last_instant < vd_platformTimestamp v"
    using assms by (auto simp: ingest_verified_def split: if_splits)
  obtain key where k: "delivery_key L v = Inr key"
    using assms by (cases "delivery_key L v") (auto simp: ingest_verified_def l)
  have r: "\<not> ?rem < 50" using assms by (auto simp: ingest_verified_def l k Let_def split: if_splits)
  obtain x db1 where x: "store_delivery (rd_transaction rd) s
      (receipt_of_delivery L v key (min (rl_databaseTimeout lim) ?rem)) db = (x, db1)" by fastforce
  have "(case (x, db1) of (Inl e, db') \<Rightarrow> (Inl e, ct, db')
      | (Inr st, db') \<Rightarrow> (Inr \<lparr>ak_duplicate = sd_duplicate st, ak_appScopedOnly = id_appScopedOnly (vd_identity v),
           ak_quarantined = (we_family (vd_event v) = ''unknown'')\<rparr>, count_accepted v st ct, db')) = (Inr a, ct', db')"
    using assms unfolding ingest_verified_def if_not_P[OF l] k sum.case Let_def if_not_P[OF r] x .
  then obtain st where "x = Inr st" "db1 = db'" "ak_duplicate a = sd_duplicate st" "ct' = count_accepted v st ct"
    by (cases x) auto
  then show thesis using that[OF k] store_delivery_Inr x by blast
qed

lemma ingest_Inr:
  assumes "ingest L R lim rd s d ct db = (Inr a, ct', db')"
  obtains v where "verify_delivery L R lim (rd_now rd) d = Inr v"
    "ingest_verified L lim rd s (dl_startedAt d) v ct db = (Inr a, ct', db')"
  using assms by (auto simp: ingest_def split: sum.splits)

lemma ingest_rejected: "verify_delivery L R lim (rd_now rd) d = Inl e \<Longrightarrow> ingest L R lim rd s d ct db = (Inl e, ct, db)"
  by (simp add: ingest_def)

definition the_delivery :: "request \<Rightarrow> byte list \<Rightarrow> posted_delivery" where
  [js_eval]: "the_delivery rq body =
     \<lparr>dl_headers = rq_headers rq, dl_contentType = rq_contentType rq, dl_rawBody = body, dl_startedAt = rq_startedAt rq\<rparr>"

lemma post_callback_cases:
  "post_callback L R lim rd s rq ct db =
     (case read_in_time lim rq of
        Inl e \<Rightarrow> (\<lparr>rs_status = publicErrorStatus e, rs_body = responseBody (publicErrorStatus e) []\<rparr>,
                 ct\<lparr>ct_rejected := Suc (ct_rejected ct)\<rparr>, db)
      | Inr body \<Rightarrow> (case ingest L R lim rd s (the_delivery rq body) ct db of
            (Inr a, ct', db') \<Rightarrow> (\<lparr>rs_status = 200, rs_body = responseBody 200
               [(''duplicate'', JBool (ak_duplicate a)), (''quarantined'', JBool (ak_quarantined a))]\<rparr>, ct', db')
          | (Inl e, ct', db') \<Rightarrow> (\<lparr>rs_status = publicErrorStatus e, rs_body = responseBody (publicErrorStatus e) []\<rparr>,
                 ct'\<lparr>ct_rejected := Suc (ct_rejected ct')\<rparr>, db')))"
  by (cases "read_in_time lim rq") (auto simp: post_callback_def the_delivery_def split: prod.splits sum.splits)

text \<open>
  C4. Nobody without the secret changes anything: a request leaves the database as it is unless it is a delivery
  whose headers name a configured application or store, whose ciphertext is canonical base64 and whose
  signature verifies under the secret of that application.
\<close>

theorem only_signed_deliveries_change_the_database:
  "let (resp, ct', db') = handle_request L R lim rd s healthy rq ct db in
     db' = db
     \<or> (\<exists>body i c bs. let headers = normalizeWebhookHeaders (rq_headers rq) in
          read_in_time lim rq = Inr body \<and> resolveIngress L R headers = Inr i \<and> strictBase64 c = Inr bs
          \<and> extractEncryptedEventData L
              (case rq_contentType rq of Some t \<Rightarrow> t | None \<Rightarrow> header_text headers ''content-type'') body (rl_bodyLimit lim) = Inr c
          \<and> vf_ok (verifyFullManagedWebhookSignature L (header_text headers ''x-lt-appid'')
              (header_text headers ''x-lt-openkeyid'') (header_text headers ''x-lt-timestamp'')
              (header_text headers ''x-lt-signature'') (id_appSecretKey i) (rl_callbackPath lim) (rd_now rd) (rl_skewLimit lim)))"
proof (cases "receiver_route_of lim rq")
  case DeliveryRoute
  show ?thesis
  proof (cases "read_in_time lim rq")
    case (Inl e)
    then show ?thesis using DeliveryRoute by (simp add: handle_request_def post_callback_cases)
  next
    case (Inr body)
    show ?thesis
    proof (cases "verify_delivery L R lim (rd_now rd) (the_delivery rq body)")
      case rejected: (Inl e)
      then show ?thesis
        using DeliveryRoute Inr by (simp add: handle_request_def post_callback_cases ingest_rejected)
    next
      case verified: (Inr v)
      let ?headers = "normalizeWebhookHeaders (rq_headers rq)"
      from verified have ex: "extractEncryptedEventData L
          (case rq_contentType rq of Some t \<Rightarrow> t | None \<Rightarrow> header_text ?headers ''content-type'') body (rl_bodyLimit lim)
          = Inr (vd_ciphertext v)"
        unfolding verify_delivery_def Let_def the_delivery_def
        by (auto simp: ebind_Inr_iff split: option.splits if_splits bool.splits)
      have h: "dl_headers (the_delivery rq body) = rq_headers rq" by (simp add: the_delivery_def)
      obtain bs where "strictBase64 (vd_ciphertext v) = Inr bs"
        using verify_delivery_Inr[OF verified] by (auto simp: Let_def)
      then have "\<exists>body i c bs. let headers = normalizeWebhookHeaders (rq_headers rq) in
          read_in_time lim rq = Inr body \<and> resolveIngress L R headers = Inr i \<and> strictBase64 c = Inr bs
          \<and> extractEncryptedEventData L
              (case rq_contentType rq of Some t \<Rightarrow> t | None \<Rightarrow> header_text headers ''content-type'') body (rl_bodyLimit lim) = Inr c
          \<and> vf_ok (verifyFullManagedWebhookSignature L (header_text headers ''x-lt-appid'')
              (header_text headers ''x-lt-openkeyid'') (header_text headers ''x-lt-timestamp'')
              (header_text headers ''x-lt-signature'') (id_appSecretKey i) (rl_callbackPath lim) (rd_now rd) (rl_skewLimit lim))"
        using verify_delivery_Inr[OF verified] ex Inr unfolding h Let_def by blast
      then show ?thesis by (simp only: split_beta Let_def) blast
    qed
  qed
qed (simp_all add: handle_request_def)

section \<open>The identity of a delivery\<close>

lemma nul_free_join:
  assumes "CHR 0x00 \<notin> set a" "CHR 0x00 \<notin> set b" "a @ CHR 0x00 # x = b @ CHR 0x00 # y"
  shows "a = b \<and> x = y"
  using assms
proof (induction a arbitrary: b)
  case Nil
  then show ?case by (cases b) auto
next
  case (Cons c a)
  then show ?case by (cases b) auto
qed

definition nul_free :: "string \<Rightarrow> bool" where
  [js_eval]: "nul_free s \<longleftrightarrow> CHR 0x00 \<notin> set s"

lemma key_material_inj:
  assumes "list_all nul_free [a, b, c, d, e]" "list_all nul_free [a', b', c', d', e']"
    and "join_with [CHR 0x00] [a, b, c, d, e, f] = join_with [CHR 0x00] [a', b', c', d', e', f']"
  shows "a = a' \<and> b = b' \<and> c = c' \<and> d = d' \<and> e = e' \<and> f = f'"
proof -
  have j: "join_with [CHR 0x00] [x, y, z, u, v, w]
     = x @ CHR 0x00 # y @ CHR 0x00 # z @ CHR 0x00 # u @ CHR 0x00 # v @ CHR 0x00 # w" for x y z u v w
    by simp
  have n: "CHR 0x00 \<notin> set a" "CHR 0x00 \<notin> set b" "CHR 0x00 \<notin> set c" "CHR 0x00 \<notin> set d" "CHR 0x00 \<notin> set e"
    "CHR 0x00 \<notin> set a'" "CHR 0x00 \<notin> set b'" "CHR 0x00 \<notin> set c'" "CHR 0x00 \<notin> set d'" "CHR 0x00 \<notin> set e'"
    using assms(1,2) by (simp_all add: nul_free_def)
  note s1 = nul_free_join[OF n(1,6) assms(3)[unfolded j]]
  note s2 = nul_free_join[OF n(2,7) conjunct2[OF s1]]
  note s3 = nul_free_join[OF n(3,8) conjunct2[OF s2]]
  note s4 = nul_free_join[OF n(4,9) conjunct2[OF s3]]
  note s5 = nul_free_join[OF n(5,10) conjunct2[OF s4]]
  show ?thesis using s1 s2 s3 s4 s5 by blast
qed

text \<open>The text that the key of a delivery digests.\<close>

definition delivery_material :: "node_lib \<Rightarrow> verified_delivery \<Rightarrow> string" where
  [js_eval]: "delivery_material L v =
     key_material (id_appKeyHash (vd_identity v)) (id_openKeyHash (vd_identity v)) (we_eventCode (vd_event v))
       (we_eventPath (vd_event v)) (delivery_window (vd_platformTimestamp v)) (nl_sha256 L (vd_ciphertext v))"

lemma window_digits:
  assumes "0 \<le> ts" "ts \<le> max_safe"
  shows "matches_span is_digit 1 16 (delivery_window ts)" "js_trim (delivery_window ts) = delivery_window ts"
proof -
  let ?n = "nat (ts div WEBHOOK_RETRY_DEDUP_WINDOW_MS)"
  have w: "delivery_window ts = show_nat ?n"
    using assms(1) by (simp add: delivery_window_def show_int_def WEBHOOK_RETRY_DEDUP_WINDOW_MS_def pos_imp_zdiv_neg_iff)
  have "ts div 600000 \<le> ts" using zdiv_mono2[of ts 1 600000] assms(1) by simp
  then have "?n < 10 ^ 16" using assms by (simp add: max_safe_def WEBHOOK_RETRY_DEDUP_WINDOW_MS_def)
  then have "length (show_nat ?n) \<le> 16" by (rule length_show_nat) simp
  moreover have "1 \<le> length (show_nat ?n)" by (simp add: Suc_le_eq)
  moreover have d: "list_all is_digit (show_nat ?n)" by (rule show_nat_digits)
  ultimately show "matches_span is_digit 1 16 (delivery_window ts)" by (simp add: w matches_span_def)
  show "js_trim (delivery_window ts) = delivery_window ts"
    using d by (intro js_trim_id) (auto simp: w list_all_iff is_digit_def is_space_def)
qed

text \<open>The texts of a verified delivery are clean.\<close>

definition delivery_ok :: "node_lib \<Rightarrow> verified_delivery \<Rightarrow> bool" where
  "delivery_ok L v \<longleftrightarrow>
     hex64_pattern (id_appKeyHash (vd_identity v))
     \<and> (id_openKeyHash (vd_identity v) = [] \<or> hex64_pattern (id_openKeyHash (vd_identity v)))
     \<and> event_texts (vd_event v)
     \<and> (id_deliveryScope (vd_identity v) = ''STORE'' \<and> (\<exists>c. id_storeCode (vd_identity v) = Some c \<and> webhook_store_code c)
        \<or> id_deliveryScope (vd_identity v) = ''APP_ONLY'' \<and> id_storeCode (vd_identity v) = None)
     \<and> (id_appScopedOnly (vd_identity v) \<longleftrightarrow> id_storeCode (vd_identity v) = None)
     \<and> 0 \<le> vd_platformTimestamp v \<and> vd_platformTimestamp v \<le> max_safe
     \<and> (\<exists>bs. strictBase64 (vd_ciphertext v) = Inr bs)
     \<and> (\<exists>x. vd_event v = resolveFullManagedWebhookEvent x)"

lemma verified_platform:
  assumes "verify_delivery L R lim nowMs d = Inr v"
  shows "0 \<le> vd_platformTimestamp v \<and> vd_platformTimestamp v \<le> max_safe"
proof -
  obtain a k t sg sec p now sk where "vf_platformTimestampMs (verifyFullManagedWebhookSignature L a k t sg sec p now sk)
      = Some (vd_platformTimestamp v)" "vf_ok (verifyFullManagedWebhookSignature L a k t sg sec p now sk)"
    using assms unfolding verify_delivery_def Let_def
    by (auto simp: ebind_Inr_iff split: option.splits if_splits bool.splits)
  then show ?thesis
    unfolding verifyFullManagedWebhookSignature_def Let_def
    by (auto simp: rejected_def split: if_splits option.splits)
qed

lemma verify_delivery_ok:
  assumes "verify_delivery L R lim nowMs d = Inr v" "registry_ok L R" "sha_hex L"
  shows "delivery_ok L v"
proof -
  let ?h = "normalizeWebhookHeaders (dl_headers d)" and ?i = "vd_identity v"
  have f: "resolveIngress L R ?h = Inr ?i" "\<exists>bs. strictBase64 (vd_ciphertext v) = Inr bs"
    "vd_event v = resolveFullManagedWebhookEvent (header_text ?h ''x-lt-eventcode'')"
    using verify_delivery_Inr[OF assms(1)] by (auto simp: Let_def)
  obtain a st where i: "a \<in> set (rg_apps R)" "id_appSecretKey ?i = wa_appSecretKey a"
    "id_appKeyHash ?i = wa_appKeyHash a" "id_storeCode ?i = map_option ws_storeCode st"
    "id_deliveryScope ?i = (if st = None then ''APP_ONLY'' else ''STORE'')" "id_appScopedOnly ?i = (st = None)"
    "id_openKeyHash ?i = (if id_openKeyId ?i = [] then [] else nl_sha256 L (id_openKeyId ?i))"
    "st = (if id_openKeyId ?i = [] then None else store_by_open_key R (id_openKeyId ?i))"
    "\<forall>s. st = Some s \<longrightarrow> ws_appId s = wa_appId a"
    by (rule resolveIngress_Inr[OF f(1)])
  have "hex64_pattern (id_appKeyHash ?i)" using i(1,3) assms(2,3) by (simp add: registry_ok_def sha_hex_def)
  moreover have "id_openKeyHash ?i = [] \<or> hex64_pattern (id_openKeyHash ?i)" using i(7) assms(3) by (simp add: sha_hex_def)
  moreover have "webhook_store_code (ws_storeCode s)" if "st = Some s" for s
  proof -
    have "s \<in> set (rg_stores R)" using that i(8) by (auto simp: store_by_open_key_def dest!: find_in split: if_splits)
    then show ?thesis using assms(2) by (simp add: registry_ok_def)
  qed
  ultimately show ?thesis
    using f(2,3) resolve_texts verified_platform[OF assms(1)] i(4-6) by (cases st) (auto simp: delivery_ok_def)
qed

lemma digits_nul_free: "list_all is_digit s \<Longrightarrow> nul_free s"
  by (auto simp: nul_free_def list_all_iff is_digit_def)

lemma delivery_texts:
  assumes "delivery_ok L v"
  shows "list_all nul_free [js_trim (id_appKeyHash (vd_identity v)), js_trim (id_openKeyHash (vd_identity v)),
      js_trim (we_eventCode (vd_event v)), js_trim (we_eventPath (vd_event v)), delivery_window (vd_platformTimestamp v)]"
    "js_trim (id_appKeyHash (vd_identity v)) = id_appKeyHash (vd_identity v)"
    "js_trim (id_openKeyHash (vd_identity v)) = id_openKeyHash (vd_identity v)"
    "js_trim (we_eventCode (vd_event v)) = we_eventCode (vd_event v)"
    "js_trim (we_eventPath (vd_event v)) = we_eventPath (vd_event v)"
proof -
  have hex: "js_trim s = s \<and> nul_free s" if "s = [] \<or> hex64_pattern s" for s
  proof -
    have "\<not> control_char (CHR 0x00)" if "CHR 0x00 \<in> set s" "list_all (\<lambda>c. \<not> control_char c) s"
      using that by (simp add: list_all_iff)
    moreover have "control_char (CHR 0x00)" by (simp add: control_char_def)
    ultimately show ?thesis
      using that hex_text[of s] by (cases "s = []") (auto simp: nul_free_def js_trim_def)
  qed
  have "list_all is_digit (we_eventCode (vd_event v))" "list_all route_char (we_eventPath (vd_event v))"
    using assms by (auto simp: delivery_ok_def event_texts_def)
  moreover have "js_trim s = s" if "list_all is_digit s" for s
    using that by (intro js_trim_id) (auto simp: list_all_iff is_digit_def is_space_def)
  moreover have "nul_free s" if "list_all route_char s" for s
  proof -
    have "\<not> route_char (CHR 0x00)" using route_char_not_control[of "CHR 0x00"] by (auto simp: control_char_def)
    then show ?thesis using that by (auto simp: nul_free_def list_all_iff)
  qed
  moreover have "list_all is_digit (delivery_window (vd_platformTimestamp v))"
    using window_digits(1)[of "vd_platformTimestamp v"] assms by (auto simp: delivery_ok_def matches_span_def)
  moreover have "hex64_pattern (id_appKeyHash (vd_identity v))"
    "id_openKeyHash (vd_identity v) = [] \<or> hex64_pattern (id_openKeyHash (vd_identity v))"
    using assms by (auto simp: delivery_ok_def)
  ultimately show "list_all nul_free [js_trim (id_appKeyHash (vd_identity v)), js_trim (id_openKeyHash (vd_identity v)),
      js_trim (we_eventCode (vd_event v)), js_trim (we_eventPath (vd_event v)), delivery_window (vd_platformTimestamp v)]"
    "js_trim (id_appKeyHash (vd_identity v)) = id_appKeyHash (vd_identity v)"
    "js_trim (id_openKeyHash (vd_identity v)) = id_openKeyHash (vd_identity v)"
    "js_trim (we_eventCode (vd_event v)) = we_eventCode (vd_event v)"
    "js_trim (we_eventPath (vd_event v)) = we_eventPath (vd_event v)"
    using hex digits_nul_free route_text_trimmed by simp_all
qed

lemma delivery_key_material: "delivery_ok L v \<Longrightarrow> delivery_key L v = Inr (nl_sha256 L (delivery_material L v))"
  using window_digits[of "vd_platformTimestamp v"]
  by (simp add: delivery_key_def computeWebhookIdempotencyKey_def delivery_material_def delivery_ok_def)

text \<open>
  A key stands for one delivery. The text whose digest is the idempotency key determines, and is determined
  by, the application, the store key, the event, the ten-minute window of the platform's timestamp and the
  digest of the ciphertext: deliveries that differ in any of these never share it.
\<close>

theorem key_material_identifies_the_delivery:
  assumes "sha_hex L" "registry_ok L R"
    and "verify_delivery L R lim now d = Inr v" "verify_delivery L R lim now' d' = Inr v'"
  shows "delivery_material L v = delivery_material L v' \<longleftrightarrow>
     id_appKeyHash (vd_identity v) = id_appKeyHash (vd_identity v')
     \<and> id_openKeyHash (vd_identity v) = id_openKeyHash (vd_identity v')
     \<and> we_eventCode (vd_event v) = we_eventCode (vd_event v') \<and> we_eventPath (vd_event v) = we_eventPath (vd_event v')
     \<and> vd_platformTimestamp v div 600000 = vd_platformTimestamp v' div 600000
     \<and> nl_sha256 L (vd_ciphertext v) = nl_sha256 L (vd_ciphertext v')"
    (is "?l \<longleftrightarrow> ?r")
proof
  have ok: "delivery_ok L v" "delivery_ok L v'" using verify_delivery_ok assms by blast+
  note t = delivery_texts[OF ok(1)] and t' = delivery_texts[OF ok(2)]
  have hex: "js_trim (nl_sha256 L s) = nl_sha256 L s" for s using assms(1) hex_text by (simp add: sha_hex_def)
  assume ?l
  from key_material_inj[OF t(1) t'(1) this[unfolded delivery_material_def key_material_def]]
  have e: "id_appKeyHash (vd_identity v) = id_appKeyHash (vd_identity v')"
    "id_openKeyHash (vd_identity v) = id_openKeyHash (vd_identity v')"
    "we_eventCode (vd_event v) = we_eventCode (vd_event v')" "we_eventPath (vd_event v) = we_eventPath (vd_event v')"
    "delivery_window (vd_platformTimestamp v) = delivery_window (vd_platformTimestamp v')"
    "nl_sha256 L (vd_ciphertext v) = nl_sha256 L (vd_ciphertext v')"
    by (simp_all add: t t' hex)
  have "0 \<le> vd_platformTimestamp v div 600000" "0 \<le> vd_platformTimestamp v' div 600000"
    using ok by (auto simp: delivery_ok_def pos_imp_zdiv_nonneg_iff)
  then have "vd_platformTimestamp v div 600000 = vd_platformTimestamp v' div 600000"
    using e(5) by (auto simp: delivery_window_def show_int_def WEBHOOK_RETRY_DEDUP_WINDOW_MS_def dest!: show_nat_inj)
  with e show ?r by simp
next
  assume ?r
  then show ?l by (simp add: delivery_material_def delivery_window_def WEBHOOK_RETRY_DEDUP_WINDOW_MS_def)
qed

section \<open>A concrete registry and delivery\<close>

definition plain_lib :: node_lib where
  [js_eval]: "plain_lib = \<lparr>nl_sha256 = (\<lambda>_. sample_hash), nl_hmac = (\<lambda>_ _. ''ab''), nl_aes = (\<lambda>_ _ _. None),
     nl_json = (\<lambda>_. Some (JObj [(''eventData'', JStr ''AAAA'')])), nl_utf8 = (\<lambda>_. [])\<rparr>"

definition sample_registry :: registry where
  [js_eval]: "sample_registry =
     \<lparr>rg_apps = [\<lparr>wa_appId = ''A'', wa_appSecretKey = ''k'', wa_appKeyHash = sample_hash, wa_storeCodes = [''S1'']\<rparr>],
      rg_stores = [\<lparr>ws_storeCode = ''S1'', ws_appId = ''A'', ws_appKeyHash = sample_hash, ws_openKeyId = ''o'',
        ws_openKeyHash = sample_hash\<rparr>]\<rparr>"

definition sample_store_config :: jsv where
  [js_eval]: "sample_store_config = JObj [(''cooperationMode'', JStr ''FULL_MANAGED''), (''stores'', JArr
     [JObj [(''storeCode'', JStr ''S1''), (''appId'', JStr ''A''), (''openKeyId'', JStr ''o'')]])]"

definition sample_application_config :: jsv where
  [js_eval]: "sample_application_config = JObj [(''cooperationMode'', JStr ''FULL_MANAGED''), (''applications'', JArr
     [JObj [(''appId'', JStr ''A''), (''appSecretKey'', JStr ''k'')]])]"

lemma plain_lib_hex: "sha_hex plain_lib"
proof -
  have "hex64_pattern sample_hash" by code_simp
  then show ?thesis by (simp add: sha_hex_def plain_lib_def)
qed

lemma sample_registry_created:
  "createFullManagedWebhookCredentialRegistry plain_lib sample_store_config sample_application_config = Inr sample_registry"
  by code_simp

lemma sample_ingress: "resolveIngress plain_lib sample_registry [(''x-lt-appid'', ''A''), (''x-lt-openkeyid'', ''o'')] =
    Inr \<lparr>id_appId = ''A'', id_appSecretKey = ''k'', id_appKeyHash = sample_hash, id_openKeyId = ''o'',
      id_openKeyHash = sample_hash, id_storeCode = Some ''S1'', id_deliveryScope = ''STORE'', id_appScopedOnly = False\<rparr>"
  by code_simp

theorem stored_identity_is_the_received_one_witness:
  "resolveStored sample_registry sample_hash sample_hash ''STORE'' (Some ''S1'') =
     Inr \<lparr>si_appSecretKey = ''k'', si_appKeyHash = sample_hash, si_storeCode = Some ''S1'', si_appScopedOnly = False\<rparr>"
  using stored_identity_is_the_received_one[OF sample_registry_created plain_lib_hex sample_ingress] by simp

definition sample_limits :: receiver_limits where
  [js_eval]: "sample_limits = \<lparr>rl_callbackPath = ''/c'', rl_budget = 8000, rl_databaseTimeout = 4000, rl_bodyLimit = 1000,
     rl_skewLimit = 300000\<rparr>"

definition sample_delivery :: "string \<Rightarrow> posted_delivery" where
  [js_eval]: "sample_delivery ts =
     \<lparr>dl_headers = [(''x-lt-eventCode'', One ''3001435''), (''x-lt-timestamp'', One ts),
        (''x-lt-signature'', One ''abcdeYWI=''), (''x-lt-appid'', One ''A''), (''x-lt-openkeyid'', One ''o'')],
      dl_contentType = Some ''application/json'', dl_rawBody = [123], dl_startedAt = 17000000000\<rparr>"

definition sample_verified :: "int \<Rightarrow> verified_delivery" where
  [js_eval]: "sample_verified ts =
     \<lparr>vd_identity = \<lparr>id_appId = ''A'', id_appSecretKey = ''k'', id_appKeyHash = sample_hash, id_openKeyId = ''o'',
        id_openKeyHash = sample_hash, id_storeCode = Some ''S1'', id_deliveryScope = ''STORE'', id_appScopedOnly = False\<rparr>,
      vd_ciphertext = ''AAAA'',
      vd_event = known_event ''3001435'' ''/purchase_order_notice'' ''purchase_order'' ''PURCHASE_ORDER'' ''PURCHASE_ORDER_READBACK'',
      vd_platformTimestamp = ts\<rparr>"

lemma sample_verifies:
  "verify_delivery plain_lib sample_registry sample_limits 17000000005 (sample_delivery ''17000000000'')
     = Inr (sample_verified 17000000000)"
  "verify_delivery plain_lib sample_registry sample_limits 17000600005 (sample_delivery ''17000600000'')
     = Inr (sample_verified 17000600000)"
  by code_simp+

lemma sample_registry_ok: "registry_ok plain_lib sample_registry"
  using created_registry_ok[OF sample_registry_created] .

theorem key_material_identifies_the_delivery_witness:
  "delivery_material plain_lib (sample_verified 17000000000) \<noteq> delivery_material plain_lib (sample_verified 17000600000)"
  using key_material_identifies_the_delivery[OF plain_lib_hex sample_registry_ok sample_verifies]
  by (simp add: sample_verified_def)

end
