(* ===== verification/Webhook_Hydration.thy ===== *)
theory Webhook_Hydration
  imports Webhook_Worker Webhook_Receiver
begin

text \<open>
  \<open>src/webhook/hydration-repository.mjs\<close> and \<open>runWebhookHydration\<close> in
  \<open>scripts/run_full_managed_webhook_hydration.mjs\<close>: the second queue of the webhook runtime. A run claims the
  directives that finished jobs have left, asks the supply synchronisation to read the named orders and
  delivery notes back, and settles the directives by what it answers. The synchronisation is a parameter, and
  so are the clock, the rows that other transactions lock, the calls that others make in between, and
  whether a statement reaches the database. The message of a failure follows from its state and is left out.
\<close>

section \<open>The queue of directives\<close>

definition SUPPORTED_DIRECTIVES :: "string list" where
  [js_eval]: "SUPPORTED_DIRECTIVES = [''PURCHASE_ORDER_READBACK'', ''DELIVERY_READBACK'']"

definition whole_number :: "int \<Rightarrow> int \<Rightarrow> int \<Rightarrow> int webhook_result" where
  [js_eval]: "whole_number lo hi n = (if n < lo \<or> hi < n then Inl (WebhookError []) else Inr n)"

definition safeError :: "string \<Rightarrow> string \<Rightarrow> string" where
  [js_eval]: "safeError v fallback = (if log_code (js_upper v) then js_upper v else fallback)"

definition webhookHydrationRetryDelayMs :: "nat \<Rightarrow> int webhook_result" where
  [js_eval]: "webhookHydrationRetryDelayMs attemptCount =
     ebind (whole_number 1 100 (int attemptCount)) (\<lambda>_.
     Inr (min 3600000 (10000 * 2 ^ min (attemptCount - 1) 10)))"

record hydration_row =
  hr_directiveId :: nat
  hr_storeCode :: string
  hr_directiveType :: string
  hr_capabilityCode :: string
  hr_lookup :: jsv
  hr_attemptCount :: nat

definition mapDirective :: "string \<Rightarrow> directive \<Rightarrow> hydration_row" where
  [js_eval]: "mapDirective storeCode d =
     \<lparr>hr_directiveId = hd_id d, hr_storeCode = storeCode, hr_directiveType = hd_type d,
      hr_capabilityCode = hd_capability d,
      hr_lookup = (if is_record (hd_lookup d) then hd_lookup d else JObj []), hr_attemptCount = hd_attemptCount d\<rparr>"

definition directive_expired :: "int \<Rightarrow> directive \<Rightarrow> bool" where
  [js_eval]: "directive_expired now d \<longleftrightarrow>
     hd_state d = DRunning \<and> (case hd_leaseExpiresAt d of None \<Rightarrow> False | Some t \<Rightarrow> t \<le> now)"

definition exhaust_directive :: "int \<Rightarrow> directive \<Rightarrow> directive" where
  [js_eval]: "exhaust_directive now d =
     (if directive_expired now d \<and> 8 \<le> hd_attemptCount d
      then d\<lparr>hd_state := DFailed, hd_leaseOwner := [], hd_leaseExpiresAt := None, hd_completedAt := Some now,
             hd_lastErrorCode := ''HYDRATION_ATTEMPTS_EXHAUSTED''\<rparr>
      else d)"

definition directive_claimable :: "int \<Rightarrow> directive \<Rightarrow> bool" where
  [js_eval]: "directive_claimable now d \<longleftrightarrow>
     hd_type d \<in> set SUPPORTED_DIRECTIVES \<and> hd_attemptCount d < 8
     \<and> ((hd_state d = DPending \<or> hd_state d = DRetry) \<and> hd_availableAt d \<le> now \<or> directive_expired now d)"

text \<open>\<open>ORDER BY available_at, hydration_directive_id LIMIT n\<close>\<close>

definition directive_le :: "directive \<Rightarrow> directive \<Rightarrow> bool" where
  [js_eval]: "directive_le a b \<longleftrightarrow>
     hd_availableAt a < hd_availableAt b \<or> hd_availableAt a = hd_availableAt b \<and> hd_id a \<le> hd_id b"

definition directive_candidates :: "int \<Rightarrow> nat list \<Rightarrow> nat \<Rightarrow> webhook_db \<Rightarrow> nat list" where
  [js_eval]: "directive_candidates now locked n db =
     map hd_id (take n (sort_by directive_le
       (filter (\<lambda>d. directive_claimable now d \<and> hd_id d \<notin> set locked) (db_directives db))))"

definition take_directive :: "int \<Rightarrow> string \<Rightarrow> int \<Rightarrow> nat list \<Rightarrow> directive \<Rightarrow> directive" where
  [js_eval]: "take_directive now owner lease ids d =
     (if hd_id d \<in> set ids
      then d\<lparr>hd_state := DRunning, hd_attemptCount := Suc (hd_attemptCount d), hd_leaseOwner := owner,
             hd_leaseExpiresAt := Some (now + lease), hd_lastErrorCode := []\<rparr>
      else d)"

text \<open>The rows that the statement returns, each with the code of its store.\<close>

definition claimed_rows :: "webhook_db \<Rightarrow> nat list \<Rightarrow> hydration_row list" where
  [js_eval]: "claimed_rows db ids =
     sort_by (\<lambda>a b. hr_directiveId a \<le> hr_directiveId b)
       (concat (map (\<lambda>d. case find (\<lambda>s. dim_storeId s = hd_storeId d) (db_stores db) of
            None \<Rightarrow> []
          | Some s \<Rightarrow> [mapDirective (dim_storeCode s) d]) (filter (\<lambda>d. hd_id d \<in> set ids) (db_directives db))))"

definition claimBatch ::
    "int \<Rightarrow> nat list \<Rightarrow> string \<Rightarrow> int \<Rightarrow> int \<Rightarrow> webhook_db \<Rightarrow> hydration_row list webhook_result \<times> webhook_db" where
  [js_eval]: "claimBatch now locked workerId leaseMs limit db =
     transaction
       (ebind (clean_text 200 workerId) (\<lambda>owner.
        ebind (whole_number 30000 1800000 leaseMs) (\<lambda>lease.
        ebind (whole_number 1 200 limit) (\<lambda>n.
        let ids = directive_candidates now locked (nat n) db;
            db' = db\<lparr>db_directives := map (\<lambda>d. take_directive now owner lease ids (exhaust_directive now d)) (db_directives db)\<rparr>
        in Inr (claimed_rows db' ids, db'))))) db"

definition directive_owned :: "nat list \<Rightarrow> string \<Rightarrow> directive \<Rightarrow> bool" where
  [js_eval]: "directive_owned ids owner d \<longleftrightarrow> hd_id d \<in> set ids \<and> hd_state d = DRunning \<and> hd_leaseOwner d = owner"

text \<open>
  One statement settles every named directive that the worker still owns; when these are fewer than it named,
  the call throws, and what the statement has written stays.
\<close>

definition settle_directives ::
    "string \<Rightarrow> nat list \<Rightarrow> (directive \<Rightarrow> directive) \<Rightarrow> webhook_db \<Rightarrow> nat webhook_result \<times> webhook_db" where
  [js_eval]: "settle_directives owner ids settle db =
     (let n = length (filter (directive_owned ids owner) (db_directives db));
          db' = db\<lparr>db_directives := map (\<lambda>d. if directive_owned ids owner d then settle d else d) (db_directives db)\<rparr>
      in (if n = length ids then Inr n else Inl (WebhookError ''HYDRATION_LEASE_LOST''), db'))"

definition directive_ids :: "nat list \<Rightarrow> unit webhook_result" where
  [js_eval]: "directive_ids ids = ebind (emap (\<lambda>i. whole_number 1 max_safe (int i)) ids) (\<lambda>_. Inr ())"

definition succeed_directive :: "int \<Rightarrow> directive \<Rightarrow> directive" where
  [js_eval]: "succeed_directive now d =
     d\<lparr>hd_state := DSucceeded, hd_leaseOwner := [], hd_leaseExpiresAt := None, hd_completedAt := Some now,
       hd_lastErrorCode := []\<rparr>"

definition completeDirectives :: "int \<Rightarrow> nat list \<Rightarrow> string \<Rightarrow> webhook_db \<Rightarrow> nat webhook_result \<times> webhook_db" where
  [js_eval]: "completeDirectives now ids workerId db =
     (case ebind (clean_text 200 workerId) (\<lambda>owner. ebind (directive_ids ids) (\<lambda>_. Inr owner)) of
        Inl e \<Rightarrow> (Inl e, db)
      | Inr owner \<Rightarrow> if ids = [] then (Inr 0, db) else settle_directives owner ids (succeed_directive now) db)"

definition fail_directive :: "int \<Rightarrow> bool \<Rightarrow> int \<Rightarrow> string \<Rightarrow> directive \<Rightarrow> directive" where
  [js_eval]: "fail_directive now dead delay errorCode d =
     d\<lparr>hd_state := (if dead then DFailed else DRetry),
       hd_availableAt := (if dead then hd_availableAt d else now + delay), hd_leaseOwner := [],
       hd_leaseExpiresAt := None, hd_completedAt := (if dead then Some now else None),
       hd_lastErrorCode := errorCode\<rparr>"

definition failDirectives ::
    "int \<Rightarrow> nat list \<Rightarrow> string \<Rightarrow> nat \<Rightarrow> string \<Rightarrow> int \<Rightarrow> webhook_db \<Rightarrow> nat webhook_result \<times> webhook_db" where
  [js_eval]: "failDirectives now ids workerId attemptCount errorCode retryDelayMs db =
     (case ebind (clean_text 200 workerId) (\<lambda>owner. ebind (directive_ids ids) (\<lambda>_. Inr owner)) of
        Inl e \<Rightarrow> (Inl e, db)
      | Inr owner \<Rightarrow>
          if ids = [] then (Inr 0, db)
          else case ebind (whole_number 1 100 (int attemptCount)) (\<lambda>_. whole_number 1000 3600000 retryDelayMs) of
              Inl e \<Rightarrow> (Inl e, db)
            | Inr delay \<Rightarrow> settle_directives owner ids
                (fail_directive now (8 \<le> attemptCount) delay (safeError errorCode ''HYDRATION_FAILED'')) db)"

text \<open>The calls of both queues: those of receiver, worker and operators, and those of the hydration.\<close>

datatype hydration_call =
    WebhookCall db_call
  | ClaimDirectives "nat list" string int int
  | CompleteDirectives "nat list" string
  | FailDirectives "nat list" string nat string int

fun hydration_perform :: "int \<Rightarrow> hydration_call \<Rightarrow> webhook_db \<Rightarrow> webhook_db" where
  "hydration_perform now (WebhookCall c) db = perform now c db"
| "hydration_perform now (ClaimDirectives locked w lease n) db = snd (claimBatch now locked w lease n db)"
| "hydration_perform now (CompleteDirectives ids w) db = snd (completeDirectives now ids w db)"
| "hydration_perform now (FailDirectives ids w k ec delay) db = snd (failDirectives now ids w k ec delay db)"

definition hydration_calls :: "(int \<times> hydration_call) list \<Rightarrow> webhook_db \<Rightarrow> webhook_db" where
  [js_eval]: "hydration_calls cs db = fold (\<lambda>(now, c). hydration_perform now c) cs db"

section \<open>Reading the answer of the synchronisation\<close>

text \<open>Reading a property of \<open>null\<close> or calling \<open>find\<close> on what is no array throws a \<open>TypeError\<close> without a code.\<close>

fun find_field :: "string \<Rightarrow> string \<Rightarrow> jsv list \<Rightarrow> jsv webhook_result" where
  "find_field k s [] = Inr JUndef"
| "find_field k s (v # vs) =
     (if nullish v then Inl (WebhookError []) else if jget v k = JStr s then Inr v else find_field k s vs)"

declare find_field.simps [js_eval]

definition domainCount :: "jsv \<Rightarrow> string \<Rightarrow> string \<Rightarrow> int webhook_result" where
  [js_eval]: "domainCount summary storeCode domain =
     (case jget summary ''results'' of
        JArr rows \<Rightarrow>
          ebind (find_field ''storeCode'' storeCode rows) (\<lambda>store.
          ebind (case jget store ''domains'' of
              JUndef \<Rightarrow> Inr JUndef | JNull \<Rightarrow> Inr JUndef
            | JArr ds \<Rightarrow> find_field ''domain'' domain ds
            | _ \<Rightarrow> Inl (WebhookError [])) (\<lambda>d.
          Inr (case safe_int (jget d ''recordCount'') of None \<Rightarrow> 0 | Some n \<Rightarrow> n)))
      | _ \<Rightarrow> Inl (WebhookError []))"

abbreviation not_ready :: webhook_error where
  "not_ready \<equiv> WebhookError ''WEBHOOK_READBACK_NOT_READY''"

definition enough_records :: "jsv \<Rightarrow> string \<Rightarrow> string \<Rightarrow> string list \<Rightarrow> unit webhook_result" where
  [js_eval]: "enough_records summary storeCode domain keys =
     (if keys = [] then Inr ()
      else ebind (domainCount summary storeCode domain) (\<lambda>n. ensure (int (length keys) \<le> n) not_ready))"

definition read_back :: "jsv \<Rightarrow> string \<Rightarrow> string list \<Rightarrow> string list \<Rightarrow> unit webhook_result" where
  [js_eval]: "read_back summary storeCode orderNos deliveryCodes =
     (if nullish summary then Inl (WebhookError [])
      else ebind (ensure (truthy (jget summary ''ok'')) not_ready) (\<lambda>_.
        ebind (enough_records summary storeCode ''purchase-orders'' orderNos) (\<lambda>_.
        enough_records summary storeCode ''deliveries'' deliveryCodes)))"

section \<open>One run\<close>

definition hydration_errorCode :: "webhook_error \<Rightarrow> string" where
  [js_eval]: "hydration_errorCode e = (if log_code (js_upper (we_code e)) then js_upper (we_code e) else ''HYDRATION_FAILED'')"

definition lookup_values :: "jsv \<Rightarrow> jsv list" where
  [js_eval]: "lookup_values l = jget l ''businessKey'' # (case jget l ''businessKeys'' of JArr vs \<Rightarrow> vs | _ \<Rightarrow> [])"

definition businessKeys :: "hydration_row list \<Rightarrow> string \<Rightarrow> string list webhook_result" where
  [js_eval]: "businessKeys rows ty =
     (case emap js_string_or_empty
         (concat (map (\<lambda>r. lookup_values (hr_lookup r)) (filter (\<lambda>r. hr_directiveType r = ty) rows))) of
        Inl _ \<Rightarrow> Inl (WebhookError [])
      | Inr ts \<Rightarrow> Inr (dedupe (filter (\<lambda>t. t \<noteq> []) (map js_trim ts))))"

definition names_its_key :: "string list \<Rightarrow> string list \<Rightarrow> hydration_row \<Rightarrow> bool" where
  [js_eval]: "names_its_key orderNos deliveryCodes r =
     (case jget (hr_lookup r) ''businessKey'' of
        JStr k \<Rightarrow> hr_directiveType r = ''PURCHASE_ORDER_READBACK'' \<and> k \<in> set orderNos
          \<or> hr_directiveType r = ''DELIVERY_READBACK'' \<and> k \<in> set deliveryCodes
      | _ \<Rightarrow> False)"

definition max_attempt :: "hydration_row list \<Rightarrow> nat" where
  [js_eval]: "max_attempt rows = foldr (\<lambda>r n. max (hr_attemptCount r) n) rows 0"

text \<open>The run id carries the clock and is left out; configuration and database are the same in every call.\<close>

record sync_call =
  sy_stores :: string
  sy_domains :: string
  sy_purchaseOrderNos :: string
  sy_deliveryCodes :: string

definition sync_call_of :: "string \<Rightarrow> string list \<Rightarrow> string list \<Rightarrow> sync_call" where
  [js_eval]: "sync_call_of storeCode orderNos deliveryCodes =
     \<lparr>sy_stores = storeCode,
      sy_domains = join_with '','' ((if orderNos \<noteq> [] then [''purchase-orders''] else [])
        @ (if deliveryCodes \<noteq> [] then [''deliveries''] else [])),
      sy_purchaseOrderNos = join_with '','' orderNos, sy_deliveryCodes = join_with '','' deliveryCodes\<rparr>"

text \<open>What a run does, in order; an answer of the synchronisation is a thrown error's text or its summary.\<close>

datatype hydration_act =
    DidClaim "hydration_row list"
  | DidSync sync_call "string + jsv"
  | DidComplete "hydration_row list"
  | DidFail "hydration_row list" string

record hydration_env =
  hy_workerId :: string
  hy_now :: "nat \<Rightarrow> int"
  hy_locked :: "nat \<Rightarrow> nat list"
  hy_others :: "nat \<Rightarrow> (int \<times> hydration_call) list"
  hy_reach :: "nat \<Rightarrow> reach"
  hy_sync :: "nat \<Rightarrow> sync_call \<Rightarrow> string + jsv"

record hydration_world =
  hw_db :: webhook_db
  hw_tick :: nat
  hw_acts :: "hydration_act list"

definition database_call ::
    "hydration_env \<Rightarrow> (int \<Rightarrow> nat list \<Rightarrow> webhook_db \<Rightarrow> 'a webhook_result \<times> webhook_db) \<Rightarrow> hydration_world
     \<Rightarrow> 'a webhook_result \<times> hydration_world" where
  [js_eval]: "database_call E f w =
     (let n = hw_tick w; db = hydration_calls (hy_others E n) (hw_db w);
          (r, db') = through (hy_reach E n) (f (hy_now E n) (hy_locked E n) db) db
      in (r, w\<lparr>hw_db := db', hw_tick := Suc n\<rparr>))"

definition noted :: "hydration_act \<Rightarrow> hydration_world \<Rightarrow> hydration_world" where
  [js_eval]: "noted a w = w\<lparr>hw_acts := hw_acts w @ [a]\<rparr>"

definition fail_rows ::
    "hydration_env \<Rightarrow> hydration_row list \<Rightarrow> string \<Rightarrow> hydration_world \<Rightarrow> nat webhook_result \<times> hydration_world" where
  [js_eval]: "fail_rows E rows errorCode w =
     (case webhookHydrationRetryDelayMs (max_attempt rows) of
        Inl e \<Rightarrow> (Inl e, w)
      | Inr delay \<Rightarrow> database_call E (\<lambda>now _. failDirectives now (map hr_directiveId rows) (hy_workerId E)
          (max_attempt rows) errorCode delay) (noted (DidFail rows errorCode) w))"

definition complete_rows ::
    "hydration_env \<Rightarrow> hydration_row list \<Rightarrow> hydration_world \<Rightarrow> nat webhook_result \<times> hydration_world" where
  [js_eval]: "complete_rows E rows w =
     database_call E (\<lambda>now _. completeDirectives now (map hr_directiveId rows) (hy_workerId E)) (noted (DidComplete rows) w)"

definition sync_rows ::
    "hydration_env \<Rightarrow> string \<Rightarrow> string list \<Rightarrow> string list \<Rightarrow> hydration_world \<Rightarrow> unit webhook_result \<times> hydration_world" where
  [js_eval]: "sync_rows E storeCode orderNos deliveryCodes w =
     (let call = sync_call_of storeCode orderNos deliveryCodes; answer = hy_sync E (hw_tick w) call
      in (case answer of Inl t \<Rightarrow> Inl (WebhookError t) | Inr s \<Rightarrow> read_back s storeCode orderNos deliveryCodes,
          noted (DidSync call answer) w))"

record hydration_summary =
  hs_claimed :: nat
  hs_succeeded :: nat
  hs_retrying :: nat
  hs_groups :: nat

definition settle_valid ::
    "hydration_env \<Rightarrow> string \<Rightarrow> string list \<Rightarrow> string list \<Rightarrow> hydration_row list \<Rightarrow> hydration_summary \<Rightarrow> hydration_world
     \<Rightarrow> hydration_summary webhook_result \<times> hydration_world" where
  [js_eval]: "settle_valid E storeCode orderNos deliveryCodes valid sm w =
     (case (case sync_rows E storeCode orderNos deliveryCodes w of
              (Inl e, w1) \<Rightarrow> (Inl e, w1)
            | (Inr _, w1) \<Rightarrow> complete_rows E valid w1) of
        (Inr _, w2) \<Rightarrow> (Inr (sm\<lparr>hs_succeeded := hs_succeeded sm + length valid\<rparr>), w2)
      | (Inl e, w2) \<Rightarrow>
          (case fail_rows E valid (hydration_errorCode e) w2 of
             (Inl e', w3) \<Rightarrow> (Inl e', w3)
           | (Inr _, w3) \<Rightarrow> (Inr (sm\<lparr>hs_retrying := hs_retrying sm + length valid\<rparr>), w3)))"

definition fail_invalid ::
    "hydration_env \<Rightarrow> hydration_row list \<Rightarrow> hydration_summary \<Rightarrow> hydration_world
     \<Rightarrow> hydration_summary webhook_result \<times> hydration_world" where
  [js_eval]: "fail_invalid E invalid sm w =
     (if invalid = [] then (Inr sm, w)
      else case fail_rows E invalid ''HYDRATION_LOOKUP_MISSING'' w of
          (Inl e, w') \<Rightarrow> (Inl e, w')
        | (Inr _, w') \<Rightarrow> (Inr (sm\<lparr>hs_retrying := hs_retrying sm + length invalid\<rparr>), w'))"

definition hydrate_group ::
    "hydration_env \<Rightarrow> string \<times> hydration_row list \<Rightarrow> hydration_summary \<Rightarrow> hydration_world
     \<Rightarrow> hydration_summary webhook_result \<times> hydration_world" where
  [js_eval]: "hydrate_group E g sm w =
     (let rows = snd g in
      case ebind (businessKeys rows ''PURCHASE_ORDER_READBACK'') (\<lambda>os.
           ebind (businessKeys rows ''DELIVERY_READBACK'') (\<lambda>ds. Inr (os, ds))) of
        Inl e \<Rightarrow> (Inl e, w)
      | Inr (orderNos, deliveryCodes) \<Rightarrow>
          let valid = filter (names_its_key orderNos deliveryCodes) rows;
              invalid = filter (\<lambda>r. \<not> names_its_key orderNos deliveryCodes r) rows
          in case fail_invalid E invalid (sm\<lparr>hs_groups := Suc (hs_groups sm)\<rparr>) w of
              (Inl e, w') \<Rightarrow> (Inl e, w')
            | (Inr sm', w') \<Rightarrow>
                if valid = [] then (Inr sm', w')
                else settle_valid E (fst g) orderNos deliveryCodes valid sm' w')"

fun hydrate_groups ::
    "hydration_env \<Rightarrow> (string \<times> hydration_row list) list \<Rightarrow> hydration_summary \<Rightarrow> hydration_world
     \<Rightarrow> hydration_summary webhook_result \<times> hydration_world" where
  "hydrate_groups E [] sm w = (Inr sm, w)"
| "hydrate_groups E (g # gs) sm w =
     (case hydrate_group E g sm w of
        (Inl e, w') \<Rightarrow> (Inl e, w')
      | (Inr sm', w') \<Rightarrow> hydrate_groups E gs sm' w')"

definition claim_rows ::
    "hydration_env \<Rightarrow> hydration_world \<Rightarrow> hydration_row list webhook_result \<times> hydration_world" where
  [js_eval]: "claim_rows E w =
     (case database_call E (\<lambda>now locked. claimBatch now locked (hy_workerId E) 600000 3) w of
        (Inl e, w') \<Rightarrow> (Inl e, w')
      | (Inr rows, w') \<Rightarrow> (Inr rows, noted (DidClaim rows) w'))"

text \<open>The first argument counts the batches that are left; \<open>new Map\<close> keeps the stores in the order of their first row.\<close>

fun hydration_batches ::
    "hydration_env \<Rightarrow> nat \<Rightarrow> hydration_summary \<Rightarrow> hydration_world
     \<Rightarrow> hydration_summary webhook_result \<times> hydration_world" where
  "hydration_batches E 0 sm w = (Inr sm, w)"
| "hydration_batches E (Suc n) sm w =
     (case claim_rows E w of
        (Inl e, w') \<Rightarrow> (Inl e, w')
      | (Inr rows, w') \<Rightarrow>
          if rows = [] then (Inr sm, w')
          else case hydrate_groups E (group_by_key hr_storeCode rows)
                 (sm\<lparr>hs_claimed := hs_claimed sm + length rows\<rparr>) w' of
              (Inl e, w'') \<Rightarrow> (Inl e, w'')
            | (Inr sm', w'') \<Rightarrow> hydration_batches E n sm' w'')"

declare hydrate_groups.simps [js_eval] hydration_batches.simps [js_eval]

definition runWebhookHydration ::
    "hydration_env \<Rightarrow> webhook_db \<Rightarrow> hydration_summary webhook_result \<times> hydration_world" where
  [js_eval]: "runWebhookHydration E db =
     hydration_batches E 10 \<lparr>hs_claimed = 0, hs_succeeded = 0, hs_retrying = 0, hs_groups = 0\<rparr>
       \<lparr>hw_db = db, hw_tick = 0, hw_acts = []\<rparr>"

end
