(* ===== verification/Webhook_Hydration_Properties.thy ===== *)
theory Webhook_Hydration_Properties
  imports Webhook_Hydration Webhook_Queue_Properties
begin

text \<open>
  The second queue of the webhook runtime: its rows keep their constraints whatever both queues do, a run is
  bounded and accounts for every statement that it makes, a directive succeeds only after a read-back that
  covers it, and it fails early only beside a directive of its store that has used up its attempts.
\<close>

section \<open>Invariants of both queues\<close>

lemma hydration_calls_simps [simp]:
  "hydration_calls [] db = db" "hydration_calls ((now, c) # cs) db = hydration_calls cs (hydration_perform now c db)"
  by (simp_all add: hydration_calls_def)

lemma hydration_calls_append: "hydration_calls (cs @ ds) db = hydration_calls ds (hydration_calls cs db)"
  by (simp add: hydration_calls_def)

locale hydration_invariant =
  fixes I :: "webhook_db \<Rightarrow> bool"
  assumes empty: "I (empty_db stores probes)"
    and step: "I db \<Longrightarrow> I (hydration_perform now c db)"
begin

lemma calls_keep: "I db \<Longrightarrow> I (hydration_calls cs db)"
proof (induction cs arbitrary: db)
  case (Cons x cs)
  then show ?case by (cases x) (simp add: step)
qed simp

lemma calls_reach: "I (hydration_calls cs (empty_db stores probes))"
  by (rule calls_keep) (rule empty)

end

text \<open>What both queues keep, the first queue keeps alone.\<close>

sublocale hydration_invariant \<subseteq> first_queue: db_invariant I
proof
  show "I (empty_db stores probes)" for stores probes by (rule empty)
  show "I db \<Longrightarrow> I (perform now c db)" for db now c using step[of db now "WebhookCall c"] by simp
qed

section \<open>One directive\<close>

inductive directive_move :: "directive \<Rightarrow> directive \<Rightarrow> bool" where
  stay: "directive_move d d"
| exhaust: "\<lbrakk>hd_state d = DRunning; 8 \<le> hd_attemptCount d\<rbrakk> \<Longrightarrow>
    directive_move d (d\<lparr>hd_state := DFailed, hd_leaseOwner := [], hd_leaseExpiresAt := None, hd_completedAt := Some t,
      hd_lastErrorCode := ''HYDRATION_ATTEMPTS_EXHAUSTED''\<rparr>)"
| claim: "\<lbrakk>hd_state d \<in> {DPending, DRetry, DRunning}; hd_attemptCount d < 8; lease_text w\<rbrakk> \<Longrightarrow>
    directive_move d (d\<lparr>hd_state := DRunning, hd_attemptCount := Suc (hd_attemptCount d), hd_leaseOwner := w,
      hd_leaseExpiresAt := Some t, hd_lastErrorCode := []\<rparr>)"
| succeed: "hd_state d = DRunning \<Longrightarrow> directive_move d (succeed_directive t d)"
| retry: "\<lbrakk>hd_state d = DRunning; length ec \<le> 80\<rbrakk> \<Longrightarrow> directive_move d (fail_directive t dead delay ec d)"

text \<open>The constraints of the table, and the bound on the attempts.\<close>

definition directive_ok :: "directive \<Rightarrow> bool" where
  [js_eval]: "directive_ok d \<longleftrightarrow> hd_attemptCount d \<le> 8 \<and> length (hd_lastErrorCode d) \<le> 80
     \<and> (if hd_state d = DRunning then lease_text (hd_leaseOwner d) \<and> hd_leaseExpiresAt d \<noteq> None \<and> 0 < hd_attemptCount d
        else hd_leaseOwner d = [] \<and> hd_leaseExpiresAt d = None)
     \<and> (hd_completedAt d = None \<longleftrightarrow> hd_state d \<in> {DPending, DRunning, DRetry})"

lemma directive_move_ok: "directive_move d d' \<Longrightarrow> directive_ok d \<Longrightarrow> directive_ok d'"
  by (induction rule: directive_move.induct) (auto simp: directive_ok_def succeed_directive_def fail_directive_def)

lemma directive_move_ids: "directive_move d d' \<Longrightarrow> hd_id d' = hd_id d \<and> hd_eventId d' = hd_eventId d \<and> hd_lookup d' = hd_lookup d"
  by (induction rule: directive_move.induct) (auto simp: succeed_directive_def fail_directive_def)

section \<open>Every call moves directives\<close>

definition directives_moved :: "webhook_db \<Rightarrow> webhook_db \<Rightarrow> bool" where
  "directives_moved db db' \<longleftrightarrow> list_all2 directive_move (db_directives db) (db_directives db')
     \<and> db_nextDirective db' = db_nextDirective db"

lemma directives_moved_refl: "directives_moved db db"
  by (simp add: directives_moved_def list_all2_same directive_move.stay)

lemma directives_moved_map:
  assumes "\<And>d. d \<in> set (db_directives db) \<Longrightarrow> directive_move d (f d)"
  shows "directives_moved db (db\<lparr>db_directives := map f (db_directives db)\<rparr>)"
  using assms by (simp add: directives_moved_def list.rel_map list_all2_same)

lemma log_code_length: "log_code s \<Longrightarrow> length s \<le> 80"
  by (simp add: log_code_def matches_span_def)

lemma safeError_length: "length (safeError v ''HYDRATION_FAILED'') \<le> 80"
  by (simp add: safeError_def log_code_length)

lemma exhaust_directive_move: "directive_move d (exhaust_directive now d)"
  using directive_move.exhaust[of d now] directive_move.stay[of d]
  by (auto simp: exhaust_directive_def directive_expired_def)

lemma candidate_claimable:
  assumes "distinct (map hd_id (db_directives db))" "d \<in> set (db_directives db)"
    and "hd_id d \<in> set (directive_candidates now locked n db)"
  shows "directive_claimable now d"
proof -
  obtain c where c: "c \<in> set (db_directives db)" "directive_claimable now c" "hd_id c = hd_id d"
    using assms(3) by (auto simp: directive_candidates_def dest!: in_set_takeD)
  then have "c = d" using assms(1,2) by (meson distinct_map inj_onD)
  then show ?thesis using c(2) by simp
qed

lemma claimable_move:
  assumes "directive_claimable now d" "lease_text owner" "hd_id d \<in> set ids"
  shows "directive_move d (take_directive now owner lease ids (exhaust_directive now d))"
proof -
  have e: "exhaust_directive now d = d" using assms(1) by (auto simp: exhaust_directive_def directive_claimable_def)
  have "hd_state d \<in> {DPending, DRetry, DRunning}" "hd_attemptCount d < 8"
    using assms(1) by (auto simp: directive_claimable_def directive_expired_def)
  then show ?thesis unfolding e using assms(2,3) directive_move.claim by (simp add: take_directive_def)
qed

lemma claimBatch_Inr:
  assumes "claimBatch now locked w lease n db = (Inr rows, db')"
  obtains owner l m where "lease_text owner" "1 \<le> m" "m = n"
    "rows = claimed_rows db' (directive_candidates now locked (nat m) db)"
    "db' = db\<lparr>db_directives := map (\<lambda>d. take_directive now owner l (directive_candidates now locked (nat m) db)
        (exhaust_directive now d)) (db_directives db)\<rparr>"
proof -
  obtain owner l m where c: "clean_text 200 w = Inr owner" "whole_number 1 200 n = Inr m"
    "rows = claimed_rows db' (directive_candidates now locked (nat m) db)"
    "db' = db\<lparr>db_directives := map (\<lambda>d. take_directive now owner l (directive_candidates now locked (nat m) db)
        (exhaust_directive now d)) (db_directives db)\<rparr>"
    using assms by (auto simp: claimBatch_def transaction_Inr ebind_Inr_iff Let_def)
  have "lease_text owner" using c(1) by (auto simp: clean_text_Inr lease_text_def)
  moreover have "1 \<le> m" "m = n" using c(2) by (auto simp: whole_number_def split: if_splits)
  ultimately show ?thesis using that c(3,4) by blast
qed

lemma claimBatch_Inl: "claimBatch now locked w lease n db = (Inl e, db') \<Longrightarrow> db' = db"
  by (simp add: claimBatch_def transaction_Inl)

lemma claimBatch_moves:
  assumes "distinct (map hd_id (db_directives db))"
  shows "directives_moved db (snd (claimBatch now locked w lease n db))"
proof (cases "claimBatch now locked w lease n db")
  case (Pair r db')
  show ?thesis
  proof (cases r)
    case (Inl e)
    then show ?thesis using Pair claimBatch_Inl[of now locked w lease n db e db'] directives_moved_refl by simp
  next
    case (Inr rows)
    obtain owner l m where c: "lease_text owner"
      "db' = db\<lparr>db_directives := map (\<lambda>d. take_directive now owner l (directive_candidates now locked (nat m) db)
        (exhaust_directive now d)) (db_directives db)\<rparr>"
      by (rule claimBatch_Inr[OF Pair[unfolded Inr]])
    have "directives_moved db db'"
      unfolding c(2)
    proof (rule directives_moved_map)
      fix d assume d: "d \<in> set (db_directives db)"
      let ?ids = "directive_candidates now locked (nat m) db"
      show "directive_move d (take_directive now owner l ?ids (exhaust_directive now d))"
      proof (cases "hd_id d \<in> set ?ids")
        case True
        then show ?thesis using candidate_claimable[OF assms d] claimable_move c(1) by blast
      next
        case False
        then have "take_directive now owner l ?ids (exhaust_directive now d) = exhaust_directive now d"
          by (simp add: take_directive_def exhaust_directive_def)
        then show ?thesis using exhaust_directive_move by simp
      qed
    qed
    then show ?thesis using Pair by simp
  qed
qed

lemma settle_moves:
  assumes "\<And>d. hd_state d = DRunning \<Longrightarrow> directive_move d (f d)"
  shows "directives_moved db (snd (settle_directives owner ids f db))"
  unfolding settle_directives_def Let_def
  by (auto intro!: directives_moved_map assms directive_move.stay simp: directive_owned_def)

lemma complete_moves: "directives_moved db (snd (completeDirectives now ids w db))"
  unfolding completeDirectives_def
  by (auto split: sum.splits intro!: directives_moved_refl settle_moves directive_move.succeed)

lemma fail_moves: "directives_moved db (snd (failDirectives now ids w k ec delay db))"
  unfolding failDirectives_def
  by (auto split: sum.splits intro!: directives_moved_refl settle_moves directive_move.retry safeError_length)

section \<open>What the first queue does to the directives\<close>

definition same_directives :: "webhook_db \<Rightarrow> webhook_db \<Rightarrow> bool" where
  "same_directives db db' \<longleftrightarrow> db_directives db' = db_directives db \<and> db_nextDirective db' = db_nextDirective db"

lemma same_directives_refl: "same_directives db db"
  by (simp add: same_directives_def)

text \<open>A call of the first queue keeps the directives, or a completion adds a fresh one.\<close>

definition fresh_directive :: "webhook_db \<Rightarrow> directive \<Rightarrow> bool" where
  "fresh_directive db d \<longleftrightarrow> hd_id d = db_nextDirective db \<and> hd_state d = DPending \<and> hd_attemptCount d = 0
     \<and> hd_leaseOwner d = [] \<and> hd_leaseExpiresAt d = None \<and> hd_completedAt d = None \<and> hd_lastErrorCode d = []
     \<and> hd_eventId d \<notin> hd_eventId ` set (db_directives db)"

definition directives_grow :: "webhook_db \<Rightarrow> webhook_db \<Rightarrow> bool" where
  "directives_grow db db' \<longleftrightarrow> same_directives db db'
     \<or> (\<exists>d. fresh_directive db d \<and> db_directives db' = db_directives db @ [d] \<and> db_nextDirective db' = Suc (db_nextDirective db))"

lemma insert_directive_grows:
  assumes "insert_directive now ev s d db = Inr db'"
  shows "directives_grow db db'"
proof (cases d)
  case None
  then show ?thesis using assms by (simp add: insert_directive_def directives_grow_def same_directives_def)
next
  case (Some v)
  then obtain ty cp lk where "(case s of None \<Rightarrow> Inl (WebhookError ''23502'')
          | Some s \<Rightarrow>
              if list_ex (\<lambda>x. hd_eventId x = ev) (db_directives db) then Inl (WebhookError ''23505'')
              else Inr (db\<lparr>db_directives := db_directives db @
                  [\<lparr>hd_id = db_nextDirective db, hd_eventId = ev, hd_storeId = s, hd_type = ty,
                    hd_capability = cp, hd_lookup = lk, hd_state = DPending, hd_attemptCount = 0,
                    hd_availableAt = now, hd_leaseOwner = [], hd_leaseExpiresAt = None,
                    hd_completedAt = None, hd_lastErrorCode = []\<rparr>],
                  db_nextDirective := Suc (db_nextDirective db)\<rparr>)) = Inr db'"
    using assms by (auto simp: insert_directive_def ebind_Inr_iff)
  then show ?thesis
    by (cases s) (auto simp: directives_grow_def fresh_directive_def list_ex_iff split: if_splits)
qed

lemma directives_grow_cong:
  assumes "directives_grow db db'" "same_directives db0 db" "same_directives db' db1"
  shows "directives_grow db0 db1"
  using assms by (auto simp: directives_grow_def same_directives_def fresh_directive_def)

lemma complete_grows: "directives_grow db (perform now (CallComplete k w n d g q) db)"
proof (cases "completeJob now k w n d g q db")
  case (Pair x db')
  show ?thesis
  proof (cases x)
    case (Inl e)
    then show ?thesis using Pair rolled_back(4)[of now k w n d g q db e db'] by (simp add: directives_grow_def same_directives_def)
  next
    case (Inr cp)
    from Pair[unfolded Inr] obtain owner and r :: receipt and e db2 where f:
      "insert_directive now (fst (upsert_event e db)) (rc_storeId r) d (snd (upsert_event e db)) = Inr db2"
      "db' = (gate_after now g (rc_storeId r) (fst (upsert_event e db)) db2)
        \<lparr>db_jobs := map (finish_job now k owner (if q then QUARANTINED else SUCCEEDED)) (db_jobs db)\<rparr>"
      by (rule completeJob_Inr) (rule that, assumption+)
    have "db_nextDirective (gate_after now g s ev y) = db_nextDirective y" for s ev y
      by (simp add: gate_after_def close_gate_def split: option.splits)
    then have "same_directives db2 db'" by (simp add: f(2) same_directives_def)
    moreover have "same_directives db (snd (upsert_event e db))"
      by (simp add: same_directives_def upsert_event_def split: option.splits)
    ultimately show ?thesis using directives_grow_cong[OF insert_directive_grows[OF f(1)]] Pair by simp
  qed
qed

lemma store_keeps_directives: "same_directives db (perform now (CallStore i) db)"
  unfolding perform.simps storeReceiptAndJob_def
proof (rule transaction_keeps, rule same_directives_refl)
  fix x db'
  assume "ebind (validate_input i) (\<lambda>v. ebind (lookup_store db (ri_storeCode v)) (\<lambda>sid. insert_receipt_and_job now v sid db)) = Inr (x, db')"
  then obtain v sid where "insert_receipt_and_job now v sid db = Inr (x, db')" by (auto simp: ebind_Inr_iff)
  then show "same_directives db db'" by (cases rule: insert_cases) (simp_all add: same_directives_def)
qed

lemma reopen_keeps_directives: "same_directives db (perform now (CallReopen sc p) db)"
proof (cases "reopenAuthorizationGateFromProbe sc p db")
  case (Pair x db')
  show ?thesis
  proof (cases x)
    case (Inl e)
    then show ?thesis using Pair rolled_back(6)[of sc p db e db'] by (simp add: same_directives_def)
  next
    case (Inr b)
    from Pair[unfolded Inr] show ?thesis
      by (cases rule: reopen_Inr) (use Pair in \<open>simp_all add: same_directives_def\<close>)
  qed
qed

lemma jobs_keep_directives:
  "same_directives db (perform now (CallClaim locked w lease) db)"
  "same_directives db (perform now (CallRenew k w lease) db)"
  "same_directives db (perform now (CallFail k w ec em delay) db)"
  "same_directives db (perform now (CallRequeue x) db)"
  "same_directives db (perform now (Elsewhere stores probes) db)"
  unfolding perform.simps claimNextJob_def renewJobLease_def failJob_def
  by (rule transaction_keeps,
      auto simp: same_directives_def claimed_state_def ebind_Inr_iff requeueWebhookDeadLetters_def Let_def
        split: if_splits option.splits)+

lemma perform_grows: "directives_grow db (perform now c db)"
proof (cases c)
  case (CallComplete k w n d g q)
  then show ?thesis using complete_grows by simp
qed (use store_keeps_directives reopen_keeps_directives jobs_keep_directives in \<open>simp_all only: directives_grow_def, blast+\<close>)

section \<open>The rows keep their constraints\<close>

definition directives_ok :: "webhook_db \<Rightarrow> bool" where
  "directives_ok db \<longleftrightarrow> list_all directive_ok (db_directives db) \<and> distinct (map hd_id (db_directives db))
     \<and> list_all (\<lambda>d. hd_id d < db_nextDirective db) (db_directives db) \<and> distinct (map hd_eventId (db_directives db))"

lemma directives_moved_fields:
  "list_all2 directive_move ds ds' \<Longrightarrow> map hd_id ds' = map hd_id ds \<and> map hd_eventId ds' = map hd_eventId ds
     \<and> (list_all directive_ok ds \<longrightarrow> list_all directive_ok ds')"
  by (induction rule: list_all2_induct) (auto dest: directive_move_ids directive_move_ok)

lemma directives_ok_moved:
  assumes "directives_moved db db'" "directives_ok db"
  shows "directives_ok db'"
proof -
  have f: "map hd_id (db_directives db') = map hd_id (db_directives db)"
    "map hd_eventId (db_directives db') = map hd_eventId (db_directives db)" "list_all directive_ok (db_directives db')"
    using assms directives_moved_fields by (auto simp: directives_moved_def directives_ok_def)
  have "\<forall>d\<in>set (db_directives db'). hd_id d < db_nextDirective db"
    using bounded_ids[OF f(1)] assms(2) by (simp add: directives_ok_def list_all_iff)
  then show ?thesis using f assms by (simp add: directives_ok_def directives_moved_def list_all_iff)
qed

lemma fresh_directive_ok: "fresh_directive db d \<Longrightarrow> directive_ok d"
  by (simp add: fresh_directive_def directive_ok_def)

lemma directives_ok_grow:
  assumes "directives_grow db db'" "directives_ok db"
  shows "directives_ok db'"
  using assms(1) unfolding directives_grow_def
proof
  assume "same_directives db db'"
  then show ?thesis using assms(2) by (simp add: same_directives_def directives_ok_def)
next
  assume "\<exists>d. fresh_directive db d \<and> db_directives db' = db_directives db @ [d] \<and> db_nextDirective db' = Suc (db_nextDirective db)"
  then obtain d where d: "fresh_directive db d" "db_directives db' = db_directives db @ [d]"
    "db_nextDirective db' = Suc (db_nextDirective db)" by blast
  have "hd_id d \<notin> hd_id ` set (db_directives db)"
    using d(1) assms(2) by (auto simp: fresh_directive_def directives_ok_def list_all_iff)
  moreover have "list_all (\<lambda>x. hd_id x < Suc (db_nextDirective db)) (db_directives db)"
    using assms(2) by (auto simp: directives_ok_def list_all_iff less_Suc_eq)
  ultimately show ?thesis
    using assms(2) fresh_directive_ok[OF d(1)] d(1) unfolding directives_ok_def d(2,3) by (simp add: fresh_directive_def)
qed

lemma directives_ok_step:
  assumes "directives_ok db"
  shows "directives_ok (hydration_perform now c db)"
proof (cases c)
  case (WebhookCall x)
  then show ?thesis using perform_grows directives_ok_grow assms by simp blast
next
  case (ClaimDirectives locked w lease n)
  have "distinct (map hd_id (db_directives db))" using assms by (simp add: directives_ok_def)
  then show ?thesis using directives_ok_moved[OF claimBatch_moves assms] ClaimDirectives by simp
next
  case (CompleteDirectives ids w)
  then show ?thesis using complete_moves directives_ok_moved assms by simp blast
next
  case (FailDirectives ids w k ec delay)
  then show ?thesis using fail_moves directives_ok_moved assms by simp blast
qed

interpretation directives: hydration_invariant directives_ok
proof
  show "directives_ok (empty_db stores probes)" for stores probes by (simp add: directives_ok_def empty_db_def)
  show "directives_ok db \<Longrightarrow> directives_ok (hydration_perform now c db)" for db now c by (rule directives_ok_step)
qed

text \<open>The second queue writes nothing but its directives, so the first one keeps its own invariant.\<close>

definition only_directives :: "webhook_db \<Rightarrow> webhook_db \<Rightarrow> bool" where
  "only_directives db db' \<longleftrightarrow> db' = db\<lparr>db_directives := db_directives db'\<rparr>"

lemma only_directives_hydration:
  "only_directives db (snd (claimBatch now locked w lease n db))"
  "only_directives db (snd (completeDirectives now ids w db))"
  "only_directives db (snd (failDirectives now ids w k ec delay db))"
  by (auto simp: only_directives_def claimBatch_def transaction_snd completeDirectives_def failDirectives_def
      settle_directives_def Let_def ebind_Inr_iff split: sum.splits)

lemma tables_ok_only: "only_directives db db' \<Longrightarrow> tables_ok db \<Longrightarrow> tables_ok db'"
proof -
  assume a: "only_directives db db'" "tables_ok db"
  have "db_jobs db' = db_jobs db" "db_receipts db' = db_receipts db" "db_nextJob db' = db_nextJob db"
    "db_nextReceipt db' = db_nextReceipt db"
    using a(1) unfolding only_directives_def by (metis webhook_db.select_convs webhook_db.surjective webhook_db.update_convs(5))+
  then show "tables_ok db'" using a(2) by (simp add: tables_ok_def)
qed

lemma tables_ok_hydration: "tables_ok db \<Longrightarrow> tables_ok (hydration_perform now c db)"
  using only_directives_hydration tables_ok_only tables_ok_step by (cases c) (simp_all, blast+)

interpretation both_queues: hydration_invariant tables_ok
proof
  show "tables_ok (empty_db stores probes)" for stores probes by (rule tables.empty)
  show "tables_ok db \<Longrightarrow> tables_ok (hydration_perform now c db)" for db now c by (rule tables_ok_hydration)
qed

text \<open>
  Whatever receiver, workers, operators and hydrations do, in any order, every directive satisfies the
  constraints of its table (a lease exactly while it runs, an end exactly when it is settled), no directive is
  tried more than eight times, and no event has two directives.
\<close>

theorem directives_keep_their_constraints:
  "list_all directive_ok (db_directives (hydration_calls cs (empty_db stores probes)))
   \<and> distinct (map hd_eventId (db_directives (hydration_calls cs (empty_db stores probes))))"
  using directives.calls_reach[of cs stores probes] by (simp add: directives_ok_def)

section \<open>What a run does\<close>

text \<open>
  When a read-back confirms rows, said of the call, the answer and the rows alone. The call asks for distinct
  order numbers and delivery codes, and for a domain exactly when it asks for keys of it. A row is asked when
  the call is for its store, its business key is one of the keys of its kind, and so is every other key that its
  lookup names. The answer says \<open>ok\<close> and lists, for the store, a domain with at least as many records as keys.
  Every completion has to follow one that confirms its rows.
\<close>

definition names_value :: "hydration_row \<Rightarrow> jsv \<Rightarrow> bool" where
  "names_value r v \<longleftrightarrow> jget (hr_lookup r) ''businessKey'' = v
     \<or> (\<exists>vs. jget (hr_lookup r) ''businessKeys'' = JArr vs \<and> v \<in> set vs)"

definition keys_asked :: "string list \<Rightarrow> string list \<Rightarrow> hydration_row \<Rightarrow> string set" where
  "keys_asked orderNos deliveryCodes r =
     (if hr_directiveType r = ''PURCHASE_ORDER_READBACK'' then set orderNos
      else if hr_directiveType r = ''DELIVERY_READBACK'' then set deliveryCodes else {})"

definition row_asked :: "string \<Rightarrow> string list \<Rightarrow> string list \<Rightarrow> hydration_row \<Rightarrow> bool" where
  "row_asked sc orderNos deliveryCodes r \<longleftrightarrow> hr_storeCode r = sc
     \<and> (\<exists>k\<in>keys_asked orderNos deliveryCodes r. jget (hr_lookup r) ''businessKey'' = JStr k)
     \<and> (\<forall>v t. names_value r v \<and> js_string_or_empty v = Inr t \<and> js_trim t \<noteq> []
          \<longrightarrow> js_trim t \<in> keys_asked orderNos deliveryCodes r)"

definition counted :: "jsv \<Rightarrow> string \<Rightarrow> string \<Rightarrow> nat \<Rightarrow> bool" where
  "counted s sc domain n \<longleftrightarrow> (\<exists>rows row ds d m.
     jget s ''results'' = JArr rows \<and> row \<in> set rows \<and> jget row ''storeCode'' = JStr sc
     \<and> jget row ''domains'' = JArr ds \<and> d \<in> set ds \<and> jget d ''domain'' = JStr domain
     \<and> jget d ''recordCount'' = JNum (NInt m) \<and> int n \<le> m)"

definition confirms :: "sync_call \<Rightarrow> string + jsv \<Rightarrow> hydration_row list \<Rightarrow> bool" where
  "confirms call answer rows \<longleftrightarrow> rows \<noteq> [] \<and> (\<exists>orderNos deliveryCodes s.
     sy_purchaseOrderNos call = join_with '','' orderNos \<and> distinct orderNos
     \<and> sy_deliveryCodes call = join_with '','' deliveryCodes \<and> distinct deliveryCodes
     \<and> sy_domains call = (if deliveryCodes = [] then ''purchase-orders''
         else if orderNos = [] then ''deliveries'' else ''purchase-orders,deliveries'')
     \<and> list_all (row_asked (sy_stores call) orderNos deliveryCodes) rows
     \<and> answer = Inr s \<and> truthy (jget s ''ok'')
     \<and> (orderNos \<noteq> [] \<longrightarrow> counted s (sy_stores call) ''purchase-orders'' (length orderNos))
     \<and> (deliveryCodes \<noteq> [] \<longrightarrow> counted s (sy_stores call) ''deliveries'' (length deliveryCodes)))"

fun confirmed :: "hydration_act list \<Rightarrow> bool" where
  "confirmed [] = True"
| "confirmed (DidSync call answer # DidComplete rows # as) = (confirms call answer rows \<and> confirmed as)"
| "confirmed (DidComplete rows # as) = False"
| "confirmed (_ # as) = confirmed as"

definition no_completion :: "hydration_act \<Rightarrow> bool" where
  "no_completion a \<longleftrightarrow> (case a of DidComplete _ \<Rightarrow> False | _ \<Rightarrow> True)"

lemma confirmed_simps:
  "no_completion a \<Longrightarrow> confirmed (DidSync call answer # a # as) = confirmed (a # as)"
  "confirmed (a # as) \<Longrightarrow> no_completion a"
  by (cases a; simp add: no_completion_def)+

lemma confirmed_sync: "confirmed bs \<Longrightarrow> confirmed (DidSync call answer # bs)"
  by (cases bs) (auto simp: confirmed_simps)

lemma confirmed_append: "confirmed as \<Longrightarrow> confirmed bs \<Longrightarrow> confirmed (as @ bs)"
  by (induction as rule: confirmed.induct) (auto simp: confirmed_sync)

fun is_sync :: "hydration_act \<Rightarrow> bool" where
  "is_sync (DidSync c a) = True"
| "is_sync _ = False"

fun claimed_by :: "hydration_act \<Rightarrow> hydration_row list" where
  "claimed_by (DidClaim rows) = rows"
| "claimed_by _ = []"

definition sync_count :: "hydration_act list \<Rightarrow> nat" where
  "sync_count as = length (filter is_sync as)"

definition claim_total :: "hydration_act list \<Rightarrow> nat" where
  "claim_total as = length (concat (map claimed_by as))"

lemma counts_append [simp]:
  "sync_count (as @ bs) = sync_count as + sync_count bs" "claim_total (as @ bs) = claim_total as + claim_total bs"
  by (simp_all add: sync_count_def claim_total_def)

text \<open>
  A run accounts for its statements: it completes and fails only rows that it has noted so, the failed ones all
  of one store and with the largest count of attempts among them. Everything else is a claim, or others' work.
\<close>

fun accounted :: "hydration_act list \<Rightarrow> hydration_call \<Rightarrow> bool" where
  "accounted as (CompleteDirectives ids w) \<longleftrightarrow> (\<exists>rows. DidComplete rows \<in> set as \<and> ids = map hr_directiveId rows)"
| "accounted as (FailDirectives ids w k ec delay) \<longleftrightarrow>
     (\<exists>rows ec'. DidFail rows ec' \<in> set as \<and> ids = map hr_directiveId rows \<and> k = max_attempt rows)"
| "accounted as (ClaimDirectives locked w lease n) \<longleftrightarrow> True"
| "accounted as (WebhookCall c) \<longleftrightarrow> False"

definition calls_of_others :: "hydration_env \<Rightarrow> hydration_call set" where
  "calls_of_others E = snd ` (\<Union>n. set (hy_others E n))"

definition all_accounted :: "hydration_env \<Rightarrow> hydration_act list \<Rightarrow> (int \<times> hydration_call) list \<Rightarrow> bool" where
  "all_accounted E as cs \<longleftrightarrow> (\<forall>c\<in>set cs. snd c \<in> calls_of_others E \<or> accounted as (snd c))"

definition of_one_store :: "hydration_act \<Rightarrow> bool" where
  "of_one_store a \<longleftrightarrow> (case a of DidFail rows _ \<Rightarrow> (\<exists>sc. list_all (\<lambda>r. hr_storeCode r = sc) rows) | _ \<Rightarrow> True)"

lemma accounted_mono: "accounted as c \<Longrightarrow> set as \<subseteq> set bs \<Longrightarrow> accounted bs c"
  by (cases c) auto

lemma all_accounted_append:
  "all_accounted E as cs \<Longrightarrow> all_accounted E bs ds \<Longrightarrow> all_accounted E (as @ bs) (cs @ ds)"
  unfolding all_accounted_def using accounted_mono by fastforce

lemma all_accounted_nil [simp]: "all_accounted E as []"
  by (simp add: all_accounted_def)

lemma all_accounted_others: "all_accounted E as (hy_others E n)"
  by (auto simp: all_accounted_def calls_of_others_def)

text \<open>
  A part of a run makes at most \<open>k\<close> statements, \<open>n\<close> read-backs and claims at most \<open>m\<close> rows; what it does is confirmed,
  and what it and the others have written are calls of the two queues, accounted for.
\<close>

definition runs_within :: "hydration_env \<Rightarrow> nat \<Rightarrow> nat \<Rightarrow> nat \<Rightarrow> hydration_world \<Rightarrow> hydration_world \<Rightarrow> bool" where
  "runs_within E k n m w w' \<longleftrightarrow>
     (\<exists>as cs. hw_acts w' = hw_acts w @ as \<and> confirmed as \<and> list_all of_one_store as
        \<and> sync_count as \<le> n \<and> claim_total as \<le> m
        \<and> hw_db w' = hydration_calls cs (hw_db w) \<and> all_accounted E as cs)
     \<and> hw_tick w' \<le> hw_tick w + k"

lemma runs_withinI:
  assumes "hw_acts w' = hw_acts w @ as" "confirmed as" "list_all of_one_store as" "sync_count as \<le> n" "claim_total as \<le> m"
    and "hw_tick w' \<le> hw_tick w + k" "hw_db w' = hydration_calls cs (hw_db w)" "all_accounted E as cs"
  shows "runs_within E k n m w w'"
  using assms unfolding runs_within_def by blast

lemma runs_within_refl: "runs_within E 0 0 0 w w"
  by (rule runs_withinI[of _ _ "[]" _ _ _ "[]"]) (simp_all add: sync_count_def claim_total_def)

lemma runs_within_trans:
  assumes "runs_within E k n m w w1" "runs_within E k' n' m' w1 w2"
  shows "runs_within E (k + k') (n + n') (m + m') w w2"
proof -
  obtain as cs where a: "hw_acts w1 = hw_acts w @ as" "confirmed as" "list_all of_one_store as" "sync_count as \<le> n"
    "claim_total as \<le> m" "hw_tick w1 \<le> hw_tick w + k" "hw_db w1 = hydration_calls cs (hw_db w)" "all_accounted E as cs"
    using assms(1) by (auto simp: runs_within_def)
  obtain bs ds where b: "hw_acts w2 = hw_acts w1 @ bs" "confirmed bs" "list_all of_one_store bs" "sync_count bs \<le> n'"
    "claim_total bs \<le> m'" "hw_tick w2 \<le> hw_tick w1 + k'" "hw_db w2 = hydration_calls ds (hw_db w1)" "all_accounted E bs ds"
    using assms(2) by (auto simp: runs_within_def)
  have "hw_db w2 = hydration_calls (cs @ ds) (hw_db w)" using a(7) b(7) by (simp add: hydration_calls_append)
  then show ?thesis
    using a b confirmed_append[OF a(2) b(2)] all_accounted_append[OF a(8) b(8)]
    by (intro runs_withinI[of _ _ "as @ bs" _ _ _ "cs @ ds"]) simp_all
qed

lemma runs_within_mono: "runs_within E k n m w w' \<Longrightarrow> k \<le> k' \<Longrightarrow> n \<le> n' \<Longrightarrow> m \<le> m' \<Longrightarrow> runs_within E k' n' m' w w'"
  unfolding runs_within_def by (meson add_left_mono order_trans)

text \<open>A step that writes nothing, and one statement after acts that account for it.\<close>

lemma noted_within:
  assumes "no_completion a" "of_one_store a" "sync_count [a] \<le> n" "claim_total [a] \<le> m"
  shows "runs_within E 0 n m w (noted a w)"
proof -
  have "confirmed [a]" using assms(1) by (cases a) (simp_all add: no_completion_def)
  then show ?thesis using assms(2-4) by (intro runs_withinI[of _ _ "[a]" _ _ _ "[]"]) (simp_all add: noted_def)
qed

lemma database_call_within:
  assumes "\<And>now locked db. \<exists>c. accounted as c \<and> snd (f now locked db) = hydration_perform now c db"
    and "hw_acts w1 = hw_acts w @ as" "hw_tick w1 = hw_tick w" "hw_db w1 = hw_db w"
    and "confirmed as" "list_all of_one_store as" "sync_count as \<le> n" "claim_total as \<le> m"
  shows "runs_within E 1 n m w (snd (database_call E f w1))"
proof -
  let ?t = "hw_tick w"
  let ?db = "hydration_calls (hy_others E ?t) (hw_db w)"
  obtain c where c: "accounted as c" "snd (f (hy_now E ?t) (hy_locked E ?t) ?db) = hydration_perform (hy_now E ?t) c ?db"
    using assms(1) by blast
  then have "hydration_calls (hy_others E ?t @ [(hy_now E ?t, c)]) (hw_db w)
      = snd (f (hy_now E ?t) (hy_locked E ?t) ?db)" by (simp add: hydration_calls_append)
  moreover have "all_accounted E as (hy_others E ?t @ [(hy_now E ?t, c)])"
    using all_accounted_others[of E as] c(1) by (auto simp: all_accounted_def)
  moreover have "hw_db (snd (database_call E f w1)) = snd (f (hy_now E ?t) (hy_locked E ?t) ?db)
      \<or> hw_db (snd (database_call E f w1)) = ?db"
    by (cases "hy_reach E ?t") (simp_all add: database_call_def Let_def through_def split_beta assms(3,4))
  ultimately obtain cs where "hw_db (snd (database_call E f w1)) = hydration_calls cs (hw_db w)" "all_accounted E as cs"
    using all_accounted_others by metis
  moreover have "hw_acts (snd (database_call E f w1)) = hw_acts w @ as" "hw_tick (snd (database_call E f w1)) = Suc ?t"
    by (simp_all add: database_call_def Let_def assms(2,3) split: prod.splits)
  ultimately show ?thesis using assms(5-8) by (intro runs_withinI[of _ _ as]) simp_all
qed

lemma fail_rows_within:
  assumes "list_all (\<lambda>r. hr_storeCode r = sc) rows"
  shows "runs_within E 1 0 0 w (snd (fail_rows E rows ec w))"
proof (cases "webhookHydrationRetryDelayMs (max_attempt rows)")
  case (Inl e)
  then show ?thesis using runs_within_mono[OF runs_within_refl] by (simp add: fail_rows_def)
next
  case (Inr delay)
  have o: "of_one_store (DidFail rows ec)" using assms by (auto simp: of_one_store_def)
  have c: "\<exists>c. accounted [DidFail rows ec] c \<and> snd (failDirectives now (map hr_directiveId rows) (hy_workerId E)
      (max_attempt rows) ec delay db) = hydration_perform now c db" for now db
    by (rule exI[of _ "FailDirectives (map hr_directiveId rows) (hy_workerId E) (max_attempt rows) ec delay"]) auto
  show ?thesis
    unfolding fail_rows_def Inr sum.case
    by (rule database_call_within[of "[DidFail rows ec]"])
      (use c o in \<open>simp_all add: noted_def sync_count_def claim_total_def\<close>)
qed

text \<open>A read-back that is noted, followed by the completion it confirms or by nothing.\<close>

lemma sync_rows_noted:
  "sync_rows E sc os ds w = (r, w1) \<Longrightarrow> w1 = noted (DidSync (sync_call_of sc os ds) (hy_sync E (hw_tick w) (sync_call_of sc os ds))) w"
  by (simp add: sync_rows_def Let_def)

lemma find_field_Inr: "find_field k t vs = Inr d \<Longrightarrow> d = JUndef \<or> d \<in> set vs \<and> jget d k = JStr t"
  by (induction vs) (auto split: if_splits)

lemma domainCount_counted:
  assumes "domainCount s sc domain = Inr m" "int n \<le> m" "0 < n"
  shows "counted s sc domain n"
proof -
  obtain rows where rows: "jget s ''results'' = JArr rows"
    using assms(1) by (auto simp: domainCount_def split: jsv.splits)
  then obtain store where r: "find_field ''storeCode'' sc rows = Inr store"
    using assms(1) by (auto simp: domainCount_def ebind_Inr_iff simp del: find_field.simps)
  obtain d where d: "(case jget store ''domains'' of JUndef \<Rightarrow> Inr JUndef | JNull \<Rightarrow> Inr JUndef
      | JArr ds \<Rightarrow> find_field ''domain'' domain ds | _ \<Rightarrow> Inl (WebhookError [])) = Inr d"
    "m = (case safe_int (jget d ''recordCount'') of None \<Rightarrow> 0 | Some n \<Rightarrow> n)"
    using assms(1) by (auto simp: domainCount_def rows r ebind_Inr_iff)
  have "safe_int (jget d ''recordCount'') = Some m" using d(2) assms(2,3) by (auto split: option.splits)
  then have n: "jget d ''recordCount'' = JNum (NInt m)" by (simp add: safe_int_Some_iff)
  then have "d \<noteq> JUndef" by auto
  then obtain ds where ds: "jget store ''domains'' = JArr ds" "find_field ''domain'' domain ds = Inr d"
    using d(1) by (auto split: jsv.splits)
  then have "store \<noteq> JUndef" by auto
  then show ?thesis
    using find_field_Inr[OF r] find_field_Inr[OF ds(2)] \<open>d \<noteq> JUndef\<close> rows ds(1) n assms(2)
    unfolding counted_def by blast
qed

lemma enough_records_counted:
  "enough_records s sc domain ks = Inr u \<Longrightarrow> ks \<noteq> [] \<Longrightarrow> counted s sc domain (length ks)"
  by (auto simp: enough_records_def ebind_Inr_iff ensure_Inr_iff intro!: domainCount_counted)

lemma read_back_counted:
  assumes "read_back s sc os ds = Inr u"
  shows "truthy (jget s ''ok'')" "os \<noteq> [] \<Longrightarrow> counted s sc ''purchase-orders'' (length os)"
    "ds \<noteq> [] \<Longrightarrow> counted s sc ''deliveries'' (length ds)"
  using assms by (auto simp: read_back_def ebind_Inr_iff ensure_Inr_iff intro: enough_records_counted split: if_splits)

text \<open>The keys of a group are those that its rows name, and a row that is kept is asked for.\<close>

lemma businessKeys_named:
  assumes "businessKeys rows ty = Inr ks"
  shows "distinct ks"
    and "r \<in> set rows \<Longrightarrow> hr_directiveType r = ty \<Longrightarrow> names_value r v \<Longrightarrow> js_string_or_empty v = Inr t
      \<Longrightarrow> js_trim t \<noteq> [] \<Longrightarrow> js_trim t \<in> set ks"
proof -
  let ?vs = "concat (map (\<lambda>r. lookup_values (hr_lookup r)) (filter (\<lambda>r. hr_directiveType r = ty) rows))"
  obtain ts where ts: "emap js_string_or_empty ?vs = Inr ts" "ks = dedupe (filter (\<lambda>t. t \<noteq> []) (map js_trim ts))"
    using assms by (auto simp: businessKeys_def split: sum.splits)
  show "distinct ks" by (simp add: ts(2))
  assume r: "r \<in> set rows" "hr_directiveType r = ty" "names_value r v" "js_string_or_empty v = Inr t" "js_trim t \<noteq> []"
  have "v \<in> set (lookup_values (hr_lookup r))" using r(3) by (auto simp: names_value_def lookup_values_def)
  then have "v \<in> set ?vs" using r(1,2) by auto
  then have "t \<in> set ts" using emap_Inr_dom[OF ts(1)] r(4) by fastforce
  then show "js_trim t \<in> set ks" using r(5) by (auto simp: ts(2))
qed

lemma kept_row_asked:
  assumes "businessKeys rows ''PURCHASE_ORDER_READBACK'' = Inr os" "businessKeys rows ''DELIVERY_READBACK'' = Inr ds"
    and "r \<in> set rows" "hr_storeCode r = sc" "names_its_key os ds r"
  shows "row_asked sc os ds r"
proof -
  consider (order) "hr_directiveType r = ''PURCHASE_ORDER_READBACK''" | (delivery) "hr_directiveType r = ''DELIVERY_READBACK''"
    using assms(5) by (auto simp: names_its_key_def split: jsv.splits)
  then show ?thesis
  proof cases
    case order
    then have "keys_asked os ds r = set os" by (simp add: keys_asked_def)
    then show ?thesis
      using order assms(4,5) businessKeys_named(2)[OF assms(1,3) order]
      by (auto simp: row_asked_def names_its_key_def split: jsv.splits)
  next
    case delivery
    then have "keys_asked os ds r = set ds" by (simp add: keys_asked_def)
    then show ?thesis
      using delivery assms(4,5) businessKeys_named(2)[OF assms(2,3) delivery]
      by (auto simp: row_asked_def names_its_key_def split: jsv.splits)
  qed
qed

text \<open>What a group is asked for.\<close>

definition group_asked :: "string \<Rightarrow> string list \<Rightarrow> string list \<Rightarrow> hydration_row list \<Rightarrow> bool" where
  "group_asked sc os ds rows \<longleftrightarrow> rows \<noteq> [] \<and> distinct os \<and> distinct ds \<and> list_all (row_asked sc os ds) rows"

lemma group_asked_keys: "group_asked sc os ds rows \<Longrightarrow> os \<noteq> [] \<or> ds \<noteq> []"
  by (cases rows) (auto simp: group_asked_def row_asked_def keys_asked_def split: if_splits)

lemma group_asked_store: "group_asked sc os ds rows \<Longrightarrow> list_all (\<lambda>r. hr_storeCode r = sc) rows"
  by (simp add: group_asked_def row_asked_def list_all_iff)

lemma sync_rows_confirm:
  assumes "fst (sync_rows E sc os ds w) = Inr u" "group_asked sc os ds rows"
  shows "confirms (sync_call_of sc os ds) (hy_sync E (hw_tick w) (sync_call_of sc os ds)) rows"
proof -
  let ?call = "sync_call_of sc os ds"
  have c: "sy_stores ?call = sc" "sy_purchaseOrderNos ?call = join_with '','' os" "sy_deliveryCodes ?call = join_with '','' ds"
    by (simp_all add: sync_call_of_def)
  have d: "sy_domains ?call = (if ds = [] then ''purchase-orders'' else if os = [] then ''deliveries''
      else ''purchase-orders,deliveries'')"
    using group_asked_keys[OF assms(2)] by (auto simp: sync_call_of_def)
  obtain s where s: "hy_sync E (hw_tick w) ?call = Inr s" "read_back s sc os ds = Inr ()"
    using assms(1) by (cases "hy_sync E (hw_tick w) ?call") (auto simp: sync_rows_def Let_def)
  show ?thesis
    using assms(2) c d s(1) read_back_counted[OF s(2)] unfolding confirms_def group_asked_def by auto
qed

lemma synced_and_completed:
  assumes "sync_rows E sc os ds w = (Inr u, w1)" "group_asked sc os ds rows"
  shows "runs_within E 1 1 0 w (snd (complete_rows E rows w1))"
proof -
  let ?call = "sync_call_of sc os ds"
  let ?sync = "DidSync ?call (hy_sync E (hw_tick w) ?call)"
  have w1: "w1 = noted ?sync w" using sync_rows_noted[OF assms(1)] .
  have c: "\<exists>c. accounted [?sync, DidComplete rows] c
      \<and> snd (completeDirectives now (map hr_directiveId rows) (hy_workerId E) db) = hydration_perform now c db" for now db
    by (rule exI[of _ "CompleteDirectives (map hr_directiveId rows) (hy_workerId E)"]) auto
  have "confirmed [?sync, DidComplete rows]" using sync_rows_confirm[OF _ assms(2)] assms(1) by simp
  then show ?thesis
    unfolding complete_rows_def
    by (intro database_call_within[of "[?sync, DidComplete rows]"])
      (use c in \<open>simp_all add: w1 noted_def sync_count_def claim_total_def of_one_store_def\<close>)
qed

lemma synced_only: "sync_rows E sc os ds w = (r, w1) \<Longrightarrow> runs_within E 0 1 0 w w1"
  by (drule sync_rows_noted, simp only:, rule noted_within)
    (simp_all add: no_completion_def of_one_store_def sync_count_def claim_total_def)

lemma settle_valid_within:
  assumes "group_asked sc os ds rows"
  shows "runs_within E 2 1 0 w (snd (settle_valid E sc os ds rows sm w))"
proof -
  obtain r w1 where s: "sync_rows E sc os ds w = (r, w1)" by fastforce
  obtain r2 w2 where c: "(case sync_rows E sc os ds w of (Inl e, w1) \<Rightarrow> (Inl e, w1) | (Inr _, w1) \<Rightarrow> complete_rows E rows w1) = (r2, w2)"
    by fastforce
  have a: "runs_within E 1 1 0 w w2"
  proof (cases r)
    case (Inl e)
    then have "w2 = w1" using c s by simp
    then show ?thesis using runs_within_mono[OF synced_only[OF s]] by simp
  next
    case (Inr u)
    then have "complete_rows E rows w1 = (r2, w2)" using c s by simp
    then show ?thesis using synced_and_completed[OF s[unfolded Inr] assms] by simp
  qed
  show ?thesis
  proof (cases r2)
    case (Inr n)
    then have "snd (settle_valid E sc os ds rows sm w) = w2" unfolding settle_valid_def c by simp
    then show ?thesis using runs_within_mono[OF a] by simp
  next
    case (Inl e)
    then have "snd (settle_valid E sc os ds rows sm w) = snd (fail_rows E rows (hydration_errorCode e) w2)"
      unfolding settle_valid_def c by (simp split: prod.splits sum.splits)
    then show ?thesis
      using runs_within_trans[OF a fail_rows_within[OF group_asked_store[OF assms]]] by (simp add: numeral_2_eq_2)
  qed
qed

lemma fail_invalid_within:
  assumes "list_all (\<lambda>r. hr_storeCode r = sc) rows"
  shows "runs_within E 1 0 0 w (snd (fail_invalid E rows sm w))"
proof (cases "rows = []")
  case True
  then show ?thesis using runs_within_mono[OF runs_within_refl] by (simp add: fail_invalid_def)
next
  case False
  then have "snd (fail_invalid E rows sm w) = snd (fail_rows E rows ''HYDRATION_LOOKUP_MISSING'' w)"
    by (simp add: fail_invalid_def split: prod.splits sum.splits)
  then show ?thesis using fail_rows_within[OF assms] by simp
qed

lemma hydrate_group_within:
  assumes "list_all (\<lambda>r. hr_storeCode r = fst g) (snd g)"
  shows "runs_within E 3 1 0 w (snd (hydrate_group E g sm w))"
proof (cases "ebind (businessKeys (snd g) ''PURCHASE_ORDER_READBACK'') (\<lambda>os. ebind (businessKeys (snd g) ''DELIVERY_READBACK'') (\<lambda>ds. Inr (os, ds)))")
  case (Inl e)
  then have "snd (hydrate_group E g sm w) = w" by (simp add: hydrate_group_def Let_def)
  then show ?thesis using runs_within_mono[OF runs_within_refl] by simp
next
  case (Inr k)
  obtain os ds where k: "k = (os, ds)" by (cases k)
  let ?valid = "filter (names_its_key os ds) (snd g)" and ?invalid = "filter (\<lambda>r. \<not> names_its_key os ds r) (snd g)"
  let ?sm = "sm\<lparr>hs_groups := Suc (hs_groups sm)\<rparr>"
  obtain r1 w1 where f: "fail_invalid E ?invalid ?sm w = (r1, w1)" by fastforce
  have ks: "businessKeys (snd g) ''PURCHASE_ORDER_READBACK'' = Inr os" "businessKeys (snd g) ''DELIVERY_READBACK'' = Inr ds"
    using Inr k by (auto simp: ebind_Inr_iff)
  have i: "list_all (\<lambda>r. hr_storeCode r = fst g) ?invalid" using assms by (simp add: list_all_iff)
  have a: "runs_within E 1 0 0 w w1" using fail_invalid_within[OF i, of E w ?sm] f by simp
  have v: "?valid \<noteq> [] \<Longrightarrow> group_asked (fst g) os ds ?valid"
    using assms businessKeys_named(1)[OF ks(1)] businessKeys_named(1)[OF ks(2)] kept_row_asked[OF ks]
    by (auto simp: group_asked_def list_all_iff)
  have "snd (hydrate_group E g sm w) = w1
      \<or> (\<exists>sm'. ?valid \<noteq> [] \<and> snd (hydrate_group E g sm w) = snd (settle_valid E (fst g) os ds ?valid sm' w1))"
    unfolding hydrate_group_def Let_def Inr k sum.case prod.case f by (cases r1) auto
  then show ?thesis
  proof (elim disjE exE conjE)
    assume "snd (hydrate_group E g sm w) = w1"
    then show ?thesis using runs_within_mono[OF a] by simp
  next
    fix sm' assume "?valid \<noteq> []" "snd (hydrate_group E g sm w) = snd (settle_valid E (fst g) os ds ?valid sm' w1)"
    then show ?thesis using runs_within_trans[OF a settle_valid_within[OF v]] by (simp add: numeral_3_eq_3 numeral_2_eq_2)
  qed
qed

lemma hydrate_groups_within:
  assumes "\<forall>g\<in>set gs. list_all (\<lambda>r. hr_storeCode r = fst g) (snd g)"
  shows "runs_within E (3 * length gs) (length gs) 0 w (snd (hydrate_groups E gs sm w))"
  using assms
proof (induction gs arbitrary: sm w)
  case Nil
  then show ?case using runs_within_refl by simp
next
  case (Cons g gs)
  obtain r w1 where h: "hydrate_group E g sm w = (r, w1)" by fastforce
  have a: "runs_within E 3 1 0 w w1" using hydrate_group_within[of g E w sm] Cons.prems h by simp
  show ?case
  proof (cases r)
    case (Inl e)
    then show ?thesis using runs_within_mono[OF a] h by simp
  next
    case (Inr sm')
    then show ?thesis using runs_within_trans[OF a Cons.IH[of w1 sm']] Cons.prems h by simp
  qed
qed

section \<open>A run is bounded\<close>

lemma length_concat_le: "\<forall>x\<in>set xs. length (f x) \<le> 1 \<Longrightarrow> length (concat (map f xs)) \<le> length xs"
  by (induction xs) auto

lemma claimed_rows_length:
  assumes "distinct (map hd_id (db_directives db))"
  shows "length (claimed_rows db ids) \<le> length ids"
proof -
  let ?ds = "filter (\<lambda>d. hd_id d \<in> set ids) (db_directives db)"
  have "distinct (map hd_id ?ds)" using assms by (rule distinct_map_filter)
  then have "length ?ds = card (set (map hd_id ?ds))" using distinct_card by (metis length_map)
  also have "\<dots> \<le> card (set ids)" by (rule card_mono) auto
  also have "\<dots> \<le> length ids" by (rule card_length)
  finally have "length ?ds \<le> length ids" .
  moreover have "length (claimed_rows db ids) \<le> length ?ds"
    unfolding claimed_rows_def length_sort_by by (rule length_concat_le) (auto split: option.splits)
  ultimately show ?thesis by linarith
qed

lemma directive_candidates_length: "length (directive_candidates now locked n db) \<le> n"
  by (simp add: directive_candidates_def)

lemma claimBatch_length:
  assumes "claimBatch now locked w lease n db = (Inr rows, db')" "directives_ok db"
  shows "int (length rows) \<le> n"
proof -
  obtain owner l m where c: "1 \<le> m" "m = n" "rows = claimed_rows db' (directive_candidates now locked (nat m) db)"
    by (rule claimBatch_Inr[OF assms(1)])
  have "directives_ok db'"
    using directives_ok_step[OF assms(2), of now "ClaimDirectives locked w lease n"] assms(1) by simp
  then have "length rows \<le> length (directive_candidates now locked (nat m) db)"
    unfolding c(3) by (intro claimed_rows_length) (simp add: directives_ok_def)
  also have "\<dots> \<le> nat m" by (rule directive_candidates_length)
  finally show ?thesis using c(1,2) by linarith
qed

lemma through_Inr: "through c r db = (Inr x, db') \<Longrightarrow> r = (Inr x, db')"
  by (cases c) (simp_all add: through_def)

lemma claim_call_within:
  "runs_within E 1 0 0 w (snd (database_call E (\<lambda>now locked. claimBatch now locked (hy_workerId E) 600000 3) w))"
proof (rule database_call_within[of "[]"])
  show "\<exists>c. accounted [] c \<and> snd (claimBatch now locked (hy_workerId E) 600000 3 db) = hydration_perform now c db"
    for now locked db
    by (rule exI[of _ "ClaimDirectives locked (hy_workerId E) 600000 3"]) simp
qed (simp_all add: sync_count_def claim_total_def)

lemma claim_rows_Inr:
  assumes "claim_rows E w = (Inr rows, w1)" "directives_ok (hw_db w)"
  shows "length rows \<le> 3" "runs_within E 1 0 3 w w1"
proof -
  let ?call = "database_call E (\<lambda>now locked. claimBatch now locked (hy_workerId E) 600000 3) w"
  obtain w0 where w0: "?call = (Inr rows, w0)" "w1 = noted (DidClaim rows) w0"
    using assms(1) by (auto simp: claim_rows_def split: sum.splits prod.splits)
  let ?db = "hydration_calls (hy_others E (hw_tick w)) (hw_db w)"
  obtain db' where "claimBatch (hy_now E (hw_tick w)) (hy_locked E (hw_tick w)) (hy_workerId E) 600000 3 ?db = (Inr rows, db')"
    using w0(1) by (auto simp: database_call_def Let_def split: prod.splits dest!: through_Inr)
  then show l: "length rows \<le> 3" using claimBatch_length directives.calls_keep[OF assms(2)] by fastforce
  have a: "runs_within E 1 0 0 w w0"
  proof -
    have "runs_within E 1 0 0 w (snd ?call)"
      by (rule claim_call_within)
    then show ?thesis using w0(1) by simp
  qed
  have "runs_within E 0 0 3 w0 w1"
    unfolding w0(2)
    by (rule noted_within) (use l in \<open>simp_all add: no_completion_def of_one_store_def sync_count_def claim_total_def\<close>)
  then show "runs_within E 1 0 3 w w1" using runs_within_trans[OF a] by fastforce
qed

lemma claim_rows_Inl: "claim_rows E w = (Inl e, w1) \<Longrightarrow> runs_within E 1 0 0 w w1"
proof -
  assume "claim_rows E w = (Inl e, w1)"
  then have "w1 = snd (database_call E (\<lambda>now locked. claimBatch now locked (hy_workerId E) 600000 3) w)"
    by (auto simp: claim_rows_def split: sum.splits prod.splits)
  moreover have "runs_within E 1 0 0 w (snd (database_call E (\<lambda>now locked. claimBatch now locked (hy_workerId E) 600000 3) w))"
    by (rule claim_call_within)
  ultimately show ?thesis by simp
qed

lemma group_by_key_length: "length (group_by_key key xs) \<le> length xs"
proof -
  have "length (group_by_key key xs) = card (set (map fst (group_by_key key xs)))"
    using distinct_group_by_key[of key xs] distinct_card by (metis length_map)
  also have "set (map fst (group_by_key key xs)) \<subseteq> key ` set xs" by (auto simp: group_by_key_mem)
  then have "card (set (map fst (group_by_key key xs))) \<le> card (set (map key xs))" by (intro card_mono) auto
  also have "\<dots> \<le> length xs" using card_length[of "map key xs"] by simp
  finally show ?thesis .
qed

lemma runs_within_ok: "runs_within E k n m w w' \<Longrightarrow> directives_ok (hw_db w) \<Longrightarrow> directives_ok (hw_db w')"
  using directives.calls_keep by (auto simp: runs_within_def)

lemma hydration_batches_within:
  assumes "directives_ok (hw_db w)"
  shows "runs_within E (10 * n) (3 * n) (3 * n) w (snd (hydration_batches E n sm w))"
  using assms
proof (induction n arbitrary: sm w)
  case 0
  then show ?case using runs_within_refl by simp
next
  case (Suc n)
  obtain r w1 where c: "claim_rows E w = (r, w1)" by fastforce
  show ?case
  proof (cases r)
    case (Inl e)
    then show ?thesis using runs_within_mono[OF claim_rows_Inl] c by simp
  next
    case (Inr rows)
    note a = claim_rows_Inr[OF c[unfolded Inr] Suc.prems]
    let ?gs = "group_by_key hr_storeCode rows" and ?sm = "sm\<lparr>hs_claimed := hs_claimed sm + length rows\<rparr>"
    obtain r2 w2 where g: "hydrate_groups E ?gs ?sm w1 = (r2, w2)" by fastforce
    have "\<forall>g\<in>set ?gs. list_all (\<lambda>r. hr_storeCode r = fst g) (snd g)" by (auto simp: group_by_key_mem list_all_iff)
    then have "runs_within E (3 * length ?gs) (length ?gs) 0 w1 w2" using hydrate_groups_within[of ?gs E w1 ?sm] g by simp
    then have b: "runs_within E 9 3 0 w1 w2"
      by (rule runs_within_mono) (use group_by_key_length[of hr_storeCode rows] a(1) in linarith)+
    have ab: "runs_within E 10 3 3 w w2" using runs_within_trans[OF a(2) b] by simp
    show ?thesis
    proof (cases "rows = []")
      case True
      then show ?thesis using runs_within_mono[OF a(2)] c Inr by simp
    next
      case False
      show ?thesis
      proof (cases r2)
        case (Inl e)
        then show ?thesis using runs_within_mono[OF ab] c Inr g False by simp
      next
        case (Inr sm')
        then show ?thesis
          using runs_within_trans[OF ab Suc.IH[OF runs_within_ok[OF ab Suc.prems], of sm']] c \<open>r = Inr rows\<close> g False
          by simp
      qed
    qed
  qed
qed

definition run_end :: "hydration_env \<Rightarrow> (int \<times> hydration_call) list \<Rightarrow> store_row list \<Rightarrow> probe list \<Rightarrow> hydration_world" where
  [js_eval]: "run_end E cs stores probes = snd (runWebhookHydration E (hydration_calls cs (empty_db stores probes)))"

lemma run_end_within:
  "runs_within E 100 30 30 \<lparr>hw_db = hydration_calls cs (empty_db stores probes), hw_tick = 0, hw_acts = []\<rparr> (run_end E cs stores probes)"
  unfolding run_end_def runWebhookHydration_def
  using hydration_batches_within[of "\<lparr>hw_db = hydration_calls cs (empty_db stores probes), hw_tick = 0, hw_acts = []\<rparr>" E 10]
    directives.calls_reach by simp

section \<open>What ends a directive\<close>

definition succeeded_ids :: "webhook_db \<Rightarrow> nat set" where
  "succeeded_ids db = hd_id ` {d \<in> set (db_directives db). hd_state d = DSucceeded}"

text \<open>The directives that have failed before their eighth attempt.\<close>

definition early_failures :: "webhook_db \<Rightarrow> nat set" where
  "early_failures db = hd_id ` {d \<in> set (db_directives db). hd_state d = DFailed \<and> hd_attemptCount d < 8}"

fun call_completes :: "hydration_call \<Rightarrow> nat set" where
  "call_completes (CompleteDirectives ids w) = set ids"
| "call_completes _ = {}"

fun call_gives_up :: "hydration_call \<Rightarrow> nat set" where
  "call_gives_up (FailDirectives ids w k ec delay) = (if 8 \<le> k then set ids else {})"
| "call_gives_up _ = {}"

text \<open>A set of ended directives grows by no call but the one that names them.\<close>

lemma ended_by_webhook:
  "succeeded_ids (perform now c db) \<subseteq> succeeded_ids db" "early_failures (perform now c db) \<subseteq> early_failures db"
  using perform_grows[of db now c]
  by (auto simp: directives_grow_def same_directives_def fresh_directive_def succeeded_ids_def early_failures_def)

lemma ended_by_claim:
  "succeeded_ids (snd (claimBatch now locked w lease n db)) \<subseteq> succeeded_ids db"
  "early_failures (snd (claimBatch now locked w lease n db)) \<subseteq> early_failures db"
proof -
  let ?taken = "\<lambda>owner l ids d. take_directive now owner l ids (exhaust_directive now d)"
  have t: "hd_state (?taken owner l ids d) = DSucceeded \<Longrightarrow> hd_state d = DSucceeded \<and> hd_id (?taken owner l ids d) = hd_id d"
    "hd_state (?taken owner l ids d) = DFailed \<Longrightarrow> hd_attemptCount (?taken owner l ids d) < 8
      \<Longrightarrow> hd_state d = DFailed \<and> hd_attemptCount d < 8 \<and> hd_id (?taken owner l ids d) = hd_id d" for owner l ids d
    by (auto simp: take_directive_def exhaust_directive_def split: if_splits)
  consider "snd (claimBatch now locked w lease n db) = db"
    | owner l ids where "snd (claimBatch now locked w lease n db)
        = db\<lparr>db_directives := map (?taken owner l ids) (db_directives db)\<rparr>"
    by (cases "claimBatch now locked w lease n db", cases "fst (claimBatch now locked w lease n db)")
      (auto dest: claimBatch_Inl elim!: claimBatch_Inr)
  then show "succeeded_ids (snd (claimBatch now locked w lease n db)) \<subseteq> succeeded_ids db"
    "early_failures (snd (claimBatch now locked w lease n db)) \<subseteq> early_failures db"
    by (cases; force simp: succeeded_ids_def early_failures_def dest: t)+
qed

lemma ended_by_settling:
  "set (db_directives (snd (settle_directives owner ids f db)))
     \<subseteq> set (db_directives db) \<union> f ` {d \<in> set (db_directives db). hd_id d \<in> set ids}"
  by (auto simp: settle_directives_def Let_def directive_owned_def)

lemma settled_subsets:
  assumes "db' = snd (settle_directives owner ids f db)"
  shows "(\<And>d. hd_state (f d) = DSucceeded \<Longrightarrow> hd_id (f d) \<in> set ids \<Longrightarrow> hd_id (f d) \<in> S) \<Longrightarrow> (\<And>d. hd_id (f d) = hd_id d)
      \<Longrightarrow> succeeded_ids db' \<subseteq> succeeded_ids db \<union> S"
    and "(\<And>d. hd_state (f d) = DFailed \<Longrightarrow> hd_id (f d) \<in> set ids \<Longrightarrow> hd_id (f d) \<in> S) \<Longrightarrow> (\<And>d. hd_id (f d) = hd_id d)
      \<Longrightarrow> early_failures db' \<subseteq> early_failures db \<union> S"
  using ended_by_settling[of owner ids f db] unfolding assms succeeded_ids_def early_failures_def
  by (auto; blast)+

lemma ended_by_completing:
  "succeeded_ids (snd (completeDirectives now ids w db)) \<subseteq> succeeded_ids db \<union> set ids"
  "early_failures (snd (completeDirectives now ids w db)) \<subseteq> early_failures db"
proof -
  let ?db' = "snd (completeDirectives now ids w db)"
  have c: "?db' = db \<or> (\<exists>owner. ?db' = snd (settle_directives owner ids (succeed_directive now) db))"
    by (auto simp: completeDirectives_def split: sum.splits if_splits)
  then show "succeeded_ids ?db' \<subseteq> succeeded_ids db \<union> set ids"
  proof (elim disjE exE)
    fix owner assume "?db' = snd (settle_directives owner ids (succeed_directive now) db)"
    from settled_subsets(1)[OF this, of "set ids"] show ?thesis by (simp add: succeed_directive_def)
  qed simp
  from c show "early_failures ?db' \<subseteq> early_failures db"
  proof (elim disjE exE)
    fix owner assume "?db' = snd (settle_directives owner ids (succeed_directive now) db)"
    from settled_subsets(2)[OF this, of "{}"] show ?thesis by (simp add: succeed_directive_def)
  qed simp
qed

lemma ended_by_failing:
  "succeeded_ids (snd (failDirectives now ids w k ec delay db)) \<subseteq> succeeded_ids db"
  "early_failures (snd (failDirectives now ids w k ec delay db)) \<subseteq> early_failures db \<union> (if 8 \<le> k then set ids else {})"
proof -
  let ?db' = "snd (failDirectives now ids w k ec delay db)"
  let ?settle = "\<lambda>l. fail_directive now (8 \<le> k) l (safeError ec ''HYDRATION_FAILED'')"
  have c: "?db' = db \<or> (\<exists>owner l. ?db' = snd (settle_directives owner ids (?settle l) db))"
    by (auto simp: failDirectives_def split: sum.splits if_splits)
  then show "succeeded_ids ?db' \<subseteq> succeeded_ids db"
  proof (elim disjE exE)
    fix owner l assume "?db' = snd (settle_directives owner ids (?settle l) db)"
    moreover have "hd_state (?settle l d) \<noteq> DSucceeded" for d by (simp add: fail_directive_def)
    ultimately show ?thesis using settled_subsets(1)[of ?db' owner ids "?settle l" db "{}"] by (simp add: fail_directive_def)
  qed simp
  from c show "early_failures ?db' \<subseteq> early_failures db \<union> (if 8 \<le> k then set ids else {})"
  proof (elim disjE exE)
    fix owner l assume "?db' = snd (settle_directives owner ids (?settle l) db)"
    then show ?thesis
      by (rule settled_subsets(2)) (simp_all add: fail_directive_def split: if_splits)
  qed simp
qed

lemma ended_by_call:
  "succeeded_ids (hydration_perform now c db) \<subseteq> succeeded_ids db \<union> call_completes c"
  "early_failures (hydration_perform now c db) \<subseteq> early_failures db \<union> call_gives_up c"
  using ended_by_webhook ended_by_claim ended_by_completing ended_by_failing by (cases c; simp; blast)+

lemma ended_by_calls:
  "succeeded_ids (hydration_calls cs db) \<subseteq> succeeded_ids db \<union> (\<Union>c\<in>snd ` set cs. call_completes c)"
  "early_failures (hydration_calls cs db) \<subseteq> early_failures db \<union> (\<Union>c\<in>snd ` set cs. call_gives_up c)"
  by (induction cs arbitrary: db) (force dest: subsetD[OF ended_by_call(1)] subsetD[OF ended_by_call(2)])+

text \<open>Those that a run completes, and those that it fails beside one that has been tried eight times.\<close>

definition completed_in :: "hydration_act list \<Rightarrow> nat set" where
  "completed_in as = {hr_directiveId r |r rows. DidComplete rows \<in> set as \<and> r \<in> set rows}"

definition given_up_in :: "hydration_act list \<Rightarrow> nat set" where
  "given_up_in as = {hr_directiveId r |r rows ec. DidFail rows ec \<in> set as \<and> r \<in> set rows
     \<and> (\<exists>q\<in>set rows. hr_storeCode q = hr_storeCode r \<and> 8 \<le> hr_attemptCount q)}"

lemma max_attempt_reached: "n \<le> max_attempt rows \<Longrightarrow> 0 < n \<Longrightarrow> \<exists>q\<in>set rows. n \<le> hr_attemptCount q"
  by (induction rows) (auto simp: max_attempt_def le_max_iff_disj)

lemma accounted_ends:
  assumes "accounted as c" "list_all of_one_store as"
  shows "call_completes c \<subseteq> completed_in as" "call_gives_up c \<subseteq> given_up_in as"
proof -
  show "call_completes c \<subseteq> completed_in as" using assms(1) by (cases c) (auto simp: completed_in_def, blast)
  show "call_gives_up c \<subseteq> given_up_in as"
  proof (cases c)
    case (FailDirectives ids w k ec delay)
    then obtain rows ec' where r: "DidFail rows ec' \<in> set as" "ids = map hr_directiveId rows" "k = max_attempt rows"
      using assms(1) by auto
    obtain sc where "list_all (\<lambda>r. hr_storeCode r = sc) rows"
      using assms(2) r(1) by (force simp: list_all_iff of_one_store_def)
    then have "hr_directiveId r \<in> given_up_in as" if "8 \<le> k" "r \<in> set rows" for r
      using that r max_attempt_reached[of 8 rows] by (fastforce simp: given_up_in_def list_all_iff)
    then show ?thesis using r(2) by (auto simp: FailDirectives)
  qed simp_all
qed

lemma subset_chain: "A \<subseteq> B \<union> C \<Longrightarrow> C \<subseteq> D \<union> F \<Longrightarrow> A \<subseteq> B \<union> D \<union> F"
  by blast

lemma run_ends:
  assumes "runs_within E k n m w w'" "hw_acts w = []"
  shows "succeeded_ids (hw_db w') \<subseteq> succeeded_ids (hw_db w) \<union> completed_in (hw_acts w') \<union> (\<Union>c\<in>calls_of_others E. call_completes c)"
    and "early_failures (hw_db w') \<subseteq> early_failures (hw_db w) \<union> given_up_in (hw_acts w') \<union> (\<Union>c\<in>calls_of_others E. call_gives_up c)"
proof -
  obtain cs where c: "hw_db w' = hydration_calls cs (hw_db w)" "all_accounted E (hw_acts w') cs" "list_all of_one_store (hw_acts w')"
    using assms by (auto simp: runs_within_def)
  have u: "call_completes d \<subseteq> completed_in (hw_acts w') \<union> (\<Union>c\<in>calls_of_others E. call_completes c)"
    "call_gives_up d \<subseteq> given_up_in (hw_acts w') \<union> (\<Union>c\<in>calls_of_others E. call_gives_up c)" if "d \<in> snd ` set cs" for d
  proof -
    have "d \<in> calls_of_others E \<or> accounted (hw_acts w') d" using that c(2) by (auto simp: all_accounted_def)
    then show "call_completes d \<subseteq> completed_in (hw_acts w') \<union> (\<Union>c\<in>calls_of_others E. call_completes c)"
      "call_gives_up d \<subseteq> given_up_in (hw_acts w') \<union> (\<Union>c\<in>calls_of_others E. call_gives_up c)"
      using accounted_ends[OF _ c(3), of d] by auto
  qed
  show "succeeded_ids (hw_db w') \<subseteq> succeeded_ids (hw_db w) \<union> completed_in (hw_acts w') \<union> (\<Union>c\<in>calls_of_others E. call_completes c)"
    unfolding c(1) by (rule subset_chain[OF ended_by_calls(1)], rule UN_least, rule u)
  show "early_failures (hw_db w') \<subseteq> early_failures (hw_db w) \<union> given_up_in (hw_acts w') \<union> (\<Union>c\<in>calls_of_others E. call_gives_up c)"
    unfolding c(1) by (rule subset_chain[OF ended_by_calls(2)], rule UN_least, rule u)
qed

text \<open>
  C18. A directive succeeds only on evidence. In every run, from every state of the two queues and whatever others
  do meanwhile, each completion is made right after a read-back that was asked, in their store, for every key
  that its rows name, and whose answer says \<open>ok\<close> and counts at least as many records of each kind as keys were
  asked; and a directive that has succeeded after the run had succeeded before it, was completed so, or was
  completed by another worker.
\<close>

theorem only_confirmed_directives_complete:
  "confirmed (hw_acts (run_end E cs stores probes))
   \<and> succeeded_ids (hw_db (run_end E cs stores probes))
     \<subseteq> succeeded_ids (hydration_calls cs (empty_db stores probes)) \<union> completed_in (hw_acts (run_end E cs stores probes))
       \<union> (\<Union>c\<in>calls_of_others E. call_completes c)"
  using run_end_within[of E cs stores probes] run_ends(1)[OF run_end_within[of E cs stores probes]]
  by (auto simp: runs_within_def)

text \<open>
  A run is bounded whatever the queue holds: it makes at most a hundred statements and thirty read-backs and
  claims at most thirty directives; and what it and the others write are calls of the two queues, so that all
  their invariants hold after it.
\<close>

theorem hydration_run_is_bounded:
  "hw_tick (run_end E cs stores probes) \<le> 100
   \<and> sync_count (hw_acts (run_end E cs stores probes)) \<le> 30
   \<and> claim_total (hw_acts (run_end E cs stores probes)) \<le> 30
   \<and> (\<exists>ds. hw_db (run_end E cs stores probes) = hydration_calls (cs @ ds) (empty_db stores probes))"
proof -
  obtain ds where "hw_db (run_end E cs stores probes) = hydration_calls ds (hydration_calls cs (empty_db stores probes))"
    using run_end_within[of E cs stores probes] by (auto simp: runs_within_def)
  then have "hw_db (run_end E cs stores probes) = hydration_calls (cs @ ds) (empty_db stores probes)"
    by (simp add: hydration_calls_append)
  then show ?thesis using run_end_within[of E cs stores probes] by (auto simp: runs_within_def)
qed

section \<open>Failures are counted by the oldest directive\<close>

text \<open>
  C37. A directive fails before its eighth attempt only beside one of its store that has been tried eight times.
  In every run, from every state of the two queues and whatever others do meanwhile, a directive that has failed
  after fewer than eight attempts had failed so before, was failed by another worker, or was settled by the run
  in one statement with a directive of the same store that had used up its eight attempts.
\<close>

theorem early_failures_have_a_spent_neighbour:
  "early_failures (hw_db (run_end E cs stores probes))
   \<subseteq> early_failures (hydration_calls cs (empty_db stores probes)) \<union> given_up_in (hw_acts (run_end E cs stores probes))
     \<union> (\<Union>c\<in>calls_of_others E. call_gives_up c)"
  using run_ends(2)[OF run_end_within[of E cs stores probes]] by simp

text \<open>
  That such a failure happens. A delivery leaves a directive, whose read-back fails seven times; a second
  delivery leaves another one.
\<close>

definition notice_event :: "string \<Rightarrow> normalized_event" where
  [js_eval]: "notice_event k =
     \<lparr>nm_eventCode = Some ''3001435'', nm_eventPath = Some ''/purchase_order_notice'', nm_eventFamily = ''PURCHASE_ORDER'',
      nm_businessType = ''PURCHASE_ORDER'', nm_businessKey = Some k, nm_storeCode = Some ''S1'', nm_deliveryScope = ''STORE'',
      nm_appScopedOnly = False, nm_occurredAt = None, nm_receivedAt = 5, nm_action = ''READBACK'', nm_status = None,
      nm_identifiers = [], nm_availableQuota = None, nm_severity = ''P2'', nm_eventCount = None\<rparr>"

definition notice_directive :: "string \<Rightarrow> hydration_directive" where
  [js_eval]: "notice_directive k =
     \<lparr>dv_directiveType = ''PURCHASE_ORDER_READBACK'', dv_capabilityCode = ''PURCHASE_ORDER_READBACK'',
      dv_lookup = [(''businessKey'', JStr k)]\<rparr>"

definition notice_calls :: "int \<Rightarrow> nat \<Rightarrow> string \<Rightarrow> string \<Rightarrow> (int \<times> hydration_call) list" where
  [js_eval]: "notice_calls now job key k =
     [(now, WebhookCall (CallStore (sample_input\<lparr>ri_idempotencyKey := key\<rparr>))),
      (now, WebhookCall (CallClaim [] ''w'' 60000)),
      (now, WebhookCall (CallComplete job ''w'' (notice_event k) (Some (notice_directive k)) False False))]"

definition failed_attempt :: "nat \<Rightarrow> (int \<times> hydration_call) list" where
  [js_eval]: "failed_attempt n =
     [(int n * 5000000, ClaimDirectives [] ''w'' 600000 3), (int n * 5000000 + 1, FailDirectives [1] ''w'' n ''TIMEOUT'' 3600000)]"

definition aged_calls :: "(int \<times> hydration_call) list" where
  [js_eval]: "aged_calls = notice_calls 5 1 sample_hash ''PO1'' @ concat (map failed_attempt [1,2,3,4,5,6,7])
     @ notice_calls 39000000 2 (replicate 64 (CHR ''1'')) ''PO2''"

text \<open>A run on its own, with a synchronisation that does not answer.\<close>

definition lonely_env :: hydration_env where
  [js_eval]: "lonely_env = \<lparr>hy_workerId = ''w'', hy_now = (\<lambda>n. 40000000), hy_locked = (\<lambda>n. []), hy_others = (\<lambda>n. []),
     hy_reach = (\<lambda>n. Reached), hy_sync = (\<lambda>n c. Inl ''TIMEOUT'')\<rparr>"

definition states_of :: "webhook_db \<Rightarrow> (directive_state \<times> nat) list" where
  [js_eval]: "states_of db = map (\<lambda>d. (hd_state d, hd_attemptCount d)) (db_directives db)"

definition before_and_after :: "hydration_env \<Rightarrow> webhook_db \<Rightarrow> (directive_state \<times> nat) list \<times> (directive_state \<times> nat) list" where
  [js_eval]: "before_and_after E db = (states_of db, states_of (hw_db (snd (runWebhookHydration E db))))"

lemma lonely_run:
  "before_and_after lonely_env (hydration_calls aged_calls (empty_db sample_stores []))
     = ([(DRetry, 7), (DPending, 0)], [(DFailed, 8), (DFailed, 1)])"
  by code_simp

text \<open>
  One read-back that times out then ends both as failed, the second after its first attempt, although a directive
  is meant to fail after eight.
\<close>

theorem fresh_directive_fails_with_an_old_one:
  "states_of (hydration_calls aged_calls (empty_db sample_stores [])) = [(DRetry, 7), (DPending, 0)]
   \<and> states_of (hw_db (run_end lonely_env aged_calls sample_stores [])) = [(DFailed, 8), (DFailed, 1)]"
  using lonely_run by (simp add: before_and_after_def run_end_def)

end
