(* ===== verification/Dashboard_Users.thy ===== *)
theory Dashboard_Users
  imports Canonical_Json Js_Number Webhook_Crypto
begin

text \<open>
  The first half of \<open>src/server/auth.mjs\<close>: password hashes, the users file and what each user may see.
  The primitives of \<open>node:crypto\<close>, the two decoders of \<open>Buffer\<close> and \<open>JSON.parse\<close> are a record of
  parameters; the Apache scheme, hexadecimal and the encoding into URL-safe base64 are modelled.
  Errors are named by their messages.
\<close>

section \<open>Primitives\<close>

text \<open>
  SHA-256, MD5, HMAC-SHA-256 (key, message), PBKDF2-SHA-256 (password, salt, iterations, length; \<open>None\<close>
  when it fails), \<open>Buffer.from(s, 'base64url')\<close>, \<open>toString('utf8')\<close> and \<open>JSON.parse\<close> (\<open>None\<close> when it throws).
\<close>

record auth_lib =
  al_sha256 :: "byte list \<Rightarrow> byte list"
  al_md5 :: "byte list \<Rightarrow> byte list"
  al_hmac :: "byte list \<Rightarrow> byte list \<Rightarrow> byte list"
  al_pbkdf2 :: "string \<Rightarrow> byte list \<Rightarrow> nat \<Rightarrow> nat \<Rightarrow> byte list option"
  al_decode64 :: "string \<Rightarrow> byte list"
  al_utf8 :: "byte list \<Rightarrow> string"
  al_json :: "string \<Rightarrow> jsv option"

definition config_error :: "string \<Rightarrow> 'a result" where
  [js_eval]: "config_error m = Inl (Fail m [])"

text \<open>\<open>String(v || d)\<close>\<close>

definition string_or :: "string \<Rightarrow> jsv \<Rightarrow> string result" where
  [js_eval]: "string_or d v = (if truthy v then js_string v else Inr d)"

text \<open>\<open>buffer.toString('base64url')\<close>: the other two symbols and no padding.\<close>

definition url_char :: "char \<Rightarrow> char" where
  [js_eval]: "url_char c = (if c = CHR ''+'' then CHR ''-'' else if c = CHR ''/'' then CHR ''_'' else c)"

definition base64url :: "byte list \<Rightarrow> string" where
  [js_eval]: "base64url bs = map url_char (takeWhile (\<lambda>c. c \<noteq> CHR ''='') (b64_encode bs))"

text \<open>\<open>Buffer.from(s, 'hex')\<close> stops at the first pair that is not hexadecimal.\<close>

fun hex_bytes :: "string \<Rightarrow> byte list" where
  "hex_bytes (a # b # s) =
     (if is_hex_digit a \<and> is_hex_digit b
      then of_nat (16 * Js_Number.hex_val a + Js_Number.hex_val b) # hex_bytes s else [])"
| "hex_bytes _ = []"

declare hex_bytes.simps [js_eval]

text \<open>\<open>Buffer.from(s, 'ascii')\<close> keeps the low byte of every code unit.\<close>

definition ascii_bytes :: "string \<Rightarrow> byte list" where
  [js_eval]: "ascii_bytes s = map (\<lambda>c. of_nat (code c)) s"

definition timing_safe_equal :: "byte list \<Rightarrow> byte list \<Rightarrow> bool option" where
  [js_eval]: "timing_safe_equal a b = (if length a \<noteq> length b then None else Some (a = b))"

text \<open>The three readings of a number option: absent, a positive safe integer, or an error.\<close>

definition positiveInteger_option :: "jsv \<Rightarrow> int option \<Rightarrow> string \<Rightarrow> int option result" where
  [js_eval]: "positiveInteger_option v fallback label =
     (if v = JUndef \<or> v = JNull \<or> v = JStr [] then Inr fallback
      else ebind (js_number v) (\<lambda>n.
        case safe_int (JNum n) of
          Some i \<Rightarrow> if 0 < i then Inr (Some i) else config_error (label @ '' must be a positive integer.'')
        | None \<Rightarrow> config_error (label @ '' must be a positive integer.'')))"

definition decodeValue :: "auth_lib \<Rightarrow> jsv \<Rightarrow> string \<Rightarrow> byte list result" where
  [js_eval]: "decodeValue lib v label =
     ebind (string_or [] v) (\<lambda>t. let source = js_trim t in
       if source = [] then config_error (label @ '' cannot be empty.'')
       else if starts_with ''hex:'' source then Inr (hex_bytes (drop 4 source))
       else if starts_with ''base64:'' source then Inr (al_decode64 lib (drop 7 source))
       else if starts_with ''base64url:'' source then Inr (al_decode64 lib (drop 10 source))
       else if list_all is_hex_digit source \<and> length source mod 2 = 0 then Inr (hex_bytes source)
       else Inr (al_decode64 lib source))"

section \<open>The Apache scheme\<close>

text \<open>
  \<open>apacheApr1\<close>: the two loops that fill the first context, a thousand rounds of MD5 and the
  rearrangement of the sixteen bytes into the alphabet of \<open>crypt\<close>.
\<close>

fun apr1_spread :: "byte list \<Rightarrow> nat \<Rightarrow> byte list" where
  "apr1_spread alternate remaining =
     (if remaining = 0 then [] else take (min 16 remaining) alternate @ apr1_spread alternate (remaining - 16))"

fun apr1_bits :: "byte \<Rightarrow> nat \<Rightarrow> byte list" where
  "apr1_bits first v =
     (if v = 0 then [] else (if v mod 2 = 1 then 0 else first) # apr1_bits first (v div 2))"

declare apr1_spread.simps [simp del] apr1_bits.simps [simp del]

definition apr1_round :: "auth_lib \<Rightarrow> byte list \<Rightarrow> byte list \<Rightarrow> nat \<Rightarrow> byte list \<Rightarrow> byte list" where
  "apr1_round lib pw salt i digest =
     al_md5 lib
       ((if i mod 2 = 1 then pw else digest) @ (if i mod 3 \<noteq> 0 then salt else [])
        @ (if i mod 7 \<noteq> 0 then pw else []) @ (if i mod 2 = 1 then digest else pw))"

definition apr1_alphabet :: string where
  "apr1_alphabet = ''./0123456789ABCDEFGHIJKLMNOPQRSTUVWXYZabcdefghijklmnopqrstuvwxyz''"

fun encode64 :: "nat \<Rightarrow> nat \<Rightarrow> string" where
  "encode64 v 0 = []"
| "encode64 v (Suc n) = apr1_alphabet ! (v mod 64) # encode64 (v div 64) n"

text \<open>A missing byte counts as zero, as the shifts of the source do with \<open>undefined\<close>.\<close>

definition byte_at :: "byte list \<Rightarrow> nat \<Rightarrow> nat" where
  "byte_at d i = (if i < length d then unat (d ! i) else 0)"

definition apr1_text :: "byte list \<Rightarrow> string" where
  "apr1_text d =
     concat (map (\<lambda>(a, b, c). encode64 (byte_at d a * 65536 + byte_at d b * 256 + byte_at d c) 4)
       [(0, 6, 12), (1, 7, 13), (2, 8, 14), (3, 9, 15), (4, 10, 5)])
     @ encode64 (byte_at d 11) 2"

definition apacheApr1 :: "auth_lib \<Rightarrow> string \<Rightarrow> string \<Rightarrow> string" where
  "apacheApr1 lib password salt =
     (let pw = utf8 password; saltBytes = ascii_bytes salt;
          alternate = al_md5 lib (pw @ saltBytes @ pw);
          context = pw @ ascii_bytes ''$apr1$'' @ saltBytes @ apr1_spread alternate (length pw)
            @ apr1_bits (case pw of [] \<Rightarrow> 0 | b # _ \<Rightarrow> b) (length pw);
          digest = fold (apr1_round lib pw saltBytes) [0..<1000] (al_md5 lib context)
      in ''$apr1$'' @ salt @ ''$'' @ apr1_text digest)"

section \<open>Credentials\<close>

datatype credential =
    Sha256_Hash "byte list"
  | Pbkdf2_Hash (pb_iterations: nat) (pb_salt: "byte list") (pb_expected: "byte list")
  | Apr1_Hash (ap_salt: string) (ap_text: string)

definition MIN_PBKDF2_ITERATIONS :: nat where
  [js_eval]: "MIN_PBKDF2_ITERATIONS = 100000"

definition MAX_PBKDF2_ITERATIONS :: nat where
  [js_eval]: "MAX_PBKDF2_ITERATIONS = 2000000"

fun fingerprint :: "credential \<Rightarrow> string" where
  "fingerprint (Sha256_Hash e) = ''sha256:'' @ base64url e"
| "fingerprint (Pbkdf2_Hash n s e) =
     join_with ''$'' [''pbkdf2-sha256'', show_nat n, base64url s, base64url e]"
| "fingerprint (Apr1_Hash s t) = ''apr1:'' @ t"

fun apr1Work :: "credential \<Rightarrow> bool" where
  "apr1Work (Apr1_Hash s t) = True"
| "apr1Work _ = False"

text \<open>\<open>iterations * Math.ceil(length / 32)\<close>\<close>

fun workFactor :: "credential \<Rightarrow> nat" where
  "workFactor (Pbkdf2_Hash n s e) = n * ((length e + 31) div 32)"
| "workFactor _ = 0"

text \<open>
  \<open>credential.verify(password)\<close>, \<open>None\<close> when the derivation fails. The two texts of the Apache scheme
  are compared as ASCII bytes, of one length first.
\<close>

fun verify_credential :: "auth_lib \<Rightarrow> credential \<Rightarrow> string \<Rightarrow> bool option" where
  "verify_credential lib (Sha256_Hash e) password = timing_safe_equal (al_sha256 lib (utf8 password)) e"
| "verify_credential lib (Pbkdf2_Hash n s e) password =
     (case al_pbkdf2 lib password s n (length e) of
        None \<Rightarrow> None | Some actual \<Rightarrow> timing_safe_equal actual e)"
| "verify_credential lib (Apr1_Hash s t) password =
     Some (ascii_bytes (apacheApr1 lib password s) = ascii_bytes t)"

declare fingerprint.simps [js_eval] apr1Work.simps [js_eval] workFactor.simps [js_eval]
  verify_credential.simps [js_eval]

definition sha256Credential :: "auth_lib \<Rightarrow> jsv \<Rightarrow> credential result" where
  [js_eval]: "sha256Credential lib v =
     ebind (decodeValue lib v ''SHA-256 hash'') (\<lambda>expected.
       if length expected \<noteq> 32 then config_error ''SHA-256 password hashes must contain 32 bytes.''
       else Inr (Sha256_Hash expected))"

definition pbkdf2Credential :: "auth_lib \<Rightarrow> jsv \<Rightarrow> jsv \<Rightarrow> jsv \<Rightarrow> jsv \<Rightarrow> credential result" where
  [js_eval]: "pbkdf2Credential lib iterations salt hash digest =
     (if iterations = JUndef \<or> iterations = JNull \<or> iterations = JStr []
      then config_error ''PBKDF2 iterations are required.''
      else ebind (positiveInteger_option iterations None ''PBKDF2 iterations'') (\<lambda>parsed.
        let n = nat (the parsed) in
        if n < MIN_PBKDF2_ITERATIONS \<or> MAX_PBKDF2_ITERATIONS < n
        then config_error ''PBKDF2 iterations must be between 100000 and 2000000.''
        else ebind (if digest = JUndef then Inr ''sha256'' else js_string digest) (\<lambda>name.
          if js_lower name \<noteq> ''sha256'' then config_error ''Only PBKDF2-SHA256 password hashes are supported.''
          else ebind (decodeValue lib salt ''PBKDF2 salt'') (\<lambda>s.
            ebind (decodeValue lib hash ''PBKDF2 hash'') (\<lambda>e.
              if length s < 8 \<or> length e < 32 \<or> 64 < length e
              then config_error ''PBKDF2 salt or hash length is invalid.''
              else Inr (Pbkdf2_Hash n s e))))))"

text \<open>\<open>/^\$apr1\$([./0-9A-Za-z]{1,8})\$([./0-9A-Za-z]{22})$/\<close>, giving the salt.\<close>

definition apr1_char :: "char \<Rightarrow> bool" where
  [js_eval]: "apr1_char c \<longleftrightarrow> is_digit c \<or> is_upper c \<or> is_lower c \<or> c = CHR ''.'' \<or> c = CHR ''/''"

definition apr1_salt :: "string \<Rightarrow> string option" where
  [js_eval]: "apr1_salt s =
     (if \<not> starts_with ''$apr1$'' s then None
      else let rest = drop 6 s; salt = takeWhile apr1_char rest
           in case dropWhile apr1_char rest of
                c # h \<Rightarrow> if c = CHR ''$'' \<and> 1 \<le> length salt \<and> length salt \<le> 8 \<and> matches_span apr1_char 22 22 h
                         then Some salt else None
              | [] \<Rightarrow> None)"

definition apacheApr1Credential :: "jsv \<Rightarrow> credential result" where
  [js_eval]: "apacheApr1Credential v =
     ebind (string_or [] v) (\<lambda>t.
       case apr1_salt t of None \<Rightarrow> config_error ''htpasswdHash must be a valid Apache APR1 hash.''
       | Some salt \<Rightarrow> Inr (Apr1_Hash salt t))"

definition parsePasswordHash :: "auth_lib \<Rightarrow> jsv \<Rightarrow> credential result" where
  [js_eval]: "parsePasswordHash lib v =
     (if is_record v then
        ebind (string_or [] (if truthy (jget v ''algorithm'') then jget v ''algorithm'' else jget v ''algo'')) (\<lambda>t.
          let algorithm = js_lower t in
          if algorithm = ''pbkdf2-sha256'' \<or> algorithm = ''pbkdf2_sha256''
          then pbkdf2Credential lib (jget v ''iterations'') (jget v ''salt'') (jget v ''hash'') (jget v ''digest'')
          else if algorithm = ''sha256'' then sha256Credential lib (jget v ''hash'')
          else config_error ''Unsupported passwordHash algorithm.'')
      else ebind (string_or [] v) (\<lambda>t.
        let source = js_trim t; dollar = split_on (CHR ''$'') source; colon = split_on (CHR '':'') source in
        if length dollar = 4 \<and> js_lower (dollar ! 0) \<in> {''pbkdf2-sha256'', ''pbkdf2_sha256''}
        then pbkdf2Credential lib (JStr (dollar ! 1)) (JStr (dollar ! 2)) (JStr (dollar ! 3)) JUndef
        else if length colon = 5 \<and> js_lower (colon ! 0) = ''pbkdf2'' \<and> js_lower (colon ! 1) = ''sha256''
        then pbkdf2Credential lib (JStr (colon ! 2)) (JStr (colon ! 3)) (JStr (colon ! 4)) JUndef
        else if starts_with ''sha256$'' (js_lower source) then sha256Credential lib (JStr (drop 7 source))
        else if starts_with ''sha256:'' (js_lower source) then sha256Credential lib (JStr (drop 7 source))
        else if matches_span is_hex_digit 64 64 source then sha256Credential lib (JStr source)
        else config_error ''Unsupported passwordHash format.''))"

section \<open>Users\<close>

record user_access =
  ua_role :: string
  ua_allStores :: bool
  ua_storeCodes :: "string list"
  ua_employeeCode :: string

record auth_user =
  du_username :: string
  du_displayName :: string
  du_access :: user_access
  du_credential :: credential
  du_tag :: string

definition AUTH_ROLES :: "string list" where
  [js_eval]: "AUTH_ROLES = [''admin'', ''manager'', ''operator'', ''viewer'']"

text \<open>\<open>/[\u0000-\u001f\u007f]/\<close>\<close>

definition has_control :: "string \<Rightarrow> bool" where
  [js_eval]: "has_control s \<longleftrightarrow> list_ex (\<lambda>c. code c \<le> 31 \<or> code c = 127) s"

text \<open>\<open>/^[A-Z0-9_-]+$/\<close>\<close>

definition user_store_pattern :: "string \<Rightarrow> bool" where
  [js_eval]: "user_store_pattern s \<longleftrightarrow>
     s \<noteq> [] \<and> list_all (\<lambda>c. is_upper c \<or> is_digit c \<or> c = CHR ''_'' \<or> c = CHR ''-'') s"

definition user_error :: "string \<Rightarrow> string \<Rightarrow> 'a result" where
  [js_eval]: "user_error username m = config_error (''Authentication user '' @ username @ m)"

definition parseUserAccess :: "jsv \<Rightarrow> string \<Rightarrow> user_access result" where
  [js_eval]: "parseUserAccess record username =
     ebind (if nullish (jget record ''role'') then Inr ''viewer''
            else ebind (js_string (jget record ''role'')) (\<lambda>r. Inr (js_lower (js_trim r)))) (\<lambda>role.
     ebind (if role \<in> set AUTH_ROLES then Inr () else user_error username '' has an unsupported role.'') (\<lambda>_.
     ebind (case coalesce (coalesce (jget record ''storeCodes'') (jget record ''stores'')) (JArr []) of
              JArr vs \<Rightarrow> Inr vs | _ \<Rightarrow> user_error username '' storeCodes must be an array.'') (\<lambda>vs.
     ebind (emap (\<lambda>v. ebind (js_string v) (\<lambda>s. Inr (js_upper (js_trim s)))) vs) (\<lambda>ts.
       let codes = filter (\<lambda>s. s \<noteq> []) (dedupe ts); admin = (role = ''admin'') in
     ebind (if list_all user_store_pattern codes then Inr ()
            else user_error username '' contains an invalid store code.'') (\<lambda>_.
     ebind (if nullish (jget record ''employeeCode'') then Inr username
            else ebind (js_string (jget record ''employeeCode'')) (\<lambda>e. Inr (js_trim e))) (\<lambda>employee.
       if employee = [] \<or> 128 < length employee \<or> has_control employee
       then user_error username '' has an invalid employeeCode.''
       else Inr \<lparr>ua_role = role, ua_allStores = admin,
                 ua_storeCodes = (if admin then [] else sort codes), ua_employeeCode = employee\<rparr>))))))"

text \<open>\<open>JSON.stringify(access)\<close>, over the fields in the order of the object.\<close>

definition access_json :: "user_access \<Rightarrow> jsv" where
  [js_eval]: "access_json a =
     JObj [(''role'', JStr (ua_role a)), (''allStores'', JBool (ua_allStores a)),
           (''storeCodes'', JArr (map JStr (ua_storeCodes a))), (''employeeCode'', JStr (ua_employeeCode a))]"

definition json_string :: "jsv \<Rightarrow> string" where
  [js_eval]: "json_string v = (case json_text v of Inr t \<Rightarrow> t | Inl _ \<Rightarrow> [])"

definition credential_tag :: "auth_lib \<Rightarrow> string \<Rightarrow> credential \<Rightarrow> user_access \<Rightarrow> string" where
  [js_eval]: "credential_tag lib username c a =
     take 22 (base64url (al_sha256 lib
       (utf8 (username @ CHR 0x00 # fingerprint c @ CHR 0x00 # json_string (access_json a)))))"

text \<open>The one password field of a record: there must be exactly one of the three.\<close>

definition record_credential :: "auth_lib \<Rightarrow> jsv \<Rightarrow> credential result" where
  [js_eval]: "record_credential lib record =
     (case filter (\<lambda>k. jget record k \<noteq> JUndef) [''passwordSha256'', ''passwordHash'', ''htpasswdHash''] of
        [field] \<Rightarrow>
          if field = ''passwordSha256'' then sha256Credential lib (jget record field)
          else if field = ''passwordHash'' then parsePasswordHash lib (jget record field)
          else apacheApr1Credential (jget record field)
      | _ \<Rightarrow> config_error ''Each authentication user must have exactly one supported password hash.'')"

type_synonym user_map = "(string \<times> auth_user) list"

text \<open>One record of the file: inactive ones and those that are no objects are passed over.\<close>

definition parse_user :: "auth_lib \<Rightarrow> user_map \<Rightarrow> jsv \<Rightarrow> user_map result" where
  [js_eval]: "parse_user lib users record =
     (if \<not> is_object record \<or> jget record ''active'' = JBool False then Inr users
      else ebind (string_or [] (jget record ''username'')) (\<lambda>t. let username = js_trim t; key = js_lower username in
        if username = [] \<or> 128 < length username \<or> has_control username
        then config_error ''Authentication users file contains an invalid username.''
        else if map_of users key \<noteq> None
        then config_error ''Authentication users file contains a duplicate username.''
        else ebind (record_credential lib record) (\<lambda>c.
          ebind (parseUserAccess record username) (\<lambda>a.
            ebind (string_or username (jget record ''displayName'')) (\<lambda>d.
              Inr (users @ [(key, \<lparr>du_username = username, du_displayName = take 128 d, du_access = a,
                                   du_credential = c, du_tag = credential_tag lib username c a\<rparr>)]))))))"

fun parse_users :: "auth_lib \<Rightarrow> user_map \<Rightarrow> jsv list \<Rightarrow> user_map result" where
  "parse_users lib users [] = Inr users"
| "parse_users lib users (r # rs) = ebind (parse_user lib users r) (\<lambda>us. parse_users lib us rs)"

declare parse_users.simps [js_eval]

text \<open>
  A file as \<open>statSync\<close> and \<open>readFileSync\<close> show it: regular or not, its mode, its text (\<open>None\<close> when it
  cannot be read). Group write or execute and every right of others make it unsafe, except on Windows.
\<close>

record private_file =
  pf_regular :: bool
  pf_mode :: "32 word"
  pf_text :: "string option"

record auth_host =
  ah_files :: "string \<Rightarrow> private_file option"
  ah_windows :: bool

definition assertPrivateFile :: "auth_host \<Rightarrow> string \<Rightarrow> string \<Rightarrow> private_file result" where
  [js_eval]: "assertPrivateFile host path label =
     (case ah_files host path of
        None \<Rightarrow> config_error (label @ '' could not be read.'')
      | Some f \<Rightarrow>
          if \<not> pf_regular f then config_error (label @ '' must be a regular file.'')
          else if \<not> ah_windows host \<and> and (pf_mode f) 31 \<noteq> 0
          then config_error (label @ '' permissions are too broad.'')
          else Inr f)"

text \<open>\<open>None\<close> for whatever fails before \<open>JSON.parse\<close>.\<close>

definition readPrivateFile :: "auth_host \<Rightarrow> string \<Rightarrow> string \<Rightarrow> string option" where
  [js_eval]: "readPrivateFile host path label =
     (case assertPrivateFile host path label of Inl _ \<Rightarrow> None | Inr f \<Rightarrow> pf_text f)"

definition parseUsers :: "auth_lib \<Rightarrow> auth_host \<Rightarrow> string \<Rightarrow> user_map result" where
  [js_eval]: "parseUsers lib host usersFile =
     (case readPrivateFile host usersFile ''Authentication users file'' of
        None \<Rightarrow> config_error ''Authentication users file could not be read.''
      | Some t \<Rightarrow>
          (case al_json lib t of
             None \<Rightarrow> config_error ''Authentication users file is not valid JSON.''
           | Some source \<Rightarrow>
               (case if is_array source then source else jget source ''users'' of
                  JArr (r # rs) \<Rightarrow>
                    ebind (parse_users lib [] (r # rs)) (\<lambda>users.
                      if users = [] then config_error ''Authentication users file has no active users.''
                      else Inr users)
                | _ \<Rightarrow> config_error ''Authentication users file must contain a non-empty users array.'')))"

section \<open>Reading and writing stores\<close>

text \<open>
  \<open>src/server/dashboard-access.mjs\<close>: who sees what, and the gate for future writes. A signed-in user is
  passed as the object that the sign-in service publishes.
\<close>

definition WRITE_ROLES :: "string list" where
  [js_eval]: "WRITE_ROLES = [''admin'', ''manager'', ''operator'']"

definition access_store_pattern :: "string \<Rightarrow> bool" where
  [js_eval]: "access_store_pattern s =
     matches_span (\<lambda>c. is_upper c \<or> is_digit c \<or> c = CHR ''_'' \<or> c = CHR ''-'') 1 24 s"

definition assignedStoreCodes :: "jsv \<Rightarrow> string list result" where
  [js_eval]: "assignedStoreCodes user =
     (case jget user ''storeCodes'' of
        JArr vs \<Rightarrow> ebind (emap (\<lambda>v. ebind (js_string v) (\<lambda>s. Inr (js_upper (js_trim s)))) vs) (\<lambda>ts.
          Inr (sort (dedupe (filter access_store_pattern ts))))
      | _ \<Rightarrow> Inr [])"

text \<open>\<open>String(v || '').trim()\<close> and its upper case\<close>

definition trimmed_text :: "jsv \<Rightarrow> string result" where
  [js_eval]: "trimmed_text v = ebind (string_or [] v) (\<lambda>t. Inr (js_trim t))"

definition upper_text :: "jsv \<Rightarrow> string result" where
  [js_eval]: "upper_text v = ebind (trimmed_text v) (\<lambda>t. Inr (js_upper t))"

text \<open>\<open>/^[A-Z0-9_.:-]{3,80}$/\<close>\<close>

definition capability_pattern :: "string \<Rightarrow> bool" where
  [js_eval]: "capability_pattern s =
     matches_span (\<lambda>c. is_upper c \<or> is_digit c \<or> c \<in> set ''_.:-'') 3 80 s"

text \<open>
  The callback of \<open>find\<close> destructures every assignment up to the first that matches; \<open>null\<close> and
  \<open>undefined\<close> throw there.
\<close>

fun first_assignment :: "string \<Rightarrow> jsv list \<Rightarrow> jsv result" where
  "first_assignment c [] = Inr JUndef"
| "first_assignment c (a # as) =
     (if nullish a then Inl TypeError
      else ebind (upper_text (jget a ''storeCode'')) (\<lambda>s. if s = c then Inr a else first_assignment c as))"

declare first_assignment.simps [js_eval]

definition canWriteStore :: "jsv \<Rightarrow> jsv \<Rightarrow> bool \<Rightarrow> jsv \<Rightarrow> jsv \<Rightarrow> bool result" where
  [js_eval]: "canWriteStore user storeCode writeEnabled authorization capability =
     (if \<not> writeEnabled then Inr False
      else if \<not> is_object authorization then Inr False
      else ebind (trimmed_text (jget user ''employeeCode'')) (\<lambda>employee.
       if employee = [] then Inr False
       else ebind (trimmed_text (jget authorization ''employeeCode'')) (\<lambda>authorized.
       if authorized \<noteq> employee then Inr False
       else ebind (trimmed_text (jget user ''username'')) (\<lambda>username.
       ebind (trimmed_text (jget authorization ''username'')) (\<lambda>authorizedUsername.
       if authorizedUsername \<noteq> [] \<and> authorizedUsername \<noteq> username then Inr False
       else ebind (trimmed_text (jget authorization ''role'')) (\<lambda>roleText. let role = js_lower roleText in
       if role \<notin> set WRITE_ROLES then Inr False
       else ebind (upper_text capability) (\<lambda>wanted.
       if \<not> capability_pattern wanted then Inr False
       else ebind (emap (\<lambda>v. ebind (js_string v) (\<lambda>s. Inr (js_upper (js_trim s))))
              (case jget authorization ''allowedCapabilities'' of JArr vs \<Rightarrow> vs | _ \<Rightarrow> [])) (\<lambda>allowed.
       if wanted \<notin> set allowed then Inr False
       else ebind (upper_text storeCode) (\<lambda>store.
       if \<not> access_store_pattern store then Inr False
       else if role = ''admin'' \<and> jget authorization ''allStores'' = JBool True then Inr True
       else ebind (first_assignment store
              (case jget authorization ''assignments'' of JArr vs \<Rightarrow> vs | _ \<Rightarrow> [])) (\<lambda>assignment.
       ebind (upper_text (jget assignment ''role'')) (\<lambda>r.
       Inr (r \<in> {''PRIMARY'', ''SUPPORT''}))))))))))))"

text \<open>
  What the dashboard is sent with: every employee may read everything. The label of a role and the name
  shown without a sign-in are Chinese texts and enter as parameters.
\<close>

definition accessDescriptor :: "(string \<Rightarrow> string) \<Rightarrow> string \<Rightarrow> jsv \<Rightarrow> jsv result" where
  [js_eval]: "accessDescriptor label localName user =
     (let or = (\<lambda>v d. if truthy v then v else d); role = or (jget user ''role'') (JStr ''viewer'') in
      ebind (js_string role) (\<lambda>roleKey.
      ebind (assignedStoreCodes user) (\<lambda>codes.
        Inr (JObj [(''username'', or (jget user ''username'') JNull),
                   (''displayName'', or (jget user ''displayName'') (JStr localName)),
                   (''employeeCode'', or (jget user ''employeeCode'') JNull),
                   (''role'', role), (''roleLabel'', JStr (label roleKey)),
                   (''readAllStores'', JBool True), (''writeEnabled'', JBool False),
                   (''writeAuthorizationSource'', JStr ''warehouse_assignment_required''),
                   (''declaredStoreCodes'', JArr (map JStr codes))]))))"

definition projectDashboardForUser ::
  "(string \<Rightarrow> string) \<Rightarrow> string \<Rightarrow> (string \<times> jsv) list \<Rightarrow> jsv \<Rightarrow> jsv result" where
  [js_eval]: "projectDashboardForUser label localName dashboard user =
     ebind (accessDescriptor label localName user) (\<lambda>a. Inr (JObj (assoc_put ''access'' a dashboard)))"

end
