(* ===== verification/Dashboard_Auth.thy ===== *)
theory Dashboard_Auth
  imports Dashboard_Users
begin

text \<open>
  The second half of \<open>src/server/auth.mjs\<close>: the configuration of the sign-in service, its session tokens,
  the rate limit over shared records, one sign-in from its reservation to its verdict and the check of
  the origin. Times are milliseconds. \<open>Math.floor(now / 1000)\<close> and \<open>Math.ceil(ms / 1000)\<close> are taken
  exactly, which the quotient of doubles is for every time below \<open>2^42\<close> seconds.
\<close>

section \<open>Hosts and origins\<close>

text \<open>What \<open>new URL(text)\<close> shows of a text; \<open>None\<close> where it throws.\<close>

record parsed_url =
  pu_origin :: string
  pu_protocol :: string
  pu_hostname :: string

type_synonym url_parser = "string \<Rightarrow> parsed_url option"

text \<open>\<open>text.replace(/^\[|\]$/g, '')\<close>\<close>

definition strip_brackets :: "string \<Rightarrow> string" where
  [js_eval]: "strip_brackets s =
     (let t = (case s of c # cs \<Rightarrow> if c = CHR ''['' then cs else s | [] \<Rightarrow> [])
      in if t \<noteq> [] \<and> last t = CHR '']'' then butlast t else t)"

definition octet_pattern :: "string \<Rightarrow> bool" where
  [js_eval]: "octet_pattern s \<longleftrightarrow> matches_span is_digit 1 3 s \<and> read_nat s \<le> 255"

definition isLoopbackHost :: "string \<Rightarrow> bool" where
  [js_eval]: "isLoopbackHost host \<longleftrightarrow>
     (let normalized = strip_brackets (js_lower (js_trim host)); octets = split_on (CHR ''.'') normalized
      in normalized = ''localhost'' \<or> normalized = ''::1''
         \<or> length octets = 4 \<and> octets ! 0 = ''127'' \<and> list_all octet_pattern octets)"

text \<open>\<open>address.replace(/^::ffff:/i, '')\<close> before the same test\<close>

definition isLoopbackAddress :: "string \<Rightarrow> bool" where
  [js_eval]: "isLoopbackAddress address \<longleftrightarrow>
     isLoopbackHost (if js_lower (take 7 address) = ''::ffff:'' then drop 7 address else address)"

text \<open>\<open>/^http:\/\/\d+\.\d+\.\d+\.\d+(?::\d+)?$/\<close>\<close>

definition digits :: "string \<Rightarrow> bool" where
  [js_eval]: "digits s \<longleftrightarrow> s \<noteq> [] \<and> list_all is_digit s"

definition http_ip_pattern :: "string \<Rightarrow> bool" where
  [js_eval]: "http_ip_pattern s \<longleftrightarrow>
     starts_with ''http://'' s
     \<and> (let parts = split_on (CHR '':'') (drop 7 s); octets = split_on (CHR ''.'') (parts ! 0)
         in length parts \<le> 2 \<and> list_all digits (tl parts) \<and> length octets = 4 \<and> list_all digits octets)"

definition isPrivateHttpOrigin :: "url_parser \<Rightarrow> jsv \<Rightarrow> bool" where
  [js_eval]: "isPrivateHttpOrigin parse v =
     (case v of
        JStr s \<Rightarrow> http_ip_pattern s \<and>
          (case parse s of
             None \<Rightarrow> False
           | Some u \<Rightarrow> pu_origin u = s \<and>
               (case map number_of_text (split_on (CHR ''.'') (pu_hostname u)) of
                  NInt a # rest \<Rightarrow> a = 10
                    \<or> (case rest of NInt b # _ \<Rightarrow> a = 172 \<and> 16 \<le> b \<and> b \<le> 31 \<or> a = 192 \<and> b = 168 | _ \<Rightarrow> False)
                | _ \<Rightarrow> False))
      | _ \<Rightarrow> False)"

section \<open>Configuration\<close>

record dashboard_auth =
  dc_users :: user_map
  dc_secret :: "byte list"
  dc_cookieName :: string
  dc_ttl :: int
  dc_window :: int
  dc_maxAttempts :: int
  dc_maxBody :: int
  dc_secure :: bool
  dc_trustProxy :: bool
  dc_publicOrigin :: string
  dc_maxClients :: int
  dc_maxKdfs :: int

definition LAN_COOKIE_NAME :: string where
  [js_eval]: "LAN_COOKIE_NAME = ''fm_bi_lan_session''"

definition lan_error :: string where
  [js_eval]: "lan_error =
     ''LAN HTTP requires production, a loopback listener, trusted proxy, an exact RFC1918 HTTP origin, insecure cookies and the dedicated LAN cookie name.''"

definition cookie_name_pattern :: "string \<Rightarrow> bool" where
  [js_eval]: "cookie_name_pattern s \<longleftrightarrow>
     s \<noteq> [] \<and> list_all (\<lambda>c. is_upper c \<or> is_lower c \<or> is_digit c \<or> c = CHR ''_'' \<or> c = CHR ''-'') s"

text \<open>The session secret: the value or the text of the file without its trailing line ends.\<close>

definition sessionSecret :: "auth_host \<Rightarrow> string \<Rightarrow> string \<Rightarrow> string result" where
  [js_eval]: "sessionSecret host configured file =
     (if configured \<noteq> [] \<and> file \<noteq> [] then config_error ''Configure a session secret value or file, not both.''
      else if file = [] then Inr configured
      else case readPrivateFile host file ''Session secret file'' of
          None \<Rightarrow> config_error ''Session secret file could not be read.''
        | Some t \<Rightarrow> Inr (rev (dropWhile (\<lambda>c. code c = 13 \<or> code c = 10) (rev t))))"

definition publicOrigin_of :: "url_parser \<Rightarrow> bool \<Rightarrow> bool \<Rightarrow> string \<Rightarrow> string result" where
  [js_eval]: "publicOrigin_of parse production allowLan configured =
     (if configured = [] then Inr []
      else case parse configured of
          None \<Rightarrow> config_error ''Public origin must be an exact HTTP(S) origin.''
        | Some u \<Rightarrow>
            if pu_origin u \<noteq> configured \<or> pu_protocol u \<notin> {''http:'', ''https:''}
               \<or> production \<and> pu_protocol u \<noteq> ''https:'' \<and> \<not> allowLan
            then config_error ''Public origin must be an exact HTTP(S) origin.''
            else Inr (pu_origin u))"

definition positive_option :: "jsv \<Rightarrow> string \<Rightarrow> int \<Rightarrow> string \<Rightarrow> int result" where
  [js_eval]: "positive_option o' k fallback label =
     ebind (positiveInteger_option (jget o' k) (Some fallback) label) (\<lambda>r. Inr (the r))"

definition lan_misconfigured :: "url_parser \<Rightarrow> jsv \<Rightarrow> string \<Rightarrow> string \<Rightarrow> bool" where
  [js_eval]: "lan_misconfigured parse o' environment hostName \<longleftrightarrow>
     environment \<noteq> ''production'' \<or> \<not> isLoopbackHost hostName \<or> jget o' ''trustProxy'' \<noteq> JBool True
     \<or> jget o' ''secureCookie'' \<noteq> JBool False \<or> \<not> isPrivateHttpOrigin parse (jget o' ''publicOrigin'')
     \<or> jget o' ''cookieName'' \<noteq> JUndef \<and> jget o' ''cookieName'' \<noteq> JStr LAN_COOKIE_NAME"

text \<open>The second half of the configuration, once there are users and a secret.\<close>

definition configure_service ::
  "url_parser \<Rightarrow> jsv \<Rightarrow> bool \<Rightarrow> bool \<Rightarrow> string \<Rightarrow> user_map \<Rightarrow> string \<Rightarrow> dashboard_auth result" where
  [js_eval]: "configure_service parse o' production allowLan hostName users secret =
     ebind (if allowLan then Inr LAN_COOKIE_NAME else string_or ''fm_bi_session'' (jget o' ''cookieName'')) (\<lambda>cookie.
     if \<not> cookie_name_pattern cookie then config_error ''Session cookie name is invalid.''
     else
     ebind (positive_option o' ''sessionTtlSeconds'' 2592000 ''Session TTL'') (\<lambda>ttl.
     ebind (positive_option o' ''rateLimitWindowMs'' 900000 ''Login rate-limit window'') (\<lambda>win.
     ebind (positive_option o' ''rateLimitMaxAttempts'' 5 ''Login rate-limit attempts'') (\<lambda>attempts.
     ebind (positive_option o' ''maxBodyBytes'' 16384 ''Request body limit'') (\<lambda>body.
     let secure = truthy (coalesce (jget o' ''secureCookie'') (JBool production));
         proxy = (jget o' ''trustProxy'' = JBool True) in
     if production \<and> \<not> secure \<and> \<not> allowLan
     then config_error ''Secure session cookies cannot be disabled in production.''
     else if proxy \<and> \<not> isLoopbackHost hostName
     then config_error ''Proxy headers may only be trusted on a loopback listener.''
     else
     ebind (ebind (string_or [] (jget o' ''publicOrigin'')) (\<lambda>t.
              publicOrigin_of parse production allowLan (js_trim t))) (\<lambda>origin.
     ebind (positive_option o' ''maxRateLimitClients'' 10000 ''Rate-limit client capacity'') (\<lambda>clients.
     ebind (positive_option o' ''maxConcurrentKdfs'' 8 ''Concurrent password-check capacity'') (\<lambda>kdfs.
     Inr \<lparr>dc_users = users, dc_secret = utf8 secret, dc_cookieName = cookie, dc_ttl = ttl, dc_window = win,
          dc_maxAttempts = attempts, dc_maxBody = body, dc_secure = secure, dc_trustProxy = proxy,
          dc_publicOrigin = origin, dc_maxClients = clients, dc_maxKdfs = kdfs\<rparr>))))))))"

text \<open>Disabled without any setting, where that is allowed; otherwise both settings and the users are needed.\<close>

definition choose_service ::
  "auth_lib \<Rightarrow> url_parser \<Rightarrow> auth_host \<Rightarrow> jsv \<Rightarrow> bool \<Rightarrow> bool \<Rightarrow> string \<Rightarrow> string \<Rightarrow> string \<Rightarrow> string
     \<Rightarrow> dashboard_auth option result" where
  [js_eval]: "choose_service lib parse host o' production allowLan hostName usersFile secretFile secret =
     (if usersFile = [] \<and> secret = [] \<and> secretFile = [] then
        (if production \<or> \<not> isLoopbackHost hostName
         then config_error ''Authentication is required in production and for non-loopback listeners.''
         else Inr None)
      else if usersFile = [] \<or> secret = []
      then config_error ''Both an authentication users file and a session secret are required.''
      else if length (utf8 secret) < 32 then config_error ''Session secret must be at least 32 bytes.''
      else ebind (parseUsers lib host usersFile) (\<lambda>users.
        ebind (configure_service parse o' production allowLan hostName users secret) (\<lambda>c. Inr (Some c))))"

text \<open>\<open>createAuthService(options)\<close>; \<open>None\<close> is the disabled service.\<close>

definition createAuthService ::
  "auth_lib \<Rightarrow> url_parser \<Rightarrow> auth_host \<Rightarrow> jsv \<Rightarrow> dashboard_auth option result" where
  [js_eval]: "createAuthService lib parse host o' =
     ebind (string_or ''development'' (jget o' ''runtimeEnvironment'')) (\<lambda>e. let environment = js_lower e in
     ebind (string_or ''127.0.0.1'' (jget o' ''host'')) (\<lambda>hostName.
     let allowLan = (jget o' ''allowLanHttp'' = JBool True) in
     if allowLan \<and> lan_misconfigured parse o' environment hostName then config_error lan_error
     else
     ebind (trimmed_text (jget o' ''usersFile'')) (\<lambda>usersFile.
     ebind (string_or [] (jget o' ''sessionSecret'')) (\<lambda>configured.
     ebind (trimmed_text (jget o' ''sessionSecretFile'')) (\<lambda>secretFile.
     ebind (sessionSecret host configured secretFile) (\<lambda>secret.
     choose_service lib parse host o' (environment = ''production'') allowLan hostName usersFile secretFile secret))))))"

section \<open>Session tokens\<close>

definition session_json :: "auth_user \<Rightarrow> int \<Rightarrow> int \<Rightarrow> jsv" where
  [js_eval]: "session_json u issuedAt expiry =
     JObj [(''v'', JNum (NInt 1)), (''u'', JStr (du_username u)), (''c'', JStr (du_tag u)),
           (''iat'', JNum (NInt issuedAt)), (''exp'', JNum (NInt expiry))]"

definition session_payload :: "dashboard_auth \<Rightarrow> auth_user \<Rightarrow> int \<Rightarrow> string" where
  [js_eval]: "session_payload cfg u now =
     base64url (utf8 (json_string (session_json u (now div 1000) (now div 1000 + dc_ttl cfg))))"

definition session_signature :: "auth_lib \<Rightarrow> dashboard_auth \<Rightarrow> string \<Rightarrow> byte list" where
  [js_eval]: "session_signature lib cfg payload = al_hmac lib (dc_secret cfg) (utf8 payload)"

definition create_session :: "auth_lib \<Rightarrow> dashboard_auth \<Rightarrow> auth_user \<Rightarrow> int \<Rightarrow> string" where
  [js_eval]: "create_session lib cfg u now =
     (let payload = session_payload cfg u now in payload @ ''.'' @ base64url (session_signature lib cfg payload))"

definition cookie_attributes :: "dashboard_auth \<Rightarrow> string \<Rightarrow> int \<Rightarrow> string" where
  [js_eval]: "cookie_attributes cfg value maxAge =
     join_with ''; ''
       ([dc_cookieName cfg @ ''='' @ value, ''Path=/'', ''HttpOnly'', ''SameSite=Lax'', ''Max-Age='' @ show_int maxAge]
        @ (if dc_secure cfg then [''Secure''] else []))"

definition session_cookie :: "auth_lib \<Rightarrow> dashboard_auth \<Rightarrow> auth_user \<Rightarrow> int \<Rightarrow> string" where
  [js_eval]: "session_cookie lib cfg u now = cookie_attributes cfg (create_session lib cfg u now) (dc_ttl cfg)"

definition clear_session_cookie :: "dashboard_auth \<Rightarrow> string" where
  [js_eval]: "clear_session_cookie cfg = cookie_attributes cfg [] 0"

text \<open>The claims of a session that \<open>verifySession\<close> accepts: name, tag and the second of issue.\<close>

definition session_claims :: "dashboard_auth \<Rightarrow> int \<Rightarrow> jsv \<Rightarrow> (string \<times> string \<times> int) option" where
  [js_eval]: "session_claims cfg now session =
     (let nowSeconds = now div 1000 in
      if jget session ''v'' \<noteq> JNum (NInt 1) then None
      else case (jget session ''u'', jget session ''c'', safe_int (jget session ''iat''), safe_int (jget session ''exp'')) of
          (JStr u, JStr c, Some issued, Some expiry) \<Rightarrow>
            if nowSeconds + 60 < issued \<or> expiry \<le> nowSeconds \<or> expiry - issued \<noteq> dc_ttl cfg then None
            else Some (u, c, issued)
        | _ \<Rightarrow> None)"

text \<open>\<open>verifySession(token, now)\<close>, giving the user and the second of issue.\<close>

definition verifySession :: "auth_lib \<Rightarrow> dashboard_auth \<Rightarrow> string \<Rightarrow> int \<Rightarrow> (auth_user \<times> int) option" where
  [js_eval]: "verifySession lib cfg token now =
     (case split_on (CHR ''.'') token of
        [payload, supplied] \<Rightarrow>
          if payload = [] \<or> supplied = [] then None
          else let bytes = al_decode64 lib supplied; expected = session_signature lib cfg payload in
            if base64url bytes \<noteq> supplied \<or> bytes \<noteq> expected then None
            else (case al_json lib (al_utf8 lib (al_decode64 lib payload)) of
                None \<Rightarrow> None
              | Some session \<Rightarrow>
                  (case session_claims cfg now session of
                     None \<Rightarrow> None
                   | Some (u, c, issued) \<Rightarrow>
                       (case map_of (dc_users cfg) (js_lower u) of
                          None \<Rightarrow> None
                        | Some user \<Rightarrow>
                            if du_username user = u \<and> du_tag user = c then Some (user, issued) else None)))
      | _ \<Rightarrow> None)"

definition publicUser :: "auth_user \<Rightarrow> jsv" where
  [js_eval]: "publicUser u =
     JObj [(''username'', JStr (du_username u)), (''displayName'', JStr (du_displayName u)),
           (''employeeCode'', JStr (ua_employeeCode (du_access u))), (''role'', JStr (ua_role (du_access u))),
           (''allStores'', JBool (ua_allStores (du_access u))),
           (''storeCodes'', JArr (map JStr (ua_storeCodes (du_access u))))]"

definition verifyToken :: "auth_lib \<Rightarrow> dashboard_auth \<Rightarrow> string \<Rightarrow> int \<Rightarrow> jsv option" where
  [js_eval]: "verifyToken lib cfg token now = map_option (\<lambda>(u, _). publicUser u) (verifySession lib cfg token now)"

text \<open>The cookies of a header, the first of a name counting.\<close>

fun parse_cookie_parts :: "(string \<times> string) list \<Rightarrow> string list \<Rightarrow> (string \<times> string) list" where
  "parse_cookie_parts cookies [] = cookies"
| "parse_cookie_parts cookies (part # parts) =
     (let raw = takeWhile (\<lambda>c. c \<noteq> CHR ''='') part; name = js_trim raw; value = js_trim (drop (Suc (length raw)) part)
      in parse_cookie_parts
           (if raw = [] \<or> raw = part \<or> name = [] \<or> map_of cookies name \<noteq> None then cookies
            else cookies @ [(name, value)]) parts)"

declare parse_cookie_parts.simps [js_eval]

definition parseCookies :: "string \<Rightarrow> (string \<times> string) list" where
  [js_eval]: "parseCookies header = parse_cookie_parts [] (split_on (CHR '';'') header)"

section \<open>Requests\<close>

text \<open>
  The parts of a request that the sign-in reads. A missing header is the empty text, as
  \<open>String(header || '')\<close> makes it.
\<close>

record web_request =
  wr_method :: string
  wr_url :: string
  wr_cookie :: string
  wr_origin :: string
  wr_host :: string
  wr_forwardedFor :: string
  wr_forwardedProto :: string
  wr_remote :: string
  wr_encrypted :: bool
  wr_contentLength :: "string option"
  wr_contentType :: string
  wr_accept :: string

definition session_token :: "dashboard_auth \<Rightarrow> web_request \<Rightarrow> string" where
  [js_eval]: "session_token cfg q =
     (case map_of (parseCookies (wr_cookie q)) (dc_cookieName cfg) of None \<Rightarrow> [] | Some t \<Rightarrow> t)"

definition authenticateRequest :: "auth_lib \<Rightarrow> dashboard_auth \<Rightarrow> web_request \<Rightarrow> int \<Rightarrow> jsv option" where
  [js_eval]: "authenticateRequest lib cfg q now = verifyToken lib cfg (session_token cfg q) now"

definition refreshCookieForRequest :: "auth_lib \<Rightarrow> dashboard_auth \<Rightarrow> web_request \<Rightarrow> int \<Rightarrow> string option" where
  [js_eval]: "refreshCookieForRequest lib cfg q now =
     (case verifySession lib cfg (session_token cfg q) now of
        None \<Rightarrow> None
      | Some (user, issued) \<Rightarrow>
          if now div 1000 - issued < max 1 (dc_ttl cfg div 2) then None else Some (session_cookie lib cfg user now))"

definition clientKey :: "bool \<Rightarrow> web_request \<Rightarrow> string" where
  [js_eval]: "clientKey trustProxy q =
     (let forwarded = filter (\<lambda>s. s \<noteq> []) (map js_trim (split_on (CHR '','') (wr_forwardedFor q)))
      in if trustProxy \<and> forwarded \<noteq> [] then last forwarded
         else if wr_remote q = [] then ''unknown'' else wr_remote q)"

definition isSameOriginPost :: "url_parser \<Rightarrow> string \<Rightarrow> bool \<Rightarrow> web_request \<Rightarrow> bool" where
  [js_eval]: "isSameOriginPost parse publicOrigin trustProxy q =
     (let origin = js_trim (wr_origin q); host = js_trim (wr_host q) in
      if origin = [] \<or> origin = ''null'' \<or> host = [] then False
      else if publicOrigin \<noteq> [] then map_option pu_origin (parse origin) = Some publicOrigin
      else let proto = (if trustProxy \<and> isLoopbackAddress (wr_remote q)
                        then js_lower (js_trim (takeWhile (\<lambda>c. c \<noteq> CHR '','') (wr_forwardedProto q))) else []);
               protocol = (if proto = ''https'' \<or> wr_encrypted q then ''https'' else ''http'')
           in case (parse origin, parse (protocol @ ''://'' @ host)) of
                (Some a, Some b) \<Rightarrow> pu_origin a = pu_origin b
              | _ \<Rightarrow> False)"

section \<open>The rate limit\<close>

text \<open>
  The records of the attempts are shared: a reservation keeps a reference to its record, which the map
  may have dropped or replaced meanwhile. References are positions in a growing list of cells.
\<close>

record attempt_cell =
  ac_count :: nat
  ac_inFlight :: nat
  ac_resetAt :: int

record limiter =
  lm_cells :: "attempt_cell list"
  lm_map :: "(string \<times> nat) list"
  lm_prunedAt :: int

definition empty_limiter :: limiter where
  [js_eval]: "empty_limiter = \<lparr>lm_cells = [], lm_map = [], lm_prunedAt = 0\<rparr>"

definition reset_of :: "limiter \<Rightarrow> nat \<Rightarrow> int" where
  [js_eval]: "reset_of L a = ac_resetAt (lm_cells L ! a)"

definition pruneAttempts :: "dashboard_auth \<Rightarrow> int \<Rightarrow> limiter \<Rightarrow> limiter" where
  [js_eval]: "pruneAttempts cfg now L =
     (if int (length (lm_map L)) < dc_maxClients cfg \<and> now - lm_prunedAt L < 60000 then L
      else L\<lparr>lm_prunedAt := now, lm_map := filter (\<lambda>(k, a). now < reset_of L a) (lm_map L)\<rparr>)"

datatype reservation = Granted nat | Refused (retry_after: int) (capacity_limited: bool)

definition retry_seconds :: "int \<Rightarrow> int" where
  [js_eval]: "retry_seconds ms = max 1 ((ms + 999) div 1000)"

text \<open>A slot of the record at one address, where its failures and open checks leave one.\<close>

definition take_slot :: "dashboard_auth \<Rightarrow> int \<Rightarrow> nat \<Rightarrow> limiter \<Rightarrow> reservation \<times> limiter" where
  [js_eval]: "take_slot cfg now a L =
     (let c = lm_cells L ! a in
      if int (ac_count c + ac_inFlight c) < dc_maxAttempts cfg
      then (Granted a, L\<lparr>lm_cells := (lm_cells L)[a := c\<lparr>ac_inFlight := ac_inFlight c + 1\<rparr>]\<rparr>)
      else (Refused (retry_seconds (ac_resetAt c - now)) False, L))"

definition earliest_reset :: "dashboard_auth \<Rightarrow> int \<Rightarrow> limiter \<Rightarrow> int" where
  [js_eval]: "earliest_reset cfg now L =
     foldl (\<lambda>e (k, a). min e (reset_of L a)) (now + dc_window cfg) (lm_map L)"

definition open_window :: "dashboard_auth \<Rightarrow> string \<Rightarrow> int \<Rightarrow> limiter \<Rightarrow> reservation \<times> limiter" where
  [js_eval]: "open_window cfg key now L =
     (if dc_maxClients cfg \<le> int (length (lm_map L))
      then (Refused (retry_seconds (earliest_reset cfg now L - now)) True, L)
      else take_slot cfg now (length (lm_cells L))
             (L\<lparr>lm_cells := lm_cells L @ [\<lparr>ac_count = 0, ac_inFlight = 0, ac_resetAt = now + dc_window cfg\<rparr>],
                lm_map := assoc_put key (length (lm_cells L)) (lm_map L)\<rparr>))"

definition reserveRateLimit :: "dashboard_auth \<Rightarrow> string \<Rightarrow> int \<Rightarrow> limiter \<Rightarrow> reservation \<times> limiter" where
  [js_eval]: "reserveRateLimit cfg key now L0 =
     (let L = pruneAttempts cfg now L0 in
      case map_of (lm_map L) key of
        Some a \<Rightarrow> if now < reset_of L a then take_slot cfg now a L else open_window cfg key now L
      | None \<Rightarrow> open_window cfg key now L)"

datatype attempt_outcome = Success | Failure | Release

definition drop_key :: "string \<Rightarrow> limiter \<Rightarrow> limiter" where
  [js_eval]: "drop_key key L = L\<lparr>lm_map := filter (\<lambda>(k, a). k \<noteq> key) (lm_map L)\<rparr>"

definition completeRateLimitReservation ::
  "string \<Rightarrow> nat \<Rightarrow> attempt_outcome \<Rightarrow> limiter \<Rightarrow> limiter" where
  [js_eval]: "completeRateLimitReservation key a r L0 =
     (let c = (lm_cells L0 ! a)\<lparr>ac_inFlight := ac_inFlight (lm_cells L0 ! a) - 1\<rparr>;
          L = L0\<lparr>lm_cells := (lm_cells L0)[a := c]\<rparr> in
      if map_of (lm_map L) key \<noteq> Some a then L
      else (case r of
          Success \<Rightarrow> drop_key key L
        | Failure \<Rightarrow> L\<lparr>lm_cells := (lm_cells L)[a := c\<lparr>ac_count := ac_count c + 1\<rparr>]\<rparr>
        | Release \<Rightarrow> if ac_count c = 0 \<and> ac_inFlight c = 0 then drop_key key L else L))"

section \<open>Checking a password\<close>

text \<open>
  The derivations of one check are recorded: \<open>authenticate\<close> pads them so that a name that is not
  registered costs what a registered one does.
\<close>

datatype kdf_call = Kdf_Apr1 | Kdf_Pbkdf2 (kd_iterations: nat) (kd_length: nat)

fun credential_calls :: "credential \<Rightarrow> kdf_call list" where
  "credential_calls (Sha256_Hash e) = []"
| "credential_calls (Pbkdf2_Hash n s e) = [Kdf_Pbkdf2 n (length e)]"
| "credential_calls (Apr1_Hash s t) = [Kdf_Apr1]"

declare credential_calls.simps [js_eval]

definition dummyWorkFactor :: "dashboard_auth \<Rightarrow> nat" where
  [js_eval]: "dummyWorkFactor cfg =
     foldl max MIN_PBKDF2_ITERATIONS (map (\<lambda>(k, u). workFactor (du_credential u)) (dc_users cfg))"

definition dummySalt :: "auth_lib \<Rightarrow> byte list" where
  [js_eval]: "dummySalt lib = take 16 (al_sha256 lib (utf8 ''full-managed-bi-auth-dummy-salt''))"

definition runDummyPbkdf2 :: "auth_lib \<Rightarrow> string \<Rightarrow> nat \<Rightarrow> kdf_call list \<times> bool" where
  [js_eval]: "runDummyPbkdf2 lib password iterations =
     (if iterations = 0 then ([], True)
      else ([Kdf_Pbkdf2 iterations 32], al_pbkdf2 lib password (dummySalt lib) iterations 32 \<noteq> None))"

text \<open>The derivations that run and the verdict, \<open>None\<close> where one of them fails.\<close>

definition check_password ::
  "auth_lib \<Rightarrow> dashboard_auth \<Rightarrow> auth_user option \<Rightarrow> string \<Rightarrow> kdf_call list \<times> bool option" where
  [js_eval]: "check_password lib cfg user password =
     (case (if int (length password) \<le> dc_maxBody cfg then user else None) of
        Some u \<Rightarrow>
          let c = du_credential u; calls = credential_calls c in
          (case verify_credential lib c password of
             None \<Rightarrow> (calls, None)
           | Some matches \<Rightarrow>
               let (dummy, ok) = runDummyPbkdf2 lib password (dummyWorkFactor cfg - workFactor c)
               in (calls @ (if apr1Work c then [] else [Kdf_Apr1]) @ dummy, if ok then Some matches else None))
      | None \<Rightarrow>
          let (dummy, ok) = runDummyPbkdf2 lib password (dummyWorkFactor cfg)
          in (Kdf_Apr1 # dummy, if ok then Some False else None))"

section \<open>One sign-in\<close>

text \<open>
  \<open>authenticate\<close> runs to its first \<open>await\<close> in \<open>authenticate_begin\<close> and from the last one in
  \<open>authenticate_end\<close>; in between the check is pending and others may run. A name that cannot be converted
  to a text throws between the count of the check and the block that takes it back.
\<close>

record pending_check =
  pc_key :: string
  pc_cell :: nat
  pc_user :: "auth_user option"
  pc_password :: string
  pc_now :: int

record sign_in_state =
  si_limiter :: limiter
  si_active :: nat
  si_pending :: "pending_check list"

definition initial_sign_in :: sign_in_state where
  [js_eval]: "initial_sign_in = \<lparr>si_limiter = empty_limiter, si_active = 0, si_pending = []\<rparr>"

datatype sign_in_answer =
    RateLimited int
  | Busy int
  | WrongCredentials
  | SignedIn auth_user string
  | SignInError

definition authenticate_begin ::
  "dashboard_auth \<Rightarrow> string \<Rightarrow> jsv \<Rightarrow> jsv \<Rightarrow> int \<Rightarrow> sign_in_state \<Rightarrow> sign_in_answer option \<times> sign_in_state" where
  [js_eval]: "authenticate_begin cfg key username password now s =
     (case reserveRateLimit cfg key now (si_limiter s) of
        (Refused r cap, L) \<Rightarrow> (Some (RateLimited r), s\<lparr>si_limiter := L\<rparr>)
      | (Granted a, L) \<Rightarrow>
          if dc_maxKdfs cfg \<le> int (si_active s)
          then (Some (Busy 1), s\<lparr>si_limiter := completeRateLimitReservation key a Release L\<rparr>)
          else let s' = s\<lparr>si_limiter := L, si_active := si_active s + 1\<rparr> in
            (case string_or [] username of
               Inl e \<Rightarrow> (Some SignInError, s')
             | Inr t \<Rightarrow>
                 (None, s'\<lparr>si_pending := si_pending s @
                    [\<lparr>pc_key = key, pc_cell = a, pc_user = map_of (dc_users cfg) (js_lower (js_trim t)),
                      pc_password = (case password of JStr p \<Rightarrow> p | _ \<Rightarrow> []), pc_now = now\<rparr>]\<rparr>)))"

definition without :: "nat \<Rightarrow> 'a list \<Rightarrow> 'a list" where
  [js_eval]: "without i xs = take i xs @ drop (Suc i) xs"

definition check_verdict :: "auth_lib \<Rightarrow> dashboard_auth \<Rightarrow> pending_check \<Rightarrow> attempt_outcome \<times> sign_in_answer" where
  [js_eval]: "check_verdict lib cfg p =
     (case snd (check_password lib cfg (pc_user p) (pc_password p)) of
        None \<Rightarrow> (Release, SignInError)
      | Some matches \<Rightarrow>
          (case pc_user p of
             None \<Rightarrow> (Failure, WrongCredentials)
           | Some u \<Rightarrow> if matches then (Success, SignedIn u (session_cookie lib cfg u (pc_now p)))
                       else (Failure, WrongCredentials)))"

definition authenticate_end ::
  "auth_lib \<Rightarrow> dashboard_auth \<Rightarrow> nat \<Rightarrow> sign_in_state \<Rightarrow> sign_in_answer \<times> sign_in_state" where
  [js_eval]: "authenticate_end lib cfg i s =
     (let p = si_pending s ! i; (r, answer) = check_verdict lib cfg p in
      (answer, s\<lparr>si_limiter := completeRateLimitReservation (pc_key p) (pc_cell p) r (si_limiter s),
                 si_active := si_active s - 1, si_pending := without i (si_pending s)\<rparr>))"

end
