(* ===== verification/Dashboard_Gate.thy ===== *)
theory Dashboard_Gate
  imports Dashboard_Auth
begin

text \<open>
  The way of a request through \<open>src/server/app.mjs\<close> up to the pages: the check of the raw path, the open
  routes, the sign-in with its body, the demand for a session and an own origin, and the routes of a
  signed-in user. What follows is \<open>Pages\<close>: the read-only queries. Message texts, the security headers
  and the compression are left out.
\<close>

section \<open>Bodies\<close>

text \<open>\<open>RequestBodyError(code, message, statusCode)\<close> without its message\<close>

datatype body_error = RequestBodyError string nat

datatype body_event = BodyData "byte list" | BodyEnd | BodyFailed | BodyAborted

text \<open>
  \<open>readRequestBody\<close>: the events of the stream up to the one that settles the promise; \<open>None\<close> when none
  does. A size that is announced and too large is refused before.
\<close>

fun read_events :: "int \<Rightarrow> byte list \<Rightarrow> body_event list \<Rightarrow> (body_error + byte list) option" where
  "read_events limit received [] = None"
| "read_events limit received (BodyData chunk # es) =
     (if limit < int (length received + length chunk) then Some (Inl (RequestBodyError ''BODY_TOO_LARGE'' 413))
      else read_events limit (received @ chunk) es)"
| "read_events limit received (BodyEnd # es) = Some (Inr received)"
| "read_events limit received (BodyFailed # es) = Some (Inl (RequestBodyError ''INVALID_BODY'' 400))"
| "read_events limit received (BodyAborted # es) = Some (Inl (RequestBodyError ''INVALID_BODY'' 400))"

declare read_events.simps [js_eval]

text \<open>\<open>Number.isFinite(n) && n > limit\<close>\<close>

fun exceeds :: "jsnum \<Rightarrow> int \<Rightarrow> bool" where
  "exceeds (NInt i) limit = (limit < i)"
| "exceeds (NFrac m k) limit = (limit * 10 ^ k < m)"
| "exceeds NNaN limit = False"
| "exceeds (NInf neg) limit = False"

declare exceeds.simps [js_eval]

definition readRequestBody ::
  "web_request \<Rightarrow> int \<Rightarrow> body_event list \<Rightarrow> (body_error + byte list) option" where
  [js_eval]: "readRequestBody q limit events =
     (if exceeds (case wr_contentLength q of None \<Rightarrow> NNaN | Some t \<Rightarrow> number_of_text t) limit
      then Some (Inl (RequestBodyError ''BODY_TOO_LARGE'' 413))
      else read_events limit [] events)"

record login_body =
  lb_username :: jsv
  lb_password :: jsv
  lb_json :: bool

text \<open>\<open>form text name\<close> is \<open>new URLSearchParams(text).get(name)\<close>.\<close>

type_synonym form_reader = "string \<Rightarrow> string \<Rightarrow> string option"

definition form_value :: "string option \<Rightarrow> jsv" where
  [js_eval]: "form_value v = (case v of None \<Rightarrow> JNull | Some t \<Rightarrow> JStr t)"

definition parseLoginBody ::
  "auth_lib \<Rightarrow> form_reader \<Rightarrow> web_request \<Rightarrow> int \<Rightarrow> body_event list \<Rightarrow> (body_error + login_body) option" where
  [js_eval]: "parseLoginBody lib form q limit events =
     (case readRequestBody q limit events of
        None \<Rightarrow> None
      | Some (Inl e) \<Rightarrow> Some (Inl e)
      | Some (Inr bytes) \<Rightarrow>
          let body = al_utf8 lib bytes;
              contentType = js_lower (js_trim (takeWhile (\<lambda>c. c \<noteq> CHR '';'') (wr_contentType q))) in
          if contentType = ''application/json'' then
            (case al_json lib body of
               None \<Rightarrow> Some (Inl (RequestBodyError ''INVALID_JSON'' 400))
             | Some v \<Rightarrow> Some (Inr \<lparr>lb_username = jget v ''username'', lb_password = jget v ''password'', lb_json = True\<rparr>))
          else if contentType = ''application/x-www-form-urlencoded'' then
            Some (Inr \<lparr>lb_username = form_value (form body ''username''),
                       lb_password = form_value (form body ''password''), lb_json = False\<rparr>)
          else Some (Inl (RequestBodyError ''UNSUPPORTED_MEDIA_TYPE'' 415)))"

section \<open>Answers\<close>

datatype web_body = ErrorCode string | JsonBody jsv | LoginPage | NoBody

record web_answer =
  wa_status :: nat
  wa_body :: web_body
  wa_location :: "string option"
  wa_cookie :: "string option"
  wa_retryAfter :: "int option"

definition answer :: "nat \<Rightarrow> web_body \<Rightarrow> web_answer" where
  [js_eval]: "answer status body =
     \<lparr>wa_status = status, wa_body = body, wa_location = None, wa_cookie = None, wa_retryAfter = None\<rparr>"

definition error_json :: "nat \<Rightarrow> string \<Rightarrow> web_answer" where
  [js_eval]: "error_json status c = answer status (ErrorCode c)"

definition redirect_answer :: "string \<Rightarrow> web_answer" where
  [js_eval]: "redirect_answer l = (answer 303 NoBody)\<lparr>wa_location := Some l\<rparr>"

text \<open>\<open>text.includes(word)\<close>\<close>

definition text_includes :: "string \<Rightarrow> string \<Rightarrow> bool" where
  [js_eval]: "text_includes word t = found_in (starts_with word) t"

definition requestWantsJson :: "web_request \<Rightarrow> bool" where
  [js_eval]: "requestWantsJson q \<longleftrightarrow>
     text_includes ''application/json'' (js_lower (wr_contentType q)) \<or> text_includes ''application/json'' (js_lower (wr_accept q))"

section \<open>The raw path\<close>

text \<open>\<open>decode\<close> is \<open>decodeURIComponent\<close>, \<open>None\<close> where it throws.\<close>

fun decode_path :: "(string \<Rightarrow> string option) \<Rightarrow> nat \<Rightarrow> string \<Rightarrow> string option" where
  "decode_path decode 0 s = Some s"
| "decode_path decode (Suc n) s =
     (case decode s of None \<Rightarrow> None | Some t \<Rightarrow> if t = s then Some s else decode_path decode n t)"

declare decode_path.simps [js_eval]

definition rawPathHasTraversal :: "(string \<Rightarrow> string option) \<Rightarrow> string \<Rightarrow> bool" where
  [js_eval]: "rawPathHasTraversal decode url =
     (case decode_path decode 3 (takeWhile (\<lambda>c. c \<noteq> CHR ''?'' \<and> c \<noteq> CHR ''#'') url) of
        None \<Rightarrow> True
      | Some decoded \<Rightarrow>
          CHR 0x00 \<in> set decoded
          \<or> ''..'' \<in> set (split_on (CHR ''/'') (map (\<lambda>c. if c = CHR 0x5C then CHR ''/'' else c) decoded)))"

section \<open>The request handler\<close>

text \<open>
  What one request draws on: the primitives, the parser of origins, the path of its URL (\<open>None\<close> where
  \<open>new URL\<close> throws), the clock, the decoder, whether the data file loads and whether there are an update
  stream and a store-login service.
\<close>

record web_env =
  we_lib :: auth_lib
  we_parse :: url_parser
  we_path :: "string \<Rightarrow> string option"
  we_decode :: "string \<Rightarrow> string option"
  we_form :: form_reader
  we_now :: int
  we_ready :: "jsv option"
  we_stream :: bool
  we_storeLogin :: bool
  we_localUser :: jsv

text \<open>Where a request ends up: answered, at the sign-in, at the stream, at the store login or at the pages.\<close>

datatype routed =
    Answered web_answer
  | SignInRoute
  | UpdateStream
  | StoreLoginRoute string
  | Pages

definition read_method :: "string \<Rightarrow> bool" where
  [js_eval]: "read_method m \<longleftrightarrow> m = ''GET'' \<or> m = ''HEAD''"

definition signed_in_user :: "web_env \<Rightarrow> dashboard_auth option \<Rightarrow> web_request \<Rightarrow> jsv option" where
  [js_eval]: "signed_in_user env auth q =
     (case auth of None \<Rightarrow> None | Some cfg \<Rightarrow> authenticateRequest (we_lib env) cfg q (we_now env))"

definition same_origin :: "web_env \<Rightarrow> dashboard_auth \<Rightarrow> web_request \<Rightarrow> bool" where
  [js_eval]: "same_origin env cfg q = isSameOriginPost (we_parse env) (dc_publicOrigin cfg) (dc_trustProxy cfg) q"

text \<open>The routes in front of the session: \<open>None\<close> where the request goes on.\<close>

definition open_route :: "web_env \<Rightarrow> dashboard_auth option \<Rightarrow> web_request \<Rightarrow> string \<Rightarrow> routed option" where
  [js_eval]: "open_route env auth q path =
     (if path = ''/health'' then
        Some (Answered (if read_method (wr_method q)
          then answer 200 (JsonBody (JObj [(''status'', JStr ''ok''), (''service'', JStr ''shein-full-managed-bi''),
                                           (''readOnly'', JBool True)]))
          else error_json 405 ''METHOD_NOT_ALLOWED''))
      else if path = ''/ready'' then
        Some (Answered (if \<not> read_method (wr_method q) then error_json 405 ''METHOD_NOT_ALLOWED''
          else (case we_ready env of Some v \<Rightarrow> answer 200 (JsonBody v)
                | None \<Rightarrow> answer 503 (JsonBody (JObj [(''status'', JStr ''not_ready''),
                                                      (''service'', JStr ''shein-full-managed-bi'')])))))
      else if path = ''/login'' then
        Some (Answered (if \<not> read_method (wr_method q) then error_json 405 ''METHOD_NOT_ALLOWED''
          else if auth = None \<or> signed_in_user env auth q \<noteq> None then redirect_answer ''/'' else answer 200 LoginPage))
      else if path = ''/api/login'' then
        (case auth of
           None \<Rightarrow> Some (Answered (error_json 404 ''NOT_FOUND''))
         | Some cfg \<Rightarrow>
             if wr_method q \<noteq> ''POST'' then Some (Answered (error_json 405 ''METHOD_NOT_ALLOWED''))
             else if \<not> same_origin env cfg q then Some (Answered (error_json 403 ''CROSS_ORIGIN_REJECTED''))
             else Some SignInRoute)
      else None)"

text \<open>The demand for a session and, on a POST, for an own origin.\<close>

definition session_barrier :: "web_env \<Rightarrow> dashboard_auth option \<Rightarrow> web_request \<Rightarrow> string \<Rightarrow> web_answer option" where
  [js_eval]: "session_barrier env auth q path =
     (case auth of
        None \<Rightarrow> None
      | Some cfg \<Rightarrow>
          if signed_in_user env auth q = None then
            Some (if starts_with ''/api/'' path then error_json 401 ''AUTH_REQUIRED'' else redirect_answer ''/login'')
          else if wr_method q = ''POST'' \<and> \<not> same_origin env cfg q
          then Some (error_json 403 ''CROSS_ORIGIN_REJECTED'')
          else None)"

text \<open>\<open>/^\/api\/system\/store-login\/(status|start|finish|close)$/\<close>\<close>

definition store_login_action :: "string \<Rightarrow> string option" where
  [js_eval]: "store_login_action path =
     (let action = drop 24 path in
      if starts_with ''/api/system/store-login/'' path \<and> action \<in> set [''status'', ''start'', ''finish'', ''close'']
      then Some action else None)"

definition inner_route :: "web_env \<Rightarrow> dashboard_auth option \<Rightarrow> web_request \<Rightarrow> string \<Rightarrow> routed" where
  [js_eval]: "inner_route env auth q path =
     (let user = signed_in_user env auth q in
      if path = ''/api/events'' then
        (if wr_method q \<noteq> ''GET'' then Answered (error_json 405 ''METHOD_NOT_ALLOWED'')
         else if \<not> we_stream env then Answered (error_json 503 ''UPDATE_STREAM_UNAVAILABLE'')
         else UpdateStream)
      else if path = ''/api/logout'' then
        (case auth of
           None \<Rightarrow> Answered (error_json 404 ''NOT_FOUND'')
         | Some cfg \<Rightarrow>
             if wr_method q \<noteq> ''POST'' then Answered (error_json 405 ''METHOD_NOT_ALLOWED'')
             else Answered ((answer 200 (JsonBody (JObj [(''ok'', JBool True)])))
                              \<lparr>wa_cookie := Some (clear_session_cookie cfg)\<rparr>))
      else if path = ''/api/me'' then
        (if \<not> read_method (wr_method q) then Answered (error_json 405 ''METHOD_NOT_ALLOWED'')
         else Answered (answer 200 (JsonBody (JObj [(''user'', case user of Some u \<Rightarrow> u | None \<Rightarrow> we_localUser env)]))))
      else (case store_login_action path of
          Some action \<Rightarrow>
            if (case user of None \<Rightarrow> True | Some u \<Rightarrow> jget u ''role'' \<noteq> JStr ''admin'')
            then Answered (error_json 403 ''ADMIN_REQUIRED'')
            else if \<not> we_storeLogin env then Answered (error_json 503 ''STORE_LOGIN_UNAVAILABLE'')
            else if wr_method q \<noteq> (if action = ''status'' then ''GET'' else ''POST'')
            then Answered (error_json 405 ''METHOD_NOT_ALLOWED'')
            else StoreLoginRoute action
        | None \<Rightarrow>
            if \<not> read_method (wr_method q) then Answered (error_json 405 ''METHOD_NOT_ALLOWED'') else Pages))"

definition refreshed_cookie :: "web_env \<Rightarrow> dashboard_auth option \<Rightarrow> web_request \<Rightarrow> string \<Rightarrow> string option" where
  [js_eval]: "refreshed_cookie env auth q path =
     (case auth of
        None \<Rightarrow> None
      | Some cfg \<Rightarrow> if path = ''/api/logout'' then None else refreshCookieForRequest (we_lib env) cfg q (we_now env))"

text \<open>The cookie of the answer is the refreshed one unless the route sets its own.\<close>

definition with_cookie :: "string option \<Rightarrow> web_answer \<Rightarrow> web_answer" where
  [js_eval]: "with_cookie c a = (if wa_cookie a = None then a\<lparr>wa_cookie := c\<rparr> else a)"

text \<open>\<open>requestHandler\<close> up to the work of a route, with the cookie that is set on the way.\<close>

definition requestHandler :: "web_env \<Rightarrow> dashboard_auth option \<Rightarrow> web_request \<Rightarrow> routed \<times> string option" where
  [js_eval]: "requestHandler env auth q =
     (if rawPathHasTraversal (we_decode env) (wr_url q) then (Answered (error_json 400 ''INVALID_PATH''), None)
      else case we_path env (wr_url q) of
          None \<Rightarrow> (Answered (error_json 400 ''INVALID_URL''), None)
        | Some path \<Rightarrow>
            (case open_route env auth q path of
               Some r \<Rightarrow> (r, None)
             | None \<Rightarrow>
                 (case session_barrier env auth q path of
                    Some a \<Rightarrow> (Answered a, None)
                  | None \<Rightarrow>
                      let cookie = refreshed_cookie env auth q path in
                      (case inner_route env auth q path of
                         Answered a \<Rightarrow> (Answered (with_cookie cookie a), cookie)
                       | r \<Rightarrow> (r, cookie)))))"

section \<open>The sign-in route\<close>

definition sign_in_response :: "web_request \<Rightarrow> login_body \<Rightarrow> sign_in_answer \<Rightarrow> web_answer" where
  [js_eval]: "sign_in_response q body r =
     (let json = (lb_json body \<or> requestWantsJson q) in
      case r of
        Busy s \<Rightarrow> (error_json 503 ''AUTH_BUSY'')\<lparr>wa_retryAfter := Some s\<rparr>
      | RateLimited s \<Rightarrow> (error_json 429 ''LOGIN_RATE_LIMITED'')\<lparr>wa_retryAfter := Some s\<rparr>
      | WrongCredentials \<Rightarrow> if json then error_json 401 ''INVALID_CREDENTIALS'' else answer 401 LoginPage
      | SignedIn u cookie \<Rightarrow>
          (if json then answer 200 (JsonBody (JObj [(''ok'', JBool True), (''user'', publicUser u)])) else redirect_answer ''/'')
            \<lparr>wa_cookie := Some cookie\<rparr>
      | SignInError \<Rightarrow> error_json 500 ''AUTH_UNAVAILABLE'')"

text \<open>
  The route from the body to the first \<open>await\<close> of the check: an answer, or the body with which the check
  goes on; \<open>None\<close> while the body does not end.
\<close>

definition sign_in_begin ::
  "web_env \<Rightarrow> dashboard_auth \<Rightarrow> web_request \<Rightarrow> body_event list \<Rightarrow> sign_in_state
     \<Rightarrow> ((web_answer + login_body) \<times> sign_in_state) option" where
  [js_eval]: "sign_in_begin env cfg q events s =
     (case parseLoginBody (we_lib env) (we_form env) q (dc_maxBody cfg) events of
        None \<Rightarrow> None
      | Some (Inl (RequestBodyError c status)) \<Rightarrow> Some (Inl (error_json status c), s)
      | Some (Inr body) \<Rightarrow>
          (case authenticate_begin cfg (clientKey (dc_trustProxy cfg) q) (lb_username body) (lb_password body)
                  (we_now env) s of
             (Some r, s') \<Rightarrow> Some (Inl (sign_in_response q body r), s')
           | (None, s') \<Rightarrow> Some (Inr body, s')))"

definition sign_in_end ::
  "web_env \<Rightarrow> dashboard_auth \<Rightarrow> web_request \<Rightarrow> login_body \<Rightarrow> nat \<Rightarrow> sign_in_state \<Rightarrow> web_answer \<times> sign_in_state" where
  [js_eval]: "sign_in_end env cfg q body i s =
     (case authenticate_end (we_lib env) cfg i s of (r, s') \<Rightarrow> (sign_in_response q body r, s'))"

end
