(* ===== verification/Dashboard_Auth_Properties.thy ===== *)
theory Dashboard_Auth_Properties
  imports Dashboard_Gate
begin

text \<open>
  What the rate limit of the sign-in guarantees, over every interleaving of attempts and verdicts: the
  bounds on open checks and on failures, what a refused client is told, and what an unreadable name
  leaves behind.
\<close>

section \<open>Runs of the sign-in\<close>

text \<open>
  A run is a sequence of attempts, whose times do not decrease, and of verdicts on pending checks in any
  order.
\<close>

datatype sign_in_event =
    Began string int "sign_in_answer option"
  | Settled pending_check attempt_outcome sign_in_answer

inductive sign_in_run :: "auth_lib \<Rightarrow> dashboard_auth \<Rightarrow> int \<Rightarrow> sign_in_event list \<Rightarrow> sign_in_state \<Rightarrow> bool"
  for lib cfg where
  start: "sign_in_run lib cfg t [] initial_sign_in"
| attempt: "\<lbrakk>sign_in_run lib cfg t es s; t \<le> now; authenticate_begin cfg key username password now s = (r, s')\<rbrakk>
     \<Longrightarrow> sign_in_run lib cfg now (es @ [Began key now r]) s'"
| verdict: "\<lbrakk>sign_in_run lib cfg t es s; i < length (si_pending s);
      check_verdict lib cfg (si_pending s ! i) = (x, r); authenticate_end lib cfg i s = (r, s')\<rbrakk>
     \<Longrightarrow> sign_in_run lib cfg t (es @ [Settled (si_pending s ! i) x r]) s'"

fun failed_check :: "sign_in_event \<Rightarrow> pending_check list" where
  "failed_check (Settled p Failure r) = [p]"
| "failed_check _ = []"

fun succeeded_key :: "sign_in_event \<Rightarrow> string list" where
  "succeeded_key (Settled p Success r) = [pc_key p]"
| "succeeded_key _ = []"

fun leaks :: "sign_in_event \<Rightarrow> bool" where
  "leaks (Began k t (Some SignInError)) = True"
| "leaks _ = False"

definition failed_checks :: "sign_in_event list \<Rightarrow> pending_check list" where
  "failed_checks es = concat (map failed_check es)"

definition succeeded_keys :: "sign_in_event list \<Rightarrow> string list" where
  "succeeded_keys es = concat (map succeeded_key es)"

definition leaked_checks :: "sign_in_event list \<Rightarrow> nat" where
  "leaked_checks es = length (filter leaks es)"

lemma log_simps [simp]:
  "failed_checks [] = []" "failed_checks (es @ [e]) = failed_checks es @ failed_check e"
  "succeeded_keys [] = []" "succeeded_keys (es @ [e]) = succeeded_keys es @ succeeded_key e"
  "leaked_checks [] = 0" "leaked_checks (es @ [e]) = leaked_checks es + (if leaks e then 1 else 0)"
  by (simp_all add: failed_checks_def succeeded_keys_def leaked_checks_def)

text \<open>The contract of an invariant of runs, and what follows from it.\<close>

locale sign_in_invariant =
  fixes lib :: auth_lib and cfg :: dashboard_auth
    and inv :: "int \<Rightarrow> sign_in_event list \<Rightarrow> sign_in_state \<Rightarrow> bool"
  assumes inv_start: "inv t [] initial_sign_in"
    and inv_attempt: "\<lbrakk>inv t es s; t \<le> now; authenticate_begin cfg key username password now s = (r, s')\<rbrakk>
      \<Longrightarrow> inv now (es @ [Began key now r]) s'"
    and inv_verdict: "\<lbrakk>inv t es s; i < length (si_pending s); check_verdict lib cfg (si_pending s ! i) = (x, v);
      authenticate_end lib cfg i s = (v, s')\<rbrakk> \<Longrightarrow> inv t (es @ [Settled (si_pending s ! i) x v]) s'"
begin

lemma holds: "sign_in_run lib cfg t es s \<Longrightarrow> inv t es s"
  by (induction rule: sign_in_run.induct) (auto intro: inv_start inv_attempt inv_verdict)

end

section \<open>The invariant of the limiter\<close>

text \<open>The records of one cell in a multiset of checks.\<close>

definition checks_at :: "nat \<Rightarrow> pending_check multiset \<Rightarrow> nat" where
  "checks_at a M = size (filter_mset (\<lambda>p. pc_cell p = a) M)"

lemma checks_at_simps [simp]:
  "checks_at a {#} = 0"
  "checks_at a (add_mset p M) = (if pc_cell p = a then 1 else 0) + checks_at a M"
  "checks_at a (M + N) = checks_at a M + checks_at a N"
  by (simp_all add: checks_at_def)

lemma checks_at_none: "(\<And>p. p \<in># M \<Longrightarrow> pc_cell p \<noteq> a) \<Longrightarrow> checks_at a M = 0"
  by (simp add: checks_at_def filter_mset_eq_conv)

lemma checks_at_zeroD: "checks_at a M = 0 \<Longrightarrow> p \<in># M \<Longrightarrow> pc_cell p \<noteq> a"
  by (auto simp: checks_at_def filter_mset_eq_conv)

abbreviation cell_of :: "limiter \<Rightarrow> nat \<Rightarrow> attempt_cell" where
  "cell_of L a \<equiv> lm_cells L ! a"

abbreviation entry :: "limiter \<Rightarrow> string \<Rightarrow> nat option" where
  "entry L k \<equiv> map_of (lm_map L) k"

text \<open>
  \<open>F\<close> are the failed checks, \<open>P\<close> the pending ones, \<open>S\<close> the clients that have signed in, \<open>t\<close> the time of
  the last attempt. First what holds of map and cells, then of the checks, then of their windows.
\<close>

definition map_ok :: "dashboard_auth \<Rightarrow> int \<Rightarrow> limiter \<Rightarrow> bool" where
  "map_ok cfg t L \<longleftrightarrow>
     distinct (map fst (lm_map L)) \<and> int (length (lm_map L)) \<le> dc_maxClients cfg
     \<and> (\<forall>k a. entry L k = Some a \<longrightarrow> a < length (lm_cells L) \<and> (\<forall>k'. entry L k' = Some a \<longrightarrow> k' = k))
     \<and> (\<forall>a < length (lm_cells L).
          int (ac_count (cell_of L a) + ac_inFlight (cell_of L a)) \<le> dc_maxAttempts cfg
          \<and> reset_of L a \<le> t + dc_window cfg)"

definition counts_ok :: "dashboard_auth \<Rightarrow> pending_check multiset \<Rightarrow> pending_check multiset \<Rightarrow> limiter \<Rightarrow> bool" where
  "counts_ok cfg F P L \<longleftrightarrow>
     (\<forall>a < length (lm_cells L). checks_at a P \<le> ac_inFlight (cell_of L a)
        \<and> int (checks_at a F + checks_at a P) \<le> dc_maxAttempts cfg)
     \<and> (\<forall>k a. entry L k = Some a \<longrightarrow>
          checks_at a F + checks_at a P \<le> ac_count (cell_of L a) + ac_inFlight (cell_of L a))"

definition located_ok :: "dashboard_auth \<Rightarrow> pending_check set \<Rightarrow> limiter \<Rightarrow> bool" where
  "located_ok cfg R L \<longleftrightarrow>
     (\<forall>p\<in>R. pc_cell p < length (lm_cells L)
        \<and> reset_of L (pc_cell p) - dc_window cfg \<le> pc_now p \<and> pc_now p < reset_of L (pc_cell p)
        \<and> (\<forall>k a. entry L k = Some a \<longrightarrow> (pc_cell p = a \<longrightarrow> pc_key p = k) \<and> (pc_key p = k \<longrightarrow> pc_cell p \<le> a)))"

definition windows_ok :: "dashboard_auth \<Rightarrow> int \<Rightarrow> string set \<Rightarrow> pending_check set \<Rightarrow> limiter \<Rightarrow> bool" where
  "windows_ok cfg t S R L \<longleftrightarrow>
     (\<forall>p\<in>R. pc_key p \<notin> S \<longrightarrow>
        (entry L (pc_key p) = Some (pc_cell p) \<or> reset_of L (pc_cell p) \<le> t)
        \<and> (\<forall>a. entry L (pc_key p) = Some a \<longrightarrow> pc_cell p \<noteq> a \<longrightarrow>
             reset_of L (pc_cell p) \<le> reset_of L a - dc_window cfg)
        \<and> (\<forall>q\<in>R. pc_key q = pc_key p \<longrightarrow> pc_cell p < pc_cell q \<longrightarrow>
             reset_of L (pc_cell p) \<le> reset_of L (pc_cell q) - dc_window cfg))"

definition limiter_ok ::
  "dashboard_auth \<Rightarrow> int \<Rightarrow> string set \<Rightarrow> pending_check multiset \<Rightarrow> pending_check multiset \<Rightarrow> limiter \<Rightarrow> bool" where
  "limiter_ok cfg t S F P L \<longleftrightarrow>
     map_ok cfg t L \<and> counts_ok cfg F P L \<and> located_ok cfg (set_mset (F + P)) L
     \<and> windows_ok cfg t S (set_mset (F + P)) L"

lemma map_okI:
  assumes "distinct (map fst (lm_map L))" "int (length (lm_map L)) \<le> dc_maxClients cfg"
    "\<And>k a. entry L k = Some a \<Longrightarrow> a < length (lm_cells L)"
    "\<And>a. a < length (lm_cells L) \<Longrightarrow> int (ac_count (cell_of L a) + ac_inFlight (cell_of L a)) \<le> dc_maxAttempts cfg"
    "\<And>a. a < length (lm_cells L) \<Longrightarrow> reset_of L a \<le> t + dc_window cfg"
    "\<And>k k' a. entry L k = Some a \<Longrightarrow> entry L k' = Some a \<Longrightarrow> k' = k"
  shows "map_ok cfg t L"
  using assms unfolding map_ok_def by blast

lemma map_okD:
  assumes "map_ok cfg t L"
  shows "distinct (map fst (lm_map L))" "int (length (lm_map L)) \<le> dc_maxClients cfg"
    "entry L k = Some a \<Longrightarrow> a < length (lm_cells L)"
    "a < length (lm_cells L) \<Longrightarrow> int (ac_count (cell_of L a) + ac_inFlight (cell_of L a)) \<le> dc_maxAttempts cfg"
    "a < length (lm_cells L) \<Longrightarrow> reset_of L a \<le> t + dc_window cfg"
    "entry L k = Some a \<Longrightarrow> entry L k' = Some a \<Longrightarrow> k' = k"
  using assms by (simp_all add: map_ok_def)

lemma counts_okI:
  assumes "\<And>a. a < length (lm_cells L) \<Longrightarrow> checks_at a P \<le> ac_inFlight (cell_of L a)"
    "\<And>a. a < length (lm_cells L) \<Longrightarrow> int (checks_at a F + checks_at a P) \<le> dc_maxAttempts cfg"
    "\<And>k a. entry L k = Some a \<Longrightarrow> checks_at a F + checks_at a P \<le> ac_count (cell_of L a) + ac_inFlight (cell_of L a)"
  shows "counts_ok cfg F P L"
  using assms by (simp add: counts_ok_def)

lemma counts_okD:
  assumes "counts_ok cfg F P L"
  shows "a < length (lm_cells L) \<Longrightarrow> checks_at a P \<le> ac_inFlight (cell_of L a)"
    "a < length (lm_cells L) \<Longrightarrow> int (checks_at a F + checks_at a P) \<le> dc_maxAttempts cfg"
    "entry L k = Some a \<Longrightarrow> checks_at a F + checks_at a P \<le> ac_count (cell_of L a) + ac_inFlight (cell_of L a)"
  using assms by (auto simp: counts_ok_def)

lemma located_okI:
  assumes "\<And>p. p \<in> R \<Longrightarrow> pc_cell p < length (lm_cells L)"
    "\<And>p. p \<in> R \<Longrightarrow> reset_of L (pc_cell p) - dc_window cfg \<le> pc_now p \<and> pc_now p < reset_of L (pc_cell p)"
    "\<And>p k. p \<in> R \<Longrightarrow> entry L k = Some (pc_cell p) \<Longrightarrow> pc_key p = k"
    "\<And>p a. p \<in> R \<Longrightarrow> entry L (pc_key p) = Some a \<Longrightarrow> pc_cell p \<le> a"
  shows "located_ok cfg R L"
  using assms by (auto simp: located_ok_def)

lemma located_okD:
  assumes "located_ok cfg R L" "p \<in> R"
  shows "pc_cell p < length (lm_cells L)"
    "reset_of L (pc_cell p) - dc_window cfg \<le> pc_now p" "pc_now p < reset_of L (pc_cell p)"
    "entry L k = Some (pc_cell p) \<Longrightarrow> pc_key p = k"
    "entry L (pc_key p) = Some a \<Longrightarrow> pc_cell p \<le> a"
  using assms by (auto simp: located_ok_def)

lemma windows_okI:
  assumes "\<And>p. p \<in> R \<Longrightarrow> pc_key p \<notin> S \<Longrightarrow> entry L (pc_key p) = Some (pc_cell p) \<or> reset_of L (pc_cell p) \<le> t"
    "\<And>p a. p \<in> R \<Longrightarrow> pc_key p \<notin> S \<Longrightarrow> entry L (pc_key p) = Some a \<Longrightarrow> pc_cell p \<noteq> a \<Longrightarrow>
       reset_of L (pc_cell p) \<le> reset_of L a - dc_window cfg"
    "\<And>p q. p \<in> R \<Longrightarrow> q \<in> R \<Longrightarrow> pc_key p \<notin> S \<Longrightarrow> pc_key q = pc_key p \<Longrightarrow> pc_cell p < pc_cell q \<Longrightarrow>
       reset_of L (pc_cell p) \<le> reset_of L (pc_cell q) - dc_window cfg"
  shows "windows_ok cfg t S R L"
  using assms unfolding windows_ok_def by blast

lemma windows_okD:
  assumes "windows_ok cfg t S R L" "p \<in> R" "pc_key p \<notin> S"
  shows "entry L (pc_key p) = Some (pc_cell p) \<or> reset_of L (pc_cell p) \<le> t"
    "entry L (pc_key p) = Some a \<Longrightarrow> pc_cell p \<noteq> a \<Longrightarrow> reset_of L (pc_cell p) \<le> reset_of L a - dc_window cfg"
    "q \<in> R \<Longrightarrow> pc_key q = pc_key p \<Longrightarrow> pc_cell p < pc_cell q \<Longrightarrow>
       reset_of L (pc_cell p) \<le> reset_of L (pc_cell q) - dc_window cfg"
  using assms unfolding windows_ok_def by blast+

lemma limiter_okD:
  assumes "limiter_ok cfg t S F P L"
  shows "map_ok cfg t L" "counts_ok cfg F P L" "located_ok cfg (set_mset (F + P)) L"
    "windows_ok cfg t S (set_mset (F + P)) L"
  using assms by (simp_all add: limiter_ok_def)

lemma counts_ok_fewer:
  assumes "counts_ok cfg F P L" "\<And>a. checks_at a P' \<le> checks_at a P" "\<And>a. checks_at a F' + checks_at a P' \<le> checks_at a F + checks_at a P"
  shows "counts_ok cfg F' P' L"
proof (rule counts_okI)
  fix a assume a: "a < length (lm_cells L)"
  show "checks_at a P' \<le> ac_inFlight (cell_of L a)"
    using counts_okD(1)[OF assms(1) a] assms(2)[of a] by linarith
  show "int (checks_at a F' + checks_at a P') \<le> dc_maxAttempts cfg"
    using counts_okD(2)[OF assms(1) a] assms(3)[of a] by linarith
next
  fix k a assume "entry L k = Some a"
  then show "checks_at a F' + checks_at a P' \<le> ac_count (cell_of L a) + ac_inFlight (cell_of L a)"
    using counts_okD(3)[OF assms(1)] assms(3)[of a] le_trans by blast
qed

lemma located_ok_subset: "located_ok cfg R L \<Longrightarrow> R' \<subseteq> R \<Longrightarrow> located_ok cfg R' L"
  unfolding located_ok_def by blast

lemma windows_ok_subset: "windows_ok cfg t S R L \<Longrightarrow> R' \<subseteq> R \<Longrightarrow> S \<subseteq> S' \<Longrightarrow> windows_ok cfg t S' R' L"
  unfolding windows_ok_def by (meson in_mono)

lemma limiter_ok_forget:
  assumes "limiter_ok cfg t S F (add_mset p P) L" shows "limiter_ok cfg t S F P L"
  using assms unfolding limiter_ok_def
  by (auto elim!: counts_ok_fewer elim: located_ok_subset windows_ok_subset)

lemma map_of_filter_iff:
  "distinct (map fst m) \<Longrightarrow> map_of (filter P m) k = Some a \<longleftrightarrow> map_of m k = Some a \<and> P (k, a)"
  by (induction m) (auto simp: map_of_eq_None_iff rev_image_eqI)

lemma distinct_filter_keys: "distinct (map fst m) \<Longrightarrow> distinct (map fst (filter P m))"
  by (simp add: distinct_map_filter)

text \<open>Dropping entries of the map: only the first window condition has to be seen to.\<close>

lemma limiter_ok_drop:
  assumes ok: "limiter_ok cfg t S F P L" and t: "t \<le> t'" and S: "S \<subseteq> S'"
    and kept: "\<And>p. \<lbrakk>p \<in># F + P; pc_key p \<notin> S'; entry L (pc_key p) = Some (pc_cell p)\<rbrakk>
      \<Longrightarrow> Q (pc_key p, pc_cell p) \<or> reset_of L (pc_cell p) \<le> t'"
    and L': "lm_cells L' = lm_cells L" "lm_map L' = filter Q (lm_map L)"
  shows "limiter_ok cfg t' S' F P L'"
proof -
  note ok = limiter_okD[OF ok]
  have d: "distinct (map fst (lm_map L))" using map_okD(1)[OF ok(1)] .
  have e: "entry L' k = Some a \<longleftrightarrow> entry L k = Some a \<and> Q (k, a)" for k a
    by (simp add: L' map_of_filter_iff[OF d])
  have r: "reset_of L' = reset_of L" by (simp add: fun_eq_iff reset_of_def L')
  have len: "length (lm_map L') \<le> length (lm_map L)" by (simp add: L')
  have "map_ok cfg t' L'"
  proof (rule map_okI)
    show "distinct (map fst (lm_map L'))" by (simp add: L' distinct_filter_keys[OF d])
    show "int (length (lm_map L')) \<le> dc_maxClients cfg" using map_okD(2)[OF ok(1)] len by linarith
    show "reset_of L' a \<le> t' + dc_window cfg" if "a < length (lm_cells L')" for a
      using map_okD(5)[OF ok(1)] that t by (simp add: r L') (meson add_right_mono order_trans)
  qed (use map_okD(3,4,6)[OF ok(1)] in \<open>auto simp: e L'(1)\<close>)
  moreover have "counts_ok cfg F P L'"
    by (rule counts_okI) (use counts_okD[OF ok(2)] in \<open>auto simp: e L'(1)\<close>)
  moreover have "located_ok cfg (set_mset (F + P)) L'"
    by (rule located_okI) (use located_okD[OF ok(3)] in \<open>auto simp: e r L'(1)\<close>)
  moreover have "windows_ok cfg t' S' (set_mset (F + P)) L'"
  proof (rule windows_okI)
    fix p assume p: "p \<in># F + P" "pc_key p \<notin> S'"
    then have "pc_key p \<notin> S" using S by blast
    from windows_okD(1)[OF ok(4) p(1) this] kept[OF p] t
    show "entry L' (pc_key p) = Some (pc_cell p) \<or> reset_of L' (pc_cell p) \<le> t'"
      by (auto simp: e r)
  next
    fix p a assume p: "p \<in># F + P" "pc_key p \<notin> S'" and a: "entry L' (pc_key p) = Some a" "pc_cell p \<noteq> a"
    then show "reset_of L' (pc_cell p) \<le> reset_of L' a - dc_window cfg"
      using windows_okD(2)[OF ok(4) p(1)] S by (auto simp: e r)
  next
    fix p q assume p: "p \<in># F + P" "q \<in># F + P" "pc_key p \<notin> S'" "pc_key q = pc_key p" "pc_cell p < pc_cell q"
    then show "reset_of L' (pc_cell p) \<le> reset_of L' (pc_cell q) - dc_window cfg"
      using windows_okD(3)[OF ok(4) p(1) _ p(2)] S by (auto simp: r)
  qed
  ultimately show ?thesis by (simp add: limiter_ok_def)
qed

lemma limiter_ok_prune:
  assumes "limiter_ok cfg t S F P L" "t \<le> now"
  shows "limiter_ok cfg now S F P (pruneAttempts cfg now L)"
proof (cases "int (length (lm_map L)) < dc_maxClients cfg \<and> now - lm_prunedAt L < 60000")
  case True
  show ?thesis
    by (rule limiter_ok_drop[OF assms, where Q = "\<lambda>_. True"]) (use True in \<open>auto simp: pruneAttempts_def\<close>)
next
  case False
  show ?thesis
    by (rule limiter_ok_drop[OF assms, where Q = "\<lambda>(k, a). now < reset_of L a"])
      (use False in \<open>auto simp: pruneAttempts_def\<close>)
qed

text \<open>A slot taken for a check of the client whose current record it is.\<close>

lemma limiter_ok_slot:
  assumes ok: "limiter_ok cfg now S F P L"
    and a: "entry L (pc_key p) = Some a" "now < reset_of L a" "pc_cell p = a" "pc_now p = now"
    and g: "take_slot cfg now a L = (Granted b, L')"
  shows "b = a \<and> limiter_ok cfg now S F (add_mset p P) L'"
proof -
  note ok = limiter_okD[OF ok]
  let ?c = "cell_of L a"
  have room: "int (ac_count ?c + ac_inFlight ?c) < dc_maxAttempts cfg" and b: "b = a"
    and L': "L' = L\<lparr>lm_cells := (lm_cells L)[a := ?c\<lparr>ac_inFlight := ac_inFlight ?c + 1\<rparr>]\<rparr>"
    using g by (auto simp: take_slot_def Let_def split: if_splits)
  have al: "a < length (lm_cells L)" using map_okD(3)[OF ok(1) a(1)] .
  have m: "lm_map L' = lm_map L" "length (lm_cells L') = length (lm_cells L)" by (simp_all add: L')
  have c: "cell_of L' x = (if x = a then ?c\<lparr>ac_inFlight := ac_inFlight ?c + 1\<rparr> else cell_of L x)" for x
    using al by (simp add: L')
  have r: "reset_of L' = reset_of L" by (auto simp: fun_eq_iff reset_of_def c)
  have key: "pc_key p = k" if "entry L k = Some a" for k using map_okD(6)[OF ok(1) that a(1)] .
  have "map_ok cfg now L'"
    by (rule map_okI) (use map_okD[OF ok(1)] room in \<open>auto simp: m r c\<close>)
  moreover have "counts_ok cfg F (add_mset p P) L'"
  proof (rule counts_okI)
    fix x assume "x < length (lm_cells L')"
    then have x: "x < length (lm_cells L)" by (simp add: m)
    show "checks_at x (add_mset p P) \<le> ac_inFlight (cell_of L' x)"
      using counts_okD(1)[OF ok(2) x] a(3) by (auto simp: c)
    show "int (checks_at x F + checks_at x (add_mset p P)) \<le> dc_maxAttempts cfg"
      using counts_okD(2)[OF ok(2) x] counts_okD(3)[OF ok(2) a(1)] room a(3) by (auto simp: c)
  qed (use counts_okD(3)[OF ok(2)] a(3) in \<open>auto simp: m c\<close>)
  moreover have "located_ok cfg (insert p (set_mset (F + P))) L'"
  proof (rule located_okI)
    fix q assume "q \<in> insert p (set_mset (F + P))"
    then consider "q = p" | "q \<in># F + P" by blast
    note cs = this
    show "pc_cell q < length (lm_cells L')" by (rule cs) (use al a located_okD(1)[OF ok(3)] in \<open>simp_all add: m\<close>)
    show "reset_of L' (pc_cell q) - dc_window cfg \<le> pc_now q \<and> pc_now q < reset_of L' (pc_cell q)"
      by (rule cs) (use map_okD(5)[OF ok(1) al] a located_okD(2,3)[OF ok(3)] in \<open>simp_all add: r\<close>)
    show "pc_key q = k" if "entry L' k = Some (pc_cell q)" for k
      by (rule cs) (use that key a(3) located_okD(4)[OF ok(3)] in \<open>simp_all add: m\<close>)
    show "pc_cell q \<le> x" if "entry L' (pc_key q) = Some x" for x
      by (rule cs) (use that a located_okD(5)[OF ok(3)] in \<open>simp_all add: m\<close>)
  qed
  moreover have "windows_ok cfg now S (insert p (set_mset (F + P))) L'"
  proof (rule windows_okI)
    fix q assume q: "q \<in> insert p (set_mset (F + P))" "pc_key q \<notin> S"
    then consider "q = p" | "q \<in># F + P" by blast
    note cs = this
    show "entry L' (pc_key q) = Some (pc_cell q) \<or> reset_of L' (pc_cell q) \<le> now"
      by (rule cs) (use a windows_okD(1)[OF ok(4) _ q(2)] in \<open>simp_all add: m r\<close>)
    show "reset_of L' (pc_cell q) \<le> reset_of L' x - dc_window cfg"
      if "entry L' (pc_key q) = Some x" "pc_cell q \<noteq> x" for x
      by (rule cs) (use that a windows_okD(2)[OF ok(4) _ q(2)] in \<open>simp_all add: m r\<close>)
    show "reset_of L' (pc_cell q) \<le> reset_of L' (pc_cell q') - dc_window cfg"
      if q': "q' \<in> insert p (set_mset (F + P))" and k: "pc_key q' = pc_key q" "pc_cell q < pc_cell q'" for q'
    proof (rule cs)
      assume [simp]: "q = p"
      have "q' \<in># F + P" using q' k by auto
      then have "pc_cell q' \<le> a" by (rule located_okD(5)[OF ok(3)]) (use k a in simp)
      then show ?thesis using k a by simp
    next
      assume old: "q \<in># F + P"
      show ?thesis
      proof (cases "q' = p")
        case True
        then show ?thesis using windows_okD(2)[OF ok(4) old q(2), of a] k a by (simp add: r)
      next
        case False
        then show ?thesis using windows_okD(3)[OF ok(4) old q(2), of q'] q' k by (simp add: r)
      qed
    qed
  qed
  ultimately show ?thesis by (simp add: limiter_ok_def b)
qed

text \<open>A new record for a client without a current one.\<close>

lemma length_assoc_put: "length (assoc_put k v m) \<le> Suc (length m)"
  by (induction m) auto

lemma limiter_ok_fresh:
  assumes ok: "limiter_ok cfg now S F P L"
    and room: "int (length (lm_map L)) < dc_maxClients cfg" and w: "0 \<le> dc_maxAttempts cfg"
    and none: "\<And>a. entry L key = Some a \<Longrightarrow> reset_of L a \<le> now"
    and L': "L' = L\<lparr>lm_cells := lm_cells L @ [\<lparr>ac_count = 0, ac_inFlight = 0, ac_resetAt = now + dc_window cfg\<rparr>],
                     lm_map := assoc_put key (length (lm_cells L)) (lm_map L)\<rparr>"
  shows "limiter_ok cfg now S F P L'"
proof -
  note ok = limiter_okD[OF ok]
  let ?n = "length (lm_cells L)"
  have len: "length (lm_cells L') = Suc ?n" by (simp add: L')
  have e: "entry L' k = (if k = key then Some ?n else entry L k)" for k by (simp add: L')
  have c: "cell_of L' x = (if x < ?n then cell_of L x else \<lparr>ac_count = 0, ac_inFlight = 0, ac_resetAt = now + dc_window cfg\<rparr>)"
    if "x \<le> ?n" for x using that by (auto simp: L' nth_append)
  have r: "reset_of L' x = (if x < ?n then reset_of L x else now + dc_window cfg)" if "x \<le> ?n" for x
    using c[OF that] by (simp add: reset_of_def)
  have old: "pc_cell p < ?n" if "p \<in># F + P" for p using located_okD(1)[OF ok(3) that] .
  have "p \<in># F \<Longrightarrow> pc_cell p \<noteq> ?n" "p \<in># P \<Longrightarrow> pc_cell p \<noteq> ?n" for p using old[of p] by auto
  then have zero: "checks_at ?n F = 0" "checks_at ?n P = 0" by (auto intro: checks_at_none)
  have lt: "a < ?n" if "entry L k = Some a" for k a using map_okD(3)[OF ok(1) that] .
  have "map_ok cfg now L'"
  proof (rule map_okI)
    show "distinct (map fst (lm_map L'))" using map_okD(1)[OF ok(1)] by (simp add: L' distinct_assoc_put)
    show "int (length (lm_map L')) \<le> dc_maxClients cfg"
      using length_assoc_put[of key ?n "lm_map L"] room by (simp add: L')
    show "a < length (lm_cells L')" if "entry L' k = Some a" for k a
      using that lt[of k a] by (simp add: e len split: if_splits)
    show "k' = k" if "entry L' k = Some a" "entry L' k' = Some a" for k k' a
      using that map_okD(6)[OF ok(1), of k a k'] lt[of k a] lt[of k' a] by (auto simp: e split: if_splits)
    fix a assume "a < length (lm_cells L')"
    then have a: "a \<le> ?n" by (simp add: len)
    show "int (ac_count (cell_of L' a) + ac_inFlight (cell_of L' a)) \<le> dc_maxAttempts cfg"
      using map_okD(4)[OF ok(1)] w by (simp add: c[OF a])
    show "reset_of L' a \<le> now + dc_window cfg" using map_okD(5)[OF ok(1)] by (simp add: r[OF a])
  qed
  moreover have "counts_ok cfg F P L'"
  proof (rule counts_okI)
    fix a assume "a < length (lm_cells L')"
    then consider "a < ?n" | "a = ?n" unfolding len by linarith
    note cs = this
    show "checks_at a P \<le> ac_inFlight (cell_of L' a)"
      by (rule cs) (use counts_okD(1)[OF ok(2)] zero in \<open>simp_all add: c\<close>)
    show "int (checks_at a F + checks_at a P) \<le> dc_maxAttempts cfg"
      by (rule cs) (use counts_okD(2)[OF ok(2)] zero w in simp_all)
  next
    fix k a assume a: "entry L' k = Some a"
    show "checks_at a F + checks_at a P \<le> ac_count (cell_of L' a) + ac_inFlight (cell_of L' a)"
    proof (cases "k = key")
      case True
      then show ?thesis using a zero by (simp add: e)
    next
      case False
      then have "entry L k = Some a" using a by (simp add: e)
      then show ?thesis using counts_okD(3)[OF ok(2)] lt[of k a] by (simp add: c)
    qed
  qed
  moreover have "located_ok cfg (set_mset (F + P)) L'"
  proof (rule located_okI)
    fix p assume p: "p \<in># F + P"
    note o = old[OF p]
    show "pc_cell p < length (lm_cells L')" using o by (simp add: len)
    show "reset_of L' (pc_cell p) - dc_window cfg \<le> pc_now p \<and> pc_now p < reset_of L' (pc_cell p)"
      using located_okD(2,3)[OF ok(3) p] o by (simp add: r)
    show "pc_key p = k" if "entry L' k = Some (pc_cell p)" for k
      using that located_okD(4)[OF ok(3) p] o by (auto simp: e split: if_splits)
    show "pc_cell p \<le> a" if "entry L' (pc_key p) = Some a" for a
      using that located_okD(5)[OF ok(3) p] o by (auto simp: e split: if_splits)
  qed
  moreover have "windows_ok cfg now S (set_mset (F + P)) L'"
  proof (rule windows_okI)
    fix p assume p: "p \<in># F + P" "pc_key p \<notin> S"
    note o = old[OF p(1)] and w = windows_okD[OF ok(4) p]
    have past: "reset_of L (pc_cell p) \<le> now" if "pc_key p = key" using w(1) none that by auto
    show "entry L' (pc_key p) = Some (pc_cell p) \<or> reset_of L' (pc_cell p) \<le> now"
      using w(1) past o by (auto simp: e r)
    show "reset_of L' (pc_cell p) \<le> reset_of L' a - dc_window cfg"
      if "entry L' (pc_key p) = Some a" "pc_cell p \<noteq> a" for a
      using that w(2)[of a] past o lt[of "pc_key p" a] by (auto simp: e r split: if_splits)
    show "reset_of L' (pc_cell p) \<le> reset_of L' (pc_cell q) - dc_window cfg"
      if "q \<in># F + P" "pc_key q = pc_key p" "pc_cell p < pc_cell q" for q
      using w(3)[OF that] old[OF that(1)] o by (simp add: r)
  qed
  ultimately show ?thesis by (simp add: limiter_ok_def)
qed

definition limits_positive :: "dashboard_auth \<Rightarrow> bool" where
  "limits_positive cfg \<longleftrightarrow> 0 < dc_window cfg \<and> 0 < dc_maxAttempts cfg \<and> 0 < dc_maxClients cfg \<and> 0 < dc_maxKdfs cfg"

lemma take_slot_refused: "take_slot cfg now a L = (Refused r c, L') \<Longrightarrow> L' = L"
  by (auto simp: take_slot_def Let_def split: if_splits)

lemma limiter_ok_open:
  assumes ok: "limiter_ok cfg now S F P L" and pos: "limits_positive cfg"
    and none: "\<And>a. entry L key = Some a \<Longrightarrow> reset_of L a \<le> now"
    and g: "open_window cfg key now L = (res, L')"
  shows "case res of
      Granted a \<Rightarrow> \<forall>p. pc_key p = key \<longrightarrow> pc_cell p = a \<longrightarrow> pc_now p = now \<longrightarrow> limiter_ok cfg now S F (add_mset p P) L'
    | Refused r c \<Rightarrow> limiter_ok cfg now S F P L'"
proof (cases "dc_maxClients cfg \<le> int (length (lm_map L))")
  case True
  then show ?thesis using g ok by (auto simp: open_window_def)
next
  case False
  define L1 where "L1 = L\<lparr>lm_cells := lm_cells L @ [\<lparr>ac_count = 0, ac_inFlight = 0, ac_resetAt = now + dc_window cfg\<rparr>],
                     lm_map := assoc_put key (length (lm_cells L)) (lm_map L)\<rparr>"
  have t: "take_slot cfg now (length (lm_cells L)) L1 = (res, L')" using g False by (simp add: open_window_def L1_def)
  have ok1: "limiter_ok cfg now S F P L1"
    by (rule limiter_ok_fresh[OF ok _ _ none L1_def]) (use False pos in \<open>simp_all add: limits_positive_def\<close>)
  have e: "entry L1 key = Some (length (lm_cells L))" "now < reset_of L1 (length (lm_cells L))"
    using pos by (simp_all add: L1_def reset_of_def limits_positive_def)
  show ?thesis
  proof (cases res)
    case (Granted b)
    have "limiter_ok cfg now S F (add_mset p P) L'" if "pc_key p = key" "pc_cell p = b" "pc_now p = now" for p
    proof -
      have "b = length (lm_cells L)" using t Granted by (auto simp: take_slot_def Let_def split: if_splits)
      then show ?thesis using limiter_ok_slot[OF ok1 _ e(2), of p b L'] e(1) that t Granted by simp
    qed
    then show ?thesis by (simp add: Granted)
  next
    case (Refused r c)
    then show ?thesis using take_slot_refused t ok1 by fastforce
  qed
qed

lemma limiter_ok_reserve:
  assumes ok: "limiter_ok cfg t S F P L" and t: "t \<le> now" and pos: "limits_positive cfg"
    and g: "reserveRateLimit cfg key now L = (res, L')"
  shows "case res of
      Granted a \<Rightarrow> \<forall>p. pc_key p = key \<longrightarrow> pc_cell p = a \<longrightarrow> pc_now p = now \<longrightarrow> limiter_ok cfg now S F (add_mset p P) L'
    | Refused r c \<Rightarrow> limiter_ok cfg now S F P L'"
proof -
  let ?L = "pruneAttempts cfg now L"
  note ok1 = limiter_ok_prune[OF ok t]
  consider a where "entry ?L key = Some a" "now < reset_of ?L a" "take_slot cfg now a ?L = (res, L')"
    | "\<And>a. entry ?L key = Some a \<Longrightarrow> reset_of ?L a \<le> now" "open_window cfg key now ?L = (res, L')"
    using g by (fastforce simp: reserveRateLimit_def Let_def split: option.splits if_splits)
  then show ?thesis
  proof cases
    case (1 a)
    show ?thesis
    proof (cases res)
      case (Granted b)
      then have "b = a" using 1(3) by (auto simp: take_slot_def Let_def split: if_splits)
      then show ?thesis using limiter_ok_slot[OF ok1 _ 1(2)] 1 Granted by auto
    qed (use 1(3) take_slot_refused ok1 in fastforce)
  qed (rule limiter_ok_open[OF ok1 pos])
qed

text \<open>Changing the counts of one record.\<close>

lemma limiter_ok_recount:
  assumes ok: "limiter_ok cfg t S F P L" and a: "a < length (lm_cells L)"
    and L': "L' = L\<lparr>lm_cells := (lm_cells L)[a := c]\<rparr>"
    and c: "ac_resetAt c = reset_of L a" "ac_count c + ac_inFlight c \<le> ac_count (cell_of L a) + ac_inFlight (cell_of L a)"
    and counts: "counts_ok cfg F' P' L'" and sub: "set_mset (F' + P') \<subseteq> set_mset (F + P)" and S: "S \<subseteq> S'"
  shows "limiter_ok cfg t S' F' P' L'"
proof -
  note ok = limiter_okD[OF ok]
  have m: "lm_map L' = lm_map L" "length (lm_cells L') = length (lm_cells L)" by (simp_all add: L')
  have cs: "cell_of L' x = (if x = a then c else cell_of L x)" for x using a by (simp add: L')
  have r: "reset_of L' = reset_of L" using c(1) by (auto simp: fun_eq_iff reset_of_def cs)
  have "map_ok cfg t L'"
    by (rule map_okI) (use map_okD[OF ok(1)] map_okD(4)[OF ok(1) a] c(2) in \<open>auto simp: m r cs\<close>)
  moreover have "located_ok cfg (set_mset (F + P)) L'"
    using ok(3) by (simp add: located_ok_def m r)
  moreover have "windows_ok cfg t S (set_mset (F + P)) L'"
    using ok(4) by (simp add: windows_ok_def m r)
  ultimately show ?thesis
    using counts sub S located_ok_subset windows_ok_subset by (auto simp: limiter_ok_def)
qed

lemma limiter_ok_complete:
  assumes ok: "limiter_ok cfg t S F (add_mset p P) L"
  shows "limiter_ok cfg t (if r = Success then insert (pc_key p) S else S) (if r = Failure then add_mset p F else F) P
    (completeRateLimitReservation (pc_key p) (pc_cell p) r L)"
    (is "limiter_ok cfg t ?S ?F P ?L")
proof -
  note ok' = limiter_okD[OF ok]
  let ?a = "pc_cell p"
  let ?c = "(cell_of L ?a)\<lparr>ac_inFlight := ac_inFlight (cell_of L ?a) - 1\<rparr>"
  define L1 where "L1 = L\<lparr>lm_cells := (lm_cells L)[?a := ?c]\<rparr>"
  have a: "?a < length (lm_cells L)" by (rule located_okD(1)[OF ok'(3)]) simp
  have key: "k = pc_key p" if "entry L k = Some ?a" for k by (rule located_okD(4)[OF ok'(3) _ that, symmetric]) simp
  have cell: "cell_of L1 x = (if x = ?a then ?c else cell_of L x)" for x using a by (simp add: L1_def)
  have open1: "1 \<le> ac_inFlight (cell_of L ?a)" using counts_okD(1)[OF ok'(2) a] by simp
  have res: "ac_resetAt ?c = reset_of L ?a" by (simp add: reset_of_def)
  have sub: "set_mset (?F + P) \<subseteq> set_mset (F + add_mset p P)" by auto
  have P: "checks_at x P = checks_at x (add_mset p P) - (if x = ?a then 1 else 0)" for x by simp
  have counts: "counts_ok cfg F' P L'"
    if L': "L' = L\<lparr>lm_cells := (lm_cells L)[?a := c']\<rparr>" and i: "ac_inFlight c' = ac_inFlight (cell_of L ?a) - 1"
      and F': "\<And>x. checks_at x F' + checks_at x P \<le> checks_at x F + checks_at x (add_mset p P)"
      and n: "entry L (pc_key p) = Some ?a \<Longrightarrow> checks_at ?a F' + checks_at ?a P \<le> ac_count c' + ac_inFlight c'"
    for c' F' L'
  proof (rule counts_okI)
    have cs: "cell_of L' x = (if x = ?a then c' else cell_of L x)" for x using a by (simp add: L')
    fix x assume "x < length (lm_cells L')"
    then have x: "x < length (lm_cells L)" by (simp add: L')
    show "checks_at x P \<le> ac_inFlight (cell_of L' x)"
      using counts_okD(1)[OF ok'(2) x] i by (auto simp: cs)
    show "int (checks_at x F' + checks_at x P) \<le> dc_maxAttempts cfg"
      using counts_okD(2)[OF ok'(2) x] F'[of x] by linarith
  next
    have cs: "cell_of L' x = (if x = ?a then c' else cell_of L x)" for x using a by (simp add: L')
    fix k x assume "entry L' k = Some x"
    then have x: "entry L k = Some x" by (simp add: L')
    show "checks_at x F' + checks_at x P \<le> ac_count (cell_of L' x) + ac_inFlight (cell_of L' x)"
    proof (cases "x = ?a")
      case True
      then show ?thesis using n x key[of k] by (simp add: cs)
    next
      case False
      then show ?thesis using counts_okD(3)[OF ok'(2) x] F'[of x] by (simp add: cs)
    qed
  qed
  have one: "entry L (pc_key p) = Some ?a \<Longrightarrow>
      checks_at ?a F + checks_at ?a P + 1 \<le> ac_count (cell_of L ?a) + ac_inFlight (cell_of L ?a)"
    using counts_okD(3)[OF ok'(2)] by fastforce
  have ok1: "limiter_ok cfg t S F P L1"
    by (rule limiter_ok_recount[OF ok a L1_def res])
      (use one open1 in \<open>auto intro!: counts[OF L1_def]\<close>)
  show ?thesis
  proof (cases "entry L (pc_key p) = Some ?a")
    case False
    have "?L = L1" using False by (simp add: completeRateLimitReservation_def L1_def Let_def)
    moreover have "limiter_ok cfg t ?S ?F P L1"
      by (rule limiter_ok_recount[OF ok a L1_def res])
        (use False open1 in \<open>auto intro!: counts[OF L1_def]\<close>)
    ultimately show ?thesis by simp
  next
    case True
    have drop: "limiter_ok cfg t S' F P (drop_key (pc_key p) L1)"
      if "S \<subseteq> S'" "pc_key p \<notin> S' \<Longrightarrow> checks_at ?a F + checks_at ?a P = 0" for S'
    proof (rule limiter_ok_drop[OF ok1 order_refl that(1), where Q = "\<lambda>(k, a). k \<noteq> pc_key p"])
      fix q assume q: "q \<in># F + P" "pc_key q \<notin> S'" "entry L1 (pc_key q) = Some (pc_cell q)"
      have "pc_key q \<noteq> pc_key p"
      proof
        assume k: "pc_key q = pc_key p"
        then have "pc_cell q = ?a" using q(3) True by (simp add: L1_def)
        moreover have "checks_at ?a F = 0" "checks_at ?a P = 0" using that(2) k q(2) by auto
        ultimately show False using q(1) checks_at_zeroD by fastforce
      qed
      then show "(case (pc_key q, pc_cell q) of (k, a) \<Rightarrow> k \<noteq> pc_key p) \<or> reset_of L1 (pc_cell q) \<le> t" by simp
    qed (simp_all add: drop_key_def)
    note simps = completeRateLimitReservation_def L1_def[symmetric] Let_def
    show ?thesis
    proof (cases r)
      case Success
      have "?L = drop_key (pc_key p) L1" using True Success by (simp add: simps) (simp add: L1_def)
      then show ?thesis using drop[of "insert (pc_key p) S"] Success by auto
    next
      case Failure
      define c' where "c' = ?c\<lparr>ac_count := ac_count ?c + 1\<rparr>"
      have L: "?L = L\<lparr>lm_cells := (lm_cells L)[?a := c']\<rparr>"
        using True Failure by (simp add: completeRateLimitReservation_def Let_def c'_def)
      have "limiter_ok cfg t S (add_mset p F) P ?L"
        by (rule limiter_ok_recount[OF ok a L])
          (use one[OF True] open1 in \<open>auto intro!: counts[OF L] simp: c'_def reset_of_def\<close>)
      then show ?thesis using Failure by simp
    next
      case Release
      show ?thesis
      proof (cases "ac_count ?c = 0 \<and> ac_inFlight ?c = 0")
        case z: True
        have "?L = drop_key (pc_key p) L1" using True Release z by (simp add: simps) (simp add: L1_def)
        then show ?thesis using drop[of S] Release one[OF True] z by auto
      next
        case False
        have "?L = L1" using True Release False by (auto simp: completeRateLimitReservation_def L1_def Let_def)
        then show ?thesis using ok1 Release by simp
      qed
    qed
  qed
qed

section \<open>Two invariants of runs\<close>

definition limits_kept :: "dashboard_auth \<Rightarrow> int \<Rightarrow> sign_in_event list \<Rightarrow> sign_in_state \<Rightarrow> bool" where
  "limits_kept cfg t es s \<longleftrightarrow>
     (limits_positive cfg \<longrightarrow>
      limiter_ok cfg t (set (succeeded_keys es)) (mset (failed_checks es)) (mset (si_pending s)) (si_limiter s))"

definition slots_kept :: "dashboard_auth \<Rightarrow> int \<Rightarrow> sign_in_event list \<Rightarrow> sign_in_state \<Rightarrow> bool" where
  "slots_kept cfg t es s \<longleftrightarrow>
     si_active s = length (si_pending s) + leaked_checks es \<and> (limits_positive cfg \<longrightarrow> int (si_active s) \<le> dc_maxKdfs cfg)"

text \<open>The four ways an attempt goes, and the one way of a verdict.\<close>

lemma authenticate_begin_cases:
  assumes "authenticate_begin cfg key username password now s = (r, s')"
  obtains
    (refused) n c L where "reserveRateLimit cfg key now (si_limiter s) = (Refused n c, L)"
      "r = Some (RateLimited n)" "s' = s\<lparr>si_limiter := L\<rparr>"
  | (busy) a L where "reserveRateLimit cfg key now (si_limiter s) = (Granted a, L)" "dc_maxKdfs cfg \<le> int (si_active s)"
      "r = Some (Busy 1)" "s' = s\<lparr>si_limiter := completeRateLimitReservation key a Release L\<rparr>"
  | (unreadable) a L where "reserveRateLimit cfg key now (si_limiter s) = (Granted a, L)"
      "int (si_active s) < dc_maxKdfs cfg" "r = Some SignInError" "s' = s\<lparr>si_limiter := L, si_active := si_active s + 1\<rparr>"
  | (pending) a L p where "reserveRateLimit cfg key now (si_limiter s) = (Granted a, L)"
      "int (si_active s) < dc_maxKdfs cfg" "r = None" "pc_key p = key" "pc_cell p = a" "pc_now p = now"
      "s' = s\<lparr>si_limiter := L, si_active := si_active s + 1, si_pending := si_pending s @ [p]\<rparr>"
proof (cases "reserveRateLimit cfg key now (si_limiter s)")
  case (Pair res L)
  show thesis
  proof (cases res)
    case (Refused n c)
    then show thesis using assms Pair refused[of n c L] by (simp add: authenticate_begin_def)
  next
    case (Granted a)
    show thesis
    proof (cases "dc_maxKdfs cfg \<le> int (si_active s)")
      case True
      then show thesis using assms Pair Granted busy[of a L] by (simp add: authenticate_begin_def)
    next
      case False
      show thesis
      proof (cases "string_or [] username")
        case (Inl e)
        then show thesis using assms Pair Granted False unreadable[of a L] by (simp add: authenticate_begin_def Let_def)
      next
        case (Inr u)
        show thesis
          by (rule pending[of a L "\<lparr>pc_key = key, pc_cell = a, pc_user = map_of (dc_users cfg) (js_lower (js_trim u)),
                      pc_password = (case password of JStr p \<Rightarrow> p | _ \<Rightarrow> []), pc_now = now\<rparr>"])
            (use assms Pair Granted False Inr in \<open>simp_all add: authenticate_begin_def Let_def\<close>)
      qed
    qed
  qed
qed

lemma mset_without: "i < length xs \<Longrightarrow> add_mset (xs ! i) (mset (without i xs)) = mset xs"
  by (metis add_mset_add_single id_take_nth_drop mset.simps(2) mset_append union_mset_add_mset_right without_def)

lemma length_without: "i < length xs \<Longrightarrow> length (without i xs) = length xs - 1"
  by (simp add: without_def)

lemma limiter_ok_empty: "limits_positive cfg \<Longrightarrow> limiter_ok cfg t S {#} {#} empty_limiter"
  by (simp add: limiter_ok_def map_ok_def counts_ok_def located_ok_def windows_ok_def empty_limiter_def limits_positive_def)

interpretation limits: sign_in_invariant lib cfg "limits_kept cfg" for lib cfg
proof unfold_locales
  fix t show "limits_kept cfg t [] initial_sign_in"
    by (simp add: limits_kept_def initial_sign_in_def limiter_ok_empty)
next
  fix t es s now key username password r s'
  assume inv: "limits_kept cfg t es s" and t: "t \<le> now"
    and b: "authenticate_begin cfg key username password now s = (r, s')"
  show "limits_kept cfg now (es @ [Began key now r]) s'"
    unfolding limits_kept_def
  proof
    assume pos: "limits_positive cfg"
    let ?S = "set (succeeded_keys es)" and ?F = "mset (failed_checks es)" and ?P = "mset (si_pending s)"
    have ok: "limiter_ok cfg t ?S ?F ?P (si_limiter s)" using inv pos by (simp add: limits_kept_def)
    note reserved = limiter_ok_reserve[OF ok t pos]
    have "limiter_ok cfg now ?S ?F (mset (si_pending s')) (si_limiter s')"
      using b
    proof (cases rule: authenticate_begin_cases)
      case (refused n c L)
      then show ?thesis using reserved[of key "Refused n c" L] by simp
    next
      case (busy a L)
      define p where "p = \<lparr>pc_key = key, pc_cell = a, pc_user = None, pc_password = [], pc_now = now\<rparr>"
      have "limiter_ok cfg now ?S ?F (add_mset p ?P) L" using reserved[OF busy(1)] by (simp add: p_def)
      from limiter_ok_complete[OF this, of Release] show ?thesis using busy by (simp add: p_def)
    next
      case (unreadable a L)
      define p where "p = \<lparr>pc_key = key, pc_cell = a, pc_user = None, pc_password = [], pc_now = now\<rparr>"
      have "limiter_ok cfg now ?S ?F (add_mset p ?P) L" using reserved[OF unreadable(1)] by (simp add: p_def)
      from limiter_ok_forget[OF this] show ?thesis using unreadable by simp
    next
      case (pending a L p)
      then show ?thesis using reserved[OF pending(1)] by simp
    qed
    then show "limiter_ok cfg now (set (succeeded_keys (es @ [Began key now r])))
        (mset (failed_checks (es @ [Began key now r]))) (mset (si_pending s')) (si_limiter s')" by simp
  qed
next
  fix t es s i x v s'
  assume inv: "limits_kept cfg t es s" and i: "i < length (si_pending s)"
    and v: "check_verdict lib cfg (si_pending s ! i) = (x, v)" and e: "authenticate_end lib cfg i s = (v, s')"
  let ?p = "si_pending s ! i"
  have s': "si_limiter s' = completeRateLimitReservation (pc_key ?p) (pc_cell ?p) x (si_limiter s)"
    "si_pending s' = without i (si_pending s)"
    using v e by (auto simp: authenticate_end_def Let_def)
  show "limits_kept cfg t (es @ [Settled ?p x v]) s'"
    unfolding limits_kept_def s'
  proof
    assume pos: "limits_positive cfg"
    have "limiter_ok cfg t (set (succeeded_keys es)) (mset (failed_checks es))
        (add_mset ?p (mset (without i (si_pending s)))) (si_limiter s)"
      using inv pos i by (simp add: limits_kept_def mset_without)
    from limiter_ok_complete[OF this, of x]
    show "limiter_ok cfg t (set (succeeded_keys (es @ [Settled ?p x v]))) (mset (failed_checks (es @ [Settled ?p x v])))
        (mset (without i (si_pending s))) (completeRateLimitReservation (pc_key ?p) (pc_cell ?p) x (si_limiter s))"
      by (cases x) simp_all
  qed
qed

interpretation slots: sign_in_invariant lib cfg "slots_kept cfg" for lib cfg
proof unfold_locales
  fix t show "slots_kept cfg t [] initial_sign_in" by (simp add: slots_kept_def initial_sign_in_def limits_positive_def)
next
  fix t es s now key username password r s'
  assume inv: "slots_kept cfg t es s" and b: "authenticate_begin cfg key username password now s = (r, s')"
  from b show "slots_kept cfg now (es @ [Began key now r]) s'"
    by (cases rule: authenticate_begin_cases) (use inv in \<open>auto simp: slots_kept_def\<close>)
next
  fix t es s i x v s'
  assume "slots_kept cfg t es s" "i < length (si_pending s)" "authenticate_end lib cfg i s = (v, s')"
  then show "slots_kept cfg t (es @ [Settled (si_pending s ! i) x v]) s'"
    by (auto simp: slots_kept_def authenticate_end_def length_without Let_def split: prod.splits)
qed

section \<open>Failures of one client\<close>

text \<open>Three windows of one client do not meet one period, so its failures there lie in two cells.\<close>

lemma checks_in_two_cells:
  assumes "\<And>p. p \<in> set xs \<Longrightarrow> pc_cell p = a \<or> pc_cell p = b"
  shows "length xs \<le> checks_at a (mset xs) + checks_at b (mset xs)"
  using assms by (induction xs) force+

lemma failures_in_a_period:
  assumes ok: "limiter_ok cfg u S (mset F) P L" and k: "key \<notin> S" and pos: "limits_positive cfg"
  shows "int (length (filter (\<lambda>p. pc_key p = key \<and> t \<le> pc_now p \<and> pc_now p < t + dc_window cfg) F))
    \<le> 2 * dc_maxAttempts cfg"
proof -
  let ?X = "filter (\<lambda>p. pc_key p = key \<and> t \<le> pc_now p \<and> pc_now p < t + dc_window cfg) F"
  note ok = limiter_okD[OF ok]
  show ?thesis
  proof (cases "?X = []")
    case True
    then show ?thesis using pos by (simp add: limits_positive_def)
  next
    case False
    define C where "C = pc_cell ` set ?X"
    have "set ?X \<noteq> {}" using False unfolding set_empty .
    then have fin: "finite C" "C \<noteq> {}" by (simp_all add: C_def)
    have two: "pc_cell p = Min C \<or> pc_cell p = Max C" if p: "p \<in> set ?X" for p
    proof (rule ccontr)
      assume n: "\<not> (pc_cell p = Min C \<or> pc_cell p = Max C)"
      have "Min C \<in> C" "Max C \<in> C" using fin by simp_all
      moreover have "\<exists>q\<in>set ?X. pc_cell q = c" if "c \<in> C" for c using that by (auto simp: C_def)
      ultimately obtain l h where l: "l \<in> set ?X" "pc_cell l = Min C" and h: "h \<in> set ?X" "pc_cell h = Max C"
        by blast
      have "pc_cell p \<in> C" using p by (simp add: C_def)
      then have "Min C \<le> pc_cell p" "pc_cell p \<le> Max C" using fin(1) by simp_all
      then have lt: "pc_cell l < pc_cell p" "pc_cell p < pc_cell h" 
        using n by (simp_all add: l(2) h(2))
      have in_set: "l \<in># mset F + P" "p \<in># mset F + P" "h \<in># mset F + P" and keys: "pc_key l = key" "pc_key p = key" "pc_key h = key"
        using l h p by auto
      have "reset_of L (pc_cell l) \<le> reset_of L (pc_cell p) - dc_window cfg"
        using windows_okD(3)[OF ok(4) in_set(1) _ in_set(2)] keys k lt by simp
      moreover have "reset_of L (pc_cell p) \<le> reset_of L (pc_cell h) - dc_window cfg"
        using windows_okD(3)[OF ok(4) in_set(2) _ in_set(3)] keys k lt by simp
      moreover have "pc_now l < reset_of L (pc_cell l)" "reset_of L (pc_cell h) - dc_window cfg \<le> pc_now h"
        using located_okD(3)[OF ok(3) in_set(1)] located_okD(2)[OF ok(3) in_set(3)] by simp_all
      moreover have "t \<le> pc_now l" "pc_now h < t + dc_window cfg" using l h by auto
      ultimately show False by linarith
    qed
    have "mset ?X \<subseteq># mset F" by simp
    then have le: "checks_at a (mset ?X) \<le> checks_at a (mset F)" for a
      unfolding checks_at_def by (intro size_mset_mono multiset_filter_mono)
    have "c < length (lm_cells L)" if "c \<in> C" for c using that located_okD(1)[OF ok(3)] by (auto simp: C_def)
    then have lt: "Min C < length (lm_cells L)" "Max C < length (lm_cells L)"
      using Min_in[OF fin] Max_in[OF fin] by blast+
    have "length ?X \<le> checks_at (Min C) (mset ?X) + checks_at (Max C) (mset ?X)"
      by (rule checks_in_two_cells[OF two])
    then show ?thesis
      using le[of "Min C"] le[of "Max C"] counts_okD(2)[OF ok(2) lt(1)]
        counts_okD(2)[OF ok(2) lt(2)] by linarith
  qed
qed

text \<open>Runs played from a list of moves, for evaluation.\<close>

datatype move = Try string jsv jsv int | Settle nat

fun play ::
  "auth_lib \<Rightarrow> dashboard_auth \<Rightarrow> move list \<Rightarrow> int \<times> sign_in_event list \<times> sign_in_state
     \<Rightarrow> (int \<times> sign_in_event list \<times> sign_in_state) option" where
  "play lib cfg [] w = Some w"
| "play lib cfg (Try key username password now # ms) (t, es, s) =
     (if t \<le> now then (case authenticate_begin cfg key username password now s of
        (r, s') \<Rightarrow> play lib cfg ms (now, es @ [Began key now r], s')) else None)"
| "play lib cfg (Settle i # ms) (t, es, s) =
     (if i < length (si_pending s) then (case check_verdict lib cfg (si_pending s ! i) of
        (x, v) \<Rightarrow> play lib cfg ms (t, es @ [Settled (si_pending s ! i) x v], snd (authenticate_end lib cfg i s))) else None)"

lemma play_run:
  "play lib cfg ms w = Some w' \<Longrightarrow> sign_in_run lib cfg (fst w) (fst (snd w)) (snd (snd w)) \<Longrightarrow>
   sign_in_run lib cfg (fst w') (fst (snd w')) (snd (snd w'))"
proof (induction lib cfg ms w rule: play.induct)
  case (3 lib cfg i ms t es s)
  obtain x v where v: "check_verdict lib cfg (si_pending s ! i) = (x, v)" by force
  then obtain s' where e: "authenticate_end lib cfg i s = (v, s')" by (simp add: authenticate_end_def Let_def)
  show ?case
    using 3 v e sign_in_run.verdict[OF _ _ v e] by (auto split: if_splits)
qed (auto split: if_splits prod.splits intro: sign_in_run.attempt)

text \<open>
  C10. The rate limit bounds guessing. Over every run whose clock does not go back and in which a client
  has not signed in, at most twice the permitted number of its password checks fail among those it begins
  in any period as long as a rate-limit window: ten in fifteen minutes by default, however attempts and
  verdicts interleave and however many other clients there are.
\<close>

theorem failed_sign_ins_are_limited:
  assumes "limits_positive cfg" "sign_in_run lib cfg u es s" "key \<notin> set (succeeded_keys es)"
  shows "int (length (filter (\<lambda>p. pc_key p = key \<and> t \<le> pc_now p \<and> pc_now p < t + dc_window cfg) (failed_checks es)))
    \<le> 2 * dc_maxAttempts cfg"
proof (rule failures_in_a_period[OF _ assms(3,1)])
  show "limiter_ok cfg u (set (succeeded_keys es)) (mset (failed_checks es)) (mset (si_pending s)) (si_limiter s)"
    using limits.holds[OF assms(2)] assms(1) by (simp add: limits_kept_def)
qed

section \<open>Open checks\<close>

text \<open>
  C24. A user name that cannot be read uses up a password check for good. Over every run the number of open
  checks is that of the pending ones and of the attempts that have ended in an error before their check,
  and stays within its bound; once as many attempts have ended that way as there may be open checks, every
  further sign-in of every client is refused.
\<close>

theorem unreadable_names_use_up_the_checks:
  assumes "limits_positive cfg" "sign_in_run lib cfg u es s"
  shows "si_active s = length (si_pending s) + leaked_checks es \<and> int (si_active s) \<le> dc_maxKdfs cfg
    \<and> (dc_maxKdfs cfg \<le> int (leaked_checks es) \<longrightarrow>
        (\<forall>key username password now. \<exists>n.
           fst (authenticate_begin cfg key username password now s) \<in> {Some (RateLimited n), Some (Busy 1)}))"
proof -
  have kept: "si_active s = length (si_pending s) + leaked_checks es \<and> int (si_active s) \<le> dc_maxKdfs cfg"
    using slots.holds[OF assms(2)] assms(1) by (simp add: slots_kept_def)
  have "\<exists>n. fst (authenticate_begin cfg key username password now s) \<in> {Some (RateLimited n), Some (Busy 1)}"
    if "dc_maxKdfs cfg \<le> int (leaked_checks es)" for key username password now
  proof (cases "authenticate_begin cfg key username password now s")
    case (Pair r s')
    then show ?thesis
      by (cases rule: authenticate_begin_cases) (use Pair that kept in auto)
  qed
  then show ?thesis using kept by blast
qed

section \<open>Waiting\<close>

lemma retry_seconds_enough: "ms \<le> 1000 * retry_seconds ms" "1 \<le> retry_seconds ms"
proof -
  have "(ms + 999) div 1000 * 1000 + (ms + 999) mod 1000 = ms + 999" by simp
  moreover have "(ms + 999) mod 1000 < 1000" by simp
  ultimately show "ms \<le> 1000 * retry_seconds ms" unfolding retry_seconds_def by linarith
qed (simp add: retry_seconds_def)

lemma foldl_min_mem: "foldl (\<lambda>e x. min e (f x)) (e0 :: int) m \<in> insert e0 (f ` set m)"
proof (induction m arbitrary: e0)
  case (Cons x m)
  have "min e0 (f x) \<in> {e0, f x}" by (simp add: min_def)
  moreover have "foldl (\<lambda>e x. min e (f x)) e0 (x # m) = foldl (\<lambda>e x. min e (f x)) (min e0 (f x)) m"
    by (rule foldl_Cons)
  ultimately show ?case using Cons.IH[of "min e0 (f x)"]
    by (simp only: list.set image_insert insert_iff empty_iff simp_thms) metis
qed simp

lemma earliest_reset_mem:
  "earliest_reset cfg now L \<in> insert (now + dc_window cfg) ((\<lambda>x. reset_of L (snd x)) ` set (lm_map L))"
  using foldl_min_mem[of "\<lambda>x. reset_of L (snd x)" "now + dc_window cfg" "lm_map L"]
  by (simp only: earliest_reset_def split_def)

lemma open_window_granted:
  assumes "limits_positive cfg" "int (length (lm_map L)) < dc_maxClients cfg"
  shows "\<exists>a L'. open_window cfg key now L = (Granted a, L')"
  using assms by (auto simp: open_window_def take_slot_def limits_positive_def Let_def)

text \<open>After an entry has expired a reservation of a client without a current record is granted.\<close>

lemma reserve_after_expiry:
  assumes pos: "limits_positive cfg" and ok: "map_ok cfg t L"
    and e: "(k, a) \<in> set (lm_map L)" "reset_of L a \<le> now"
    and key: "\<And>b. entry L key = Some b \<Longrightarrow> reset_of L b \<le> now"
  shows "\<exists>b L'. reserveRateLimit cfg key now L = (Granted b, L')"
proof -
  let ?L = "pruneAttempts cfg now L"
  have d: "distinct (map fst (lm_map L))" using map_okD(1)[OF ok] .
  have r: "reset_of ?L = reset_of L" by (simp add: pruneAttempts_def reset_of_def fun_eq_iff)
  have "entry ?L key = Some b \<Longrightarrow> entry L key = Some b" for b
    by (simp add: pruneAttempts_def map_of_filter_iff[OF d] split: if_splits)
  then have stale: "entry ?L key = Some b \<Longrightarrow> \<not> now < reset_of ?L b" for b using key by (force simp: r)
  have "length (filter (\<lambda>(k, a). now < reset_of L a) (lm_map L)) < length (lm_map L)"
    using e by (intro length_filter_less[of "(k, a)"]) auto
  then have "int (length (lm_map ?L)) < dc_maxClients cfg"
    using map_okD(2)[OF ok] by (auto simp: pruneAttempts_def)
  from open_window_granted[OF pos this] show ?thesis
    using stale by (simp add: reserveRateLimit_def Let_def split: option.splits)
qed

lemma reserve_refused_expires:
  assumes pos: "limits_positive cfg" and ok: "limiter_ok cfg t S F P L" and t: "t \<le> now"
    and g: "reserveRateLimit cfg key now L = (Refused r c, L')" and wait: "now + 1000 * r \<le> now'"
  shows "\<exists>b L''. reserveRateLimit cfg key now' L' = (Granted b, L'')"
proof -
  let ?L = "pruneAttempts cfg now L"
  have ok1: "map_ok cfg now ?L" using limiter_ok_prune[OF ok t] by (simp add: limiter_ok_def)
  consider (full) a where "entry ?L key = Some a" "take_slot cfg now a ?L = (Refused r c, L')"
    | (capacity) "\<And>b. entry ?L key = Some b \<Longrightarrow> reset_of ?L b \<le> now" "open_window cfg key now ?L = (Refused r c, L')"
    using g by (fastforce simp: reserveRateLimit_def Let_def split: option.splits if_splits)
  then show ?thesis
  proof cases
    case (full a)
    have L': "L' = ?L" "r = retry_seconds (reset_of ?L a - now)"
      using full(2) by (auto simp: take_slot_def reset_of_def Let_def split: if_splits)
    have past: "reset_of ?L a \<le> now'" using retry_seconds_enough(1)[of "reset_of ?L a - now"] wait L'(2) by linarith
    show ?thesis unfolding L'(1)
      by (rule reserve_after_expiry[OF pos ok1 map_of_SomeD[OF full(1)] past]) (use full(1) past in simp)
  next
    case capacity
    have full: "dc_maxClients cfg \<le> int (length (lm_map ?L))"
    proof (rule ccontr)
      assume "\<not> dc_maxClients cfg \<le> int (length (lm_map ?L))"
      then show False using open_window_granted[OF pos, of ?L key now] capacity(2) by simp
    qed
    have L': "L' = ?L" "r = retry_seconds (earliest_reset cfg now ?L - now)"
      using capacity(2) full by (auto simp: open_window_def)
    have "lm_map ?L \<noteq> []" using full pos by (auto simp: limits_positive_def)
    then obtain x where x: "x \<in> set (lm_map ?L)" "reset_of ?L (snd x) \<le> earliest_reset cfg now ?L"
    proof (cases "earliest_reset cfg now ?L = now + dc_window cfg")
      case True
      from \<open>lm_map ?L \<noteq> []\<close> obtain x where x: "x \<in> set (lm_map ?L)" by (meson list.set_sel(1))
      have "entry ?L (fst x) = Some (snd x)" using map_of_is_SomeI[OF map_okD(1)[OF ok1], of "fst x" "snd x"] x by simp
      then have "reset_of ?L (snd x) \<le> now + dc_window cfg" using map_okD(3,5)[OF ok1] by blast
      then show thesis using that[OF x] True by simp
    next
      case False
      then show thesis using that earliest_reset_mem[of cfg now ?L] by auto
    qed
    have past: "reset_of ?L (snd x) \<le> now'"
      using retry_seconds_enough(1)[of "earliest_reset cfg now ?L - now"] wait L'(2) x(2) by linarith
    have "now \<le> now'" using wait retry_seconds_enough(2)[of "earliest_reset cfg now ?L - now"] L'(2) by linarith
    show ?thesis unfolding L'(1)
      by (rule reserve_after_expiry[OF pos ok1 _ past, of "fst x"])
        (use x(1) capacity(1) \<open>now \<le> now'\<close> order_trans in auto)
  qed
qed

text \<open>The record of a client, where it has one, ends by a given time.\<close>

definition ends_by :: "string \<Rightarrow> int \<Rightarrow> limiter \<Rightarrow> bool" where
  "ends_by key T L \<longleftrightarrow> (\<forall>a. entry L key = Some a \<longrightarrow> reset_of L a \<le> T)"

text \<open>Whatever others do, the record of a client that makes no attempt is kept or dropped, never replaced.\<close>

definition keeps_record :: "string \<Rightarrow> limiter \<Rightarrow> limiter \<Rightarrow> bool" where
  "keeps_record key L L' \<longleftrightarrow> length (lm_cells L) \<le> length (lm_cells L')
     \<and> (\<forall>a. a < length (lm_cells L) \<longrightarrow> reset_of L' a = reset_of L a)
     \<and> (\<forall>a. entry L' key = Some a \<longrightarrow> entry L key = Some a)"

lemma keeps_record_refl: "keeps_record key L L"
  by (simp add: keeps_record_def)

lemma keeps_record_trans: "keeps_record key L L1 \<Longrightarrow> keeps_record key L1 L2 \<Longrightarrow> keeps_record key L L2"
  by (auto simp: keeps_record_def)

lemma keeps_record_ends:
  assumes "keeps_record key L L'" "map_ok cfg t L" "ends_by key T L" shows "ends_by key T L'"
  using assms map_okD(3)[OF assms(2)] by (auto simp: keeps_record_def ends_by_def)

lemma filter_keeps_record:
  assumes "distinct (map fst (lm_map L))" "lm_cells L' = lm_cells L" "lm_map L' = filter Q (lm_map L)"
  shows "keeps_record key L L'"
  using assms by (auto simp: keeps_record_def reset_of_def map_of_filter_iff)

lemma prune_keeps_record:
  assumes "distinct (map fst (lm_map L))" shows "keeps_record key L (pruneAttempts cfg now L)"
  using assms keeps_record_refl by (auto simp: pruneAttempts_def intro: filter_keeps_record)

lemma recount_keeps_record:
  assumes "ac_resetAt c = ac_resetAt (cell_of L a)" shows "keeps_record key L (L\<lparr>lm_cells := (lm_cells L)[a := c]\<rparr>)"
proof -
  have "ac_resetAt ((lm_cells L)[a := c] ! x) = ac_resetAt (cell_of L x)" if "x < length (lm_cells L)" for x
    using that assms by (cases "x = a") simp_all
  then show ?thesis by (simp add: keeps_record_def reset_of_def)
qed

lemma take_slot_keeps_record: "keeps_record key L (snd (take_slot cfg now a L))"
  using keeps_record_refl by (auto simp: take_slot_def Let_def intro: recount_keeps_record)

lemma open_window_keeps_record:
  assumes "k \<noteq> key" shows "keeps_record key L (snd (open_window cfg k now L))"
proof -
  let ?L = "L\<lparr>lm_cells := lm_cells L @ [\<lparr>ac_count = 0, ac_inFlight = 0, ac_resetAt = now + dc_window cfg\<rparr>],
    lm_map := assoc_put k (length (lm_cells L)) (lm_map L)\<rparr>"
  have "keeps_record key L ?L" using assms by (auto simp: keeps_record_def reset_of_def nth_append)
  then have "keeps_record key L (snd (take_slot cfg now (length (lm_cells L)) ?L))"
    using keeps_record_trans take_slot_keeps_record by blast
  then show ?thesis using keeps_record_refl by (simp add: open_window_def)
qed

lemma reserve_keeps_record:
  assumes "k \<noteq> key" "distinct (map fst (lm_map L))" shows "keeps_record key L (snd (reserveRateLimit cfg k now L))"
proof -
  let ?L = "pruneAttempts cfg now L"
  have "keeps_record key ?L (snd (reserveRateLimit cfg k now L))"
    using open_window_keeps_record[OF assms(1)] take_slot_keeps_record
    by (simp add: reserveRateLimit_def Let_def split: option.split)
  then show ?thesis using keeps_record_trans[OF prune_keeps_record[OF assms(2)]] by blast
qed

lemma reserve_distinct:
  assumes "distinct (map fst (lm_map L))" shows "distinct (map fst (lm_map (snd (reserveRateLimit cfg k now L))))"
proof -
  have slot: "lm_map (snd (take_slot cfg now a L1)) = lm_map L1" for a L1 by (simp add: take_slot_def Let_def)
  have "distinct (map fst (lm_map (pruneAttempts cfg now L)))"
    using assms by (auto simp: pruneAttempts_def intro: distinct_filter_keys)
  then show ?thesis
    by (auto simp: reserveRateLimit_def open_window_def Let_def slot distinct_assoc_put split: option.split)
qed

lemma complete_keeps_record:
  assumes "distinct (map fst (lm_map L))" shows "keeps_record key L (completeRateLimitReservation k a x L)"
proof -
  let ?c = "(cell_of L a)\<lparr>ac_inFlight := ac_inFlight (cell_of L a) - 1\<rparr>"
  have cells: "keeps_record key L (L\<lparr>lm_cells := (lm_cells L)[a := ?c\<lparr>ac_count := n\<rparr>]\<rparr>)" for n
    by (rule recount_keeps_record) simp
  have one: "keeps_record key L (L\<lparr>lm_cells := (lm_cells L)[a := ?c]\<rparr>)" by (rule recount_keeps_record) simp
  have drop: "keeps_record key L1 (drop_key k L1)" if "lm_map L1 = lm_map L" for L1
    using assms that by (auto simp: drop_key_def intro: filter_keeps_record)
  show ?thesis
    using one cells keeps_record_trans[OF one drop]
    by (auto simp: completeRateLimitReservation_def Let_def split: attempt_outcome.split)
qed

text \<open>When a reservation is refused, the record of the client ends in the time that is told, or it has none.\<close>

lemma refused_ends:
  assumes "limits_positive cfg" "reserveRateLimit cfg key now L = (Refused r c, L')"
  shows "ends_by key (now + 1000 * r) L'"
proof -
  let ?L = "pruneAttempts cfg now L"
  consider (full) a where "entry ?L key = Some a" "take_slot cfg now a ?L = (Refused r c, L')"
    | (capacity) "\<And>b. entry ?L key = Some b \<Longrightarrow> reset_of ?L b \<le> now" "open_window cfg key now ?L = (Refused r c, L')"
    using assms(2) by (fastforce simp: reserveRateLimit_def Let_def split: option.splits if_splits)
  then show ?thesis
  proof cases
    case (full a)
    have "L' = ?L" "r = retry_seconds (reset_of ?L a - now)"
      using full(2) by (auto simp: take_slot_def reset_of_def Let_def split: if_splits)
    then show ?thesis using full(1) retry_seconds_enough(1)[of "reset_of ?L a - now"] by (simp add: ends_by_def)
  next
    case capacity
    have "1 \<le> r" "ends_by key now L'"
      using capacity retry_seconds_enough(2) assms(1)
      by (auto simp: open_window_def take_slot_def ends_by_def Let_def limits_positive_def split: if_splits)
    then show ?thesis by (force simp: ends_by_def)
  qed
qed

text \<open>An attempt without a current record is refused only when other clients hold all the places.\<close>

lemma refused_full:
  assumes "distinct (map fst (lm_map L))" "ends_by key now L" "limits_positive cfg"
    and "reserveRateLimit cfg key now L = (Refused n c, L')"
  shows "dc_maxClients cfg \<le> int (card {k. k \<noteq> key \<and> (\<exists>a. entry L k = Some a \<and> now < reset_of L a)})"
proof -
  let ?L = "pruneAttempts cfg now L"
  have pr: "keeps_record k L ?L" for k by (rule prune_keeps_record[OF assms(1)])
  have r: "reset_of ?L = reset_of L" by (simp add: pruneAttempts_def reset_of_def fun_eq_iff)
  have old: "entry ?L key = Some b \<Longrightarrow> \<not> now < reset_of ?L b" for b
    using pr[of key] assms(2) by (auto simp: keeps_record_def ends_by_def r linorder_not_less)
  have "open_window cfg key now ?L = (Refused n c, L')"
    using assms(4) old by (auto simp: reserveRateLimit_def Let_def split: option.splits)
  then have full: "dc_maxClients cfg \<le> int (length (lm_map ?L))"
    using assms(3) by (auto simp: open_window_def take_slot_def limits_positive_def Let_def split: if_splits)
  then have live: "lm_map ?L = filter (\<lambda>(k, a). now < reset_of L a) (lm_map L)"
    by (auto simp: pruneAttempts_def split: if_splits)
  have d: "distinct (map fst (lm_map ?L))" unfolding live by (rule distinct_filter_keys[OF assms(1)])
  have sub: "fst ` set (lm_map ?L) \<subseteq> {k. k \<noteq> key \<and> (\<exists>a. entry L k = Some a \<and> now < reset_of L a)}"
  proof
    fix k assume "k \<in> fst ` set (lm_map ?L)"
    then obtain a where a: "entry ?L k = Some a" using d by (auto simp: map_of_eq_None_iff)
    then have "entry L k = Some a" "now < reset_of L a" using map_of_filter_iff[OF assms(1)] by (auto simp: live)
    moreover have "k \<noteq> key" using a old \<open>now < reset_of L a\<close> by (auto simp: r)
    ultimately show "k \<in> {k. k \<noteq> key \<and> (\<exists>a. entry L k = Some a \<and> now < reset_of L a)}" by blast
  qed
  have "{k. k \<noteq> key \<and> (\<exists>a. entry L k = Some a \<and> now < reset_of L a)} \<subseteq> fst ` set (lm_map L)"
    by (force dest: map_of_SomeD)
  then have "finite {k. k \<noteq> key \<and> (\<exists>a. entry L k = Some a \<and> now < reset_of L a)}" by (rule finite_subset) simp
  then have "card (fst ` set (lm_map ?L)) \<le> card {k. k \<noteq> key \<and> (\<exists>a. entry L k = Some a \<and> now < reset_of L a)}"
    using sub by (rule card_mono)
  moreover have "card (fst ` set (lm_map ?L)) = length (lm_map ?L)"
    using distinct_card[OF d] by simp
  ultimately show ?thesis using full by linarith
qed

fun attempt_of :: "string \<Rightarrow> sign_in_event \<Rightarrow> bool" where
  "attempt_of key (Began k t r) = (k = key)"
| "attempt_of key (Settled p x r) = False"

lemma run_map_ok:
  assumes "limits_positive cfg" "sign_in_run lib cfg t es s"
  shows "map_ok cfg t (si_limiter s)" "distinct (map fst (lm_map (si_limiter s)))"
  using limits.holds[OF assms(2)] assms(1) map_okD(1) by (auto simp: limits_kept_def limiter_ok_def)

lemma waiting_run:
  assumes "limits_positive cfg"
  shows "sign_in_run lib cfg u es s \<Longrightarrow> es = es0 @ Began key now (Some (RateLimited r)) # fs \<Longrightarrow>
    \<not> list_ex (attempt_of key) fs \<Longrightarrow> ends_by key (now + 1000 * r) (si_limiter s)"
proof (induction arbitrary: fs rule: sign_in_run.induct)
  case (attempt t es s now1 k username password x s')
  note map' = run_map_ok[OF assms attempt.hyps(1)]
  show ?case
  proof (cases fs rule: rev_cases)
    case Nil
    then have e: "k = key" "now1 = now" "x = Some (RateLimited r)" using attempt.prems(1) by simp_all
    from attempt.hyps(3) show ?thesis
      by (cases rule: authenticate_begin_cases) (use e refused_ends[OF assms] in auto)
  next
    case (snoc gs g)
    then have e: "es = es0 @ Began key now (Some (RateLimited r)) # gs" "g = Began k now1 x" using attempt.prems(1) by simp_all
    then have k: "k \<noteq> key" "\<not> list_ex (attempt_of key) gs" using attempt.prems(2) snoc by auto
    have ends: "ends_by key (now + 1000 * r) (si_limiter s)" by (rule attempt.IH[OF e(1) k(2)])
    note res = reserve_keeps_record[OF k(1) map'(2), of cfg now1]
    note done' = keeps_record_trans[OF res complete_keeps_record[OF reserve_distinct[OF map'(2)]]]
    from attempt.hyps(3) have "keeps_record key (si_limiter s) (si_limiter s')"
      by (cases rule: authenticate_begin_cases)
        (use res done'[of k _ Release] in \<open>simp_all add: prod_eq_iff\<close>)
    then show ?thesis using keeps_record_ends[OF _ map'(1) ends] by blast
  qed
next
  case (verdict t es s i x v s')
  note map' = run_map_ok[OF assms verdict.hyps(1)]
  obtain gs where e: "fs = gs @ [Settled (si_pending s ! i) x v]" "es = es0 @ Began key now (Some (RateLimited r)) # gs"
    using verdict.prems(1) by (cases fs rule: rev_cases) auto
  have ends: "ends_by key (now + 1000 * r) (si_limiter s)" by (rule verdict.IH[OF e(2)]) (use verdict.prems(2) e(1) in simp)
  have "keeps_record key (si_limiter s) (si_limiter s')"
    using verdict.hyps(3,4) complete_keeps_record[OF map'(2)] by (auto simp: authenticate_end_def Let_def)
  then show ?case using keeps_record_ends[OF _ map'(1) ends] by blast
qed simp

lemma refused_then_granted:
  assumes "limits_positive cfg" "sign_in_run lib cfg u (es @ [Began key now (Some (RateLimited r))]) s" "now + 1000 * r \<le> now'"
  shows "fst (authenticate_begin cfg key username password now' s) \<noteq> Some (RateLimited n)"
  using assms(2)
proof cases
  case (attempt t es0 s0 k name pw x)
  then have run: "sign_in_run lib cfg t es s0" "t \<le> now" "authenticate_begin cfg key name pw now s0 = (Some (RateLimited r), s)"
    by simp_all
  have ok: "limiter_ok cfg t (set (succeeded_keys es)) (mset (failed_checks es)) (mset (si_pending s0)) (si_limiter s0)"
    using limits.holds[OF run(1)] assms(1) by (simp add: limits_kept_def)
  obtain c L where g: "reserveRateLimit cfg key now (si_limiter s0) = (Refused r c, L)" and s: "si_limiter s = L"
    using run(3) by (cases rule: authenticate_begin_cases) auto
  obtain b L'' where "reserveRateLimit cfg key now' (si_limiter s) = (Granted b, L'')"
    using reserve_refused_expires[OF assms(1) ok run(2) g assms(3)] s by blast
  then show ?thesis by (simp add: authenticate_begin_def Let_def split: sum.splits)
qed simp_all

text \<open>
  C26. A refused client is told long enough. When the rate limit has refused an attempt with a number of seconds
  and the client makes no other attempt for so long, its next attempt is not refused for its own failures,
  whatever other clients do in between and whichever pending checks end: if the rate limit refuses it
  again, then others have been active meanwhile, and as many other clients as the limiter keeps have records
  that are still running.
\<close>

theorem waiting_as_told_is_enough:
  assumes "limits_positive cfg"
    and "sign_in_run lib cfg u (es @ Began key now (Some (RateLimited r)) # fs) s"
    and "\<not> list_ex (attempt_of key) fs" "u \<le> now'" "now + 1000 * r \<le> now'"
    and "fst (authenticate_begin cfg key username password now' s) = Some (RateLimited n)"
  shows "fs \<noteq> [] \<and> dc_maxClients cfg \<le>
    int (card {k. k \<noteq> key \<and> (\<exists>a. map_of (lm_map (si_limiter s)) k = Some a \<and> now' < reset_of (si_limiter s) a)})"
proof -
  have "fs \<noteq> []"
  proof
    assume "fs = []"
    then have "sign_in_run lib cfg u (es @ [Began key now (Some (RateLimited r))]) s" using assms(2) by simp
    from refused_then_granted[OF assms(1) this assms(5)] show False using assms(6) by blast
  qed
  have "ends_by key (now + 1000 * r) (si_limiter s)" by (rule waiting_run[OF assms(1,2) refl assms(3)])
  then have e: "ends_by key now' (si_limiter s)" using assms(5) by (force simp: ends_by_def)
  obtain s' where b: "authenticate_begin cfg key username password now' s = (Some (RateLimited n), s')"
    using assms(6) by (metis prod.collapse)
  then obtain c L where "reserveRateLimit cfg key now' (si_limiter s) = (Refused n c, L)"
    by (cases rule: authenticate_begin_cases) auto
  from refused_full[OF run_map_ok(2)[OF assms(1,2)] e assms(1) this] show ?thesis using \<open>fs \<noteq> []\<close> by blast
qed

section \<open>Evaluation\<close>

definition sample_lib :: auth_lib where
  "sample_lib = \<lparr>al_sha256 = id, al_md5 = id, al_hmac = (\<lambda>k m. k), al_pbkdf2 = (\<lambda>p s n l. Some (replicate l 0)),
     al_decode64 = (\<lambda>t. []), al_utf8 = (\<lambda>bs. []), al_json = (\<lambda>t. None)\<rparr>"

definition sample_config :: dashboard_auth where
  "sample_config = \<lparr>dc_users = [], dc_secret = [], dc_cookieName = ''fm_bi_session'', dc_ttl = 2592000,
     dc_window = 900000, dc_maxAttempts = 5, dc_maxBody = 16384, dc_secure = True, dc_trustProxy = False,
     dc_publicOrigin = [], dc_maxClients = 10000, dc_maxKdfs = 8\<rparr>"

lemma sample_positive: "limits_positive sample_config"
  by (simp add: limits_positive_def sample_config_def)

definition tries :: "string \<Rightarrow> jsv \<Rightarrow> nat \<Rightarrow> move list" where
  "tries key name n = replicate n (Try key name (JStr ''pw'') 1000)"

text \<open>Five failures of one client; four unreadable names of each of two clients.\<close>

definition guesses :: "move list" where
  "guesses = concat (replicate 5 [Try ''1.2.3.4'' (JStr ''eve'') (JStr ''pw'') 1000, Settle 0])"

definition unreadable :: jsv where
  "unreadable = JObj [(''toString'', JNull)]"

definition floods :: "move list" where
  "floods = tries ''1.2.3.4'' unreadable 4 @ tries ''1.2.3.5'' unreadable 4"

definition start_world :: "int \<times> sign_in_event list \<times> sign_in_state" where
  "start_world = (0, [], initial_sign_in)"

definition after :: "move list \<Rightarrow> int \<times> sign_in_event list \<times> sign_in_state" where
  "after ms = (case play sample_lib sample_config ms start_world of Some w \<Rightarrow> w | None \<Rightarrow> start_world)"

lemma after_run: "sign_in_run sample_lib sample_config (fst (after ms)) (fst (snd (after ms))) (snd (snd (after ms)))"
proof -
  have s: "sign_in_run sample_lib sample_config (fst start_world) (fst (snd start_world)) (snd (snd start_world))"
    by (simp add: start_world_def sign_in_run.start)
  show ?thesis
    using play_run[OF _ s] s by (cases "play sample_lib sample_config ms start_world") (simp_all add: after_def)
qed

lemma guesses_facts:
  "succeeded_keys (fst (snd (after guesses))) = []" "length (failed_checks (fst (snd (after guesses)))) = 5"
  "fst (after guesses) = 1000"
  "fst (authenticate_begin sample_config ''1.2.3.4'' JNull JNull 2000 (snd (snd (after guesses)))) = Some (RateLimited 899)"
  by code_simp+

lemma floods_facts: "leaked_checks (fst (snd (after floods))) = 8"
  by code_simp

theorem failed_sign_ins_are_limited_witness:
  "length (failed_checks (fst (snd (after guesses)))) = 5
   \<and> int (length (filter (\<lambda>p. pc_key p = ''1.2.3.4'' \<and> 0 \<le> pc_now p \<and> pc_now p < 0 + dc_window sample_config)
       (failed_checks (fst (snd (after guesses)))))) \<le> 2 * dc_maxAttempts sample_config"
  using failed_sign_ins_are_limited[OF sample_positive after_run, of "''1.2.3.4''" guesses 0] guesses_facts(1,2) by simp

theorem unreadable_names_use_up_the_checks_witness:
  "leaked_checks (fst (snd (after floods))) = 8
   \<and> (\<exists>n. fst (authenticate_begin sample_config ''9.9.9.9'' (JStr ''ann'') (JStr ''pw'') 2000 (snd (snd (after floods))))
        \<in> {Some (RateLimited n), Some (Busy 1)})"
  using unreadable_names_use_up_the_checks[OF sample_positive after_run, of floods] floods_facts
  by (simp add: sample_config_def)

text \<open>The client that was refused waits; another one signs in meanwhile.\<close>

definition patience :: "move list" where
  "patience = guesses @ [Try ''1.2.3.4'' JNull JNull 2000, Try ''5.6.7.8'' (JStr ''bob'') (JStr ''pw'') 3000]"

lemma patience_facts:
  "drop 10 (fst (snd (after patience))) = [Began ''1.2.3.4'' 2000 (Some (RateLimited 899)), Began ''5.6.7.8'' 3000 None]"
  "fst (after patience) = 3000" "length (lm_map (si_limiter (snd (snd (after patience))))) = 2"
  by code_simp+

theorem waiting_as_told_is_enough_witness:
  "\<nexists>n. fst (authenticate_begin sample_config ''1.2.3.4'' JNull JNull (2000 + 1000 * 899) (snd (snd (after patience)))) = Some (RateLimited n)"
proof (rule notI, elim exE)
  fix n
  let ?L = "si_limiter (snd (snd (after patience)))" and ?now = "2000 + 1000 * 899 :: int"
  let ?live = "{k. k \<noteq> ''1.2.3.4'' \<and> (\<exists>a. map_of (lm_map ?L) k = Some a \<and> ?now < reset_of ?L a)}"
  assume again: "fst (authenticate_begin sample_config ''1.2.3.4'' JNull JNull ?now (snd (snd (after patience)))) = Some (RateLimited n)"
  have "sign_in_run sample_lib sample_config 3000 (take 10 (fst (snd (after patience)))
      @ Began ''1.2.3.4'' 2000 (Some (RateLimited 899)) # [Began ''5.6.7.8'' 3000 None]) (snd (snd (after patience)))"
    using after_run[of patience] append_take_drop_id[of 10 "fst (snd (after patience))"] by (simp add: patience_facts(1,2))
  from waiting_as_told_is_enough[OF sample_positive this _ _ _ again]
  have "dc_maxClients sample_config \<le> int (card ?live)" by simp
  moreover have "?live \<subseteq> fst ` set (lm_map ?L)" by (force dest: map_of_SomeD)
  then have "card ?live \<le> card (fst ` set (lm_map ?L))" by (rule card_mono[rotated]) simp
  then have "card ?live \<le> 2" using card_length[of "map fst (lm_map ?L)"] patience_facts(3) by simp
  ultimately show False by (simp add: sample_config_def)
qed

end
