(* ===== verification/Dashboard_Session_Properties.thy ===== *)
theory Dashboard_Session_Properties
  imports Dashboard_Auth_Properties
begin

text \<open>
  Sessions, the costs of a check, the configuration and the way to the pages: which tokens are accepted and
  for how long, what a name that is not registered costs, and what a request needs to get past the sign-in.
\<close>

section \<open>Codecs\<close>

text \<open>
  The documented laws of the decoders: URL-safe base64 and UTF-8 read back what was written. \<open>parses\<close> says
  it of \<open>JSON.parse\<close> and one value.
\<close>

definition codec_ok :: "auth_lib \<Rightarrow> bool" where
  "codec_ok lib \<longleftrightarrow> (\<forall>bs. al_decode64 lib (base64url bs) = bs) \<and> (\<forall>t. al_utf8 lib (utf8 t) = t)"

definition parses :: "auth_lib \<Rightarrow> jsv \<Rightarrow> bool" where
  "parses lib v \<longleftrightarrow> al_json lib (json_string v) = Some v"

lemma outside_alphabet: "\<not> b64_alphabet CHR ''=''" "\<not> b64_alphabet CHR ''.''" "\<not> b64_alphabet CHR ''-''" "\<not> b64_alphabet CHR ''_''"
  by code_simp+

lemma alphabet_facts:
  assumes "b64_alphabet c" shows "c \<noteq> CHR ''=''" "url_char c \<noteq> CHR ''.''"
proof -
  show "c \<noteq> CHR ''=''" using assms outside_alphabet(1) by blast
  have "c \<noteq> CHR ''.''" using assms outside_alphabet(2) by blast
  then show "url_char c \<noteq> CHR ''.''" by (simp add: url_char_def)
qed

lemma base64url_form:
  "\<exists>body n. b64_encode bs = body @ replicate n CHR ''='' \<and> n \<le> 2 \<and> list_all b64_alphabet body
     \<and> base64url bs = map url_char body"
proof -
  obtain body pad where e: "b64_encode bs = body @ pad" "list_all b64_alphabet body" "pad \<in> {[], ''='', ''==''}"
    using b64_encode_form[of bs] by blast
  obtain n where n: "pad = replicate n CHR ''=''" "n \<le> 2"
  proof -
    have "pad = replicate 0 CHR ''='' \<or> pad = replicate (Suc 0) CHR ''='' \<or> pad = replicate (Suc (Suc 0)) CHR ''=''"
      using e(3) by simp
    then show thesis using that[of 0] that[of "Suc 0"] that[of "Suc (Suc 0)"] by linarith
  qed
  have "\<And>c. c \<in> set body \<Longrightarrow> c \<noteq> CHR ''=''" using e(2) alphabet_facts(1) by (metis list_all_iff)
  then have "takeWhile (\<lambda>c. c \<noteq> CHR ''='') (body @ pad) = body @ takeWhile (\<lambda>c. c \<noteq> CHR ''='') pad"
    by (rule takeWhile_append2)
  moreover have "takeWhile (\<lambda>c. c \<noteq> CHR ''='') pad = []" unfolding n(1) by (cases n) simp_all
  ultimately have "base64url bs = map url_char body" by (simp add: base64url_def e(1))
  then have "b64_encode bs = body @ replicate n CHR ''='' \<and> n \<le> 2 \<and> list_all b64_alphabet body \<and> base64url bs = map url_char body"
    using e(1,2) n by simp
  then show ?thesis by blast
qed

lemma base64url_no_dot: "CHR ''.'' \<notin> set (base64url bs)"
proof -
  obtain body where "list_all b64_alphabet body" "base64url bs = map url_char body" using base64url_form[of bs] by blast
  then show ?thesis using alphabet_facts(2) by (auto simp: list_all_iff dest: sym)
qed

lemma base64url_eq_Nil: "base64url bs = [] \<longleftrightarrow> bs = []"
proof -
  obtain body n where f: "b64_encode bs = body @ replicate n CHR ''=''" "n \<le> 2" "list_all b64_alphabet body"
    "base64url bs = map url_char body" using base64url_form[of bs] by blast
  show ?thesis
  proof
    assume "base64url bs = []"
    then have "b64_encode bs = replicate n CHR ''=''" using f by simp
    then have "n mod 4 = 0" using b64_encode_length[of bs] by simp
    then have "n = 0" using f(2) by (cases "n = 0") simp_all
    then show "bs = []" using \<open>b64_encode bs = replicate n CHR ''=''\<close> by simp
  qed (simp add: base64url_def)
qed

section \<open>Tokens\<close>

lemma split_on_none: "c \<notin> set s \<Longrightarrow> split_on c s = [s]"
  by (induction s) auto

lemma split_on_append: "c \<notin> set p \<Longrightarrow> split_on c (p @ c # s) = p # split_on c s"
  by (induction p) (auto split: list.splits)

lemma split_on_nonempty: "split_on c s \<noteq> []"
  by (induction s) (auto split: list.splits)

lemma split_on_two:
  "split_on c t = [p, s] \<Longrightarrow> t = p @ c # s \<and> c \<notin> set p \<and> c \<notin> set s"
proof (induction t arbitrary: p)
  case (Cons x t)
  show ?case
  proof (cases "x = c")
    case True
    then have "p = []" "split_on c t = [s]" using Cons.prems by auto
    moreover have "split_on c t = [s] \<Longrightarrow> t = s \<and> c \<notin> set s" for t s
    proof (induction t arbitrary: s)
      case (Cons y t)
      then show ?case using split_on_nonempty[of c t] by (auto split: if_splits list.splits)
    qed simp
    ultimately show ?thesis using True by simp
  next
    case False
    then obtain p' where "split_on c t = [p', s]" "p = x # p'"
      using Cons.prems split_on_nonempty[of c t] by (auto split: list.splits)
    then show ?thesis using Cons.IH False by simp
  qed
qed simp

text \<open>What an accepted token is: a payload, its signature under the secret, and claims of a registered user.\<close>

definition signed_token :: "auth_lib \<Rightarrow> dashboard_auth \<Rightarrow> string \<Rightarrow> string" where
  "signed_token lib cfg payload = payload @ ''.'' @ base64url (session_signature lib cfg payload)"

definition payload_claims :: "auth_lib \<Rightarrow> dashboard_auth \<Rightarrow> string \<Rightarrow> int \<Rightarrow> (auth_user \<times> int) option" where
  "payload_claims lib cfg payload now =
     Option.bind (al_json lib (al_utf8 lib (al_decode64 lib payload))) (\<lambda>session.
     Option.bind (session_claims cfg now session) (\<lambda>(u, c, issued).
     Option.bind (map_of (dc_users cfg) (js_lower u)) (\<lambda>user.
       if du_username user = u \<and> du_tag user = c then Some (user, issued) else None)))"

lemma verifySession_signed:
  assumes codec: "codec_ok lib" and sig: "session_signature lib cfg payload \<noteq> []"
    and p: "payload \<noteq> []" "CHR ''.'' \<notin> set payload"
  shows "verifySession lib cfg (signed_token lib cfg payload) now = payload_claims lib cfg payload now"
proof -
  have "split_on CHR ''.'' (signed_token lib cfg payload) = [payload, base64url (session_signature lib cfg payload)]"
    using p(2) by (simp add: signed_token_def split_on_append split_on_none base64url_no_dot)
  then show ?thesis
    using codec sig p(1)
    by (simp add: verifySession_def payload_claims_def base64url_eq_Nil codec_ok_def Let_def
        split: option.splits bind_splits prod.splits)
qed

lemma verifySession_SomeD:
  assumes "verifySession lib cfg token now = Some (user, issued)"
  shows "\<exists>payload. token = signed_token lib cfg payload \<and> payload \<noteq> [] \<and> CHR ''.'' \<notin> set payload
    \<and> session_signature lib cfg payload \<noteq> [] \<and> payload_claims lib cfg payload now = Some (user, issued)"
proof -
  obtain payload supplied where s: "split_on CHR ''.'' token = [payload, supplied]"
    using assms by (auto simp: verifySession_def split: list.splits)
  then have t: "token = payload @ ''.'' @ supplied" "CHR ''.'' \<notin> set payload" using split_on_two[OF s] by auto
  have "base64url (al_decode64 lib supplied) = supplied" "al_decode64 lib supplied = session_signature lib cfg payload"
    "payload \<noteq> []" "supplied \<noteq> []"
    using assms by (auto simp: verifySession_def s Let_def split: if_splits)
  moreover have "payload_claims lib cfg payload now = Some (user, issued)"
    using assms by (auto simp: verifySession_def s Let_def payload_claims_def split: if_splits option.splits prod.splits)
  ultimately show ?thesis using t base64url_eq_Nil by (auto simp: signed_token_def)
qed

lemma session_claimsD:
  assumes "session_claims cfg now session = Some (u, c, issued)"
  shows "issued \<le> now div 1000 + 60" "now div 1000 < issued + dc_ttl cfg"
  using assms by (auto simp: session_claims_def Let_def split: if_splits jsv.splits option.splits)

text \<open>
  C16. A session is worth nothing without the secret and ends with its time. An accepted token is a payload
  followed by the signature of that payload under the secret; its user is the one who is registered under
  its name, it was issued at most a minute ahead of the clock and is younger than the configured life time.
\<close>

theorem accepted_sessions_are_signed:
  "case verifySession lib cfg token now of
     None \<Rightarrow> True
   | Some (user, issued) \<Rightarrow>
       (\<exists>payload. token = payload @ ''.'' @ base64url (session_signature lib cfg payload))
       \<and> map_of (dc_users cfg) (js_lower (du_username user)) = Some user
       \<and> issued \<le> now div 1000 + 60 \<and> now div 1000 < issued + dc_ttl cfg"
proof (cases "verifySession lib cfg token now")
  case (Some r)
  obtain user issued where r: "r = (user, issued)" by force
  obtain payload where p: "token = signed_token lib cfg payload" "payload_claims lib cfg payload now = Some (user, issued)"
    using verifySession_SomeD Some r by blast
  then obtain session u c where "session_claims cfg now session = Some (u, c, issued)"
    "map_of (dc_users cfg) (js_lower u) = Some user" "du_username user = u"
    by (auto simp: payload_claims_def bind_eq_Some_conv split: if_splits)
  then show ?thesis using Some r p(1) session_claimsD by (auto simp: signed_token_def)
qed simp

text \<open>What a session that is issued carries.\<close>

definition session_of :: "dashboard_auth \<Rightarrow> auth_user \<Rightarrow> int \<Rightarrow> jsv" where
  "session_of cfg u now = session_json u (now div 1000) (now div 1000 + dc_ttl cfg)"

definition registered :: "dashboard_auth \<Rightarrow> auth_user \<Rightarrow> bool" where
  "registered cfg u \<longleftrightarrow> map_of (dc_users cfg) (js_lower (du_username u)) = Some u"

definition safe_time :: "dashboard_auth \<Rightarrow> int \<Rightarrow> bool" where
  "safe_time cfg now \<longleftrightarrow> 0 \<le> now \<and> 0 < dc_ttl cfg \<and> now div 1000 + dc_ttl cfg \<le> max_safe"

lemma session_claims_issued:
  assumes "safe_time cfg now"
  shows "session_claims cfg now' (session_of cfg u now) =
    (if now' div 1000 + 60 < now div 1000 \<or> now div 1000 + dc_ttl cfg \<le> now' div 1000 then None
     else Some (du_username u, du_tag u, now div 1000))"
proof -
  have "0 \<le> now div 1000" using assms by (simp add: safe_time_def pos_imp_zdiv_nonneg_iff)
  then have "\<bar>now div 1000\<bar> \<le> max_safe" "\<bar>now div 1000 + dc_ttl cfg\<bar> \<le> max_safe"
    using assms unfolding safe_time_def by linarith+
  then show ?thesis by (simp add: session_claims_def session_of_def session_json_def Let_def)
qed

lemma issued_payload:
  assumes "codec_ok lib" "parses lib (session_of cfg u now)" "registered cfg u" "safe_time cfg now"
  shows "payload_claims lib cfg (session_payload cfg u now) now' =
    (if now' div 1000 + 60 < now div 1000 \<or> now div 1000 + dc_ttl cfg \<le> now' div 1000 then None else Some (u, now div 1000))"
proof -
  have "al_json lib (al_utf8 lib (al_decode64 lib (session_payload cfg u now))) = Some (session_of cfg u now)"
    using assms(1,2) by (simp add: session_payload_def codec_ok_def parses_def session_of_def)
  then show ?thesis
    using assms(3) by (simp add: payload_claims_def session_claims_issued[OF assms(4)] registered_def)
qed

lemma session_payload_nonempty: "session_payload cfg u now \<noteq> []"
proof -
  have "json_string (session_of cfg u now) \<noteq> []"
    by (simp add: json_string_def session_of_def session_json_def json_quote_def)
  then obtain c t where t: "json_string (session_of cfg u now) = c # t" by (cases "json_string (session_of cfg u now)") auto
  have "utf8 (c # t) \<noteq> []" by (simp add: utf8_def utf8_char_def)
  then show ?thesis using t by (simp add: session_payload_def base64url_eq_Nil session_of_def)
qed

lemma issued_session_verified:
  assumes "codec_ok lib" "session_signature lib cfg (session_payload cfg u now) \<noteq> []"
    and "parses lib (session_of cfg u now)" "registered cfg u" "safe_time cfg now"
  shows "verifySession lib cfg (create_session lib cfg u now) now' =
    (if now' div 1000 + 60 < now div 1000 \<or> now div 1000 + dc_ttl cfg \<le> now' div 1000 then None
     else Some (u, now div 1000))"
proof -
  have "create_session lib cfg u now = signed_token lib cfg (session_payload cfg u now)"
    by (simp add: create_session_def signed_token_def Let_def)
  then show ?thesis
    using verifySession_signed[OF assms(1,2) session_payload_nonempty]
    by (simp add: session_payload_def base64url_no_dot issued_payload[OF assms(1,3,4,5), unfolded session_payload_def])
qed

text \<open>
  A session is accepted for exactly its life time. The token issued to a registered user is accepted, for
  that user and with the second of its issue, as long as less than the configured life time has passed since
  (and the clock is not set back by more than a minute), and not later.
\<close>

theorem issued_sessions_are_accepted:
  assumes "codec_ok lib" "session_signature lib cfg (session_payload cfg u now) \<noteq> []"
    and "parses lib (session_of cfg u now)" "registered cfg u" "safe_time cfg now"
  shows "verifySession lib cfg (create_session lib cfg u now) now' =
    (if now' div 1000 + 60 < now div 1000 \<or> now div 1000 + dc_ttl cfg \<le> now' div 1000 then None
     else Some (u, now div 1000))"
  using assms by (rule issued_session_verified)

section \<open>Staying signed in\<close>

lemma trim_unspaced: "list_all (\<lambda>c. \<not> is_space c) s \<Longrightarrow> js_trim s = s"
proof -
  have "list_all (\<lambda>c. \<not> is_space c) s \<Longrightarrow> dropWhile is_space s = s" for s by (cases s) auto
  then show "list_all (\<lambda>c. \<not> is_space c) s \<Longrightarrow> js_trim s = s" by (simp add: js_trim_def)
qed

lemma outside_special: "\<not> is_space CHR ''-''" "\<not> is_space CHR ''_''"
  by code_simp+

lemma alphabet_plain:
  assumes "b64_alphabet c" shows "\<not> is_space c" "c \<noteq> CHR '';''"
proof -
  have "\<not> b64_alphabet CHR '';''" by code_simp
  then show "c \<noteq> CHR '';''" using assms by blast
  show "\<not> is_space c" using assms
    unfolding b64_alphabet_def is_space_def is_upper_def is_lower_def is_digit_def by (elim disjE) simp_all
qed

lemma token_char: "b64_alphabet c \<Longrightarrow> \<not> is_space (url_char c) \<and> url_char c \<noteq> CHR '';''"
  using alphabet_plain outside_special by (auto simp: url_char_def)

lemma base64url_chars:
  assumes "c \<in> set (base64url bs)" shows "\<not> is_space c \<and> c \<noteq> CHR '';''"
proof -
  obtain body where b: "list_all b64_alphabet body" "base64url bs = map url_char body" using base64url_form[of bs] by blast
  then obtain d where "d \<in> set body" "c = url_char d" using assms by auto
  then show ?thesis using token_char b(1) by (auto simp: list_all_iff)
qed

lemma session_chars:
  "list_all (\<lambda>c. \<not> is_space c) (create_session lib cfg u now)" "CHR '';'' \<notin> set (create_session lib cfg u now)"
proof -
  have dot: "\<not> is_space CHR ''.''" by code_simp
  show "list_all (\<lambda>c. \<not> is_space c) (create_session lib cfg u now)"
    using base64url_chars dot by (auto simp: create_session_def session_payload_def Let_def list_all_iff)
  show "CHR '';'' \<notin> set (create_session lib cfg u now)"
    using base64url_chars by (auto simp: create_session_def session_payload_def Let_def)
qed

lemma trim_blank: "js_trim (CHR '' '' # s) = js_trim s"
proof -
  have "is_space CHR '' ''" by code_simp
  then show ?thesis by (simp add: js_trim_def)
qed

text \<open>A cookie name holds no separator and no blank.\<close>

lemma name_char:
  assumes "is_upper c \<or> is_lower c \<or> is_digit c \<or> c = CHR ''_'' \<or> c = CHR ''-''"
  shows "\<not> is_space c" "c \<noteq> CHR '';''" "c \<noteq> CHR ''=''"
proof -
  consider "b64_alphabet c" | "c = CHR ''_''" | "c = CHR ''-''" using assms by (auto simp: b64_alphabet_def)
  note cs = this
  show "\<not> is_space c" by (rule cs) (use alphabet_plain outside_special in auto)
  show "c \<noteq> CHR '';''" by (rule cs) (use alphabet_plain in auto)
  show "c \<noteq> CHR ''=''" by (rule cs) (use outside_alphabet in auto)
qed

lemma name_chars:
  assumes "cookie_name_pattern n"
  shows "n \<noteq> []" "list_all (\<lambda>c. \<not> is_space c) n" "CHR '';'' \<notin> set n" "CHR ''='' \<notin> set n"
proof -
  show "n \<noteq> []" using assms by (simp add: cookie_name_pattern_def)
  have "\<not> is_space c \<and> c \<noteq> CHR '';'' \<and> c \<noteq> CHR ''=''" if "c \<in> set n" for c
    by (intro conjI; rule name_char) (use assms that in \<open>simp_all add: cookie_name_pattern_def list_all_iff\<close>)
  then show "list_all (\<lambda>c. \<not> is_space c) n" "CHR '';'' \<notin> set n" "CHR ''='' \<notin> set n" unfolding list_all_iff by blast+
qed

lemma session_token_of_cookie:
  assumes "wr_cookie q = dc_cookieName cfg @ ''='' @ create_session lib cfg u now" "cookie_name_pattern (dc_cookieName cfg)"
  shows "session_token cfg q = create_session lib cfg u now"
proof -
  let ?t = "create_session lib cfg u now" and ?n = "dc_cookieName cfg"
  note n = name_chars[OF assms(2)]
  have "split_on CHR '';'' (?n @ ''='' @ ?t) = [?n @ ''='' @ ?t]"
    using session_chars(2) n(3) by (intro split_on_none) simp
  moreover have "takeWhile (\<lambda>c. c \<noteq> CHR ''='') (?n @ ''='' @ ?t) = ?n" using n(4) by (subst takeWhile_append2) auto
  ultimately have "parseCookies (wr_cookie q) = [(?n, ?t)]"
    using trim_unspaced[OF session_chars(1)] trim_unspaced[OF n(2)] n(1) by (simp add: parseCookies_def assms(1) Let_def)
  then show ?thesis by (simp add: session_token_def)
qed

text \<open>
  A browser with one cookie of the server. Of a \<open>Set-Cookie\<close> header it keeps the text before the first
  semicolon and the moment at which the \<open>Max-Age\<close> that is announced has passed; until then it sends the
  text back with every request.
\<close>

record kept_cookie =
  kc_pair :: string
  kc_until :: int

definition max_age :: "string \<Rightarrow> int" where
  [js_eval]: "max_age header =
     (case find (starts_with ''Max-Age='') (map js_trim (tl (split_on (CHR '';'') header))) of
        None \<Rightarrow> 0
      | Some t \<Rightarrow> int (read_nat (drop 8 t)))"

definition keep_cookie :: "string \<Rightarrow> int \<Rightarrow> kept_cookie" where
  [js_eval]: "keep_cookie header now =
     \<lparr>kc_pair = hd (split_on (CHR '';'') header), kc_until = now + 1000 * max_age header\<rparr>"

definition sent_cookie :: "kept_cookie \<Rightarrow> int \<Rightarrow> string" where
  [js_eval]: "sent_cookie k now = (if now < kc_until k then kc_pair k else [])"

lemma digits_plain:
  assumes "list_all is_digit s" shows "CHR '';'' \<notin> set s" "list_all (\<lambda>c. \<not> is_space c) s"
proof -
  have "\<not> is_space c \<and> c \<noteq> CHR '';''" if "c \<in> set s" for c
    by (intro conjI; rule name_char) (use assms that in \<open>simp_all add: list_all_iff\<close>)
  then show "CHR '';'' \<notin> set s" "list_all (\<lambda>c. \<not> is_space c) s" unfolding list_all_iff by blast+
qed

lemma kept_session:
  assumes "cookie_name_pattern (dc_cookieName cfg)" "0 \<le> dc_ttl cfg"
  shows "keep_cookie (session_cookie lib cfg u now) now =
    \<lparr>kc_pair = dc_cookieName cfg @ ''='' @ create_session lib cfg u now, kc_until = now + 1000 * dc_ttl cfg\<rparr>"
proof -
  let ?pair = "dc_cookieName cfg @ ''='' @ create_session lib cfg u now" and ?age = "show_nat (nat (dc_ttl cfg))"
  let ?rest = "if dc_secure cfg then [''Secure''] else []"
  have age: "show_int (dc_ttl cfg) = ?age" using assms(2) by (simp add: show_int_def)
  note digits = digits_plain[OF show_nat_digits[of "nat (dc_ttl cfg)"]]
  have "CHR '';'' \<notin> set ?pair" using name_chars(3)[OF assms(1)] session_chars(2) by simp
  moreover have "split_on CHR '';'' ('' Max-Age='' @ ?age) = ['' Max-Age='' @ ?age]"
    "split_on CHR '';'' ('' Max-Age='' @ ?age @ CHR '';'' # '' Secure'') = ['' Max-Age='' @ ?age, '' Secure'']"
    using digits split_on_append[of "CHR '';''" "'' Max-Age='' @ ?age" "'' Secure''"] split_on_none[of "CHR '';''" "'' Secure''"]
      split_on_none[of "CHR '';''" "'' Max-Age='' @ ?age"] by (simp_all del: split_on.simps)
  ultimately have split: "split_on CHR '';'' (session_cookie lib cfg u now) =
      [?pair, '' Path=/'', '' HttpOnly'', '' SameSite=Lax'', '' Max-Age='' @ ?age] @ map (\<lambda>s. CHR '' '' # s) ?rest"
    using split_on_append[of "CHR '';''" ?pair "'' Path=/; HttpOnly; SameSite=Lax; Max-Age='' @ ?age"]
      split_on_append[of "CHR '';''" ?pair "'' Path=/; HttpOnly; SameSite=Lax; Max-Age='' @ ?age @ ''; Secure''"]
    by (simp add: session_cookie_def cookie_attributes_def age)
  have "list_all (\<lambda>c. \<not> is_space c) ''Path=/''" "list_all (\<lambda>c. \<not> is_space c) ''HttpOnly''"
    "list_all (\<lambda>c. \<not> is_space c) ''SameSite=Lax''" "list_all (\<lambda>c. \<not> is_space c) ''Max-Age=''" by code_simp+
  then have trims: "js_trim ''Path=/'' = ''Path=/''" "js_trim ''HttpOnly'' = ''HttpOnly''"
    "js_trim ''SameSite=Lax'' = ''SameSite=Lax''" "js_trim (''Max-Age='' @ ?age) = ''Max-Age='' @ ?age"
    using digits by (simp_all add: trim_unspaced del: append.simps)
  then have "max_age (session_cookie lib cfg u now) = dc_ttl cfg"
    using assms(2) by (simp add: max_age_def split trim_blank starts_with_def)
  then show ?thesis by (simp add: keep_cookie_def split)
qed

text \<open>The visits of such a browser, each with its time; a refreshed cookie replaces the one that is kept.\<close>

fun visits :: "auth_lib \<Rightarrow> dashboard_auth \<Rightarrow> kept_cookie \<Rightarrow> (web_request \<times> int) list \<Rightarrow> bool" where
  "visits lib cfg k [] = True"
| "visits lib cfg k ((q, now) # vs) =
     (wr_cookie q = sent_cookie k now
      \<and> visits lib cfg (case refreshCookieForRequest lib cfg q now of None \<Rightarrow> k | Some h \<Rightarrow> keep_cookie h now) vs)"

text \<open>No pause is longer than half a life time.\<close>

fun pauses_short :: "dashboard_auth \<Rightarrow> int \<Rightarrow> (web_request \<times> int) list \<Rightarrow> bool" where
  "pauses_short cfg prev [] = True"
| "pauses_short cfg prev ((q, now) # vs) = (prev \<le> now \<and> now - prev \<le> 500 * dc_ttl cfg \<and> pauses_short cfg now vs)"

definition sessions_work :: "auth_lib \<Rightarrow> dashboard_auth \<Rightarrow> auth_user \<Rightarrow> int \<Rightarrow> bool" where
  "sessions_work lib cfg u now \<longleftrightarrow>
     session_signature lib cfg (session_payload cfg u now) \<noteq> [] \<and> parses lib (session_of cfg u now) \<and> safe_time cfg now"

lemma accepted_in_time:
  assumes "codec_ok lib" "registered cfg u" "cookie_name_pattern (dc_cookieName cfg)" "sessions_work lib cfg u issued"
    and "wr_cookie q = dc_cookieName cfg @ ''='' @ create_session lib cfg u issued"
    and "issued div 1000 \<le> now div 1000" "now div 1000 < issued div 1000 + dc_ttl cfg"
  shows "verifySession lib cfg (session_token cfg q) now = Some (u, issued div 1000)"
proof -
  have "\<not> (now div 1000 + 60 < issued div 1000 \<or> issued div 1000 + dc_ttl cfg \<le> now div 1000)"
    using assms(6,7) by linarith
  then show ?thesis
    using issued_session_verified[OF assms(1) _ _ assms(2), of issued now] session_token_of_cookie[OF assms(5,3)] assms(4)
    by (simp add: sessions_work_def)
qed

lemma refresh_of_session:
  assumes "codec_ok lib" "registered cfg u" "cookie_name_pattern (dc_cookieName cfg)" "sessions_work lib cfg u issued"
    and "wr_cookie q = dc_cookieName cfg @ ''='' @ create_session lib cfg u issued"
    and "issued div 1000 \<le> now div 1000" "now div 1000 < issued div 1000 + dc_ttl cfg"
  shows "refreshCookieForRequest lib cfg q now =
    (if now div 1000 - issued div 1000 < max 1 (dc_ttl cfg div 2) then None else Some (session_cookie lib cfg u now))"
  using accepted_in_time[OF assms] by (simp add: refreshCookieForRequest_def)

lemma half_in_seconds:
  fixes prev now T :: int
  assumes "now - prev \<le> 500 * T" shows "now div 1000 - prev div 1000 \<le> T - T div 2"
proof -
  define d where "d = T div 2"
  have "2 * d \<le> T" by (simp add: d_def)
  then have "now \<le> prev + 1000 * (T - d)" using assms by (simp add: algebra_simps)
  then have "now div 1000 \<le> (prev + 1000 * (T - d)) div 1000" by (rule zdiv_mono1) simp
  then show ?thesis by (simp add: d_def)
qed

lemma visits_accepted:
  assumes "codec_ok lib" "registered cfg u" "cookie_name_pattern (dc_cookieName cfg)" "2 \<le> dc_ttl cfg"
  shows "\<lbrakk>visits lib cfg (keep_cookie (session_cookie lib cfg u issued) issued) vs; pauses_short cfg prev vs;
     sessions_work lib cfg u issued; \<And>q now. (q, now) \<in> set vs \<Longrightarrow> sessions_work lib cfg u now;
     issued \<le> prev; prev div 1000 - issued div 1000 < dc_ttl cfg div 2; (q, now) \<in> set vs\<rbrakk>
    \<Longrightarrow> authenticateRequest lib cfg q now = Some (publicUser u)"
proof (induction vs arbitrary: issued prev)
  case (Cons v vs)
  have ttl: "max 1 (dc_ttl cfg div 2) = dc_ttl cfg div 2" "0 \<le> dc_ttl cfg" using assms(4) by linarith+
  note kept = kept_session[OF assms(3) ttl(2)]
  obtain q0 t where v: "v = (q0, t)" by force
  have w: "sessions_work lib cfg u issued" "sessions_work lib cfg u t" using Cons.prems(3,4) v by auto
  have gap: "prev \<le> t" "t - prev \<le> 500 * dc_ttl cfg" "pauses_short cfg t vs" using Cons.prems(2) v by auto
  have mono: "issued div 1000 \<le> t div 1000" using Cons.prems(5) gap(1) by (simp add: zdiv_mono1)
  have late: "t div 1000 < issued div 1000 + dc_ttl cfg" using half_in_seconds[OF gap(2)] Cons.prems(6) by linarith
  then have "t < issued + 1000 * dc_ttl cfg" by linarith
  then have cookie: "wr_cookie q0 = dc_cookieName cfg @ ''='' @ create_session lib cfg u issued"
    using Cons.prems(1) by (simp add: v kept sent_cookie_def)
  note refresh = refresh_of_session[OF assms(1-3) w(1) cookie mono late, unfolded ttl(1)]
  let ?next = "if t div 1000 - issued div 1000 < dc_ttl cfg div 2 then issued else t"
  show ?case
  proof (cases "(q, now) = v")
    case True
    then show ?thesis
      using accepted_in_time[OF assms(1-3) w(1) cookie mono late] v by (simp add: authenticateRequest_def verifyToken_def)
  next
    case False
    then have m: "(q, now) \<in> set vs" using Cons.prems(7) by auto
    have "visits lib cfg (keep_cookie (session_cookie lib cfg u ?next) ?next) vs"
      using Cons.prems(1) by (simp add: v refresh split: if_splits)
    moreover have "?next \<le> t" using Cons.prems(5) gap(1) by simp
    moreover have "t div 1000 - ?next div 1000 < dc_ttl cfg div 2" using assms(4) by auto
    ultimately show ?thesis
      using Cons.IH[of ?next t] gap(3) w Cons.prems(4) m by (auto split: if_splits)
  qed
qed simp

text \<open>
  C15. A user who keeps coming back stays signed in. A browser that keeps the cookie of the sign-in, replaces it by
  every one that a request (other than a sign-out) is answered with and drops it when its announced age has passed
  is accepted as that user at every visit, however many there are, if no pause from the sign-in on is longer than half the life time
  of a session: the session and the cookie that are renewed in the second half of a life time run from the
  renewal on, and the renewal always comes in time.
\<close>

theorem active_users_stay_signed_in:
  assumes "codec_ok lib" "registered cfg u" "cookie_name_pattern (dc_cookieName cfg)" "2 \<le> dc_ttl cfg"
    and "sessions_work lib cfg u start" "\<And>q now. (q, now) \<in> set vs \<Longrightarrow> sessions_work lib cfg u now"
    and "visits lib cfg (keep_cookie (session_cookie lib cfg u start) start) vs" "pauses_short cfg start vs"
  shows "list_all (\<lambda>(q, now). authenticateRequest lib cfg q now = Some (publicUser u)) vs"
proof -
  have half: "start div 1000 - start div 1000 < dc_ttl cfg div 2" using assms(4) by linarith
  have "authenticateRequest lib cfg q now = Some (publicUser u)" if "(q, now) \<in> set vs" for q now
    by (rule visits_accepted[OF assms(1-4,7,8,5) _ order_refl half that]) (use assms(6) in auto)
  then show ?thesis by (auto simp: list_all_iff)
qed

section \<open>The cost of a check\<close>

text \<open>PBKDF2 costs its iterations for every 32 bytes.\<close>

definition kdf_work :: "kdf_call \<Rightarrow> nat" where
  "kdf_work c = (case c of Kdf_Apr1 \<Rightarrow> 0 | Kdf_Pbkdf2 n l \<Rightarrow> n * ((l + 31) div 32))"

lemma foldl_max_ge: "e \<le> foldl max e xs \<and> (\<forall>x\<in>set xs. x \<le> foldl max (e :: nat) xs)"
proof (induction xs arbitrary: e)
  case (Cons x xs)
  then show ?case using Cons[of "max e x"] by force
qed simp

lemma dummyWorkFactor_ge: "u \<in> snd ` set (dc_users cfg) \<Longrightarrow> workFactor (du_credential u) \<le> dummyWorkFactor cfg"
  using foldl_max_ge[of MIN_PBKDF2_ITERATIONS "map (\<lambda>(k, u). workFactor (du_credential u)) (dc_users cfg)"]
  by (force simp: dummyWorkFactor_def)

lemma dummy_work: "sum_list (map kdf_work (fst (runDummyPbkdf2 lib password n))) = n"
  "count_list (fst (runDummyPbkdf2 lib password n)) Kdf_Apr1 = 0"
  by (simp_all add: runDummyPbkdf2_def kdf_work_def)

lemma credential_work:
  "sum_list (map kdf_work (credential_calls c)) = workFactor c"
  "count_list (credential_calls c) Kdf_Apr1 = (if apr1Work c then 1 else 0)"
  by (cases c; simp add: kdf_work_def)+

text \<open>
  C27. Guessing names does not pay. Every check that reaches its verdict runs the Apache scheme exactly once
  and spends the same number of PBKDF2 iterations, whether the name is registered or not, whatever kind of
  hash its user has and whether the password is right.
\<close>

theorem checks_cost_the_same:
  assumes "snd (check_password lib cfg user password) \<noteq> None"
    and "\<And>u. user = Some u \<Longrightarrow> u \<in> snd ` set (dc_users cfg)"
  shows "count_list (fst (check_password lib cfg user password)) Kdf_Apr1 = 1
    \<and> sum_list (map kdf_work (fst (check_password lib cfg user password))) = dummyWorkFactor cfg"
proof (cases "if int (length password) \<le> dc_maxBody cfg then user else None")
  case None
  then show ?thesis
    using dummy_work[of lib password "dummyWorkFactor cfg"]
    by (cases "runDummyPbkdf2 lib password (dummyWorkFactor cfg)") (simp add: check_password_def kdf_work_def)
next
  case (Some u)
  then have u: "u \<in> snd ` set (dc_users cfg)" using assms(2) by (simp split: if_splits)
  obtain m where m: "verify_credential lib (du_credential u) password = Some m"
    using assms(1) Some by (cases "verify_credential lib (du_credential u) password") (simp_all add: check_password_def Let_def)
  show ?thesis
    using dummy_work[of lib password "dummyWorkFactor cfg - workFactor (du_credential u)"] dummyWorkFactor_ge[OF u]
      credential_work[of "du_credential u"] Some m
    by (cases "runDummyPbkdf2 lib password (dummyWorkFactor cfg - workFactor (du_credential u))")
      (simp add: check_password_def Let_def kdf_work_def)
qed

section \<open>The way to the pages\<close>

text \<open>What a request that goes past the sign-in has shown.\<close>

definition session_of_request :: "web_env \<Rightarrow> dashboard_auth \<Rightarrow> web_request \<Rightarrow> auth_user \<Rightarrow> bool" where
  "session_of_request env cfg q u \<longleftrightarrow>
     (\<exists>issued. verifySession (we_lib env) cfg (session_token cfg q) (we_now env) = Some (u, issued))"

lemma signed_in_user_iff:
  "signed_in_user env (Some cfg) q = Some v \<longleftrightarrow> (\<exists>u. session_of_request env cfg q u \<and> v = publicUser u)"
  by (auto simp: signed_in_user_def authenticateRequest_def verifyToken_def session_of_request_def)

lemma open_route_cases:
  assumes "open_route env (Some cfg) q path = Some r"
  shows "r \<in> range Answered \<or> r = SignInRoute \<and> wr_method q = ''POST'' \<and> same_origin env cfg q"
  using assms unfolding open_route_def by (auto split: if_splits)

lemma handler_cases:
  assumes "requestHandler env (Some cfg) q = (r, c)"
  shows "r \<in> range Answered \<or> r = SignInRoute \<and> wr_method q = ''POST'' \<and> same_origin env cfg q
    \<or> (\<exists>path. \<not> rawPathHasTraversal (we_decode env) (wr_url q)
         \<and> session_barrier env (Some cfg) q path = None \<and> inner_route env (Some cfg) q path = r)"
  using assms open_route_cases[of env cfg q _ r]
  by (auto simp: requestHandler_def Let_def split: if_splits option.splits routed.splits)

text \<open>
  C9. Nobody gets past the sign-in without a session. With the sign-in enabled a request reaches the pages,
  the update stream or the store login only with the token of a valid session and a path that does not climb;
  the pages and the stream take reading methods only, the store login is for administrators and changes
  something only on a POST from an own origin; the sign-in itself takes only a POST from an own origin.
\<close>

theorem requests_need_a_session:
  "case fst (requestHandler env (Some cfg) q) of
     Answered a \<Rightarrow> True
   | SignInRoute \<Rightarrow> wr_method q = ''POST'' \<and> same_origin env cfg q
   | UpdateStream \<Rightarrow> (\<exists>u. session_of_request env cfg q u) \<and> wr_method q = ''GET''
   | Pages \<Rightarrow> (\<exists>u. session_of_request env cfg q u) \<and> read_method (wr_method q)
       \<and> \<not> rawPathHasTraversal (we_decode env) (wr_url q)
   | StoreLoginRoute action \<Rightarrow>
       (\<exists>u. session_of_request env cfg q u \<and> ua_role (du_access u) = ''admin'')
       \<and> (if action = ''status'' then wr_method q = ''GET'' else wr_method q = ''POST'' \<and> same_origin env cfg q)"
proof (cases "requestHandler env (Some cfg) q")
  case (Pair r c)
  from handler_cases[OF Pair] consider (answered) "r \<in> range Answered"
    | (sign_in) "r = SignInRoute" "wr_method q = ''POST''" "same_origin env cfg q"
    | (inner) path where "\<not> rawPathHasTraversal (we_decode env) (wr_url q)"
        "session_barrier env (Some cfg) q path = None" "inner_route env (Some cfg) q path = r" by blast
  then show ?thesis
  proof cases
    case inner
    obtain v where v: "signed_in_user env (Some cfg) q = Some v"
      using inner(2) by (auto simp: session_barrier_def split: if_splits)
    then obtain u where u: "session_of_request env cfg q u" "v = publicUser u" using signed_in_user_iff by blast
    have origin: "wr_method q = ''POST'' \<Longrightarrow> same_origin env cfg q"
      using inner(2) v by (auto simp: session_barrier_def split: if_splits)
    have role: "jget v ''role'' = JStr (ua_role (du_access u))" by (simp add: u(2) publicUser_def)
    have "case r of Answered a \<Rightarrow> True | SignInRoute \<Rightarrow> False | UpdateStream \<Rightarrow> wr_method q = ''GET''
        | Pages \<Rightarrow> read_method (wr_method q)
        | StoreLoginRoute action \<Rightarrow> ua_role (du_access u) = ''admin''
            \<and> wr_method q = (if action = ''status'' then ''GET'' else ''POST'')"
      using inner(3) v role by (auto simp: inner_route_def Let_def split: if_splits option.splits)
    then show ?thesis using u(1) origin inner(1) Pair by (auto split: routed.splits)
  qed (use Pair in auto)
qed

section \<open>Users and configuration\<close>

definition access_valid :: "user_access \<Rightarrow> bool" where
  "access_valid a \<longleftrightarrow>
     ua_role a \<in> set AUTH_ROLES \<and> ua_allStores a = (ua_role a = ''admin'')
     \<and> sorted (ua_storeCodes a) \<and> distinct (ua_storeCodes a) \<and> list_all user_store_pattern (ua_storeCodes a)
     \<and> (ua_allStores a \<longrightarrow> ua_storeCodes a = [])
     \<and> ua_employeeCode a \<noteq> [] \<and> length (ua_employeeCode a) \<le> 128 \<and> \<not> has_control (ua_employeeCode a)"

fun credential_valid :: "credential \<Rightarrow> bool" where
  "credential_valid (Sha256_Hash e) = (length e = 32)"
| "credential_valid (Pbkdf2_Hash n s e) =
     (MIN_PBKDF2_ITERATIONS \<le> n \<and> n \<le> MAX_PBKDF2_ITERATIONS \<and> 8 \<le> length s \<and> 32 \<le> length e \<and> length e \<le> 64)"
| "credential_valid (Apr1_Hash s t) = (apr1_salt t = Some s)"

definition user_valid :: "auth_lib \<Rightarrow> string \<times> auth_user \<Rightarrow> bool" where
  "user_valid lib e \<longleftrightarrow>
     (let u = snd e in
      fst e = js_lower (du_username u) \<and> du_username u \<noteq> [] \<and> length (du_username u) \<le> 128
      \<and> \<not> has_control (du_username u) \<and> length (du_displayName u) \<le> 128
      \<and> access_valid (du_access u) \<and> credential_valid (du_credential u)
      \<and> du_tag u = credential_tag lib (du_username u) (du_credential u) (du_access u))"

lemma config_error_not_Inr [simp]: "config_error m \<noteq> Inr x" "user_error n m \<noteq> Inr x"
  by (simp_all add: config_error_def user_error_def)

lemma sha256Credential_valid: "sha256Credential lib v = Inr c \<Longrightarrow> credential_valid c"
  by (auto simp: sha256Credential_def ebind_Inr_iff split: if_splits)

lemma pbkdf2Credential_valid: "pbkdf2Credential lib i s h d = Inr c \<Longrightarrow> credential_valid c"
  by (auto simp: pbkdf2Credential_def ebind_Inr_iff Let_def split: if_splits)

lemma apr1_valid: "apacheApr1Credential v = Inr c \<Longrightarrow> credential_valid c"
  by (auto simp: apacheApr1Credential_def ebind_Inr_iff split: option.splits)

lemma if_InrD: "(if b then x else y) = Inr c \<Longrightarrow> x = Inr c \<or> y = Inr c"
  by (simp split: if_split_asm)

lemma parsePasswordHash_valid:
  assumes "parsePasswordHash lib v = Inr c" shows "credential_valid c"
proof -
  have "(\<exists>h. sha256Credential lib h = Inr c) \<or> (\<exists>i s h d. pbkdf2Credential lib i s h d = Inr c)"
  proof (cases "is_record v")
    case True
    show ?thesis
      using assms unfolding parsePasswordHash_def if_P[OF True] Let_def
      by (elim ebind_InrE) (blast dest!: if_InrD intro: config_error_not_Inr[THEN notE])
  next
    case False
    show ?thesis
      using assms unfolding parsePasswordHash_def if_not_P[OF False] Let_def
      by (elim ebind_InrE) (blast dest!: if_InrD intro: config_error_not_Inr[THEN notE])
  qed
  then show ?thesis using sha256Credential_valid pbkdf2Credential_valid by blast
qed

lemma record_credential_valid:
  assumes "record_credential lib r = Inr c" shows "credential_valid c"
proof -
  obtain k where "sha256Credential lib (jget r k) = Inr c \<or> parsePasswordHash lib (jget r k) = Inr c
      \<or> apacheApr1Credential (jget r k) = Inr c"
    using assms unfolding record_credential_def by (auto split: list.splits if_splits)
  then show ?thesis using sha256Credential_valid parsePasswordHash_valid apr1_valid by blast
qed

lemma parseUserAccess_valid: "parseUserAccess r n = Inr a \<Longrightarrow> access_valid a"
  unfolding parseUserAccess_def access_valid_def ebind_Inr_iff Let_def
  by (auto simp: list_all_iff split: if_splits)

lemma parse_user_valid:
  assumes "parse_user lib users r = Inr users'" "distinct (map fst users)" "list_all (user_valid lib) users"
  shows "distinct (map fst users') \<and> list_all (user_valid lib) users'"
proof -
  consider "users' = users"
    | n c a d where "users' = users @ [(js_lower n, \<lparr>du_username = n, du_displayName = take 128 d, du_access = a,
        du_credential = c, du_tag = credential_tag lib n c a\<rparr>)]" "map_of users (js_lower n) = None"
        "n \<noteq> []" "length n \<le> 128" "\<not> has_control n" "record_credential lib r = Inr c" "parseUserAccess r n = Inr a"
    using assms(1) unfolding parse_user_def Let_def by (auto elim!: ebind_InrE split: if_splits)
  then show ?thesis
  proof cases
    case (2 n c a d)
    then show ?thesis
      using assms(2,3) record_credential_valid[OF 2(6)] parseUserAccess_valid[OF 2(7)]
      by (simp add: user_valid_def Let_def map_of_eq_None_iff)
  qed (use assms in simp)
qed

lemma parse_users_valid:
  "parse_users lib users rs = Inr users' \<Longrightarrow> distinct (map fst users) \<Longrightarrow> list_all (user_valid lib) users \<Longrightarrow>
   distinct (map fst users') \<and> list_all (user_valid lib) users'"
  by (induction rs arbitrary: users) (auto simp: ebind_Inr_iff dest: parse_user_valid)

lemma parseUsers_valid:
  assumes "parseUsers lib host f = Inr users"
  shows "users \<noteq> [] \<and> distinct (map fst users) \<and> list_all (user_valid lib) users"
proof -
  obtain rs where "parse_users lib [] rs = Inr users" "users \<noteq> []"
    using assms
    by (auto simp: parseUsers_def ebind_Inr_iff simp del: parse_users.simps split: option.splits jsv.splits list.splits if_splits)
  then show ?thesis using parse_users_valid[of lib "[]" rs users] by simp
qed

text \<open>
  The environment counts as production when its name, in any case, is \<open>production\<close>; a listener is local when
  its host is a loopback name or address.
\<close>

definition in_production :: "jsv \<Rightarrow> bool" where
  "in_production o' \<longleftrightarrow>
     (case string_or ''development'' (jget o' ''runtimeEnvironment'') of Inl _ \<Rightarrow> False | Inr e \<Rightarrow> js_lower e = ''production'')"

definition local_listener :: "jsv \<Rightarrow> bool" where
  "local_listener o' \<longleftrightarrow> (case string_or ''127.0.0.1'' (jget o' ''host'') of Inl _ \<Rightarrow> False | Inr h \<Rightarrow> isLoopbackHost h)"

lemma positive_option_pos: "positive_option o' k fallback label = Inr n \<Longrightarrow> 0 < fallback \<Longrightarrow> 0 < n"
  by (auto simp: positive_option_def positiveInteger_option_def ebind_Inr_iff split: if_splits option.splits)

lemma configure_service_facts:
  assumes "configure_service parse o' production allowLan hostName users secret = Inr cfg"
  shows "limits_positive cfg" "0 < dc_ttl cfg" "dc_users cfg = users" "dc_secret cfg = utf8 secret"
    "dc_secure cfg \<or> \<not> production \<or> allowLan" "\<not> dc_trustProxy cfg \<or> isLoopbackHost hostName"
proof -
  obtain cookie ttl win att body origin clients kdfs where
    n: "positive_option o' ''sessionTtlSeconds'' 2592000 ''Session TTL'' = Inr ttl"
       "positive_option o' ''rateLimitWindowMs'' 900000 ''Login rate-limit window'' = Inr win"
       "positive_option o' ''rateLimitMaxAttempts'' 5 ''Login rate-limit attempts'' = Inr att"
       "positive_option o' ''maxRateLimitClients'' 10000 ''Rate-limit client capacity'' = Inr clients"
       "positive_option o' ''maxConcurrentKdfs'' 8 ''Concurrent password-check capacity'' = Inr kdfs"
    and c: "cfg = \<lparr>dc_users = users, dc_secret = utf8 secret, dc_cookieName = cookie, dc_ttl = ttl, dc_window = win,
          dc_maxAttempts = att, dc_maxBody = body, dc_secure = truthy (coalesce (jget o' ''secureCookie'') (JBool production)),
          dc_trustProxy = (jget o' ''trustProxy'' = JBool True),
          dc_publicOrigin = origin, dc_maxClients = clients, dc_maxKdfs = kdfs\<rparr>"
    and f: "\<not> (production \<and> \<not> truthy (coalesce (jget o' ''secureCookie'') (JBool production)) \<and> \<not> allowLan)"
      "\<not> (jget o' ''trustProxy'' = JBool True \<and> \<not> isLoopbackHost hostName)"
    using assms unfolding configure_service_def Let_def by (auto elim!: ebind_InrE split: if_splits)
  show "limits_positive cfg" "0 < dc_ttl cfg" using n[THEN positive_option_pos] by (simp_all add: c limits_positive_def)
  show "dc_users cfg = users" "dc_secret cfg = utf8 secret" by (simp_all add: c)
  show "dc_secure cfg \<or> \<not> production \<or> allowLan" "\<not> dc_trustProxy cfg \<or> isLoopbackHost hostName"
    using f by (auto simp: c)
qed

lemma choose_service_cases:
  assumes "choose_service lib parse host o' production allowLan hostName usersFile secretFile secret = Inr r"
  shows "case r of
      None \<Rightarrow> \<not> production \<and> isLoopbackHost hostName
    | Some cfg \<Rightarrow> \<exists>users. parseUsers lib host usersFile = Inr users \<and> 32 \<le> length (utf8 secret)
        \<and> configure_service parse o' production allowLan hostName users secret = Inr cfg"
  using assms unfolding choose_service_def by (auto elim!: ebind_InrE split: if_split_asm)

lemma createAuthService_cases:
  assumes "createAuthService lib parse host o' = Inr r"
  obtains environment hostName usersFile secretFile secret where
    "string_or ''development'' (jget o' ''runtimeEnvironment'') = Inr environment"
    "string_or ''127.0.0.1'' (jget o' ''host'') = Inr hostName"
    "\<not> (jget o' ''allowLanHttp'' = JBool True \<and> lan_misconfigured parse o' (js_lower environment) hostName)"
    "choose_service lib parse host o' (js_lower environment = ''production'') (jget o' ''allowLanHttp'' = JBool True)
       hostName usersFile secretFile secret = Inr r"
proof -
  obtain environment where e: "string_or ''development'' (jget o' ''runtimeEnvironment'') = Inr environment"
    using assms by (auto simp: createAuthService_def elim: ebind_InrE)
  obtain hostName where h: "string_or ''127.0.0.1'' (jget o' ''host'') = Inr hostName"
    using assms by (auto simp: createAuthService_def e Let_def elim: ebind_InrE)
  have l: "\<not> (jget o' ''allowLanHttp'' = JBool True \<and> lan_misconfigured parse o' (js_lower environment) hostName)"
    using assms by (auto simp: createAuthService_def e h Let_def)
  obtain usersFile secretFile secret where
    "choose_service lib parse host o' (js_lower environment = ''production'') (jget o' ''allowLanHttp'' = JBool True)
       hostName usersFile secretFile secret = Inr r"
    using assms by (simp add: createAuthService_def e h l Let_def) (elim ebind_InrE, blast)
  then show thesis using that e h l by blast
qed

text \<open>The one exception to secure cookies in production: plain HTTP inside a private network.\<close>

definition private_lan :: "url_parser \<Rightarrow> jsv \<Rightarrow> bool" where
  "private_lan parse o' \<longleftrightarrow>
     jget o' ''allowLanHttp'' = JBool True \<and> local_listener o' \<and> jget o' ''trustProxy'' = JBool True
     \<and> isPrivateHttpOrigin parse (jget o' ''publicOrigin'')"

text \<open>
  C23. The sign-in is never configured away. It is disabled only outside production and on a loopback listener.
  Where it is enabled its limits are positive, its secret has at least 32 bytes, every user is valid, found
  under its own name and under no other, proxies are trusted on a loopback listener only, and in production
  its cookies are secure except behind a proxy with a private HTTP origin.
\<close>

theorem sign_in_is_configured_safely:
  "case createAuthService lib parse host o' of
     Inl e \<Rightarrow> True
   | Inr None \<Rightarrow> \<not> in_production o' \<and> local_listener o'
   | Inr (Some cfg) \<Rightarrow>
       limits_positive cfg \<and> 0 < dc_ttl cfg \<and> 32 \<le> length (dc_secret cfg) \<and> dc_users cfg \<noteq> []
       \<and> list_all (\<lambda>e. user_valid lib e \<and> registered cfg (snd e)) (dc_users cfg)
       \<and> (if dc_trustProxy cfg then local_listener o' else True)
       \<and> (if in_production o' then dc_secure cfg \<or> private_lan parse o' else True)"
proof (cases "createAuthService lib parse host o'")
  case (Inr r)
  define allowLan where "allowLan = (jget o' ''allowLanHttp'' = JBool True)"
  obtain environment hostName usersFile secretFile secret where
    n: "string_or ''development'' (jget o' ''runtimeEnvironment'') = Inr environment"
      "string_or ''127.0.0.1'' (jget o' ''host'') = Inr hostName"
    and lan: "\<not> (allowLan \<and> lan_misconfigured parse o' (js_lower environment) hostName)"
    and chosen: "choose_service lib parse host o' (js_lower environment = ''production'') allowLan hostName
      usersFile secretFile secret = Inr r"
    using createAuthService_cases[OF Inr] unfolding allowLan_def by metis
  note r = choose_service_cases[OF chosen]
  have p: "in_production o' \<longleftrightarrow> js_lower environment = ''production''" "local_listener o' \<longleftrightarrow> isLoopbackHost hostName"
    by (simp_all add: in_production_def local_listener_def n)
  show ?thesis
  proof (cases r)
    case None
    then show ?thesis using Inr r p by simp
  next
    case (Some cfg)
    then obtain users where u: "parseUsers lib host usersFile = Inr users" "32 \<le> length (utf8 secret)"
      and c: "configure_service parse o' (js_lower environment = ''production'') allowLan hostName users secret = Inr cfg"
      using r by auto
    note f = configure_service_facts[OF c]
    note v = parseUsers_valid[OF u(1)]
    have "registered cfg (snd e)" if e: "e \<in> set users" for e
    proof -
      have "user_valid lib e" using v e by (simp add: list_all_iff)
      then have k: "js_lower (du_username (snd e)) = fst e" by (simp add: user_valid_def Let_def)
      show ?thesis using v e map_of_is_SomeI[of users "fst e" "snd e"] by (simp add: registered_def f(3) k)
    qed
    then have "list_all (\<lambda>e. user_valid lib e \<and> registered cfg (snd e)) users" using v by (simp add: list_all_iff)
    moreover have "dc_secure cfg \<or> private_lan parse o'" if "in_production o'"
      using f(5) lan that p by (auto simp: private_lan_def lan_misconfigured_def allowLan_def)
    ultimately show ?thesis using Inr Some f(1-4,6) u(2) v p by simp
  qed
qed simp

section \<open>Evaluation\<close>

text \<open>Decoders that read back what is written, for a concrete instance of the laws.\<close>

definition url_back :: "char \<Rightarrow> char" where
  "url_back c = (if c = CHR ''-'' then CHR ''+'' else if c = CHR ''_'' then CHR ''/'' else c)"

definition decode64 :: "string \<Rightarrow> byte list" where
  "decode64 s = b64_decode (map url_back s @ replicate ((4 - length s mod 4) mod 4) CHR ''='')"

fun decode_utf8 :: "byte list \<Rightarrow> string" where
  "decode_utf8 [] = []"
| "decode_utf8 [b] = [char_of (unat b)]"
| "decode_utf8 (b # c # bs) =
     (if unat b < 128 then char_of (unat b) # decode_utf8 (c # bs)
      else char_of ((unat b - 192) * 64 + (unat c - 128)) # decode_utf8 bs)"

lemma url_back_char: "b64_alphabet c \<Longrightarrow> url_back (url_char c) = c"
  using outside_alphabet(3,4) unfolding url_back_def url_char_def by (cases "c = CHR ''+''"; cases "c = CHR ''/''") auto

lemma decode64_base64url: "decode64 (base64url bs) = bs"
proof -
  obtain body n where f: "b64_encode bs = body @ replicate n CHR ''=''" "n \<le> 2" "list_all b64_alphabet body"
    "base64url bs = map url_char body" using base64url_form[of bs] by blast
  have "map url_back (map url_char body) = body"
    using f(3) url_back_char by (induction body) auto
  moreover have "(4 - length body mod 4) mod 4 = n"
  proof -
    have "(length body + n) mod 4 = 0" using b64_encode_length[of bs] by (simp add: f(1))
    then have "(length body mod 4 + n) mod 4 = 0" by (simp add: mod_add_left_eq)
    moreover have "length body mod 4 = 0 \<or> length body mod 4 = 1 \<or> length body mod 4 = 2 \<or> length body mod 4 = 3" by linarith
    moreover have "n = 0 \<or> n = 1 \<or> n = 2" using f(2) by linarith
    ultimately show ?thesis by (elim disjE) simp_all
  qed
  ultimately have "decode64 (base64url bs) = b64_decode (b64_encode bs)" by (simp add: decode64_def f(1,4))
  then show ?thesis by (simp add: decode_encode)
qed

lemma decode_utf8_utf8: "decode_utf8 (utf8 t) = t"
proof (induction t)
  case (Cons c t)
  have u: "utf8 (c # t) = utf8_char c @ utf8 t" by (simp add: utf8_def)
  have c: "code c < 256" by simp
  show ?case
  proof (cases "code c < 128")
    case True
    then have "utf8_char c = [of_nat (code c)]" and b: "unat (of_nat (code c) :: byte) = code c"
      using c by (simp_all add: utf8_char_def unat_byte)
    then have e: "utf8 (c # t) = of_nat (code c) # utf8 t" by (simp add: u)
    show ?thesis unfolding e using Cons True b by (cases "utf8 t") simp_all
  next
    case False
    have d: "code c div 64 < 4" using c by (simp add: less_mult_imp_div_less)
    have m: "code c mod 64 < 64" by simp
    have "utf8_char c = [of_nat (192 + code c div 64), of_nat (128 + code c mod 64)]" using False by (simp add: utf8_char_def)
    moreover have "unat (of_nat (192 + code c div 64) :: byte) = 192 + code c div 64"
      "unat (of_nat (128 + code c mod 64) :: byte) = 128 + code c mod 64"
      by (rule unat_byte, use d in linarith, rule unat_byte, use m in linarith)
    ultimately show ?thesis using Cons by (simp add: u del: of_nat_add)
  qed
qed (simp add: utf8_def)

definition ann :: auth_user where
  "ann = \<lparr>du_username = ''Ann'', du_displayName = ''Ann'',
     du_access = \<lparr>ua_role = ''operator'', ua_allStores = False, ua_storeCodes = [''S1''], ua_employeeCode = ''E1''\<rparr>,
     du_credential = Pbkdf2_Hash 200000 (replicate 8 1) (replicate 64 0), du_tag = ''tag''\<rparr>"

definition ann_config :: dashboard_auth where
  "ann_config = sample_config\<lparr>dc_users := [(''ann'', ann)]\<rparr>"

text \<open>Sign-in, two visits half a life time apart each, the second of which refreshes, and one past the first expiry.\<close>

definition ann_times :: "int list" where
  "ann_times = [1000, 1296000000, 2592000000, 3888000000]"

definition ann_lib :: auth_lib where
  "ann_lib = sample_lib\<lparr>al_hmac := (\<lambda>k m. [7]), al_decode64 := decode64, al_utf8 := decode_utf8,
     al_json := map_of (map (\<lambda>t. (json_string (session_of ann_config ann t), session_of ann_config ann t)) ann_times)\<rparr>"

definition ann_request :: "int \<Rightarrow> web_request" where
  "ann_request issued = \<lparr>wr_method = ''GET'', wr_url = ''/'',
     wr_cookie = ''fm_bi_session='' @ create_session ann_lib ann_config ann issued, wr_origin = [], wr_host = [],
     wr_forwardedFor = [], wr_forwardedProto = [], wr_remote = [], wr_encrypted = False, wr_contentLength = None,
     wr_contentType = [], wr_accept = []\<rparr>"

definition ann_visits :: "(web_request \<times> int) list" where
  "ann_visits = [(ann_request 1000, 1296000000), (ann_request 1000, 2592000000), (ann_request 2592000000, 3888000000)]"

lemma ann_codec: "codec_ok ann_lib"
  by (simp add: codec_ok_def ann_lib_def decode64_base64url decode_utf8_utf8)

lemma ann_registered: "registered ann_config ann"
  by code_simp

lemma session_text: "\<exists>s. json_text (session_of cfg u t) = Inr s"
  by (simp add: session_of_def session_json_def)

lemma session_text_inj:
  assumes "json_string (session_of cfg u t) = json_string (session_of cfg u t')"
    and "plain_numbers (session_of cfg u t)" "plain_numbers (session_of cfg u t')"
  shows "session_of cfg u t = session_of cfg u t'"
proof -
  obtain s s' where "json_text (session_of cfg u t) = Inr s" "json_text (session_of cfg u t') = Inr s'"
    using session_text by metis
  then show ?thesis
    using json_text_inj[of "session_of cfg u t" s "session_of cfg u t'" s' "[]" "[]"] assms
    by (simp add: json_string_def delim_def)
qed

lemma session_texts:
  assumes "t \<in> set ts" "list_all (\<lambda>t. plain_numbers (session_of cfg u t)) ts"
  shows "map_of (map (\<lambda>t. (json_string (session_of cfg u t), session_of cfg u t)) ts) (json_string (session_of cfg u t))
    = Some (session_of cfg u t)"
  using assms
proof (induction ts)
  case (Cons x ts)
  have "plain_numbers (session_of cfg u x)" "plain_numbers (session_of cfg u t)"
    using Cons.prems by (auto simp: list_all_iff)
  then show ?case using Cons session_text_inj[of cfg u x t] by auto
qed simp

lemma ann_work: "list_all (sessions_work ann_lib ann_config ann) ann_times"
proof -
  have "list_all (\<lambda>t. plain_numbers (session_of ann_config ann t)) ann_times"
    by (simp add: ann_times_def session_of_def session_json_def ann_config_def sample_config_def)
  then have "parses ann_lib (session_of ann_config ann t)" if "t \<in> set ann_times" for t
    using session_texts[OF that] by (simp add: parses_def ann_lib_def)
  moreover have "list_all (safe_time ann_config) ann_times"
    by (simp add: ann_times_def safe_time_def ann_config_def sample_config_def max_safe_def)
  ultimately show ?thesis
    by (simp add: list_all_iff sessions_work_def session_signature_def ann_lib_def)
qed

lemma ann_browses: "visits ann_lib ann_config (keep_cookie (session_cookie ann_lib ann_config ann 1000) 1000) ann_visits"
    "pauses_short ann_config 1000 ann_visits"
proof -
  have name: "cookie_name_pattern (dc_cookieName ann_config)" by code_simp
  have ttl: "dc_ttl ann_config = 2592000" by (simp add: ann_config_def sample_config_def)
  have work: "sessions_work ann_lib ann_config ann 1000" "sessions_work ann_lib ann_config ann 2592000000"
    using ann_work by (simp_all add: ann_times_def)
  note kept = kept_session[OF name, unfolded ttl, simplified]
  have cookie: "wr_cookie (ann_request t) = dc_cookieName ann_config @ ''='' @ create_session ann_lib ann_config ann t" for t
    by (simp add: ann_request_def ann_config_def sample_config_def)
  note refresh = refresh_of_session[OF ann_codec ann_registered name _ cookie, unfolded ttl]
  have "refreshCookieForRequest ann_lib ann_config (ann_request 1000) 1296000000 = None"
    "refreshCookieForRequest ann_lib ann_config (ann_request 1000) 2592000000 = Some (session_cookie ann_lib ann_config ann 2592000000)"
    using refresh[OF work(1), of 1296000000] refresh[OF work(1), of 2592000000] by simp_all
  then show "visits ann_lib ann_config (keep_cookie (session_cookie ann_lib ann_config ann 1000) 1000) ann_visits"
    by (simp add: ann_visits_def kept sent_cookie_def cookie)
  show "pauses_short ann_config 1000 ann_visits" by (simp add: ann_visits_def ttl)
qed

theorem issued_sessions_are_accepted_witness:
  "verifySession ann_lib ann_config (create_session ann_lib ann_config ann 1000) 1296000000 = Some (ann, 1)
   \<and> verifySession ann_lib ann_config (create_session ann_lib ann_config ann 1000) 2592001000 = None"
proof -
  have w: "session_signature ann_lib ann_config (session_payload ann_config ann 1000) \<noteq> []"
    "parses ann_lib (session_of ann_config ann 1000)" "safe_time ann_config 1000"
    using ann_work by (simp_all add: ann_times_def sessions_work_def)
  note verified = issued_sessions_are_accepted[OF ann_codec w(1,2) ann_registered w(3)]
  show ?thesis
    using verified[of 1296000000] verified[of 2592001000] by (simp add: ann_config_def sample_config_def)
qed

theorem active_users_stay_signed_in_witness:
  "list_all (\<lambda>(q, now). authenticateRequest ann_lib ann_config q now = Some (publicUser ann)) ann_visits
   \<and> length ann_visits = 3"
proof -
  have "sessions_work ann_lib ann_config ann now" if "(q, now) \<in> set ann_visits" for q now
    using ann_work that by (auto simp: ann_times_def ann_visits_def)
  moreover have "sessions_work ann_lib ann_config ann 1000" using ann_work by (simp add: ann_times_def)
  moreover have settings: "cookie_name_pattern (dc_cookieName ann_config)" "2 \<le> dc_ttl ann_config" by code_simp+
  ultimately show ?thesis
    using active_users_stay_signed_in[OF ann_codec ann_registered _ _ _ _ ann_browses] by (simp add: ann_visits_def settings)
qed

theorem checks_cost_the_same_witness:
  "count_list (fst (check_password ann_lib ann_config (Some ann) ''pw'')) Kdf_Apr1 = 1
   \<and> sum_list (map kdf_work (fst (check_password ann_lib ann_config (Some ann) ''pw''))) = 400000
   \<and> sum_list (map kdf_work (fst (check_password ann_lib ann_config None ''pw''))) = 400000"
proof -
  have d: "dummyWorkFactor ann_config = 400000" by code_simp
  have "snd (check_password ann_lib ann_config (Some ann) ''pw'') \<noteq> None"
    "snd (check_password ann_lib ann_config None ''pw'') \<noteq> None"
    by code_simp+
  moreover have "ann \<in> snd ` set (dc_users ann_config)" by (simp add: ann_config_def)
  ultimately show ?thesis
    using checks_cost_the_same[of ann_lib ann_config "Some ann" "''pw''"] checks_cost_the_same[of ann_lib ann_config None "''pw''"] d
    by simp
qed

end
