(* ===== verification/Spec2Isabelle.thy ===== *)
theory Spec2Isabelle
  imports Plan_Properties Ledger_Properties Verdict_Properties Runner_Ledger Domain_Properties Inventory_Properties
    Sales_Properties Adapter_Properties Query_Properties
    Cli_Properties Authorization_Service_Properties Authorization_Server Webhook_Receiver_Properties
    Webhook_Hydration_Properties Dashboard_Session_Properties
begin

text \<open>
  The control planes of the full-managed BI program: its bounded backfill, its store authorization, its webhook
  runtime and the sign-in of its dashboard, with the mappers and queries that they rest on. The program is a set of Node modules
  under \<open>src/\<close> and of command lines under \<open>scripts/\<close>; this library models the modules that decide
  something (what may be fetched, what may be recorded, who may change what), statement by statement, and
  proves what they promise.

  \<^bold>\<open>Conventions.\<close> Untyped JavaScript values are the datatype \<open>jsv\<close> (\<open>Js_Value\<close>), whose objects keep the order
  of their fields; numbers are integers, finite binary fractions or not finite. A thrown error is the left
  value of a sum, with the part of the error that callers read (its code). State is passed explicitly, as one
  record per database or file; a transaction that throws leaves the record as it was. A loop is a recursion
  with a proved termination, except where an argument below says otherwise. What the program cannot decide by
  itself is an argument of the definitions that use it: clocks, random texts, the answers of the platform, the
  fate of a connection, the digests and ciphers of \<open>node:crypto\<close>, \<open>JSON.parse\<close>, the decoding of UTF-8 and the
  engine's reading of date texts in other than its interchange format. No theorem assumes more of these than
  that SHA-256 prints 64 hexadecimal digits (\<open>sha_hex\<close>), that a digest is injective where plan hashes are
  compared, that a JSON text is at least as long as the value it denotes (\<open>compact_json\<close>), and that the decoders
  of base64, UTF-8 and JSON read back a session that was written and its signature is not empty (\<open>codec_ok\<close>,
  \<open>parses\<close>, \<open>sessions_work\<close>).

  \<^bold>\<open>Shared theories.\<close> \<open>FM_Prelude\<close> holds the error monad, ordered sets and association lists, and the collection
  \<open>js_eval\<close> of the equations that evaluate the model; \<open>Js_Text\<close>, \<open>Js_Date\<close>, \<open>Js_Value\<close> and \<open>Js_Number\<close> hold the
  string, date, value and number operations of the language; \<open>Openapi_Fields\<close> the field readers of the mappers.

  \<^bold>\<open>Backfill.\<close> A request becomes a plan, a plan is executed window by window through an adapter, the quality gate
  judges what came back, and the ledger records attempts, outcomes and checkpoints.
  \<^item> \<open>Canonical_Json\<close>: \<open>src/backfill/canonical.mjs\<close>; canonical texts determine their values.
  \<^item> \<open>Capability_Catalog\<close>: \<open>capability-catalog.mjs\<close>, the table of domains.
  \<^item> \<open>Backfill_Plan\<close>, \<open>Plan_Windows\<close>, \<open>Plan_Properties\<close>: \<open>plan.mjs\<close>; the windows tile the range, the hash
    identifies the scope, the authorization admits exactly the approved scope.
  \<^item> \<open>Quality_Gate\<close>: \<open>quality-gate.mjs\<close>; the gate passes exactly on complete proof.
  \<^item> \<open>Backfill_Ledger\<close>, \<open>Ledger_Properties\<close>: \<open>checkpoint-repository.mjs\<close> over the tables of
    \<open>db/migrations/0012\<close>; integrity and monotone checkpoints over every sequence of operations. A \<open>CHECK\<close> passes
    unless its expression is false, so the constraints are written in three-valued logic.
  \<^item> \<open>Verdict_Properties\<close>: gate and ledger together; a verdict on a planned window is committed in full exactly when
    its evidence fits the columns, and a verdict of success always does.
  \<^item> \<open>Backfill_Runner\<close>, \<open>Runner_Properties\<close>, \<open>Runner_Schedule\<close>, \<open>Runner_Ledger\<close>: \<open>runner.mjs\<close>; the locale
    \<open>backfill_store\<close> is the contract between the runner and its repository, interpreted by the ledger and by the
    null repository of a rehearsal. The lanes are a step relation; every interleaving finishes the windows of a
    checkpoint in plan order.
  \<^item> \<open>Purchase_Order_Adapter\<close>, \<open>Adapter_Properties\<close>: \<open>purchase-order-adapter.mjs\<close>, the only executable adapter.
  \<^item> \<open>Backfill_Cli\<close>, \<open>Cli_Properties\<close>: \<open>cli-support.mjs\<close> and \<open>scripts/run_full_managed_backfill.mjs\<close>, end to end.

  \<^bold>\<open>Mappers and queries.\<close> \<open>Purchase_Order\<close>, \<open>Delivery\<close>, \<open>Inventory\<close> and \<open>Sku_Sales\<close> are the modules of
  \<open>src/domain\<close> of these names, \<open>Paginated_Fetch\<close> and \<open>Openapi_Queries\<close> the page loop and the two bounded queries of
  \<open>src/openapi\<close>. \<open>Domain_Properties\<close>, \<open>Inventory_Properties\<close>, \<open>Sales_Properties\<close>, \<open>Pagination_Properties\<close> and
  \<open>Query_Properties\<close> show that times are read as Shanghai time, that totals and coverage are exact, that a page
  sequence is what the source served and that a fixed catalog is fetched completely.

  \<^bold>\<open>Authorization.\<close> A reviewed batch of stores is authorized through the platform's redirect: a start records an
  attempt under the hash of a random state, the callback claims that state once, exchanges the token, verifies
  the identity and completes the store with a secret receipt.
  \<^item> \<open>Authorization_Store\<close>: \<open>src/authorization/file-store.mjs\<close>, the state file with its validation; every
    operation is a critical section over the file.
  \<^item> \<open>Authorization_Properties\<close>: every operation is one of a few steps of the state machine; the locale
    \<open>store_invariant\<close> carries a property of the steps to every run and is interpreted for each of: one active
    batch, bindings that are unique, bounded attempts, a file that the next read accepts, one open attempt.
  \<^item> \<open>Authorization_Service\<close>, \<open>Authorization_Service_Properties\<close>: \<open>service.mjs\<close>, with the calls that other
    requests make while a callback waits.
  \<^item> \<open>Authorization_Server\<close>: \<open>server.mjs\<close>, the request handler.

  \<^bold>\<open>Webhook runtime.\<close> The receiver verifies a delivery and stores a receipt and its job in one transaction; workers
  claim jobs under leases, decrypt and normalize the payload and complete or release the job; an authorization
  change closes the gate of its store until a newer probe reopens it.
  \<^item> \<open>Webhook_Registry\<close>, \<open>Webhook_Crypto\<close>, \<open>Webhook_Payload\<close>, \<open>Webhook_Credentials\<close>: \<open>event-registry.mjs\<close>,
    \<open>crypto.mjs\<close>, \<open>payload.mjs\<close> and \<open>credentials.mjs\<close> of \<open>src/webhook\<close>. Bytes are words of eight bits.
  \<^item> \<open>Webhook_Repository\<close>: \<open>src/warehouse/webhook-repository.mjs\<close>, the tables of
    \<open>db/migrations/0005_webhook_runtime.sql\<close> and \<open>scripts/requeue_full_managed_webhook_dead_letters.mjs\<close>.
  \<^item> \<open>Webhook_Queue\<close>, \<open>Webhook_Queue_Properties\<close>: the calls as a datatype, what each does to one job as the
    inductive relation \<open>job_move\<close>, and the locale \<open>db_invariant\<close> that carries an invariant over every run of calls,
    interpreted for the tables, the effects of jobs and the gates.
  \<^item> \<open>Webhook_Receiver\<close>, \<open>Webhook_Receiver_Properties\<close>: \<open>receiver.mjs\<close>.
  \<^item> \<open>Webhook_Normalizer\<close>, \<open>Webhook_Worker\<close>, \<open>Webhook_Worker_Properties\<close>: \<open>normalizer.mjs\<close> and \<open>worker.mjs\<close>; a worker
    that keeps coming back settles every job.
  \<^item> \<open>Webhook_Hydration\<close>, \<open>Webhook_Hydration_Properties\<close>: \<open>hydration-repository.mjs\<close> and
    \<open>scripts/run_full_managed_webhook_hydration.mjs\<close>, the second queue: directives that finished jobs left are read
    back through the supply synchronisation. The locale \<open>hydration_invariant\<close> carries an invariant over the calls of
    both queues and gives \<open>db_invariant\<close>. What confirms a completion is said of call, answer and rows alone, and
    every directive that has ended is traced to what the run notes or to others.

  \<^bold>\<open>Dashboard sign-in.\<close> Users come from a private file; a sign-in reserves a place under the rate limit of its
  client, checks the password in one of a few slots and gets a signed session token, which requests present and
  which is refreshed while it is used; a request passes the gate with a session only.
  \<^item> \<open>Dashboard_Users\<close>: the first half of \<open>src/server/auth.mjs\<close> and \<open>dashboard-access.mjs\<close>: hashes, users, access.
  \<^item> \<open>Dashboard_Auth\<close>: its second half. The records of the rate limit are shared objects, which the model keeps as
    positions in a growing list of cells; \<open>authenticate\<close> is two steps, between which other sign-ins run.
  \<^item> \<open>Dashboard_Gate\<close>: the request handler of \<open>app.mjs\<close> up to the pages, and the body of a sign-in.
  \<^item> \<open>Dashboard_Auth_Properties\<close>: runs of attempts and verdicts in any order; the locale \<open>sign_in_invariant\<close> carries
    an invariant over them and is interpreted for the limits and for the slots: failures of a client are bounded in
    every period, a refused client that waits as told is refused again only when others hold all places, and an
    unreadable name keeps its slot.
  \<^item> \<open>Dashboard_Session_Properties\<close>: which tokens are accepted and for how long, that a browser which keeps the cookies it is
    given stays signed in, the equal cost of checks, what the configuration guarantees and what a request needs.

  \<^bold>\<open>Bounds and fuel.\<close> The page loop recurses on its maximum of pages, which the source enforces; attempts of a window
  run to 99 and jobs to 8, as the code checks; SKU queries hold at most 100 codes; the visit of an identity goes 9
  levels deep and the walk over a payload visits at most 256 objects, as in the code. The unpacking of a payload may
  follow embedded texts without end in principle, so it is a partial function, and \<open>unpack_ends\<close> shows that it
  returns for every parser with \<open>compact_json\<close>. Nine rounds a job are enough for the worker: eight claims and one
  more that finds an expired last lease.

  \<^bold>\<open>Not modelled.\<close> Failing connections inside the ledger's transactions and the identity gaps they leave; lock files,
  file modes and disk failures of the state file; the parsing of URLs and the static pages of the authorization
  server; sockets, their timeouts and logging; characters beyond code unit 255, and with them the Chinese labels;
  clocks of the database below a millisecond; the size checks of printed \<open>jsonb\<close> values, which repeat the code's.
  Within one lane of the runner a window is one atomic step, and lanes that are still running when a run is
  rejected are not followed further. Of the webhook repository the subscription table, the heartbeats and the
  read-only health and list queries are left out. Of the dashboard server the HTML of the sign-in page and everything behind the gate are
  left out: the queries, the update stream and the store login. Outside these planes nothing is modelled: the
  materializers and pages of the dashboard, product identity, the browser-side collection, the warehouse writers, migrations and
  operating scripts are SQL, transport, automation or presentation, as the list of components says.
\<close>

end
